(* ===== verification/Prelude.thy ===== *)
theory Prelude
  imports "HOL-Library.Word" "HOL-Library.State_Monad"
begin

section \<open>Types, automation and generic lemmas of the development\<close>

text \<open>
  The device software of the repository is C for a 32-bit little-endian target. This theory
  fixes the names of the machine types, the reading of pointers, and the facts on words,
  lists and the state monad that every component uses.

  \<^item> \<open>u8\<close>, \<open>u16\<close>, \<open>u32\<close>, \<open>u64\<close> are words of that width: \<open>+\<close>, \<open>-\<close>, \<open>*\<close> wrap.
  \<^item> \<open>'a ptr\<close> is a pointer to one object that no other argument aliases: \<open>None\<close> is the
    null pointer, \<open>Some x\<close> points at \<open>x\<close>. A function that writes through it returns the
    updated pointer.
  \<^item> code that touches hardware is a value of the library's state monad over the device.
\<close>

unbundle bit_operations_syntax

type_synonym u8 = "8 word"
type_synonym u16 = "16 word"
type_synonym u32 = "32 word"
type_synonym u64 = "64 word"
type_synonym 'a ptr = "'a option"

abbreviation null :: "'a ptr" where
  "null \<equiv> None"

text \<open>Facts that evaluate a monadic program on a device.\<close>

named_theorems run_simps

lemma run_state_if [run_simps, simp]:
  "run_state (if c then m else n) s = (if c then run_state m s else run_state n s)"
  by simp

lemma run_state_Let [run_simps, simp]:
  "run_state (let x = a in f x) s = (let x = a in run_state (f x) s)"
  by (simp add: Let_def)

text \<open>Reading one bit as a number, and a byte of a word.\<close>

lemma bit_push_bit_iff_word:
  fixes w :: "'a::len word"
  shows "bit (push_bit m w) n \<longleftrightarrow> m \<le> n \<and> n < LENGTH('a) \<and> bit w (n - m)"
  by (auto simp: bit_push_bit_iff)

lemma word_and_one_iff:
  fixes w :: "'a::len word"
  shows "w AND 1 = (if bit w 0 then 1 else 0)"
  by (simp add: and_one_eq bit_0 odd_iff_mod_2_eq_one)

lemma unat_push_bit:
  fixes w :: "'a::len word"
  assumes "unat w * 2 ^ n < 2 ^ LENGTH('a)"
  shows "unat (push_bit n w) = unat w * 2 ^ n"
  unfolding unsigned_push_bit_eq using assms by (simp add: take_bit_nat_eq_self push_bit_eq_mult)

lemma xor_cancel_right [simp]: "a XOR c = b XOR c \<longleftrightarrow> a = (b :: 'a::len word)"
proof
  assume "a XOR c = b XOR c"
  then have "a XOR (c XOR c) = b XOR (c XOR c)" by (simp only: xor.assoc [symmetric])
  then show "a = b" by simp
qed simp

lemma xor_cancel_left [simp]: "c XOR a = c XOR b \<longleftrightarrow> a = (b :: 'a::len word)"
  using xor_cancel_right [of a c b] by (simp add: xor.commute)

lemma unat_less_2p: "unat (w :: 'a::len word) < 2 ^ LENGTH('a)"
  by (rule unsigned_less)

lemma unat_drop_bit:
  fixes w :: "'a::len word"
  shows "unat (drop_bit n w) = unat w div 2 ^ n"
  unfolding unat_drop_bit_eq by (simp add: drop_bit_eq_div)

lemma unat_of_nat_le:
  "n \<le> unat (w :: 'a::len word) \<Longrightarrow> unat (of_nat n :: 'a word) = n"
  by (metis unat_of_nat unat_less_2p mod_less le_less_trans)

lemma unat_ucast_up:
  fixes w :: "'a::len word"
  assumes "LENGTH('a) \<le> LENGTH('b::len)"
  shows "unat (ucast w :: 'b word) = unat w"
proof -
  have "unat w < 2 ^ LENGTH('b)"
    using unat_less_2p [of w] power_increasing [OF assms, of "2 :: nat"] by linarith
  then show ?thesis by (simp add: unsigned_ucast_eq take_bit_nat_eq_self_iff)
qed

text \<open>Masking with ones keeps exactly the small values.\<close>

lemma and_mask_id_iff:
  fixes w :: "'a::len word"
  shows "w AND mask k = w \<longleftrightarrow> unat w < 2 ^ k"
proof -
  have "w AND mask k = w \<longleftrightarrow> unat (take_bit k w) = unat w"
    by (simp add: take_bit_eq_mask word_unat_eq_iff)
  then show ?thesis by (simp add: unsigned_take_bit_eq take_bit_nat_eq_self_iff)
qed

text \<open>The bits of the all-ones numerals, which register fields use as masks. (The library
  turns a bit of a word numeral into a bit of the integer numeral.)\<close>

lemma bit_ones: "m = 2 ^ k - 1 \<Longrightarrow> bit (m :: int) n \<longleftrightarrow> n < k"
  by (simp add: bit_mask_iff flip: mask_eq_exp_minus_1)

lemma bit_mask_numeral [simp]:
  "bit (3 :: int) n \<longleftrightarrow> n < 2" "bit (7 :: int) n \<longleftrightarrow> n < 3" "bit (15 :: int) n \<longleftrightarrow> n < 4"
  "bit (31 :: int) n \<longleftrightarrow> n < 5" "bit (63 :: int) n \<longleftrightarrow> n < 6" "bit (127 :: int) n \<longleftrightarrow> n < 7"
  "bit (255 :: int) n \<longleftrightarrow> n < 8" "bit (1023 :: int) n \<longleftrightarrow> n < 10" "bit (2047 :: int) n \<longleftrightarrow> n < 11"
  "bit (4095 :: int) n \<longleftrightarrow> n < 12" "bit (8191 :: int) n \<longleftrightarrow> n < 13" "bit (32767 :: int) n \<longleftrightarrow> n < 15"
  "bit (65535 :: int) n \<longleftrightarrow> n < 16" "bit (4294967295 :: int) n \<longleftrightarrow> n < 32"
  by (rule bit_ones, simp)+

text \<open>C strings are lists of bytes; \<open>str\<close> gives the bytes of a literal, without its terminator.\<close>

type_synonym cstring = "u8 list"

definition str :: "string \<Rightarrow> cstring" where
  "str s = map (\<lambda>c. of_nat (of_char c)) s"

abbreviation chr :: "char \<Rightarrow> u8" where
  "chr c \<equiv> of_nat (of_char c)"

lemma str_Nil [simp]: "str [] = []"
  by (simp add: str_def)

lemma str_Cons [simp]: "str (c # s) = chr c # str s"
  by (simp add: str_def)

text \<open>The character at an index of a terminated string: the terminator follows the last byte.\<close>

definition char_at :: "cstring \<Rightarrow> nat \<Rightarrow> u8" where
  "char_at s k = (if k < length s then s ! k else 0)"

end
