(* ===== verification/Bitfield.thy ===== *)
theory Bitfield
  imports Prelude
begin

section \<open>Bit fields of a 32-bit register\<close>

text \<open>
  \<^verbatim>\<open>sw/device/lib/base/bitfield.h\<close>: a field is a mask and a position; reading shifts down
  and masks, writing clears the field and ors the masked value in. A bit is the field of
  width one. The compiler builtins of the header are written out as searches over the 32
  bit positions.
\<close>

record bitfield_field32 =
  field_mask :: u32
  field_index :: u32

definition bitfield_field32_read :: "u32 \<Rightarrow> bitfield_field32 \<Rightarrow> u32" where
  "bitfield_field32_read bitfield field =
     drop_bit (unat (field_index field)) bitfield AND field_mask field"

definition bitfield_field32_write :: "u32 \<Rightarrow> bitfield_field32 \<Rightarrow> u32 \<Rightarrow> u32" where
  "bitfield_field32_write bitfield field value =
     (bitfield AND NOT (push_bit (unat (field_index field)) (field_mask field)))
       OR push_bit (unat (field_index field)) (value AND field_mask field)"

type_synonym bitfield_bit32_index = u32

definition bitfield_bit32_to_field32 :: "bitfield_bit32_index \<Rightarrow> bitfield_field32" where
  "bitfield_bit32_to_field32 bit_index = \<lparr>field_mask = 1, field_index = bit_index\<rparr>"

definition bitfield_bit32_read :: "u32 \<Rightarrow> bitfield_bit32_index \<Rightarrow> bool" where
  "bitfield_bit32_read bitfield bit_index \<longleftrightarrow>
     bitfield_field32_read bitfield (bitfield_bit32_to_field32 bit_index) = 1"

definition bitfield_bit32_write :: "u32 \<Rightarrow> bitfield_bit32_index \<Rightarrow> bool \<Rightarrow> u32" where
  "bitfield_bit32_write bitfield bit_index value =
     bitfield_field32_write bitfield (bitfield_bit32_to_field32 bit_index)
       (if value then 1 else 0)"

definition bitfield_bit32_copy ::
  "u32 \<Rightarrow> bitfield_bit32_index \<Rightarrow> u32 \<Rightarrow> bitfield_bit32_index \<Rightarrow> u32" where
  "bitfield_bit32_copy dest dest_bit src src_bit =
     bitfield_bit32_write dest dest_bit (bitfield_bit32_read src src_bit)"

definition bitfield_find_first_set32 :: "u32 \<Rightarrow> int" where
  "bitfield_find_first_set32 bitfield =
     (case filter (bit bitfield) [0..<32] of [] \<Rightarrow> 0 | i # _ \<Rightarrow> int i + 1)"

definition bitfield_count_leading_zeroes32 :: "u32 \<Rightarrow> int" where
  "bitfield_count_leading_zeroes32 bitfield =
     (if bitfield \<noteq> 0 then 31 - int (last (filter (bit bitfield) [0..<32])) else 32)"

definition bitfield_count_trailing_zeroes32 :: "u32 \<Rightarrow> int" where
  "bitfield_count_trailing_zeroes32 bitfield =
     (if bitfield \<noteq> 0 then int (hd (filter (bit bitfield) [0..<32])) else 32)"

definition bitfield_popcount32 :: "u32 \<Rightarrow> int" where
  "bitfield_popcount32 bitfield = int (length (filter (bit bitfield) [0..<32]))"

definition bitfield_parity32 :: "u32 \<Rightarrow> int" where
  "bitfield_parity32 bitfield = int (length (filter (bit bitfield) [0..<32])) mod 2"

definition bitfield_byteswap32 :: "u32 \<Rightarrow> u32" where
  "bitfield_byteswap32 bitfield =
     push_bit 24 (bitfield AND 0xff) OR push_bit 8 (bitfield AND 0xff00)
       OR (drop_bit 8 bitfield AND 0xff00) OR (drop_bit 24 bitfield AND 0xff)"

definition bitfield_is_power_of_two32 :: "u32 \<Rightarrow> bool" where
  "bitfield_is_power_of_two32 bitfield \<longleftrightarrow>
     bitfield \<noteq> 0 \<and> bitfield AND (bitfield - 1) = 0"

subsection \<open>Bits of the results\<close>

lemma bit_field32_read:
  "bit (bitfield_field32_read w f) n \<longleftrightarrow>
     bit w (unat (field_index f) + n) \<and> bit (field_mask f) n"
  by (simp add: bitfield_field32_read_def bit_and_iff bit_drop_bit_eq)

lemma bit_field32_write:
  "bit (bitfield_field32_write w f v) n \<longleftrightarrow> n < 32 \<and>
     (if unat (field_index f) \<le> n \<and> bit (field_mask f) (n - unat (field_index f))
      then bit v (n - unat (field_index f)) else bit w n)"
  by (auto simp: bitfield_field32_write_def bit_or_iff bit_and_iff bit_not_iff
      bit_push_bit_iff dest: bit_imp_le_length)

lemma bit_bit32_write:
  assumes "unat i < 32"
  shows "bit (bitfield_bit32_write w i v) n \<longleftrightarrow> n < 32 \<and> (if n = unat i then v else bit w n)"
  using assms
  by (auto simp: bitfield_bit32_write_def bit_field32_write bitfield_bit32_to_field32_def bit_1_iff)

lemma bitfield_bit32_read_iff: "bitfield_bit32_read w i \<longleftrightarrow> bit w (unat i)"
proof -
  have "drop_bit (unat i) w AND 1 = (if bit w (unat i) then 1 else 0 :: u32)"
    by (simp add: word_and_one_iff bit_drop_bit_eq)
  then show ?thesis
    by (simp add: bitfield_bit32_read_def bitfield_field32_read_def bitfield_bit32_to_field32_def)
qed

lemma bitfield_bit32_read_write:
  assumes "unat i < 32"
  shows "bitfield_bit32_read (bitfield_bit32_write w i v) j \<longleftrightarrow>
    (if i = j then v else bitfield_bit32_read w j)"
proof (cases "i = j")
  case False
  then have "unat i \<noteq> unat j" by (simp add: word_unat_eq_iff)
  with False show ?thesis
    using bit_imp_le_length [of w "unat j"] by (auto simp: bitfield_bit32_read_iff bit_bit32_write [OF assms])
next
  case True
  with assms show ?thesis by (simp add: bitfield_bit32_read_iff bit_bit32_write)
qed

subsection \<open>Fields\<close>

text \<open>A field fits when no bit of its mask is shifted out.\<close>

definition field32_fits :: "bitfield_field32 \<Rightarrow> bool" where
  "field32_fits f \<longleftrightarrow>
     drop_bit (unat (field_index f)) (push_bit (unat (field_index f)) (field_mask f)) = field_mask f"

definition field32_disjoint :: "bitfield_field32 \<Rightarrow> bitfield_field32 \<Rightarrow> bool" where
  "field32_disjoint f g \<longleftrightarrow>
     push_bit (unat (field_index f)) (field_mask f) AND push_bit (unat (field_index g)) (field_mask g) = 0"

lemma field32_fits_bit:
  assumes "field32_fits f" "bit (field_mask f) n"
  shows "unat (field_index f) + n < 32"
proof -
  from assms have "bit (drop_bit (unat (field_index f)) (push_bit (unat (field_index f)) (field_mask f))) n"
    by (simp add: field32_fits_def)
  then show ?thesis by (auto simp: bit_drop_bit_eq bit_push_bit_iff)
qed

lemma field32_read_write_same:
  assumes "field32_fits f"
  shows "bitfield_field32_read (bitfield_field32_write w f v) f = v AND field_mask f"
  by (rule bit_word_eqI)
    (auto simp: bit_field32_read bit_field32_write bit_and_iff dest: field32_fits_bit[OF assms])

lemma field32_read_write_other:
  assumes d: "field32_disjoint f g" and g: "field32_fits g"
  shows "bitfield_field32_read (bitfield_field32_write w f v) g = bitfield_field32_read w g"
proof (rule bit_word_eqI)
  fix n :: nat
  let ?n = "unat (field_index g) + n"
  have "bit (field_mask g) n \<Longrightarrow> \<not> (unat (field_index f) \<le> ?n \<and> bit (field_mask f) (?n - unat (field_index f)))"
  proof
    assume n: "bit (field_mask g) n"
      and f: "unat (field_index f) \<le> ?n \<and> bit (field_mask f) (?n - unat (field_index f))"
    from n have "?n < 32" by (rule field32_fits_bit[OF g])
    with n f have "bit (push_bit (unat (field_index f)) (field_mask f)
        AND push_bit (unat (field_index g)) (field_mask g)) ?n"
      by (simp add: bit_and_iff bit_push_bit_iff)
    with d show False by (simp add: field32_disjoint_def)
  qed
  then show "bit (bitfield_field32_read (bitfield_field32_write w f v) g) n =
      bit (bitfield_field32_read w g) n"
    using field32_fits_bit[OF g, of n] by (auto simp: bit_field32_read bit_field32_write)
qed

lemma field32_write_write_same:
  "bitfield_field32_write (bitfield_field32_write w f v) f v' = bitfield_field32_write w f v'"
  by (rule bit_word_eqI) (auto simp: bit_field32_write)

lemma field32_write_read_id:
  assumes "field32_fits f"
  shows "bitfield_field32_write w f (bitfield_field32_read w f) = w"
  by (rule bit_word_eqI) (auto simp: bit_field32_read bit_field32_write dest: bit_imp_le_length)

text \<open>A bit against a field: the index lies outside the field.\<close>

definition outside_field :: "bitfield_bit32_index \<Rightarrow> bitfield_field32 \<Rightarrow> bool" where
  "outside_field i f \<longleftrightarrow>
     \<not> (unat (field_index f) \<le> unat i \<and> bit (field_mask f) (unat i - unat (field_index f)))"

lemma field32_read_bit32_write:
  assumes "unat i < 32" "outside_field i f"
  shows "bitfield_field32_read (bitfield_bit32_write w i v) f = bitfield_field32_read w f"
proof (rule bit_word_eqI)
  fix n
  have "\<not> bit (field_mask f) n" if "unat (field_index f) + n = unat i"
  proof -
    from that have "n = unat i - unat (field_index f)" "unat (field_index f) \<le> unat i" by simp_all
    with assms(2) show ?thesis by (simp add: outside_field_def)
  qed
  then show "bit (bitfield_field32_read (bitfield_bit32_write w i v) f) n = bit (bitfield_field32_read w f) n"
    using assms(1) by (auto simp: bit_field32_read bit_bit32_write dest: bit_imp_le_length)
qed

lemma bit32_read_field32_write:
  assumes "outside_field i f"
  shows "bitfield_bit32_read (bitfield_field32_write w f v) i \<longleftrightarrow> bitfield_bit32_read w i"
  using assms by (auto simp: bitfield_bit32_read_iff bit_field32_write outside_field_def dest: bit_imp_le_length)

lemma bitfield_bit32_read_0 [simp]: "\<not> bitfield_bit32_read 0 i"
  by (simp add: bitfield_bit32_read_iff)

lemma bitfield_field32_read_0 [simp]: "bitfield_field32_read 0 f = 0"
  by (simp add: bitfield_field32_read_def)

text \<open>What was written is read back, for concrete fields and bits.\<close>

lemmas read_write_simps =
  bitfield_bit32_read_write field32_read_bit32_write bit32_read_field32_write
  field32_read_write_same field32_read_write_other outside_field_def field32_fits_def field32_disjoint_def

end
