(* ===== verification/Memory.thy ===== *)
theory Memory
  imports Prelude
begin

section \<open>The memory functions of the device library\<close>

text \<open>
  \<^verbatim>\<open>sw/device/lib/base/memory.c\<close> and the inline functions of \<^verbatim>\<open>memory.h\<close>. Memory is a map
  from 32-bit addresses to bytes, a pointer is an address and \<open>0\<close> is the null pointer.
  Each function splits its buffers into an unaligned head, a word-aligned body and a tail
  (\<open>compute_alignment\<close>) and runs one loop per part. A loop over \<open>size_t\<close> is recursion on a
  \<open>nat\<close> counter: it starts at zero and stops at \<open>len\<close>, so the counter never wraps; the
  addresses it forms are words.
\<close>

type_synonym addr = u32
type_synonym memory = "addr \<Rightarrow> u8"

abbreviation (input) NULL :: addr where
  "NULL \<equiv> 0"

subsection \<open>Words in memory\<close>

definition misalignment32_of :: "u32 \<Rightarrow> u32" where
  "misalignment32_of addr = addr mod 4"

definition le32 :: "u8 \<Rightarrow> u8 \<Rightarrow> u8 \<Rightarrow> u8 \<Rightarrow> u32" where
  "le32 b0 b1 b2 b3 =
     ucast b0 OR push_bit 8 (ucast b1) OR push_bit 16 (ucast b2) OR push_bit 24 (ucast b3)"

definition byte32 :: "u32 \<Rightarrow> nat \<Rightarrow> u8" where
  "byte32 w k = ucast (drop_bit (8 * k) w)"

definition read_32 :: "memory \<Rightarrow> addr \<Rightarrow> u32" where
  "read_32 m p = le32 (m p) (m (p + 1)) (m (p + 2)) (m (p + 3))"

definition write_32 :: "u32 \<Rightarrow> addr \<Rightarrow> memory \<Rightarrow> memory" where
  "write_32 v p m =
     m(p := byte32 v 0, p + 1 := byte32 v 1, p + 2 := byte32 v 2, p + 3 := byte32 v 3)"

definition bswap32 :: "u32 \<Rightarrow> u32" where
  "bswap32 w = le32 (byte32 w 3) (byte32 w 2) (byte32 w 1) (byte32 w 0)"

subsection \<open>Alignment of the two buffers\<close>

definition compute_num_leading_bytes :: "addr \<Rightarrow> addr \<Rightarrow> u32 \<Rightarrow> u32" where
  "compute_num_leading_bytes left right len =
     (if len < 4 then len
      else let left_ahead = misalignment32_of left;
               right_ahead = misalignment32_of right
           in if right = NULL \<or> left_ahead = right_ahead then (4 - left_ahead) AND 3
              else len)"

definition compute_alignment :: "addr \<Rightarrow> addr \<Rightarrow> u32 \<Rightarrow> u32 \<times> u32" where
  "compute_alignment left right len =
     (let num_leading_bytes = compute_num_leading_bytes left right len;
          num_words = (len - num_leading_bytes) div 4
      in (num_leading_bytes, num_leading_bytes + num_words * 4))"

definition repeat_byte_to_u32 :: "u8 \<Rightarrow> u32" where
  "repeat_byte_to_u32 byte =
     (let word = ucast byte in push_bit 24 word OR push_bit 16 word OR push_bit 8 word OR word)"

subsection \<open>Copying and filling\<close>

function memcpy_bytes :: "addr \<Rightarrow> addr \<Rightarrow> nat \<Rightarrow> nat \<Rightarrow> memory \<Rightarrow> memory" where
  "memcpy_bytes dest8 src8 i bound m =
     (if i < bound
      then memcpy_bytes dest8 src8 (i + 1) bound (m(dest8 + of_nat i := m (src8 + of_nat i)))
      else m)"
  by pat_completeness auto
termination
  by (relation "measure (\<lambda>(d, s, i, n, m). n - i)") auto

function memcpy_words :: "addr \<Rightarrow> addr \<Rightarrow> nat \<Rightarrow> nat \<Rightarrow> memory \<Rightarrow> memory" where
  "memcpy_words dest8 src8 i bound m =
     (if i < bound
      then let word = read_32 m (src8 + of_nat i)
           in memcpy_words dest8 src8 (i + 4) bound (write_32 word (dest8 + of_nat i) m)
      else m)"
  by pat_completeness auto
termination
  by (relation "measure (\<lambda>(d, s, i, n, m). n - i)") auto

definition memcpy :: "addr \<Rightarrow> addr \<Rightarrow> u32 \<Rightarrow> memory \<Rightarrow> addr \<times> memory" where
  "memcpy dest src len m =
     (if dest = NULL \<or> src = NULL then (dest, m)
      else case compute_alignment dest src len of (body_offset, tail_offset) \<Rightarrow>
        let m = memcpy_bytes dest src 0 (unat body_offset) m;
            m = memcpy_words dest src (unat body_offset) (unat tail_offset) m;
            m = memcpy_bytes dest src (unat tail_offset) (unat len) m
        in (dest, m))"

function memset_bytes :: "addr \<Rightarrow> u8 \<Rightarrow> nat \<Rightarrow> nat \<Rightarrow> memory \<Rightarrow> memory" where
  "memset_bytes dest8 value8 i bound m =
     (if i < bound then memset_bytes dest8 value8 (i + 1) bound (m(dest8 + of_nat i := value8))
      else m)"
  by pat_completeness auto
termination
  by (relation "measure (\<lambda>(d, v, i, n, m). n - i)") auto

function memset_words :: "addr \<Rightarrow> u32 \<Rightarrow> nat \<Rightarrow> nat \<Rightarrow> memory \<Rightarrow> memory" where
  "memset_words dest8 value32 i bound m =
     (if i < bound
      then memset_words dest8 value32 (i + 4) bound (write_32 value32 (dest8 + of_nat i) m)
      else m)"
  by pat_completeness auto
termination
  by (relation "measure (\<lambda>(d, v, i, n, m). n - i)") auto

definition memset :: "addr \<Rightarrow> u32 \<Rightarrow> u32 \<Rightarrow> memory \<Rightarrow> addr \<times> memory" where
  "memset dest value len m =
     (let value8 = ucast value;
          value32 = repeat_byte_to_u32 value8
      in case compute_alignment dest NULL len of (body_offset, tail_offset) \<Rightarrow>
        let m = memset_bytes dest value8 0 (unat body_offset) m;
            m = memset_words dest value32 (unat body_offset) (unat tail_offset) m;
            m = memset_bytes dest value8 (unat tail_offset) (unat len) m
        in (dest, m))"

subsection \<open>Comparing\<close>

text \<open>A comparison loop returns \<open>Some\<close> of the value the function returns from inside it, or
  \<open>None\<close> when it runs to its end.\<close>

definition kMemCmpEq :: int where
  "kMemCmpEq = 0"

definition kMemCmpLt :: int where
  "kMemCmpLt = - 42"

definition kMemCmpGt :: int where
  "kMemCmpGt = 42"

function memcmp_bytes :: "memory \<Rightarrow> addr \<Rightarrow> addr \<Rightarrow> nat \<Rightarrow> nat \<Rightarrow> int option" where
  "memcmp_bytes m lhs8 rhs8 i bound =
     (if i < bound
      then if m (lhs8 + of_nat i) < m (rhs8 + of_nat i) then Some kMemCmpLt
           else if m (lhs8 + of_nat i) > m (rhs8 + of_nat i) then Some kMemCmpGt
           else memcmp_bytes m lhs8 rhs8 (i + 1) bound
      else None)"
  by pat_completeness auto
termination
  by (relation "measure (\<lambda>(m, l, r, i, n). n - i)") auto

function memcmp_words :: "memory \<Rightarrow> addr \<Rightarrow> addr \<Rightarrow> nat \<Rightarrow> nat \<Rightarrow> int option" where
  "memcmp_words m lhs8 rhs8 i bound =
     (if i < bound
      then let word_left = bswap32 (read_32 m (lhs8 + of_nat i));
               word_right = bswap32 (read_32 m (rhs8 + of_nat i))
           in if word_left < word_right then Some kMemCmpLt
              else if word_left > word_right then Some kMemCmpGt
              else memcmp_words m lhs8 rhs8 (i + 4) bound
      else None)"
  by pat_completeness auto
termination
  by (relation "measure (\<lambda>(m, l, r, i, n). n - i)") auto

definition memcmp :: "memory \<Rightarrow> addr \<Rightarrow> addr \<Rightarrow> u32 \<Rightarrow> int" where
  "memcmp m lhs rhs len =
     (case compute_alignment lhs rhs len of (body_offset, tail_offset) \<Rightarrow>
        case memcmp_bytes m lhs rhs 0 (unat body_offset) of Some r \<Rightarrow> r
        | None \<Rightarrow> (case memcmp_words m lhs rhs (unat body_offset) (unat tail_offset) of Some r \<Rightarrow> r
        | None \<Rightarrow> (case memcmp_bytes m lhs rhs (unat tail_offset) (unat len) of Some r \<Rightarrow> r
        | None \<Rightarrow> kMemCmpEq)))"

fun memrcmp_bytes :: "memory \<Rightarrow> addr \<Rightarrow> addr \<Rightarrow> nat \<Rightarrow> nat \<Rightarrow> int option" where
  "memrcmp_bytes m lhs8 rhs8 endp bound =
     (if bound < endp
      then let i = endp - 1
           in if m (lhs8 + of_nat i) < m (rhs8 + of_nat i) then Some kMemCmpLt
              else if m (lhs8 + of_nat i) > m (rhs8 + of_nat i) then Some kMemCmpGt
              else memrcmp_bytes m lhs8 rhs8 (endp - 1) bound
      else None)"

fun memrcmp_words :: "memory \<Rightarrow> addr \<Rightarrow> addr \<Rightarrow> nat \<Rightarrow> nat \<Rightarrow> int option" where
  "memrcmp_words m lhs8 rhs8 endp bound =
     (if bound < endp
      then let i = endp - 4;
               word_left = read_32 m (lhs8 + of_nat i);
               word_right = read_32 m (rhs8 + of_nat i)
           in if word_left < word_right then Some kMemCmpLt
              else if word_left > word_right then Some kMemCmpGt
              else memrcmp_words m lhs8 rhs8 (endp - 4) bound
      else None)"

definition memrcmp :: "memory \<Rightarrow> addr \<Rightarrow> addr \<Rightarrow> u32 \<Rightarrow> int" where
  "memrcmp m lhs rhs len =
     (case compute_alignment lhs rhs len of (body_offset, tail_offset) \<Rightarrow>
        case memrcmp_bytes m lhs rhs (unat len) (unat tail_offset) of Some r \<Rightarrow> r
        | None \<Rightarrow> (case memrcmp_words m lhs rhs (unat tail_offset) (unat body_offset) of Some r \<Rightarrow> r
        | None \<Rightarrow> (case memrcmp_bytes m lhs rhs (unat body_offset) 0 of Some r \<Rightarrow> r
        | None \<Rightarrow> kMemCmpEq)))"

subsection \<open>Searching\<close>

function memchr_bytes :: "memory \<Rightarrow> addr \<Rightarrow> u8 \<Rightarrow> nat \<Rightarrow> nat \<Rightarrow> nat + addr" where
  "memchr_bytes m ptr8 value8 i bound =
     (if i < bound
      then if m (ptr8 + of_nat i) = value8 then Inr (ptr8 + of_nat i)
           else memchr_bytes m ptr8 value8 (i + 1) bound
      else Inl i)"
  by pat_completeness auto
termination
  by (relation "measure (\<lambda>(m, p, v, i, n). n - i)") auto

function memchr_words :: "memory \<Rightarrow> addr \<Rightarrow> u32 \<Rightarrow> nat \<Rightarrow> nat \<Rightarrow> nat + addr" where
  "memchr_words m ptr8 value32 i bound =
     (if i < bound
      then let word = read_32 m (ptr8 + of_nat i);
               bits_eq = NOT (word XOR value32)
           in if bits_eq AND 0xff = 0xff then Inr (ptr8 + of_nat i)
              else if drop_bit 8 bits_eq AND 0xff = 0xff then Inr (ptr8 + of_nat (i + 1))
              else if drop_bit 16 bits_eq AND 0xff = 0xff then Inr (ptr8 + of_nat (i + 2))
              else if drop_bit 24 bits_eq AND 0xff = 0xff then Inr (ptr8 + of_nat (i + 3))
              else memchr_words m ptr8 value32 (i + 4) bound
      else Inl i)"
  by pat_completeness auto
termination
  by (relation "measure (\<lambda>(m, p, v, i, n). n - i)") auto

definition PTRDIFF_MAX :: u32 where
  "PTRDIFF_MAX = 0x7fffffff"

definition memchr :: "memory \<Rightarrow> addr \<Rightarrow> u32 \<Rightarrow> u32 \<Rightarrow> addr" where
  "memchr m ptr value len =
     (let value8 = ucast value
      in case compute_alignment ptr NULL len of (body_offset, tail_offset) \<Rightarrow>
        case memchr_bytes m ptr value8 0 (unat body_offset) of Inr p \<Rightarrow> p
        | Inl i \<Rightarrow>
          let tail_offset = (if len \<ge> PTRDIFF_MAX then 0 else tail_offset);
              value32 = repeat_byte_to_u32 value8
          in case memchr_words m ptr value32 i (unat tail_offset) of Inr p \<Rightarrow> p
          | Inl i \<Rightarrow> (case memchr_bytes m ptr value8 i (unat len) of Inr p \<Rightarrow> p
          | Inl _ \<Rightarrow> NULL))"

fun memrchr_bytes :: "memory \<Rightarrow> addr \<Rightarrow> u8 \<Rightarrow> nat \<Rightarrow> nat \<Rightarrow> addr option" where
  "memrchr_bytes m ptr8 value8 endp bound =
     (if bound < endp
      then let i = endp - 1
           in if m (ptr8 + of_nat i) = value8 then Some (ptr8 + of_nat i)
              else memrchr_bytes m ptr8 value8 (endp - 1) bound
      else None)"

fun memrchr_words :: "memory \<Rightarrow> addr \<Rightarrow> u32 \<Rightarrow> nat \<Rightarrow> nat \<Rightarrow> addr option" where
  "memrchr_words m ptr8 value32 endp bound =
     (if bound < endp
      then let i = endp - 4;
               word = read_32 m (ptr8 + of_nat i);
               bits_eq = NOT (word XOR value32)
           in if drop_bit 24 bits_eq AND 0xff = 0xff then Some (ptr8 + of_nat (i + 3))
              else if drop_bit 16 bits_eq AND 0xff = 0xff then Some (ptr8 + of_nat (i + 2))
              else if drop_bit 8 bits_eq AND 0xff = 0xff then Some (ptr8 + of_nat (i + 1))
              else if bits_eq AND 0xff = 0xff then Some (ptr8 + of_nat i)
              else memrchr_words m ptr8 value32 (endp - 4) bound
      else None)"

definition memrchr :: "memory \<Rightarrow> addr \<Rightarrow> u32 \<Rightarrow> u32 \<Rightarrow> addr" where
  "memrchr m ptr value len =
     (let value8 = ucast value;
          value32 = repeat_byte_to_u32 value8
      in case compute_alignment ptr NULL len of (body_offset, tail_offset) \<Rightarrow>
        case memrchr_bytes m ptr value8 (unat len) (unat tail_offset) of Some p \<Rightarrow> p
        | None \<Rightarrow> (case memrchr_words m ptr value32 (unat tail_offset) (unat body_offset) of Some p \<Rightarrow> p
        | None \<Rightarrow> (case memrchr_bytes m ptr value8 (unat body_offset) 0 of Some p \<Rightarrow> p
        | None \<Rightarrow> NULL)))"

declare memcpy_bytes.simps [simp del] memcpy_words.simps [simp del]
  memset_bytes.simps [simp del] memset_words.simps [simp del]
  memcmp_bytes.simps [simp del] memcmp_words.simps [simp del]
  memrcmp_bytes.simps [simp del] memrcmp_words.simps [simp del]
  memchr_bytes.simps [simp del] memchr_words.simps [simp del]
  memrchr_bytes.simps [simp del] memrchr_words.simps [simp del]

lemma unat_ucast_8_32 [simp]: "unat (ucast (x :: u8) :: u32) = unat x"
  using unat_less_2p [of x] by (simp add: unsigned_ucast_eq take_bit_nat_eq_self)

lemma less_4_cases:
  assumes "(k :: nat) < 4"
  obtains "k = 0" | "k = 1" | "k = 2" | "k = 3"
  using assms by linarith

subsection \<open>Bytes of a word\<close>

lemma bit_byte32: "bit (byte32 w k) n \<longleftrightarrow> n < 8 \<and> bit w (8 * k + n)"
  by (simp add: byte32_def bit_ucast_iff bit_drop_bit_eq)

lemma bit_le32:
  "bit (le32 b0 b1 b2 b3) n \<longleftrightarrow>
     (if n < 8 then bit b0 n else if n < 16 then bit b1 (n - 8)
      else if n < 24 then bit b2 (n - 16) else if n < 32 then bit b3 (n - 24) else False)"
  by (auto simp: le32_def bit_or_iff bit_push_bit_iff bit_ucast_iff dest: bit_imp_le_length)

lemma byte32_le32 [simp]:
  "byte32 (le32 b0 b1 b2 b3) 0 = b0" "byte32 (le32 b0 b1 b2 b3) (Suc 0) = b1"
  "byte32 (le32 b0 b1 b2 b3) 1 = b1" "byte32 (le32 b0 b1 b2 b3) 2 = b2"
  "byte32 (le32 b0 b1 b2 b3) 3 = b3"
  by (rule bit_word_eqI; simp add: bit_byte32 bit_le32)+

lemma le32_byte32: "le32 (byte32 w 0) (byte32 w 1) (byte32 w 2) (byte32 w 3) = w"
  by (rule bit_word_eqI) (auto simp: bit_byte32 bit_le32)

lemma le32_inject [simp]:
  "le32 a0 a1 a2 a3 = le32 b0 b1 b2 b3 \<longleftrightarrow> a0 = b0 \<and> a1 = b1 \<and> a2 = b2 \<and> a3 = b3"
  by (metis byte32_le32)

lemma le32_plus: "le32 b0 b1 b2 b3 = ucast b0 + push_bit 8 (ucast b1) + push_bit 16 (ucast b2) + push_bit 24 (ucast b3)"
proof -
  have 1: "(ucast b0 :: u32) AND push_bit 8 (ucast b1) = 0"
    and 2: "(ucast b0 OR push_bit 8 (ucast b1) :: u32) AND push_bit 16 (ucast b2) = 0"
    and 3: "(ucast b0 OR push_bit 8 (ucast b1) OR push_bit 16 (ucast b2) :: u32) AND push_bit 24 (ucast b3) = 0"
    by (rule bit_word_eqI;
        auto simp: bit_and_iff bit_or_iff bit_push_bit_iff bit_ucast_iff dest: bit_imp_le_length)+
  show ?thesis
    unfolding le32_def disjunctive_add_eq_or [OF 1, symmetric]
    using disjunctive_add_eq_or [OF 2] disjunctive_add_eq_or [OF 3] disjunctive_add_eq_or [OF 1]
    by (simp add: or.assoc)
qed

lemma unat_le32:
  "unat (le32 b0 b1 b2 b3) = unat b0 + 2 ^ 8 * unat b1 + 2 ^ 16 * unat b2 + 2 ^ 24 * unat b3"
proof -
  have b: "unat b0 < 256" "unat b1 < 256" "unat b2 < 256" "unat b3 < 256"
    using unat_less_2p [of b0] unat_less_2p [of b1] unat_less_2p [of b2] unat_less_2p [of b3] by simp_all
  have u: "unat (push_bit k (ucast x :: u32)) = unat x * 2 ^ k" if "unat x < 256" "k \<le> 24" for x :: u8 and k
  proof (subst unat_push_bit)
    have "(2 :: nat) ^ k \<le> 2 ^ 24" using that(2) by (rule power_increasing) simp
    then have "unat x * 2 ^ k < 256 * 2 ^ 24"
      using that(1) by (intro mult_less_le_imp_less) simp_all
    then show "unat (ucast x :: u32) * 2 ^ k < 2 ^ LENGTH(32)" by (simp add: unat_ucast_8_32)
  qed (simp add: unat_ucast_8_32)
  show ?thesis
    unfolding le32_plus using b by (simp add: unat_word_ariths u unat_ucast_8_32)
qed

lemma bswap32_read_32: "bswap32 (read_32 m p) = le32 (m (p + 3)) (m (p + 2)) (m (p + 1)) (m p)"
  by (simp add: bswap32_def read_32_def)

subsection \<open>The split into head, body and tail\<close>

lemma misalignment32_of_bound: "unat (misalignment32_of a) < 4"
  by (simp add: misalignment32_of_def unat_mod_distrib)

lemma leading_and_3:
  assumes "unat (x :: u32) < 4"
  shows "unat ((4 - x) AND 3) = (4 - unat x) mod 4"
proof -
  have "unat (4 - x) = 4 - unat x" using assms by (simp add: unat_sub word_le_nat_alt)
  moreover have "(4 - x) AND 3 = (4 - x) mod 4"
    using take_bit_eq_mask [of 2 "4 - x"] take_bit_eq_mod [of 2 "4 - x"]
    by (simp add: mask_eq_decr_exp)
  ultimately show ?thesis by (simp add: unat_mod_distrib)
qed

text \<open>The head ends within the buffer; when a word loop runs at all, it starts aligned and
  covers whole words.\<close>

lemma compute_num_leading_bytes_le: "compute_num_leading_bytes l r len \<le> len"
proof (cases "len < 4")
  case False
  have "unat ((4 - misalignment32_of l) AND 3) < 4"
    by (simp add: leading_and_3 misalignment32_of_bound)
  with False show ?thesis
    by (simp add: compute_num_leading_bytes_def Let_def word_le_nat_alt word_less_nat_alt)
qed (simp add: compute_num_leading_bytes_def)

definition word_aligned :: "addr \<Rightarrow> bool" where
  "word_aligned a \<longleftrightarrow> unat a mod 4 = 0"

lemma word_aligned_plus_4 [simp]: "word_aligned (a + 4) \<longleftrightarrow> word_aligned a"
proof -
  have "unat (a + 4) mod 4 = (unat a + 4) mod 4"
    by (simp add: unat_word_ariths mod_mod_cancel)
  then show ?thesis by (simp add: word_aligned_def)
qed

lemma word_aligned_leading:
  assumes "b = (4 - misalignment32_of a) AND 3"
  shows "word_aligned (a + b)"
proof -
  have "unat b = (4 - unat a mod 4) mod 4"
    unfolding assms leading_and_3 [OF misalignment32_of_bound]
    by (simp add: misalignment32_of_def unat_mod_distrib)
  moreover have "unat a mod 4 < 4" by simp
  then have "unat a + (4 - unat a mod 4) = 4 * (unat a div 4 + 1)"
    using mult_div_mod_eq [of 4 "unat a"] by arith
  ultimately have "(unat a + unat b) mod 4 = 0" by (metis mod_add_right_eq mod_mult_self1_is_0)
  then show ?thesis
    by (simp add: word_aligned_def unat_word_ariths mod_mod_cancel)
qed

lemma compute_alignment_cases:
  assumes "compute_alignment l r len = (body, tail)"
  shows "unat body \<le> unat tail" "unat tail \<le> unat len" "4 dvd unat tail - unat body"
    and "body \<noteq> tail \<Longrightarrow> word_aligned (l + body)"
    and "body \<noteq> tail \<Longrightarrow> r \<noteq> NULL \<Longrightarrow> word_aligned (r + body)"
proof -
  let ?n = "compute_num_leading_bytes l r len"
  let ?w = "(len - ?n) div 4"
  from assms have body: "body = ?n" and tail: "tail = ?n + ?w * 4"
    by (auto simp: compute_alignment_def Let_def)
  have n: "unat ?n \<le> unat len" using compute_num_leading_bytes_le [of l r len] by (simp add: word_le_nat_alt)
  have w: "unat ?w = (unat len - unat ?n) div 4"
    using compute_num_leading_bytes_le [of l r len] by (simp add: unat_div_distrib unat_sub)
  have "unat ?w * 4 \<le> unat len - unat ?n" unfolding w by simp
  then have wt: "unat ?n + unat ?w * 4 \<le> unat len" using n by simp
  then have "unat (?w * 4) = unat ?w * 4"
    using unat_less_2p [of len] by (simp add: unat_word_ariths)
  with wt have t: "unat tail = unat ?n + unat ?w * 4"
    using unat_less_2p [of len] unfolding tail by (simp add: unat_word_ariths)
  show "unat body \<le> unat tail" "unat tail \<le> unat len" "4 dvd unat tail - unat body"
    using wt unfolding body t by simp_all
  assume "body \<noteq> tail"
  then have "?n \<noteq> len" using body tail by auto
  then have n_eq: "?n = (4 - misalignment32_of l) AND 3"
    and r: "r \<noteq> NULL \<Longrightarrow> misalignment32_of l = misalignment32_of r"
    by (auto simp: compute_num_leading_bytes_def Let_def split: if_splits)
  from n_eq show "word_aligned (l + body)"
    unfolding body by (rule word_aligned_leading)
  assume "r \<noteq> NULL"
  with n_eq r have "?n = (4 - misalignment32_of r) AND 3" by simp
  then show "word_aligned (r + body)"
    unfolding body by (rule word_aligned_leading)
qed


subsection \<open>The copying and filling loops\<close>

text \<open>What a loop over the offsets \<open>i..<n\<close> leaves in memory: the bytes of the destination in
  that range come from \<open>f\<close>, all others are as before.\<close>

definition filled :: "addr \<Rightarrow> nat \<Rightarrow> nat \<Rightarrow> (addr \<Rightarrow> u8) \<Rightarrow> memory \<Rightarrow> memory" where
  "filled d i n f m = (\<lambda>a. if i \<le> unat (a - d) \<and> unat (a - d) < n then f (a - d) else m a)"

definition buffers_disjoint :: "addr \<Rightarrow> addr \<Rightarrow> nat \<Rightarrow> bool" where
  "buffers_disjoint d s n \<longleftrightarrow> n \<le> unat (s - d) \<and> n \<le> unat (d - s)"

lemma buffers_disjointD:
  assumes "buffers_disjoint d s n" "unat x < n" "unat y < n"
  shows "s + x \<noteq> d + y"
proof
  assume eq: "s + x = d + y"
  show False
  proof (cases "x \<le> y")
    case True
    from eq have "s - d = y - x" by (simp add: algebra_simps)
    with True have "unat (s - d) = unat y - unat x" by (simp add: unat_sub)
    with assms show False unfolding buffers_disjoint_def by linarith
  next
    case False
    from eq have "d - s = x - y" by (simp add: algebra_simps)
    with False have "unat (d - s) = unat x - unat y" by (simp add: unat_sub)
    with assms show False unfolding buffers_disjoint_def by linarith
  qed
qed

lemma buffers_disjoint_mono: "buffers_disjoint d s n \<Longrightarrow> k \<le> n \<Longrightarrow> buffers_disjoint d s k"
  by (auto simp: buffers_disjoint_def)

lemma offset_eq_iff:
  assumes "i < 2 ^ 32"
  shows "a = d + of_nat i \<longleftrightarrow> unat (a - d :: addr) = i"
proof -
  have "a = d + of_nat i \<longleftrightarrow> a - d = of_nat i" by (simp add: algebra_simps)
  also have "\<dots> \<longleftrightarrow> unat (a - d) = i"
    using assms by (auto simp: unat_of_nat)
  finally show ?thesis .
qed

lemma filled_end [simp]: "n \<le> i \<Longrightarrow> filled d i n f m = m"
  by (rule ext) (auto simp: filled_def)

lemma filled_byte:
  assumes "i < n" "n \<le> 2 ^ 32"
  shows "filled d (Suc i) n f (m(d + of_nat i := f (of_nat i))) = filled d i n f m"
proof
  fix a
  have "a = d + of_nat i \<longleftrightarrow> unat (a - d) = i" using assms by (intro offset_eq_iff) simp
  then show "filled d (Suc i) n f (m(d + of_nat i := f (of_nat i))) a = filled d i n f m a"
    using assms by (auto simp: filled_def)
qed

lemma filled_word:
  assumes "i + 4 \<le> n" "n \<le> 2 ^ 32"
    and "\<And>k. k < 4 \<Longrightarrow> byte32 v k = f (of_nat (i + k))"
  shows "filled d (i + 4) n f (write_32 v (d + of_nat i) m) = filled d i n f m"
proof -
  have v: "byte32 v 0 = f (of_nat i)" "byte32 v 1 = f (of_nat (i + 1))"
    "byte32 v 2 = f (of_nat (i + 2))" "byte32 v 3 = f (of_nat (i + 3))"
    using assms(3) [of 0] assms(3) [of 1] assms(3) [of 2] assms(3) [of 3] by simp_all
  have "write_32 v (d + of_nat i) m =
    ((((m(d + of_nat i := f (of_nat i)))(d + of_nat (Suc i) := f (of_nat (Suc i))))
       (d + of_nat (Suc (Suc i)) := f (of_nat (Suc (Suc i)))))
       (d + of_nat (Suc (Suc (Suc i))) := f (of_nat (Suc (Suc (Suc i))))))"
    unfolding write_32_def v by (simp add: algebra_simps numeral_eq_Suc)
  moreover have "i + 4 = Suc (Suc (Suc (Suc i)))" by simp
  ultimately show ?thesis
    using assms(1,2) by (simp only: filled_byte)
qed

lemma memset_bytes_filled:
  assumes "n \<le> 2 ^ 32"
  shows "memset_bytes d v i n m = filled d i n (\<lambda>_. v) m"
proof (induction "n - i" arbitrary: i m)
  case 0
  then show ?case by (simp add: memset_bytes.simps [of d v i n m])
next
  case (Suc k)
  then have "i < n" "k = n - Suc i" by simp_all
  with Suc.hyps(1) filled_byte [where f = "\<lambda>_. v", OF _ assms] show ?case
    by (simp add: memset_bytes.simps [of d v i n m])
qed

lemma repeat_byte_to_u32_le32: "repeat_byte_to_u32 b = le32 b b b b"
  by (rule bit_word_eqI)
    (auto simp: repeat_byte_to_u32_def le32_def Let_def bit_or_iff bit_push_bit_iff bit_ucast_iff)

lemma byte32_repeat: "k < 4 \<Longrightarrow> byte32 (repeat_byte_to_u32 b) k = b"
by (erule less_4_cases) (simp_all add: repeat_byte_to_u32_le32)

lemma memset_words_filled:
  assumes "n \<le> 2 ^ 32" "4 dvd n - i"
  shows "memset_words d (repeat_byte_to_u32 v) i n m = filled d i n (\<lambda>_. v) m"
  using assms(2)
proof (induction "(n - i) div 4" arbitrary: i m)
  case 0
  then have "n \<le> i" by (auto elim!: dvdE)
  then show ?case by (simp add: memset_words.simps [of d _ i n m])
next
  case (Suc k)
  then have i: "i + 4 \<le> n" by (auto elim!: dvdE)
  then have k: "k = (n - (i + 4)) div 4" "4 dvd n - (i + 4)"
    using Suc.hyps(2) Suc.prems by (auto simp flip: diff_diff_left)
  show ?case
    using i Suc.hyps(1) [OF k] filled_word [OF i assms(1), of "repeat_byte_to_u32 v" "\<lambda>_. v"]
    by (simp add: memset_words.simps [of d _ i n m] byte32_repeat)
qed

lemma filled_append:
  assumes "i \<le> j" "j \<le> n"
  shows "filled d j n f (filled d i j f m) = filled d i n f m"
  using assms by (auto simp: filled_def)

text \<open>The copying loops read the source through the memory they are changing; with disjoint
  buffers that is the memory before the loop.\<close>

lemma memcpy_bytes_filled:
  assumes "n \<le> 2 ^ 32" "buffers_disjoint d s n"
    and "\<forall>x. unat x < n \<longrightarrow> m (s + x) = m0 (s + x)"
  shows "memcpy_bytes d s i n m = filled d i n (\<lambda>x. m0 (s + x)) m"
    using assms(3)
  proof (induction "n - i" arbitrary: i m)
    case 0
    then show ?case by (simp add: memcpy_bytes.simps [of d s i n m])
  next
    case (Suc k)
    let ?m = "m(d + of_nat i := m (s + of_nat i))"
    from Suc.hyps(2) have i: "i < n" and k: "k = n - Suc i" by simp_all
    then have ui: "unat (of_nat i :: addr) = i" using assms(1) by (simp add: unat_of_nat)
    have "\<forall>x. unat x < n \<longrightarrow> ?m (s + x) = m0 (s + x)"
      using Suc.prems buffers_disjointD [OF assms(2)] i ui by auto
    note IH = Suc.hyps(1) [OF k this]
    have "memcpy_bytes d s i n m = memcpy_bytes d s (Suc i) n ?m"
      using i by (simp add: memcpy_bytes.simps [of d s i n m])
    also have "\<dots> = filled d (Suc i) n (\<lambda>x. m0 (s + x)) ?m" by (rule IH)
    finally have "memcpy_bytes d s i n m = filled d (Suc i) n (\<lambda>x. m0 (s + x)) ?m" .
    with filled_byte [OF i assms(1), of d "\<lambda>x. m0 (s + x)" m] show ?case
      using Suc.prems i ui by simp
  qed

lemma memcpy_words_filled:
  assumes "n \<le> 2 ^ 32" "buffers_disjoint d s n"
    and "4 dvd n - i" "\<forall>x. unat x < n \<longrightarrow> m (s + x) = m0 (s + x)"
  shows "memcpy_words d s i n m = filled d i n (\<lambda>x. m0 (s + x)) m"
    using assms(3,4)
  proof (induction "(n - i) div 4" arbitrary: i m)
    case 0
    then have "n \<le> i" by (auto elim!: dvdE)
    then show ?case by (simp add: memcpy_words.simps [of d s i n m])
  next
    case (Suc k)
    let ?v = "read_32 m (s + of_nat i)"
    from Suc.hyps(2) Suc.prems(1) have i: "i + 4 \<le> n" by (auto elim!: dvdE)
    then have k: "k = (n - (i + 4)) div 4" "4 dvd n - (i + 4)"
      using Suc.hyps(2) Suc.prems(1) by (auto simp flip: diff_diff_left)
    have src: "m (s + of_nat (i + j)) = m0 (s + of_nat (i + j))" if "j < 4" for j
    proof -
      have "unat (of_nat (i + j) :: addr) = i + j"
        using i that assms(1) by (simp add: unat_of_nat del: of_nat_add)
      with i that Suc.prems(2) show ?thesis by (simp del: of_nat_add)
    qed
    have v: "byte32 ?v j = m0 (s + of_nat (i + j))" if "j < 4" for j
      using src [OF that] that
      by (auto elim!: less_4_cases simp: read_32_def algebra_simps)
    have dst: "s + x \<noteq> d + of_nat (i + j)" if "unat x < n" "j < 4" for x j
      using that i assms(1) buffers_disjointD [OF assms(2) that(1), of "of_nat (i + j)"]
      by (simp add: unat_of_nat del: of_nat_add)
    have "write_32 ?v (d + of_nat i) m (s + x) = m (s + x)" if "unat x < n" for x
      using dst [OF that, of 0] dst [OF that, of 1] dst [OF that, of 2] dst [OF that, of 3]
      by (simp add: write_32_def algebra_simps)
    then have "\<forall>x. unat x < n \<longrightarrow> write_32 ?v (d + of_nat i) m (s + x) = m0 (s + x)"
      using Suc.prems(2) by simp
    from Suc.hyps(1) [OF k this] show ?case
      using i filled_word [OF i assms(1) v, of d m]
      by (simp add: memcpy_words.simps [of d s i n m] Let_def)
  qed

lemma filled_source:
  assumes "buffers_disjoint d s n" "j \<le> n" "unat x < n"
  shows "filled d i j f m (s + x) = m (s + x)"
  using buffers_disjointD [OF assms(1,3), of "s + x - d"] assms(2) by (auto simp: filled_def)


subsection \<open>Properties of copying and filling\<close>

text \<open>C2: Copying between disjoint buffers: whatever the two alignments and the length (up to
  all of memory), the head, word and tail loops together move exactly the \<open>len\<close> source bytes
  to the destination and change no other byte; the destination pointer is returned.\<close>

theorem memcpy_copies:
  assumes "dest \<noteq> NULL" "src \<noteq> NULL" "buffers_disjoint dest src (unat len)"
  shows "memcpy dest src len m =
    (dest, \<lambda>a. if unat (a - dest) < unat len then m (src + (a - dest)) else m a)"
proof -
  obtain body tail where al: "compute_alignment dest src len = (body, tail)"
    by (cases "compute_alignment dest src len")
  note bounds = compute_alignment_cases(1-3) [OF al]
  let ?b = "unat body" and ?t = "unat tail" and ?l = "unat len"
  have l: "?l \<le> 2 ^ 32" using unat_less_2p [of len] by simp
  then have b: "?b \<le> 2 ^ 32" and t: "?t \<le> 2 ^ 32" using bounds by linarith+
  let ?f = "\<lambda>x. m (src + x)"
  let ?m1 = "filled dest 0 ?b ?f m"
  let ?m2 = "filled dest ?b ?t ?f ?m1"
  have src1: "?m1 (src + x) = m (src + x)" and src2: "?m2 (src + x) = m (src + x)" if "unat x < ?l" for x
    using filled_source [OF assms(3) _ that] bounds by simp_all
  have "memcpy_bytes dest src 0 ?b m = ?m1"
    using b bounds by (intro memcpy_bytes_filled buffers_disjoint_mono [OF assms(3)]) simp_all
  moreover have "memcpy_words dest src ?b ?t ?m1 = ?m2"
    using t bounds src1 by (intro memcpy_words_filled buffers_disjoint_mono [OF assms(3)]) simp_all
  moreover have "memcpy_bytes dest src ?t ?l ?m2 = filled dest ?t ?l ?f ?m2"
    using l assms(3) src2 by (intro memcpy_bytes_filled) simp_all
  moreover have "filled dest ?t ?l ?f ?m2 = filled dest 0 ?l ?f m"
    using bounds by (simp add: filled_append)
  ultimately show ?thesis
    using assms(1,2) al by (simp add: memcpy_def filled_def)
qed

theorem memcpy_copies_witness:
  "memcpy 0x1001 0x2002 7 (\<lambda>a. ucast a) =
    (0x1001, \<lambda>a. if unat (a - 0x1001 :: addr) < 7 then ucast (0x2002 + (a - 0x1001)) else ucast a)"
  using memcpy_copies [where dest = "0x1001" and src = "0x2002" and len = 7 and m = "\<lambda>a. ucast a"] by (simp add: buffers_disjoint_def)

text \<open>Filling: for every alignment, length and \<open>value\<close>, exactly the \<open>len\<close> bytes from
  \<open>dest\<close> become the low byte of \<open>value\<close>.\<close>

theorem memset_fills:
  "memset dest value len m =
    (dest, \<lambda>a. if unat (a - dest) < unat len then ucast value else m a)"
proof -
  obtain body tail where al: "compute_alignment dest NULL len = (body, tail)"
    by (cases "compute_alignment dest NULL len")
  note bounds = compute_alignment_cases(1-3) [OF al]
  let ?b = "unat body" and ?t = "unat tail" and ?l = "unat len"
  have l: "?l \<le> 2 ^ 32" using unat_less_2p [of len] by simp
  then have b: "?b \<le> 2 ^ 32" and t: "?t \<le> 2 ^ 32" using bounds by linarith+
  show ?thesis
    using al bounds
    by (simp add: memset_def memset_bytes_filled [OF b] memset_bytes_filled [OF l]
        memset_words_filled [OF t bounds(3)] filled_append Let_def, simp add: filled_def)
qed

subsection \<open>Comparing is lexicographic\<close>

definition mem_bytes :: "memory \<Rightarrow> addr \<Rightarrow> nat \<Rightarrow> nat \<Rightarrow> u8 list" where
  "mem_bytes m p i n = map (\<lambda>k. m (p + of_nat k)) [i..<n]"

fun bytes_cmp :: "u8 list \<Rightarrow> u8 list \<Rightarrow> int option" where
  "bytes_cmp (x # xs) (y # ys) =
     (if x < y then Some kMemCmpLt else if x > y then Some kMemCmpGt else bytes_cmp xs ys)"
| "bytes_cmp _ _ = None"

lemma upt_append: "i \<le> j \<Longrightarrow> j \<le> n \<Longrightarrow> [i..<j] @ [j..<n] = [i..<n]"
  using upt_add_eq_append [of i j "n - j"] by simp

lemma length_mem_bytes [simp]: "length (mem_bytes m p i n) = n - i"
  by (simp add: mem_bytes_def)

lemma mem_bytes_empty [simp]: "n \<le> i \<Longrightarrow> mem_bytes m p i n = []"
  by (simp add: mem_bytes_def)

lemma mem_bytes_Cons: "i < n \<Longrightarrow> mem_bytes m p i n = m (p + of_nat i) # mem_bytes m p (Suc i) n"
  by (simp add: mem_bytes_def upt_conv_Cons)

lemma mem_bytes_append: "i \<le> j \<Longrightarrow> j \<le> n \<Longrightarrow> mem_bytes m p i j @ mem_bytes m p j n = mem_bytes m p i n"
  by (simp add: mem_bytes_def upt_append flip: map_append)

lemma mem_bytes_4:
  assumes "i + 4 \<le> n"
  shows "mem_bytes m p i n =
    [m (p + of_nat i), m (p + of_nat i + 1), m (p + of_nat i + 2), m (p + of_nat i + 3)] @
    mem_bytes m p (i + 4) n"
proof -
  have "mem_bytes m p i n = mem_bytes m p i (i + 4) @ mem_bytes m p (i + 4) n"
    using assms by (simp add: mem_bytes_append)
  moreover have "[i..<i + 4] = [i, i + 1, i + 2, i + 3]"
    by (simp add: numeral_eq_Suc)
  ultimately show ?thesis by (simp add: mem_bytes_def algebra_simps)
qed

lemma bytes_cmp_append:
  "length xs = length ys \<Longrightarrow> bytes_cmp (xs @ us) (ys @ vs) =
    (case bytes_cmp xs ys of Some r \<Rightarrow> Some r | None \<Rightarrow> bytes_cmp us vs)"
  by (induction xs ys rule: list_induct2) simp_all

lemma bytes_cmp_lexord:
  "length xs = length ys \<Longrightarrow> bytes_cmp xs ys =
    (if xs = ys then None
     else Some (if (xs, ys) \<in> lexord {(x, y). x < y} then kMemCmpLt else kMemCmpGt))"
  by (induction xs ys rule: list_induct2) auto

lemma bytes_cmp_word:
  "bytes_cmp (a0 # a1 # a2 # a3 # xs) (b0 # b1 # b2 # b3 # ys) =
    (if le32 a3 a2 a1 a0 < le32 b3 b2 b1 b0 then Some kMemCmpLt
     else if le32 a3 a2 a1 a0 > le32 b3 b2 b1 b0 then Some kMemCmpGt else bytes_cmp xs ys)"
proof -
  have "unat x < 256" for x :: u8 using unat_less_2p [of x] by simp
  note bounds = this [of a0] this [of a1] this [of a2] this [of a3]
    this [of b0] this [of b1] this [of b2] this [of b3]
  show ?thesis
    using bounds by (simp add: word_less_nat_alt unat_le32 word_unat_eq_iff)
qed

lemma memcmp_bytes_cmp:
  "memcmp_bytes m l r i n = bytes_cmp (mem_bytes m l i n) (mem_bytes m r i n)"
proof (induction m l r i n rule: memcmp_bytes.induct [case_names 1])
  case (1 m l r i n)
  then show ?case
    by (cases "i < n") (simp_all add: memcmp_bytes.simps [of m l r i n] mem_bytes_Cons)
qed

lemma memcmp_words_cmp:
  assumes "4 dvd n - i"
  shows "memcmp_words m l r i n = bytes_cmp (mem_bytes m l i n) (mem_bytes m r i n)"
  using assms
proof (induction "(n - i) div 4" arbitrary: i)
  case 0
  then have "n \<le> i" by (auto elim!: dvdE)
  then show ?case by (simp add: memcmp_words.simps [of m l r i n])
next
  case (Suc k)
  then have i: "i + 4 \<le> n" by (auto elim!: dvdE)
  then have "k = (n - (i + 4)) div 4" "4 dvd n - (i + 4)"
    using Suc.hyps(2) Suc.prems by (auto simp flip: diff_diff_left)
  note IH = Suc.hyps(1) [OF this]
  show ?case
    using i by (simp add: mem_bytes_4 memcmp_words.simps [of m l r i n] bswap32_read_32 IH
        bytes_cmp_word Let_def del: bytes_cmp.simps(1))
qed

text \<open>C3: For every pair of buffers, alignments and length, \<open>memcmp\<close> orders the two byte strings
  lexicographically: equal strings give 0, a smaller first string gives \<open>kMemCmpLt\<close>, a
  greater one \<open>kMemCmpGt\<close>, although the body compares byte-swapped words.\<close>

theorem memcmp_lexicographic:
  "memcmp m lhs rhs len =
    (let xs = mem_bytes m lhs 0 (unat len); ys = mem_bytes m rhs 0 (unat len)
     in if xs = ys then kMemCmpEq
        else if (xs, ys) \<in> lexord {(x, y). x < y} then kMemCmpLt else kMemCmpGt)"
proof -
  obtain body tail where al: "compute_alignment lhs rhs len = (body, tail)"
    by (cases "compute_alignment lhs rhs len")
  note bounds = compute_alignment_cases(1-3) [OF al]
  let ?b = "unat body" and ?t = "unat tail" and ?l = "unat len"
  have "memcmp m lhs rhs len =
    (case bytes_cmp (mem_bytes m lhs 0 ?l) (mem_bytes m rhs 0 ?l) of None \<Rightarrow> kMemCmpEq | Some r \<Rightarrow> r)"
    using bounds al
    by (simp add: memcmp_def memcmp_bytes_cmp memcmp_words_cmp bytes_cmp_append
        flip: mem_bytes_append [of 0 ?b ?l] mem_bytes_append [of ?b ?t ?l] split: option.splits)
  then show ?thesis by (simp add: bytes_cmp_lexord Let_def)
qed


text \<open>The reverse comparison reads the strings from their last byte.\<close>

lemma mem_bytes_snoc: "i < n \<Longrightarrow> mem_bytes m p i n = mem_bytes m p i (n - 1) @ [m (p + of_nat (n - 1))]"
  by (cases n) (simp_all add: mem_bytes_def)

lemma mem_bytes_snoc_4:
  assumes "i \<le> k"
  shows "mem_bytes m p i (k + 4) = mem_bytes m p i k @
    [m (p + of_nat k), m (p + of_nat k + 1), m (p + of_nat k + 2), m (p + of_nat k + 3)]"
  using assms mem_bytes_append [of i k "k + 4" m p] by (simp add: mem_bytes_4 [of k])

lemma memrcmp_bytes_cmp:
  "memrcmp_bytes m l r n i = bytes_cmp (rev (mem_bytes m l i n)) (rev (mem_bytes m r i n))"
proof (induction m l r n i rule: memrcmp_bytes.induct [case_names 1])
  case (1 m l r n i)
  then show ?case
    by (cases "i < n") (simp_all add: memrcmp_bytes.simps [of m l r n i] mem_bytes_snoc)
qed

lemma memrcmp_words_cmp:
  assumes "4 dvd n - i"
  shows "memrcmp_words m l r n i = bytes_cmp (rev (mem_bytes m l i n)) (rev (mem_bytes m r i n))"
  using assms
proof (induction "(n - i) div 4" arbitrary: n)
  case 0
  then have "n \<le> i" by (auto elim!: dvdE)
  then show ?case by (simp add: memrcmp_words.simps [of m l r n i])
next
  case (Suc k)
  then have "i + 4 \<le> n" by (auto elim!: dvdE)
  then obtain j where n: "n = j + 4" and j: "i \<le> j"
    by (metis add_le_cancel_right le_add_diff_inverse2 le_add2 le_trans)
  have "n - i = 4 + (j - i)" using n j by simp
  then have "k = (j - i) div 4" "4 dvd j - i"
    using Suc.hyps(2) Suc.prems by simp_all
  note IH = Suc.hyps(1) [OF this]
  show ?case
    using j by (simp add: n mem_bytes_snoc_4 memrcmp_words.simps [of m l r "j + 4" i] read_32_def
        IH bytes_cmp_word Let_def del: bytes_cmp.simps(1))
qed

theorem memrcmp_lexicographic:
  "memrcmp m lhs rhs len =
    (let xs = rev (mem_bytes m lhs 0 (unat len)); ys = rev (mem_bytes m rhs 0 (unat len))
     in if xs = ys then kMemCmpEq
        else if (xs, ys) \<in> lexord {(x, y). x < y} then kMemCmpLt else kMemCmpGt)"
proof -
  obtain body tail where al: "compute_alignment lhs rhs len = (body, tail)"
    by (cases "compute_alignment lhs rhs len")
  note bounds = compute_alignment_cases(1-3) [OF al]
  let ?b = "unat body" and ?t = "unat tail" and ?l = "unat len"
  have "memrcmp m lhs rhs len =
    (case bytes_cmp (rev (mem_bytes m lhs 0 ?l)) (rev (mem_bytes m rhs 0 ?l)) of
       None \<Rightarrow> kMemCmpEq | Some r \<Rightarrow> r)"
    using bounds al
    by (simp add: memrcmp_def memrcmp_bytes_cmp memrcmp_words_cmp bytes_cmp_append
        flip: mem_bytes_append [of 0 ?b ?l] mem_bytes_append [of ?b ?t ?l] split: option.splits)
  then show ?thesis by (simp add: bytes_cmp_lexord Let_def)
qed

subsection \<open>Searching finds the first, or the last, match\<close>

lemma find_append: "find P (xs @ ys) = (case find P xs of None \<Rightarrow> find P ys | Some x \<Rightarrow> Some x)"
  by (induction xs) simp_all

lemma bits_eq_byte:
  assumes "k < 4"
  shows "drop_bit (8 * k) (NOT (w XOR repeat_byte_to_u32 v)) AND 0xff = 0xff \<longleftrightarrow> byte32 w k = v"
proof -
  have r: "byte32 (repeat_byte_to_u32 v) k = v" using assms by (rule byte32_repeat)
  have ff: "(0xff :: u32) = mask 8" by (simp add: mask_eq_decr_exp)
  have "drop_bit (8 * k) (NOT (w XOR repeat_byte_to_u32 v)) AND 0xff = 0xff \<longleftrightarrow>
    (\<forall>n<8. bit w (8 * k + n) = bit (repeat_byte_to_u32 v) (8 * k + n))"
    unfolding ff using assms
    by (auto simp: bit_eq_iff bit_and_iff bit_drop_bit_eq bit_not_iff bit_xor_iff bit_mask_iff;
        drule_tac x = n in spec; simp)
  also have "\<dots> \<longleftrightarrow> byte32 w k = byte32 (repeat_byte_to_u32 v) k"
    by (auto simp: bit_eq_iff bit_byte32)
  finally show ?thesis by (simp add: r)
qed


text \<open>The match a search loop over the offsets \<open>ks\<close> reports.\<close>

definition first_match :: "memory \<Rightarrow> addr \<Rightarrow> u8 \<Rightarrow> nat list \<Rightarrow> nat option" where
  "first_match m p v ks = find (\<lambda>k. m (p + of_nat k) = v) ks"

lemma first_match_Nil [simp]: "first_match m p v [] = None"
  by (simp add: first_match_def)

lemma first_match_Cons [simp]:
  "first_match m p v (k # ks) = (if m (p + of_nat k) = v then Some k else first_match m p v ks)"
  by (simp add: first_match_def)

lemma first_match_append:
  "first_match m p v (ks @ js) =
    (case first_match m p v ks of None \<Rightarrow> first_match m p v js | Some k \<Rightarrow> Some k)"
  by (simp add: first_match_def find_append split: option.split)

definition found_or_end :: "addr \<Rightarrow> nat option \<Rightarrow> nat \<Rightarrow> nat + addr" where
  "found_or_end p r n = (case r of Some k \<Rightarrow> Inr (p + of_nat k) | None \<Rightarrow> Inl n)"

lemma memchr_bytes_find:
  "memchr_bytes m p v i n = found_or_end p (first_match m p v [i..<n]) (max i n)"
proof (induction m p v i n rule: memchr_bytes.induct [case_names 1])
  case (1 m p v i n)
  show ?case
  proof (cases "i < n")
    case True
    with 1 show ?thesis
      by (simp add: memchr_bytes.simps [of m p v i n] upt_conv_Cons found_or_end_def)
  qed (simp add: memchr_bytes.simps [of m p v i n] found_or_end_def)
qed

lemma upt_4:
  assumes "i + 4 \<le> n"
  shows "[i..<n] = i # (i + 1) # (i + 2) # (i + 3) # [i + 4..<n]"
  using assms by (simp add: upt_conv_Cons numeral_eq_Suc)

lemma memchr_words_find:
  assumes "4 dvd n - i"
  shows "memchr_words m p (repeat_byte_to_u32 v) i n =
    found_or_end p (first_match m p v [i..<n]) (max i n)"
  using assms
proof (induction "(n - i) div 4" arbitrary: i)
  case 0
  then have "n \<le> i" by (auto elim!: dvdE)
  then show ?case by (simp add: memchr_words.simps [of m p _ i n] found_or_end_def)
next
  case (Suc k)
  then have i: "i + 4 \<le> n" by (auto elim!: dvdE)
  then have "k = (n - (i + 4)) div 4" "4 dvd n - (i + 4)"
    using Suc.hyps(2) Suc.prems by (auto simp flip: diff_diff_left)
  note IH = Suc.hyps(1) [OF this]
  have b: "byte32 (read_32 m (p + of_nat i)) k = m (p + of_nat (i + k))" if "k < 4" for k
    using that by (auto elim!: less_4_cases simp: read_32_def algebra_simps)
  note eqs = bits_eq_byte [of 0, simplified] bits_eq_byte [of 1, simplified]
    bits_eq_byte [of 2, simplified] bits_eq_byte [of 3, simplified]
  show ?case
    using i IH b [of 0] b [of 1] b [of 2] b [of 3]
    by (simp add: memchr_words.simps [of m p _ i n] upt_4 [OF i] eqs Let_def found_or_end_def)
qed

text \<open>\<open>memchr\<close> returns a pointer to the first of the \<open>len\<close> bytes equal to the low byte of
  \<open>value\<close>, or null when there is none, for every alignment and length, including the lengths
  from \<open>PTRDIFF_MAX\<close> on for which the word loop is switched off.\<close>

theorem memchr_first:
  "memchr m ptr value len =
    (case first_match m ptr (ucast value) [0..<unat len] of Some k \<Rightarrow> ptr + of_nat k | None \<Rightarrow> NULL)"
proof -
  obtain body tail where al: "compute_alignment ptr NULL len = (body, tail)"
    by (cases "compute_alignment ptr NULL len")
  note bounds = compute_alignment_cases(1-3) [OF al]
  let ?b = "unat body" and ?t = "unat tail" and ?l = "unat len"
  show ?thesis
  proof (cases "len \<ge> PTRDIFF_MAX")
    case True
    have "4 dvd (0::nat) - ?b" by simp
    with True show ?thesis
      using bounds al
      by (simp add: memchr_def memchr_bytes_find memchr_words_find first_match_append found_or_end_def
          Let_def flip: upt_append [of 0 ?b ?l] split: option.splits)
  next
    case False
    then show ?thesis
      using bounds al
      by (simp add: memchr_def memchr_bytes_find memchr_words_find first_match_append found_or_end_def
          Let_def max_def flip: upt_append [of 0 ?b ?l] upt_append [of ?b ?t ?l] split: option.splits)
  qed
qed


lemma memrchr_bytes_find:
  "memrchr_bytes m p v n i =
    map_option (\<lambda>k. p + of_nat k) (first_match m p v (rev [i..<n]))"
proof (induction m p v n i rule: memrchr_bytes.induct [case_names 1])
  case (1 m p v n i)
  show ?case
  proof (cases "i < n")
    case True
    then have "rev [i..<n] = (n - 1) # rev [i..<n - 1]"
      by (cases n) simp_all
    with True 1 show ?thesis by (simp add: memrchr_bytes.simps [of m p v n i])
  qed (simp add: memrchr_bytes.simps [of m p v n i])
qed

lemma memrchr_words_find:
  assumes "4 dvd n - i"
  shows "memrchr_words m p (repeat_byte_to_u32 v) n i =
    map_option (\<lambda>k. p + of_nat k) (first_match m p v (rev [i..<n]))"
  using assms
proof (induction "(n - i) div 4" arbitrary: n)
  case 0
  then have "n \<le> i" by (auto elim!: dvdE)
  then show ?case by (simp add: memrchr_words.simps [of m p _ n i])
next
  case (Suc k)
  then have "i + 4 \<le> n" by (auto elim!: dvdE)
  then obtain j where n: "n = j + 4" and j: "i \<le> j"
    by (metis add_le_cancel_right le_add_diff_inverse2 le_add2 le_trans)
  have "n - i = 4 + (j - i)" using n j by simp
  then have "k = (j - i) div 4" "4 dvd j - i"
    using Suc.hyps(2) Suc.prems by simp_all
  note IH = Suc.hyps(1) [OF this]
  have r: "rev [i..<j + 4] = (j + 3) # (j + 2) # (j + 1) # j # rev [i..<j]"
    unfolding upt_append [OF j, of "j + 4", OF le_add1, symmetric] by (simp add: upt_4 [of j])
  have b: "byte32 (read_32 m (p + of_nat j)) k = m (p + of_nat (j + k))" if "k < 4" for k
    using that by (auto elim!: less_4_cases simp: read_32_def algebra_simps)
  note eqs = bits_eq_byte [of 0, simplified] bits_eq_byte [of 1, simplified]
    bits_eq_byte [of 2, simplified] bits_eq_byte [of 3, simplified]
  show ?case
    using j IH b [of 0] b [of 1] b [of 2] b [of 3]
    by (simp add: n r memrchr_words.simps [of m p _ "j + 4" i] eqs Let_def)
qed

text \<open>\<open>memrchr\<close> returns a pointer to the last matching byte, or null.\<close>

lemma memrchr_last:
  "memrchr m ptr value len =
    (case first_match m ptr (ucast value) (rev [0..<unat len]) of
       Some k \<Rightarrow> ptr + of_nat k | None \<Rightarrow> NULL)"
proof -
  obtain body tail where al: "compute_alignment ptr NULL len = (body, tail)"
    by (cases "compute_alignment ptr NULL len")
  note bounds = compute_alignment_cases(1-3) [OF al]
  let ?b = "unat body" and ?t = "unat tail" and ?l = "unat len"
  show ?thesis
    using bounds al
    by (simp add: memrchr_def memrchr_bytes_find memrchr_words_find first_match_append
        Let_def flip: upt_append [of 0 ?b ?l] upt_append [of ?b ?t ?l] split: option.splits)
qed

end
