(* ===== verification/Status.thy ===== *)
theory Status
  imports Bitfield Memory
begin

section \<open>Status codes\<close>

text \<open>
  \<^verbatim>\<open>sw/device/lib/base/status.c\<close>, \<^verbatim>\<open>status.h\<close> and \<^verbatim>\<open>internal/status.h\<close>. A \<open>status_t\<close> is an
  \<open>int32_t\<close>: non-negative values are results, negative ones pack a 5-bit code, an 11-bit
  argument and a 15-bit module identifier. It is modelled as the 32-bit word; its sign is
  \<open>sint\<close>. An enum object is its value, since the code casts any 5-bit number to the enum.
\<close>

type_synonym status = u32

datatype absl_status = kOk | kCancelled | kUnknown | kInvalidArgument | kDeadlineExceeded
  | kNotFound | kAlreadyExists | kPermissionDenied | kResourceExhausted | kFailedPrecondition
  | kAborted | kOutOfRange | kUnimplemented | kInternal | kUnavailable | kDataLoss
  | kUnauthenticated

primrec absl_code :: "absl_status \<Rightarrow> u32" where
  "absl_code kOk = 0"
| "absl_code kCancelled = 1"
| "absl_code kUnknown = 2"
| "absl_code kInvalidArgument = 3"
| "absl_code kDeadlineExceeded = 4"
| "absl_code kNotFound = 5"
| "absl_code kAlreadyExists = 6"
| "absl_code kPermissionDenied = 7"
| "absl_code kResourceExhausted = 8"
| "absl_code kFailedPrecondition = 9"
| "absl_code kAborted = 10"
| "absl_code kOutOfRange = 11"
| "absl_code kUnimplemented = 12"
| "absl_code kInternal = 13"
| "absl_code kUnavailable = 14"
| "absl_code kDataLoss = 15"
| "absl_code kUnauthenticated = 16"

definition STATUS_FIELD_CODE :: bitfield_field32 where
  "STATUS_FIELD_CODE = \<lparr>field_mask = 0x1f, field_index = 0\<rparr>"

definition STATUS_FIELD_ARG :: bitfield_field32 where
  "STATUS_FIELD_ARG = \<lparr>field_mask = 0x7ff, field_index = 5\<rparr>"

definition STATUS_FIELD_MODULE_ID :: bitfield_field32 where
  "STATUS_FIELD_MODULE_ID = \<lparr>field_mask = 0x7fff, field_index = 16\<rparr>"

definition STATUS_BIT_ERROR :: u32 where
  "STATUS_BIT_ERROR = 31"

definition ascii_5bit :: "u8 \<Rightarrow> u32" where
  "ascii_5bit v =
     (if v \<ge> chr CHR ''@'' \<and> v \<le> chr CHR ''_'' then ucast (v - chr CHR ''@'')
      else if v \<ge> chr CHR 0x60 \<and> v \<le> chr CHR ''z'' then ucast (v - chr CHR 0x60)
      else ucast (chr CHR ''_'' - chr CHR ''@''))"

definition make_module_id :: "u8 \<Rightarrow> u8 \<Rightarrow> u8 \<Rightarrow> u32" where
  "make_module_id a b c =
     push_bit 16 (ascii_5bit a) OR push_bit 21 (ascii_5bit b) OR push_bit 26 (ascii_5bit c)"

fun basename_back :: "cstring \<Rightarrow> nat \<Rightarrow> nat" where
  "basename_back file f =
     (if f > 0 \<and> char_at file (f - 1) \<noteq> chr CHR ''/'' \<and> char_at file (f - 1) \<noteq> chr CHR 0x5c
      then basename_back file (f - 1) else f)"

declare basename_back.simps [simp del]

definition basename :: "cstring \<Rightarrow> cstring" where
  "basename file = drop (basename_back file (length file)) file"

definition status_create_line :: u32 where
  "status_create_line = 33"

definition status_create :: "u32 \<Rightarrow> u32 \<Rightarrow> cstring \<Rightarrow> u32 \<Rightarrow> status" where
  "status_create code module_id file arg =
     (if code = absl_code kOk \<and> 0 \<le> sint arg then arg
      else
        let arg = (if code = absl_code kOk then status_create_line else arg);
            module_id =
              (if module_id = 0
               then let f = basename file in make_module_id (char_at f 0) (char_at f 1) (char_at f 2)
               else module_id)
        in module_id OR bitfield_bit32_write 0 STATUS_BIT_ERROR True
             OR bitfield_field32_write 0 STATUS_FIELD_CODE code
             OR bitfield_field32_write 0 STATUS_FIELD_ARG arg)"

definition status_codes :: "string list" where
  "status_codes =
    [''Ok'', ''Cancelled'', ''Unknown'', ''InvalidArgument'', ''DeadlineExceeded'', ''NotFound'',
     ''AlreadyExists'', ''PermissionDenied'', ''ResourceExhausted'', ''FailedPrecondition'',
     ''Aborted'', ''OutOfRange'', ''Unimplemented'', ''Internal'', ''Unavailable'', ''DataLoss'',
     ''Unauthenticated'',
     ''Undefined17'', ''Undefined18'', ''Undefined19'', ''Undefined20'', ''Undefined21'',
     ''Undefined22'', ''Undefined23'', ''Undefined24'', ''Undefined25'', ''Undefined26'',
     ''Undefined27'', ''Undefined28'', ''Undefined29'', ''Undefined30'', ''Undefined31'',
     ''ErrorError'']"

definition status_ok :: "status \<Rightarrow> bool" where
  "status_ok s \<longleftrightarrow> 0 \<le> sint s"

definition status_err :: "status \<Rightarrow> u32" where
  "status_err s = (if sint s < 0 then bitfield_field32_read s STATUS_FIELD_CODE else absl_code kOk)"

text \<open>\<open>status_extract\<close> returns its boolean, the code's name, the argument, and the three module
  characters when it writes them.\<close>

definition status_extract :: "status \<Rightarrow> bool \<times> string \<times> u32 \<times> (u8 \<times> u8 \<times> u8) option" where
  "status_extract s =
     (let err = unat (status_err s);
          err = (if sint s < 0 \<and> err = 0 then length status_codes - 1 else err);
          code = status_codes ! err
      in if err \<noteq> 0
         then let arg = bitfield_field32_read s STATUS_FIELD_ARG;
                  module_id = bitfield_field32_read s STATUS_FIELD_MODULE_ID
              in (True, code, arg,
                  Some (chr CHR ''@'' + ucast (drop_bit 0 module_id AND 0x1f),
                        chr CHR ''@'' + ucast (drop_bit 5 module_id AND 0x1f),
                        chr CHR ''@'' + ucast (drop_bit 10 module_id AND 0x1f)))
         else (False, code, s, None))"

subsection \<open>Packing and unpacking\<close>

lemma sint_negative_iff: "sint (w :: u32) < 0 \<longleftrightarrow> bit w 31"
  using bit_last_iff [of w] by simp

lemmas status_fields = STATUS_FIELD_CODE_def STATUS_FIELD_ARG_def STATUS_FIELD_MODULE_ID_def
  STATUS_BIT_ERROR_def

text \<open>A module identifier occupies bits 16 to 30 only.\<close>

definition module_id_ok :: "u32 \<Rightarrow> bool" where
  "module_id_ok m \<longleftrightarrow> m AND NOT 0x7fff0000 = 0"

lemma module_id_ok_iff: "module_id_ok m \<longleftrightarrow> (\<forall>n. bit m n \<longrightarrow> 16 \<le> n \<and> n < 31)"
proof -
  have "(0x7fff0000 :: u32) = push_bit 16 (mask 15)" by (simp add: mask_eq_decr_exp)
  then have "module_id_ok m \<longleftrightarrow> m AND NOT (push_bit 16 (mask 15)) = 0" by (simp add: module_id_ok_def)
  also have "\<dots> \<longleftrightarrow> (\<forall>n<32. bit m n \<longrightarrow> 16 \<le> n \<and> n < 31)"
    by (auto simp: bit_eq_iff bit_and_iff bit_not_iff bit_push_bit_iff bit_mask_iff)
  also have "\<dots> \<longleftrightarrow> (\<forall>n. bit m n \<longrightarrow> 16 \<le> n \<and> n < 31)"
    using bit_imp_le_length by fastforce
  finally show ?thesis .
qed

lemma ascii_5bit_bound: "unat (ascii_5bit v) < 32"
  unfolding ascii_5bit_def
  by (auto simp: word_le_nat_alt unat_sub)

lemma bit_ascii_5bit: "bit (ascii_5bit v) n \<Longrightarrow> n < 5"
proof -
  assume b: "bit (ascii_5bit v) n"
  have "take_bit 5 (ascii_5bit v) = ascii_5bit v"
    using ascii_5bit_bound [of v] by (simp add: take_bit_eq_mod word_unat_eq_iff unat_mod_distrib)
  with b show "n < 5" by (metis bit_take_bit_iff)
qed

lemma bit_make_module_id:
  "bit (make_module_id a b c) n \<longleftrightarrow>
     (16 \<le> n \<and> bit (ascii_5bit a) (n - 16)) \<or> (21 \<le> n \<and> bit (ascii_5bit b) (n - 21))
       \<or> (26 \<le> n \<and> bit (ascii_5bit c) (n - 26))"
  by (auto simp: make_module_id_def bit_or_iff bit_push_bit_iff dest: bit_ascii_5bit)

lemma make_module_id_ok: "module_id_ok (make_module_id a b c)"
  unfolding module_id_ok_iff bit_make_module_id
  using bit_ascii_5bit by fastforce

definition status_word :: "u32 \<Rightarrow> u32 \<Rightarrow> u32 \<Rightarrow> status" where
  "status_word code m arg = m OR bitfield_bit32_write 0 STATUS_BIT_ERROR True
     OR bitfield_field32_write 0 STATUS_FIELD_CODE code OR bitfield_field32_write 0 STATUS_FIELD_ARG arg"

lemma bit_status_word:
  "bit (status_word code m arg) n \<longleftrightarrow>
    bit m n \<or> n = 31 \<or> n < 5 \<and> bit code n \<or> 5 \<le> n \<and> n < 16 \<and> bit arg (n - 5)"
  by (auto simp: status_word_def bit_or_iff bit_field32_write bit_bit32_write status_fields
)


lemma status_create_error:
  assumes "\<not> (code = absl_code kOk \<and> 0 \<le> sint arg)" "m \<noteq> 0"
  shows "status_create code m file arg =
    status_word code m (if code = absl_code kOk then status_create_line else arg)"
  using assms by (auto simp: status_create_def status_word_def Let_def)

lemma status_create_file:
  "\<not> (code = absl_code kOk \<and> 0 \<le> sint arg) \<Longrightarrow>
    \<exists>m. status_create code module_id file arg =
      status_word code m (if code = absl_code kOk then status_create_line else arg)"
  by (auto simp: status_create_def status_word_def Let_def)

text \<open>The module identifier of the status is the one given, or the default from the file name.\<close>

lemma status_create_module:
  assumes "\<not> (code = absl_code kOk \<and> 0 \<le> sint arg)" "module_id_ok m"
  shows "\<exists>m'. module_id_ok m' \<and> status_create code m file arg =
    status_word code m' (if code = absl_code kOk then status_create_line else arg)"
proof (cases "m = 0")
  case True
  then show ?thesis
    using assms(1) make_module_id_ok by (force simp: status_create_def status_word_def Let_def)
next
  case False
  with assms show ?thesis by (auto simp: status_create_error)
qed

lemma status_word_negative: "sint (status_word code m arg) < 0"
  by (simp add: sint_negative_iff bit_status_word)

lemma status_word_code:
  assumes "module_id_ok m" "unat code < 32"
  shows "bitfield_field32_read (status_word code m arg) STATUS_FIELD_CODE = code"
proof (rule bit_word_eqI)
  fix n :: nat
  have "take_bit 5 code = code"
    using assms(2) by (simp add: take_bit_eq_mod word_unat_eq_iff unat_mod_distrib)
  then have "bit code n \<Longrightarrow> n < 5" by (metis bit_take_bit_iff)
  with assms(1) show "bit (bitfield_field32_read (status_word code m arg) STATUS_FIELD_CODE) n = bit code n"
    by (auto simp: bit_field32_read bit_status_word status_fields module_id_ok_iff)
qed

lemma status_word_arg:
  assumes "module_id_ok m"
  shows "bitfield_field32_read (status_word code m arg) STATUS_FIELD_ARG = arg AND 0x7ff"
  using assms
  by (intro bit_word_eqI) (auto simp: bit_field32_read bit_status_word status_fields module_id_ok_iff bit_and_iff)

lemma status_word_module_char:
  fixes v :: u8
  assumes "k < 3" "v = (if k = 0 then a else if k = 1 then b else c)"
  shows "ucast (drop_bit (5 * k)
      (bitfield_field32_read (status_word code (make_module_id a b c) arg) STATUS_FIELD_MODULE_ID) AND 0x1f)
    = (ucast (ascii_5bit v) :: u8)"
proof (rule bit_word_eqI)
  fix n :: nat
  assume "n < LENGTH(8)"
  have "k = 0 \<or> k = 1 \<or> k = 2" using assms(1) by linarith
  then show "bit (ucast (drop_bit (5 * k)
      (bitfield_field32_read (status_word code (make_module_id a b c) arg) STATUS_FIELD_MODULE_ID) AND 0x1f) :: u8) n
    = bit (ucast (ascii_5bit v) :: u8) n"
    using assms(2)
    by (auto simp: bit_ucast_iff bit_and_iff bit_drop_bit_eq bit_field32_read bit_status_word
        status_fields bit_make_module_id dest: bit_ascii_5bit)
qed

text \<open>The letter a module character is stored as: itself in upper case, or an underscore.\<close>

definition module_letter :: "u8 \<Rightarrow> u8" where
  "module_letter v = chr CHR ''@'' + ucast (ascii_5bit v)"

lemma module_letter_upper:
  assumes "chr CHR ''@'' \<le> v" "v \<le> chr CHR ''_''"
  shows "module_letter v = v"
proof -
  have "(ucast (ucast (v - chr CHR ''@'') :: u32) :: u8) = v - chr CHR ''@''"
    by (rule bit_word_eqI) (simp add: bit_ucast_iff)
  with assms show ?thesis by (simp add: module_letter_def ascii_5bit_def)
qed

lemma status_extract_create:
  assumes "code \<noteq> 0" "unat code < 32" "make_module_id a b c \<noteq> 0"
  shows "status_extract (status_create code (make_module_id a b c) file arg) =
    (True, status_codes ! unat code, arg AND 0x7ff,
     Some (module_letter a, module_letter b, module_letter c))"
proof -
  let ?s = "status_word code (make_module_id a b c) arg"
  have s: "status_create code (make_module_id a b c) file arg = ?s"
    using assms by (simp add: status_create_error)
  have "status_err ?s = code"
    using assms by (simp add: status_err_def status_word_negative status_word_code make_module_id_ok)
  moreover have "unat code \<noteq> 0" using assms(1) by (simp add: unat_eq_zero)
  ultimately show ?thesis
    unfolding s using status_word_module_char [of 0 a a b c code arg] status_word_module_char [of 1 b a b c code arg]
      status_word_module_char [of 2 c a b c code arg]
    by (simp add: status_extract_def status_word_negative status_word_arg make_module_id_ok
        module_letter_def Let_def)
qed

text \<open>An error status carries its parts: creating one with a non-zero 5-bit code and the
  module letters \<open>a b c\<close> and extracting it again gives the code's name, the low 11 bits of the
  argument and the three letters, for every file name and argument.\<close>

theorem status_roundtrip:
  assumes "code \<noteq> 0" "unat code < 32" "make_module_id a b c \<noteq> 0"
  shows "status_extract (status_create code (make_module_id a b c) file arg) =
    (True, status_codes ! unat code, arg AND 0x7ff,
     Some (module_letter a, module_letter b, module_letter c))"
  by (rule status_extract_create [OF assms])

theorem status_roundtrip_witness:
  "status_extract (status_create 13 (make_module_id (chr CHR ''u'') (chr CHR ''R'') (chr CHR ''7'')) [] 4099) =
    (True, ''Internal'', 3, Some (chr CHR ''U'', chr CHR ''R'', chr CHR ''_''))"
proof -
  have "make_module_id (chr CHR ''u'') (chr CHR ''R'') (chr CHR ''7'') \<noteq> 0" by code_simp
  from status_roundtrip [OF _ _ this, of 13 "[]" 4099] show ?thesis
    by (simp add: status_codes_def module_letter_def ascii_5bit_def)
qed

text \<open>C7: Only a zero code with a non-negative argument makes an OK status; it is then the
  argument itself, and it is extracted unchanged. A zero code with a negative argument becomes
  an error that names the line of the check and prints as \<open>ErrorError\<close>, for every module
  identifier that keeps to its field, also for the default of zero, which stands for the letters of
  the file name; no other creation is ever taken for a success.\<close>

theorem status_ok_iff:
  "status_ok (status_create code m file arg) = (code = 0 \<and> 0 \<le> sint arg)
   \<and> (0 \<le> sint arg \<longrightarrow> status_extract (status_create 0 m file arg) = (False, ''Ok'', arg, None))
   \<and> (sint arg < 0 \<longrightarrow> module_id_ok m \<longrightarrow>
        fst (status_extract (status_create 0 m file arg)) \<and>
        fst (snd (status_extract (status_create 0 m file arg))) = ''ErrorError'' \<and>
        fst (snd (snd (status_extract (status_create 0 m file arg)))) = status_create_line)"
proof (intro conjI impI)
  show "status_ok (status_create code m file arg) = (code = 0 \<and> 0 \<le> sint arg)"
  proof (cases "code = 0 \<and> 0 \<le> sint arg")
    case True
    then show ?thesis by (simp add: status_create_def status_ok_def)
  next
    case False
    then obtain m' a' where "status_create code m file arg = status_word code m' a'"
      using status_create_file [of code arg m "file"] by auto
    with False show ?thesis using status_word_negative [of code m' a'] by (auto simp: status_ok_def not_le)
  qed
next
  assume "0 \<le> sint arg"
  then show "status_extract (status_create 0 m file arg) = (False, ''Ok'', arg, None)"
    by (simp add: status_create_def status_extract_def status_err_def Let_def status_codes_def)
next
  assume a: "sint arg < 0" "module_id_ok m"
  then obtain m' where m': "module_id_ok m'" and s: "status_create 0 m file arg = status_word 0 m' status_create_line"
    using status_create_module [of 0 arg m "file"] by auto
  have e: "status_err (status_word 0 m' status_create_line) = 0"
    using m' by (simp add: status_err_def status_word_negative status_word_code)
  show "fst (status_extract (status_create 0 m file arg))"
    and "fst (snd (status_extract (status_create 0 m file arg))) = ''ErrorError''"
    and "fst (snd (snd (status_extract (status_create 0 m file arg)))) = status_create_line"
    using m' unfolding s
    by (simp_all add: status_extract_def e [unfolded status_create_line_def] status_word_negative status_word_arg Let_def
        status_codes_def status_create_line_def)
qed

theorem status_ok_iff_witness:
  "fst (snd (status_extract (status_create 0 0 (map of_char ''sw/uart.c'') (- 5)))) = ''ErrorError''"
  using status_ok_iff [of 0 0 "map of_char ''sw/uart.c''" "- 5"] by (simp add: module_id_ok_def)

end
