(* ===== verification/Mmio.thy ===== *)
theory Mmio
  imports Bitfield Memory
begin

section \<open>Memory-mapped IO\<close>

text \<open>
  \<^verbatim>\<open>sw/device/lib/base/mmio.h\<close> (the \<^verbatim>\<open>OT_PLATFORM_RV32\<close> branch) and \<^verbatim>\<open>mmio.c\<close>. What is
  behind the addresses is a parameter: a \<open>bus\<close> gives, for a device state of any type, what a
  volatile access of each width returns and does. A region is its base address; a capability
  that covers all regions is assumed, so \<^verbatim>\<open>mmio_set_capability\<close> is not modelled. Two buses are
  built from the register descriptions: \<open>ram_bus\<close>, in which every word reads back, and
  \<open>csr_bus\<close>, which follows the access kind of each register.
\<close>

record 'd bus =
  bus_read8 :: "u32 \<Rightarrow> 'd \<Rightarrow> u8 \<times> 'd"
  bus_read32 :: "u32 \<Rightarrow> 'd \<Rightarrow> u32 \<times> 'd"
  bus_write8 :: "u32 \<Rightarrow> u8 \<Rightarrow> 'd \<Rightarrow> 'd"
  bus_write32 :: "u32 \<Rightarrow> u32 \<Rightarrow> 'd \<Rightarrow> 'd"

record mmio_region =
  base :: u32

abbreviation ret :: "'a \<Rightarrow> ('s, 'a) state" where
  "ret \<equiv> State_Monad.return"

definition mmio_region_from_addr :: "u32 \<Rightarrow> mmio_region" where
  "mmio_region_from_addr address = \<lparr>base = address\<rparr>"

subsection \<open>Single accesses\<close>

definition mmio_region_read8 :: "'d bus \<Rightarrow> mmio_region \<Rightarrow> u32 \<Rightarrow> ('d, u8) state" where
  "mmio_region_read8 B r offset = State (bus_read8 B (base r + offset))"

definition mmio_region_read32 :: "'d bus \<Rightarrow> mmio_region \<Rightarrow> u32 \<Rightarrow> ('d, u32) state" where
  "mmio_region_read32 B r offset = State (bus_read32 B (base r + 4 * (offset div 4)))"

definition mmio_region_write8 :: "'d bus \<Rightarrow> mmio_region \<Rightarrow> u32 \<Rightarrow> u8 \<Rightarrow> ('d, unit) state" where
  "mmio_region_write8 B r offset v = State (\<lambda>d. ((), bus_write8 B (base r + offset) v d))"

definition mmio_region_write8_shadowed :: "'d bus \<Rightarrow> mmio_region \<Rightarrow> u32 \<Rightarrow> u8 \<Rightarrow> ('d, unit) state" where
  "mmio_region_write8_shadowed B r offset v = do {
     State (\<lambda>d. ((), bus_write8 B (base r + offset) v d));
     State (\<lambda>d. ((), bus_write8 B (base r + offset) v d))
   }"

definition mmio_region_write32 :: "'d bus \<Rightarrow> mmio_region \<Rightarrow> u32 \<Rightarrow> u32 \<Rightarrow> ('d, unit) state" where
  "mmio_region_write32 B r offset v = State (\<lambda>d. ((), bus_write32 B (base r + 4 * (offset div 4)) v d))"

definition mmio_region_write32_shadowed ::
    "'d bus \<Rightarrow> mmio_region \<Rightarrow> u32 \<Rightarrow> u32 \<Rightarrow> ('d, unit) state" where
  "mmio_region_write32_shadowed B r offset v = do {
     State (\<lambda>d. ((), bus_write32 B (base r + 4 * (offset div 4)) v d));
     State (\<lambda>d. ((), bus_write32 B (base r + 4 * (offset div 4)) v d))
   }"

subsection \<open>Fields and bits of a register\<close>

definition mmio_region_read_mask32 ::
    "'d bus \<Rightarrow> mmio_region \<Rightarrow> u32 \<Rightarrow> u32 \<Rightarrow> u32 \<Rightarrow> ('d, u32) state" where
  "mmio_region_read_mask32 B r offset msk mask_index = do {
     v \<leftarrow> mmio_region_read32 B r offset;
     ret (bitfield_field32_read v \<lparr>field_mask = msk, field_index = mask_index\<rparr>)
   }"

definition mmio_region_get_bit32 ::
    "'d bus \<Rightarrow> mmio_region \<Rightarrow> u32 \<Rightarrow> u32 \<Rightarrow> ('d, bool) state" where
  "mmio_region_get_bit32 B r offset bit_index = do {
     v \<leftarrow> mmio_region_read32 B r offset;
     ret (bitfield_bit32_read v bit_index)
   }"

definition mmio_region_nonatomic_clear_mask32 ::
    "'d bus \<Rightarrow> mmio_region \<Rightarrow> u32 \<Rightarrow> u32 \<Rightarrow> u32 \<Rightarrow> ('d, unit) state" where
  "mmio_region_nonatomic_clear_mask32 B r offset msk mask_index = do {
     register_value \<leftarrow> mmio_region_read32 B r offset;
     let register_value = bitfield_field32_write register_value
       \<lparr>field_mask = msk, field_index = mask_index\<rparr> 0;
     mmio_region_write32 B r offset register_value
   }"

definition mmio_region_nonatomic_set_mask32 ::
    "'d bus \<Rightarrow> mmio_region \<Rightarrow> u32 \<Rightarrow> u32 \<Rightarrow> u32 \<Rightarrow> ('d, unit) state" where
  "mmio_region_nonatomic_set_mask32 B r offset msk mask_index = do {
     register_value \<leftarrow> mmio_region_read32 B r offset;
     let register_value = bitfield_field32_write register_value
       \<lparr>field_mask = msk, field_index = mask_index\<rparr> (NOT 0);
     mmio_region_write32 B r offset register_value
   }"

definition mmio_region_write_only_set_mask32 ::
    "'d bus \<Rightarrow> mmio_region \<Rightarrow> u32 \<Rightarrow> u32 \<Rightarrow> u32 \<Rightarrow> ('d, unit) state" where
  "mmio_region_write_only_set_mask32 B r offset msk mask_index =
     mmio_region_write32 B r offset
       (bitfield_field32_write 0 \<lparr>field_mask = msk, field_index = mask_index\<rparr> (NOT 0))"

definition mmio_region_nonatomic_set_field32 ::
    "'d bus \<Rightarrow> mmio_region \<Rightarrow> u32 \<Rightarrow> bitfield_field32 \<Rightarrow> u32 \<Rightarrow> ('d, unit) state" where
  "mmio_region_nonatomic_set_field32 B r offset field value = do {
     register_value \<leftarrow> mmio_region_read32 B r offset;
     let register_value = bitfield_field32_write register_value field value;
     mmio_region_write32 B r offset register_value
   }"

definition mmio_region_write_only_set_field32 ::
    "'d bus \<Rightarrow> mmio_region \<Rightarrow> u32 \<Rightarrow> bitfield_field32 \<Rightarrow> u32 \<Rightarrow> ('d, unit) state" where
  "mmio_region_write_only_set_field32 B r offset field value =
     mmio_region_write32 B r offset (bitfield_field32_write 0 field value)"

definition mmio_region_nonatomic_clear_bit32 ::
    "'d bus \<Rightarrow> mmio_region \<Rightarrow> u32 \<Rightarrow> u32 \<Rightarrow> ('d, unit) state" where
  "mmio_region_nonatomic_clear_bit32 B r offset bit_index = do {
     register_value \<leftarrow> mmio_region_read32 B r offset;
     let register_value = bitfield_bit32_write register_value bit_index False;
     mmio_region_write32 B r offset register_value
   }"

definition mmio_region_nonatomic_set_bit32 ::
    "'d bus \<Rightarrow> mmio_region \<Rightarrow> u32 \<Rightarrow> u32 \<Rightarrow> ('d, unit) state" where
  "mmio_region_nonatomic_set_bit32 B r offset bit_index = do {
     register_value \<leftarrow> mmio_region_read32 B r offset;
     let register_value = bitfield_bit32_write register_value bit_index True;
     mmio_region_write32 B r offset register_value
   }"

definition mmio_region_write_only_set_bit32 ::
    "'d bus \<Rightarrow> mmio_region \<Rightarrow> u32 \<Rightarrow> u32 \<Rightarrow> ('d, unit) state" where
  "mmio_region_write_only_set_bit32 B r offset bit_index =
     mmio_region_write32 B r offset (bitfield_bit32_write 0 bit_index True)"

subsection \<open>Block copies\<close>

text \<open>The buffer in main memory is the list of its bytes; \<open>put_bytes\<close> is the copy of some bytes
  into an object, and \<open>word_bytes\<close>/\<open>bytes_word\<close> view a word as the object that \<open>&current_word\<close>
  points at.\<close>

definition put_bytes :: "u8 list \<Rightarrow> nat \<Rightarrow> u8 list \<Rightarrow> u8 list" where
  "put_bytes xs i ys = take i xs @ ys @ drop (i + length ys) xs"

definition word_bytes :: "u32 \<Rightarrow> u8 list" where
  "word_bytes w = [byte32 w 0, byte32 w 1, byte32 w 2, byte32 w 3]"

definition bytes_word :: "u8 list \<Rightarrow> u32" where
  "bytes_word bs = le32 (bs ! 0) (bs ! 1) (bs ! 2) (bs ! 3)"

text \<open>The copy of \<open>n\<close> bytes between the buffer at \<open>i\<close> and the word at \<open>offset\<close>, from byte \<open>k\<close>
  of the word on.\<close>

definition mmio_copy_word :: "'d bus \<Rightarrow> mmio_region \<Rightarrow> bool \<Rightarrow> u32 \<Rightarrow> nat \<Rightarrow> nat \<Rightarrow> nat \<Rightarrow> u32 \<Rightarrow> u8 list
    \<Rightarrow> ('d, u8 list) state" where
  "mmio_copy_word B r from_mmio offset k n i current_word buf =
     (if from_mmio
      then ret (put_bytes buf i (take n (drop k (word_bytes current_word))))
      else do {
        mmio_region_write32 B r offset
          (bytes_word (put_bytes (word_bytes current_word) k (take n (drop i buf))));
        ret buf
      })"

function mmio_memcpy32_words :: "'d bus \<Rightarrow> mmio_region \<Rightarrow> bool \<Rightarrow> u32 \<Rightarrow> nat \<Rightarrow> nat \<Rightarrow> u8 list
    \<Rightarrow> ('d, u8 list) state" where
  "mmio_memcpy32_words B r from_mmio offset i len buf =
     (if len = 0 then ret buf
      else do {
        let bytes_to_copy = min 4 len;
        current_word \<leftarrow> (if from_mmio \<or> bytes_to_copy \<noteq> 4 then mmio_region_read32 B r offset else ret 0);
        buf \<leftarrow> mmio_copy_word B r from_mmio offset 0 bytes_to_copy i current_word buf;
        mmio_memcpy32_words B r from_mmio (offset + of_nat bytes_to_copy) (i + bytes_to_copy)
          (len - bytes_to_copy) buf
      })"
  by pat_completeness auto
termination
  by (relation "measure (\<lambda>(B, r, from_mmio, offset, i, len, buf). len)") auto

declare mmio_memcpy32_words.simps [simp del]

definition mmio_region_memcpy32 :: "'d bus \<Rightarrow> mmio_region \<Rightarrow> u32 \<Rightarrow> u8 list \<Rightarrow> nat \<Rightarrow> bool
    \<Rightarrow> ('d, u8 list) state" where
  "mmio_region_memcpy32 B r offset buf len from_mmio =
     (if len = 0 then ret buf
      else do {
        let misalignment = misalignment32_of offset;
        if misalignment \<noteq> 0 then do {
          let realignment = min (4 - unat misalignment) len;
          let current_word_offset = offset - misalignment;
          current_word \<leftarrow> mmio_region_read32 B r current_word_offset;
          buf \<leftarrow> mmio_copy_word B r from_mmio current_word_offset (unat misalignment) realignment 0
            current_word buf;
          mmio_memcpy32_words B r from_mmio (offset + of_nat realignment) realignment
            (len - realignment) buf
        } else mmio_memcpy32_words B r from_mmio offset 0 len buf
      })"

definition mmio_region_memcpy_from_mmio32 :: "'d bus \<Rightarrow> mmio_region \<Rightarrow> u32 \<Rightarrow> u8 list \<Rightarrow> nat
    \<Rightarrow> ('d, u8 list) state" where
  "mmio_region_memcpy_from_mmio32 B r offset dest len = mmio_region_memcpy32 B r offset dest len True"

definition mmio_region_memcpy_to_mmio32 :: "'d bus \<Rightarrow> mmio_region \<Rightarrow> u32 \<Rightarrow> u8 list \<Rightarrow> nat
    \<Rightarrow> ('d, unit) state" where
  "mmio_region_memcpy_to_mmio32 B r offset src len = do {
     _ \<leftarrow> mmio_region_memcpy32 B r offset src len False;
     ret ()
   }"

subsection \<open>Devices\<close>

text \<open>A device whose every word is plain storage; its state is the value of each word.\<close>

type_synonym word_store = "u32 \<Rightarrow> u32"

definition ram_bus :: "word_store bus" where
  "ram_bus = \<lparr>
     bus_read8 = (\<lambda>a s. (byte32 (s (a - a mod 4)) (unat (a mod 4)), s)),
     bus_read32 = (\<lambda>a s. (s a, s)),
     bus_write8 = (\<lambda>a v s. s(a - a mod 4 :=
       bytes_word (put_bytes (word_bytes (s (a - a mod 4))) (unat (a mod 4)) [v]))),
     bus_write32 = (\<lambda>a v s. s(a := v))\<rparr>"

text \<open>The access kinds of the register descriptions: read-write, read-only (writes are
  ignored), write-only (reads return zero), write-one-to-clear, write-zero-to-clear and
  read-to-clear.\<close>

datatype access = RW | RO | WO | W1C | W0C | RC

definition csr_bus :: "(u32 \<Rightarrow> access) \<Rightarrow> word_store bus" where
  "csr_bus kind = \<lparr>
     bus_read8 = (\<lambda>a s. (byte32 (s (a - a mod 4)) (unat (a mod 4)), s)),
     bus_read32 = (\<lambda>a s. case kind a of WO \<Rightarrow> (0, s) | RC \<Rightarrow> (s a, s(a := 0)) | _ \<Rightarrow> (s a, s)),
     bus_write8 = (\<lambda>a v s. s),
     bus_write32 = (\<lambda>a v s. case kind a of
         RW \<Rightarrow> s(a := v) | WO \<Rightarrow> s(a := v)
       | W1C \<Rightarrow> s(a := s a AND NOT v) | W0C \<Rightarrow> s(a := s a AND v)
       | RO \<Rightarrow> s | RC \<Rightarrow> s)\<rparr>"

subsection \<open>The bytes a block copy moves\<close>

definition word_of :: "u32 \<Rightarrow> u32" where
  "word_of x = x - x mod 4"

lemma mod_4_sub: "a mod 4 = 0 \<Longrightarrow> a \<le> x \<Longrightarrow> (x - a) mod 4 = x mod (4 :: nat)"
proof -
  assume "a mod 4 = 0" "a \<le> x"
  then obtain k where "x = 4 * k + (x - a)" by (metis add.commute le_add_diff_inverse2 mult_div_mod_eq add_0_right)
  then show ?thesis by (metis mod_mult_self4)
qed

lemma word_4_mod_4: "(4 :: u32) mod 4 = 0"
  by simp

lemma mod_4_diff:
  fixes A :: u32
  assumes "A mod 4 = 0"
  shows "(x - A) mod 4 = x mod 4"
proof -
  have "unat A mod 4 = 0" using arg_cong [OF assms, of unat] by (simp add: unat_mod_distrib)
  moreover have "unat (x - A) = (if unat A \<le> unat x then unat x - unat A else unat x + 2 ^ 32 - unat A)"
    by (simp add: unat_sub_if')
  moreover have "unat A < 2 ^ 32" using unat_less_2p [of A] by simp
  ultimately have "unat (x - A) mod 4 = unat x mod 4"
    using mod_4_sub [of "unat A" "unat x"] mod_4_sub [of "unat A" "unat x + 2 ^ 32"] \<open>unat A mod 4 = 0\<close>
    by (auto simp: mod_add_eq [of "unat x" 4 4294967296, symmetric])
  then show ?thesis by (simp add: word_unat_eq_iff unat_mod_distrib)
qed

lemma unat_mod_4: "unat ((x :: u32) mod 4) = unat x mod 4"
  by (simp add: unat_mod_distrib)

lemma word_of_iff:
  assumes "A mod 4 = 0"
  shows "word_of x = A \<longleftrightarrow> unat (x - A) < 4"
proof
  assume "word_of x = A"
  then have "x - A = x mod 4" unfolding word_of_def by (metis diff_diff_eq2 add_diff_cancel_left')
  then show "unat (x - A) < 4" by (simp add: unat_mod_4)
next
  assume "unat (x - A) < 4"
  then have "x - A = (x - A) mod 4" by (simp add: word_unat_eq_iff unat_mod_4)
  then have "x mod 4 = x - A" by (simp add: mod_4_diff [OF assms])
  then show "word_of x = A" by (simp add: word_of_def)
qed

lemma mod_4_of_word:
  fixes A :: u32
  assumes "A mod 4 = 0" "unat (x - A) < 4"
  shows "unat (x mod 4) = unat (x - A)"
  using mod_4_diff [OF assms(1), of x] assms(2) by (metis mod_less unat_mod_4)

lemma word_of_aligned: "word_of x mod 4 = 0"
proof -
  have "unat (x mod 4) \<le> unat x" by (simp add: unat_mod_4)
  then have "unat (word_of x) = unat x - unat x mod 4"
    unfolding word_of_def by (simp add: unat_sub word_le_nat_alt unat_mod_4)
  then show ?thesis by (simp add: word_unat_eq_iff unat_mod_4 minus_mod_eq_mult_div)
qed

lemma region_word: "(4 :: u32) * (x div 4) = word_of x"
  by (simp add: word_of_def minus_mod_eq_mult_div)

lemma word_of_idem: "x mod 4 = 0 \<Longrightarrow> word_of x = x"
  by (simp add: word_of_def)

lemma add_mod_4:
  fixes A :: u32
  assumes "A mod 4 = 0"
  shows "(A + x) mod 4 = x mod 4"
  using mod_4_diff [OF assms, of "A + x"] by simp

lemma length_put_bytes: "i + length ys \<le> length xs \<Longrightarrow> length (put_bytes xs i ys) = length xs"
  by (simp add: put_bytes_def)

lemma nth_put_bytes:
  assumes "i + length ys \<le> length xs" "j < length xs"
  shows "put_bytes xs i ys ! j = (if i \<le> j \<and> j < i + length ys then ys ! (j - i) else xs ! j)"
  using assms by (auto simp: put_bytes_def nth_append)

lemma put_bytes_append:
  assumes "i + length ys + length zs \<le> length xs"
  shows "put_bytes (put_bytes xs i ys) (i + length ys) zs = put_bytes xs i (ys @ zs)"
  using assms by (simp add: put_bytes_def ac_simps)

lemma word_bytes_nth: "k < 4 \<Longrightarrow> word_bytes w ! k = byte32 w k"
  by (erule less_4_cases) (simp_all add: word_bytes_def)

lemma length_word_bytes [simp]: "length (word_bytes w) = 4"
  by (simp add: word_bytes_def)

lemma byte32_bytes_word: "k < 4 \<Longrightarrow> byte32 (bytes_word bs) k = bs ! k"
  by (erule less_4_cases) (simp_all add: bytes_word_def byte32_le32)

text \<open>\<open>overlay f A ys\<close>: the bytes \<open>f\<close> with \<open>ys\<close> put at the addresses from \<open>A\<close> on.\<close>

definition overlay :: "(u32 \<Rightarrow> u8) \<Rightarrow> u32 \<Rightarrow> u8 list \<Rightarrow> u32 \<Rightarrow> u8" where
  "overlay f A ys x = (let j = unat (x - A) in if j < length ys then ys ! j else f x)"

lemma unat_sub_of_nat:
  fixes x :: u32
  assumes "n < 2 ^ 32"
  shows "unat (x - of_nat n) = (if n \<le> unat x then unat x - n else 2 ^ 32 + unat x - n)"
proof -
  have "unat (of_nat n :: u32) = n" using assms by (simp add: unat_of_nat)
  then show ?thesis using unat_sub_if' [of x "of_nat n"] by auto
qed

lemma overlay_append:
  assumes "length ys + length zs \<le> 2 ^ 32"
  shows "overlay (overlay f A ys) (A + of_nat (length ys)) zs = overlay f A (ys @ zs)"
proof (cases "zs = []")
  case True
  then show ?thesis by (simp add: overlay_def fun_eq_iff)
next
  case False
  then have n: "length ys < 2 ^ 32" using assms by (cases zs) auto
  show ?thesis
  proof
    fix x
    have "x - (A + of_nat (length ys)) = (x - A) - of_nat (length ys)" by simp
    then have "unat (x - (A + of_nat (length ys))) = (if length ys \<le> unat (x - A)
        then unat (x - A) - length ys else 2 ^ 32 + unat (x - A) - length ys)"
      using unat_sub_of_nat [OF n] by metis
    with assms show "overlay (overlay f A ys) (A + of_nat (length ys)) zs x = overlay f A (ys @ zs) x"
      by (auto simp: overlay_def Let_def nth_append)
  qed
qed

lemma overlay_inside:
  assumes "j < length ys" "length ys \<le> 2 ^ 32"
  shows "overlay f A ys (A + of_nat j) = ys ! j"
  using assms by (simp add: overlay_def unat_of_nat)

text \<open>A device with storage words: what is written to a plain word is what is read from it,
  and writing one word changes no other.\<close>

locale word_storage =
  fixes B :: "'d bus" and word_at :: "'d \<Rightarrow> u32 \<Rightarrow> u32" and plain :: "u32 \<Rightarrow> bool"
  assumes read_plain: "plain a \<Longrightarrow> bus_read32 B a d = (word_at d a, d)"
    and write_plain: "plain a \<Longrightarrow> word_at (bus_write32 B a v d) = (word_at d)(a := v)"
begin

definition byte_at :: "'d \<Rightarrow> u32 \<Rightarrow> u8" where
  "byte_at d x = byte32 (word_at d (word_of x)) (unat (x mod 4))"

lemma run_read32:
  assumes "plain (base r + word_of offset)"
  shows "run_state (mmio_region_read32 B r offset) d = (word_at d (base r + word_of offset), d)"
  using assms by (simp add: mmio_region_read32_def region_word read_plain)

lemma run_write32:
  "run_state (mmio_region_write32 B r offset v) d = ((), bus_write32 B (base r + word_of offset) v d)"
  by (simp add: mmio_region_write32_def region_word)

lemma byte_at_word:
  assumes "A mod 4 = 0" "k < 4"
  shows "byte_at d (A + of_nat k) = byte32 (word_at d A) k"
proof -
  have k: "unat (of_nat k :: u32) = k" using assms(2) by (simp add: unat_of_nat)
  then have "unat ((A + of_nat k) - A) < 4" using assms(2) by simp
  from word_of_iff [OF assms(1), of "A + of_nat k"] mod_4_of_word [OF assms(1) this] this
  show ?thesis by (simp add: byte_at_def k)
qed

text \<open>Writing \<open>ys\<close> over the bytes of a word from byte \<open>k\<close> on changes those bytes only.\<close>

lemma write_word_bytes:
  assumes "A mod 4 = 0" "plain A" "k + length ys \<le> 4"
    "k = 0 \<and> length ys = 4 \<or> w = word_at d A"
  shows "byte_at (bus_write32 B A (bytes_word (put_bytes (word_bytes w) k ys)) d) =
    overlay (byte_at d) (A + of_nat k) ys"
proof
  fix x
  show "byte_at (bus_write32 B A (bytes_word (put_bytes (word_bytes w) k ys)) d) x =
    overlay (byte_at d) (A + of_nat k) ys x"
  proof (cases "unat (x - A) < 4")
    case True
    define m where "m = unat (x - A)"
    have m: "m < 4" and x: "x = A + of_nat m" using True by (simp_all add: m_def)
    have j: "unat (x - (A + of_nat k)) = (if k \<le> m then m - k else 2 ^ 32 + m - k)"
    proof -
      have e: "x - (A + of_nat k) = (x - A) - of_nat k" by simp
      show ?thesis unfolding e m_def using assms(3) by (subst unat_sub_of_nat) auto
    qed
    have xA: "A mod 4 = 0" by (fact assms(1))
    have "byte_at (bus_write32 B A v d) x = byte32 v m" for v
      unfolding x byte_at_word [OF xA m] using assms(2) by (simp add: write_plain)
    then have "byte_at (bus_write32 B A (bytes_word (put_bytes (word_bytes w) k ys)) d) x =
        put_bytes (word_bytes w) k ys ! m"
      using m by (simp add: byte32_bytes_word)
    also have "\<dots> = (if k \<le> m \<and> m < k + length ys then ys ! (m - k) else byte32 w m)"
      using m assms(3) by (simp add: nth_put_bytes word_bytes_nth)
    also have "\<dots> = (if k \<le> m \<and> m < k + length ys then ys ! (m - k) else byte_at d x)"
      using assms(4) m unfolding x byte_at_word [OF xA m] by auto
    also have "\<dots> = (let j = unat (x - (A + of_nat k)) in if j < length ys then ys ! j else byte_at d x)"
      using m assms(3) by (auto simp: j Let_def)
    finally show ?thesis by (simp only: overlay_def)
  next
    case False
    have e: "x - (A + of_nat k) = (x - A) - of_nat k" by simp
    have "\<not> unat (x - (A + of_nat k)) < length ys"
      unfolding e using assms(3) False by (subst unat_sub_of_nat) auto
    moreover have "byte_at (bus_write32 B A v d) x = byte_at d x" for v
      using False word_of_iff [OF assms(1), of x] assms(2) by (simp add: byte_at_def write_plain)
    ultimately show ?thesis by (simp add: overlay_def)
  qed
qed

lemma read_word_bytes:
  assumes "A mod 4 = 0"
  shows "word_bytes (word_at d A) = map (\<lambda>k. byte_at d (A + of_nat k)) [0..<4]"
  using byte_at_word [OF assms, of 0 d] byte_at_word [OF assms, of 1 d]
    byte_at_word [OF assms, of 2 d] byte_at_word [OF assms, of 3 d]
  by (simp add: word_bytes_def upt_4)

definition bytes_at :: "'d \<Rightarrow> u32 \<Rightarrow> nat \<Rightarrow> u8 list" where
  "bytes_at d A n = map (\<lambda>k. byte_at d (A + of_nat k)) [0..<n]"

lemma bytes_at_drop: "bytes_at d (A + of_nat k) n = take n (drop k (bytes_at d A (k + n)))"
  by (rule nth_equalityI) (simp_all add: bytes_at_def add.assoc)

lemma bytes_at_append: "bytes_at d A (m + n) = bytes_at d A m @ bytes_at d (A + of_nat m) n"
  by (rule nth_equalityI) (auto simp: bytes_at_def nth_append add.assoc of_nat_diff)

lemma run_copy_word_to:
  assumes "A mod 4 = 0" "plain A" "k + n \<le> 4" "base r + word_of offset = A" "i + n \<le> length buf"
    "k = 0 \<and> n = 4 \<or> w = word_at d A"
  obtains d' where "run_state (mmio_copy_word B r False offset k n i w buf) d = (buf, d')"
    "byte_at d' = overlay (byte_at d) (A + of_nat k) (take n (drop i buf))"
  using write_word_bytes [of A k "take n (drop i buf)" w d] assms
  by (auto simp: mmio_copy_word_def run_write32)

lemma memcpy32_words_to:
  assumes "len = 0 \<or> (base r + offset) mod 4 = 0" "base r mod 4 = 0" "i + len \<le> length buf" "len \<le> 2 ^ 32"
    "\<And>j. j < len \<Longrightarrow> plain (word_of (base r + offset + of_nat j))"
  shows "\<exists>d'. run_state (mmio_memcpy32_words B r False offset i len buf) d = (buf, d')
    \<and> byte_at d' = overlay (byte_at d) (base r + offset) (take len (drop i buf))"
  using assms
proof (induction len arbitrary: offset i d rule: less_induct)
  case (less len)
  show ?case
  proof (cases "len = 0")
    case True
    then show ?thesis by (simp add: mmio_memcpy32_words.simps overlay_def fun_eq_iff)
  next
    case False
    let ?n = "min 4 len" and ?A = "base r + offset"
    have al: "?A mod 4 = 0" using less.prems(1) False by simp
    then have off: "offset mod 4 = 0" using add_mod_4 [OF less.prems(2), of offset] by simp
    then have A: "base r + word_of offset = ?A" by (simp add: word_of_idem)
    have pl: "plain ?A" using less.prems(5) [of 0] False al by (simp add: word_of_idem)
    define w where "w = (if len < 4 then word_at d ?A else 0)"
    obtain d1 where d1: "run_state (mmio_copy_word B r False offset 0 ?n i w buf) d = (buf, d1)"
      "byte_at d1 = overlay (byte_at d) (?A + of_nat 0) (take ?n (drop i buf))"
      by (rule run_copy_word_to [of ?A 0 ?n r offset i buf w d])
        (use al less.prems(3) pl A in \<open>auto simp: w_def\<close>)
    have "\<exists>d'. run_state (mmio_memcpy32_words B r False (offset + of_nat ?n) (i + ?n) (len - ?n) buf) d1 = (buf, d')
      \<and> byte_at d' = overlay (byte_at d1) (base r + (offset + of_nat ?n)) (take (len - ?n) (drop (i + ?n) buf))"
    proof (rule less.IH)
      show "len - ?n = 0 \<or> (base r + (offset + of_nat ?n)) mod 4 = 0"
        using add_mod_4 [OF al, of 4] by (auto simp: add.assoc min_def)
      fix j assume "j < len - ?n"
      then show "plain (word_of (base r + (offset + of_nat ?n) + of_nat j))"
        using less.prems(5) [of "j + ?n"] by (simp add: add_ac)
    qed (use less.prems False in auto)
    then obtain d2 where d2: "run_state (mmio_memcpy32_words B r False (offset + of_nat ?n) (i + ?n) (len - ?n) buf) d1 = (buf, d2)"
      "byte_at d2 = overlay (byte_at d1) (base r + (offset + of_nat ?n)) (take (len - ?n) (drop (i + ?n) buf))"
      by blast
    have "run_state (mmio_memcpy32_words B r False offset i len buf) d = (buf, d2)"
      using False d1(1) d2(1) A pl
      by (subst mmio_memcpy32_words.simps) (auto simp: Let_def w_def run_read32 split: if_splits)
    moreover have "byte_at d2 = overlay (byte_at d) ?A (take len (drop i buf))"
    proof -
      have "byte_at d2 = overlay (overlay (byte_at d) ?A (take ?n (drop i buf)))
          (?A + of_nat (length (take ?n (drop i buf)))) (take (len - ?n) (drop (i + ?n) buf))"
        using less.prems(3) by (simp add: d2(2) d1(2) add.assoc)
      also have "\<dots> = overlay (byte_at d) ?A (take ?n (drop i buf) @ take (len - ?n) (drop (i + ?n) buf))"
        using less.prems(3,4) by (intro overlay_append) simp
      also have "take ?n (drop i buf) @ take (len - ?n) (drop (i + ?n) buf) = take len (drop i buf)"
        by (metis add.commute drop_drop le_add_diff_inverse min.cobounded2 take_add)
      finally show ?thesis .
    qed
    ultimately show ?thesis by blast
  qed
qed

lemma run_copy_word_from:
  assumes "A mod 4 = 0" "k + n \<le> 4"
  shows "run_state (mmio_copy_word B r True offset k n i (word_at d A) buf) d' =
    (put_bytes buf i (bytes_at d (A + of_nat k) n), d')"
proof -
  have "take n (drop k (word_bytes (word_at d A))) = take n (drop k (bytes_at d A (k + n)))"
    using assms(2) by (auto simp: read_word_bytes [OF assms(1)] bytes_at_def list_eq_iff_nth_eq)
  also have "\<dots> = bytes_at d (A + of_nat k) n" by (simp add: bytes_at_drop)
  finally show ?thesis by (simp add: mmio_copy_word_def)
qed

lemma length_bytes_at [simp]: "length (bytes_at d A n) = n"
  by (simp add: bytes_at_def)

lemma put_bytes_bytes_at:
  assumes "i + (m + n) \<le> length buf"
  shows "put_bytes (put_bytes buf i (bytes_at d A m)) (i + m) (bytes_at d (A + of_nat m) n) =
    put_bytes buf i (bytes_at d A (m + n))"
  using put_bytes_append [of i "bytes_at d A m" "bytes_at d (A + of_nat m) n" buf] assms
  by (simp add: bytes_at_append add.assoc)

lemma memcpy32_words_from:
  assumes "len = 0 \<or> (base r + offset) mod 4 = 0" "base r mod 4 = 0" "i + len \<le> length buf"
    "\<And>j. j < len \<Longrightarrow> plain (word_of (base r + offset + of_nat j))"
  shows "run_state (mmio_memcpy32_words B r True offset i len buf) d =
    (put_bytes buf i (bytes_at d (base r + offset) len), d)"
  using assms
proof (induction len arbitrary: offset i buf rule: less_induct)
  case (less len)
  show ?case
  proof (cases "len = 0")
    case True
    then show ?thesis by (simp add: mmio_memcpy32_words.simps put_bytes_def bytes_at_def)
  next
    case False
    let ?n = "min 4 len" and ?A = "base r + offset"
    let ?buf = "put_bytes buf i (bytes_at d ?A ?n)"
    have al: "?A mod 4 = 0" using less.prems(1) False by simp
    then have off: "offset mod 4 = 0" using add_mod_4 [OF less.prems(2), of offset] by simp
    then have A: "base r + word_of offset = ?A" by (simp add: word_of_idem)
    have pl: "plain ?A" using less.prems(4) [of 0] False al by (simp add: word_of_idem)
    have buf: "length ?buf = length buf" using less.prems(3) by (simp add: length_put_bytes)
    have "run_state (mmio_memcpy32_words B r True (offset + of_nat ?n) (i + ?n) (len - ?n) ?buf) d =
      (put_bytes ?buf (i + ?n) (bytes_at d (base r + (offset + of_nat ?n)) (len - ?n)), d)"
    proof (rule less.IH)
      show "len - ?n = 0 \<or> (base r + (offset + of_nat ?n)) mod 4 = 0"
        using add_mod_4 [OF al, of 4] by (auto simp: add.assoc min_def)
      fix j assume "j < len - ?n"
      then show "plain (word_of (base r + (offset + of_nat ?n) + of_nat j))"
        using less.prems(4) [of "j + ?n"] by (simp add: add_ac)
    qed (use less.prems False buf in auto)
    also have "put_bytes ?buf (i + ?n) (bytes_at d (base r + (offset + of_nat ?n)) (len - ?n)) =
        put_bytes buf i (bytes_at d ?A (?n + (len - ?n)))"
      using put_bytes_bytes_at [of i ?n "len - ?n" buf d ?A] less.prems(3) by (simp add: add.assoc)
    finally show ?thesis
      using False A pl run_copy_word_from [OF al, of 0 ?n r offset i d buf d]
      by (subst mmio_memcpy32_words.simps) (simp add: run_read32 Let_def)
  qed
qed

lemma misaligned_head:
  fixes offset :: u32
  assumes "base r mod 4 = 0"
  defines "m \<equiv> misalignment32_of offset"
  shows "offset - m = word_of offset" "unat m < 4" "(base r + word_of offset) mod 4 = 0"
    "word_of (word_of offset) = word_of offset" "base r + word_of offset + m = base r + offset"
    "word_of (base r + offset) = base r + word_of offset"
    "k = 4 - unat m \<Longrightarrow> (base r + (offset + of_nat k)) mod 4 = 0"
proof -
  show 1: "offset - m = word_of offset" by (simp add: m_def word_of_def misalignment32_of_def)
  show 2: "unat m < 4" by (simp add: m_def misalignment32_of_def unat_mod_4)
  show 3: "(base r + word_of offset) mod 4 = 0" using add_mod_4 [OF assms(1)] word_of_aligned by simp
  show "word_of (word_of offset) = word_of offset" by (simp add: word_of_idem word_of_aligned)
  show 4: "base r + word_of offset + m = base r + offset" by (simp add: 1 [symmetric])
  show "word_of (base r + offset) = base r + word_of offset"
    using add_mod_4 [OF assms(1), of offset] by (simp add: word_of_def)
  assume "k = 4 - unat m"
  then have "m + of_nat k = of_nat (unat m + (4 - unat m))" by simp
  also have "\<dots> = 4" using 2 by simp
  finally have k: "m + of_nat k = 4" .
  have "base r + (offset + of_nat k) = (base r + offset) + of_nat k" by (simp only: add.assoc)
  also have "\<dots> = (base r + word_of offset) + (m + of_nat k)" by (simp only: add.assoc 4 [symmetric])
  finally have "base r + (offset + of_nat k) = (base r + word_of offset) + 4" by (simp only: k)
  then show "(base r + (offset + of_nat k)) mod 4 = 0" using add_mod_4 [OF 3, of 4] by (simp only: word_4_mod_4)
qed

lemma memcpy_to_mmio32:
  assumes "base r mod 4 = 0" "len \<le> length src" "len \<le> 2 ^ 32"
    "\<And>j. j < len \<Longrightarrow> plain (word_of (base r + offset + of_nat j))"
  shows "byte_at (snd (run_state (mmio_region_memcpy_to_mmio32 B r offset src len) d)) =
    overlay (byte_at d) (base r + offset) (take len src)"
proof -
  let ?m = "misalignment32_of offset" and ?A = "base r + word_of offset"
  note head = misaligned_head [OF assms(1), where offset = offset]
  consider "len = 0" | "len \<noteq> 0" "?m = 0" | "len \<noteq> 0" "?m \<noteq> 0" by blast
  then show ?thesis
  proof cases
    case 1
    then show ?thesis
      by (simp add: mmio_region_memcpy_to_mmio32_def mmio_region_memcpy32_def overlay_def fun_eq_iff)
  next
    case 2
    then show ?thesis using head assms memcpy32_words_to [of len r offset 0 src d]
      by (auto simp: mmio_region_memcpy_to_mmio32_def mmio_region_memcpy32_def Let_def)
  next
    case 3
    let ?n = "min (4 - unat ?m) len"
    have pl: "plain ?A" using assms(4) [of 0] 3 head(6) by simp
    obtain d1 where d1: "run_state (mmio_copy_word B r False (word_of offset) (unat ?m) ?n 0 (word_at d ?A) src) d = (src, d1)"
      "byte_at d1 = overlay (byte_at d) (?A + of_nat (unat ?m)) (take ?n (drop 0 src))"
      by (rule run_copy_word_to [OF head(3) pl, of "unat ?m" ?n r "word_of offset" 0 src "word_at d ?A" d])
        (use assms(2) head in auto)
    have b1: "byte_at d1 = overlay (byte_at d) (base r + offset) (take ?n src)"
      using d1(2) head(5) by simp
    have "\<exists>d'. run_state (mmio_memcpy32_words B r False (offset + of_nat ?n) ?n (len - ?n) src) d1 = (src, d')
      \<and> byte_at d' = overlay (byte_at d1) (base r + (offset + of_nat ?n)) (take (len - ?n) (drop ?n src))"
    proof (rule memcpy32_words_to)
      show "len - ?n = 0 \<or> (base r + (offset + of_nat ?n)) mod 4 = 0"
        using head(7) [of ?n] by (auto simp: min_def)
      fix j assume "j < len - ?n"
      then show "plain (word_of (base r + (offset + of_nat ?n) + of_nat j))"
        using assms(4) [of "j + ?n"] by (simp add: add_ac)
    qed (use assms in auto)
    then obtain d2 where d2: "run_state (mmio_memcpy32_words B r False (offset + of_nat ?n) ?n (len - ?n) src) d1 = (src, d2)"
      "byte_at d2 = overlay (byte_at d1) (base r + (offset + of_nat ?n)) (take (len - ?n) (drop ?n src))"
      by blast
    have "byte_at d2 = overlay (byte_at d) (base r + offset) (take ?n src @ take (len - ?n) (drop ?n src))"
      using overlay_append [of "take ?n src" "take (len - ?n) (drop ?n src)" "byte_at d" "base r + offset"] assms(2,3)
      by (simp add: d2(2) b1 add.assoc)
    also have "take ?n src @ take (len - ?n) (drop ?n src) = take len src"
      by (metis le_add_diff_inverse min.cobounded2 take_add)
    finally show ?thesis using 3 d1(1) d2(1) pl
      by (simp add: mmio_region_memcpy_to_mmio32_def mmio_region_memcpy32_def Let_def head run_read32)
  qed
qed

lemma memcpy_from_mmio32:
  assumes "base r mod 4 = 0" "len \<le> length dest"
    "\<And>j. j < len \<Longrightarrow> plain (word_of (base r + offset + of_nat j))"
  shows "run_state (mmio_region_memcpy_from_mmio32 B r offset dest len) d =
    (put_bytes dest 0 (bytes_at d (base r + offset) len), d)"
proof -
  let ?m = "misalignment32_of offset" and ?A = "base r + word_of offset"
  note head = misaligned_head [OF assms(1), where offset = offset]
  consider "len = 0" | "len \<noteq> 0" "?m = 0" | "len \<noteq> 0" "?m \<noteq> 0" by blast
  then show ?thesis
  proof cases
    case 1
    then show ?thesis
      by (simp add: mmio_region_memcpy_from_mmio32_def mmio_region_memcpy32_def put_bytes_def bytes_at_def)
  next
    case 2
    then show ?thesis using head assms memcpy32_words_from [of len r offset 0 dest d]
      by (auto simp: mmio_region_memcpy_from_mmio32_def mmio_region_memcpy32_def Let_def)
  next
    case 3
    let ?n = "min (4 - unat ?m) len"
    let ?buf = "put_bytes dest 0 (bytes_at d (base r + offset) ?n)"
    have pl: "plain ?A" using assms(3) [of 0] 3 head(6) by simp
    have "run_state (mmio_memcpy32_words B r True (offset + of_nat ?n) ?n (len - ?n) ?buf) d =
      (put_bytes ?buf ?n (bytes_at d (base r + (offset + of_nat ?n)) (len - ?n)), d)"
    proof (rule memcpy32_words_from)
      show "len - ?n = 0 \<or> (base r + (offset + of_nat ?n)) mod 4 = 0"
        using head(7) [of ?n] by (auto simp: min_def)
      show "?n + (len - ?n) \<le> length ?buf" using assms(2) by (simp add: length_put_bytes)
      fix j assume "j < len - ?n"
      then show "plain (word_of (base r + (offset + of_nat ?n) + of_nat j))"
        using assms(3) [of "j + ?n"] by (simp add: add_ac)
    qed (use assms in auto)
    also have "put_bytes ?buf ?n (bytes_at d (base r + (offset + of_nat ?n)) (len - ?n)) =
        put_bytes dest 0 (bytes_at d (base r + offset) (?n + (len - ?n)))"
      using put_bytes_bytes_at [of 0 ?n "len - ?n" dest d "base r + offset"] assms(2) by (simp add: add.assoc)
    finally have rest: "run_state (mmio_memcpy32_words B r True (offset + of_nat ?n) ?n (len - ?n) ?buf) d =
      (put_bytes dest 0 (bytes_at d (base r + offset) (?n + (len - ?n))), d)" .
    have "run_state (mmio_copy_word B r True (word_of offset) (unat ?m) ?n 0 (word_at d ?A) dest) d = (?buf, d)"
      using run_copy_word_from [OF head(3), of "unat ?m" ?n r "word_of offset" 0 d dest d] head(2,5)
      by simp
    with rest show ?thesis
      using 3 pl head(1,4) by (simp add: mmio_region_memcpy_from_mmio32_def mmio_region_memcpy32_def Let_def run_read32)
  qed
qed

text \<open>What plain writes keep, a block copy keeps.\<close>

lemma copy_word_invariant:
  assumes "\<And>a v d. plain a \<Longrightarrow> P d \<Longrightarrow> P (bus_write32 B a v d)" "plain (base r + word_of offset)" "P d"
  shows "P (snd (run_state (mmio_copy_word B r False offset k n i w buf) d))"
  using assms by (simp add: mmio_copy_word_def run_write32)

lemma memcpy32_words_invariant:
  assumes "\<And>a v d. plain a \<Longrightarrow> P d \<Longrightarrow> P (bus_write32 B a v d)" "P d"
    "len = 0 \<or> (base r + offset) mod 4 = 0" "base r mod 4 = 0"
    "\<And>j. j < len \<Longrightarrow> plain (word_of (base r + offset + of_nat j))"
  shows "P (snd (run_state (mmio_memcpy32_words B r False offset i len buf) d))"
  using assms(2-)
proof (induction len arbitrary: offset i d buf rule: less_induct)
  case (less len)
  show ?case
  proof (cases "len = 0")
    case True
    with less.prems show ?thesis by (simp add: mmio_memcpy32_words.simps)
  next
    case False
    let ?n = "min 4 len" and ?A = "base r + offset"
    have al: "?A mod 4 = 0" using less.prems(2) False by simp
    then have A: "base r + word_of offset = ?A" using add_mod_4 [OF less.prems(3), of offset] by (simp add: word_of_idem)
    have pl: "plain (base r + word_of offset)" using less.prems(4) [of 0] False al A by (simp add: word_of_idem)
    define w where "w = (if len < 4 then word_at d ?A else 0)"
    obtain b1 d1 where d1: "run_state (mmio_copy_word B r False offset 0 ?n i w buf) d = (b1, d1)" by fastforce
    with copy_word_invariant [OF assms(1) pl less.prems(1)] have "P d1" by (metis snd_conv)
    have "P (snd (run_state (mmio_memcpy32_words B r False (offset + of_nat ?n) (i + ?n) (len - ?n) b1) d1))"
    proof (rule less.IH)
      show "len - ?n = 0 \<or> (base r + (offset + of_nat ?n)) mod 4 = 0"
        using add_mod_4 [OF al, of 4] by (auto simp: add.assoc min_def)
      fix j assume "j < len - ?n"
      then show "plain (word_of (base r + (offset + of_nat ?n) + of_nat j))"
        using less.prems(4) [of "j + ?n"] by (simp add: add_ac)
    qed (use less.prems False \<open>P d1\<close> in auto)
    with False d1 pl A show ?thesis
      by (subst mmio_memcpy32_words.simps) (auto simp: Let_def w_def run_read32 split: if_splits)
  qed
qed

lemma memcpy_to_invariant:
  assumes "\<And>a v d. plain a \<Longrightarrow> P d \<Longrightarrow> P (bus_write32 B a v d)" "P d" "base r mod 4 = 0"
    "\<And>j. j < len \<Longrightarrow> plain (word_of (base r + offset + of_nat j))"
  shows "P (snd (run_state (mmio_region_memcpy_to_mmio32 B r offset src len) d))"
proof -
  let ?m = "misalignment32_of offset" and ?A = "base r + word_of offset"
  note head = misaligned_head [OF assms(3), where offset = offset]
  consider "len = 0" | "len \<noteq> 0" "?m = 0" | "len \<noteq> 0" "?m \<noteq> 0" by blast
  then show ?thesis
  proof cases
    case 1
    with assms(2) show ?thesis by (simp add: mmio_region_memcpy_to_mmio32_def mmio_region_memcpy32_def)
  next
    case 2
    then show ?thesis using head assms memcpy32_words_invariant [of P d len r offset 0 src]
      by (auto simp: mmio_region_memcpy_to_mmio32_def mmio_region_memcpy32_def Let_def split: prod.splits)
  next
    case 3
    let ?n = "min (4 - unat ?m) len"
    have pl: "plain ?A" using assms(4) [of 0] 3 head(6) by simp
    obtain b1 d1 where d1: "run_state (mmio_copy_word B r False (word_of offset) (unat ?m) ?n 0 (word_at d ?A) src) d = (b1, d1)"
      by fastforce
    have "plain (base r + word_of (word_of offset))" using pl head(4) by simp
    from copy_word_invariant [of P, OF assms(1) this assms(2)] d1 have "P d1" by (metis snd_conv)
    have "P (snd (run_state (mmio_memcpy32_words B r False (offset + of_nat ?n) ?n (len - ?n) b1) d1))"
    proof (rule memcpy32_words_invariant)
      show "len - ?n = 0 \<or> (base r + (offset + of_nat ?n)) mod 4 = 0"
        using head(7) [of ?n] by (auto simp: min_def)
      fix j assume "j < len - ?n"
      then show "plain (word_of (base r + (offset + of_nat ?n) + of_nat j))"
        using assms(4) [of "j + ?n"] by (simp add: add_ac)
    qed (use assms \<open>P d1\<close> in auto)
    with 3 d1 pl show ?thesis
      by (simp add: mmio_region_memcpy_to_mmio32_def mmio_region_memcpy32_def Let_def head run_read32 split_beta)
  qed
qed

end

text \<open>Both buses are storage devices: the plain store everywhere, the register file at its
  read-write registers.\<close>

interpretation ram: word_storage ram_bus "\<lambda>s. s" "\<lambda>_. True"
  by unfold_locales (simp_all add: ram_bus_def)

interpretation csr: word_storage "csr_bus kind" "\<lambda>s. s" "\<lambda>a. kind a = RW" for kind
  by unfold_locales (simp_all add: csr_bus_def)

definition store_byte :: "word_store \<Rightarrow> u32 \<Rightarrow> u8" where
  "store_byte s x = byte32 (s (word_of x)) (unat (x mod 4))"

lemma csr_byte_at: "csr.byte_at = store_byte"
  by (simp add: fun_eq_iff csr.byte_at_def store_byte_def)

text \<open>C1: Block copies to and from a register file whose words in the range are read-write: for
  every offset (aligned or not) and length, copying \<open>src\<close> out changes exactly the bytes of the
  range, so that the partial words at the two ends keep their other bytes, and copying the range
  back returns \<open>src\<close>.\<close>

theorem mmio_memcpy_roundtrip:
  fixes s :: word_store
  assumes "base r mod 4 = 0" "length src \<le> length dest" "length src \<le> 2 ^ 32"
    "\<forall>j<length src. kind (word_of (base r + offset + of_nat j)) = RW"
  defines "s' \<equiv> snd (run_state (mmio_region_memcpy_to_mmio32 (csr_bus kind) r offset src (length src)) s)"
  shows "store_byte s' = overlay (store_byte s) (base r + offset) src \<and>
    run_state (mmio_region_memcpy_from_mmio32 (csr_bus kind) r offset dest (length src)) s' =
      (src @ drop (length src) dest, s')"
proof
  show s': "store_byte s' = overlay (store_byte s) (base r + offset) src"
    using csr.memcpy_to_mmio32 [of r "length src" src kind offset s] assms
    by (simp add: s'_def csr_byte_at)
  have "csr.bytes_at s' (base r + offset) (length src) = src"
    using assms(3) by (intro nth_equalityI) (simp_all add: csr.bytes_at_def csr_byte_at s' overlay_inside)
  then show "run_state (mmio_region_memcpy_from_mmio32 (csr_bus kind) r offset dest (length src)) s' =
      (src @ drop (length src) dest, s')"
    using csr.memcpy_from_mmio32 [of r "length src" dest kind offset s'] assms(1,2,4)
    by (simp add: put_bytes_def)
qed

theorem mmio_memcpy_roundtrip_witness:
  "fst (run_state (mmio_region_memcpy_from_mmio32 (csr_bus (\<lambda>_. RW)) \<lparr>base = 0x1000\<rparr> 3 [0, 0, 9] 2)
     (snd (run_state (mmio_region_memcpy_to_mmio32 (csr_bus (\<lambda>_. RW)) \<lparr>base = 0x1000\<rparr> 3 [5, 6] 2)
        (\<lambda>_. 0xffffffff)))) = [5, 6, 9]"
proof -
  have l: "length [5, 6 :: u8] = 2" by simp
  from mmio_memcpy_roundtrip [of "\<lparr>base = 0x1000\<rparr>" "[5, 6]" "[0, 0, 9]" "\<lambda>_. RW" 3 "\<lambda>_. 0xffffffff",
    unfolded l] show ?thesis by simp
qed

end
