(* ===== verification/Regs.thy ===== *)
theory Regs
  imports Bitfield
begin

section \<open>Register constants\<close>

text \<open>
  The offsets, bit positions, fields and values of the register headers under
  \<^verbatim>\<open>sw/device/regs\<close> that the drivers use, under the names of the headers. They are
  abbreviations: a statement shows the number the compiler sees.
\<close>

text \<open>\<^verbatim>\<open>sw/device/regs/aon_timer_regs.h\<close>\<close>

abbreviation (input) AON_TIMER_WKUP_CTRL_REG_OFFSET :: u32 where
  "AON_TIMER_WKUP_CTRL_REG_OFFSET \<equiv> 0x4"

abbreviation (input) AON_TIMER_WKUP_CTRL_ENABLE_BIT :: u32 where
  "AON_TIMER_WKUP_CTRL_ENABLE_BIT \<equiv> 0"

abbreviation (input) AON_TIMER_WKUP_CTRL_PRESCALER_MASK :: u32 where
  "AON_TIMER_WKUP_CTRL_PRESCALER_MASK \<equiv> 0xfff"

abbreviation (input) AON_TIMER_WKUP_CTRL_PRESCALER_FIELD :: bitfield_field32 where
  "AON_TIMER_WKUP_CTRL_PRESCALER_FIELD \<equiv> \<lparr>field_mask = 0xfff, field_index = 1\<rparr>"

abbreviation (input) AON_TIMER_WKUP_THOLD_HI_REG_OFFSET :: u32 where
  "AON_TIMER_WKUP_THOLD_HI_REG_OFFSET \<equiv> 0x8"

abbreviation (input) AON_TIMER_WKUP_THOLD_LO_REG_OFFSET :: u32 where
  "AON_TIMER_WKUP_THOLD_LO_REG_OFFSET \<equiv> 0xc"

abbreviation (input) AON_TIMER_WKUP_COUNT_HI_REG_OFFSET :: u32 where
  "AON_TIMER_WKUP_COUNT_HI_REG_OFFSET \<equiv> 0x10"

abbreviation (input) AON_TIMER_WKUP_COUNT_LO_REG_OFFSET :: u32 where
  "AON_TIMER_WKUP_COUNT_LO_REG_OFFSET \<equiv> 0x14"

abbreviation (input) AON_TIMER_WDOG_REGWEN_REG_OFFSET :: u32 where
  "AON_TIMER_WDOG_REGWEN_REG_OFFSET \<equiv> 0x18"

abbreviation (input) AON_TIMER_WDOG_REGWEN_REGWEN_BIT :: u32 where
  "AON_TIMER_WDOG_REGWEN_REGWEN_BIT \<equiv> 0"

abbreviation (input) AON_TIMER_WDOG_CTRL_REG_OFFSET :: u32 where
  "AON_TIMER_WDOG_CTRL_REG_OFFSET \<equiv> 0x1c"

abbreviation (input) AON_TIMER_WDOG_CTRL_ENABLE_BIT :: u32 where
  "AON_TIMER_WDOG_CTRL_ENABLE_BIT \<equiv> 0"

abbreviation (input) AON_TIMER_WDOG_CTRL_PAUSE_IN_SLEEP_BIT :: u32 where
  "AON_TIMER_WDOG_CTRL_PAUSE_IN_SLEEP_BIT \<equiv> 1"

abbreviation (input) AON_TIMER_WDOG_BARK_THOLD_REG_OFFSET :: u32 where
  "AON_TIMER_WDOG_BARK_THOLD_REG_OFFSET \<equiv> 0x20"

abbreviation (input) AON_TIMER_WDOG_BITE_THOLD_REG_OFFSET :: u32 where
  "AON_TIMER_WDOG_BITE_THOLD_REG_OFFSET \<equiv> 0x24"

abbreviation (input) AON_TIMER_WDOG_COUNT_REG_OFFSET :: u32 where
  "AON_TIMER_WDOG_COUNT_REG_OFFSET \<equiv> 0x28"

abbreviation (input) AON_TIMER_INTR_STATE_REG_OFFSET :: u32 where
  "AON_TIMER_INTR_STATE_REG_OFFSET \<equiv> 0x2c"

abbreviation (input) AON_TIMER_INTR_STATE_WKUP_TIMER_EXPIRED_BIT :: u32 where
  "AON_TIMER_INTR_STATE_WKUP_TIMER_EXPIRED_BIT \<equiv> 0"

abbreviation (input) AON_TIMER_INTR_STATE_WDOG_TIMER_BARK_BIT :: u32 where
  "AON_TIMER_INTR_STATE_WDOG_TIMER_BARK_BIT \<equiv> 1"

abbreviation (input) AON_TIMER_INTR_TEST_REG_OFFSET :: u32 where
  "AON_TIMER_INTR_TEST_REG_OFFSET \<equiv> 0x30"

abbreviation (input) AON_TIMER_WKUP_CAUSE_REG_OFFSET :: u32 where
  "AON_TIMER_WKUP_CAUSE_REG_OFFSET \<equiv> 0x34"

abbreviation (input) AON_TIMER_WKUP_CAUSE_CAUSE_BIT :: u32 where
  "AON_TIMER_WKUP_CAUSE_CAUSE_BIT \<equiv> 0"

text \<open>\<^verbatim>\<open>sw/device/regs/gpio_regs.h\<close>\<close>

abbreviation (input) GPIO_INTR_STATE_REG_OFFSET :: u32 where
  "GPIO_INTR_STATE_REG_OFFSET \<equiv> 0x0"

abbreviation (input) GPIO_INTR_ENABLE_REG_OFFSET :: u32 where
  "GPIO_INTR_ENABLE_REG_OFFSET \<equiv> 0x4"

abbreviation (input) GPIO_INTR_TEST_REG_OFFSET :: u32 where
  "GPIO_INTR_TEST_REG_OFFSET \<equiv> 0x8"

abbreviation (input) GPIO_DATA_IN_REG_OFFSET :: u32 where
  "GPIO_DATA_IN_REG_OFFSET \<equiv> 0x10"

abbreviation (input) GPIO_DIRECT_OUT_REG_OFFSET :: u32 where
  "GPIO_DIRECT_OUT_REG_OFFSET \<equiv> 0x14"

abbreviation (input) GPIO_MASKED_OUT_LOWER_REG_OFFSET :: u32 where
  "GPIO_MASKED_OUT_LOWER_REG_OFFSET \<equiv> 0x18"

abbreviation (input) GPIO_MASKED_OUT_UPPER_REG_OFFSET :: u32 where
  "GPIO_MASKED_OUT_UPPER_REG_OFFSET \<equiv> 0x1c"

abbreviation (input) GPIO_DIRECT_OE_REG_OFFSET :: u32 where
  "GPIO_DIRECT_OE_REG_OFFSET \<equiv> 0x20"

abbreviation (input) GPIO_MASKED_OE_LOWER_REG_OFFSET :: u32 where
  "GPIO_MASKED_OE_LOWER_REG_OFFSET \<equiv> 0x24"

abbreviation (input) GPIO_MASKED_OE_UPPER_REG_OFFSET :: u32 where
  "GPIO_MASKED_OE_UPPER_REG_OFFSET \<equiv> 0x28"

abbreviation (input) GPIO_INTR_CTRL_EN_RISING_REG_OFFSET :: u32 where
  "GPIO_INTR_CTRL_EN_RISING_REG_OFFSET \<equiv> 0x2c"

abbreviation (input) GPIO_INTR_CTRL_EN_FALLING_REG_OFFSET :: u32 where
  "GPIO_INTR_CTRL_EN_FALLING_REG_OFFSET \<equiv> 0x30"

abbreviation (input) GPIO_INTR_CTRL_EN_LVLHIGH_REG_OFFSET :: u32 where
  "GPIO_INTR_CTRL_EN_LVLHIGH_REG_OFFSET \<equiv> 0x34"

abbreviation (input) GPIO_INTR_CTRL_EN_LVLLOW_REG_OFFSET :: u32 where
  "GPIO_INTR_CTRL_EN_LVLLOW_REG_OFFSET \<equiv> 0x38"

abbreviation (input) GPIO_CTRL_EN_INPUT_FILTER_REG_OFFSET :: u32 where
  "GPIO_CTRL_EN_INPUT_FILTER_REG_OFFSET \<equiv> 0x3c"

text \<open>\<^verbatim>\<open>sw/device/regs/i2c_regs.h\<close>\<close>

abbreviation (input) I2C_PARAM_FIFO_DEPTH :: u32 where
  "I2C_PARAM_FIFO_DEPTH \<equiv> 64"

abbreviation (input) I2C_PARAM_ACQ_FIFO_DEPTH :: u32 where
  "I2C_PARAM_ACQ_FIFO_DEPTH \<equiv> 268"

abbreviation (input) I2C_INTR_COMMON_FMT_THRESHOLD_BIT :: u32 where
  "I2C_INTR_COMMON_FMT_THRESHOLD_BIT \<equiv> 0"

abbreviation (input) I2C_INTR_COMMON_RX_THRESHOLD_BIT :: u32 where
  "I2C_INTR_COMMON_RX_THRESHOLD_BIT \<equiv> 1"

abbreviation (input) I2C_INTR_COMMON_ACQ_THRESHOLD_BIT :: u32 where
  "I2C_INTR_COMMON_ACQ_THRESHOLD_BIT \<equiv> 2"

abbreviation (input) I2C_INTR_COMMON_RX_OVERFLOW_BIT :: u32 where
  "I2C_INTR_COMMON_RX_OVERFLOW_BIT \<equiv> 3"

abbreviation (input) I2C_INTR_COMMON_CONTROLLER_HALT_BIT :: u32 where
  "I2C_INTR_COMMON_CONTROLLER_HALT_BIT \<equiv> 4"

abbreviation (input) I2C_INTR_COMMON_SCL_INTERFERENCE_BIT :: u32 where
  "I2C_INTR_COMMON_SCL_INTERFERENCE_BIT \<equiv> 5"

abbreviation (input) I2C_INTR_COMMON_SDA_INTERFERENCE_BIT :: u32 where
  "I2C_INTR_COMMON_SDA_INTERFERENCE_BIT \<equiv> 6"

abbreviation (input) I2C_INTR_COMMON_STRETCH_TIMEOUT_BIT :: u32 where
  "I2C_INTR_COMMON_STRETCH_TIMEOUT_BIT \<equiv> 7"

abbreviation (input) I2C_INTR_COMMON_SDA_UNSTABLE_BIT :: u32 where
  "I2C_INTR_COMMON_SDA_UNSTABLE_BIT \<equiv> 8"

abbreviation (input) I2C_INTR_COMMON_CMD_COMPLETE_BIT :: u32 where
  "I2C_INTR_COMMON_CMD_COMPLETE_BIT \<equiv> 9"

abbreviation (input) I2C_INTR_COMMON_TX_STRETCH_BIT :: u32 where
  "I2C_INTR_COMMON_TX_STRETCH_BIT \<equiv> 10"

abbreviation (input) I2C_INTR_COMMON_TX_THRESHOLD_BIT :: u32 where
  "I2C_INTR_COMMON_TX_THRESHOLD_BIT \<equiv> 11"

abbreviation (input) I2C_INTR_COMMON_ACQ_STRETCH_BIT :: u32 where
  "I2C_INTR_COMMON_ACQ_STRETCH_BIT \<equiv> 12"

abbreviation (input) I2C_INTR_COMMON_UNEXP_STOP_BIT :: u32 where
  "I2C_INTR_COMMON_UNEXP_STOP_BIT \<equiv> 13"

abbreviation (input) I2C_INTR_COMMON_HOST_TIMEOUT_BIT :: u32 where
  "I2C_INTR_COMMON_HOST_TIMEOUT_BIT \<equiv> 14"

abbreviation (input) I2C_INTR_STATE_REG_OFFSET :: u32 where
  "I2C_INTR_STATE_REG_OFFSET \<equiv> 0x0"

abbreviation (input) I2C_INTR_ENABLE_REG_OFFSET :: u32 where
  "I2C_INTR_ENABLE_REG_OFFSET \<equiv> 0x4"

abbreviation (input) I2C_INTR_TEST_REG_OFFSET :: u32 where
  "I2C_INTR_TEST_REG_OFFSET \<equiv> 0x8"

abbreviation (input) I2C_CTRL_REG_OFFSET :: u32 where
  "I2C_CTRL_REG_OFFSET \<equiv> 0x10"

abbreviation (input) I2C_CTRL_ENABLEHOST_BIT :: u32 where
  "I2C_CTRL_ENABLEHOST_BIT \<equiv> 0"

abbreviation (input) I2C_CTRL_ENABLETARGET_BIT :: u32 where
  "I2C_CTRL_ENABLETARGET_BIT \<equiv> 1"

abbreviation (input) I2C_CTRL_LLPBK_BIT :: u32 where
  "I2C_CTRL_LLPBK_BIT \<equiv> 2"

abbreviation (input) I2C_CTRL_NACK_ADDR_AFTER_TIMEOUT_BIT :: u32 where
  "I2C_CTRL_NACK_ADDR_AFTER_TIMEOUT_BIT \<equiv> 3"

abbreviation (input) I2C_CTRL_ACK_CTRL_EN_BIT :: u32 where
  "I2C_CTRL_ACK_CTRL_EN_BIT \<equiv> 4"

abbreviation (input) I2C_CTRL_MULTI_CONTROLLER_MONITOR_EN_BIT :: u32 where
  "I2C_CTRL_MULTI_CONTROLLER_MONITOR_EN_BIT \<equiv> 5"

abbreviation (input) I2C_CTRL_TX_STRETCH_CTRL_EN_BIT :: u32 where
  "I2C_CTRL_TX_STRETCH_CTRL_EN_BIT \<equiv> 6"

abbreviation (input) I2C_STATUS_REG_OFFSET :: u32 where
  "I2C_STATUS_REG_OFFSET \<equiv> 0x14"

abbreviation (input) I2C_STATUS_FMTFULL_BIT :: u32 where
  "I2C_STATUS_FMTFULL_BIT \<equiv> 0"

abbreviation (input) I2C_STATUS_RXFULL_BIT :: u32 where
  "I2C_STATUS_RXFULL_BIT \<equiv> 1"

abbreviation (input) I2C_STATUS_FMTEMPTY_BIT :: u32 where
  "I2C_STATUS_FMTEMPTY_BIT \<equiv> 2"

abbreviation (input) I2C_STATUS_HOSTIDLE_BIT :: u32 where
  "I2C_STATUS_HOSTIDLE_BIT \<equiv> 3"

abbreviation (input) I2C_STATUS_TARGETIDLE_BIT :: u32 where
  "I2C_STATUS_TARGETIDLE_BIT \<equiv> 4"

abbreviation (input) I2C_STATUS_RXEMPTY_BIT :: u32 where
  "I2C_STATUS_RXEMPTY_BIT \<equiv> 5"

abbreviation (input) I2C_STATUS_TXFULL_BIT :: u32 where
  "I2C_STATUS_TXFULL_BIT \<equiv> 6"

abbreviation (input) I2C_STATUS_ACQFULL_BIT :: u32 where
  "I2C_STATUS_ACQFULL_BIT \<equiv> 7"

abbreviation (input) I2C_STATUS_TXEMPTY_BIT :: u32 where
  "I2C_STATUS_TXEMPTY_BIT \<equiv> 8"

abbreviation (input) I2C_STATUS_ACQEMPTY_BIT :: u32 where
  "I2C_STATUS_ACQEMPTY_BIT \<equiv> 9"

abbreviation (input) I2C_STATUS_ACK_CTRL_STRETCH_BIT :: u32 where
  "I2C_STATUS_ACK_CTRL_STRETCH_BIT \<equiv> 10"

abbreviation (input) I2C_RDATA_REG_OFFSET :: u32 where
  "I2C_RDATA_REG_OFFSET \<equiv> 0x18"

abbreviation (input) I2C_RDATA_RDATA_FIELD :: bitfield_field32 where
  "I2C_RDATA_RDATA_FIELD \<equiv> \<lparr>field_mask = 0xff, field_index = 0\<rparr>"

abbreviation (input) I2C_FDATA_REG_OFFSET :: u32 where
  "I2C_FDATA_REG_OFFSET \<equiv> 0x1c"

abbreviation (input) I2C_FDATA_FBYTE_FIELD :: bitfield_field32 where
  "I2C_FDATA_FBYTE_FIELD \<equiv> \<lparr>field_mask = 0xff, field_index = 0\<rparr>"

abbreviation (input) I2C_FDATA_STOP_BIT :: u32 where
  "I2C_FDATA_STOP_BIT \<equiv> 9"

abbreviation (input) I2C_FDATA_READB_BIT :: u32 where
  "I2C_FDATA_READB_BIT \<equiv> 10"

abbreviation (input) I2C_FDATA_RCONT_BIT :: u32 where
  "I2C_FDATA_RCONT_BIT \<equiv> 11"

abbreviation (input) I2C_FDATA_NAKOK_BIT :: u32 where
  "I2C_FDATA_NAKOK_BIT \<equiv> 12"

abbreviation (input) I2C_FIFO_CTRL_REG_OFFSET :: u32 where
  "I2C_FIFO_CTRL_REG_OFFSET \<equiv> 0x20"

abbreviation (input) I2C_FIFO_CTRL_RXRST_BIT :: u32 where
  "I2C_FIFO_CTRL_RXRST_BIT \<equiv> 0"

abbreviation (input) I2C_FIFO_CTRL_FMTRST_BIT :: u32 where
  "I2C_FIFO_CTRL_FMTRST_BIT \<equiv> 1"

abbreviation (input) I2C_FIFO_CTRL_ACQRST_BIT :: u32 where
  "I2C_FIFO_CTRL_ACQRST_BIT \<equiv> 7"

abbreviation (input) I2C_FIFO_CTRL_TXRST_BIT :: u32 where
  "I2C_FIFO_CTRL_TXRST_BIT \<equiv> 8"

abbreviation (input) I2C_HOST_FIFO_CONFIG_REG_OFFSET :: u32 where
  "I2C_HOST_FIFO_CONFIG_REG_OFFSET \<equiv> 0x24"

abbreviation (input) I2C_HOST_FIFO_CONFIG_RX_THRESH_FIELD :: bitfield_field32 where
  "I2C_HOST_FIFO_CONFIG_RX_THRESH_FIELD \<equiv> \<lparr>field_mask = 0xfff, field_index = 0\<rparr>"

abbreviation (input) I2C_HOST_FIFO_CONFIG_FMT_THRESH_FIELD :: bitfield_field32 where
  "I2C_HOST_FIFO_CONFIG_FMT_THRESH_FIELD \<equiv> \<lparr>field_mask = 0xfff, field_index = 16\<rparr>"

abbreviation (input) I2C_TARGET_FIFO_CONFIG_REG_OFFSET :: u32 where
  "I2C_TARGET_FIFO_CONFIG_REG_OFFSET \<equiv> 0x28"

abbreviation (input) I2C_TARGET_FIFO_CONFIG_TX_THRESH_FIELD :: bitfield_field32 where
  "I2C_TARGET_FIFO_CONFIG_TX_THRESH_FIELD \<equiv> \<lparr>field_mask = 0xfff, field_index = 0\<rparr>"

abbreviation (input) I2C_TARGET_FIFO_CONFIG_ACQ_THRESH_FIELD :: bitfield_field32 where
  "I2C_TARGET_FIFO_CONFIG_ACQ_THRESH_FIELD \<equiv> \<lparr>field_mask = 0xfff, field_index = 16\<rparr>"

abbreviation (input) I2C_HOST_FIFO_STATUS_REG_OFFSET :: u32 where
  "I2C_HOST_FIFO_STATUS_REG_OFFSET \<equiv> 0x2c"

abbreviation (input) I2C_HOST_FIFO_STATUS_FMTLVL_FIELD :: bitfield_field32 where
  "I2C_HOST_FIFO_STATUS_FMTLVL_FIELD \<equiv> \<lparr>field_mask = 0xfff, field_index = 0\<rparr>"

abbreviation (input) I2C_HOST_FIFO_STATUS_RXLVL_FIELD :: bitfield_field32 where
  "I2C_HOST_FIFO_STATUS_RXLVL_FIELD \<equiv> \<lparr>field_mask = 0xfff, field_index = 16\<rparr>"

abbreviation (input) I2C_TARGET_FIFO_STATUS_REG_OFFSET :: u32 where
  "I2C_TARGET_FIFO_STATUS_REG_OFFSET \<equiv> 0x30"

abbreviation (input) I2C_TARGET_FIFO_STATUS_TXLVL_FIELD :: bitfield_field32 where
  "I2C_TARGET_FIFO_STATUS_TXLVL_FIELD \<equiv> \<lparr>field_mask = 0xfff, field_index = 0\<rparr>"

abbreviation (input) I2C_TARGET_FIFO_STATUS_ACQLVL_FIELD :: bitfield_field32 where
  "I2C_TARGET_FIFO_STATUS_ACQLVL_FIELD \<equiv> \<lparr>field_mask = 0xfff, field_index = 16\<rparr>"

abbreviation (input) I2C_OVRD_REG_OFFSET :: u32 where
  "I2C_OVRD_REG_OFFSET \<equiv> 0x34"

abbreviation (input) I2C_OVRD_TXOVRDEN_BIT :: u32 where
  "I2C_OVRD_TXOVRDEN_BIT \<equiv> 0"

abbreviation (input) I2C_OVRD_SCLVAL_BIT :: u32 where
  "I2C_OVRD_SCLVAL_BIT \<equiv> 1"

abbreviation (input) I2C_OVRD_SDAVAL_BIT :: u32 where
  "I2C_OVRD_SDAVAL_BIT \<equiv> 2"

abbreviation (input) I2C_VAL_REG_OFFSET :: u32 where
  "I2C_VAL_REG_OFFSET \<equiv> 0x38"

abbreviation (input) I2C_VAL_SCL_RX_FIELD :: bitfield_field32 where
  "I2C_VAL_SCL_RX_FIELD \<equiv> \<lparr>field_mask = 0xffff, field_index = 0\<rparr>"

abbreviation (input) I2C_VAL_SDA_RX_FIELD :: bitfield_field32 where
  "I2C_VAL_SDA_RX_FIELD \<equiv> \<lparr>field_mask = 0xffff, field_index = 16\<rparr>"

abbreviation (input) I2C_TIMING0_REG_OFFSET :: u32 where
  "I2C_TIMING0_REG_OFFSET \<equiv> 0x3c"

abbreviation (input) I2C_TIMING0_THIGH_FIELD :: bitfield_field32 where
  "I2C_TIMING0_THIGH_FIELD \<equiv> \<lparr>field_mask = 0x1fff, field_index = 0\<rparr>"

abbreviation (input) I2C_TIMING0_TLOW_FIELD :: bitfield_field32 where
  "I2C_TIMING0_TLOW_FIELD \<equiv> \<lparr>field_mask = 0x1fff, field_index = 16\<rparr>"

abbreviation (input) I2C_TIMING1_REG_OFFSET :: u32 where
  "I2C_TIMING1_REG_OFFSET \<equiv> 0x40"

abbreviation (input) I2C_TIMING1_T_R_FIELD :: bitfield_field32 where
  "I2C_TIMING1_T_R_FIELD \<equiv> \<lparr>field_mask = 0x3ff, field_index = 0\<rparr>"

abbreviation (input) I2C_TIMING1_T_F_FIELD :: bitfield_field32 where
  "I2C_TIMING1_T_F_FIELD \<equiv> \<lparr>field_mask = 0x1ff, field_index = 16\<rparr>"

abbreviation (input) I2C_TIMING2_REG_OFFSET :: u32 where
  "I2C_TIMING2_REG_OFFSET \<equiv> 0x44"

abbreviation (input) I2C_TIMING2_TSU_STA_FIELD :: bitfield_field32 where
  "I2C_TIMING2_TSU_STA_FIELD \<equiv> \<lparr>field_mask = 0x1fff, field_index = 0\<rparr>"

abbreviation (input) I2C_TIMING2_THD_STA_FIELD :: bitfield_field32 where
  "I2C_TIMING2_THD_STA_FIELD \<equiv> \<lparr>field_mask = 0x1fff, field_index = 16\<rparr>"

abbreviation (input) I2C_TIMING3_REG_OFFSET :: u32 where
  "I2C_TIMING3_REG_OFFSET \<equiv> 0x48"

abbreviation (input) I2C_TIMING3_TSU_DAT_FIELD :: bitfield_field32 where
  "I2C_TIMING3_TSU_DAT_FIELD \<equiv> \<lparr>field_mask = 0x1ff, field_index = 0\<rparr>"

abbreviation (input) I2C_TIMING3_THD_DAT_FIELD :: bitfield_field32 where
  "I2C_TIMING3_THD_DAT_FIELD \<equiv> \<lparr>field_mask = 0x1fff, field_index = 16\<rparr>"

abbreviation (input) I2C_TIMING4_REG_OFFSET :: u32 where
  "I2C_TIMING4_REG_OFFSET \<equiv> 0x4c"

abbreviation (input) I2C_TIMING4_TSU_STO_FIELD :: bitfield_field32 where
  "I2C_TIMING4_TSU_STO_FIELD \<equiv> \<lparr>field_mask = 0x1fff, field_index = 0\<rparr>"

abbreviation (input) I2C_TIMING4_T_BUF_FIELD :: bitfield_field32 where
  "I2C_TIMING4_T_BUF_FIELD \<equiv> \<lparr>field_mask = 0x1fff, field_index = 16\<rparr>"

abbreviation (input) I2C_TIMEOUT_CTRL_REG_OFFSET :: u32 where
  "I2C_TIMEOUT_CTRL_REG_OFFSET \<equiv> 0x50"

abbreviation (input) I2C_TIMEOUT_CTRL_VAL_FIELD :: bitfield_field32 where
  "I2C_TIMEOUT_CTRL_VAL_FIELD \<equiv> \<lparr>field_mask = 0x3fffffff, field_index = 0\<rparr>"

abbreviation (input) I2C_TIMEOUT_CTRL_MODE_BIT :: u32 where
  "I2C_TIMEOUT_CTRL_MODE_BIT \<equiv> 30"

abbreviation (input) I2C_TIMEOUT_CTRL_MODE_VALUE_STRETCH_TIMEOUT :: u32 where
  "I2C_TIMEOUT_CTRL_MODE_VALUE_STRETCH_TIMEOUT \<equiv> 0x0"

abbreviation (input) I2C_TIMEOUT_CTRL_MODE_VALUE_BUS_TIMEOUT :: u32 where
  "I2C_TIMEOUT_CTRL_MODE_VALUE_BUS_TIMEOUT \<equiv> 0x1"

abbreviation (input) I2C_TIMEOUT_CTRL_EN_BIT :: u32 where
  "I2C_TIMEOUT_CTRL_EN_BIT \<equiv> 31"

abbreviation (input) I2C_TARGET_ID_REG_OFFSET :: u32 where
  "I2C_TARGET_ID_REG_OFFSET \<equiv> 0x54"

abbreviation (input) I2C_TARGET_ID_ADDRESS0_FIELD :: bitfield_field32 where
  "I2C_TARGET_ID_ADDRESS0_FIELD \<equiv> \<lparr>field_mask = 0x7f, field_index = 0\<rparr>"

abbreviation (input) I2C_TARGET_ID_MASK0_FIELD :: bitfield_field32 where
  "I2C_TARGET_ID_MASK0_FIELD \<equiv> \<lparr>field_mask = 0x7f, field_index = 7\<rparr>"

abbreviation (input) I2C_TARGET_ID_ADDRESS1_FIELD :: bitfield_field32 where
  "I2C_TARGET_ID_ADDRESS1_FIELD \<equiv> \<lparr>field_mask = 0x7f, field_index = 14\<rparr>"

abbreviation (input) I2C_TARGET_ID_MASK1_FIELD :: bitfield_field32 where
  "I2C_TARGET_ID_MASK1_FIELD \<equiv> \<lparr>field_mask = 0x7f, field_index = 21\<rparr>"

abbreviation (input) I2C_ACQDATA_REG_OFFSET :: u32 where
  "I2C_ACQDATA_REG_OFFSET \<equiv> 0x58"

abbreviation (input) I2C_ACQDATA_ABYTE_FIELD :: bitfield_field32 where
  "I2C_ACQDATA_ABYTE_FIELD \<equiv> \<lparr>field_mask = 0xff, field_index = 0\<rparr>"

abbreviation (input) I2C_ACQDATA_SIGNAL_FIELD :: bitfield_field32 where
  "I2C_ACQDATA_SIGNAL_FIELD \<equiv> \<lparr>field_mask = 0x7, field_index = 8\<rparr>"

abbreviation (input) I2C_TXDATA_REG_OFFSET :: u32 where
  "I2C_TXDATA_REG_OFFSET \<equiv> 0x5c"

abbreviation (input) I2C_TXDATA_TXDATA_FIELD :: bitfield_field32 where
  "I2C_TXDATA_TXDATA_FIELD \<equiv> \<lparr>field_mask = 0xff, field_index = 0\<rparr>"

abbreviation (input) I2C_HOST_TIMEOUT_CTRL_REG_OFFSET :: u32 where
  "I2C_HOST_TIMEOUT_CTRL_REG_OFFSET \<equiv> 0x60"

abbreviation (input) I2C_TARGET_ACK_CTRL_REG_OFFSET :: u32 where
  "I2C_TARGET_ACK_CTRL_REG_OFFSET \<equiv> 0x6c"

abbreviation (input) I2C_TARGET_ACK_CTRL_NBYTES_MASK :: u32 where
  "I2C_TARGET_ACK_CTRL_NBYTES_MASK \<equiv> 0x1ff"

abbreviation (input) I2C_TARGET_ACK_CTRL_NBYTES_FIELD :: bitfield_field32 where
  "I2C_TARGET_ACK_CTRL_NBYTES_FIELD \<equiv> \<lparr>field_mask = 0x1ff, field_index = 0\<rparr>"

abbreviation (input) I2C_TARGET_ACK_CTRL_NACK_BIT :: u32 where
  "I2C_TARGET_ACK_CTRL_NACK_BIT \<equiv> 31"

abbreviation (input) I2C_ACQ_FIFO_NEXT_DATA_REG_OFFSET :: u32 where
  "I2C_ACQ_FIFO_NEXT_DATA_REG_OFFSET \<equiv> 0x70"

abbreviation (input) I2C_CONTROLLER_EVENTS_REG_OFFSET :: u32 where
  "I2C_CONTROLLER_EVENTS_REG_OFFSET \<equiv> 0x78"

abbreviation (input) I2C_CONTROLLER_EVENTS_NACK_BIT :: u32 where
  "I2C_CONTROLLER_EVENTS_NACK_BIT \<equiv> 0"

abbreviation (input) I2C_CONTROLLER_EVENTS_UNHANDLED_NACK_TIMEOUT_BIT :: u32 where
  "I2C_CONTROLLER_EVENTS_UNHANDLED_NACK_TIMEOUT_BIT \<equiv> 1"

abbreviation (input) I2C_CONTROLLER_EVENTS_BUS_TIMEOUT_BIT :: u32 where
  "I2C_CONTROLLER_EVENTS_BUS_TIMEOUT_BIT \<equiv> 2"

abbreviation (input) I2C_CONTROLLER_EVENTS_ARBITRATION_LOST_BIT :: u32 where
  "I2C_CONTROLLER_EVENTS_ARBITRATION_LOST_BIT \<equiv> 3"

abbreviation (input) I2C_TARGET_EVENTS_REG_OFFSET :: u32 where
  "I2C_TARGET_EVENTS_REG_OFFSET \<equiv> 0x7c"

abbreviation (input) I2C_TARGET_EVENTS_TX_PENDING_BIT :: u32 where
  "I2C_TARGET_EVENTS_TX_PENDING_BIT \<equiv> 0"

abbreviation (input) I2C_TARGET_EVENTS_BUS_TIMEOUT_BIT :: u32 where
  "I2C_TARGET_EVENTS_BUS_TIMEOUT_BIT \<equiv> 1"

abbreviation (input) I2C_TARGET_EVENTS_ARBITRATION_LOST_BIT :: u32 where
  "I2C_TARGET_EVENTS_ARBITRATION_LOST_BIT \<equiv> 2"

text \<open>\<^verbatim>\<open>sw/device/regs/pattgen_regs.h\<close>\<close>

abbreviation (input) PATTGEN_INTR_COMMON_DONE_CH0_BIT :: u32 where
  "PATTGEN_INTR_COMMON_DONE_CH0_BIT \<equiv> 0"

abbreviation (input) PATTGEN_INTR_COMMON_DONE_CH1_BIT :: u32 where
  "PATTGEN_INTR_COMMON_DONE_CH1_BIT \<equiv> 1"

abbreviation (input) PATTGEN_INTR_STATE_REG_OFFSET :: u32 where
  "PATTGEN_INTR_STATE_REG_OFFSET \<equiv> 0x0"

abbreviation (input) PATTGEN_INTR_ENABLE_REG_OFFSET :: u32 where
  "PATTGEN_INTR_ENABLE_REG_OFFSET \<equiv> 0x4"

abbreviation (input) PATTGEN_INTR_TEST_REG_OFFSET :: u32 where
  "PATTGEN_INTR_TEST_REG_OFFSET \<equiv> 0x8"

abbreviation (input) PATTGEN_CTRL_REG_OFFSET :: u32 where
  "PATTGEN_CTRL_REG_OFFSET \<equiv> 0x10"

abbreviation (input) PATTGEN_CTRL_ENABLE_CH0_BIT :: u32 where
  "PATTGEN_CTRL_ENABLE_CH0_BIT \<equiv> 0"

abbreviation (input) PATTGEN_CTRL_ENABLE_CH1_BIT :: u32 where
  "PATTGEN_CTRL_ENABLE_CH1_BIT \<equiv> 1"

abbreviation (input) PATTGEN_CTRL_POLARITY_CH0_BIT :: u32 where
  "PATTGEN_CTRL_POLARITY_CH0_BIT \<equiv> 2"

abbreviation (input) PATTGEN_CTRL_POLARITY_CH1_BIT :: u32 where
  "PATTGEN_CTRL_POLARITY_CH1_BIT \<equiv> 3"

abbreviation (input) PATTGEN_CTRL_INACTIVE_LEVEL_PCL_CH0_BIT :: u32 where
  "PATTGEN_CTRL_INACTIVE_LEVEL_PCL_CH0_BIT \<equiv> 4"

abbreviation (input) PATTGEN_CTRL_INACTIVE_LEVEL_PDA_CH0_BIT :: u32 where
  "PATTGEN_CTRL_INACTIVE_LEVEL_PDA_CH0_BIT \<equiv> 5"

abbreviation (input) PATTGEN_CTRL_INACTIVE_LEVEL_PCL_CH1_BIT :: u32 where
  "PATTGEN_CTRL_INACTIVE_LEVEL_PCL_CH1_BIT \<equiv> 6"

abbreviation (input) PATTGEN_CTRL_INACTIVE_LEVEL_PDA_CH1_BIT :: u32 where
  "PATTGEN_CTRL_INACTIVE_LEVEL_PDA_CH1_BIT \<equiv> 7"

abbreviation (input) PATTGEN_PREDIV_CH0_REG_OFFSET :: u32 where
  "PATTGEN_PREDIV_CH0_REG_OFFSET \<equiv> 0x14"

abbreviation (input) PATTGEN_PREDIV_CH1_REG_OFFSET :: u32 where
  "PATTGEN_PREDIV_CH1_REG_OFFSET \<equiv> 0x18"

abbreviation (input) PATTGEN_DATA_CH0_0_REG_OFFSET :: u32 where
  "PATTGEN_DATA_CH0_0_REG_OFFSET \<equiv> 0x1c"

abbreviation (input) PATTGEN_DATA_CH0_1_REG_OFFSET :: u32 where
  "PATTGEN_DATA_CH0_1_REG_OFFSET \<equiv> 0x20"

abbreviation (input) PATTGEN_DATA_CH1_0_REG_OFFSET :: u32 where
  "PATTGEN_DATA_CH1_0_REG_OFFSET \<equiv> 0x24"

abbreviation (input) PATTGEN_DATA_CH1_1_REG_OFFSET :: u32 where
  "PATTGEN_DATA_CH1_1_REG_OFFSET \<equiv> 0x28"

abbreviation (input) PATTGEN_SIZE_REG_OFFSET :: u32 where
  "PATTGEN_SIZE_REG_OFFSET \<equiv> 0x2c"

abbreviation (input) PATTGEN_SIZE_LEN_CH0_FIELD :: bitfield_field32 where
  "PATTGEN_SIZE_LEN_CH0_FIELD \<equiv> \<lparr>field_mask = 0x3f, field_index = 0\<rparr>"

abbreviation (input) PATTGEN_SIZE_REPS_CH0_FIELD :: bitfield_field32 where
  "PATTGEN_SIZE_REPS_CH0_FIELD \<equiv> \<lparr>field_mask = 0x3ff, field_index = 6\<rparr>"

abbreviation (input) PATTGEN_SIZE_LEN_CH1_FIELD :: bitfield_field32 where
  "PATTGEN_SIZE_LEN_CH1_FIELD \<equiv> \<lparr>field_mask = 0x3f, field_index = 16\<rparr>"

abbreviation (input) PATTGEN_SIZE_REPS_CH1_FIELD :: bitfield_field32 where
  "PATTGEN_SIZE_REPS_CH1_FIELD \<equiv> \<lparr>field_mask = 0x3ff, field_index = 22\<rparr>"

text \<open>\<^verbatim>\<open>sw/device/regs/pwm_regs.h\<close>\<close>

abbreviation (input) PWM_PARAM_N_OUTPUTS :: u32 where
  "PWM_PARAM_N_OUTPUTS \<equiv> 6"

abbreviation (input) PWM_REGWEN_REG_OFFSET :: u32 where
  "PWM_REGWEN_REG_OFFSET \<equiv> 0x4"

abbreviation (input) PWM_CFG_REG_OFFSET :: u32 where
  "PWM_CFG_REG_OFFSET \<equiv> 0x8"

abbreviation (input) PWM_CFG_CLK_DIV_MASK :: u32 where
  "PWM_CFG_CLK_DIV_MASK \<equiv> 0x7ffffff"

abbreviation (input) PWM_CFG_CLK_DIV_FIELD :: bitfield_field32 where
  "PWM_CFG_CLK_DIV_FIELD \<equiv> \<lparr>field_mask = 0x7ffffff, field_index = 0\<rparr>"

abbreviation (input) PWM_CFG_DC_RESN_FIELD :: bitfield_field32 where
  "PWM_CFG_DC_RESN_FIELD \<equiv> \<lparr>field_mask = 0xf, field_index = 27\<rparr>"

abbreviation (input) PWM_CFG_CNTR_EN_BIT :: u32 where
  "PWM_CFG_CNTR_EN_BIT \<equiv> 31"

abbreviation (input) PWM_PWM_EN_REG_OFFSET :: u32 where
  "PWM_PWM_EN_REG_OFFSET \<equiv> 0xc"

abbreviation (input) PWM_INVERT_REG_OFFSET :: u32 where
  "PWM_INVERT_REG_OFFSET \<equiv> 0x10"

abbreviation (input) PWM_INVERT_INVERT_0_BIT :: u32 where
  "PWM_INVERT_INVERT_0_BIT \<equiv> 0"

abbreviation (input) PWM_INVERT_INVERT_1_BIT :: u32 where
  "PWM_INVERT_INVERT_1_BIT \<equiv> 1"

abbreviation (input) PWM_INVERT_INVERT_2_BIT :: u32 where
  "PWM_INVERT_INVERT_2_BIT \<equiv> 2"

abbreviation (input) PWM_INVERT_INVERT_3_BIT :: u32 where
  "PWM_INVERT_INVERT_3_BIT \<equiv> 3"

abbreviation (input) PWM_INVERT_INVERT_4_BIT :: u32 where
  "PWM_INVERT_INVERT_4_BIT \<equiv> 4"

abbreviation (input) PWM_INVERT_INVERT_5_BIT :: u32 where
  "PWM_INVERT_INVERT_5_BIT \<equiv> 5"

abbreviation (input) PWM_PWM_PARAM_0_REG_OFFSET :: u32 where
  "PWM_PWM_PARAM_0_REG_OFFSET \<equiv> 0x14"

abbreviation (input) PWM_PWM_PARAM_0_PHASE_DELAY_0_FIELD :: bitfield_field32 where
  "PWM_PWM_PARAM_0_PHASE_DELAY_0_FIELD \<equiv> \<lparr>field_mask = 0xffff, field_index = 0\<rparr>"

abbreviation (input) PWM_PWM_PARAM_0_HTBT_EN_0_BIT :: u32 where
  "PWM_PWM_PARAM_0_HTBT_EN_0_BIT \<equiv> 30"

abbreviation (input) PWM_PWM_PARAM_0_BLINK_EN_0_BIT :: u32 where
  "PWM_PWM_PARAM_0_BLINK_EN_0_BIT \<equiv> 31"

abbreviation (input) PWM_PWM_PARAM_1_REG_OFFSET :: u32 where
  "PWM_PWM_PARAM_1_REG_OFFSET \<equiv> 0x18"

abbreviation (input) PWM_PWM_PARAM_2_REG_OFFSET :: u32 where
  "PWM_PWM_PARAM_2_REG_OFFSET \<equiv> 0x1c"

abbreviation (input) PWM_PWM_PARAM_3_REG_OFFSET :: u32 where
  "PWM_PWM_PARAM_3_REG_OFFSET \<equiv> 0x20"

abbreviation (input) PWM_PWM_PARAM_4_REG_OFFSET :: u32 where
  "PWM_PWM_PARAM_4_REG_OFFSET \<equiv> 0x24"

abbreviation (input) PWM_PWM_PARAM_5_REG_OFFSET :: u32 where
  "PWM_PWM_PARAM_5_REG_OFFSET \<equiv> 0x28"

abbreviation (input) PWM_DUTY_CYCLE_0_REG_OFFSET :: u32 where
  "PWM_DUTY_CYCLE_0_REG_OFFSET \<equiv> 0x2c"

abbreviation (input) PWM_DUTY_CYCLE_0_A_0_FIELD :: bitfield_field32 where
  "PWM_DUTY_CYCLE_0_A_0_FIELD \<equiv> \<lparr>field_mask = 0xffff, field_index = 0\<rparr>"

abbreviation (input) PWM_DUTY_CYCLE_0_B_0_FIELD :: bitfield_field32 where
  "PWM_DUTY_CYCLE_0_B_0_FIELD \<equiv> \<lparr>field_mask = 0xffff, field_index = 16\<rparr>"

abbreviation (input) PWM_DUTY_CYCLE_1_REG_OFFSET :: u32 where
  "PWM_DUTY_CYCLE_1_REG_OFFSET \<equiv> 0x30"

abbreviation (input) PWM_DUTY_CYCLE_2_REG_OFFSET :: u32 where
  "PWM_DUTY_CYCLE_2_REG_OFFSET \<equiv> 0x34"

abbreviation (input) PWM_DUTY_CYCLE_3_REG_OFFSET :: u32 where
  "PWM_DUTY_CYCLE_3_REG_OFFSET \<equiv> 0x38"

abbreviation (input) PWM_DUTY_CYCLE_4_REG_OFFSET :: u32 where
  "PWM_DUTY_CYCLE_4_REG_OFFSET \<equiv> 0x3c"

abbreviation (input) PWM_DUTY_CYCLE_5_REG_OFFSET :: u32 where
  "PWM_DUTY_CYCLE_5_REG_OFFSET \<equiv> 0x40"

abbreviation (input) PWM_BLINK_PARAM_0_REG_OFFSET :: u32 where
  "PWM_BLINK_PARAM_0_REG_OFFSET \<equiv> 0x44"

abbreviation (input) PWM_BLINK_PARAM_0_X_0_FIELD :: bitfield_field32 where
  "PWM_BLINK_PARAM_0_X_0_FIELD \<equiv> \<lparr>field_mask = 0xffff, field_index = 0\<rparr>"

abbreviation (input) PWM_BLINK_PARAM_0_Y_0_FIELD :: bitfield_field32 where
  "PWM_BLINK_PARAM_0_Y_0_FIELD \<equiv> \<lparr>field_mask = 0xffff, field_index = 16\<rparr>"

abbreviation (input) PWM_BLINK_PARAM_1_REG_OFFSET :: u32 where
  "PWM_BLINK_PARAM_1_REG_OFFSET \<equiv> 0x48"

abbreviation (input) PWM_BLINK_PARAM_2_REG_OFFSET :: u32 where
  "PWM_BLINK_PARAM_2_REG_OFFSET \<equiv> 0x4c"

abbreviation (input) PWM_BLINK_PARAM_3_REG_OFFSET :: u32 where
  "PWM_BLINK_PARAM_3_REG_OFFSET \<equiv> 0x50"

abbreviation (input) PWM_BLINK_PARAM_4_REG_OFFSET :: u32 where
  "PWM_BLINK_PARAM_4_REG_OFFSET \<equiv> 0x54"

abbreviation (input) PWM_BLINK_PARAM_5_REG_OFFSET :: u32 where
  "PWM_BLINK_PARAM_5_REG_OFFSET \<equiv> 0x58"

text \<open>\<^verbatim>\<open>sw/device/regs/rv_core_ibex_regs.h\<close>\<close>

abbreviation (input) RV_CORE_IBEX_SW_RECOV_ERR_REG_OFFSET :: u32 where
  "RV_CORE_IBEX_SW_RECOV_ERR_REG_OFFSET \<equiv> 0x4"

abbreviation (input) RV_CORE_IBEX_SW_RECOV_ERR_VAL_FIELD :: bitfield_field32 where
  "RV_CORE_IBEX_SW_RECOV_ERR_VAL_FIELD \<equiv> \<lparr>field_mask = 0xf, field_index = 0\<rparr>"

abbreviation (input) RV_CORE_IBEX_SW_FATAL_ERR_REG_OFFSET :: u32 where
  "RV_CORE_IBEX_SW_FATAL_ERR_REG_OFFSET \<equiv> 0x8"

abbreviation (input) RV_CORE_IBEX_SW_FATAL_ERR_VAL_FIELD :: bitfield_field32 where
  "RV_CORE_IBEX_SW_FATAL_ERR_VAL_FIELD \<equiv> \<lparr>field_mask = 0xf, field_index = 0\<rparr>"

abbreviation (input) RV_CORE_IBEX_IBUS_REGWEN_0_REG_OFFSET :: u32 where
  "RV_CORE_IBEX_IBUS_REGWEN_0_REG_OFFSET \<equiv> 0xc"

abbreviation (input) RV_CORE_IBEX_IBUS_REGWEN_1_REG_OFFSET :: u32 where
  "RV_CORE_IBEX_IBUS_REGWEN_1_REG_OFFSET \<equiv> 0x10"

abbreviation (input) RV_CORE_IBEX_IBUS_ADDR_EN_0_REG_OFFSET :: u32 where
  "RV_CORE_IBEX_IBUS_ADDR_EN_0_REG_OFFSET \<equiv> 0x14"

abbreviation (input) RV_CORE_IBEX_IBUS_ADDR_EN_1_REG_OFFSET :: u32 where
  "RV_CORE_IBEX_IBUS_ADDR_EN_1_REG_OFFSET \<equiv> 0x18"

abbreviation (input) RV_CORE_IBEX_IBUS_ADDR_MATCHING_0_REG_OFFSET :: u32 where
  "RV_CORE_IBEX_IBUS_ADDR_MATCHING_0_REG_OFFSET \<equiv> 0x1c"

abbreviation (input) RV_CORE_IBEX_IBUS_ADDR_MATCHING_1_REG_OFFSET :: u32 where
  "RV_CORE_IBEX_IBUS_ADDR_MATCHING_1_REG_OFFSET \<equiv> 0x20"

abbreviation (input) RV_CORE_IBEX_IBUS_REMAP_ADDR_0_REG_OFFSET :: u32 where
  "RV_CORE_IBEX_IBUS_REMAP_ADDR_0_REG_OFFSET \<equiv> 0x24"

abbreviation (input) RV_CORE_IBEX_IBUS_REMAP_ADDR_1_REG_OFFSET :: u32 where
  "RV_CORE_IBEX_IBUS_REMAP_ADDR_1_REG_OFFSET \<equiv> 0x28"

abbreviation (input) RV_CORE_IBEX_DBUS_REGWEN_0_REG_OFFSET :: u32 where
  "RV_CORE_IBEX_DBUS_REGWEN_0_REG_OFFSET \<equiv> 0x2c"

abbreviation (input) RV_CORE_IBEX_DBUS_REGWEN_1_REG_OFFSET :: u32 where
  "RV_CORE_IBEX_DBUS_REGWEN_1_REG_OFFSET \<equiv> 0x30"

abbreviation (input) RV_CORE_IBEX_DBUS_ADDR_EN_0_REG_OFFSET :: u32 where
  "RV_CORE_IBEX_DBUS_ADDR_EN_0_REG_OFFSET \<equiv> 0x34"

abbreviation (input) RV_CORE_IBEX_DBUS_ADDR_EN_1_REG_OFFSET :: u32 where
  "RV_CORE_IBEX_DBUS_ADDR_EN_1_REG_OFFSET \<equiv> 0x38"

abbreviation (input) RV_CORE_IBEX_DBUS_ADDR_MATCHING_0_REG_OFFSET :: u32 where
  "RV_CORE_IBEX_DBUS_ADDR_MATCHING_0_REG_OFFSET \<equiv> 0x3c"

abbreviation (input) RV_CORE_IBEX_DBUS_ADDR_MATCHING_1_REG_OFFSET :: u32 where
  "RV_CORE_IBEX_DBUS_ADDR_MATCHING_1_REG_OFFSET \<equiv> 0x40"

abbreviation (input) RV_CORE_IBEX_DBUS_REMAP_ADDR_0_REG_OFFSET :: u32 where
  "RV_CORE_IBEX_DBUS_REMAP_ADDR_0_REG_OFFSET \<equiv> 0x44"

abbreviation (input) RV_CORE_IBEX_DBUS_REMAP_ADDR_1_REG_OFFSET :: u32 where
  "RV_CORE_IBEX_DBUS_REMAP_ADDR_1_REG_OFFSET \<equiv> 0x48"

abbreviation (input) RV_CORE_IBEX_NMI_ENABLE_REG_OFFSET :: u32 where
  "RV_CORE_IBEX_NMI_ENABLE_REG_OFFSET \<equiv> 0x4c"

abbreviation (input) RV_CORE_IBEX_NMI_ENABLE_ALERT_EN_BIT :: u32 where
  "RV_CORE_IBEX_NMI_ENABLE_ALERT_EN_BIT \<equiv> 0"

abbreviation (input) RV_CORE_IBEX_NMI_ENABLE_WDOG_EN_BIT :: u32 where
  "RV_CORE_IBEX_NMI_ENABLE_WDOG_EN_BIT \<equiv> 1"

abbreviation (input) RV_CORE_IBEX_NMI_STATE_REG_OFFSET :: u32 where
  "RV_CORE_IBEX_NMI_STATE_REG_OFFSET \<equiv> 0x50"

abbreviation (input) RV_CORE_IBEX_NMI_STATE_ALERT_BIT :: u32 where
  "RV_CORE_IBEX_NMI_STATE_ALERT_BIT \<equiv> 0"

abbreviation (input) RV_CORE_IBEX_NMI_STATE_WDOG_BIT :: u32 where
  "RV_CORE_IBEX_NMI_STATE_WDOG_BIT \<equiv> 1"

abbreviation (input) RV_CORE_IBEX_ERR_STATUS_REG_OFFSET :: u32 where
  "RV_CORE_IBEX_ERR_STATUS_REG_OFFSET \<equiv> 0x54"

abbreviation (input) RV_CORE_IBEX_FPGA_INFO_REG_OFFSET :: u32 where
  "RV_CORE_IBEX_FPGA_INFO_REG_OFFSET \<equiv> 0x60"

text \<open>\<^verbatim>\<open>sw/device/regs/rv_plic_regs.h\<close>\<close>

abbreviation (input) RV_PLIC_PARAM_NUM_SRC :: u32 where
  "RV_PLIC_PARAM_NUM_SRC \<equiv> 32"

abbreviation (input) RV_PLIC_PARAM_NUM_TARGET :: u32 where
  "RV_PLIC_PARAM_NUM_TARGET \<equiv> 1"

abbreviation (input) RV_PLIC_PARAM_REG_WIDTH :: u32 where
  "RV_PLIC_PARAM_REG_WIDTH \<equiv> 32"

abbreviation (input) RV_PLIC_PRIO0_REG_OFFSET :: u32 where
  "RV_PLIC_PRIO0_REG_OFFSET \<equiv> 0x0"

abbreviation (input) RV_PLIC_PRIO0_PRIO0_MASK :: u32 where
  "RV_PLIC_PRIO0_PRIO0_MASK \<equiv> 0x3"

abbreviation (input) RV_PLIC_IP_REG_OFFSET :: u32 where
  "RV_PLIC_IP_REG_OFFSET \<equiv> 0x1000"

abbreviation (input) RV_PLIC_IE0_MULTIREG_COUNT :: u32 where
  "RV_PLIC_IE0_MULTIREG_COUNT \<equiv> 1"

abbreviation (input) RV_PLIC_IE0_REG_OFFSET :: u32 where
  "RV_PLIC_IE0_REG_OFFSET \<equiv> 0x2000"

abbreviation (input) RV_PLIC_THRESHOLD0_REG_OFFSET :: u32 where
  "RV_PLIC_THRESHOLD0_REG_OFFSET \<equiv> 0x200000"

abbreviation (input) RV_PLIC_CC0_REG_OFFSET :: u32 where
  "RV_PLIC_CC0_REG_OFFSET \<equiv> 0x200004"

abbreviation (input) RV_PLIC_MSIP0_REG_OFFSET :: u32 where
  "RV_PLIC_MSIP0_REG_OFFSET \<equiv> 0x4000000"

text \<open>\<^verbatim>\<open>sw/device/regs/rv_timer_regs.h\<close>\<close>

abbreviation (input) RV_TIMER_PARAM_N_HARTS :: u32 where
  "RV_TIMER_PARAM_N_HARTS \<equiv> 1"

abbreviation (input) RV_TIMER_PARAM_N_TIMERS :: u32 where
  "RV_TIMER_PARAM_N_TIMERS \<equiv> 1"

abbreviation (input) RV_TIMER_CTRL_REG_OFFSET :: u32 where
  "RV_TIMER_CTRL_REG_OFFSET \<equiv> 0x4"

abbreviation (input) RV_TIMER_INTR_ENABLE0_REG_OFFSET :: u32 where
  "RV_TIMER_INTR_ENABLE0_REG_OFFSET \<equiv> 0x100"

abbreviation (input) RV_TIMER_INTR_STATE0_REG_OFFSET :: u32 where
  "RV_TIMER_INTR_STATE0_REG_OFFSET \<equiv> 0x104"

abbreviation (input) RV_TIMER_INTR_STATE0_IS_0_BIT :: u32 where
  "RV_TIMER_INTR_STATE0_IS_0_BIT \<equiv> 0"

abbreviation (input) RV_TIMER_INTR_TEST0_REG_OFFSET :: u32 where
  "RV_TIMER_INTR_TEST0_REG_OFFSET \<equiv> 0x108"

abbreviation (input) RV_TIMER_CFG0_REG_OFFSET :: u32 where
  "RV_TIMER_CFG0_REG_OFFSET \<equiv> 0x10c"

abbreviation (input) RV_TIMER_CFG0_PRESCALE_MASK :: u32 where
  "RV_TIMER_CFG0_PRESCALE_MASK \<equiv> 0xfff"

abbreviation (input) RV_TIMER_CFG0_PRESCALE_FIELD :: bitfield_field32 where
  "RV_TIMER_CFG0_PRESCALE_FIELD \<equiv> \<lparr>field_mask = 0xfff, field_index = 0\<rparr>"

abbreviation (input) RV_TIMER_CFG0_STEP_MASK :: u32 where
  "RV_TIMER_CFG0_STEP_MASK \<equiv> 0xff"

abbreviation (input) RV_TIMER_CFG0_STEP_FIELD :: bitfield_field32 where
  "RV_TIMER_CFG0_STEP_FIELD \<equiv> \<lparr>field_mask = 0xff, field_index = 16\<rparr>"

abbreviation (input) RV_TIMER_TIMER_V_LOWER0_REG_OFFSET :: u32 where
  "RV_TIMER_TIMER_V_LOWER0_REG_OFFSET \<equiv> 0x110"

abbreviation (input) RV_TIMER_TIMER_V_UPPER0_REG_OFFSET :: u32 where
  "RV_TIMER_TIMER_V_UPPER0_REG_OFFSET \<equiv> 0x114"

abbreviation (input) RV_TIMER_COMPARE_LOWER0_0_REG_OFFSET :: u32 where
  "RV_TIMER_COMPARE_LOWER0_0_REG_OFFSET \<equiv> 0x118"

abbreviation (input) RV_TIMER_COMPARE_UPPER0_0_REG_OFFSET :: u32 where
  "RV_TIMER_COMPARE_UPPER0_0_REG_OFFSET \<equiv> 0x11c"

text \<open>\<^verbatim>\<open>sw/device/regs/spi_host_regs.h\<close>\<close>

abbreviation (input) SPI_HOST_PARAM_TX_DEPTH :: u32 where
  "SPI_HOST_PARAM_TX_DEPTH \<equiv> 72"

abbreviation (input) SPI_HOST_INTR_COMMON_ERROR_BIT :: u32 where
  "SPI_HOST_INTR_COMMON_ERROR_BIT \<equiv> 0"

abbreviation (input) SPI_HOST_INTR_COMMON_SPI_EVENT_BIT :: u32 where
  "SPI_HOST_INTR_COMMON_SPI_EVENT_BIT \<equiv> 1"

abbreviation (input) SPI_HOST_INTR_STATE_REG_OFFSET :: u32 where
  "SPI_HOST_INTR_STATE_REG_OFFSET \<equiv> 0x0"

abbreviation (input) SPI_HOST_INTR_ENABLE_REG_OFFSET :: u32 where
  "SPI_HOST_INTR_ENABLE_REG_OFFSET \<equiv> 0x4"

abbreviation (input) SPI_HOST_INTR_TEST_REG_OFFSET :: u32 where
  "SPI_HOST_INTR_TEST_REG_OFFSET \<equiv> 0x8"

abbreviation (input) SPI_HOST_CONTROL_REG_OFFSET :: u32 where
  "SPI_HOST_CONTROL_REG_OFFSET \<equiv> 0x10"

abbreviation (input) SPI_HOST_CONTROL_RX_WATERMARK_FIELD :: bitfield_field32 where
  "SPI_HOST_CONTROL_RX_WATERMARK_FIELD \<equiv> \<lparr>field_mask = 0xff, field_index = 0\<rparr>"

abbreviation (input) SPI_HOST_CONTROL_TX_WATERMARK_FIELD :: bitfield_field32 where
  "SPI_HOST_CONTROL_TX_WATERMARK_FIELD \<equiv> \<lparr>field_mask = 0xff, field_index = 8\<rparr>"

abbreviation (input) SPI_HOST_CONTROL_OUTPUT_EN_BIT :: u32 where
  "SPI_HOST_CONTROL_OUTPUT_EN_BIT \<equiv> 29"

abbreviation (input) SPI_HOST_CONTROL_SW_RST_BIT :: u32 where
  "SPI_HOST_CONTROL_SW_RST_BIT \<equiv> 30"

abbreviation (input) SPI_HOST_CONTROL_SPIEN_BIT :: u32 where
  "SPI_HOST_CONTROL_SPIEN_BIT \<equiv> 31"

abbreviation (input) SPI_HOST_STATUS_REG_OFFSET :: u32 where
  "SPI_HOST_STATUS_REG_OFFSET \<equiv> 0x14"

abbreviation (input) SPI_HOST_STATUS_TXQD_FIELD :: bitfield_field32 where
  "SPI_HOST_STATUS_TXQD_FIELD \<equiv> \<lparr>field_mask = 0xff, field_index = 0\<rparr>"

abbreviation (input) SPI_HOST_STATUS_RXQD_FIELD :: bitfield_field32 where
  "SPI_HOST_STATUS_RXQD_FIELD \<equiv> \<lparr>field_mask = 0xff, field_index = 8\<rparr>"

abbreviation (input) SPI_HOST_STATUS_CMDQD_FIELD :: bitfield_field32 where
  "SPI_HOST_STATUS_CMDQD_FIELD \<equiv> \<lparr>field_mask = 0xf, field_index = 16\<rparr>"

abbreviation (input) SPI_HOST_STATUS_RXWM_BIT :: u32 where
  "SPI_HOST_STATUS_RXWM_BIT \<equiv> 20"

abbreviation (input) SPI_HOST_STATUS_BYTEORDER_BIT :: u32 where
  "SPI_HOST_STATUS_BYTEORDER_BIT \<equiv> 22"

abbreviation (input) SPI_HOST_STATUS_RXSTALL_BIT :: u32 where
  "SPI_HOST_STATUS_RXSTALL_BIT \<equiv> 23"

abbreviation (input) SPI_HOST_STATUS_RXEMPTY_BIT :: u32 where
  "SPI_HOST_STATUS_RXEMPTY_BIT \<equiv> 24"

abbreviation (input) SPI_HOST_STATUS_RXFULL_BIT :: u32 where
  "SPI_HOST_STATUS_RXFULL_BIT \<equiv> 25"

abbreviation (input) SPI_HOST_STATUS_TXWM_BIT :: u32 where
  "SPI_HOST_STATUS_TXWM_BIT \<equiv> 26"

abbreviation (input) SPI_HOST_STATUS_TXSTALL_BIT :: u32 where
  "SPI_HOST_STATUS_TXSTALL_BIT \<equiv> 27"

abbreviation (input) SPI_HOST_STATUS_TXEMPTY_BIT :: u32 where
  "SPI_HOST_STATUS_TXEMPTY_BIT \<equiv> 28"

abbreviation (input) SPI_HOST_STATUS_TXFULL_BIT :: u32 where
  "SPI_HOST_STATUS_TXFULL_BIT \<equiv> 29"

abbreviation (input) SPI_HOST_STATUS_ACTIVE_BIT :: u32 where
  "SPI_HOST_STATUS_ACTIVE_BIT \<equiv> 30"

abbreviation (input) SPI_HOST_STATUS_READY_BIT :: u32 where
  "SPI_HOST_STATUS_READY_BIT \<equiv> 31"

abbreviation (input) SPI_HOST_CONFIGOPTS_REG_OFFSET :: u32 where
  "SPI_HOST_CONFIGOPTS_REG_OFFSET \<equiv> 0x18"

abbreviation (input) SPI_HOST_CONFIGOPTS_CLKDIV_MASK :: u32 where
  "SPI_HOST_CONFIGOPTS_CLKDIV_MASK \<equiv> 0xffff"

abbreviation (input) SPI_HOST_CONFIGOPTS_CLKDIV_FIELD :: bitfield_field32 where
  "SPI_HOST_CONFIGOPTS_CLKDIV_FIELD \<equiv> \<lparr>field_mask = 0xffff, field_index = 0\<rparr>"

abbreviation (input) SPI_HOST_CONFIGOPTS_CSNIDLE_FIELD :: bitfield_field32 where
  "SPI_HOST_CONFIGOPTS_CSNIDLE_FIELD \<equiv> \<lparr>field_mask = 0xf, field_index = 16\<rparr>"

abbreviation (input) SPI_HOST_CONFIGOPTS_CSNTRAIL_FIELD :: bitfield_field32 where
  "SPI_HOST_CONFIGOPTS_CSNTRAIL_FIELD \<equiv> \<lparr>field_mask = 0xf, field_index = 20\<rparr>"

abbreviation (input) SPI_HOST_CONFIGOPTS_CSNLEAD_FIELD :: bitfield_field32 where
  "SPI_HOST_CONFIGOPTS_CSNLEAD_FIELD \<equiv> \<lparr>field_mask = 0xf, field_index = 24\<rparr>"

abbreviation (input) SPI_HOST_CONFIGOPTS_FULLCYC_BIT :: u32 where
  "SPI_HOST_CONFIGOPTS_FULLCYC_BIT \<equiv> 29"

abbreviation (input) SPI_HOST_CONFIGOPTS_CPHA_BIT :: u32 where
  "SPI_HOST_CONFIGOPTS_CPHA_BIT \<equiv> 30"

abbreviation (input) SPI_HOST_CONFIGOPTS_CPOL_BIT :: u32 where
  "SPI_HOST_CONFIGOPTS_CPOL_BIT \<equiv> 31"

abbreviation (input) SPI_HOST_CSID_REG_OFFSET :: u32 where
  "SPI_HOST_CSID_REG_OFFSET \<equiv> 0x1c"

abbreviation (input) SPI_HOST_COMMAND_REG_OFFSET :: u32 where
  "SPI_HOST_COMMAND_REG_OFFSET \<equiv> 0x20"

abbreviation (input) SPI_HOST_COMMAND_CSAAT_BIT :: u32 where
  "SPI_HOST_COMMAND_CSAAT_BIT \<equiv> 0"

abbreviation (input) SPI_HOST_COMMAND_SPEED_FIELD :: bitfield_field32 where
  "SPI_HOST_COMMAND_SPEED_FIELD \<equiv> \<lparr>field_mask = 0x3, field_index = 1\<rparr>"

abbreviation (input) SPI_HOST_COMMAND_DIRECTION_FIELD :: bitfield_field32 where
  "SPI_HOST_COMMAND_DIRECTION_FIELD \<equiv> \<lparr>field_mask = 0x3, field_index = 3\<rparr>"

abbreviation (input) SPI_HOST_COMMAND_LEN_FIELD :: bitfield_field32 where
  "SPI_HOST_COMMAND_LEN_FIELD \<equiv> \<lparr>field_mask = 0xfffff, field_index = 5\<rparr>"

abbreviation (input) SPI_HOST_RXDATA_REG_OFFSET :: u32 where
  "SPI_HOST_RXDATA_REG_OFFSET \<equiv> 0x24"

abbreviation (input) SPI_HOST_TXDATA_REG_OFFSET :: u32 where
  "SPI_HOST_TXDATA_REG_OFFSET \<equiv> 0x28"

abbreviation (input) SPI_HOST_ERROR_ENABLE_REG_OFFSET :: u32 where
  "SPI_HOST_ERROR_ENABLE_REG_OFFSET \<equiv> 0x2c"

abbreviation (input) SPI_HOST_ERROR_STATUS_REG_OFFSET :: u32 where
  "SPI_HOST_ERROR_STATUS_REG_OFFSET \<equiv> 0x30"

abbreviation (input) SPI_HOST_EVENT_ENABLE_REG_OFFSET :: u32 where
  "SPI_HOST_EVENT_ENABLE_REG_OFFSET \<equiv> 0x34"

text \<open>\<^verbatim>\<open>sw/device/regs/uart_regs.h\<close>\<close>

abbreviation (input) UART_INTR_COMMON_TX_WATERMARK_BIT :: u32 where
  "UART_INTR_COMMON_TX_WATERMARK_BIT \<equiv> 0"

abbreviation (input) UART_INTR_COMMON_RX_WATERMARK_BIT :: u32 where
  "UART_INTR_COMMON_RX_WATERMARK_BIT \<equiv> 1"

abbreviation (input) UART_INTR_COMMON_TX_DONE_BIT :: u32 where
  "UART_INTR_COMMON_TX_DONE_BIT \<equiv> 2"

abbreviation (input) UART_INTR_COMMON_RX_OVERFLOW_BIT :: u32 where
  "UART_INTR_COMMON_RX_OVERFLOW_BIT \<equiv> 3"

abbreviation (input) UART_INTR_COMMON_RX_FRAME_ERR_BIT :: u32 where
  "UART_INTR_COMMON_RX_FRAME_ERR_BIT \<equiv> 4"

abbreviation (input) UART_INTR_COMMON_RX_BREAK_ERR_BIT :: u32 where
  "UART_INTR_COMMON_RX_BREAK_ERR_BIT \<equiv> 5"

abbreviation (input) UART_INTR_COMMON_RX_TIMEOUT_BIT :: u32 where
  "UART_INTR_COMMON_RX_TIMEOUT_BIT \<equiv> 6"

abbreviation (input) UART_INTR_COMMON_RX_PARITY_ERR_BIT :: u32 where
  "UART_INTR_COMMON_RX_PARITY_ERR_BIT \<equiv> 7"

abbreviation (input) UART_INTR_COMMON_TX_EMPTY_BIT :: u32 where
  "UART_INTR_COMMON_TX_EMPTY_BIT \<equiv> 8"

abbreviation (input) UART_INTR_STATE_REG_OFFSET :: u32 where
  "UART_INTR_STATE_REG_OFFSET \<equiv> 0x0"

abbreviation (input) UART_INTR_ENABLE_REG_OFFSET :: u32 where
  "UART_INTR_ENABLE_REG_OFFSET \<equiv> 0x4"

abbreviation (input) UART_INTR_TEST_REG_OFFSET :: u32 where
  "UART_INTR_TEST_REG_OFFSET \<equiv> 0x8"

abbreviation (input) UART_CTRL_REG_OFFSET :: u32 where
  "UART_CTRL_REG_OFFSET \<equiv> 0x10"

abbreviation (input) UART_CTRL_TX_BIT :: u32 where
  "UART_CTRL_TX_BIT \<equiv> 0"

abbreviation (input) UART_CTRL_RX_BIT :: u32 where
  "UART_CTRL_RX_BIT \<equiv> 1"

abbreviation (input) UART_CTRL_SLPBK_BIT :: u32 where
  "UART_CTRL_SLPBK_BIT \<equiv> 4"

abbreviation (input) UART_CTRL_LLPBK_BIT :: u32 where
  "UART_CTRL_LLPBK_BIT \<equiv> 5"

abbreviation (input) UART_CTRL_PARITY_EN_BIT :: u32 where
  "UART_CTRL_PARITY_EN_BIT \<equiv> 6"

abbreviation (input) UART_CTRL_PARITY_ODD_BIT :: u32 where
  "UART_CTRL_PARITY_ODD_BIT \<equiv> 7"

abbreviation (input) UART_CTRL_RXBLVL_MASK :: u32 where
  "UART_CTRL_RXBLVL_MASK \<equiv> 0x3"

abbreviation (input) UART_CTRL_RXBLVL_FIELD :: bitfield_field32 where
  "UART_CTRL_RXBLVL_FIELD \<equiv> \<lparr>field_mask = 0x3, field_index = 8\<rparr>"

abbreviation (input) UART_CTRL_NCO_MASK :: u32 where
  "UART_CTRL_NCO_MASK \<equiv> 0xffff"

abbreviation (input) UART_CTRL_NCO_FIELD :: bitfield_field32 where
  "UART_CTRL_NCO_FIELD \<equiv> \<lparr>field_mask = 0xffff, field_index = 16\<rparr>"

abbreviation (input) UART_STATUS_REG_OFFSET :: u32 where
  "UART_STATUS_REG_OFFSET \<equiv> 0x14"

abbreviation (input) UART_STATUS_TXFULL_BIT :: u32 where
  "UART_STATUS_TXFULL_BIT \<equiv> 0"

abbreviation (input) UART_STATUS_TXIDLE_BIT :: u32 where
  "UART_STATUS_TXIDLE_BIT \<equiv> 3"

abbreviation (input) UART_STATUS_RXEMPTY_BIT :: u32 where
  "UART_STATUS_RXEMPTY_BIT \<equiv> 5"

abbreviation (input) UART_RDATA_REG_OFFSET :: u32 where
  "UART_RDATA_REG_OFFSET \<equiv> 0x18"

abbreviation (input) UART_RDATA_RDATA_FIELD :: bitfield_field32 where
  "UART_RDATA_RDATA_FIELD \<equiv> \<lparr>field_mask = 0xff, field_index = 0\<rparr>"

abbreviation (input) UART_WDATA_REG_OFFSET :: u32 where
  "UART_WDATA_REG_OFFSET \<equiv> 0x1c"

abbreviation (input) UART_WDATA_WDATA_FIELD :: bitfield_field32 where
  "UART_WDATA_WDATA_FIELD \<equiv> \<lparr>field_mask = 0xff, field_index = 0\<rparr>"

abbreviation (input) UART_FIFO_CTRL_REG_OFFSET :: u32 where
  "UART_FIFO_CTRL_REG_OFFSET \<equiv> 0x20"

abbreviation (input) UART_FIFO_CTRL_RXRST_BIT :: u32 where
  "UART_FIFO_CTRL_RXRST_BIT \<equiv> 0"

abbreviation (input) UART_FIFO_CTRL_TXRST_BIT :: u32 where
  "UART_FIFO_CTRL_TXRST_BIT \<equiv> 1"

abbreviation (input) UART_FIFO_CTRL_RXILVL_FIELD :: bitfield_field32 where
  "UART_FIFO_CTRL_RXILVL_FIELD \<equiv> \<lparr>field_mask = 0x7, field_index = 2\<rparr>"

abbreviation (input) UART_FIFO_CTRL_RXILVL_VALUE_RXLVL1 :: u32 where
  "UART_FIFO_CTRL_RXILVL_VALUE_RXLVL1 \<equiv> 0x0"

abbreviation (input) UART_FIFO_CTRL_RXILVL_VALUE_RXLVL2 :: u32 where
  "UART_FIFO_CTRL_RXILVL_VALUE_RXLVL2 \<equiv> 0x1"

abbreviation (input) UART_FIFO_CTRL_RXILVL_VALUE_RXLVL4 :: u32 where
  "UART_FIFO_CTRL_RXILVL_VALUE_RXLVL4 \<equiv> 0x2"

abbreviation (input) UART_FIFO_CTRL_RXILVL_VALUE_RXLVL8 :: u32 where
  "UART_FIFO_CTRL_RXILVL_VALUE_RXLVL8 \<equiv> 0x3"

abbreviation (input) UART_FIFO_CTRL_RXILVL_VALUE_RXLVL16 :: u32 where
  "UART_FIFO_CTRL_RXILVL_VALUE_RXLVL16 \<equiv> 0x4"

abbreviation (input) UART_FIFO_CTRL_RXILVL_VALUE_RXLVL32 :: u32 where
  "UART_FIFO_CTRL_RXILVL_VALUE_RXLVL32 \<equiv> 0x5"

abbreviation (input) UART_FIFO_CTRL_RXILVL_VALUE_RXLVL62 :: u32 where
  "UART_FIFO_CTRL_RXILVL_VALUE_RXLVL62 \<equiv> 0x6"

abbreviation (input) UART_FIFO_CTRL_TXILVL_FIELD :: bitfield_field32 where
  "UART_FIFO_CTRL_TXILVL_FIELD \<equiv> \<lparr>field_mask = 0x7, field_index = 5\<rparr>"

abbreviation (input) UART_FIFO_CTRL_TXILVL_VALUE_TXLVL1 :: u32 where
  "UART_FIFO_CTRL_TXILVL_VALUE_TXLVL1 \<equiv> 0x0"

abbreviation (input) UART_FIFO_CTRL_TXILVL_VALUE_TXLVL2 :: u32 where
  "UART_FIFO_CTRL_TXILVL_VALUE_TXLVL2 \<equiv> 0x1"

abbreviation (input) UART_FIFO_CTRL_TXILVL_VALUE_TXLVL4 :: u32 where
  "UART_FIFO_CTRL_TXILVL_VALUE_TXLVL4 \<equiv> 0x2"

abbreviation (input) UART_FIFO_CTRL_TXILVL_VALUE_TXLVL8 :: u32 where
  "UART_FIFO_CTRL_TXILVL_VALUE_TXLVL8 \<equiv> 0x3"

abbreviation (input) UART_FIFO_CTRL_TXILVL_VALUE_TXLVL16 :: u32 where
  "UART_FIFO_CTRL_TXILVL_VALUE_TXLVL16 \<equiv> 0x4"

abbreviation (input) UART_FIFO_STATUS_REG_OFFSET :: u32 where
  "UART_FIFO_STATUS_REG_OFFSET \<equiv> 0x24"

abbreviation (input) UART_FIFO_STATUS_TXLVL_FIELD :: bitfield_field32 where
  "UART_FIFO_STATUS_TXLVL_FIELD \<equiv> \<lparr>field_mask = 0xff, field_index = 0\<rparr>"

abbreviation (input) UART_FIFO_STATUS_RXLVL_FIELD :: bitfield_field32 where
  "UART_FIFO_STATUS_RXLVL_FIELD \<equiv> \<lparr>field_mask = 0xff, field_index = 16\<rparr>"

abbreviation (input) UART_OVRD_REG_OFFSET :: u32 where
  "UART_OVRD_REG_OFFSET \<equiv> 0x28"

abbreviation (input) UART_TIMEOUT_CTRL_REG_OFFSET :: u32 where
  "UART_TIMEOUT_CTRL_REG_OFFSET \<equiv> 0x30"

abbreviation (input) UART_TIMEOUT_CTRL_VAL_MASK :: u32 where
  "UART_TIMEOUT_CTRL_VAL_MASK \<equiv> 0xffffff"

abbreviation (input) UART_TIMEOUT_CTRL_VAL_FIELD :: bitfield_field32 where
  "UART_TIMEOUT_CTRL_VAL_FIELD \<equiv> \<lparr>field_mask = 0xffffff, field_index = 0\<rparr>"

abbreviation (input) UART_TIMEOUT_CTRL_EN_BIT :: u32 where
  "UART_TIMEOUT_CTRL_EN_BIT \<equiv> 31"

text \<open>\<^verbatim>\<open>sw/device/regs/usbdev_regs.h\<close>\<close>

abbreviation (input) USBDEV_INTR_COMMON_PKT_RECEIVED_BIT :: u32 where
  "USBDEV_INTR_COMMON_PKT_RECEIVED_BIT \<equiv> 0"

abbreviation (input) USBDEV_INTR_COMMON_PKT_SENT_BIT :: u32 where
  "USBDEV_INTR_COMMON_PKT_SENT_BIT \<equiv> 1"

abbreviation (input) USBDEV_INTR_COMMON_DISCONNECTED_BIT :: u32 where
  "USBDEV_INTR_COMMON_DISCONNECTED_BIT \<equiv> 2"

abbreviation (input) USBDEV_INTR_COMMON_HOST_LOST_BIT :: u32 where
  "USBDEV_INTR_COMMON_HOST_LOST_BIT \<equiv> 3"

abbreviation (input) USBDEV_INTR_COMMON_LINK_RESET_BIT :: u32 where
  "USBDEV_INTR_COMMON_LINK_RESET_BIT \<equiv> 4"

abbreviation (input) USBDEV_INTR_COMMON_LINK_SUSPEND_BIT :: u32 where
  "USBDEV_INTR_COMMON_LINK_SUSPEND_BIT \<equiv> 5"

abbreviation (input) USBDEV_INTR_COMMON_LINK_RESUME_BIT :: u32 where
  "USBDEV_INTR_COMMON_LINK_RESUME_BIT \<equiv> 6"

abbreviation (input) USBDEV_INTR_COMMON_AV_OUT_EMPTY_BIT :: u32 where
  "USBDEV_INTR_COMMON_AV_OUT_EMPTY_BIT \<equiv> 7"

abbreviation (input) USBDEV_INTR_COMMON_RX_FULL_BIT :: u32 where
  "USBDEV_INTR_COMMON_RX_FULL_BIT \<equiv> 8"

abbreviation (input) USBDEV_INTR_COMMON_AV_OVERFLOW_BIT :: u32 where
  "USBDEV_INTR_COMMON_AV_OVERFLOW_BIT \<equiv> 9"

abbreviation (input) USBDEV_INTR_COMMON_LINK_IN_ERR_BIT :: u32 where
  "USBDEV_INTR_COMMON_LINK_IN_ERR_BIT \<equiv> 10"

abbreviation (input) USBDEV_INTR_COMMON_RX_CRC_ERR_BIT :: u32 where
  "USBDEV_INTR_COMMON_RX_CRC_ERR_BIT \<equiv> 11"

abbreviation (input) USBDEV_INTR_COMMON_RX_PID_ERR_BIT :: u32 where
  "USBDEV_INTR_COMMON_RX_PID_ERR_BIT \<equiv> 12"

abbreviation (input) USBDEV_INTR_COMMON_RX_BITSTUFF_ERR_BIT :: u32 where
  "USBDEV_INTR_COMMON_RX_BITSTUFF_ERR_BIT \<equiv> 13"

abbreviation (input) USBDEV_INTR_COMMON_FRAME_BIT :: u32 where
  "USBDEV_INTR_COMMON_FRAME_BIT \<equiv> 14"

abbreviation (input) USBDEV_INTR_COMMON_POWERED_BIT :: u32 where
  "USBDEV_INTR_COMMON_POWERED_BIT \<equiv> 15"

abbreviation (input) USBDEV_INTR_COMMON_LINK_OUT_ERR_BIT :: u32 where
  "USBDEV_INTR_COMMON_LINK_OUT_ERR_BIT \<equiv> 16"

abbreviation (input) USBDEV_INTR_COMMON_AV_SETUP_EMPTY_BIT :: u32 where
  "USBDEV_INTR_COMMON_AV_SETUP_EMPTY_BIT \<equiv> 17"

abbreviation (input) USBDEV_INTR_STATE_REG_OFFSET :: u32 where
  "USBDEV_INTR_STATE_REG_OFFSET \<equiv> 0x0"

abbreviation (input) USBDEV_INTR_ENABLE_REG_OFFSET :: u32 where
  "USBDEV_INTR_ENABLE_REG_OFFSET \<equiv> 0x4"

abbreviation (input) USBDEV_INTR_TEST_REG_OFFSET :: u32 where
  "USBDEV_INTR_TEST_REG_OFFSET \<equiv> 0x8"

abbreviation (input) USBDEV_USBCTRL_REG_OFFSET :: u32 where
  "USBDEV_USBCTRL_REG_OFFSET \<equiv> 0x10"

abbreviation (input) USBDEV_USBCTRL_ENABLE_BIT :: u32 where
  "USBDEV_USBCTRL_ENABLE_BIT \<equiv> 0"

abbreviation (input) USBDEV_USBCTRL_RESUME_LINK_ACTIVE_BIT :: u32 where
  "USBDEV_USBCTRL_RESUME_LINK_ACTIVE_BIT \<equiv> 1"

abbreviation (input) USBDEV_USBCTRL_DEVICE_ADDRESS_FIELD :: bitfield_field32 where
  "USBDEV_USBCTRL_DEVICE_ADDRESS_FIELD \<equiv> \<lparr>field_mask = 0x7f, field_index = 16\<rparr>"

abbreviation (input) USBDEV_EP_OUT_ENABLE_REG_OFFSET :: u32 where
  "USBDEV_EP_OUT_ENABLE_REG_OFFSET \<equiv> 0x14"

abbreviation (input) USBDEV_EP_IN_ENABLE_REG_OFFSET :: u32 where
  "USBDEV_EP_IN_ENABLE_REG_OFFSET \<equiv> 0x18"

abbreviation (input) USBDEV_USBSTAT_REG_OFFSET :: u32 where
  "USBDEV_USBSTAT_REG_OFFSET \<equiv> 0x1c"

abbreviation (input) USBDEV_USBSTAT_FRAME_FIELD :: bitfield_field32 where
  "USBDEV_USBSTAT_FRAME_FIELD \<equiv> \<lparr>field_mask = 0x7ff, field_index = 0\<rparr>"

abbreviation (input) USBDEV_USBSTAT_HOST_LOST_BIT :: u32 where
  "USBDEV_USBSTAT_HOST_LOST_BIT \<equiv> 11"

abbreviation (input) USBDEV_USBSTAT_LINK_STATE_FIELD :: bitfield_field32 where
  "USBDEV_USBSTAT_LINK_STATE_FIELD \<equiv> \<lparr>field_mask = 0x7, field_index = 12\<rparr>"

abbreviation (input) USBDEV_USBSTAT_LINK_STATE_VALUE_DISCONNECTED :: u32 where
  "USBDEV_USBSTAT_LINK_STATE_VALUE_DISCONNECTED \<equiv> 0x0"

abbreviation (input) USBDEV_USBSTAT_LINK_STATE_VALUE_POWERED :: u32 where
  "USBDEV_USBSTAT_LINK_STATE_VALUE_POWERED \<equiv> 0x1"

abbreviation (input) USBDEV_USBSTAT_LINK_STATE_VALUE_POWERED_SUSPENDED :: u32 where
  "USBDEV_USBSTAT_LINK_STATE_VALUE_POWERED_SUSPENDED \<equiv> 0x2"

abbreviation (input) USBDEV_USBSTAT_LINK_STATE_VALUE_ACTIVE :: u32 where
  "USBDEV_USBSTAT_LINK_STATE_VALUE_ACTIVE \<equiv> 0x3"

abbreviation (input) USBDEV_USBSTAT_LINK_STATE_VALUE_SUSPENDED :: u32 where
  "USBDEV_USBSTAT_LINK_STATE_VALUE_SUSPENDED \<equiv> 0x4"

abbreviation (input) USBDEV_USBSTAT_LINK_STATE_VALUE_ACTIVE_NOSOF :: u32 where
  "USBDEV_USBSTAT_LINK_STATE_VALUE_ACTIVE_NOSOF \<equiv> 0x5"

abbreviation (input) USBDEV_USBSTAT_LINK_STATE_VALUE_RESUMING :: u32 where
  "USBDEV_USBSTAT_LINK_STATE_VALUE_RESUMING \<equiv> 0x6"

abbreviation (input) USBDEV_USBSTAT_SENSE_BIT :: u32 where
  "USBDEV_USBSTAT_SENSE_BIT \<equiv> 15"

abbreviation (input) USBDEV_USBSTAT_AV_OUT_DEPTH_FIELD :: bitfield_field32 where
  "USBDEV_USBSTAT_AV_OUT_DEPTH_FIELD \<equiv> \<lparr>field_mask = 0xf, field_index = 16\<rparr>"

abbreviation (input) USBDEV_USBSTAT_AV_SETUP_DEPTH_FIELD :: bitfield_field32 where
  "USBDEV_USBSTAT_AV_SETUP_DEPTH_FIELD \<equiv> \<lparr>field_mask = 0x7, field_index = 20\<rparr>"

abbreviation (input) USBDEV_USBSTAT_AV_OUT_FULL_BIT :: u32 where
  "USBDEV_USBSTAT_AV_OUT_FULL_BIT \<equiv> 23"

abbreviation (input) USBDEV_USBSTAT_RX_DEPTH_FIELD :: bitfield_field32 where
  "USBDEV_USBSTAT_RX_DEPTH_FIELD \<equiv> \<lparr>field_mask = 0xf, field_index = 24\<rparr>"

abbreviation (input) USBDEV_USBSTAT_AV_SETUP_FULL_BIT :: u32 where
  "USBDEV_USBSTAT_AV_SETUP_FULL_BIT \<equiv> 30"

abbreviation (input) USBDEV_USBSTAT_RX_EMPTY_BIT :: u32 where
  "USBDEV_USBSTAT_RX_EMPTY_BIT \<equiv> 31"

abbreviation (input) USBDEV_AVOUTBUFFER_REG_OFFSET :: u32 where
  "USBDEV_AVOUTBUFFER_REG_OFFSET \<equiv> 0x20"

abbreviation (input) USBDEV_AVOUTBUFFER_BUFFER_FIELD :: bitfield_field32 where
  "USBDEV_AVOUTBUFFER_BUFFER_FIELD \<equiv> \<lparr>field_mask = 0x1f, field_index = 0\<rparr>"

abbreviation (input) USBDEV_AVSETUPBUFFER_REG_OFFSET :: u32 where
  "USBDEV_AVSETUPBUFFER_REG_OFFSET \<equiv> 0x24"

abbreviation (input) USBDEV_AVSETUPBUFFER_BUFFER_FIELD :: bitfield_field32 where
  "USBDEV_AVSETUPBUFFER_BUFFER_FIELD \<equiv> \<lparr>field_mask = 0x1f, field_index = 0\<rparr>"

abbreviation (input) USBDEV_RXFIFO_REG_OFFSET :: u32 where
  "USBDEV_RXFIFO_REG_OFFSET \<equiv> 0x28"

abbreviation (input) USBDEV_RXFIFO_BUFFER_FIELD :: bitfield_field32 where
  "USBDEV_RXFIFO_BUFFER_FIELD \<equiv> \<lparr>field_mask = 0x1f, field_index = 0\<rparr>"

abbreviation (input) USBDEV_RXFIFO_SIZE_FIELD :: bitfield_field32 where
  "USBDEV_RXFIFO_SIZE_FIELD \<equiv> \<lparr>field_mask = 0x7f, field_index = 8\<rparr>"

abbreviation (input) USBDEV_RXFIFO_SETUP_BIT :: u32 where
  "USBDEV_RXFIFO_SETUP_BIT \<equiv> 19"

abbreviation (input) USBDEV_RXFIFO_EP_FIELD :: bitfield_field32 where
  "USBDEV_RXFIFO_EP_FIELD \<equiv> \<lparr>field_mask = 0xf, field_index = 20\<rparr>"

abbreviation (input) USBDEV_RXENABLE_SETUP_REG_OFFSET :: u32 where
  "USBDEV_RXENABLE_SETUP_REG_OFFSET \<equiv> 0x2c"

abbreviation (input) USBDEV_RXENABLE_OUT_REG_OFFSET :: u32 where
  "USBDEV_RXENABLE_OUT_REG_OFFSET \<equiv> 0x30"

abbreviation (input) USBDEV_SET_NAK_OUT_REG_OFFSET :: u32 where
  "USBDEV_SET_NAK_OUT_REG_OFFSET \<equiv> 0x34"

abbreviation (input) USBDEV_IN_SENT_REG_OFFSET :: u32 where
  "USBDEV_IN_SENT_REG_OFFSET \<equiv> 0x38"

abbreviation (input) USBDEV_OUT_STALL_REG_OFFSET :: u32 where
  "USBDEV_OUT_STALL_REG_OFFSET \<equiv> 0x3c"

abbreviation (input) USBDEV_IN_STALL_REG_OFFSET :: u32 where
  "USBDEV_IN_STALL_REG_OFFSET \<equiv> 0x40"

abbreviation (input) USBDEV_CONFIGIN_0_REG_OFFSET :: u32 where
  "USBDEV_CONFIGIN_0_REG_OFFSET \<equiv> 0x44"

abbreviation (input) USBDEV_CONFIGIN_0_BUFFER_0_FIELD :: bitfield_field32 where
  "USBDEV_CONFIGIN_0_BUFFER_0_FIELD \<equiv> \<lparr>field_mask = 0x1f, field_index = 0\<rparr>"

abbreviation (input) USBDEV_CONFIGIN_0_SIZE_0_FIELD :: bitfield_field32 where
  "USBDEV_CONFIGIN_0_SIZE_0_FIELD \<equiv> \<lparr>field_mask = 0x7f, field_index = 8\<rparr>"

abbreviation (input) USBDEV_CONFIGIN_0_PEND_0_BIT :: u32 where
  "USBDEV_CONFIGIN_0_PEND_0_BIT \<equiv> 30"

abbreviation (input) USBDEV_CONFIGIN_0_RDY_0_BIT :: u32 where
  "USBDEV_CONFIGIN_0_RDY_0_BIT \<equiv> 31"

abbreviation (input) USBDEV_CONFIGIN_1_REG_OFFSET :: u32 where
  "USBDEV_CONFIGIN_1_REG_OFFSET \<equiv> 0x48"

abbreviation (input) USBDEV_CONFIGIN_2_REG_OFFSET :: u32 where
  "USBDEV_CONFIGIN_2_REG_OFFSET \<equiv> 0x4c"

abbreviation (input) USBDEV_CONFIGIN_3_REG_OFFSET :: u32 where
  "USBDEV_CONFIGIN_3_REG_OFFSET \<equiv> 0x50"

abbreviation (input) USBDEV_CONFIGIN_4_REG_OFFSET :: u32 where
  "USBDEV_CONFIGIN_4_REG_OFFSET \<equiv> 0x54"

abbreviation (input) USBDEV_CONFIGIN_5_REG_OFFSET :: u32 where
  "USBDEV_CONFIGIN_5_REG_OFFSET \<equiv> 0x58"

abbreviation (input) USBDEV_CONFIGIN_6_REG_OFFSET :: u32 where
  "USBDEV_CONFIGIN_6_REG_OFFSET \<equiv> 0x5c"

abbreviation (input) USBDEV_CONFIGIN_7_REG_OFFSET :: u32 where
  "USBDEV_CONFIGIN_7_REG_OFFSET \<equiv> 0x60"

abbreviation (input) USBDEV_CONFIGIN_8_REG_OFFSET :: u32 where
  "USBDEV_CONFIGIN_8_REG_OFFSET \<equiv> 0x64"

abbreviation (input) USBDEV_CONFIGIN_9_REG_OFFSET :: u32 where
  "USBDEV_CONFIGIN_9_REG_OFFSET \<equiv> 0x68"

abbreviation (input) USBDEV_CONFIGIN_10_REG_OFFSET :: u32 where
  "USBDEV_CONFIGIN_10_REG_OFFSET \<equiv> 0x6c"

abbreviation (input) USBDEV_CONFIGIN_11_REG_OFFSET :: u32 where
  "USBDEV_CONFIGIN_11_REG_OFFSET \<equiv> 0x70"

abbreviation (input) USBDEV_OUT_ISO_REG_OFFSET :: u32 where
  "USBDEV_OUT_ISO_REG_OFFSET \<equiv> 0x74"

abbreviation (input) USBDEV_IN_ISO_REG_OFFSET :: u32 where
  "USBDEV_IN_ISO_REG_OFFSET \<equiv> 0x78"

abbreviation (input) USBDEV_OUT_DATA_TOGGLE_REG_OFFSET :: u32 where
  "USBDEV_OUT_DATA_TOGGLE_REG_OFFSET \<equiv> 0x7c"

abbreviation (input) USBDEV_IN_DATA_TOGGLE_REG_OFFSET :: u32 where
  "USBDEV_IN_DATA_TOGGLE_REG_OFFSET \<equiv> 0x80"

abbreviation (input) USBDEV_PHY_PINS_SENSE_REG_OFFSET :: u32 where
  "USBDEV_PHY_PINS_SENSE_REG_OFFSET \<equiv> 0x84"

abbreviation (input) USBDEV_PHY_PINS_SENSE_RX_DP_I_BIT :: u32 where
  "USBDEV_PHY_PINS_SENSE_RX_DP_I_BIT \<equiv> 0"

abbreviation (input) USBDEV_PHY_PINS_SENSE_RX_DN_I_BIT :: u32 where
  "USBDEV_PHY_PINS_SENSE_RX_DN_I_BIT \<equiv> 1"

abbreviation (input) USBDEV_PHY_PINS_SENSE_RX_D_I_BIT :: u32 where
  "USBDEV_PHY_PINS_SENSE_RX_D_I_BIT \<equiv> 2"

abbreviation (input) USBDEV_PHY_PINS_SENSE_TX_DP_O_BIT :: u32 where
  "USBDEV_PHY_PINS_SENSE_TX_DP_O_BIT \<equiv> 8"

abbreviation (input) USBDEV_PHY_PINS_SENSE_TX_DN_O_BIT :: u32 where
  "USBDEV_PHY_PINS_SENSE_TX_DN_O_BIT \<equiv> 9"

abbreviation (input) USBDEV_PHY_PINS_SENSE_TX_D_O_BIT :: u32 where
  "USBDEV_PHY_PINS_SENSE_TX_D_O_BIT \<equiv> 10"

abbreviation (input) USBDEV_PHY_PINS_SENSE_TX_SE0_O_BIT :: u32 where
  "USBDEV_PHY_PINS_SENSE_TX_SE0_O_BIT \<equiv> 11"

abbreviation (input) USBDEV_PHY_PINS_SENSE_TX_OE_O_BIT :: u32 where
  "USBDEV_PHY_PINS_SENSE_TX_OE_O_BIT \<equiv> 12"

abbreviation (input) USBDEV_PHY_PINS_SENSE_PWR_SENSE_BIT :: u32 where
  "USBDEV_PHY_PINS_SENSE_PWR_SENSE_BIT \<equiv> 16"

abbreviation (input) USBDEV_PHY_PINS_DRIVE_REG_OFFSET :: u32 where
  "USBDEV_PHY_PINS_DRIVE_REG_OFFSET \<equiv> 0x88"

abbreviation (input) USBDEV_PHY_PINS_DRIVE_DP_O_BIT :: u32 where
  "USBDEV_PHY_PINS_DRIVE_DP_O_BIT \<equiv> 0"

abbreviation (input) USBDEV_PHY_PINS_DRIVE_DN_O_BIT :: u32 where
  "USBDEV_PHY_PINS_DRIVE_DN_O_BIT \<equiv> 1"

abbreviation (input) USBDEV_PHY_PINS_DRIVE_D_O_BIT :: u32 where
  "USBDEV_PHY_PINS_DRIVE_D_O_BIT \<equiv> 2"

abbreviation (input) USBDEV_PHY_PINS_DRIVE_SE0_O_BIT :: u32 where
  "USBDEV_PHY_PINS_DRIVE_SE0_O_BIT \<equiv> 3"

abbreviation (input) USBDEV_PHY_PINS_DRIVE_OE_O_BIT :: u32 where
  "USBDEV_PHY_PINS_DRIVE_OE_O_BIT \<equiv> 4"

abbreviation (input) USBDEV_PHY_PINS_DRIVE_RX_ENABLE_O_BIT :: u32 where
  "USBDEV_PHY_PINS_DRIVE_RX_ENABLE_O_BIT \<equiv> 5"

abbreviation (input) USBDEV_PHY_PINS_DRIVE_DP_PULLUP_EN_O_BIT :: u32 where
  "USBDEV_PHY_PINS_DRIVE_DP_PULLUP_EN_O_BIT \<equiv> 6"

abbreviation (input) USBDEV_PHY_PINS_DRIVE_DN_PULLUP_EN_O_BIT :: u32 where
  "USBDEV_PHY_PINS_DRIVE_DN_PULLUP_EN_O_BIT \<equiv> 7"

abbreviation (input) USBDEV_PHY_PINS_DRIVE_EN_BIT :: u32 where
  "USBDEV_PHY_PINS_DRIVE_EN_BIT \<equiv> 16"

abbreviation (input) USBDEV_PHY_CONFIG_REG_OFFSET :: u32 where
  "USBDEV_PHY_CONFIG_REG_OFFSET \<equiv> 0x8c"

abbreviation (input) USBDEV_PHY_CONFIG_USE_DIFF_RCVR_BIT :: u32 where
  "USBDEV_PHY_CONFIG_USE_DIFF_RCVR_BIT \<equiv> 0"

abbreviation (input) USBDEV_PHY_CONFIG_TX_USE_D_SE0_BIT :: u32 where
  "USBDEV_PHY_CONFIG_TX_USE_D_SE0_BIT \<equiv> 1"

abbreviation (input) USBDEV_PHY_CONFIG_EOP_SINGLE_BIT_BIT :: u32 where
  "USBDEV_PHY_CONFIG_EOP_SINGLE_BIT_BIT \<equiv> 2"

abbreviation (input) USBDEV_PHY_CONFIG_PINFLIP_BIT :: u32 where
  "USBDEV_PHY_CONFIG_PINFLIP_BIT \<equiv> 5"

abbreviation (input) USBDEV_PHY_CONFIG_USB_REF_DISABLE_BIT :: u32 where
  "USBDEV_PHY_CONFIG_USB_REF_DISABLE_BIT \<equiv> 6"

abbreviation (input) USBDEV_PHY_CONFIG_TX_OSC_TEST_MODE_BIT :: u32 where
  "USBDEV_PHY_CONFIG_TX_OSC_TEST_MODE_BIT \<equiv> 7"

abbreviation (input) USBDEV_WAKE_CONTROL_REG_OFFSET :: u32 where
  "USBDEV_WAKE_CONTROL_REG_OFFSET \<equiv> 0x90"

abbreviation (input) USBDEV_WAKE_CONTROL_SUSPEND_REQ_BIT :: u32 where
  "USBDEV_WAKE_CONTROL_SUSPEND_REQ_BIT \<equiv> 0"

abbreviation (input) USBDEV_WAKE_CONTROL_WAKE_ACK_BIT :: u32 where
  "USBDEV_WAKE_CONTROL_WAKE_ACK_BIT \<equiv> 1"

abbreviation (input) USBDEV_WAKE_EVENTS_REG_OFFSET :: u32 where
  "USBDEV_WAKE_EVENTS_REG_OFFSET \<equiv> 0x94"

abbreviation (input) USBDEV_WAKE_EVENTS_MODULE_ACTIVE_BIT :: u32 where
  "USBDEV_WAKE_EVENTS_MODULE_ACTIVE_BIT \<equiv> 0"

abbreviation (input) USBDEV_WAKE_EVENTS_DISCONNECTED_BIT :: u32 where
  "USBDEV_WAKE_EVENTS_DISCONNECTED_BIT \<equiv> 8"

abbreviation (input) USBDEV_WAKE_EVENTS_BUS_RESET_BIT :: u32 where
  "USBDEV_WAKE_EVENTS_BUS_RESET_BIT \<equiv> 9"

abbreviation (input) USBDEV_WAKE_EVENTS_BUS_NOT_IDLE_BIT :: u32 where
  "USBDEV_WAKE_EVENTS_BUS_NOT_IDLE_BIT \<equiv> 10"

abbreviation (input) USBDEV_BUFFER_REG_OFFSET :: u32 where
  "USBDEV_BUFFER_REG_OFFSET \<equiv> 0x800"

end
