(* ===== verification/DifBase.thy ===== *)
theory DifBase
  imports Mmio Regs
begin

section \<open>Common definitions of the device interface functions (DIFs)\<close>

text \<open>
  \<^verbatim>\<open>sw/device/lib/dif/dif_base.h\<close>. Every DIF takes the bus as its first argument, the device
  handle as a pointer, and returns its result code, with the out-parameters it was given (their
  new contents; a null pointer stays null), as a state transformer of the device. An enum whose
  validity the code checks has a constructor for every other value of the C object.
\<close>

datatype dif_result =
    kDifOk | kDifError | kDifBadArg | kDifLocked | kDifUnavailable | kDifIpFifoFull
  | kDifOutOfRange | kDifUnaligned

datatype dif_toggle = kDifToggleDisabled | kDifToggleEnabled | kDifToggleOther u32

datatype dif_irq_type = kDifIrqTypeEvent | kDifIrqTypeStatus

definition dif_is_valid_toggle :: "dif_toggle \<Rightarrow> bool" where
  "dif_is_valid_toggle val = (case val of
     kDifToggleEnabled \<Rightarrow> True | kDifToggleDisabled \<Rightarrow> True | _ \<Rightarrow> False)"

definition dif_toggle_to_bool :: "dif_toggle \<Rightarrow> bool" where
  "dif_toggle_to_bool val = (case val of
     kDifToggleEnabled \<Rightarrow> True | kDifToggleDisabled \<Rightarrow> False | _ \<Rightarrow> False)"

definition dif_bool_to_toggle :: "bool \<Rightarrow> dif_toggle" where
  "dif_bool_to_toggle val = (if val then kDifToggleEnabled else kDifToggleDisabled)"

text \<open>Multi-bit booleans are compared with register values and stay numbers.\<close>

type_synonym multi_bit_bool = u32

definition kMultiBitBool4True :: multi_bit_bool where "kMultiBitBool4True = 0x6"

definition kMultiBitBool4False :: multi_bit_bool where "kMultiBitBool4False = 0x9"

definition kMultiBitBool8True :: multi_bit_bool where "kMultiBitBool8True = 0x96"

definition kMultiBitBool8False :: multi_bit_bool where "kMultiBitBool8False = 0x69"

definition kMultiBitBool12True :: multi_bit_bool where "kMultiBitBool12True = 0x696"

definition kMultiBitBool12False :: multi_bit_bool where "kMultiBitBool12False = 0x969"

definition kMultiBitBool16True :: multi_bit_bool where "kMultiBitBool16True = 0x9696"

definition kMultiBitBool16False :: multi_bit_bool where "kMultiBitBool16False = 0x6969"

definition dif_multi_bit_bool_to_toggle :: "multi_bit_bool \<Rightarrow> dif_toggle" where
  "dif_multi_bit_bool_to_toggle val =
     (if val = kMultiBitBool4True \<or> val = kMultiBitBool8True \<or> val = kMultiBitBool12True
         \<or> val = kMultiBitBool16True
      then kDifToggleEnabled else kDifToggleDisabled)"

definition dif_toggle_to_multi_bit_bool4 :: "dif_toggle \<Rightarrow> multi_bit_bool" where
  "dif_toggle_to_multi_bit_bool4 val =
     (if val = kDifToggleEnabled then kMultiBitBool4True else kMultiBitBool4False)"

definition dif_toggle_to_multi_bit_bool8 :: "dif_toggle \<Rightarrow> multi_bit_bool" where
  "dif_toggle_to_multi_bit_bool8 val =
     (if val = kDifToggleEnabled then kMultiBitBool8True else kMultiBitBool8False)"

definition dif_toggle_to_multi_bit_bool12 :: "dif_toggle \<Rightarrow> multi_bit_bool" where
  "dif_toggle_to_multi_bit_bool12 val =
     (if val = kDifToggleEnabled then kMultiBitBool12True else kMultiBitBool12False)"

definition dif_toggle_to_multi_bit_bool16 :: "dif_toggle \<Rightarrow> multi_bit_bool" where
  "dif_toggle_to_multi_bit_bool16 val =
     (if val = kDifToggleEnabled then kMultiBitBool16True else kMultiBitBool16False)"

text \<open>The handle of every device is its base address; the per-device types of the generated
  headers are the same record.\<close>

record dif_handle =
  base_addr :: mmio_region

text \<open>A handle for the examples.\<close>

abbreviation example_handle :: dif_handle where
  "example_handle \<equiv> \<lparr>base_addr = \<lparr>base = 0x40000000\<rparr>\<rparr>"

definition dif_init :: "mmio_region \<Rightarrow> dif_handle ptr \<Rightarrow> dif_result \<times> dif_handle ptr" where
  "dif_init region handle = (case handle of
     None \<Rightarrow> (kDifBadArg, None)
   | Some h \<Rightarrow> (kDifOk, Some (h\<lparr>base_addr := region\<rparr>)))"

abbreviation rd32 :: "'d bus \<Rightarrow> dif_handle \<Rightarrow> u32 \<Rightarrow> ('d, u32) state" where
  "rd32 B h \<equiv> mmio_region_read32 B (base_addr h)"

abbreviation wr32 :: "'d bus \<Rightarrow> dif_handle \<Rightarrow> u32 \<Rightarrow> u32 \<Rightarrow> ('d, unit) state" where
  "wr32 B h \<equiv> mmio_region_write32 B (base_addr h)"

text \<open>A busy wait: \<open>while (c) {}\<close>. The result is \<open>None\<close> when the condition never becomes false.\<close>

partial_function (option) wait_while :: "('d, bool) state \<Rightarrow> 'd \<Rightarrow> 'd option" where
  "wait_while c d = (case run_state c d of (b, d') \<Rightarrow> if b then wait_while c d' else Some d')"

lemma wait_while_done: "run_state c d = (False, d') \<Longrightarrow> wait_while c d = Some d'"
  by (subst wait_while.simps) simp

lemma wait_while_again: "run_state c d = (True, d') \<Longrightarrow> wait_while c d = wait_while c d'"
  by (subst wait_while.simps) simp

subsection \<open>The contract of the result codes\<close>

text \<open>\<open>dif_base.h\<close> promises that an operation that returns \<open>kDifBadArg\<close> performed no hardware
  operation. \<open>untouched P m\<close>: whenever the result of \<open>m\<close> satisfies \<open>P\<close>, the device is as before.
  A driver that satisfies it for every bus cannot have accessed the device, since a bus may
  record every access.\<close>

definition untouched :: "('a \<Rightarrow> bool) \<Rightarrow> ('d, 'a) state \<Rightarrow> bool" where
  "untouched P m \<longleftrightarrow> (\<forall>d. P (fst (run_state m d)) \<longrightarrow> snd (run_state m d) = d)"

lemma untouched_return [simp, intro]: "untouched P (ret x)"
  by (simp add: untouched_def)

lemma untouched_if [intro]: "untouched P m \<Longrightarrow> untouched P n \<Longrightarrow> untouched P (if c then m else n)"
  by simp

text \<open>An operation that cannot give such a result satisfies it trivially.\<close>

definition never :: "('a \<Rightarrow> bool) \<Rightarrow> ('d, 'a) state \<Rightarrow> bool" where
  "never P m \<longleftrightarrow> (\<forall>d. \<not> P (fst (run_state m d)))"

lemma never_untouched [intro]: "never P m \<Longrightarrow> untouched P m"
  by (simp add: untouched_def never_def)

lemma never_bind [intro]: "(\<And>x. never P (f x)) \<Longrightarrow> never P (State_Monad.bind m f)"
  by (simp add: never_def split_beta)

lemma never_return: "\<not> P x \<Longrightarrow> never P (ret x)"
  by (simp add: never_def)

lemma never_if [intro]: "never P m \<Longrightarrow> never P n \<Longrightarrow> never P (if c then m else n)"
  by simp

subsection \<open>Device models\<close>

text \<open>A device whose registers are reached by their offset from its base address: \<open>r x\<close> reads
  offset \<open>x\<close> and \<open>w x v\<close> writes it; byte accesses do nothing.\<close>

definition reg_bus :: "(u32 \<Rightarrow> 'd \<Rightarrow> u32 \<times> 'd) \<Rightarrow> (u32 \<Rightarrow> u32 \<Rightarrow> 'd \<Rightarrow> 'd) \<Rightarrow> u32 \<Rightarrow> 'd bus" where
  "reg_bus r w b = \<lparr>
     bus_read8 = (\<lambda>a d. (0, d)),
     bus_read32 = (\<lambda>a. r (a - b)),
     bus_write8 = (\<lambda>a v d. d),
     bus_write32 = (\<lambda>a. w (a - b))\<rparr>"

lemma run_reg_read [run_simps]:
  "x mod 4 = 0 \<Longrightarrow> run_state (rd32 (reg_bus r w (base (base_addr h))) h x) d = r x d"
  by (simp add: mmio_region_read32_def region_word word_of_idem reg_bus_def)

lemma run_reg_write [run_simps]:
  "x mod 4 = 0 \<Longrightarrow> run_state (wr32 (reg_bus r w (base (base_addr h))) h x v) d = ((), w x v d)"
  by (simp add: mmio_region_write32_def region_word word_of_idem reg_bus_def)

text \<open>A block of ordinary registers: its state is the value at each offset.\<close>

definition plain_bus :: "u32 \<Rightarrow> (u32 \<Rightarrow> u32) bus" where
  "plain_bus = reg_bus (\<lambda>x d. (d x, d)) (\<lambda>x v d. d(x := v))"

lemma run_plain_read [run_simps]:
  "x mod 4 = 0 \<Longrightarrow> run_state (rd32 (plain_bus (base (base_addr h))) h x) d = (d x, d)"
  by (simp add: plain_bus_def run_reg_read)

lemma run_plain_write [run_simps]:
  "x mod 4 = 0 \<Longrightarrow> run_state (wr32 (plain_bus (base (base_addr h))) h x v) d = ((), d(x := v))"
  by (simp add: plain_bus_def run_reg_write)

text \<open>Two halves of a 64-bit value.\<close>

definition word64 :: "u32 \<Rightarrow> u32 \<Rightarrow> u64" where
  "word64 upper lower = push_bit 32 (ucast upper) OR ucast lower"

lemma bit_word64: "bit (word64 u l) n \<longleftrightarrow> (if n < 32 then bit l n else n < 64 \<and> bit u (n - 32))"
  by (auto simp: word64_def bit_simps dest: bit_imp_le_length)

lemma unat_word64: "unat (word64 u l) = unat u * 2 ^ 32 + unat l"
proof -
  have "push_bit 32 (ucast u :: u64) AND ucast l = 0"
    by (rule bit_word_eqI) (auto simp: bit_simps dest: bit_imp_le_length)
  then have "word64 u l = push_bit 32 (ucast u) + ucast l"
    unfolding word64_def by (rule disjunctive_add_eq_or [symmetric])
  moreover have "unat (push_bit 32 (ucast u :: u64)) = unat u * 2 ^ 32"
    using unat_less_2p [of u] by (subst unat_push_bit) (simp_all add: unat_ucast_up)
  moreover have "unat (ucast l :: u64) = unat l" by (rule unat_ucast_up) simp
  ultimately show ?thesis
    using unat_less_2p [of u] unat_less_2p [of l] by (simp add: unat_word_ariths)
qed

lemma word64_eq_iff: "word64 u l = word64 u' l' \<longleftrightarrow> u = u' \<and> l = l'"
proof
  assume e: "word64 u l = word64 u' l'"
  have "bit u n = bit u' n" if "n < 32" for n
    using that bit_word64 [of u l "n + 32"] bit_word64 [of u' l' "n + 32"] e by simp
  moreover have "bit l n = bit l' n" if "n < 32" for n
    using that bit_word64 [of u l n] bit_word64 [of u' l' n] e by simp
  ultimately show "u = u' \<and> l = l'" by (auto intro: bit_word_eqI)
qed simp

lemma word64_halves: "word64 (ucast (drop_bit 32 w)) (ucast (w :: u64)) = w"
  by (rule bit_word_eqI) (auto simp: bit_word64 bit_simps)

end
