(* ===== verification/BaseMath.thy ===== *)
theory BaseMath
  imports Prelude
begin

section \<open>64-bit division by shifting\<close>

text \<open>
  \<^verbatim>\<open>sw/device/lib/base/math.c\<close> and \<^verbatim>\<open>math.h\<close>: the schoolbook division that replaces the
  compiler's 64-bit division, and the rounding-up division of \<open>size_t\<close>. The loop of
  \<open>udiv64_slow\<close> is recursion on the number of bits still to bring down, so that with \<open>k\<close>
  bits to go after this one the code's \<open>bits - i - 1\<close> is \<open>k\<close>.
\<close>

fun udiv64_loop :: "u64 \<Rightarrow> u64 \<Rightarrow> nat \<Rightarrow> u64 \<Rightarrow> u64 \<Rightarrow> u64 \<times> u64" where
  "udiv64_loop a b 0 quot rem = (quot, rem)"
| "udiv64_loop a b (Suc k) quot rem =
     (let rem = push_bit 1 rem;
          quot = push_bit 1 quot;
          rem = rem OR (drop_bit k a AND 1)
      in if b \<le> rem then udiv64_loop a b k (quot OR 1) (rem - b)
         else udiv64_loop a b k quot rem)"

definition udiv64_slow :: "u64 \<Rightarrow> u64 \<Rightarrow> u64 ptr \<Rightarrow> u64 \<times> u64 ptr" where
  "udiv64_slow a b rem_out =
     (case udiv64_loop a b 64 0 0 of (quot, rem) \<Rightarrow>
        (quot, if rem_out \<noteq> null then Some rem else null))"

definition ceil_div :: "u32 \<Rightarrow> u32 \<Rightarrow> u32" where
  "ceil_div a b = (let out = a div b in if a mod b \<noteq> 0 then out + 1 else out)"

subsection \<open>The loop computes quotient and remainder of the bits brought down\<close>

lemma unat_shift_in_bit:
  fixes r a :: u64
  assumes "2 * unat r + 1 < 2 ^ 64"
  shows "unat (push_bit 1 r OR (drop_bit k a AND 1)) = 2 * unat r + unat a div 2 ^ k mod 2"
proof -
  have "push_bit 1 r AND (drop_bit k a AND 1) = 0"
    by (rule bit_word_eqI) (simp only: bit_and_iff bit_push_bit_iff bit_1_iff bit_0_eq bot_apply, auto)
  then have "push_bit 1 r OR (drop_bit k a AND 1) = push_bit 1 r + (drop_bit k a AND 1)"
    by (rule disjunctive_add_eq_or [symmetric])
  moreover have "unat (push_bit 1 r) = 2 * unat r"
    using assms unat_push_bit [of r 1] by simp
  moreover have "unat (drop_bit k a AND 1) = unat a div 2 ^ k mod 2"
    by (simp add: and_one_eq unat_drop_bit unat_mod_distrib)
  ultimately show ?thesis
    using assms by (simp add: unat_word_ariths mod_less add_mono)
qed

lemma div_mod_step:
  fixes p b c :: nat
  assumes "0 < b" "c < 2"
  defines "r \<equiv> 2 * (p mod b) + c"
  shows "b \<le> r \<Longrightarrow> (2 * p + c) div b = 2 * (p div b) + 1 \<and> (2 * p + c) mod b = r - b"
    and "\<not> b \<le> r \<Longrightarrow> (2 * p + c) div b = 2 * (p div b) \<and> (2 * p + c) mod b = r"
proof -
  have p: "2 * p + c = 2 * (p div b) * b + r"
    unfolding r_def by (metis add.assoc add_mult_distrib2 mult.assoc mult_div_mod_eq mult.commute)
  have "p mod b < b" using assms(1) by simp
  then have "r < 2 * b" using assms(2) unfolding r_def by linarith
  show "(2 * p + c) div b = 2 * (p div b) + 1 \<and> (2 * p + c) mod b = r - b" if "b \<le> r"
  proof -
    obtain m where m: "m = 2 * (p div b) + 1" by simp
    from that obtain d where d: "r = b + d" by (auto simp: le_iff_add)
    with p m have "2 * p + c = m * b + d" by (simp add: algebra_simps)
    moreover from d \<open>r < 2 * b\<close> have "d < b" by simp
    ultimately have "(2 * p + c) div b = m \<and> (2 * p + c) mod b = d" by simp
    with d m show ?thesis by simp
  qed
  from \<open>r < 2 * b\<close> show "\<not> b \<le> r \<Longrightarrow> (2 * p + c) div b = 2 * (p div b) \<and> (2 * p + c) mod b = r"
    using assms(1) unfolding p by simp
qed

lemma udiv64_loop_correct:
  assumes "b \<noteq> 0" "k \<le> 64"
    and "unat quot = unat a div 2 ^ k div unat b" "unat rem = unat a div 2 ^ k mod unat b"
  shows "udiv64_loop a b k quot rem = (a div b, a mod b)"
  using assms(2-)
proof (induction k arbitrary: quot rem)
  case 0
  then show ?case by (simp add: word_unat_eq_iff unat_div_distrib unat_mod_distrib)
next
  case (Suc k)
  let ?p = "unat a div 2 ^ Suc k"
  let ?rem = "push_bit 1 rem OR (drop_bit k a AND 1)"
  have b: "0 < unat b" using assms(1) by (simp add: unat_gt_0)
  obtain c where c: "c = unat a div 2 ^ k mod 2" by simp
  then have c2: "c < 2" and p: "unat a div 2 ^ k = 2 * ?p + c"
    by (simp_all add: div_mult2_eq mult.commute [of 2])
  have "unat a < 2 ^ 63 * 2 ^ Suc k"
    using unat_less_2p [of a] by (simp add: power_add [symmetric] less_le_trans)
  then have p63: "?p < 2 ^ 63"
    by (rule less_mult_imp_div_less)
  then have r63: "unat rem < 2 ^ 63" and q63: "unat quot < 2 ^ 63"
    using Suc.prems(2,3) mod_less_eq_dividend [of ?p "unat b"] div_le_dividend [of ?p "unat b"]
    by linarith+
  have rem: "unat ?rem = 2 * (?p mod unat b) + c"
    using unat_shift_in_bit [of rem k a] r63 Suc.prems(3) by (simp add: c)
  have q0: "unat (push_bit 1 quot) = 2 * (?p div unat b)"
    using unat_push_bit [of quot 1] q63 Suc.prems(2) by simp
  have q1: "unat (push_bit 1 quot OR 1) = 2 * (?p div unat b) + 1"
    using unat_shift_in_bit [of quot 0 1] q63 Suc.prems(2) by simp
  show ?case
  proof (cases "b \<le> ?rem")
    case True
    then have sub: "unat (?rem - b) = unat ?rem - unat b" by (rule unat_sub)
    from True have "unat b \<le> 2 * (?p mod unat b) + c" by (simp only: word_le_nat_alt rem)
    note step = div_mod_step(1) [OF b c2 this]
    have "udiv64_loop a b k (push_bit 1 quot OR 1) (?rem - b) = (a div b, a mod b)"
    proof (rule Suc.IH)
      show "unat (push_bit 1 quot OR 1) = unat a div 2 ^ k div unat b"
        unfolding p q1 using step by (rule conjunct1 [THEN sym])
      show "unat (?rem - b) = unat a div 2 ^ k mod unat b"
        unfolding p sub rem using step by (rule conjunct2 [THEN sym])
    qed (use Suc.prems(1) in simp)
    with True show ?thesis by (simp add: Let_def)
  next
    case False
    then have "\<not> unat b \<le> 2 * (?p mod unat b) + c" unfolding word_le_nat_alt rem .
    note step = div_mod_step(2) [OF b c2 this]
    have "udiv64_loop a b k (push_bit 1 quot) ?rem = (a div b, a mod b)"
    proof (rule Suc.IH)
      show "unat (push_bit 1 quot) = unat a div 2 ^ k div unat b"
        unfolding p q0 using step by (rule conjunct1 [THEN sym])
      show "unat ?rem = unat a div 2 ^ k mod unat b"
        unfolding p rem using step by (rule conjunct2 [THEN sym])
    qed (use Suc.prems(1) in simp)
    with False show ?thesis by (simp add: Let_def)
  qed
qed

text \<open>The zero divisor: every comparison succeeds, as the comment of the code says.\<close>

lemma udiv64_loop_zero:
  assumes "k \<le> 64" "unat rem = unat a div 2 ^ k"
  shows "snd (udiv64_loop a 0 k quot rem) = a"
  using assms
proof (induction k arbitrary: quot rem)
  case 0
  then show ?case by (simp add: word_unat_eq_iff)
next
  case (Suc k)
  let ?rem = "push_bit 1 rem OR (drop_bit k a AND 1)"
  have "unat a < 2 ^ 63 * 2 ^ Suc k"
    using unat_less_2p [of a] by (simp add: power_add [symmetric] less_le_trans)
  then have "unat rem < 2 ^ 63" unfolding Suc.prems(2) by (rule less_mult_imp_div_less)
  then have "unat ?rem = 2 * (unat a div 2 ^ Suc k) + unat a div 2 ^ k mod 2"
    using unat_shift_in_bit [of rem k a] Suc.prems(2) by simp
  also have "\<dots> = unat a div 2 ^ k"
    by (simp add: div_mult2_eq mult.commute [of 2])
  finally have "snd (udiv64_loop a 0 k (push_bit 1 quot OR 1) ?rem) = a"
    using Suc.prems(1) by (intro Suc.IH) simp_all
  then show ?case by (simp add: Let_def)
qed

lemma udiv64_loop_zero_quot: "fst (udiv64_loop a 0 k quot rem) = push_bit k quot OR mask k"
proof (induction k arbitrary: quot rem)
  case (Suc k)
  have "push_bit k (push_bit 1 quot OR 1) OR mask k = push_bit (Suc k) quot OR mask (Suc k)"
    by (rule bit_word_eqI)
      (auto simp only: bit_or_iff bit_push_bit_iff bit_1_iff bit_mask_iff less_Suc_eq, simp_all)
  then show ?case by (simp add: Let_def Suc.IH)
qed simp

subsection \<open>Properties\<close>

lemma udiv64_slow_some:
  assumes "b \<noteq> 0"
  shows "udiv64_slow a b (Some r) = (a div b, Some (a mod b))"
  using udiv64_loop_correct [OF assms, of 64 0 a 0] unat_less_2p [of a]
  by (simp add: udiv64_slow_def)

lemma udiv64_slow_null:
  assumes "b \<noteq> 0"
  shows "udiv64_slow a b null = (a div b, null)"
  using udiv64_loop_correct [OF assms, of 64 0 a 0] unat_less_2p [of a]
  by (simp add: udiv64_slow_def)

text \<open>C6: For every non-zero divisor, the shift-and-subtract division returns exactly the
  64-bit quotient and, through a non-null out-pointer, the remainder; a null out-pointer is
  left null.\<close>

theorem udiv64_slow_correct:
  assumes "b \<noteq> 0"
  shows "udiv64_slow a b (Some r) = (a div b, Some (a mod b)) \<and>
    udiv64_slow a b null = (a div b, null)"
  using udiv64_slow_some [OF assms] udiv64_slow_null [OF assms] by simp

theorem udiv64_slow_correct_witness:
  "udiv64_slow 1000000000000 7 (Some 0) = (142857142857, Some 1)"
  using udiv64_slow_correct [of 7 1000000000000 0] by simp

text \<open>A zero divisor does not loop: the quotient is all ones and the remainder is the
  dividend, as the comment in the code promises.\<close>

lemma udiv64_slow_zero: "udiv64_slow a 0 (Some r) = (- 1, Some a)"
proof -
  have "udiv64_loop a 0 64 0 0 = (mask 64, a)"
    using udiv64_loop_zero [of 64 0 a 0] udiv64_loop_zero_quot [of a 64 0 0] unat_less_2p [of a]
    by (simp add: prod_eq_iff)
  then show ?thesis by (simp add: udiv64_slow_def mask_eq_decr_exp)
qed

lemma ceil_div_correct:
  assumes "b \<noteq> 0"
  shows "unat (ceil_div a b) = (unat a + unat b - 1) div unat b"
proof -
  have b: "0 < unat b" using assms by (simp add: unat_gt_0)
  show ?thesis
  proof (cases "unat a mod unat b = 0")
    case True
    then have "unat b dvd unat a" by auto
    then obtain q where "unat a = q * unat b" by (metis dvdE mult.commute)
    moreover have "(q * unat b + unat b - 1) div unat b = q"
      using b by (simp add: div_nat_eqI algebra_simps)
    ultimately show ?thesis
      using True b by (simp add: ceil_div_def word_unat_eq_iff unat_div_distrib unat_mod_distrib)
  next
    case False
    define r where "r = unat a mod unat b"
    have r: "0 < r" "r < unat b" using False b by (simp_all add: r_def)
    have a: "unat a = unat a div unat b * unat b + r" by (simp add: r_def)
    from r have "2 \<le> unat b" by simp
    then have "unat a div unat b \<le> unat a div 2" by (simp add: div_le_mono2)
    then have "unat a div unat b + 1 < 2 ^ 32"
      using unat_less_2p [of a] by simp
    then have "unat (a div b + 1) = unat a div unat b + 1"
      by (simp add: unat_word_ariths unat_div_distrib)
    moreover have "(unat a + unat b - 1) div unat b = unat a div unat b + 1"
    proof -
      obtain q where q: "q = unat a div unat b" by simp
      with a have "unat a + unat b - 1 = (q + 1) * unat b + (r - 1)"
        using r by (simp add: algebra_simps)
      moreover have "((q + 1) * unat b + (r - 1)) div unat b = q + 1"
        using r by (intro div_nat_eqI) (simp_all add: algebra_simps)
      ultimately have "(unat a + unat b - 1) div unat b = q + 1" by simp
      with q show ?thesis by simp
    qed
    ultimately show ?thesis
      using False by (simp add: ceil_div_def word_unat_eq_iff unat_mod_distrib)
  qed
qed

end
