(* ===== verification/Uart.thy ===== *)
theory Uart
  imports DifBase BaseMath
begin

section \<open>UART driver\<close>

text \<open>
  \<^verbatim>\<open>sw/device/lib/dif/dif_uart.c\<close>. The driver keeps no state of its own: every operation reads
  and writes registers. The data buffers are lists of bytes that hold at least the number of
  bytes requested. The polled operations busy-wait and are functions to \<open>option\<close>: \<open>None\<close> is
  waiting forever. The second half builds a UART with its two FIFOs behind the bus.
\<close>

type_synonym dif_uart = dif_handle

datatype dif_uart_parity = kDifUartParityOdd | kDifUartParityEven

datatype dif_uart_watermark =
    kDifUartWatermarkByte1 | kDifUartWatermarkByte2 | kDifUartWatermarkByte4
  | kDifUartWatermarkByte8 | kDifUartWatermarkByte16 | kDifUartWatermarkByte32
  | kDifUartWatermarkByte62 | kDifUartWatermarkOther u32

datatype dif_uart_datapath =
    kDifUartDatapathRx | kDifUartDatapathTx | kDifUartDatapathAll | kDifUartDatapathOther u32

datatype dif_uart_loopback = kDifUartLoopbackSystem | kDifUartLoopbackLine

type_synonym dif_uart_rx_break_level = u32

record dif_uart_config =
  baudrate :: u32
  clk_freq_hz :: u32
  parity_enable :: dif_toggle
  parity :: dif_uart_parity
  tx_enable :: dif_toggle
  rx_enable :: dif_toggle
  rx_break_level :: dif_uart_rx_break_level

definition UART_INTR_STATE_MASK :: u32 where
  "UART_INTR_STATE_MASK = 0xffffffff"

definition kDifUartFifoSizeBytes :: u32 where
  "kDifUartFifoSizeBytes = 32"

subsection \<open>FIFO accesses\<close>

definition uart_tx_full :: "'d bus \<Rightarrow> dif_uart \<Rightarrow> ('d, bool) state" where
  "uart_tx_full B uart = do {
     reg \<leftarrow> rd32 B uart UART_STATUS_REG_OFFSET;
     ret (bitfield_bit32_read reg UART_STATUS_TXFULL_BIT)
   }"

definition uart_tx_idle :: "'d bus \<Rightarrow> dif_uart \<Rightarrow> ('d, bool) state" where
  "uart_tx_idle B uart = do {
     reg \<leftarrow> rd32 B uart UART_STATUS_REG_OFFSET;
     ret (bitfield_bit32_read reg UART_STATUS_TXIDLE_BIT)
   }"

definition uart_rx_empty :: "'d bus \<Rightarrow> dif_uart \<Rightarrow> ('d, bool) state" where
  "uart_rx_empty B uart = do {
     reg \<leftarrow> rd32 B uart UART_STATUS_REG_OFFSET;
     ret (bitfield_bit32_read reg UART_STATUS_RXEMPTY_BIT)
   }"

definition uart_rx_fifo_read :: "'d bus \<Rightarrow> dif_uart \<Rightarrow> ('d, u8) state" where
  "uart_rx_fifo_read B uart = do {
     reg \<leftarrow> rd32 B uart UART_RDATA_REG_OFFSET;
     ret (ucast (bitfield_field32_read reg UART_RDATA_RDATA_FIELD))
   }"

definition uart_tx_fifo_write :: "'d bus \<Rightarrow> dif_uart \<Rightarrow> u8 \<Rightarrow> ('d, unit) state" where
  "uart_tx_fifo_write B uart byte = do {
     let reg = bitfield_field32_write 0 UART_WDATA_WDATA_FIELD (ucast byte);
     wr32 B uart UART_WDATA_REG_OFFSET reg
   }"

definition uart_reset :: "'d bus \<Rightarrow> dif_uart \<Rightarrow> ('d, unit) state" where
  "uart_reset B uart = do {
     wr32 B uart UART_CTRL_REG_OFFSET 0;
     let reg = bitfield_bit32_write 0 UART_FIFO_CTRL_RXRST_BIT True;
     let reg = bitfield_bit32_write reg UART_FIFO_CTRL_TXRST_BIT True;
     wr32 B uart UART_FIFO_CTRL_REG_OFFSET reg;
     wr32 B uart UART_OVRD_REG_OFFSET 0;
     wr32 B uart UART_TIMEOUT_CTRL_REG_OFFSET 0;
     wr32 B uart UART_INTR_ENABLE_REG_OFFSET 0;
     wr32 B uart UART_INTR_STATE_REG_OFFSET UART_INTR_STATE_MASK
   }"

text \<open>The loops of \<open>uart_bytes_send\<close> and \<open>uart_bytes_receive\<close>: \<open>k\<close> is how many of the requested
  bytes are left, \<open>i\<close> how many are done.\<close>

fun uart_send_loop :: "'d bus \<Rightarrow> dif_uart \<Rightarrow> u8 list \<Rightarrow> nat \<Rightarrow> nat \<Rightarrow> ('d, nat) state" where
  "uart_send_loop B uart data 0 i = ret i"
| "uart_send_loop B uart data (Suc k) i = do {
     full \<leftarrow> uart_tx_full B uart;
     if full then ret i
     else do {
       uart_tx_fifo_write B uart (data ! i);
       uart_send_loop B uart data k (i + 1)
     }
   }"

definition uart_bytes_send :: "'d bus \<Rightarrow> dif_uart \<Rightarrow> u8 list \<Rightarrow> nat \<Rightarrow> ('d, nat) state" where
  "uart_bytes_send B uart data bytes_requested = uart_send_loop B uart data bytes_requested 0"

fun uart_receive_loop :: "'d bus \<Rightarrow> dif_uart \<Rightarrow> nat \<Rightarrow> nat \<Rightarrow> u8 list \<Rightarrow> ('d, nat \<times> u8 list) state" where
  "uart_receive_loop B uart 0 i data = ret (i, data)"
| "uart_receive_loop B uart (Suc k) i data = do {
     empty \<leftarrow> uart_rx_empty B uart;
     if empty then ret (i, data)
     else do {
       byte \<leftarrow> uart_rx_fifo_read B uart;
       uart_receive_loop B uart k (i + 1) (data[i := byte])
     }
   }"

definition uart_bytes_receive :: "'d bus \<Rightarrow> dif_uart \<Rightarrow> nat \<Rightarrow> u8 list \<Rightarrow> ('d, nat \<times> u8 list) state" where
  "uart_bytes_receive B uart bytes_requested data = uart_receive_loop B uart bytes_requested 0 data"

subsection \<open>Configuration\<close>

text \<open>The loop that counts the bits of the NCO mask.\<close>

function uart_nco_width :: "nat \<Rightarrow> u32 \<Rightarrow> u32" where
  "uart_nco_width i nco_width =
     (if i < 32 then uart_nco_width (i + 1) (nco_width + (drop_bit i UART_CTRL_NCO_MASK AND 1))
      else nco_width)"
  by pat_completeness auto
termination
  by (relation "measure (\<lambda>(i, _). 32 - i)") auto

declare uart_nco_width.simps [simp del]

definition uart_nco :: "dif_uart_config \<Rightarrow> u64" where
  "uart_nco config =
     (if baudrate config = 1500000 \<and> clk_freq_hz config = 24000000 then 0xffff
      else fst (udiv64_slow
        (push_bit (unat (uart_nco_width 0 0 + 4)) (ucast (baudrate config)))
        (ucast (clk_freq_hz config)) None))"

text \<open>The control register that \<open>dif_uart_configure\<close> composes.\<close>

definition uart_ctrl_reg :: "u32 \<Rightarrow> dif_uart_config \<Rightarrow> u32" where
  "uart_ctrl_reg nco_masked config =
     (let reg = 0;
          reg = bitfield_field32_write reg UART_CTRL_NCO_FIELD nco_masked;
          reg = bitfield_field32_write reg UART_CTRL_RXBLVL_FIELD (rx_break_level config);
          reg = (if dif_toggle_to_bool (tx_enable config)
            then bitfield_bit32_write reg UART_CTRL_TX_BIT True else reg);
          reg = (if dif_toggle_to_bool (rx_enable config)
            then bitfield_bit32_write reg UART_CTRL_RX_BIT True else reg);
          reg = (if parity_enable config = kDifToggleEnabled
            then bitfield_bit32_write reg UART_CTRL_PARITY_EN_BIT True else reg);
          reg = (if parity config = kDifUartParityOdd
            then bitfield_bit32_write reg UART_CTRL_PARITY_ODD_BIT True else reg)
      in reg)"

definition dif_uart_configure :: "'d bus \<Rightarrow> dif_uart ptr \<Rightarrow> dif_uart_config \<Rightarrow> ('d, dif_result) state" where
  "dif_uart_configure B uart config = (case uart of None \<Rightarrow> ret kDifBadArg | Some uart \<Rightarrow>
     if baudrate config = 0 \<or> clk_freq_hz config = 0
       \<or> \<not> dif_is_valid_toggle (tx_enable config) \<or> \<not> dif_is_valid_toggle (rx_enable config)
     then ret kDifBadArg
     else do {
       let nco = uart_nco config;
       let nco_masked = (ucast (nco AND ucast UART_CTRL_NCO_MASK) :: u32);
       if nco \<noteq> ucast nco_masked then ret kDifBadArg
       else do {
         let rxblvl = rx_break_level config;
         if rxblvl AND UART_CTRL_RXBLVL_MASK \<noteq> rxblvl then ret kDifBadArg
         else do {
           uart_reset B uart;
           wr32 B uart UART_CTRL_REG_OFFSET (uart_ctrl_reg nco_masked config);
           wr32 B uart UART_INTR_ENABLE_REG_OFFSET 0;
           ret kDifOk
         }
       }
     })"

definition dif_uart_rx_break_level_set ::
    "'d bus \<Rightarrow> dif_uart ptr \<Rightarrow> dif_uart_rx_break_level \<Rightarrow> ('d, dif_result) state" where
  "dif_uart_rx_break_level_set B uart level = (case uart of None \<Rightarrow> ret kDifBadArg | Some uart \<Rightarrow> do {
     reg \<leftarrow> rd32 B uart UART_CTRL_REG_OFFSET;
     let reg = bitfield_field32_write reg UART_CTRL_RXBLVL_FIELD level;
     wr32 B uart UART_CTRL_REG_OFFSET reg;
     ret kDifOk
   })"

text \<open>The two switches over the watermark levels; \<open>None\<close> is their default case.\<close>

definition uart_rx_watermark_value :: "dif_uart_watermark \<Rightarrow> u32 option" where
  "uart_rx_watermark_value watermark = (case watermark of
     kDifUartWatermarkByte1 \<Rightarrow> Some UART_FIFO_CTRL_RXILVL_VALUE_RXLVL1
   | kDifUartWatermarkByte2 \<Rightarrow> Some UART_FIFO_CTRL_RXILVL_VALUE_RXLVL2
   | kDifUartWatermarkByte4 \<Rightarrow> Some UART_FIFO_CTRL_RXILVL_VALUE_RXLVL4
   | kDifUartWatermarkByte8 \<Rightarrow> Some UART_FIFO_CTRL_RXILVL_VALUE_RXLVL8
   | kDifUartWatermarkByte16 \<Rightarrow> Some UART_FIFO_CTRL_RXILVL_VALUE_RXLVL16
   | kDifUartWatermarkByte32 \<Rightarrow> Some UART_FIFO_CTRL_RXILVL_VALUE_RXLVL32
   | kDifUartWatermarkByte62 \<Rightarrow> Some UART_FIFO_CTRL_RXILVL_VALUE_RXLVL62
   | _ \<Rightarrow> None)"

definition dif_uart_watermark_rx_set ::
    "'d bus \<Rightarrow> dif_uart ptr \<Rightarrow> dif_uart_watermark \<Rightarrow> ('d, dif_result) state" where
  "dif_uart_watermark_rx_set B uart watermark = (case uart of None \<Rightarrow> ret kDifBadArg | Some uart \<Rightarrow>
     (case uart_rx_watermark_value watermark of
        None \<Rightarrow> ret kDifError
      | Some value \<Rightarrow> do {
          reg \<leftarrow> rd32 B uart UART_FIFO_CTRL_REG_OFFSET;
          let reg = bitfield_field32_write reg UART_FIFO_CTRL_RXILVL_FIELD value;
          wr32 B uart UART_FIFO_CTRL_REG_OFFSET reg;
          ret kDifOk
        }))"

definition uart_tx_watermark_value :: "dif_uart_watermark \<Rightarrow> u32 option" where
  "uart_tx_watermark_value watermark = (case watermark of
     kDifUartWatermarkByte1 \<Rightarrow> Some UART_FIFO_CTRL_TXILVL_VALUE_TXLVL1
   | kDifUartWatermarkByte2 \<Rightarrow> Some UART_FIFO_CTRL_TXILVL_VALUE_TXLVL2
   | kDifUartWatermarkByte4 \<Rightarrow> Some UART_FIFO_CTRL_TXILVL_VALUE_TXLVL4
   | kDifUartWatermarkByte8 \<Rightarrow> Some UART_FIFO_CTRL_TXILVL_VALUE_TXLVL8
   | kDifUartWatermarkByte16 \<Rightarrow> Some UART_FIFO_CTRL_TXILVL_VALUE_TXLVL16
   | _ \<Rightarrow> None)"

definition dif_uart_watermark_tx_set ::
    "'d bus \<Rightarrow> dif_uart ptr \<Rightarrow> dif_uart_watermark \<Rightarrow> ('d, dif_result) state" where
  "dif_uart_watermark_tx_set B uart watermark = (case uart of None \<Rightarrow> ret kDifBadArg | Some uart \<Rightarrow>
     (case uart_tx_watermark_value watermark of
        None \<Rightarrow> ret kDifError
      | Some value \<Rightarrow> do {
          reg \<leftarrow> rd32 B uart UART_FIFO_CTRL_REG_OFFSET;
          let reg = bitfield_field32_write reg UART_FIFO_CTRL_TXILVL_FIELD value;
          wr32 B uart UART_FIFO_CTRL_REG_OFFSET reg;
          ret kDifOk
        }))"

definition dif_uart_set_enable ::
    "'d bus \<Rightarrow> dif_uart ptr \<Rightarrow> dif_uart_datapath \<Rightarrow> dif_toggle \<Rightarrow> ('d, dif_result) state" where
  "dif_uart_set_enable B uart datapath enabled = (case uart of None \<Rightarrow> ret kDifBadArg | Some uart \<Rightarrow>
     if \<not> dif_is_valid_toggle enabled then ret kDifBadArg
     else do {
       reg \<leftarrow> rd32 B uart UART_CTRL_REG_OFFSET;
       case (case datapath of
           kDifUartDatapathRx \<Rightarrow>
             Some (bitfield_bit32_write reg UART_CTRL_RX_BIT (dif_toggle_to_bool enabled))
         | kDifUartDatapathTx \<Rightarrow>
             Some (bitfield_bit32_write reg UART_CTRL_TX_BIT (dif_toggle_to_bool enabled))
         | kDifUartDatapathAll \<Rightarrow>
             Some (bitfield_bit32_write
               (bitfield_bit32_write reg UART_CTRL_RX_BIT (dif_toggle_to_bool enabled))
               UART_CTRL_TX_BIT (dif_toggle_to_bool enabled))
         | _ \<Rightarrow> None) of
         None \<Rightarrow> ret kDifBadArg
       | Some reg \<Rightarrow> do {
           wr32 B uart UART_CTRL_REG_OFFSET reg;
           ret kDifOk
         }
     })"

subsection \<open>Data transfer\<close>

definition dif_uart_bytes_send :: "'d bus \<Rightarrow> dif_uart ptr \<Rightarrow> u8 list ptr \<Rightarrow> u32 \<Rightarrow> u32 ptr
    \<Rightarrow> ('d, dif_result \<times> u32 ptr) state" where
  "dif_uart_bytes_send B uart data bytes_requested bytes_written = (case (uart, data) of
     (Some uart, Some data) \<Rightarrow> do {
       res \<leftarrow> uart_bytes_send B uart data (unat bytes_requested);
       ret (kDifOk, if bytes_written \<noteq> null then Some (of_nat res) else null)
     }
   | _ \<Rightarrow> ret (kDifBadArg, bytes_written))"

definition dif_uart_bytes_receive :: "'d bus \<Rightarrow> dif_uart ptr \<Rightarrow> u32 \<Rightarrow> u8 list ptr \<Rightarrow> u32 ptr
    \<Rightarrow> ('d, dif_result \<times> u8 list ptr \<times> u32 ptr) state" where
  "dif_uart_bytes_receive B uart bytes_requested data bytes_read = (case (uart, data) of
     (Some uart, Some data) \<Rightarrow> do {
       (res, data) \<leftarrow> uart_bytes_receive B uart (unat bytes_requested) data;
       ret (kDifOk, Some data, if bytes_read \<noteq> null then Some (of_nat res) else null)
     }
   | _ \<Rightarrow> ret (kDifBadArg, data, bytes_read))"

definition dif_uart_byte_send_polled ::
    "'d bus \<Rightarrow> dif_uart ptr \<Rightarrow> u8 \<Rightarrow> 'd \<Rightarrow> (dif_result \<times> 'd) option" where
  "dif_uart_byte_send_polled B uart byte d = (case uart of None \<Rightarrow> Some (kDifBadArg, d) | Some uart \<Rightarrow> do {
     d \<leftarrow> wait_while (uart_tx_full B uart) d;
     let (_, d) = run_state (uart_bytes_send B uart [byte] 1) d;
     d \<leftarrow> wait_while (do { idle \<leftarrow> uart_tx_idle B uart; ret (\<not> idle) }) d;
     Some (kDifOk, d)
   })"

definition dif_uart_byte_receive_polled ::
    "'d bus \<Rightarrow> dif_uart ptr \<Rightarrow> u8 ptr \<Rightarrow> 'd \<Rightarrow> (dif_result \<times> u8 ptr \<times> 'd) option" where
  "dif_uart_byte_receive_polled B uart byte d = (case (uart, byte) of
     (Some uart, Some b) \<Rightarrow> do {
       d \<leftarrow> wait_while (uart_rx_empty B uart) d;
       let ((_, bs), d) = run_state (uart_bytes_receive B uart 1 [b]) d;
       Some (kDifOk, Some (bs ! 0), d)
     }
   | _ \<Rightarrow> Some (kDifBadArg, byte, d))"

definition dif_uart_rx_bytes_available ::
    "'d bus \<Rightarrow> dif_uart ptr \<Rightarrow> u32 ptr \<Rightarrow> ('d, dif_result \<times> u32 ptr) state" where
  "dif_uart_rx_bytes_available B uart num_bytes = (case (uart, num_bytes) of
     (Some uart, Some _) \<Rightarrow> do {
       reg \<leftarrow> rd32 B uart UART_FIFO_STATUS_REG_OFFSET;
       ret (kDifOk, Some (bitfield_field32_read reg UART_FIFO_STATUS_RXLVL_FIELD))
     }
   | _ \<Rightarrow> ret (kDifBadArg, num_bytes))"

definition dif_uart_tx_bytes_available ::
    "'d bus \<Rightarrow> dif_uart ptr \<Rightarrow> u32 ptr \<Rightarrow> ('d, dif_result \<times> u32 ptr) state" where
  "dif_uart_tx_bytes_available B uart num_bytes = (case (uart, num_bytes) of
     (Some uart, Some _) \<Rightarrow> do {
       reg \<leftarrow> rd32 B uart UART_FIFO_STATUS_REG_OFFSET;
       let fill_bytes = bitfield_field32_read reg UART_FIFO_STATUS_TXLVL_FIELD;
       ret (kDifOk, Some (kDifUartFifoSizeBytes - fill_bytes))
     }
   | _ \<Rightarrow> ret (kDifBadArg, num_bytes))"

definition dif_uart_fifo_reset ::
    "'d bus \<Rightarrow> dif_uart ptr \<Rightarrow> dif_uart_datapath \<Rightarrow> ('d, dif_result) state" where
  "dif_uart_fifo_reset B uart fifo = (case uart of None \<Rightarrow> ret kDifBadArg | Some uart \<Rightarrow> do {
     reg \<leftarrow> rd32 B uart UART_FIFO_CTRL_REG_OFFSET;
     case (case fifo of
         kDifUartDatapathRx \<Rightarrow> Some (bitfield_bit32_write reg UART_FIFO_CTRL_RXRST_BIT True)
       | kDifUartDatapathTx \<Rightarrow> Some (bitfield_bit32_write reg UART_FIFO_CTRL_TXRST_BIT True)
       | kDifUartDatapathAll \<Rightarrow>
           Some (bitfield_bit32_write (bitfield_bit32_write reg UART_FIFO_CTRL_RXRST_BIT True)
             UART_FIFO_CTRL_TXRST_BIT True)
       | _ \<Rightarrow> None) of
       None \<Rightarrow> ret kDifBadArg
     | Some reg \<Rightarrow> do {
         wr32 B uart UART_FIFO_CTRL_REG_OFFSET reg;
         ret kDifOk
       }
   })"

definition dif_uart_loopback_set ::
    "'d bus \<Rightarrow> dif_uart ptr \<Rightarrow> dif_uart_loopback \<Rightarrow> dif_toggle \<Rightarrow> ('d, dif_result) state" where
  "dif_uart_loopback_set B uart loopback enable = (case uart of None \<Rightarrow> ret kDifBadArg | Some uart \<Rightarrow> do {
     let index = (if loopback \<noteq> kDifUartLoopbackSystem then UART_CTRL_LLPBK_BIT else UART_CTRL_SLPBK_BIT);
     reg \<leftarrow> rd32 B uart UART_CTRL_REG_OFFSET;
     let reg = bitfield_bit32_write reg index (enable = kDifToggleEnabled);
     wr32 B uart UART_CTRL_REG_OFFSET reg;
     ret kDifOk
   })"

definition dif_uart_enable_rx_timeout ::
    "'d bus \<Rightarrow> dif_uart ptr \<Rightarrow> u32 \<Rightarrow> ('d, dif_result) state" where
  "dif_uart_enable_rx_timeout B uart duration_ticks = (case uart of None \<Rightarrow> ret kDifBadArg | Some uart \<Rightarrow>
     if duration_ticks AND NOT UART_TIMEOUT_CTRL_VAL_MASK \<noteq> 0 then ret kDifBadArg
     else do {
       let reg = bitfield_bit32_write 0 UART_TIMEOUT_CTRL_EN_BIT True;
       let reg = bitfield_field32_write reg UART_TIMEOUT_CTRL_VAL_FIELD duration_ticks;
       wr32 B uart UART_TIMEOUT_CTRL_REG_OFFSET reg;
       ret kDifOk
     })"

definition dif_uart_disable_rx_timeout :: "'d bus \<Rightarrow> dif_uart ptr \<Rightarrow> ('d, dif_result) state" where
  "dif_uart_disable_rx_timeout B uart = (case uart of None \<Rightarrow> ret kDifBadArg | Some uart \<Rightarrow> do {
     let reg = bitfield_bit32_write 0 UART_TIMEOUT_CTRL_EN_BIT False;
     let reg = bitfield_field32_write reg UART_TIMEOUT_CTRL_VAL_FIELD 0;
     wr32 B uart UART_TIMEOUT_CTRL_REG_OFFSET reg;
     ret kDifOk
   })"

definition dif_uart_get_rx_timeout :: "'d bus \<Rightarrow> dif_uart ptr \<Rightarrow> dif_toggle ptr \<Rightarrow> u32 ptr
    \<Rightarrow> ('d, dif_result \<times> dif_toggle ptr \<times> u32 ptr) state" where
  "dif_uart_get_rx_timeout B uart status duration_ticks = (case (uart, status) of
     (Some uart, Some _) \<Rightarrow> do {
       reg \<leftarrow> rd32 B uart UART_TIMEOUT_CTRL_REG_OFFSET;
       let status = (if bitfield_bit32_read reg UART_TIMEOUT_CTRL_EN_BIT
         then kDifToggleEnabled else kDifToggleDisabled);
       let duration_ticks = (if duration_ticks \<noteq> null
         then Some (bitfield_field32_read reg UART_TIMEOUT_CTRL_VAL_FIELD) else null);
       ret (kDifOk, Some status, duration_ticks)
     }
   | _ \<Rightarrow> ret (kDifBadArg, status, duration_ticks))"

subsection \<open>The device behind the bus\<close>

text \<open>A UART as its register description gives it (\<^verbatim>\<open>uart.hjson\<close>): a 32-byte transmit FIFO that
  the transmitter empties onto the line, a 64-byte receive FIFO, and plain registers. Before
  every read of \<^verbatim>\<open>STATUS\<close> the transmitter has had time to shift out \<open>rate\<close> bytes; a write to
  \<^verbatim>\<open>WDATA\<close> while the FIFO is full is lost.\<close>

record uart_dev =
  tx_fifo :: "u8 list"
  tx_line :: "u8 list"
  rx_fifo :: "u8 list"
  uart_regs :: "u32 \<Rightarrow> u32"

definition uart_transmit :: "nat \<Rightarrow> uart_dev \<Rightarrow> uart_dev" where
  "uart_transmit rate d =
     d\<lparr>tx_line := tx_line d @ take rate (tx_fifo d), tx_fifo := drop rate (tx_fifo d)\<rparr>"

definition uart_status :: "uart_dev \<Rightarrow> u32" where
  "uart_status d =
     bitfield_bit32_write (bitfield_bit32_write (bitfield_bit32_write 0
       UART_STATUS_TXFULL_BIT (32 \<le> length (tx_fifo d)))
       UART_STATUS_TXIDLE_BIT (tx_fifo d = []))
       UART_STATUS_RXEMPTY_BIT (rx_fifo d = [])"

definition uart_bus :: "u32 \<Rightarrow> nat \<Rightarrow> uart_dev bus" where
  "uart_bus b rate = \<lparr>
     bus_read8 = (\<lambda>a d. (0, d)),
     bus_read32 = (\<lambda>a d.
       if a = b + UART_STATUS_REG_OFFSET then let d = uart_transmit rate d in (uart_status d, d)
       else if a = b + UART_RDATA_REG_OFFSET then
         (case rx_fifo d of [] \<Rightarrow> (0, d) | x # xs \<Rightarrow> (ucast x, d\<lparr>rx_fifo := xs\<rparr>))
       else (uart_regs d (a - b), d)),
     bus_write8 = (\<lambda>a v d. d),
     bus_write32 = (\<lambda>a v d.
       if a = b + UART_WDATA_REG_OFFSET then
         (if length (tx_fifo d) < 32 then d\<lparr>tx_fifo := tx_fifo d @ [ucast v]\<rparr> else d)
       else if a = b + UART_FIFO_CTRL_REG_OFFSET then
         d\<lparr>tx_fifo := (if bitfield_bit32_read v UART_FIFO_CTRL_TXRST_BIT then [] else tx_fifo d),
           rx_fifo := (if bitfield_bit32_read v UART_FIFO_CTRL_RXRST_BIT then [] else rx_fifo d),
           uart_regs := (uart_regs d)(UART_FIFO_CTRL_REG_OFFSET := v)\<rparr>
       else d\<lparr>uart_regs := (uart_regs d)(a - b := v)\<rparr>)\<rparr>"

subsection \<open>The FIFO contract\<close>

text \<open>What the transfer operations rely on: \<open>sent\<close> is every byte accepted so far, \<open>level\<close> how
  many of them are still waiting, \<open>received\<close> the bytes not yet read.\<close>

locale uart_device =
  fixes B :: "'d bus" and uart :: dif_uart and sent received :: "'d \<Rightarrow> u8 list" and level :: "'d \<Rightarrow> nat"
  assumes status: "run_state (rd32 B uart UART_STATUS_REG_OFFSET) d = (v, d') \<Longrightarrow>
      (bitfield_bit32_read v UART_STATUS_TXFULL_BIT \<longleftrightarrow> 32 \<le> level d')
      \<and> (bitfield_bit32_read v UART_STATUS_TXIDLE_BIT \<longleftrightarrow> level d' = 0)
      \<and> (bitfield_bit32_read v UART_STATUS_RXEMPTY_BIT \<longleftrightarrow> received d' = [])
      \<and> sent d' = sent d \<and> received d' = received d \<and> level d' \<le> level d"
    and rdata: "received d = x # xs \<Longrightarrow>
      run_state (rd32 B uart UART_RDATA_REG_OFFSET) d = (v, d') \<Longrightarrow>
      ucast (bitfield_field32_read v UART_RDATA_RDATA_FIELD) = x
      \<and> received d' = xs \<and> sent d' = sent d \<and> level d' = level d"
    and wdata: "level d < 32 \<Longrightarrow>
      run_state (wr32 B uart UART_WDATA_REG_OFFSET (bitfield_field32_write 0 UART_WDATA_WDATA_FIELD (ucast y))) d
        = ((), d') \<Longrightarrow>
      sent d' = sent d @ [y] \<and> received d' = received d \<and> level d' = level d + 1"
begin

lemma tx_full:
  assumes "run_state (uart_tx_full B uart) d = (b, d')"
  shows "b \<longleftrightarrow> 32 \<le> level d'" "sent d' = sent d" "received d' = received d" "level d' \<le> level d"
  using assms status [of d] by (auto simp: uart_tx_full_def split: prod.splits)

lemma tx_idle:
  assumes "run_state (uart_tx_idle B uart) d = (b, d')"
  shows "b \<longleftrightarrow> level d' = 0" "sent d' = sent d" "received d' = received d" "level d' \<le> level d"
  using assms status [of d] by (auto simp: uart_tx_idle_def split: prod.splits)

lemma rx_empty:
  assumes "run_state (uart_rx_empty B uart) d = (b, d')"
  shows "b \<longleftrightarrow> received d = []" "sent d' = sent d" "received d' = received d" "level d' \<le> level d"
  using assms status [of d] by (auto simp: uart_rx_empty_def split: prod.splits)

lemma fifo_write:
  assumes "level d < 32" "run_state (uart_tx_fifo_write B uart y) d = ((), d')"
  shows "sent d' = sent d @ [y]" "received d' = received d" "level d' = level d + 1"
  using assms wdata [of d y d'] by (simp_all add: uart_tx_fifo_write_def)

lemma fifo_read:
  assumes "received d = x # xs" "run_state (uart_rx_fifo_read B uart) d = (y, d')"
  shows "y = x" "received d' = xs" "sent d' = sent d" "level d' = level d"
  using assms rdata [of d x xs] by (auto simp: uart_rx_fifo_read_def split: prod.splits)

lemma send_loop:
  assumes "run_state (uart_send_loop B uart data k i) d = (n, d')" "i + k \<le> length data"
  shows "i \<le> n \<and> n \<le> i + k \<and> sent d' = sent d @ take (n - i) (drop i data)
    \<and> received d' = received d \<and> (n < i + k \<longrightarrow> 32 \<le> level d')"
  using assms
proof (induction k arbitrary: i d)
  case (Suc k)
  obtain b d1 where f: "run_state (uart_tx_full B uart) d = (b, d1)" by fastforce
  show ?case
  proof (cases b)
    case True
    with Suc.prems f tx_full [OF f] show ?thesis by simp
  next
    case False
    then have "level d1 < 32" using tx_full(1) [OF f] by simp
    obtain d2 where w: "run_state (uart_tx_fifo_write B uart (data ! i)) d1 = ((), d2)"
      by (cases "run_state (uart_tx_fifo_write B uart (data ! i)) d1") auto
    note w2 = fifo_write [OF \<open>level d1 < 32\<close> w]
    have "run_state (uart_send_loop B uart data k (i + 1)) d2 = (n, d')"
      using Suc.prems(1) False f w by simp
    note IH = Suc.IH [OF this] 
    have "take (n - i) (drop i data) = data ! i # take (n - (i + 1)) (drop (i + 1) data)" if "i + 1 \<le> n"
      using Suc.prems(2) that by (simp add: take_Cons' Cons_nth_drop_Suc [symmetric] Suc_diff_Suc)
    with IH Suc.prems(2) w2 tx_full [OF f] show ?thesis by auto
  qed
qed simp

lemma receive_loop:
  assumes "run_state (uart_receive_loop B uart k i data) d = ((n, out), d')" "i + k \<le> length data"
  shows "n = i + min k (length (received d))
    \<and> out = take i data @ take (n - i) (received d) @ drop n data
    \<and> received d' = drop (n - i) (received d) \<and> sent d' = sent d"
  using assms
proof (induction k arbitrary: i d data)
  case (Suc k)
  obtain b d1 where f: "run_state (uart_rx_empty B uart) d = (b, d1)" by fastforce
  note e = rx_empty [OF f]
  show ?case
  proof (cases "received d")
    case Nil
    with Suc.prems f e show ?thesis by simp
  next
    case (Cons x xs)
    obtain y d2 where r: "run_state (uart_rx_fifo_read B uart) d1 = (y, d2)" by fastforce
    have "received d1 = x # xs" using Cons e by simp
    note r2 = fifo_read [OF this r]
    have "run_state (uart_receive_loop B uart k (i + 1) (data[i := x])) d2 = ((n, out), d')"
      using Suc.prems(1) Cons f e r r2 by simp
    note IH = Suc.IH [OF this] 
    with Suc.prems(2) have n: "n = i + 1 + min k (length xs)"
      and out: "out = take (i + 1) (data[i := x]) @ take (n - (i + 1)) xs @ drop n (data[i := x])"
      and d': "received d' = drop (n - (i + 1)) xs" "sent d' = sent d2"
      using r2 by simp_all
    have "take (i + 1) (data[i := x]) = take i data @ [x]" "drop n (data[i := x]) = drop n data"
      using Suc.prems(2) n by (simp_all add: take_Suc_conv_app_nth)
    moreover have "n - i = Suc (n - (i + 1))" using n by simp
    ultimately show ?thesis
      using n out d' Cons e r2 by (simp add: min_def)
  qed
qed simp

end

text \<open>A transmitter that keeps emptying its FIFO: then the busy waits end.\<close>

locale uart_draining = uart_device +
  assumes drain: "run_state (rd32 B uart UART_STATUS_REG_OFFSET) d = (v, d') \<Longrightarrow> level d' < level d \<or> level d' = 0"
begin

lemma wait_not_full:
  "\<exists>d'. wait_while (uart_tx_full B uart) d = Some d' \<and> level d' < 32
    \<and> sent d' = sent d \<and> received d' = received d"
proof (induction "level d" arbitrary: d rule: less_induct)
  case less
  obtain b d1 where f: "run_state (uart_tx_full B uart) d = (b, d1)" by fastforce
  note t = tx_full [OF f]
  show ?case
  proof (cases b)
    case True
    with t(1) have "level d1 < level d"
      using f drain [of d] by (fastforce simp: uart_tx_full_def split: prod.splits)
    from less [OF this] True f t show ?thesis by (auto simp: wait_while_again)
  next
    case False
    with f t show ?thesis by (auto simp: wait_while_done not_le)
  qed
qed

lemma wait_idle:
  "\<exists>d'. wait_while (do { idle \<leftarrow> uart_tx_idle B uart; ret (\<not> idle) }) d = Some d' \<and> level d' = 0
    \<and> sent d' = sent d \<and> received d' = received d"
proof (induction "level d" arbitrary: d rule: less_induct)
  case less
  let ?c = "do { idle \<leftarrow> uart_tx_idle B uart; ret (\<not> idle) }"
  obtain b d1 where f: "run_state (uart_tx_idle B uart) d = (b, d1)" by fastforce
  then have c: "run_state ?c d = (\<not> b, d1)" by simp
  note t = tx_idle [OF f]
  show ?case
  proof (cases b)
    case False
    with t(1) have "level d1 < level d"
      using f drain [of d] by (fastforce simp: uart_tx_idle_def split: prod.splits)
    from less [OF this] c False t show ?thesis by (auto simp: wait_while_again [of ?c])
  next
    case True
    with c t show ?thesis by (auto simp: wait_while_done [of ?c])
  qed
qed

lemma byte_send_polled:
  "\<exists>d'. dif_uart_byte_send_polled B (Some uart) byte d = Some (kDifOk, d') \<and> level d' = 0
    \<and> sent d' = sent d @ [byte] \<and> received d' = received d"
proof -
  obtain d1 where d1: "wait_while (uart_tx_full B uart) d = Some d1" "level d1 < 32"
    "sent d1 = sent d" "received d1 = received d"
    using wait_not_full by blast
  obtain n d2 where s: "run_state (uart_bytes_send B uart [byte] 1) d1 = (n, d2)" by fastforce
  then have s2: "run_state (uart_send_loop B uart [byte] (Suc 0) 0) d1 = (n, d2)"
    by (simp add: uart_bytes_send_def)
  obtain b d3 where f: "run_state (uart_tx_full B uart) d1 = (b, d3)" by fastforce
  note t = tx_full [OF f]
  with d1(2) have "\<not> b" by simp
  with s2 f obtain d4 where w: "run_state (uart_tx_fifo_write B uart byte) d3 = ((), d4)" and "d2 = d4"
    by (auto split: prod.splits)
  have "level d3 < 32" using t d1(2) by simp
  note w2 = fifo_write [OF this w]
  obtain d5 where "wait_while (do { idle \<leftarrow> uart_tx_idle B uart; ret (\<not> idle) }) d2 = Some d5" "level d5 = 0"
    "sent d5 = sent d2" "received d5 = received d2"
    using wait_idle by blast
  with d1 s t w2 \<open>d2 = d4\<close> show ?thesis
    by (simp add: dif_uart_byte_send_polled_def)
qed

end

text \<open>The modelled UART satisfies both contracts, the second when its transmitter runs.\<close>

lemma uart_status_bits:
  "bitfield_bit32_read (uart_status d) UART_STATUS_TXFULL_BIT \<longleftrightarrow> 32 \<le> length (tx_fifo d)"
  "bitfield_bit32_read (uart_status d) UART_STATUS_TXIDLE_BIT \<longleftrightarrow> tx_fifo d = []"
  "bitfield_bit32_read (uart_status d) UART_STATUS_RXEMPTY_BIT \<longleftrightarrow> rx_fifo d = []"
  by (simp_all add: uart_status_def bitfield_bit32_read_write)

lemma uart_bus_status:
  "run_state (rd32 (uart_bus (base (base_addr uart)) rate) uart UART_STATUS_REG_OFFSET) d =
    (uart_status (uart_transmit rate d), uart_transmit rate d)"
  by (simp add: mmio_region_read32_def uart_bus_def Let_def)

lemma ucast_byte_field: "(ucast (bitfield_field32_read (ucast (x :: u8)) \<lparr>field_mask = 0xff, field_index = 0\<rparr>) :: u8) = x"
  by (rule bit_word_eqI) (auto simp: bit_ucast_iff bit_field32_read)

lemma ucast_byte_field_write: "(ucast (bitfield_field32_write 0 \<lparr>field_mask = 0xff, field_index = 0\<rparr> (ucast (x :: u8))) :: u8) = x"
  by (rule bit_word_eqI) (auto simp: bit_ucast_iff bit_field32_write)

interpretation uart: uart_device "uart_bus (base (base_addr h)) rate" h "\<lambda>d. tx_line d @ tx_fifo d" rx_fifo
    "\<lambda>d. length (tx_fifo d)" for h rate
  apply unfold_locales
    apply (auto simp: uart_bus_status uart_status_bits uart_transmit_def)[1]
   apply (auto simp: mmio_region_read32_def uart_bus_def ucast_byte_field)[1]
  apply (auto simp: mmio_region_write32_def uart_bus_def ucast_byte_field_write)
  done

interpretation uart: uart_draining "uart_bus (base (base_addr h)) (Suc rate)" h "\<lambda>d. tx_line d @ tx_fifo d" rx_fifo
    "\<lambda>d. length (tx_fifo d)" for h rate
  by unfold_locales (auto simp: uart_bus_status uart_transmit_def)

subsection \<open>Transfers\<close>

text \<open>C11: Sending: on the modelled UART, whatever its FIFOs hold and however fast it transmits,
  \<open>dif_uart_bytes_send\<close> reports a number of bytes that is at most the number requested, exactly
  that prefix of the data follows what was sent before, in order, the receive side is
  untouched, and it stops short only because the FIFO is full. With a stopped transmitter the
  number is the free space.\<close>

theorem uart_send_in_order:
  assumes "unat k \<le> length data"
    "run_state (dif_uart_bytes_send (uart_bus (base (base_addr h)) rate) (Some h) (Some data) k (Some w)) d
       = ((r, n), d')"
  shows "\<exists>m. r = kDifOk \<and> n = Some m \<and> m \<le> k
    \<and> tx_line d' @ tx_fifo d' = tx_line d @ tx_fifo d @ take (unat m) data
    \<and> rx_fifo d' = rx_fifo d
    \<and> (m < k \<longrightarrow> 32 \<le> length (tx_fifo d'))"
proof -
  obtain res where r: "run_state (uart_send_loop (uart_bus (base (base_addr h)) rate) h data (unat k) 0) d = (res, d')"
    and n: "r = kDifOk" "n = Some (of_nat res)"
    using assms(2) by (auto simp: dif_uart_bytes_send_def uart_bytes_send_def split: prod.splits)
  note L = uart.send_loop [OF r] 
  with assms(1) have "res \<le> unat k" by simp
  then have "unat (of_nat res :: u32) = res" by (rule unat_of_nat_le)
  with n L assms(1) show ?thesis by (auto simp: word_le_nat_alt word_less_nat_alt)
qed


theorem uart_send_in_order_witness:
  "fst (run_state (dif_uart_bytes_send (uart_bus 0x40000000 1) (Some example_handle)
      (Some [1, 2, 3]) 2 (Some 0)) \<lparr>tx_fifo = [9], tx_line = [], rx_fifo = [7], uart_regs = (\<lambda>_. 0)\<rparr>)
    = (kDifOk, Some 2)"
proof -
  let ?d = "\<lparr>tx_fifo = [9], tx_line = [], rx_fifo = [7], uart_regs = (\<lambda>_. 0)\<rparr> :: uart_dev"
  let ?h = "example_handle :: dif_handle"
  let ?run = "run_state (dif_uart_bytes_send (uart_bus (base (base_addr ?h)) 1) (Some ?h) (Some [1, 2, 3]) 2 (Some 0)) ?d"
  obtain r n d' where run: "?run = ((r, n), d')" by (metis surj_pair)
  have "length (tx_fifo (snd ?run)) < 32" by code_simp
  with uart_send_in_order [OF _ run] run show ?thesis
    by auto
qed

text \<open>C12: Receiving: \<open>dif_uart_bytes_receive\<close> moves the oldest bytes of the receive FIFO, as many
  as are there and requested, to the front of the buffer, in order, keeps the rest of the
  buffer and of the FIFO, reports the number and does not disturb the transmit side.\<close>

theorem uart_receive_in_order:
  fixes k :: u32
  assumes "unat k \<le> length data"
    "run_state (dif_uart_bytes_receive (uart_bus (base (base_addr h)) rate) (Some h) k (Some data) (Some w)) d
       = ((r, out, n), d')"
  defines "m \<equiv> min (unat k) (length (rx_fifo d))"
  shows "r = kDifOk \<and> n = Some (of_nat m) \<and> out = Some (take m (rx_fifo d) @ drop m data)
    \<and> rx_fifo d' = drop m (rx_fifo d) \<and> tx_line d' @ tx_fifo d' = tx_line d @ tx_fifo d"
proof -
  obtain res out' where r: "run_state (uart_receive_loop (uart_bus (base (base_addr h)) rate) h (unat k) 0 data) d = ((res, out'), d')"
    and n: "r = kDifOk" "out = Some out'" "n = Some (of_nat res)"
    using assms(2) by (auto simp: dif_uart_bytes_receive_def uart_bytes_receive_def split: prod.splits)
  with uart.receive_loop [OF r] assms(1) show ?thesis by (simp add: m_def)
qed

theorem uart_receive_in_order_witness:
  "fst (run_state (dif_uart_bytes_receive (uart_bus 0x40000000 1) (Some example_handle)
      3 (Some [1, 2, 3]) (Some 0)) \<lparr>tx_fifo = [9], tx_line = [], rx_fifo = [7, 8], uart_regs = (\<lambda>_. 0)\<rparr>)
    = (kDifOk, Some [7, 8, 3], Some 2)"
proof -
  let ?d = "\<lparr>tx_fifo = [9], tx_line = [], rx_fifo = [7, 8], uart_regs = (\<lambda>_. 0)\<rparr> :: uart_dev"
  let ?h = "example_handle :: dif_handle"
  obtain r out n d' where run: "run_state (dif_uart_bytes_receive (uart_bus (base (base_addr ?h)) 1) (Some ?h) 3 (Some [1, 2, 3]) (Some 0)) ?d
    = ((r, out, n), d')" by (metis surj_pair)
  from uart_receive_in_order [OF _ run] run show ?thesis
    by simp
qed

text \<open>A wait whose condition holds for ever does not return.\<close>

lemma wait_while_forever:
  assumes "run_state c d = (True, d)"
  shows "wait_while c d = None"
proof (rule ccontr)
  assume "wait_while c d \<noteq> None"
  then obtain r where "wait_while c d = Some r" by blast
  then have "\<not> run_state c d = (True, d)"
    by (rule wait_while.raw_induct [rotated]) (auto split: prod.splits if_splits)
  with assms show False by simp
qed

text \<open>C13: The polled operations: with a running transmitter \<open>dif_uart_byte_send_polled\<close> returns,
  and then everything that was queued and the byte are on the line and the FIFO is empty;
  with a stopped one and a full FIFO it waits for ever. \<open>dif_uart_byte_receive_polled\<close> returns
  the oldest byte received, and waits for ever on a line that delivers nothing.\<close>

theorem uart_polled_transfers:
  "(\<exists>d'. dif_uart_byte_send_polled (uart_bus (base (base_addr h)) (Suc rate)) (Some h) byte d = Some (kDifOk, d')
      \<and> tx_fifo d' = [] \<and> tx_line d' = tx_line d @ tx_fifo d @ [byte] \<and> rx_fifo d' = rx_fifo d)
   \<and> (32 \<le> length (tx_fifo d) \<longrightarrow>
      dif_uart_byte_send_polled (uart_bus (base (base_addr h)) 0) (Some h) byte d = None)
   \<and> (rx_fifo d = x # xs \<longrightarrow>
      (\<exists>d'. dif_uart_byte_receive_polled (uart_bus (base (base_addr h)) rate) (Some h) (Some b) d = Some (kDifOk, Some x, d')
        \<and> rx_fifo d' = xs))
   \<and> (rx_fifo d = [] \<longrightarrow>
      dif_uart_byte_receive_polled (uart_bus (base (base_addr h)) 0) (Some h) (Some b) d = None)"
proof (intro conjI impI)
  show "\<exists>d'. dif_uart_byte_send_polled (uart_bus (base (base_addr h)) (Suc rate)) (Some h) byte d = Some (kDifOk, d')
    \<and> tx_fifo d' = [] \<and> tx_line d' = tx_line d @ tx_fifo d @ [byte] \<and> rx_fifo d' = rx_fifo d"
    using uart.byte_send_polled [where h = h and rate = rate and byte = byte and d = d] by auto
next
  assume "32 \<le> length (tx_fifo d)"
  moreover have "uart_transmit 0 d = d" by (simp add: uart_transmit_def)
  ultimately have "wait_while (uart_tx_full (uart_bus (base (base_addr h)) 0) h) d = None"
    by (intro wait_while_forever) (simp add: uart_tx_full_def uart_bus_status uart_status_bits)
  then show "dif_uart_byte_send_polled (uart_bus (base (base_addr h)) 0) (Some h) byte d = None"
    by (simp add: dif_uart_byte_send_polled_def)
next
  assume rx: "rx_fifo d = x # xs"
  let ?B = "uart_bus (base (base_addr h)) rate"
  obtain e d1 where f: "run_state (uart_rx_empty ?B h) d = (e, d1)" by fastforce
  note t = uart.rx_empty [OF f]
  with rx have "wait_while (uart_rx_empty ?B h) d = Some d1" using f by (simp add: wait_while_done)
  moreover obtain res out d2 where r: "run_state (uart_receive_loop ?B h 1 0 [b]) d1 = ((res, out), d2)"
    by (metis surj_pair)
  ultimately show "\<exists>d'. dif_uart_byte_receive_polled ?B (Some h) (Some b) d = Some (kDifOk, Some x, d')
    \<and> rx_fifo d' = xs"
    using uart.receive_loop [OF r] t rx by (simp add: dif_uart_byte_receive_polled_def uart_bytes_receive_def)
next
  assume "rx_fifo d = []"
  moreover have "uart_transmit 0 d = d" by (simp add: uart_transmit_def)
  ultimately have "wait_while (uart_rx_empty (uart_bus (base (base_addr h)) 0) h) d = None"
    by (intro wait_while_forever) (simp add: uart_rx_empty_def uart_bus_status uart_status_bits)
  then show "dif_uart_byte_receive_polled (uart_bus (base (base_addr h)) 0) (Some h) (Some b) d = None"
    by (simp add: dif_uart_byte_receive_polled_def)
qed


theorem uart_polled_transfers_witness:
  "dif_uart_byte_receive_polled (uart_bus 0x40000000 0) (Some example_handle) (Some 0)
     \<lparr>tx_fifo = [], tx_line = [], rx_fifo = [], uart_regs = (\<lambda>_. 0)\<rparr> = None
   \<and> dif_uart_byte_send_polled (uart_bus 0x40000000 0) (Some example_handle) 5
     \<lparr>tx_fifo = replicate 32 0, tx_line = [], rx_fifo = [], uart_regs = (\<lambda>_. 0)\<rparr> = None"
  using uart_polled_transfers [of example_handle 0 5
      "\<lparr>tx_fifo = [], tx_line = [], rx_fifo = [], uart_regs = (\<lambda>_. 0)\<rparr>" _ _ 0]
    uart_polled_transfers [of example_handle 0 5
      "\<lparr>tx_fifo = replicate 32 0, tx_line = [], rx_fifo = [], uart_regs = (\<lambda>_. 0)\<rparr>" _ _ 0]
  by simp

subsection \<open>Configuration of the device\<close>

lemma uart_nco_width_value: "uart_nco_width 0 0 = 16"
  by code_simp

lemma shift_baud: "unat (push_bit 20 (ucast (b :: u32) :: u64)) = unat b * 2 ^ 20"
proof -
  have "unat (ucast b :: u64) = unat b" by (simp add: unat_ucast_up)
  moreover have "unat b * 2 ^ 20 < 2 ^ 64" using unat_less_2p [of b] by simp
  ultimately show ?thesis using unat_push_bit [of "ucast b :: u64" 20] by simp
qed

text \<open>The requested numerically-controlled oscillator step: 2^20 * baud / clock rounded down,
  the documented special case aside.\<close>

lemma unat_uart_nco:
  assumes "clk_freq_hz config \<noteq> 0"
  shows "unat (uart_nco config) =
    (if baudrate config = 1500000 \<and> clk_freq_hz config = 24000000 then 0xffff
     else unat (baudrate config) * 2 ^ 20 div unat (clk_freq_hz config))"
proof -
  have c: "unat (ucast (clk_freq_hz config) :: u64) = unat (clk_freq_hz config)"
    by (simp add: unat_ucast_up)
  with assms have "ucast (clk_freq_hz config) \<noteq> (0 :: u64)"
    by (metis unat_eq_zero unsigned_0)
  from udiv64_slow_null [OF this] show ?thesis
    using shift_baud [of "baudrate config"] c
    by (simp add: uart_nco_def uart_nco_width_value unat_div_distrib del: push_bit_of_1)
qed


lemma uart_nco_mask: "nco = ucast (ucast (nco AND 0xffff) :: u32) \<longleftrightarrow> unat nco < 2 ^ 16" for nco :: u64
proof -
  have "ucast (ucast (nco AND 0xffff) :: u32) = nco AND 0xffff"
    by (rule bit_word_eqI) (auto simp: bit_ucast_iff bit_and_iff)
  then show ?thesis
    using and_mask_id_iff [of nco 16] by (auto simp: mask_eq_exp_minus_1)
qed

lemma rxblvl_mask: "l AND 3 = l \<longleftrightarrow> unat l < 4" for l :: u32
  using and_mask_id_iff [of l 2] by (simp add: mask_eq_exp_minus_1)

text \<open>The fields of the control register.\<close>

lemma dif_toggle_to_bool_iff: "dif_toggle_to_bool t \<longleftrightarrow> t = kDifToggleEnabled"
  by (cases t) (simp_all add: dif_toggle_to_bool_def)

lemma uart_ctrl_reg_fields:
  fixes nco :: u32
  assumes "unat nco < 2 ^ 16" "unat (rx_break_level config) < 4"
  shows "bitfield_field32_read (uart_ctrl_reg nco config) UART_CTRL_NCO_FIELD = nco"
    "bitfield_field32_read (uart_ctrl_reg nco config) UART_CTRL_RXBLVL_FIELD = rx_break_level config"
    "bitfield_bit32_read (uart_ctrl_reg nco config) UART_CTRL_TX_BIT \<longleftrightarrow> tx_enable config = kDifToggleEnabled"
    "bitfield_bit32_read (uart_ctrl_reg nco config) UART_CTRL_RX_BIT \<longleftrightarrow> rx_enable config = kDifToggleEnabled"
    "bitfield_bit32_read (uart_ctrl_reg nco config) UART_CTRL_PARITY_EN_BIT
      \<longleftrightarrow> parity_enable config = kDifToggleEnabled"
    "bitfield_bit32_read (uart_ctrl_reg nco config) UART_CTRL_PARITY_ODD_BIT
      \<longleftrightarrow> parity config = kDifUartParityOdd"
    "\<not> bitfield_bit32_read (uart_ctrl_reg nco config) UART_CTRL_SLPBK_BIT"
    "\<not> bitfield_bit32_read (uart_ctrl_reg nco config) UART_CTRL_LLPBK_BIT"
proof -
  have "nco AND 0xffff = nco" "rx_break_level config AND 3 = rx_break_level config"
    using and_mask_id_iff [of nco 16] and_mask_id_iff [of "rx_break_level config" 2] assms
    by (simp_all add: mask_eq_exp_minus_1)
  then show "bitfield_field32_read (uart_ctrl_reg nco config) UART_CTRL_NCO_FIELD = nco"
    "bitfield_field32_read (uart_ctrl_reg nco config) UART_CTRL_RXBLVL_FIELD = rx_break_level config"
    by (simp_all add: uart_ctrl_reg_def Let_def read_write_simps)
qed (simp_all add: uart_ctrl_reg_def Let_def read_write_simps dif_toggle_to_bool_iff)

lemma uart_bus_write_reg:
  assumes "x mod 4 = 0" "x \<noteq> UART_WDATA_REG_OFFSET" "x \<noteq> UART_FIFO_CTRL_REG_OFFSET"
  shows "run_state (wr32 (uart_bus (base (base_addr h)) rate) h x v) d = ((), d\<lparr>uart_regs := (uart_regs d)(x := v)\<rparr>)"
  using assms by (simp add: mmio_region_write32_def region_word word_of_idem uart_bus_def)

lemma uart_bus_write_fifo_ctrl:
  "run_state (wr32 (uart_bus (base (base_addr h)) rate) h UART_FIFO_CTRL_REG_OFFSET v) d = ((), d\<lparr>
     tx_fifo := (if bitfield_bit32_read v UART_FIFO_CTRL_TXRST_BIT then [] else tx_fifo d),
     rx_fifo := (if bitfield_bit32_read v UART_FIFO_CTRL_RXRST_BIT then [] else rx_fifo d),
     uart_regs := (uart_regs d)(UART_FIFO_CTRL_REG_OFFSET := v)\<rparr>)"
  by (simp add: mmio_region_write32_def uart_bus_def)

text \<open>The oscillator step that the documented formula asks for.\<close>

definition uart_ideal_nco :: "dif_uart_config \<Rightarrow> nat" where
  "uart_ideal_nco config =
    (if baudrate config = 1500000 \<and> clk_freq_hz config = 24000000 then 0xffff
     else unat (baudrate config) * 2 ^ 20 div unat (clk_freq_hz config))"

definition uart_config_ok :: "dif_uart_config \<Rightarrow> bool" where
  "uart_config_ok config \<longleftrightarrow> baudrate config \<noteq> 0 \<and> clk_freq_hz config \<noteq> 0
    \<and> dif_is_valid_toggle (tx_enable config) \<and> dif_is_valid_toggle (rx_enable config)
    \<and> uart_ideal_nco config < 2 ^ 16 \<and> unat (rx_break_level config) < 4"

lemma dif_uart_configure_cases:
  "\<exists>nco. dif_uart_configure B (Some h) config =
    (if uart_config_ok config then do {
        uart_reset B h;
        wr32 B h UART_CTRL_REG_OFFSET (uart_ctrl_reg nco config);
        wr32 B h UART_INTR_ENABLE_REG_OFFSET 0;
        ret kDifOk
      } else ret kDifBadArg)
    \<and> (uart_config_ok config \<longrightarrow> unat nco = uart_ideal_nco config)"
proof (cases "clk_freq_hz config = 0")
  case True
  then show ?thesis by (simp add: dif_uart_configure_def uart_config_ok_def)
next
  case clk: False
  let ?nco = "ucast (uart_nco config AND ucast UART_CTRL_NCO_MASK) :: u32"
  have u: "unat (uart_nco config) = uart_ideal_nco config"
    using clk by (simp add: unat_uart_nco uart_ideal_nco_def)
  then have c: "uart_nco config \<noteq> ucast ?nco \<longleftrightarrow> \<not> uart_ideal_nco config < 2 ^ 16"
    using uart_nco_mask [of "uart_nco config"] by simp
  have n: "unat ?nco = uart_ideal_nco config" if "uart_config_ok config"
  proof -
    have "unat (ucast ?nco :: u64) = unat ?nco" by (rule unat_ucast_up) simp
    with that u c show ?thesis by (metis uart_config_ok_def)
  qed
  note D = dif_uart_configure_def Let_def option.case
  have "dif_uart_configure B (Some h) config =
    (if uart_config_ok config then do {
        uart_reset B h;
        wr32 B h UART_CTRL_REG_OFFSET (uart_ctrl_reg ?nco config);
        wr32 B h UART_INTR_ENABLE_REG_OFFSET 0;
        ret kDifOk
      } else ret kDifBadArg)"
    unfolding D c rxblvl_mask uart_config_ok_def by auto
  with n show ?thesis by blast
qed

text \<open>C14: Configuring: the request is refused, leaving the device untouched, exactly when a
  frequency is zero, a toggle invalid, the break level out of range or the baud rate too high
  for the clock (the step 2^20 * baud / clock, rounded down, needs more than 16 bits; the
  comment's 1.5 MBd at 24 MHz is allowed with the largest step). Otherwise both FIFOs are
  emptied, all interrupts are disabled, loopbacks are off and the control register holds the
  step, the break level, the enables and the parity setting.\<close>

theorem uart_configure_correct:
  assumes "run_state (dif_uart_configure (uart_bus (base (base_addr h)) rate) (Some h) config) d = (r, d')"
  defines "ctrl \<equiv> uart_regs d' UART_CTRL_REG_OFFSET"
  shows "(r = kDifOk \<longleftrightarrow> uart_config_ok config)
    \<and> (r \<noteq> kDifOk \<longrightarrow> r = kDifBadArg \<and> d' = d)
    \<and> (r = kDifOk \<longrightarrow>
      unat (bitfield_field32_read ctrl UART_CTRL_NCO_FIELD) = uart_ideal_nco config
      \<and> bitfield_field32_read ctrl UART_CTRL_RXBLVL_FIELD = rx_break_level config
      \<and> (bitfield_bit32_read ctrl UART_CTRL_TX_BIT \<longleftrightarrow> tx_enable config = kDifToggleEnabled)
      \<and> (bitfield_bit32_read ctrl UART_CTRL_RX_BIT \<longleftrightarrow> rx_enable config = kDifToggleEnabled)
      \<and> (bitfield_bit32_read ctrl UART_CTRL_PARITY_EN_BIT \<longleftrightarrow> parity_enable config = kDifToggleEnabled)
      \<and> (bitfield_bit32_read ctrl UART_CTRL_PARITY_ODD_BIT \<longleftrightarrow> parity config = kDifUartParityOdd)
      \<and> \<not> bitfield_bit32_read ctrl UART_CTRL_SLPBK_BIT \<and> \<not> bitfield_bit32_read ctrl UART_CTRL_LLPBK_BIT
      \<and> tx_fifo d' = [] \<and> rx_fifo d' = [] \<and> tx_line d' = tx_line d
      \<and> uart_regs d' UART_INTR_ENABLE_REG_OFFSET = 0 \<and> uart_regs d' UART_TIMEOUT_CTRL_REG_OFFSET = 0)"
proof -
  let ?B = "uart_bus (base (base_addr h)) rate"
  obtain nco where eq: "dif_uart_configure ?B (Some h) config =
    (if uart_config_ok config then do {
        uart_reset ?B h;
        wr32 ?B h UART_CTRL_REG_OFFSET (uart_ctrl_reg nco config);
        wr32 ?B h UART_INTR_ENABLE_REG_OFFSET 0;
        ret kDifOk
      } else ret kDifBadArg)"
    and nco: "uart_config_ok config \<longrightarrow> unat nco = uart_ideal_nco config"
    using dif_uart_configure_cases by blast
  show ?thesis
  proof (cases "uart_config_ok config")
    case False
    with assms(1) eq show ?thesis by simp
  next
    case True
    then have lt: "unat nco < 2 ^ 16" "unat (rx_break_level config) < 4"
      using nco by (simp_all add: uart_config_ok_def)
    have "r = kDifOk \<and> ctrl = uart_ctrl_reg nco config \<and> tx_fifo d' = [] \<and> rx_fifo d' = [] \<and> tx_line d' = tx_line d
        \<and> uart_regs d' UART_INTR_ENABLE_REG_OFFSET = 0 \<and> uart_regs d' UART_TIMEOUT_CTRL_REG_OFFSET = 0"
      using assms(1) True unfolding eq ctrl_def
      by (auto simp: uart_reset_def Let_def uart_bus_write_reg uart_bus_write_fifo_ctrl bitfield_bit32_read_write)
    with True nco uart_ctrl_reg_fields [OF lt] show ?thesis by simp
  qed
qed

theorem uart_configure_correct_witness:
  defines "config \<equiv> \<lparr>baudrate = 115200, clk_freq_hz = 50000000, parity_enable = kDifToggleEnabled,
    parity = kDifUartParityEven, tx_enable = kDifToggleEnabled, rx_enable = kDifToggleDisabled, rx_break_level = 2\<rparr>"
  shows "bitfield_field32_read (uart_regs (snd (run_state (dif_uart_configure (uart_bus 0x40000000 0)
      (Some example_handle) config)
      \<lparr>tx_fifo = [], tx_line = [], rx_fifo = [1], uart_regs = (\<lambda>_. 0xffffffff)\<rparr>)) UART_CTRL_REG_OFFSET)
      UART_CTRL_NCO_FIELD = 2415"
proof -
  let ?h = "example_handle :: dif_handle"
  let ?d = "\<lparr>tx_fifo = [], tx_line = [], rx_fifo = [1], uart_regs = (\<lambda>_. 0xffffffff)\<rparr> :: uart_dev"
  let ?run = "run_state (dif_uart_configure (uart_bus (base (base_addr ?h)) 0) (Some ?h) config) ?d"
  obtain r d' where run: "?run = (r, d')" by (metis surj_pair)
  have "uart_config_ok config" "uart_ideal_nco config = 2415"
    by (simp_all add: config_def uart_config_ok_def uart_ideal_nco_def dif_is_valid_toggle_def)
  with uart_configure_correct [OF run]
  have "unat (bitfield_field32_read (uart_regs (snd ?run) UART_CTRL_REG_OFFSET) UART_CTRL_NCO_FIELD) = 2415"
    using run by (metis snd_conv)
  then show ?thesis by (simp add: word_unat_eq_iff)
qed

end
