(* ===== verification/Print.thy ===== *)
theory Print
  imports Status Uart
begin

section \<open>Formatted printing\<close>

text \<open>
  \<^verbatim>\<open>sw/device/lib/runtime/print.c\<close>. A sink is a C closure: a function that is given the bytes to
  write and returns how many it wrote, together with its data, which is the state here. A sink
  may wait for a device, so its result is an option. A C string is the list of its bytes
  without the terminator. The variable arguments are a list of values; reading a value that is
  missing, of the wrong kind or too short is undefined in C and has the result \<open>None\<close>.
\<close>

type_synonym 's sink = "u8 list \<Rightarrow> 's \<Rightarrow> (u32 \<times> 's) option"

datatype va_arg = Va_Word u32 | Va_Ptr "u8 list"

fun va_word :: "va_arg list \<Rightarrow> (u32 \<times> va_arg list) option" where
  "va_word (Va_Word w # args) = Some (w, args)"
| "va_word _ = None"

fun va_ptr :: "va_arg list \<Rightarrow> (u8 list \<times> va_arg list) option" where
  "va_ptr (Va_Ptr bs # args) = Some (bs, args)"
| "va_ptr _ = None"

abbreviation (input) "kPercent \<equiv> chr CHR ''%''"
abbreviation (input) "kCharacter \<equiv> chr CHR ''c''"
abbreviation (input) "kString \<equiv> chr CHR ''s''"
abbreviation (input) "kSignedDec1 \<equiv> chr CHR ''d''"
abbreviation (input) "kSignedDec2 \<equiv> chr CHR ''i''"
abbreviation (input) "kUnsignedOct \<equiv> chr CHR ''o''"
abbreviation (input) "kUnsignedHexLow \<equiv> chr CHR ''x''"
abbreviation (input) "kUnsignedHexHigh \<equiv> chr CHR ''X''"
abbreviation (input) "kUnsignedDec \<equiv> chr CHR ''u''"
abbreviation (input) "kPointer \<equiv> chr CHR ''p''"
abbreviation (input) "kSvBinary \<equiv> chr CHR ''b''"
abbreviation (input) "kSvHexLow \<equiv> chr CHR ''h''"
abbreviation (input) "kSvHexHigh \<equiv> chr CHR ''H''"
abbreviation (input) "kHexLeLow \<equiv> chr CHR ''y''"
abbreviation (input) "kHexLeHigh \<equiv> chr CHR ''Y''"
abbreviation (input) "kStatusResult \<equiv> chr CHR ''r''"
abbreviation (input) "kFourCC \<equiv> chr CHR ''C''"

definition kDigitsLow :: cstring where
  "kDigitsLow = str ''0123456789abcdef''"

definition kDigitsHigh :: cstring where
  "kDigitsHigh = str ''0123456789ABCDEF''"

definition kErrorNul :: cstring where
  "kErrorNul = str ''%<unexpected nul>''"

definition kUnknownSpec :: cstring where
  "kUnknownSpec = str ''%<unknown spec>''"

definition kErrorTooWide :: cstring where
  "kErrorTooWide = str ''%<bad width>''"

subsection \<open>Sinks\<close>

definition base_dev_null :: "'s sink" where
  "base_dev_null buf s = Some (of_nat (length buf), s)"

text \<open>The static \<open>base_stdout\<close> is the value \<open>base_set_stdout\<close> returns.\<close>

definition base_set_stdout :: "'s sink ptr \<Rightarrow> 's sink ptr" where
  "base_set_stdout out = (case out of None \<Rightarrow> Some base_dev_null | Some sink \<Rightarrow> Some sink)"

fun uart_sink_loop :: "'d bus \<Rightarrow> dif_uart ptr \<Rightarrow> u8 list \<Rightarrow> u32 \<Rightarrow> 'd \<Rightarrow> (u32 \<times> 'd) option" where
  "uart_sink_loop B uart [] i d = Some (i, d)"
| "uart_sink_loop B uart (b # bs) i d = do {
     (r, d) \<leftarrow> dif_uart_byte_send_polled B uart b d;
     if r \<noteq> kDifOk then Some (i, d) else uart_sink_loop B uart bs (i + 1) d
   }"

definition base_dev_uart :: "'d bus \<Rightarrow> dif_uart ptr \<Rightarrow> 'd sink" where
  "base_dev_uart B uart buf = uart_sink_loop B uart buf 0"

definition base_uart_stdout :: "'d bus \<Rightarrow> dif_uart ptr \<Rightarrow> 'd sink ptr" where
  "base_uart_stdout B uart = base_set_stdout (Some (base_dev_uart B uart))"

text \<open>The capture of \<open>base_snprintf\<close>: the next address to write, the bytes left and the memory.\<close>

record snprintf_captures =
  cap_buf :: addr
  cap_left :: u32
  cap_mem :: memory

definition snprintf_sink :: "snprintf_captures sink" where
  "snprintf_sink buf captures =
     (if cap_left captures = 0 then Some (0, captures)
      else let len = (if length buf > unat (cap_left captures) then unat (cap_left captures) else length buf)
           in Some (of_nat len, captures\<lparr>cap_buf := cap_buf captures + of_nat len,
                cap_left := cap_left captures - of_nat len,
                cap_mem := overlay (cap_mem captures) (cap_buf captures) (take len buf)\<rparr>))"

subsection \<open>Parsing a format\<close>

text \<open>The characters up to the next \<open>%\<close> or the end, and the rest; the boolean tells which.\<close>

fun percent_scan :: "cstring \<Rightarrow> nat \<Rightarrow> nat" where
  "percent_scan [] text_len = text_len"
| "percent_scan (c # cs) text_len = (if c = 0 \<or> c = kPercent then text_len else percent_scan cs (text_len + 1))"

definition consume_until_percent ::
    "'s sink \<Rightarrow> cstring \<Rightarrow> u32 \<Rightarrow> 's \<Rightarrow> (bool \<times> cstring \<times> u32 \<times> 's) option" where
  "consume_until_percent out format bytes_written s = do {
     let text_len = percent_scan format 0;
     let c = char_at format text_len;
     (bytes_written, s) \<leftarrow> (if text_len > 0 then do {
         (n, s) \<leftarrow> out (take text_len format) s;
         Some (bytes_written + n, s)
       } else Some (bytes_written, s));
     Some (c \<noteq> 0, drop text_len format, bytes_written, s)
   }"

record format_specifier =
  spec_type :: u8
  spec_width :: u32
  spec_padding :: u8
  spec_is_nonstd :: bool

text \<open>The loop over the digits of a width; \<open>None\<close> when the format ends there.\<close>

fun width_loop :: "cstring \<Rightarrow> u32 \<Rightarrow> u8 \<Rightarrow> (cstring \<times> u32 \<times> u8) option" where
  "width_loop [] width padding = None"
| "width_loop (c # cs) width padding =
     (if c = 0 then None
      else if c < chr CHR ''0'' \<or> c > chr CHR ''9'' then Some (c # cs, width, padding)
      else if padding = 0 \<and> c = chr CHR ''0'' then width_loop cs width (chr CHR ''0'')
      else let padding = (if padding = 0 then chr CHR '' '' else padding)
           in width_loop cs (width * 10 + ucast (c - chr CHR ''0'')) padding)"

definition consume_format_specifier ::
    "'s sink \<Rightarrow> cstring \<Rightarrow> u32 \<Rightarrow> 's \<Rightarrow> (format_specifier option \<times> cstring \<times> u32 \<times> 's) option" where
  "consume_format_specifier out format bytes_written s =
     (let format = drop 1 format;
          is_nonstd = (char_at format 0 = chr CHR ''!'');
          format = (if is_nonstd then drop 1 format else format)
      in case width_loop format 0 0 of
        None \<Rightarrow> do {
          (n, s) \<leftarrow> out kErrorNul s;
          Some (None, format, bytes_written + n, s)
        }
      | Some (rest, width, padding) \<Rightarrow>
          if width = 0 \<and> padding \<noteq> 0 \<or> width > 32 then do {
            (n, s) \<leftarrow> out kErrorTooWide s;
            Some (None, format, bytes_written + n, s)
          } else
            Some (Some \<lparr>spec_type = char_at rest 0, spec_width = width, spec_padding = padding,
                spec_is_nonstd = is_nonstd\<rparr>, drop 1 rest, bytes_written, s))"

subsection \<open>Numbers, status values and hex dumps\<close>

text \<open>The digits of a number, filled into the buffer from its end. No call uses a base below two.\<close>

function digit_loop :: "u32 \<Rightarrow> u32 \<Rightarrow> cstring \<Rightarrow> u8 list \<Rightarrow> u8 list" where
  "digit_loop value radix glyphs buffer =
     (if value > 0 \<and> radix \<ge> 2
      then let digit = value mod radix; value = value div radix
           in digit_loop value radix glyphs (glyphs ! unat digit # buffer)
      else buffer)"
  by auto
termination
  by (relation "measure (\<lambda>(value, radix, glyphs, buffer). unat value)")
    (auto simp: unat_div word_less_nat_alt word_le_nat_alt)

declare digit_loop.simps [simp del]

definition write_digits ::
    "'s sink \<Rightarrow> u32 \<Rightarrow> u32 \<Rightarrow> u8 \<Rightarrow> u32 \<Rightarrow> cstring \<Rightarrow> 's \<Rightarrow> (u32 \<times> 's) option" where
  "write_digits out value width padding radix glyphs s =
     (let buffer = (if value = 0 then [glyphs ! 0] else []);
          buffer = digit_loop value radix glyphs buffer;
          width = (if width = 0 then 1 else width);
          width = (if width > 32 then 32 else width);
          buffer = replicate (unat width - length buffer) padding @ buffer
      in out buffer s)"

definition write_status :: "'s sink \<Rightarrow> status \<Rightarrow> bool \<Rightarrow> 's \<Rightarrow> (u32 \<times> 's) option" where
  "write_status out value as_json s = (case status_extract value of (err, start, arg, mod_chars) \<Rightarrow> do {
     let mod_id = chr CHR 0x22 # (case mod_chars of Some (a, b, c) \<Rightarrow> [a, b, c] | None \<Rightarrow> [0, 0, 0])
       @ [chr CHR 0x22, chr CHR '','']; 
     let len = 0;
     (n, s) \<leftarrow> out (if as_json then [chr CHR ''{'', chr CHR 0x22] else []) s;
     let len = len + n;
     (n, s) \<leftarrow> out (str start) s;
     let len = len + n;
     (n, s) \<leftarrow> out (if as_json then [chr CHR 0x22] else []) s;
     let len = len + n;
     (n, s) \<leftarrow> out [chr CHR '':''] s;
     let len = len + n;
     (len, s) \<leftarrow> (if err then do {
         (n, s) \<leftarrow> out [chr CHR ''[''] s;
         let len = len + n;
         (n, s) \<leftarrow> out mod_id s;
         let len = len + n;
         (n, s) \<leftarrow> write_digits out arg 0 0 10 kDigitsLow s;
         let len = len + n;
         (n, s) \<leftarrow> out [chr CHR '']''] s;
         Some (len + n, s)
       } else do {
         (n, s) \<leftarrow> write_digits out arg 0 0 10 kDigitsLow s;
         Some (len + n, s)
       });
     (n, s) \<leftarrow> out (if as_json then [chr CHR ''}''] else []) s;
     Some (len + n, s)
   })"

text \<open>The padding of a hex dump, in pieces of at most 32 characters.\<close>

function hex_pad_loop :: "'s sink \<Rightarrow> u8 \<Rightarrow> u32 \<Rightarrow> u32 \<Rightarrow> 's \<Rightarrow> (u32 \<times> 's) option" where
  "hex_pad_loop out padding width bytes_written s =
     (if width > 0 then
        let to_write = (if width > 32 then 32 else width) in do {
          (n, s) \<leftarrow> out (replicate (unat to_write) padding) s;
          hex_pad_loop out padding (width - to_write) (bytes_written + n) s
        }
      else Some (bytes_written, s))"
  by auto
termination
  by (relation "measure (\<lambda>(out, padding, width, bytes_written, s). unat width)")
    (auto simp: unat_sub word_less_nat_alt word_le_nat_alt split: if_splits)

declare hex_pad_loop.simps [simp del]

text \<open>The digits of the bytes, given in the order they are printed, in pieces of 32 characters.\<close>

fun hex_loop :: "'s sink \<Rightarrow> cstring \<Rightarrow> u8 list \<Rightarrow> u8 list \<Rightarrow> u32 \<Rightarrow> 's \<Rightarrow> (u32 \<times> 's) option" where
  "hex_loop out glyphs [] buf bytes_written s =
     (if buf \<noteq> [] then do {
        (n, s) \<leftarrow> out buf s;
        Some (bytes_written + n, s)
      } else Some (bytes_written, s))"
| "hex_loop out glyphs (b # bs) buf bytes_written s =
     (let buf = buf @ [glyphs ! unat (drop_bit 4 b AND 0xf), glyphs ! unat (b AND 0xf)] in
      if length buf = 32 then do {
        (n, s) \<leftarrow> out buf s;
        hex_loop out glyphs bs [] (bytes_written + n) s
      } else hex_loop out glyphs bs buf bytes_written s)"

definition hex_dump ::
    "'s sink \<Rightarrow> u8 list \<Rightarrow> u32 \<Rightarrow> u32 \<Rightarrow> u8 \<Rightarrow> bool \<Rightarrow> cstring \<Rightarrow> 's \<Rightarrow> (u32 \<times> 's) option" where
  "hex_dump out bytes len width padding big_endian glyphs s =
     (if length bytes < unat len then None
      else do {
        (bytes_written, s) \<leftarrow> (if len < width then hex_pad_loop out padding (width - len) 0 s else Some (0, s));
        let bs = take (unat len) bytes;
        hex_loop out glyphs (if big_endian then rev bs else bs) [] bytes_written s
      })"

text \<open>The arguments of the four hex dump specifiers are a length and a pointer.\<close>

definition process_hex_dump ::
    "'s sink \<Rightarrow> format_specifier \<Rightarrow> bool \<Rightarrow> cstring \<Rightarrow> u32 \<Rightarrow> va_arg list \<Rightarrow> 's \<Rightarrow> (u32 \<times> va_arg list \<times> 's) option" where
  "process_hex_dump out spec big_endian glyphs bytes_written args s = do {
     (len, args) \<leftarrow> va_word args;
     (value, args) \<leftarrow> va_ptr args;
     (n, s) \<leftarrow> hex_dump out value len (spec_width spec) (spec_padding spec) big_endian glyphs s;
     Some (bytes_written + n, args, s)
   }"

definition process_digits ::
    "'s sink \<Rightarrow> format_specifier \<Rightarrow> u32 \<Rightarrow> cstring \<Rightarrow> u32 \<Rightarrow> va_arg list \<Rightarrow> 's \<Rightarrow> (u32 \<times> va_arg list \<times> 's) option" where
  "process_digits out spec radix glyphs bytes_written args s = do {
     (value, args) \<leftarrow> va_word args;
     (n, s) \<leftarrow> write_digits out value (spec_width spec) (spec_padding spec) radix glyphs s;
     Some (bytes_written + n, args, s)
   }"

fun fourcc_loop :: "'s sink \<Rightarrow> nat \<Rightarrow> u32 \<Rightarrow> u32 \<Rightarrow> 's \<Rightarrow> (u32 \<times> 's) option" where
  "fourcc_loop out 0 value bytes_written s = Some (bytes_written, s)"
| "fourcc_loop out (Suc i) value bytes_written s =
     (let ch = ucast value :: u8 in do {
        (bytes_written, s) \<leftarrow> (if ch \<ge> 32 \<and> ch < 127 then do {
            (n, s) \<leftarrow> out [ch] s;
            Some (bytes_written + n, s)
          } else do {
            (n, s) \<leftarrow> out [chr CHR 0x5c, chr CHR ''x''] s;
            let bytes_written = bytes_written + n;
            (n, s) \<leftarrow> out [kDigitsLow ! unat (drop_bit 4 ch)] s;
            let bytes_written = bytes_written + n;
            (n, s) \<leftarrow> out [kDigitsLow ! unat (ch AND 15)] s;
            Some (bytes_written + n, s)
          });
        fourcc_loop out i (drop_bit 8 value) bytes_written s
      })"

definition bad_spec :: "'s sink \<Rightarrow> u32 \<Rightarrow> va_arg list \<Rightarrow> 's \<Rightarrow> (u32 \<times> va_arg list \<times> 's) option" where
  "bad_spec out bytes_written args s = do {
     (n, s) \<leftarrow> out kUnknownSpec s;
     Some (bytes_written + n, args, s)
   }"

definition process_specifier ::
    "'s sink \<Rightarrow> format_specifier \<Rightarrow> u32 \<Rightarrow> va_arg list \<Rightarrow> 's \<Rightarrow> (u32 \<times> va_arg list \<times> 's) option" where
  "process_specifier out spec bytes_written args s =
     (let c = spec_type spec; nonstd = spec_is_nonstd spec in
      if c = kPercent then
        (if nonstd then bad_spec out bytes_written args s
         else do {
           (n, s) \<leftarrow> out [kPercent] s;
           Some (bytes_written + n, args, s)
         })
      else if c = kCharacter then
        (if nonstd then bad_spec out bytes_written args s
         else do {
           (value, args) \<leftarrow> va_word args;
           (n, s) \<leftarrow> out [ucast value] s;
           Some (bytes_written + n, args, s)
         })
      else if c = kFourCC then do {
        (value, args) \<leftarrow> va_word args;
        (bytes_written, s) \<leftarrow> fourcc_loop out 4 value bytes_written s;
        Some (bytes_written, args, s)
      }
      else if c = kString then
        (if nonstd then do {
           (len, args) \<leftarrow> va_word args;
           (value, args) \<leftarrow> va_ptr args;
           if length value < unat len then None
           else do {
             (n, s) \<leftarrow> out (take (unat len) value) s;
             Some (bytes_written + n, args, s)
           }
         } else do {
           (value, args) \<leftarrow> va_ptr args;
           (n, s) \<leftarrow> out (takeWhile (\<lambda>b. b \<noteq> 0) value) s;
           Some (bytes_written + n, args, s)
         })
      else if c = kSignedDec1 \<or> c = kSignedDec2 then
        (if nonstd then bad_spec out bytes_written args s
         else do {
           (value, args) \<leftarrow> va_word args;
           (bytes_written, value, s) \<leftarrow> (if sint value < 0 then do {
               (n, s) \<leftarrow> out [chr CHR ''-''] s;
               Some (bytes_written + n, - value, s)
             } else Some (bytes_written, value, s));
           (n, s) \<leftarrow> write_digits out value (spec_width spec) (spec_padding spec) 10 kDigitsLow s;
           Some (bytes_written + n, args, s)
         })
      else if c = kUnsignedOct then
        (if nonstd then bad_spec out bytes_written args s
         else process_digits out spec 8 kDigitsLow bytes_written args s)
      else if c = kPointer then
        (if nonstd then bad_spec out bytes_written args s
         else do {
           (n, s) \<leftarrow> out [chr CHR ''0'', chr CHR ''x''] s;
           let bytes_written = bytes_written + n;
           (value, args) \<leftarrow> va_word args;
           (n, s) \<leftarrow> write_digits out value 8 (chr CHR ''0'') 16 kDigitsLow s;
           Some (bytes_written + n, args, s)
         })
      else if c = kUnsignedHexLow \<and> nonstd then process_hex_dump out spec True kDigitsLow bytes_written args s
      else if c = kUnsignedHexLow \<or> c = kSvHexLow then process_digits out spec 16 kDigitsLow bytes_written args s
      else if c = kUnsignedHexHigh \<and> nonstd then process_hex_dump out spec True kDigitsHigh bytes_written args s
      else if c = kUnsignedHexHigh \<or> c = kSvHexHigh then process_digits out spec 16 kDigitsHigh bytes_written args s
      else if c = kHexLeLow then
        (if \<not> nonstd then bad_spec out bytes_written args s
         else process_hex_dump out spec False kDigitsLow bytes_written args s)
      else if c = kHexLeHigh then
        (if \<not> nonstd then bad_spec out bytes_written args s
         else process_hex_dump out spec False kDigitsHigh bytes_written args s)
      else if c = kUnsignedDec then
        (if nonstd then bad_spec out bytes_written args s
         else process_digits out spec 10 kDigitsLow bytes_written args s)
      else if c = kSvBinary then
        (if nonstd then do {
           (value, args) \<leftarrow> va_word args;
           (n, s) \<leftarrow> out (if value \<noteq> 0 then str ''true'' else str ''false'') s;
           Some (bytes_written + n, args, s)
         } else process_digits out spec 2 kDigitsLow bytes_written args s)
      else if c = kStatusResult then do {
        (value, args) \<leftarrow> va_word args;
        (n, s) \<leftarrow> write_status out value nonstd s;
        Some (bytes_written + n, args, s)
      }
      else bad_spec out bytes_written args s)"

subsection \<open>Printing\<close>

lemma width_loop_length: "width_loop cs w p = Some (rest, w', p') \<Longrightarrow> length rest \<le> length cs"
  by (induction cs w p rule: width_loop.induct) (auto split: if_splits simp: Let_def)

lemma consume_format_specifier_length:
  "consume_format_specifier out format n s = Some (Some spec, rest, n', s') \<Longrightarrow> format \<noteq> [] \<Longrightarrow> length rest < length format"
  by (auto simp: consume_format_specifier_def Let_def split: option.splits if_splits Option.bind_splits dest!: width_loop_length)
    (linarith | (cases format; simp))+

lemma consume_until_percent_length:
  "consume_until_percent out format n s = Some (b, rest, n', s') \<Longrightarrow> length rest \<le> length format"
  by (auto simp: consume_until_percent_def Let_def split: if_splits Option.bind_splits)

lemma consume_until_percent_found:
  "consume_until_percent out format n s = Some (True, rest, n', s') \<Longrightarrow> rest \<noteq> []"
  by (auto simp: consume_until_percent_def Let_def char_at_def split: if_splits Option.bind_splits)

text \<open>The loop of \<open>base_vfprintf\<close>; every round consumes a part of the format.\<close>

function vfprintf_loop :: "'s sink \<Rightarrow> cstring \<Rightarrow> u32 \<Rightarrow> va_arg list \<Rightarrow> 's \<Rightarrow> (u32 \<times> 's) option" where
  "vfprintf_loop out format bytes_written args s =
     (if char_at format 0 = 0 then Some (bytes_written, s)
      else case consume_until_percent out format bytes_written s of
        None \<Rightarrow> None
      | Some (found, format1, bytes_written, s) \<Rightarrow>
          if \<not> found then Some (bytes_written, s)
          else case consume_format_specifier out format1 bytes_written s of
            None \<Rightarrow> None
          | Some (None, _, bytes_written, s) \<Rightarrow> Some (bytes_written, s)
          | Some (Some spec, format2, bytes_written, s) \<Rightarrow>
              (case process_specifier out spec bytes_written args s of
                 None \<Rightarrow> None
               | Some (bytes_written, args, s) \<Rightarrow> vfprintf_loop out format2 bytes_written args s))"
  by auto
termination
  by (relation "measure (\<lambda>(out, format, bytes_written, args, s). length format)")
    (auto dest!: consume_format_specifier_length dest: consume_until_percent_length consume_until_percent_found)

declare vfprintf_loop.simps [simp del]

definition base_vfprintf :: "'s sink ptr \<Rightarrow> cstring \<Rightarrow> va_arg list \<Rightarrow> 's \<Rightarrow> (u32 \<times> 's) option" where
  "base_vfprintf out format args s =
     (let out = (case out of None \<Rightarrow> base_dev_null | Some sink \<Rightarrow> sink)
      in vfprintf_loop out format 0 args s)"

definition base_fprintf :: "'s sink ptr \<Rightarrow> cstring \<Rightarrow> va_arg list \<Rightarrow> 's \<Rightarrow> (u32 \<times> 's) option" where
  "base_fprintf out format args s = base_vfprintf out format args s"

definition base_vprintf :: "'s sink ptr \<Rightarrow> cstring \<Rightarrow> va_arg list \<Rightarrow> 's \<Rightarrow> (u32 \<times> 's) option" where
  "base_vprintf base_stdout format args s = base_vfprintf base_stdout format args s"

definition base_printf :: "'s sink ptr \<Rightarrow> cstring \<Rightarrow> va_arg list \<Rightarrow> 's \<Rightarrow> (u32 \<times> 's) option" where
  "base_printf base_stdout format args s = base_vprintf base_stdout format args s"

definition base_snprintf :: "addr \<Rightarrow> u32 \<Rightarrow> cstring \<Rightarrow> va_arg list \<Rightarrow> memory \<Rightarrow> (u32 \<times> memory) option" where
  "base_snprintf buf len format args m = do {
     let data = \<lparr>cap_buf = buf, cap_left = len, cap_mem = m\<rparr>;
     (bytes_left, data) \<leftarrow> base_vfprintf (Some snprintf_sink) format args data;
     Some (bytes_left, cap_mem data)
   }"

subsection \<open>What a format and its arguments mean\<close>

text \<open>The digits of a number, most significant first; a single zero for zero.\<close>

fun digits_of :: "nat \<Rightarrow> nat \<Rightarrow> nat list" where
  "digits_of b n = (if n < b \<or> b < 2 then [n] else digits_of b (n div b) @ [n mod b])"

declare digits_of.simps [simp del]

text \<open>They are the numeral of the number: every digit is below the base, they denote the number,
  and there is no leading zero.\<close>

lemma digits_of_numeral:
  assumes "2 \<le> b"
  shows "foldl (\<lambda>a d. a * b + d) 0 (digits_of b n) = n" "\<forall>d \<in> set (digits_of b n). d < b"
    "digits_of b n \<noteq> []" "0 < n \<Longrightarrow> hd (digits_of b n) \<noteq> 0"
proof -
  have "foldl (\<lambda>a d. a * b + d) 0 (digits_of b n) = n \<and> (\<forall>d \<in> set (digits_of b n). d < b)
    \<and> digits_of b n \<noteq> [] \<and> (0 < n \<longrightarrow> hd (digits_of b n) \<noteq> 0)"
    using assms
  proof (induction b n rule: digits_of.induct)
    case (1 b n)
    show ?case
    proof (cases "n < b")
      case True then show ?thesis by (simp add: digits_of.simps [of b n])
    next
      case False
      then have "0 < n div b" using 1(2) by (simp add: div_greater_zero_iff)
      with False 1 show ?thesis by (auto simp: digits_of.simps [of b n])
    qed
  qed
  then show "foldl (\<lambda>a d. a * b + d) 0 (digits_of b n) = n" "\<forall>d \<in> set (digits_of b n). d < b"
    "digits_of b n \<noteq> []" "0 < n \<Longrightarrow> hd (digits_of b n) \<noteq> 0" by auto
qed

lemma length_digits_of:
  assumes "2 \<le> b" "n < b ^ k" "0 < k"
  shows "length (digits_of b n) \<le> k"
  using assms
proof (induction k arbitrary: n)
  case (Suc k)
  show ?case
  proof (cases "n < b")
    case True then show ?thesis by (simp add: digits_of.simps [of b n])
  next
    case False
    have "0 < k" using False Suc.prems by (cases k) auto
    moreover have "n div b < b ^ k" using Suc.prems by (simp add: less_mult_imp_div_less mult.commute)
    ultimately show ?thesis using Suc False by (simp add: digits_of.simps [of b n])
  qed
qed simp

definition padded :: "nat \<Rightarrow> u8 \<Rightarrow> u8 list \<Rightarrow> u8 list" where
  "padded w p t = replicate (w - length t) p @ t"

datatype width = Natural | Spaces nat | Zeros nat

fun width_value :: "width \<Rightarrow> nat" where
  "width_value Natural = 0" | "width_value (Spaces n) = n" | "width_value (Zeros n) = n"

fun width_padding :: "width \<Rightarrow> u8" where
  "width_padding Natural = 0" | "width_padding (Spaces n) = chr CHR '' ''" | "width_padding (Zeros n) = chr CHR ''0''"

definition digit_char :: "nat \<Rightarrow> u8" where
  "digit_char d = chr CHR ''0'' + of_nat d"

definition dec_text :: "nat \<Rightarrow> cstring" where
  "dec_text n = map digit_char (digits_of 10 n)"

fun width_text :: "width \<Rightarrow> cstring" where
  "width_text Natural = []"
| "width_text (Spaces n) = dec_text n"
| "width_text (Zeros n) = chr CHR ''0'' # dec_text n"

fun width_ok :: "width \<Rightarrow> bool" where
  "width_ok Natural \<longleftrightarrow> True"
| "width_ok (Spaces n) \<longleftrightarrow> 0 < n \<and> n \<le> 32"
| "width_ok (Zeros n) \<longleftrightarrow> 0 < n \<and> n \<le> 32"

declare width_loop.simps(2) [simp del]

lemma width_loop_digit:
  assumes "d < 10" "p \<noteq> 0 \<or> d \<noteq> 0"
  shows "width_loop (digit_char d # cs) w p
    = width_loop cs (w * 10 + of_nat d) (if p = 0 then chr CHR '' '' else p)"
proof -
  have "d \<in> {0, 1, 2, 3, 4, 5, 6, 7, 8, 9}" using assms(1) by auto
  with assms(2) show ?thesis by (auto simp: digit_char_def width_loop.simps(2) Let_def)
qed

lemma width_loop_digits:
  assumes "\<forall>d \<in> set ds. d < 10" "p \<noteq> 0"
  shows "width_loop (map digit_char ds @ cs) w p
    = width_loop cs (foldl (\<lambda>a d. a * 10 + of_nat d) w ds) p"
  using assms by (induction ds arbitrary: w) (simp_all add: width_loop_digit)

lemma foldl_of_nat:
  "foldl (\<lambda>a d. a * 10 + of_nat d) (of_nat w :: 'a::comm_semiring_1) ds = of_nat (foldl (\<lambda>a d. a * 10 + d) w ds)"
proof (induction ds arbitrary: w)
  case (Cons d ds)
  then show ?case using Cons.IH [of "w * 10 + d"] by simp
qed simp

lemma width_loop_dec_text:
  assumes "0 < n" "p = 0 \<or> p = chr CHR ''0''"
  shows "width_loop (dec_text n @ cs) 0 p = width_loop cs (of_nat n) (if p = 0 then chr CHR '' '' else p)"
proof -
  obtain d ds where ds: "digits_of 10 n = d # ds" using digits_of_numeral(3) [of 10 n] by (cases "digits_of 10 n") auto
  then have d: "d \<noteq> 0" "d < 10" "\<forall>d \<in> set ds. d < 10" "foldl (\<lambda>a d. a * 10 + d) 0 (d # ds) = n"
    using digits_of_numeral [of 10 n] assms(1) by auto
  have "foldl (\<lambda>a d. a * 10 + of_nat d) 0 (d # ds) = (of_nat n :: u32)"
    using foldl_of_nat [of 0 "d # ds", where 'a = u32] d(4) by simp
  moreover have "(if p = 0 then chr CHR '' '' else p) \<noteq> 0" by simp
  ultimately show ?thesis
    using d by (simp add: dec_text_def ds width_loop_digit width_loop_digits)
qed

lemma width_loop_width_text:
  assumes "width_ok w" "c \<noteq> 0" "c < chr CHR ''0'' \<or> c > chr CHR ''9''"
  shows "width_loop (width_text w @ c # cs) 0 0 = Some (c # cs, of_nat (width_value w), width_padding w)"
  using assms by (cases w) (auto simp: width_loop_dec_text width_loop.simps(2))


text \<open>What a conversion prints for a number.\<close>

definition number_text :: "nat \<Rightarrow> cstring \<Rightarrow> width \<Rightarrow> u32 \<Rightarrow> u8 list" where
  "number_text b glyphs w v = padded (width_value w) (width_padding w) (map ((!) glyphs) (digits_of b (unat v)))"

lemma digit_loop_digits_of:
  assumes "2 \<le> unat b" "0 < unat v"
  shows "digit_loop v b glyphs buf = map ((!) glyphs) (digits_of (unat b) (unat v)) @ buf"
  using assms
proof (induction v b glyphs buf rule: digit_loop.induct)
  case (1 v b glyphs buf)
  have *: "v > 0 \<and> b \<ge> 2" using 1(2,3) by (simp add: word_less_nat_alt word_le_nat_alt)
  have r: "digit_loop v b glyphs buf = digit_loop (v div b) b glyphs (glyphs ! unat (v mod b) # buf)"
    using * by (subst digit_loop.simps) (simp add: Let_def)
  show ?case
  proof (cases "unat v < unat b")
    case True
    then have "v div b = 0" "v mod b = v" by (simp_all add: word_unat_eq_iff unat_div_distrib unat_mod_distrib)
    with True show ?thesis by (simp add: r digit_loop.simps [of 0] digits_of.simps [of "unat b" "unat v"])
  next
    case False
    then have "0 < unat (v div b)" using 1(2) by (simp add: unat_div_distrib div_greater_zero_iff)
    then have "digit_loop (v div b) b glyphs (glyphs ! unat (v mod b) # buf)
        = map ((!) glyphs) (digits_of (unat b) (unat v div unat b)) @ glyphs ! unat (v mod b) # buf"
      using 1(1) [OF * refl refl] 1(2) by (simp add: unat_div_distrib)
    with False 1(2) show ?thesis
      by (simp add: r digits_of.simps [of "unat b" "unat v"] unat_mod_distrib)
  qed
qed

subsection \<open>A sink receives what is printed\<close>

text \<open>The run \<open>f\<close> hands the bytes \<open>t\<close> to the sink: \<open>got s bs\<close> says that the sink in the state \<open>s\<close>
  was given \<open>bs\<close> so far, and \<open>count\<close> is the number of bytes it has accepted. The result of the run
  is \<open>w\<close> plus the number of bytes that were accepted meanwhile.\<close>

definition writes :: "('s \<Rightarrow> u8 list \<Rightarrow> bool) \<Rightarrow> ('s \<Rightarrow> u32) \<Rightarrow> ('s \<Rightarrow> (u32 \<times> 's) option) \<Rightarrow> u32 \<Rightarrow> u8 list \<Rightarrow> bool" where
  "writes got count f w t \<longleftrightarrow> (\<forall>s bs. got s bs \<longrightarrow>
     (\<exists>n s'. f s = Some (w + n, s') \<and> got s' (bs @ t) \<and> count s' = count s + n))"

lemma writesE:
  assumes "writes got count f w t" "got s bs"
  obtains n s' where "f s = Some (w + n, s')" "got s' (bs @ t)" "count s' = count s + n"
  using assms unfolding writes_def by blast

lemma writes_done: "writes got count (\<lambda>s. Some (w, s)) w []"
  unfolding writes_def by (metis add.right_neutral append_Nil2)

lemma writes_bind:
  assumes "writes got count f w t" "\<And>n. writes got count (g n) n u"
  shows "writes got count (\<lambda>s. do { (n, s) \<leftarrow> f s; g n s }) w (t @ u)"
  unfolding writes_def
proof (intro allI impI)
  fix s bs assume "got s bs"
  then obtain n s1 where 1: "f s = Some (w + n, s1)" "got s1 (bs @ t)" "count s1 = count s + n"
    using assms(1) by (auto elim: writesE)
  then obtain k s2 where 2: "g (w + n) s1 = Some (w + n + k, s2)" "got s2 ((bs @ t) @ u)" "count s2 = count s1 + k"
    using assms(2) [of "w + n"] by (auto elim: writesE)
  from 1 2 show "\<exists>n s'. do { (n, s) \<leftarrow> f s; g n s } = Some (w + n, s') \<and> got s' (bs @ t @ u) \<and> count s' = count s + n"
    by (intro exI [of _ "n + k"] exI [of _ s2]) (simp add: add.assoc)
qed

lemma writes_offset:
  assumes "writes got count f 0 t"
  shows "writes got count (\<lambda>s. do { (n, s) \<leftarrow> f s; Some (w + n, s) }) w t"
  unfolding writes_def
proof (intro allI impI)
  fix s bs assume "got s bs"
  with assms obtain n s1 where "f s = Some (0 + n, s1)" "got s1 (bs @ t)" "count s1 = count s + n"
    by (rule writesE)
  then show "\<exists>n s'. do { (n, s) \<leftarrow> f s; Some (w + n, s) } = Some (w + n, s') \<and> got s' (bs @ t) \<and> count s' = count s + n"
    by simp
qed

lemma writes_then:
  assumes "writes got count f 0 t" "\<And>n. writes got count (g n) (w + n) u"
  shows "writes got count (\<lambda>s. do { (n, s) \<leftarrow> f s; g n s }) w (t @ u)"
  unfolding writes_def
proof (intro allI impI)
  fix s bs assume "got s bs"
  then obtain n s1 where 1: "f s = Some (0 + n, s1)" "got s1 (bs @ t)" "count s1 = count s + n"
    using assms(1) by (auto elim: writesE)
  then obtain k s2 where 2: "g n s1 = Some (w + n + k, s2)" "got s2 ((bs @ t) @ u)" "count s2 = count s1 + k"
    using assms(2) [of n] by (auto elim: writesE)
  from 1 2 show "\<exists>n s'. do { (n, s) \<leftarrow> f s; g n s } = Some (w + n, s') \<and> got s' (bs @ t @ u) \<and> count s' = count s + n"
    by (intro exI [of _ "n + k"] exI [of _ s2]) (simp add: add.assoc)
qed

text \<open>The text of a status value, a hex dump and a four-character code.\<close>

definition status_text :: "bool \<Rightarrow> status \<Rightarrow> u8 list" where
  "status_text json v = (case status_extract v of (err, start, arg, mod_chars) \<Rightarrow>
     let number = number_text 10 kDigitsLow Natural arg;
         mod_text = (case mod_chars of Some (a, b, c) \<Rightarrow> [a, b, c] | None \<Rightarrow> [0, 0, 0])
     in (if json then [chr CHR ''{'', chr CHR 0x22] else []) @ str start @ (if json then [chr CHR 0x22] else [])
        @ chr CHR '':'' # (if err then chr CHR ''['' # chr CHR 0x22 # mod_text @ [chr CHR 0x22, chr CHR '',''] @ number @ [chr CHR '']'']
                           else number)
        @ (if json then [chr CHR ''}''] else []))"

definition hex_byte :: "cstring \<Rightarrow> u8 \<Rightarrow> u8 list" where
  "hex_byte glyphs b = [glyphs ! unat (drop_bit 4 b AND 0xf), glyphs ! unat (b AND 0xf)]"

definition dump_text :: "bool \<Rightarrow> cstring \<Rightarrow> width \<Rightarrow> u8 list \<Rightarrow> u8 list" where
  "dump_text big_endian glyphs w bs =
     replicate (width_value w - length bs) (width_padding w)
       @ concat (map (hex_byte glyphs) (if big_endian then rev bs else bs))"

definition fourcc_char :: "u8 \<Rightarrow> u8 list" where
  "fourcc_char ch = (if ch \<ge> 32 \<and> ch < 127 then [ch]
     else [chr CHR 0x5c, chr CHR ''x'', kDigitsLow ! unat (drop_bit 4 ch), kDigitsLow ! unat (ch AND 15)])"

text \<open>A signed decimal as the C standard has it: the width counts the sign, blanks come before the sign
  and zeros after it.\<close>

definition signed_text :: "width \<Rightarrow> u32 \<Rightarrow> u8 list" where
  "signed_text w v =
     (if 0 \<le> sint v then number_text 10 kDigitsLow w v
      else let digits = number_text 10 kDigitsLow Natural (- v) in
        case w of
          Natural \<Rightarrow> chr CHR ''-'' # digits
        | Spaces n \<Rightarrow> replicate (n - Suc (length digits)) (chr CHR '' '') @ chr CHR ''-'' # digits
        | Zeros n \<Rightarrow> chr CHR ''-'' # replicate (n - Suc (length digits)) (chr CHR ''0'') @ digits)"

text \<open>A status can be printed as JSON when none of its letters is a backslash, which JSON escapes and the
  code does not.\<close>

definition status_json_ok :: "status \<Rightarrow> bool" where
  "status_json_ok v \<longleftrightarrow> (case status_extract v of
     (_, _, _, Some (a, b, c)) \<Rightarrow> chr CHR 0x5c \<notin> {a, b, c} | _ \<Rightarrow> True)"

text \<open>The pieces of a format with their arguments. \<open>Number\<close> is an unsigned conversion, given by its
  letter; a \<open>Dump\<close> is one of the four hex dumps.\<close>

datatype item = Text cstring | Percent | Character u32 | FourCC u32 | String cstring | Bytes u32 "u8 list"
  | Signed u8 width u32 | Number u8 width u32 | Pointer u32 | Boolean u32 | Dump u8 width "u8 list" | Status bool status

definition number_conv :: "u8 \<Rightarrow> (nat \<times> cstring) option" where
  "number_conv = map_of [(kUnsignedOct, 8, kDigitsLow), (kUnsignedDec, 10, kDigitsLow), (kSvBinary, 2, kDigitsLow),
     (kUnsignedHexLow, 16, kDigitsLow), (kSvHexLow, 16, kDigitsLow),
     (kUnsignedHexHigh, 16, kDigitsHigh), (kSvHexHigh, 16, kDigitsHigh)]"

definition dump_conv :: "u8 \<Rightarrow> (bool \<times> cstring) option" where
  "dump_conv = map_of [(kUnsignedHexLow, True, kDigitsLow), (kUnsignedHexHigh, True, kDigitsHigh),
     (kHexLeLow, False, kDigitsLow), (kHexLeHigh, False, kDigitsHigh)]"

text \<open>The arguments are of the right kinds. A negative number with a width that asks for padding is
  excluded: the code does not count the sign and puts it in front of the padding.\<close>

fun item_ok :: "item \<Rightarrow> bool" where
  "item_ok (Text t) \<longleftrightarrow> 0 \<notin> set t \<and> kPercent \<notin> set t"
| "item_ok (String t) \<longleftrightarrow> 0 \<notin> set t"
| "item_ok (Bytes n bs) \<longleftrightarrow> unat n \<le> length bs"
| "item_ok (Signed c w v) \<longleftrightarrow> c \<in> {kSignedDec1, kSignedDec2} \<and> width_ok w
     \<and> (sint v < 0 \<longrightarrow> width_value w \<le> length (number_text 10 kDigitsLow Natural (- v)))"
| "item_ok (Number c w v) \<longleftrightarrow> number_conv c \<noteq> None \<and> width_ok w"
| "item_ok (Dump c w bs) \<longleftrightarrow> dump_conv c \<noteq> None \<and> width_ok w \<and> length bs < 2 ^ 32"
| "item_ok (Status json v) \<longleftrightarrow> (json \<longrightarrow> status_json_ok v)"
| "item_ok _ \<longleftrightarrow> True"

text \<open>A specifier other than plain text: the non-standard mark, the width and the letter.\<close>

fun item_spec :: "item \<Rightarrow> bool \<times> width \<times> u8" where
  "item_spec (Text t) = (False, Natural, 0)"
| "item_spec Percent = (False, Natural, kPercent)"
| "item_spec (Character v) = (False, Natural, kCharacter)"
| "item_spec (FourCC v) = (False, Natural, kFourCC)"
| "item_spec (String t) = (False, Natural, kString)"
| "item_spec (Bytes n bs) = (True, Natural, kString)"
| "item_spec (Signed c w v) = (False, w, c)"
| "item_spec (Number c w v) = (False, w, c)"
| "item_spec (Pointer v) = (False, Natural, kPointer)"
| "item_spec (Boolean v) = (True, Natural, kSvBinary)"
| "item_spec (Dump c w bs) = (True, w, c)"
| "item_spec (Status json v) = (json, Natural, kStatusResult)"

definition spec_format :: "bool \<times> width \<times> u8 \<Rightarrow> cstring" where
  "spec_format = (\<lambda>(nonstd, w, c). kPercent # (if nonstd then [chr CHR ''!''] else []) @ width_text w @ [c])"

definition item_format :: "item \<Rightarrow> cstring" where
  "item_format x = (case x of Text t \<Rightarrow> t | _ \<Rightarrow> spec_format (item_spec x))"

fun item_args :: "item \<Rightarrow> va_arg list" where
  "item_args (Text t) = []"
| "item_args Percent = []"
| "item_args (Character v) = [Va_Word v]"
| "item_args (FourCC v) = [Va_Word v]"
| "item_args (String t) = [Va_Ptr t]"
| "item_args (Bytes n bs) = [Va_Word n, Va_Ptr bs]"
| "item_args (Signed c w v) = [Va_Word v]"
| "item_args (Number c w v) = [Va_Word v]"
| "item_args (Pointer v) = [Va_Word v]"
| "item_args (Boolean v) = [Va_Word v]"
| "item_args (Dump c w bs) = [Va_Word (of_nat (length bs)), Va_Ptr bs]"
| "item_args (Status json v) = [Va_Word v]"

fun item_text :: "item \<Rightarrow> u8 list" where
  "item_text (Text t) = t"
| "item_text Percent = [kPercent]"
| "item_text (Character v) = [ucast v]"
| "item_text (FourCC v) = concat (map (\<lambda>i. fourcc_char (ucast (drop_bit (8 * i) v))) [0..<4])"
| "item_text (String t) = t"
| "item_text (Bytes n bs) = take (unat n) bs"
| "item_text (Signed c w v) = signed_text w v"
| "item_text (Number c w v) = (case number_conv c of Some (b, glyphs) \<Rightarrow> number_text b glyphs w v | None \<Rightarrow> [])"
| "item_text (Pointer v) = chr CHR ''0'' # chr CHR ''x'' # number_text 16 kDigitsLow (Zeros 8) v"
| "item_text (Boolean v) = str (if v \<noteq> 0 then ''true'' else ''false'')"
| "item_text (Dump c w bs) = (case dump_conv c of Some (big, glyphs) \<Rightarrow> dump_text big glyphs w bs | None \<Rightarrow> [])"
| "item_text (Status json v) = status_text json v"

definition items_format :: "item list \<Rightarrow> cstring" where "items_format xs = concat (map item_format xs)"
definition items_args :: "item list \<Rightarrow> va_arg list" where "items_args xs = concat (map item_args xs)"
definition items_text :: "item list \<Rightarrow> u8 list" where "items_text xs = concat (map item_text xs)"

fun is_text :: "item \<Rightarrow> bool" where
  "is_text (Text t) = True" | "is_text _ = False"

text \<open>The parser recognises a specifier.\<close>

definition parsed_spec :: "bool \<times> width \<times> u8 \<Rightarrow> format_specifier" where
  "parsed_spec = (\<lambda>(nonstd, w, c). \<lparr>spec_type = c, spec_width = of_nat (width_value w),
     spec_padding = width_padding w, spec_is_nonstd = nonstd\<rparr>)"

lemma digit_char_neq: "d < 10 \<Longrightarrow> digit_char d \<noteq> chr CHR ''!''"
proof -
  assume "d < 10"
  then have "d \<in> {0, 1, 2, 3, 4, 5, 6, 7, 8, 9}" by auto
  then show ?thesis by (auto simp: digit_char_def)
qed

lemma width_text_no_mark:
  assumes "c \<noteq> chr CHR ''!''"
  shows "char_at (width_text w @ c # cs) 0 \<noteq> chr CHR ''!''"
proof (cases w)
  case (Spaces n)
  obtain d ds where ds: "digits_of 10 n = d # ds" using digits_of_numeral(3) [of 10 n] by (cases "digits_of 10 n") auto
  then have "d < 10" using digits_of_numeral(2) [of 10 n] by simp
  then show ?thesis using digit_char_neq [of d] by (simp add: Spaces dec_text_def ds char_at_def)
qed (use assms in \<open>simp_all add: char_at_def\<close>)

lemma consume_spec_format:
  assumes "width_ok w" "c \<noteq> 0" "c \<noteq> chr CHR ''!''" "c < chr CHR ''0'' \<or> c > chr CHR ''9''"
  shows "consume_format_specifier out (spec_format (nonstd, w, c) @ cs) n s = Some (Some (parsed_spec (nonstd, w, c)), cs, n, s)"
proof -
  have "width_value w \<le> 32" "width_padding w \<noteq> 0 \<Longrightarrow> 0 < width_value w" using assms(1) by (cases w; simp)+
  then have w: "\<not> ((of_nat (width_value w) :: u32) = 0 \<and> width_padding w \<noteq> 0 \<or> (of_nat (width_value w) :: u32) > 32)"
    by (auto simp: word_unat_eq_iff word_less_nat_alt unat_of_nat)
  have p: "width_loop (width_text w @ c # cs) 0 0 = Some (c # cs, of_nat (width_value w), width_padding w)"
    using assms by (intro width_loop_width_text)
  have m: "(char_at (if nonstd then chr CHR ''!'' # width_text w @ c # cs else width_text w @ c # cs) 0 = chr CHR ''!'') = nonstd"
    using width_text_no_mark [OF assms(3), of w cs] by (simp add: char_at_def)
  have f: "drop 1 (spec_format (nonstd, w, c) @ cs)
      = (if nonstd then chr CHR ''!'' # width_text w @ c # cs else width_text w @ c # cs)"
    by (simp add: spec_format_def)
  have g: "(if nonstd then drop 1 (if nonstd then chr CHR ''!'' # width_text w @ c # cs else width_text w @ c # cs)
      else if nonstd then chr CHR ''!'' # width_text w @ c # cs else width_text w @ c # cs) = width_text w @ c # cs"
    by simp
  show ?thesis
    unfolding consume_format_specifier_def f Let_def m g p option.case prod.case if_not_P [OF w]
    by (simp add: parsed_spec_def char_at_def)
qed

text \<open>Processing a specifier takes its arguments and hands its text to the sink.\<close>

definition prints :: "'s sink \<Rightarrow> ('s \<Rightarrow> u8 list \<Rightarrow> bool) \<Rightarrow> ('s \<Rightarrow> u32) \<Rightarrow> bool \<times> width \<times> u8 \<Rightarrow> va_arg list \<Rightarrow> u8 list \<Rightarrow> bool" where
  "prints out got count spec args t \<longleftrightarrow> (\<forall>w rest. \<exists>f. writes got count f w t
     \<and> process_specifier out (parsed_spec spec) w (args @ rest) = (\<lambda>s. do { (n, s) \<leftarrow> f s; Some (n, rest, s) }))"

lemma percent_scan_text: "item_ok (Text t) \<Longrightarrow> percent_scan (t @ u) k = percent_scan u (k + length t)"
  by (induction t arbitrary: k) auto

lemma char_at_text: "item_ok (Text t) \<Longrightarrow> char_at t 0 = 0 \<longleftrightarrow> t = []"
  by (cases t) (auto simp: char_at_def)

lemma consume_until:
  assumes "item_ok (Text t)" "u = [] \<or> (\<exists>v. u = kPercent # v)"
  shows "consume_until_percent out (t @ u) w s = (if t = [] then Some (u \<noteq> [], u, w, s)
    else do { (n, s) \<leftarrow> out t s; Some (u \<noteq> [], u, w + n, s) })"
proof -
  have "percent_scan (t @ u) 0 = length t" using assms by (auto simp: percent_scan_text)
  moreover have "char_at (t @ u) (length t) \<noteq> 0 \<longleftrightarrow> u \<noteq> []" using assms(2) by (auto simp: char_at_def)
  ultimately show ?thesis by (auto simp: consume_until_percent_def Let_def split: Option.bind_splits)
qed

lemma char_at_text_percent:
  "item_ok (Text t) \<Longrightarrow> char_at (t @ kPercent # u) 0 \<noteq> 0"
  by (cases t) (auto simp: char_at_def)

lemma item_spec_letter:
  assumes "item_ok x" "\<not> is_text x" "item_spec x = (nonstd, w, c)"
  shows "width_ok w \<and> c \<noteq> 0 \<and> c \<noteq> chr CHR ''!'' \<and> (c < chr CHR ''0'' \<or> c > chr CHR ''9'')"
  using assms by (cases x) (auto simp: number_conv_def dump_conv_def split: if_splits)

lemma case_option_bind: "(case x of None \<Rightarrow> None | Some y \<Rightarrow> f y) = x \<bind> f"
  by (cases x) simp_all

locale sink =
  fixes out :: "'s sink" and got :: "'s \<Rightarrow> u8 list \<Rightarrow> bool" and count :: "'s \<Rightarrow> u32"
  assumes out: "got s bs \<Longrightarrow> \<exists>n s'. out b s = Some (n, s') \<and> got s' (bs @ b) \<and> count s' = count s + n"
begin

abbreviation "wr \<equiv> writes got count"

lemma wr_out: "wr (out b) 0 b"
  using out by (auto simp: writes_def)

lemma wr_write_digits:
  assumes "2 \<le> unat b" "width_ok w"
  shows "wr (write_digits out v (of_nat (width_value w)) (width_padding w) b glyphs) 0 (number_text (unat b) glyphs w v)"
proof -
  let ?ds = "digits_of (unat b) (unat v)"
  have len: "0 < length ?ds" using digits_of_numeral(3) [OF assms(1)] by simp
  have l: "Suc 0 - length ?ds = 0" using len by (cases "length ?ds") simp_all
  have ds: "digit_loop v b glyphs (if v = 0 then [glyphs ! 0] else []) = map ((!) glyphs) ?ds"
  proof (cases "v = 0")
    case True with assms(1) show ?thesis by (simp add: digit_loop.simps [of 0] digits_of.simps [of _ 0])
  next
    case False then show ?thesis using digit_loop_digits_of [OF assms(1), of v] by (simp add: unat_gt_0)
  qed
  have "width_value w \<le> 32" using assms(2) by (cases w) auto
  then have w: "unat (of_nat (width_value w) :: u32) = width_value w" "\<not> (of_nat (width_value w) :: u32) > 32"
    "(of_nat (width_value w) :: u32) = 0 \<longleftrightarrow> width_value w = 0"
    by (simp_all add: unat_of_nat word_less_nat_alt word_unat_eq_iff)
  have "write_digits out v (of_nat (width_value w)) (width_padding w) b glyphs = out (number_text (unat b) glyphs w v)"
    using l by (intro ext) (simp add: write_digits_def ds w Let_def number_text_def padded_def)
  then show ?thesis using wr_out by simp
qed

lemma wr_number: "wr (write_digits out v 0 0 10 kDigitsLow) 0 (number_text 10 kDigitsLow Natural v)"
  using wr_write_digits [of 10 Natural v kDigitsLow] by simp

lemma wr_hex_pad_loop: "wr (hex_pad_loop out p width w) w (replicate (unat width) p)"
proof (induction "unat width" arbitrary: width w rule: less_induct)
  case less
  show ?case
  proof (cases "width = 0")
    case True
    then have "hex_pad_loop out p width w = (\<lambda>s. Some (w, s))"
      by (intro ext) (simp add: hex_pad_loop.simps)
    with True show ?thesis by (simp add: writes_done)
  next
    case False
    let ?k = "if width > 32 then 32 else width"
    have k: "unat (width - ?k) = unat width - unat ?k" "0 < unat ?k" "unat ?k \<le> unat width"
      using False by (auto simp: unat_sub word_less_nat_alt word_le_nat_alt unat_gt_0)
    have eq: "hex_pad_loop out p width w
        = (\<lambda>s. do { (n, s) \<leftarrow> out (replicate (unat ?k) p) s; hex_pad_loop out p (width - ?k) (w + n) s })"
      using False by (intro ext) (subst hex_pad_loop.simps, simp add: Let_def word_gt_0)
    have "unat (width - ?k) < unat width" using k by linarith
    from writes_then [where w = w, OF wr_out [of "replicate (unat ?k) p"] less [OF this]]
    have "wr (hex_pad_loop out p width w) w (replicate (unat ?k) p @ replicate (unat (width - ?k)) p)"
      unfolding eq .
    also have "replicate (unat ?k) p @ replicate (unat (width - ?k)) p = replicate (unat width) p"
      using k by (simp flip: replicate_add)
    finally show ?thesis .
  qed
qed

lemma wr_hex_loop: "wr (hex_loop out glyphs bs buf w) w (buf @ concat (map (hex_byte glyphs) bs))"
proof (induction bs arbitrary: buf w)
  case Nil
  show ?case
  proof (cases "buf = []")
    case True
    then have "hex_loop out glyphs [] buf w = (\<lambda>s. Some (w, s))" by (intro ext) simp
    with True show ?thesis by (simp add: writes_done)
  next
    case False
    then have "hex_loop out glyphs [] buf w = (\<lambda>s. do { (n, s) \<leftarrow> out buf s; Some (w + n, s) })"
      by (intro ext) simp
    then show ?thesis using writes_offset [where w = w, OF wr_out [of buf]] by simp
  qed
next
  case (Cons b bs)
  let ?buf = "buf @ hex_byte glyphs b"
  show ?case
  proof (cases "length ?buf = 32")
    case True
    then have "hex_loop out glyphs (b # bs) buf w
        = (\<lambda>s. do { (n, s) \<leftarrow> out ?buf s; hex_loop out glyphs bs [] (w + n) s })"
      by (intro ext) (simp add: Let_def hex_byte_def)
    then show ?thesis using writes_then [where w = w, OF wr_out [of ?buf] Cons.IH [of "[]"]] by simp
  next
    case False
    then have "hex_loop out glyphs (b # bs) buf w = hex_loop out glyphs bs ?buf w"
      by (intro ext) (simp add: Let_def hex_byte_def)
    then show ?thesis using Cons.IH [of ?buf w] by simp
  qed
qed

lemma wr_hex_dump:
  assumes "width_ok w" "length bs < 2 ^ 32"
  shows "wr (hex_dump out bs (of_nat (length bs)) (of_nat (width_value w)) (width_padding w) big_endian glyphs) 0
    (dump_text big_endian glyphs w bs)"
proof -
  let ?len = "of_nat (length bs) :: u32" and ?w = "of_nat (width_value w) :: u32" and ?bs = "if big_endian then rev bs else bs"
  have len: "unat ?len = length bs" using assms(2) by (simp add: unat_of_nat)
  have "width_value w \<le> 32" using assms(1) by (cases w) auto
  then have wv: "unat ?w = width_value w" by (simp add: unat_of_nat)
  have pad: "wr (\<lambda>s. if ?len < ?w then hex_pad_loop out (width_padding w) (?w - ?len) 0 s else Some (0, s)) 0
      (replicate (width_value w - length bs) (width_padding w))"
  proof (cases "?len < ?w")
    case True
    then have "unat (?w - ?len) = width_value w - length bs" by (simp add: unat_sub len wv word_less_nat_alt word_le_nat_alt)
    with True show ?thesis using wr_hex_pad_loop [of "width_padding w" "?w - ?len" 0] by simp
  next
    case False
    then have "width_value w - length bs = 0" by (simp add: len wv word_less_nat_alt)
    with False show ?thesis by (simp add: writes_done)
  qed
  have eq: "hex_dump out bs ?len ?w (width_padding w) big_endian glyphs = (\<lambda>s. do {
      (n, s) \<leftarrow> (if ?len < ?w then hex_pad_loop out (width_padding w) (?w - ?len) 0 s else Some (0, s));
      hex_loop out glyphs ?bs [] n s })"
    by (intro ext) (simp only: hex_dump_def len less_irrefl if_False take_all order_refl Let_def)
  from writes_bind [OF pad wr_hex_loop [of glyphs ?bs "[]"]] show ?thesis
    unfolding eq dump_text_def by (simp only: append_Nil)
qed

lemma wr_fourcc_loop:
  "wr (fourcc_loop out k v w) w (concat (map (\<lambda>i. fourcc_char (ucast (drop_bit (8 * i) v))) [0..<k]))"
proof (induction k arbitrary: v w)
  case 0
  have "fourcc_loop out 0 v w = (\<lambda>s. Some (w, s))" by (intro ext) simp
  then show ?case by (simp add: writes_done)
next
  case (Suc k)
  let ?ch = "ucast v :: u8"
  let ?g = "\<lambda>s. if ?ch \<ge> 32 \<and> ?ch < 127 then do { (n, s) \<leftarrow> out [?ch] s; Some (w + n, s) }
    else do {
      (n, s) \<leftarrow> out [chr CHR 0x5c, chr CHR ''x''] s;
      (k, s) \<leftarrow> out [kDigitsLow ! unat (drop_bit 4 ?ch)] s;
      (l, s) \<leftarrow> out [kDigitsLow ! unat (?ch AND 15)] s;
      Some (w + n + k + l, s) }"
  have g: "wr ?g w (fourcc_char ?ch)"
  proof (cases "?ch \<ge> 32 \<and> ?ch < 127")
    case True then show ?thesis using writes_offset [where w = w, OF wr_out [of "[?ch]"]] by (simp add: fourcc_char_def)
  next
    case False
    have "wr (\<lambda>s. do {
      (n, s) \<leftarrow> out [chr CHR 0x5c, chr CHR ''x''] s;
      (k, s) \<leftarrow> out [kDigitsLow ! unat (drop_bit 4 ?ch)] s;
      (l, s) \<leftarrow> out [kDigitsLow ! unat (?ch AND 15)] s;
      Some (w + n + k + l, s) }) w
      ([chr CHR 0x5c, chr CHR ''x''] @ [kDigitsLow ! unat (drop_bit 4 ?ch)] @ [kDigitsLow ! unat (?ch AND 15)])"
      by (intro writes_then writes_offset wr_out)
    then show ?thesis unfolding fourcc_char_def if_not_P [OF False] by simp
  qed
  have eq: "fourcc_loop out (Suc k) v w = (\<lambda>s. do { (n, s) \<leftarrow> ?g s; fourcc_loop out k (drop_bit 8 v) n s })"
    by (intro ext) (simp add: Let_def)
  have "concat (map (\<lambda>i. fourcc_char (ucast (drop_bit (8 * i) v))) [0..<Suc k])
      = fourcc_char ?ch @ concat (map (\<lambda>i. fourcc_char (ucast (drop_bit (8 * i) (drop_bit 8 v)))) [0..<k])"
    by (simp add: map_upt_Suc add.commute del: upt_Suc)
  then show ?case unfolding eq using writes_bind [OF g Suc.IH [of "drop_bit 8 v"]] by simp
qed

lemma wr_write_status: "wr (write_status out v json) 0 (status_text json v)"
proof -
  obtain err start arg mods where v: "status_extract v = (err, start, arg, mods)" by (metis prod_cases4)
  let ?mod = "chr CHR 0x22 # (case mods of Some (a, b, c) \<Rightarrow> [a, b, c] | None \<Rightarrow> [0, 0, 0]) @ [chr CHR 0x22, chr CHR '','']"
  let ?num = "number_text 10 kDigitsLow Natural arg"
  let ?pre = "\<lambda>t. if json then t else []"
  have num: "wr (\<lambda>s. if err then do {
         (n, s) \<leftarrow> out [chr CHR ''[''] s;
         (k, s) \<leftarrow> out ?mod s;
         (l, s) \<leftarrow> write_digits out arg 0 0 10 kDigitsLow s;
         (m, s) \<leftarrow> out [chr CHR '']''] s;
         Some (w + n + k + l + m, s)
       } else do {
         (n, s) \<leftarrow> write_digits out arg 0 0 10 kDigitsLow s;
         Some (w + n, s)
       }) w (if err then [chr CHR ''[''] @ ?mod @ ?num @ [chr CHR '']''] else ?num)" for w
  proof (cases err)
    case True show ?thesis unfolding if_P [OF True] by (intro writes_then writes_offset wr_out wr_number)
  next
    case False show ?thesis unfolding if_not_P [OF False] by (intro writes_offset wr_number)
  qed
  have "wr (\<lambda>s. do {
     (n1, s) \<leftarrow> out (?pre [chr CHR ''{'', chr CHR 0x22]) s;
     (n2, s) \<leftarrow> out (str start) s;
     (n3, s) \<leftarrow> out (?pre [chr CHR 0x22]) s;
     (n4, s) \<leftarrow> out [chr CHR '':''] s;
     (n5, s) \<leftarrow> (if err then do {
         (n, s) \<leftarrow> out [chr CHR ''[''] s;
         (k, s) \<leftarrow> out ?mod s;
         (l, s) \<leftarrow> write_digits out arg 0 0 10 kDigitsLow s;
         (m, s) \<leftarrow> out [chr CHR '']''] s;
         Some (0 + n1 + n2 + n3 + n4 + n + k + l + m, s)
       } else do {
         (n, s) \<leftarrow> write_digits out arg 0 0 10 kDigitsLow s;
         Some (0 + n1 + n2 + n3 + n4 + n, s)
       });
     (n6, s) \<leftarrow> out (?pre [chr CHR ''}'']) s;
     Some (n5 + n6, s) }) 0
     (?pre [chr CHR ''{'', chr CHR 0x22] @ str start @ ?pre [chr CHR 0x22] @ [chr CHR '':'']
       @ (if err then [chr CHR ''[''] @ ?mod @ ?num @ [chr CHR '']''] else ?num) @ ?pre [chr CHR ''}''])"
    by (rule writes_then [OF wr_out], rule writes_then [OF wr_out], rule writes_then [OF wr_out], rule writes_then [OF wr_out],
        rule writes_bind [OF num], rule writes_offset [OF wr_out])
  moreover have "write_status out v json = (\<lambda>s. do {
     (n1, s) \<leftarrow> out (?pre [chr CHR ''{'', chr CHR 0x22]) s;
     (n2, s) \<leftarrow> out (str start) s;
     (n3, s) \<leftarrow> out (?pre [chr CHR 0x22]) s;
     (n4, s) \<leftarrow> out [chr CHR '':''] s;
     (n5, s) \<leftarrow> (if err then do {
         (n, s) \<leftarrow> out [chr CHR ''[''] s;
         (k, s) \<leftarrow> out ?mod s;
         (l, s) \<leftarrow> write_digits out arg 0 0 10 kDigitsLow s;
         (m, s) \<leftarrow> out [chr CHR '']''] s;
         Some (0 + n1 + n2 + n3 + n4 + n + k + l + m, s)
       } else do {
         (n, s) \<leftarrow> write_digits out arg 0 0 10 kDigitsLow s;
         Some (0 + n1 + n2 + n3 + n4 + n, s)
       });
     (n6, s) \<leftarrow> out (?pre [chr CHR ''}'']) s;
     Some (n5 + n6, s) })"
    by (intro ext) (simp only: write_status_def v prod.case Let_def)
  moreover have "status_text json v = ?pre [chr CHR ''{'', chr CHR 0x22] @ str start @ ?pre [chr CHR 0x22] @ [chr CHR '':'']
       @ (if err then [chr CHR ''[''] @ ?mod @ ?num @ [chr CHR '']''] else ?num) @ ?pre [chr CHR ''}'']"
    unfolding status_text_def v prod.case Let_def by (cases mods) auto
  ultimately show ?thesis by simp
qed

lemma prints_offset:
  assumes "wr f 0 t" "\<And>w rest s. process_specifier out (parsed_spec spec) w (args @ rest) s
      = do { (n, s) \<leftarrow> f s; Some (w + n, rest, s) }"
  shows "prints out got count spec args t"
  unfolding prints_def
proof (intro allI exI conjI)
  fix w rest
  show "wr (\<lambda>s. do { (n, s) \<leftarrow> f s; Some (w + n, s) }) w t" by (rule writes_offset [OF assms(1)])
  show "process_specifier out (parsed_spec spec) w (args @ rest)
      = (\<lambda>s. do { (n, s) \<leftarrow> do { (n, s) \<leftarrow> f s; Some (w + n, s) }; Some (n, rest, s) })"
    using assms(2) by (intro ext) (auto split: Option.bind_splits)
qed

lemmas process_simps = process_specifier_def parsed_spec_def process_digits_def process_hex_dump_def Let_def

lemma number_conv_cases:
  assumes "number_conv c = Some (b, glyphs)"
  obtains "c = kUnsignedOct" "b = 8" "glyphs = kDigitsLow" | "c = kUnsignedDec" "b = 10" "glyphs = kDigitsLow"
    | "c = kSvBinary" "b = 2" "glyphs = kDigitsLow" | "c = kUnsignedHexLow" "b = 16" "glyphs = kDigitsLow"
    | "c = kSvHexLow" "b = 16" "glyphs = kDigitsLow" | "c = kUnsignedHexHigh" "b = 16" "glyphs = kDigitsHigh"
    | "c = kSvHexHigh" "b = 16" "glyphs = kDigitsHigh"
  using assms by (auto simp: number_conv_def split: if_splits)

lemma dump_conv_cases:
  assumes "dump_conv c = Some (big, glyphs)"
  obtains "c = kUnsignedHexLow" "big" "glyphs = kDigitsLow" | "c = kUnsignedHexHigh" "big" "glyphs = kDigitsHigh"
    | "c = kHexLeLow" "\<not> big" "glyphs = kDigitsLow" | "c = kHexLeHigh" "\<not> big" "glyphs = kDigitsHigh"
  using assms by (auto simp: dump_conv_def split: if_splits)

lemma prints_number:
  assumes "number_conv c = Some (b, glyphs)" "width_ok w"
  shows "prints out got count (False, w, c) [Va_Word v] (number_text b glyphs w v)"
  using assms(1)
  by (cases rule: number_conv_cases)
    (insert wr_write_digits [OF _ assms(2), of 8 v glyphs] wr_write_digits [OF _ assms(2), of 10 v glyphs]
      wr_write_digits [OF _ assms(2), of 2 v glyphs] wr_write_digits [OF _ assms(2), of 16 v glyphs],
     simp, erule prints_offset, simp add: process_simps)+

lemma prints_dump:
  assumes "dump_conv c = Some (big, glyphs)" "width_ok w" "length bs < 2 ^ 32"
  shows "prints out got count (True, w, c) [Va_Word (of_nat (length bs)), Va_Ptr bs] (dump_text big glyphs w bs)"
  using assms(1)
  by (cases rule: dump_conv_cases)
    (rule prints_offset [OF wr_hex_dump [OF assms(2,3)]], simp add: process_simps)+

lemma process_signed:
  assumes "c = kSignedDec1 \<or> c = kSignedDec2"
  shows "process_specifier out (parsed_spec (False, wd, c)) w ([Va_Word v] @ rest) s =
    do { (n, s) \<leftarrow> (if sint v < 0 then do { (k, s) \<leftarrow> out [chr CHR ''-''] s;
      (n, s) \<leftarrow> write_digits out (- v) (of_nat (width_value wd)) (width_padding wd) 10 kDigitsLow s; Some (0 + k + n, s) }
    else write_digits out v (of_nat (width_value wd)) (width_padding wd) 10 kDigitsLow s); Some (w + n, rest, s) }"
  using assms by (elim disjE; cases "sint v < 0") (simp_all add: process_simps add.assoc case_prod_unfold)

text \<open>What the code prints for a signed decimal: the width counts the digits and not the sign, which
  comes first. So \<open>%5d\<close> of -3 is a minus sign, four blanks and the digit, six characters, where the C
  standard has five.\<close>

lemma prints_signed:
  assumes c: "c = kSignedDec1 \<or> c = kSignedDec2" and w: "width_ok w"
  shows "prints out got count (False, w, c) [Va_Word v]
    ((if sint v < 0 then [chr CHR ''-''] else []) @ number_text 10 kDigitsLow w (if sint v < 0 then - v else v))"
proof -
  let ?v = "if sint v < 0 then - v else v" and ?sign = "if sint v < 0 then [chr CHR ''-''] else []"
  let ?f = "\<lambda>s. if sint v < 0 then do { (k, s) \<leftarrow> out [chr CHR ''-''] s;
      (n, s) \<leftarrow> write_digits out (- v) (of_nat (width_value w)) (width_padding w) 10 kDigitsLow s; Some (0 + k + n, s) }
    else write_digits out v (of_nat (width_value w)) (width_padding w) 10 kDigitsLow s"
  have d: "wr (write_digits out u (of_nat (width_value w)) (width_padding w) 10 kDigitsLow) 0 (number_text 10 kDigitsLow w u)" for u
    using wr_write_digits [OF _ w, of 10 u kDigitsLow] by simp
  have "wr ?f 0 (?sign @ number_text 10 kDigitsLow w ?v)"
  proof (cases "sint v < 0")
    case True show ?thesis unfolding if_P [OF True] by (intro writes_then writes_offset wr_out d)
  next
    case False then show ?thesis using d [of v] by simp
  qed
  then show ?thesis by (rule prints_offset [OF _ process_signed [OF c]])
qed

lemma prints_item:
  assumes "item_ok x" "\<not> is_text x"
  shows "prints out got count (item_spec x) (item_args x) (item_text x)"
proof (cases x)
  case Percent show ?thesis unfolding Percent item_spec.simps item_args.simps item_text.simps
    by (rule prints_offset [OF wr_out]) (simp add: process_simps)
next
  case (Character v) show ?thesis unfolding Character item_spec.simps item_args.simps item_text.simps
    by (rule prints_offset [OF wr_out]) (simp add: process_simps)
next
  case (FourCC v) show ?thesis unfolding FourCC item_spec.simps item_args.simps item_text.simps prints_def
    by (intro allI exI conjI, rule wr_fourcc_loop, rule ext) (simp add: process_simps)
next
  case (String t)
  have "takeWhile (\<lambda>b. b \<noteq> 0) t = t" using assms(1) by (auto simp: String takeWhile_eq_all_conv)
  note tw = this
  show ?thesis unfolding String item_spec.simps item_args.simps item_text.simps
    by (intro prints_offset [OF wr_out]) (simp add: process_simps tw)
next
  case (Bytes n bs)
  then have "unat n \<le> length bs" using assms(1) by simp
  then show ?thesis unfolding Bytes item_spec.simps item_args.simps item_text.simps
    by (intro prints_offset [OF wr_out]) (simp add: process_simps)
next
  case (Signed c w v)
  then have c: "c = kSignedDec1 \<or> c = kSignedDec2" and w: "width_ok w"
    and fits: "sint v < 0 \<longrightarrow> width_value w \<le> length (number_text 10 kDigitsLow Natural (- v))"
    using assms(1) by auto
  have "(if sint v < 0 then [chr CHR ''-''] else []) @ number_text 10 kDigitsLow w (if sint v < 0 then - v else v)
      = signed_text w v"
    using fits by (cases w) (auto simp: signed_text_def number_text_def padded_def not_le)
  then show ?thesis unfolding Signed item_spec.simps item_args.simps item_text.simps
    using prints_signed [OF c w, of v] by simp
next
  case (Number c w v)
  then obtain b glyphs where "number_conv c = Some (b, glyphs)" "width_ok w" using assms(1) by auto
  then show ?thesis using prints_number Number by simp
next
  case (Pointer v)
  have "wr (\<lambda>s. do { (k, s) \<leftarrow> out [chr CHR ''0'', chr CHR ''x''] s;
      (n, s) \<leftarrow> write_digits out v 8 (chr CHR ''0'') 16 kDigitsLow s; Some (0 + k + n, s) }) 0
      ([chr CHR ''0'', chr CHR ''x''] @ number_text 16 kDigitsLow (Zeros 8) v)"
    using wr_write_digits [of 16 "Zeros 8" v kDigitsLow] by (intro writes_then writes_offset wr_out) simp
  then show ?thesis unfolding Pointer item_spec.simps item_args.simps item_text.simps
    by (intro prints_offset) (auto simp: process_simps add.assoc split: Option.bind_splits)
next
  case (Boolean v) show ?thesis unfolding Boolean item_spec.simps item_args.simps item_text.simps
    by (rule prints_offset [OF wr_out]) (simp add: process_simps)
next
  case (Dump c w bs)
  then obtain big glyphs where "dump_conv c = Some (big, glyphs)" "width_ok w" "length bs < 2 ^ 32" using assms(1) by auto
  then show ?thesis using prints_dump Dump by simp
next
  case (Status json v) show ?thesis unfolding Status item_spec.simps item_args.simps item_text.simps
    by (rule prints_offset [OF wr_write_status]) (simp add: process_simps)
qed (use assms(2) in simp)

lemma wr_vfprintf_loop:
  assumes "\<forall>x \<in> set xs. item_ok x" "item_ok (Text t)"
  shows "wr (vfprintf_loop out (t @ items_format xs) w (items_args xs)) w (t @ items_text xs)"
  using assms
proof (induction xs arbitrary: t w)
  case Nil
  show ?case
  proof (cases "t = []")
    case True
    then have "vfprintf_loop out (t @ items_format []) w (items_args []) = (\<lambda>s. Some (w, s))"
      by (intro ext) (simp add: vfprintf_loop.simps [of _ "[]"] items_format_def char_at_def)
    with True show ?thesis by (simp add: writes_done items_text_def)
  next
    case False
    then have "vfprintf_loop out (t @ items_format []) w (items_args []) = (\<lambda>s. do { (n, s) \<leftarrow> out t s; Some (w + n, s) })"
      using consume_until [OF Nil(2), of "[]" out w]
      by (intro ext) (subst vfprintf_loop.simps, auto simp: items_format_def char_at_text [OF Nil(2)] split: option.splits Option.bind_splits)
    then show ?thesis using writes_offset [OF wr_out] by (simp add: items_text_def)
  qed
next
  case (Cons x xs)
  show ?case
  proof (cases "is_text x")
    case True
    then obtain u where x: "x = Text u" by (cases x) auto
    have "item_ok (Text (t @ u))" using Cons.prems x by auto
    with Cons.IH [of "t @ u"] Cons.prems show ?thesis by (simp add: x items_format_def items_args_def items_text_def item_format_def)
  next
    case False
    have x: "item_ok x" using Cons.prems by simp
    let ?rest = "items_format xs" and ?args = "items_args xs"
    let ?F = "spec_format (item_spec x) @ ?rest"
    obtain nonstd wd c where spec: "item_spec x = (nonstd, wd, c)" by (metis prod_cases3)
    then have F: "\<exists>v. ?F = kPercent # v" by (simp add: spec_format_def)
    let ?text = "\<lambda>s. if t = [] then Some (w, s) else do { (n, s) \<leftarrow> out t s; Some (w + n, s) }"
    let ?proc = "\<lambda>n s. do { (n, args, s) \<leftarrow> process_specifier out (parsed_spec (item_spec x)) n (item_args x @ ?args) s;
        vfprintf_loop out ?rest n args s }"
    have plain: "wr ?text w t"
      using writes_done writes_offset [where w = w, OF wr_out [of t]] by (cases "t = []") simp_all
    have proc: "wr (?proc n) n (item_text x @ items_text xs)" for n
    proof -
      obtain f where f: "wr f n (item_text x)"
        "process_specifier out (parsed_spec (item_spec x)) n (item_args x @ ?args) = (\<lambda>s. do { (n, s) \<leftarrow> f s; Some (n, ?args, s) })"
        using prints_item [OF x False] unfolding prints_def by blast
      have "?proc n = (\<lambda>s. do { (n, s) \<leftarrow> f s; vfprintf_loop out ?rest n ?args s })"
        unfolding f(2) by (intro ext) (auto split: Option.bind_splits)
      moreover have "wr (\<lambda>s. do { (n, s) \<leftarrow> f s; vfprintf_loop out ?rest n ?args s }) n (item_text x @ items_text xs)"
        using Cons.IH [of "[]"] Cons.prems by (intro writes_bind [OF f(1)]) simp
      ultimately show ?thesis by simp
    qed
    have "vfprintf_loop out (t @ ?F) w (item_args x @ ?args) s = do { (n, s) \<leftarrow> ?text s; ?proc n s }" for s
    proof -
      obtain G where G: "?F = G" by simp
      have ne: "char_at (t @ G) 0 \<noteq> 0" "G \<noteq> []"
        using F char_at_text_percent [OF Cons.prems(2)] unfolding G by auto
      have step: "consume_format_specifier out G n s' = Some (Some (parsed_spec (item_spec x)), ?rest, n, s')" for n s'
        using item_spec_letter [OF x False] unfolding G [symmetric] by (simp add: spec consume_spec_format)
      show ?thesis
        unfolding G vfprintf_loop.simps [of out "t @ G"] consume_until [OF Cons.prems(2) disjI2 [OF F [unfolded G]]]
        using ne step by (cases "out t s") (simp_all add: case_prod_beta case_option_bind)
    qed
    then have "vfprintf_loop out (t @ ?F) w (item_args x @ ?args) = (\<lambda>s. do { (n, s) \<leftarrow> ?text s; ?proc n s })"
      by (rule ext)
    moreover have "t @ items_format (x # xs) = t @ ?F"
      using False by (cases x) (simp_all add: items_format_def item_format_def)
    moreover have "items_args (x # xs) = item_args x @ ?args" "items_text (x # xs) = item_text x @ items_text xs"
      by (simp_all add: items_args_def items_text_def)
    ultimately show ?thesis using writes_bind [OF plain proc] by simp
  qed
qed

end

context sink begin

lemma vfprintf_prints:
  assumes "\<forall>x \<in> set xs. item_ok x" "got s bs"
  shows "\<exists>n s'. vfprintf_loop out (items_format xs) 0 (items_args xs) s = Some (n, s')
    \<and> got s' (bs @ items_text xs) \<and> count s' = count s + n"
  using wr_vfprintf_loop [OF assms(1), of "[]" 0] assms(2) by (auto simp: writes_def)

end

subsection \<open>The sinks of the library\<close>

lemma overlay_Nil [simp]: "overlay m a [] = m"
  by (rule ext) (simp add: overlay_def)

text \<open>\<open>base_snprintf\<close>: what the sink was given is in the buffer, as far as it fits.\<close>

definition captured :: "addr \<Rightarrow> u32 \<Rightarrow> memory \<Rightarrow> snprintf_captures \<Rightarrow> u8 list \<Rightarrow> bool" where
  "captured buf len m s bs \<longleftrightarrow> (let k = min (length bs) (unat len) in
     cap_buf s = buf + of_nat k \<and> unat (cap_left s) = unat len - k \<and> cap_mem s = overlay m buf (take k bs))"

interpretation snprintf: sink snprintf_sink "captured buf len m" cap_buf for buf len m
proof unfold_locales
  fix s bs b assume "captured buf len m s bs"
  then obtain k where k: "k = min (length bs) (unat len)" "cap_buf s = buf + of_nat k"
    "unat (cap_left s) = unat len - k" "cap_mem s = overlay m buf (take k bs)" by (simp add: captured_def Let_def)
  show "\<exists>n s'. snprintf_sink b s = Some (n, s') \<and> captured buf len m s' (bs @ b) \<and> cap_buf s' = cap_buf s + n"
  proof (cases "cap_left s = 0")
    case True
    then have "unat len \<le> length bs" using k by simp
    with True k show ?thesis by (auto simp: snprintf_sink_def captured_def Let_def)
  next
    case False
    then have lt: "length bs < unat len" using k by (auto simp: unat_eq_0 [symmetric] min_def split: if_splits)
    then have kk: "k = length bs" using k by simp
    let ?j = "min (length b) (unat len - k)"
    have jlen: "(if length b > unat (cap_left s) then unat (cap_left s) else length b) = ?j" using k by simp
    have j: "?j < 2 ^ 32" using unat_less_2p [of len] by simp
    have "unat (of_nat ?j :: u32) = ?j" using j by (simp add: unat_of_nat)
    then have left: "unat (cap_left s - of_nat ?j) = unat len - (k + ?j)"
      by (subst unat_sub) (simp_all add: word_le_nat_alt k)
    have "overlay (overlay m buf bs) (buf + of_nat (length bs)) (take ?j b) = overlay m buf (bs @ take ?j b)"
      using lt kk unat_less_2p [of len] by (intro overlay_append) simp
    moreover have "bs @ take ?j b = take (min (length (bs @ b)) (unat len)) (bs @ b)"
      using lt kk by (cases "length b \<le> unat len - length bs") auto
    ultimately have mem: "overlay (cap_mem s) (cap_buf s) (take ?j b) = overlay m buf (take (min (length (bs @ b)) (unat len)) (bs @ b))"
      using k kk by simp
    have kj: "min (length (bs @ b)) (unat len) = k + ?j"
      using lt kk by (cases "length b \<le> unat len - length bs") auto
    have "snprintf_sink b s = Some (of_nat ?j, s\<lparr>cap_buf := cap_buf s + of_nat ?j, cap_left := cap_left s - of_nat ?j,
        cap_mem := overlay (cap_mem s) (cap_buf s) (take ?j b)\<rparr>)"
      using False unfolding snprintf_sink_def jlen by (simp add: Let_def)
    moreover have "captured buf len m (s\<lparr>cap_buf := cap_buf s + of_nat ?j, cap_left := cap_left s - of_nat ?j,
        cap_mem := overlay (cap_mem s) (cap_buf s) (take ?j b)\<rparr>) (bs @ b)"
      unfolding captured_def Let_def kj by (simp add: left mem [unfolded kj, unfolded k(2)] k(2) del: take_append)
    ultimately show ?thesis by simp
  qed
qed

text \<open>The UART: what the sink was given was queued for transmission in order.\<close>

definition uart_out :: "uart_dev \<Rightarrow> u8 list" where
  "uart_out d = tx_line d @ tx_fifo d"

lemma uart_sink_loop_sends:
  "\<exists>d'. uart_sink_loop (uart_bus (base (base_addr h)) (Suc rate)) (Some h) bs i d = Some (i + of_nat (length bs), d')
    \<and> uart_out d' = uart_out d @ bs"
proof (induction bs arbitrary: i d)
  case (Cons b bs)
  obtain d1 where 1: "dif_uart_byte_send_polled (uart_bus (base (base_addr h)) (Suc rate)) (Some h) b d = Some (kDifOk, d1)"
    "uart_out d1 = uart_out d @ [b]"
    using uart.byte_send_polled [where h = h and rate = rate and byte = b and d = d] by (auto simp: uart_out_def)
  with Cons.IH [of "i + 1" d1] show ?case by (auto simp: add.assoc)
qed simp

interpretation uart_print: sink "base_dev_uart (uart_bus (base (base_addr h)) (Suc rate)) (Some h)"
    "\<lambda>d bs. uart_out d = before @ bs" "\<lambda>d. of_nat (length (uart_out d))" for h rate before
proof unfold_locales
  fix d bs b assume "uart_out d = before @ bs"
  then show "\<exists>n d'. base_dev_uart (uart_bus (base (base_addr h)) (Suc rate)) (Some h) b d = Some (n, d')
      \<and> uart_out d' = before @ bs @ b \<and> of_nat (length (uart_out d')) = (of_nat (length (uart_out d)) + n :: u32)"
    using uart_sink_loop_sends [of h rate b 0 d] by (auto simp: base_dev_uart_def)
qed

text \<open>C27: Formatting into a buffer: for every format that is made of plain text and the conversions the
  header documents, with a width between 1 and 32 where there is one, and arguments of the right
  kinds, \<open>base_snprintf\<close> returns, the buffer holds the text of the pieces in order, cut off at the
  given length, no other byte of memory is changed, and the result is the number of bytes stored.
  (There is no terminator: the function stores none.) The text of a conversion is the one of the C
  standard where C has it. Excluded are negative numbers with a width greater than the number of their
  digits, where the code departs from the standard, and the JSON form of a status with a backslash among
  its letters, which would not be JSON.\<close>

theorem base_snprintf_prints:
  assumes "\<forall>x \<in> set xs. item_ok x"
  shows "base_snprintf buf len (items_format xs) (items_args xs) m
    = Some (of_nat (min (length (items_text xs)) (unat len)), overlay m buf (take (unat len) (items_text xs)))"
proof -
  let ?s = "\<lparr>cap_buf = buf, cap_left = len, cap_mem = m\<rparr>"
  have "captured buf len m ?s []" by (simp add: captured_def overlay_Nil)
  from snprintf.vfprintf_prints [OF assms this] obtain n s' where
    "vfprintf_loop snprintf_sink (items_format xs) 0 (items_args xs) ?s = Some (n, s')"
    "captured buf len m s' ([] @ items_text xs)" "cap_buf s' = cap_buf ?s + n" by blast
  then show ?thesis
    by (auto simp: base_snprintf_def base_vfprintf_def captured_def Let_def min_def)
qed

lemma base_snprintf_prints_witness:
  "base_snprintf 0x100 6 (str ''n=%5d!'') [Va_Word 42] (\<lambda>_. 0) = Some (6, overlay (\<lambda>_. 0) 0x100 (str ''n=   4''))"
proof -
  let ?xs = "[Text (str ''n=''), Signed kSignedDec1 (Spaces 5) 42, Text (str ''!'')]"
  have "items_format ?xs = str ''n=%5d!''" "items_args ?xs = [Va_Word 42]" "take 6 (items_text ?xs) = str ''n=   4''"
    "length (items_text ?xs) = 8"
    by code_simp+
  then show ?thesis using base_snprintf_prints [of ?xs "0x100" 6 "\<lambda>_. 0"] by (simp add: str_def)
qed

text \<open>C28: Printing on the UART: on a transmitter that makes progress \<open>base_printf\<close> returns, after what
  was queued before, exactly the text of the format is queued for transmission, in order and
  complete however long it is, and the result is its length. The formats are those of the formatting
  into a buffer: again without negative numbers whose width is greater than the number of their digits
  and without the JSON form of a status that has a backslash among its letters.\<close>

theorem base_printf_uart_prints:
  assumes "\<forall>x \<in> set xs. item_ok x"
  shows "\<exists>d'. base_printf (base_uart_stdout (uart_bus (base (base_addr h)) (Suc rate)) (Some h)) (items_format xs) (items_args xs) d
      = Some (of_nat (length (items_text xs)), d')
    \<and> tx_line d' @ tx_fifo d' = tx_line d @ tx_fifo d @ items_text xs"
proof -
  have "uart_out d = uart_out d @ []" by simp
  from uart_print.vfprintf_prints [where h = h and rate = rate, OF assms this] obtain n d' where
    "vfprintf_loop (base_dev_uart (uart_bus (base (base_addr h)) (Suc rate)) (Some h)) (items_format xs) 0 (items_args xs) d
      = Some (n, d')"
    "uart_out d' = uart_out d @ [] @ items_text xs" "(of_nat (length (uart_out d')) :: u32) = of_nat (length (uart_out d)) + n"
    by blast
  then show ?thesis
    by (auto simp: base_printf_def base_vprintf_def base_vfprintf_def base_uart_stdout_def base_set_stdout_def uart_out_def)
qed

lemma base_printf_uart_prints_witness:
  "\<exists>d'. base_printf (base_uart_stdout (uart_bus 0x40000000 (Suc 0)) (Some example_handle)) (str ''%08x %!b'') [Va_Word 0x2f, Va_Word 1]
      \<lparr>tx_fifo = [7], tx_line = [], rx_fifo = [], uart_regs = (\<lambda>_. 0)\<rparr> = Some (13, d')
    \<and> tx_line d' @ tx_fifo d' = 7 # str ''0000002f true''"
proof -
  let ?xs = "[Number kUnsignedHexLow (Zeros 8) 0x2f, Text (str '' ''), Boolean 1]"
  have xs: "items_format ?xs = str ''%08x %!b''" "items_args ?xs = [Va_Word 0x2f, Va_Word 1]" "items_text ?xs = str ''0000002f true''"
    "\<forall>x \<in> set ?xs. item_ok x"
    by code_simp+
  show ?thesis
    using base_printf_uart_prints [OF xs(4), of example_handle 0 "\<lparr>tx_fifo = [7], tx_line = [], rx_fifo = [], uart_regs = (\<lambda>_. 0)\<rparr>"]
    unfolding xs by (simp add: str_def)
qed

end
