(* ===== verification/Hexdump.thy ===== *)
theory Hexdump
  imports Print
begin
section \<open>Hex dumps\<close>

text \<open>
  The second half of \<^verbatim>\<open>sw/device/lib/runtime/print.c\<close>: a buffer is printed in lines of an address,
  the bytes in hexadecimal and the bytes as characters. The loops that advance by configurable
  steps, and the one that pads with spaces, need not end, so they are partial functions: the padding
  does not end when the sink is full. On a sink with enough room, a locale that the buffer and the UART
  interpret, they end, and what is printed is the text \<open>hexdump_text\<close> of the data.
\<close>

record base_hexdump_fmt =
  bytes_per_word :: u32
  words_per_line :: u32
  alphabet :: "u8 list"

definition kBaseHexdumpDefaultFmtAlphabet :: "u8 list" where
  "kBaseHexdumpDefaultFmtAlphabet =
     replicate 32 (chr CHR ''.'') @ map of_nat [32..<127] @ replicate 129 (chr CHR ''.'')"

definition kBaseHexdumpDefaultFmt :: base_hexdump_fmt where
  "kBaseHexdumpDefaultFmt =
     \<lparr>bytes_per_word = 2, words_per_line = 8, alphabet = kBaseHexdumpDefaultFmtAlphabet\<rparr>"

text \<open>The spaces in place of the words that the last line lacks.\<close>

partial_function (option) hexdump_spaces :: "'s sink \<Rightarrow> u32 \<Rightarrow> u32 \<Rightarrow> 's \<Rightarrow> (u32 \<times> 's) option" where
  "hexdump_spaces out chars_per_line line_bytes_written s =
     (if line_bytes_written < chars_per_line then
        let to_print = chars_per_line - line_bytes_written;
            to_print = (if to_print > 16 then 16 else to_print) in do {
          (n, s) \<leftarrow> base_fprintf (Some out) (str ''%!s'') [Va_Word to_print, Va_Ptr (replicate 16 (chr CHR '' ''))] s;
          hexdump_spaces out chars_per_line (line_bytes_written + n) s
        }
      else Some (line_bytes_written, s))"

text \<open>The words of a line.\<close>

partial_function (option) hexdump_words ::
    "'s sink \<Rightarrow> base_hexdump_fmt \<Rightarrow> u8 list \<Rightarrow> u32 \<Rightarrow> u32 \<Rightarrow> u32 \<Rightarrow> u32 \<Rightarrow> u32 \<Rightarrow> u32 \<Rightarrow> 's \<Rightarrow> (u32 \<times> 's) option" where
  "hexdump_words out fmt buf len line bytes_per_line chars_per_line word line_bytes_written s =
     (if word < bytes_per_line then
        (if len < line + word then hexdump_spaces out chars_per_line line_bytes_written s
         else
           let bytes_left = len - line - word;
               bytes_left = (if bytes_left > bytes_per_word fmt then bytes_per_word fmt else bytes_left) in do {
             (n, s) \<leftarrow> base_fprintf (Some out) (str '' '') [] s;
             (k, s) \<leftarrow> hex_dump out (drop (unat (line + word)) buf) bytes_left bytes_left (chr CHR ''0'') False kDigitsLow s;
             hexdump_words out fmt buf len line bytes_per_line chars_per_line (word + bytes_per_word fmt)
               (line_bytes_written + n + k) s
           })
      else Some (line_bytes_written, s))"

text \<open>The characters of a line, in pieces of sixteen; \<open>k\<close> is the number of rounds left.\<close>

fun hexdump_glyphs ::
    "'s sink \<Rightarrow> base_hexdump_fmt \<Rightarrow> u8 list \<Rightarrow> u32 \<Rightarrow> u32 \<Rightarrow> nat \<Rightarrow> u32 \<Rightarrow> u8 list \<Rightarrow> u32 \<Rightarrow> 's \<Rightarrow> (u8 list \<times> u32 \<times> 's) option" where
  "hexdump_glyphs out fmt buf len line 0 byte glyph_buffer bytes_written s = Some (glyph_buffer, bytes_written, s)"
| "hexdump_glyphs out fmt buf len line (Suc k) byte glyph_buffer bytes_written s = do {
     (glyph_buffer, bytes_written, s) \<leftarrow> (if length glyph_buffer = 16 then do {
         (n, s) \<leftarrow> base_fprintf (Some out) (str ''%!s'') [Va_Word (of_nat (length glyph_buffer)), Va_Ptr glyph_buffer] s;
         Some ([], bytes_written + n, s)
       } else Some (glyph_buffer, bytes_written, s));
     if line + byte \<ge> len then Some (glyph_buffer, bytes_written, s)
     else hexdump_glyphs out fmt buf len line k (byte + 1)
       (glyph_buffer @ [alphabet fmt ! unat (buf ! unat (line + byte))]) bytes_written s
   }"

definition hexdump_line ::
    "'s sink \<Rightarrow> base_hexdump_fmt \<Rightarrow> u8 list \<Rightarrow> u32 \<Rightarrow> u32 \<Rightarrow> u32 \<Rightarrow> u32 \<Rightarrow> 's \<Rightarrow> (u32 \<times> 's) option" where
  "hexdump_line out fmt buf len bytes_per_line line bytes_written s = do {
     (n, s) \<leftarrow> base_fprintf (Some out) (str ''%08x:'') [Va_Word line] s;
     let bytes_written = bytes_written + n;
     let chars_per_line = bytes_per_line * 2 + words_per_line fmt;
     (line_bytes_written, s) \<leftarrow> hexdump_words out fmt buf len line bytes_per_line chars_per_line 0 0 s;
     let bytes_written = bytes_written + line_bytes_written;
     (n, s) \<leftarrow> base_fprintf (Some out) (str ''  '') [] s;
     let bytes_written = bytes_written + n;
     (glyph_buffer, bytes_written, s) \<leftarrow>
       hexdump_glyphs out fmt buf len line (unat bytes_per_line) 0 [] bytes_written s;
     (bytes_written, s) \<leftarrow> (if length glyph_buffer > 0 then do {
         (n, s) \<leftarrow> base_fprintf (Some out) (str ''%!s'') [Va_Word (of_nat (length glyph_buffer)), Va_Ptr glyph_buffer] s;
         Some (bytes_written + n, s)
       } else Some (bytes_written, s));
     (n, s) \<leftarrow> base_fprintf (Some out) [10] [] s;
     Some (bytes_written + n, s)
   }"

partial_function (option) hexdump_lines ::
    "'s sink \<Rightarrow> base_hexdump_fmt \<Rightarrow> u8 list \<Rightarrow> u32 \<Rightarrow> u32 \<Rightarrow> u32 \<Rightarrow> u32 \<Rightarrow> 's \<Rightarrow> (u32 \<times> 's) option" where
  "hexdump_lines out fmt buf len bytes_per_line line bytes_written s =
     (if line < len then do {
        (bytes_written, s) \<leftarrow> hexdump_line out fmt buf len bytes_per_line line bytes_written s;
        hexdump_lines out fmt buf len bytes_per_line (line + bytes_per_line) bytes_written s
      } else Some (bytes_written, s))"

text \<open>The buffer is the list of its bytes; reading past its end is undefined.\<close>

definition base_fhexdump_with :: "'s sink ptr \<Rightarrow> base_hexdump_fmt \<Rightarrow> u8 list \<Rightarrow> u32 \<Rightarrow> 's \<Rightarrow> (u32 \<times> 's) option" where
  "base_fhexdump_with out fmt buf len s =
     (let out = (case out of None \<Rightarrow> base_dev_null | Some f \<Rightarrow> f);
          bytes_per_line = bytes_per_word fmt * words_per_line fmt
      in hexdump_lines out fmt buf len bytes_per_line 0 0 s)"

definition base_snhexdump_with :: "addr \<Rightarrow> u32 \<Rightarrow> base_hexdump_fmt \<Rightarrow> u8 list \<Rightarrow> u32 \<Rightarrow> memory \<Rightarrow> (u32 \<times> memory) option" where
  "base_snhexdump_with out out_len fmt buf len m = do {
     let data = \<lparr>cap_buf = out, cap_left = out_len, cap_mem = m\<rparr>;
     (n, data) \<leftarrow> base_fhexdump_with (Some snprintf_sink) fmt buf len data;
     Some (n, cap_mem data)
   }"

definition base_hexdump_with :: "'s sink ptr \<Rightarrow> base_hexdump_fmt \<Rightarrow> u8 list \<Rightarrow> u32 \<Rightarrow> 's \<Rightarrow> (u32 \<times> 's) option" where
  "base_hexdump_with base_stdout fmt buf len s = base_fhexdump_with base_stdout fmt buf len s"

definition base_fhexdump :: "'s sink ptr \<Rightarrow> u8 list \<Rightarrow> u32 \<Rightarrow> 's \<Rightarrow> (u32 \<times> 's) option" where
  "base_fhexdump out buf len s = base_fhexdump_with out kBaseHexdumpDefaultFmt buf len s"

definition base_snhexdump :: "addr \<Rightarrow> u32 \<Rightarrow> u8 list \<Rightarrow> u32 \<Rightarrow> memory \<Rightarrow> (u32 \<times> memory) option" where
  "base_snhexdump out out_len buf len m = base_snhexdump_with out out_len kBaseHexdumpDefaultFmt buf len m"

definition base_hexdump :: "'s sink ptr \<Rightarrow> u8 list \<Rightarrow> u32 \<Rightarrow> 's \<Rightarrow> (u32 \<times> 's) option" where
  "base_hexdump base_stdout buf len s = base_hexdump_with base_stdout kBaseHexdumpDefaultFmt buf len s"

subsection \<open>A sink that is full\<close>

text \<open>When the buffer of \<open>base_snprintf\<close> is full its sink accepts nothing and changes nothing.\<close>

interpretation full: sink snprintf_sink "\<lambda>s bs. s = s0 \<and> cap_left s0 = 0" "\<lambda>_. 0" for s0
  by unfold_locales (simp add: snprintf_sink_def)

lemma full_fprintf:
  assumes "cap_left s = 0" "\<forall>x \<in> set xs. item_ok x"
  shows "base_fprintf (Some snprintf_sink) (items_format xs) (items_args xs) s = Some (0, s)"
  using full.vfprintf_prints [where s = s and ?s0.0 = s, OF assms(2)] assms(1)
  by (auto simp: base_fprintf_def base_vfprintf_def)

lemma full_hex_dump:
  assumes "cap_left s = 0" "unat len \<le> length bs"
  shows "hex_dump snprintf_sink bs len len p big glyphs s = Some (0, s)"
proof -
  have "hex_loop snprintf_sink glyphs bs buf 0 s = Some (0, s)" for bs buf
    using full.wr_hex_loop [where ?s0.0 = s and glyphs = glyphs and bs = bs and buf = buf and w = 0] assms(1)
    by (simp add: writes_def)
  then show ?thesis using assms(2) by (simp add: hex_dump_def)
qed

lemma full_print_spaces:
  assumes "cap_left s = 0" "n \<le> 16"
  shows "base_fprintf (Some snprintf_sink) (str ''%!s'') [Va_Word n, Va_Ptr (replicate 16 c)] s = Some (0, s)"
proof -
  have "unat n \<le> 16" using assms(2) by (simp add: word_le_nat_alt)
  moreover have "items_format [Bytes n (replicate 16 c)] = str ''%!s''" by code_simp
  ultimately show ?thesis using full_fprintf [OF assms(1), of "[Bytes n (replicate 16 c)]"]
    by (simp add: items_args_def)
qed

lemma full_spaces:
  assumes "cap_left s = 0" "n < chars"
  shows "hexdump_spaces snprintf_sink chars n s = None"
proof (rule ccontr)
  assume "hexdump_spaces snprintf_sink chars n s \<noteq> None"
  then obtain r where "hexdump_spaces snprintf_sink chars n s = Some r" by blast
  then have "snprintf_sink = snprintf_sink \<longrightarrow> \<not> (cap_left s = 0 \<and> n < chars)"
  proof (rule hexdump_spaces.raw_induct [where P = "\<lambda>out chars n s r. out = snprintf_sink \<longrightarrow> \<not> (cap_left s = 0 \<and> n < chars)", rotated], intro impI notI, elim conjE)
    fix f :: "snprintf_captures sink \<Rightarrow> u32 \<Rightarrow> u32 \<Rightarrow> snprintf_captures \<Rightarrow> (u32 \<times> snprintf_captures) option"
    fix out chars n s r
    assume IH: "\<And>out chars n s r. f out chars n s = Some r \<Longrightarrow> out = snprintf_sink \<longrightarrow> \<not> (cap_left s = 0 \<and> n < chars)"
      and step: "(if n < chars then let to_print = chars - n; to_print = if 16 < to_print then 16 else to_print
           in do { (k, s) \<leftarrow> base_fprintf (Some out) (str ''%!s'') [Va_Word to_print, Va_Ptr (replicate 16 (chr CHR '' ''))] s;
                f out chars (n + k) s } else Some (n, s)) = Some r"
      and "out = snprintf_sink" "cap_left s = 0" "n < chars"
    let ?k = "if 16 < chars - n then 16 else chars - n :: u32"
    have "base_fprintf (Some out) (str ''%!s'') [Va_Word ?k, Va_Ptr (replicate 16 (chr CHR '' ''))] s = Some (0, s)"
      unfolding \<open>out = snprintf_sink\<close> by (rule full_print_spaces) (use \<open>cap_left s = 0\<close> in auto)
    with step \<open>n < chars\<close> have "f out chars n s = Some r" by (simp add: Let_def)
    then show False using IH \<open>out = snprintf_sink\<close> \<open>cap_left s = 0\<close> \<open>n < chars\<close> by blast
  qed
  with assms show False by simp
qed

text \<open>Once the buffer is full, the words of a line that lacks some never end.\<close>

lemma full_words:
  assumes "cap_left s = 0" "unat len < 14" "unat len \<le> length buf" "unat word = 2 * k" "k \<le> 7" "n < 40" "line = 0"
  shows "hexdump_words snprintf_sink kBaseHexdumpDefaultFmt buf len line 16 40 word n s = None"
  using assms(4-5)
proof (induction "7 - k" arbitrary: k word)
  case 0
  then have "k = 7" by simp
  with 0 have w: "unat word = 14" by simp
  have "word < 16" "len < word" using w assms(2) by (simp_all add: word_less_nat_alt)
  then show ?case using full_spaces [OF assms(1,6)] assms(7) by (subst hexdump_words.simps) simp
next
  case (Suc j)
  have w: "word < 16" using Suc by (simp add: word_less_nat_alt)
  show ?case
  proof (cases "len < word")
    case True
    then show ?thesis using w full_spaces [OF assms(1,6)] assms(7) by (subst hexdump_words.simps) simp
  next
    case False
    then have le: "unat word \<le> unat len" by (simp add: word_less_nat_alt)
    let ?left = "if len - word > 2 then 2 else len - word"
    have "unat ?left \<le> unat (len - word)" by (simp add: word_less_nat_alt)
    also have "\<dots> = unat len - unat word" using le by (simp add: unat_sub word_le_nat_alt)
    finally have left: "unat ?left \<le> length (drop (unat word) buf)" using assms(3) by simp
    have next_word: "hexdump_words snprintf_sink kBaseHexdumpDefaultFmt buf len line 16 40 (word + 2) n s = None"
      using Suc by (intro Suc(1) [of "k + 1"]) (simp_all add: unat_word_ariths)
    have "items_format [Text (str '' '')] = str '' ''" "items_args [Text (str '' '')] = []" by code_simp+
    then have "base_fprintf (Some snprintf_sink) (str '' '') [] s = Some (0, s)"
      using full_fprintf [OF assms(1), of "[Text (str '' '')]"] by simp
    then show ?thesis using False w assms(7) full_hex_dump [OF assms(1) left] next_word
      by (subst hexdump_words.simps) (simp add: Let_def kBaseHexdumpDefaultFmt_def cong: if_cong)
  qed
qed

text \<open>A buffer that is too small: for one to thirteen bytes and a buffer of at
  most nine characters, the length of the address column, \<open>base_snhexdump\<close> never returns: the loop
  that fills the line up with spaces counts the characters its sink accepts, and a full buffer
  accepts none. (The header promises that the output is capped at the given length.)\<close>

lemma base_snhexdump_never_returns:
  assumes "0 < len" "len < 14" "unat len \<le> length buf" "out_len \<le> 9"
  shows "base_snhexdump out out_len buf len m = None"
proof -
  let ?s = "\<lparr>cap_buf = out, cap_left = out_len, cap_mem = m\<rparr>"
  let ?xs = "[Number kUnsignedHexLow (Zeros 8) 0, Text (str '':'')]"
  have xs: "items_format ?xs = str ''%08x:''" "items_args ?xs = [Va_Word 0]" "length (items_text ?xs) = 9" "\<forall>x \<in> set ?xs. item_ok x"
    by code_simp+
  have "captured out out_len m ?s []" by (simp add: captured_def)
  from snprintf.vfprintf_prints [OF xs(4) this] obtain n s1 where
    1: "base_fprintf (Some snprintf_sink) (str ''%08x:'') [Va_Word 0] ?s = Some (n, s1)" "captured out out_len m s1 ([] @ items_text ?xs)"
    unfolding xs(1,2) by (auto simp: base_fprintf_def base_vfprintf_def)
  have "unat out_len \<le> 9" using assms(4) by (simp add: word_le_nat_alt)
  then have "cap_left s1 = 0" using 1(2) xs(3) by (simp add: captured_def Let_def unat_eq_0 [symmetric])
  then have "hexdump_words snprintf_sink kBaseHexdumpDefaultFmt buf len 0 16 40 0 0 s1 = None"
    using assms by (intro full_words [of _ _ _ _ 0]) (simp_all add: word_less_nat_alt)
  then have "hexdump_line snprintf_sink kBaseHexdumpDefaultFmt buf len 16 0 0 ?s = None"
    unfolding hexdump_line_def 1(1) by (simp add: kBaseHexdumpDefaultFmt_def)
  then show ?thesis
    using assms(1) by (simp add: base_snhexdump_def base_snhexdump_with_def base_fhexdump_with_def
        hexdump_lines.simps [of _ _ _ _ _ 0] kBaseHexdumpDefaultFmt_def)
qed

subsection \<open>The text of a dump\<close>

text \<open>The layout of \<^verbatim>\<open>xxd\<close>: the address, a colon, the bytes in hexadecimal in words of two, each after a
  blank and together filled up to 40 columns, two blanks, and the bytes as characters, those that
  cannot be printed as dots.\<close>

definition dump_hex :: "u8 list \<Rightarrow> u8 list" where
  "dump_hex bs = concat (map (hex_byte kDigitsLow) bs)"

fun dump_words :: "u8 list \<Rightarrow> u8 list" where
  "dump_words (a # b # bs) = chr CHR '' '' # dump_hex [a, b] @ dump_words bs"
| "dump_words [a] = chr CHR '' '' # dump_hex [a]"
| "dump_words [] = []"

definition filled :: "nat \<Rightarrow> u8 list \<Rightarrow> u8 list" where
  "filled n t = t @ replicate (n - length t) (chr CHR '' '')"

definition dump_char :: "u8 \<Rightarrow> u8" where
  "dump_char b = (if 32 \<le> b \<and> b < 127 then b else chr CHR ''.'')"

definition dump_line :: "nat \<Rightarrow> u8 list \<Rightarrow> u8 list" where
  "dump_line address bs = number_text 16 kDigitsLow (Zeros 8) (of_nat address) @ chr CHR '':''
     # filled 40 (dump_words bs) @ replicate 2 (chr CHR '' '') @ map dump_char bs @ [10]"

function dump_lines :: "nat \<Rightarrow> u8 list \<Rightarrow> u8 list" where
  "dump_lines address bs =
     (if bs = [] then [] else dump_line address (take 16 bs) @ dump_lines (address + 16) (drop 16 bs))"
  by pat_completeness auto
termination
  by (relation "measure (\<lambda>(_, bs). length bs)") (auto simp: length_greater_0_conv [symmetric] simp del: length_greater_0_conv)

declare dump_lines.simps [simp del]

text \<open>The dump of a buffer, and the buffers that the code lays out so: a last line of 14 or 15 bytes gets
  fewer blanks.\<close>

definition hexdump_text :: "u8 list \<Rightarrow> u8 list" where
  "hexdump_text bs = dump_lines 0 bs"

definition hexdump_aligned :: "u8 list \<Rightarrow> bool" where
  "hexdump_aligned bs \<longleftrightarrow> length bs mod 16 \<notin> {14, 15}"

text \<open>The words of a line as the code lays them out, when there is place for \<open>j\<close> more.\<close>

fun laid_out :: "nat \<Rightarrow> u8 list \<Rightarrow> u8 list" where
  "laid_out 0 bs = []"
| "laid_out (Suc j) bs =
     (if 2 \<le> length bs then chr CHR '' '' # dump_hex (take 2 bs) @ laid_out j (drop 2 bs)
      else chr CHR '' '' # dump_hex bs @ (if j = 0 then [] else replicate (5 * j + 4 - 2 * length bs) (chr CHR '' '')))"

lemma length_dump_hex [simp]: "length (dump_hex bs) = 2 * length bs"
  by (induction bs) (simp_all add: dump_hex_def hex_byte_def)

lemma laid_out_filled:
  "length bs \<le> 2 * j \<Longrightarrow> length bs + 2 \<noteq> 2 * j \<Longrightarrow> length bs + 1 \<noteq> 2 * j \<Longrightarrow> laid_out j bs = filled (5 * j) (dump_words bs)"
proof (induction j bs rule: laid_out.induct)
  case (2 j bs)
  show ?case
  proof (cases bs)
    case Nil
    with 2 show ?thesis by (cases j) (simp_all add: filled_def dump_hex_def replicate_app_Cons_same flip: replicate_Suc)
  next
    case (Cons a as)
    show ?thesis
    proof (cases as)
      case Nil
      with 2 Cons show ?thesis by (cases j) (simp_all add: filled_def)
    next
      case (Cons b r)
      with 2 \<open>bs = a # as\<close> have "laid_out j r = filled (5 * j) (dump_words r)" by simp
      with Cons \<open>bs = a # as\<close> show ?thesis by (simp add: filled_def)
    qed
  qed
qed (simp add: filled_def)

lemma alphabet_dump_char: "kBaseHexdumpDefaultFmtAlphabet ! unat b = dump_char b"
proof (cases "unat b < 32")
  case True
  then show ?thesis
    by (simp add: kBaseHexdumpDefaultFmtAlphabet_def dump_char_def nth_append word_le_nat_alt del: upt_rec_numeral)
next
  case False
  have "unat b < 256" using unat_less_2p [of b] by simp
  moreover have "unat b - 32 < 95 \<longleftrightarrow> unat b < 127" using False by linarith
  ultimately show ?thesis using False
    by (cases "unat b < 127")
      (simp_all add: kBaseHexdumpDefaultFmtAlphabet_def dump_char_def nth_append word_le_nat_alt word_less_nat_alt
        del: upt_rec_numeral)
qed

subsection \<open>A sink with room\<close>

text \<open>As long as there is room the sink accepts everything, so that a run returns the number of bytes
  that it printed.\<close>

locale roomy_sink = sink out got count
  for out :: "'s sink" and got :: "'s \<Rightarrow> u8 list \<Rightarrow> bool" and count :: "'s \<Rightarrow> u32" +
  fixes room :: nat and none :: u32
  assumes accepted: "got s bs \<Longrightarrow> length bs \<le> room \<Longrightarrow> count s = none + of_nat (length bs)"
begin

definition emits :: "('s \<Rightarrow> (u32 \<times> 's) option) \<Rightarrow> u32 \<Rightarrow> u8 list \<Rightarrow> bool" where
  "emits f w t \<longleftrightarrow> (\<forall>s bs. got s bs \<longrightarrow> length bs + length t \<le> room \<longrightarrow>
     (\<exists>s'. f s = Some (w + of_nat (length t), s') \<and> got s' (bs @ t)))"

lemma emitsE:
  assumes "emits f w t" "got s bs" "length bs + length t \<le> room"
  obtains s' where "f s = Some (w + of_nat (length t), s')" "got s' (bs @ t)"
  using assms unfolding emits_def by blast

lemma writes_emits:
  assumes "wr f w t"
  shows "emits f w t"
  unfolding emits_def
proof (intro allI impI)
  fix s bs assume s: "got s bs" "length bs + length t \<le> room"
  from assms s(1) obtain n s' where f: "f s = Some (w + n, s')" "got s' (bs @ t)" "count s' = count s + n"
    by (rule writesE)
  have "n = of_nat (length t)" using f(3) accepted [OF s(1)] accepted [OF f(2)] s(2) by simp
  with f show "\<exists>s'. f s = Some (w + of_nat (length t), s') \<and> got s' (bs @ t)" by auto
qed

lemma emits_done: "emits (\<lambda>s. Some (w, s)) w []"
  by (simp add: emits_def)

lemma emits_bind:
  assumes "emits f v t" "emits (g (v + of_nat (length t))) w u" "w + of_nat (length u) = x + of_nat (length (t @ u))"
  shows "emits (\<lambda>s. do { (n, s) \<leftarrow> f s; g n s }) x (t @ u)"
  unfolding emits_def
proof (intro allI impI)
  fix s bs assume s: "got s bs" "length bs + length (t @ u) \<le> room"
  then obtain s1 where 1: "f s = Some (v + of_nat (length t), s1)" "got s1 (bs @ t)"
    using assms(1) by (auto elim: emitsE)
  then obtain s2 where "g (v + of_nat (length t)) s1 = Some (w + of_nat (length u), s2)" "got s2 ((bs @ t) @ u)"
    using assms(2) s(2) by (auto elim: emitsE)
  with 1 assms(3) show "\<exists>s'. do { (n, s) \<leftarrow> f s; g n s } = Some (x + of_nat (length (t @ u)), s') \<and> got s' (bs @ t @ u)"
    by simp
qed

lemma emits_step:
  assumes "emits f 0 t" "emits (g (of_nat (length t))) (x + of_nat (length t)) u"
  shows "emits (\<lambda>s. do { (n, s) \<leftarrow> f s; g n s }) x (t @ u)"
  using emits_bind [OF assms(1), of g "x + of_nat (length t)" u x] assms(2) by (simp add: add.assoc)

lemma emits_printf:
  assumes "\<forall>x \<in> set xs. item_ok x"
  shows "emits (base_fprintf (Some out) (items_format xs) (items_args xs)) 0 (items_text xs)"
  using vfprintf_prints [OF assms]
  by (intro writes_emits) (simp add: writes_def base_fprintf_def base_vfprintf_def)

lemma emits_text:
  "0 \<notin> set t \<Longrightarrow> kPercent \<notin> set t \<Longrightarrow> emits (base_fprintf (Some out) t []) 0 t"
  using emits_printf [of "[Text t]"] by (simp add: items_format_def items_args_def items_text_def item_format_def)

lemma bytes_format: "items_format [Bytes n bs] = str ''%!s''"
  by (simp add: items_format_def item_format_def spec_format_def str_def)

lemma emits_bytes:
  "unat n \<le> length bs \<Longrightarrow> emits (base_fprintf (Some out) (str ''%!s'') [Va_Word n, Va_Ptr bs]) 0 (take (unat n) bs)"
  using emits_printf [of "[Bytes n bs]"] unfolding bytes_format by (simp add: items_args_def items_text_def)

lemma emits_hex:
  assumes "unat n \<le> length bs"
  shows "emits (hex_dump out bs n n c False kDigitsLow) 0 (dump_hex (take (unat n) bs))"
proof -
  have "hex_dump out bs n n c False kDigitsLow = hex_loop out kDigitsLow (take (unat n) bs) [] 0"
    using assms by (intro ext) (simp add: hex_dump_def)
  then show ?thesis using writes_emits [OF wr_hex_loop [of kDigitsLow "take (unat n) bs" "[]" 0]]
    by (simp add: dump_hex_def)
qed

lemma emits_spaces:
  "w + of_nat k = 40 \<Longrightarrow> k \<le> 40 \<Longrightarrow> emits (hexdump_spaces out 40 w) w (replicate k (chr CHR '' ''))"
proof (induction k arbitrary: w rule: less_induct)
  case (less k)
  have w: "w = 40 - of_nat k" using less.prems(1) by (simp add: eq_diff_eq)
  have k: "unat (of_nat k :: u32) = k" using less.prems(2) by (simp add: unat_of_nat)
  show ?case
  proof (cases "k = 0")
    case True
    then have "hexdump_spaces out 40 w = (\<lambda>s. Some (w, s))" using less.prems by (intro ext) (subst hexdump_spaces.simps, simp)
    with True show ?thesis by (simp add: emits_done)
  next
    case False
    let ?n = "if 40 - w > 16 then 16 else 40 - w"
    have left: "40 - w = of_nat k" by (simp add: w)
    have lt: "w < 40" using False less.prems k unfolding word_less_nat_alt w by (subst unat_sub) (simp_all add: word_le_nat_alt)
    have n: "unat ?n = min 16 k" unfolding left using k by (simp add: word_less_nat_alt min_def)
    have nw: "?n = of_nat (min 16 k)" using arg_cong [OF n, of "of_nat :: nat \<Rightarrow> u32"] by simp
    have eq: "hexdump_spaces out 40 w = (\<lambda>s. do {
        (n, s) \<leftarrow> base_fprintf (Some out) (str ''%!s'') [Va_Word ?n, Va_Ptr (replicate 16 (chr CHR '' ''))] s;
        hexdump_spaces out 40 (w + n) s })"
      using lt by (intro ext) (subst hexdump_spaces.simps, simp add: Let_def)
    have "emits (base_fprintf (Some out) (str ''%!s'') [Va_Word ?n, Va_Ptr (replicate 16 (chr CHR '' ''))]) 0
        (replicate (min 16 k) (chr CHR '' ''))"
      using emits_bytes [of ?n "replicate 16 (chr CHR '' '')"] n by simp
    moreover have "emits (hexdump_spaces out 40 (w + of_nat (min 16 k))) (w + of_nat (min 16 k)) (replicate (k - min 16 k) (chr CHR '' ''))"
      using False less.prems by (intro less.IH) (auto simp: w of_nat_diff)
    moreover have "replicate k (chr CHR '' '') = replicate (min 16 k) (chr CHR '' '') @ replicate (k - min 16 k) (chr CHR '' '')"
      by (simp add: replicate_add [symmetric])
    ultimately show ?thesis unfolding eq
      by (simp only:) (rule emits_bind, assumption, simp, simp add: of_nat_diff)
  qed
qed


lemma unat_add_small: "unat a + unat b < 2 ^ 32 \<Longrightarrow> unat (a + b :: u32) = unat a + unat b"
  by (simp add: unat_word_ariths)

lemma hexdump_words_emits:
  fixes len line :: u32
  assumes "unat len \<le> length buf" "unat len + 16 \<le> 2 ^ 32"
  defines "bs \<equiv> take 16 (drop (unat line) (take (unat len) buf))"
  shows "j \<le> 8 \<Longrightarrow> unat line + 2 * (8 - j) \<le> unat len \<Longrightarrow>
    emits (hexdump_words out kBaseHexdumpDefaultFmt buf len line 16 40 (of_nat (2 * (8 - j))) (of_nat (5 * (8 - j))))
      (of_nat (5 * (8 - j))) (laid_out j (drop (2 * (8 - j)) bs))"
proof (induction j)
  case 0
  have "hexdump_words out kBaseHexdumpDefaultFmt buf len line 16 40 16 40 = (\<lambda>s. Some (40, s))"
    by (intro ext) (subst hexdump_words.simps, simp)
  then show ?case by (simp add: emits_done)
next
  case (Suc j)
  define i where "i = 8 - Suc j"
  have i: "i < 8" "8 - j = Suc i" "8 - Suc j = i" using Suc.prems(1) by (simp_all add: i_def)
  let ?word = "of_nat (2 * i) :: u32" and ?w = "of_nat (5 * i) :: u32"
  have word: "unat ?word = 2 * i" using i(1) by (simp add: unat_of_nat del: of_nat_mult)
  have here: "unat (line + ?word) = unat line + 2 * i" using unat_add_small [of line ?word] Suc.prems(2) assms(2) i unfolding word by simp
  define L where "L = unat len - unat line - 2 * i"
  have left: "unat (len - line - ?word) = L"
    using Suc.prems(2) i word by (simp add: L_def unat_sub word_le_nat_alt)
  let ?n = "if len - line - ?word > 2 then 2 else len - line - ?word"
  have n: "unat ?n = min 2 L" using left by (simp add: word_less_nat_alt min_def)
  have r: "drop (2 * i) bs = take (16 - 2 * i) (drop (unat line + 2 * i) (take (unat len) buf))"
    by (simp only: bs_def drop_take [of "2 * i" 16] drop_drop add.commute [of "2 * i"])
  have r2: "take (unat ?n) (drop (unat (line + ?word)) buf) = take 2 (drop (2 * i) bs)"
  proof -
    have "unat len - (unat line + 2 * i) = L" "min 2 (16 - 2 * i) = 2" using i(1) by (simp_all add: L_def)
    then show ?thesis unfolding r n here by (simp only: drop_take take_take min.assoc [symmetric])
  qed
  have lr: "length (drop (2 * i) bs) = min (16 - 2 * i) L"
    unfolding r using assms(1) by (simp add: L_def min_def)
  have more: "\<not> len < line + ?word" "?word < 16"
    using Suc.prems(2) here i word by (simp_all add: word_less_nat_alt)
  have eq: "hexdump_words out kBaseHexdumpDefaultFmt buf len line 16 40 ?word ?w = (\<lambda>s. do {
      (n, s) \<leftarrow> base_fprintf (Some out) (str '' '') [] s;
      (k, s) \<leftarrow> hex_dump out (drop (unat (line + ?word)) buf) ?n ?n (chr CHR ''0'') False kDigitsLow s;
      hexdump_words out kBaseHexdumpDefaultFmt buf len line 16 40 (?word + 2) (?w + n + k) s })"
    using more by (intro ext) (subst hexdump_words.simps, simp add: Let_def kBaseHexdumpDefaultFmt_def cong: if_cong)
  have blank: "emits (base_fprintf (Some out) (str '' '') []) 0 [chr CHR '' '']"
    using emits_text [of "str '' ''"] by (simp add: str_def)
  have hex: "emits (hex_dump out (drop (unat (line + ?word)) buf) ?n ?n (chr CHR ''0'') False kDigitsLow) 0
      (dump_hex (take 2 (drop (2 * i) bs)))"
  proof -
    have le: "unat ?n \<le> length (drop (unat (line + ?word)) buf)"
      unfolding n length_drop here using assms(1) by (simp add: L_def)
    from emits_hex [OF le, of "chr CHR ''0''"] show ?thesis unfolding r2 .
  qed
  let ?t = "take 2 (drop (2 * i) bs)"
  have lt: "length ?t = min 2 L" using lr i(1) by simp
  have rest: "emits (hexdump_words out kBaseHexdumpDefaultFmt buf len line 16 40 ?word ?w) ?w (chr CHR '' '' # dump_hex ?t @ u)"
    if "emits (hexdump_words out kBaseHexdumpDefaultFmt buf len line 16 40 (?word + 2) (?w + 1 + of_nat (2 * length ?t)))
      (?w + 1 + of_nat (2 * length ?t)) u" for u
  proof -
    have "emits (\<lambda>s. do {
        (k, s) \<leftarrow> hex_dump out (drop (unat (line + ?word)) buf) ?n ?n (chr CHR ''0'') False kDigitsLow s;
        hexdump_words out kBaseHexdumpDefaultFmt buf len line 16 40 (?word + 2) (?w + 1 + k) s }) (?w + 1) (dump_hex ?t @ u)"
      using that by (intro emits_step [OF hex]) (simp only: length_dump_hex)
    then show ?thesis
      unfolding eq using emits_step [OF blank, of _ ?w "dump_hex ?t @ u"] by simp
  qed
  show ?case
  proof (cases "2 \<le> L")
    case True
    then have "length ?t = 2" using lt by simp
    moreover have "?word + 2 = of_nat (2 * Suc i)" "?w + 1 + of_nat (2 * 2) = of_nat (5 * Suc i)" by simp_all
    moreover have "emits (hexdump_words out kBaseHexdumpDefaultFmt buf len line 16 40 (of_nat (2 * Suc i)) (of_nat (5 * Suc i)))
        (of_nat (5 * Suc i)) (laid_out j (drop (2 * Suc i) bs))"
      using Suc.IH Suc.prems True unfolding i L_def by simp
    moreover have "laid_out (Suc j) (drop (2 * i) bs) = chr CHR '' '' # dump_hex ?t @ laid_out j (drop (2 * Suc i) bs)"
    proof -
      have "2 \<le> 16 - 2 * i" using i(1) by linarith
      then have "2 \<le> length (drop (2 * i) bs)" using True unfolding lr by simp
      then show ?thesis by (simp del: length_drop)
    qed
    ultimately show ?thesis unfolding i using rest by metis
  next
    case False
    then have t: "drop (2 * i) bs = ?t" "length ?t = L" using lr lt by simp_all
    have lw: "?word + 2 = of_nat (2 * Suc i)" by simp
    have w2: "unat (?word + 2) = 2 * Suc i" using i(1) unfolding lw by (simp add: unat_of_nat del: of_nat_mult of_nat_Suc)
    let ?u = "if j = 0 then [] else replicate (5 * j + 4 - 2 * L) (chr CHR '' '')"
    have "emits (hexdump_words out kBaseHexdumpDefaultFmt buf len line 16 40 (?word + 2) (?w + 1 + of_nat (2 * L)))
        (?w + 1 + of_nat (2 * L)) ?u"
    proof (cases "j = 0")
      case True
      then have "\<not> ?word + 2 < 16" using i w2 by (simp add: word_less_nat_alt)
      then have "hexdump_words out kBaseHexdumpDefaultFmt buf len line 16 40 (?word + 2) v = (\<lambda>s. Some (v, s))" for v
        by (intro ext) (subst hexdump_words.simps, simp)
      with True show ?thesis by (simp add: emits_done)
    next
      case j: False
      have "?word + 2 < 16" using i j w2 Suc.prems(1) by (simp add: word_less_nat_alt)
      moreover have "unat (line + (?word + 2)) = unat line + 2 * Suc i"
        using unat_add_small [of line "?word + 2"] Suc.prems(2) assms(2) i unfolding w2 by simp
      then have "len < line + (?word + 2)" using False by (simp add: word_less_nat_alt L_def)
      ultimately have spaces: "hexdump_words out kBaseHexdumpDefaultFmt buf len line 16 40 (?word + 2) v = hexdump_spaces out 40 v" for v
        by (intro ext) (subst hexdump_words.simps, simp add: add.assoc)
      have sum: "5 * i + 1 + 2 * L + (5 * j + 4 - 2 * L) = 40" using False i Suc.prems(1) by simp
      have "?w + 1 + of_nat (2 * L) + of_nat (5 * j + 4 - 2 * L) = (of_nat (5 * i + 1 + 2 * L + (5 * j + 4 - 2 * L)) :: u32)"
        by (simp only: of_nat_add of_nat_1)
      also have "\<dots> = 40" unfolding sum by simp
      finally have "?w + 1 + of_nat (2 * L) + of_nat (5 * j + 4 - 2 * L) = (40 :: u32)" .
      moreover have "5 * j + 4 - 2 * L \<le> 40" using i Suc.prems(1) by simp
      ultimately have "emits (hexdump_spaces out 40 (?w + 1 + of_nat (2 * L))) (?w + 1 + of_nat (2 * L))
          (replicate (5 * j + 4 - 2 * L) (chr CHR '' ''))" by (rule emits_spaces)
      then show ?thesis using j spaces by simp
    qed
    then have "emits (hexdump_words out kBaseHexdumpDefaultFmt buf len line 16 40 ?word ?w) ?w (chr CHR '' '' # dump_hex ?t @ ?u)"
      by (intro rest) (simp only: t(2))
    moreover have "laid_out (Suc j) (drop (2 * i) bs) = chr CHR '' '' # dump_hex ?t @ ?u"
      using False t by simp
    ultimately show ?thesis unfolding i by simp
  qed
qed

lemma glyphs_run:
  assumes "unat len \<le> length buf" "unat len + 16 \<le> 2 ^ 32" "unat line \<le> unat len"
  shows "length gb + k \<le> 16 \<Longrightarrow> unat byte + k \<le> 16 \<Longrightarrow>
    hexdump_glyphs out kBaseHexdumpDefaultFmt buf len line k byte gb w s
      = Some (gb @ map dump_char (take k (drop (unat line + unat byte) (take (unat len) buf))), w, s)"
proof (induction k arbitrary: gb byte)
  case (Suc k)
  have at: "unat (line + byte) = unat line + unat byte"
    using Suc.prems(2) assms(2,3) by (intro unat_add_small) simp
  have next_byte: "unat (byte + 1) = unat byte + 1"
    using Suc.prems(2) by (subst unat_add_small) simp_all
  show ?case
  proof (cases "len \<le> line + byte")
    case True
    with Suc.prems at show ?thesis by (simp add: word_le_nat_alt)
  next
    case False
    then have "unat line + unat byte < unat len" using at by (simp add: word_le_nat_alt)
    then have "drop (unat line + unat byte) (take (unat len) buf)
        = buf ! (unat line + unat byte) # drop (unat line + unat byte + 1) (take (unat len) buf)"
      using assms(1) by (subst Cons_nth_drop_Suc [symmetric]) simp_all
    moreover have "alphabet kBaseHexdumpDefaultFmt ! unat b = dump_char b" for b
      using alphabet_dump_char by (simp add: kBaseHexdumpDefaultFmt_def)
    ultimately show ?thesis using Suc False at next_byte by simp
  qed
qed simp

lemma address_format:
  "items_format [Number kUnsignedHexLow (Zeros 8) v, Text [chr CHR '':'']] = str ''%08x:''"
  "items_args [Number kUnsignedHexLow (Zeros 8) v, Text [chr CHR '':'']] = [Va_Word v]"
  "items_text [Number kUnsignedHexLow (Zeros 8) v, Text [chr CHR '':'']]
    = number_text 16 kDigitsLow (Zeros 8) v @ [chr CHR '':'']"
  "\<forall>x \<in> set [Number kUnsignedHexLow (Zeros 8) v, Text [chr CHR '':'']]. item_ok x"
  by (simp add: items_format_def item_format_def spec_format_def str_def, code_simp,
      simp_all add: items_args_def items_text_def number_conv_def)

lemma hexdump_line_emits:
  fixes len line :: u32
  assumes "unat len \<le> length buf" "unat len + 16 \<le> 2 ^ 32" "line < len"
  defines "bs \<equiv> take 16 (drop (unat line) (take (unat len) buf))"
  assumes aligned: "length bs \<notin> {14, 15}"
  shows "emits (hexdump_line out kBaseHexdumpDefaultFmt buf len 16 line w) w (dump_line (unat line) bs)"
  unfolding emits_def
proof (intro allI impI)
  fix s got0 assume s: "got s got0" "length got0 + length (dump_line (unat line) bs) \<le> room"
  let ?addr = "number_text 16 kDigitsLow (Zeros 8) line @ [chr CHR '':'']" and ?hex = "filled 40 (dump_words bs)"
  have lt: "unat line < unat len" using assms(3) by (simp add: word_less_nat_alt)
  have parts: "dump_line (unat line) bs = ?addr @ ?hex @ str ''  '' @ map dump_char bs @ [10]"
    by (simp add: dump_line_def str_def numeral_2_eq_2)
  have len: "length bs = min 16 (unat len - unat line)" using assms(1) by (simp add: bs_def min_def)
  note room = s(2) [unfolded parts, simplified]
  have "emits (base_fprintf (Some out) (str ''%08x:'') [Va_Word line]) 0 ?addr"
    using emits_printf [OF address_format(4)] unfolding address_format(1-3) .
  then obtain s1 where 1: "base_fprintf (Some out) (str ''%08x:'') [Va_Word line] s = Some (of_nat (length ?addr), s1)"
    "got s1 (got0 @ ?addr)"
    by (rule emitsE [OF _ s(1)]) (use room in simp_all)
  have "emits (hexdump_words out kBaseHexdumpDefaultFmt buf len line 16 40 0 0) 0 ?hex"
    using hexdump_words_emits [OF assms(1,2), of 8 line] laid_out_filled [of bs 8] lt aligned len by (simp add: bs_def)
  then obtain s2 where 2: "hexdump_words out kBaseHexdumpDefaultFmt buf len line 16 40 0 0 s1 = Some (of_nat (length ?hex), s2)"
    "got s2 (got0 @ ?addr @ ?hex)"
    by (rule emitsE [OF _ 1(2)]) (use room in simp_all)
  have "emits (base_fprintf (Some out) (str ''  '') []) 0 (str ''  '')"
    by (rule emits_text) (simp_all add: str_def)
  then obtain s3 where 3: "base_fprintf (Some out) (str ''  '') [] s2 = Some (2, s3)"
    "got s3 (got0 @ ?addr @ ?hex @ str ''  '')"
    by (rule emitsE [OF _ 2(2)]) (use room in \<open>simp_all add: str_def\<close>)
  have 4: "hexdump_glyphs out kBaseHexdumpDefaultFmt buf len line 16 0 [] v s3 = Some (map dump_char bs, v, s3)" for v
    using glyphs_run [OF assms(1,2), of line "[]" 16 0] lt by (simp add: bs_def)
  have few: "unat (of_nat (length bs) :: u32) = length bs" "0 < length bs" using len lt by (simp_all add: unat_of_nat)
  have "emits (base_fprintf (Some out) (str ''%!s'') [Va_Word (of_nat (length bs)), Va_Ptr (map dump_char bs)]) 0 (map dump_char bs)"
    using emits_bytes [of "of_nat (length bs)" "map dump_char bs"] few by simp
  then obtain s4 where 5: "base_fprintf (Some out) (str ''%!s'') [Va_Word (of_nat (length bs)), Va_Ptr (map dump_char bs)] s3
      = Some (of_nat (length bs), s4)"
    "got s4 (got0 @ ?addr @ ?hex @ str ''  '' @ map dump_char bs)"
    by (rule emitsE [OF _ 3(2)]) (use room in \<open>simp_all add: str_def\<close>)
  have "emits (base_fprintf (Some out) [10] []) 0 [10]"
    by (rule emits_text) (simp_all add: str_def)
  then obtain s5 where 6: "base_fprintf (Some out) [10] [] s4 = Some (1, s5)"
    "got s5 (got0 @ dump_line (unat line) bs)"
    unfolding parts by (rule emitsE [OF _ 5(2)]) (use room in \<open>simp_all add: str_def\<close>)
  have "hexdump_line out kBaseHexdumpDefaultFmt buf len 16 line w s
      = Some (w + of_nat (length ?addr) + of_nat (length ?hex) + 2 + of_nat (length bs) + 1, s5)"
  proof -
    have cols: "16 * 2 + words_per_line kBaseHexdumpDefaultFmt = 40" by (simp add: kBaseHexdumpDefaultFmt_def)
    have sixteen: "unat (16 :: u32) = 16" by simp
    show ?thesis
      by (simp only: hexdump_line_def Let_def cols 1(1) 2(1) 3(1) sixteen 4 length_map few(2) if_True 5(1) 6(1)
          Option.bind.bind_lunit prod.case)
  qed
  with 6(2) show "\<exists>s'. hexdump_line out kBaseHexdumpDefaultFmt buf len 16 line w s
        = Some (w + of_nat (length (dump_line (unat line) bs)), s') \<and> got s' (got0 @ dump_line (unat line) bs)"
    unfolding parts by (simp add: str_def ac_simps)
qed

lemma hexdump_lines_emits:
  fixes len line :: u32
  assumes "unat len \<le> length buf" "unat len + 16 \<le> 2 ^ 32" "hexdump_aligned (take (unat len) buf)"
  shows "unat line mod 16 = 0 \<Longrightarrow>
    emits (hexdump_lines out kBaseHexdumpDefaultFmt buf len 16 line w) w
      (dump_lines (unat line) (drop (unat line) (take (unat len) buf)))"
proof (induction "unat len - unat line" arbitrary: line w rule: less_induct)
  case less
  show ?case
  proof (cases "line < len")
    case False
    then have "drop (unat line) (take (unat len) buf) = []" by (simp add: word_less_nat_alt)
    moreover have "hexdump_lines out kBaseHexdumpDefaultFmt buf len 16 line w = (\<lambda>s. Some (w, s))"
      using False by (intro ext) (subst hexdump_lines.simps, simp)
    ultimately show ?thesis by (simp add: dump_lines.simps emits_done)
  next
    case True
    then have lt: "unat line < unat len" by (simp add: word_less_nat_alt)
    let ?rest = "drop (unat line) (take (unat len) buf)"
    have l16: "unat (line + 16) = unat line + 16" using lt assms(2) by (subst unat_add_small) simp_all
    obtain q where q: "unat line = 16 * q" using less.prems by (auto elim: dvdE)
    have lrest: "length ?rest = unat len - unat line" using assms(1) by simp
    have "length (take 16 ?rest) \<notin> {14, 15}"
    proof (cases "length ?rest < 16")
      case True
      then have "unat len mod 16 = length ?rest" using lt q lrest by (metis le_add_diff_inverse less_imp_le mod_less mod_mult_self4)
      moreover have "unat len mod 16 \<notin> {14, 15}" using assms(1,3) by (simp add: hexdump_aligned_def)
      moreover have "length (take 16 ?rest) = length ?rest" using True by simp
      ultimately show ?thesis by simp
    qed simp
    from hexdump_line_emits [OF assms(1,2) True this, of w]
    have one: "emits (hexdump_line out kBaseHexdumpDefaultFmt buf len 16 line w) w (dump_line (unat line) (take 16 ?rest))" .
    have more: "emits (hexdump_lines out kBaseHexdumpDefaultFmt buf len 16 (line + 16) v) v
        (dump_lines (unat line + 16) (drop 16 ?rest))" for v
      using less.hyps [of "line + 16" v] less.prems lt by (simp add: l16 add.commute [of 16])
    have eq: "hexdump_lines out kBaseHexdumpDefaultFmt buf len 16 line w = (\<lambda>s. do {
        (w, s) \<leftarrow> hexdump_line out kBaseHexdumpDefaultFmt buf len 16 line w s;
        hexdump_lines out kBaseHexdumpDefaultFmt buf len 16 (line + 16) w s })"
      using True by (intro ext) (subst hexdump_lines.simps, simp)
    have "?rest \<noteq> []" using lt lrest by (metis length_0_conv zero_less_diff less_irrefl)
    then have parts: "dump_lines (unat line) ?rest = dump_line (unat line) (take 16 ?rest) @ dump_lines (unat line + 16) (drop 16 ?rest)"
      by (subst dump_lines.simps) simp
    show ?thesis unfolding eq parts by (rule emits_bind [OF one more]) (simp add: add.assoc)
  qed
qed

lemma fhexdump_emits:
  assumes "unat len \<le> length buf" "unat len + 16 \<le> 2 ^ 32" "hexdump_aligned (take (unat len) buf)"
  shows "emits (base_fhexdump (Some out) buf len) 0 (hexdump_text (take (unat len) buf))"
proof -
  have "base_fhexdump (Some out) buf len = hexdump_lines out kBaseHexdumpDefaultFmt buf len 16 0 0"
    by (intro ext) (simp add: base_fhexdump_def base_fhexdump_with_def kBaseHexdumpDefaultFmt_def)
  then show ?thesis using hexdump_lines_emits [OF assms, of 0 0] by (simp add: hexdump_text_def)
qed

end

interpretation room_snprintf: roomy_sink snprintf_sink "captured buf len m" cap_buf "unat len" buf for buf len m
  by unfold_locales (auto simp: captured_def Let_def)

interpretation room_uart: roomy_sink "base_dev_uart (uart_bus (base (base_addr h)) (Suc rate)) (Some h)"
    "\<lambda>d bs. uart_out d = before @ bs" "\<lambda>d. of_nat (length (uart_out d))" room "of_nat (length before)" for h rate before room
  by unfold_locales simp

text \<open>A dump is longer than what it shows.\<close>

lemma dump_lines_length: "bs \<noteq> [] \<Longrightarrow> length bs + 16 \<le> length (dump_lines a bs)"
proof (induction a bs rule: dump_lines.induct)
  case (1 a bs)
  have "40 \<le> length (filled 40 (dump_words (take 16 bs)))" by (simp add: filled_def)
  then have "length (take 16 bs) + 16 \<le> length (dump_line a (take 16 bs))" by (simp add: dump_line_def)
  moreover have "length (drop 16 bs) \<le> length (dump_lines (a + 16) (drop 16 bs))"
    using 1 by (cases "drop 16 bs = []") auto
  moreover have "length (dump_lines a bs) = length (dump_line a (take 16 bs)) + length (dump_lines (a + 16) (drop 16 bs))"
    using 1(2) by (subst dump_lines.simps) simp
  ultimately show ?case by simp
qed

text \<open>C29: Hex dumps into a buffer that is large enough: for every buffer and length, as long as the last
  line does not have 14 or 15 bytes, \<open>base_snhexdump\<close> returns, it stores exactly the dump in the layout of
  \<^verbatim>\<open>xxd\<close> (for each sixteen bytes the address, the bytes in hexadecimal in words of two, filled up to
  40 columns, and the bytes as characters), no other byte of memory is changed, and the result is the
  number of bytes stored. (A last line of 14 or 15 bytes gets fewer blanks, and a buffer that is too
  small can keep the function from returning.)\<close>

theorem base_snhexdump_prints:
  assumes "data = take (unat len) buf" "unat len \<le> length buf" "hexdump_aligned data"
    "length (hexdump_text data) \<le> unat out_len"
  shows "base_snhexdump out out_len buf len m
    = Some (of_nat (length (hexdump_text data)), overlay m out (hexdump_text data))"
proof -
  let ?s = "\<lparr>cap_buf = out, cap_left = out_len, cap_mem = m\<rparr>"
  have small: "unat len + 16 \<le> 2 ^ 32"
  proof (cases "data = []")
    case True
    then show ?thesis using assms(1,2) by auto
  next
    case False
    have "length data + 16 \<le> unat out_len"
      using dump_lines_length [OF False, of 0] assms(4) by (simp add: hexdump_text_def)
    then show ?thesis using assms(1,2) unat_less_2p [of out_len] by simp
  qed
  have "captured out out_len m ?s []" by (simp add: captured_def)
  have aligned: "hexdump_aligned (take (unat len) buf)" using assms(1,3) by simp
  from \<open>captured out out_len m ?s []\<close> obtain s' where
    "base_fhexdump (Some snprintf_sink) buf len ?s = Some (of_nat (length (hexdump_text data)), s')"
    "captured out out_len m s' (hexdump_text data)"
    by (rule room_snprintf.emitsE [OF room_snprintf.fhexdump_emits [OF assms(2) small aligned]]) (use assms(1,4) in simp_all)
  then show ?thesis using assms(4)
    by (auto simp: base_snhexdump_def base_snhexdump_with_def base_fhexdump_def captured_def Let_def)
qed

lemma base_snhexdump_prints_witness:
  "base_snhexdump 0x100 200 (str ''The five boxing wizards'') 17 (\<lambda>_. 0) = Some (121, overlay (\<lambda>_. 0) 0x100
    (str ''00000000: 5468 6520 6669 7665 2062 6f78 696e 6720  The five boxing '' @ [10]
      @ str ''00000010: 77                                       w'' @ [10]))"
proof -
  have t: "hexdump_text (take 17 (str ''The five boxing wizards''))
      = str ''00000000: 5468 6520 6669 7665 2062 6f78 696e 6720  The five boxing '' @ [10]
      @ str ''00000010: 77                                       w'' @ [10]"
    "unat (17 :: u32) \<le> length (str ''The five boxing wizards'')" "hexdump_aligned (take 17 (str ''The five boxing wizards''))" "length (str ''00000000: 5468 6520 6669 7665 2062 6f78 696e 6720  The five boxing '' @ [10]
      @ str ''00000010: 77                                       w'' @ [10]) = 121"
    by code_simp+
  have u: "unat (17 :: u32) = 17" "unat (200 :: u32) = 200" by simp_all
  show ?thesis
    using base_snhexdump_prints [OF refl t(2), of 200 "0x100" "\<lambda>_. 0", unfolded u t(1,4)] t(3) by (simp only:) simp
qed

text \<open>On the UART there is always room.\<close>

lemma base_hexdump_uart:
  assumes "data = take (unat len) buf" "unat len \<le> length buf" "unat len + 16 \<le> 2 ^ 32" "hexdump_aligned data"
  shows "\<exists>d'. base_hexdump (base_uart_stdout (uart_bus (base (base_addr h)) (Suc rate)) (Some h)) buf len d
      = Some (of_nat (length (hexdump_text data)), d')
    \<and> tx_line d' @ tx_fifo d' = tx_line d @ tx_fifo d @ hexdump_text data"
proof -
  have aligned: "hexdump_aligned (take (unat len) buf)" using assms(1,4) by simp
  have "uart_out d = uart_out d @ []" by simp
  then obtain d' where "base_fhexdump (Some (base_dev_uart (uart_bus (base (base_addr h)) (Suc rate)) (Some h))) buf len d
      = Some (of_nat (length (hexdump_text data)), d')" "uart_out d' = uart_out d @ hexdump_text data"
    by (rule room_uart.emitsE [OF room_uart.fhexdump_emits [OF assms(2,3) aligned],
          where room = "length (hexdump_text data)"]) (use assms(1) in simp_all)
  then show ?thesis
    by (auto simp: base_hexdump_def base_hexdump_with_def base_fhexdump_def base_uart_stdout_def base_set_stdout_def uart_out_def)
qed

end
