(* ===== verification/Crc32.thy ===== *)
theory Crc32
  imports Memory
begin

section \<open>CRC-32\<close>

text \<open>
  \<^verbatim>\<open>sw/device/lib/base/crc32.c\<close>, the portable branch (the build does not define
  \<open>CHERIOT_ZBR\<close>). The context is the running remainder. \<open>crc32_add\<close> walks a buffer in memory:
  single bytes up to the first aligned address, then words, then the remaining bytes.
\<close>

definition kCrc32Poly :: u32 where
  "kCrc32Poly = 0xedb88320"

fun crc32_bits :: "nat \<Rightarrow> u32 \<Rightarrow> u32" where
  "crc32_bits 0 ctx = ctx"
| "crc32_bits (Suc i) ctx =
     (let lsb = bit ctx 0;
          ctx = drop_bit 1 ctx
      in crc32_bits i (if lsb then ctx XOR kCrc32Poly else ctx))"

definition crc32_internal_add8 :: "u32 \<Rightarrow> u8 \<Rightarrow> u32" where
  "crc32_internal_add8 ctx byte = crc32_bits 8 (ctx XOR ucast byte)"

definition crc32_internal_add32 :: "u32 \<Rightarrow> u32 \<Rightarrow> u32" where
  "crc32_internal_add32 ctx word =
     foldl (\<lambda>ctx i. crc32_internal_add8 ctx (byte32 word i)) ctx [0..<4]"

definition crc32_init :: u32 where
  "crc32_init = 0xffffffff"

definition crc32_add8 :: "u32 \<Rightarrow> u8 \<Rightarrow> u32" where
  "crc32_add8 ctx byte = crc32_internal_add8 ctx byte"

definition crc32_add32 :: "u32 \<Rightarrow> u32 \<Rightarrow> u32" where
  "crc32_add32 ctx word = crc32_internal_add32 ctx word"

text \<open>The three loops of \<open>crc32_add\<close>; each returns the state, the remaining length and the
  advanced data pointer.\<close>

fun crc32_head :: "memory \<Rightarrow> u32 \<Rightarrow> nat \<Rightarrow> addr \<Rightarrow> u32 \<times> nat \<times> addr" where
  "crc32_head m state len data =
     (if len > 0 \<and> data AND 3 \<noteq> 0
      then crc32_head m (crc32_internal_add8 state (m data)) (len - 1) (data + 1)
      else (state, len, data))"

fun crc32_body :: "memory \<Rightarrow> u32 \<Rightarrow> nat \<Rightarrow> addr \<Rightarrow> u32 \<times> nat \<times> addr" where
  "crc32_body m state len data =
     (if len \<ge> 4
      then crc32_body m (crc32_internal_add32 state (read_32 m data)) (len - 4) (data + 4)
      else (state, len, data))"

fun crc32_tail :: "memory \<Rightarrow> u32 \<Rightarrow> nat \<Rightarrow> addr \<Rightarrow> u32" where
  "crc32_tail m state len data =
     (if len > 0
      then crc32_tail m (crc32_internal_add8 state (m data)) (len - 1) (data + 1)
      else state)"

declare crc32_head.simps [simp del] crc32_body.simps [simp del] crc32_tail.simps [simp del]

definition crc32_add :: "memory \<Rightarrow> u32 \<Rightarrow> addr \<Rightarrow> u32 \<Rightarrow> u32" where
  "crc32_add m ctx buf len =
     (case crc32_head m ctx (unat len) buf of (state, len, data) \<Rightarrow>
      case crc32_body m state len data of (state, len, data) \<Rightarrow>
        crc32_tail m state len data)"

definition crc32_finish :: "u32 \<Rightarrow> u32" where
  "crc32_finish ctx = ctx XOR 0xffffffff"

definition crc32 :: "memory \<Rightarrow> addr \<Rightarrow> u32 \<Rightarrow> u32" where
  "crc32 m buf len = crc32_finish (crc32_add m crc32_init buf len)"

subsection \<open>The walk over a buffer is the fold over its bytes\<close>

definition crc32_bytes :: "u32 \<Rightarrow> u8 list \<Rightarrow> u32" where
  "crc32_bytes ctx bs = foldl crc32_internal_add8 ctx bs"

lemma crc32_bytes_Nil [simp]: "crc32_bytes ctx [] = ctx"
  by (simp add: crc32_bytes_def)

lemma crc32_bytes_Cons [simp]:
  "crc32_bytes ctx (b # bs) = crc32_bytes (crc32_internal_add8 ctx b) bs"
  by (simp add: crc32_bytes_def)

lemma crc32_bytes_append [simp]:
  "crc32_bytes ctx (bs @ cs) = crc32_bytes (crc32_bytes ctx bs) cs"
  by (simp add: crc32_bytes_def)

lemma crc32_internal_add32_bytes:
  "crc32_internal_add32 ctx (read_32 m p) = crc32_bytes ctx [m p, m (p + 1), m (p + 2), m (p + 3)]"
proof -
  have "[0..<4 :: nat] = [0, 1, 2, 3]" by (simp add: numeral_eq_Suc)
  then show ?thesis
    by (simp add: crc32_internal_add32_def read_32_def)
qed

lemma mem_bytes_shift: "mem_bytes m (p + of_nat i) 0 n = mem_bytes m p i (i + n)"
proof -
  have "[i..<i + n] = map (\<lambda>k. i + k) [0..<n]" by (simp add: map_add_upt add.commute)
  then show ?thesis by (simp add: mem_bytes_def o_def add.assoc)
qed

lemma mem_bytes_0_Suc: "mem_bytes m p 0 (Suc n) = m p # mem_bytes m (p + 1) 0 n"
  using mem_bytes_shift [of m p 1 n] by (simp add: mem_bytes_Cons)

lemma mem_bytes_0_4:
  "mem_bytes m p 0 (n + 4) = m p # m (p + 1) # m (p + 2) # m (p + 3) # mem_bytes m (p + 4) 0 n"
  using mem_bytes_shift [of m p 4 n] by (simp add: mem_bytes_4 [of 0] add.commute)

lemma crc32_tail_bytes: "crc32_tail m s n p = crc32_bytes s (mem_bytes m p 0 n)"
proof (induction n arbitrary: s p)
  case 0
  then show ?case by (simp add: crc32_tail.simps [of m s 0])
next
  case (Suc n)
  then show ?case by (simp add: crc32_tail.simps [of m s "Suc n"] mem_bytes_0_Suc)
qed

lemma crc32_body_bytes:
  "crc32_body m s n p = (s', n', p') \<Longrightarrow>
    crc32_bytes s (mem_bytes m p 0 n) = crc32_bytes s' (mem_bytes m p' 0 n')"
proof (induction n arbitrary: s p rule: less_induct)
  case (less n)
  show ?case
  proof (cases "n \<ge> 4")
    case True
    then obtain k where n: "n = k + 4" by (metis le_add_diff_inverse2)
    with less.prems have
      "crc32_body m (crc32_internal_add32 s (read_32 m p)) k (p + 4) = (s', n', p')"
      by (simp add: crc32_body.simps [of m s "k + 4"])
    from less.IH [OF _ this] show ?thesis
      by (simp add: n mem_bytes_0_4 crc32_internal_add32_bytes)
  next
    case False
    with less.prems show ?thesis by (simp add: crc32_body.simps [of m s n])
  qed
qed

lemma crc32_head_bytes:
  "crc32_head m s n p = (s', n', p') \<Longrightarrow>
    crc32_bytes s (mem_bytes m p 0 n) = crc32_bytes s' (mem_bytes m p' 0 n')"
proof (induction n arbitrary: s p)
  case 0
  then show ?case by (simp add: crc32_head.simps [of m s 0])
next
  case (Suc n)
  show ?case
  proof (cases "p AND 3 = 0")
    case False
    with Suc.prems have "crc32_head m (crc32_internal_add8 s (m p)) n (p + 1) = (s', n', p')"
      by (simp add: crc32_head.simps [of m s "Suc n"])
    from Suc.IH [OF this] show ?thesis by (simp add: mem_bytes_0_Suc)
  next
    case True
    with Suc.prems show ?thesis by (simp add: crc32_head.simps [of m s "Suc n"])
  qed
qed

lemma crc32_add_bytes: "crc32_add m ctx buf len = crc32_bytes ctx (mem_bytes m buf 0 (unat len))"
proof -
  obtain s1 n1 p1 where 1: "crc32_head m ctx (unat len) buf = (s1, n1, p1)"
    by (cases "crc32_head m ctx (unat len) buf")
  obtain s2 n2 p2 where 2: "crc32_body m s1 n1 p1 = (s2, n2, p2)"
    by (cases "crc32_body m s1 n1 p1")
  show ?thesis
    using crc32_head_bytes [OF 1] crc32_body_bytes [OF 2]
    by (simp add: crc32_add_def 1 2 crc32_tail_bytes)
qed

subsection \<open>The update is linear and one-to-one\<close>

definition crc32_step :: "u32 \<Rightarrow> u32" where
  "crc32_step c = (if bit c 0 then drop_bit 1 c XOR kCrc32Poly else drop_bit 1 c)"

lemma crc32_bits_Suc: "crc32_bits (Suc n) c = crc32_bits n (crc32_step c)"
  by (simp add: crc32_step_def Let_def)

lemma bit_poly_31: "bit kCrc32Poly 31"
  by (simp add: kCrc32Poly_def)

lemma bit_crc32_step:
  "bit (crc32_step c) n \<longleftrightarrow> (bit c (Suc n) \<noteq> (bit c 0 \<and> bit kCrc32Poly n))"
  by (simp add: crc32_step_def bit_xor_iff bit_drop_bit_eq)

lemma crc32_step_top: "bit (crc32_step c) 31 = bit c 0"
  using bit_imp_le_length [of c 32] by (auto simp: bit_crc32_step bit_poly_31)

lemma crc32_step_inj: "crc32_step c = crc32_step d \<Longrightarrow> c = d"
proof (rule bit_word_eqI)
  fix n :: nat
  assume eq: "crc32_step c = crc32_step d"
  then have 0: "bit c 0 = bit d 0" by (metis crc32_step_top)
  show "bit c n = bit d n"
  proof (cases n)
    case (Suc k)
    from eq have "bit (crc32_step c) k = bit (crc32_step d) k" by simp
    with 0 Suc show ?thesis by (auto simp: bit_crc32_step)
  qed (simp add: 0)
qed

lemma crc32_step_xor: "crc32_step (c XOR d) = crc32_step c XOR crc32_step d"
  by (rule bit_word_eqI) (auto simp: bit_crc32_step bit_xor_iff)

lemma crc32_step_push_bit:
  assumes "\<And>k. 32 - Suc n \<le> k \<Longrightarrow> \<not> bit y k" "Suc n \<le> 32"
  shows "crc32_step (push_bit (Suc n) y) = push_bit n y"
proof (rule bit_word_eqI)
  fix k :: nat
  assume k: "k < LENGTH(32)"
  show "bit (crc32_step (push_bit (Suc n) y)) k = bit (push_bit n y) k"
  proof (cases "k = 31")
    case True
    with assms(1) [of "31 - n"] assms(2) show ?thesis
      by (simp only: bit_crc32_step bit_push_bit_iff_word, simp)
  next
    case False
    with k have "Suc k < 32" by simp
    with assms show ?thesis
      by (simp only: bit_crc32_step bit_push_bit_iff_word, simp)
  qed
qed

text \<open>The remainder absorbs the bits of the bytes one after the other, the lowest bit of a byte
  first, which is the order in which they are sent.\<close>

definition crc32_bit_step :: "u32 \<Rightarrow> bool \<Rightarrow> u32" where
  "crc32_bit_step c b = crc32_step (c XOR of_bool b)"

definition byte_bits :: "u8 \<Rightarrow> bool list" where
  "byte_bits b = map (bit b) [0..<8]"

definition message_bits :: "u8 list \<Rightarrow> bool list" where
  "message_bits bs = concat (map byte_bits bs)"

lemma message_bits_simps [simp]:
  "message_bits [] = []" "message_bits (b # bs) = byte_bits b @ message_bits bs"
  by (simp_all add: message_bits_def)

lemma length_byte_bits [simp]: "length (byte_bits b) = 8"
  by (simp add: byte_bits_def)

lemma length_message_bits [simp]: "length (message_bits bs) = 8 * length bs"
  by (induction bs) simp_all

lemma message_bits_inj: "length xs = length ys \<Longrightarrow> message_bits xs = message_bits ys \<Longrightarrow> xs = ys"
proof (induction xs ys rule: list_induct2)
  case (Cons x xs y ys)
  then have "byte_bits x = byte_bits y" by simp
  then have "bit x n = bit y n" if "n < 8" for n
    using that by (simp add: byte_bits_def)
  then have "x = y" by (intro bit_word_eqI) simp
  with Cons show ?case by simp
qed simp

text \<open>Absorbing a number that has only its low \<open>n\<close> bits is absorbing these bits one by one.\<close>

lemma crc32_bits_steps:
  assumes "\<And>k. n \<le> k \<Longrightarrow> \<not> bit y k" "n \<le> 32"
  shows "crc32_bits n (c XOR y) = foldl crc32_bit_step c (map (bit y) [0..<n])"
  using assms
proof (induction n arbitrary: c y)
  case 0
  then have "y = 0" by (intro bit_word_eqI) simp
  then show ?case by simp
next
  case (Suc n)
  let ?y = "drop_bit 1 y"
  have y: "y = of_bool (bit y 0) XOR push_bit 1 ?y"
    proof (rule bit_word_eqI)
    fix k :: nat
    assume "k < LENGTH(32)"
    then show "bit y k = bit (of_bool (bit y 0) XOR push_bit 1 ?y) k"
      by (simp only: bit_xor_iff bit_of_bool_iff bit_push_bit_iff_word bit_drop_bit_eq) (cases k; simp)
  qed
  have "crc32_step (push_bit (Suc 0) ?y) = push_bit 0 ?y"
    using Suc.prems by (intro crc32_step_push_bit) (auto simp: bit_drop_bit_eq)
  then have "crc32_step (c XOR y) = crc32_bit_step c (bit y 0) XOR ?y"
    by (subst y) (simp add: crc32_bit_step_def crc32_step_xor xor.assoc)
  moreover have "map (bit y) [0..<Suc n] = bit y 0 # map (bit ?y) [0..<n]"
    by (simp add: map_upt_Suc bit_drop_bit_eq del: upt_Suc)
  moreover have "crc32_bits n (crc32_bit_step c (bit y 0) XOR ?y)
      = foldl crc32_bit_step (crc32_bit_step c (bit y 0)) (map (bit ?y) [0..<n])"
    using Suc.prems by (intro Suc.IH) (auto simp: bit_drop_bit_eq)
  ultimately show ?case by (simp only: crc32_bits_Suc foldl_Cons)
qed

lemma crc32_bytes_steps: "crc32_bytes c bs = foldl crc32_bit_step c (message_bits bs)"
proof (induction bs arbitrary: c)
  case (Cons b bs)
  have "crc32_internal_add8 c b = foldl crc32_bit_step c (map (bit (ucast b :: u32)) [0..<8])"
    unfolding crc32_internal_add8_def
    by (rule crc32_bits_steps) (auto simp: bit_simps dest: bit_imp_le_length)
  also have "map (bit (ucast b :: u32)) [0..<8] = byte_bits b"
    by (auto simp: byte_bits_def bit_ucast_iff)
  finally show ?case by (simp add: Cons.IH)
qed simp

lemma crc32_steps_xor:
  "length bs = length ds \<Longrightarrow> foldl crc32_bit_step c bs XOR foldl crc32_bit_step d ds
    = foldl crc32_bit_step (c XOR d) (map2 (\<noteq>) bs ds)"
proof (induction bs ds arbitrary: c d rule: list_induct2)
  case (Cons b bs e ds)
  have "crc32_bit_step c b XOR crc32_bit_step d e = crc32_bit_step (c XOR d) (b \<noteq> e)"
    unfolding crc32_bit_step_def crc32_step_xor [symmetric]
    by (intro arg_cong [where f = crc32_step] bit_word_eqI) (auto simp: bit_simps)
  with Cons show ?case by simp
qed simp

lemma crc32_steps_zero: "foldl crc32_bit_step 0 (replicate n False) = 0"
proof -
  have "crc32_bit_step 0 False = 0" by (simp add: crc32_bit_step_def crc32_step_def)
  then show ?thesis by (induction n) simp_all
qed

lemma crc32_steps_inj: "foldl crc32_bit_step c bs = foldl crc32_bit_step d bs \<Longrightarrow> c = d"
  by (induction bs arbitrary: c d) (force simp: crc32_bit_step_def dest: crc32_step_inj)+

text \<open>At most 32 bits that take the remainder to zero are the bits of the remainder: the top bit of
  every later remainder shows that the polynomial was not added.\<close>

lemma crc32_steps_to_zero:
  "length bs \<le> 32 \<Longrightarrow> foldl crc32_bit_step c bs = 0 \<Longrightarrow> bs = map (bit c) [0..<length bs] \<and> (\<forall>k\<ge>length bs. \<not> bit c k)"
proof (induction bs arbitrary: c)
  case Nil
  then show ?case by simp
next
  case (Cons b bs)
  let ?c = "crc32_bit_step c b"
  from Cons have IH: "bs = map (bit ?c) [0..<length bs]" "\<forall>k\<ge>length bs. \<not> bit ?c k" by simp_all
  then have "\<not> bit ?c 31" using Cons.prems(1) by simp
  then have 0: "\<not> bit (c XOR of_bool b) 0" unfolding crc32_bit_step_def crc32_step_top .
  then have b: "b = bit c 0" by (auto simp: bit_simps)
  have later: "bit ?c k = bit c (Suc k)" for k
    using 0 by (auto simp: crc32_bit_step_def bit_crc32_step bit_simps)
  have "\<not> bit c k" if "Suc (length bs) \<le> k" for k
    using IH(2) later [of "k - 1"] that by (cases k) auto
  moreover have "b # bs = map (bit c) [0..<Suc (length bs)]"
    using IH(1) unfolding map_upt_Suc b [symmetric] later by simp
  ultimately show ?case by simp
qed

lemma crc32_bits_burst:
  assumes "length xs = length ys" "foldl crc32_bit_step c xs = foldl crc32_bit_step c ys"
    and "\<And>j. j < length xs \<Longrightarrow> j < first \<or> first + 32 \<le> j \<Longrightarrow> xs ! j = ys ! j"
  shows "xs = ys"
proof -
  define d where "d = map2 (\<noteq>) xs ys"
  define p w q where "p = take first d" and "w = take 32 (drop first d)" and "q = drop 32 (drop first d)"
  have d: "d = p @ w @ q" by (simp only: p_def w_def q_def append_take_drop_id)
  have len: "length d = length xs" using assms(1) by (simp add: d_def)
  have nth: "d ! i \<longleftrightarrow> xs ! i \<noteq> ys ! i" if "i < length xs" for i
    using that assms(1) by (simp add: d_def)
  have p: "p = replicate (length p) False"
    using assms(3) nth len by (intro replicate_eqI refl) (auto simp: p_def in_set_conv_nth)
  have q: "q = replicate (length q) False"
    using assms(3) nth len by (intro replicate_eqI refl) (auto simp: q_def in_set_conv_nth add.commute)
  have "foldl crc32_bit_step 0 d = 0"
    using crc32_steps_xor [OF assms(1), of c c] assms(2) by (simp add: d_def)
  then have "foldl crc32_bit_step (foldl crc32_bit_step (foldl crc32_bit_step 0 p) w) q = 0"
    unfolding d by simp
  moreover have "foldl crc32_bit_step 0 p = 0" "foldl crc32_bit_step 0 q = 0"
    by (subst p, rule crc32_steps_zero, subst q, rule crc32_steps_zero)
  ultimately have "foldl crc32_bit_step (foldl crc32_bit_step 0 w) q = foldl crc32_bit_step 0 q" by simp
  then have "foldl crc32_bit_step 0 w = 0" by (rule crc32_steps_inj)
  then have w: "w = map (bit (0 :: u32)) [0..<length w]"
    using crc32_steps_to_zero [of w 0] by (metis w_def length_take min.cobounded2)
  have none: "True \<notin> set (replicate n False)" "True \<notin> set (map (bit (0 :: u32)) is)" for n "is" by auto
  have "True \<notin> set p" "True \<notin> set q" using none(1) p q by metis+
  moreover have "True \<notin> set w" using none(2) w by metis
  ultimately have "True \<notin> set d" by (simp add: d)
  have "xs ! i = ys ! i" if i: "i < length xs" for i
  proof (rule ccontr)
    assume "xs ! i \<noteq> ys ! i"
    with nth [OF i] have "d ! i = True" by simp
    moreover have "d ! i \<in> set d" using i len by simp
    ultimately show False using \<open>True \<notin> set d\<close> by simp
  qed
  then show ?thesis using assms(1) by (intro nth_equalityI) simp_all
qed

definition message_bit :: "u8 list \<Rightarrow> nat \<Rightarrow> bool" where
  "message_bit bs j = bit (bs ! (j div 8)) (j mod 8)"

lemma message_bits_nth: "j < 8 * length bs \<Longrightarrow> message_bits bs ! j = message_bit bs j"
proof (induction bs arbitrary: j)
  case (Cons b bs)
  show ?case
  proof (cases "j < 8")
    case True
    then show ?thesis by (simp add: nth_append message_bit_def byte_bits_def)
  next
    case False
    then have "message_bit (b # bs) j = message_bit bs (j - 8)"
      by (simp add: message_bit_def le_div_geq le_mod_geq)
    with Cons False show ?thesis by (simp add: nth_append)
  qed
qed simp

subsection \<open>Properties\<close>

text \<open>C4: The CRC of a buffer depends only on its bytes: the walk with its unaligned head, its
  word-wise body and its tail computes, for every address and length, the byte-by-byte fold,
  and a buffer may be added in two pieces.\<close>

theorem crc32_alignment_independent:
  assumes "unat a + unat b < 2 ^ 32"
  shows "crc32_add m ctx buf (a + b) = crc32_bytes ctx (mem_bytes m buf 0 (unat a + unat b)) \<and>
    crc32_add m (crc32_add m ctx buf a) (buf + a) b = crc32_add m ctx buf (a + b)"
proof -
  have "unat (a + b) = unat a + unat b" using assms by (simp add: unat_word_ariths)
  moreover have "mem_bytes m buf 0 (unat a + unat b) =
    mem_bytes m buf 0 (unat a) @ mem_bytes m (buf + a) 0 (unat b)"
    using mem_bytes_shift [of m buf "unat a" "unat b"] by (simp add: mem_bytes_append)
  ultimately show ?thesis by (simp add: crc32_add_bytes)
qed

theorem crc32_alignment_independent_witness:
  "crc32_add (\<lambda>a. ucast a) (crc32_add (\<lambda>a. ucast a) crc32_init 0x1003 6) (0x1003 + 6) 5 =
    crc32_add (\<lambda>a. ucast a) crc32_init 0x1003 (6 + 5)"
  using crc32_alignment_independent [of 6 5 "\<lambda>a. ucast a" crc32_init "0x1003"] by simp

text \<open>The published check value of this CRC (the one of \<open>zlib.crc32\<close>): the nine bytes of
  the string 123456789 at an odd address give \<open>0xcbf43926\<close>.\<close>

lemma crc32_check_value:
  "crc32 (\<lambda>a. 0x30 + ucast (a - 0x1000)) 0x1001 9 = 0xcbf43926"
proof -
  have "mem_bytes (\<lambda>a. 0x30 + ucast (a - 0x1000)) 0x1001 0 (unat (9 :: u32)) =
    [0x31, 0x32, 0x33, 0x34, 0x35, 0x36, 0x37, 0x38, 0x39]"
    by (simp add: mem_bytes_def upt_rec)
  moreover have "crc32_bytes crc32_init [0x31, 0x32, 0x33, 0x34, 0x35, 0x36, 0x37, 0x38, 0x39]
      XOR 0xffffffff = 0xcbf43926"
    by code_simp
  ultimately show ?thesis
    by (simp add: crc32_def crc32_finish_def crc32_add_bytes)
qed

text \<open>C5: Every corruption of a message that is confined to 32 consecutive bits (a burst, wherever it
  starts and however many bytes it touches, the bits of a byte counted from the lowest) changes its
  CRC: two different messages of one length that agree on all bits outside such a window never have
  the same CRC.\<close>

theorem crc32_detects_burst:
  assumes "xs = mem_bytes m buf 0 (unat len)" "ys = mem_bytes m' buf' 0 (unat len)" "xs \<noteq> ys"
    and burst: "\<And>j. j < 8 * unat len \<Longrightarrow> j < first \<or> first + 32 \<le> j \<Longrightarrow> message_bit xs j = message_bit ys j"
  shows "crc32 m buf len \<noteq> crc32 m' buf' len"
proof
  have l: "length xs = unat len" "length ys = unat len" by (simp_all add: assms(1,2))
  assume "crc32 m buf len = crc32 m' buf' len"
  then have "foldl crc32_bit_step crc32_init (message_bits xs) = foldl crc32_bit_step crc32_init (message_bits ys)"
    by (simp add: crc32_def crc32_finish_def crc32_add_bytes crc32_bytes_steps assms(1,2))
  then have "message_bits xs = message_bits ys"
    by (rule crc32_bits_burst [where first = first, rotated]) (use burst l in \<open>simp_all add: message_bits_nth\<close>)
  with message_bits_inj l assms(3) show False by simp
qed

text \<open>Two messages that differ in the bits 7 to 38, which touch five bytes.\<close>

theorem crc32_detects_burst_witness:
  "crc32 (\<lambda>a. 0) 0x1000 6 \<noteq> crc32 ((\<lambda>a. 0)(0x1000 := 0x80, 0x1001 := 0x55, 0x1004 := 0x7f)) 0x1000 6"
proof (rule crc32_detects_burst [OF refl refl, where first = 7])
  let ?xs = "mem_bytes (\<lambda>a. 0) 0x1000 0 (unat (6 :: u32))"
  let ?ys = "mem_bytes ((\<lambda>a. 0)(0x1000 := 0x80, 0x1001 := 0x55, 0x1004 := 0x7f)) 0x1000 0 (unat (6 :: u32))"
  have xs: "?xs = [0, 0, 0, 0, 0, 0]" by (simp add: mem_bytes_def upt_rec)
  have ys: "?ys = [0x80, 0x55, 0, 0, 0x7f, 0]" by (simp add: mem_bytes_def upt_rec)
  show "?xs \<noteq> ?ys" unfolding xs ys by simp
  have "list_all (\<lambda>j. j < 7 \<or> 7 + 32 \<le> j \<longrightarrow> message_bit [0, 0, 0, 0, 0, 0] j = message_bit [0x80, 0x55, 0, 0, 0x7f, 0] j) [0..<48]"
    by code_simp
  then show "message_bit ?xs j = message_bit ?ys j" if "j < 8 * unat (6 :: u32)" "j < 7 \<or> 7 + 32 \<le> j" for j
    using that unfolding xs ys list_all_iff by auto
qed

end
