(* ===== verification/Ujson.thy ===== *)
theory Ujson
  imports Print Crc32 BaseMath
begin

section \<open>JSON serialisation\<close>

text \<open>
  \<^verbatim>\<open>sw/device/lib/ujson/ujson.c\<close> and \<^verbatim>\<open>ujson.h\<close>, with the deserialiser of \<open>private_status_t\<close> that
  \<^verbatim>\<open>ujson_derive.h\<close> expands to for \<^verbatim>\<open>private_status.h\<close>. A context holds the two functions of the
  transport, its data, the character that was put back (-1 for none) and the running CRC. The
  transport may wait for ever, and a parser may read for ever, so results are options; out
  parameters are part of the result and keep their value on an early return. Plain \<open>char\<close> is
  unsigned on the target. The CRC over a buffer is the fold over its bytes, which is what
  \<open>crc32_add\<close> computes (\<open>crc32_add_bytes\<close> in the theory Crc32).
\<close>

record 's ujson =
  io_context :: 's
  uj_putbuf :: "u8 list \<Rightarrow> 's \<Rightarrow> (status \<times> 's) option"
  uj_getc :: "'s \<Rightarrow> (status \<times> 's) option"
  uj_buffer :: u16
  uj_crc32 :: u32

subsection \<open>Status values\<close>

text \<open>The macros \<open>OK_STATUS\<close>, \<open>NOT_FOUND\<close> and so on: the module is taken from the file name, and
  the argument of an error is the line.\<close>

definition ujson_file :: cstring where
  "ujson_file = str ''sw/device/lib/ujson/ujson.c''"

definition OK_STATUS :: "u32 \<Rightarrow> status" where
  "OK_STATUS v = status_create (absl_code kOk) 0 ujson_file v"

definition error_status :: "absl_status \<Rightarrow> u32 \<Rightarrow> status" where
  "error_status code line = status_create (absl_code code) 0 ujson_file line"

text \<open>\<open>TRY\<close>: an error is returned at once, with the out parameters as they are.\<close>

definition try_status :: "(status \<times> 'u) option \<Rightarrow> (status \<Rightarrow> 'u \<Rightarrow> 'r) \<Rightarrow> (status \<Rightarrow> 'u \<Rightarrow> 'r option) \<Rightarrow> 'r option" where
  "try_status m err k = do { (s, uj) \<leftarrow> m; if sint s < 0 then Some (err s uj) else k s uj }"

abbreviation TRY :: "(status \<times> 'u) option \<Rightarrow> (status \<Rightarrow> 'u \<Rightarrow> (status \<times> 'u) option) \<Rightarrow> (status \<times> 'u) option" where
  "TRY m k \<equiv> try_status m Pair k"

subsection \<open>Characters\<close>

definition is_space :: "u32 \<Rightarrow> bool" where
  "is_space c \<longleftrightarrow> c = 32 \<or> c - 9 < 5"

definition ujson_init :: "'s \<Rightarrow> ('s \<Rightarrow> (status \<times> 's) option) \<Rightarrow> (u8 list \<Rightarrow> 's \<Rightarrow> (status \<times> 's) option) \<Rightarrow> 's ujson" where
  "ujson_init context getc putbuf =
     \<lparr>io_context = context, uj_putbuf = putbuf, uj_getc = getc, uj_buffer = - 1, uj_crc32 = 0xffffffff\<rparr>"

definition ujson_crc32_reset :: "'s ujson \<Rightarrow> 's ujson" where
  "ujson_crc32_reset uj = uj\<lparr>uj_crc32 := crc32_init\<rparr>"

definition ujson_crc32_finish :: "'s ujson \<Rightarrow> u32" where
  "ujson_crc32_finish uj = crc32_finish (uj_crc32 uj)"

definition ujson_putbuf :: "'s ujson \<Rightarrow> u8 list \<Rightarrow> (status \<times> 's ujson) option" where
  "ujson_putbuf uj buf = do {
     let uj = uj\<lparr>uj_crc32 := crc32_bytes (uj_crc32 uj) buf\<rparr>;
     (s, io) \<leftarrow> uj_putbuf uj buf (io_context uj);
     Some (s, uj\<lparr>io_context := io\<rparr>)
   }"

definition ujson_getc :: "'s ujson \<Rightarrow> (status \<times> 's ujson) option" where
  "ujson_getc uj =
     (let buffer = uj_buffer uj in
      if 0 \<le> sint buffer then Some (OK_STATUS (scast buffer), uj\<lparr>uj_buffer := - 1\<rparr>)
      else do {
        (s, io) \<leftarrow> uj_getc uj (io_context uj);
        let uj = uj\<lparr>io_context := io\<rparr>;
        let uj = (if status_err s = 0 then uj\<lparr>uj_crc32 := crc32_add8 (uj_crc32 uj) (ucast s)\<rparr> else uj);
        Some (s, uj)
      })"

definition ujson_ungetc :: "'s ujson \<Rightarrow> u8 \<Rightarrow> status \<times> 's ujson" where
  "ujson_ungetc uj ch =
     (if 0 \<le> sint (uj_buffer uj) then (error_status kFailedPrecondition 49, uj)
      else (OK_STATUS 0, uj\<lparr>uj_buffer := ucast ch\<rparr>))"

fun ujson_streq :: "cstring \<Rightarrow> cstring \<Rightarrow> bool" where
  "ujson_streq (a # as) (b # bs) = (if a \<noteq> 0 \<and> b \<noteq> 0 \<and> a = b then ujson_streq as bs else a = b)"
| "ujson_streq [] bs = (char_at bs 0 = 0)"
| "ujson_streq as [] = (char_at as 0 = 0)"

text \<open>Reads up to and including the first character that is no white space.\<close>

partial_function (option) consume_whitespace :: "'s ujson \<Rightarrow> (status \<times> 's ujson) option" where
  "consume_whitespace uj = do {
     (s, uj) \<leftarrow> ujson_getc uj;
     if sint s < 0 then Some (s, uj)
     else if is_space s then consume_whitespace uj
     else Some (OK_STATUS s, uj)
   }"

definition consume_hexdigit :: "'s ujson \<Rightarrow> (status \<times> 's ujson) option" where
  "consume_hexdigit uj = TRY (ujson_getc uj) (\<lambda>ch uj. Some (
     (if sint ch \<ge> 48 \<and> sint ch \<le> 57 then OK_STATUS (ch - 48)
      else if sint ch \<ge> 65 \<and> sint ch \<le> 70 then OK_STATUS (ch - 65 + 10)
      else if sint ch \<ge> 97 \<and> sint ch \<le> 102 then OK_STATUS (ch - 97 + 10)
      else error_status kOutOfRange 81), uj))"

definition consume_hex :: "'s ujson \<Rightarrow> (status \<times> 's ujson) option" where
  "consume_hex uj =
     TRY (consume_hexdigit uj) (\<lambda>a uj.
     TRY (consume_hexdigit uj) (\<lambda>b uj.
     TRY (consume_hexdigit uj) (\<lambda>c uj.
     TRY (consume_hexdigit uj) (\<lambda>d uj.
       Some (OK_STATUS (push_bit 12 a OR push_bit 8 b OR push_bit 4 c OR d), uj)))))"

definition ujson_consume :: "'s ujson \<Rightarrow> u8 \<Rightarrow> (status \<times> 's ujson) option" where
  "ujson_consume uj ch = TRY (consume_whitespace uj) (\<lambda>got uj.
     Some (if ucast ch \<noteq> got then error_status kNotFound 95 else OK_STATUS 0, uj))"

definition ujson_consume_maybe :: "'s ujson \<Rightarrow> u8 \<Rightarrow> (status \<times> 's ujson) option" where
  "ujson_consume_maybe uj ch = TRY (consume_whitespace uj) (\<lambda>got uj.
     let got = ucast got :: u8 in
     if ch \<noteq> got then Some (OK_STATUS 0, snd (ujson_ungetc uj got)) else Some (OK_STATUS 1, uj))"

subsection \<open>Parsing\<close>

text \<open>An escape after its backslash: the character it stands for.\<close>

definition parse_escape :: "'s ujson \<Rightarrow> (status \<times> 's ujson) option" where
  "parse_escape uj = TRY (ujson_getc uj) (\<lambda>c uj.
     let ch = ucast c :: u8 in
     if ch = chr CHR 0x22 \<or> ch = chr CHR 0x5c \<or> ch = chr CHR ''/'' then Some (ucast ch, uj)
     else if ch = chr CHR ''b'' then Some (8, uj)
     else if ch = chr CHR ''f'' then Some (12, uj)
     else if ch = chr CHR ''n'' then Some (10, uj)
     else if ch = chr CHR ''r'' then Some (13, uj)
     else if ch = chr CHR ''t'' then Some (9, uj)
     else if ch = chr CHR ''u'' then consume_hex uj
     else Some (error_status kOutOfRange 144, uj))"

text \<open>The loop of \<open>ujson_parse_qs\<close>; \<open>str\<close> is what was stored so far, \<open>len\<close> the room that is left.\<close>

partial_function (option) parse_qs_loop ::
    "'s ujson \<Rightarrow> u32 \<Rightarrow> u8 list \<Rightarrow> u32 \<Rightarrow> (status \<times> u8 list \<times> 's ujson) option" where
  "parse_qs_loop uj len buf n = do {
     (s, uj) \<leftarrow> ujson_getc uj;
     if sint s < 0 then Some (s, buf, uj)
     else let ch = ucast s :: u8 in
       if ch = chr CHR 0x22 then Some (OK_STATUS n, buf @ [0], uj)
       else do {
         (s, uj) \<leftarrow> (if ch = chr CHR 0x5c then parse_escape uj else Some (ucast ch, uj));
         if sint s < 0 then Some (s, buf, uj)
         else let ch = ucast s :: u8 in
           if len > 0 then parse_qs_loop uj (len - 1) (buf @ [ch]) (n + 1)
           else parse_qs_loop uj len buf n
       }
   }"

text \<open>The second component of the result is what was stored in the caller's array.\<close>

definition ujson_parse_qs :: "'s ujson \<Rightarrow> u32 \<Rightarrow> (status \<times> u8 list \<times> 's ujson) option" where
  "ujson_parse_qs uj len =
     (let len = len - 1 in
      try_status (ujson_consume uj (chr CHR 0x22)) (\<lambda>s uj. (s, [], uj)) (\<lambda>_ uj. parse_qs_loop uj len [] 0))"

text \<open>The digits of a number; the result is the status of the last read, the character it gave, and
  the value.\<close>

partial_function (option) parse_digits :: "'s ujson \<Rightarrow> u8 \<Rightarrow> u64 \<Rightarrow> status \<Rightarrow> (status \<times> u8 \<times> u64 \<times> 's ujson) option" where
  "parse_digits uj ch value s =
     (if ch \<ge> 48 \<and> ch \<le> 57 then do {
        let value = value * 10;
        let value = value + ucast (ch - 48);
        (s, uj) \<leftarrow> ujson_getc uj;
        if status_err s \<noteq> 0 then Some (s, ch, value, uj)
        else parse_digits uj (ucast s) value s
      } else Some (s, ch, value, uj))"

text \<open>The value is accumulated in an \<open>int64_t\<close>; a number beyond its range overflows, which is undefined
  in C and wraps around here. The second component is the value stored, of which the callers
  take as many low bytes as their type has.\<close>

definition ujson_parse_integer :: "'s ujson \<Rightarrow> (status \<times> u64 option \<times> 's ujson) option" where
  "ujson_parse_integer uj =
     (let err = (\<lambda>s uj. (s, None, uj)) in
      try_status (consume_whitespace uj) err (\<lambda>c uj.
      let ch = ucast c :: u8; neg = (ch = chr CHR ''-'') in
      try_status (if neg then ujson_getc uj else Some (ucast ch, uj)) err (\<lambda>c uj.
      let ch = ucast c :: u8 in
      if \<not> (ch \<ge> 48 \<and> ch \<le> 57) then Some (error_status kNotFound 168, None, uj)
      else do {
        (s, ch, value, uj) \<leftarrow> parse_digits uj ch 0 0;
        try_status (Some (if status_ok s then ujson_ungetc uj ch else (OK_STATUS 0, uj))) err (\<lambda>_ uj.
          let value = (if neg then - value else value)
          in Some (OK_STATUS 0, Some value, uj))
      })))"

definition deserialize_integer :: "'s ujson \<Rightarrow> 'a::len word \<Rightarrow> (status \<times> 'a word \<times> 's ujson) option" where
  "deserialize_integer uj value = do {
     (s, v, uj) \<leftarrow> ujson_parse_integer uj;
     Some (s, case v of None \<Rightarrow> value | Some v \<Rightarrow> ucast v, uj)
   }"

definition ujson_deserialize_uint64_t :: "'s ujson \<Rightarrow> u64 \<Rightarrow> (status \<times> u64 \<times> 's ujson) option" where
  "ujson_deserialize_uint64_t uj value = deserialize_integer uj value"
definition ujson_deserialize_uint32_t :: "'s ujson \<Rightarrow> u32 \<Rightarrow> (status \<times> u32 \<times> 's ujson) option" where
  "ujson_deserialize_uint32_t uj value = deserialize_integer uj value"
definition ujson_deserialize_uint16_t :: "'s ujson \<Rightarrow> u16 \<Rightarrow> (status \<times> u16 \<times> 's ujson) option" where
  "ujson_deserialize_uint16_t uj value = deserialize_integer uj value"
definition ujson_deserialize_uint8_t :: "'s ujson \<Rightarrow> u8 \<Rightarrow> (status \<times> u8 \<times> 's ujson) option" where
  "ujson_deserialize_uint8_t uj value = deserialize_integer uj value"
definition ujson_deserialize_size_t :: "'s ujson \<Rightarrow> u32 \<Rightarrow> (status \<times> u32 \<times> 's ujson) option" where
  "ujson_deserialize_size_t uj value = deserialize_integer uj value"
definition ujson_deserialize_int64_t :: "'s ujson \<Rightarrow> u64 \<Rightarrow> (status \<times> u64 \<times> 's ujson) option" where
  "ujson_deserialize_int64_t uj value = deserialize_integer uj value"
definition ujson_deserialize_int32_t :: "'s ujson \<Rightarrow> u32 \<Rightarrow> (status \<times> u32 \<times> 's ujson) option" where
  "ujson_deserialize_int32_t uj value = deserialize_integer uj value"
definition ujson_deserialize_int16_t :: "'s ujson \<Rightarrow> u16 \<Rightarrow> (status \<times> u16 \<times> 's ujson) option" where
  "ujson_deserialize_int16_t uj value = deserialize_integer uj value"
definition ujson_deserialize_int8_t :: "'s ujson \<Rightarrow> u8 \<Rightarrow> (status \<times> u8 \<times> 's ujson) option" where
  "ujson_deserialize_int8_t uj value = deserialize_integer uj value"

fun consume_all :: "'s ujson \<Rightarrow> cstring \<Rightarrow> (status \<times> 's ujson) option" where
  "consume_all uj [] = Some (OK_STATUS 0, uj)"
| "consume_all uj (c # cs) = TRY (ujson_consume uj c) (\<lambda>_ uj. consume_all uj cs)"

definition ujson_deserialize_bool :: "'s ujson \<Rightarrow> bool \<Rightarrow> (status \<times> bool \<times> 's ujson) option" where
  "ujson_deserialize_bool uj value =
     (let err = (\<lambda>s uj. (s, value, uj)) in
      try_status (consume_whitespace uj) err (\<lambda>got uj.
      let got = ucast got :: u8 in
      if got = chr CHR ''t'' then
        try_status (consume_all uj (str ''rue'')) err (\<lambda>_ uj. Some (OK_STATUS 0, True, uj))
      else if got = chr CHR ''f'' then
        try_status (consume_all uj (str ''alse'')) err (\<lambda>_ uj. Some (OK_STATUS 0, False, uj))
      else Some (error_status kNotFound 202, value, snd (ujson_ungetc uj got))))"

subsection \<open>Serialising\<close>

definition hex :: cstring where
  "hex = str ''0123456789abcdef''"

definition string_char :: "u8 \<Rightarrow> u8 list" where
  "string_char ch =
     (if ch < 0x20 \<or> ch = chr CHR 0x22 \<or> ch = chr CHR 0x5c \<or> ch \<ge> 0x7f then
        if ch = chr CHR 0x22 then [chr CHR 0x5c, chr CHR 0x22]
        else if ch = chr CHR 0x5c then [chr CHR 0x5c, chr CHR 0x5c]
        else if ch = 8 then [chr CHR 0x5c, chr CHR ''b'']
        else if ch = 12 then [chr CHR 0x5c, chr CHR ''f'']
        else if ch = 10 then [chr CHR 0x5c, chr CHR ''n'']
        else if ch = 13 then [chr CHR 0x5c, chr CHR ''r'']
        else if ch = 9 then [chr CHR 0x5c, chr CHR ''t'']
        else [chr CHR 0x5c, chr CHR ''u'', chr CHR ''0'', chr CHR ''0'', hex ! unat (drop_bit 4 ch), hex ! unat (ch AND 0xf)]
      else [ch])"

fun serialize_string_loop :: "'s ujson \<Rightarrow> cstring \<Rightarrow> (status \<times> 's ujson) option" where
  "serialize_string_loop uj [] = Some (OK_STATUS 0, uj)"
| "serialize_string_loop uj (ch # buf) =
     (if ch = 0 then Some (OK_STATUS 0, uj)
      else TRY (ujson_putbuf uj (string_char ch)) (\<lambda>_ uj. serialize_string_loop uj buf))"

definition ujson_serialize_string :: "'s ujson \<Rightarrow> cstring \<Rightarrow> (status \<times> 's ujson) option" where
  "ujson_serialize_string uj buf =
     TRY (ujson_putbuf uj [chr CHR 0x22]) (\<lambda>_ uj.
     TRY (serialize_string_loop uj buf) (\<lambda>_ uj.
     TRY (ujson_putbuf uj [chr CHR 0x22]) (\<lambda>_ uj. Some (OK_STATUS 0, uj))))"

text \<open>The digits are stored from the end of the buffer; \<open>acc\<close> is what it holds.\<close>

lemma unat_div_10_less:
  fixes v :: "'a::len word"
  assumes "v div 10 \<noteq> 0"
  shows "unat v div 10 < unat v"
proof -
  have "v \<noteq> 0" using assms by auto
  then show ?thesis by (simp add: unat_gt_0)
qed

function digits64_loop :: "u64 \<Rightarrow> u8 list \<Rightarrow> u8 list" where
  "digits64_loop value acc =
     (case udiv64_slow value 10 (Some 0) of (q, r) \<Rightarrow>
        let acc = (48 + ucast (the r)) # acc
        in if q \<noteq> 0 then digits64_loop q acc else acc)"
  by auto
termination
  by (relation "measure (unat \<circ> fst)") (auto simp: udiv64_slow_some unat_div_distrib unat_div_10_less)

function digits32_loop :: "u32 \<Rightarrow> u8 list \<Rightarrow> u8 list" where
  "digits32_loop value acc =
     (let acc = (48 + ucast (value mod 10)) # acc; value = value div 10
      in if value \<noteq> 0 then digits32_loop value acc else acc)"
  by auto
termination
  by (relation "measure (unat \<circ> fst)") (auto simp: unat_div_distrib unat_div_10_less)

declare digits64_loop.simps [simp del] digits32_loop.simps [simp del]

definition ujson_serialize_integer64 :: "'s ujson \<Rightarrow> u64 \<Rightarrow> bool \<Rightarrow> (status \<times> 's ujson) option" where
  "ujson_serialize_integer64 uj value neg =
     (let value = (if neg then NOT value + 1 else value);
          buf = digits64_loop value [];
          buf = (if neg then chr CHR ''-'' # buf else buf)
      in TRY (ujson_putbuf uj buf) (\<lambda>_ uj. Some (OK_STATUS 0, uj)))"

definition ujson_serialize_integer32 :: "'s ujson \<Rightarrow> u32 \<Rightarrow> bool \<Rightarrow> (status \<times> 's ujson) option" where
  "ujson_serialize_integer32 uj value neg =
     (let value = (if neg then NOT value + 1 else value);
          buf = digits32_loop value [];
          buf = (if neg then chr CHR ''-'' # buf else buf)
      in TRY (ujson_putbuf uj buf) (\<lambda>_ uj. Some (OK_STATUS 0, uj)))"

definition ujson_serialize_bool :: "'s ujson \<Rightarrow> bool \<Rightarrow> (status \<times> 's ujson) option" where
  "ujson_serialize_bool uj value =
     (if value then TRY (ujson_putbuf uj (str ''true'')) (\<lambda>_ uj. Some (OK_STATUS 0, uj))
      else TRY (ujson_putbuf uj (str ''false'')) (\<lambda>_ uj. Some (OK_STATUS 0, uj)))"

definition ujson_serialize_uint64_t :: "'s ujson \<Rightarrow> u64 \<Rightarrow> (status \<times> 's ujson) option" where
  "ujson_serialize_uint64_t uj value = ujson_serialize_integer64 uj value False"
definition ujson_serialize_uint32_t :: "'s ujson \<Rightarrow> u32 \<Rightarrow> (status \<times> 's ujson) option" where
  "ujson_serialize_uint32_t uj value = ujson_serialize_integer32 uj value False"
definition ujson_serialize_uint16_t :: "'s ujson \<Rightarrow> u16 \<Rightarrow> (status \<times> 's ujson) option" where
  "ujson_serialize_uint16_t uj value = ujson_serialize_integer32 uj (ucast value) False"
definition ujson_serialize_uint8_t :: "'s ujson \<Rightarrow> u8 \<Rightarrow> (status \<times> 's ujson) option" where
  "ujson_serialize_uint8_t uj value = ujson_serialize_integer32 uj (ucast value) False"
text \<open>\<open>size_t\<close> has 32 bits on the target.\<close>

definition ujson_serialize_size_t :: "'s ujson \<Rightarrow> u32 \<Rightarrow> (status \<times> 's ujson) option" where
  "ujson_serialize_size_t uj value = ujson_serialize_integer32 uj value False"
definition ujson_serialize_int64_t :: "'s ujson \<Rightarrow> u64 \<Rightarrow> (status \<times> 's ujson) option" where
  "ujson_serialize_int64_t uj value = ujson_serialize_integer64 uj value (sint value < 0)"
definition ujson_serialize_int32_t :: "'s ujson \<Rightarrow> u32 \<Rightarrow> (status \<times> 's ujson) option" where
  "ujson_serialize_int32_t uj value = ujson_serialize_integer32 uj value (sint value < 0)"
definition ujson_serialize_int16_t :: "'s ujson \<Rightarrow> u16 \<Rightarrow> (status \<times> 's ujson) option" where
  "ujson_serialize_int16_t uj value = ujson_serialize_integer32 uj (scast value) (sint value < 0)"
definition ujson_serialize_int8_t :: "'s ujson \<Rightarrow> u8 \<Rightarrow> (status \<times> 's ujson) option" where
  "ujson_serialize_int8_t uj value = ujson_serialize_integer32 uj (scast value) (sint value < 0)"

subsection \<open>Status values as JSON\<close>

definition private_status_names :: "cstring list" where
  "private_status_names = map str [''Ok'', ''Cancelled'', ''Unknown'', ''InvalidArgument'', ''DeadlineExceeded'',
     ''NotFound'', ''AlreadyExists'', ''PermissionDenied'', ''ResourceExhausted'', ''FailedPrecondition'',
     ''Aborted'', ''OutOfRange'', ''Unimplemented'', ''Internal'', ''Unavailable'', ''DataLoss'', ''Unauthenticated'']"

text \<open>The chain of string comparisons: the position of the first name that is equal.\<close>

fun find_name :: "cstring \<Rightarrow> cstring list \<Rightarrow> u32 \<Rightarrow> u32 option" where
  "find_name value [] i = None"
| "find_name value (n # ns) i = (if ujson_streq value n then Some i else find_name value ns (i + 1))"

text \<open>The error of the generated function: its file and line are those of the macro call.\<close>

definition private_status_error :: status where
  "private_status_error = status_create (absl_code kInvalidArgument) 0 (str ''sw/device/lib/ujson/private_status.h'') 40"

text \<open>\<open>self\<close> is the caller's enum object.\<close>

definition ujson_deserialize_private_status_t :: "'s ujson \<Rightarrow> u32 \<Rightarrow> (status \<times> u32 \<times> 's ujson) option" where
  "ujson_deserialize_private_status_t uj self =
     (let err = (\<lambda>s uj. (s, self, uj)) in
      try_status (ujson_consume_maybe uj (chr CHR 0x22)) err (\<lambda>quote uj.
      if quote \<noteq> 0 then
        try_status (Some (ujson_ungetc uj (chr CHR 0x22))) err (\<lambda>_ uj. do {
        (s, buf, uj) \<leftarrow> ujson_parse_qs uj 128;
        if sint s < 0 then Some (s, self, uj)
        else case find_name buf private_status_names 0 of
          Some i \<Rightarrow> Some (OK_STATUS 0, i, uj)
        | None \<Rightarrow> Some (private_status_error, self, uj) })
      else
        try_status (ujson_consume_maybe uj (chr CHR ''{'')) err (\<lambda>brace uj.
        if brace \<noteq> 0 then do {
          (s, buf, uj) \<leftarrow> ujson_parse_qs uj 128;
          if sint s < 0 then Some (s, self, uj)
          else try_status (ujson_consume uj (chr CHR '':'')) err (\<lambda>_ uj.
            if ujson_streq buf (str ''IntValue'') then do {
              (s, self, uj) \<leftarrow> ujson_deserialize_uint32_t uj self;
              if sint s < 0 then Some (s, self, uj)
              else try_status (ujson_consume uj (chr CHR ''}'')) (\<lambda>s uj. (s, self, uj)) (\<lambda>_ uj. Some (OK_STATUS 0, self, uj))
            } else Some (private_status_error, self, uj))
        } else do {
          (s, self, uj) \<leftarrow> ujson_deserialize_uint32_t uj self;
          if sint s < 0 then Some (s, self, uj) else Some (OK_STATUS 0, self, uj)
        })))"

definition ujson_serialize_status_t :: "'s ujson \<Rightarrow> status \<Rightarrow> (status \<times> 's ujson) option" where
  "ujson_serialize_status_t uj value = do {
     let out = (\<lambda>buf uj. ujson_putbuf uj buf);
     (_, uj) \<leftarrow> base_fprintf (Some out) (str ''%!r'') [Va_Word value] uj;
     Some (OK_STATUS 0, uj)
   }"

text \<open>The argument of a status: a bare number, or a list of the module and a number.\<close>

definition parse_status_arg :: "'s ujson \<Rightarrow> (status \<times> u32 \<times> u32 \<times> 's ujson) option" where
  "parse_status_arg uj =
     (let err = (\<lambda>s uj. (s, 0, 0, uj)) in
      try_status (ujson_consume_maybe uj (chr CHR ''['')) err (\<lambda>bracket uj.
      if bracket \<noteq> 0 then do {
        (s, module, uj) \<leftarrow> ujson_parse_qs uj 4;
        if sint s < 0 then Some (s, 0, 0, uj)
        else let module_id = make_module_id (char_at module 0) (char_at module 1) (char_at module 2) in
          try_status (ujson_consume uj (chr CHR '','')) err (\<lambda>_ uj. do {
          (s, arg, uj) \<leftarrow> ujson_deserialize_uint32_t uj 0;
          if sint s < 0 then Some (s, 0, 0, uj)
          else try_status (ujson_consume uj (chr CHR '']'')) err (\<lambda>_ uj. Some (OK_STATUS 0, module_id, arg, uj)) })
      } else do {
        (s, arg, uj) \<leftarrow> ujson_deserialize_uint32_t uj 0;
        Some (s, 0, arg, uj)
      }))"

definition ujson_deserialize_status_t :: "'s ujson \<Rightarrow> status \<Rightarrow> (status \<times> status \<times> 's ujson) option" where
  "ujson_deserialize_status_t uj value =
     (let err = (\<lambda>s uj. (s, value, uj)) in
      try_status (ujson_consume uj (chr CHR ''{'')) err (\<lambda>_ uj. do {
      (s, code, uj) \<leftarrow> ujson_deserialize_private_status_t uj 0;
      if sint s < 0 then Some (s, value, uj)
      else try_status (ujson_consume uj (chr CHR '':'')) err (\<lambda>_ uj. do {
        (s, module_id, arg, uj) \<leftarrow> parse_status_arg uj;
        if sint s < 0 then Some (s, value, uj)
        else try_status (ujson_consume uj (chr CHR ''}'')) err (\<lambda>_ uj.
          Some (OK_STATUS 0, status_create code module_id ujson_file arg, uj)) }) }))"

subsection \<open>Reading characters\<close>

lemma OK_STATUS_id [simp]: "0 \<le> sint v \<Longrightarrow> OK_STATUS v = v"
  by (simp add: OK_STATUS_def status_create_def)

lemma sint_ucast_small:
  fixes b :: "'a::len word"
  assumes "LENGTH('a) < LENGTH('b::len)"
  shows "sint (ucast b :: 'b word) = uint b"
proof -
  have le: "2 ^ LENGTH('a) \<le> (2 :: int) ^ (LENGTH('b) - Suc 0)" using assms by (intro power_increasing) simp_all
  have b: "0 \<le> uint b" "uint b < 2 ^ LENGTH('a)" using uint_ge_0 [of b] uint_lt2p [of b] .
  have "2 ^ (LENGTH('b) - Suc 0) \<le> (2 :: int) ^ LENGTH('b)" by (intro power_increasing) simp_all
  then have "uint (ucast b :: 'b word) = uint b"
    using b le unfolding unsigned_ucast_eq by (intro take_bit_int_eq_self) linarith+
  moreover have "signed_take_bit (LENGTH('b) - Suc 0) (uint b) = uint b"
    using b le by (intro signed_take_bit_int_eq_self) linarith+
  ultimately show ?thesis by (simp add: sint_uint)
qed

lemma sint_ucast_byte: "sint (ucast (b :: u8) :: u32) = uint b"
  by (rule sint_ucast_small) simp

lemma sint_byte_nonneg [simp]: "0 \<le> sint (ucast (b :: u8) :: u32)" "0 \<le> sint (ucast (b :: u8) :: u16)"
  by (simp_all add: sint_ucast_small)

lemma sint_byte_not_neg [simp]: "\<not> sint (ucast (b :: u8) :: u32) < 0"
  by (simp add: not_less)

lemma sint_none [simp]: "sint (- 1 :: u16) = - 1"
  by (simp add: sint_n1)

lemma less_16_cases: "k < (16 :: nat) \<Longrightarrow> k \<in> {0, 1, 2, 3, 4, 5, 6, 7, 8, 9, 10, 11, 12, 13, 14, 15}"
  by (simp add: numeral_eq_Suc less_Suc_eq)

lemma sint_nibble [simp]: "k < 16 \<Longrightarrow> 0 \<le> sint (of_nat k :: u32)"
  by (drule less_16_cases) auto

lemma OK_STATUS_byte [simp]: "OK_STATUS (ucast (b :: u8)) = ucast b"
  by simp

lemma ucast_byte_back [simp]: "ucast (ucast (b :: u8) :: u32) = (b :: u8)"
  by (simp add: ucast_up_ucast_id is_up)

lemma status_err_ok [simp]: "0 \<le> sint s \<Longrightarrow> status_err s = 0"
  by (simp add: status_err_def)

lemma error_status_neg: "code \<noteq> kOk \<Longrightarrow> sint (error_status code l) < 0 \<and> status_err (error_status code l) \<noteq> 0"
proof -
  assume c: "code \<noteq> kOk"
  let ?m = "make_module_id (chr CHR ''u'') (chr CHR ''j'') (chr CHR ''s'')"
  have "char_at (basename ujson_file) 0 = chr CHR ''u''" "char_at (basename ujson_file) 1 = chr CHR ''j''"
    "char_at (basename ujson_file) 2 = chr CHR ''s''" by code_simp+
  then have s: "error_status code l = status_word (absl_code code) ?m l"
    using c by (cases code) (simp_all add: error_status_def status_create_def status_word_def Let_def)
  have "absl_code code \<noteq> 0" "unat (absl_code code) < 32" using c by (cases code; simp)+
  then show ?thesis by (simp add: s status_word_negative status_err_def status_word_code make_module_id_ok)
qed

lemma try_ok: "m = Some (s, u) \<Longrightarrow> 0 \<le> sint s \<Longrightarrow> try_status m err k = k s u"
  by (simp add: try_status_def)

lemma try_error: "m = Some (s, u) \<Longrightarrow> sint s < 0 \<Longrightarrow> try_status m err k = Some (err s u)"
  by (simp add: try_status_def)

text \<open>A source delivers the bytes \<open>inp\<close>, and at their end an error.\<close>

locale ujson_source =
  fixes getc :: "'s \<Rightarrow> (status \<times> 's) option" and inp :: "'s \<Rightarrow> u8 list"
  assumes next_char: "inp io = c # cs \<Longrightarrow> \<exists>io'. getc io = Some (ucast c, io') \<and> inp io' = cs"
    and at_end: "inp io = [] \<Longrightarrow> \<exists>s io'. getc io = Some (s, io') \<and> sint s < 0 \<and> status_err s \<noteq> 0 \<and> inp io' = []"

text \<open>The state of a reader: the characters still to come, with the one that was put back; the CRC
  covers what was taken from the transport, the first \<open>k\<close> bytes of \<open>total\<close>.\<close>

definition ready :: "('s \<Rightarrow> (status \<times> 's) option) \<Rightarrow> ('s \<Rightarrow> u8 list) \<Rightarrow> u32 \<Rightarrow> u8 list \<Rightarrow> 's ujson \<Rightarrow> u8 list \<Rightarrow> bool" where
  "ready getc inp c stream uj cs \<longleftrightarrow> uj_getc uj = getc
     \<and> (\<exists>k. inp (io_context uj) = drop k stream \<and> uj_crc32 uj = crc32_bytes c (take k stream))
     \<and> (if 0 \<le> sint (uj_buffer uj) then \<exists>b. uj_buffer uj = ucast (b :: u8) \<and> cs = b # inp (io_context uj)
        else cs = inp (io_context uj))"

definition fresh :: "'s ujson \<Rightarrow> bool" where
  "fresh uj \<longleftrightarrow> sint (uj_buffer uj) < 0"

context ujson_source begin

abbreviation "rd \<equiv> ready getc inp"

lemma getc_char:
  assumes "rd c t uj (b # cs)"
  obtains uj' where "ujson_getc uj = Some (ucast b, uj')" "rd c t uj' cs" "fresh uj'"
proof (cases "0 \<le> sint (uj_buffer uj)")
  case True
  then have b: "uj_buffer uj = ucast b" "inp (io_context uj) = cs" using assms by (auto simp: ready_def)
  have "scast (ucast b :: u16) = (ucast b :: u32)"
    by (simp add: scast_eq sint_ucast_small flip: ucast_eq)
  then have "ujson_getc uj = Some (ucast b, uj\<lparr>uj_buffer := - 1\<rparr>)" using True b by (simp add: ujson_getc_def)
  moreover have "rd c t (uj\<lparr>uj_buffer := - 1\<rparr>) cs" using assms b by (auto simp: ready_def)
  moreover have "fresh (uj\<lparr>uj_buffer := - 1\<rparr>)" by (simp add: fresh_def)
  ultimately show ?thesis by (rule that)
next
  case False
  then have i: "inp (io_context uj) = b # cs" "uj_getc uj = getc" using assms by (auto simp: ready_def)
  obtain k where k: "inp (io_context uj) = drop k t" "uj_crc32 uj = crc32_bytes c (take k t)"
    using assms by (auto simp: ready_def)
  obtain io where io: "getc (io_context uj) = Some (ucast b, io)" "inp io = cs" using next_char [OF i(1)] by blast
  let ?uj = "uj\<lparr>io_context := io, uj_crc32 := crc32_add8 (uj_crc32 uj) b\<rparr>"
  have "ujson_getc uj = Some (ucast b, ?uj)" using False i io by (simp add: ujson_getc_def Let_def)
  moreover have "rd c t ?uj cs"
  proof -
    have "k < length t" using k i(1) by (metis drop_all leI list.discI)
    then have "drop (Suc k) t = cs" "t ! k = b" using k(1) i(1) by (metis Cons_nth_drop_Suc list.inject)+
    then have "take (Suc k) t = take k t @ [b]" using \<open>k < length t\<close> by (simp add: take_Suc_conv_app_nth)
    then show ?thesis
      using False i(2) io(2) k(2) \<open>drop (Suc k) t = cs\<close>
      by (auto simp: ready_def crc32_add8_def intro!: exI [of _ "Suc k"])
  qed
  moreover have "fresh ?uj" using False by (simp add: fresh_def)
  ultimately show ?thesis by (rule that)
qed

lemma getc_end:
  assumes "rd c t uj []"
  obtains s uj' where "ujson_getc uj = Some (s, uj')" "sint s < 0" "status_err s \<noteq> 0" "rd c t uj' []" "fresh uj'"
proof -
  have f: "\<not> 0 \<le> sint (uj_buffer uj)" and i: "inp (io_context uj) = []" "uj_getc uj = getc"
    using assms by (auto simp: ready_def split: if_splits)
  obtain s io where "getc (io_context uj) = Some (s, io)" "sint s < 0" "status_err s \<noteq> 0" "inp io = []" using at_end [OF i(1)] by blast
  then show ?thesis using assms f i
    by (intro that [of s "uj\<lparr>io_context := io\<rparr>"]) (auto simp: ujson_getc_def ready_def fresh_def)
qed

lemma ungetc_char:
  assumes "rd c t uj cs" "fresh uj"
  shows "ujson_ungetc uj b = (0, snd (ujson_ungetc uj b))" "rd c t (snd (ujson_ungetc uj b)) (b # cs)"
  using assms by (auto simp: ujson_ungetc_def ready_def fresh_def)

lemma consume_whitespace_skip:
  assumes "rd c t uj (ws @ b # cs)" "\<forall>w \<in> set ws. is_space (ucast w)" "\<not> is_space (ucast b)"
  obtains uj' where "consume_whitespace uj = Some (ucast b, uj')" "rd c t uj' cs" "fresh uj'"
  using assms
proof (induction ws arbitrary: uj thesis)
  case Nil
  then obtain uj' where "ujson_getc uj = Some (ucast b, uj')" "rd c t uj' cs" "fresh uj'" by (auto elim: getc_char)
  with Nil show ?case by (intro Nil(1) [of uj']) (subst consume_whitespace.simps, auto)
next
  case (Cons w ws)
  then obtain uj1 where 1: "ujson_getc uj = Some (ucast w, uj1)" "rd c t uj1 (ws @ b # cs)" by (auto elim: getc_char)
  obtain uj' where 2: "consume_whitespace uj1 = Some (ucast b, uj')" "rd c t uj' cs" "fresh uj'"
    using Cons.IH [OF _ 1(2)] Cons.prems by auto
  have "consume_whitespace uj = consume_whitespace uj1"
    using 1 Cons.prems by (subst consume_whitespace.simps) simp
  with 2 show ?case by (intro Cons.prems(1)) auto
qed

lemma consume_char:
  assumes "rd c t uj (b # cs)" "\<not> is_space (ucast b)"
  obtains uj' where "ujson_consume uj b = Some (0, uj')" "rd c t uj' cs" "fresh uj'"
proof -
  obtain uj' where "consume_whitespace uj = Some (ucast b, uj')" "rd c t uj' cs" "fresh uj'"
    using consume_whitespace_skip [of c t uj "[]" b cs] assms by auto
  then show ?thesis by (intro that) (simp_all add: ujson_consume_def try_ok)
qed

lemma consume_maybe_char:
  assumes "rd c t uj (b # cs)" "\<not> is_space (ucast b)"
  shows "b = d \<Longrightarrow> \<exists>uj'. ujson_consume_maybe uj d = Some (1, uj') \<and> rd c t uj' cs \<and> fresh uj'"
    and "b \<noteq> d \<Longrightarrow> \<exists>uj'. ujson_consume_maybe uj d = Some (0, uj') \<and> rd c t uj' (b # cs)"
proof -
  obtain uj' where uj': "consume_whitespace uj = Some (ucast b, uj')" "rd c t uj' cs" "fresh uj'"
    using consume_whitespace_skip [of c t uj "[]" b cs] assms by auto
  show "b = d \<Longrightarrow> \<exists>uj'. ujson_consume_maybe uj d = Some (1, uj') \<and> rd c t uj' cs \<and> fresh uj'"
    using uj' by (auto simp: ujson_consume_maybe_def try_ok)
  show "b \<noteq> d \<Longrightarrow> \<exists>uj'. ujson_consume_maybe uj d = Some (0, uj') \<and> rd c t uj' (b # cs)"
    using uj' ungetc_char [OF uj'(2,3)] by (auto simp: ujson_consume_maybe_def try_ok)
qed

lemma consume_hexdigit_hex:
  assumes "rd c t uj (hex ! k # cs)" "k < 16"
  obtains uj' where "consume_hexdigit uj = Some (of_nat k, uj')" "rd c t uj' cs" "fresh uj'"
proof -
  obtain uj' where uj': "ujson_getc uj = Some (ucast (hex ! k), uj')" "rd c t uj' cs" "fresh uj'"
    using getc_char [OF assms(1)] .
  have "\<forall>k \<in> {0, 1, 2, 3, 4, 5, 6, 7, 8, 9}. hex ! k = of_nat (48 + k)"
    "\<forall>k \<in> {10, 11, 12, 13, 14, 15}. hex ! k = of_nat (87 + k)" by code_simp+
  then have "consume_hexdigit uj = Some (of_nat k, uj')"
    using uj'(1) less_16_cases [OF assms(2)] by (auto simp: consume_hexdigit_def try_ok)
  with uj' that show ?thesis by blast
qed

lemma consume_hex_byte:
  assumes "rd c t uj (chr CHR ''0'' # chr CHR ''0'' # hex ! unat (drop_bit 4 b) # hex ! unat (b AND 0xf) # cs)"
  obtains uj' where "consume_hex uj = Some (ucast (b :: u8), uj')" "rd c t uj' cs" "fresh uj'"
proof -
  have h0: "chr CHR ''0'' = hex ! 0" by (simp add: hex_def)
  have hi: "unat (drop_bit 4 b) < 16" using unat_less_2p [of b] by (simp add: unat_drop_bit)
  have lo: "unat (b AND 0xf) < 16"
    using word_and_le1 [of b "0xf"] by (simp add: word_le_nat_alt)
  obtain u1 where 1: "consume_hexdigit uj = Some (of_nat 0, u1)" "rd c t u1 (chr CHR ''0'' # hex ! unat (drop_bit 4 b) # hex ! unat (b AND 0xf) # cs)"
    using consume_hexdigit_hex [OF assms [unfolded h0]] unfolding h0 by auto
  obtain u2 where 2: "consume_hexdigit u1 = Some (of_nat 0, u2)" "rd c t u2 (hex ! unat (drop_bit 4 b) # hex ! unat (b AND 0xf) # cs)"
    using consume_hexdigit_hex [OF 1(2) [unfolded h0]] by auto
  obtain u3 where 3: "consume_hexdigit u2 = Some (of_nat (unat (drop_bit 4 b)), u3)" "rd c t u3 (hex ! unat (b AND 0xf) # cs)"
    using consume_hexdigit_hex [OF 2(2) hi] by blast
  obtain u4 where 4: "consume_hexdigit u3 = Some (of_nat (unat (b AND 0xf)), u4)" "rd c t u4 cs" "fresh u4"
    using consume_hexdigit_hex [OF 3(2) lo] by blast
  have v: "push_bit 4 (ucast (drop_bit 4 b) :: u32) OR ucast (b AND 15) = ucast b"
    by (rule bit_word_eqI) (auto simp: bit_or_iff bit_push_bit_iff bit_ucast_iff bit_and_iff bit_drop_bit_eq)
  have z: "0 \<le> sint (of_nat 0 :: u32)" by simp
  show ?thesis
    using 4(2,3) z sint_nibble [OF hi] sint_nibble [OF lo]
    by (intro that [of u4]) (simp_all add: consume_hex_def try_ok [OF 1(1)] try_ok [OF 2(1)] try_ok [OF 3(1)] try_ok [OF 4(1)] v)
qed

end

subsection \<open>Strings\<close>

context ujson_source begin

lemma parse_escape_simple:
  assumes "rd c t uj (e # cs)"
    "(e, ch) \<in> {(0x22, 0x22), (0x5c, 0x5c), (0x2f, 0x2f), (0x62, 8), (0x66, 12), (0x6e, 10), (0x72, 13), (0x74, 9)}"
  obtains uj' where "parse_escape uj = Some (ucast (ch :: u8), uj')" "rd c t uj' cs" "fresh uj'"
proof -
  obtain uj' where uj': "ujson_getc uj = Some (ucast e, uj')" "rd c t uj' cs" "fresh uj'" using getc_char [OF assms(1)] .
  then have "parse_escape uj = Some (ucast ch, uj')"
    using assms(2) by (auto simp: parse_escape_def try_ok Let_def)
  with uj' that show ?thesis by blast
qed

lemma parse_escape_hex:
  assumes "rd c t uj (chr CHR ''u'' # chr CHR ''0'' # chr CHR ''0'' # hex ! unat (drop_bit 4 b) # hex ! unat (b AND 0xf) # cs)"
  obtains uj' where "parse_escape uj = Some (ucast (b :: u8), uj')" "rd c t uj' cs" "fresh uj'"
proof -
  obtain u1 where 1: "ujson_getc uj = Some (ucast (chr CHR ''u''), u1)"
    "rd c t u1 (chr CHR ''0'' # chr CHR ''0'' # hex ! unat (drop_bit 4 b) # hex ! unat (b AND 0xf) # cs)"
    using getc_char [OF assms] by blast
  obtain u2 where 2: "consume_hex u1 = Some (ucast b, u2)" "rd c t u2 cs" "fresh u2" using consume_hex_byte [OF 1(2)] .
  have "parse_escape uj = Some (ucast b, u2)" using 1(1) 2(1) by (simp add: parse_escape_def try_ok Let_def)
  with 2 that show ?thesis by blast
qed

lemma string_char_escape:
  assumes "string_char ch = 0x5c # es" "rd c t uj (es @ cs)"
  obtains uj' where "parse_escape uj = Some (ucast ch, uj')" "rd c t uj' cs" "fresh uj'"
proof -
  consider e where "es = [e]"
      "(e, ch) \<in> {(0x22, 0x22), (0x5c, 0x5c), (0x2f, 0x2f), (0x62, 8), (0x66, 12), (0x6e, 10), (0x72, 13), (0x74, 9 :: u8)}"
    | "es = [chr CHR ''u'', chr CHR ''0'', chr CHR ''0'', hex ! unat (drop_bit 4 ch), hex ! unat (ch AND 0xf)]"
    using assms(1) by (auto simp: string_char_def split: if_splits)
  then show ?thesis
  proof cases
    case 1
    with assms(2) have "rd c t uj (e # cs)" by simp
    from parse_escape_simple [OF this 1(2)] that show ?thesis by blast
  next
    case 2
    then have "rd c t uj (chr CHR ''u'' # chr CHR ''0'' # chr CHR ''0'' # hex ! unat (drop_bit 4 ch) # hex ! unat (ch AND 0xf) # cs)"
      using assms(2) by simp
    from parse_escape_hex [OF this] that show ?thesis by blast
  qed
qed

lemma parse_string_char:
  assumes "rd c t uj (string_char ch @ cs)"
  obtains uj' where "rd c t uj' cs" "fresh uj'" "\<forall>len buf n. parse_qs_loop uj len buf n =
    (if len > 0 then parse_qs_loop uj' (len - 1) (buf @ [ch]) (n + 1) else parse_qs_loop uj' len buf n)"
proof (cases "hd (string_char ch) = 0x5c")
  case True
  then obtain es where es: "string_char ch = 0x5c # es" by (auto simp: string_char_def split: if_splits)
  then obtain u1 where 1: "ujson_getc uj = Some (ucast (0x5c :: u8), u1)" "rd c t u1 (es @ cs)"
    using assms getc_char [of c t uj "0x5c"] by (metis append_Cons)
  obtain u2 where 2: "parse_escape u1 = Some (ucast ch, u2)" "rd c t u2 cs" "fresh u2" using string_char_escape [OF es 1(2)] .
  have step: "parse_qs_loop uj len buf n =
    (if len > 0 then parse_qs_loop u2 (len - 1) (buf @ [ch]) (n + 1) else parse_qs_loop u2 len buf n)" for len buf n
    using 1(1) 2(1) by (subst parse_qs_loop.simps) (simp add: Let_def)
  show ?thesis by (rule that [OF 2(2,3)]) (blast intro: step)
next
  case False
  then have s: "string_char ch = [ch]" "ch \<noteq> 0x22" "ch \<noteq> 0x5c" by (auto simp: string_char_def split: if_splits)
  then obtain u1 where 1: "ujson_getc uj = Some (ucast ch, u1)" "rd c t u1 cs" "fresh u1"
    using assms getc_char [of c t uj ch] by (metis append_Cons append_Nil)
  have step: "parse_qs_loop uj len buf n =
    (if len > 0 then parse_qs_loop u1 (len - 1) (buf @ [ch]) (n + 1) else parse_qs_loop u1 len buf n)" for len buf n
    using 1(1) s by (subst parse_qs_loop.simps) (simp add: Let_def)
  show ?thesis by (rule that [OF 1(2,3)]) (blast intro: step)
qed

lemma parse_string:
  assumes "rd c t uj (concat (map string_char s) @ 0x22 # cs)" "length s \<le> unat len" "length s < 2 ^ 31"
  obtains uj' where "parse_qs_loop uj len buf n = Some (OK_STATUS (n + of_nat (length s)), buf @ s @ [0], uj')" "rd c t uj' cs" "fresh uj'"
  using assms
proof (induction s arbitrary: uj len buf n thesis)
  case Nil
  then have "rd c t uj (0x22 # cs)" by simp
  then obtain u where u: "ujson_getc uj = Some (ucast (0x22 :: u8), u)" "rd c t u cs" "fresh u" by (rule getc_char)
  have "parse_qs_loop uj len buf n = Some (OK_STATUS n, buf @ [0], u)"
    using u(1) by (subst parse_qs_loop.simps) simp
  then show ?case using Nil(1) [OF _ u(2,3)] by simp
next
  case (Cons ch s)
  from Cons.prems(2) have "rd c t uj (string_char ch @ concat (map string_char s) @ 0x22 # cs)" by simp
  then obtain u1 where 1: "rd c t u1 (concat (map string_char s) @ 0x22 # cs)" "fresh u1"
    "\<forall>len buf n. parse_qs_loop uj len buf n =
      (if len > 0 then parse_qs_loop u1 (len - 1) (buf @ [ch]) (n + 1) else parse_qs_loop u1 len buf n)"
    by (rule parse_string_char)
  have "0 < unat len" using Cons.prems(3) by simp
  then have nz: "len \<noteq> 0" by auto
  then have len: "len > 0" by (simp add: word_gt_0)
  have "length s \<le> unat (len - 1)" using Cons.prems(3) by (simp add: unat_minus_one [OF nz])
  then obtain u2 where 2: "parse_qs_loop u1 (len - 1) (buf @ [ch]) (n + 1)
      = Some (OK_STATUS (n + 1 + of_nat (length s)), (buf @ [ch]) @ s @ [0], u2)" "rd c t u2 cs" "fresh u2"
    using Cons.prems(4) by (elim Cons.IH [rotated, OF 1(1), of "len - 1" "buf @ [ch]" "n + 1"]) simp_all
  then show ?case using len by (intro Cons.prems(1) [of u2]) (simp_all add: 1(3) [rule_format] add.assoc)
qed

end

text \<open>The run \<open>m\<close> writes \<open>bs\<close>, which its CRC covers, and succeeds with the status \<open>s\<close>.\<close>

definition sent_by :: "('s \<Rightarrow> u8 list) \<Rightarrow> (u8 list \<Rightarrow> 's \<Rightarrow> (status \<times> 's) option) \<Rightarrow> 's ujson \<Rightarrow> (status \<times> 's ujson) option \<Rightarrow> status \<Rightarrow> u8 list \<Rightarrow> bool" where
  "sent_by outp putbuf uj m s bs \<longleftrightarrow> (\<exists>uj'. m = Some (s, uj') \<and> outp (io_context uj') = outp (io_context uj) @ bs
     \<and> uj_crc32 uj' = crc32_bytes (uj_crc32 uj) bs \<and> uj_putbuf uj' = putbuf)"

text \<open>A transport that accepts everything it is given.\<close>

locale ujson_sink =
  fixes putbuf :: "u8 list \<Rightarrow> 's \<Rightarrow> (status \<times> 's) option" and outp :: "'s \<Rightarrow> u8 list"
  assumes put: "\<exists>s io'. putbuf buf io = Some (s, io') \<and> 0 \<le> sint s \<and> outp io' = outp io @ buf"
begin

abbreviation "sends \<equiv> sent_by outp putbuf"

lemma putbuf_sends:
  assumes "uj_putbuf uj = putbuf"
  obtains s where "sends uj (ujson_putbuf uj bs) s bs" "0 \<le> sint s"
  using put [of bs "io_context uj"] assms by (auto simp: sent_by_def ujson_putbuf_def)

lemma try_sends:
  assumes "sends uj m s bs" "0 \<le> sint s" "\<And>uj'. uj_putbuf uj' = putbuf \<Longrightarrow> sends uj' (k s uj') s' cs"
  shows "sends uj (TRY m k) s' (bs @ cs)"
proof -
  obtain u where u: "m = Some (s, u)" "outp (io_context u) = outp (io_context uj) @ bs"
    "uj_crc32 u = crc32_bytes (uj_crc32 uj) bs" "uj_putbuf u = putbuf" using assms(1) by (auto simp: sent_by_def)
  obtain v where "k s u = Some (s', v)" "outp (io_context v) = outp (io_context u) @ cs"
    "uj_crc32 v = crc32_bytes (uj_crc32 u) cs" "uj_putbuf v = putbuf" using assms(3) [OF u(4)] by (auto simp: sent_by_def)
  with u show ?thesis unfolding try_ok [OF u(1) assms(2)] by (simp add: sent_by_def)
qed

lemma try_putbuf_sends:
  assumes "uj_putbuf uj = putbuf" "\<And>s uj'. uj_putbuf uj' = putbuf \<Longrightarrow> sends uj' (k s uj') s' cs"
  shows "sends uj (TRY (ujson_putbuf uj bs) k) s' (bs @ cs)"
  using putbuf_sends [OF assms(1)] try_sends assms(2) by metis

lemma done_sends: "uj_putbuf uj = putbuf \<Longrightarrow> sends uj (Some (s, uj)) s []"
  by (simp add: sent_by_def)

lemma serialize_string_loop_sends:
  assumes "uj_putbuf uj = putbuf" "0 \<notin> set s"
  shows "sends uj (serialize_string_loop uj s) 0 (concat (map string_char s))"
  using assms
proof (induction s arbitrary: uj)
  case Nil
  then show ?case by (simp add: done_sends)
next
  case (Cons ch s)
  then have "ch \<noteq> 0" by auto
  with Cons show ?case by (simp add: try_putbuf_sends)
qed

lemma sint_zero: "0 \<le> sint (0 :: u32)"
  by simp

lemma OK_STATUS_zero: "OK_STATUS 0 = 0"
  by simp

lemma chr_quote: "chr CHR 0x22 = (0x22 :: u8)"
  by simp

lemma serialize_string_sends:
  assumes "uj_putbuf uj = putbuf" "0 \<notin> set s"
  shows "sends uj (ujson_serialize_string uj s) 0 (0x22 # concat (map string_char s) @ [0x22])"
proof -
  have "sends uj (ujson_serialize_string uj s) 0 ([0x22] @ concat (map string_char s) @ [0x22] @ [])"
    unfolding ujson_serialize_string_def
    by (simp only: OK_STATUS_zero chr_quote, rule try_putbuf_sends [OF assms(1)], rule try_sends [OF serialize_string_loop_sends [OF _ assms(2)]])
      (assumption, rule sint_zero, rule try_putbuf_sends, assumption, rule done_sends, assumption)
  then show ?thesis by simp
qed

end

subsection \<open>Numbers\<close>

lemma digit_char_unat: "d < 10 \<Longrightarrow> unat (digit_char d) = 48 + d"
proof -
  assume "d < 10"
  then have "d \<in> {0, 1, 2, 3, 4, 5, 6, 7, 8, 9}" by auto
  then show ?thesis by (auto simp: digit_char_def)
qed

lemma digit_char_facts:
  assumes "d < 10"
  shows "48 \<le> digit_char d" "digit_char d \<le> 57" "\<not> is_space (ucast (digit_char d))" "digit_char d \<noteq> 0x2d"
    "ucast (digit_char d - 48) = (of_nat d :: u64)"
proof -
  have "d \<in> {0, 1, 2, 3, 4, 5, 6, 7, 8, 9}" using assms by auto
  then show "48 \<le> digit_char d" "digit_char d \<le> 57" "\<not> is_space (ucast (digit_char d))" "digit_char d \<noteq> 0x2d"
    "ucast (digit_char d - 48) = (of_nat d :: u64)"
    by (auto simp: digit_char_def is_space_def)
qed

lemma digits_of_less_10: "\<forall>d \<in> set (digits_of 10 n). d < 10"
  using digits_of_numeral(2) [of 10 n] by simp

definition number_chars :: "bool \<Rightarrow> nat \<Rightarrow> u8 list" where
  "number_chars neg n = (if neg then [0x2d] else []) @ map digit_char (digits_of 10 n)"

text \<open>What follows a number must not start with a digit.\<close>

definition no_digit :: "u8 list \<Rightarrow> bool" where
  "no_digit rest \<longleftrightarrow> (case rest of [] \<Rightarrow> True | b # _ \<Rightarrow> b < 48 \<or> b > 57)"

lemma div_10_step:
  fixes v :: "'a::len word"
  assumes "unat (10 :: 'a word) = 10"
  shows "48 + ucast (v mod 10) = digit_char (unat v mod 10)" "v div 10 = 0 \<longleftrightarrow> unat v < 10"
    "unat (v div 10) = unat v div 10"
proof -
  have u: "unat (v mod 10) = unat v mod 10" "unat (v div 10) = unat v div 10"
    using assms by (simp_all add: unat_mod_distrib unat_div_distrib)
  have "(ucast (v mod 10) :: u8) = of_nat (unat (v mod 10))" by simp
  then show "48 + ucast (v mod 10) = digit_char (unat v mod 10)" by (simp add: u digit_char_def)
  show "v div 10 = 0 \<longleftrightarrow> unat v < 10" using u(2) by (metis div_eq_0_iff unat_eq_zero zero_neq_numeral)
  show "unat (v div 10) = unat v div 10" by (rule u)
qed

lemma digits32_loop_digits: "digits32_loop v acc = map digit_char (digits_of 10 (unat v)) @ acc"
proof (induction v acc rule: digits32_loop.induct)
  case (1 v acc)
  note s = div_10_step [of v, simplified]
  show ?case
    using 1 s by (cases "unat v < 10") (simp_all add: digits32_loop.simps [of v] digits_of.simps [of 10 "unat v"] Let_def)
qed

lemma digits64_loop_digits: "digits64_loop v acc = map digit_char (digits_of 10 (unat v)) @ acc"
proof (induction v acc rule: digits64_loop.induct)
  case (1 v acc)
  note s = div_10_step [of v, simplified]
  show ?case
    using 1 s by (cases "unat v < 10")
      (simp_all add: digits64_loop.simps [of v] digits_of.simps [of 10 "unat v"] Let_def udiv64_slow_some)
qed

context ujson_source begin

lemma parse_digits_run:
  assumes "rd c t uj (map digit_char ds @ rest)" "d < 10" "\<forall>d \<in> set ds. d < 10" "no_digit rest"
  shows "\<exists>s' ch uj'. parse_digits uj (digit_char d) v s = Some (s', ch, foldl (\<lambda>a d. a * 10 + of_nat d) v (d # ds), uj')
    \<and> (rest = [] \<longrightarrow> sint s' < 0 \<and> rd c t uj' [])
    \<and> (\<forall>b cs. rest = b # cs \<longrightarrow> 0 \<le> sint s' \<and> ch = b \<and> rd c t uj' cs \<and> fresh uj')"
  using assms
proof (induction ds arbitrary: d v s uj)
  case Nil
  show ?case
  proof (cases rest)
    case Nil': Nil
    then obtain s1 u where "ujson_getc uj = Some (s1, u)" "sint s1 < 0" "status_err s1 \<noteq> 0" "rd c t u []" "fresh u"
      using Nil getc_end [of c t uj] by auto
    with Nil' show ?thesis using Nil.prems(2) digit_char_facts [of d]
      by (subst parse_digits.simps) (auto simp: Let_def)
  next
    case (Cons b cs)
    then obtain u where "ujson_getc uj = Some (ucast b, u)" "rd c t u cs" "fresh u"
      using Nil getc_char [of c t uj b cs] by auto
    with Cons show ?thesis using Nil.prems(2,4) digit_char_facts [of d]
      by (subst parse_digits.simps, subst parse_digits.simps) (auto simp: Let_def no_digit_def)
  qed
next
  case (Cons e ds)
  then have "rd c t uj (digit_char e # map digit_char ds @ rest)" by simp
  then obtain u where u: "ujson_getc uj = Some (ucast (digit_char e), u)" "rd c t u (map digit_char ds @ rest)" by (rule getc_char)
  have "parse_digits uj (digit_char d) v s = parse_digits u (digit_char e) (v * 10 + of_nat d) (ucast (digit_char e))"
    using u(1) Cons.prems(2) digit_char_facts [of d] by (subst parse_digits.simps) (simp add: Let_def)
  with Cons.IH [OF u(2), of e "v * 10 + of_nat d"] Cons.prems show ?case by auto
qed

lemma parse_integer_number:
  assumes "rd c t uj (number_chars neg n @ rest)" "no_digit rest"
  obtains uj' where "ujson_parse_integer uj = Some (0, Some (if neg then - of_nat n else of_nat n), uj')" "rd c t uj' rest"
proof -
  obtain d ds where ds: "digits_of 10 n = d # ds" using digits_of_numeral(3) [of 10 n] by (cases "digits_of 10 n") auto
  then have d: "d < 10" "\<forall>d \<in> set ds. d < 10" using digits_of_less_10 [of n] by simp_all
  have "foldl (\<lambda>a d. a * 10 + d) 0 (d # ds) = n" using digits_of_numeral(1) [of 10 n] ds by simp
  then have val: "foldl (\<lambda>a d. a * 10 + of_nat d) 0 (d # ds) = (of_nat n :: u64)"
    using foldl_of_nat [of 0 "d # ds", where 'a = u64] by simp
  note dc = digit_char_facts [OF d(1)]
  obtain u1 u2 where 1: "consume_whitespace uj = Some (ucast (if neg then 0x2d else digit_char d), u1)"
    "(if neg then ujson_getc u1 else Some (ucast (digit_char d), u1)) = Some (ucast (digit_char d), u2)"
    "rd c t u2 (map digit_char ds @ rest)"
  proof (cases neg)
    case True
    have "rd c t uj ([] @ 0x2d # digit_char d # map digit_char ds @ rest)"
      using assms(1) True ds by (simp add: number_chars_def)
    then obtain u1 where "consume_whitespace uj = Some (ucast (0x2d :: u8), u1)" "rd c t u1 (digit_char d # map digit_char ds @ rest)"
      by (rule consume_whitespace_skip) (simp_all add: is_space_def)
    moreover from this(2) obtain u2 where "ujson_getc u1 = Some (ucast (digit_char d), u2)" "rd c t u2 (map digit_char ds @ rest)"
      by (rule getc_char)
    ultimately show ?thesis using True that by simp
  next
    case False
    have "rd c t uj ([] @ digit_char d # map digit_char ds @ rest)"
      using assms(1) False ds by (simp add: number_chars_def)
    then obtain u1 where "consume_whitespace uj = Some (ucast (digit_char d), u1)" "rd c t u1 (map digit_char ds @ rest)"
      by (rule consume_whitespace_skip) (use dc in simp_all)
    with False that show ?thesis by simp
  qed
  obtain s ch u3 where 3: "parse_digits u2 (digit_char d) 0 0 = Some (s, ch, of_nat n, u3)"
    "rest = [] \<longrightarrow> sint s < 0 \<and> rd c t u3 []" "\<forall>b cs. rest = b # cs \<longrightarrow> 0 \<le> sint s \<and> ch = b \<and> rd c t u3 cs \<and> fresh u3"
    using parse_digits_run [OF 1(3) d assms(2), of 0 0] unfolding val by blast
  let ?u = "if status_ok s then snd (ujson_ungetc u3 ch) else u3"
  have 4: "Some (if status_ok s then ujson_ungetc u3 ch else (OK_STATUS 0, u3)) = Some (0, ?u)" "rd c t ?u rest"
    using 3(2,3) ungetc_char [of c t u3 "tl rest" ch] by (cases rest; simp add: status_ok_def)+
  have "ujson_parse_integer uj = Some (0, Some (if neg then - of_nat n else of_nat n), ?u)"
  proof (cases neg)
    case True
    have a: "consume_whitespace uj = Some (ucast (0x2d :: u8), u1)" "ujson_getc u1 = Some (ucast (digit_char d), u2)"
      using 1(1,2) True by simp_all
    show ?thesis unfolding ujson_parse_integer_def try_ok [OF a(1) sint_byte_nonneg(1)]
      using True dc(1,2) by (simp add: Let_def try_ok [OF a(2) sint_byte_nonneg(1)] 3(1) try_ok [OF 4(1)])
  next
    case False
    have a: "consume_whitespace uj = Some (ucast (digit_char d), u1)" "u2 = u1" using 1(1,2) False by simp_all
    show ?thesis unfolding ujson_parse_integer_def try_ok [OF a(1) sint_byte_nonneg(1)]
      using False dc(1,2,4) by (simp add: Let_def a(2) [symmetric] try_ok [OF refl sint_byte_nonneg(1)] 3(1) try_ok [OF 4(1)])
  qed
  with 4(2) that show ?thesis by blast
qed

end

context ujson_sink begin

lemma serialize_integer32_sends:
  assumes "uj_putbuf uj = putbuf"
  shows "sends uj (ujson_serialize_integer32 uj v neg) 0 (number_chars neg (unat (if neg then - v else v)))"
proof -
  have n: "NOT v + 1 = - v" by (simp add: minus_eq_not_plus_1)
  have "sends uj (ujson_serialize_integer32 uj v neg) 0 (number_chars neg (unat (if neg then - v else v)) @ [])"
    unfolding ujson_serialize_integer32_def Let_def n digits32_loop_digits number_chars_def
    by (cases neg) (simp_all, (rule try_putbuf_sends [OF assms, where cs = "[]", simplified], rule done_sends, assumption)+)
  then show ?thesis by simp
qed

lemma serialize_integer64_sends:
  assumes "uj_putbuf uj = putbuf"
  shows "sends uj (ujson_serialize_integer64 uj v neg) 0 (number_chars neg (unat (if neg then - v else v)))"
proof -
  have n: "NOT v + 1 = - v" by (simp add: minus_eq_not_plus_1)
  have "sends uj (ujson_serialize_integer64 uj v neg) 0 (number_chars neg (unat (if neg then - v else v)) @ [])"
    unfolding ujson_serialize_integer64_def Let_def n digits64_loop_digits number_chars_def
    by (cases neg) (simp_all, (rule try_putbuf_sends [OF assms, where cs = "[]", simplified], rule done_sends, assumption)+)
  then show ?thesis by simp
qed

end

subsection \<open>Conversions between widths\<close>

lemma ucast_of_nat_unat:
  fixes v :: "'a::len word"
  assumes "LENGTH('a) \<le> LENGTH('b::len)" "LENGTH('b) \<le> 64"
  shows "ucast (of_nat (unat (ucast v :: 'b word)) :: u64) = v"
proof -
  have "of_nat (unat (ucast v :: 'b word)) = (ucast (ucast v :: 'b word) :: u64)" by simp
  moreover have "ucast (ucast (ucast v :: 'b word) :: u64) = v"
    using assms by (intro bit_word_eqI) (auto simp: bit_ucast_iff)
  ultimately show ?thesis by simp
qed

lemma ucast_down_minus:
  fixes x :: "'b::len word"
  assumes "LENGTH('a::len) \<le> LENGTH('b)"
  shows "ucast (- x) = (- ucast x :: 'a word)"
proof -
  have ui: "ucast (word_of_int k :: 'b word) = (word_of_int k :: 'a word)" for k
    using assms by (intro bit_word_eqI) (auto simp: bit_ucast_iff bit_word_of_int_iff)
  have "ucast (- x) = (ucast (word_of_int (- uint x) :: 'b word) :: 'a word)" by simp
  also have "\<dots> = - word_of_int (uint x)" unfolding ui by simp
  also have "(word_of_int (uint x) :: 'a word) = ucast x" using ui [of "uint x"] by simp
  finally show ?thesis .
qed

lemma ucast_minus_of_nat_unat:
  fixes v :: "'a::len word"
  assumes "LENGTH('a) \<le> LENGTH('b::len)" "LENGTH('b) \<le> 64"
  shows "ucast (- of_nat (unat (- scast v :: 'b word)) :: u64) = v"
proof -
  have len: "LENGTH('a) \<le> LENGTH(64)" using assms by simp
  have "of_nat (unat (- scast v :: 'b word)) = (ucast (- scast v :: 'b word) :: u64)" by simp
  then have "ucast (- of_nat (unat (- scast v :: 'b word)) :: u64) = (- ucast (ucast (- scast v :: 'b word) :: u64) :: 'a word)"
    using len by (simp add: ucast_down_minus)
  also have "(ucast (ucast (- scast v :: 'b word) :: u64) :: 'a word) = ucast (- scast v :: 'b word)"
    using assms by (intro bit_word_eqI) (auto simp: bit_ucast_iff)
  also have "\<dots> = - ucast (scast v :: 'b word)" using assms(1) by (rule ucast_down_minus)
  also have "(ucast (scast v :: 'b word) :: 'a word) = v"
    using assms(1) by (intro bit_word_eqI) (auto simp: bit_ucast_iff bit_word_scast_iff)
  finally show ?thesis by simp
qed

lemma sint_of_nat_small: "n < 2 ^ 31 \<Longrightarrow> 0 \<le> sint (of_nat n :: u32)"
proof -
  assume n: "n < 2 ^ 31"
  then have "sint (of_nat n :: u32) = int n"
    by (simp add: signed_of_nat signed_take_bit_int_eq_self)
  then show ?thesis by simp
qed

context ujson_source begin

lemma parse_qs_string:
  assumes "rd c t uj (0x22 # concat (map string_char s) @ 0x22 # cs)" "length s < unat len" "length s < 2 ^ 31"
  obtains uj' where "ujson_parse_qs uj len = Some (of_nat (length s), s @ [0], uj')" "rd c t uj' cs" "fresh uj'"
proof -
  obtain u1 where 1: "ujson_consume uj 0x22 = Some (0, u1)" "rd c t u1 (concat (map string_char s) @ 0x22 # cs)"
    using assms(1) by (rule consume_char) (simp add: is_space_def)
  have nz: "len \<noteq> 0" using assms(2) by auto
  have l: "length s \<le> unat (len - 1)" using assms(2) by (simp add: unat_minus_one [OF nz])
  obtain u2 where 2: "parse_qs_loop u1 (len - 1) [] 0 = Some (OK_STATUS (0 + of_nat (length s)), [] @ s @ [0], u2)"
    "rd c t u2 cs" "fresh u2" using 1(2) l assms(3) by (rule parse_string)
  have "0 \<le> sint (of_nat (length s) :: u32)"
    using assms(3) by (rule sint_of_nat_small)
  then have "ujson_parse_qs uj len = Some (of_nat (length s), s @ [0], u2)"
    using 1(1) 2(1) by (simp add: ujson_parse_qs_def try_ok Let_def)
  with 2 that show ?thesis by blast
qed

lemma consume_all_text:
  assumes "rd c t uj (cs @ rest)" "\<forall>b \<in> set cs. \<not> is_space (ucast b)" "fresh uj"
  obtains uj' where "consume_all uj cs = Some (0, uj')" "rd c t uj' rest" "fresh uj'"
  using assms
proof (induction cs arbitrary: uj thesis)
  case Nil
  then show ?case by simp
next
  case (Cons b cs)
  then have "rd c t uj (b # cs @ rest)" "\<not> is_space (ucast b)" by simp_all
  then obtain u where u: "ujson_consume uj b = Some (0, u)" "rd c t u (cs @ rest)" "fresh u" by (rule consume_char)
  obtain uj' where "consume_all u cs = Some (0, uj')" "rd c t uj' rest" "fresh uj'"
    using Cons.IH [OF _ u(2)] Cons.prems(3) u(3) by auto
  with u(1) Cons.prems(1) show ?case by (simp add: try_ok)
qed

lemma deserialize_bool_text:
  assumes "rd c t uj (str (if v then ''true'' else ''false'') @ rest)"
  obtains uj' where "ujson_deserialize_bool uj old = Some (0, v, uj')" "rd c t uj' rest"
proof -
  let ?w = "if v then str ''rue'' else str ''alse''" and ?h = "if v then chr CHR ''t'' else chr CHR ''f''"
  have "rd c t uj ([] @ ?h # ?w @ rest)" using assms by (simp add: str_def split: if_splits)
  then obtain u1 where 1: "consume_whitespace uj = Some (ucast ?h, u1)" "rd c t u1 (?w @ rest)" "fresh u1"
    by (rule consume_whitespace_skip) (simp_all add: is_space_def)
  obtain u2 where "consume_all u1 ?w = Some (0, u2)" "rd c t u2 rest"
    using 1(2,3) by (elim consume_all_text) (auto simp: str_def is_space_def)
  then show ?thesis
    using 1(1) by (intro that [of u2]) (auto simp: ujson_deserialize_bool_def try_ok Let_def split: if_splits)
qed

text \<open>What a parser leaves, and what its CRC covers when no character was put back.\<close>

lemma ready_done:
  assumes "rd c (cs @ rest) uj rest" "fresh uj"
  shows "inp (io_context uj) = rest" "uj_crc32 uj = crc32_bytes c cs"
proof -
  show i: "inp (io_context uj) = rest" using assms by (auto simp: ready_def fresh_def)
  obtain k where k: "rest = drop k (cs @ rest)" "uj_crc32 uj = crc32_bytes c (take k (cs @ rest))"
    using assms i by (auto simp: ready_def)
  have "take k (cs @ rest) @ rest = cs @ rest" using k(1) append_take_drop_id [of k "cs @ rest"] by simp
  then have "take k (cs @ rest) = cs" by (rule append_same_eq [THEN iffD1])
  with k(2) show "uj_crc32 uj = crc32_bytes c cs" by (simp only:)
qed

end

end
