(* ===== verification/UjsonRoundtrip.thy ===== *)
theory UjsonRoundtrip
  imports Ujson
begin

section \<open>JSON round trips\<close>

text \<open>
  The properties of \<^verbatim>\<open>ujson.c\<close> on a transport that the repository has as code, the class \<open>SourceSink\<close> of
  \<^verbatim>\<open>ujson/test_helpers.h\<close>: it provides both interfaces of the theory Ujson, so what the writers send
  there is what the readers read, for strings, numbers, booleans and status values; and every
  parser returns, whatever it is given.
\<close>

subsection \<open>A string as the transport\<close>

text \<open>The class \<open>SourceSink\<close> of \<^verbatim>\<open>ujson/test_helpers.h\<close>: reads from one string and appends to another.\<close>

record source_sink =
  ss_pos :: nat
  ss_source :: "u8 list"
  ss_sink :: "u8 list"

definition SourceSink :: "u8 list \<Rightarrow> source_sink" where
  "SourceSink source = \<lparr>ss_pos = 0, ss_source = source, ss_sink = []\<rparr>"

definition GetChar :: "source_sink \<Rightarrow> (status \<times> source_sink) option" where
  "GetChar io =
     (if ss_pos io < length (ss_source io)
      then Some (OK_STATUS (ucast (ss_source io ! ss_pos io)), io\<lparr>ss_pos := ss_pos io + 1\<rparr>)
      else Some (status_create (absl_code kResourceExhausted) 0 (str ''sw/device/lib/ujson/test_helpers.h'') 40, io))"

definition PutBuf :: "u8 list \<Rightarrow> source_sink \<Rightarrow> (status \<times> source_sink) option" where
  "PutBuf buf io = Some (OK_STATUS 0, io\<lparr>ss_sink := ss_sink io @ buf\<rparr>)"

definition UJson :: "source_sink \<Rightarrow> source_sink ujson" where
  "UJson io = ujson_init io GetChar PutBuf"

definition unread :: "source_sink \<Rightarrow> u8 list" where
  "unread io = drop (ss_pos io) (ss_source io)"

text \<open>The characters a parser has still to see: the one that was put back and those of the source.\<close>

definition pending :: "source_sink ujson \<Rightarrow> u8 list" where
  "pending uj = (if 0 \<le> sint (uj_buffer uj) then [ucast (uj_buffer uj)] else []) @ unread (io_context uj)"

lemma GetChar_end:
  "sint (status_create (absl_code kResourceExhausted) 0 (str ''sw/device/lib/ujson/test_helpers.h'') 40) < 0"
  "status_err (status_create (absl_code kResourceExhausted) 0 (str ''sw/device/lib/ujson/test_helpers.h'') 40) \<noteq> 0"
  by code_simp+

interpretation pipe_source: ujson_source GetChar unread
proof
  fix io c cs
  assume a: "unread io = c # cs"
  then have p: "ss_pos io < length (ss_source io)" by (metis drop_all leI list.discI unread_def)
  then have "ss_source io ! ss_pos io = c" "drop (Suc (ss_pos io)) (ss_source io) = cs"
    using a unfolding unread_def by (metis Cons_nth_drop_Suc list.inject)+
  with p show "\<exists>io'. GetChar io = Some (ucast c, io') \<and> unread io' = cs" by (simp add: GetChar_def unread_def)
next
  fix io
  assume "unread io = []"
  then show "\<exists>s io'. GetChar io = Some (s, io') \<and> sint s < 0 \<and> status_err s \<noteq> 0 \<and> unread io' = []"
    using GetChar_end by (auto simp: GetChar_def unread_def)
qed

interpretation pipe_sink: ujson_sink PutBuf ss_sink
  by unfold_locales (simp add: PutBuf_def)

lemma pipe_ready: "ready GetChar unread 0xffffffff t (UJson (SourceSink t)) t"
  by (auto simp: ready_def UJson_def ujson_init_def SourceSink_def unread_def intro!: exI [of _ 0])

lemma pipe_pending: "ready GetChar unread c t uj rest \<Longrightarrow> pending uj = rest"
  by (auto simp: ready_def pending_def ucast_up_ucast_id is_up split: if_splits)

lemma pipe_putbuf [simp]: "uj_putbuf (UJson io) = PutBuf" "uj_crc32 (UJson io) = 0xffffffff" "io_context (UJson io) = io"
  by (simp_all add: UJson_def ujson_init_def)

text \<open>C30: JSON strings: for every C string, \<open>ujson_serialize_string\<close> succeeds, and \<open>ujson_parse_qs\<close> on what it
  wrote, whatever follows, gives back the string with its terminator and its length, stops right
  behind the closing quote, and has computed the CRC the writer computed.\<close>

theorem ujson_string_roundtrip:
  assumes "0 \<notin> set s" "length s < unat len" "length s < 2 ^ 31"
  shows "\<exists>txt w r. ujson_serialize_string (UJson io) s = Some (0, w) \<and> ss_sink (io_context w) = ss_sink io @ txt
    \<and> ujson_parse_qs (UJson (SourceSink (txt @ rest))) len = Some (of_nat (length s), s @ [0], r)
    \<and> pending r = rest \<and> ujson_crc32_finish r = ujson_crc32_finish w"
proof -
  let ?t = "0x22 # concat (map string_char s) @ [0x22]"
  have "sent_by ss_sink PutBuf (UJson io) (ujson_serialize_string (UJson io) s) 0 ?t"
    by (rule pipe_sink.serialize_string_sends) (simp_all add: assms(1))
  then obtain w where w: "ujson_serialize_string (UJson io) s = Some (0, w)" "ss_sink (io_context w) = ss_sink io @ ?t"
    "uj_crc32 w = crc32_bytes 0xffffffff ?t" unfolding sent_by_def pipe_putbuf by blast
  have "ready GetChar unread 0xffffffff (?t @ rest) (UJson (SourceSink (?t @ rest))) (0x22 # concat (map string_char s) @ 0x22 # rest)"
    using pipe_ready [of "?t @ rest"] by simp
  then obtain r where r: "ujson_parse_qs (UJson (SourceSink (?t @ rest))) len = Some (of_nat (length s), s @ [0], r)"
    "ready GetChar unread 0xffffffff (?t @ rest) r rest" "fresh r"
    using assms(2,3) by (rule pipe_source.parse_qs_string)
  have "ujson_crc32_finish r = ujson_crc32_finish w"
    using pipe_source.ready_done(2) [OF r(2,3)] w(3) by (simp add: ujson_crc32_finish_def)
  with w(1,2) r(1) pipe_pending [OF r(2)] show ?thesis by blast
qed

lemma ujson_string_roundtrip_witness:
  "\<exists>txt w r. ujson_serialize_string (UJson (SourceSink [])) (str ''a'' @ [0x0a, 0x22, 0xff]) = Some (0, w) \<and> ss_sink (io_context w) = txt
    \<and> ujson_parse_qs (UJson (SourceSink (txt @ str '', 1''))) 5 = Some (4, str ''a'' @ [0x0a, 0x22, 0xff, 0], r)
    \<and> pending r = str '', 1'' \<and> ujson_crc32_finish r = ujson_crc32_finish w"
proof -
  have "0 \<notin> set (str ''a'' @ [0x0a, 0x22, 0xff])" "length (str ''a'' @ [0x0a, 0x22, 0xff]) < unat (5 :: u32)"
    "length (str ''a'' @ [0x0a, 0x22, 0xff]) < 2 ^ 31"
    by (simp_all add: str_def)
  from ujson_string_roundtrip [OF this, of "SourceSink []" "str '', 1''"] show ?thesis by (simp add: str_def SourceSink_def)
qed

text \<open>What the writer of a type sends for \<open>v\<close>, its reader reads as \<open>v\<close>, and leaves what follows.\<close>

definition round_trips ::
    "(source_sink ujson \<Rightarrow> 'v \<Rightarrow> (status \<times> source_sink ujson) option) \<Rightarrow>
     (source_sink ujson \<Rightarrow> 'v \<Rightarrow> (status \<times> 'v \<times> source_sink ujson) option) \<Rightarrow> u8 list \<Rightarrow> 'v \<Rightarrow> bool" where
  "round_trips serialize deserialize rest v \<longleftrightarrow>
     (\<forall>io old. \<exists>txt w r. serialize (UJson io) v = Some (0, w) \<and> ss_sink (io_context w) = ss_sink io @ txt
        \<and> deserialize (UJson (SourceSink (txt @ rest))) old = Some (0, v, r) \<and> pending r = rest)"

lemma round_trips_text:
  assumes "\<And>uj. uj_putbuf uj = PutBuf \<Longrightarrow> sent_by ss_sink PutBuf uj (serialize uj v) 0 txt"
    "\<And>uj old. ready GetChar unread 0xffffffff (txt @ rest) uj (txt @ rest)
      \<Longrightarrow> \<exists>r. deserialize uj old = Some (0, v, r) \<and> ready GetChar unread 0xffffffff (txt @ rest) r rest"
  shows "round_trips serialize deserialize rest v"
proof -
  have "\<exists>txt w r. serialize (UJson io) v = Some (0, w) \<and> ss_sink (io_context w) = ss_sink io @ txt
        \<and> deserialize (UJson (SourceSink (txt @ rest))) old = Some (0, v, r) \<and> pending r = rest" for io old
  proof -
    have "sent_by ss_sink PutBuf (UJson io) (serialize (UJson io) v) 0 txt" by (rule assms(1)) simp
    moreover obtain r where "deserialize (UJson (SourceSink (txt @ rest))) old = Some (0, v, r)" "pending r = rest"
      using assms(2) [OF pipe_ready, of old] pipe_pending by blast
    ultimately show ?thesis unfolding sent_by_def by auto
  qed
  then show ?thesis by (simp add: round_trips_def)
qed

lemma deserialize_integer_number:
  assumes "ready GetChar unread c t uj (number_chars neg n @ rest)" "no_digit rest"
    "ucast (if neg then - of_nat n else of_nat n :: u64) = v"
  shows "\<exists>r. deserialize_integer uj old = Some (0, v, r) \<and> ready GetChar unread c t r rest"
proof -
  obtain r where "ujson_parse_integer uj = Some (0, Some (if neg then - of_nat n else of_nat n), r)" "ready GetChar unread c t r rest"
    using pipe_source.parse_integer_number [OF assms(1,2)] .
  then show ?thesis using assms(3) by (auto simp: deserialize_integer_def)
qed

lemma ucast_of_nat_unat_scast:
  fixes v :: "'a::len word"
  assumes "LENGTH('a) \<le> LENGTH('b::len)" "LENGTH('b) \<le> 64"
  shows "ucast (of_nat (unat (scast v :: 'b word)) :: u64) = v"
proof -
  have "of_nat (unat (scast v :: 'b word)) = (ucast (scast v :: 'b word) :: u64)" by simp
  moreover have "ucast (ucast (scast v :: 'b word) :: u64) = v"
    using assms by (intro bit_word_eqI) (auto simp: bit_ucast_iff bit_word_scast_iff)
  ultimately show ?thesis by simp
qed

lemma number_round_trips:
  assumes "\<And>uj. uj_putbuf uj = PutBuf \<Longrightarrow> sent_by ss_sink PutBuf uj (serialize uj v) 0 (number_chars neg n)"
    "\<And>uj old. deserialize uj old = deserialize_integer uj old" "no_digit rest"
    "ucast (if neg then - of_nat n else of_nat n :: u64) = v"
  shows "round_trips serialize deserialize rest v"
  by (rule round_trips_text, erule assms(1), unfold assms(2), erule deserialize_integer_number) (rule assms)+

text \<open>The value is passed on as a wider word, with or without its sign.\<close>

lemma unsigned_32_round_trips:
  fixes v :: "'a::len word"
  assumes "no_digit rest" "\<And>uj. serialize uj v = ujson_serialize_integer32 uj (ucast v) False"
    "\<And>uj old. deserialize uj old = deserialize_integer uj old" "LENGTH('a) \<le> 32"
  shows "round_trips serialize deserialize rest v"
  by (rule number_round_trips [where neg = False and n = "unat (ucast v :: u32)", OF _ assms(3,1)], unfold assms(2))
    (use pipe_sink.serialize_integer32_sends [where v = "ucast v" and neg = False] ucast_of_nat_unat [of v, where 'b = 32] assms(4) in simp_all)

lemma signed_32_round_trips:
  fixes v :: "'a::len word"
  assumes "no_digit rest" "\<And>uj. serialize uj v = ujson_serialize_integer32 uj (scast v) (sint v < 0)"
    "\<And>uj old. deserialize uj old = deserialize_integer uj old" "LENGTH('a) \<le> 32"
  shows "round_trips serialize deserialize rest v"
  by (rule number_round_trips [where neg = "sint v < 0", OF _ assms(3,1)], unfold assms(2), erule pipe_sink.serialize_integer32_sends)
    (use ucast_of_nat_unat_scast [of v, where 'b = 32] ucast_minus_of_nat_unat [of v, where 'b = 32] assms(4) in simp)

lemma unsigned_64_round_trips:
  fixes v :: u64
  assumes "no_digit rest" "\<And>uj. serialize uj v = ujson_serialize_integer64 uj v False"
    "\<And>uj old. deserialize uj old = deserialize_integer uj old"
  shows "round_trips serialize deserialize rest v"
  by (rule number_round_trips [where neg = False and n = "unat v", OF _ assms(3,1)], unfold assms(2))
    (use pipe_sink.serialize_integer64_sends [where v = v and neg = False] in simp_all)

lemma signed_64_round_trips:
  fixes v :: u64
  assumes "no_digit rest" "\<And>uj. serialize uj v = ujson_serialize_integer64 uj v (sint v < 0)"
    "\<And>uj old. deserialize uj old = deserialize_integer uj old"
  shows "round_trips serialize deserialize rest v"
  by (rule number_round_trips [where neg = "sint v < 0", OF _ assms(3,1)], unfold assms(2), erule pipe_sink.serialize_integer64_sends)
    simp

lemma bool_round_trips: "round_trips ujson_serialize_bool ujson_deserialize_bool rest v"
proof (rule round_trips_text)
  fix uj :: "source_sink ujson"
  assume u: "uj_putbuf uj = PutBuf"
  have "sent_by ss_sink PutBuf uj (ujson_serialize_bool uj v) 0 (str (if v then ''true'' else ''false'') @ [])"
    using u by (cases v) (simp_all only: ujson_serialize_bool_def if_True if_False pipe_sink.OK_STATUS_zero,
      (rule pipe_sink.try_putbuf_sends, assumption, rule pipe_sink.done_sends, assumption)+)
  then show "sent_by ss_sink PutBuf uj (ujson_serialize_bool uj v) 0 (str (if v then ''true'' else ''false''))" by simp
next
  fix uj old and t
  assume "ready GetChar unread 0xffffffff t uj (str (if v then ''true'' else ''false'') @ rest)"
  then show "\<exists>r. ujson_deserialize_bool uj old = Some (0, v, r) \<and> ready GetChar unread 0xffffffff t r rest"
    by (rule pipe_source.deserialize_bool_text) blast
qed

lemmas integer_writers =
  ujson_serialize_uint64_t_def ujson_serialize_uint32_t_def ujson_serialize_uint16_t_def ujson_serialize_uint8_t_def
  ujson_serialize_size_t_def ujson_serialize_int64_t_def ujson_serialize_int32_t_def ujson_serialize_int16_t_def
  ujson_serialize_int8_t_def

lemmas integer_readers =
  ujson_deserialize_uint64_t_def ujson_deserialize_uint32_t_def ujson_deserialize_uint16_t_def ujson_deserialize_uint8_t_def
  ujson_deserialize_size_t_def ujson_deserialize_int64_t_def ujson_deserialize_int32_t_def ujson_deserialize_int16_t_def
  ujson_deserialize_int8_t_def

text \<open>C31: JSON numbers and booleans: whatever value of one of the nine integer types or of \<open>bool\<close> is
  serialised, deserialising it as the same type succeeds and gives the value back, for negative
  numbers and the least number of a type too, and leaves the text that follows, which for a number
  must not start with a digit.\<close>

theorem ujson_scalars_roundtrip:
  assumes "no_digit rest"
  shows "round_trips ujson_serialize_uint64_t ujson_deserialize_uint64_t rest a
    \<and> round_trips ujson_serialize_uint32_t ujson_deserialize_uint32_t rest b
    \<and> round_trips ujson_serialize_uint16_t ujson_deserialize_uint16_t rest c
    \<and> round_trips ujson_serialize_uint8_t ujson_deserialize_uint8_t rest d
    \<and> round_trips ujson_serialize_size_t ujson_deserialize_size_t rest b
    \<and> round_trips ujson_serialize_int64_t ujson_deserialize_int64_t rest a
    \<and> round_trips ujson_serialize_int32_t ujson_deserialize_int32_t rest b
    \<and> round_trips ujson_serialize_int16_t ujson_deserialize_int16_t rest c
    \<and> round_trips ujson_serialize_int8_t ujson_deserialize_int8_t rest d
    \<and> round_trips ujson_serialize_bool ujson_deserialize_bool rest v"
  by (intro conjI bool_round_trips unsigned_64_round_trips signed_64_round_trips unsigned_32_round_trips signed_32_round_trips
      assms, unfold integer_writers integer_readers) simp_all

lemma ujson_scalars_roundtrip_witness:
  "round_trips ujson_serialize_int8_t ujson_deserialize_int8_t (str '', 1]'') 0x80
    \<and> round_trips ujson_serialize_uint64_t ujson_deserialize_uint64_t (str '', 1]'') (- 1)"
proof -
  have "no_digit (str '', 1]'')" by (simp add: no_digit_def str_def)
  from ujson_scalars_roundtrip [OF this, of "- 1" 0 0 "0x80" True] show ?thesis by simp
qed

subsection \<open>Status values\<close>

lemma number_text_chars: "number_text 10 kDigitsLow Natural v = number_chars False (unat v)"
proof -
  have "kDigitsLow ! d = digit_char d" if "d < 10" for d
  proof -
    have "d \<in> {0, 1, 2, 3, 4, 5, 6, 7, 8, 9}" using that by auto
    then show ?thesis by (auto simp: kDigitsLow_def str_def digit_char_def)
  qed
  then show ?thesis using digits_of_less_10 [of "unat v"] by (simp add: number_text_def padded_def number_chars_def)
qed

text \<open>The names stand for their codes, and none of their letters is escaped.\<close>

lemma private_status_name:
  assumes "k < 17"
  shows "find_name (str (status_codes ! k) @ [0]) private_status_names 0 = Some (of_nat k)"
    "concat (map string_char (str (status_codes ! k))) = str (status_codes ! k)" "length (str (status_codes ! k)) < 127"
proof -
  have "\<forall>k \<in> set [0..<17]. find_name (str (status_codes ! k) @ [0]) private_status_names 0 = Some (of_nat k)
    \<and> concat (map string_char (str (status_codes ! k))) = str (status_codes ! k) \<and> length (str (status_codes ! k)) < 127"
    by code_simp
  then show "find_name (str (status_codes ! k) @ [0]) private_status_names 0 = Some (of_nat k)"
    "concat (map string_char (str (status_codes ! k))) = str (status_codes ! k)" "length (str (status_codes ! k)) < 127"
    using assms by auto
qed

lemma module_letter_ascii:
  "ascii_5bit (module_letter v) = ascii_5bit v" "module_letter v \<noteq> 0x5c \<Longrightarrow> string_char (module_letter v) = [module_letter v]"
proof -
  have "unat (ascii_5bit v) < 32" by (rule ascii_5bit_bound)
  then obtain k where k: "ascii_5bit v = of_nat k" "k < 32" by (metis word_of_nat_eq_0_iff of_nat_unat ucast_id)
  have *: "\<forall>k \<in> set [0..<32]. ascii_5bit (chr CHR ''@'' + ucast (of_nat k :: u32)) = of_nat k
    \<and> (chr CHR ''@'' + ucast (of_nat k :: u32) \<noteq> 0x5c \<longrightarrow>
        string_char (chr CHR ''@'' + ucast (of_nat k :: u32)) = [chr CHR ''@'' + ucast (of_nat k :: u32)])"
    by code_simp
  show "ascii_5bit (module_letter v) = ascii_5bit v" "module_letter v \<noteq> 0x5c \<Longrightarrow> string_char (module_letter v) = [module_letter v]"
    using bspec [OF *, of k] k by (simp_all add: module_letter_def)
qed

lemma status_word_arg_field: "status_word code m (arg AND 0x7ff) = status_word code m arg"
proof (rule bit_word_eqI)
  fix n
  have "(0x7ff :: u32) = mask 11" by (simp add: mask_eq_decr_exp)
  then have "5 \<le> n \<Longrightarrow> n < 16 \<Longrightarrow> bit (arg AND 0x7ff) (n - 5) = bit arg (n - 5)" by (simp only: bit_and_iff bit_mask_iff) auto
  then show "bit (status_word code m (arg AND 0x7ff)) n = bit (status_word code m arg) n" by (auto simp: bit_status_word)
qed

lemma make_module_letters:
  "make_module_id (module_letter a) (module_letter b) (module_letter c) = make_module_id a b c"
  by (simp add: make_module_id_def module_letter_ascii)

context ujson_source begin

lemma deserialize_number:
  assumes "rd c t uj (number_chars False (unat (v :: u32)) @ rest)" "no_digit rest"
  obtains uj' where "deserialize_integer uj old = Some (0, v, uj')" "rd c t uj' rest"
proof -
  obtain u where "ujson_parse_integer uj = Some (0, Some (of_nat (unat v)), u)" "rd c t u rest"
    using parse_integer_number [OF assms] by auto
  then show ?thesis using ucast_of_nat_unat [of v, where 'b = 32]
    by (intro that [of u]) (simp_all add: deserialize_integer_def)
qed

lemma deserialize_private_status:
  assumes "rd c t uj (0x22 # str (status_codes ! k) @ 0x22 # cs)" "k < 17"
  obtains uj' where "ujson_deserialize_private_status_t uj self = Some (0, of_nat k, uj')" "rd c t uj' cs" "fresh uj'"
proof -
  let ?s = "str (status_codes ! k)"
  note name = private_status_name [OF assms(2)]
  obtain u1 where 1: "ujson_consume_maybe uj 0x22 = Some (1, u1)" "rd c t u1 (?s @ 0x22 # cs)" "fresh u1"
    using consume_maybe_char(1) [OF assms(1), of "0x22"] by (auto simp: is_space_def)
  define u2 where "u2 = snd (ujson_ungetc u1 0x22)"
  have 2: "ujson_ungetc u1 0x22 = (0, u2)" "rd c t u2 (0x22 # concat (map string_char ?s) @ 0x22 # cs)"
    using ungetc_char [OF 1(2,3), of "0x22"] by (simp_all add: u2_def name)
  obtain u3 where 3: "ujson_parse_qs u2 128 = Some (of_nat (length ?s), ?s @ [0], u3)" "rd c t u3 cs" "fresh u3"
    using 2(2) by (rule parse_qs_string [where len = 128]) (use name(3) in simp_all)
  have "0 \<le> sint (of_nat (length ?s) :: u32)" using name(3) by (intro sint_of_nat_small) simp
  then have "ujson_deserialize_private_status_t uj self = Some (0, of_nat k, u3)"
    using 1(1) 2(1) 3(1) by (simp add: ujson_deserialize_private_status_t_def Let_def try_ok name(1))
  with 3(2,3) that show ?thesis by blast
qed

lemma parse_status_number:
  assumes "rd c t uj (number_chars False (unat v) @ rest)" "no_digit rest"
  obtains uj' where "parse_status_arg uj = Some (0, 0, v, uj')" "rd c t uj' rest"
proof -
  obtain d ds where ds: "digits_of 10 (unat v) = d # ds" using digits_of_numeral(3) [of 10 "unat v"] by (cases "digits_of 10 (unat v)") auto
  then have d: "d < 10" using digits_of_less_10 [of "unat v"] by simp
  have "digit_char d \<le> 57" using digit_char_facts(2) [OF d] .
  then have "digit_char d \<noteq> chr CHR ''[''" by auto
  moreover have "rd c t uj (digit_char d # map digit_char ds @ rest)" using assms(1) ds by (simp add: number_chars_def)
  ultimately obtain u1 where 1: "ujson_consume_maybe uj (chr CHR ''['') = Some (0, u1)" "rd c t u1 (digit_char d # map digit_char ds @ rest)"
    using consume_maybe_char(2) [of c t uj "digit_char d" "map digit_char ds @ rest" "chr CHR ''[''"] digit_char_facts(3) [OF d] by auto
  have "rd c t u1 (number_chars False (unat v) @ rest)" using 1(2) ds by (simp add: number_chars_def)
  then obtain u2 where "deserialize_integer u1 0 = Some (0, v, u2)" "rd c t u2 rest" using assms(2) by (rule deserialize_number)
  with 1(1) show ?thesis
    by (intro that [of u2]) (simp_all add: parse_status_arg_def ujson_deserialize_uint32_t_def Let_def try_ok)
qed

lemma parse_status_module:
  assumes "rd c t uj (chr CHR ''['' # 0x22 # m @ 0x22 # chr CHR '','' # number_chars False (unat v) @ chr CHR '']'' # rest)"
    "m = [x, y, z]" "concat (map string_char m) = m"
  obtains uj' where "parse_status_arg uj = Some (0, make_module_id x y z, v, uj')" "rd c t uj' rest" "fresh uj'"
proof -
  let ?n = "number_chars False (unat v)"
  obtain u1 where 1: "ujson_consume_maybe uj (chr CHR ''['') = Some (1, u1)" "rd c t u1 (0x22 # m @ 0x22 # chr CHR '','' # ?n @ chr CHR '']'' # rest)"
    using consume_maybe_char(1) [OF assms(1), of "chr CHR ''[''"] by (auto simp: is_space_def)
  have "rd c t u1 (0x22 # concat (map string_char m) @ 0x22 # chr CHR '','' # ?n @ chr CHR '']'' # rest)" using 1(2) by (simp add: assms(3))
  then obtain u2 where 2: "ujson_parse_qs u1 4 = Some (of_nat (length m), m @ [0], u2)" "rd c t u2 (chr CHR '','' # ?n @ chr CHR '']'' # rest)"
    by (rule parse_qs_string [where len = 4]) (simp_all add: assms(2))
  obtain u3 where 3: "ujson_consume u2 (chr CHR '','') = Some (0, u3)" "rd c t u3 (?n @ chr CHR '']'' # rest)"
    using 2(2) by (rule consume_char) (simp add: is_space_def)
  obtain u4 where 4: "deserialize_integer u3 0 = Some (0, v, u4)" "rd c t u4 (chr CHR '']'' # rest)"
    using 3(2) by (rule deserialize_number) (simp add: no_digit_def)
  obtain u5 where 5: "ujson_consume u4 (chr CHR '']'') = Some (0, u5)" "rd c t u5 rest" "fresh u5"
    using 4(2) by (rule consume_char) (simp add: is_space_def)
  have "parse_status_arg uj = Some (0, make_module_id x y z, v, u5)"
    using 1(1) 2(1) 3(1) 4(1) 5(1)
    by (simp add: parse_status_arg_def ujson_deserialize_uint32_t_def Let_def try_ok assms(2) char_at_def)
  with 5(2,3) that show ?thesis by blast
qed

lemma deserialize_status_text:
  assumes "rd c t uj (chr CHR ''{'' # 0x22 # str (status_codes ! k) @ 0x22 # chr CHR '':'' # txt @ chr CHR ''}'' # rest)" "k < 17"
    "\<And>u. rd c t u (txt @ chr CHR ''}'' # rest) \<Longrightarrow> \<exists>u'. parse_status_arg u = Some (0, m, v, u') \<and> rd c t u' (chr CHR ''}'' # rest)"
  obtains uj' where "ujson_deserialize_status_t uj old = Some (0, status_create (of_nat k) m ujson_file v, uj')" "rd c t uj' rest"
proof -
  obtain u1 where 1: "ujson_consume uj (chr CHR ''{'') = Some (0, u1)"
      "rd c t u1 (0x22 # str (status_codes ! k) @ 0x22 # chr CHR '':'' # txt @ chr CHR ''}'' # rest)"
    using assms(1) by (rule consume_char) (simp add: is_space_def)
  obtain u2 where 2: "ujson_deserialize_private_status_t u1 0 = Some (0, of_nat k, u2)" "rd c t u2 (chr CHR '':'' # txt @ chr CHR ''}'' # rest)"
    using 1(2) assms(2) by (rule deserialize_private_status)
  obtain u3 where 3: "ujson_consume u2 (chr CHR '':'') = Some (0, u3)" "rd c t u3 (txt @ chr CHR ''}'' # rest)"
    using 2(2) by (rule consume_char) (simp add: is_space_def)
  obtain u4 where 4: "parse_status_arg u3 = Some (0, m, v, u4)" "rd c t u4 (chr CHR ''}'' # rest)" using assms(3) [OF 3(2)] by blast
  obtain u5 where 5: "ujson_consume u4 (chr CHR ''}'') = Some (0, u5)" "rd c t u5 rest"
    using 4(2) by (rule consume_char) (simp add: is_space_def)
  have "ujson_deserialize_status_t uj old = Some (0, status_create (of_nat k) m ujson_file v, u5)"
    using 1(1) 2(1) 3(1) 4(1) 5(1) by (simp add: ujson_deserialize_status_t_def Let_def try_ok)
  with 5(2) that show ?thesis by blast
qed

end

text \<open>As a sink of \<open>base_fprintf\<close>, which ignores the status that is returned as a count of zero.\<close>

definition ujson_sent :: "source_sink ujson \<Rightarrow> source_sink ujson \<Rightarrow> u8 list \<Rightarrow> bool" where
  "ujson_sent uj u bs \<longleftrightarrow> uj_putbuf u = PutBuf \<and> ss_sink (io_context u) = ss_sink (io_context uj) @ bs
     \<and> uj_crc32 u = crc32_bytes (uj_crc32 uj) bs"

interpretation json_print: sink "\<lambda>buf uj. ujson_putbuf uj buf" "ujson_sent uj" "\<lambda>_. 0" for uj
  by unfold_locales (auto simp: ujson_sent_def ujson_putbuf_def PutBuf_def)

lemma serialize_status_sends:
  assumes "status_json_ok v" "uj_putbuf uj = PutBuf"
  shows "sent_by ss_sink PutBuf uj (ujson_serialize_status_t uj v) 0 (status_text True v)"
proof -
  have i: "\<forall>x \<in> set [Status True v]. item_ok x" "items_format [Status True v] = str ''%!r''"
    "items_args [Status True v] = [Va_Word v]" "items_text [Status True v] = status_text True v"
    using assms(1) by (simp_all add: items_format_def items_args_def items_text_def item_format_def spec_format_def str_def)
  have "ujson_sent uj uj []" using assms(2) by (simp add: ujson_sent_def)
  from json_print.vfprintf_prints [OF i(1) this] obtain n u where
    "vfprintf_loop (\<lambda>buf uj. ujson_putbuf uj buf) (str ''%!r'') 0 [Va_Word v] uj = Some (n, u)"
    "ujson_sent uj u (status_text True v)" unfolding i by auto
  then show ?thesis
    by (auto simp: sent_by_def ujson_sent_def ujson_serialize_status_t_def base_fprintf_def base_vfprintf_def)
qed

lemma status_create_round_trips:
  assumes "k < 17" "k = 0 \<longrightarrow> 0 \<le> sint arg" "make_module_id a b c \<noteq> 0"
    "\<forall>x \<in> {a, b, c}. module_letter x \<noteq> chr CHR 0x5c"
  shows "round_trips ujson_serialize_status_t ujson_deserialize_status_t rest
    (status_create (of_nat k) (make_module_id a b c) file arg)"
proof -
  let ?m = "make_module_id a b c"
  let ?v = "status_create (of_nat k) ?m file arg"
  have "\<exists>body m w. status_text True ?v = chr CHR ''{'' # 0x22 # str (status_codes ! k) @ 0x22 # chr CHR '':'' # body @ [chr CHR ''}'']
    \<and> status_create (of_nat k) m ujson_file w = ?v
    \<and> (\<forall>t uj. ready GetChar unread 0xffffffff t uj (body @ chr CHR ''}'' # rest)
        \<longrightarrow> (\<exists>u'. parse_status_arg uj = Some (0, m, w, u') \<and> ready GetChar unread 0xffffffff t u' (chr CHR ''}'' # rest)))"
  proof (cases "k = 0")
    case True
    then have v: "?v = arg" "status_create (of_nat k) 0 ujson_file arg = arg" using assms(2) by (simp_all add: status_create_def)
    have e: "status_extract arg = (False, status_codes ! k, arg, None)"
      using True assms(2) by (simp add: status_extract_def status_err_def status_codes_def)
    have "status_text True ?v = chr CHR ''{'' # 0x22 # str (status_codes ! k) @ 0x22 # chr CHR '':'' # number_chars False (unat arg) @ [chr CHR ''}'']"
      by (simp add: v(1) status_text_def e number_text_chars)
    moreover have "\<exists>u'. parse_status_arg uj = Some (0, 0, arg, u') \<and> ready GetChar unread 0xffffffff t u' (chr CHR ''}'' # rest)"
      if "ready GetChar unread 0xffffffff t uj (number_chars False (unat arg) @ chr CHR ''}'' # rest)" for t uj
    proof -
      have nd: "no_digit (chr CHR ''}'' # rest)" by (simp add: no_digit_def)
      show ?thesis using pipe_source.parse_status_number [OF that nd] by metis
    qed
    ultimately show ?thesis using v by metis
  next
    case False
    let ?w = "arg AND 0x7ff" and ?l = "[module_letter a, module_letter b, module_letter c]"
    have k: "(of_nat k :: u32) \<noteq> 0" "unat (of_nat k :: u32) = k"
      using False assms(1) by (simp_all add: word_unat_eq_iff unat_of_nat)
    have "unat (of_nat k :: u32) < 32" using k(2) assms(1) by simp
    then have e: "status_extract ?v = (True, status_codes ! k, ?w, Some (module_letter a, module_letter b, module_letter c))"
      using status_extract_create [OF k(1) _ assms(3)] k(2) by simp
    let ?t = "chr CHR ''['' # 0x22 # ?l @ 0x22 # chr CHR '','' # number_chars False (unat ?w) @ [chr CHR '']'']"
    have "status_text True ?v = chr CHR ''{'' # 0x22 # str (status_codes ! k) @ 0x22 # chr CHR '':'' # ?t @ [chr CHR ''}'']"
      by (simp add: status_text_def e number_text_chars)
    moreover have "status_create (of_nat k) ?m ujson_file ?w = ?v"
      using k(1) assms(3) by (auto simp: status_create_error status_word_arg_field)
    moreover have "\<exists>u'. parse_status_arg uj = Some (0, ?m, ?w, u') \<and> ready GetChar unread 0xffffffff t u' (chr CHR ''}'' # rest)"
      if "ready GetChar unread 0xffffffff t uj (?t @ chr CHR ''}'' # rest)" for t uj
    proof -
      have "ready GetChar unread 0xffffffff t uj
          (chr CHR ''['' # 0x22 # ?l @ 0x22 # chr CHR '','' # number_chars False (unat ?w) @ chr CHR '']'' # chr CHR ''}'' # rest)"
        using that by simp
      moreover have "concat (map string_char ?l) = ?l" using assms(4) by (simp add: module_letter_ascii)
      ultimately show ?thesis using pipe_source.parse_status_module [OF _ refl, where v = ?w] make_module_letters by metis
    qed
    ultimately show ?thesis by metis
  qed
  then obtain body m w where
    t: "status_text True ?v = chr CHR ''{'' # 0x22 # str (status_codes ! k) @ 0x22 # chr CHR '':'' # body @ [chr CHR ''}'']"
    and v: "status_create (of_nat k) m ujson_file w = ?v"
    and p: "\<And>t uj. ready GetChar unread 0xffffffff t uj (body @ chr CHR ''}'' # rest)
        \<Longrightarrow> \<exists>u'. parse_status_arg uj = Some (0, m, w, u') \<and> ready GetChar unread 0xffffffff t u' (chr CHR ''}'' # rest)"
    by blast
  have json: "status_json_ok ?v"
  proof (cases "k = 0")
    case True
    then have "status_extract ?v = (False, ''Ok'', arg, None)"
      using assms(2) by (simp add: status_create_def status_extract_def status_err_def Let_def status_codes_def)
    then show ?thesis by (simp add: status_json_ok_def)
  next
    case False
    have k: "(of_nat k :: u32) \<noteq> 0" "unat (of_nat k :: u32) < 32"
      using False assms(1) by (simp_all add: word_unat_eq_iff unat_of_nat)
    show ?thesis using assms(4) unfolding status_json_ok_def status_extract_create [OF k assms(3)] by auto
  qed
  show ?thesis
  proof (rule round_trips_text, erule serialize_status_sends [OF json])
    fix uj :: "source_sink ujson" and old
    let ?txt = "status_text True ?v @ rest"
    assume "ready GetChar unread 0xffffffff ?txt uj ?txt"
    then have "ready GetChar unread 0xffffffff ?txt uj
        (chr CHR ''{'' # 0x22 # str (status_codes ! k) @ 0x22 # chr CHR '':'' # body @ chr CHR ''}'' # rest)" by (simp add: t)
    from pipe_source.deserialize_status_text [OF this assms(1) p] v
    show "\<exists>r. ujson_deserialize_status_t uj old = Some (0, ?v, r) \<and> ready GetChar unread 0xffffffff ?txt r rest" by metis
  qed
qed

text \<open>C32: Status values as JSON: a status that \<open>status_create\<close> made from a documented code and any argument
  (which must not be negative with \<open>kOk\<close>) is serialised as an object from which
  \<open>ujson_deserialize_status_t\<close> rebuilds exactly this status, and the text that follows is left. The module
  is given by three letters or, when the module identifier is zero, by the first three of the file name.
  Excluded are letters among which a backslash is stored, which the serialiser does not escape, and
  letters whose identifier is zero itself.\<close>

theorem ujson_status_roundtrip:
  assumes "k < 17" "k = 0 \<longrightarrow> 0 \<le> sint arg" "make_module_id a b c \<noteq> 0"
    "\<forall>x \<in> {a, b, c}. module_letter x \<noteq> chr CHR 0x5c"
    "module = make_module_id a b c
      \<or> module = 0 \<and> a = char_at (basename file) 0 \<and> b = char_at (basename file) 1 \<and> c = char_at (basename file) 2"
  shows "round_trips ujson_serialize_status_t ujson_deserialize_status_t rest (status_create (of_nat k) module file arg)"
proof -
  let ?m = "make_module_id a b c"
  have "status_create (of_nat k) module file arg = status_create (of_nat k) ?m file arg"
    using assms(5) by (auto simp: status_create_def Let_def)
  with status_create_round_trips [OF assms(1-4), of rest "file"] show ?thesis by simp
qed

text \<open>The module of a status made without an identifier comes from the name of its file.\<close>

lemma ujson_status_roundtrip_witness:
  "round_trips ujson_serialize_status_t ujson_deserialize_status_t (str '', 0'') (status_create 11 0 (str ''sw/uR7.c'') 4099)"
proof -
  have "make_module_id (chr CHR ''u'') (chr CHR ''R'') (chr CHR ''7'') \<noteq> 0"
    "\<forall>x \<in> {chr CHR ''u'', chr CHR ''R'', chr CHR ''7''}. module_letter x \<noteq> chr CHR 0x5c"
    "chr CHR ''u'' = char_at (basename (str ''sw/uR7.c'')) 0 \<and> chr CHR ''R'' = char_at (basename (str ''sw/uR7.c'')) 1
      \<and> chr CHR ''7'' = char_at (basename (str ''sw/uR7.c'')) 2" by code_simp+
  from ujson_status_roundtrip [OF _ _ this(1,2), of 11 4099 0] this(3) show ?thesis by simp
qed

subsection \<open>Every parser returns\<close>

definition halts :: "('r \<Rightarrow> bool) \<Rightarrow> 'r option \<Rightarrow> bool" where
  "halts P m \<longleftrightarrow> (\<exists>r. m = Some r \<and> P r)"

lemma halts_Some [simp]: "halts P (Some r) = P r"
  by (simp add: halts_def)

lemma halts_bind: "halts Q m \<Longrightarrow> (\<And>r. Q r \<Longrightarrow> halts P (f r)) \<Longrightarrow> halts P (m \<bind> f)"
  by (auto simp: halts_def)

text \<open>At most \<open>n\<close> characters are left to be read.\<close>

definition bounded :: "nat \<Rightarrow> source_sink ujson \<Rightarrow> bool" where
  "bounded n uj \<longleftrightarrow> uj_getc uj = GetChar \<and> (0 \<le> sint (uj_buffer uj) \<longrightarrow> uj_buffer uj \<in> range (ucast :: u8 \<Rightarrow> u16)) \<and> length (pending uj) \<le> n"

definition readable :: "source_sink ujson \<Rightarrow> bool" where
  "readable uj \<longleftrightarrow> uj_getc uj = GetChar \<and> (0 \<le> sint (uj_buffer uj) \<longrightarrow> uj_buffer uj \<in> range (ucast :: u8 \<Rightarrow> u16))"

lemma bounded_readable: "bounded n uj \<Longrightarrow> readable uj"
  by (simp add: bounded_def readable_def)

lemma readable_bounded: "readable uj \<Longrightarrow> bounded (length (pending uj)) uj"
  by (simp add: bounded_def readable_def)

lemma bounded_mono: "bounded n uj \<Longrightarrow> n \<le> m \<Longrightarrow> bounded m uj"
  by (simp add: bounded_def)

lemma bounded_ready:
  assumes "bounded n uj"
  obtains cs t where "ready GetChar unread (uj_crc32 uj) t uj cs" "length cs \<le> n"
proof (rule that)
  have "ucast (ucast (ucast b :: u16) :: u8) = (ucast b :: u16)" for b :: u8 by (simp add: ucast_up_ucast_id is_up)
  then show "ready GetChar unread (uj_crc32 uj) (unread (io_context uj)) uj (pending uj)"
    using assms by (auto simp: ready_def bounded_def pending_def intro!: exI [of _ 0])
  show "length (pending uj) \<le> n" using assms by (simp add: bounded_def)
qed

lemma ready_bounded: "ready GetChar unread c t uj cs \<Longrightarrow> length cs \<le> n \<Longrightarrow> bounded n uj"
  using pipe_pending [of c t uj cs] by (auto simp: bounded_def ready_def split: if_splits)

text \<open>A read that succeeds takes a character; a read at the end fails.\<close>

lemma getc_halts:
  assumes "bounded n uj"
  shows "halts (\<lambda>(s, uj). bounded n uj \<and> (0 \<le> sint s \<or> status_err s = 0 \<longrightarrow> 0 < n \<and> bounded (n - 1) uj)) (ujson_getc uj)"
proof -
  obtain cs t where r: "ready GetChar unread (uj_crc32 uj) t uj cs" "length cs \<le> n" using bounded_ready [OF assms] .
  show ?thesis
  proof (cases cs)
    case Nil
    with r(1) have "ready GetChar unread (uj_crc32 uj) t uj []" by simp
    then obtain s u where "ujson_getc uj = Some (s, u)" "sint s < 0" "status_err s \<noteq> 0" "ready GetChar unread (uj_crc32 uj) t u []"
      by (rule pipe_source.getc_end)
    then show ?thesis using ready_bounded by simp
  next
    case (Cons b cs')
    with r(1) have "ready GetChar unread (uj_crc32 uj) t uj (b # cs')" by simp
    then obtain u where "ujson_getc uj = Some (ucast b, u)" "ready GetChar unread (uj_crc32 uj) t u cs'"
      by (rule pipe_source.getc_char)
    then show ?thesis using ready_bounded [of _ t u cs'] r(2) Cons by simp
  qed
qed

lemma halts_try:
  assumes "halts (\<lambda>(s, u). Q s u) m" "\<And>s u. Q s u \<Longrightarrow> 0 \<le> sint s \<Longrightarrow> halts P (k s u)"
    "\<And>s u. Q s u \<Longrightarrow> sint s < 0 \<Longrightarrow> P (err s u)"
  shows "halts P (try_status m err k)"
  using assms by (fastforce simp: halts_def try_status_def not_less)

lemma halts_mono: "halts P m \<Longrightarrow> (\<And>r. P r \<Longrightarrow> Q r) \<Longrightarrow> halts Q m"
  by (auto simp: halts_def)

lemma consume_whitespace_halts: "bounded n uj \<Longrightarrow> halts (\<lambda>(s, uj). bounded n uj) (consume_whitespace uj)"
proof (induction n arbitrary: uj)
  case 0
  then show ?case using getc_halts [OF 0] by (subst consume_whitespace.simps) (auto simp: halts_def)
next
  case (Suc n)
  have "halts (\<lambda>(s, uj). bounded (Suc n) uj) (consume_whitespace u)" if "bounded n u" for u
    using Suc.IH [OF that] bounded_mono by (fastforce elim: halts_mono)
  then show ?case
    by (subst consume_whitespace.simps, intro halts_bind [OF getc_halts [OF Suc.prems]]) auto
qed

lemma parse_digits_halts: "bounded n uj \<Longrightarrow> halts (\<lambda>(s, ch, v, uj). bounded n uj) (parse_digits uj ch v s)"
proof (induction n arbitrary: uj ch v s)
  case 0
  then show ?case using getc_halts [OF 0] by (subst parse_digits.simps) (auto simp: halts_def Let_def)
next
  case (Suc n)
  have "halts (\<lambda>(s, ch, v, uj). bounded (Suc n) uj) (parse_digits u ch v s)" if "bounded n u" for u ch v s
    using Suc.IH [OF that] bounded_mono by (fastforce elim: halts_mono)
  with Suc.prems show ?case
    by (subst parse_digits.simps) (auto simp: Let_def intro!: halts_bind [OF getc_halts [OF Suc.prems]])
qed

lemma getc_bounded: "bounded n uj \<Longrightarrow> halts (\<lambda>(s, uj). bounded n uj) (ujson_getc uj)"
  by (rule halts_mono [OF getc_halts]) auto

lemma consume_hexdigit_halts: "bounded n uj \<Longrightarrow> halts (\<lambda>(s, uj). bounded n uj) (consume_hexdigit uj)"
  unfolding consume_hexdigit_def by (rule halts_try [OF getc_bounded]) auto

lemma consume_hex_halts: "bounded n uj \<Longrightarrow> halts (\<lambda>(s, uj). bounded n uj) (consume_hex uj)"
  unfolding consume_hex_def by (rule halts_try [OF consume_hexdigit_halts], assumption)+ auto

lemma parse_escape_halts: "bounded n uj \<Longrightarrow> halts (\<lambda>(s, uj). bounded n uj) (parse_escape uj)"
  unfolding parse_escape_def by (rule halts_try [OF getc_bounded], assumption) (auto simp: Let_def consume_hex_halts)

lemma parse_qs_loop_halts: "bounded n uj \<Longrightarrow> halts (\<lambda>(s, buf, uj). bounded n uj) (parse_qs_loop uj len buf k)"
proof (induction n arbitrary: uj len buf k)
  case 0
  then show ?case using getc_halts [OF 0] by (subst parse_qs_loop.simps) (auto simp: halts_def)
next
  case (Suc n)
  have IH: "halts (\<lambda>(s, buf, uj). bounded (Suc n) uj) (parse_qs_loop u len buf k)" if "bounded n u" for u len buf k
    using Suc.IH [OF that] bounded_mono by (fastforce elim: halts_mono)
  have up: "bounded n u \<Longrightarrow> bounded (Suc n) u" for u by (rule bounded_mono [OF _ le_SucI [OF order.refl]])
  show ?case
    by (subst parse_qs_loop.simps, rule halts_bind [OF getc_halts [OF Suc.prems]])
      (auto simp: Let_def not_less intro!: halts_bind [OF parse_escape_halts] IH up)
qed

text \<open>From here on only that a parser returns matters.\<close>

definition returns :: "(status \<times> source_sink ujson) option \<Rightarrow> bool" where
  "returns = halts (\<lambda>(s, uj). readable uj)"

definition returns_value :: "(status \<times> 'v \<times> source_sink ujson) option \<Rightarrow> bool" where
  "returns_value = halts (\<lambda>(s, v, uj). readable uj)"

lemmas returns_defs = returns_def returns_value_def

lemma bounded_returns:
  assumes "readable uj" "\<And>n. bounded n uj \<Longrightarrow> halts (\<lambda>(s, uj). bounded n uj) m"
  shows "returns m"
  unfolding returns_def by (rule halts_mono [OF assms(2) [OF readable_bounded [OF assms(1)]]]) (auto dest: bounded_readable)

lemma returns_try:
  assumes "returns m" "\<And>s u. readable u \<Longrightarrow> 0 \<le> sint s \<Longrightarrow> returns (k s u)"
  shows "returns (TRY m k)"
  using assms unfolding returns_def by (rule halts_try [where Q = "\<lambda>_. readable"]) simp_all

lemma returns_value_try:
  assumes "returns m" "\<And>s u. readable u \<Longrightarrow> 0 \<le> sint s \<Longrightarrow> returns_value (k s u)" "\<And>s u. readable u \<Longrightarrow> snd (snd (err s u)) = u"
  shows "returns_value (try_status m err k)"
  using assms unfolding returns_defs by (intro halts_try [where Q = "\<lambda>_. readable"]) (auto simp: case_prod_unfold)

lemma returns_value_bind:
  assumes "returns_value m" "\<And>s v u. readable u \<Longrightarrow> returns_value (k s v u)"
  shows "returns_value (do { (s, v, u) \<leftarrow> m; k s v u })"
  using assms unfolding returns_defs by (intro halts_bind [where Q = "\<lambda>(s, v, u). readable u"]) auto

lemma returns_Some: "readable u \<Longrightarrow> returns (Some (s, u))" "readable u \<Longrightarrow> returns_value (Some (s, v, u))"
  by (simp_all add: returns_defs)

lemma readable_ungetc: "readable uj \<Longrightarrow> readable (snd (ujson_ungetc uj ch))"
  by (simp add: readable_def ujson_ungetc_def)

lemma ungetc_returns: "readable uj \<Longrightarrow> returns (Some (ujson_ungetc uj ch))"
  by (metis prod.collapse readable_ungetc returns_Some(1))

lemmas leaf_returns = bounded_returns [OF _ consume_whitespace_halts] bounded_returns [OF _ getc_bounded]

lemma consume_returns: "readable uj \<Longrightarrow> returns (ujson_consume uj ch)"
  unfolding ujson_consume_def by (intro returns_try leaf_returns returns_Some)

lemma consume_maybe_returns: "readable uj \<Longrightarrow> returns (ujson_consume_maybe uj ch)"
  unfolding ujson_consume_maybe_def
  by (intro returns_try leaf_returns) (auto simp: Let_def intro!: returns_Some readable_ungetc)

lemma consume_all_returns: "readable uj \<Longrightarrow> returns (consume_all uj cs)"
  by (induction cs arbitrary: uj) (auto intro!: returns_try returns_Some consume_returns)

lemma parse_qs_returns:
  assumes "readable uj"
  shows "returns_value (ujson_parse_qs uj len)"
proof -
  have "returns_value (parse_qs_loop u k buf n)" if "readable u" for u k buf n
    unfolding returns_value_def
    by (rule halts_mono [OF parse_qs_loop_halts [OF readable_bounded [OF that]]]) (auto dest: bounded_readable)
  with assms show ?thesis by (auto simp: ujson_parse_qs_def Let_def intro!: returns_value_try consume_returns)
qed

lemma parse_integer_returns:
  assumes "readable uj"
  shows "returns_value (ujson_parse_integer uj)"
proof -
  have "halts (\<lambda>(s, ch, v, uj). readable uj) (parse_digits u ch v s)" if "readable u" for u ch v s
    by (rule halts_mono [OF parse_digits_halts [OF readable_bounded [OF that]]]) (auto dest: bounded_readable)
  moreover have "returns_value (try_status (Some (if status_ok s then ujson_ungetc u ch else (OK_STATUS 0, u))) (\<lambda>s uj. (s, None, uj))
      (\<lambda>_ uj. Some (OK_STATUS 0, Some (if neg then - v else v), uj)))" if "readable u" for s u ch neg and v :: u64
    by (rule returns_value_try) (use that in \<open>simp_all add: ungetc_returns returns_Some\<close>)
  ultimately have "returns_value (do {
      (s, ch, v, uj) \<leftarrow> parse_digits u ch v s;
      try_status (Some (if status_ok s then ujson_ungetc uj ch else (OK_STATUS 0, uj))) (\<lambda>s uj. (s, None, uj))
        (\<lambda>_ uj. Some (OK_STATUS 0, Some (if neg then - v else v), uj)) })" if "readable u" for u ch s neg and v :: u64
    using that unfolding returns_value_def by (intro halts_bind [where Q = "\<lambda>(s, ch, v, uj). readable uj"]) auto
  moreover have "returns (if b then ujson_getc u else Some (s, u))" if "readable u" for b s u
    using that by (simp add: leaf_returns returns_Some)
  ultimately show ?thesis
    using assms unfolding ujson_parse_integer_def Let_def
    by (intro returns_value_try leaf_returns) (simp_all add: returns_Some returns_value_try)
qed

lemma deserialize_integer_returns: "readable uj \<Longrightarrow> returns_value (deserialize_integer uj v)"
  unfolding deserialize_integer_def by (intro returns_value_bind parse_integer_returns returns_Some)

lemma deserialize_bool_returns: "readable uj \<Longrightarrow> returns_value (ujson_deserialize_bool uj v)"
  unfolding ujson_deserialize_bool_def Let_def
  by (intro returns_value_try leaf_returns)
    (auto intro!: returns_value_try returns_Some returns_try consume_returns readable_ungetc)

lemma deserialize_private_status_returns: "readable uj \<Longrightarrow> returns_value (ujson_deserialize_private_status_t uj v)"
  unfolding ujson_deserialize_private_status_t_def Let_def ujson_deserialize_uint32_t_def
  by (auto intro!: returns_value_try returns_value_bind returns_Some consume_maybe_returns consume_returns ungetc_returns
      parse_qs_returns deserialize_integer_returns split: option.split)

lemma halts_try_returns:
  assumes "returns m" "\<And>s u. readable u \<Longrightarrow> halts P (k s u)" "\<And>s u. readable u \<Longrightarrow> P (err s u)"
  shows "halts P (try_status m err k)"
  using assms unfolding returns_def by (intro halts_try [where Q = "\<lambda>_. readable"]) auto

lemma halts_bind_value:
  assumes "returns_value m" "\<And>s v u. readable u \<Longrightarrow> halts P (k s v u)"
  shows "halts P (do { (s, v, u) \<leftarrow> m; k s v u })"
  using assms unfolding returns_value_def by (intro halts_bind [where Q = "\<lambda>(s, v, u). readable u"]) auto

lemma parse_status_arg_halts: "readable uj \<Longrightarrow> halts (\<lambda>(s, m, a, uj). readable uj) (parse_status_arg uj)"
  unfolding parse_status_arg_def Let_def ujson_deserialize_uint32_t_def
  by (auto intro!: halts_try_returns halts_bind_value consume_maybe_returns consume_returns parse_qs_returns deserialize_integer_returns)

lemma deserialize_status_returns: "readable uj \<Longrightarrow> returns_value (ujson_deserialize_status_t uj v)"
  unfolding ujson_deserialize_status_t_def Let_def returns_value_def
  by (auto intro!: halts_try_returns halts_bind_value halts_bind [OF parse_status_arg_halts] consume_returns deserialize_private_status_returns)

text \<open>C33: Every parser returns, whatever the source holds: malformed, truncated or without end of a string, with
  or without a character put back. The source stays readable, so further calls return as well.\<close>

theorem ujson_parsers_return:
  assumes "readable uj"
  shows "returns (ujson_consume uj ch) \<and> returns (ujson_consume_maybe uj ch) \<and> returns_value (ujson_parse_qs uj len)
    \<and> returns_value (ujson_deserialize_uint64_t uj a) \<and> returns_value (ujson_deserialize_uint32_t uj b)
    \<and> returns_value (ujson_deserialize_uint16_t uj c) \<and> returns_value (ujson_deserialize_uint8_t uj d)
    \<and> returns_value (ujson_deserialize_size_t uj b) \<and> returns_value (ujson_deserialize_int64_t uj a)
    \<and> returns_value (ujson_deserialize_int32_t uj b) \<and> returns_value (ujson_deserialize_int16_t uj c)
    \<and> returns_value (ujson_deserialize_int8_t uj d) \<and> returns_value (ujson_deserialize_bool uj v)
    \<and> returns_value (ujson_deserialize_private_status_t uj b) \<and> returns_value (ujson_deserialize_status_t uj b)"
  using assms unfolding integer_readers
  by (intro conjI consume_returns consume_maybe_returns parse_qs_returns deserialize_integer_returns deserialize_bool_returns
      deserialize_private_status_returns deserialize_status_returns)

lemma ujson_parsers_return_witness: "returns_value (ujson_deserialize_status_t (UJson (SourceSink (str ''{\"Ok''))) 0)"
proof -
  have "readable (UJson (SourceSink (str ''{\"Ok'')))" by (simp add: readable_def UJson_def ujson_init_def)
  from ujson_parsers_return [OF this, of _ _ _ 0] show ?thesis by simp
qed

end
