(* ===== verification/RvCoreIbex.thy ===== *)
theory RvCoreIbex
  imports DifBase
begin

section \<open>Ibex core driver\<close>

text \<open>
  \<^verbatim>\<open>sw/device/lib/dif/dif_rv_core_ibex.c\<close>: address translation, error status, non-maskable
  interrupts, pseudo-random data, software alerts and crash dumps. The enums are numbers, as the
  code compares them with their counts and uses them as indices.
\<close>

type_synonym dif_rv_core_ibex = dif_handle
type_synonym addr_translation_slot = u32
type_synonym addr_translation_bus = u32

abbreviation (input) "kDifRvCoreIbexAddrTranslationSlot_0 \<equiv> 0 :: addr_translation_slot"
abbreviation (input) "kDifRvCoreIbexAddrTranslationSlot_1 \<equiv> 1 :: addr_translation_slot"
abbreviation (input) "kDifRvCoreIbexAddrTranslationSlotCount \<equiv> 2 :: addr_translation_slot"
abbreviation (input) "kDifRvCoreIbexAddrTranslationDBus \<equiv> 0 :: addr_translation_bus"
abbreviation (input) "kDifRvCoreIbexAddrTranslationIBus \<equiv> 1 :: addr_translation_bus"
abbreviation (input) "kDifRvCoreIbexAddrTranslationBusCount \<equiv> 2 :: addr_translation_bus"

record addr_translation_mapping =
  matching_addr :: u32
  remap_addr :: u32
  region_size :: u32

record ibex_addr_translation_regs =
  trans_matching :: u32
  trans_remap :: u32
  trans_en :: u32
  trans_lock :: u32

text \<open>Indexed by the slot, then by the bus.\<close>

definition kRegsMap :: "ibex_addr_translation_regs list list" where
  "kRegsMap =
    [[\<lparr>trans_matching = RV_CORE_IBEX_DBUS_ADDR_MATCHING_0_REG_OFFSET, trans_remap = RV_CORE_IBEX_DBUS_REMAP_ADDR_0_REG_OFFSET,
       trans_en = RV_CORE_IBEX_DBUS_ADDR_EN_0_REG_OFFSET, trans_lock = RV_CORE_IBEX_DBUS_REGWEN_0_REG_OFFSET\<rparr>,
      \<lparr>trans_matching = RV_CORE_IBEX_IBUS_ADDR_MATCHING_0_REG_OFFSET, trans_remap = RV_CORE_IBEX_IBUS_REMAP_ADDR_0_REG_OFFSET,
       trans_en = RV_CORE_IBEX_IBUS_ADDR_EN_0_REG_OFFSET, trans_lock = RV_CORE_IBEX_IBUS_REGWEN_0_REG_OFFSET\<rparr>],
     [\<lparr>trans_matching = RV_CORE_IBEX_DBUS_ADDR_MATCHING_1_REG_OFFSET, trans_remap = RV_CORE_IBEX_DBUS_REMAP_ADDR_1_REG_OFFSET,
       trans_en = RV_CORE_IBEX_DBUS_ADDR_EN_1_REG_OFFSET, trans_lock = RV_CORE_IBEX_DBUS_REGWEN_1_REG_OFFSET\<rparr>,
      \<lparr>trans_matching = RV_CORE_IBEX_IBUS_ADDR_MATCHING_1_REG_OFFSET, trans_remap = RV_CORE_IBEX_IBUS_REMAP_ADDR_1_REG_OFFSET,
       trans_en = RV_CORE_IBEX_IBUS_ADDR_EN_1_REG_OFFSET, trans_lock = RV_CORE_IBEX_IBUS_REGWEN_1_REG_OFFSET\<rparr>]]"

abbreviation trans_regs :: "addr_translation_slot \<Rightarrow> addr_translation_bus \<Rightarrow> ibex_addr_translation_regs" where
  "trans_regs slot bus \<equiv> kRegsMap ! unat slot ! unat bus"

definition to_napot :: "u32 \<Rightarrow> u32 \<Rightarrow> u32" where
  "to_napot a sz = a OR drop_bit 1 (sz - 1)"

text \<open>The loop looks for the lowest zero bit; when it finds none the size stays what it was.\<close>

fun from_napot_loop :: "nat list \<Rightarrow> u32 \<Rightarrow> u32 \<Rightarrow> u32" where
  "from_napot_loop [] napot sz = sz"
| "from_napot_loop (i # is) napot sz =
     (let ref = push_bit i 1 - 1 in
      if napot AND ref = drop_bit 1 ref then push_bit i 1 else from_napot_loop is napot sz)"

definition from_napot :: "u32 \<Rightarrow> u32 \<Rightarrow> u32 \<times> u32" where
  "from_napot napot sz =
     (let sz = from_napot_loop [1..<32] napot sz
      in (napot AND NOT (drop_bit 1 (sz - 1)), sz))"

text \<open>The instruction \<open>fence.i\<close>, which does not access the device.\<close>

definition icache_invalidate :: "('d, unit) state" where
  "icache_invalidate = ret ()"

definition dif_rv_core_ibex_configure_addr_translation :: "'d bus \<Rightarrow> dif_rv_core_ibex ptr \<Rightarrow> addr_translation_slot
    \<Rightarrow> addr_translation_bus \<Rightarrow> addr_translation_mapping \<Rightarrow> ('d, dif_result) state" where
  "dif_rv_core_ibex_configure_addr_translation B rv_core_ibex slot bus addr_map =
     (case rv_core_ibex of None \<Rightarrow> ret kDifBadArg | Some h \<Rightarrow>
       if slot \<ge> kDifRvCoreIbexAddrTranslationSlotCount \<or> bus \<ge> kDifRvCoreIbexAddrTranslationBusCount
          \<or> \<not> bitfield_is_power_of_two32 (region_size addr_map) then ret kDifBadArg
       else do {
         let regs = trans_regs slot bus;
         locked \<leftarrow> rd32 B h (trans_lock regs);
         if locked = 0 then ret kDifLocked
         else do {
           let mask = to_napot (matching_addr addr_map) (region_size addr_map);
           wr32 B h (trans_matching regs) mask;
           wr32 B h (trans_remap regs) (remap_addr addr_map);
           icache_invalidate;
           ret kDifOk
         }
       })"

definition dif_rv_core_ibex_enable_addr_translation :: "'d bus \<Rightarrow> dif_rv_core_ibex ptr \<Rightarrow> addr_translation_slot
    \<Rightarrow> addr_translation_bus \<Rightarrow> ('d, dif_result) state" where
  "dif_rv_core_ibex_enable_addr_translation B rv_core_ibex slot bus =
     (case rv_core_ibex of None \<Rightarrow> ret kDifBadArg | Some h \<Rightarrow>
       if slot \<ge> kDifRvCoreIbexAddrTranslationSlotCount \<or> bus \<ge> kDifRvCoreIbexAddrTranslationBusCount then ret kDifBadArg
       else do {
         let regs = trans_regs slot bus;
         locked \<leftarrow> rd32 B h (trans_lock regs);
         if locked = 0 then ret kDifLocked
         else do {
           wr32 B h (trans_en regs) 1;
           icache_invalidate;
           ret kDifOk
         }
       })"

definition dif_rv_core_ibex_disable_addr_translation :: "'d bus \<Rightarrow> dif_rv_core_ibex ptr \<Rightarrow> addr_translation_slot
    \<Rightarrow> addr_translation_bus \<Rightarrow> ('d, dif_result) state" where
  "dif_rv_core_ibex_disable_addr_translation B rv_core_ibex slot bus =
     (case rv_core_ibex of None \<Rightarrow> ret kDifBadArg | Some h \<Rightarrow>
       if slot \<ge> kDifRvCoreIbexAddrTranslationSlotCount \<or> bus \<ge> kDifRvCoreIbexAddrTranslationBusCount then ret kDifBadArg
       else do {
         let regs = trans_regs slot bus;
         locked \<leftarrow> rd32 B h (trans_lock regs);
         if locked = 0 then ret kDifLocked
         else do {
           wr32 B h (trans_en regs) 0;
           icache_invalidate;
           ret kDifOk
         }
       })"

definition dif_rv_core_ibex_read_addr_translation :: "'d bus \<Rightarrow> dif_rv_core_ibex ptr \<Rightarrow> addr_translation_slot
    \<Rightarrow> addr_translation_bus \<Rightarrow> addr_translation_mapping ptr \<Rightarrow> ('d, dif_result \<times> addr_translation_mapping ptr) state" where
  "dif_rv_core_ibex_read_addr_translation B rv_core_ibex slot bus addr_map = (case (rv_core_ibex, addr_map) of
     (Some h, Some m) \<Rightarrow>
       if slot \<ge> kDifRvCoreIbexAddrTranslationSlotCount \<or> bus \<ge> kDifRvCoreIbexAddrTranslationBusCount
       then ret (kDifBadArg, addr_map)
       else do {
         let regs = trans_regs slot bus;
         reg \<leftarrow> rd32 B h (trans_matching regs);
         let (a, sz) = from_napot reg (region_size m);
         remap \<leftarrow> rd32 B h (trans_remap regs);
         ret (kDifOk, Some (m\<lparr>matching_addr := a, region_size := sz, remap_addr := remap\<rparr>))
       }
   | _ \<Rightarrow> ret (kDifBadArg, addr_map))"

definition dif_rv_core_ibex_lock_addr_translation :: "'d bus \<Rightarrow> dif_rv_core_ibex ptr \<Rightarrow> addr_translation_slot
    \<Rightarrow> addr_translation_bus \<Rightarrow> ('d, dif_result) state" where
  "dif_rv_core_ibex_lock_addr_translation B rv_core_ibex slot bus =
     (case rv_core_ibex of None \<Rightarrow> ret kDifBadArg | Some h \<Rightarrow>
       if slot \<ge> kDifRvCoreIbexAddrTranslationSlotCount \<or> bus \<ge> kDifRvCoreIbexAddrTranslationBusCount then ret kDifBadArg
       else do {
         let regs = trans_regs slot bus;
         locked \<leftarrow> rd32 B h (trans_lock regs);
         if locked = 1 then do {
           wr32 B h (trans_lock regs) 0;
           ret kDifOk
         } else ret kDifOk
       })"

subsection \<open>Errors and non-maskable interrupts\<close>

type_synonym ibex_error_status = u32
type_synonym ibex_nmi_source = u32

definition kDifRvCoreIbexErrorStatusAll :: ibex_error_status where
  "kDifRvCoreIbexErrorStatusAll = push_bit 0 1 OR push_bit 8 1 OR push_bit 9 1 OR push_bit 10 1"

definition kDifRvCoreIbexNmiSourceAlert :: ibex_nmi_source where
  "kDifRvCoreIbexNmiSourceAlert = push_bit 0 1"

definition kDifRvCoreIbexNmiSourceWdog :: ibex_nmi_source where
  "kDifRvCoreIbexNmiSourceWdog = push_bit 1 1"

definition kDifRvCoreIbexNmiSourceAll :: ibex_nmi_source where
  "kDifRvCoreIbexNmiSourceAll = 0x3"

definition dif_rv_core_ibex_get_error_status ::
    "'d bus \<Rightarrow> dif_rv_core_ibex ptr \<Rightarrow> ibex_error_status ptr \<Rightarrow> ('d, dif_result \<times> ibex_error_status ptr) state" where
  "dif_rv_core_ibex_get_error_status B rv_core_ibex error_status = (case (rv_core_ibex, error_status) of
     (Some h, Some _) \<Rightarrow> do {
       v \<leftarrow> rd32 B h RV_CORE_IBEX_ERR_STATUS_REG_OFFSET;
       ret (kDifOk, Some v)
     }
   | _ \<Rightarrow> ret (kDifBadArg, error_status))"

definition dif_rv_core_ibex_clear_error_status ::
    "'d bus \<Rightarrow> dif_rv_core_ibex ptr \<Rightarrow> ibex_error_status \<Rightarrow> ('d, dif_result) state" where
  "dif_rv_core_ibex_clear_error_status B rv_core_ibex error_status =
     (case rv_core_ibex of None \<Rightarrow> ret kDifBadArg | Some h \<Rightarrow>
       if error_status AND NOT kDifRvCoreIbexErrorStatusAll \<noteq> 0 then ret kDifBadArg
       else do {
         wr32 B h RV_CORE_IBEX_ERR_STATUS_REG_OFFSET error_status;
         ret kDifOk
       })"

definition dif_rv_core_ibex_enable_nmi :: "'d bus \<Rightarrow> dif_rv_core_ibex ptr \<Rightarrow> ibex_nmi_source \<Rightarrow> ('d, dif_result) state" where
  "dif_rv_core_ibex_enable_nmi B rv_core_ibex nmi =
     (case rv_core_ibex of None \<Rightarrow> ret kDifBadArg | Some h \<Rightarrow>
       if nmi AND NOT kDifRvCoreIbexNmiSourceAll \<noteq> 0 then ret kDifBadArg
       else do {
         let reg = bitfield_bit32_write 0 RV_CORE_IBEX_NMI_ENABLE_ALERT_EN_BIT
           (nmi AND kDifRvCoreIbexNmiSourceAlert = kDifRvCoreIbexNmiSourceAlert);
         let reg = bitfield_bit32_write reg RV_CORE_IBEX_NMI_ENABLE_WDOG_EN_BIT
           (nmi AND kDifRvCoreIbexNmiSourceWdog = kDifRvCoreIbexNmiSourceWdog);
         wr32 B h RV_CORE_IBEX_NMI_ENABLE_REG_OFFSET reg;
         ret kDifOk
       })"

record ibex_nmi_state =
  alert_enabled :: bool
  alert_raised :: bool
  wdog_enabled :: bool
  wdog_barked :: bool

definition dif_rv_core_ibex_get_nmi_state ::
    "'d bus \<Rightarrow> dif_rv_core_ibex ptr \<Rightarrow> ibex_nmi_state ptr \<Rightarrow> ('d, dif_result \<times> ibex_nmi_state ptr) state" where
  "dif_rv_core_ibex_get_nmi_state B rv_core_ibex nmi_state = (case (rv_core_ibex, nmi_state) of
     (Some h, Some _) \<Rightarrow> do {
       reg \<leftarrow> rd32 B h RV_CORE_IBEX_NMI_ENABLE_REG_OFFSET;
       let alert_en = bitfield_bit32_read reg RV_CORE_IBEX_NMI_ENABLE_ALERT_EN_BIT;
       let wdog_en = bitfield_bit32_read reg RV_CORE_IBEX_NMI_ENABLE_WDOG_EN_BIT;
       reg \<leftarrow> rd32 B h RV_CORE_IBEX_NMI_STATE_REG_OFFSET;
       ret (kDifOk, Some \<lparr>alert_enabled = alert_en,
         alert_raised = bitfield_bit32_read reg RV_CORE_IBEX_NMI_STATE_ALERT_BIT,
         wdog_enabled = wdog_en,
         wdog_barked = bitfield_bit32_read reg RV_CORE_IBEX_NMI_STATE_WDOG_BIT\<rparr>)
     }
   | _ \<Rightarrow> ret (kDifBadArg, nmi_state))"

definition dif_rv_core_ibex_clear_nmi_state :: "'d bus \<Rightarrow> dif_rv_core_ibex ptr \<Rightarrow> ibex_nmi_source \<Rightarrow> ('d, dif_result) state" where
  "dif_rv_core_ibex_clear_nmi_state B rv_core_ibex nmi =
     (case rv_core_ibex of None \<Rightarrow> ret kDifBadArg | Some h \<Rightarrow>
       if nmi AND NOT kDifRvCoreIbexNmiSourceAll \<noteq> 0 then ret kDifBadArg
       else do {
         let reg = bitfield_bit32_write 0 RV_CORE_IBEX_NMI_STATE_ALERT_BIT
           (nmi AND kDifRvCoreIbexNmiSourceAlert = kDifRvCoreIbexNmiSourceAlert);
         let reg = bitfield_bit32_write reg RV_CORE_IBEX_NMI_STATE_WDOG_BIT
           (nmi AND kDifRvCoreIbexNmiSourceWdog = kDifRvCoreIbexNmiSourceWdog);
         wr32 B h RV_CORE_IBEX_NMI_STATE_REG_OFFSET reg;
         ret kDifOk
       })"

subsection \<open>Random data\<close>

definition kDifRvCoreIbexRndStatusValid :: u32 where
  "kDifRvCoreIbexRndStatusValid = push_bit 0 1"

definition dif_rv_core_ibex_get_rnd_status :: "dif_rv_core_ibex ptr \<Rightarrow> u32 ptr \<Rightarrow> dif_result \<times> u32 ptr" where
  "dif_rv_core_ibex_get_rnd_status rv_core_ibex status = (case (rv_core_ibex, status) of
     (Some h, Some _) \<Rightarrow> (kDifOk, Some kDifRvCoreIbexRndStatusValid)
   | _ \<Rightarrow> (kDifBadArg, status))"

text \<open>There is no entropy source: a static xorshift generator stands in, which starts at 123. Its
  state is the last argument and result.\<close>

definition prngState_init :: u32 where
  "prngState_init = 123"

definition dif_rv_core_ibex_read_rnd_data ::
    "dif_rv_core_ibex ptr \<Rightarrow> u32 ptr \<Rightarrow> u32 \<Rightarrow> dif_result \<times> u32 ptr \<times> u32" where
  "dif_rv_core_ibex_read_rnd_data rv_core_ibex data prngState = (case (rv_core_ibex, data) of
     (Some h, Some _) \<Rightarrow>
       let prngState = prngState XOR push_bit 13 prngState;
           prngState = prngState XOR drop_bit 17 prngState;
           prngState = prngState XOR push_bit 5 prngState
       in (kDifOk, Some prngState, prngState)
   | _ \<Rightarrow> (kDifBadArg, data, prngState))"

subsection \<open>Alerts, FPGA information and crash dumps\<close>

definition dif_rv_core_ibex_read_fpga_info ::
    "'d bus \<Rightarrow> dif_rv_core_ibex ptr \<Rightarrow> u32 ptr \<Rightarrow> ('d, dif_result \<times> u32 ptr) state" where
  "dif_rv_core_ibex_read_fpga_info B rv_core_ibex info = (case (rv_core_ibex, info) of
     (Some h, Some _) \<Rightarrow> do {
       v \<leftarrow> rd32 B h RV_CORE_IBEX_FPGA_INFO_REG_OFFSET;
       ret (kDifOk, Some v)
     }
   | _ \<Rightarrow> ret (kDifBadArg, info))"

definition dif_rv_core_ibex_get_sw_recov_err_alert ::
    "'d bus \<Rightarrow> dif_rv_core_ibex ptr \<Rightarrow> bool ptr \<Rightarrow> ('d, dif_result \<times> bool ptr) state" where
  "dif_rv_core_ibex_get_sw_recov_err_alert B rv_core_ibex enabled = (case (rv_core_ibex, enabled) of
     (Some h, Some _) \<Rightarrow> do {
       reg \<leftarrow> rd32 B h RV_CORE_IBEX_SW_RECOV_ERR_REG_OFFSET;
       ret (kDifOk, Some (reg \<noteq> kMultiBitBool4False))
     }
   | _ \<Rightarrow> ret (kDifBadArg, enabled))"

definition dif_rv_core_ibex_trigger_sw_recov_err_alert :: "'d bus \<Rightarrow> dif_rv_core_ibex ptr \<Rightarrow> ('d, dif_result) state" where
  "dif_rv_core_ibex_trigger_sw_recov_err_alert B rv_core_ibex =
     (case rv_core_ibex of None \<Rightarrow> ret kDifBadArg | Some h \<Rightarrow> do {
       let reg = bitfield_field32_write 0 RV_CORE_IBEX_SW_RECOV_ERR_VAL_FIELD kMultiBitBool4True;
       wr32 B h RV_CORE_IBEX_SW_RECOV_ERR_REG_OFFSET reg;
       ret kDifOk
     })"

definition dif_rv_core_ibex_get_sw_fatal_err_alert ::
    "'d bus \<Rightarrow> dif_rv_core_ibex ptr \<Rightarrow> bool ptr \<Rightarrow> ('d, dif_result \<times> bool ptr) state" where
  "dif_rv_core_ibex_get_sw_fatal_err_alert B rv_core_ibex enabled = (case (rv_core_ibex, enabled) of
     (Some h, Some _) \<Rightarrow> do {
       reg \<leftarrow> rd32 B h RV_CORE_IBEX_SW_FATAL_ERR_REG_OFFSET;
       ret (kDifOk, Some (reg \<noteq> kMultiBitBool4False))
     }
   | _ \<Rightarrow> ret (kDifBadArg, enabled))"

definition dif_rv_core_ibex_trigger_sw_fatal_err_alert :: "'d bus \<Rightarrow> dif_rv_core_ibex ptr \<Rightarrow> ('d, dif_result) state" where
  "dif_rv_core_ibex_trigger_sw_fatal_err_alert B rv_core_ibex =
     (case rv_core_ibex of None \<Rightarrow> ret kDifBadArg | Some h \<Rightarrow> do {
       let reg = bitfield_field32_write 0 RV_CORE_IBEX_SW_FATAL_ERR_VAL_FIELD kMultiBitBool4True;
       wr32 B h RV_CORE_IBEX_SW_FATAL_ERR_REG_OFFSET reg;
       ret kDifOk
     })"

record crash_dump_state =
  cd_mtval :: u32
  cd_mpec :: u32
  cd_mdaa :: u32
  cd_mnpc :: u32
  cd_mcpc :: u32

record previous_crash_dump_state =
  prev_mtval :: u32
  prev_mpec :: u32

record crash_dump_info =
  fault_state :: crash_dump_state
  previous_fault_state :: previous_crash_dump_state
  double_fault :: dif_toggle

definition kIbexCrashDumpWordsCount :: u32 where
  "kIbexCrashDumpWordsCount = 8"

text \<open>The copy takes the first seven words whole; of the eighth, which the next assignment
  overwrites, it takes three bytes. The words are given as a list, as long as the code assumes.\<close>

definition dif_rv_core_ibex_parse_crash_dump :: "dif_rv_core_ibex ptr \<Rightarrow> u32 list ptr \<Rightarrow> u32
    \<Rightarrow> crash_dump_info ptr \<Rightarrow> dif_result \<times> crash_dump_info ptr" where
  "dif_rv_core_ibex_parse_crash_dump rv_core_ibex cpu_info cpu_info_len info = (case (rv_core_ibex, cpu_info, info) of
     (Some h, Some w, Some _) \<Rightarrow>
       if cpu_info_len < kIbexCrashDumpWordsCount then (kDifBadArg, info)
       else (kDifOk, Some \<lparr>
         fault_state = \<lparr>cd_mtval = w ! 0, cd_mpec = w ! 1, cd_mdaa = w ! 2, cd_mnpc = w ! 3, cd_mcpc = w ! 4\<rparr>,
         previous_fault_state = \<lparr>prev_mtval = w ! 5, prev_mpec = w ! 6\<rparr>,
         double_fault = dif_bool_to_toggle (w ! 7 = 1)\<rparr>)
   | _ \<Rightarrow> (kDifBadArg, info))"

subsection \<open>Regions\<close>

text \<open>The encoding of a naturally aligned region (NAPOT) as the header and the RISC-V privileged
  specification define it: the ones at the end and the zero before them are not compared.\<close>

definition napot_matches :: "u32 \<Rightarrow> u32 \<Rightarrow> bool" where
  "napot_matches region a \<longleftrightarrow> (let m = region XOR (region + 1) in a AND NOT m = region AND NOT m)"

lemma bit_minus_one: "bit ((2 ^ k :: u32) - 1) n \<longleftrightarrow> n < k \<and> n < 32"
  by (simp add: bit_mask_iff flip: mask_eq_exp_minus_1) auto

lemma to_napot_bits:
  assumes "0 < k" "k < 32"
  shows "bit (to_napot a (2 ^ k)) n \<longleftrightarrow> bit a n \<or> n < k - 1"
  using assms by (auto simp: to_napot_def bit_or_iff bit_drop_bit_eq bit_minus_one)

lemma aligned_bits:
  fixes a :: u32
  assumes "2 ^ k dvd unat a"
  shows "n < k \<Longrightarrow> \<not> bit a n"
proof -
  assume n: "n < k"
  have "(2 :: nat) * 2 ^ n dvd 2 ^ k" using n by (metis le_imp_power_dvd Suc_leI power_Suc)
  then have "2 * 2 ^ n dvd unat a" using assms by (rule dvd_trans)
  then have "even (unat a div 2 ^ n)" by (metis dvd_div_iff_mult dvd_mult_right mult.commute power_not_zero zero_neq_numeral)
  then have "\<not> bit (unat a) n" by (simp add: bit_iff_odd)
  then show "\<not> bit a n" using bit_imp_le_length by (auto simp: bit_unsigned_iff)
qed

text \<open>The lowest zero of the encoding is at bit \<open>k - 1\<close>, where the loop finds it.\<close>

lemma from_napot_loop_finds:
  assumes "\<And>n. n < k - 1 \<Longrightarrow> bit w n" "\<not> bit w (k - 1)" "0 < k" "k < 32" "0 < i" "i \<le> k"
  shows "from_napot_loop [i..<32] w sz = 2 ^ k"
  using assms(5,6)
proof (induction "k - i" arbitrary: i)
  case 0
  then have i: "i = k" by simp
  have "w AND (2 ^ k - 1) = drop_bit 1 (2 ^ k - 1)"
  proof (rule bit_word_eqI)
    fix n
    show "bit (w AND (2 ^ k - 1)) n = bit (drop_bit 1 (2 ^ k - 1 :: u32)) n"
      using assms(1) [of n] assms(2-4) by (cases "n = k - 1") (auto simp: bit_and_iff bit_drop_bit_eq bit_minus_one)
  qed
  with i assms(4) show ?case by (simp add: upt_conv_Cons Let_def push_bit_eq_mult)
next
  case (Suc j)
  then have i: "i < k" "i < 32" using assms(4) by simp_all
  have "bit (w AND (2 ^ i - 1)) (i - 1)" using assms(1) Suc.prems i by (simp add: bit_and_iff bit_minus_one)
  moreover have "\<not> bit (drop_bit 1 (2 ^ i - 1 :: u32)) (i - 1)" using Suc.prems by (simp add: bit_drop_bit_eq bit_minus_one)
  ultimately have "w AND (2 ^ i - 1) \<noteq> drop_bit 1 (2 ^ i - 1)" by metis
  moreover have "from_napot_loop [Suc i..<32] w sz = 2 ^ k" using Suc i by (intro Suc(1)) simp_all
  ultimately show ?case using i by (simp add: upt_conv_Cons Let_def push_bit_eq_mult)
qed

lemma from_to_napot:
  assumes "0 < k" "k < 32" "2 ^ k dvd unat a"
  shows "from_napot (to_napot a (2 ^ k)) sz = (a, 2 ^ k)"
proof -
  note a = aligned_bits [OF assms(3)]
  have "from_napot_loop [1..<32] (to_napot a (2 ^ k)) sz = 2 ^ k"
    by (rule from_napot_loop_finds) (use assms a in \<open>auto simp: to_napot_bits\<close>)
  moreover have "to_napot a (2 ^ k) AND NOT (drop_bit 1 (2 ^ k - 1)) = a"
    using assms(1,2) a by (intro bit_word_eqI) (auto simp: bit_and_iff bit_not_iff bit_drop_bit_eq bit_minus_one to_napot_bits)
  ultimately show ?thesis by (simp add: from_napot_def)
qed

lemma len32: "LENGTH(32) = 32"
  by simp

lemma napot_matches_region:
  assumes "0 < k" "k < 32" "2 ^ k dvd unat a"
  shows "napot_matches (to_napot a (2 ^ k)) x \<longleftrightarrow> unat a \<le> unat x \<and> unat x < unat a + 2 ^ k"
proof -
  let ?w = "to_napot a (2 ^ k)"
  note ab = aligned_bits [OF assms(3)]
  have add: "?w + 1 = a + 2 ^ (k - 1)"
  proof -
    have "a AND (2 ^ (k - 1) - 1) = 0"
      using ab by (intro bit_word_eqI) (auto simp: bit_and_iff bit_minus_one)
    then have "a OR (2 ^ (k - 1) - 1) = a + (2 ^ (k - 1) - 1)" by (rule disjunctive_add_eq_or [symmetric])
    moreover have "?w = a OR (2 ^ (k - 1) - 1)"
      using assms(1,2) by (intro bit_word_eqI) (auto simp: to_napot_bits bit_or_iff bit_minus_one)
    ultimately show ?thesis by simp
  qed
  have "a AND 2 ^ (k - 1) = 0" using ab assms(1) by (intro bit_word_eqI) (auto simp: bit_and_iff bit_exp_iff)
  then have or: "a + 2 ^ (k - 1) = a OR 2 ^ (k - 1)" by (rule disjunctive_add_eq_or)
  have m: "bit (?w XOR (?w + 1)) n \<longleftrightarrow> n < k" if "n < 32" for n
    unfolding add or using that ab assms(1,2) by (auto simp: bit_xor_iff bit_or_iff to_napot_bits bit_exp_iff)
  have "napot_matches ?w x \<longleftrightarrow> (\<forall>n. k \<le> n \<longrightarrow> n < 32 \<longrightarrow> bit x n = bit a n)"
  proof -
    have w: "bit ?w n = bit a n" if "k \<le> n" for n using that assms(1,2) by (auto simp: to_napot_bits)
    have k: "bit (y AND NOT (?w XOR (?w + 1))) n \<longleftrightarrow> k \<le> n \<and> bit y n" if "n < 32" for y n
      using m [OF that] that by (simp add: bit_and_iff bit_not_iff not_less conj_commute)
    show ?thesis unfolding napot_matches_def Let_def
    proof
      assume e: "x AND NOT (?w XOR (?w + 1)) = ?w AND NOT (?w XOR (?w + 1))"
      show "\<forall>n. k \<le> n \<longrightarrow> n < 32 \<longrightarrow> bit x n = bit a n"
        using k [of _ x] k [of _ ?w] w unfolding e by blast
    next
      assume "\<forall>n. k \<le> n \<longrightarrow> n < 32 \<longrightarrow> bit x n = bit a n"
      then show "x AND NOT (?w XOR (?w + 1)) = ?w AND NOT (?w XOR (?w + 1))"
        using w by (intro bit_word_eqI) (auto simp only: k len32)
    qed
  qed
  also have "\<dots> \<longleftrightarrow> drop_bit k x = drop_bit k a"
  proof
    assume *: "\<forall>n. k \<le> n \<longrightarrow> n < 32 \<longrightarrow> bit x n = bit a n"
    show "drop_bit k x = drop_bit k a"
    proof (rule bit_word_eqI)
      fix n
      have "bit x (k + n) = bit a (k + n)"
        using * [rule_format, of "k + n"] bit_imp_le_length [of x "k + n"] bit_imp_le_length [of a "k + n"] by auto
      then show "bit (drop_bit k x) n = bit (drop_bit k a) n" by (simp add: bit_drop_bit_eq)
    qed
  next
    assume *: "drop_bit k x = drop_bit k a"
    show "\<forall>n. k \<le> n \<longrightarrow> n < 32 \<longrightarrow> bit x n = bit a n"
    proof (intro allI impI)
      fix n assume "k \<le> n" "n < 32"
      have "bit (drop_bit k x) (n - k) = bit (drop_bit k a) (n - k)" by (simp only: *)
      then show "bit x n = bit a n" using \<open>k \<le> n\<close> by (simp add: bit_drop_bit_eq)
    qed
  qed
  also have "\<dots> \<longleftrightarrow> unat x div 2 ^ k = unat a div 2 ^ k" by (simp add: word_unat_eq_iff unat_drop_bit)
  also have "\<dots> \<longleftrightarrow> unat a \<le> unat x \<and> unat x < unat a + 2 ^ k"
  proof -
    obtain q where q: "unat a = 2 ^ k * q" using assms(3) by (rule dvdE)
    have "unat x div 2 ^ k = q \<longleftrightarrow> q * 2 ^ k \<le> unat x \<and> unat x < (q + 1) * 2 ^ k"
    proof
      assume "unat x div 2 ^ k = q"
      then show "q * 2 ^ k \<le> unat x \<and> unat x < (q + 1) * 2 ^ k"
        using div_mult_mod_eq [of "unat x" "2 ^ k"] mod_less_divisor [OF zero_less_power [of "2 :: nat" k], of "unat x"]
        by (simp add: algebra_simps del: mod_less_divisor)
    next
      assume "q * 2 ^ k \<le> unat x \<and> unat x < (q + 1) * 2 ^ k"
      then show "unat x div 2 ^ k = q" by (intro div_nat_eqI) (simp_all add: mult.commute)
    qed
    then show ?thesis using q by (simp add: algebra_simps)
  qed
  finally show ?thesis .
qed

subsection \<open>Address translation\<close>

abbreviation ibex_bus :: "dif_rv_core_ibex \<Rightarrow> (u32 \<Rightarrow> u32) bus" where
  "ibex_bus h \<equiv> plain_bus (base (base_addr h))"

lemma slot_bus_cases: "(x :: u32) < 2 \<Longrightarrow> x = 0 \<or> x = 1"
  by (auto simp: word_less_nat_alt word_unat_eq_iff)

text \<open>The four registers of a slot and a bus, all different from one another and from those of others.\<close>

definition trans_offsets :: "addr_translation_slot \<Rightarrow> addr_translation_bus \<Rightarrow> u32 list" where
  "trans_offsets slot bus = (let r = trans_regs slot bus in [trans_matching r, trans_remap r, trans_en r, trans_lock r])"

lemma trans_offsets_facts:
  assumes "slot < 2" "bus < 2"
  shows "distinct (trans_offsets slot bus)" "\<forall>x \<in> set (trans_offsets slot bus). x mod 4 = 0"
    "slot' < 2 \<Longrightarrow> bus' < 2 \<Longrightarrow> (slot', bus') \<noteq> (slot, bus) \<Longrightarrow> set (trans_offsets slot bus) \<inter> set (trans_offsets slot' bus') = {}"
  using assms(1,2) slot_bus_cases [of slot'] slot_bus_cases [of bus']
  by (auto dest!: slot_bus_cases simp: trans_offsets_def kRegsMap_def)

text \<open>The mapping a slot and a bus hold: the region that is compared, where it goes and whether it is on.\<close>

definition trans_state :: "(u32 \<Rightarrow> u32) \<Rightarrow> addr_translation_slot \<Rightarrow> addr_translation_bus \<Rightarrow> u32 list" where
  "trans_state d slot bus = map d (trans_offsets slot bus)"

lemma run_configure:
  assumes "slot < 2" "bus < 2" "d (trans_lock (trans_regs slot bus)) \<noteq> 0" "region_size m = 2 ^ k" "k < 32"
  shows "run_state (dif_rv_core_ibex_configure_addr_translation (ibex_bus h) (Some h) slot bus m) d
    = (kDifOk, d(trans_matching (trans_regs slot bus) := to_napot (matching_addr m) (2 ^ k),
        trans_remap (trans_regs slot bus) := remap_addr m))"
proof -
  have "bitfield_is_power_of_two32 (2 ^ k)"
  proof -
    have "(2 ^ k :: u32) AND (2 ^ k - 1) = 0"
      by (intro bit_word_eqI) (auto simp: bit_and_iff bit_exp_iff bit_minus_one)
    then show ?thesis using assms(5) by (simp add: bitfield_is_power_of_two32_def)
  qed
  moreover have "trans_lock (trans_regs slot bus) mod 4 = 0" "trans_matching (trans_regs slot bus) mod 4 = 0"
    "trans_remap (trans_regs slot bus) mod 4 = 0"
    using trans_offsets_facts(2) [OF assms(1,2)] by (simp_all add: trans_offsets_def Let_def)
  ultimately show ?thesis
    using assms by (simp add: dif_rv_core_ibex_configure_addr_translation_def run_plain_read run_plain_write not_le
        icache_invalidate_def Let_def)
qed

lemma run_read_translation:
  assumes "slot < 2" "bus < 2"
  shows "run_state (dif_rv_core_ibex_read_addr_translation (ibex_bus h) (Some h) slot bus (Some m)) d
    = ((kDifOk, Some (case from_napot (d (trans_matching (trans_regs slot bus))) (region_size m) of (a, sz) \<Rightarrow>
        m\<lparr>matching_addr := a, region_size := sz, remap_addr := d (trans_remap (trans_regs slot bus))\<rparr>)), d)"
proof -
  have "trans_matching (trans_regs slot bus) mod 4 = 0" "trans_remap (trans_regs slot bus) mod 4 = 0"
    using trans_offsets_facts(2) [OF assms] by (simp_all add: trans_offsets_def Let_def)
  then show ?thesis
    using assms by (simp add: dif_rv_core_ibex_read_addr_translation_def run_plain_read not_le Let_def split: prod.split)
qed

text \<open>C34: Address translation: for every slot and bus that is not locked and every region of at least two
  bytes whose size is a power of two and divides its address, configuring succeeds, the encoding
  it programs matches exactly the addresses of the region, reading the translation back gives
  the mapping that was configured, and no other register changes. (The code accepts other regions, a
  single byte or an address that the size does not divide, and then matches other addresses.)\<close>

theorem ibex_addr_translation_exact:
  assumes "slot < 2" "bus < 2" "d (trans_lock (trans_regs slot bus)) \<noteq> 0"
    and "region_size m = 2 ^ k" "0 < k" "k < 32" "2 ^ k dvd unat (matching_addr m)"
  shows "\<exists>d'. run_state (dif_rv_core_ibex_configure_addr_translation (ibex_bus h) (Some h) slot bus m) d = (kDifOk, d')
    \<and> (\<forall>a. napot_matches (d' (trans_matching (trans_regs slot bus))) a \<longleftrightarrow>
        unat (matching_addr m) \<le> unat a \<and> unat a < unat (matching_addr m) + 2 ^ k)
    \<and> run_state (dif_rv_core_ibex_read_addr_translation (ibex_bus h) (Some h) slot bus (Some x)) d' = ((kDifOk, Some m), d')
    \<and> (\<forall>r. r \<noteq> trans_matching (trans_regs slot bus) \<and> r \<noteq> trans_remap (trans_regs slot bus) \<longrightarrow> d' r = d r)"
proof -
  have ne: "trans_matching (trans_regs slot bus) \<noteq> trans_remap (trans_regs slot bus)"
    using trans_offsets_facts(1) [OF assms(1,2)] by (simp add: trans_offsets_def Let_def)
  show ?thesis
    unfolding run_configure [of slot bus d, OF assms(1-4,6)]
    using ne assms(4) by (auto simp: run_read_translation [OF assms(1,2)] from_to_napot [OF assms(5-7)] napot_matches_region [OF assms(5-7)])
qed

lemma ibex_addr_translation_exact_witness:
  "\<exists>d'. run_state (dif_rv_core_ibex_configure_addr_translation (ibex_bus example_handle) (Some example_handle) 1 0
        \<lparr>matching_addr = 0x80000000, remap_addr = 0x20000000, region_size = 0x10000\<rparr>) (\<lambda>_. 1) = (kDifOk, d')
    \<and> napot_matches (d' 0x40) 0x8000ffff \<and> \<not> napot_matches (d' 0x40) 0x80010000"
  using ibex_addr_translation_exact [of 1 0 "\<lambda>_. 1" "\<lparr>matching_addr = 0x80000000, remap_addr = 0x20000000, region_size = 0x10000\<rparr>" 16
      example_handle undefined]
  by (auto simp: kRegsMap_def)

text \<open>A locked slot keeps its translation: configuring, enabling and disabling it fail and change nothing.\<close>

lemma ibex_locked:
  assumes "slot < 2" "bus < 2" "d (trans_lock (trans_regs slot bus)) = 0"
  shows "bitfield_is_power_of_two32 (region_size m) \<Longrightarrow>
      run_state (dif_rv_core_ibex_configure_addr_translation (ibex_bus h) (Some h) slot bus m) d = (kDifLocked, d)"
    and "run_state (dif_rv_core_ibex_enable_addr_translation (ibex_bus h) (Some h) slot bus) d = (kDifLocked, d)"
    and "run_state (dif_rv_core_ibex_disable_addr_translation (ibex_bus h) (Some h) slot bus) d = (kDifLocked, d)"
    and "run_state (dif_rv_core_ibex_lock_addr_translation (ibex_bus h) (Some h) slot bus) d = (kDifOk, d)"
proof -
  have "trans_lock (trans_regs slot bus) mod 4 = 0"
    using trans_offsets_facts(2) [OF assms(1,2)] by (simp add: trans_offsets_def Let_def)
  then show "bitfield_is_power_of_two32 (region_size m) \<Longrightarrow>
      run_state (dif_rv_core_ibex_configure_addr_translation (ibex_bus h) (Some h) slot bus m) d = (kDifLocked, d)"
    and "run_state (dif_rv_core_ibex_enable_addr_translation (ibex_bus h) (Some h) slot bus) d = (kDifLocked, d)"
    and "run_state (dif_rv_core_ibex_disable_addr_translation (ibex_bus h) (Some h) slot bus) d = (kDifLocked, d)"
    and "run_state (dif_rv_core_ibex_lock_addr_translation (ibex_bus h) (Some h) slot bus) d = (kDifOk, d)"
    using assms by (simp_all add: dif_rv_core_ibex_configure_addr_translation_def dif_rv_core_ibex_enable_addr_translation_def
        dif_rv_core_ibex_disable_addr_translation_def dif_rv_core_ibex_lock_addr_translation_def run_plain_read not_le Let_def)
qed

text \<open>A size of one passes the check but programs the encoding of at least two bytes.\<close>

lemma ibex_size_one: "napot_matches (to_napot 0x80000000 1) 0x80000001"
  by (simp add: napot_matches_def to_napot_def Let_def)

subsection \<open>The generator does not die out\<close>

lemma xor_shift_left_zero:
  fixes x :: u32
  assumes "x XOR push_bit k x = 0" "0 < k"
  shows "x = 0"
proof (rule bit_word_eqI)
  have e: "bit x n \<longleftrightarrow> k \<le> n \<and> bit x (n - k)" if "n < 32" for n
  proof -
    have "bit (x XOR push_bit k x) n = False" unfolding assms(1) by simp
    with that show ?thesis by (auto simp: bit_xor_iff bit_push_bit_iff)
  qed
  fix n assume "n < LENGTH(32)"
  then have "n < 32" by simp
  then show "bit x n = bit (0 :: u32) n"
  proof (induction n rule: less_induct)
    case (less n)
    with e [of n] assms(2) show ?case by (cases "k \<le> n") simp_all
  qed
qed

lemma xor_shift_right_zero:
  fixes x :: u32
  assumes "x XOR drop_bit k x = 0" "0 < k"
  shows "x = 0"
proof (rule bit_word_eqI)
  have e: "bit x n \<longleftrightarrow> bit x (k + n)" for n
  proof -
    have "bit (x XOR drop_bit k x) n = False" unfolding assms(1) by simp
    then show ?thesis by (auto simp: bit_xor_iff bit_drop_bit_eq)
  qed
  fix n
  show "bit x n = bit (0 :: u32) n"
  proof (induction "32 - n" arbitrary: n rule: less_induct)
    case less
    show ?case
    proof (cases "n < 32")
      case True
      with assms(2) have "32 - (k + n) < 32 - n" by linarith
      from less [OF this] have "bit x (k + n) = bit (0 :: u32) (k + n)" .
      then show ?thesis using e [of n] by simp
    qed (use bit_imp_le_length [of x n] in auto)
  qed
qed

text \<open>From a state that is not zero, and so from the initial one, the data never is zero.\<close>

lemma read_rnd_data_nonzero:
  assumes "prngState \<noteq> 0" "dif_rv_core_ibex_read_rnd_data (Some h) (Some x) prngState = (r, data, prngState')"
  shows "r = kDifOk \<and> data = Some prngState' \<and> prngState' \<noteq> 0"
  using assms xor_shift_left_zero [of prngState 13] xor_shift_right_zero [of "prngState XOR push_bit 13 prngState" 17]
    xor_shift_left_zero [of "(prngState XOR push_bit 13 prngState) XOR drop_bit 17 (prngState XOR push_bit 13 prngState)" 5]
  by (auto simp: dif_rv_core_ibex_read_rnd_data_def Let_def)

end
