(* ===== verification/IrqDifs.thy ===== *)
theory IrqDifs
  imports DifBase
begin

section \<open>Generated interrupt drivers\<close>

text \<open>
  \<^verbatim>\<open>sw/device/lib/dif/autogen/dif_<name>_autogen.c\<close>. The files are generated from one template: they differ
  in the registers, the numbering of the interrupts and their types, which a record holds, so
  that every function of a file is the function of the template applied to the record of its
  device. The always-on timer has no enable register, and the functions of the RISC-V timer take
  a hart and select their registers with it, so they are written out. An interrupt is a number,
  as the C enum is, which may be out of range. The device they run on has the interrupts, the bits and
  the register offsets that the hardware descriptions under \<^verbatim>\<open>hw/vendor\<close> give it, not those of the
  driver; the locale \<open>irq_hardware\<close> states that the two agree, and is interpreted for each device.
\<close>

record irq_device =
  irq_bit_index :: "u32 \<Rightarrow> u32 option"
  irq_type_table :: "dif_irq_type list"
  intr_state_reg :: u32
  intr_test_reg :: u32

record irq_enable_device = irq_device +
  intr_enable_reg :: u32

subsection \<open>The functions of the template\<close>

text \<open>The check excludes only the first number out of range; for a larger one the code reads beyond
  its table, which is undefined in C and has no result here.\<close>

definition irq_get_type :: "'a irq_device_scheme \<Rightarrow> dif_handle ptr \<Rightarrow> u32 \<Rightarrow> dif_irq_type ptr \<Rightarrow> (dif_result \<times> dif_irq_type ptr) option" where
  "irq_get_type D dev irq type = (case (dev, type) of
     (Some h, Some _) \<Rightarrow>
       if irq = of_nat (length (irq_type_table D)) then Some (kDifBadArg, type)
       else if unat irq < length (irq_type_table D) then Some (kDifOk, Some (irq_type_table D ! unat irq))
       else None
   | _ \<Rightarrow> Some (kDifBadArg, type))"

definition irq_get_state :: "'a irq_device_scheme \<Rightarrow> 'd bus \<Rightarrow> dif_handle ptr \<Rightarrow> u32 ptr \<Rightarrow> ('d, dif_result \<times> u32 ptr) state" where
  "irq_get_state D B dev snapshot = (case (dev, snapshot) of
     (Some h, Some _) \<Rightarrow> do {
       v \<leftarrow> rd32 B h (intr_state_reg D);
       ret (kDifOk, Some v)
     }
   | _ \<Rightarrow> ret (kDifBadArg, snapshot))"

definition irq_acknowledge_state :: "'a irq_device_scheme \<Rightarrow> 'd bus \<Rightarrow> dif_handle ptr \<Rightarrow> u32 \<Rightarrow> ('d, dif_result) state" where
  "irq_acknowledge_state D B dev snapshot = (case dev of None \<Rightarrow> ret kDifBadArg | Some h \<Rightarrow> do {
     wr32 B h (intr_state_reg D) snapshot;
     ret kDifOk
   })"

definition irq_is_pending :: "'a irq_device_scheme \<Rightarrow> 'd bus \<Rightarrow> dif_handle ptr \<Rightarrow> u32 \<Rightarrow> bool ptr \<Rightarrow> ('d, dif_result \<times> bool ptr) state" where
  "irq_is_pending D B dev irq is_pending = (case (dev, is_pending) of
     (Some h, Some _) \<Rightarrow>
       (case irq_bit_index D irq of None \<Rightarrow> ret (kDifBadArg, is_pending) | Some index \<Rightarrow> do {
          intr_state \<leftarrow> rd32 B h (intr_state_reg D);
          ret (kDifOk, Some (bitfield_bit32_read intr_state index))
        })
   | _ \<Rightarrow> ret (kDifBadArg, is_pending))"

definition irq_acknowledge_all :: "'a irq_device_scheme \<Rightarrow> 'd bus \<Rightarrow> dif_handle ptr \<Rightarrow> ('d, dif_result) state" where
  "irq_acknowledge_all D B dev = (case dev of None \<Rightarrow> ret kDifBadArg | Some h \<Rightarrow> do {
     wr32 B h (intr_state_reg D) 0xffffffff;
     ret kDifOk
   })"

definition irq_acknowledge :: "'a irq_device_scheme \<Rightarrow> 'd bus \<Rightarrow> dif_handle ptr \<Rightarrow> u32 \<Rightarrow> ('d, dif_result) state" where
  "irq_acknowledge D B dev irq = (case dev of None \<Rightarrow> ret kDifBadArg | Some h \<Rightarrow>
     (case irq_bit_index D irq of None \<Rightarrow> ret kDifBadArg | Some index \<Rightarrow> do {
        let intr_state = bitfield_bit32_write 0 index True;
        wr32 B h (intr_state_reg D) intr_state;
        ret kDifOk
      }))"

definition irq_force :: "'a irq_device_scheme \<Rightarrow> 'd bus \<Rightarrow> dif_handle ptr \<Rightarrow> u32 \<Rightarrow> bool \<Rightarrow> ('d, dif_result) state" where
  "irq_force D B dev irq val = (case dev of None \<Rightarrow> ret kDifBadArg | Some h \<Rightarrow>
     (case irq_bit_index D irq of None \<Rightarrow> ret kDifBadArg | Some index \<Rightarrow> do {
        let intr_test = bitfield_bit32_write 0 index val;
        wr32 B h (intr_test_reg D) intr_test;
        ret kDifOk
      }))"

definition irq_get_enabled :: "irq_enable_device \<Rightarrow> 'd bus \<Rightarrow> dif_handle ptr \<Rightarrow> u32 \<Rightarrow> dif_toggle ptr \<Rightarrow> ('d, dif_result \<times> dif_toggle ptr) state" where
  "irq_get_enabled D B dev irq toggle = (case (dev, toggle) of
     (Some h, Some _) \<Rightarrow>
       (case irq_bit_index D irq of None \<Rightarrow> ret (kDifBadArg, toggle) | Some index \<Rightarrow> do {
          intr_enable \<leftarrow> rd32 B h (intr_enable_reg D);
          let is_enabled = bitfield_bit32_read intr_enable index;
          ret (kDifOk, Some (if is_enabled then kDifToggleEnabled else kDifToggleDisabled))
        })
   | _ \<Rightarrow> ret (kDifBadArg, toggle))"

definition irq_set_enabled :: "irq_enable_device \<Rightarrow> 'd bus \<Rightarrow> dif_handle ptr \<Rightarrow> u32 \<Rightarrow> dif_toggle \<Rightarrow> ('d, dif_result) state" where
  "irq_set_enabled D B dev irq toggle = (case dev of None \<Rightarrow> ret kDifBadArg | Some h \<Rightarrow>
     (case irq_bit_index D irq of None \<Rightarrow> ret kDifBadArg | Some index \<Rightarrow> do {
        intr_enable \<leftarrow> rd32 B h (intr_enable_reg D);
        let enable_bit = (toggle = kDifToggleEnabled);
        let intr_enable = bitfield_bit32_write intr_enable index enable_bit;
        wr32 B h (intr_enable_reg D) intr_enable;
        ret kDifOk
      }))"

definition irq_disable_all :: "irq_enable_device \<Rightarrow> 'd bus \<Rightarrow> dif_handle ptr \<Rightarrow> u32 ptr \<Rightarrow> ('d, dif_result \<times> u32 ptr) state" where
  "irq_disable_all D B dev snapshot = (case dev of None \<Rightarrow> ret (kDifBadArg, snapshot) | Some h \<Rightarrow> do {
     snapshot \<leftarrow> (case snapshot of None \<Rightarrow> ret None | Some _ \<Rightarrow> do {
         v \<leftarrow> rd32 B h (intr_enable_reg D);
         ret (Some v)
       });
     wr32 B h (intr_enable_reg D) 0;
     ret (kDifOk, snapshot)
   })"

definition irq_restore_all :: "irq_enable_device \<Rightarrow> 'd bus \<Rightarrow> dif_handle ptr \<Rightarrow> u32 ptr \<Rightarrow> ('d, dif_result) state" where
  "irq_restore_all D B dev snapshot = (case (dev, snapshot) of
     (Some h, Some v) \<Rightarrow> do {
       wr32 B h (intr_enable_reg D) v;
       ret kDifOk
     }
   | _ \<Rightarrow> ret kDifBadArg)"

subsection \<open>UART\<close>

abbreviation (input) "kDifUartIrqTxWatermark \<equiv> 0 :: u32"
abbreviation (input) "kDifUartIrqRxWatermark \<equiv> 1 :: u32"
abbreviation (input) "kDifUartIrqTxDone \<equiv> 2 :: u32"
abbreviation (input) "kDifUartIrqRxOverflow \<equiv> 3 :: u32"
abbreviation (input) "kDifUartIrqRxFrameErr \<equiv> 4 :: u32"
abbreviation (input) "kDifUartIrqRxBreakErr \<equiv> 5 :: u32"
abbreviation (input) "kDifUartIrqRxTimeout \<equiv> 6 :: u32"
abbreviation (input) "kDifUartIrqRxParityErr \<equiv> 7 :: u32"
abbreviation (input) "kDifUartIrqTxEmpty \<equiv> 8 :: u32"

definition uart_get_irq_bit_index :: "u32 \<Rightarrow> u32 option" where
  "uart_get_irq_bit_index irq = map_of
    [(kDifUartIrqTxWatermark, UART_INTR_COMMON_TX_WATERMARK_BIT),
     (kDifUartIrqRxWatermark, UART_INTR_COMMON_RX_WATERMARK_BIT),
     (kDifUartIrqTxDone, UART_INTR_COMMON_TX_DONE_BIT),
     (kDifUartIrqRxOverflow, UART_INTR_COMMON_RX_OVERFLOW_BIT),
     (kDifUartIrqRxFrameErr, UART_INTR_COMMON_RX_FRAME_ERR_BIT),
     (kDifUartIrqRxBreakErr, UART_INTR_COMMON_RX_BREAK_ERR_BIT),
     (kDifUartIrqRxTimeout, UART_INTR_COMMON_RX_TIMEOUT_BIT),
     (kDifUartIrqRxParityErr, UART_INTR_COMMON_RX_PARITY_ERR_BIT),
     (kDifUartIrqTxEmpty, UART_INTR_COMMON_TX_EMPTY_BIT)] irq"

definition uart_irq_types :: "dif_irq_type list" where
  "uart_irq_types =
    [kDifIrqTypeStatus, kDifIrqTypeStatus, kDifIrqTypeEvent, kDifIrqTypeEvent,
     kDifIrqTypeEvent, kDifIrqTypeEvent, kDifIrqTypeEvent, kDifIrqTypeEvent,
     kDifIrqTypeStatus]"

definition uart_irqs :: irq_enable_device where
  "uart_irqs = \<lparr>irq_bit_index = uart_get_irq_bit_index, irq_type_table = uart_irq_types,
     intr_state_reg = UART_INTR_STATE_REG_OFFSET, intr_test_reg = UART_INTR_TEST_REG_OFFSET, intr_enable_reg = UART_INTR_ENABLE_REG_OFFSET\<rparr>"

definition dif_uart_irq_get_type :: "dif_handle ptr \<Rightarrow> u32 \<Rightarrow> dif_irq_type ptr \<Rightarrow> (dif_result \<times> dif_irq_type ptr) option" where
  "dif_uart_irq_get_type = irq_get_type uart_irqs"

definition dif_uart_irq_get_state :: "'d bus \<Rightarrow> dif_handle ptr \<Rightarrow> u32 ptr \<Rightarrow> ('d, dif_result \<times> u32 ptr) state" where
  "dif_uart_irq_get_state = irq_get_state uart_irqs"

definition dif_uart_irq_acknowledge_state :: "'d bus \<Rightarrow> dif_handle ptr \<Rightarrow> u32 \<Rightarrow> ('d, dif_result) state" where
  "dif_uart_irq_acknowledge_state = irq_acknowledge_state uart_irqs"

definition dif_uart_irq_is_pending :: "'d bus \<Rightarrow> dif_handle ptr \<Rightarrow> u32 \<Rightarrow> bool ptr \<Rightarrow> ('d, dif_result \<times> bool ptr) state" where
  "dif_uart_irq_is_pending = irq_is_pending uart_irqs"

definition dif_uart_irq_acknowledge_all :: "'d bus \<Rightarrow> dif_handle ptr \<Rightarrow> ('d, dif_result) state" where
  "dif_uart_irq_acknowledge_all = irq_acknowledge_all uart_irqs"


definition dif_uart_irq_force :: "'d bus \<Rightarrow> dif_handle ptr \<Rightarrow> u32 \<Rightarrow> bool \<Rightarrow> ('d, dif_result) state" where
  "dif_uart_irq_force = irq_force uart_irqs"

definition dif_uart_irq_get_enabled :: "'d bus \<Rightarrow> dif_handle ptr \<Rightarrow> u32 \<Rightarrow> dif_toggle ptr \<Rightarrow> ('d, dif_result \<times> dif_toggle ptr) state" where
  "dif_uart_irq_get_enabled = irq_get_enabled uart_irqs"

definition dif_uart_irq_set_enabled :: "'d bus \<Rightarrow> dif_handle ptr \<Rightarrow> u32 \<Rightarrow> dif_toggle \<Rightarrow> ('d, dif_result) state" where
  "dif_uart_irq_set_enabled = irq_set_enabled uart_irqs"

definition dif_uart_irq_disable_all :: "'d bus \<Rightarrow> dif_handle ptr \<Rightarrow> u32 ptr \<Rightarrow> ('d, dif_result \<times> u32 ptr) state" where
  "dif_uart_irq_disable_all = irq_disable_all uart_irqs"

definition dif_uart_irq_restore_all :: "'d bus \<Rightarrow> dif_handle ptr \<Rightarrow> u32 ptr \<Rightarrow> ('d, dif_result) state" where
  "dif_uart_irq_restore_all = irq_restore_all uart_irqs"

subsection \<open>USB device\<close>

abbreviation (input) "kDifUsbdevIrqPktReceived \<equiv> 0 :: u32"
abbreviation (input) "kDifUsbdevIrqPktSent \<equiv> 1 :: u32"
abbreviation (input) "kDifUsbdevIrqDisconnected \<equiv> 2 :: u32"
abbreviation (input) "kDifUsbdevIrqHostLost \<equiv> 3 :: u32"
abbreviation (input) "kDifUsbdevIrqLinkReset \<equiv> 4 :: u32"
abbreviation (input) "kDifUsbdevIrqLinkSuspend \<equiv> 5 :: u32"
abbreviation (input) "kDifUsbdevIrqLinkResume \<equiv> 6 :: u32"
abbreviation (input) "kDifUsbdevIrqAvOutEmpty \<equiv> 7 :: u32"
abbreviation (input) "kDifUsbdevIrqRxFull \<equiv> 8 :: u32"
abbreviation (input) "kDifUsbdevIrqAvOverflow \<equiv> 9 :: u32"
abbreviation (input) "kDifUsbdevIrqLinkInErr \<equiv> 10 :: u32"
abbreviation (input) "kDifUsbdevIrqRxCrcErr \<equiv> 11 :: u32"
abbreviation (input) "kDifUsbdevIrqRxPidErr \<equiv> 12 :: u32"
abbreviation (input) "kDifUsbdevIrqRxBitstuffErr \<equiv> 13 :: u32"
abbreviation (input) "kDifUsbdevIrqFrame \<equiv> 14 :: u32"
abbreviation (input) "kDifUsbdevIrqPowered \<equiv> 15 :: u32"
abbreviation (input) "kDifUsbdevIrqLinkOutErr \<equiv> 16 :: u32"
abbreviation (input) "kDifUsbdevIrqAvSetupEmpty \<equiv> 17 :: u32"

definition usbdev_get_irq_bit_index :: "u32 \<Rightarrow> u32 option" where
  "usbdev_get_irq_bit_index irq = map_of
    [(kDifUsbdevIrqPktReceived, USBDEV_INTR_COMMON_PKT_RECEIVED_BIT),
     (kDifUsbdevIrqPktSent, USBDEV_INTR_COMMON_PKT_SENT_BIT),
     (kDifUsbdevIrqDisconnected, USBDEV_INTR_COMMON_DISCONNECTED_BIT),
     (kDifUsbdevIrqHostLost, USBDEV_INTR_COMMON_HOST_LOST_BIT),
     (kDifUsbdevIrqLinkReset, USBDEV_INTR_COMMON_LINK_RESET_BIT),
     (kDifUsbdevIrqLinkSuspend, USBDEV_INTR_COMMON_LINK_SUSPEND_BIT),
     (kDifUsbdevIrqLinkResume, USBDEV_INTR_COMMON_LINK_RESUME_BIT),
     (kDifUsbdevIrqAvOutEmpty, USBDEV_INTR_COMMON_AV_OUT_EMPTY_BIT),
     (kDifUsbdevIrqRxFull, USBDEV_INTR_COMMON_RX_FULL_BIT),
     (kDifUsbdevIrqAvOverflow, USBDEV_INTR_COMMON_AV_OVERFLOW_BIT),
     (kDifUsbdevIrqLinkInErr, USBDEV_INTR_COMMON_LINK_IN_ERR_BIT),
     (kDifUsbdevIrqRxCrcErr, USBDEV_INTR_COMMON_RX_CRC_ERR_BIT),
     (kDifUsbdevIrqRxPidErr, USBDEV_INTR_COMMON_RX_PID_ERR_BIT),
     (kDifUsbdevIrqRxBitstuffErr, USBDEV_INTR_COMMON_RX_BITSTUFF_ERR_BIT),
     (kDifUsbdevIrqFrame, USBDEV_INTR_COMMON_FRAME_BIT),
     (kDifUsbdevIrqPowered, USBDEV_INTR_COMMON_POWERED_BIT),
     (kDifUsbdevIrqLinkOutErr, USBDEV_INTR_COMMON_LINK_OUT_ERR_BIT),
     (kDifUsbdevIrqAvSetupEmpty, USBDEV_INTR_COMMON_AV_SETUP_EMPTY_BIT)] irq"

definition usbdev_irq_types :: "dif_irq_type list" where
  "usbdev_irq_types =
    [kDifIrqTypeStatus, kDifIrqTypeStatus, kDifIrqTypeEvent, kDifIrqTypeEvent,
     kDifIrqTypeEvent, kDifIrqTypeEvent, kDifIrqTypeEvent, kDifIrqTypeStatus,
     kDifIrqTypeStatus, kDifIrqTypeEvent, kDifIrqTypeEvent, kDifIrqTypeEvent,
     kDifIrqTypeEvent, kDifIrqTypeEvent, kDifIrqTypeEvent, kDifIrqTypeEvent,
     kDifIrqTypeEvent, kDifIrqTypeStatus]"

definition usbdev_irqs :: irq_enable_device where
  "usbdev_irqs = \<lparr>irq_bit_index = usbdev_get_irq_bit_index, irq_type_table = usbdev_irq_types,
     intr_state_reg = USBDEV_INTR_STATE_REG_OFFSET, intr_test_reg = USBDEV_INTR_TEST_REG_OFFSET, intr_enable_reg = USBDEV_INTR_ENABLE_REG_OFFSET\<rparr>"

definition dif_usbdev_irq_get_type :: "dif_handle ptr \<Rightarrow> u32 \<Rightarrow> dif_irq_type ptr \<Rightarrow> (dif_result \<times> dif_irq_type ptr) option" where
  "dif_usbdev_irq_get_type = irq_get_type usbdev_irqs"

definition dif_usbdev_irq_get_state :: "'d bus \<Rightarrow> dif_handle ptr \<Rightarrow> u32 ptr \<Rightarrow> ('d, dif_result \<times> u32 ptr) state" where
  "dif_usbdev_irq_get_state = irq_get_state usbdev_irqs"

definition dif_usbdev_irq_acknowledge_state :: "'d bus \<Rightarrow> dif_handle ptr \<Rightarrow> u32 \<Rightarrow> ('d, dif_result) state" where
  "dif_usbdev_irq_acknowledge_state = irq_acknowledge_state usbdev_irqs"

definition dif_usbdev_irq_is_pending :: "'d bus \<Rightarrow> dif_handle ptr \<Rightarrow> u32 \<Rightarrow> bool ptr \<Rightarrow> ('d, dif_result \<times> bool ptr) state" where
  "dif_usbdev_irq_is_pending = irq_is_pending usbdev_irqs"

definition dif_usbdev_irq_acknowledge_all :: "'d bus \<Rightarrow> dif_handle ptr \<Rightarrow> ('d, dif_result) state" where
  "dif_usbdev_irq_acknowledge_all = irq_acknowledge_all usbdev_irqs"

definition dif_usbdev_irq_acknowledge :: "'d bus \<Rightarrow> dif_handle ptr \<Rightarrow> u32 \<Rightarrow> ('d, dif_result) state" where
  "dif_usbdev_irq_acknowledge = irq_acknowledge usbdev_irqs"

definition dif_usbdev_irq_force :: "'d bus \<Rightarrow> dif_handle ptr \<Rightarrow> u32 \<Rightarrow> bool \<Rightarrow> ('d, dif_result) state" where
  "dif_usbdev_irq_force = irq_force usbdev_irqs"

definition dif_usbdev_irq_get_enabled :: "'d bus \<Rightarrow> dif_handle ptr \<Rightarrow> u32 \<Rightarrow> dif_toggle ptr \<Rightarrow> ('d, dif_result \<times> dif_toggle ptr) state" where
  "dif_usbdev_irq_get_enabled = irq_get_enabled usbdev_irqs"

definition dif_usbdev_irq_set_enabled :: "'d bus \<Rightarrow> dif_handle ptr \<Rightarrow> u32 \<Rightarrow> dif_toggle \<Rightarrow> ('d, dif_result) state" where
  "dif_usbdev_irq_set_enabled = irq_set_enabled usbdev_irqs"

definition dif_usbdev_irq_disable_all :: "'d bus \<Rightarrow> dif_handle ptr \<Rightarrow> u32 ptr \<Rightarrow> ('d, dif_result \<times> u32 ptr) state" where
  "dif_usbdev_irq_disable_all = irq_disable_all usbdev_irqs"

definition dif_usbdev_irq_restore_all :: "'d bus \<Rightarrow> dif_handle ptr \<Rightarrow> u32 ptr \<Rightarrow> ('d, dif_result) state" where
  "dif_usbdev_irq_restore_all = irq_restore_all usbdev_irqs"

subsection \<open>GPIO\<close>

abbreviation (input) "kDifGpioIrqGpio0 \<equiv> 0 :: u32"
abbreviation (input) "kDifGpioIrqGpio1 \<equiv> 1 :: u32"
abbreviation (input) "kDifGpioIrqGpio2 \<equiv> 2 :: u32"
abbreviation (input) "kDifGpioIrqGpio3 \<equiv> 3 :: u32"
abbreviation (input) "kDifGpioIrqGpio4 \<equiv> 4 :: u32"
abbreviation (input) "kDifGpioIrqGpio5 \<equiv> 5 :: u32"
abbreviation (input) "kDifGpioIrqGpio6 \<equiv> 6 :: u32"
abbreviation (input) "kDifGpioIrqGpio7 \<equiv> 7 :: u32"
abbreviation (input) "kDifGpioIrqGpio8 \<equiv> 8 :: u32"
abbreviation (input) "kDifGpioIrqGpio9 \<equiv> 9 :: u32"
abbreviation (input) "kDifGpioIrqGpio10 \<equiv> 10 :: u32"
abbreviation (input) "kDifGpioIrqGpio11 \<equiv> 11 :: u32"
abbreviation (input) "kDifGpioIrqGpio12 \<equiv> 12 :: u32"
abbreviation (input) "kDifGpioIrqGpio13 \<equiv> 13 :: u32"
abbreviation (input) "kDifGpioIrqGpio14 \<equiv> 14 :: u32"
abbreviation (input) "kDifGpioIrqGpio15 \<equiv> 15 :: u32"
abbreviation (input) "kDifGpioIrqGpio16 \<equiv> 16 :: u32"
abbreviation (input) "kDifGpioIrqGpio17 \<equiv> 17 :: u32"
abbreviation (input) "kDifGpioIrqGpio18 \<equiv> 18 :: u32"
abbreviation (input) "kDifGpioIrqGpio19 \<equiv> 19 :: u32"
abbreviation (input) "kDifGpioIrqGpio20 \<equiv> 20 :: u32"
abbreviation (input) "kDifGpioIrqGpio21 \<equiv> 21 :: u32"
abbreviation (input) "kDifGpioIrqGpio22 \<equiv> 22 :: u32"
abbreviation (input) "kDifGpioIrqGpio23 \<equiv> 23 :: u32"
abbreviation (input) "kDifGpioIrqGpio24 \<equiv> 24 :: u32"
abbreviation (input) "kDifGpioIrqGpio25 \<equiv> 25 :: u32"
abbreviation (input) "kDifGpioIrqGpio26 \<equiv> 26 :: u32"
abbreviation (input) "kDifGpioIrqGpio27 \<equiv> 27 :: u32"
abbreviation (input) "kDifGpioIrqGpio28 \<equiv> 28 :: u32"
abbreviation (input) "kDifGpioIrqGpio29 \<equiv> 29 :: u32"
abbreviation (input) "kDifGpioIrqGpio30 \<equiv> 30 :: u32"
abbreviation (input) "kDifGpioIrqGpio31 \<equiv> 31 :: u32"

definition gpio_get_irq_bit_index :: "u32 \<Rightarrow> u32 option" where
  "gpio_get_irq_bit_index irq = map_of
    [(kDifGpioIrqGpio0, 0),
     (kDifGpioIrqGpio1, 1),
     (kDifGpioIrqGpio2, 2),
     (kDifGpioIrqGpio3, 3),
     (kDifGpioIrqGpio4, 4),
     (kDifGpioIrqGpio5, 5),
     (kDifGpioIrqGpio6, 6),
     (kDifGpioIrqGpio7, 7),
     (kDifGpioIrqGpio8, 8),
     (kDifGpioIrqGpio9, 9),
     (kDifGpioIrqGpio10, 10),
     (kDifGpioIrqGpio11, 11),
     (kDifGpioIrqGpio12, 12),
     (kDifGpioIrqGpio13, 13),
     (kDifGpioIrqGpio14, 14),
     (kDifGpioIrqGpio15, 15),
     (kDifGpioIrqGpio16, 16),
     (kDifGpioIrqGpio17, 17),
     (kDifGpioIrqGpio18, 18),
     (kDifGpioIrqGpio19, 19),
     (kDifGpioIrqGpio20, 20),
     (kDifGpioIrqGpio21, 21),
     (kDifGpioIrqGpio22, 22),
     (kDifGpioIrqGpio23, 23),
     (kDifGpioIrqGpio24, 24),
     (kDifGpioIrqGpio25, 25),
     (kDifGpioIrqGpio26, 26),
     (kDifGpioIrqGpio27, 27),
     (kDifGpioIrqGpio28, 28),
     (kDifGpioIrqGpio29, 29),
     (kDifGpioIrqGpio30, 30),
     (kDifGpioIrqGpio31, 31)] irq"

definition gpio_irq_types :: "dif_irq_type list" where
  "gpio_irq_types =
    [kDifIrqTypeEvent, kDifIrqTypeEvent, kDifIrqTypeEvent, kDifIrqTypeEvent,
     kDifIrqTypeEvent, kDifIrqTypeEvent, kDifIrqTypeEvent, kDifIrqTypeEvent,
     kDifIrqTypeEvent, kDifIrqTypeEvent, kDifIrqTypeEvent, kDifIrqTypeEvent,
     kDifIrqTypeEvent, kDifIrqTypeEvent, kDifIrqTypeEvent, kDifIrqTypeEvent,
     kDifIrqTypeEvent, kDifIrqTypeEvent, kDifIrqTypeEvent, kDifIrqTypeEvent,
     kDifIrqTypeEvent, kDifIrqTypeEvent, kDifIrqTypeEvent, kDifIrqTypeEvent,
     kDifIrqTypeEvent, kDifIrqTypeEvent, kDifIrqTypeEvent, kDifIrqTypeEvent,
     kDifIrqTypeEvent, kDifIrqTypeEvent, kDifIrqTypeEvent, kDifIrqTypeEvent]"

definition gpio_irqs :: irq_enable_device where
  "gpio_irqs = \<lparr>irq_bit_index = gpio_get_irq_bit_index, irq_type_table = gpio_irq_types,
     intr_state_reg = GPIO_INTR_STATE_REG_OFFSET, intr_test_reg = GPIO_INTR_TEST_REG_OFFSET, intr_enable_reg = GPIO_INTR_ENABLE_REG_OFFSET\<rparr>"

definition dif_gpio_irq_get_type :: "dif_handle ptr \<Rightarrow> u32 \<Rightarrow> dif_irq_type ptr \<Rightarrow> (dif_result \<times> dif_irq_type ptr) option" where
  "dif_gpio_irq_get_type = irq_get_type gpio_irqs"

definition dif_gpio_irq_get_state :: "'d bus \<Rightarrow> dif_handle ptr \<Rightarrow> u32 ptr \<Rightarrow> ('d, dif_result \<times> u32 ptr) state" where
  "dif_gpio_irq_get_state = irq_get_state gpio_irqs"

definition dif_gpio_irq_acknowledge_state :: "'d bus \<Rightarrow> dif_handle ptr \<Rightarrow> u32 \<Rightarrow> ('d, dif_result) state" where
  "dif_gpio_irq_acknowledge_state = irq_acknowledge_state gpio_irqs"

definition dif_gpio_irq_is_pending :: "'d bus \<Rightarrow> dif_handle ptr \<Rightarrow> u32 \<Rightarrow> bool ptr \<Rightarrow> ('d, dif_result \<times> bool ptr) state" where
  "dif_gpio_irq_is_pending = irq_is_pending gpio_irqs"

definition dif_gpio_irq_acknowledge_all :: "'d bus \<Rightarrow> dif_handle ptr \<Rightarrow> ('d, dif_result) state" where
  "dif_gpio_irq_acknowledge_all = irq_acknowledge_all gpio_irqs"

definition dif_gpio_irq_acknowledge :: "'d bus \<Rightarrow> dif_handle ptr \<Rightarrow> u32 \<Rightarrow> ('d, dif_result) state" where
  "dif_gpio_irq_acknowledge = irq_acknowledge gpio_irqs"

definition dif_gpio_irq_force :: "'d bus \<Rightarrow> dif_handle ptr \<Rightarrow> u32 \<Rightarrow> bool \<Rightarrow> ('d, dif_result) state" where
  "dif_gpio_irq_force = irq_force gpio_irqs"

definition dif_gpio_irq_get_enabled :: "'d bus \<Rightarrow> dif_handle ptr \<Rightarrow> u32 \<Rightarrow> dif_toggle ptr \<Rightarrow> ('d, dif_result \<times> dif_toggle ptr) state" where
  "dif_gpio_irq_get_enabled = irq_get_enabled gpio_irqs"

definition dif_gpio_irq_set_enabled :: "'d bus \<Rightarrow> dif_handle ptr \<Rightarrow> u32 \<Rightarrow> dif_toggle \<Rightarrow> ('d, dif_result) state" where
  "dif_gpio_irq_set_enabled = irq_set_enabled gpio_irqs"

definition dif_gpio_irq_disable_all :: "'d bus \<Rightarrow> dif_handle ptr \<Rightarrow> u32 ptr \<Rightarrow> ('d, dif_result \<times> u32 ptr) state" where
  "dif_gpio_irq_disable_all = irq_disable_all gpio_irqs"

definition dif_gpio_irq_restore_all :: "'d bus \<Rightarrow> dif_handle ptr \<Rightarrow> u32 ptr \<Rightarrow> ('d, dif_result) state" where
  "dif_gpio_irq_restore_all = irq_restore_all gpio_irqs"

subsection \<open>I2C\<close>

abbreviation (input) "kDifI2cIrqFmtThreshold \<equiv> 0 :: u32"
abbreviation (input) "kDifI2cIrqRxThreshold \<equiv> 1 :: u32"
abbreviation (input) "kDifI2cIrqAcqThreshold \<equiv> 2 :: u32"
abbreviation (input) "kDifI2cIrqRxOverflow \<equiv> 3 :: u32"
abbreviation (input) "kDifI2cIrqControllerHalt \<equiv> 4 :: u32"
abbreviation (input) "kDifI2cIrqSclInterference \<equiv> 5 :: u32"
abbreviation (input) "kDifI2cIrqSdaInterference \<equiv> 6 :: u32"
abbreviation (input) "kDifI2cIrqStretchTimeout \<equiv> 7 :: u32"
abbreviation (input) "kDifI2cIrqSdaUnstable \<equiv> 8 :: u32"
abbreviation (input) "kDifI2cIrqCmdComplete \<equiv> 9 :: u32"
abbreviation (input) "kDifI2cIrqTxStretch \<equiv> 10 :: u32"
abbreviation (input) "kDifI2cIrqTxThreshold \<equiv> 11 :: u32"
abbreviation (input) "kDifI2cIrqAcqStretch \<equiv> 12 :: u32"
abbreviation (input) "kDifI2cIrqUnexpStop \<equiv> 13 :: u32"
abbreviation (input) "kDifI2cIrqHostTimeout \<equiv> 14 :: u32"

definition i2c_get_irq_bit_index :: "u32 \<Rightarrow> u32 option" where
  "i2c_get_irq_bit_index irq = map_of
    [(kDifI2cIrqFmtThreshold, I2C_INTR_COMMON_FMT_THRESHOLD_BIT),
     (kDifI2cIrqRxThreshold, I2C_INTR_COMMON_RX_THRESHOLD_BIT),
     (kDifI2cIrqAcqThreshold, I2C_INTR_COMMON_ACQ_THRESHOLD_BIT),
     (kDifI2cIrqRxOverflow, I2C_INTR_COMMON_RX_OVERFLOW_BIT),
     (kDifI2cIrqControllerHalt, I2C_INTR_COMMON_CONTROLLER_HALT_BIT),
     (kDifI2cIrqSclInterference, I2C_INTR_COMMON_SCL_INTERFERENCE_BIT),
     (kDifI2cIrqSdaInterference, I2C_INTR_COMMON_SDA_INTERFERENCE_BIT),
     (kDifI2cIrqStretchTimeout, I2C_INTR_COMMON_STRETCH_TIMEOUT_BIT),
     (kDifI2cIrqSdaUnstable, I2C_INTR_COMMON_SDA_UNSTABLE_BIT),
     (kDifI2cIrqCmdComplete, I2C_INTR_COMMON_CMD_COMPLETE_BIT),
     (kDifI2cIrqTxStretch, I2C_INTR_COMMON_TX_STRETCH_BIT),
     (kDifI2cIrqTxThreshold, I2C_INTR_COMMON_TX_THRESHOLD_BIT),
     (kDifI2cIrqAcqStretch, I2C_INTR_COMMON_ACQ_STRETCH_BIT),
     (kDifI2cIrqUnexpStop, I2C_INTR_COMMON_UNEXP_STOP_BIT),
     (kDifI2cIrqHostTimeout, I2C_INTR_COMMON_HOST_TIMEOUT_BIT)] irq"

definition i2c_irq_types :: "dif_irq_type list" where
  "i2c_irq_types =
    [kDifIrqTypeStatus, kDifIrqTypeStatus, kDifIrqTypeStatus, kDifIrqTypeEvent,
     kDifIrqTypeStatus, kDifIrqTypeEvent, kDifIrqTypeEvent, kDifIrqTypeEvent,
     kDifIrqTypeEvent, kDifIrqTypeEvent, kDifIrqTypeStatus, kDifIrqTypeStatus,
     kDifIrqTypeStatus, kDifIrqTypeEvent, kDifIrqTypeEvent]"

definition i2c_irqs :: irq_enable_device where
  "i2c_irqs = \<lparr>irq_bit_index = i2c_get_irq_bit_index, irq_type_table = i2c_irq_types,
     intr_state_reg = I2C_INTR_STATE_REG_OFFSET, intr_test_reg = I2C_INTR_TEST_REG_OFFSET, intr_enable_reg = I2C_INTR_ENABLE_REG_OFFSET\<rparr>"

definition dif_i2c_irq_get_type :: "dif_handle ptr \<Rightarrow> u32 \<Rightarrow> dif_irq_type ptr \<Rightarrow> (dif_result \<times> dif_irq_type ptr) option" where
  "dif_i2c_irq_get_type = irq_get_type i2c_irqs"

definition dif_i2c_irq_get_state :: "'d bus \<Rightarrow> dif_handle ptr \<Rightarrow> u32 ptr \<Rightarrow> ('d, dif_result \<times> u32 ptr) state" where
  "dif_i2c_irq_get_state = irq_get_state i2c_irqs"

definition dif_i2c_irq_acknowledge_state :: "'d bus \<Rightarrow> dif_handle ptr \<Rightarrow> u32 \<Rightarrow> ('d, dif_result) state" where
  "dif_i2c_irq_acknowledge_state = irq_acknowledge_state i2c_irqs"

definition dif_i2c_irq_is_pending :: "'d bus \<Rightarrow> dif_handle ptr \<Rightarrow> u32 \<Rightarrow> bool ptr \<Rightarrow> ('d, dif_result \<times> bool ptr) state" where
  "dif_i2c_irq_is_pending = irq_is_pending i2c_irqs"

definition dif_i2c_irq_acknowledge_all :: "'d bus \<Rightarrow> dif_handle ptr \<Rightarrow> ('d, dif_result) state" where
  "dif_i2c_irq_acknowledge_all = irq_acknowledge_all i2c_irqs"

definition dif_i2c_irq_acknowledge :: "'d bus \<Rightarrow> dif_handle ptr \<Rightarrow> u32 \<Rightarrow> ('d, dif_result) state" where
  "dif_i2c_irq_acknowledge = irq_acknowledge i2c_irqs"

definition dif_i2c_irq_force :: "'d bus \<Rightarrow> dif_handle ptr \<Rightarrow> u32 \<Rightarrow> bool \<Rightarrow> ('d, dif_result) state" where
  "dif_i2c_irq_force = irq_force i2c_irqs"

definition dif_i2c_irq_get_enabled :: "'d bus \<Rightarrow> dif_handle ptr \<Rightarrow> u32 \<Rightarrow> dif_toggle ptr \<Rightarrow> ('d, dif_result \<times> dif_toggle ptr) state" where
  "dif_i2c_irq_get_enabled = irq_get_enabled i2c_irqs"

definition dif_i2c_irq_set_enabled :: "'d bus \<Rightarrow> dif_handle ptr \<Rightarrow> u32 \<Rightarrow> dif_toggle \<Rightarrow> ('d, dif_result) state" where
  "dif_i2c_irq_set_enabled = irq_set_enabled i2c_irqs"

definition dif_i2c_irq_disable_all :: "'d bus \<Rightarrow> dif_handle ptr \<Rightarrow> u32 ptr \<Rightarrow> ('d, dif_result \<times> u32 ptr) state" where
  "dif_i2c_irq_disable_all = irq_disable_all i2c_irqs"

definition dif_i2c_irq_restore_all :: "'d bus \<Rightarrow> dif_handle ptr \<Rightarrow> u32 ptr \<Rightarrow> ('d, dif_result) state" where
  "dif_i2c_irq_restore_all = irq_restore_all i2c_irqs"

subsection \<open>SPI host\<close>

abbreviation (input) "kDifSpiHostIrqError \<equiv> 0 :: u32"
abbreviation (input) "kDifSpiHostIrqSpiEvent \<equiv> 1 :: u32"

definition spi_host_get_irq_bit_index :: "u32 \<Rightarrow> u32 option" where
  "spi_host_get_irq_bit_index irq = map_of
    [(kDifSpiHostIrqError, SPI_HOST_INTR_COMMON_ERROR_BIT),
     (kDifSpiHostIrqSpiEvent, SPI_HOST_INTR_COMMON_SPI_EVENT_BIT)] irq"

definition spi_host_irq_types :: "dif_irq_type list" where
  "spi_host_irq_types =
    [kDifIrqTypeEvent, kDifIrqTypeStatus]"

definition spi_host_irqs :: irq_enable_device where
  "spi_host_irqs = \<lparr>irq_bit_index = spi_host_get_irq_bit_index, irq_type_table = spi_host_irq_types,
     intr_state_reg = SPI_HOST_INTR_STATE_REG_OFFSET, intr_test_reg = SPI_HOST_INTR_TEST_REG_OFFSET, intr_enable_reg = SPI_HOST_INTR_ENABLE_REG_OFFSET\<rparr>"

definition dif_spi_host_irq_get_type :: "dif_handle ptr \<Rightarrow> u32 \<Rightarrow> dif_irq_type ptr \<Rightarrow> (dif_result \<times> dif_irq_type ptr) option" where
  "dif_spi_host_irq_get_type = irq_get_type spi_host_irqs"

definition dif_spi_host_irq_get_state :: "'d bus \<Rightarrow> dif_handle ptr \<Rightarrow> u32 ptr \<Rightarrow> ('d, dif_result \<times> u32 ptr) state" where
  "dif_spi_host_irq_get_state = irq_get_state spi_host_irqs"

definition dif_spi_host_irq_acknowledge_state :: "'d bus \<Rightarrow> dif_handle ptr \<Rightarrow> u32 \<Rightarrow> ('d, dif_result) state" where
  "dif_spi_host_irq_acknowledge_state = irq_acknowledge_state spi_host_irqs"

definition dif_spi_host_irq_is_pending :: "'d bus \<Rightarrow> dif_handle ptr \<Rightarrow> u32 \<Rightarrow> bool ptr \<Rightarrow> ('d, dif_result \<times> bool ptr) state" where
  "dif_spi_host_irq_is_pending = irq_is_pending spi_host_irqs"

definition dif_spi_host_irq_acknowledge_all :: "'d bus \<Rightarrow> dif_handle ptr \<Rightarrow> ('d, dif_result) state" where
  "dif_spi_host_irq_acknowledge_all = irq_acknowledge_all spi_host_irqs"

definition dif_spi_host_irq_acknowledge :: "'d bus \<Rightarrow> dif_handle ptr \<Rightarrow> u32 \<Rightarrow> ('d, dif_result) state" where
  "dif_spi_host_irq_acknowledge = irq_acknowledge spi_host_irqs"

definition dif_spi_host_irq_force :: "'d bus \<Rightarrow> dif_handle ptr \<Rightarrow> u32 \<Rightarrow> bool \<Rightarrow> ('d, dif_result) state" where
  "dif_spi_host_irq_force = irq_force spi_host_irqs"

definition dif_spi_host_irq_get_enabled :: "'d bus \<Rightarrow> dif_handle ptr \<Rightarrow> u32 \<Rightarrow> dif_toggle ptr \<Rightarrow> ('d, dif_result \<times> dif_toggle ptr) state" where
  "dif_spi_host_irq_get_enabled = irq_get_enabled spi_host_irqs"

definition dif_spi_host_irq_set_enabled :: "'d bus \<Rightarrow> dif_handle ptr \<Rightarrow> u32 \<Rightarrow> dif_toggle \<Rightarrow> ('d, dif_result) state" where
  "dif_spi_host_irq_set_enabled = irq_set_enabled spi_host_irqs"

definition dif_spi_host_irq_disable_all :: "'d bus \<Rightarrow> dif_handle ptr \<Rightarrow> u32 ptr \<Rightarrow> ('d, dif_result \<times> u32 ptr) state" where
  "dif_spi_host_irq_disable_all = irq_disable_all spi_host_irqs"

definition dif_spi_host_irq_restore_all :: "'d bus \<Rightarrow> dif_handle ptr \<Rightarrow> u32 ptr \<Rightarrow> ('d, dif_result) state" where
  "dif_spi_host_irq_restore_all = irq_restore_all spi_host_irqs"

subsection \<open>Pattern generator\<close>

abbreviation (input) "kDifPattgenIrqDoneCh0 \<equiv> 0 :: u32"
abbreviation (input) "kDifPattgenIrqDoneCh1 \<equiv> 1 :: u32"

definition pattgen_get_irq_bit_index :: "u32 \<Rightarrow> u32 option" where
  "pattgen_get_irq_bit_index irq = map_of
    [(kDifPattgenIrqDoneCh0, PATTGEN_INTR_COMMON_DONE_CH0_BIT),
     (kDifPattgenIrqDoneCh1, PATTGEN_INTR_COMMON_DONE_CH1_BIT)] irq"

definition pattgen_irq_types :: "dif_irq_type list" where
  "pattgen_irq_types =
    [kDifIrqTypeEvent, kDifIrqTypeEvent]"

definition pattgen_irqs :: irq_enable_device where
  "pattgen_irqs = \<lparr>irq_bit_index = pattgen_get_irq_bit_index, irq_type_table = pattgen_irq_types,
     intr_state_reg = PATTGEN_INTR_STATE_REG_OFFSET, intr_test_reg = PATTGEN_INTR_TEST_REG_OFFSET, intr_enable_reg = PATTGEN_INTR_ENABLE_REG_OFFSET\<rparr>"

definition dif_pattgen_irq_get_type :: "dif_handle ptr \<Rightarrow> u32 \<Rightarrow> dif_irq_type ptr \<Rightarrow> (dif_result \<times> dif_irq_type ptr) option" where
  "dif_pattgen_irq_get_type = irq_get_type pattgen_irqs"

definition dif_pattgen_irq_get_state :: "'d bus \<Rightarrow> dif_handle ptr \<Rightarrow> u32 ptr \<Rightarrow> ('d, dif_result \<times> u32 ptr) state" where
  "dif_pattgen_irq_get_state = irq_get_state pattgen_irqs"

definition dif_pattgen_irq_acknowledge_state :: "'d bus \<Rightarrow> dif_handle ptr \<Rightarrow> u32 \<Rightarrow> ('d, dif_result) state" where
  "dif_pattgen_irq_acknowledge_state = irq_acknowledge_state pattgen_irqs"

definition dif_pattgen_irq_is_pending :: "'d bus \<Rightarrow> dif_handle ptr \<Rightarrow> u32 \<Rightarrow> bool ptr \<Rightarrow> ('d, dif_result \<times> bool ptr) state" where
  "dif_pattgen_irq_is_pending = irq_is_pending pattgen_irqs"

definition dif_pattgen_irq_acknowledge_all :: "'d bus \<Rightarrow> dif_handle ptr \<Rightarrow> ('d, dif_result) state" where
  "dif_pattgen_irq_acknowledge_all = irq_acknowledge_all pattgen_irqs"

definition dif_pattgen_irq_acknowledge :: "'d bus \<Rightarrow> dif_handle ptr \<Rightarrow> u32 \<Rightarrow> ('d, dif_result) state" where
  "dif_pattgen_irq_acknowledge = irq_acknowledge pattgen_irqs"

definition dif_pattgen_irq_force :: "'d bus \<Rightarrow> dif_handle ptr \<Rightarrow> u32 \<Rightarrow> bool \<Rightarrow> ('d, dif_result) state" where
  "dif_pattgen_irq_force = irq_force pattgen_irqs"

definition dif_pattgen_irq_get_enabled :: "'d bus \<Rightarrow> dif_handle ptr \<Rightarrow> u32 \<Rightarrow> dif_toggle ptr \<Rightarrow> ('d, dif_result \<times> dif_toggle ptr) state" where
  "dif_pattgen_irq_get_enabled = irq_get_enabled pattgen_irqs"

definition dif_pattgen_irq_set_enabled :: "'d bus \<Rightarrow> dif_handle ptr \<Rightarrow> u32 \<Rightarrow> dif_toggle \<Rightarrow> ('d, dif_result) state" where
  "dif_pattgen_irq_set_enabled = irq_set_enabled pattgen_irqs"

definition dif_pattgen_irq_disable_all :: "'d bus \<Rightarrow> dif_handle ptr \<Rightarrow> u32 ptr \<Rightarrow> ('d, dif_result \<times> u32 ptr) state" where
  "dif_pattgen_irq_disable_all = irq_disable_all pattgen_irqs"

definition dif_pattgen_irq_restore_all :: "'d bus \<Rightarrow> dif_handle ptr \<Rightarrow> u32 ptr \<Rightarrow> ('d, dif_result) state" where
  "dif_pattgen_irq_restore_all = irq_restore_all pattgen_irqs"

subsection \<open>Always-on timer\<close>

abbreviation (input) "kDifAonTimerIrqWkupTimerExpired \<equiv> 0 :: u32"
abbreviation (input) "kDifAonTimerIrqWdogTimerBark \<equiv> 1 :: u32"

definition aon_timer_get_irq_bit_index :: "u32 \<Rightarrow> u32 option" where
  "aon_timer_get_irq_bit_index irq = map_of
    [(kDifAonTimerIrqWkupTimerExpired, AON_TIMER_INTR_STATE_WKUP_TIMER_EXPIRED_BIT),
     (kDifAonTimerIrqWdogTimerBark, AON_TIMER_INTR_STATE_WDOG_TIMER_BARK_BIT)] irq"

definition aon_timer_irq_types :: "dif_irq_type list" where
  "aon_timer_irq_types =
    [kDifIrqTypeEvent, kDifIrqTypeEvent]"

definition aon_timer_irqs :: irq_device where
  "aon_timer_irqs = \<lparr>irq_bit_index = aon_timer_get_irq_bit_index, irq_type_table = aon_timer_irq_types,
     intr_state_reg = AON_TIMER_INTR_STATE_REG_OFFSET, intr_test_reg = AON_TIMER_INTR_TEST_REG_OFFSET\<rparr>"

definition dif_aon_timer_irq_get_type :: "dif_handle ptr \<Rightarrow> u32 \<Rightarrow> dif_irq_type ptr \<Rightarrow> (dif_result \<times> dif_irq_type ptr) option" where
  "dif_aon_timer_irq_get_type = irq_get_type aon_timer_irqs"

definition dif_aon_timer_irq_get_state :: "'d bus \<Rightarrow> dif_handle ptr \<Rightarrow> u32 ptr \<Rightarrow> ('d, dif_result \<times> u32 ptr) state" where
  "dif_aon_timer_irq_get_state = irq_get_state aon_timer_irqs"

definition dif_aon_timer_irq_acknowledge_state :: "'d bus \<Rightarrow> dif_handle ptr \<Rightarrow> u32 \<Rightarrow> ('d, dif_result) state" where
  "dif_aon_timer_irq_acknowledge_state = irq_acknowledge_state aon_timer_irqs"

definition dif_aon_timer_irq_is_pending :: "'d bus \<Rightarrow> dif_handle ptr \<Rightarrow> u32 \<Rightarrow> bool ptr \<Rightarrow> ('d, dif_result \<times> bool ptr) state" where
  "dif_aon_timer_irq_is_pending = irq_is_pending aon_timer_irqs"

definition dif_aon_timer_irq_acknowledge_all :: "'d bus \<Rightarrow> dif_handle ptr \<Rightarrow> ('d, dif_result) state" where
  "dif_aon_timer_irq_acknowledge_all = irq_acknowledge_all aon_timer_irqs"

definition dif_aon_timer_irq_acknowledge :: "'d bus \<Rightarrow> dif_handle ptr \<Rightarrow> u32 \<Rightarrow> ('d, dif_result) state" where
  "dif_aon_timer_irq_acknowledge = irq_acknowledge aon_timer_irqs"

definition dif_aon_timer_irq_force :: "'d bus \<Rightarrow> dif_handle ptr \<Rightarrow> u32 \<Rightarrow> bool \<Rightarrow> ('d, dif_result) state" where
  "dif_aon_timer_irq_force = irq_force aon_timer_irqs"

subsection \<open>RISC-V timer\<close>

abbreviation (input) "kDifRvTimerIrqTimerExpiredHart0Timer0 \<equiv> 0 :: u32"

definition rv_timer_get_irq_bit_index :: "u32 \<Rightarrow> u32 option" where
  "rv_timer_get_irq_bit_index irq = map_of
    [(kDifRvTimerIrqTimerExpiredHart0Timer0, RV_TIMER_INTR_STATE0_IS_0_BIT)] irq"

definition rv_timer_irq_types :: "dif_irq_type list" where
  "rv_timer_irq_types =
    [kDifIrqTypeEvent]"


datatype rv_timer_intr_reg = kDifRvTimerIntrRegState | kDifRvTimerIntrRegEnable | kDifRvTimerIntrRegTest

definition rv_timer_get_irq_reg_offset :: "rv_timer_intr_reg \<Rightarrow> u32 \<Rightarrow> u32 option" where
  "rv_timer_get_irq_reg_offset intr_reg irq =
     (if irq = kDifRvTimerIrqTimerExpiredHart0Timer0
      then (case intr_reg of
          kDifRvTimerIntrRegState \<Rightarrow> Some RV_TIMER_INTR_STATE0_REG_OFFSET
        | kDifRvTimerIntrRegEnable \<Rightarrow> Some RV_TIMER_INTR_ENABLE0_REG_OFFSET
        | kDifRvTimerIntrRegTest \<Rightarrow> Some RV_TIMER_INTR_TEST0_REG_OFFSET)
      else None)"

definition dif_rv_timer_irq_get_type :: "dif_handle ptr \<Rightarrow> u32 \<Rightarrow> dif_irq_type ptr \<Rightarrow> (dif_result \<times> dif_irq_type ptr) option" where
  "dif_rv_timer_irq_get_type rv_timer irq type = (case (rv_timer, type) of
     (Some h, Some _) \<Rightarrow>
       if irq = kDifRvTimerIrqTimerExpiredHart0Timer0 + 1 then Some (kDifBadArg, type)
       else if unat irq < length rv_timer_irq_types then Some (kDifOk, Some (rv_timer_irq_types ! unat irq))
       else None
   | _ \<Rightarrow> Some (kDifBadArg, type))"

definition dif_rv_timer_irq_get_state :: "'d bus \<Rightarrow> dif_handle ptr \<Rightarrow> u32 \<Rightarrow> u32 ptr \<Rightarrow> ('d, dif_result \<times> u32 ptr) state" where
  "dif_rv_timer_irq_get_state B rv_timer hart_id snapshot = (case (rv_timer, snapshot) of
     (Some h, Some _) \<Rightarrow>
       if hart_id = 0 then do {
         v \<leftarrow> rd32 B h RV_TIMER_INTR_STATE0_REG_OFFSET;
         ret (kDifOk, Some v)
       } else ret (kDifBadArg, snapshot)
   | _ \<Rightarrow> ret (kDifBadArg, snapshot))"

definition dif_rv_timer_irq_acknowledge_state :: "'d bus \<Rightarrow> dif_handle ptr \<Rightarrow> u32 \<Rightarrow> u32 \<Rightarrow> ('d, dif_result) state" where
  "dif_rv_timer_irq_acknowledge_state B rv_timer hart_id snapshot = (case rv_timer of None \<Rightarrow> ret kDifBadArg | Some h \<Rightarrow>
     if hart_id = 0 then do {
       wr32 B h RV_TIMER_INTR_STATE0_REG_OFFSET snapshot;
       ret kDifOk
     } else ret kDifBadArg)"

definition dif_rv_timer_irq_is_pending :: "'d bus \<Rightarrow> dif_handle ptr \<Rightarrow> u32 \<Rightarrow> bool ptr \<Rightarrow> ('d, dif_result \<times> bool ptr) state" where
  "dif_rv_timer_irq_is_pending B rv_timer irq is_pending = (case (rv_timer, is_pending) of
     (Some h, Some _) \<Rightarrow>
       (case rv_timer_get_irq_bit_index irq of None \<Rightarrow> ret (kDifBadArg, is_pending) | Some index \<Rightarrow>
        (case rv_timer_get_irq_reg_offset kDifRvTimerIntrRegState irq of None \<Rightarrow> ret (kDifBadArg, is_pending) | Some reg_offset \<Rightarrow> do {
           intr_state \<leftarrow> rd32 B h reg_offset;
           ret (kDifOk, Some (bitfield_bit32_read intr_state index))
         }))
   | _ \<Rightarrow> ret (kDifBadArg, is_pending))"

definition dif_rv_timer_irq_acknowledge_all :: "'d bus \<Rightarrow> dif_handle ptr \<Rightarrow> u32 \<Rightarrow> ('d, dif_result) state" where
  "dif_rv_timer_irq_acknowledge_all B rv_timer hart_id = (case rv_timer of None \<Rightarrow> ret kDifBadArg | Some h \<Rightarrow>
     if hart_id = 0 then do {
       wr32 B h RV_TIMER_INTR_STATE0_REG_OFFSET 0xffffffff;
       ret kDifOk
     } else ret kDifBadArg)"

definition dif_rv_timer_irq_acknowledge :: "'d bus \<Rightarrow> dif_handle ptr \<Rightarrow> u32 \<Rightarrow> ('d, dif_result) state" where
  "dif_rv_timer_irq_acknowledge B rv_timer irq = (case rv_timer of None \<Rightarrow> ret kDifBadArg | Some h \<Rightarrow>
     (case rv_timer_get_irq_bit_index irq of None \<Rightarrow> ret kDifBadArg | Some index \<Rightarrow>
      (case rv_timer_get_irq_reg_offset kDifRvTimerIntrRegState irq of None \<Rightarrow> ret kDifBadArg | Some reg_offset \<Rightarrow> do {
         wr32 B h reg_offset (bitfield_bit32_write 0 index True);
         ret kDifOk
       })))"

definition dif_rv_timer_irq_force :: "'d bus \<Rightarrow> dif_handle ptr \<Rightarrow> u32 \<Rightarrow> bool \<Rightarrow> ('d, dif_result) state" where
  "dif_rv_timer_irq_force B rv_timer irq val = (case rv_timer of None \<Rightarrow> ret kDifBadArg | Some h \<Rightarrow>
     (case rv_timer_get_irq_bit_index irq of None \<Rightarrow> ret kDifBadArg | Some index \<Rightarrow>
      (case rv_timer_get_irq_reg_offset kDifRvTimerIntrRegTest irq of None \<Rightarrow> ret kDifBadArg | Some reg_offset \<Rightarrow> do {
         wr32 B h reg_offset (bitfield_bit32_write 0 index val);
         ret kDifOk
       })))"

definition dif_rv_timer_irq_get_enabled :: "'d bus \<Rightarrow> dif_handle ptr \<Rightarrow> u32 \<Rightarrow> dif_toggle ptr \<Rightarrow> ('d, dif_result \<times> dif_toggle ptr) state" where
  "dif_rv_timer_irq_get_enabled B rv_timer irq toggle = (case (rv_timer, toggle) of
     (Some h, Some _) \<Rightarrow>
       (case rv_timer_get_irq_bit_index irq of None \<Rightarrow> ret (kDifBadArg, toggle) | Some index \<Rightarrow>
        (case rv_timer_get_irq_reg_offset kDifRvTimerIntrRegEnable irq of None \<Rightarrow> ret (kDifBadArg, toggle) | Some reg_offset \<Rightarrow> do {
           intr_enable \<leftarrow> rd32 B h reg_offset;
           let is_enabled = bitfield_bit32_read intr_enable index;
           ret (kDifOk, Some (if is_enabled then kDifToggleEnabled else kDifToggleDisabled))
         }))
   | _ \<Rightarrow> ret (kDifBadArg, toggle))"

definition dif_rv_timer_irq_set_enabled :: "'d bus \<Rightarrow> dif_handle ptr \<Rightarrow> u32 \<Rightarrow> dif_toggle \<Rightarrow> ('d, dif_result) state" where
  "dif_rv_timer_irq_set_enabled B rv_timer irq toggle = (case rv_timer of None \<Rightarrow> ret kDifBadArg | Some h \<Rightarrow>
     (case rv_timer_get_irq_bit_index irq of None \<Rightarrow> ret kDifBadArg | Some index \<Rightarrow>
      (case rv_timer_get_irq_reg_offset kDifRvTimerIntrRegEnable irq of None \<Rightarrow> ret kDifBadArg | Some reg_offset \<Rightarrow> do {
         intr_enable \<leftarrow> rd32 B h reg_offset;
         let enable_bit = (toggle = kDifToggleEnabled);
         wr32 B h reg_offset (bitfield_bit32_write intr_enable index enable_bit);
         ret kDifOk
       })))"

definition dif_rv_timer_irq_disable_all :: "'d bus \<Rightarrow> dif_handle ptr \<Rightarrow> u32 \<Rightarrow> u32 ptr \<Rightarrow> ('d, dif_result \<times> u32 ptr) state" where
  "dif_rv_timer_irq_disable_all B rv_timer hart_id snapshot = (case rv_timer of None \<Rightarrow> ret (kDifBadArg, snapshot) | Some h \<Rightarrow>
     if hart_id = 0 then do {
       snapshot \<leftarrow> (case snapshot of None \<Rightarrow> ret None | Some _ \<Rightarrow> do {
           v \<leftarrow> rd32 B h RV_TIMER_INTR_ENABLE0_REG_OFFSET;
           ret (Some v)
         });
       wr32 B h RV_TIMER_INTR_ENABLE0_REG_OFFSET 0;
       ret (kDifOk, snapshot)
     } else ret (kDifBadArg, snapshot))"

definition dif_rv_timer_irq_restore_all :: "'d bus \<Rightarrow> dif_handle ptr \<Rightarrow> u32 \<Rightarrow> u32 ptr \<Rightarrow> ('d, dif_result) state" where
  "dif_rv_timer_irq_restore_all B rv_timer hart_id snapshot = (case (rv_timer, snapshot) of
     (Some h, Some v) \<Rightarrow>
       if hart_id = 0 then do {
         wr32 B h RV_TIMER_INTR_ENABLE0_REG_OFFSET v;
         ret kDifOk
       } else ret kDifBadArg
   | _ \<Rightarrow> ret kDifBadArg)"

subsection \<open>The interrupt block of a device\<close>

text \<open>
  The module \<^verbatim>\<open>prim_intr_hw\<close> that every device of the repository instantiates. An interrupt of type
  event is latched until software writes a one to its state bit; one of type status shows the
  signal of the device, or what was last written to the test register, and its state bit is
  read-only. \<open>S\<close> has the bits of the status interrupts.
\<close>

record intr_block =
  intr_latched :: u32
  intr_level :: u32
  intr_tested :: u32
  intr_enabled :: u32

definition intr_state :: "u32 \<Rightarrow> intr_block \<Rightarrow> u32" where
  "intr_state S d = (intr_latched d AND NOT S) OR ((intr_level d OR intr_tested d) AND S)"


text \<open>The interrupts whose bits a register value has.\<close>

definition irq_set :: "'a irq_device_scheme \<Rightarrow> u32 \<Rightarrow> u32 set" where
  "irq_set D w = {irq. \<exists>k. irq_bit_index D irq = Some k \<and> bit w (unat k)}"

lemma irq_set_mem: "irq \<in> irq_set D w \<longleftrightarrow> (case irq_bit_index D irq of None \<Rightarrow> False | Some k \<Rightarrow> bit w (unat k))"
  by (simp add: irq_set_def split: option.split)



definition is_event :: "'a irq_device_scheme \<Rightarrow> u32 \<Rightarrow> bool" where
  "is_event D irq \<longleftrightarrow> irq_type_table D ! unat irq = kDifIrqTypeEvent"

text \<open>The laws of a device: every interrupt has a bit of its own, within the register, and its type is that of the hardware.\<close>

locale irq_block =
  fixes D :: "'a irq_device_scheme" and S :: u32
  assumes index: "irq_bit_index D irq = Some k \<Longrightarrow> k < 32 \<and> unat irq < length (irq_type_table D)"
    and index_inj: "irq_bit_index D irq = Some k \<Longrightarrow> irq_bit_index D irq' = Some k \<Longrightarrow> irq = irq'"
    and type: "irq_bit_index D irq = Some k \<Longrightarrow> is_event D irq \<longleftrightarrow> \<not> bit S (unat k)"
    and few: "length (irq_type_table D) \<le> 32"
    and regs: "intr_state_reg D mod 4 = 0" "intr_test_reg D mod 4 = 0" "intr_state_reg D \<noteq> intr_test_reg D"
begin

lemma unat_index: "irq_bit_index D irq = Some k \<Longrightarrow> unat k < 32"
  using index by (simp add: word_less_nat_alt)

lemma same_bit: "irq_bit_index D irq = Some k \<Longrightarrow> irq_bit_index D irq' = Some k' \<Longrightarrow> unat k = unat k' \<longleftrightarrow> irq = irq'"
  using index_inj [of irq k irq'] by (auto simp: word_unat_eq_iff [symmetric])

lemma irq_set_bit32_write:
  assumes "irq_bit_index D irq = Some k"
  shows "irq_set D (bitfield_bit32_write w k b) = (if b then insert irq (irq_set D w) else irq_set D w - {irq})"
proof (rule set_eqI)
  fix i
  show "i \<in> irq_set D (bitfield_bit32_write w k b) \<longleftrightarrow> i \<in> (if b then insert irq (irq_set D w) else irq_set D w - {irq})"
  proof (cases "irq_bit_index D i")
    case None
    with assms show ?thesis by (auto simp: irq_set_mem)
  next
    case (Some j)
    with assms show ?thesis using same_bit [OF assms Some] unat_index [OF Some] unat_index [OF assms]
      by (cases "i = irq") (simp_all add: irq_set_mem bit_bit32_write)
  qed
qed

text \<open>The bit of an interrupt alone: the status and the event part of it.\<close>

lemma irq_set_one_bit:
  assumes "irq_bit_index D irq = Some k"
  shows "irq_set D (w AND NOT (bitfield_bit32_write 0 k True)) = irq_set D w - {irq}"
    and "irq_set D ((w OR bitfield_bit32_write 0 k v) AND NOT S)
      = irq_set D (w AND NOT S) \<union> (if v \<and> is_event D irq then {irq} else {})"
    and "irq_set D (bitfield_bit32_write 0 k v AND S) = (if v \<and> \<not> is_event D irq then {irq} else {})"
proof -
  have "i \<in> irq_set D (w AND NOT (bitfield_bit32_write 0 k True)) \<longleftrightarrow> i \<in> irq_set D w - {irq}"
    and "i \<in> irq_set D ((w OR bitfield_bit32_write 0 k v) AND NOT S)
      \<longleftrightarrow> i \<in> irq_set D (w AND NOT S) \<union> (if v \<and> is_event D irq then {irq} else {})"
    and "i \<in> irq_set D (bitfield_bit32_write 0 k v AND S) \<longleftrightarrow> i \<in> (if v \<and> \<not> is_event D irq then {irq} else {})" for i
  proof -
    consider "irq_bit_index D i = None" "i \<noteq> irq" | j where "irq_bit_index D i = Some j" "i \<noteq> irq" "unat j \<noteq> unat k" "unat j < 32" | "i = irq"
      using assms same_bit [OF assms, of i] unat_index [of i] by (cases "irq_bit_index D i") auto
    then have "(i \<in> irq_set D (w AND NOT (bitfield_bit32_write 0 k True)) \<longleftrightarrow> i \<in> irq_set D w - {irq})
      \<and> (i \<in> irq_set D ((w OR bitfield_bit32_write 0 k v) AND NOT S)
          \<longleftrightarrow> i \<in> irq_set D (w AND NOT S) \<union> (if v \<and> is_event D irq then {irq} else {}))
      \<and> (i \<in> irq_set D (bitfield_bit32_write 0 k v AND S) \<longleftrightarrow> i \<in> (if v \<and> \<not> is_event D irq then {irq} else {}))"
    proof cases
      case 1
      then show ?thesis by (simp add: irq_set_mem)
    next
      case (2 j)
      then show ?thesis by (simp add: irq_set_mem bit_bit32_write [OF unat_index [OF assms]] bit_and_iff bit_or_iff bit_not_iff)
    next
      case 3
      then show ?thesis using assms unat_index [OF assms] type [OF assms]
        by (simp add: irq_set_mem bit_bit32_write [OF unat_index [OF assms]] bit_and_iff bit_or_iff bit_not_iff)
    qed
    then show "i \<in> irq_set D (w AND NOT (bitfield_bit32_write 0 k True)) \<longleftrightarrow> i \<in> irq_set D w - {irq}"
      and "i \<in> irq_set D ((w OR bitfield_bit32_write 0 k v) AND NOT S)
        \<longleftrightarrow> i \<in> irq_set D (w AND NOT S) \<union> (if v \<and> is_event D irq then {irq} else {})"
      and "i \<in> irq_set D (bitfield_bit32_write 0 k v AND S) \<longleftrightarrow> i \<in> (if v \<and> \<not> is_event D irq then {irq} else {})"
      by blast+
  qed
  then show "irq_set D (w AND NOT (bitfield_bit32_write 0 k True)) = irq_set D w - {irq}"
    and "irq_set D ((w OR bitfield_bit32_write 0 k v) AND NOT S)
      = irq_set D (w AND NOT S) \<union> (if v \<and> is_event D irq then {irq} else {})"
    and "irq_set D (bitfield_bit32_write 0 k v AND S) = (if v \<and> \<not> is_event D irq then {irq} else {})"
    by blast+
qed

lemma type_of_irq:
  assumes "irq_bit_index D irq = Some k"
  shows "irq_get_type D (Some h) irq (Some z)
    = Some (kDifOk, Some (if irq \<in> irq_set D S then kDifIrqTypeStatus else kDifIrqTypeEvent))"
proof -
  have l: "unat irq < length (irq_type_table D)" using index [OF assms] by blast
  have "unat (of_nat (length (irq_type_table D)) :: u32) = length (irq_type_table D)"
    using few by (simp add: unat_of_nat)
  with l have "irq \<noteq> of_nat (length (irq_type_table D))" by auto
  moreover have "irq_type_table D ! unat irq = (if irq \<in> irq_set D S then kDifIrqTypeStatus else kDifIrqTypeEvent)"
    using type [OF assms] assms by (cases "irq_type_table D ! unat irq") (auto simp: irq_set_mem is_event_def)
  ultimately show ?thesis using l by (simp add: irq_get_type_def)
qed

lemma irq_set_clear: "irq_set D (w AND NOT v) = irq_set D w - irq_set D v"
  using unat_index by (auto simp: irq_set_def bit_and_iff bit_not_iff) 

end

subsection \<open>What the operations do\<close>







subsection \<open>The devices\<close>

text \<open>For the only hart it has, the functions of the RISC-V timer are those of the template.\<close>

definition rv_timer_irqs :: irq_enable_device where
  "rv_timer_irqs = \<lparr>irq_bit_index = rv_timer_get_irq_bit_index, irq_type_table = rv_timer_irq_types,
     intr_state_reg = RV_TIMER_INTR_STATE0_REG_OFFSET, intr_test_reg = RV_TIMER_INTR_TEST0_REG_OFFSET,
     intr_enable_reg = RV_TIMER_INTR_ENABLE0_REG_OFFSET\<rparr>"

lemma rv_timer_template:
  "dif_rv_timer_irq_get_type = irq_get_type rv_timer_irqs"
  "dif_rv_timer_irq_get_state B h 0 = irq_get_state rv_timer_irqs B h"
  "dif_rv_timer_irq_acknowledge_state B h 0 = irq_acknowledge_state rv_timer_irqs B h"
  "dif_rv_timer_irq_is_pending B = irq_is_pending rv_timer_irqs B"
  "dif_rv_timer_irq_acknowledge_all B h 0 = irq_acknowledge_all rv_timer_irqs B h"
  "dif_rv_timer_irq_acknowledge B = irq_acknowledge rv_timer_irqs B"
  "dif_rv_timer_irq_force B = irq_force rv_timer_irqs B"
  "dif_rv_timer_irq_get_enabled B = irq_get_enabled rv_timer_irqs B"
  "dif_rv_timer_irq_set_enabled B = irq_set_enabled rv_timer_irqs B"
  "dif_rv_timer_irq_disable_all B h 0 = irq_disable_all rv_timer_irqs B h"
  "dif_rv_timer_irq_restore_all B h 0 = irq_restore_all rv_timer_irqs B h"
  by ((intro ext)?; simp add: rv_timer_irqs_def dif_rv_timer_irq_get_type_def irq_get_type_def rv_timer_irq_types_def
      dif_rv_timer_irq_get_state_def irq_get_state_def dif_rv_timer_irq_acknowledge_state_def irq_acknowledge_state_def
      dif_rv_timer_irq_is_pending_def irq_is_pending_def dif_rv_timer_irq_acknowledge_all_def irq_acknowledge_all_def
      dif_rv_timer_irq_acknowledge_def irq_acknowledge_def dif_rv_timer_irq_force_def irq_force_def
      dif_rv_timer_irq_get_enabled_def irq_get_enabled_def dif_rv_timer_irq_set_enabled_def irq_set_enabled_def
      dif_rv_timer_irq_disable_all_def irq_disable_all_def dif_rv_timer_irq_restore_all_def irq_restore_all_def
      rv_timer_get_irq_reg_offset_def rv_timer_get_irq_bit_index_def split: option.split)+

























text \<open>The laws of a table can be checked entry by entry.\<close>

lemma irq_block_table:
  assumes "irq_bit_index D = f" "\<And>irq. f irq = map_of xs irq" "distinct (map snd xs)"
    "\<forall>(irq, k) \<in> set xs. k < 32 \<and> unat irq < length (irq_type_table D) \<and> (is_event D irq \<longleftrightarrow> \<not> bit S (unat k))"
    "length (irq_type_table D) \<le> 32" "intr_state_reg D mod 4 = 0" "intr_test_reg D mod 4 = 0" "intr_state_reg D \<noteq> intr_test_reg D"
  shows "irq_block D S"
proof
  fix irq k irq'
  assume "irq_bit_index D irq = Some k"
  then have k: "(irq, k) \<in> set xs" using assms(1,2) by (simp add: map_of_SomeD)
  then show "k < 32 \<and> unat irq < length (irq_type_table D)" "is_event D irq \<longleftrightarrow> \<not> bit S (unat k)" using assms(4) by auto
  assume "irq_bit_index D irq' = Some k"
  then have "(irq', k) \<in> set xs" using assms(1,2) by (simp add: map_of_SomeD)
  with k assms(3) show "irq = irq'" by (metis (mono_tags, lifting) distinct_map inj_onD snd_conv fst_conv)
qed (use assms in auto)








interpretation aon_timer_irq: irq_block aon_timer_irqs 0
  by (rule irq_block_table [OF _ aon_timer_get_irq_bit_index_def])
    (simp_all add: aon_timer_irqs_def aon_timer_irq_types_def is_event_def)

subsection \<open>Driver and hardware\<close>




















end
