(* ===== verification/TestFramework.thy ===== *)
theory TestFramework
  imports DifBase Status
begin

section \<open>Checks and early returns of the test libraries\<close>

text \<open>
  The macros in which the test libraries write their error handling: \<^verbatim>\<open>TRY\<close> and \<^verbatim>\<open>INTO_STATUS\<close> of
  \<^verbatim>\<open>base/status.h\<close>, \<^verbatim>\<open>CHECK\<close>, \<^verbatim>\<open>CHECK_DIF_OK\<close> and \<^verbatim>\<open>UNWRAP\<close> of \<^verbatim>\<open>testing/test_framework/check.h\<close>. \<^verbatim>\<open>TRY\<close> returns
  from the function that contains it, and a failed \<^verbatim>\<open>CHECK\<close> ends the test (\<^verbatim>\<open>test_status_set\<close> does not
  return), so a function of these libraries is a program over the state of the test that either
  gives a value, or is left early, or never returns (\<open>None\<close>). A function that returns
  \<^verbatim>\<open>OK_STATUS(v)\<close> gives \<open>v\<close>. The log messages and the report hook of \<^verbatim>\<open>TRY\<close> are left out.

  \<open>Undefined\<close> is an access outside of an array, on which C puts no bounds.
\<close>

datatype failure = Returned status | Aborted | Undefined

type_synonym ('s, 'a) prog = "'s \<Rightarrow> ((failure + 'a) \<times> 's) option"

definition pure :: "'a \<Rightarrow> ('s, 'a) prog" where
  "pure a s = Some (Inr a, s)"

definition leave :: "failure \<Rightarrow> ('s, 'a) prog" where
  "leave e s = Some (Inl e, s)"

definition andThen :: "('s, 'a) prog \<Rightarrow> ('a \<Rightarrow> ('s, 'b) prog) \<Rightarrow> ('s, 'b) prog" where
  "andThen m f s = (case m s of
     None \<Rightarrow> None
   | Some (Inl e, s) \<Rightarrow> Some (Inl e, s)
   | Some (Inr a, s) \<Rightarrow> f a s)"

definition look :: "('s \<Rightarrow> 'a) \<Rightarrow> ('s, 'a) prog" where
  "look f s = Some (Inr (f s), s)"

definition change :: "('s \<Rightarrow> 's) \<Rightarrow> ('s, unit) prog" where
  "change f s = Some (Inr (), f s)"

definition unless :: "bool \<Rightarrow> ('s, unit) prog \<Rightarrow> ('s, unit) prog" where
  "unless c m = (if c then pure () else m)"

text \<open>A C array is a list; an index out of its range is undefined.\<close>

definition at_index :: "'a list \<Rightarrow> nat \<Rightarrow> ('s, 'a) prog" where
  "at_index xs i = (if i < length xs then pure (xs ! i) else leave Undefined)"

text \<open>A counting loop.\<close>

primrec for_each :: "'a list \<Rightarrow> ('a \<Rightarrow> ('s, unit) prog) \<Rightarrow> ('s, unit) prog" where
  "for_each [] f = pure ()"
| "for_each (x # xs) f = andThen (f x) (\<lambda>_. for_each xs f)"

subsection \<open>The macros\<close>

primrec dif_result_code :: "dif_result \<Rightarrow> absl_status" where
  "dif_result_code kDifOk = kOk"
| "dif_result_code kDifError = kInternal"
| "dif_result_code kDifBadArg = kInvalidArgument"
| "dif_result_code kDifLocked = kFailedPrecondition"
| "dif_result_code kDifUnavailable = kUnavailable"
| "dif_result_code kDifIpFifoFull = kResourceExhausted"
| "dif_result_code kDifOutOfRange = kOutOfRange"
| "dif_result_code kDifUnaligned = kUnimplemented"

text \<open>Where a macro is used: \<^verbatim>\<open>MODULE_ID\<close>, \<^verbatim>\<open>__FILE__\<close> and \<^verbatim>\<open>__LINE__\<close>.\<close>

record code_location =
  loc_module :: u32
  loc_file :: cstring
  loc_line :: u32

definition DIF_RESULT_INTO_STATUS :: "code_location \<Rightarrow> dif_result \<Rightarrow> status" where
  "DIF_RESULT_INTO_STATUS l r =
     (let code = dif_result_code r in
      status_create (absl_code code) (loc_module l) (loc_file l) (if code = kOk then 0 else loc_line l))"

definition TRY_STATUS :: "status \<Rightarrow> ('s, u32) prog" where
  "TRY_STATUS st = (if sint st < 0 then leave (Returned st) else pure st)"

text \<open>\<^verbatim>\<open>TRY\<close> of a driver call, whose value no caller uses.\<close>

definition TRY_DIF :: "code_location \<Rightarrow> dif_result \<Rightarrow> ('s, unit) prog" where
  "TRY_DIF l r = andThen (TRY_STATUS (DIF_RESULT_INTO_STATUS l r)) (\<lambda>_. pure ())"

definition CHECK :: "bool \<Rightarrow> ('s, unit) prog" where
  "CHECK c = (if c then pure () else leave Aborted)"

definition CHECK_IMPL :: "code_location \<Rightarrow> bool \<Rightarrow> status" where
  "CHECK_IMPL l c = status_create (absl_code (if c then kOk else kInternal)) (loc_module l) (loc_file l)
     (if c then 0 else loc_line l)"

definition TRY_CHECK :: "code_location \<Rightarrow> bool \<Rightarrow> ('s, unit) prog" where
  "TRY_CHECK l c = andThen (TRY_STATUS (CHECK_IMPL l c)) (\<lambda>_. pure ())"

text \<open>\<^verbatim>\<open>return INVALID_ARGUMENT();\<close> and the like.\<close>

definition return_error :: "code_location \<Rightarrow> absl_status \<Rightarrow> ('s, 'a) prog" where
  "return_error l code = leave (Returned (status_create (absl_code code) (loc_module l) (loc_file l) (loc_line l)))"

definition CHECK_DIF_OK :: "dif_result \<Rightarrow> ('s, unit) prog" where
  "CHECK_DIF_OK r = (if r \<noteq> kDifOk then leave Aborted else pure ())"

text \<open>\<^verbatim>\<open>UNWRAP\<close> of a call: an error that the call returned ends the test.\<close>

definition UNWRAP :: "('s, 'a) prog \<Rightarrow> ('s, 'a) prog" where
  "UNWRAP m s = (case m s of
     Some (Inl (Returned st), s) \<Rightarrow> Some (Inl Aborted, s)
   | r \<Rightarrow> r)"

subsection \<open>Running programs\<close>

named_theorems prog_simps

lemma pure_run [prog_simps]: "pure a s = Some (Inr a, s)"
  by (simp add: pure_def)

lemma leave_run [prog_simps]: "leave e s = Some (Inl e, s)"
  by (simp add: leave_def)

lemma look_run [prog_simps]: "look f s = Some (Inr (f s), s)"
  by (simp add: look_def)

lemma change_run [prog_simps]: "change f s = Some (Inr (), f s)"
  by (simp add: change_def)

lemma at_index_run [prog_simps]: "i < length xs \<Longrightarrow> at_index xs i s = Some (Inr (xs ! i), s)"
  by (simp add: at_index_def pure_run)

lemma andThen_value: "m s = Some (Inr a, s') \<Longrightarrow> andThen m f s = f a s'"
  by (simp add: andThen_def)

lemma andThen_pure [simp]: "andThen (pure a) f = f a"
  by (simp add: andThen_def pure_run fun_eq_iff)

lemma andThen_leave [simp]: "andThen (leave e) f = leave e"
  by (simp add: andThen_def leave_run fun_eq_iff)

lemma andThen_look [prog_simps]: "andThen (look g) f s = f (g s) s"
  by (simp add: andThen_def look_run)

lemma andThen_change [prog_simps]: "andThen (change g) f s = f () (g s)"
  by (simp add: andThen_def change_run)

lemma andThen_assoc: "andThen (andThen m f) g = andThen m (\<lambda>x. andThen (f x) g)"
  by (auto simp: andThen_def fun_eq_iff split: option.splits sum.splits)

lemma unless_simps [simp]: "unless True m = pure ()" "unless False m = m"
  by (simp_all add: unless_def)

lemma CHECK_simps [simp]: "CHECK True = pure ()" "CHECK False = leave Aborted"
  by (simp_all add: CHECK_def)

lemma TRY_CHECK_simps [simp]: "TRY_CHECK l True = pure ()"
  by (simp add: TRY_CHECK_def TRY_STATUS_def CHECK_IMPL_def status_create_def)

lemma CHECK_DIF_OK_simps [simp]: "CHECK_DIF_OK kDifOk = pure ()" "r \<noteq> kDifOk \<Longrightarrow> CHECK_DIF_OK r = leave Aborted"
  by (simp_all add: CHECK_DIF_OK_def)

text \<open>A successful driver call goes on, a failed one returns an error status: the location, which a
  test library always has, never makes it a success.\<close>

lemma TRY_DIF_ok [simp]: "TRY_DIF l kDifOk = pure ()"
  by (simp add: TRY_DIF_def TRY_STATUS_def DIF_RESULT_INTO_STATUS_def status_create_def)

lemma TRY_DIF_error:
  assumes "r \<noteq> kDifOk"
  shows "TRY_DIF l r = leave (Returned (DIF_RESULT_INTO_STATUS l r))"
proof -
  have "absl_code (dif_result_code r) \<noteq> 0" using assms by (cases r) simp_all
  then obtain m a where "DIF_RESULT_INTO_STATUS l r = status_word (absl_code (dif_result_code r)) m a"
    unfolding DIF_RESULT_INTO_STATUS_def Let_def
    using status_create_file [of "absl_code (dif_result_code r)"] by (metis absl_code.simps(1))
  then show ?thesis by (simp add: TRY_DIF_def TRY_STATUS_def status_word_negative)
qed

text \<open>Sequencing respects the order of the library's recursive programs.\<close>

lemma andThen_mono [partial_function_mono]:
  assumes "mono_option (\<lambda>F. m F s)" "\<And>a s'. mono_option (\<lambda>F. f F a s')"
  shows "mono_option (\<lambda>F. andThen (m F) (f F) s)"
proof -
  have "andThen (m F) (f F) s = Option.bind (m F s)
      (\<lambda>(r, s'). case r of Inl e \<Rightarrow> Some (Inl e, s') | Inr a \<Rightarrow> f F a s')" for F
    by (auto simp: andThen_def split: option.splits sum.splits)
  moreover have "mono_option (\<lambda>F. Option.bind (m F s)
      (\<lambda>(r, s'). case r of Inl e \<Rightarrow> Some (Inl e, s') | Inr a \<Rightarrow> f F a s'))"
  proof (rule bind_mono [OF assms(1)], clarify)
    fix r s'
    show "mono_option (\<lambda>F. case r of Inl e \<Rightarrow> Some (Inl e, s') | Inr a \<Rightarrow> f F a s')"
      by (cases r) (simp_all add: option.const_mono assms(2))
  qed
  ultimately show ?thesis by simp
qed

end
