(* ===== verification/Usbdev.thy ===== *)
theory Usbdev
  imports DifBase
begin

section \<open>USB device driver\<close>

text \<open>
  \<^verbatim>\<open>sw/device/lib/dif/dif_usbdev.c\<close>. The driver owns a pool of free packet buffers (a stack of
  buffer numbers) and, per buffer handed out, a small record of its state. The two halves of
  this theory are the pool with the operations that move buffers between the pool, the caller
  and the hardware, and the register operations. The packet memory is behind the bus.
\<close>

type_synonym dif_usbdev = dif_handle

definition USBDEV_NUM_ENDPOINTS :: nat where "USBDEV_NUM_ENDPOINTS = 12"

definition USBDEV_MAX_PACKET_SIZE :: nat where "USBDEV_MAX_PACKET_SIZE = 64"

definition USBDEV_NUM_BUFFERS :: nat where "USBDEV_NUM_BUFFERS = 32"

definition USBDEV_ENDPOINT_DIR_IN :: "1 word" where "USBDEV_ENDPOINT_DIR_IN = 1"

definition USBDEV_ENDPOINT_DIR_OUT :: "1 word" where "USBDEV_ENDPOINT_DIR_OUT = 0"

definition USBDEV_BUFFER_ENTRY_SIZE_BYTES :: nat where
  "USBDEV_BUFFER_ENTRY_SIZE_BYTES = USBDEV_MAX_PACKET_SIZE"

record dif_usbdev_endpoint_id =
  ep_number :: "4 word"
  ep_direction :: "1 word"

text \<open>\<open>pool_top\<close> is an \<open>int8_t\<close>: \<open>- 1\<close> is the word 0xff.\<close>

record dif_usbdev_buffer_pool =
  buffers :: "u8 list"
  pool_top :: u8

datatype dif_usbdev_buffer_type =
    kDifUsbdevBufferTypeRead | kDifUsbdevBufferTypeWrite | kDifUsbdevBufferTypeStale
  | kDifUsbdevBufferTypeOther u32

record dif_usbdev_buffer =
  buf_id :: u8
  buf_offset :: u8
  remaining_bytes :: u8
  buf_type :: dif_usbdev_buffer_type

record dif_usbdev_config =
  have_differential_receiver :: dif_toggle
  use_tx_d_se0 :: dif_toggle
  single_bit_eop :: dif_toggle
  pin_flip :: dif_toggle
  clock_sync_signals :: dif_toggle

record dif_usbdev_rx_packet_info =
  rx_endpoint :: u8
  rx_length :: u8
  rx_is_setup :: bool

definition BUFFER_POOL_FULL :: u8 where
  "BUFFER_POOL_FULL = of_nat (USBDEV_NUM_BUFFERS - 1)"

definition BUFFER_POOL_EMPTY :: u8 where
  "BUFFER_POOL_EMPTY = - 1"

record endpoint_hw_info =
  config_in_reg_offset :: u32
  bit_index :: u8

definition kEndpointHwInfos :: "endpoint_hw_info list" where
  "kEndpointHwInfos = [
     \<lparr>config_in_reg_offset = USBDEV_CONFIGIN_0_REG_OFFSET, bit_index = 0\<rparr>,
     \<lparr>config_in_reg_offset = USBDEV_CONFIGIN_1_REG_OFFSET, bit_index = 1\<rparr>,
     \<lparr>config_in_reg_offset = USBDEV_CONFIGIN_2_REG_OFFSET, bit_index = 2\<rparr>,
     \<lparr>config_in_reg_offset = USBDEV_CONFIGIN_3_REG_OFFSET, bit_index = 3\<rparr>,
     \<lparr>config_in_reg_offset = USBDEV_CONFIGIN_4_REG_OFFSET, bit_index = 4\<rparr>,
     \<lparr>config_in_reg_offset = USBDEV_CONFIGIN_5_REG_OFFSET, bit_index = 5\<rparr>,
     \<lparr>config_in_reg_offset = USBDEV_CONFIGIN_6_REG_OFFSET, bit_index = 6\<rparr>,
     \<lparr>config_in_reg_offset = USBDEV_CONFIGIN_7_REG_OFFSET, bit_index = 7\<rparr>,
     \<lparr>config_in_reg_offset = USBDEV_CONFIGIN_8_REG_OFFSET, bit_index = 8\<rparr>,
     \<lparr>config_in_reg_offset = USBDEV_CONFIGIN_9_REG_OFFSET, bit_index = 9\<rparr>,
     \<lparr>config_in_reg_offset = USBDEV_CONFIGIN_10_REG_OFFSET, bit_index = 10\<rparr>,
     \<lparr>config_in_reg_offset = USBDEV_CONFIGIN_11_REG_OFFSET, bit_index = 11\<rparr>]"

subsection \<open>The pool of free buffers\<close>

definition buffer_pool_is_full :: "dif_usbdev_buffer_pool \<Rightarrow> bool" where
  "buffer_pool_is_full pool \<longleftrightarrow> pool_top pool = BUFFER_POOL_FULL"

definition buffer_pool_is_empty :: "dif_usbdev_buffer_pool \<Rightarrow> bool" where
  "buffer_pool_is_empty pool \<longleftrightarrow> pool_top pool = BUFFER_POOL_EMPTY"

definition buffer_pool_is_valid_buffer_id :: "u8 \<Rightarrow> bool" where
  "buffer_pool_is_valid_buffer_id buffer_id \<longleftrightarrow> unat buffer_id < USBDEV_NUM_BUFFERS"

definition buffer_pool_add :: "dif_usbdev_buffer_pool \<Rightarrow> u8 \<Rightarrow> bool \<times> dif_usbdev_buffer_pool" where
  "buffer_pool_add pool buffer_id =
     (if buffer_pool_is_full pool \<or> \<not> buffer_pool_is_valid_buffer_id buffer_id then (False, pool)
      else let pool = pool\<lparr>pool_top := pool_top pool + 1\<rparr>;
               pool = pool\<lparr>buffers := (buffers pool)[unat (pool_top pool) := buffer_id]\<rparr>
           in (True, pool))"

definition buffer_pool_remove :: "dif_usbdev_buffer_pool \<Rightarrow> u8 ptr
    \<Rightarrow> bool \<times> dif_usbdev_buffer_pool \<times> u8 ptr" where
  "buffer_pool_remove pool buffer_id =
     (if buffer_pool_is_empty pool \<or> buffer_id = null then (False, pool, buffer_id)
      else let buffer_id = Some (buffers pool ! unat (pool_top pool));
               pool = pool\<lparr>pool_top := pool_top pool - 1\<rparr>
           in (True, pool, buffer_id))"

function buffer_pool_init_loop :: "nat \<Rightarrow> dif_usbdev_buffer_pool \<Rightarrow> bool \<times> dif_usbdev_buffer_pool" where
  "buffer_pool_init_loop i pool =
     (if i < USBDEV_NUM_BUFFERS then
        case buffer_pool_add pool (of_nat i) of (ok, pool) \<Rightarrow>
          if \<not> ok then (False, pool) else buffer_pool_init_loop (i + 1) pool
      else (True, pool))"
  by pat_completeness auto
termination
  by (relation "measure (\<lambda>(i, _). USBDEV_NUM_BUFFERS - i)") auto

declare buffer_pool_init_loop.simps [simp del]

definition buffer_pool_init :: "dif_usbdev_buffer_pool \<Rightarrow> bool \<times> dif_usbdev_buffer_pool" where
  "buffer_pool_init pool = buffer_pool_init_loop 0 (pool\<lparr>pool_top := - 1\<rparr>)"

subsection \<open>Utilities\<close>

definition is_valid_endpoint :: "u8 \<Rightarrow> bool" where
  "is_valid_endpoint endpoint_number \<longleftrightarrow> unat endpoint_number < USBDEV_NUM_ENDPOINTS"

definition endpoint_functionality_enable ::
    "'d bus \<Rightarrow> dif_usbdev ptr \<Rightarrow> u32 \<Rightarrow> u8 \<Rightarrow> dif_toggle \<Rightarrow> ('d, dif_result) state" where
  "endpoint_functionality_enable B usbdev reg_offset endpoint new_state =
     (case usbdev of None \<Rightarrow> ret kDifBadArg | Some usbdev \<Rightarrow>
        if \<not> is_valid_endpoint endpoint \<or> \<not> dif_is_valid_toggle new_state then ret kDifBadArg
        else do {
          reg_val \<leftarrow> rd32 B usbdev reg_offset;
          let reg_val = bitfield_bit32_write reg_val
            (ucast (bit_index (kEndpointHwInfos ! unat endpoint))) (dif_toggle_to_bool new_state);
          wr32 B usbdev reg_offset reg_val;
          ret kDifOk
        })"

definition get_buffer_addr :: "u8 \<Rightarrow> u32 \<Rightarrow> u32" where
  "get_buffer_addr buffer_id offset =
     USBDEV_BUFFER_REG_OFFSET + (ucast buffer_id * of_nat USBDEV_BUFFER_ENTRY_SIZE_BYTES) + offset"

subsection \<open>Buffers\<close>

definition dif_usbdev_configure :: "'d bus \<Rightarrow> dif_usbdev ptr \<Rightarrow> dif_usbdev_buffer_pool ptr
    \<Rightarrow> dif_usbdev_config \<Rightarrow> ('d, dif_result \<times> dif_usbdev_buffer_pool ptr) state" where
  "dif_usbdev_configure B usbdev buffer_pool config = (case (usbdev, buffer_pool) of
     (Some usbdev, Some pool) \<Rightarrow>
       (case buffer_pool_init pool of (ok, pool) \<Rightarrow>
         if \<not> ok then ret (kDifError, Some pool)
         else if \<not> dif_is_valid_toggle (have_differential_receiver config)
           \<or> \<not> dif_is_valid_toggle (use_tx_d_se0 config)
           \<or> \<not> dif_is_valid_toggle (single_bit_eop config)
           \<or> \<not> dif_is_valid_toggle (pin_flip config)
           \<or> \<not> dif_is_valid_toggle (clock_sync_signals config)
         then ret (kDifBadArg, Some pool)
         else do {
           let v = 0;
           let v = bitfield_bit32_write v USBDEV_PHY_CONFIG_USE_DIFF_RCVR_BIT
             (dif_toggle_to_bool (have_differential_receiver config));
           let v = bitfield_bit32_write v USBDEV_PHY_CONFIG_TX_USE_D_SE0_BIT
             (dif_toggle_to_bool (use_tx_d_se0 config));
           let v = bitfield_bit32_write v USBDEV_PHY_CONFIG_EOP_SINGLE_BIT_BIT
             (dif_toggle_to_bool (single_bit_eop config));
           let v = bitfield_bit32_write v USBDEV_PHY_CONFIG_PINFLIP_BIT
             (dif_toggle_to_bool (pin_flip config));
           let v = bitfield_bit32_write v USBDEV_PHY_CONFIG_USB_REF_DISABLE_BIT
             (\<not> dif_toggle_to_bool (clock_sync_signals config));
           wr32 B usbdev USBDEV_PHY_CONFIG_REG_OFFSET v;
           ret (kDifOk, Some pool)
         })
   | _ \<Rightarrow> ret (kDifBadArg, buffer_pool))"

text \<open>The loop of \<open>dif_usbdev_fill_available_fifos\<close>; each turn takes a buffer from the pool, so
  it ends.\<close>

function usbdev_fill_loop :: "'d bus \<Rightarrow> dif_usbdev \<Rightarrow> dif_usbdev_buffer_pool
    \<Rightarrow> ('d, dif_result \<times> dif_usbdev_buffer_pool) state" where
  "usbdev_fill_loop B usbdev pool =
     (if buffer_pool_is_empty pool then ret (kDifOk, pool)
      else do {
        status \<leftarrow> rd32 B usbdev USBDEV_USBSTAT_REG_OFFSET;
        let av_setup_depth = bitfield_field32_read status USBDEV_USBSTAT_AV_SETUP_DEPTH_FIELD;
        if av_setup_depth \<ge> 2 \<and> bitfield_bit32_read status USBDEV_USBSTAT_AV_OUT_FULL_BIT
        then ret (kDifOk, pool)
        else case buffer_pool_remove pool (Some 0) of
          (True, pool', Some buffer_id) \<Rightarrow> do {
            (if av_setup_depth \<ge> 2
             then wr32 B usbdev USBDEV_AVOUTBUFFER_REG_OFFSET
               (bitfield_field32_write 0 USBDEV_AVOUTBUFFER_BUFFER_FIELD (ucast buffer_id))
             else wr32 B usbdev USBDEV_AVSETUPBUFFER_REG_OFFSET
               (bitfield_field32_write 0 USBDEV_AVSETUPBUFFER_BUFFER_FIELD (ucast buffer_id)));
            usbdev_fill_loop B usbdev pool'
          }
        | (_, pool', _) \<Rightarrow> ret (kDifError, pool')
      })"
  by pat_completeness auto
termination
proof (relation "measure (\<lambda>(_, _, pool). unat (pool_top pool + 1))", goal_cases)
  case (2 B usbdev pool status depth ok t pool')
  from 2(1,5,6,7) 2(4) have "pool_top pool' = pool_top pool - 1" "pool_top pool + 1 \<noteq> 0"
    by (auto simp: buffer_pool_remove_def Let_def buffer_pool_is_empty_def BUFFER_POOL_EMPTY_def
        add_eq_0_iff2 split: if_splits)
  then show ?case using unatSuc [of "pool_top pool"] by (simp add: add.commute)
qed simp

declare usbdev_fill_loop.simps [simp del]

definition dif_usbdev_fill_available_fifos :: "'d bus \<Rightarrow> dif_usbdev ptr \<Rightarrow> dif_usbdev_buffer_pool ptr
    \<Rightarrow> ('d, dif_result \<times> dif_usbdev_buffer_pool ptr) state" where
  "dif_usbdev_fill_available_fifos B usbdev buffer_pool = (case (usbdev, buffer_pool) of
     (Some usbdev, Some pool) \<Rightarrow> do {
       (r, pool) \<leftarrow> usbdev_fill_loop B usbdev pool;
       ret (r, Some pool)
     }
   | _ \<Rightarrow> ret (kDifBadArg, buffer_pool))"

definition dif_usbdev_recv :: "'d bus \<Rightarrow> dif_usbdev ptr \<Rightarrow> dif_usbdev_rx_packet_info ptr
    \<Rightarrow> dif_usbdev_buffer ptr
    \<Rightarrow> ('d, dif_result \<times> dif_usbdev_rx_packet_info ptr \<times> dif_usbdev_buffer ptr) state" where
  "dif_usbdev_recv B usbdev info buffer = (case (usbdev, info, buffer) of
     (Some usbdev, Some _, Some _) \<Rightarrow> do {
       fifo_status \<leftarrow> rd32 B usbdev USBDEV_USBSTAT_REG_OFFSET;
       if bitfield_bit32_read fifo_status USBDEV_USBSTAT_RX_EMPTY_BIT
       then ret (kDifUnavailable, info, buffer)
       else do {
         fifo_entry \<leftarrow> rd32 B usbdev USBDEV_RXFIFO_REG_OFFSET;
         let info = \<lparr>
           rx_endpoint = ucast (bitfield_field32_read fifo_entry USBDEV_RXFIFO_EP_FIELD),
           rx_length = ucast (bitfield_field32_read fifo_entry USBDEV_RXFIFO_SIZE_FIELD),
           rx_is_setup = bitfield_bit32_read fifo_entry USBDEV_RXFIFO_SETUP_BIT\<rparr>;
         let buffer = \<lparr>
           buf_id = ucast (bitfield_field32_read fifo_entry USBDEV_RXFIFO_BUFFER_FIELD),
           buf_offset = 0,
           remaining_bytes = rx_length info,
           buf_type = kDifUsbdevBufferTypeRead\<rparr>;
         ret (kDifOk, Some info, Some buffer)
       }
     }
   | _ \<Rightarrow> ret (kDifBadArg, info, buffer))"

definition dif_usbdev_buffer_request :: "dif_usbdev ptr \<Rightarrow> dif_usbdev_buffer_pool ptr
    \<Rightarrow> dif_usbdev_buffer ptr \<Rightarrow> dif_result \<times> dif_usbdev_buffer_pool ptr \<times> dif_usbdev_buffer ptr" where
  "dif_usbdev_buffer_request usbdev buffer_pool buffer = (case (usbdev, buffer_pool, buffer) of
     (Some _, Some pool, Some _) \<Rightarrow>
       if buffer_pool_is_empty pool then (kDifUnavailable, buffer_pool, buffer)
       else (case buffer_pool_remove pool (Some 0) of
         (True, pool, Some buffer_id) \<Rightarrow>
           (kDifOk, Some pool, Some \<lparr>
             buf_id = buffer_id,
             buf_offset = 0,
             remaining_bytes = of_nat USBDEV_BUFFER_ENTRY_SIZE_BYTES,
             buf_type = kDifUsbdevBufferTypeWrite\<rparr>)
       | (_, pool, _) \<Rightarrow> (kDifError, Some pool, buffer))
   | _ \<Rightarrow> (kDifBadArg, buffer_pool, buffer))"

definition dif_usbdev_buffer_return :: "dif_usbdev ptr \<Rightarrow> dif_usbdev_buffer_pool ptr
    \<Rightarrow> dif_usbdev_buffer ptr \<Rightarrow> dif_result \<times> dif_usbdev_buffer_pool ptr \<times> dif_usbdev_buffer ptr" where
  "dif_usbdev_buffer_return usbdev buffer_pool buffer = (case (usbdev, buffer_pool, buffer) of
     (Some _, Some pool, Some buf) \<Rightarrow>
       if buf_type buf = kDifUsbdevBufferTypeRead \<or> buf_type buf = kDifUsbdevBufferTypeWrite
       then (case buffer_pool_add pool (buf_id buf) of (ok, pool) \<Rightarrow>
         if \<not> ok then (kDifError, Some pool, buffer)
         else (kDifOk, Some pool, Some (buf\<lparr>buf_type := kDifUsbdevBufferTypeStale\<rparr>)))
       else (kDifBadArg, buffer_pool, buffer)
   | _ \<Rightarrow> (kDifBadArg, buffer_pool, buffer))"

definition dif_usbdev_buffer_read :: "'d bus \<Rightarrow> dif_usbdev ptr \<Rightarrow> dif_usbdev_buffer_pool ptr
    \<Rightarrow> dif_usbdev_buffer ptr \<Rightarrow> u8 list ptr \<Rightarrow> u32 \<Rightarrow> u32 ptr
    \<Rightarrow> ('d, dif_result \<times> dif_usbdev_buffer_pool ptr \<times> dif_usbdev_buffer ptr \<times> u8 list ptr \<times> u32 ptr) state" where
  "dif_usbdev_buffer_read B usbdev buffer_pool buffer dst dst_len bytes_written =
     (case (usbdev, buffer_pool, buffer, dst) of
       (Some usbdev, Some pool, Some buf, Some dst_bytes) \<Rightarrow>
         if buf_type buf \<noteq> kDifUsbdevBufferTypeRead
         then ret (kDifBadArg, buffer_pool, buffer, dst, bytes_written)
         else do {
           let bytes_to_copy = (ucast (remaining_bytes buf) :: u32);
           let bytes_to_copy = (if bytes_to_copy > dst_len then dst_len else bytes_to_copy);
           let buffer_addr = get_buffer_addr (buf_id buf) (ucast (buf_offset buf));
           dst_bytes \<leftarrow> mmio_region_memcpy_from_mmio32 B (base_addr usbdev) buffer_addr dst_bytes
             (unat bytes_to_copy);
           let buf = buf\<lparr>buf_offset := buf_offset buf + ucast bytes_to_copy,
             remaining_bytes := remaining_bytes buf - ucast bytes_to_copy\<rparr>;
           let bytes_written = (if bytes_written \<noteq> null then Some bytes_to_copy else null);
           if remaining_bytes buf > 0
           then ret (kDifOk, Some pool, Some buf, Some dst_bytes, bytes_written)
           else case buffer_pool_add pool (buf_id buf) of (ok, pool) \<Rightarrow>
             if \<not> ok then ret (kDifError, Some pool, Some buf, Some dst_bytes, bytes_written)
             else ret (kDifOk, Some pool, Some (buf\<lparr>buf_type := kDifUsbdevBufferTypeStale\<rparr>),
               Some dst_bytes, bytes_written)
         }
     | _ \<Rightarrow> ret (kDifBadArg, buffer_pool, buffer, dst, bytes_written))"

definition dif_usbdev_buffer_write :: "'d bus \<Rightarrow> dif_usbdev ptr \<Rightarrow> dif_usbdev_buffer ptr
    \<Rightarrow> u8 list ptr \<Rightarrow> u32 \<Rightarrow> u32 ptr \<Rightarrow> ('d, dif_result \<times> dif_usbdev_buffer ptr \<times> u32 ptr) state" where
  "dif_usbdev_buffer_write B usbdev buffer src src_len bytes_written =
     (case (usbdev, buffer, src) of
       (Some usbdev, Some buf, Some src_bytes) \<Rightarrow>
         if buf_type buf \<noteq> kDifUsbdevBufferTypeWrite then ret (kDifBadArg, buffer, bytes_written)
         else do {
           let bytes_to_copy = (ucast (remaining_bytes buf) :: u32);
           let bytes_to_copy = (if bytes_to_copy > src_len then src_len else bytes_to_copy);
           let buffer_addr = get_buffer_addr (buf_id buf) (ucast (buf_offset buf));
           mmio_region_memcpy_to_mmio32 B (base_addr usbdev) buffer_addr src_bytes (unat bytes_to_copy);
           let buf = buf\<lparr>buf_offset := buf_offset buf + ucast bytes_to_copy,
             remaining_bytes := remaining_bytes buf - ucast bytes_to_copy\<rparr>;
           let bytes_written = (if bytes_written \<noteq> null then Some bytes_to_copy else null);
           if remaining_bytes buf = 0 \<and> bytes_to_copy < src_len
           then ret (kDifError, Some buf, bytes_written)
           else ret (kDifOk, Some buf, bytes_written)
         }
     | _ \<Rightarrow> ret (kDifBadArg, buffer, bytes_written))"

definition dif_usbdev_send :: "'d bus \<Rightarrow> dif_usbdev ptr \<Rightarrow> u8 \<Rightarrow> dif_usbdev_buffer ptr
    \<Rightarrow> ('d, dif_result \<times> dif_usbdev_buffer ptr) state" where
  "dif_usbdev_send B usbdev endpoint buffer = (case (usbdev, buffer) of
     (Some usbdev, Some buf) \<Rightarrow>
       if \<not> is_valid_endpoint endpoint \<or> buf_type buf \<noteq> kDifUsbdevBufferTypeWrite
       then ret (kDifBadArg, buffer)
       else do {
         let reg = config_in_reg_offset (kEndpointHwInfos ! unat endpoint);
         let config_in_val = 0;
         let config_in_val = bitfield_field32_write config_in_val
           USBDEV_CONFIGIN_0_BUFFER_0_FIELD (ucast (buf_id buf));
         let config_in_val = bitfield_field32_write config_in_val
           USBDEV_CONFIGIN_0_SIZE_0_FIELD (ucast (buf_offset buf));
         wr32 B usbdev reg config_in_val;
         let config_in_val = bitfield_bit32_write config_in_val USBDEV_CONFIGIN_0_RDY_0_BIT True;
         wr32 B usbdev reg config_in_val;
         ret (kDifOk, Some (buf\<lparr>buf_type := kDifUsbdevBufferTypeStale\<rparr>))
       }
   | _ \<Rightarrow> ret (kDifBadArg, buffer))"

definition dif_usbdev_get_tx_sent ::
    "'d bus \<Rightarrow> dif_usbdev ptr \<Rightarrow> u16 ptr \<Rightarrow> ('d, dif_result \<times> u16 ptr) state" where
  "dif_usbdev_get_tx_sent B usbdev sent = (case (usbdev, sent) of
     (Some usbdev, Some _) \<Rightarrow> do {
       v \<leftarrow> rd32 B usbdev USBDEV_IN_SENT_REG_OFFSET;
       ret (kDifOk, Some (ucast v))
     }
   | _ \<Rightarrow> ret (kDifBadArg, sent))"

definition dif_usbdev_clear_tx_status :: "'d bus \<Rightarrow> dif_usbdev ptr \<Rightarrow> dif_usbdev_buffer_pool ptr
    \<Rightarrow> u8 \<Rightarrow> ('d, dif_result \<times> dif_usbdev_buffer_pool ptr) state" where
  "dif_usbdev_clear_tx_status B usbdev buffer_pool endpoint = (case (usbdev, buffer_pool) of
     (Some usbdev, Some pool) \<Rightarrow>
       if \<not> is_valid_endpoint endpoint then ret (kDifBadArg, buffer_pool)
       else do {
         let reg = config_in_reg_offset (kEndpointHwInfos ! unat endpoint);
         v \<leftarrow> rd32 B usbdev reg;
         let buffer = ucast (bitfield_field32_read v USBDEV_CONFIGIN_0_BUFFER_0_FIELD);
         wr32 B usbdev reg (push_bit (unat USBDEV_CONFIGIN_0_PEND_0_BIT) 1);
         wr32 B usbdev USBDEV_IN_SENT_REG_OFFSET (push_bit (unat endpoint) 1);
         case buffer_pool_add pool buffer of (ok, pool) \<Rightarrow>
           ret (if \<not> ok then kDifError else kDifOk, Some pool)
       }
   | _ \<Rightarrow> ret (kDifBadArg, buffer_pool))"

datatype dif_usbdev_tx_status =
    kDifUsbdevTxStatusNoPacket | kDifUsbdevTxStatusPending | kDifUsbdevTxStatusSent
  | kDifUsbdevTxStatusCancelled

definition dif_usbdev_get_tx_status :: "'d bus \<Rightarrow> dif_usbdev ptr \<Rightarrow> u8 \<Rightarrow> dif_usbdev_tx_status ptr
    \<Rightarrow> ('d, dif_result \<times> dif_usbdev_tx_status ptr) state" where
  "dif_usbdev_get_tx_status B usbdev endpoint status = (case (usbdev, status) of
     (Some usbdev, Some _) \<Rightarrow>
       if \<not> is_valid_endpoint endpoint then ret (kDifBadArg, status)
       else do {
         let info = kEndpointHwInfos ! unat endpoint;
         v \<leftarrow> rd32 B usbdev (config_in_reg_offset info);
         if bitfield_bit32_read v USBDEV_CONFIGIN_0_RDY_0_BIT
         then ret (kDifOk, Some kDifUsbdevTxStatusPending)
         else do {
           sent \<leftarrow> rd32 B usbdev USBDEV_IN_SENT_REG_OFFSET;
           if bitfield_bit32_read sent (ucast (bit_index info))
           then ret (kDifOk, Some kDifUsbdevTxStatusSent)
           else if bitfield_bit32_read v USBDEV_CONFIGIN_0_PEND_0_BIT
           then ret (kDifOk, Some kDifUsbdevTxStatusCancelled)
           else ret (kDifOk, Some kDifUsbdevTxStatusNoPacket)
         }
       }
   | _ \<Rightarrow> ret (kDifBadArg, status))"

subsection \<open>Endpoints and the interface\<close>

definition dif_usbdev_endpoint_setup_enable ::
    "'d bus \<Rightarrow> dif_usbdev ptr \<Rightarrow> u8 \<Rightarrow> dif_toggle \<Rightarrow> ('d, dif_result) state" where
  "dif_usbdev_endpoint_setup_enable B usbdev endpoint new_state =
     endpoint_functionality_enable B usbdev USBDEV_RXENABLE_SETUP_REG_OFFSET endpoint new_state"

definition dif_usbdev_endpoint_out_enable ::
    "'d bus \<Rightarrow> dif_usbdev ptr \<Rightarrow> u8 \<Rightarrow> dif_toggle \<Rightarrow> ('d, dif_result) state" where
  "dif_usbdev_endpoint_out_enable B usbdev endpoint new_state =
     endpoint_functionality_enable B usbdev USBDEV_RXENABLE_OUT_REG_OFFSET endpoint new_state"

definition dif_usbdev_endpoint_set_nak_out_enable ::
    "'d bus \<Rightarrow> dif_usbdev ptr \<Rightarrow> u8 \<Rightarrow> dif_toggle \<Rightarrow> ('d, dif_result) state" where
  "dif_usbdev_endpoint_set_nak_out_enable B usbdev endpoint new_state =
     endpoint_functionality_enable B usbdev USBDEV_SET_NAK_OUT_REG_OFFSET endpoint new_state"

definition dif_usbdev_endpoint_stall_enable ::
    "'d bus \<Rightarrow> dif_usbdev ptr \<Rightarrow> dif_usbdev_endpoint_id \<Rightarrow> dif_toggle \<Rightarrow> ('d, dif_result) state" where
  "dif_usbdev_endpoint_stall_enable B usbdev endpoint new_state =
     (if ep_direction endpoint = USBDEV_ENDPOINT_DIR_IN
      then endpoint_functionality_enable B usbdev USBDEV_IN_STALL_REG_OFFSET (ucast (ep_number endpoint)) new_state
      else endpoint_functionality_enable B usbdev USBDEV_OUT_STALL_REG_OFFSET (ucast (ep_number endpoint)) new_state)"

definition dif_usbdev_endpoint_stall_get :: "'d bus \<Rightarrow> dif_usbdev ptr \<Rightarrow> dif_usbdev_endpoint_id
    \<Rightarrow> bool ptr \<Rightarrow> ('d, dif_result \<times> bool ptr) state" where
  "dif_usbdev_endpoint_stall_get B usbdev endpoint enabled = (case (usbdev, enabled) of
     (Some usbdev, Some _) \<Rightarrow>
       if \<not> is_valid_endpoint (ucast (ep_number endpoint)) then ret (kDifBadArg, enabled)
       else do {
         let reg_offset = (if ep_direction endpoint = USBDEV_ENDPOINT_DIR_IN
           then USBDEV_IN_STALL_REG_OFFSET else USBDEV_OUT_STALL_REG_OFFSET);
         reg_val \<leftarrow> rd32 B usbdev reg_offset;
         ret (kDifOk, Some (bitfield_bit32_read reg_val
           (ucast (bit_index (kEndpointHwInfos ! unat (ep_number endpoint))))))
       }
   | _ \<Rightarrow> ret (kDifBadArg, enabled))"

definition dif_usbdev_endpoint_iso_enable ::
    "'d bus \<Rightarrow> dif_usbdev ptr \<Rightarrow> dif_usbdev_endpoint_id \<Rightarrow> dif_toggle \<Rightarrow> ('d, dif_result) state" where
  "dif_usbdev_endpoint_iso_enable B usbdev endpoint new_state =
     (if ep_direction endpoint = USBDEV_ENDPOINT_DIR_IN
      then endpoint_functionality_enable B usbdev USBDEV_IN_ISO_REG_OFFSET (ucast (ep_number endpoint)) new_state
      else endpoint_functionality_enable B usbdev USBDEV_OUT_ISO_REG_OFFSET (ucast (ep_number endpoint)) new_state)"

definition dif_usbdev_endpoint_enable ::
    "'d bus \<Rightarrow> dif_usbdev ptr \<Rightarrow> dif_usbdev_endpoint_id \<Rightarrow> dif_toggle \<Rightarrow> ('d, dif_result) state" where
  "dif_usbdev_endpoint_enable B usbdev endpoint new_state =
     (if ep_direction endpoint = USBDEV_ENDPOINT_DIR_IN
      then endpoint_functionality_enable B usbdev USBDEV_EP_IN_ENABLE_REG_OFFSET (ucast (ep_number endpoint)) new_state
      else endpoint_functionality_enable B usbdev USBDEV_EP_OUT_ENABLE_REG_OFFSET (ucast (ep_number endpoint)) new_state)"

definition dif_usbdev_interface_enable ::
    "'d bus \<Rightarrow> dif_usbdev ptr \<Rightarrow> dif_toggle \<Rightarrow> ('d, dif_result) state" where
  "dif_usbdev_interface_enable B usbdev new_state = (case usbdev of None \<Rightarrow> ret kDifBadArg | Some usbdev \<Rightarrow>
     if \<not> dif_is_valid_toggle new_state then ret kDifBadArg
     else do {
       reg_val \<leftarrow> rd32 B usbdev USBDEV_USBCTRL_REG_OFFSET;
       let reg_val = bitfield_bit32_write reg_val USBDEV_USBCTRL_ENABLE_BIT (dif_toggle_to_bool new_state);
       wr32 B usbdev USBDEV_USBCTRL_REG_OFFSET reg_val;
       ret kDifOk
     })"

definition dif_usbdev_address_set :: "'d bus \<Rightarrow> dif_usbdev ptr \<Rightarrow> u8 \<Rightarrow> ('d, dif_result) state" where
  "dif_usbdev_address_set B usbdev address = (case usbdev of None \<Rightarrow> ret kDifBadArg | Some usbdev \<Rightarrow> do {
     reg_val \<leftarrow> rd32 B usbdev USBDEV_USBCTRL_REG_OFFSET;
     let reg_val = bitfield_field32_write reg_val USBDEV_USBCTRL_DEVICE_ADDRESS_FIELD (ucast address);
     wr32 B usbdev USBDEV_USBCTRL_REG_OFFSET reg_val;
     ret kDifOk
   })"

definition dif_usbdev_address_get ::
    "'d bus \<Rightarrow> dif_usbdev ptr \<Rightarrow> u8 ptr \<Rightarrow> ('d, dif_result \<times> u8 ptr) state" where
  "dif_usbdev_address_get B usbdev address = (case (usbdev, address) of
     (Some usbdev, Some _) \<Rightarrow> do {
       reg_val \<leftarrow> rd32 B usbdev USBDEV_USBCTRL_REG_OFFSET;
       ret (kDifOk, Some (ucast (bitfield_field32_read reg_val USBDEV_USBCTRL_DEVICE_ADDRESS_FIELD)))
     }
   | _ \<Rightarrow> ret (kDifBadArg, address))"

definition dif_usbdev_data_toggle_out_read ::
    "'d bus \<Rightarrow> dif_usbdev ptr \<Rightarrow> u16 ptr \<Rightarrow> ('d, dif_result \<times> u16 ptr) state" where
  "dif_usbdev_data_toggle_out_read B usbdev toggles = (case (usbdev, toggles) of
     (Some usbdev, Some _) \<Rightarrow> do {
       reg_val \<leftarrow> rd32 B usbdev USBDEV_OUT_DATA_TOGGLE_REG_OFFSET;
       ret (kDifOk, Some (ucast reg_val))
     }
   | _ \<Rightarrow> ret (kDifBadArg, toggles))"

definition dif_usbdev_data_toggle_in_read ::
    "'d bus \<Rightarrow> dif_usbdev ptr \<Rightarrow> u16 ptr \<Rightarrow> ('d, dif_result \<times> u16 ptr) state" where
  "dif_usbdev_data_toggle_in_read B usbdev toggles = (case (usbdev, toggles) of
     (Some usbdev, Some _) \<Rightarrow> do {
       reg_val \<leftarrow> rd32 B usbdev USBDEV_IN_DATA_TOGGLE_REG_OFFSET;
       ret (kDifOk, Some (ucast reg_val))
     }
   | _ \<Rightarrow> ret (kDifBadArg, toggles))"

definition dif_usbdev_data_toggle_out_write ::
    "'d bus \<Rightarrow> dif_usbdev ptr \<Rightarrow> u16 \<Rightarrow> u16 \<Rightarrow> ('d, dif_result) state" where
  "dif_usbdev_data_toggle_out_write B usbdev msk toggles = (case usbdev of None \<Rightarrow> ret kDifBadArg | Some usbdev \<Rightarrow> do {
     wr32 B usbdev USBDEV_OUT_DATA_TOGGLE_REG_OFFSET (push_bit 16 (ucast msk) OR ucast toggles);
     ret kDifOk
   })"

definition dif_usbdev_data_toggle_in_write ::
    "'d bus \<Rightarrow> dif_usbdev ptr \<Rightarrow> u16 \<Rightarrow> u16 \<Rightarrow> ('d, dif_result) state" where
  "dif_usbdev_data_toggle_in_write B usbdev msk toggles = (case usbdev of None \<Rightarrow> ret kDifBadArg | Some usbdev \<Rightarrow> do {
     wr32 B usbdev USBDEV_IN_DATA_TOGGLE_REG_OFFSET (push_bit 16 (ucast msk) OR ucast toggles);
     ret kDifOk
   })"

text \<open>The shift of \<open>dif_usbdev_clear_data_toggle\<close> is by \<open>endpoint + 16\<close>; for an endpoint above 15
  the shift amount is out of range in C, and the model shifts every bit out.\<close>

definition dif_usbdev_clear_data_toggle :: "'d bus \<Rightarrow> dif_usbdev ptr \<Rightarrow> u8 \<Rightarrow> ('d, dif_result) state" where
  "dif_usbdev_clear_data_toggle B usbdev endpoint = (case usbdev of None \<Rightarrow> ret kDifBadArg | Some usbdev \<Rightarrow> do {
     let reg_val = push_bit (unat endpoint + 16) 1;
     wr32 B usbdev USBDEV_OUT_DATA_TOGGLE_REG_OFFSET reg_val;
     wr32 B usbdev USBDEV_IN_DATA_TOGGLE_REG_OFFSET reg_val;
     ret kDifOk
   })"

subsection \<open>Status\<close>

text \<open>The frame number goes through a cast to \<open>uint8_t\<close>.\<close>

definition dif_usbdev_status_get_frame ::
    "'d bus \<Rightarrow> dif_usbdev ptr \<Rightarrow> u16 ptr \<Rightarrow> ('d, dif_result \<times> u16 ptr) state" where
  "dif_usbdev_status_get_frame B usbdev frame_index = (case (usbdev, frame_index) of
     (Some usbdev, Some _) \<Rightarrow> do {
       reg_val \<leftarrow> rd32 B usbdev USBDEV_USBSTAT_REG_OFFSET;
       ret (kDifOk, Some (ucast (ucast (bitfield_field32_read reg_val USBDEV_USBSTAT_FRAME_FIELD) :: u8)))
     }
   | _ \<Rightarrow> ret (kDifBadArg, frame_index))"

definition dif_usbdev_status_get_host_lost ::
    "'d bus \<Rightarrow> dif_usbdev ptr \<Rightarrow> bool ptr \<Rightarrow> ('d, dif_result \<times> bool ptr) state" where
  "dif_usbdev_status_get_host_lost B usbdev host_lost = (case (usbdev, host_lost) of
     (Some usbdev, Some _) \<Rightarrow> do {
       v \<leftarrow> mmio_region_get_bit32 B (base_addr usbdev) USBDEV_USBSTAT_REG_OFFSET USBDEV_USBSTAT_HOST_LOST_BIT;
       ret (kDifOk, Some v)
     }
   | _ \<Rightarrow> ret (kDifBadArg, host_lost))"

datatype dif_usbdev_link_state =
    kDifUsbdevLinkStateDisconnected | kDifUsbdevLinkStatePowered
  | kDifUsbdevLinkStatePoweredSuspended | kDifUsbdevLinkStateActive
  | kDifUsbdevLinkStateSuspended | kDifUsbdevLinkStateActiveNoSof | kDifUsbdevLinkStateResuming

definition usbdev_link_state_of :: "u32 \<Rightarrow> dif_usbdev_link_state option" where
  "usbdev_link_state_of val =
     (if val = USBDEV_USBSTAT_LINK_STATE_VALUE_DISCONNECTED then Some kDifUsbdevLinkStateDisconnected
      else if val = USBDEV_USBSTAT_LINK_STATE_VALUE_POWERED then Some kDifUsbdevLinkStatePowered
      else if val = USBDEV_USBSTAT_LINK_STATE_VALUE_POWERED_SUSPENDED
      then Some kDifUsbdevLinkStatePoweredSuspended
      else if val = USBDEV_USBSTAT_LINK_STATE_VALUE_ACTIVE then Some kDifUsbdevLinkStateActive
      else if val = USBDEV_USBSTAT_LINK_STATE_VALUE_SUSPENDED then Some kDifUsbdevLinkStateSuspended
      else if val = USBDEV_USBSTAT_LINK_STATE_VALUE_ACTIVE_NOSOF then Some kDifUsbdevLinkStateActiveNoSof
      else if val = USBDEV_USBSTAT_LINK_STATE_VALUE_RESUMING then Some kDifUsbdevLinkStateResuming
      else None)"

definition dif_usbdev_status_get_link_state :: "'d bus \<Rightarrow> dif_usbdev ptr \<Rightarrow> dif_usbdev_link_state ptr
    \<Rightarrow> ('d, dif_result \<times> dif_usbdev_link_state ptr) state" where
  "dif_usbdev_status_get_link_state B usbdev link_state = (case (usbdev, link_state) of
     (Some usbdev, Some _) \<Rightarrow> do {
       val \<leftarrow> rd32 B usbdev USBDEV_USBSTAT_REG_OFFSET;
       let val = bitfield_field32_read val USBDEV_USBSTAT_LINK_STATE_FIELD;
       case usbdev_link_state_of val of
         None \<Rightarrow> ret (kDifError, link_state)
       | Some st \<Rightarrow> ret (kDifOk, Some st)
     }
   | _ \<Rightarrow> ret (kDifBadArg, link_state))"

definition dif_usbdev_status_get_sense ::
    "'d bus \<Rightarrow> dif_usbdev ptr \<Rightarrow> bool ptr \<Rightarrow> ('d, dif_result \<times> bool ptr) state" where
  "dif_usbdev_status_get_sense B usbdev sense = (case (usbdev, sense) of
     (Some usbdev, Some _) \<Rightarrow> do {
       v \<leftarrow> mmio_region_get_bit32 B (base_addr usbdev) USBDEV_USBSTAT_REG_OFFSET USBDEV_USBSTAT_SENSE_BIT;
       ret (kDifOk, Some v)
     }
   | _ \<Rightarrow> ret (kDifBadArg, sense))"

definition dif_usbdev_status_get_available_fifo_depths :: "'d bus \<Rightarrow> dif_usbdev ptr \<Rightarrow> u8 ptr \<Rightarrow> u8 ptr
    \<Rightarrow> ('d, dif_result \<times> u8 ptr \<times> u8 ptr) state" where
  "dif_usbdev_status_get_available_fifo_depths B usbdev setup_depth out_depth = (case (usbdev, setup_depth, out_depth) of
     (Some usbdev, Some _, Some _) \<Rightarrow> do {
       reg_val \<leftarrow> rd32 B usbdev USBDEV_USBSTAT_REG_OFFSET;
       ret (kDifOk, Some (ucast (bitfield_field32_read reg_val USBDEV_USBSTAT_AV_SETUP_DEPTH_FIELD)),
         Some (ucast (bitfield_field32_read reg_val USBDEV_USBSTAT_AV_OUT_DEPTH_FIELD)))
     }
   | _ \<Rightarrow> ret (kDifBadArg, setup_depth, out_depth))"

definition dif_usbdev_status_get_available_fifo_full :: "'d bus \<Rightarrow> dif_usbdev ptr \<Rightarrow> bool ptr \<Rightarrow> bool ptr
    \<Rightarrow> ('d, dif_result \<times> bool ptr \<times> bool ptr) state" where
  "dif_usbdev_status_get_available_fifo_full B usbdev setup_is_full out_is_full = (case (usbdev, setup_is_full, out_is_full) of
     (Some usbdev, Some _, Some _) \<Rightarrow> do {
       reg_val \<leftarrow> rd32 B usbdev USBDEV_USBSTAT_REG_OFFSET;
       ret (kDifOk, Some (bitfield_bit32_read reg_val USBDEV_USBSTAT_AV_SETUP_FULL_BIT),
         Some (bitfield_bit32_read reg_val USBDEV_USBSTAT_AV_OUT_FULL_BIT))
     }
   | _ \<Rightarrow> ret (kDifBadArg, setup_is_full, out_is_full))"

definition dif_usbdev_status_get_rx_fifo_depth ::
    "'d bus \<Rightarrow> dif_usbdev ptr \<Rightarrow> u8 ptr \<Rightarrow> ('d, dif_result \<times> u8 ptr) state" where
  "dif_usbdev_status_get_rx_fifo_depth B usbdev depth = (case (usbdev, depth) of
     (Some usbdev, Some _) \<Rightarrow> do {
       reg_val \<leftarrow> rd32 B usbdev USBDEV_USBSTAT_REG_OFFSET;
       ret (kDifOk, Some (ucast (bitfield_field32_read reg_val USBDEV_USBSTAT_RX_DEPTH_FIELD)))
     }
   | _ \<Rightarrow> ret (kDifBadArg, depth))"

definition dif_usbdev_status_get_rx_fifo_empty ::
    "'d bus \<Rightarrow> dif_usbdev ptr \<Rightarrow> bool ptr \<Rightarrow> ('d, dif_result \<times> bool ptr) state" where
  "dif_usbdev_status_get_rx_fifo_empty B usbdev is_empty = (case (usbdev, is_empty) of
     (Some usbdev, Some _) \<Rightarrow> do {
       reg_val \<leftarrow> rd32 B usbdev USBDEV_USBSTAT_REG_OFFSET;
       ret (kDifOk, Some (bitfield_bit32_read reg_val USBDEV_USBSTAT_RX_EMPTY_BIT))
     }
   | _ \<Rightarrow> ret (kDifBadArg, is_empty))"

subsection \<open>Test modes, wake-up and the pins\<close>

definition dif_usbdev_set_osc_test_mode ::
    "'d bus \<Rightarrow> dif_usbdev ptr \<Rightarrow> dif_toggle \<Rightarrow> ('d, dif_result) state" where
  "dif_usbdev_set_osc_test_mode B usbdev enable = (case usbdev of None \<Rightarrow> ret kDifBadArg | Some usbdev \<Rightarrow>
     if \<not> dif_is_valid_toggle enable then ret kDifBadArg
     else do {
       let set_tx_osc_mode = dif_toggle_to_bool enable;
       reg_val \<leftarrow> rd32 B usbdev USBDEV_PHY_CONFIG_REG_OFFSET;
       let reg_val = bitfield_bit32_write reg_val USBDEV_PHY_CONFIG_TX_OSC_TEST_MODE_BIT set_tx_osc_mode;
       wr32 B usbdev USBDEV_PHY_CONFIG_REG_OFFSET reg_val;
       ret kDifOk
     })"

definition dif_usbdev_set_wake_enable ::
    "'d bus \<Rightarrow> dif_usbdev ptr \<Rightarrow> dif_toggle \<Rightarrow> ('d, dif_result) state" where
  "dif_usbdev_set_wake_enable B usbdev enable = (case usbdev of None \<Rightarrow> ret kDifBadArg | Some usbdev \<Rightarrow>
     if \<not> dif_is_valid_toggle enable then ret kDifBadArg
     else do {
       let reg_val = (if dif_toggle_to_bool enable
         then bitfield_bit32_write 0 USBDEV_WAKE_CONTROL_SUSPEND_REQ_BIT True
         else bitfield_bit32_write 0 USBDEV_WAKE_CONTROL_WAKE_ACK_BIT True);
       wr32 B usbdev USBDEV_WAKE_CONTROL_REG_OFFSET reg_val;
       ret kDifOk
     })"

record dif_usbdev_wake_status =
  wake_active :: bool
  wake_disconnected :: bool
  wake_bus_reset :: bool
  wake_bus_not_idle :: bool

definition dif_usbdev_get_wake_status :: "'d bus \<Rightarrow> dif_usbdev ptr \<Rightarrow> dif_usbdev_wake_status ptr
    \<Rightarrow> ('d, dif_result \<times> dif_usbdev_wake_status ptr) state" where
  "dif_usbdev_get_wake_status B usbdev status = (case (usbdev, status) of
     (Some usbdev, Some st) \<Rightarrow> do {
       reg_val \<leftarrow> rd32 B usbdev USBDEV_WAKE_EVENTS_REG_OFFSET;
       ret (kDifOk, Some (st\<lparr>
         wake_active := bitfield_bit32_read reg_val USBDEV_WAKE_EVENTS_MODULE_ACTIVE_BIT,
         wake_disconnected := bitfield_bit32_read reg_val USBDEV_WAKE_EVENTS_DISCONNECTED_BIT,
         wake_bus_reset := bitfield_bit32_read reg_val USBDEV_WAKE_EVENTS_BUS_RESET_BIT,
         wake_bus_not_idle := bitfield_bit32_read reg_val USBDEV_WAKE_EVENTS_BUS_NOT_IDLE_BIT\<rparr>))
     }
   | _ \<Rightarrow> ret (kDifBadArg, status))"

definition dif_usbdev_resume_link_to_active :: "'d bus \<Rightarrow> dif_usbdev ptr \<Rightarrow> ('d, dif_result) state" where
  "dif_usbdev_resume_link_to_active B usbdev = (case usbdev of None \<Rightarrow> ret kDifBadArg | Some usbdev \<Rightarrow> do {
     reg_val \<leftarrow> rd32 B usbdev USBDEV_USBCTRL_REG_OFFSET;
     let reg_val = bitfield_bit32_write reg_val USBDEV_USBCTRL_RESUME_LINK_ACTIVE_BIT True;
     wr32 B usbdev USBDEV_USBCTRL_REG_OFFSET reg_val;
     ret kDifOk
   })"

record dif_usbdev_phy_pins_sense =
  rx_dp :: bool
  rx_dn :: bool
  rx_d :: bool
  tx_dp :: bool
  tx_dn :: bool
  tx_d :: bool
  tx_se0 :: bool
  sense_output_enable :: bool
  vbus_sense :: bool

definition dif_usbdev_get_phy_pins_status :: "'d bus \<Rightarrow> dif_usbdev ptr \<Rightarrow> dif_usbdev_phy_pins_sense ptr
    \<Rightarrow> ('d, dif_result \<times> dif_usbdev_phy_pins_sense ptr) state" where
  "dif_usbdev_get_phy_pins_status B usbdev status = (case (usbdev, status) of
     (Some usbdev, Some st) \<Rightarrow> do {
       reg_val \<leftarrow> rd32 B usbdev USBDEV_PHY_PINS_SENSE_REG_OFFSET;
       ret (kDifOk, Some (st\<lparr>
         rx_dp := bitfield_bit32_read reg_val USBDEV_PHY_PINS_SENSE_RX_DP_I_BIT,
         rx_dn := bitfield_bit32_read reg_val USBDEV_PHY_PINS_SENSE_RX_DN_I_BIT,
         rx_d := bitfield_bit32_read reg_val USBDEV_PHY_PINS_SENSE_RX_D_I_BIT,
         tx_dp := bitfield_bit32_read reg_val USBDEV_PHY_PINS_SENSE_TX_DP_O_BIT,
         tx_dn := bitfield_bit32_read reg_val USBDEV_PHY_PINS_SENSE_TX_DN_O_BIT,
         tx_d := bitfield_bit32_read reg_val USBDEV_PHY_PINS_SENSE_TX_D_O_BIT,
         tx_se0 := bitfield_bit32_read reg_val USBDEV_PHY_PINS_SENSE_TX_SE0_O_BIT,
         sense_output_enable := bitfield_bit32_read reg_val USBDEV_PHY_PINS_SENSE_TX_OE_O_BIT,
         vbus_sense := bitfield_bit32_read reg_val USBDEV_PHY_PINS_SENSE_PWR_SENSE_BIT\<rparr>))
     }
   | _ \<Rightarrow> ret (kDifBadArg, status))"

record dif_usbdev_phy_pins_drive =
  drive_dp :: bool
  drive_dn :: bool
  drive_data :: bool
  drive_se0 :: bool
  drive_output_enable :: bool
  diff_receiver_enable :: bool
  dp_pullup_en :: bool
  dn_pullup_en :: bool

definition dif_usbdev_set_phy_pins_state :: "'d bus \<Rightarrow> dif_usbdev ptr \<Rightarrow> dif_toggle
    \<Rightarrow> dif_usbdev_phy_pins_drive \<Rightarrow> ('d, dif_result) state" where
  "dif_usbdev_set_phy_pins_state B usbdev override_enable overrides =
     (case usbdev of None \<Rightarrow> ret kDifBadArg | Some usbdev \<Rightarrow>
       if \<not> dif_is_valid_toggle override_enable then ret kDifBadArg
       else do {
         let drive_en = dif_toggle_to_bool override_enable;
         let reg_val = bitfield_bit32_write 0 USBDEV_PHY_PINS_DRIVE_EN_BIT drive_en;
         let reg_val = (if drive_en then
           let r = bitfield_bit32_write reg_val USBDEV_PHY_PINS_DRIVE_DP_O_BIT (drive_dp overrides);
               r = bitfield_bit32_write r USBDEV_PHY_PINS_DRIVE_DN_O_BIT (drive_dn overrides);
               r = bitfield_bit32_write r USBDEV_PHY_PINS_DRIVE_D_O_BIT (drive_data overrides);
               r = bitfield_bit32_write r USBDEV_PHY_PINS_DRIVE_SE0_O_BIT (drive_se0 overrides);
               r = bitfield_bit32_write r USBDEV_PHY_PINS_DRIVE_OE_O_BIT (drive_output_enable overrides);
               r = bitfield_bit32_write r USBDEV_PHY_PINS_DRIVE_RX_ENABLE_O_BIT
                 (diff_receiver_enable overrides);
               r = bitfield_bit32_write r USBDEV_PHY_PINS_DRIVE_DP_PULLUP_EN_O_BIT (dp_pullup_en overrides);
               r = bitfield_bit32_write r USBDEV_PHY_PINS_DRIVE_DN_PULLUP_EN_O_BIT (dn_pullup_en overrides)
           in r else reg_val);
         wr32 B usbdev USBDEV_PHY_PINS_DRIVE_REG_OFFSET reg_val;
         ret kDifOk
       })"

subsection \<open>Raw transfers\<close>

text \<open>A raw transfer moves whole words, four at a time, then single words, then writes the last
  word from up to three bytes. The caller's buffer is given with its address, whose alignment the
  code checks. The loops count the blocks or words that are left.\<close>

definition word_at_bytes :: "u8 list \<Rightarrow> nat \<Rightarrow> u32" where
  "word_at_bytes bs i = le32 (bs ! i) (bs ! (i + 1)) (bs ! (i + 2)) (bs ! (i + 3))"

fun raw_write_blocks :: "'d bus \<Rightarrow> dif_usbdev \<Rightarrow> u8 list \<Rightarrow> nat \<Rightarrow> u32 \<Rightarrow> nat \<Rightarrow> ('d, u32 \<times> nat) state" where
  "raw_write_blocks B usbdev src 0 offset ws = ret (offset, ws)"
| "raw_write_blocks B usbdev src (Suc n) offset ws = do {
     wr32 B usbdev offset (word_at_bytes src ws);
     wr32 B usbdev (offset + 4) (word_at_bytes src (ws + 4));
     wr32 B usbdev (offset + 8) (word_at_bytes src (ws + 8));
     wr32 B usbdev (offset + 12) (word_at_bytes src (ws + 12));
     raw_write_blocks B usbdev src n (offset + 16) (ws + 16)
   }"

fun raw_write_words :: "'d bus \<Rightarrow> dif_usbdev \<Rightarrow> u8 list \<Rightarrow> nat \<Rightarrow> u32 \<Rightarrow> nat \<Rightarrow> ('d, u32 \<times> nat) state" where
  "raw_write_words B usbdev src 0 offset ws = ret (offset, ws)"
| "raw_write_words B usbdev src (Suc n) offset ws = do {
     wr32 B usbdev offset (word_at_bytes src ws);
     raw_write_words B usbdev src n (offset + 4) (ws + 4)
   }"

definition dif_usbdev_buffer_raw_write :: "'d bus \<Rightarrow> dif_usbdev ptr \<Rightarrow> u8 \<Rightarrow> (addr \<times> u8 list) ptr \<Rightarrow> u32
    \<Rightarrow> ('d, dif_result) state" where
  "dif_usbdev_buffer_raw_write B usbdev bid src src_len = (case (usbdev, src) of
     (Some usbdev, Some (src_addr, src)) \<Rightarrow>
       if misalignment32_of src_addr \<noteq> 0 \<or> unat src_len > USBDEV_BUFFER_ENTRY_SIZE_BYTES
       then ret kDifBadArg
       else do {
         (offset, ws) \<leftarrow> raw_write_blocks B usbdev src (unat src_len div 16) (get_buffer_addr bid 0) 0;
         let src_len = unat src_len mod 16;
         if src_len = 0 then ret kDifOk
         else do {
           (offset, ws) \<leftarrow> raw_write_words B usbdev src (src_len div 4) offset ws;
           let src_len = src_len mod 4;
           if src_len = 0 then ret kDifOk
           else do {
             let d = (ucast (src ! ws) :: u32);
             let d = (if src_len > 1 then
               let d = d OR push_bit 8 (ucast (src ! (ws + 1))) in
               if src_len > 2 then d OR push_bit 16 (ucast (src ! (ws + 2))) else d else d);
             wr32 B usbdev offset d;
             ret kDifOk
           }
         }
       }
   | _ \<Rightarrow> ret kDifBadArg)"

fun raw_read_blocks :: "'d bus \<Rightarrow> dif_usbdev \<Rightarrow> nat \<Rightarrow> u32 \<Rightarrow> nat \<Rightarrow> u8 list
    \<Rightarrow> ('d, u32 \<times> nat \<times> u8 list) state" where
  "raw_read_blocks B usbdev 0 offset wd dst = ret (offset, wd, dst)"
| "raw_read_blocks B usbdev (Suc n) offset wd dst = do {
     v \<leftarrow> rd32 B usbdev offset;
     let dst = put_bytes dst wd (word_bytes v);
     v \<leftarrow> rd32 B usbdev (offset + 4);
     let dst = put_bytes dst (wd + 4) (word_bytes v);
     v \<leftarrow> rd32 B usbdev (offset + 8);
     let dst = put_bytes dst (wd + 8) (word_bytes v);
     v \<leftarrow> rd32 B usbdev (offset + 12);
     let dst = put_bytes dst (wd + 12) (word_bytes v);
     raw_read_blocks B usbdev n (offset + 16) (wd + 16) dst
   }"

fun raw_read_words :: "'d bus \<Rightarrow> dif_usbdev \<Rightarrow> nat \<Rightarrow> u32 \<Rightarrow> nat \<Rightarrow> u8 list
    \<Rightarrow> ('d, u32 \<times> nat \<times> u8 list) state" where
  "raw_read_words B usbdev 0 offset wd dst = ret (offset, wd, dst)"
| "raw_read_words B usbdev (Suc n) offset wd dst = do {
     v \<leftarrow> rd32 B usbdev offset;
     raw_read_words B usbdev n (offset + 4) (wd + 4) (put_bytes dst wd (word_bytes v))
   }"

definition dif_usbdev_buffer_raw_read :: "'d bus \<Rightarrow> dif_usbdev ptr \<Rightarrow> u8 \<Rightarrow> (addr \<times> u8 list) ptr \<Rightarrow> u32
    \<Rightarrow> ('d, dif_result \<times> (addr \<times> u8 list) ptr) state" where
  "dif_usbdev_buffer_raw_read B usbdev bid dst dst_len = (case (usbdev, dst) of
     (Some usbdev, Some (dst_addr, bytes)) \<Rightarrow>
       if misalignment32_of dst_addr \<noteq> 0 \<or> unat dst_len > USBDEV_BUFFER_ENTRY_SIZE_BYTES
       then ret (kDifBadArg, dst)
       else do {
         (offset, wd, bytes) \<leftarrow>
           raw_read_blocks B usbdev (unat dst_len div 16) (get_buffer_addr bid 0) 0 bytes;
         let dst_len = unat dst_len mod 16;
         if dst_len = 0 then ret (kDifOk, Some (dst_addr, bytes))
         else do {
           (offset, wd, bytes) \<leftarrow> raw_read_words B usbdev (dst_len div 4) offset wd bytes;
           let dst_len = dst_len mod 4;
           if dst_len = 0 then ret (kDifOk, Some (dst_addr, bytes))
           else do {
             d \<leftarrow> rd32 B usbdev offset;
             let bytes = bytes[wd := ucast d];
             let bytes = (if dst_len > 1 then
               let bytes = bytes[wd + 1 := ucast (drop_bit 8 d)] in
               if dst_len > 2 then bytes[wd + 2 := ucast (drop_bit 16 d)] else bytes else bytes);
             ret (kDifOk, Some (dst_addr, bytes))
           }
         }
       }
   | _ \<Rightarrow> ret (kDifBadArg, dst))"

subsection \<open>The pool as a stack of buffer numbers\<close>

definition pool_ids :: "dif_usbdev_buffer_pool \<Rightarrow> u8 list" where
  "pool_ids p = rev (take (unat (pool_top p + 1)) (buffers p))"

definition pool_wf :: "dif_usbdev_buffer_pool \<Rightarrow> bool" where
  "pool_wf p \<longleftrightarrow> length (buffers p) = USBDEV_NUM_BUFFERS \<and> unat (pool_top p + 1) \<le> USBDEV_NUM_BUFFERS
    \<and> (\<forall>i\<in>set (pool_ids p). unat i < USBDEV_NUM_BUFFERS)"

lemma length_pool_ids: "pool_wf p \<Longrightarrow> length (pool_ids p) = unat (pool_top p + 1)"
  by (simp add: pool_ids_def pool_wf_def)

lemma pool_is_empty: "pool_wf p \<Longrightarrow> buffer_pool_is_empty p \<longleftrightarrow> pool_ids p = []"
  by (auto simp: buffer_pool_is_empty_def BUFFER_POOL_EMPTY_def pool_ids_def pool_wf_def
      USBDEV_NUM_BUFFERS_def unat_eq_zero add_eq_0_iff2)

lemma pool_is_full:
  assumes "pool_wf p"
  shows "buffer_pool_is_full p \<longleftrightarrow> length (pool_ids p) = 32"
proof -
  have "pool_top p = 31 \<longleftrightarrow> pool_top p + 1 = 32" using add_right_cancel [of "pool_top p" 1 31] by simp
  also have "\<dots> \<longleftrightarrow> unat (pool_top p + 1) = 32" by (simp add: word_unat_eq_iff)
  finally show ?thesis
    by (simp add: buffer_pool_is_full_def BUFFER_POOL_FULL_def USBDEV_NUM_BUFFERS_def length_pool_ids [OF assms])
qed

lemma unat_pool_top_plus_2:
  assumes "unat (w + 1 :: u8) < 32"
  shows "unat (2 + w) = Suc (unat (w + 1))"
proof -
  have e: "2 + w = 1 + (w + 1)" by simp
  have "1 + (w + 1) \<noteq> 0"
  proof
    assume "1 + (w + 1) = 0"
    then have "w + 1 = - 1" by (metis add_eq_0_iff)
    then have "unat (w + 1) = unat (- 1 :: u8)" by (simp only:)
    moreover have "unat (- 1 :: u8) = 255" by code_simp
    ultimately show False using assms by simp
  qed
  then show ?thesis unfolding e by (rule unatSuc)
qed

lemma pool_add:
  assumes "pool_wf p" "buffer_pool_add p i = (ok, p')"
  shows "ok \<longleftrightarrow> length (pool_ids p) < 32 \<and> unat i < 32"
    and "pool_wf p'" "pool_ids p' = (if ok then i # pool_ids p else pool_ids p)"
proof -
  let ?n = "unat (pool_top p + 1)"
  have l: "length (pool_ids p) = ?n" "?n \<le> 32" "length (buffers p) = 32"
    using assms(1) by (simp_all add: length_pool_ids) (simp_all add: pool_wf_def USBDEV_NUM_BUFFERS_def)
  then show ok: "ok \<longleftrightarrow> length (pool_ids p) < 32 \<and> unat i < 32"
    using assms by (auto simp: buffer_pool_add_def pool_is_full buffer_pool_is_valid_buffer_id_def
        USBDEV_NUM_BUFFERS_def Let_def split: if_splits)
  show ids: "pool_ids p' = (if ok then i # pool_ids p else pool_ids p)"
  proof (cases ok)
    case True
    with ok l have n: "?n < 32" by simp
    from True assms(2) have "pool_top p' = pool_top p + 1" "buffers p' = (buffers p)[?n := i]"
      by (auto simp: buffer_pool_add_def Let_def split: if_splits)
    with True n l show ?thesis by (simp add: pool_ids_def unat_pool_top_plus_2 take_Suc_conv_app_nth)
  next
    case False
    with assms(2) show ?thesis by (auto simp: buffer_pool_add_def Let_def split: if_splits)
  qed
  show "pool_wf p'"
  proof (cases ok)
    case True
    with ok l have n: "?n < 32" by simp
    from True assms(2) have "pool_top p' = pool_top p + 1" "buffers p' = (buffers p)[?n := i]"
      by (auto simp: buffer_pool_add_def Let_def split: if_splits)
    with True n ids ok assms(1) show ?thesis
      by (simp add: pool_wf_def unat_pool_top_plus_2 USBDEV_NUM_BUFFERS_def)
  next
    case False
    with assms show ?thesis by (auto simp: buffer_pool_add_def Let_def split: if_splits)
  qed
qed

lemma pool_remove:
  assumes "pool_wf p" "pool_ids p = x # xs"
  shows "\<exists>p'. buffer_pool_remove p (Some z) = (True, p', Some x) \<and> pool_wf p' \<and> pool_ids p' = xs"
proof -
  let ?n = "unat (pool_top p + 1)"
  have l: "length (pool_ids p) = ?n" "?n \<le> 32" "length (buffers p) = 32"
    using assms(1) by (simp_all add: length_pool_ids) (simp_all add: pool_wf_def USBDEV_NUM_BUFFERS_def)
  then have n: "?n = Suc (length xs)" using assms(2) by simp
  then have "pool_top p + 1 \<noteq> 0" by auto
  then have t: "unat (pool_top p) = length xs" using n unatSuc [of "pool_top p"] by (simp add: add.commute)
  define p' where "p' = p\<lparr>pool_top := pool_top p - 1\<rparr>"
  have "take ?n (buffers p) = rev xs @ [x]"
    using assms(2) by (simp add: pool_ids_def rev_eq_Cons_iff)
  moreover have "length xs < length (buffers p)" using n l by simp
  ultimately have x: "buffers p ! length xs = x" "take (length xs) (buffers p) = rev xs"
    unfolding n by (simp_all add: take_Suc_conv_app_nth)
  have "pool_ids p' = xs" using x t by (simp add: pool_ids_def p'_def)
  moreover from this have "pool_wf p'"
    using assms t l by (simp add: pool_wf_def p'_def USBDEV_NUM_BUFFERS_def)
  moreover have "buffer_pool_remove p (Some z) = (True, p', Some x)"
    using assms x t by (simp add: buffer_pool_remove_def pool_is_empty p'_def)
  ultimately show ?thesis by blast
qed

lemma pool_init_loop:
  assumes "pool_wf p" "pool_ids p = rev (map of_nat [0..<i])" "i \<le> 32"
  shows "\<exists>p'. buffer_pool_init_loop i p = (True, p') \<and> pool_wf p' \<and> pool_ids p' = rev (map of_nat [0..<32])"
  using assms
proof (induction i p rule: buffer_pool_init_loop.induct)
  case (1 i p)
  show ?case
  proof (cases "i < 32")
    case True
    obtain ok p' where a: "buffer_pool_add p (of_nat i) = (ok, p')" by fastforce
    have "unat (of_nat i :: u8) = i" using True by (simp add: unat_of_nat)
    with pool_add [OF 1(2) a] True 1(3) have "ok" "pool_wf p'" "pool_ids p' = rev (map of_nat [0..<i + 1])"
      by simp_all
    with 1(1) [OF _ a [symmetric]] True a show ?thesis
      by (subst buffer_pool_init_loop.simps) (simp add: USBDEV_NUM_BUFFERS_def)
  next
    case False
    with 1 show ?thesis
      by (subst buffer_pool_init_loop.simps) (simp add: USBDEV_NUM_BUFFERS_def)
  qed
qed

lemma pool_init:
  assumes "length (buffers p) = 32"
  shows "\<exists>p'. buffer_pool_init p = (True, p') \<and> pool_wf p' \<and> pool_ids p' = rev (map of_nat [0..<32])"
proof -
  have "pool_ids (p\<lparr>pool_top := - 1\<rparr>) = []" by (simp add: pool_ids_def)
  with assms have "pool_wf (p\<lparr>pool_top := - 1\<rparr>)" by (simp add: pool_wf_def USBDEV_NUM_BUFFERS_def)
  from pool_init_loop [OF this, of 0] \<open>pool_ids _ = []\<close> show ?thesis by (simp add: buffer_pool_init_def)
qed

end
