(* ===== verification/UsbTestutils.thy ===== *)
theory UsbTestutils
  imports TestFramework Usbdev IrqDifs
begin

section \<open>The USB test stack: endpoints, transfers and polling\<close>

text \<open>
  \<^verbatim>\<open>sw/device/lib/testing/usb_testutils.c\<close> on top of the USB driver. The context holds a table of IN and
  a table of OUT endpoints with the callbacks of their clients, and per IN endpoint a transfer that is
  sent packet by packet. The context's two pointers always point at the static \<^verbatim>\<open>usbdev\<close> and
  \<^verbatim>\<open>buffer_pool\<close>, which are fields here.

  A callback is a pointer to a function, called with an opaque pointer. Both are values of
  parameter types; the record \<open>usb_clients\<close> says which program a function pointer denotes. A
  program runs on the context, the memory of the clients and the device. The tracing macros
  \<^verbatim>\<open>TRC_S\<close>, \<^verbatim>\<open>TRC_C\<close>, \<^verbatim>\<open>TRC_I\<close> are empty in the normal build and left out.
\<close>

datatype usb_testutils_xfr_result =
    kUsbTestutilsXfrResultOk | kUsbTestutilsXfrResultFailed | kUsbTestutilsXfrResultLinkReset
  | kUsbTestutilsXfrResultCanceled

definition kUsbTestutilsXfrMaxPacketMask :: u32 where "kUsbTestutilsXfrMaxPacketMask = 0x7f"

definition kUsbTestutilsXfrMaxPacketSupplied :: u32 where "kUsbTestutilsXfrMaxPacketSupplied = 0x100"

definition kUsbTestutilsXfrDoubleBuffered :: u32 where "kUsbTestutilsXfrDoubleBuffered = 0x200"

definition kUsbTestutilsXfrEmployZLP :: u32 where "kUsbTestutilsXfrEmployZLP = 0x400"

datatype usb_testutils_transfer_type =
    kUsbTransferTypeControl | kUsbTransferTypeIsochronous | kUsbTransferTypeBulk | kUsbTransferTypeInterrupt

datatype usb_testutils_out_transfer_mode = kUsbdevOutDisabled | kUsbdevOutStream | kUsbdevOutMessage

record usb_testutils_transfer =
  xfer_buffer :: "u8 list ptr"
  xfer_length :: u32
  xfer_offset :: u32
  xfer_flags :: u32
  xfer_last :: bool
  next_valid :: bool
  next_part :: dif_usbdev_buffer

record ('c, 'h) usb_in_endpoint =
  in_ep_type :: usb_testutils_transfer_type
  in_ep_ctx :: "'c ptr"
  tx_done_callback :: "'h ptr"
  in_flush :: "'h ptr"
  in_reset :: "'h ptr"
  in_transfer :: usb_testutils_transfer

record ('c, 'h) usb_out_endpoint =
  out_ep_type :: usb_testutils_transfer_type
  out_ep_ctx :: "'c ptr"
  rx_callback :: "'h ptr"
  out_reset :: "'h ptr"

record ('c, 'h) usb_testutils_ctx =
  ctx_dev :: dif_usbdev
  ctx_pool :: dif_usbdev_buffer_pool
  flushed :: int
  got_frame :: bool
  ctx_frame :: u16
  in_eps :: "('c, 'h) usb_in_endpoint list"
  out_eps :: "('c, 'h) usb_out_endpoint list"

record ('c, 'h, 'u, 'd) usb_sys =
  ctx :: "('c, 'h) usb_testutils_ctx"
  client_mem :: 'u
  usb_device :: 'd

type_synonym ('c, 'h, 'u, 'd, 'a) usb_prog = "(('c, 'h, 'u, 'd) usb_sys, 'a) prog"

record ('c, 'h, 'u, 'd) usb_clients =
  run_tx_done :: "'h \<Rightarrow> 'c ptr \<Rightarrow> usb_testutils_xfr_result \<Rightarrow> ('c, 'h, 'u, 'd, unit) usb_prog"
  run_rx :: "'h \<Rightarrow> 'c ptr \<Rightarrow> dif_usbdev_rx_packet_info \<Rightarrow> dif_usbdev_buffer \<Rightarrow> ('c, 'h, 'u, 'd, unit) usb_prog"
  run_flush :: "'h \<Rightarrow> 'c ptr \<Rightarrow> ('c, 'h, 'u, 'd, unit) usb_prog"
  run_reset :: "'h \<Rightarrow> 'c ptr \<Rightarrow> ('c, 'h, 'u, 'd, unit) usb_prog"

text \<open>A driver call on the context's device, and one that also uses the context's buffer pool.\<close>

definition call :: "(dif_usbdev ptr \<Rightarrow> ('d, 'a) state) \<Rightarrow> ('c, 'h, 'u, 'd, 'a) usb_prog" where
  "call f s = (case run_state (f (Some (ctx_dev (ctx s)))) (usb_device s) of
     (a, d) \<Rightarrow> Some (Inr a, s\<lparr>usb_device := d\<rparr>))"

definition pool_call :: "(dif_usbdev ptr \<Rightarrow> dif_usbdev_buffer_pool ptr \<Rightarrow> ('d, 'a \<times> dif_usbdev_buffer_pool ptr) state)
    \<Rightarrow> ('c, 'h, 'u, 'd, 'a) usb_prog" where
  "pool_call f s = (case run_state (f (Some (ctx_dev (ctx s))) (Some (ctx_pool (ctx s)))) (usb_device s) of
     ((a, p), d) \<Rightarrow> Some (Inr a, s\<lparr>ctx := (ctx s)\<lparr>ctx_pool := the p\<rparr>, usb_device := d\<rparr>))"

definition buffer_request :: "dif_usbdev_buffer \<Rightarrow> ('c, 'h, 'u, 'd, dif_result \<times> dif_usbdev_buffer) usb_prog" where
  "buffer_request b = pool_call (\<lambda>dev pool. case dif_usbdev_buffer_request dev pool (Some b) of
     (r, pool, b) \<Rightarrow> ret ((r, the b), pool))"

definition buffer_return :: "dif_usbdev_buffer \<Rightarrow> ('c, 'h, 'u, 'd, dif_result \<times> dif_usbdev_buffer) usb_prog" where
  "buffer_return b = pool_call (\<lambda>dev pool. case dif_usbdev_buffer_return dev pool (Some b) of
     (r, pool, b) \<Rightarrow> ret ((r, the b), pool))"

definition in_ep_update :: "nat \<Rightarrow> (('c, 'h) usb_in_endpoint \<Rightarrow> ('c, 'h) usb_in_endpoint) \<Rightarrow> ('c, 'h, 'u, 'd, unit) usb_prog" where
  "in_ep_update ep f s = (let eps = in_eps (ctx s) in
     if ep < length eps then Some (Inr (), s\<lparr>ctx := (ctx s)\<lparr>in_eps := eps[ep := f (eps ! ep)]\<rparr>\<rparr>)
     else Some (Inl Undefined, s))"

definition out_ep_update :: "nat \<Rightarrow> (('c, 'h) usb_out_endpoint \<Rightarrow> ('c, 'h) usb_out_endpoint) \<Rightarrow> ('c, 'h, 'u, 'd, unit) usb_prog" where
  "out_ep_update ep f s = (let eps = out_eps (ctx s) in
     if ep < length eps then Some (Inr (), s\<lparr>ctx := (ctx s)\<lparr>out_eps := eps[ep := f (eps ! ep)]\<rparr>\<rparr>)
     else Some (Inl Undefined, s))"

definition in_ep :: "nat \<Rightarrow> ('c, 'h, 'u, 'd, ('c, 'h) usb_in_endpoint) usb_prog" where
  "in_ep ep = andThen (look (\<lambda>s. in_eps (ctx s))) (\<lambda>eps. at_index eps ep)"

definition out_ep :: "nat \<Rightarrow> ('c, 'h, 'u, 'd, ('c, 'h) usb_out_endpoint) usb_prog" where
  "out_ep ep = andThen (look (\<lambda>s. out_eps (ctx s))) (\<lambda>eps. at_index eps ep)"

definition usb_testutils_loc :: "u32 \<Rightarrow> code_location" where
  "usb_testutils_loc line = \<lparr>loc_module = make_module_id (chr CHR ''u'') (chr CHR ''s'') (chr CHR ''t''),
     loc_file = str ''sw/device/lib/testing/usb_testutils.c'', loc_line = line\<rparr>"

subsection \<open>Transfers\<close>

text \<open>Both callers pass the fields \<open>next_part\<close> and \<open>last\<close> of the transfer as the out parameters.\<close>

definition usb_testutils_part_prepare ::
    "'d bus \<Rightarrow> usb_testutils_transfer \<Rightarrow> ('c, 'h, 'u, 'd, bool \<times> usb_testutils_transfer) usb_prog" where
  "usb_testutils_part_prepare B transfer =
     andThen (buffer_request (next_part transfer)) (\<lambda>(result, buf).
     if result \<noteq> kDifOk then pure (False, transfer\<lparr>next_part := buf\<rparr>)
     else
       let max_packet = of_nat USBDEV_MAX_PACKET_SIZE;
           max_packet = (if xfer_flags transfer AND kUsbTestutilsXfrMaxPacketSupplied \<noteq> 0
             then xfer_flags transfer AND kUsbTestutilsXfrMaxPacketMask else max_packet);
           part_len = xfer_length transfer - xfer_offset transfer;
           part_len = (if part_len > max_packet then max_packet else part_len)
       in
       andThen
         (if part_len \<noteq> 0 then
            andThen (call (\<lambda>dev. dif_usbdev_buffer_write B dev (Some buf)
                (map_option (drop (unat (xfer_offset transfer))) (xfer_buffer transfer)) part_len (Some 0)))
              (\<lambda>(r, buf, bytes_written).
            andThen (CHECK_DIF_OK r) (\<lambda>_.
            pure (the buf, the bytes_written)))
          else pure (buf, 0)) (\<lambda>(buf, bytes_written).
       let next_offset = xfer_offset transfer + bytes_written;
           last = \<not> (bytes_written = max_packet \<and>
             (next_offset < xfer_length transfer \<or> xfer_flags transfer AND kUsbTestutilsXfrEmployZLP \<noteq> 0))
       in
       andThen (unless (bytes_written = max_packet) (CHECK (bytes_written < max_packet))) (\<lambda>_.
       pure (True, transfer\<lparr>next_part := buf, xfer_last := last, xfer_offset := next_offset\<rparr>))))"

definition usb_testutils_transfer_next_part ::
    "'d bus \<Rightarrow> u8 \<Rightarrow> usb_testutils_transfer \<Rightarrow> ('c, 'h, 'u, 'd, bool \<times> usb_testutils_transfer) usb_prog" where
  "usb_testutils_transfer_next_part B ep transfer =
     andThen (if \<not> next_valid transfer then usb_testutils_part_prepare B transfer else pure (True, transfer))
       (\<lambda>(prepared, transfer).
     if \<not> prepared then pure (False, transfer)
     else
       andThen (call (\<lambda>dev. dif_usbdev_send B dev ep (Some (next_part transfer)))) (\<lambda>(r, buf).
       andThen (CHECK_DIF_OK r) (\<lambda>_.
       let transfer = transfer\<lparr>next_part := the buf, next_valid := False\<rparr> in
       if xfer_flags transfer AND kUsbTestutilsXfrDoubleBuffered \<noteq> 0 \<and> \<not> xfer_last transfer
       then andThen (usb_testutils_part_prepare B transfer) (\<lambda>(valid, transfer).
         pure (True, transfer\<lparr>next_valid := valid\<rparr>))
       else pure (True, transfer))))"

definition usb_testutils_transfer_send ::
    "'d bus \<Rightarrow> u8 \<Rightarrow> u8 list ptr \<Rightarrow> u32 \<Rightarrow> u32 \<Rightarrow> ('c, 'h, 'u, 'd, bool) usb_prog" where
  "usb_testutils_transfer_send B ep data len flags =
     andThen (CHECK (unat ep < USBDEV_NUM_ENDPOINTS)) (\<lambda>_.
     andThen (in_ep (unat ep)) (\<lambda>e.
     let transfer = in_transfer e in
     if xfer_buffer transfer \<noteq> null then pure False
     else
       let transfer = transfer\<lparr>xfer_buffer := data, xfer_offset := 0, xfer_length := len, xfer_flags := flags,
             next_valid := False\<rparr> in
       andThen (usb_testutils_transfer_next_part B ep transfer) (\<lambda>(sent, transfer).
       if \<not> sent then
         andThen (in_ep_update (unat ep) (in_transfer_update (\<lambda>_. transfer\<lparr>xfer_buffer := null\<rparr>))) (\<lambda>_.
         pure False)
       else
         andThen (in_ep_update (unat ep) (in_transfer_update (\<lambda>_. transfer))) (\<lambda>_.
         pure True))))"

subsection \<open>Endpoints\<close>

definition usb_testutils_in_endpoint_setup :: "'d bus \<Rightarrow> u8 \<Rightarrow> usb_testutils_transfer_type \<Rightarrow> 'c ptr
    \<Rightarrow> 'h ptr \<Rightarrow> 'h ptr \<Rightarrow> 'h ptr \<Rightarrow> ('c, 'h, 'u, 'd, unit) usb_prog" where
  "usb_testutils_in_endpoint_setup B ep ep_type ep_ctx tx_done flush reset =
     andThen (in_ep_update (unat ep) (\<lambda>e. e\<lparr>in_ep_type := ep_type, in_ep_ctx := ep_ctx,
       tx_done_callback := tx_done, in_flush := flush, in_reset := reset\<rparr>)) (\<lambda>_.
     let endpoint = \<lparr>ep_number = ucast ep, ep_direction = USBDEV_ENDPOINT_DIR_IN\<rparr> in
     andThen (call (\<lambda>dev. dif_usbdev_endpoint_stall_enable B dev endpoint kDifToggleDisabled)) (\<lambda>r.
     andThen (TRY_DIF (usb_testutils_loc 298) r) (\<lambda>_.
     let iso = (if ep_type = kUsbTransferTypeIsochronous then kDifToggleEnabled else kDifToggleDisabled) in
     andThen (call (\<lambda>dev. dif_usbdev_endpoint_iso_enable B dev endpoint iso)) (\<lambda>r.
     andThen (CHECK_DIF_OK r) (\<lambda>_.
     andThen (call (\<lambda>dev. dif_usbdev_endpoint_enable B dev endpoint kDifToggleEnabled)) (\<lambda>r.
     TRY_DIF (usb_testutils_loc 308) r))))))"

definition usb_testutils_out_endpoint_setup :: "'d bus \<Rightarrow> u8 \<Rightarrow> usb_testutils_transfer_type
    \<Rightarrow> usb_testutils_out_transfer_mode \<Rightarrow> 'c ptr \<Rightarrow> 'h ptr \<Rightarrow> 'h ptr \<Rightarrow> ('c, 'h, 'u, 'd, unit) usb_prog" where
  "usb_testutils_out_endpoint_setup B ep ep_type out_mode ep_ctx rx reset =
     andThen (out_ep_update (unat ep) (\<lambda>e. e\<lparr>out_ep_type := ep_type, out_ep_ctx := ep_ctx,
       rx_callback := rx, out_reset := reset\<rparr>)) (\<lambda>_.
     let endpoint = \<lparr>ep_number = ucast ep, ep_direction = USBDEV_ENDPOINT_DIR_OUT\<rparr> in
     andThen (call (\<lambda>dev. dif_usbdev_endpoint_stall_enable B dev endpoint kDifToggleDisabled)) (\<lambda>r.
     andThen (TRY_DIF (usb_testutils_loc 327) r) (\<lambda>_.
     let iso = (if ep_type = kUsbTransferTypeIsochronous then kDifToggleEnabled else kDifToggleDisabled) in
     andThen (call (\<lambda>dev. dif_usbdev_endpoint_iso_enable B dev endpoint iso)) (\<lambda>r.
     andThen (CHECK_DIF_OK r) (\<lambda>_.
     let enabled = (if out_mode = kUsbdevOutDisabled then kDifToggleDisabled else kDifToggleEnabled);
         nak = (if out_mode = kUsbdevOutMessage then kDifToggleEnabled else kDifToggleDisabled) in
     andThen (call (\<lambda>dev. dif_usbdev_endpoint_out_enable B dev ep enabled)) (\<lambda>r.
     andThen (TRY_DIF (usb_testutils_loc 348) r) (\<lambda>_.
     andThen (call (\<lambda>dev. dif_usbdev_endpoint_set_nak_out_enable B dev ep nak)) (\<lambda>r.
     andThen (TRY_DIF (usb_testutils_loc 349) r) (\<lambda>_.
     andThen (call (\<lambda>dev. dif_usbdev_endpoint_enable B dev endpoint enabled)) (\<lambda>r.
     TRY_DIF (usb_testutils_loc 351) r))))))))))"

definition usb_testutils_endpoint_setup :: "'d bus \<Rightarrow> u8 \<Rightarrow> usb_testutils_transfer_type \<Rightarrow> usb_testutils_transfer_type
    \<Rightarrow> usb_testutils_out_transfer_mode \<Rightarrow> 'c ptr \<Rightarrow> 'h ptr \<Rightarrow> 'h ptr \<Rightarrow> 'h ptr \<Rightarrow> 'h ptr
    \<Rightarrow> ('c, 'h, 'u, 'd, unit) usb_prog" where
  "usb_testutils_endpoint_setup B ep in_type out_type out_mode ep_ctx tx_done rx flush reset =
     andThen (usb_testutils_in_endpoint_setup B ep in_type ep_ctx tx_done flush reset) (\<lambda>_.
     usb_testutils_out_endpoint_setup B ep out_type out_mode ep_ctx rx null)"

definition usb_testutils_in_endpoint_remove :: "'d bus \<Rightarrow> u8 \<Rightarrow> ('c, 'h, 'u, 'd, unit) usb_prog" where
  "usb_testutils_in_endpoint_remove B ep =
     (let endpoint = \<lparr>ep_number = ucast ep, ep_direction = USBDEV_ENDPOINT_DIR_IN\<rparr> in
     andThen (call (\<lambda>dev. dif_usbdev_endpoint_enable B dev endpoint kDifToggleDisabled)) (\<lambda>r.
     andThen (TRY_DIF (usb_testutils_loc 378) r) (\<lambda>_.
     in_ep_update (unat ep) (\<lambda>e. e\<lparr>tx_done_callback := null, in_flush := null, in_reset := null\<rparr>))))"

definition usb_testutils_out_endpoint_remove :: "'d bus \<Rightarrow> u8 \<Rightarrow> ('c, 'h, 'u, 'd, unit) usb_prog" where
  "usb_testutils_out_endpoint_remove B ep =
     (let endpoint = \<lparr>ep_number = ucast ep, ep_direction = USBDEV_ENDPOINT_DIR_OUT\<rparr> in
     andThen (call (\<lambda>dev. dif_usbdev_endpoint_enable B dev endpoint kDifToggleDisabled)) (\<lambda>r.
     andThen (TRY_DIF (usb_testutils_loc 395) r) (\<lambda>_.
     andThen (call (\<lambda>dev. dif_usbdev_endpoint_set_nak_out_enable B dev (ucast (ep_number endpoint))
       kDifToggleDisabled)) (\<lambda>r.
     andThen (TRY_DIF (usb_testutils_loc 398) r) (\<lambda>_.
     andThen (call (\<lambda>dev. dif_usbdev_endpoint_out_enable B dev (ucast (ep_number endpoint)) kDifToggleDisabled)) (\<lambda>r.
     andThen (TRY_DIF (usb_testutils_loc 400) r) (\<lambda>_.
     out_ep_update (unat ep) (\<lambda>e. e\<lparr>rx_callback := null, out_reset := null\<rparr>))))))))"

definition usb_testutils_endpoint_remove :: "'d bus \<Rightarrow> u8 \<Rightarrow> ('c, 'h, 'u, 'd, unit) usb_prog" where
  "usb_testutils_endpoint_remove B ep =
     andThen (usb_testutils_in_endpoint_remove B ep) (\<lambda>_.
     usb_testutils_out_endpoint_remove B ep)"

text \<open>\<^verbatim>\<open>TOP_CHIP_USBDEV_BASE_ADDR\<close> of the generated \<^verbatim>\<open>top_chip.h\<close>. The pointer to the context is never null
  in the repository.\<close>

definition USBDEV_BASE_ADDR :: u32 where "USBDEV_BASE_ADDR = 0x40400000"

definition usb_testutils_init :: "'d bus \<Rightarrow> bool \<Rightarrow> bool \<Rightarrow> bool \<Rightarrow> ('c, 'h, 'u, 'd, unit) usb_prog" where
  "usb_testutils_init B pinflip en_diff_rcvr tx_use_d_se0 =
     andThen (change (ctx_update (\<lambda>c. c\<lparr>got_frame := False, ctx_frame := 0\<rparr>))) (\<lambda>_.
     andThen (look (\<lambda>s. dif_init (mmio_region_from_addr USBDEV_BASE_ADDR) (Some (ctx_dev (ctx s))))) (\<lambda>(r, dev).
     andThen (change (ctx_update (ctx_dev_update (\<lambda>_. the dev)))) (\<lambda>_.
     andThen (TRY_DIF (usb_testutils_loc 426) r) (\<lambda>_.
     let config = \<lparr>
       have_differential_receiver = dif_bool_to_toggle en_diff_rcvr,
       use_tx_d_se0 = dif_bool_to_toggle tx_use_d_se0,
       single_bit_eop = kDifToggleDisabled,
       pin_flip = dif_bool_to_toggle pinflip,
       clock_sync_signals = kDifToggleEnabled\<rparr> in
     andThen (pool_call (\<lambda>dev pool. dif_usbdev_configure B dev pool config)) (\<lambda>r.
     andThen (TRY_DIF (usb_testutils_loc 435) r) (\<lambda>_.
     andThen (for_each [0..<USBDEV_NUM_ENDPOINTS] (\<lambda>i.
       usb_testutils_endpoint_setup B (of_nat i) kUsbTransferTypeControl kUsbTransferTypeControl
         kUsbdevOutDisabled null null null null null)) (\<lambda>_.
     andThen (call (\<lambda>dev. dif_usbdev_irq_disable_all B dev null)) (\<lambda>(r, _).
     andThen (TRY_DIF (usb_testutils_loc 447) r) (\<lambda>_.
     andThen (pool_call (\<lambda>dev pool. dif_usbdev_fill_available_fifos B dev pool)) (\<lambda>r.
     andThen (TRY_DIF (usb_testutils_loc 450) r) (\<lambda>_.
     andThen (call (\<lambda>dev. dif_usbdev_endpoint_setup_enable B dev 0 kDifToggleEnabled)) (\<lambda>r.
     TRY_DIF (usb_testutils_loc 455) r))))))))))))"

definition usb_testutils_fin :: "'d bus \<Rightarrow> ('c, 'h, 'u, 'd, unit) usb_prog" where
  "usb_testutils_fin B =
     andThen (for_each (rev [0..<USBDEV_NUM_ENDPOINTS]) (\<lambda>ep. usb_testutils_endpoint_remove B (of_nat ep))) (\<lambda>_.
     andThen (call (\<lambda>dev. dif_usbdev_interface_enable B dev kDifToggleDisabled)) (\<lambda>r.
     TRY_DIF (usb_testutils_loc 473) r))"

subsection \<open>Polling\<close>

text \<open>One endpoint of the set of endpoints that have sent a packet.\<close>

definition poll_sent_endpoint :: "'d bus \<Rightarrow> ('c, 'h, 'u, 'd) usb_clients \<Rightarrow> nat \<Rightarrow> ('c, 'h, 'u, 'd, unit) usb_prog" where
  "poll_sent_endpoint B cl ep =
     andThen (pool_call (\<lambda>dev pool. dif_usbdev_clear_tx_status B dev pool (of_nat ep))) (\<lambda>r.
     andThen (TRY_DIF (usb_testutils_loc 112) r) (\<lambda>_.
     andThen (in_ep ep) (\<lambda>e.
     let transfer = in_transfer e in
     andThen
       (if xfer_buffer transfer \<noteq> null then
          andThen
            (if next_valid transfer \<or> \<not> xfer_last transfer then
               andThen (usb_testutils_transfer_next_part B (of_nat ep) transfer) (\<lambda>(sent, transfer).
               pure (if sent then (False, kUsbTestutilsXfrResultOk, transfer)
                 else (True, kUsbTestutilsXfrResultFailed, transfer)))
             else pure (True, kUsbTestutilsXfrResultOk, transfer)) (\<lambda>(finished, res, transfer).
          andThen (in_ep_update ep (in_transfer_update (\<lambda>_.
            if finished then transfer\<lparr>xfer_buffer := null\<rparr> else transfer))) (\<lambda>_.
          pure (finished, res)))
        else pure (True, kUsbTestutilsXfrResultOk)) (\<lambda>(finished, res).
     case tx_done_callback e of
       Some cb \<Rightarrow> if finished then run_tx_done cl cb (in_ep_ctx e) res else pure ()
     | None \<Rightarrow> pure ()))))"

function poll_sent :: "'d bus \<Rightarrow> ('c, 'h, 'u, 'd) usb_clients \<Rightarrow> u16 \<Rightarrow> nat \<Rightarrow> ('c, 'h, 'u, 'd, unit) usb_prog" where
  "poll_sent B cl sentep ep =
     (if sentep \<noteq> 0 \<and> ep < USBDEV_NUM_ENDPOINTS then
        if sentep AND push_bit ep 1 \<noteq> 0 then
          andThen (poll_sent_endpoint B cl ep) (\<lambda>_.
          poll_sent B cl (sentep AND NOT (push_bit ep 1)) (ep + 1))
        else poll_sent B cl sentep (ep + 1)
      else pure ())"
  by pat_completeness auto
termination
  by (relation "measure (\<lambda>(_, _, _, ep). USBDEV_NUM_ENDPOINTS - ep)") auto

declare poll_sent.simps [simp del]

text \<open>One turn of the reception loop; it gives whether there was a packet. The loop ends when the
  device has no more packets, which nothing guarantees.\<close>

definition poll_receive_one :: "'d bus \<Rightarrow> ('c, 'h, 'u, 'd) usb_clients \<Rightarrow> ('c, 'h, 'u, 'd, bool) usb_prog" where
  "poll_receive_one B cl =
     andThen (call (\<lambda>dev. dif_usbdev_status_get_rx_fifo_empty B dev (Some False))) (\<lambda>(r, is_empty).
     andThen (TRY_DIF (usb_testutils_loc 151) r) (\<lambda>_.
     if the is_empty then pure False
     else
       andThen (call (\<lambda>dev. dif_usbdev_recv B dev (Some \<lparr>rx_endpoint = 0, rx_length = 0, rx_is_setup = False\<rparr>)
         (Some \<lparr>buf_id = 0, buf_offset = 0, remaining_bytes = 0, buf_type = kDifUsbdevBufferTypeRead\<rparr>)))
         (\<lambda>(r, packet_info, buffer).
       andThen (TRY_DIF (usb_testutils_loc 158) r) (\<lambda>_.
       andThen (out_ep (unat (rx_endpoint (the packet_info)))) (\<lambda>e.
       andThen
         (case rx_callback e of
            Some cb \<Rightarrow> run_rx cl cb (out_ep_ctx e) (the packet_info) (the buffer)
          | None \<Rightarrow> andThen (buffer_return (the buffer)) (\<lambda>(r, _). TRY_DIF (usb_testutils_loc 167) r)) (\<lambda>_.
       pure True))))))"

partial_function (option) poll_received :: "'d bus \<Rightarrow> ('c, 'h, 'u, 'd) usb_clients \<Rightarrow> ('c, 'h, 'u, 'd) usb_sys
    \<Rightarrow> ((failure + unit) \<times> ('c, 'h, 'u, 'd) usb_sys) option" where
  "poll_received B cl s =
     andThen (poll_receive_one B cl) (\<lambda>more s. if more then poll_received B cl s else pure () s) s"

definition poll_link_reset :: "('c, 'h, 'u, 'd) usb_clients \<Rightarrow> ('c, 'h, 'u, 'd, unit) usb_prog" where
  "poll_link_reset cl = for_each [0..<USBDEV_NUM_ENDPOINTS] (\<lambda>ep.
     andThen (in_ep ep) (\<lambda>e.
     andThen (case in_reset e of Some cb \<Rightarrow> run_reset cl cb (in_ep_ctx e) | None \<Rightarrow> pure ()) (\<lambda>_.
     andThen (out_ep ep) (\<lambda>e.
     case out_reset e of Some cb \<Rightarrow> run_reset cl cb (out_ep_ctx e) | None \<Rightarrow> pure ()))))"

definition poll_flush :: "('c, 'h, 'u, 'd) usb_clients \<Rightarrow> ('c, 'h, 'u, 'd, unit) usb_prog" where
  "poll_flush cl =
     andThen (look ctx) (\<lambda>c.
     if got_frame c \<and> ctx_frame c AND 0xf = 1 then
       if flushed c = 0 then
         andThen (for_each [0..<USBDEV_NUM_ENDPOINTS] (\<lambda>ep.
           andThen (in_ep ep) (\<lambda>e.
           case in_flush e of Some cb \<Rightarrow> run_flush cl cb (in_ep_ctx e) | None \<Rightarrow> pure ()))) (\<lambda>_.
         change (ctx_update (flushed_update (\<lambda>_. 1))))
       else pure ()
     else change (ctx_update (flushed_update (\<lambda>_. 0))))"

text \<open>The branch on unexpected interrupts only logs them.\<close>

definition irq_bit :: "u32 \<Rightarrow> u32 \<Rightarrow> bool" where
  "irq_bit istate irq \<longleftrightarrow> istate AND push_bit (unat irq) 1 \<noteq> 0"

definition usb_testutils_poll :: "'d bus \<Rightarrow> ('c, 'h, 'u, 'd) usb_clients \<Rightarrow> ('c, 'h, 'u, 'd, unit) usb_prog" where
  "usb_testutils_poll B cl =
     andThen (call (\<lambda>dev. dif_usbdev_irq_get_state B dev (Some 0))) (\<lambda>(r, istate).
     andThen (TRY_DIF (usb_testutils_loc 95) r) (\<lambda>_.
     let istate = the istate in
     if istate = 0 then pure ()
     else
       andThen
         (if irq_bit istate kDifUsbdevIrqPktSent then
            andThen (call (\<lambda>dev. dif_usbdev_get_tx_sent B dev (Some 0))) (\<lambda>(r, sentep).
            andThen (TRY_DIF (usb_testutils_loc 106) r) (\<lambda>_.
            poll_sent B cl (the sentep) 0))
          else pure ()) (\<lambda>_.
       andThen (pool_call (\<lambda>dev pool. dif_usbdev_fill_available_fifos B dev pool)) (\<lambda>r.
       andThen (TRY_DIF (usb_testutils_loc 144) r) (\<lambda>_.
       andThen (if irq_bit istate kDifUsbdevIrqPktReceived then poll_received B cl else pure ()) (\<lambda>_.
       andThen (if irq_bit istate kDifUsbdevIrqLinkReset then poll_link_reset cl else pure ()) (\<lambda>_.
       andThen (call (\<lambda>dev. dif_usbdev_irq_acknowledge_state B dev istate)) (\<lambda>r.
       andThen (TRY_DIF (usb_testutils_loc 188) r) (\<lambda>_.
       andThen
         (if irq_bit istate kDifUsbdevIrqFrame then
            andThen (look (\<lambda>s. ctx_frame (ctx s))) (\<lambda>old.
            andThen (call (\<lambda>dev. dif_usbdev_status_get_frame B dev (Some old))) (\<lambda>(r, frame).
            andThen (change (ctx_update (ctx_frame_update (\<lambda>_. the frame)))) (\<lambda>_.
            andThen (TRY_DIF (usb_testutils_loc 193) r) (\<lambda>_.
            change (ctx_update (got_frame_update (\<lambda>_. True)))))))
          else pure ()) (\<lambda>_.
       poll_flush cl))))))))))"

end
