(* ===== verification/UsbControlep.thy ===== *)
theory UsbControlep
  imports UsbTestutils BaseMath
begin

section \<open>The USB control endpoint\<close>

text \<open>
  \<^verbatim>\<open>sw/device/lib/testing/usb_testutils_controlep.c\<close>: the default control pipe. It is a client of the
  test stack with three callbacks and one context, whose address is the opaque pointer \<open>Some ()\<close>.
  The state of the current control transfer is \<open>ctrlstate\<close>.
\<close>

datatype usb_testutils_ctstate =
    kUsbTestutilsCtIdle | kUsbTestutilsCtWaitIn | kUsbTestutilsCtStatOut | kUsbTestutilsCtAddrStatIn
  | kUsbTestutilsCtCfgStatIn | kUsbTestutilsCtStatIn | kUsbTestutilsCtError

datatype usb_testutils_device_state =
    kUsbTestutilsDeviceAttached | kUsbTestutilsDevicePowered | kUsbTestutilsDeviceDefault
  | kUsbTestutilsDeviceAddressed | kUsbTestutilsDeviceConfigured | kUsbTestutilsDeviceSuspended

record usb_testutils_controlep_ctx =
  ctrl_ep :: u8
  ctrlstate :: usb_testutils_ctstate
  device_state :: usb_testutils_device_state
  new_dev :: u8
  new_config :: u8
  usb_config :: u8
  cfg_dscr :: "u8 list ptr"
  cfg_dscr_len :: u32
  test_dscr :: "u8 list ptr"
  test_dscr_len :: u32

datatype ctrl_handler = Ctrl_tx_done | Ctrl_rx | Ctrl_reset

type_synonym 'd ctrl_sys = "(unit, ctrl_handler, usb_testutils_controlep_ctx, 'd) usb_sys"
type_synonym ('d, 'a) ctrl_prog = "('d ctrl_sys, 'a) prog"

definition kDevDscr :: "u8 list" where
  "kDevDscr = [18, 1, 0x00, 0x02, 0x00, 0x00, 0x00, 64, 0xd1, 0x18, 0x3a, 0x50, 0, 0x1, 0, 0, 0, 1]"

definition kUsbSetupReqGetStatus :: u8 where "kUsbSetupReqGetStatus = 0"
definition kUsbSetupReqClearFeature :: u8 where "kUsbSetupReqClearFeature = 1"
definition kUsbSetupReqSetFeature :: u8 where "kUsbSetupReqSetFeature = 3"
definition kUsbSetupReqSetAddress :: u8 where "kUsbSetupReqSetAddress = 5"
definition kUsbSetupReqGetDescriptor :: u8 where "kUsbSetupReqGetDescriptor = 6"
definition kUsbSetupReqGetConfiguration :: u8 where "kUsbSetupReqGetConfiguration = 8"
definition kUsbSetupReqSetConfiguration :: u8 where "kUsbSetupReqSetConfiguration = 9"
definition kUsbSetupReqGetInterface :: u8 where "kUsbSetupReqGetInterface = 10"
definition kUsbSetupReqSetInterface :: u8 where "kUsbSetupReqSetInterface = 11"
definition kUsbSetupReqSynchFrame :: u8 where "kUsbSetupReqSynchFrame = 12"
definition kVendorSetupReqTestConfig :: u8 where "kVendorSetupReqTestConfig = 0x7C"
definition kUsbReqTypeRecipientMask :: u8 where "kUsbReqTypeRecipientMask = 0x1f"
definition kUsbReqTypeDevice :: u8 where "kUsbReqTypeDevice = 0"
definition kUsbReqTypeEndpoint :: u8 where "kUsbReqTypeEndpoint = 2"
definition kUsbReqTypeTypeMask :: u8 where "kUsbReqTypeTypeMask = 0x60"
definition kUsbReqTypeVendor :: u8 where "kUsbReqTypeVendor = 0x40"
definition kUsbFeatureEndpointHalt :: u16 where "kUsbFeatureEndpointHalt = 0"
definition kUsbStatusSelfPowered :: u32 where "kUsbStatusSelfPowered = 1"
definition kUsbStatusHalted :: u32 where "kUsbStatusHalted = 1"

definition usb_controlep_loc :: "u32 \<Rightarrow> code_location" where
  "usb_controlep_loc line = \<lparr>loc_module = make_module_id (chr CHR ''u'') (chr CHR ''t'') (chr CHR ''c''),
     loc_file = str ''sw/device/lib/testing/usb_testutils_controlep.c'', loc_line = line\<rparr>"

subsection \<open>Requests\<close>

text \<open>The end of every branch that answers: the buffer, to which the data stage is written first or
  which stays empty for a status stage, is sent on the control endpoint.\<close>

definition ctrl_send :: "'d bus \<Rightarrow> dif_usbdev_buffer \<Rightarrow> usb_testutils_ctstate \<Rightarrow> ('d, usb_testutils_ctstate) ctrl_prog" where
  "ctrl_send B buffer st =
     andThen (look client_mem) (\<lambda>c.
     andThen (call (\<lambda>dev. dif_usbdev_send B dev (ctrl_ep c) (Some buffer))) (\<lambda>(r, _).
     andThen (CHECK_DIF_OK r) (\<lambda>_.
     pure st)))"

definition ctrl_reply :: "'d bus \<Rightarrow> dif_usbdev_buffer \<Rightarrow> u8 list ptr \<Rightarrow> u32 \<Rightarrow> ('d, usb_testutils_ctstate) ctrl_prog" where
  "ctrl_reply B buffer src len =
     andThen (call (\<lambda>dev. dif_usbdev_buffer_write B dev (Some buffer) src len (Some 0))) (\<lambda>(r, buffer, _).
     andThen (CHECK_DIF_OK r) (\<lambda>_.
     ctrl_send B (the buffer) kUsbTestutilsCtWaitIn))"

definition at_most :: "u16 \<Rightarrow> u32 \<Rightarrow> u32" where
  "at_most wLength len = (if ucast wLength < len then ucast wLength else len)"

definition get_device_descriptor :: "'d bus \<Rightarrow> dif_usbdev_buffer \<Rightarrow> u16 \<Rightarrow> ('d, usb_testutils_ctstate) ctrl_prog" where
  "get_device_descriptor B buffer wLength =
     (let len = at_most wLength (of_nat (length kDevDscr)) in
     andThen (call (\<lambda>dev. dif_usbdev_buffer_write B dev (Some buffer) (Some kDevDscr) len (Some 0)))
       (\<lambda>(r, buffer, bytes_written).
     andThen (CHECK_DIF_OK r) (\<lambda>_.
     andThen (CHECK (the bytes_written = len)) (\<lambda>_.
     ctrl_send B (the buffer) kUsbTestutilsCtWaitIn))))"

definition get_configuration_descriptor :: "'d bus \<Rightarrow> dif_usbdev_buffer \<Rightarrow> u16 \<Rightarrow> ('d, usb_testutils_ctstate) ctrl_prog" where
  "get_configuration_descriptor B buffer wLength =
     andThen (look client_mem) (\<lambda>c.
     let flags = kUsbTestutilsXfrDoubleBuffered;
         len = cfg_dscr_len c;
         flags = (if \<not> ucast wLength < len \<and> ucast wLength > len then flags OR kUsbTestutilsXfrEmployZLP else flags);
         len = at_most wLength len
     in
     if len \<ge> of_nat USBDEV_MAX_PACKET_SIZE then
       andThen (buffer_return buffer) (\<lambda>(r, _).
       andThen (CHECK_DIF_OK r) (\<lambda>_.
       andThen (UNWRAP (usb_testutils_transfer_send B 0 (cfg_dscr c) len flags)) (\<lambda>accepted.
       pure (if accepted then kUsbTestutilsCtWaitIn else kUsbTestutilsCtError))))
     else ctrl_reply B buffer (cfg_dscr c) len)"

definition set_endpoint_halt :: "'d bus \<Rightarrow> dif_usbdev_buffer \<Rightarrow> dif_usbdev_endpoint_id \<Rightarrow> u16 \<Rightarrow> dif_toggle
    \<Rightarrow> ('d, usb_testutils_ctstate) ctrl_prog" where
  "set_endpoint_halt B buffer endpoint wValue halted =
     (if wValue = kUsbFeatureEndpointHalt then
        andThen (call (\<lambda>dev. dif_usbdev_endpoint_stall_enable B dev endpoint halted)) (\<lambda>r.
        andThen (CHECK_DIF_OK r) (\<lambda>_.
        ctrl_send B buffer kUsbTestutilsCtStatIn))
      else pure kUsbTestutilsCtError)"

definition get_status :: "'d bus \<Rightarrow> dif_usbdev_buffer \<Rightarrow> dif_usbdev_endpoint_id \<Rightarrow> u8 \<Rightarrow> u16
    \<Rightarrow> ('d, usb_testutils_ctstate) ctrl_prog" where
  "get_status B buffer endpoint bmRequestType wLength =
     (let recipient = bmRequestType AND kUsbReqTypeRecipientMask in
     andThen
       (if recipient = kUsbReqTypeDevice then pure kUsbStatusSelfPowered
        else if recipient = kUsbReqTypeEndpoint then
          andThen (call (\<lambda>dev. dif_usbdev_endpoint_stall_get B dev endpoint (Some False))) (\<lambda>(r, halted).
          andThen (CHECK_DIF_OK r) (\<lambda>_.
          pure (if the halted then kUsbStatusHalted else 0)))
        else pure 0) (\<lambda>stat.
     ctrl_reply B buffer (Some (word_bytes stat)) (at_most wLength 2)))"

definition setup_req :: "'d bus \<Rightarrow> u8 \<Rightarrow> u8 \<Rightarrow> u16 \<Rightarrow> u16 \<Rightarrow> u16 \<Rightarrow> ('d, usb_testutils_ctstate) ctrl_prog" where
  "setup_req B bmRequestType bRequest wValue wIndex wLength =
     (let endpoint = \<lparr>ep_number = ucast (ucast wIndex :: u8), ep_direction = (if bmRequestType AND 0x80 \<noteq> 0 then 1 else 0)\<rparr>;
          zero = word_bytes 0 in
     andThen (buffer_request \<lparr>buf_id = 0, buf_offset = 0, remaining_bytes = 0, buf_type = kDifUsbdevBufferTypeRead\<rparr>)
       (\<lambda>(r, buffer).
     andThen (CHECK_DIF_OK r) (\<lambda>_.
     if bRequest = kUsbSetupReqGetDescriptor then
       if wValue AND 0xff00 = 0x100 then get_device_descriptor B buffer wLength
       else if wValue AND 0xff00 = 0x200 then get_configuration_descriptor B buffer wLength
       else pure kUsbTestutilsCtError
     else if bRequest = kUsbSetupReqSetAddress then
       andThen (change (client_mem_update (new_dev_update (\<lambda>_. ucast (wValue AND 0x7f))))) (\<lambda>_.
       ctrl_send B buffer kUsbTestutilsCtAddrStatIn)
     else if bRequest = kUsbSetupReqSetConfiguration then
       andThen (change (client_mem_update (new_config_update (\<lambda>_. ucast wValue)))) (\<lambda>_.
       ctrl_send B buffer kUsbTestutilsCtCfgStatIn)
     else if bRequest = kUsbSetupReqGetConfiguration then
       andThen (look client_mem) (\<lambda>c. ctrl_reply B buffer (Some [usb_config c]) (at_most wLength 1))
     else if bRequest = kUsbSetupReqSetFeature then set_endpoint_halt B buffer endpoint wValue kDifToggleEnabled
     else if bRequest = kUsbSetupReqClearFeature then set_endpoint_halt B buffer endpoint wValue kDifToggleDisabled
     else if bRequest = kUsbSetupReqGetStatus then get_status B buffer endpoint bmRequestType wLength
     else if bRequest = kUsbSetupReqSetInterface then ctrl_send B buffer kUsbTestutilsCtStatIn
     else if bRequest = kUsbSetupReqGetInterface then ctrl_reply B buffer (Some zero) (at_most wLength 1)
     else if bRequest = kUsbSetupReqSynchFrame then ctrl_reply B buffer (Some zero) (at_most wLength 2)
     else
       andThen (look client_mem) (\<lambda>c.
       if bmRequestType AND kUsbReqTypeTypeMask = kUsbReqTypeVendor \<and> test_dscr c \<noteq> null
         \<and> bRequest = kVendorSetupReqTestConfig
       then ctrl_reply B buffer (test_dscr c) (at_most wLength (test_dscr_len c))
       else pure kUsbTestutilsCtError))))"

subsection \<open>The callbacks\<close>

definition set_ctrlstate :: "usb_testutils_ctstate \<Rightarrow> ('d, unit) ctrl_prog" where
  "set_ctrlstate st = change (client_mem_update (ctrlstate_update (\<lambda>_. st)))"

definition set_device_state :: "usb_testutils_device_state \<Rightarrow> ('d, unit) ctrl_prog" where
  "set_device_state st = change (client_mem_update (device_state_update (\<lambda>_. st)))"

definition ctrl_tx_done :: "'d bus \<Rightarrow> usb_testutils_xfr_result \<Rightarrow> ('d, unit) ctrl_prog" where
  "ctrl_tx_done B result =
     andThen (look client_mem) (\<lambda>c.
     case ctrlstate c of
       kUsbTestutilsCtAddrStatIn \<Rightarrow>
         andThen (call (\<lambda>dev. dif_usbdev_address_set B dev (new_dev c))) (\<lambda>r.
         andThen (TRY_DIF (usb_controlep_loc 298) r) (\<lambda>_.
         andThen (set_ctrlstate kUsbTestutilsCtIdle) (\<lambda>_.
         set_device_state kUsbTestutilsDeviceAddressed)))
     | kUsbTestutilsCtCfgStatIn \<Rightarrow>
         andThen (change (client_mem_update (usb_config_update (\<lambda>_. new_config c)))) (\<lambda>_.
         andThen (set_ctrlstate kUsbTestutilsCtIdle) (\<lambda>_.
         set_device_state (if new_config c \<noteq> 0 then kUsbTestutilsDeviceConfigured else kUsbTestutilsDeviceAddressed)))
     | kUsbTestutilsCtStatIn \<Rightarrow> set_ctrlstate kUsbTestutilsCtIdle
     | kUsbTestutilsCtWaitIn \<Rightarrow> set_ctrlstate kUsbTestutilsCtStatOut
     | _ \<Rightarrow> pure ())"

text \<open>The end of \<open>ctrl_rx\<close>: what is not understood is answered with a stall.\<close>

definition ctrl_rx_stall :: "'d bus \<Rightarrow> dif_usbdev_buffer \<Rightarrow> ('d, unit) ctrl_prog" where
  "ctrl_rx_stall B buffer =
     andThen (call (\<lambda>dev. dif_usbdev_endpoint_stall_enable B dev
       \<lparr>ep_number = 0, ep_direction = USBDEV_ENDPOINT_DIR_IN\<rparr> kDifToggleEnabled)) (\<lambda>r.
     andThen (TRY_DIF (usb_controlep_loc 389) r) (\<lambda>_.
     andThen (call (\<lambda>dev. dif_usbdev_endpoint_stall_enable B dev
       \<lparr>ep_number = 0, ep_direction = USBDEV_ENDPOINT_DIR_OUT\<rparr> kDifToggleEnabled)) (\<lambda>r.
     andThen (TRY_DIF (usb_controlep_loc 391) r) (\<lambda>_.
     andThen
       (if buf_type buffer \<noteq> kDifUsbdevBufferTypeStale then
          andThen (buffer_return buffer) (\<lambda>(r, _). TRY_DIF (usb_controlep_loc 399) r)
        else pure ()) (\<lambda>_.
     set_ctrlstate kUsbTestutilsCtIdle)))))"

definition ctrl_rx :: "'d bus \<Rightarrow> dif_usbdev_rx_packet_info \<Rightarrow> dif_usbdev_buffer \<Rightarrow> ('d, unit) ctrl_prog" where
  "ctrl_rx B packet_info buffer =
     andThen (call (\<lambda>dev. dif_usbdev_endpoint_out_enable B dev 0 kDifToggleEnabled)) (\<lambda>r.
     andThen (TRY_DIF (usb_controlep_loc 336) r) (\<lambda>_.
     andThen (look client_mem) (\<lambda>c.
     case ctrlstate c of
       kUsbTestutilsCtIdle \<Rightarrow>
         if rx_is_setup packet_info \<and> rx_length packet_info = 8 then
           andThen (pool_call (\<lambda>dev pool. do {
             (r, pool, buffer, bp, n) \<leftarrow>
               dif_usbdev_buffer_read B dev pool (Some buffer) (Some (replicate 8 0)) 8 (Some 0);
             ret ((r, the buffer, the bp), pool)
           })) (\<lambda>(r, buffer, bp).
           andThen (TRY_DIF (usb_controlep_loc 348) r) (\<lambda>_.
           let bmRequestType = bp ! 0;
               bRequest = bp ! 1;
               wValue = push_bit 8 (ucast (bp ! 3)) OR ucast (bp ! 2);
               wIndex = push_bit 8 (ucast (bp ! 5)) OR ucast (bp ! 4);
               wLength = push_bit 8 (ucast (bp ! 7)) OR ucast (bp ! 6)
           in
           andThen (setup_req B bmRequestType bRequest wValue wIndex wLength) (\<lambda>st.
           andThen (set_ctrlstate st) (\<lambda>_.
           if st \<noteq> kUsbTestutilsCtError then pure () else ctrl_rx_stall B buffer))))
         else ctrl_rx_stall B buffer
     | kUsbTestutilsCtStatOut \<Rightarrow>
         if \<not> rx_is_setup packet_info \<and> rx_length packet_info = 0 then
           andThen (buffer_return buffer) (\<lambda>(r, _).
           andThen (TRY_DIF (usb_controlep_loc 373) r) (\<lambda>_.
           set_ctrlstate kUsbTestutilsCtIdle))
         else ctrl_rx_stall B buffer
     | _ \<Rightarrow> ctrl_rx_stall B buffer)))"

definition ctrl_reset :: "('d, unit) ctrl_prog" where
  "ctrl_reset = andThen (set_ctrlstate kUsbTestutilsCtIdle) (\<lambda>_. set_device_state kUsbTestutilsDeviceDefault)"

text \<open>The functions behind the pointers that \<open>usb_testutils_controlep_init\<close> registers. A pointer is
  called only where it was registered, and every one of the functions dereferences its context.\<close>

definition ctrl_clients :: "'d bus \<Rightarrow> (unit, ctrl_handler, usb_testutils_controlep_ctx, 'd) usb_clients" where
  "ctrl_clients B = \<lparr>
     run_tx_done = (\<lambda>f ctctx_v result.
       if f = Ctrl_tx_done \<and> ctctx_v \<noteq> null then ctrl_tx_done B result else leave Undefined),
     run_rx = (\<lambda>f ctctx_v packet_info buffer.
       if f = Ctrl_rx \<and> ctctx_v \<noteq> null then ctrl_rx B packet_info buffer else leave Undefined),
     run_flush = (\<lambda>f _. leave Undefined),
     run_reset = (\<lambda>f ctctx_v. if f = Ctrl_reset \<and> ctctx_v \<noteq> null then ctrl_reset else leave Undefined)\<rparr>"

definition usb_testutils_controlep_init :: "'d bus \<Rightarrow> u8 \<Rightarrow> u8 list ptr \<Rightarrow> u32 \<Rightarrow> u8 list ptr \<Rightarrow> u32
    \<Rightarrow> ('d, unit) ctrl_prog" where
  "usb_testutils_controlep_init B ep dscr dscr_len tdscr tdscr_len =
     andThen (usb_testutils_endpoint_setup B ep kUsbTransferTypeControl kUsbTransferTypeControl kUsbdevOutMessage
       (Some ()) (Some Ctrl_tx_done) (Some Ctrl_rx) null (Some Ctrl_reset)) (\<lambda>_.
     andThen (change (client_mem_update (\<lambda>c. c\<lparr>ctrl_ep := ep, ctrlstate := kUsbTestutilsCtIdle,
       cfg_dscr := dscr, cfg_dscr_len := dscr_len, test_dscr := tdscr, test_dscr_len := tdscr_len,
       device_state := kUsbTestutilsDeviceDefault\<rparr>))) (\<lambda>_.
     andThen (call (\<lambda>dev. dif_usbdev_interface_enable B dev kDifToggleEnabled)) (\<lambda>r.
     TRY_DIF (usb_controlep_loc 436) r)))"

subsection \<open>Waiting for the configuration\<close>

text \<open>The timeouts of \<^verbatim>\<open>runtime/ibex.h\<close>. The cycle counter is read in assembly, so reading it is a
  parameter, as are the clock frequency and the kind of device, which are linked in.\<close>

record ibex_timeout =
  timeout_cycles :: u64
  timeout_start :: u64

definition ibex_timeout_init :: "('d, u64) state \<Rightarrow> u64 \<Rightarrow> u32 \<Rightarrow> ('d, ibex_timeout) state" where
  "ibex_timeout_init ibex_mcycle_read kClockFreqCpuHz timeout_usec = do {
     now \<leftarrow> ibex_mcycle_read;
     ret \<lparr>timeout_cycles = fst (udiv64_slow (kClockFreqCpuHz * ucast timeout_usec) 1000000 null),
       timeout_start = now\<rparr>
   }"

definition ibex_timeout_check :: "('d, u64) state \<Rightarrow> ibex_timeout \<Rightarrow> ('d, bool) state" where
  "ibex_timeout_check ibex_mcycle_read timeout = do {
     now \<leftarrow> ibex_mcycle_read;
     ret (now - timeout_start timeout > timeout_cycles timeout)
   }"

definition ibex_timeout_elapsed :: "('d, u64) state \<Rightarrow> u64 \<Rightarrow> ibex_timeout \<Rightarrow> ('d, u64) state" where
  "ibex_timeout_elapsed ibex_mcycle_read kClockFreqCpuHz timeout = do {
     now \<leftarrow> ibex_mcycle_read;
     ret (fst (udiv64_slow ((now - timeout_start timeout) * 1000000) kClockFreqCpuHz null))
   }"

datatype device_type = kDeviceSimDV | kDeviceSimVerilator | kDeviceOther

definition config_wait_one :: "'d bus \<Rightarrow> ('d, u64) state \<Rightarrow> ibex_timeout \<Rightarrow> ('d, bool) ctrl_prog" where
  "config_wait_one B ibex_mcycle_read timeout =
     andThen (look client_mem) (\<lambda>c.
     if device_state c = kUsbTestutilsDeviceConfigured then pure False
     else
       andThen (call (\<lambda>_. ibex_timeout_check ibex_mcycle_read timeout)) (\<lambda>expired.
       if expired then pure False
       else andThen (usb_testutils_poll B (ctrl_clients B)) (\<lambda>_. pure True)))"

partial_function (option) config_wait_loop :: "'d bus \<Rightarrow> ('d, u64) state \<Rightarrow> ibex_timeout \<Rightarrow> 'd ctrl_sys
    \<Rightarrow> ((failure + unit) \<times> 'd ctrl_sys) option" where
  "config_wait_loop B ibex_mcycle_read timeout s =
     andThen (config_wait_one B ibex_mcycle_read timeout)
       (\<lambda>more s. if more then config_wait_loop B ibex_mcycle_read timeout s else pure () s) s"

definition usb_testutils_controlep_config_wait :: "'d bus \<Rightarrow> ('d, u64) state \<Rightarrow> u64 \<Rightarrow> device_type \<Rightarrow> ('d, unit) ctrl_prog" where
  "usb_testutils_controlep_config_wait B ibex_mcycle_read kClockFreqCpuHz kDeviceType =
     (let timeout_usecs = 8 * 1000;
          timeout_usecs = (case kDeviceType of
            kDeviceSimDV \<Rightarrow> timeout_usecs
          | kDeviceSimVerilator \<Rightarrow>
              let clk_cycles = (ucast (48 * timeout_usecs :: u32) :: u64)
              in ucast (fst (udiv64_slow (clk_cycles * 1000000) kClockFreqCpuHz null))
          | _ \<Rightarrow> 30 * 1000000)
      in
      andThen (call (\<lambda>_. ibex_timeout_init ibex_mcycle_read kClockFreqCpuHz timeout_usecs)) (\<lambda>timeout.
      andThen (config_wait_loop B ibex_mcycle_read timeout) (\<lambda>_.
      andThen (look client_mem) (\<lambda>c.
      if device_state c \<noteq> kUsbTestutilsDeviceConfigured
      then leave (Returned (status_create (absl_code kUnavailable) (loc_module (usb_controlep_loc 474))
        (loc_file (usb_controlep_loc 474)) 474))
      else pure ()))))"

end
