(* ===== verification/UsbSystem.thy ===== *)
theory UsbSystem
  imports Usbdev "HOL-Library.Multiset"
begin

section \<open>The USB device driver against its hardware\<close>

text \<open>
  Who owns the 32 packet buffers: the pool, the caller, one of the two FIFOs of empty buffers
  that the hardware fills from, the FIFO of received packets, or an endpoint with a packet to
  send. This theory models the part of the USB device that buffers pass through
  (\<^verbatim>\<open>usbdev.hjson\<close>: FIFO depths 4, 8 and 8, the \<^verbatim>\<open>CONFIGIN\<close> registers and the packet memory),
  builds the transition system of driver calls and hardware events, and shows that no buffer
  is ever lost or duplicated, and what the packet copies do.
\<close>


subsection \<open>Filling the available-buffer FIFOs\<close>

text \<open>What \<open>dif_usbdev_fill_available_fifos\<close> relies on: the status register tells the depth of the
  SETUP FIFO and whether the OUT FIFO is full, and a write to either FIFO that has room
  appends to it. \<open>others\<close> is the rest of the device.\<close>

locale available_fifos =
  fixes B :: "'d bus" and usbdev :: dif_usbdev and setup_ids out_ids :: "'d \<Rightarrow> u8 list" and others :: "'d \<Rightarrow> 'r"
  assumes status: "length (setup_ids d) \<le> 4 \<Longrightarrow>
      run_state (rd32 B usbdev USBDEV_USBSTAT_REG_OFFSET) d = (v, d') \<Longrightarrow>
      unat (bitfield_field32_read v USBDEV_USBSTAT_AV_SETUP_DEPTH_FIELD) = length (setup_ids d)
      \<and> (bitfield_bit32_read v USBDEV_USBSTAT_AV_OUT_FULL_BIT \<longleftrightarrow> 8 \<le> length (out_ids d))
      \<and> setup_ids d' = setup_ids d \<and> out_ids d' = out_ids d \<and> others d' = others d"
    and avsetup: "length (setup_ids d) < 4 \<Longrightarrow> unat i < 32 \<Longrightarrow>
      run_state (wr32 B usbdev USBDEV_AVSETUPBUFFER_REG_OFFSET
        (bitfield_field32_write 0 USBDEV_AVSETUPBUFFER_BUFFER_FIELD (ucast i))) d = ((), d') \<Longrightarrow>
      setup_ids d' = setup_ids d @ [i] \<and> out_ids d' = out_ids d \<and> others d' = others d"
    and avout: "length (out_ids d) < 8 \<Longrightarrow> unat i < 32 \<Longrightarrow>
      run_state (wr32 B usbdev USBDEV_AVOUTBUFFER_REG_OFFSET
        (bitfield_field32_write 0 USBDEV_AVOUTBUFFER_BUFFER_FIELD (ucast i))) d = ((), d') \<Longrightarrow>
      out_ids d' = out_ids d @ [i] \<and> setup_ids d' = setup_ids d \<and> others d' = others d"
begin

lemma fill_loop:
  assumes "run_state (usbdev_fill_loop B usbdev p) d = ((r, p'), d')"
    "pool_wf p" "length (setup_ids d) \<le> 4" "length (out_ids d) \<le> 8"
  shows "r = kDifOk \<and> pool_wf p' \<and> length (setup_ids d') \<le> 4 \<and> length (out_ids d') \<le> 8 \<and> others d' = others d
    \<and> mset (pool_ids p') + mset (setup_ids d') + mset (out_ids d') = mset (pool_ids p) + mset (setup_ids d) + mset (out_ids d)
    \<and> (pool_ids p' = [] \<or> 2 \<le> length (setup_ids d') \<and> length (out_ids d') = 8)"
  using assms
proof (induction "length (pool_ids p)" arbitrary: p d)
  case 0
  then show ?case by (simp add: pool_is_empty usbdev_fill_loop.simps)
next
  case (Suc n)
  from Suc.hyps(2) obtain x xs where ids: "pool_ids p = x # xs" by (cases "pool_ids p") auto
  then have ne: "\<not> buffer_pool_is_empty p" using Suc.prems(2) by (simp add: pool_is_empty)
  have x: "unat x < 32" using Suc.prems(2) ids by (simp add: pool_wf_def USBDEV_NUM_BUFFERS_def)
  obtain p1 where p1: "buffer_pool_remove p (Some 0) = (True, p1, Some x)" "pool_wf p1" "pool_ids p1 = xs"
    using pool_remove [OF Suc.prems(2) ids] by blast
  obtain v d1 where s: "run_state (rd32 B usbdev USBDEV_USBSTAT_REG_OFFSET) d = (v, d1)" by fastforce
  note st = status [OF Suc.prems(3) s]
  let ?depth = "bitfield_field32_read v USBDEV_USBSTAT_AV_SETUP_DEPTH_FIELD"
  have two: "2 \<le> ?depth \<longleftrightarrow> 2 \<le> length (setup_ids d)" using st by (simp add: word_le_nat_alt)
  show ?case
  proof (cases "2 \<le> length (setup_ids d)")
    case True
    show ?thesis
    proof (cases "8 \<le> length (out_ids d)")
      case full: True
      with True two st s ne Suc.prems show ?thesis
        by (auto simp: usbdev_fill_loop.simps [of B usbdev p] Let_def)
    next
      case room: False
      obtain d2 where w: "run_state (wr32 B usbdev USBDEV_AVOUTBUFFER_REG_OFFSET
          (bitfield_field32_write 0 USBDEV_AVOUTBUFFER_BUFFER_FIELD (ucast x))) d1 = ((), d2)"
        by (metis surj_pair unit.exhaust)
      have "run_state (usbdev_fill_loop B usbdev p1) d2 = ((r, p'), d')"
        using Suc.prems(1) True room two st s ne p1 w
        by (auto simp: usbdev_fill_loop.simps [of B usbdev p] Let_def)
      from Suc.hyps(1) [OF _ this p1(2)] avout [OF _ x w] st room True ids p1 Suc.prems Suc.hyps(2)
      show ?thesis by simp
    qed
  next
    case False
    obtain d2 where w: "run_state (wr32 B usbdev USBDEV_AVSETUPBUFFER_REG_OFFSET
        (bitfield_field32_write 0 USBDEV_AVSETUPBUFFER_BUFFER_FIELD (ucast x))) d1 = ((), d2)"
      by (metis surj_pair unit.exhaust)
    have "run_state (usbdev_fill_loop B usbdev p1) d2 = ((r, p'), d')"
      using Suc.prems(1) False two st s ne p1 w
      by (auto simp: usbdev_fill_loop.simps [of B usbdev p] Let_def)
    from Suc.hyps(1) [OF _ this p1(2)] avsetup [OF _ x w] st False ids p1 Suc.prems Suc.hyps(2)
    show ?thesis by simp
  qed
qed

end

subsection \<open>The device\<close>

record usb_dev =
  av_setup :: "u8 list"
  av_out :: "u8 list"
  rx_queue :: "u32 list"
  usb_regs :: "u32 \<Rightarrow> u32"
  packet_mem :: "u32 \<Rightarrow> u32"

text \<open>Registers are indexed by their offset in the block, packet words by the offset of the word.
  The interrupt state and the sent bits are
  cleared by writing ones. Writing a \<^verbatim>\<open>CONFIGIN\<close> register replaces its buffer, size and ready fields and clears the
  pending bit when a one is written to it.\<close>

definition usb_status :: "usb_dev \<Rightarrow> u32" where
  "usb_status d =
     bitfield_bit32_write (bitfield_bit32_write
       (bitfield_field32_write 0 USBDEV_USBSTAT_AV_SETUP_DEPTH_FIELD (of_nat (length (av_setup d))))
       USBDEV_USBSTAT_AV_OUT_FULL_BIT (8 \<le> length (av_out d)))
       USBDEV_USBSTAT_RX_EMPTY_BIT (rx_queue d = [])"

text \<open>Two interrupts are the levels of a condition: packets are waiting, or endpoints have sent a
  packet that the driver has not cleared.\<close>

definition usb_intr_state :: "usb_dev \<Rightarrow> u32" where
  "usb_intr_state d =
     bitfield_bit32_write (bitfield_bit32_write (usb_regs d USBDEV_INTR_STATE_REG_OFFSET)
       USBDEV_INTR_COMMON_PKT_RECEIVED_BIT (rx_queue d \<noteq> []))
       USBDEV_INTR_COMMON_PKT_SENT_BIT (usb_regs d USBDEV_IN_SENT_REG_OFFSET \<noteq> 0)"

definition is_configin :: "u32 \<Rightarrow> bool" where
  "is_configin x \<longleftrightarrow> USBDEV_CONFIGIN_0_REG_OFFSET \<le> x \<and> x \<le> USBDEV_CONFIGIN_11_REG_OFFSET"

definition usb_reg_write :: "u32 \<Rightarrow> u32 \<Rightarrow> u32 \<Rightarrow> u32" where
  "usb_reg_write x old v =
     (if x = USBDEV_INTR_STATE_REG_OFFSET \<or> x = USBDEV_IN_SENT_REG_OFFSET then old AND NOT v
      else if is_configin x then bitfield_bit32_write v USBDEV_CONFIGIN_0_PEND_0_BIT
        (bitfield_bit32_read old USBDEV_CONFIGIN_0_PEND_0_BIT \<and> \<not> bitfield_bit32_read v USBDEV_CONFIGIN_0_PEND_0_BIT)
      else v)"

definition usb_read :: "u32 \<Rightarrow> usb_dev \<Rightarrow> u32 \<times> usb_dev" where
  "usb_read x d =
     (if x = USBDEV_USBSTAT_REG_OFFSET then (usb_status d, d)
      else if x = USBDEV_RXFIFO_REG_OFFSET then
        (case rx_queue d of [] \<Rightarrow> (0, d) | e # es \<Rightarrow> (e, d\<lparr>rx_queue := es\<rparr>))
      else if USBDEV_BUFFER_REG_OFFSET \<le> x then (packet_mem d x, d)
      else if x = USBDEV_INTR_STATE_REG_OFFSET then (usb_intr_state d, d)
      else (usb_regs d x, d))"

definition usb_write :: "u32 \<Rightarrow> u32 \<Rightarrow> usb_dev \<Rightarrow> usb_dev" where
  "usb_write x v d =
     (if x = USBDEV_AVSETUPBUFFER_REG_OFFSET then
        (if length (av_setup d) < 4
         then d\<lparr>av_setup := av_setup d @ [ucast (bitfield_field32_read v USBDEV_AVSETUPBUFFER_BUFFER_FIELD)]\<rparr> else d)
      else if x = USBDEV_AVOUTBUFFER_REG_OFFSET then
        (if length (av_out d) < 8
         then d\<lparr>av_out := av_out d @ [ucast (bitfield_field32_read v USBDEV_AVOUTBUFFER_BUFFER_FIELD)]\<rparr> else d)
      else if USBDEV_BUFFER_REG_OFFSET \<le> x then d\<lparr>packet_mem := (packet_mem d)(x := v)\<rparr>
      else d\<lparr>usb_regs := (usb_regs d)(x := usb_reg_write x (usb_regs d x) v)\<rparr>)"

definition usb_bus :: "u32 \<Rightarrow> usb_dev bus" where
  "usb_bus b = \<lparr>
     bus_read8 = (\<lambda>a d. (0, d)),
     bus_read32 = (\<lambda>a. usb_read (a - b)),
     bus_write8 = (\<lambda>a v d. d),
     bus_write32 = (\<lambda>a. usb_write (a - b))\<rparr>"

abbreviation usb_bus_of :: "dif_usbdev \<Rightarrow> usb_dev bus" where
  "usb_bus_of h \<equiv> usb_bus (base (base_addr h))"

lemma usb_status_fields:
  "length (av_setup d) \<le> 4 \<Longrightarrow>
    unat (bitfield_field32_read (usb_status d) USBDEV_USBSTAT_AV_SETUP_DEPTH_FIELD) = length (av_setup d)"
  "bitfield_bit32_read (usb_status d) USBDEV_USBSTAT_AV_OUT_FULL_BIT \<longleftrightarrow> 8 \<le> length (av_out d)"
  "bitfield_bit32_read (usb_status d) USBDEV_USBSTAT_RX_EMPTY_BIT \<longleftrightarrow> rx_queue d = []"
proof -
  assume l: "length (av_setup d) \<le> 4"
  then have u: "unat (of_nat (length (av_setup d)) :: u32) = length (av_setup d)" by (simp add: unat_of_nat)
  then have "of_nat (length (av_setup d)) AND (7 :: u32) = of_nat (length (av_setup d))"
    using and_mask_id_iff [of "of_nat (length (av_setup d)) :: u32" 3] l by (simp add: mask_eq_exp_minus_1)
  with u show "unat (bitfield_field32_read (usb_status d) USBDEV_USBSTAT_AV_SETUP_DEPTH_FIELD) = length (av_setup d)"
    by (simp add: usb_status_def read_write_simps)
qed (simp_all add: usb_status_def read_write_simps)

lemma buffer_field_ucast:
  assumes "unat (i :: u8) < 32"
  shows "ucast (bitfield_field32_read (bitfield_field32_write w \<lparr>field_mask = 0x1f, field_index = 0\<rparr> (ucast i))
     \<lparr>field_mask = 0x1f, field_index = 0\<rparr>) = i"
proof -
  have "unat (ucast i :: u32) = unat i" by (rule unat_ucast_up) simp
  then have "ucast i AND (0x1f :: u32) = ucast i"
    using and_mask_id_iff [of "ucast i :: u32" 5] assms by (simp add: mask_eq_exp_minus_1)
  moreover have "ucast (ucast i :: u32) = i" by (rule bit_word_eqI) (auto simp: bit_ucast_iff)
  ultimately show ?thesis by (simp add: read_write_simps)
qed

lemma run_usb_read:
  assumes "x mod 4 = 0"
  shows "run_state (rd32 (usb_bus_of h) h x) d = usb_read x d"
  using assms by (simp add: mmio_region_read32_def region_word word_of_idem usb_bus_def)

lemma run_usb_write:
  assumes "x mod 4 = 0"
  shows "run_state (wr32 (usb_bus_of h) h x v) d = ((), usb_write x v d)"
  using assms by (simp add: mmio_region_write32_def region_word word_of_idem usb_bus_def)

interpretation usb: available_fifos "usb_bus_of h" h av_setup av_out
    "\<lambda>d. (rx_queue d, usb_regs d, packet_mem d)" for h
proof unfold_locales
  fix d v d' assume l: "length (av_setup d) \<le> 4"
    and "run_state (rd32 (usb_bus_of h) h USBDEV_USBSTAT_REG_OFFSET) d = (v, d')"
  then have "v = usb_status d" "d' = d" by (auto simp: run_usb_read usb_read_def)
  then show "unat (bitfield_field32_read v USBDEV_USBSTAT_AV_SETUP_DEPTH_FIELD) = length (av_setup d)
      \<and> (bitfield_bit32_read v USBDEV_USBSTAT_AV_OUT_FULL_BIT \<longleftrightarrow> 8 \<le> length (av_out d))
      \<and> av_setup d' = av_setup d \<and> av_out d' = av_out d
      \<and> (rx_queue d', usb_regs d', packet_mem d') = (rx_queue d, usb_regs d, packet_mem d)"
    using usb_status_fields [of d] l by simp
qed (auto simp: run_usb_write usb_write_def buffer_field_ucast)

subsection \<open>The transition system\<close>

definition ep_reg :: "u8 \<Rightarrow> u32" where
  "ep_reg e = config_in_reg_offset (kEndpointHwInfos ! unat e)"

definition configin_id :: "usb_dev \<Rightarrow> u8 \<Rightarrow> u8" where
  "configin_id d e = ucast (bitfield_field32_read (usb_regs d (ep_reg e)) USBDEV_CONFIGIN_0_BUFFER_0_FIELD)"

definition rx_id :: "u32 \<Rightarrow> u8" where
  "rx_id e = ucast (bitfield_field32_read e USBDEV_RXFIFO_BUFFER_FIELD)"

text \<open>What the hardware does between driver calls: it receives a SETUP or OUT packet of at most
  64 bytes into the oldest empty buffer, and it updates its registers, never the buffer number
  of an endpoint.\<close>

inductive hw_event :: "usb_dev \<Rightarrow> usb_dev \<Rightarrow> bool" where
  receive_setup: "av_setup d = i # is \<Longrightarrow> rx_id e = i
    \<Longrightarrow> unat (bitfield_field32_read e USBDEV_RXFIFO_SIZE_FIELD) \<le> 64
    \<Longrightarrow> hw_event d (d\<lparr>av_setup := is, rx_queue := rx_queue d @ [e], packet_mem := m\<rparr>)"
| receive_out: "av_out d = i # is \<Longrightarrow> rx_id e = i
    \<Longrightarrow> unat (bitfield_field32_read e USBDEV_RXFIFO_SIZE_FIELD) \<le> 64
    \<Longrightarrow> hw_event d (d\<lparr>av_out := is, rx_queue := rx_queue d @ [e], packet_mem := m\<rparr>)"
| registers: "(\<And>e. unat e < 12 \<Longrightarrow> configin_id (d\<lparr>usb_regs := regs\<rparr>) e = configin_id d e)
    \<Longrightarrow> hw_event d (d\<lparr>usb_regs := regs\<rparr>)"

text \<open>The state of the system: the device, the driver's pool, the buffers in the caller's hands
  and the endpoints whose packet has been submitted and not yet cleared.\<close>

record usb_world =
  dev :: usb_dev
  pool :: dif_usbdev_buffer_pool
  held :: "dif_usbdev_buffer list"
  in_flight :: "u8 list"

text \<open>A stale buffer is no longer the caller's.\<close>

definition keep :: "dif_usbdev_buffer \<Rightarrow> dif_usbdev_buffer list \<Rightarrow> dif_usbdev_buffer list" where
  "keep b bs = (if buf_type b = kDifUsbdevBufferTypeStale then bs else b # bs)"

text \<open>The caller follows the rules of the header: it passes the buffers it holds, submits to an
  endpoint only when nothing is in flight there, and clears a submission once. Within them it
  may call anything in any order.\<close>

inductive usb_step :: "dif_usbdev \<Rightarrow> usb_world \<Rightarrow> usb_world \<Rightarrow> bool" for h where
  hardware: "hw_event (dev w) d' \<Longrightarrow> usb_step h w (w\<lparr>dev := d'\<rparr>)"
| fill: "run_state (dif_usbdev_fill_available_fifos (usb_bus_of h) (Some h) (Some (pool w))) (dev w)
      = ((r, Some p'), d')
    \<Longrightarrow> usb_step h w (w\<lparr>dev := d', pool := p'\<rparr>)"
| recv: "run_state (dif_usbdev_recv (usb_bus_of h) (Some h) (Some info) (Some b)) (dev w)
      = ((r, info', Some b'), d')
    \<Longrightarrow> usb_step h w (w\<lparr>dev := d', held := (if r = kDifOk then b' # held w else held w)\<rparr>)"
| request: "dif_usbdev_buffer_request (Some h) (Some (pool w)) (Some b) = (r, Some p', Some b')
    \<Longrightarrow> usb_step h w (w\<lparr>pool := p', held := (if r = kDifOk then b' # held w else held w)\<rparr>)"
| return: "b \<in> set (held w)
    \<Longrightarrow> dif_usbdev_buffer_return (Some h) (Some (pool w)) (Some b) = (r, Some p', Some b')
    \<Longrightarrow> usb_step h w (w\<lparr>pool := p', held := keep b' (remove1 b (held w))\<rparr>)"
| read_packet: "b \<in> set (held w) \<Longrightarrow> unat n \<le> length dst
    \<Longrightarrow> run_state (dif_usbdev_buffer_read (usb_bus_of h) (Some h) (Some (pool w)) (Some b) (Some dst) n cnt)
      (dev w) = ((r, Some p', Some b', dst', cnt'), d')
    \<Longrightarrow> usb_step h w (w\<lparr>dev := d', pool := p', held := keep b' (remove1 b (held w))\<rparr>)"
| write_packet: "b \<in> set (held w) \<Longrightarrow> unat n \<le> length src
    \<Longrightarrow> run_state (dif_usbdev_buffer_write (usb_bus_of h) (Some h) (Some b) (Some src) n cnt)
      (dev w) = ((r, Some b', cnt'), d')
    \<Longrightarrow> usb_step h w (w\<lparr>dev := d', held := keep b' (remove1 b (held w))\<rparr>)"
| send: "b \<in> set (held w) \<Longrightarrow> e \<notin> set (in_flight w)
    \<Longrightarrow> run_state (dif_usbdev_send (usb_bus_of h) (Some h) e (Some b)) (dev w) = ((r, Some b'), d')
    \<Longrightarrow> usb_step h w (w\<lparr>dev := d', held := keep b' (remove1 b (held w)),
      in_flight := (if r = kDifOk then e # in_flight w else in_flight w)\<rparr>)"
| clear: "e \<in> set (in_flight w)
    \<Longrightarrow> run_state (dif_usbdev_clear_tx_status (usb_bus_of h) (Some h) (Some (pool w)) e) (dev w)
      = ((r, Some p'), d')
    \<Longrightarrow> usb_step h w (w\<lparr>dev := d', pool := p', in_flight := remove1 e (in_flight w)\<rparr>)"

text \<open>Every buffer with its owner.\<close>

definition owned :: "usb_world \<Rightarrow> u8 multiset" where
  "owned w = mset (pool_ids (pool w)) + mset (av_setup (dev w)) + mset (av_out (dev w))
     + mset (map buf_id (held w)) + mset (map rx_id (rx_queue (dev w))) + mset (map (configin_id (dev w)) (in_flight w))"

definition all_buffers :: "u8 multiset" where
  "all_buffers = mset (map of_nat [0..<USBDEV_NUM_BUFFERS])"

definition buffer_wf :: "dif_usbdev_buffer \<Rightarrow> bool" where
  "buffer_wf b \<longleftrightarrow> (buf_type b = kDifUsbdevBufferTypeRead \<or> buf_type b = kDifUsbdevBufferTypeWrite)
     \<and> unat (buf_offset b) + unat (remaining_bytes b) \<le> USBDEV_BUFFER_ENTRY_SIZE_BYTES"

definition usb_inv :: "usb_world \<Rightarrow> bool" where
  "usb_inv w \<longleftrightarrow> pool_wf (pool w) \<and> owned w = all_buffers
     \<and> length (av_setup (dev w)) \<le> 4 \<and> length (av_out (dev w)) \<le> 8
     \<and> (\<forall>e\<in>set (rx_queue (dev w)). unat (bitfield_field32_read e USBDEV_RXFIFO_SIZE_FIELD) \<le> 64)
     \<and> (\<forall>b\<in>set (held w). buffer_wf b)
     \<and> distinct (in_flight w) \<and> (\<forall>e\<in>set (in_flight w). unat e < USBDEV_NUM_ENDPOINTS)"

subsection \<open>Facts about the owners\<close>

lemma in_all_buffers: "i \<in># all_buffers \<Longrightarrow> unat i < 32"
  by (auto simp: all_buffers_def USBDEV_NUM_BUFFERS_def unat_of_nat)

lemma size_all_buffers: "size all_buffers = 32"
  by (simp add: all_buffers_def USBDEV_NUM_BUFFERS_def)

lemma held_remove:
  "b \<in> set bs \<Longrightarrow> mset (map buf_id bs) = add_mset (buf_id b) (mset (map buf_id (remove1 b bs)))"
  by (simp add: image_mset_Diff mset_subset_eq_single in_image_mset)

lemma held_id:
  assumes "usb_inv w" "b \<in> set (held w)"
  shows "unat (buf_id b) < 32" "length (pool_ids (pool w)) < 32"
proof -
  have "buf_id b \<in># owned w" using assms(2) by (auto simp: owned_def)
  with assms(1) show "unat (buf_id b) < 32" by (metis usb_inv_def in_all_buffers)
  have "size (owned w) = 32" using assms(1) by (simp add: usb_inv_def size_all_buffers)
  moreover have "length (held w) > 0" using assms(2) by (rule length_pos_if_in_set)
  ultimately show "length (pool_ids (pool w)) < 32" by (simp add: owned_def del: length_greater_0_conv)
qed

lemma flight_id:
  assumes "usb_inv w" "e \<in> set (in_flight w)"
  shows "unat (configin_id (dev w) e) < 32" "length (pool_ids (pool w)) < 32"
proof -
  have "configin_id (dev w) e \<in># owned w" using assms(2) by (auto simp: owned_def)
  with assms(1) show "unat (configin_id (dev w) e) < 32" by (metis usb_inv_def in_all_buffers)
  have "size (owned w) = 32" using assms(1) by (simp add: usb_inv_def size_all_buffers)
  moreover have "length (in_flight w) > 0" using assms(2) by (rule length_pos_if_in_set)
  ultimately show "length (pool_ids (pool w)) < 32" by (simp add: owned_def del: length_greater_0_conv)
qed

text \<open>The \<^verbatim>\<open>CONFIGIN\<close> registers are twelve different ordinary registers.\<close>

definition ep_regs :: "u32 list" where
  "ep_regs = map config_in_reg_offset kEndpointHwInfos"

lemma length_kEndpointHwInfos: "length kEndpointHwInfos = 12"
  by (simp add: kEndpointHwInfos_def)

lemma ep_reg_nth: "unat e < 12 \<Longrightarrow> ep_reg e = ep_regs ! unat e"
  by (simp add: ep_reg_def ep_regs_def length_kEndpointHwInfos)

lemma ep_regs_length: "length ep_regs = 12"
  by (simp add: ep_regs_def kEndpointHwInfos_def)

lemma ep_reg_facts:
  assumes "unat e < 12"
  shows "ep_reg e mod 4 = 0" "\<not> 0x800 \<le> ep_reg e" "is_configin (ep_reg e)"
    "ep_reg e \<noteq> USBDEV_USBSTAT_REG_OFFSET" "ep_reg e \<noteq> USBDEV_RXFIFO_REG_OFFSET"
    "ep_reg e \<noteq> USBDEV_AVSETUPBUFFER_REG_OFFSET" "ep_reg e \<noteq> USBDEV_AVOUTBUFFER_REG_OFFSET"
    "ep_reg e \<noteq> USBDEV_IN_SENT_REG_OFFSET" "ep_reg e \<noteq> USBDEV_INTR_STATE_REG_OFFSET"
proof -
  have "\<forall>x\<in>set ep_regs. x mod 4 = 0 \<and> \<not> 0x800 \<le> x \<and> is_configin x \<and> x \<noteq> USBDEV_USBSTAT_REG_OFFSET
    \<and> x \<noteq> USBDEV_RXFIFO_REG_OFFSET \<and> x \<noteq> USBDEV_AVSETUPBUFFER_REG_OFFSET
    \<and> x \<noteq> USBDEV_AVOUTBUFFER_REG_OFFSET \<and> x \<noteq> USBDEV_IN_SENT_REG_OFFSET
    \<and> x \<noteq> USBDEV_INTR_STATE_REG_OFFSET"
    by (simp add: ep_regs_def kEndpointHwInfos_def is_configin_def)
  moreover have "ep_reg e \<in> set ep_regs" using assms by (simp add: ep_reg_nth ep_regs_length)
  ultimately show "ep_reg e mod 4 = 0" "\<not> 0x800 \<le> ep_reg e" "is_configin (ep_reg e)"
    "ep_reg e \<noteq> USBDEV_USBSTAT_REG_OFFSET" "ep_reg e \<noteq> USBDEV_RXFIFO_REG_OFFSET"
    "ep_reg e \<noteq> USBDEV_AVSETUPBUFFER_REG_OFFSET" "ep_reg e \<noteq> USBDEV_AVOUTBUFFER_REG_OFFSET"
    "ep_reg e \<noteq> USBDEV_IN_SENT_REG_OFFSET" "ep_reg e \<noteq> USBDEV_INTR_STATE_REG_OFFSET"
    by blast+
qed

lemma ep_reg_inj:
  assumes "unat e < 12" "unat e' < 12"
  shows "ep_reg e = ep_reg e' \<longleftrightarrow> e = e'"
proof -
  have "distinct ep_regs" by (simp add: ep_regs_def kEndpointHwInfos_def)
  with assms show ?thesis
    using word_unat_eq_iff [of e e'] by (simp add: ep_reg_nth nth_eq_iff_index_eq ep_regs_length)
qed

text \<open>The effect on the owners of a write to an endpoint's register.\<close>

lemma usb_write_ep:
  assumes "unat e < 12"
  shows "usb_write (ep_reg e) v d = d\<lparr>usb_regs := (usb_regs d)(ep_reg e := usb_reg_write (ep_reg e) (usb_regs d (ep_reg e)) v)\<rparr>"
  using ep_reg_facts [OF assms] by (simp add: usb_write_def)

lemma usb_read_ep: "unat e < 12 \<Longrightarrow> usb_read (ep_reg e) d = (usb_regs d (ep_reg e), d)"
  using ep_reg_facts [of e] by (simp add: usb_read_def)

lemma configin_id_write:
  assumes "unat e < 12" "unat e' < 12"
  shows "configin_id (usb_write (ep_reg e) v d) e' =
    (if e = e' then ucast (bitfield_field32_read v USBDEV_CONFIGIN_0_BUFFER_0_FIELD) else configin_id d e')"
  using ep_reg_facts [OF assms(1)] ep_reg_inj [OF assms]
  by (simp add: usb_write_ep [OF assms(1)] configin_id_def usb_reg_write_def read_write_simps eq_commute [of "ep_reg e'"])


text \<open>The packet memory is plain storage.\<close>

definition in_packet_mem :: "dif_usbdev \<Rightarrow> u32 \<Rightarrow> bool" where
  "in_packet_mem h a \<longleftrightarrow> USBDEV_BUFFER_REG_OFFSET \<le> a - base (base_addr h)"

interpretation usb_mem: word_storage "usb_bus_of h" "\<lambda>d a. packet_mem d (a - base (base_addr h))" "in_packet_mem h" for h
  by unfold_locales (auto simp: usb_bus_def usb_read_def usb_write_def in_packet_mem_def fun_eq_iff)

lemma word_of_mono: "(0x800 :: u32) \<le> x \<Longrightarrow> 0x800 \<le> word_of x"
proof -
  assume "0x800 \<le> x"
  then have "0x800 \<le> unat x" by (simp add: word_le_nat_alt)
  then have "0x800 div 4 \<le> unat x div 4" by (rule div_le_mono)
  then have "0x800 \<le> unat x - unat x mod 4" by (simp add: minus_mod_eq_mult_div)
  moreover have "unat (word_of x) = unat x - unat x mod 4"
    unfolding word_of_def using mod_less_eq_dividend [of "unat x" 4]
    by (simp add: unat_sub word_le_nat_alt unat_mod_4)
  ultimately show ?thesis by (simp add: word_le_nat_alt)
qed

lemma unat_buffer_addr:
  assumes "unat (i :: u8) < 32" "k \<le> 64"
  shows "unat (get_buffer_addr i (of_nat k)) = 0x800 + unat i * 64 + k"
proof -
  have e: "get_buffer_addr i (of_nat k) = of_nat (0x800 + unat i * 64 + k)"
    by (simp add: get_buffer_addr_def USBDEV_BUFFER_ENTRY_SIZE_BYTES_def USBDEV_MAX_PACKET_SIZE_def)
  show ?thesis unfolding e unat_of_nat using assms by simp
qed

lemma buffer_addr_plain:
  assumes "base (base_addr h) mod 4 = 0" "unat i < 32" "unat (k :: u8) + j \<le> 64"
  shows "in_packet_mem h (word_of (base (base_addr h) + get_buffer_addr i (ucast k) + of_nat j))"
proof -
  let ?b = "base (base_addr h)" and ?a = "get_buffer_addr i (ucast k) + of_nat j"
  have "(ucast k :: u32) = of_nat (unat k)" by simp
  then have "?a = get_buffer_addr i (of_nat (unat k + j))" by (simp add: get_buffer_addr_def)
  then have "0x800 \<le> ?a"
    using unat_buffer_addr [of i "unat k + j"] assms(2,3) by (simp add: word_le_nat_alt)
  moreover have "word_of (?b + ?a) = ?b + word_of ?a"
    using add_mod_4 [OF assms(1), of ?a] by (simp add: word_of_def)
  ultimately show ?thesis using word_of_mono [of ?a] by (simp add: in_packet_mem_def add.assoc)
qed


subsection \<open>The invariant\<close>

lemma usb_fill_inv:
  assumes "usb_inv w"
    "run_state (dif_usbdev_fill_available_fifos (usb_bus_of h) (Some h) (Some (pool w))) (dev w) = ((r, Some p'), d')"
  shows "usb_inv (w\<lparr>dev := d', pool := p'\<rparr>)"
    and "r = kDifOk" "pool_ids p' = [] \<or> 2 \<le> length (av_setup d') \<and> length (av_out d') = 8"
proof -
  have "run_state (usbdev_fill_loop (usb_bus_of h) h (pool w)) (dev w) = ((r, p'), d')"
    using assms(2) by (auto simp: dif_usbdev_fill_available_fifos_def split: prod.splits)
  note F = usb.fill_loop [OF this]
  with assms(1) show "r = kDifOk" "pool_ids p' = [] \<or> 2 \<le> length (av_setup d') \<and> length (av_out d') = 8"
    by (auto simp: usb_inv_def)
  have "configin_id d' = configin_id (dev w)" using F assms(1) by (simp add: usb_inv_def configin_id_def fun_eq_iff)
  with F assms(1) show "usb_inv (w\<lparr>dev := d', pool := p'\<rparr>)"
    by (simp add: usb_inv_def owned_def)
qed

lemma usb_recv_inv:
  assumes "usb_inv w"
    "run_state (dif_usbdev_recv (usb_bus_of h) (Some h) (Some info) (Some b)) (dev w) = ((r, info', Some b'), d')"
  shows "usb_inv (w\<lparr>dev := d', held := (if r = kDifOk then b' # held w else held w)\<rparr>)"
proof (cases "rx_queue (dev w)")
  case Nil
  with assms have "r = kDifUnavailable" "d' = dev w"
    by (auto simp: dif_usbdev_recv_def run_usb_read usb_read_def usb_status_fields)
  with assms(1) show ?thesis by (simp add: usb_inv_def)
next
  case (Cons e es)
  let ?size = "bitfield_field32_read e USBDEV_RXFIFO_SIZE_FIELD"
  from Cons assms have r: "r = kDifOk" "d' = (dev w)\<lparr>rx_queue := es\<rparr>" "b' = \<lparr>buf_id = rx_id e, buf_offset = 0,
      remaining_bytes = ucast ?size, buf_type = kDifUsbdevBufferTypeRead\<rparr>"
    by (auto simp: dif_usbdev_recv_def run_usb_read usb_read_def usb_status_fields rx_id_def Let_def)
  have "unat ?size \<le> 64" using assms(1) Cons by (simp add: usb_inv_def)
  moreover have "unat (ucast ?size :: u8) \<le> unat ?size" by (simp add: unsigned_ucast_eq take_bit_nat_less_eq_self)
  ultimately have "buffer_wf b'"
    by (simp add: r buffer_wf_def USBDEV_BUFFER_ENTRY_SIZE_BYTES_def USBDEV_MAX_PACKET_SIZE_def)
  moreover have "configin_id d' = configin_id (dev w)" by (simp add: r configin_id_def fun_eq_iff)
  ultimately show ?thesis using assms(1) Cons r by (simp add: usb_inv_def owned_def)
qed

lemma usb_request_inv:
  assumes "usb_inv w" "dif_usbdev_buffer_request (Some h) (Some (pool w)) (Some b) = (r, Some p', Some b')"
  shows "usb_inv (w\<lparr>pool := p', held := (if r = kDifOk then b' # held w else held w)\<rparr>)"
    and "r = kDifOk \<longleftrightarrow> pool_ids (pool w) \<noteq> []"
proof -
  have wf: "pool_wf (pool w)" using assms(1) by (simp add: usb_inv_def)
  have "usb_inv (w\<lparr>pool := p', held := (if r = kDifOk then b' # held w else held w)\<rparr>)
    \<and> (r = kDifOk \<longleftrightarrow> pool_ids (pool w) \<noteq> [])"
  proof (cases "pool_ids (pool w)")
    case Nil
    with assms wf show ?thesis by (auto simp: dif_usbdev_buffer_request_def pool_is_empty usb_inv_def)
  next
    case (Cons x xs)
    obtain p1 where "buffer_pool_remove (pool w) (Some 0) = (True, p1, Some x)" "pool_wf p1" "pool_ids p1 = xs"
      using pool_remove [OF wf Cons] by blast
    with Cons assms wf show ?thesis
      by (auto simp: dif_usbdev_buffer_request_def pool_is_empty usb_inv_def owned_def buffer_wf_def
          USBDEV_BUFFER_ENTRY_SIZE_BYTES_def USBDEV_MAX_PACKET_SIZE_def)
  qed
  then show "usb_inv (w\<lparr>pool := p', held := (if r = kDifOk then b' # held w else held w)\<rparr>)"
    and "r = kDifOk \<longleftrightarrow> pool_ids (pool w) \<noteq> []" by blast+
qed

text \<open>Giving a held buffer back to the pool always succeeds.\<close>

lemma usb_give_back:
  assumes "usb_inv w" "b \<in> set (held w)" "buffer_pool_add (pool w) (buf_id b) = (ok, p')"
  shows "ok" "usb_inv (w\<lparr>pool := p', held := remove1 b (held w)\<rparr>)"
proof -
  have wf: "pool_wf (pool w)" using assms(1) by (simp add: usb_inv_def)
  note P = pool_add [OF wf assms(3)]
  from P held_id [OF assms(1,2)] show ok: "ok" by simp
  have "owned (w\<lparr>pool := p', held := remove1 b (held w)\<rparr>) = owned w"
    using P ok held_remove [OF assms(2)] by (simp add: owned_def)
  moreover have "\<forall>b'\<in>set (remove1 b (held w)). buffer_wf b'"
    using assms(1) by (meson notin_set_remove1 usb_inv_def)
  ultimately show "usb_inv (w\<lparr>pool := p', held := remove1 b (held w)\<rparr>)"
    using assms(1) P by (simp add: usb_inv_def)
qed

text \<open>Replacing a held buffer by a later state of it.\<close>

lemma usb_update_held:
  assumes "usb_inv w" "b \<in> set (held w)" "buf_id b' = buf_id b" "buffer_wf b'"
  shows "usb_inv (w\<lparr>held := b' # remove1 b (held w)\<rparr>)"
proof -
  have "owned (w\<lparr>held := b' # remove1 b (held w)\<rparr>) = owned w"
    using held_remove [OF assms(2)] assms(3) by (simp add: owned_def)
  moreover have "\<forall>b'\<in>set (remove1 b (held w)). buffer_wf b'"
    using assms(1) by (meson notin_set_remove1 usb_inv_def)
  ultimately show ?thesis using assms by (simp add: usb_inv_def)
qed

lemma usb_return_inv:
  assumes "usb_inv w" "b \<in> set (held w)"
    "dif_usbdev_buffer_return (Some h) (Some (pool w)) (Some b) = (r, Some p', Some b')"
  shows "usb_inv (w\<lparr>pool := p', held := keep b' (remove1 b (held w))\<rparr>)" "r = kDifOk"
proof -
  obtain ok p1 where a: "buffer_pool_add (pool w) (buf_id b) = (ok, p1)" by fastforce
  have "buf_type b = kDifUsbdevBufferTypeRead \<or> buf_type b = kDifUsbdevBufferTypeWrite"
    using assms(1,2) by (auto simp: usb_inv_def buffer_wf_def)
  with assms(3) a usb_give_back [OF assms(1,2) a] show "r = kDifOk"
    "usb_inv (w\<lparr>pool := p', held := keep b' (remove1 b (held w))\<rparr>)"
    by (auto simp: dif_usbdev_buffer_return_def keep_def)
qed


lemma dif_usbdev_buffer_read_device:
  assumes "base (base_addr h) mod 4 = 0" "unat (buf_id b) < 32" "buffer_wf b" "buf_type b = kDifUsbdevBufferTypeRead"
    "unat n \<le> length dst"
  defines "m \<equiv> min (unat (remaining_bytes b)) (unat n)"
  shows "run_state (dif_usbdev_buffer_read (usb_bus_of h) (Some h) (Some p) (Some b) (Some dst) n cnt) d =
    (let b' = b\<lparr>buf_offset := buf_offset b + of_nat m, remaining_bytes := remaining_bytes b - of_nat m\<rparr>;
         (ok, p') = (if remaining_bytes b' > 0 then (True, p) else buffer_pool_add p (buf_id b))
     in ((if ok then kDifOk else kDifError, Some p',
          Some (if remaining_bytes b' > 0 \<or> \<not> ok then b' else b'\<lparr>buf_type := kDifUsbdevBufferTypeStale\<rparr>),
          Some (put_bytes dst 0 (usb_mem.bytes_at h d (base (base_addr h) + get_buffer_addr (buf_id b) (ucast (buf_offset b))) m)),
          if cnt \<noteq> null then Some (of_nat m) else null), d))"
proof -
  let ?len = "if n < ucast (remaining_bytes b) then n else (ucast (remaining_bytes b) :: u32)"
  have u: "unat (ucast (remaining_bytes b) :: u32) = unat (remaining_bytes b)" by (rule unat_ucast_up) simp
  then have len: "unat ?len = m" by (auto simp: m_def word_less_nat_alt min_def)
  moreover have "of_nat (unat ?len) = ?len" by simp
  ultimately have e: "?len = of_nat m" by (simp only:)
  have "m \<le> unat (remaining_bytes b)" by (simp add: m_def)
  with assms(3) have le: "unat (buf_offset b) + j \<le> 64" if "j < m" for j
    using that by (simp add: buffer_wf_def USBDEV_BUFFER_ENTRY_SIZE_BYTES_def USBDEV_MAX_PACKET_SIZE_def)
  have "m \<le> length dst" using assms(5) by (simp add: m_def)
  from usb_mem.memcpy_from_mmio32 [OF assms(1) this, where offset = "get_buffer_addr (buf_id b) (ucast (buf_offset b))"
      and d = d, OF buffer_addr_plain [OF assms(1,2) le]]
  have run: "run_state (mmio_region_memcpy_from_mmio32 (usb_bus_of h) (base_addr h)
      (get_buffer_addr (buf_id b) (ucast (buf_offset b))) dst m) d =
    (put_bytes dst 0 (usb_mem.bytes_at h d (base (base_addr h) + get_buffer_addr (buf_id b) (ucast (buf_offset b))) m), d)"
    by simp
  have um: "unat (of_nat m :: u32) = m" using len e by (simp only:)
  moreover have "(ucast (of_nat m :: u32) :: u8) = of_nat (unat (of_nat m :: u32))" by simp
  ultimately have c: "(ucast (of_nat m :: u32) :: u8) = of_nat m" by (simp only:)
  show ?thesis
    unfolding dif_usbdev_buffer_read_def option.case prod.case Let_def e um c
    using assms(4) run by (cases cnt) (simp_all split: prod.splits)
qed


lemma buffer_advance:
  assumes "buffer_wf b" "m \<le> unat (remaining_bytes b)"
  shows "unat (buf_offset b + of_nat m) = unat (buf_offset b) + m"
    and "unat (remaining_bytes b - of_nat m) = unat (remaining_bytes b) - m"
    and "buffer_wf (b\<lparr>buf_offset := buf_offset b + of_nat m, remaining_bytes := remaining_bytes b - of_nat m\<rparr>)"
proof -
  have m: "unat (of_nat m :: u8) = m" using assms(2) by (rule unat_of_nat_le)
  have le: "unat (buf_offset b) + unat (remaining_bytes b) \<le> 64"
    using assms(1) by (simp add: buffer_wf_def USBDEV_BUFFER_ENTRY_SIZE_BYTES_def USBDEV_MAX_PACKET_SIZE_def)
  show o: "unat (buf_offset b + of_nat m) = unat (buf_offset b) + m"
    using m le assms(2) by (subst unat_add_lem [THEN iffD1]) simp_all
  show r: "unat (remaining_bytes b - of_nat m) = unat (remaining_bytes b) - m"
    using m assms(2) by (subst unat_sub) (simp_all only: word_le_nat_alt)
  show "buffer_wf (b\<lparr>buf_offset := buf_offset b + of_nat m, remaining_bytes := remaining_bytes b - of_nat m\<rparr>)"
    using assms o r by (simp add: buffer_wf_def)
qed

lemma usb_read_inv:
  assumes "usb_inv w" "base (base_addr h) mod 4 = 0" "b \<in> set (held w)" "unat n \<le> length dst"
    "run_state (dif_usbdev_buffer_read (usb_bus_of h) (Some h) (Some (pool w)) (Some b) (Some dst) n cnt) (dev w)
      = ((r, Some p', Some b', dst', cnt'), d')"
  shows "usb_inv (w\<lparr>dev := d', pool := p', held := keep b' (remove1 b (held w))\<rparr>)"
    and "r = kDifOk \<or> r = kDifBadArg" "d' = dev w"
proof -
  have wf: "buffer_wf b" using assms(1,3) by (simp add: usb_inv_def)
  have "usb_inv (w\<lparr>dev := d', pool := p', held := keep b' (remove1 b (held w))\<rparr>)
    \<and> (r = kDifOk \<or> r = kDifBadArg) \<and> d' = dev w"
  proof (cases "buf_type b = kDifUsbdevBufferTypeRead")
    case False
    with assms(5) have "r = kDifBadArg" "p' = pool w" "b' = b" "d' = dev w"
      by (auto simp: dif_usbdev_buffer_read_def)
    moreover have "keep b (remove1 b (held w)) = b # remove1 b (held w)"
      using wf by (auto simp: keep_def buffer_wf_def)
    ultimately show ?thesis using usb_update_held [OF assms(1,3) refl wf] by simp
  next
    case True
    define m where "m = min (unat (remaining_bytes b)) (unat n)"
    define b1 where "b1 = b\<lparr>buf_offset := buf_offset b + of_nat m, remaining_bytes := remaining_bytes b - of_nat m\<rparr>"
    have wf1: "buffer_wf b1" unfolding b1_def by (rule buffer_advance) (simp_all add: wf m_def)
    note R = dif_usbdev_buffer_read_device [OF assms(2) held_id(1) [OF assms(1,3)] wf True assms(4),
      of "pool w" cnt "dev w", folded m_def, folded b1_def]
    show ?thesis
    proof (cases "remaining_bytes b1 > 0")
      case more: True
      with R assms(5) have "r = kDifOk" "p' = pool w" "b' = b1" "d' = dev w" by (simp_all add: Let_def)
      moreover have "keep b1 (remove1 b (held w)) = b1 # remove1 b (held w)"
        using wf1 by (auto simp: keep_def buffer_wf_def)
      moreover have "buf_id b1 = buf_id b" by (simp add: b1_def)
      ultimately show ?thesis using usb_update_held [OF assms(1,3) _ wf1] by simp
    next
      case fin: False
      obtain ok p1 where a: "buffer_pool_add (pool w) (buf_id b) = (ok, p1)" by fastforce
      note G = usb_give_back [OF assms(1,3) a]
      from fin R assms(5) a G(1) have "r = kDifOk" "p' = p1" "buf_type b' = kDifUsbdevBufferTypeStale" "d' = dev w"
        by (auto simp: Let_def)
      with G(2) show ?thesis by (simp add: keep_def)
    qed
  qed
  then show "usb_inv (w\<lparr>dev := d', pool := p', held := keep b' (remove1 b (held w))\<rparr>)"
    and "r = kDifOk \<or> r = kDifBadArg" "d' = dev w" by blast+
qed


text \<open>A write into a held buffer only touches the packet memory.\<close>

lemma dif_usbdev_buffer_write_device:
  assumes "base (base_addr h) mod 4 = 0" "unat (buf_id b) < 32" "buffer_wf b" "buf_type b = kDifUsbdevBufferTypeWrite"
    "unat n \<le> length src"
  defines "m \<equiv> min (unat (remaining_bytes b)) (unat n)"
  shows "\<exists>d'. run_state (dif_usbdev_buffer_write (usb_bus_of h) (Some h) (Some b) (Some src) n cnt) d =
    (let b' = b\<lparr>buf_offset := buf_offset b + of_nat m, remaining_bytes := remaining_bytes b - of_nat m\<rparr>
     in ((if m = unat (remaining_bytes b) \<and> m < unat n then kDifError else kDifOk, Some b',
          if cnt \<noteq> null then Some (of_nat m) else null), d'))
    \<and> usb_mem.byte_at h d' = overlay (usb_mem.byte_at h d)
        (base (base_addr h) + get_buffer_addr (buf_id b) (ucast (buf_offset b))) (take m src)
    \<and> d' = d\<lparr>packet_mem := packet_mem d'\<rparr>"
proof -
  let ?len = "if n < ucast (remaining_bytes b) then n else (ucast (remaining_bytes b) :: u32)"
  have u: "unat (ucast (remaining_bytes b) :: u32) = unat (remaining_bytes b)" by (rule unat_ucast_up) simp
  then have len: "unat ?len = m" by (auto simp: m_def word_less_nat_alt min_def)
  moreover have "of_nat (unat ?len) = ?len" by simp
  ultimately have e: "?len = of_nat m" by (simp only:)
  have um: "unat (of_nat m :: u32) = m" using len e by (simp only:)
  moreover have "(ucast (of_nat m :: u32) :: u8) = of_nat (unat (of_nat m :: u32))" by simp
  ultimately have c: "(ucast (of_nat m :: u32) :: u8) = of_nat m" by (simp only:)
  have mle: "m \<le> unat (remaining_bytes b)" by (simp add: m_def)
  with assms(3) have le: "unat (buf_offset b) + j \<le> 64" if "j < m" for j
    using that by (simp add: buffer_wf_def USBDEV_BUFFER_ENTRY_SIZE_BYTES_def USBDEV_MAX_PACKET_SIZE_def)
  have z: "remaining_bytes b - of_nat m = 0 \<longleftrightarrow> m = unat (remaining_bytes b)"
    using buffer_advance(2) [OF assms(3) mle] mle by (metis diff_is_0_eq le_antisym unat_eq_zero)
  have lt: "(of_nat m :: u32) < n \<longleftrightarrow> m < unat n" by (simp only: word_less_nat_alt um)
  define d' where "d' = snd (run_state (mmio_region_memcpy_to_mmio32 (usb_bus_of h) (base_addr h)
      (get_buffer_addr (buf_id b) (ucast (buf_offset b))) src m) d)"
  have "m \<le> length src" "m \<le> 2 ^ 32" using assms(5) unat_less_2p [of n] by (simp_all add: m_def)
  from usb_mem.memcpy_to_mmio32 [OF assms(1) this, where offset = "get_buffer_addr (buf_id b) (ucast (buf_offset b))"
      and d = d, OF buffer_addr_plain [OF assms(1,2) le]]
  have bytes: "usb_mem.byte_at h d' = overlay (usb_mem.byte_at h d)
      (base (base_addr h) + get_buffer_addr (buf_id b) (ucast (buf_offset b))) (take m src)"
    by (simp add: d'_def)
  have frame: "d' = d\<lparr>packet_mem := packet_mem d'\<rparr>"
    unfolding d'_def
  proof (rule usb_mem.memcpy_to_invariant [where P = "\<lambda>x. x = d\<lparr>packet_mem := packet_mem x\<rparr>"])
    fix a v x assume "in_packet_mem h a" "x = d\<lparr>packet_mem := packet_mem x\<rparr>"
    then show "bus_write32 (usb_bus_of h) a v x = d\<lparr>packet_mem := packet_mem (bus_write32 (usb_bus_of h) a v x)\<rparr>"
      by (cases x, cases d) (auto simp: in_packet_mem_def usb_bus_def usb_write_def)
  qed (use assms(1) buffer_addr_plain [OF assms(1,2) le] in auto)
  have run: "run_state (mmio_region_memcpy_to_mmio32 (usb_bus_of h) (base_addr h)
      (get_buffer_addr (buf_id b) (ucast (buf_offset b))) src m) d = ((), d')"
    by (simp add: d'_def prod_eq_iff)
  show ?thesis
    unfolding dif_usbdev_buffer_write_def option.case prod.case Let_def e um c
    using assms(4) run bytes frame z lt by (intro exI [of _ d'] conjI; cases cnt) simp_all
qed

lemma usb_packet_write_inv:
  assumes "usb_inv w" "base (base_addr h) mod 4 = 0" "b \<in> set (held w)" "unat n \<le> length src"
    "run_state (dif_usbdev_buffer_write (usb_bus_of h) (Some h) (Some b) (Some src) n cnt) (dev w)
      = ((r, Some b', cnt'), d')"
  shows "usb_inv (w\<lparr>dev := d', held := keep b' (remove1 b (held w))\<rparr>)"
proof (cases "buf_type b = kDifUsbdevBufferTypeWrite")
  have wf: "buffer_wf b" using assms(1,3) by (simp add: usb_inv_def)
  case False
  with assms(5) have "b' = b" "d' = dev w" by (auto simp: dif_usbdev_buffer_write_def)
  moreover have "keep b (remove1 b (held w)) = b # remove1 b (held w)"
    using wf by (auto simp: keep_def buffer_wf_def)
  ultimately show ?thesis using usb_update_held [OF assms(1,3) refl wf] by simp
next
  have wf: "buffer_wf b" using assms(1,3) by (simp add: usb_inv_def)
  case True
  define m where "m = min (unat (remaining_bytes b)) (unat n)"
  define b1 where "b1 = b\<lparr>buf_offset := buf_offset b + of_nat m, remaining_bytes := remaining_bytes b - of_nat m\<rparr>"
  have wf1: "buffer_wf b1" unfolding b1_def by (rule buffer_advance) (simp_all add: wf m_def)
  from dif_usbdev_buffer_write_device [OF assms(2) held_id(1) [OF assms(1,3)] wf True assms(4), of cnt "dev w"] assms(5)
  have b': "b' = b1" and d': "d' = (dev w)\<lparr>packet_mem := packet_mem d'\<rparr>"
    by (auto simp: Let_def b1_def m_def)
  have "usb_inv (w\<lparr>held := b1 # remove1 b (held w)\<rparr>)"
    by (rule usb_update_held [OF assms(1,3) _ wf1]) (simp add: b1_def)
  moreover have "configin_id ((dev w)\<lparr>packet_mem := m'\<rparr>) = configin_id (dev w)" for m'
    by (simp add: configin_id_def fun_eq_iff)
  moreover have "keep b1 (remove1 b (held w)) = b1 # remove1 b (held w)"
    using wf1 by (auto simp: keep_def buffer_wf_def)
  ultimately show ?thesis
    unfolding b' by (subst d') (simp add: usb_inv_def owned_def)
qed

lemma usb_send_inv:
  assumes "usb_inv w" "b \<in> set (held w)" "e \<notin> set (in_flight w)"
    "run_state (dif_usbdev_send (usb_bus_of h) (Some h) e (Some b)) (dev w) = ((r, Some b'), d')"
  shows "usb_inv (w\<lparr>dev := d', held := keep b' (remove1 b (held w)),
      in_flight := (if r = kDifOk then e # in_flight w else in_flight w)\<rparr>)"
proof (cases "is_valid_endpoint e \<and> buf_type b = kDifUsbdevBufferTypeWrite")
  have wf: "buffer_wf b" using assms(1,2) by (simp add: usb_inv_def)
  case False
  with assms(4) have "r = kDifBadArg" "b' = b" "d' = dev w" by (auto simp: dif_usbdev_send_def)
  moreover have "keep b (remove1 b (held w)) = b # remove1 b (held w)"
    using wf by (auto simp: keep_def buffer_wf_def)
  ultimately show ?thesis using usb_update_held [OF assms(1,2) refl wf] by simp
next
  case True
  then have e: "unat e < 12" by (simp add: is_valid_endpoint_def USBDEV_NUM_ENDPOINTS_def)
  let ?v = "bitfield_field32_write (bitfield_field32_write 0 USBDEV_CONFIGIN_0_BUFFER_0_FIELD (ucast (buf_id b)))
    USBDEV_CONFIGIN_0_SIZE_0_FIELD (ucast (buf_offset b))"
  let ?v' = "bitfield_bit32_write ?v USBDEV_CONFIGIN_0_RDY_0_BIT True"
  have run: "r = kDifOk" "b' = b\<lparr>buf_type := kDifUsbdevBufferTypeStale\<rparr>"
    "d' = usb_write (ep_reg e) ?v' (usb_write (ep_reg e) ?v (dev w))"
    using assms(4) True ep_reg_facts(1) [OF e]
    by (auto simp: dif_usbdev_send_def Let_def run_usb_write simp flip: ep_reg_def)
  have i: "unat (buf_id b) < 32" by (rule held_id [OF assms(1,2)])
  have id': "configin_id d' e' = (if e' = e then buf_id b else configin_id (dev w) e')" if "unat e' < 12" for e'
    using that buffer_field_ucast [OF i, of 0]
    by (auto simp: run configin_id_write [OF e that] read_write_simps)
  have valid: "\<forall>e'\<in>set (in_flight w). unat e' < 12 \<and> e' \<noteq> e"
    using assms(1,3) by (auto simp: usb_inv_def USBDEV_NUM_ENDPOINTS_def)
  then have "image_mset (configin_id d') (mset (in_flight w)) = image_mset (configin_id (dev w)) (mset (in_flight w))"
    by (intro image_mset_cong) (simp add: id')
  moreover have "av_setup d' = av_setup (dev w)" "av_out d' = av_out (dev w)" "rx_queue d' = rx_queue (dev w)"
    by (simp_all add: run usb_write_ep [OF e])
  moreover have "\<forall>b'\<in>set (remove1 b (held w)). buffer_wf b'"
    using assms(1) by (meson notin_set_remove1 usb_inv_def)
  ultimately show ?thesis
    using assms(1,3) e run held_remove [OF assms(2)] id' [OF e]
    by (simp add: usb_inv_def owned_def keep_def USBDEV_NUM_ENDPOINTS_def)
qed

lemma usb_clear_inv:
  assumes "usb_inv w" "e \<in> set (in_flight w)"
    "run_state (dif_usbdev_clear_tx_status (usb_bus_of h) (Some h) (Some (pool w)) e) (dev w) = ((r, Some p'), d')"
  shows "usb_inv (w\<lparr>dev := d', pool := p', in_flight := remove1 e (in_flight w)\<rparr>)" "r = kDifOk"
proof -
  have e: "unat e < 12" using assms(1,2) by (simp add: usb_inv_def USBDEV_NUM_ENDPOINTS_def)
  have wf: "pool_wf (pool w)" using assms(1) by (simp add: usb_inv_def)
  let ?i = "configin_id (dev w) e"
  let ?d = "usb_write (ep_reg e) (push_bit 30 1) (dev w)"
  obtain ok p1 where a: "buffer_pool_add (pool w) ?i = (ok, p1)" by fastforce
  note P = pool_add [OF wf a]
  with flight_id [OF assms(1,2)] have ok: "ok" by simp
  have run: "p' = p1 \<and> d' = usb_write USBDEV_IN_SENT_REG_OFFSET (push_bit (unat e) 1) ?d \<and> r = kDifOk"
    using assms(3) e ep_reg_facts(1) [OF e] a ok
    by (auto simp: dif_usbdev_clear_tx_status_def Let_def run_usb_write run_usb_read usb_read_ep is_valid_endpoint_def
        USBDEV_NUM_ENDPOINTS_def configin_id_def simp flip: ep_reg_def split: prod.splits)
  then show "r = kDifOk" by blast
  have sent: "configin_id (usb_write USBDEV_IN_SENT_REG_OFFSET v x) e' = configin_id x e'" if "unat e' < 12" for v x e'
    using ep_reg_facts(8) [OF that] by (simp add: usb_write_def configin_id_def)
  have "configin_id d' e' = configin_id (dev w) e'" if "e' \<in> set (remove1 e (in_flight w))" for e'
  proof -
    have "e' \<noteq> e" "e' \<in> set (in_flight w)" using assms(1) that by (auto simp: usb_inv_def)
    moreover from this have "unat e' < 12" using assms(1) by (simp add: usb_inv_def USBDEV_NUM_ENDPOINTS_def)
    ultimately show ?thesis using run sent by (simp add: configin_id_write [OF e])
  qed
  then have "image_mset (configin_id d') (mset (remove1 e (in_flight w)))
      = image_mset (configin_id (dev w)) (mset (remove1 e (in_flight w)))"
    by (intro image_mset_cong) (simp only: set_mset_mset)
  moreover have "image_mset (configin_id (dev w)) (mset (in_flight w))
      = add_mset ?i (image_mset (configin_id (dev w)) (mset (remove1 e (in_flight w))))"
    using assms(2) by (simp add: image_mset_Diff mset_subset_eq_single in_image_mset)
  moreover have "av_setup d' = av_setup (dev w)" "av_out d' = av_out (dev w)" "rx_queue d' = rx_queue (dev w)"
    using run by (simp_all add: usb_write_ep [OF e]) (simp_all add: usb_write_def)
  moreover have "distinct (remove1 e (in_flight w))" "\<forall>e'\<in>set (remove1 e (in_flight w)). unat e' < USBDEV_NUM_ENDPOINTS"
    using assms(1) by (auto simp: usb_inv_def)
  ultimately show "usb_inv (w\<lparr>dev := d', pool := p', in_flight := remove1 e (in_flight w)\<rparr>)"
    using assms(1) P ok run by (simp add: usb_inv_def owned_def)
qed


lemma usb_hw_inv:
  assumes "usb_inv w" "hw_event (dev w) d'"
  shows "usb_inv (w\<lparr>dev := d'\<rparr>)"
  using assms(2)
proof cases
  case (receive_setup i "is" e m)
  moreover have "configin_id d' = configin_id (dev w)" using receive_setup by (simp add: configin_id_def fun_eq_iff)
  ultimately show ?thesis using assms(1) by (simp add: usb_inv_def owned_def)
next
  case (receive_out i "is" e m)
  moreover have "configin_id d' = configin_id (dev w)" using receive_out by (simp add: configin_id_def fun_eq_iff)
  ultimately show ?thesis using assms(1) by (simp add: usb_inv_def owned_def)
next
  case (registers regs)
  have "image_mset (configin_id d') (mset (in_flight w)) = image_mset (configin_id (dev w)) (mset (in_flight w))"
    using assms(1) registers by (intro image_mset_cong) (simp add: usb_inv_def USBDEV_NUM_ENDPOINTS_def)
  with assms(1) registers show ?thesis by (simp add: usb_inv_def owned_def)
qed

lemma usb_step_inv:
  assumes "usb_step h w w'" "base (base_addr h) mod 4 = 0" "usb_inv w"
  shows "usb_inv w'"
  using assms(1)
proof cases
  case (hardware d') with assms(3) show ?thesis by (simp add: usb_hw_inv)
next
  case (fill r p' d') with usb_fill_inv(1) [OF assms(3) fill(2)] show ?thesis by simp
next
  case (recv info b r info' b' d') with usb_recv_inv [OF assms(3) recv(2)] show ?thesis by simp
next
  case (request b r p' b') with usb_request_inv(1) [OF assms(3) request(2)] show ?thesis by simp
next
  case (return b r p' b') with usb_return_inv(1) [OF assms(3) return(2,3)] show ?thesis by simp
next
  case (read_packet b n dst r p' b' dst' cnt' cnt d')
  then show ?thesis using usb_read_inv(1) [OF assms(3,2)] by blast
next
  case (write_packet b n src cnt r b' cnt' d')
  then show ?thesis using usb_packet_write_inv [OF assms(3,2)] by blast
next
  case (send b e r b' d') with usb_send_inv [OF assms(3) send(2,3,4)] show ?thesis by simp
next
  case (clear e r p' d') with usb_clear_inv(1) [OF assms(3) clear(2,3)] show ?thesis by simp
qed

text \<open>The system starts when \<open>dif_usbdev_configure\<close> has succeeded on a device whose FIFOs are
  empty.\<close>

inductive usb_reachable :: "dif_usbdev \<Rightarrow> usb_world \<Rightarrow> bool" for h where
  start: "length (buffers p) = USBDEV_NUM_BUFFERS \<Longrightarrow> av_setup d = [] \<Longrightarrow> av_out d = [] \<Longrightarrow> rx_queue d = []
    \<Longrightarrow> run_state (dif_usbdev_configure (usb_bus_of h) (Some h) (Some p) config) d = ((kDifOk, Some p'), d')
    \<Longrightarrow> usb_reachable h \<lparr>dev = d', pool = p', held = [], in_flight = []\<rparr>"
| step: "usb_reachable h w \<Longrightarrow> usb_step h w w' \<Longrightarrow> usb_reachable h w'"

lemma usb_start_inv:
  assumes "length (buffers p) = USBDEV_NUM_BUFFERS" "av_setup d = []" "av_out d = []" "rx_queue d = []"
    "run_state (dif_usbdev_configure (usb_bus_of h) (Some h) (Some p) config) d = ((kDifOk, Some p'), d')"
  shows "usb_inv \<lparr>dev = d', pool = p', held = [], in_flight = []\<rparr>"
proof -
  obtain p1 where p1: "buffer_pool_init p = (True, p1)" "pool_wf p1" "pool_ids p1 = rev (map of_nat [0..<32])"
    using pool_init [of p] assms(1) by (auto simp: USBDEV_NUM_BUFFERS_def)
  then have "p' = p1" "av_setup d' = []" "av_out d' = []" "rx_queue d' = []"
    using assms by (auto simp: dif_usbdev_configure_def Let_def run_usb_write usb_write_def split: if_splits)
  with p1 show ?thesis by (simp add: usb_inv_def owned_def all_buffers_def USBDEV_NUM_BUFFERS_def)
qed

lemma usb_reachable_inv:
  assumes "usb_reachable h w" "base (base_addr h) mod 4 = 0"
  shows "usb_inv w"
  using assms(1)
proof induction
  case (start p d config p' d')
  then show ?case by (rule usb_start_inv)
next
  case (step w w')
  then show ?case using usb_step_inv assms(2) by metis
qed

lemma distinct_all_buffers: "distinct (map (of_nat :: nat \<Rightarrow> u8) [0..<32])"
  by (auto simp: distinct_map inj_on_def word_unat_eq_iff unat_of_nat)

lemma set_all_buffers: "set (map (of_nat :: nat \<Rightarrow> u8) [0..<32]) = {i. unat i < 32}"
proof (intro set_eqI iffI)
  fix i :: u8 assume "i \<in> {i. unat i < 32}"
  then have "i = of_nat (unat i)" "unat i \<in> {0..<32}" by simp_all
  then show "i \<in> set (map of_nat [0..<32])" by (metis imageI set_map set_upt)
qed (auto simp: unat_of_nat)

text \<open>C8: Buffer ownership: in every state the driver can reach together with its hardware,
  through any sequence of driver calls and packet receptions, each of the 32 packet buffers has
  exactly one owner: the pool, the caller, one of the two FIFOs of empty buffers, the FIFO of
  received packets or an endpoint with a submitted packet. None is lost or handed out twice.\<close>

theorem usb_buffers_have_one_owner:
  assumes "usb_reachable h w" "base (base_addr h) mod 4 = 0"
  defines "owners \<equiv> pool_ids (pool w) @ map buf_id (held w) @ av_setup (dev w) @ av_out (dev w)
      @ map rx_id (rx_queue (dev w)) @ map (configin_id (dev w)) (in_flight w)"
  shows "distinct owners \<and> set owners = {i. unat i < 32}"
proof -
  have "owned w = all_buffers" using usb_reachable_inv [OF assms(1,2)] by (simp add: usb_inv_def)
  then have "mset owners = mset (map of_nat [0..<32])"
    by (simp add: owners_def owned_def all_buffers_def USBDEV_NUM_BUFFERS_def ac_simps)
  then show ?thesis
    using mset_eq_imp_distinct_iff mset_eq_setD distinct_all_buffers set_all_buffers by metis
qed

text \<open>A concrete start of the system.\<close>

definition usb_example :: dif_usbdev where
  "usb_example = \<lparr>base_addr = \<lparr>base = 0x40320000\<rparr>\<rparr>"

definition usb_reset_dev :: usb_dev where
  "usb_reset_dev = \<lparr>av_setup = [], av_out = [], rx_queue = [], usb_regs = (\<lambda>_. 0), packet_mem = (\<lambda>_. 0)\<rparr>"

definition usb_example_pool :: dif_usbdev_buffer_pool where
  "usb_example_pool = \<lparr>buffers = replicate 32 0, pool_top = 0\<rparr>"

definition usb_example_config :: dif_usbdev_config where
  "usb_example_config = \<lparr>have_differential_receiver = kDifToggleEnabled, use_tx_d_se0 = kDifToggleDisabled,
     single_bit_eop = kDifToggleDisabled, pin_flip = kDifToggleDisabled, clock_sync_signals = kDifToggleEnabled\<rparr>"

definition usb_example_start :: usb_world where
  "usb_example_start = \<lparr>
     dev = snd (run_state (dif_usbdev_configure (usb_bus_of usb_example) (Some usb_example) (Some usb_example_pool)
       usb_example_config) usb_reset_dev),
     pool = snd (buffer_pool_init usb_example_pool), held = [], in_flight = []\<rparr>"

lemma usb_example_reachable: "usb_reachable usb_example usb_example_start"
proof -
  obtain p1 where p1: "buffer_pool_init usb_example_pool = (True, p1)"
    using pool_init [of usb_example_pool] by (auto simp: usb_example_pool_def USBDEV_NUM_BUFFERS_def)
  have "\<exists>d'. run_state (dif_usbdev_configure (usb_bus_of usb_example) (Some usb_example) (Some usb_example_pool)
       usb_example_config) usb_reset_dev = ((kDifOk, Some p1), d')"
    by (simp add: dif_usbdev_configure_def p1 usb_example_config_def Let_def run_usb_write dif_is_valid_toggle_def)
  then obtain d' where "run_state (dif_usbdev_configure (usb_bus_of usb_example) (Some usb_example)
      (Some usb_example_pool) usb_example_config) usb_reset_dev = ((kDifOk, Some p1), d')" by blast
  moreover from this have "usb_example_start = \<lparr>dev = d', pool = p1, held = [], in_flight = []\<rparr>"
    by (simp add: usb_example_start_def p1)
  ultimately show ?thesis
    using usb_reachable.start [of usb_example_pool usb_reset_dev usb_example usb_example_config p1 d']
    by (simp add: usb_example_pool_def usb_reset_dev_def USBDEV_NUM_BUFFERS_def)
qed

lemma usb_buffers_have_one_owner_witness:
  "distinct (pool_ids (pool usb_example_start) @ map buf_id (held usb_example_start)
      @ av_setup (dev usb_example_start) @ av_out (dev usb_example_start)
      @ map rx_id (rx_queue (dev usb_example_start))
      @ map (configin_id (dev usb_example_start)) (in_flight usb_example_start))"
  by (rule usb_buffers_have_one_owner [OF usb_example_reachable, THEN conjunct1])
    (simp add: usb_example_def)

subsection \<open>No driver call fails\<close>

lemma buffer_request_total:
  "\<exists>r p' b'. dif_usbdev_buffer_request (Some h) (Some p) (Some b) = (r, Some p', Some b')"
proof -
  obtain ok q x where "buffer_pool_remove p (Some 0) = (ok, q, x)" by (metis surj_pair)
  then show ?thesis by (cases ok; cases x) (simp_all add: dif_usbdev_buffer_request_def)
qed

lemma buffer_return_total:
  "\<exists>r p' b'. dif_usbdev_buffer_return (Some h) (Some p) (Some b) = (r, Some p', Some b')"
proof -
  obtain ok q where "buffer_pool_add p (buf_id b) = (ok, q)" by fastforce
  then show ?thesis by (simp add: dif_usbdev_buffer_return_def)
qed

text \<open>C9: With the callers' rules respected, the pool never overflows and no call reports a
  failure: in every reachable state, filling the FIFOs returns \<open>kDifOk\<close>, and afterwards the OUT FIFO
  holds its eight buffers and the SETUP FIFO at least two of its four, unless the pool has run out; a
  buffer request succeeds exactly as long as the pool holds a buffer; returning a held buffer and
  clearing a submitted packet always succeed.\<close>

theorem usb_calls_succeed:
  assumes "usb_reachable h w" "base (base_addr h) mod 4 = 0"
  shows "(\<forall>r p' d'. run_state (dif_usbdev_fill_available_fifos (usb_bus_of h) (Some h) (Some (pool w))) (dev w)
        = ((r, Some p'), d') \<longrightarrow>
      r = kDifOk \<and> (pool_ids p' = [] \<or> 2 \<le> length (av_setup d') \<and> length (av_out d') = 8))
    \<and> (\<forall>b. fst (dif_usbdev_buffer_request (Some h) (Some (pool w)) (Some b)) = kDifOk \<longleftrightarrow> pool_ids (pool w) \<noteq> [])
    \<and> (\<forall>b\<in>set (held w). fst (dif_usbdev_buffer_return (Some h) (Some (pool w)) (Some b)) = kDifOk)
    \<and> (\<forall>e\<in>set (in_flight w). fst (fst (run_state
        (dif_usbdev_clear_tx_status (usb_bus_of h) (Some h) (Some (pool w)) e) (dev w))) = kDifOk)"
proof (intro conjI)
  note inv = usb_reachable_inv [OF assms]
  show "\<forall>r p' d'. run_state (dif_usbdev_fill_available_fifos (usb_bus_of h) (Some h) (Some (pool w))) (dev w)
        = ((r, Some p'), d') \<longrightarrow>
      r = kDifOk \<and> (pool_ids p' = [] \<or> 2 \<le> length (av_setup d') \<and> length (av_out d') = 8)"
    using usb_fill_inv [OF inv] by blast
  show "\<forall>b. fst (dif_usbdev_buffer_request (Some h) (Some (pool w)) (Some b)) = kDifOk \<longleftrightarrow> pool_ids (pool w) \<noteq> []"
  proof
    fix b
    obtain r p' b' where "dif_usbdev_buffer_request (Some h) (Some (pool w)) (Some b) = (r, Some p', Some b')"
      using buffer_request_total by blast
    from usb_request_inv(2) [OF inv this] this
    show "fst (dif_usbdev_buffer_request (Some h) (Some (pool w)) (Some b)) = kDifOk \<longleftrightarrow> pool_ids (pool w) \<noteq> []"
      by simp
  qed
  show "\<forall>b\<in>set (held w). fst (dif_usbdev_buffer_return (Some h) (Some (pool w)) (Some b)) = kDifOk"
  proof
    fix b assume b: "b \<in> set (held w)"
    obtain r p' b' where "dif_usbdev_buffer_return (Some h) (Some (pool w)) (Some b) = (r, Some p', Some b')"
      using buffer_return_total by blast
    from usb_return_inv(2) [OF inv b this] this
    show "fst (dif_usbdev_buffer_return (Some h) (Some (pool w)) (Some b)) = kDifOk" by simp
  qed
  show "\<forall>e\<in>set (in_flight w). fst (fst (run_state
        (dif_usbdev_clear_tx_status (usb_bus_of h) (Some h) (Some (pool w)) e) (dev w))) = kDifOk"
  proof
    fix e assume e: "e \<in> set (in_flight w)"
    obtain r q d' where run: "run_state (dif_usbdev_clear_tx_status (usb_bus_of h) (Some h) (Some (pool w)) e) (dev w)
        = ((r, q), d')" by (metis surj_pair)
    moreover from this obtain p' where "q = Some p'"
      by (auto simp: dif_usbdev_clear_tx_status_def Let_def split: prod.splits if_splits)
    ultimately show "fst (fst (run_state (dif_usbdev_clear_tx_status (usb_bus_of h) (Some h) (Some (pool w)) e) (dev w))) = kDifOk"
      using usb_clear_inv(2) [OF inv e] by simp
  qed
qed

lemma usb_calls_succeed_witness:
  "\<forall>b. fst (dif_usbdev_buffer_request (Some usb_example) (Some (pool usb_example_start)) (Some b)) = kDifOk"
proof -
  have "pool_ids (pool usb_example_start) \<noteq> []"
    using pool_init [of usb_example_pool]
    by (auto simp: usb_example_start_def usb_example_pool_def USBDEV_NUM_BUFFERS_def)
  then show ?thesis
    using usb_calls_succeed [OF usb_example_reachable] by (simp add: usb_example_def)
qed

subsection \<open>Packet contents\<close>

text \<open>A packet written piece by piece.\<close>

primrec write_segments :: "dif_usbdev \<Rightarrow> dif_usbdev_buffer \<Rightarrow> u8 list list
    \<Rightarrow> (usb_dev, dif_result list \<times> dif_usbdev_buffer) state" where
  "write_segments h b [] = ret ([], b)"
| "write_segments h b (s # ss) = do {
     (r, b', n) \<leftarrow> dif_usbdev_buffer_write (usb_bus_of h) (Some h) (Some b) (Some s) (of_nat (length s)) null;
     (rs, b') \<leftarrow> write_segments h (the b') ss;
     ret (r # rs, b')
   }"

lemma write_segments_device:
  assumes "base (base_addr h) mod 4 = 0" "unat (buf_id b) < 32" "buffer_wf b" "buf_type b = kDifUsbdevBufferTypeWrite"
    "length (concat ss) \<le> unat (remaining_bytes b)"
  shows "\<exists>d'. run_state (write_segments h b ss) d = ((replicate (length ss) kDifOk,
        b\<lparr>buf_offset := buf_offset b + of_nat (length (concat ss)),
          remaining_bytes := remaining_bytes b - of_nat (length (concat ss))\<rparr>), d')
    \<and> usb_mem.byte_at h d' = overlay (usb_mem.byte_at h d)
        (base (base_addr h) + get_buffer_addr (buf_id b) (ucast (buf_offset b))) (concat ss)
    \<and> d' = d\<lparr>packet_mem := packet_mem d'\<rparr>"
  using assms
proof (induction ss arbitrary: b d)
  case Nil
  then show ?case by (simp add: overlay_def fun_eq_iff)
next
  case (Cons s ss)
  have sl: "length s \<le> unat (remaining_bytes b)" "length s + length (concat ss) \<le> unat (remaining_bytes b)"
    using Cons.prems by simp_all
  have rem: "unat (buf_offset b) + unat (remaining_bytes b) \<le> 64"
    using Cons.prems(3) by (simp add: buffer_wf_def USBDEV_BUFFER_ENTRY_SIZE_BYTES_def USBDEV_MAX_PACKET_SIZE_def)
  have n: "unat (of_nat (length s) :: u32) = length s" using sl rem by (simp add: unat_of_nat)
  let ?m = "length s"
  define b1 where "b1 = b\<lparr>buf_offset := buf_offset b + of_nat ?m, remaining_bytes := remaining_bytes b - of_nat ?m\<rparr>"
  note adv = buffer_advance [OF Cons.prems(3) sl(1), folded b1_def]
  from dif_usbdev_buffer_write_device [OF Cons.prems(1-4), of "of_nat (length s)" s null d] n sl
  obtain d1 where d1: "run_state (dif_usbdev_buffer_write (usb_bus_of h) (Some h) (Some b) (Some s) (of_nat (length s)) null) d
      = ((kDifOk, Some b1, null), d1)"
    "usb_mem.byte_at h d1 = overlay (usb_mem.byte_at h d)
        (base (base_addr h) + get_buffer_addr (buf_id b) (ucast (buf_offset b))) s"
    "d1 = d\<lparr>packet_mem := packet_mem d1\<rparr>"
    by (auto simp: min_def b1_def)
  have b1: "unat (buf_id b1) < 32" "buf_type b1 = kDifUsbdevBufferTypeWrite"
    "length (concat ss) \<le> unat (remaining_bytes b1)"
    using Cons.prems adv sl by (simp_all add: b1_def)
  from Cons.IH [OF Cons.prems(1) b1(1) adv(3) b1(2,3)]
  obtain d2 where d2: "run_state (write_segments h b1 ss) d1 = ((replicate (length ss) kDifOk,
        b1\<lparr>buf_offset := buf_offset b1 + of_nat (length (concat ss)),
          remaining_bytes := remaining_bytes b1 - of_nat (length (concat ss))\<rparr>), d2)"
    "usb_mem.byte_at h d2 = overlay (usb_mem.byte_at h d1)
        (base (base_addr h) + get_buffer_addr (buf_id b1) (ucast (buf_offset b1))) (concat ss)"
    "d2 = d1\<lparr>packet_mem := packet_mem d2\<rparr>"
    by blast
  have "unat (buf_offset b1) = unat (buf_offset b) + ?m" using adv(1) by (simp add: b1_def)
  then have "of_nat (unat (buf_offset b1)) = (of_nat (unat (buf_offset b)) + of_nat ?m :: u32)"
    by (simp only: of_nat_add)
  then have off: "(ucast (buf_offset b1) :: u32) = ucast (buf_offset b) + of_nat ?m" by simp
  have "usb_mem.byte_at h d2 = overlay (usb_mem.byte_at h d)
        (base (base_addr h) + get_buffer_addr (buf_id b) (ucast (buf_offset b))) (concat (s # ss))"
    using overlay_append [of s "concat ss" "usb_mem.byte_at h d"
        "base (base_addr h) + get_buffer_addr (buf_id b) (ucast (buf_offset b))"] sl rem
    unfolding d2(2) d1(2) off by (simp add: get_buffer_addr_def add_ac b1_def)
  moreover have "d2 = d\<lparr>packet_mem := packet_mem d2\<rparr>" using d1(3) d2(3) by (cases d; cases d1; cases d2) simp
  ultimately show ?case using d1(1) d2(1) by (intro exI [of _ d2]) (simp add: b1_def add_ac diff_diff_eq)
qed

text \<open>C10: Packet round trip: a packet of at most 64 bytes written into a buffer piece by piece,
  in pieces of any length and alignment, is what reading the same buffer gives back. Every write
  succeeds and advances the offset by the length of its piece; the read returns the bytes in
  order, their number, and the exhausted buffer to the pool; nothing outside the packet memory
  and no other byte of it changes.\<close>

theorem usb_packet_roundtrip:
  assumes "base (base_addr h) mod 4 = 0" "unat i < 32" "length (concat ss) \<le> 64"
    "length (concat ss) \<le> unat n" "unat n \<le> length dst" "pool_wf p" "length (pool_ids p) < 32"
  defines "fresh \<equiv> \<lparr>buf_id = i, buf_offset = 0, remaining_bytes = 64, buf_type = kDifUsbdevBufferTypeWrite\<rparr>"
  shows "\<exists>d' p' b'. run_state (write_segments h fresh ss) d = ((replicate (length ss) kDifOk,
        fresh\<lparr>buf_offset := of_nat (length (concat ss)), remaining_bytes := 64 - of_nat (length (concat ss))\<rparr>), d')
    \<and> d' = d\<lparr>packet_mem := packet_mem d'\<rparr>
    \<and> usb_mem.byte_at h d' = overlay (usb_mem.byte_at h d) (base (base_addr h) + get_buffer_addr i 0) (concat ss)
    \<and> run_state (dif_usbdev_buffer_read (usb_bus_of h) (Some h) (Some p)
          (Some \<lparr>buf_id = i, buf_offset = 0, remaining_bytes = of_nat (length (concat ss)),
             buf_type = kDifUsbdevBufferTypeRead\<rparr>) (Some dst) n (Some cnt)) d'
        = ((kDifOk, Some p', Some b', Some (concat ss @ drop (length (concat ss)) dst),
            Some (of_nat (length (concat ss)))), d')
    \<and> pool_ids p' = i # pool_ids p \<and> buf_type b' = kDifUsbdevBufferTypeStale"
proof -
  let ?n = "length (concat ss)"
  let ?r = "\<lparr>buf_id = i, buf_offset = 0, remaining_bytes = of_nat ?n, buf_type = kDifUsbdevBufferTypeRead\<rparr>"
  have wf: "buffer_wf fresh"
    by (simp add: buffer_wf_def fresh_def USBDEV_BUFFER_ENTRY_SIZE_BYTES_def USBDEV_MAX_PACKET_SIZE_def)
  have n: "unat (of_nat ?n :: u8) = ?n" using assms(3) by (simp only: unat_of_nat) simp
  then have wfr: "buffer_wf ?r"
    using assms(3) by (simp add: buffer_wf_def USBDEV_BUFFER_ENTRY_SIZE_BYTES_def USBDEV_MAX_PACKET_SIZE_def)
  obtain d' where d': "run_state (write_segments h fresh ss) d = ((replicate (length ss) kDifOk,
        fresh\<lparr>buf_offset := of_nat ?n, remaining_bytes := 64 - of_nat ?n\<rparr>), d')"
      "usb_mem.byte_at h d' = overlay (usb_mem.byte_at h d) (base (base_addr h) + get_buffer_addr i 0) (concat ss)"
      "d' = d\<lparr>packet_mem := packet_mem d'\<rparr>"
    using write_segments_device [OF assms(1) _ wf, of ss d] assms(2,3) by (auto simp: fresh_def)
  obtain ok p' where p': "buffer_pool_add p i = (ok, p')" by fastforce
  from pool_add [OF assms(6) p'] assms(2,7) have "ok" "pool_ids p' = i # pool_ids p" by simp_all
  have "usb_mem.bytes_at h d' (base (base_addr h) + get_buffer_addr i 0) ?n = concat ss"
    using assms(3) by (intro nth_equalityI) (simp_all only: usb_mem.bytes_at_def d'(2) length_map length_upt nth_map nth_upt, simp_all add: overlay_inside)
  then show ?thesis
    using dif_usbdev_buffer_read_device [OF assms(1) _ wfr _ assms(5), of p "Some cnt" d'] d' p' \<open>ok\<close>
      \<open>pool_ids p' = i # pool_ids p\<close> assms(2,4) n
    by (simp add: Let_def put_bytes_def min_def)
qed

lemma usb_packet_roundtrip_witness:
  "\<exists>d' p' b'. fst (run_state (write_segments usb_example \<lparr>buf_id = 5, buf_offset = 0, remaining_bytes = 64,
        buf_type = kDifUsbdevBufferTypeWrite\<rparr> [[1, 2, 3], [4, 5]]) usb_reset_dev)
      = ([kDifOk, kDifOk], \<lparr>buf_id = 5, buf_offset = 5, remaining_bytes = 59, buf_type = kDifUsbdevBufferTypeWrite\<rparr>)
    \<and> run_state (dif_usbdev_buffer_read (usb_bus_of usb_example) (Some usb_example)
          (Some \<lparr>buffers = replicate 32 0, pool_top = -1\<rparr>)
          (Some \<lparr>buf_id = 5, buf_offset = 0, remaining_bytes = 5, buf_type = kDifUsbdevBufferTypeRead\<rparr>)
          (Some [0, 0, 0, 0, 0, 9]) 6 (Some 0)) d'
        = ((kDifOk, Some p', Some b', Some [1, 2, 3, 4, 5, 9], Some 5), d')
    \<and> pool_ids p' = [5]"
proof -
  have "pool_ids \<lparr>buffers = replicate 32 0, pool_top = -1\<rparr> = []" by (simp add: pool_ids_def)
  moreover from this have "pool_wf \<lparr>buffers = replicate 32 0, pool_top = -1\<rparr>"
    by (simp add: pool_wf_def USBDEV_NUM_BUFFERS_def)
  ultimately show ?thesis
    using usb_packet_roundtrip [of usb_example 5 "[[1, 2, 3], [4, 5]]" 6 "[0, 0, 0, 0, 0, 9]"
        "\<lparr>buffers = replicate 32 0, pool_top = -1\<rparr>" usb_reset_dev 0]
    by (fastforce simp: usb_example_def)
qed

subsection \<open>The frame index\<close>

text \<open>The frame number has eleven bits; the driver narrows it to eight before it stores it.\<close>

lemma dif_usbdev_frame_truncated:
  assumes "run_state (rd32 B h USBDEV_USBSTAT_REG_OFFSET) d = (v, d')"
  shows "run_state (dif_usbdev_status_get_frame B (Some h) (Some x)) d =
    ((kDifOk, Some (ucast (bitfield_field32_read v USBDEV_USBSTAT_FRAME_FIELD AND 0xff))), d')"
proof -
  have "ucast (ucast w :: u8) = (ucast (w AND 0xff) :: u16)" for w :: u32
    by (rule bit_word_eqI) (auto simp: bit_simps)
  then show ?thesis using assms by (simp add: dif_usbdev_status_get_frame_def)
qed

end
