(* ===== verification/UsbTransfer.thy ===== *)
theory UsbTransfer
  imports UsbTestutils UsbSystem
begin

section \<open>Transfers over the USB\<close>

text \<open>
  What \<^verbatim>\<open>usb_testutils_transfer_send\<close> and \<^verbatim>\<open>usb_testutils_poll\<close> do together, on the device of the theory
  UsbSystem and with a host that fetches packets: the data goes over the bus in packets of the
  maximum length with a short one at the end, once and in order, whatever buffers are free and
  whether the next packet is prepared ahead or not.
\<close>

subsection \<open>How a transfer is divided\<close>

function packets :: "nat \<Rightarrow> bool \<Rightarrow> 'a list \<Rightarrow> 'a list list" where
  "packets mp zlp xs =
     (if mp = 0 \<or> length xs < mp \<or> length xs = mp \<and> \<not> zlp then [xs]
      else take mp xs # packets mp zlp (drop mp xs))"
  by pat_completeness auto
termination
  by (relation "measure (\<lambda>(_, _, xs). length xs)") auto

declare packets.simps [simp del]

lemma packets_concat: "concat (packets mp zlp xs) = xs"
  by (induction mp zlp xs rule: packets.induct) (subst packets.simps, simp)

lemma packets_sizes:
  assumes "0 < mp" "packets mp zlp xs = ps @ [p]"
  shows "(\<forall>q\<in>set ps. length q = mp) \<and> length p \<le> mp \<and> (length p = mp \<longrightarrow> \<not> zlp)"
  using assms
proof (induction mp zlp xs arbitrary: ps rule: packets.induct)
  case (1 mp zlp xs)
  show ?case
  proof (cases "length xs < mp \<or> length xs = mp \<and> \<not> zlp")
    case True
    with 1(2,3) show ?thesis by (auto simp: packets.simps [of mp zlp xs] Cons_eq_append_conv)
  next
    case False
    with 1(2,3) have e: "take mp xs # packets mp zlp (drop mp xs) = ps @ [p]"
      by (simp add: packets.simps [of mp zlp xs])
    have "packets mp zlp (drop mp xs) \<noteq> []" by (subst packets.simps) simp
    with e obtain ps' where ps: "ps = take mp xs # ps'" "packets mp zlp (drop mp xs) = ps' @ [p]"
      by (auto simp: Cons_eq_append_conv)
    have "\<not> (mp = 0 \<or> length xs < mp \<or> length xs = mp \<and> \<not> zlp)" using False 1(2) by simp
    from 1(1) [OF this 1(2) ps(2)] False ps(1) show ?thesis by auto
  qed
qed

lemma packets_Nil: "0 < mp \<Longrightarrow> packets mp zlp [] = [[]]"
  by (subst packets.simps) simp

subsection \<open>Packets in the packet memory\<close>

definition buffer_data :: "dif_usbdev \<Rightarrow> usb_dev \<Rightarrow> u8 \<Rightarrow> nat \<Rightarrow> u8 list" where
  "buffer_data h d i n = usb_mem.bytes_at h d (base (base_addr h) + get_buffer_addr i 0) n"

lemma buffer_data_regs [simp]:
  "buffer_data h (d\<lparr>usb_regs := r\<rparr>) i n = buffer_data h d i n"
  "buffer_data h (d\<lparr>av_setup := a\<rparr>) i n = buffer_data h d i n"
  "buffer_data h (d\<lparr>av_out := a\<rparr>) i n = buffer_data h d i n"
  by (simp_all add: buffer_data_def usb_mem.bytes_at_def usb_mem.byte_at_def)

lemma length_buffer_data [simp]: "length (buffer_data h d i n) = n"
  by (simp add: buffer_data_def usb_mem.bytes_at_def)

lemma buffer_data_same:
  assumes "usb_mem.byte_at h d' = overlay (usb_mem.byte_at h d) (base (base_addr h) + get_buffer_addr i 0) xs"
    "length xs \<le> 64"
  shows "buffer_data h d' i (length xs) = xs"
  using assms(2) unfolding buffer_data_def usb_mem.bytes_at_def assms(1)
  by (intro nth_equalityI) (simp_all add: overlay_inside)

lemma buffer_data_other:
  assumes "usb_mem.byte_at h d' = overlay (usb_mem.byte_at h d) (base (base_addr h) + get_buffer_addr j 0) xs"
    "length xs \<le> 64" "unat i < 32" "unat j < 32" "i \<noteq> j" "n \<le> 64"
  shows "buffer_data h d' i n = buffer_data h d i n"
proof -
  have "length xs \<le> unat (get_buffer_addr i 0 + of_nat k - get_buffer_addr j 0)" if k: "k < n" for k
  proof -
    have ne: "unat i \<noteq> unat j" using assms(5) by (simp add: word_unat_eq_iff)
    have e: "get_buffer_addr i 0 + of_nat k = get_buffer_addr i (of_nat k)" by (simp add: get_buffer_addr_def)
    have a: "unat (get_buffer_addr i (of_nat k)) = 0x800 + unat i * 64 + k"
      using k assms(3,6) by (intro unat_buffer_addr) simp_all
    have b: "unat (get_buffer_addr j 0) = 0x800 + unat j * 64"
      using unat_buffer_addr [of j 0] assms(4) by simp
    show ?thesis
    proof (cases "unat i < unat j")
      case True
      have "unat (get_buffer_addr i (of_nat k) - get_buffer_addr j 0)
          = 2 ^ 32 + unat (get_buffer_addr i (of_nat k)) - unat (get_buffer_addr j 0)"
        using True a b k assms(6) by (subst unat_sub_if_size) (auto simp: word_size word_le_nat_alt)
      then show ?thesis using a b assms(2,4) unfolding e by simp
    next
      case False
      with ne have "unat j < unat i" by simp
      then show ?thesis unfolding e using a b assms(2)
        by (subst unat_sub) (simp_all add: word_le_nat_alt)
    qed
  qed
  then have "overlay f (base (base_addr h) + get_buffer_addr j 0) xs (base (base_addr h) + get_buffer_addr i 0 + of_nat k)
      = f (base (base_addr h) + get_buffer_addr i 0 + of_nat k)" if "k < n" for k f
    using that by (simp add: overlay_def Let_def algebra_simps not_less [symmetric])
  then show ?thesis
    unfolding buffer_data_def usb_mem.bytes_at_def assms(1) by (intro map_cong refl) simp
qed

subsection \<open>Preparing a packet\<close>

definition world :: "('c, 'h, 'u, usb_dev) usb_sys \<Rightarrow> dif_usbdev_buffer list \<Rightarrow> u8 list \<Rightarrow> usb_world" where
  "world s H F = \<lparr>dev = usb_device s, pool = ctx_pool (ctx s), held = H, in_flight = F\<rparr>"

lemma world_sel [simp]:
  "dev (world s H F) = usb_device s" "pool (world s H F) = ctx_pool (ctx s)"
  "held (world s H F) = H" "in_flight (world s H F) = F"
  by (simp_all add: world_def)

definition written_buffer :: "u8 \<Rightarrow> nat \<Rightarrow> dif_usbdev_buffer" where
  "written_buffer i n = \<lparr>buf_id = i, buf_offset = of_nat n, remaining_bytes = 64 - of_nat n,
     buf_type = kDifUsbdevBufferTypeWrite\<rparr>"

definition max_packet_of :: "u32 \<Rightarrow> u32" where
  "max_packet_of flags = (if flags AND kUsbTestutilsXfrMaxPacketSupplied \<noteq> 0
     then flags AND kUsbTestutilsXfrMaxPacketMask else of_nat USBDEV_MAX_PACKET_SIZE)"

definition employ_zlp :: "u32 \<Rightarrow> bool" where
  "employ_zlp flags \<longleftrightarrow> flags AND kUsbTestutilsXfrEmployZLP \<noteq> 0"

lemma unat_of_nat_8: "n \<le> 64 \<Longrightarrow> unat (of_nat n :: u8) = n"
  by (simp add: unat_of_nat)

lemma count_member: "x \<in># A \<Longrightarrow> 1 \<le> count A x"
  by (metis One_nat_def Suc_leI count_greater_zero_iff)

text \<open>Two owners never have the same buffer.\<close>

lemma held_not_in_flight:
  assumes "usb_inv w" "b \<in> set (held w)" "e \<in> set (in_flight w)"
  shows "buf_id b \<noteq> configin_id (dev w) e"
proof
  assume eq: "buf_id b = configin_id (dev w) e"
  have "buf_id b \<in># mset (map buf_id (held w))" using assms(2) by simp
  then have c: "1 \<le> count (mset (map buf_id (held w))) (buf_id b)" by (rule count_member)
  have "buf_id b \<in># mset (map (configin_id (dev w)) (in_flight w))" using assms(3) by (simp add: eq)
  then have "1 \<le> count (mset (map (configin_id (dev w)) (in_flight w))) (buf_id b)"
    by (rule count_member)
  with c have "2 \<le> count (owned w) (buf_id b)" unfolding owned_def count_union by linarith
  moreover have "owned w = all_buffers" using assms(1) by (simp add: usb_inv_def)
  moreover have "count all_buffers (buf_id b) \<le> 1"
    using distinct_all_buffers unfolding all_buffers_def USBDEV_NUM_BUFFERS_def distinct_count_atmost_1 by (metis le_refl zero_le_one)
  ultimately show False by simp
qed

lemma buffer_request_device:
  assumes "pool_wf p"
  shows "pool_ids p = [] \<Longrightarrow> dif_usbdev_buffer_request (Some h) (Some p) (Some b) = (kDifUnavailable, Some p, Some b)"
    and "pool_ids p = i # is \<Longrightarrow> \<exists>p'. dif_usbdev_buffer_request (Some h) (Some p) (Some b)
      = (kDifOk, Some p', Some (written_buffer i 0))"
proof -
  show "pool_ids p = [] \<Longrightarrow> dif_usbdev_buffer_request (Some h) (Some p) (Some b) = (kDifUnavailable, Some p, Some b)"
    using assms by (simp add: dif_usbdev_buffer_request_def pool_is_empty)
  assume "pool_ids p = i # is"
  with pool_remove [OF assms this, of 0] assms
  show "\<exists>p'. dif_usbdev_buffer_request (Some h) (Some p) (Some b) = (kDifOk, Some p', Some (written_buffer i 0))"
    by (auto simp: dif_usbdev_buffer_request_def pool_is_empty written_buffer_def USBDEV_BUFFER_ENTRY_SIZE_BYTES_def
        USBDEV_MAX_PACKET_SIZE_def)
qed

text \<open>Writing the first bytes of a source into a fresh buffer.\<close>

lemma fresh_write:
  assumes "base (base_addr h) mod 4 = 0" "unat i < 32" "n \<le> 64" "n \<le> length src"
  shows "\<exists>d'. run_state (dif_usbdev_buffer_write (usb_bus_of h) (Some h) (Some (written_buffer i 0)) (Some src) (of_nat n) (Some 0)) d
      = ((kDifOk, Some (written_buffer i n), Some (of_nat n)), d')
    \<and> d' = d\<lparr>packet_mem := packet_mem d'\<rparr> \<and> buffer_data h d' i n = take n src
    \<and> (\<forall>j k. unat j < 32 \<longrightarrow> j \<noteq> i \<longrightarrow> k \<le> 64 \<longrightarrow> buffer_data h d' j k = buffer_data h d j k)"
proof -
  have wf: "buffer_wf (written_buffer i 0)"
    by (simp add: written_buffer_def buffer_wf_def USBDEV_BUFFER_ENTRY_SIZE_BYTES_def USBDEV_MAX_PACKET_SIZE_def)
  have n: "unat (of_nat n :: u32) = n" using assms(3) by (simp add: unat_of_nat)
  obtain d' where d': "run_state (dif_usbdev_buffer_write (usb_bus_of h) (Some h) (Some (written_buffer i 0)) (Some src) (of_nat n) (Some 0)) d
      = ((kDifOk, Some (written_buffer i n), Some (of_nat n)), d')"
    "usb_mem.byte_at h d' = overlay (usb_mem.byte_at h d) (base (base_addr h) + get_buffer_addr i 0) (take n src)"
    "d' = d\<lparr>packet_mem := packet_mem d'\<rparr>"
    using dif_usbdev_buffer_write_device [OF assms(1) _ wf, of "of_nat n" src "Some 0" d] assms(2-4) n
    by (auto simp: written_buffer_def min_def)
  have l: "length (take n src) = n" using assms(4) by simp
  have "buffer_data h d' i n = take n src"
    using buffer_data_same [OF d'(2)] assms(3) l by simp
  moreover have "buffer_data h d' j k = buffer_data h d j k" if "unat j < 32" "j \<noteq> i" "k \<le> 64" for j k
    using buffer_data_other [OF d'(2) _ that(1) assms(2) that(2,3)] assms(3) l by simp
  ultimately show ?thesis using d' by blast
qed

lemma sys_same [simp]: "s\<lparr>ctx := (ctx s)\<lparr>ctx_pool := ctx_pool (ctx s)\<rparr>, usb_device := usb_device s\<rparr> = s"
  by (cases s; cases "ctx s") simp

lemma buffer_request_run:
  assumes "pool_wf (ctx_pool (ctx s))"
  shows "pool_ids (ctx_pool (ctx s)) = [] \<Longrightarrow> buffer_request b s = Some (Inr (kDifUnavailable, b), s)"
    and "pool_ids (ctx_pool (ctx s)) = i # is \<Longrightarrow>
      \<exists>p'. buffer_request b s = Some (Inr (kDifOk, written_buffer i 0), s\<lparr>ctx := (ctx s)\<lparr>ctx_pool := p'\<rparr>\<rparr>)
        \<and> dif_usbdev_buffer_request (Some (ctx_dev (ctx s))) (Some (ctx_pool (ctx s))) (Some b)
          = (kDifOk, Some p', Some (written_buffer i 0))"
  using buffer_request_device [OF assms, where h = "ctx_dev (ctx s)" and b = b]
  by (auto simp: buffer_request_def pool_call_def split: prod.splits)

text \<open>The length of the next packet.\<close>

lemma part_length:
  assumes "length data < 2 ^ 32" "unat off \<le> length data" "mp \<le> 64"
  shows "(if of_nat (length data) - off > (of_nat mp :: u32) then of_nat mp else of_nat (length data) - off)
    = of_nat (min mp (length data - unat off))"
proof -
  have l: "unat (of_nat (length data) :: u32) = length data" using assms(1) by (simp add: unat_of_nat)
  have "unat (of_nat (length data) - off) = length data - unat off"
    using assms(2) l by (subst unat_sub) (simp_all add: word_le_nat_alt)
  then have d: "of_nat (length data) - off = of_nat (length data - unat off)" by (metis of_nat_unat ucast_id)
  have "unat (of_nat mp :: u32) = mp" using assms(3) by (simp add: unat_of_nat)
  then show ?thesis unfolding d using assms(1)
    by (auto simp: word_less_nat_alt unat_of_nat min_def)
qed

definition chunk :: "nat \<Rightarrow> usb_testutils_transfer \<Rightarrow> u8 list \<Rightarrow> nat" where
  "chunk mp t data = min mp (length data - unat (xfer_offset t))"

definition prepared :: "nat \<Rightarrow> u8 list \<Rightarrow> usb_testutils_transfer \<Rightarrow> u8 \<Rightarrow> usb_testutils_transfer" where
  "prepared mp data t i = (let n = chunk mp t data in
     t\<lparr>next_part := written_buffer i n,
       xfer_last := \<not> (n = mp \<and> (unat (xfer_offset t) + n < length data \<or> employ_zlp (xfer_flags t))),
       xfer_offset := xfer_offset t + of_nat n\<rparr>)"

definition transfer_ok :: "nat \<Rightarrow> u8 list \<Rightarrow> usb_testutils_transfer \<Rightarrow> bool" where
  "transfer_ok mp data t \<longleftrightarrow> xfer_buffer t = Some data \<and> xfer_length t = of_nat (length data)
     \<and> length data < 2 ^ 32 \<and> unat (xfer_offset t) \<le> length data
     \<and> max_packet_of (xfer_flags t) = of_nat mp \<and> 0 < mp \<and> mp \<le> 64"

lemma prepared_ok: "transfer_ok mp data t \<Longrightarrow> transfer_ok mp data (prepared mp data t i)"
  and prepared_offset: "transfer_ok mp data t \<Longrightarrow>
    unat (xfer_offset (prepared mp data t i)) = unat (xfer_offset t) + chunk mp t data"
proof -
  assume t: "transfer_ok mp data t"
  let ?n = "chunk mp t data"
  have le: "unat (xfer_offset t) + ?n \<le> length data" "length data < 2 ^ 32"
    using t by (auto simp: transfer_ok_def chunk_def)
  then have "unat (of_nat ?n :: u32) = ?n" by (simp add: unat_of_nat)
  then have "unat (xfer_offset t + of_nat ?n) = unat (xfer_offset t) + ?n"
    using le by (subst unat_add_lem [THEN iffD1]) simp_all
  then show "unat (xfer_offset (prepared mp data t i)) = unat (xfer_offset t) + ?n"
    by (simp add: prepared_def Let_def)
  with t le show "transfer_ok mp data (prepared mp data t i)"
    by (simp add: transfer_ok_def prepared_def Let_def)
qed

lemma prepared_packets:
  assumes "transfer_ok mp data t"
  shows "packets mp (employ_zlp (xfer_flags t)) (drop (unat (xfer_offset t)) data)
    = take (chunk mp t data) (drop (unat (xfer_offset t)) data)
      # (if xfer_last (prepared mp data t i) then []
         else packets mp (employ_zlp (xfer_flags t)) (drop (unat (xfer_offset (prepared mp data t i))) data))"
  using assms prepared_offset [OF assms, of i]
  by (subst packets.simps) (auto simp: prepared_def Let_def chunk_def transfer_ok_def min_def add.commute)

lemma part_prepare_empty:
  assumes "pool_wf (ctx_pool (ctx s))" "pool_ids (ctx_pool (ctx s)) = []"
  shows "usb_testutils_part_prepare B t s = Some (Inr (False, t), s)"
  using buffer_request_run(1) [OF assms]
  by (simp add: usb_testutils_part_prepare_def andThen_value prog_simps)

lemma part_prepare_run:
  assumes "usb_inv (world s H F)" "base (base_addr (ctx_dev (ctx s))) mod 4 = 0" "transfer_ok mp data t"
    "pool_ids (ctx_pool (ctx s)) \<noteq> []"
  defines "h \<equiv> ctx_dev (ctx s)" and "n \<equiv> chunk mp t data"
  shows "\<exists>i s'. usb_testutils_part_prepare (usb_bus_of h) t s = Some (Inr (True, prepared mp data t i), s')
    \<and> s' = s\<lparr>ctx := (ctx s)\<lparr>ctx_pool := ctx_pool (ctx s')\<rparr>,
        usb_device := (usb_device s)\<lparr>packet_mem := packet_mem (usb_device s')\<rparr>\<rparr>
    \<and> usb_inv (world s' (written_buffer i n # H) F) \<and> unat i < 32
    \<and> buffer_data h (usb_device s') i n = take n (drop (unat (xfer_offset t)) data)
    \<and> (\<forall>j k. unat j < 32 \<longrightarrow> j \<noteq> i \<longrightarrow> k \<le> 64 \<longrightarrow>
        buffer_data h (usb_device s') j k = buffer_data h (usb_device s) j k)"
proof -
  let ?xs = "drop (unat (xfer_offset t)) data"
  have wf: "pool_wf (ctx_pool (ctx s))" using assms(1) by (simp add: usb_inv_def)
  obtain i "is" where ids: "pool_ids (ctx_pool (ctx s)) = i # is" using assms(4) by (cases "pool_ids (ctx_pool (ctx s))") auto
  obtain p' where req: "buffer_request (next_part t) s = Some (Inr (kDifOk, written_buffer i 0), s\<lparr>ctx := (ctx s)\<lparr>ctx_pool := p'\<rparr>\<rparr>)"
    "dif_usbdev_buffer_request (Some h) (Some (ctx_pool (ctx s))) (Some (next_part t)) = (kDifOk, Some p', Some (written_buffer i 0))"
    using buffer_request_run(2) [OF wf ids, of "next_part t"] by (auto simp: h_def)
  let ?s1 = "s\<lparr>ctx := (ctx s)\<lparr>ctx_pool := p'\<rparr>\<rparr>"
  have inv1: "usb_inv (world ?s1 (written_buffer i 0 # H) F)"
    using usb_request_inv(1) [OF assms(1), of h "next_part t" kDifOk p' "written_buffer i 0"] req(2) by (simp add: world_def)
  have i: "unat i < 32" using held_id(1) [OF inv1, of "written_buffer i 0"] by (simp add: written_buffer_def)
  have n: "n \<le> 64" "n \<le> length ?xs" "unat (of_nat n :: u32) = n"
    using assms(3) by (auto simp: n_def chunk_def transfer_ok_def unat_of_nat)
  obtain d' where w: "run_state (dif_usbdev_buffer_write (usb_bus_of h) (Some h) (Some (written_buffer i 0)) (Some ?xs) (of_nat n) (Some 0))
        (usb_device s) = ((kDifOk, Some (written_buffer i n), Some (of_nat n)), d')"
    "d' = (usb_device s)\<lparr>packet_mem := packet_mem d'\<rparr>" "buffer_data h d' i n = take n ?xs"
    "\<forall>j k. unat j < 32 \<longrightarrow> j \<noteq> i \<longrightarrow> k \<le> 64 \<longrightarrow> buffer_data h d' j k = buffer_data h (usb_device s) j k"
    using fresh_write [of h i n ?xs "usb_device s"] assms(2) i n by (auto simp: h_def)
  have mp: "unat (of_nat mp :: u32) = mp" using assms(3) by (simp add: transfer_ok_def unat_of_nat)
  have nmp: "n \<le> mp" by (simp add: n_def chunk_def)
  have e1: "of_nat n = (of_nat mp :: u32) \<longleftrightarrow> n = mp" by (metis mp n(3))
  have e2: "of_nat n < (of_nat mp :: u32) \<longleftrightarrow> n < mp" by (simp only: word_less_nat_alt mp n(3))
  have e3: "of_nat n = (0 :: u32) \<longleftrightarrow> n = 0"
  proof
    assume "of_nat n = (0 :: u32)"
    then have "unat (of_nat n :: u32) = 0" by (simp only: unat_0)
    with n(3) show "n = 0" by (simp only:)
  qed simp
  have len: "unat (xfer_length t) = length data" using assms(3) by (simp add: transfer_ok_def unat_of_nat)
  have e4: "xfer_offset t + of_nat n < xfer_length t \<longleftrightarrow> unat (xfer_offset t) + n < length data"
    using prepared_offset [OF assms(3), of i]
    by (simp add: word_less_nat_alt len prepared_def Let_def n_def)
  let ?part = "if xfer_length t - xfer_offset t > of_nat mp then of_nat mp
    else xfer_length t - xfer_offset t"
  have part: "?part = of_nat n"
    using part_length [of data "xfer_offset t" mp] assms(3) by (auto simp: transfer_ok_def n_def chunk_def split: if_splits)
  have buf: "xfer_buffer t = Some data" and maxp: "max_packet_of (xfer_flags t) = of_nat mp"
    using assms(3) by (simp_all add: transfer_ok_def)
  let ?s2 = "if n = 0 then ?s1 else ?s1\<lparr>usb_device := d'\<rparr>"
  let ?put = "\<lambda>dev. dif_usbdev_buffer_write (usb_bus_of h) dev (Some (written_buffer i 0)) (map_option (drop (unat (xfer_offset t))) (Some data))
    (of_nat n) (Some 0)"
  let ?fill = "if (of_nat n :: u32) \<noteq> 0 then andThen (call ?put) (\<lambda>(r, buf, bytes_written).
      andThen (CHECK_DIF_OK r) (\<lambda>_. pure (the buf, the bytes_written))) else pure (written_buffer i 0, 0)"
  have "call ?put ?s1 = Some (Inr (kDifOk, Some (written_buffer i n), Some (of_nat n)), ?s1\<lparr>usb_device := d'\<rparr>)"
    using w(1) by (simp add: call_def h_def)
  then have fill: "?fill ?s1 = Some (Inr (written_buffer i n, of_nat n), ?s2)"
    by (cases "n = 0") (simp_all add: e3 andThen_value prog_simps)
  have last: "unless (n = mp) (CHECK (of_nat n < (of_nat mp :: u32))) = pure ()"
    using nmp unfolding e1 e2 by (cases "n = mp") simp_all
  have run: "usb_testutils_part_prepare (usb_bus_of h) t s = Some (Inr (True, prepared mp data t i), ?s2)"
    unfolding usb_testutils_part_prepare_def andThen_value [of "buffer_request (next_part t)" s, OF req(1)] prod.case simp_thms if_False Let_def
      max_packet_of_def [symmetric] buf maxp part andThen_value [where m = ?fill, OF fill] e1 e4 last andThen_pure
      employ_zlp_def [symmetric]
    by (simp add: prepared_def n_def Let_def pure_run)
  have wr: "run_state (dif_usbdev_buffer_write (usb_bus_of h) (Some h) (Some (written_buffer i 0)) (Some ?xs) (of_nat n) (Some 0))
      (dev (world ?s1 (written_buffer i 0 # H) F)) = ((kDifOk, Some (written_buffer i n), Some (of_nat n)), d')"
    using w(1) by simp
  have "usb_inv (world (?s1\<lparr>usb_device := d'\<rparr>) (written_buffer i n # H) F)"
    using usb_packet_write_inv [OF inv1 _ _ _ wr] assms(2) n by (simp add: world_def keep_def written_buffer_def h_def)
  then have "usb_inv (world ?s2 (written_buffer i n # H) F)" using inv1 by (cases "n = 0") (simp_all add: world_def)
  moreover have "?s2 = s\<lparr>ctx := (ctx s)\<lparr>ctx_pool := ctx_pool (ctx ?s2)\<rparr>,
        usb_device := (usb_device s)\<lparr>packet_mem := packet_mem (usb_device ?s2)\<rparr>\<rparr>"
    using w(2) by (cases s; cases "n = 0") simp_all
  moreover have "buffer_data h (usb_device ?s2) i n = take n ?xs"
    using w(3) by (cases "n = 0") (simp_all add: buffer_data_def usb_mem.bytes_at_def)
  moreover have "\<forall>j k. unat j < 32 \<longrightarrow> j \<noteq> i \<longrightarrow> k \<le> 64 \<longrightarrow>
      buffer_data h (usb_device ?s2) j k = buffer_data h (usb_device s) j k"
    using w(4) by (cases "n = 0") simp_all
  ultimately show ?thesis using run i by blast
qed

subsection \<open>Sending and clearing a packet\<close>

definition in_ready :: "usb_dev \<Rightarrow> u8 \<Rightarrow> bool" where
  "in_ready d e \<longleftrightarrow> bitfield_bit32_read (usb_regs d (ep_reg e)) USBDEV_CONFIGIN_0_RDY_0_BIT"

definition in_size :: "usb_dev \<Rightarrow> u8 \<Rightarrow> nat" where
  "in_size d e = unat (bitfield_field32_read (usb_regs d (ep_reg e)) USBDEV_CONFIGIN_0_SIZE_0_FIELD)"

definition in_packet :: "dif_usbdev \<Rightarrow> usb_dev \<Rightarrow> u8 \<Rightarrow> u8 list" where
  "in_packet h d e = buffer_data h d (configin_id d e) (in_size d e)"

text \<open>The host fetches the packet of an endpoint: the device sends it, takes the endpoint out of
  service and reports the packet as sent.\<close>

definition host_in :: "dif_usbdev \<Rightarrow> u8 \<Rightarrow> usb_dev \<Rightarrow> u8 list \<times> usb_dev" where
  "host_in h e d = (in_packet h d e, d\<lparr>usb_regs := (usb_regs d)
     (ep_reg e := bitfield_bit32_write (usb_regs d (ep_reg e)) USBDEV_CONFIGIN_0_RDY_0_BIT False,
      USBDEV_IN_SENT_REG_OFFSET := usb_regs d USBDEV_IN_SENT_REG_OFFSET OR push_bit (unat e) 1)\<rparr>)"

lemma size_field_read:
  assumes "n \<le> 64"
  shows "unat (bitfield_field32_read (bitfield_field32_write w \<lparr>field_mask = 0x7f, field_index = 8\<rparr> (ucast (of_nat n :: u8)))
     \<lparr>field_mask = 0x7f, field_index = 8\<rparr>) = n"
proof -
  have u: "unat (ucast (of_nat n :: u8) :: u32) = n"
    using unat_of_nat_8 [OF assms] by (subst unat_ucast_up) simp_all
  then have "ucast (of_nat n :: u8) AND (0x7f :: u32) = ucast (of_nat n :: u8)"
    using and_mask_id_iff [of "ucast (of_nat n :: u8) :: u32" 7] assms by (simp add: mask_eq_exp_minus_1)
  with u show ?thesis by (simp add: read_write_simps)
qed

lemma send_run:
  assumes "usb_inv (world s (written_buffer i n # H) F)" "e \<notin> set F" "unat e < 12" "n \<le> 64"
  defines "h \<equiv> ctx_dev (ctx s)"
  shows "\<exists>s'. call (\<lambda>dev. dif_usbdev_send (usb_bus_of h) dev e (Some (written_buffer i n))) s
      = Some (Inr (kDifOk, Some ((written_buffer i n)\<lparr>buf_type := kDifUsbdevBufferTypeStale\<rparr>)), s')
    \<and> s' = s\<lparr>usb_device := (usb_device s)\<lparr>usb_regs := (usb_regs (usb_device s))
        (ep_reg e := usb_regs (usb_device s') (ep_reg e))\<rparr>\<rparr>
    \<and> usb_inv (world s' H (e # F)) \<and> in_ready (usb_device s') e \<and> in_size (usb_device s') e = n
    \<and> configin_id (usb_device s') e = i"
proof -
  let ?b = "written_buffer i n"
  have i: "unat i < 32" using held_id(1) [OF assms(1), of ?b] by (simp add: written_buffer_def)
  let ?v = "bitfield_field32_write (bitfield_field32_write 0 USBDEV_CONFIGIN_0_BUFFER_0_FIELD (ucast i))
    USBDEV_CONFIGIN_0_SIZE_0_FIELD (ucast (of_nat n :: u8))"
  let ?v' = "bitfield_bit32_write ?v USBDEV_CONFIGIN_0_RDY_0_BIT True"
  let ?d = "usb_write (ep_reg e) ?v' (usb_write (ep_reg e) ?v (usb_device s))"
  have run: "run_state (dif_usbdev_send (usb_bus_of h) (Some h) e (Some ?b)) (usb_device s)
    = ((kDifOk, Some (?b\<lparr>buf_type := kDifUsbdevBufferTypeStale\<rparr>)), ?d)"
    using assms(3) ep_reg_facts(1) [OF assms(3)]
    by (simp add: dif_usbdev_send_def Let_def run_usb_write is_valid_endpoint_def USBDEV_NUM_ENDPOINTS_def written_buffer_def
        flip: ep_reg_def)
  let ?s' = "s\<lparr>usb_device := ?d\<rparr>"
  have "usb_inv (world ?s' H (e # F))"
    using usb_send_inv [OF assms(1), of ?b e h kDifOk _ ?d] run assms(2) by (simp add: world_def keep_def)
  moreover have "in_ready ?d e"
    using ep_reg_facts [OF assms(3)]
    by (simp add: in_ready_def usb_write_ep [OF assms(3)] usb_reg_write_def read_write_simps)
  moreover have "in_size ?d e = n"
    using ep_reg_facts [OF assms(3)] size_field_read [OF assms(4)]
    by (simp add: in_size_def usb_write_ep [OF assms(3)] usb_reg_write_def read_write_simps)
  moreover have "configin_id ?d e = i"
    using buffer_field_ucast [OF i, of 0] by (simp add: configin_id_write [OF assms(3,3)] read_write_simps)
  moreover have "?d = (usb_device s)\<lparr>usb_regs := (usb_regs (usb_device s))(ep_reg e := usb_regs ?d (ep_reg e))\<rparr>"
    by (simp add: usb_write_ep [OF assms(3)])
  ultimately show ?thesis using run by (intro exI [of _ ?s']) (simp add: call_def h_def)
qed

text \<open>What a driver call on the endpoint \<open>e\<close> leaves alone.\<close>

definition same_device :: "u8 \<Rightarrow> usb_dev \<Rightarrow> usb_dev \<Rightarrow> bool" where
  "same_device e d d' \<longleftrightarrow> rx_queue d' = rx_queue d
     \<and> (\<forall>x. x \<noteq> ep_reg e \<longrightarrow> x \<noteq> USBDEV_IN_SENT_REG_OFFSET \<longrightarrow> usb_regs d' x = usb_regs d x)"

lemma same_device_trans [trans]: "same_device e d d' \<Longrightarrow> same_device e d' d'' \<Longrightarrow> same_device e d d''"
  by (simp add: same_device_def)

lemma host_in_inv:
  assumes "usb_inv (world s H F)" "unat e < 12"
  shows "usb_inv (world (s\<lparr>usb_device := snd (host_in h e (usb_device s))\<rparr>) H F)"
proof -
  let ?d = "snd (host_in h e (usb_device s))"
  have "configin_id ?d e' = configin_id (usb_device s) e'" if "unat e' < 12" for e'
    using ep_reg_facts [OF assms(2)] ep_reg_facts [OF that] ep_reg_inj [OF that assms(2)]
    by (simp add: configin_id_def host_in_def read_write_simps)
  then have "hw_event (usb_device s) ?d"
    unfolding host_in_def snd_conv by (intro hw_event.registers) simp
  from usb_hw_inv [OF assms(1)] this show ?thesis by (simp add: world_def)
qed

lemma clear_run:
  assumes "usb_inv (world s H (e # F))" "usb_regs (usb_device s) USBDEV_IN_SENT_REG_OFFSET = push_bit (unat e) 1"
  defines "h \<equiv> ctx_dev (ctx s)"
  shows "\<exists>s'. pool_call (\<lambda>dev pool. dif_usbdev_clear_tx_status (usb_bus_of h) dev pool e) s = Some (Inr kDifOk, s')
    \<and> s' = s\<lparr>ctx := (ctx s)\<lparr>ctx_pool := ctx_pool (ctx s')\<rparr>, usb_device := (usb_device s)\<lparr>usb_regs := usb_regs (usb_device s')\<rparr>\<rparr>
    \<and> usb_inv (world s' H F) \<and> \<not> in_ready (usb_device s') e \<and> pool_ids (ctx_pool (ctx s')) \<noteq> []
    \<and> usb_regs (usb_device s') USBDEV_IN_SENT_REG_OFFSET = 0 \<and> same_device e (usb_device s) (usb_device s')"
proof -
  let ?w = "world s H (e # F)"
  have e: "unat e < 12" using assms(1) by (simp add: usb_inv_def USBDEV_NUM_ENDPOINTS_def)
  have wf: "pool_wf (ctx_pool (ctx s))" using assms(1) by (simp add: usb_inv_def)
  obtain ok p' where a: "buffer_pool_add (ctx_pool (ctx s)) (configin_id (usb_device s) e) = (ok, p')" by fastforce
  note P = pool_add [OF wf a]
  have ok: "ok" using P(1) flight_id [OF assms(1), of e] by simp
  let ?d = "usb_write USBDEV_IN_SENT_REG_OFFSET (push_bit (unat e) 1) (usb_write (ep_reg e) (push_bit 30 1) (usb_device s))"
  have run: "run_state (dif_usbdev_clear_tx_status (usb_bus_of h) (Some h) (Some (ctx_pool (ctx s))) e) (usb_device s)
      = ((kDifOk, Some p'), ?d)"
    using e ep_reg_facts(1) [OF e] a ok
    by (simp add: dif_usbdev_clear_tx_status_def Let_def run_usb_write run_usb_read usb_read_ep is_valid_endpoint_def
        USBDEV_NUM_ENDPOINTS_def configin_id_def flip: ep_reg_def)
  let ?s' = "s\<lparr>ctx := (ctx s)\<lparr>ctx_pool := p'\<rparr>, usb_device := ?d\<rparr>"
  have bit_push: "\<not> bitfield_bit32_read 0x40000000 31" by (simp add: bitfield_bit32_read_iff) 
  have d: "?d = (usb_device s)\<lparr>usb_regs := usb_regs ?d\<rparr>"
    by (simp add: usb_write_ep [OF e]) (simp add: usb_write_def)
  have "usb_inv (world ?s' H F)"
    using usb_clear_inv(1) [OF assms(1), of e h kDifOk p' ?d] run by (simp add: world_def)
  moreover have "\<not> in_ready ?d e"
    using ep_reg_facts [OF e]
    by (simp add: in_ready_def usb_write_ep [OF e]) (simp add: usb_write_def usb_reg_write_def read_write_simps bit_push)
  moreover have "usb_regs ?d USBDEV_IN_SENT_REG_OFFSET = 0"
    using ep_reg_facts [OF e] assms(2)
    by (simp add: usb_write_ep [OF e]) (simp add: usb_write_def usb_reg_write_def)
  moreover have "same_device e (usb_device s) ?d"
    by (simp add: same_device_def usb_write_ep [OF e]) (simp add: usb_write_def)
  moreover have "pool_ids p' \<noteq> []" using P(3) ok by simp
  ultimately show ?thesis using run d by (intro exI [of _ ?s']) (simp add: pool_call_def h_def)
qed

subsection \<open>The next part of a transfer\<close>

text \<open>The packets that a transfer still has to send after the one in flight: the prepared one, if
  there is one, and those of the rest of the data.\<close>

definition unprepared :: "nat \<Rightarrow> u8 list \<Rightarrow> usb_testutils_transfer \<Rightarrow> u8 list list" where
  "unprepared mp data t = packets mp (employ_zlp (xfer_flags t)) (drop (unat (xfer_offset t)) data)"

definition upcoming :: "dif_usbdev \<Rightarrow> nat \<Rightarrow> u8 list \<Rightarrow> usb_testutils_transfer \<Rightarrow> usb_dev \<Rightarrow> u8 list list \<Rightarrow> bool" where
  "upcoming h mp data t d ps \<longleftrightarrow>
     (let rest = (if xfer_last t then [] else unprepared mp data t) in
      if next_valid t
      then \<exists>i n. next_part t = written_buffer i n \<and> n \<le> 64 \<and> ps = buffer_data h d i n # rest
      else ps = rest)"

definition held_of :: "usb_testutils_transfer \<Rightarrow> dif_usbdev_buffer list" where
  "held_of t = (if next_valid t then [next_part t] else [])"

text \<open>A step that only takes buffers from the pool and writes packet memory and the registers of an endpoint.\<close>

definition quiet_step :: "u8 \<Rightarrow> ('c, 'h, 'u, usb_dev) usb_sys \<Rightarrow> ('c, 'h, 'u, usb_dev) usb_sys \<Rightarrow> bool" where
  "quiet_step e s s' \<longleftrightarrow> s' = s\<lparr>ctx := (ctx s)\<lparr>ctx_pool := ctx_pool (ctx s')\<rparr>, usb_device := usb_device s'\<rparr>
     \<and> same_device e (usb_device s) (usb_device s')"

lemma quiet_step_ctx:
  assumes "quiet_step e s s'"
  shows "ctx_dev (ctx s') = ctx_dev (ctx s)" "client_mem s' = client_mem s" "in_eps (ctx s') = in_eps (ctx s)"
    "out_eps (ctx s') = out_eps (ctx s)" "got_frame (ctx s') = got_frame (ctx s)"
proof -
  obtain p d where "s' = s\<lparr>ctx := (ctx s)\<lparr>ctx_pool := p\<rparr>, usb_device := d\<rparr>"
    using assms unfolding quiet_step_def by blast
  then show "ctx_dev (ctx s') = ctx_dev (ctx s)" "client_mem s' = client_mem s" "in_eps (ctx s') = in_eps (ctx s)"
    "out_eps (ctx s') = out_eps (ctx s)" "got_frame (ctx s') = got_frame (ctx s)"
    by simp_all
qed

lemma quiet_step_refl: "quiet_step e s s"
  by (simp add: quiet_step_def same_device_def)

lemma quiet_step_trans [trans]: "quiet_step e s s' \<Longrightarrow> quiet_step e s' s'' \<Longrightarrow> quiet_step e s s''"
  unfolding quiet_step_def by (cases s; cases "ctx s"; cases s''; cases "ctx s''"; cases s'; cases "ctx s'") (auto intro: same_device_trans)

lemma quiet_stepI:
  assumes "s' = s\<lparr>ctx := (ctx s)\<lparr>ctx_pool := p\<rparr>, usb_device := d\<rparr>" "same_device e (usb_device s) d"
  shows "quiet_step e s s'"
  using assms by (simp add: quiet_step_def)

lemma part_prepare_quiet:
  assumes "usb_inv (world s H F)" "base (base_addr (ctx_dev (ctx s))) mod 4 = 0" "transfer_ok mp data t"
    "pool_ids (ctx_pool (ctx s)) \<noteq> []"
  defines "h \<equiv> ctx_dev (ctx s)"
  shows "\<exists>i n s'. usb_testutils_part_prepare (usb_bus_of h) t s = Some (Inr (True, prepared mp data t i), s')
    \<and> quiet_step e s s' \<and> usb_regs (usb_device s') = usb_regs (usb_device s)
    \<and> usb_inv (world s' (written_buffer i n # H) F) \<and> next_part (prepared mp data t i) = written_buffer i n \<and> n \<le> 64
    \<and> unprepared mp data t = buffer_data h (usb_device s') i n
        # (if xfer_last (prepared mp data t i) then [] else unprepared mp data (prepared mp data t i))
    \<and> (\<forall>j k. unat j < 32 \<longrightarrow> j \<noteq> i \<longrightarrow> k \<le> 64 \<longrightarrow>
        buffer_data h (usb_device s') j k = buffer_data h (usb_device s) j k)"
proof -
  let ?n = "chunk mp t data"
  obtain i s' where P: "usb_testutils_part_prepare (usb_bus_of h) t s = Some (Inr (True, prepared mp data t i), s')"
    "s' = s\<lparr>ctx := (ctx s)\<lparr>ctx_pool := ctx_pool (ctx s')\<rparr>,
        usb_device := (usb_device s)\<lparr>packet_mem := packet_mem (usb_device s')\<rparr>\<rparr>"
    "usb_inv (world s' (written_buffer i ?n # H) F)" "unat i < 32"
    "buffer_data h (usb_device s') i ?n = take ?n (drop (unat (xfer_offset t)) data)"
    "\<forall>j k. unat j < 32 \<longrightarrow> j \<noteq> i \<longrightarrow> k \<le> 64 \<longrightarrow>
        buffer_data h (usb_device s') j k = buffer_data h (usb_device s) j k"
    using part_prepare_run [OF assms(1-4)] unfolding h_def by blast
  obtain p m where s': "s' = s\<lparr>ctx := (ctx s)\<lparr>ctx_pool := p\<rparr>, usb_device := (usb_device s)\<lparr>packet_mem := m\<rparr>\<rparr>"
    using P(2) by blast
  then have "quiet_step e s s'" by (intro quiet_stepI [where p = p and d = "(usb_device s)\<lparr>packet_mem := m\<rparr>"]) (simp_all add: same_device_def)
  moreover have "usb_regs (usb_device s') = usb_regs (usb_device s)" by (simp add: s')
  moreover have "next_part (prepared mp data t i) = written_buffer i ?n" by (simp add: prepared_def Let_def)
  moreover have "xfer_flags (prepared mp data t i) = xfer_flags t" by (simp add: prepared_def Let_def)
  then have "unprepared mp data t = buffer_data h (usb_device s') i ?n
        # (if xfer_last (prepared mp data t i) then [] else unprepared mp data (prepared mp data t i))"
    using prepared_packets [OF assms(3), of i] P(5) by (simp add: unprepared_def)
  moreover have "?n \<le> 64" using assms(3) by (auto simp: chunk_def transfer_ok_def min_def)
  ultimately show ?thesis using P(1,3,6) by blast
qed

text \<open>The packet is there: prepared earlier, or prepared now.\<close>

lemma next_prepared:
  assumes "transfer_ok mp data t" "usb_inv (world s (held_of t @ H) F)" "base (base_addr (ctx_dev (ctx s))) mod 4 = 0"
  defines "h \<equiv> ctx_dev (ctx s)"
  assumes "if next_valid t then upcoming h mp data t (usb_device s) (c # rest)
    else pool_ids (ctx_pool (ctx s)) \<noteq> [] \<and> c # rest = unprepared mp data t"
  shows "\<exists>t' s' i n. (if \<not> next_valid t then usb_testutils_part_prepare (usb_bus_of h) t else pure (True, t)) s
      = Some (Inr (True, t'), s')
    \<and> quiet_step e s s' \<and> usb_regs (usb_device s') = usb_regs (usb_device s)
    \<and> usb_inv (world s' (written_buffer i n # H) F) \<and> next_part t' = written_buffer i n \<and> n \<le> 64
    \<and> transfer_ok mp data t' \<and> xfer_flags t' = xfer_flags t \<and> c = buffer_data h (usb_device s') i n
    \<and> rest = (if xfer_last t' then [] else unprepared mp data t')"
proof (cases "next_valid t")
  case True
  with assms(5) obtain i n where "next_part t = written_buffer i n" "n \<le> 64" "c = buffer_data h (usb_device s) i n"
    "rest = (if xfer_last t then [] else unprepared mp data t)"
    by (auto simp: upcoming_def Let_def)
  with True assms(1,2) show ?thesis
    by (intro exI [of _ t] exI [of _ s] exI [of _ i] exI [of _ n]) (simp add: pure_run quiet_step_refl held_of_def)
next
  case False
  with assms(5) have p: "pool_ids (ctx_pool (ctx s)) \<noteq> []" "c # rest = unprepared mp data t" by simp_all
  have inv: "usb_inv (world s H F)" using assms(2) False by (simp add: held_of_def)
  obtain i n s' where P: "usb_testutils_part_prepare (usb_bus_of h) t s = Some (Inr (True, prepared mp data t i), s')"
    "quiet_step e s s'" "usb_regs (usb_device s') = usb_regs (usb_device s)"
    "usb_inv (world s' (written_buffer i n # H) F)" "next_part (prepared mp data t i) = written_buffer i n" "n \<le> 64"
    "unprepared mp data t = buffer_data h (usb_device s') i n
        # (if xfer_last (prepared mp data t i) then [] else unprepared mp data (prepared mp data t i))"
    using part_prepare_quiet [OF inv assms(3,1) p(1), of e] unfolding h_def by blast
  moreover have "xfer_flags (prepared mp data t i) = xfer_flags t" by (simp add: prepared_def Let_def)
  ultimately show ?thesis using False p(2) prepared_ok [OF assms(1), of i]
    by (intro exI [of _ "prepared mp data t i"] exI [of _ s'] exI [of _ i] exI [of _ n]) simp
qed

text \<open>Preparing ahead keeps the packet in flight intact.\<close>

lemma prepare_ahead:
  assumes "transfer_ok mp data t" "usb_inv (world s H (e # F))" "base (base_addr (ctx_dev (ctx s))) mod 4 = 0"
    "\<not> next_valid t" "\<not> xfer_last t" "in_size (usb_device s) e \<le> 64"
  defines "h \<equiv> ctx_dev (ctx s)"
  shows "\<exists>valid t' s'. usb_testutils_part_prepare (usb_bus_of h) t s = Some (Inr (valid, t'), s')
    \<and> quiet_step e s s' \<and> usb_regs (usb_device s') = usb_regs (usb_device s)
    \<and> usb_inv (world s' (held_of (t'\<lparr>next_valid := valid\<rparr>) @ H) (e # F))
    \<and> transfer_ok mp data (t'\<lparr>next_valid := valid\<rparr>) \<and> xfer_flags t' = xfer_flags t
    \<and> upcoming h mp data (t'\<lparr>next_valid := valid\<rparr>) (usb_device s') (unprepared mp data t)
    \<and> in_packet h (usb_device s') e = in_packet h (usb_device s) e"
proof (cases "pool_ids (ctx_pool (ctx s)) = []")
  case True
  have "pool_wf (ctx_pool (ctx s))" using assms(2) by (simp add: usb_inv_def)
  from part_prepare_empty [OF this True] assms show ?thesis
    by (intro exI [of _ False] exI [of _ t] exI [of _ s])
      (simp add: quiet_step_refl held_of_def upcoming_def transfer_ok_def unprepared_def)
next
  case False
  obtain i n s' where P: "usb_testutils_part_prepare (usb_bus_of h) t s = Some (Inr (True, prepared mp data t i), s')"
    "quiet_step e s s'" "usb_regs (usb_device s') = usb_regs (usb_device s)"
    "usb_inv (world s' (written_buffer i n # H) (e # F))" "next_part (prepared mp data t i) = written_buffer i n" "n \<le> 64"
    "unprepared mp data t = buffer_data h (usb_device s') i n
        # (if xfer_last (prepared mp data t i) then [] else unprepared mp data (prepared mp data t i))"
    "\<forall>j k. unat j < 32 \<longrightarrow> j \<noteq> i \<longrightarrow> k \<le> 64 \<longrightarrow>
        buffer_data h (usb_device s') j k = buffer_data h (usb_device s) j k"
    using part_prepare_quiet [OF assms(2,3,1) False, of e] unfolding h_def by blast
  let ?t = "(prepared mp data t i)\<lparr>next_valid := True\<rparr>"
  have c: "configin_id (usb_device s') e = configin_id (usb_device s) e" "in_size (usb_device s') e = in_size (usb_device s) e"
    using P(3) by (simp_all add: configin_id_def in_size_def)
  have "configin_id (usb_device s) e \<noteq> i"
    using held_not_in_flight [OF P(4), of "written_buffer i n" e] c by (auto simp: written_buffer_def)
  moreover have "unat (configin_id (usb_device s) e) < 32" using flight_id(1) [OF assms(2), of e] by simp
  ultimately have "in_packet h (usb_device s') e = in_packet h (usb_device s) e"
    using P(8) assms(6) by (simp add: in_packet_def c)
  moreover have "upcoming h mp data ?t (usb_device s') (unprepared mp data t)"
    unfolding P(7) using P(5,6) by (auto simp: upcoming_def unprepared_def Let_def)
  moreover have "transfer_ok mp data ?t" "xfer_flags (prepared mp data t i) = xfer_flags t"
    using prepared_ok [OF assms(1), of i] by (simp_all add: transfer_ok_def prepared_def Let_def)
  moreover have "held_of ?t = [written_buffer i n]" using P(5) by (simp add: held_of_def)
  ultimately show ?thesis using P(1-4)
    by (intro exI [of _ True] exI [of _ "prepared mp data t i"] exI [of _ s']) simp
qed

lemma next_part_run:
  assumes "transfer_ok mp data t" "usb_inv (world s (held_of t @ H) F)" "base (base_addr (ctx_dev (ctx s))) mod 4 = 0"
    "e \<notin> set F" "unat e < 12"
  defines "h \<equiv> ctx_dev (ctx s)"
  assumes todo: "if next_valid t then upcoming h mp data t (usb_device s) (c # rest)
    else pool_ids (ctx_pool (ctx s)) \<noteq> [] \<and> c # rest = unprepared mp data t"
  shows "\<exists>t' s'. usb_testutils_transfer_next_part (usb_bus_of h) e t s = Some (Inr (True, t'), s')
    \<and> quiet_step e s s'
    \<and> usb_regs (usb_device s') USBDEV_IN_SENT_REG_OFFSET = usb_regs (usb_device s) USBDEV_IN_SENT_REG_OFFSET
    \<and> usb_inv (world s' (held_of t' @ H) (e # F)) \<and> transfer_ok mp data t'
    \<and> upcoming h mp data t' (usb_device s') rest
    \<and> in_ready (usb_device s') e \<and> in_packet h (usb_device s') e = c \<and> in_size (usb_device s') e \<le> 64"
proof -
  let ?prep = "if \<not> next_valid t then usb_testutils_part_prepare (usb_bus_of h) t else pure (True, t)"
  obtain t1 s1 i n where P: "?prep s = Some (Inr (True, t1), s1)" "quiet_step e s s1"
    "usb_regs (usb_device s1) = usb_regs (usb_device s)" "usb_inv (world s1 (written_buffer i n # H) F)"
    "next_part t1 = written_buffer i n" "n \<le> 64" "transfer_ok mp data t1" "xfer_flags t1 = xfer_flags t"
    "c = buffer_data h (usb_device s1) i n" "rest = (if xfer_last t1 then [] else unprepared mp data t1)"
    using next_prepared [OF assms(1-3), of c rest e] todo unfolding h_def by blast
  have h1: "ctx_dev (ctx s1) = h" using quiet_step_ctx(1) [OF P(2)] by (simp add: h_def)
  let ?stale = "(written_buffer i n)\<lparr>buf_type := kDifUsbdevBufferTypeStale\<rparr>"
  let ?send = "call (\<lambda>dev. dif_usbdev_send (usb_bus_of h) dev e (Some (next_part t1)))"
  obtain s2 where S: "?send s1 = Some (Inr (kDifOk, Some ?stale), s2)"
    "s2 = s1\<lparr>usb_device := (usb_device s1)\<lparr>usb_regs := (usb_regs (usb_device s1))
        (ep_reg e := usb_regs (usb_device s2) (ep_reg e))\<rparr>\<rparr>"
    "usb_inv (world s2 H (e # F))" "in_ready (usb_device s2) e" "in_size (usb_device s2) e = n"
    "configin_id (usb_device s2) e = i"
    using send_run [OF P(4) assms(4,5) P(6)] unfolding h1 P(5) by blast
  obtain v where s2: "s2 = s1\<lparr>usb_device := (usb_device s1)\<lparr>usb_regs := (usb_regs (usb_device s1))(ep_reg e := v)\<rparr>\<rparr>"
    using S(2) by blast
  have q2: "quiet_step e s1 s2" unfolding s2 quiet_step_def by (cases s1; cases "ctx s1") (simp add: same_device_def)
  have sent2: "usb_regs (usb_device s2) USBDEV_IN_SENT_REG_OFFSET = usb_regs (usb_device s) USBDEV_IN_SENT_REG_OFFSET"
    using ep_reg_facts(8) [OF assms(5)] P(3) by (simp add: s2)
  have h2: "ctx_dev (ctx s2) = h" using quiet_step_ctx(1) [OF q2] h1 by simp
  have c: "in_packet h (usb_device s2) e = c" unfolding in_packet_def S(5,6) P(9) by (simp add: s2)
  let ?t2 = "t1\<lparr>next_part := ?stale, next_valid := False\<rparr>"
  have t2: "transfer_ok mp data ?t2" "unprepared mp data ?t2 = unprepared mp data t1"
    using P(7) by (simp_all add: transfer_ok_def unprepared_def)
  have run: "usb_testutils_transfer_next_part (usb_bus_of h) e t s =
    (if xfer_flags ?t2 AND kUsbTestutilsXfrDoubleBuffered \<noteq> 0 \<and> \<not> xfer_last ?t2
       then andThen (usb_testutils_part_prepare (usb_bus_of h) ?t2) (\<lambda>(valid, transfer).
         pure (True, transfer\<lparr>next_valid := valid\<rparr>))
       else pure (True, ?t2)) s2"
    unfolding usb_testutils_transfer_next_part_def andThen_value [where m = ?prep, OF P(1)] prod.case
      simp_thms if_False andThen_value [where m = ?send, OF S(1)] CHECK_DIF_OK_simps(1) andThen_pure Let_def option.sel
    by (rule TrueI)
  show ?thesis
  proof (cases "xfer_flags ?t2 AND kUsbTestutilsXfrDoubleBuffered \<noteq> 0 \<and> \<not> xfer_last ?t2")
    case False
    have "upcoming h mp data ?t2 (usb_device s2) rest" using P(10) t2(2) by (simp add: upcoming_def)
    with False run S(3-5) q2 P(2,6) sent2 t2(1) c show ?thesis
      by (intro exI [of _ ?t2] exI [of _ s2]) (auto simp: pure_run held_of_def intro: quiet_step_trans)
  next
    case True
    then have nl: "\<not> xfer_last ?t2" by blast
    have "\<not> next_valid ?t2" "base (base_addr (ctx_dev (ctx s2))) mod 4 = 0" "in_size (usb_device s2) e \<le> 64"
      using assms(3) S(5) P(6) by (simp_all add: h2 h_def)
    from prepare_ahead [OF t2(1) S(3) this(2,1) nl this(3)]
    obtain valid t3 s3 where A: "usb_testutils_part_prepare (usb_bus_of h) ?t2 s2 = Some (Inr (valid, t3), s3)"
      "quiet_step e s2 s3" "usb_regs (usb_device s3) = usb_regs (usb_device s2)"
      "usb_inv (world s3 (held_of (t3\<lparr>next_valid := valid\<rparr>) @ H) (e # F))"
      "transfer_ok mp data (t3\<lparr>next_valid := valid\<rparr>)"
      "upcoming h mp data (t3\<lparr>next_valid := valid\<rparr>) (usb_device s3) (unprepared mp data ?t2)"
      "in_packet h (usb_device s3) e = in_packet h (usb_device s2) e"
      unfolding h2 by blast
    have "in_ready (usb_device s3) e" "in_size (usb_device s3) e \<le> 64"
      using S(4,5) P(6) A(3) by (simp_all add: in_ready_def in_size_def)
    moreover have "rest = unprepared mp data ?t2" using P(10) nl t2(2) by simp
    moreover have "usb_testutils_transfer_next_part (usb_bus_of h) e t s
        = Some (Inr (True, t3\<lparr>next_valid := valid\<rparr>), s3)"
      unfolding run if_P [OF True] andThen_value [where m = "usb_testutils_part_prepare (usb_bus_of h) ?t2", OF A(1)]
      by (simp add: pure_run)
    moreover have "quiet_step e s s3" using P(2) q2 A(2) by (blast intro: quiet_step_trans)
    ultimately show ?thesis using A c sent2 by (intro exI [of _ "t3\<lparr>next_valid := valid\<rparr>"] exI [of _ s3]) simp
  qed
qed

subsection \<open>Polling after a packet has been sent\<close>

text \<open>Nothing else happens on the bus: no received packet, no other event, no other endpoint that has sent.\<close>

definition quiet :: "usb_dev \<Rightarrow> bool" where
  "quiet d \<longleftrightarrow> rx_queue d = [] \<and> usb_regs d USBDEV_INTR_STATE_REG_OFFSET = 0 \<and> usb_regs d USBDEV_IN_SENT_REG_OFFSET = 0"

lemma buffer_data_mem: "packet_mem d' = packet_mem d \<Longrightarrow> buffer_data h d' = buffer_data h d"
  by (simp add: buffer_data_def usb_mem.bytes_at_def usb_mem.byte_at_def fun_eq_iff)

lemma upcoming_mem: "packet_mem d' = packet_mem d \<Longrightarrow> upcoming h mp data t d' = upcoming h mp data t d"
  by (rule ext) (simp only: upcoming_def buffer_data_mem [of d' d])

lemma unprepared_nonempty: "unprepared mp data t \<noteq> []"
  unfolding unprepared_def by (subst packets.simps) simp

lemma upcoming_Nil: "upcoming h mp data t d [] \<Longrightarrow> \<not> next_valid t \<and> xfer_last t"
  using unprepared_nonempty [of mp data t] by (auto simp: upcoming_def Let_def split: if_splits)

lemma upcoming_Cons:
  "upcoming h mp data t d (c # ps) \<Longrightarrow> (next_valid t \<or> \<not> xfer_last t) \<and> (\<not> next_valid t \<longrightarrow> c # ps = unprepared mp data t)"
  by (auto simp: upcoming_def Let_def split: if_splits)

lemma in_ep_run: "ep < length (in_eps (ctx s)) \<Longrightarrow> in_ep ep s = Some (Inr (in_eps (ctx s) ! ep), s)"
  by (simp add: in_ep_def prog_simps)

lemma in_ep_update_run: "ep < length (in_eps (ctx s)) \<Longrightarrow> in_ep_update ep f s
    = Some (Inr (), s\<lparr>ctx := (ctx s)\<lparr>in_eps := (in_eps (ctx s))[ep := f (in_eps (ctx s) ! ep)]\<rparr>\<rparr>)"
  by (simp add: in_ep_update_def Let_def)

text \<open>Serving the endpoint when there is more to send, and when there is not.\<close>

lemma poll_sent_endpoint_more:
  assumes "ep < 12" "length (in_eps (ctx s)) = 12" "base (base_addr (ctx_dev (ctx s))) mod 4 = 0"
    "of_nat ep \<notin> set F"
  defines "h \<equiv> ctx_dev (ctx s)" and "e \<equiv> (of_nat ep :: u8)" and "t \<equiv> in_transfer (in_eps (ctx s) ! ep)"
  assumes "transfer_ok mp data t" "upcoming h mp data t (usb_device s) (c # rest)"
    "usb_inv (world s (held_of t @ H) (e # F))" "usb_regs (usb_device s) USBDEV_IN_SENT_REG_OFFSET = push_bit ep 1"
  shows "\<exists>t' s'. poll_sent_endpoint (usb_bus_of h) cl ep s
      = Some (Inr (), s'\<lparr>ctx := (ctx s')\<lparr>in_eps := (in_eps (ctx s))[ep := (in_eps (ctx s) ! ep)\<lparr>in_transfer := t'\<rparr>]\<rparr>\<rparr>)
    \<and> quiet_step e s s' \<and> usb_regs (usb_device s') USBDEV_IN_SENT_REG_OFFSET = 0
    \<and> usb_inv (world s' (held_of t' @ H) (e # F)) \<and> transfer_ok mp data t'
    \<and> upcoming h mp data t' (usb_device s') rest
    \<and> in_ready (usb_device s') e \<and> in_packet h (usb_device s') e = c"
proof -
  have e: "unat e = ep" "unat e < 12" using assms(1) by (simp_all add: e_def unat_of_nat)
  let ?clear = "pool_call (\<lambda>dev pool. dif_usbdev_clear_tx_status (usb_bus_of h) dev pool (of_nat ep))"
  obtain s1 where C: "?clear s = Some (Inr kDifOk, s1)"
    "s1 = s\<lparr>ctx := (ctx s)\<lparr>ctx_pool := ctx_pool (ctx s1)\<rparr>, usb_device := (usb_device s)\<lparr>usb_regs := usb_regs (usb_device s1)\<rparr>\<rparr>"
    "usb_inv (world s1 (held_of t @ H) F)" "pool_ids (ctx_pool (ctx s1)) \<noteq> []"
    "usb_regs (usb_device s1) USBDEV_IN_SENT_REG_OFFSET = 0" "same_device e (usb_device s) (usb_device s1)"
    using clear_run [OF assms(10)] assms(11) e unfolding h_def e_def by metis
  obtain p r where s1: "s1 = s\<lparr>ctx := (ctx s)\<lparr>ctx_pool := p\<rparr>, usb_device := (usb_device s)\<lparr>usb_regs := r\<rparr>\<rparr>"
    using C(2) by blast
  have q1: "quiet_step e s s1" by (rule quiet_stepI [OF s1]) (use C(6) in \<open>simp add: s1\<close>)
  have ctx1: "ctx_dev (ctx s1) = h" "in_eps (ctx s1) = in_eps (ctx s)" using quiet_step_ctx [OF q1] by (simp_all add: h_def)
  have ep1: "ep < length (in_eps (ctx s1))" using assms(1,2) ctx1 by simp
  have up1: "upcoming h mp data t (usb_device s1) (c # rest)"
    using assms(9) upcoming_mem [of "usb_device s1" "usb_device s"] by (simp add: s1)
  note more = upcoming_Cons [OF assms(9)]
  have "if next_valid t then upcoming h mp data t (usb_device s1) (c # rest)
    else pool_ids (ctx_pool (ctx s1)) \<noteq> [] \<and> c # rest = unprepared mp data t"
    using up1 C(4) more by simp
  from next_part_run [OF assms(8) C(3) _ _ e(2), unfolded ctx1, OF _ _ this] assms(3,4)
  obtain t' s2 where N: "usb_testutils_transfer_next_part (usb_bus_of h) e t s1 = Some (Inr (True, t'), s2)"
    "quiet_step e s1 s2" "usb_regs (usb_device s2) USBDEV_IN_SENT_REG_OFFSET = 0"
    "usb_inv (world s2 (held_of t' @ H) (e # F))" "transfer_ok mp data t'" "upcoming h mp data t' (usb_device s2) rest"
    "in_ready (usb_device s2) e" "in_packet h (usb_device s2) e = c"
    unfolding C(5) by (auto simp: h_def e_def)
  have eps2: "in_eps (ctx s2) = in_eps (ctx s)" using quiet_step_ctx(3) [OF N(2)] ctx1 by simp
  have buf: "xfer_buffer t \<noteq> null" using assms(8) by (simp add: transfer_ok_def)
  let ?next = "usb_testutils_transfer_next_part (usb_bus_of h) (of_nat ep) t"
  have N1: "?next s1 = Some (Inr (True, t'), s2)" using N(1) by (simp only: e_def)
  let ?E = "in_eps (ctx s) ! ep"
  let ?s3 = "s2\<lparr>ctx := (ctx s2)\<lparr>in_eps := (in_eps (ctx s))[ep := ?E\<lparr>in_transfer := t'\<rparr>]\<rparr>\<rparr>"
  have upd: "in_ep_update ep (in_transfer_update (\<lambda>_. t')) s2 = Some (Inr (), ?s3)"
    using in_ep_update_run [of ep s2] assms(1,2) by (simp add: eps2)
  have ep_run: "in_ep ep s1 = Some (Inr ?E, s1)" using in_ep_run [OF ep1] by (simp add: ctx1)
  have "poll_sent_endpoint (usb_bus_of h) cl ep s = Some (Inr (), ?s3)"
    unfolding poll_sent_endpoint_def andThen_value [where m = ?clear, OF C(1)] TRY_DIF_ok andThen_pure
      andThen_value [where m = "in_ep ep", OF ep_run] Let_def t_def [symmetric]
    using buf more N1 upd
    by (auto simp: andThen_def pure_run split: option.splits)
  with N(2-8) q1 show ?thesis unfolding eps2 [symmetric]
    by (intro exI [of _ t'] exI [of _ s2]) (simp add: eps2, blast intro: quiet_step_trans)
qed

lemma poll_sent_endpoint_done:
  assumes "ep < 12" "length (in_eps (ctx s)) = 12"
  defines "h \<equiv> ctx_dev (ctx s)" and "e \<equiv> (of_nat ep :: u8)" and "E \<equiv> in_eps (ctx s) ! ep"
  assumes "transfer_ok mp data (in_transfer E)" "upcoming h mp data (in_transfer E) (usb_device s) []"
    "usb_inv (world s (held_of (in_transfer E) @ H) (e # F))"
    "usb_regs (usb_device s) USBDEV_IN_SENT_REG_OFFSET = push_bit ep 1" "tx_done_callback E = Some cb"
  shows "\<exists>s'. poll_sent_endpoint (usb_bus_of h) cl ep s
      = run_tx_done cl cb (in_ep_ctx E) kUsbTestutilsXfrResultOk (s'\<lparr>ctx := (ctx s')\<lparr>in_eps := (in_eps (ctx s))
          [ep := E\<lparr>in_transfer := (in_transfer E)\<lparr>xfer_buffer := null\<rparr>\<rparr>]\<rparr>\<rparr>)
    \<and> quiet_step e s s' \<and> usb_regs (usb_device s') USBDEV_IN_SENT_REG_OFFSET = 0
    \<and> usb_inv (world s' H F) \<and> \<not> in_ready (usb_device s') e"
proof -
  let ?t = "in_transfer E"
  have e: "unat e = ep" "unat e < 12" using assms(1) by (simp_all add: e_def unat_of_nat)
  have ended: "\<not> next_valid ?t" "xfer_last ?t" using upcoming_Nil [OF assms(7)] by simp_all
  then have held: "held_of ?t @ H = H" by (simp add: held_of_def)
  let ?clear = "pool_call (\<lambda>dev pool. dif_usbdev_clear_tx_status (usb_bus_of h) dev pool (of_nat ep))"
  obtain s1 where C: "?clear s = Some (Inr kDifOk, s1)"
    "s1 = s\<lparr>ctx := (ctx s)\<lparr>ctx_pool := ctx_pool (ctx s1)\<rparr>, usb_device := (usb_device s)\<lparr>usb_regs := usb_regs (usb_device s1)\<rparr>\<rparr>"
    "usb_inv (world s1 H F)" "\<not> in_ready (usb_device s1) e"
    "usb_regs (usb_device s1) USBDEV_IN_SENT_REG_OFFSET = 0" "same_device e (usb_device s) (usb_device s1)"
    using clear_run [OF assms(8)] assms(9) e unfolding h_def e_def held by metis
  obtain p r where s1: "s1 = s\<lparr>ctx := (ctx s)\<lparr>ctx_pool := p\<rparr>, usb_device := (usb_device s)\<lparr>usb_regs := r\<rparr>\<rparr>"
    using C(2) by blast
  have q1: "quiet_step e s s1" by (rule quiet_stepI [OF s1]) (use C(6) in \<open>simp add: s1\<close>)
  have ctx1: "in_eps (ctx s1) = in_eps (ctx s)" using quiet_step_ctx [OF q1] by simp
  have ep1: "ep < length (in_eps (ctx s1))" using assms(1,2) ctx1 by simp
  have ep_run: "in_ep ep s1 = Some (Inr E, s1)" using in_ep_run [OF ep1] by (simp add: ctx1 E_def)
  have upd: "in_ep_update ep (in_transfer_update (\<lambda>_. ?t\<lparr>xfer_buffer := null\<rparr>)) s1
      = Some (Inr (), s1\<lparr>ctx := (ctx s1)\<lparr>in_eps := (in_eps (ctx s))[ep := E\<lparr>in_transfer := ?t\<lparr>xfer_buffer := null\<rparr>\<rparr>]\<rparr>\<rparr>)"
    using in_ep_update_run [OF ep1] by (simp add: ctx1 E_def)
  have buf: "xfer_buffer ?t \<noteq> null" using assms(6) by (simp add: transfer_ok_def)
  have conds: "(xfer_buffer ?t \<noteq> null) = True" "(next_valid ?t \<or> \<not> xfer_last ?t) = False"
    using buf ended by simp_all
  have "poll_sent_endpoint (usb_bus_of h) cl ep s = run_tx_done cl cb (in_ep_ctx E) kUsbTestutilsXfrResultOk
      (s1\<lparr>ctx := (ctx s1)\<lparr>in_eps := (in_eps (ctx s))[ep := E\<lparr>in_transfer := ?t\<lparr>xfer_buffer := null\<rparr>\<rparr>]\<rparr>\<rparr>)"
    unfolding poll_sent_endpoint_def andThen_value [where m = ?clear, OF C(1)] TRY_DIF_ok andThen_pure
      andThen_value [where m = "in_ep ep", OF ep_run] Let_def conds if_True if_False assms(10) option.case prod.case andThen_assoc
      andThen_value [where m = "in_ep_update ep (in_transfer_update (\<lambda>_. ?t\<lparr>xfer_buffer := null\<rparr>))", OF upd]
    by (rule refl)
  with C(3-5) q1 show ?thesis by (intro exI [of _ s1]) simp
qed

text \<open>The loop serves the endpoints whose bit is set, in order; with one bit set, it serves this endpoint.\<close>

lemma poll_sent_from:
  "poll_sent B cl w k = for_each (filter (bit w) [k..<12]) (poll_sent_endpoint B cl)"
proof (induction "12 - k" arbitrary: w k)
  case 0
  then show ?case by (subst poll_sent.simps) (simp add: USBDEV_NUM_ENDPOINTS_def)
next
  case (Suc n)
  then have k: "k < 12" "n = 12 - Suc k" by simp_all
  have set_bit: "w AND push_bit k 1 \<noteq> 0 \<longleftrightarrow> bit w k"
  proof -
    have "bit (w AND push_bit k 1) j \<longleftrightarrow> bit w k \<and> j = k" for j
      using k(1) by (simp only: bit_and_iff bit_push_bit_iff_word) (auto simp: bit_1_iff)
    then show ?thesis by (metis bit_word_eqI bit_0_eq zero_word_def bot_apply bot_bool_def)
  qed
  have rest: "filter (bit (w AND NOT (push_bit k 1))) [Suc k..<12] = filter (bit w) [Suc k..<12]"
  proof (rule filter_cong [OF refl])
    fix j
    assume "j \<in> set [Suc k..<12]"
    then have "\<not> bit (push_bit k 1 :: u16) j" "j < 16" by (simp_all only: bit_push_bit_iff_word) (auto simp: bit_1_iff)
    then show "bit (w AND NOT (push_bit k 1)) j = bit w j" by (simp add: bit_and_iff bit_not_iff)
  qed
  have up: "[k..<12] = k # [Suc k..<12]" using k(1) by (rule upt_conv_Cons)
  show ?case
  proof (cases "w = 0")
    case True
    then show ?thesis by (subst poll_sent.simps) simp
  next
    case False
    with k(1) have "poll_sent B cl w k = (if bit w k then andThen (poll_sent_endpoint B cl k)
        (\<lambda>_. poll_sent B cl (w AND NOT (push_bit k 1)) (Suc k)) else poll_sent B cl w (Suc k))"
      by (subst poll_sent.simps) (simp only: set_bit, simp add: USBDEV_NUM_ENDPOINTS_def)
    then show ?thesis unfolding Suc(1) [OF k(2)] rest by (simp add: up)
  qed
qed

lemma poll_sent_single:
  assumes "ep < 12"
  shows "poll_sent B cl (push_bit ep 1) 0 s = poll_sent_endpoint B cl ep s"
proof -
  have up: "[0..<12] = [0..<ep] @ ep # [Suc ep..<12]"
    using assms by (metis upt_add_eq_append upt_conv_Cons le_add_diff_inverse less_imp_le zero_le)
  have "filter (bit (push_bit ep 1 :: u16)) [0..<12] = filter (\<lambda>j. j = ep) [0..<12]"
    by (rule filter_cong [OF refl], simp only: bit_push_bit_iff_word) (use assms in \<open>auto simp: bit_1_iff\<close>)
  also have "\<dots> = [ep]" unfolding up by (simp add: filter_False)
  finally have one: "filter (bit (push_bit ep 1 :: u16)) [0..<12] = [ep]" .
  show ?thesis
    unfolding poll_sent_from one by (simp add: andThen_def pure_run split: option.splits sum.splits)
qed

text \<open>What the rest of a poll does when nothing else happened: it fills the FIFOs of the device.\<close>

definition refill_step :: "('c, 'h, 'u, usb_dev) usb_sys \<Rightarrow> ('c, 'h, 'u, usb_dev) usb_sys \<Rightarrow> bool" where
  "refill_step s s' \<longleftrightarrow> s' = s\<lparr>ctx := (ctx s)\<lparr>ctx_pool := ctx_pool (ctx s'), flushed := flushed (ctx s')\<rparr>,
       usb_device := (usb_device s)\<lparr>av_setup := av_setup (usb_device s'), av_out := av_out (usb_device s')\<rparr>\<rparr>
     \<and> (\<forall>H F. usb_inv (world s H F) \<longrightarrow> usb_inv (world s' H F))"

lemma refill_stepD:
  assumes "refill_step s s'"
  shows "ctx_dev (ctx s') = ctx_dev (ctx s)" "client_mem s' = client_mem s" "in_eps (ctx s') = in_eps (ctx s)"
    "got_frame (ctx s') = got_frame (ctx s)" "usb_regs (usb_device s') = usb_regs (usb_device s)"
    "packet_mem (usb_device s') = packet_mem (usb_device s)" "rx_queue (usb_device s') = rx_queue (usb_device s)"
proof -
  obtain p f a b where "s' = s\<lparr>ctx := (ctx s)\<lparr>ctx_pool := p, flushed := f\<rparr>,
      usb_device := (usb_device s)\<lparr>av_setup := a, av_out := b\<rparr>\<rparr>"
    using assms unfolding refill_step_def by blast
  then show "ctx_dev (ctx s') = ctx_dev (ctx s)" "client_mem s' = client_mem s" "in_eps (ctx s') = in_eps (ctx s)"
    "got_frame (ctx s') = got_frame (ctx s)" "usb_regs (usb_device s') = usb_regs (usb_device s)"
    "packet_mem (usb_device s') = packet_mem (usb_device s)" "rx_queue (usb_device s') = rx_queue (usb_device s)"
    by simp_all
qed

lemma fill_run:
  assumes "usb_inv (world s H F)"
  defines "h \<equiv> ctx_dev (ctx s)"
  shows "\<exists>s'. pool_call (\<lambda>dev pool. dif_usbdev_fill_available_fifos (usb_bus_of h) dev pool) s = Some (Inr kDifOk, s')
    \<and> s' = s\<lparr>ctx := (ctx s)\<lparr>ctx_pool := ctx_pool (ctx s')\<rparr>,
       usb_device := (usb_device s)\<lparr>av_setup := av_setup (usb_device s'), av_out := av_out (usb_device s')\<rparr>\<rparr>
    \<and> (\<forall>H F. usb_inv (world s H F) \<longrightarrow> usb_inv (world s' H F))"
proof -
  obtain r p' d' where L: "run_state (usbdev_fill_loop (usb_bus_of h) h (ctx_pool (ctx s))) (usb_device s) = ((r, p'), d')"
    by (metis surj_pair)
  then have run: "run_state (dif_usbdev_fill_available_fifos (usb_bus_of h) (Some h) (Some (ctx_pool (ctx s)))) (usb_device s)
      = ((r, Some p'), d')"
    by (simp add: dif_usbdev_fill_available_fifos_def)
  have F: "r = kDifOk" "(rx_queue d', usb_regs d', packet_mem d')
      = (rx_queue (usb_device s), usb_regs (usb_device s), packet_mem (usb_device s))"
    using usb.fill_loop [OF L] assms(1) by (auto simp: usb_inv_def)
  let ?s' = "s\<lparr>ctx := (ctx s)\<lparr>ctx_pool := p'\<rparr>, usb_device := d'\<rparr>"
  have "usb_inv (world ?s' H F)" if "usb_inv (world s H F)" for H F
    using usb_fill_inv(1) [OF that, of h r p' d'] run by (simp add: world_def)
  moreover have "d' = (usb_device s)\<lparr>av_setup := av_setup d', av_out := av_out d'\<rparr>"
    using F(2) by (cases d'; cases "usb_device s") simp
  ultimately show ?thesis using run F(1) by (intro exI [of _ ?s']) (simp add: pool_call_def h_def)
qed

lemma irq_bits:
  "irq_bit 2 kDifUsbdevIrqPktSent" "\<not> irq_bit 2 kDifUsbdevIrqPktReceived" "\<not> irq_bit 2 kDifUsbdevIrqLinkReset"
  "\<not> irq_bit 2 kDifUsbdevIrqFrame"
  by (simp_all add: irq_bit_def)

lemma quiet_intr_state:
  assumes "rx_queue d = []" "usb_regs d USBDEV_INTR_STATE_REG_OFFSET = 0" "usb_regs d USBDEV_IN_SENT_REG_OFFSET \<noteq> 0"
  shows "usb_intr_state d = 2"
  using assms by (simp add: usb_intr_state_def) code_simp

lemma poll_run:
  assumes "rx_queue (usb_device s) = []" "usb_regs (usb_device s) USBDEV_INTR_STATE_REG_OFFSET = 0"
    "usb_regs (usb_device s) USBDEV_IN_SENT_REG_OFFSET = push_bit ep 1" "ep < 12"
  defines "h \<equiv> ctx_dev (ctx s)"
  assumes "poll_sent_endpoint (usb_bus_of h) cl ep s = Some (Inr (), s1)" "ctx_dev (ctx s1) = h"
    "usb_inv (world s1 H F)" "quiet (usb_device s1)" "\<not> got_frame (ctx s1)"
  shows "\<exists>s'. usb_testutils_poll (usb_bus_of h) cl s = Some (Inr (), s') \<and> refill_step s1 s'"
proof -
  have one: "(push_bit ep 1 :: u32) \<noteq> 0"
  proof
    assume z: "push_bit ep 1 = (0 :: u32)"
    have "bit (push_bit ep 1 :: u32) ep" using assms(4) by (simp only: bit_push_bit_iff_word) simp
    then show False unfolding z by simp
  qed
  have st: "call (\<lambda>dev. dif_usbdev_irq_get_state (usb_bus_of h) dev (Some 0)) s = Some (Inr (kDifOk, Some 2), s)"
    using quiet_intr_state [OF assms(1,2)] assms(3) one
    by (simp add: call_def dif_usbdev_irq_get_state_def irq_get_state_def usbdev_irqs_def run_usb_read usb_read_def h_def)
  have sent16: "ucast (push_bit ep 1 :: u32) = (push_bit ep 1 :: u16)"
    using assms(4) by (intro bit_word_eqI) (simp only: bit_ucast_iff bit_push_bit_iff_word, auto simp: bit_1_iff)
  have snt: "call (\<lambda>dev. dif_usbdev_get_tx_sent (usb_bus_of h) dev (Some 0)) s = Some (Inr (kDifOk, Some (push_bit ep 1)), s)"
    by (simp add: call_def dif_usbdev_get_tx_sent_def run_usb_read usb_read_def h_def assms(3) [simplified] sent16 [simplified])
  have srv: "poll_sent (usb_bus_of h) cl (push_bit ep 1) 0 s = Some (Inr (), s1)"
    using poll_sent_single [of ep "usb_bus_of h" cl s] assms(4,6) by simp
  obtain s2 where f: "pool_call (\<lambda>dev pool. dif_usbdev_fill_available_fifos (usb_bus_of h) dev pool) s1 = Some (Inr kDifOk, s2)"
    "s2 = s1\<lparr>ctx := (ctx s1)\<lparr>ctx_pool := ctx_pool (ctx s2)\<rparr>,
       usb_device := (usb_device s1)\<lparr>av_setup := av_setup (usb_device s2), av_out := av_out (usb_device s2)\<rparr>\<rparr>"
    "\<forall>H F. usb_inv (world s1 H F) \<longrightarrow> usb_inv (world s2 H F)"
    using fill_run [OF assms(8)] unfolding assms(7) by blast
  obtain p a b where s2: "s2 = s1\<lparr>ctx := (ctx s1)\<lparr>ctx_pool := p\<rparr>,
       usb_device := (usb_device s1)\<lparr>av_setup := a, av_out := b\<rparr>\<rparr>" using f(2) by blast
  have "usb_write USBDEV_INTR_STATE_REG_OFFSET 2 (usb_device s2) = usb_device s2"
    using assms(9) by (simp add: usb_write_def usb_reg_write_def s2 quiet_def fun_upd_idem)
  then have ack: "call (\<lambda>dev. dif_usbdev_irq_acknowledge_state (usb_bus_of h) dev 2) s2 = Some (Inr kDifOk, s2)"
    using assms(7) by (simp add: call_def dif_usbdev_irq_acknowledge_state_def irq_acknowledge_state_def usbdev_irqs_def
        run_usb_write s2)
  let ?s3 = "s2\<lparr>ctx := (ctx s2)\<lparr>flushed := 0\<rparr>\<rparr>"
  have flush: "poll_flush cl s2 = Some (Inr (), ?s3)"
    using assms(10) by (simp add: poll_flush_def prog_simps s2)
  have "usb_testutils_poll (usb_bus_of h) cl s = Some (Inr (), ?s3)"
    unfolding usb_testutils_poll_def
    by (simp add: andThen_value st snt f(1) ack irq_bits andThen_assoc srv flush del: push_bit_of_1)
  moreover have "\<forall>H F. usb_inv (world s1 H F) \<longrightarrow> usb_inv (world ?s3 H F)" using f(3) by (simp add: world_def)
  then have "refill_step s1 ?s3" unfolding refill_step_def by (intro conjI) (simp add: s2)
  ultimately show ?thesis by blast
qed

subsection \<open>A whole transfer\<close>

text \<open>A transfer under way: the packet \<open>c\<close> is at the endpoint, the packets \<open>rest\<close> follow it.\<close>

definition sending :: "dif_usbdev \<Rightarrow> nat \<Rightarrow> 'h \<Rightarrow> 'c ptr \<Rightarrow> nat \<Rightarrow> u8 list \<Rightarrow> dif_usbdev_buffer list \<Rightarrow> u8 list
    \<Rightarrow> u8 list \<Rightarrow> u8 list list \<Rightarrow> ('c, 'h, 'u, usb_dev) usb_sys \<Rightarrow> bool" where
  "sending h ep cb x mp data H F c rest s \<longleftrightarrow>
     (let E = in_eps (ctx s) ! ep; t = in_transfer E; e = of_nat ep; d = usb_device s in
      ctx_dev (ctx s) = h \<and> length (in_eps (ctx s)) = 12 \<and> \<not> got_frame (ctx s) \<and> quiet d
      \<and> tx_done_callback E = Some cb \<and> in_ep_ctx E = x
      \<and> transfer_ok mp data t \<and> upcoming h mp data t d rest \<and> usb_inv (world s (held_of t @ H) (e # F))
      \<and> in_ready d e \<and> in_packet h d e = c)"

fun serve :: "dif_usbdev \<Rightarrow> ('c, 'h, 'u, usb_dev) usb_clients \<Rightarrow> nat \<Rightarrow> nat \<Rightarrow> ('c, 'h, 'u, usb_dev) usb_sys
    \<Rightarrow> (u8 list list \<times> ('c, 'h, 'u, usb_dev) usb_sys) option" where
  "serve h cl ep 0 s = Some ([], s)"
| "serve h cl ep (Suc n) s =
     (if in_ready (usb_device s) (of_nat ep) then
        (let (p, d) = host_in h (of_nat ep) (usb_device s) in
         case usb_testutils_poll (usb_bus_of h) cl (s\<lparr>usb_device := d\<rparr>) of
           Some (Inr _, s') \<Rightarrow> map_option (\<lambda>(ps, s''). (p # ps, s'')) (serve h cl ep n s')
         | _ \<Rightarrow> None)
      else None)"

lemma refill_sending:
  assumes "refill_step s s'" "sending h ep cb x mp data H F c rest s"
  shows "sending h ep cb x mp data H F c rest s'"
proof -
  note R = refill_stepD [OF assms(1)]
  have "\<forall>H F. usb_inv (world s H F) \<longrightarrow> usb_inv (world s' H F)" using assms(1) by (simp add: refill_step_def)
  then show ?thesis
    using assms(2) R upcoming_mem [OF R(6), of h mp data] buffer_data_mem [OF R(6), of h]
    by (simp add: sending_def Let_def quiet_def in_ready_def in_packet_def in_size_def configin_id_def)
qed

lemma host_in_facts:
  fixes h :: dif_usbdev
  assumes "quiet d" "ep < 12"
  defines "d' \<equiv> snd (host_in h (of_nat ep) d)"
  shows "rx_queue d' = []" "usb_regs d' USBDEV_INTR_STATE_REG_OFFSET = 0"
    "usb_regs d' USBDEV_IN_SENT_REG_OFFSET = push_bit ep 1" "packet_mem d' = packet_mem d"
proof -
  have e: "unat (of_nat ep :: u8) = ep" using assms(2) by (simp add: unat_of_nat)
  note F = ep_reg_facts [of "of_nat ep", unfolded e, OF assms(2)]
  show "rx_queue d' = []" "usb_regs d' USBDEV_INTR_STATE_REG_OFFSET = 0"
    "usb_regs d' USBDEV_IN_SENT_REG_OFFSET = push_bit ep 1" "packet_mem d' = packet_mem d"
    using assms(1) F e by (simp_all add: d'_def host_in_def quiet_def)
qed

lemma quiet_step_quiet:
  assumes "quiet_step e s s'" "rx_queue (usb_device s) = []" "usb_regs (usb_device s) USBDEV_INTR_STATE_REG_OFFSET = 0"
    "usb_regs (usb_device s') USBDEV_IN_SENT_REG_OFFSET = 0" "unat e < 12"
  shows "quiet (usb_device s')"
  using assms ep_reg_facts [OF assms(5)] by (simp add: quiet_step_def same_device_def quiet_def)

text \<open>A round of the bus: the host takes the packet, the poll puts the next one in its place.\<close>

lemma round_more:
  assumes "sending h ep cb x mp data H F c (c' # rest) s" "ep < 12" "base (base_addr h) mod 4 = 0" "of_nat ep \<notin> set F"
  shows "\<exists>s'. usb_testutils_poll (usb_bus_of h) cl (s\<lparr>usb_device := snd (host_in h (of_nat ep) (usb_device s))\<rparr>)
      = Some (Inr (), s') \<and> sending h ep cb x mp data H F c' rest s' \<and> client_mem s' = client_mem s"
proof -
  let ?d = "snd (host_in h (of_nat ep) (usb_device s))"
  let ?s = "s\<lparr>usb_device := ?d\<rparr>"
  let ?E = "in_eps (ctx s) ! ep"
  have e: "unat (of_nat ep :: u8) < 12" using assms(2) by (simp add: unat_of_nat)
  have S: "ctx_dev (ctx s) = h" "length (in_eps (ctx s)) = 12" "\<not> got_frame (ctx s)" "quiet (usb_device s)"
    "tx_done_callback ?E = Some cb" "in_ep_ctx ?E = x"
    "transfer_ok mp data (in_transfer ?E)" "upcoming h mp data (in_transfer ?E) (usb_device s) (c' # rest)"
    "usb_inv (world s (held_of (in_transfer ?E) @ H) (of_nat ep # F))"
    using assms(1) by (simp_all add: sending_def Let_def)
  note D = host_in_facts [OF S(4) assms(2), of h]
  have up: "upcoming h mp data (in_transfer ?E) ?d (c' # rest)" using S(8) upcoming_mem [OF D(4), of h mp data] by simp
  obtain t' s1 where P: "poll_sent_endpoint (usb_bus_of h) cl ep ?s
      = Some (Inr (), s1\<lparr>ctx := (ctx s1)\<lparr>in_eps := (in_eps (ctx s))[ep := ?E\<lparr>in_transfer := t'\<rparr>]\<rparr>\<rparr>)"
    "quiet_step (of_nat ep) ?s s1" "usb_regs (usb_device s1) USBDEV_IN_SENT_REG_OFFSET = 0"
    "usb_inv (world s1 (held_of t' @ H) (of_nat ep # F))" "transfer_ok mp data t'"
    "upcoming h mp data t' (usb_device s1) rest"
    "in_ready (usb_device s1) (of_nat ep)" "in_packet h (usb_device s1) (of_nat ep) = c'"
    using poll_sent_endpoint_more [OF assms(2), of ?s F mp data c' rest H cl] S assms(3,4) up D(3) host_in_inv [OF S(9) e]
    by auto
  let ?s1 = "s1\<lparr>ctx := (ctx s1)\<lparr>in_eps := (in_eps (ctx s))[ep := ?E\<lparr>in_transfer := t'\<rparr>]\<rparr>\<rparr>"
  have q: "quiet (usb_device s1)" using quiet_step_quiet [OF P(2) _ _ P(3) e] D by simp
  note C = quiet_step_ctx [OF P(2)]
  have w: "world ?s1 H' F' = world s1 H' F'" for H' F' by (simp add: world_def)
  have s1: "sending h ep cb x mp data H F c' rest ?s1"
    using S C P(4-8) q assms(2) unfolding sending_def Let_def w by simp
  have p: "ctx_dev (ctx ?s) = h" "ctx_dev (ctx ?s1) = h" "\<not> got_frame (ctx ?s1)" "quiet (usb_device ?s1)"
    "usb_inv (world ?s1 (held_of t' @ H) (of_nat ep # F))"
    using S C q P(4) unfolding w by simp_all
  obtain s2 where "usb_testutils_poll (usb_bus_of h) cl ?s = Some (Inr (), s2)" "refill_step ?s1 s2"
    using poll_run [of ?s ep cl ?s1] D assms(2) P(1) p by auto
  with refill_sending [OF _ s1] refill_stepD(2) [of ?s1 s2] C(2) show ?thesis by auto
qed

text \<open>After the last packet the transfer is over and its callback has run.\<close>

definition finished :: "nat \<Rightarrow> ('u \<Rightarrow> 'u) \<Rightarrow> dif_usbdev_buffer list \<Rightarrow> u8 list
    \<Rightarrow> ('c, 'h, 'u, usb_dev) usb_sys \<Rightarrow> ('c, 'h, 'u, usb_dev) usb_sys \<Rightarrow> bool" where
  "finished ep g H F s s' \<longleftrightarrow> client_mem s' = g (client_mem s)
     \<and> xfer_buffer (in_transfer (in_eps (ctx s') ! ep)) = null
     \<and> \<not> in_ready (usb_device s') (of_nat ep) \<and> usb_inv (world s' H F)"

lemma round_last:
  assumes "sending h ep cb x mp data H F c [] s" "ep < 12"
    and callback: "\<And>s. run_tx_done cl cb x kUsbTestutilsXfrResultOk s = Some (Inr (), s\<lparr>client_mem := g (client_mem s)\<rparr>)"
  shows "\<exists>s'. usb_testutils_poll (usb_bus_of h) cl (s\<lparr>usb_device := snd (host_in h (of_nat ep) (usb_device s))\<rparr>)
      = Some (Inr (), s') \<and> finished ep g H F s s'"
proof -
  let ?d = "snd (host_in h (of_nat ep) (usb_device s))"
  let ?s = "s\<lparr>usb_device := ?d\<rparr>"
  let ?E = "in_eps (ctx s) ! ep"
  have e: "unat (of_nat ep :: u8) < 12" using assms(2) by (simp add: unat_of_nat)
  have S: "ctx_dev (ctx s) = h" "length (in_eps (ctx s)) = 12" "\<not> got_frame (ctx s)" "quiet (usb_device s)"
    "tx_done_callback ?E = Some cb" "in_ep_ctx ?E = x"
    "transfer_ok mp data (in_transfer ?E)" "upcoming h mp data (in_transfer ?E) (usb_device s) []"
    "usb_inv (world s (held_of (in_transfer ?E) @ H) (of_nat ep # F))"
    using assms(1) by (simp_all add: sending_def Let_def)
  note D = host_in_facts [OF S(4) assms(2), of h]
  have up: "upcoming h mp data (in_transfer ?E) ?d []" using S(8) upcoming_mem [OF D(4), of h mp data] by simp
  obtain s1 where P: "poll_sent_endpoint (usb_bus_of h) cl ep ?s
      = run_tx_done cl cb x kUsbTestutilsXfrResultOk (s1\<lparr>ctx := (ctx s1)\<lparr>in_eps := (in_eps (ctx s))
          [ep := ?E\<lparr>in_transfer := (in_transfer ?E)\<lparr>xfer_buffer := null\<rparr>\<rparr>]\<rparr>\<rparr>)"
    "quiet_step (of_nat ep) ?s s1" "usb_regs (usb_device s1) USBDEV_IN_SENT_REG_OFFSET = 0"
    "usb_inv (world s1 H F)" "\<not> in_ready (usb_device s1) (of_nat ep)"
    using poll_sent_endpoint_done [OF assms(2), of ?s mp data H F cb cl] S up D(3) host_in_inv [OF S(9) e]
    by auto
  let ?s1 = "s1\<lparr>ctx := (ctx s1)\<lparr>in_eps := (in_eps (ctx s))[ep := ?E\<lparr>in_transfer := (in_transfer ?E)\<lparr>xfer_buffer := null\<rparr>\<rparr>]\<rparr>,
    client_mem := g (client_mem s1)\<rparr>"
  have q: "quiet (usb_device s1)" using quiet_step_quiet [OF P(2) _ _ P(3) e] D by simp
  note C = quiet_step_ctx [OF P(2)]
  have w: "world ?s1 H' F' = world s1 H' F'" for H' F' by (simp add: world_def)
  have p: "ctx_dev (ctx ?s) = h" "ctx_dev (ctx ?s1) = h" "\<not> got_frame (ctx ?s1)" "quiet (usb_device ?s1)" "usb_inv (world ?s1 H F)"
    using S C q P(4) unfolding w by simp_all
  have s1: "finished ep g H F s ?s1" using P(4,5) S(2) assms(2) C unfolding finished_def w by simp
  have "poll_sent_endpoint (usb_bus_of h) cl ep ?s = Some (Inr (), ?s1)" unfolding P(1) callback by simp
  then obtain s2 where R: "usb_testutils_poll (usb_bus_of h) cl ?s = Some (Inr (), s2)" "refill_step ?s1 s2"
    using poll_run [of ?s ep cl ?s1] D assms(2) p by auto
  note R2 = refill_stepD [OF R(2)]
  have "usb_inv (world s2 H F)" using R(2) p(5) by (simp add: refill_step_def)
  with R2 s1 have "finished ep g H F s s2"
    unfolding finished_def in_ready_def by simp
  with R(1) show ?thesis by blast
qed

lemma serve_sending:
  assumes "sending h ep cb x mp data H F c rest s" "ep < 12" "base (base_addr h) mod 4 = 0" "of_nat ep \<notin> set F"
    and callback: "\<And>s. run_tx_done cl cb x kUsbTestutilsXfrResultOk s = Some (Inr (), s\<lparr>client_mem := g (client_mem s)\<rparr>)"
  shows "\<forall>k\<le>length rest. \<exists>s'. serve h cl ep k s = Some (take k (c # rest), s') \<and> client_mem s' = client_mem s"
    "\<exists>s'. serve h cl ep (Suc (length rest)) s = Some (c # rest, s') \<and> finished ep g H F s s'"
proof -
  have "(\<forall>k\<le>length rest. \<exists>s'. serve h cl ep k s = Some (take k (c # rest), s') \<and> client_mem s' = client_mem s)
    \<and> (\<exists>s'. serve h cl ep (Suc (length rest)) s = Some (c # rest, s') \<and> finished ep g H F s s')"
    using assms(1)
  proof (induction rest arbitrary: c s)
    case Nil
    have r: "in_ready (usb_device s) (of_nat ep)" "fst (host_in h (of_nat ep) (usb_device s)) = c"
      using Nil by (simp_all add: sending_def Let_def host_in_def)
    from round_last [OF Nil assms(2) callback] r show ?case by (auto simp: case_prod_beta)
  next
    case (Cons c' rest)
    have r: "in_ready (usb_device s) (of_nat ep)" "fst (host_in h (of_nat ep) (usb_device s)) = c"
      using Cons.prems by (simp_all add: sending_def Let_def host_in_def)
    obtain s' where P: "usb_testutils_poll (usb_bus_of h) cl (s\<lparr>usb_device := snd (host_in h (of_nat ep) (usb_device s))\<rparr>)
        = Some (Inr (), s')" "sending h ep cb x mp data H F c' rest s'" "client_mem s' = client_mem s"
      using round_more [OF Cons.prems assms(2-4)] by blast
    have step: "serve h cl ep (Suc n) s = map_option (\<lambda>(ps, s''). (c # ps, s'')) (serve h cl ep n s')" for n
      using r P(1) by (simp add: case_prod_beta)
    note I = Cons.IH [OF P(2)]
    have "\<exists>s'. serve h cl ep k s = Some (take k (c # c' # rest), s') \<and> client_mem s' = client_mem s"
      if "k \<le> Suc (length rest)" for k
    proof (cases k)
      case (Suc n)
      with that I obtain s'' where "serve h cl ep n s' = Some (take n (c' # rest), s'')" "client_mem s'' = client_mem s'"
        by auto
      then show ?thesis unfolding Suc step by (simp add: P(3))
    qed simp
    moreover from I obtain s'' where "serve h cl ep (Suc (length rest)) s' = Some (c' # rest, s'')" "finished ep g H F s' s''"
      by blast
    then have "\<exists>s''. serve h cl ep (Suc (Suc (length rest))) s = Some (c # c' # rest, s'') \<and> finished ep g H F s s''"
      unfolding step by (simp add: finished_def P(3))
    ultimately show ?case by simp
  qed
  then show "\<forall>k\<le>length rest. \<exists>s'. serve h cl ep k s = Some (take k (c # rest), s') \<and> client_mem s' = client_mem s"
    "\<exists>s'. serve h cl ep (Suc (length rest)) s = Some (c # rest, s') \<and> finished ep g H F s s'"
    by blast+
qed

text \<open>Starting a transfer puts its first packet at the endpoint.\<close>

lemma transfer_send_run:
  assumes "base (base_addr h) mod 4 = 0" "ep < 12" "ctx_dev (ctx s) = h" "length (in_eps (ctx s)) = 12"
    "xfer_buffer (in_transfer (in_eps (ctx s) ! ep)) = null" "tx_done_callback (in_eps (ctx s) ! ep) = Some cb"
    "in_ep_ctx (in_eps (ctx s) ! ep) = x" "usb_inv (world s H F)" "of_nat ep \<notin> set F" "pool_ids (ctx_pool (ctx s)) \<noteq> []"
    "quiet (usb_device s)" "\<not> got_frame (ctx s)" "length data < 2 ^ 32" "max_packet_of flags = of_nat mp" "0 < mp" "mp \<le> 64"
    "c # rest = packets mp (employ_zlp flags) data"
  shows "\<exists>s'. usb_testutils_transfer_send (usb_bus_of h) (of_nat ep) (Some data) (of_nat (length data)) flags s
      = Some (Inr True, s') \<and> client_mem s' = client_mem s \<and> sending h ep cb x mp data H F c rest s'"
proof -
  let ?E = "in_eps (ctx s) ! ep"
  let ?t = "(in_transfer ?E)\<lparr>xfer_buffer := Some data, xfer_offset := 0, xfer_length := of_nat (length data),
    xfer_flags := flags, next_valid := False\<rparr>"
  have e: "unat (of_nat ep :: u8) = ep" "unat (of_nat ep :: u8) < 12" using assms(2) by (simp_all add: unat_of_nat)
  have t: "transfer_ok mp data ?t" "\<not> next_valid ?t" "unprepared mp data ?t = c # rest" "held_of ?t = []"
    using assms(13-17) by (simp_all add: transfer_ok_def unprepared_def held_of_def)
  obtain t' s1 where N: "usb_testutils_transfer_next_part (usb_bus_of h) (of_nat ep) ?t s = Some (Inr (True, t'), s1)"
    "quiet_step (of_nat ep) s s1"
    "usb_regs (usb_device s1) USBDEV_IN_SENT_REG_OFFSET = usb_regs (usb_device s) USBDEV_IN_SENT_REG_OFFSET"
    "usb_inv (world s1 (held_of t' @ H) (of_nat ep # F))" "transfer_ok mp data t'" "upcoming h mp data t' (usb_device s1) rest"
    "in_ready (usb_device s1) (of_nat ep)" "in_packet h (usb_device s1) (of_nat ep) = c"
    using next_part_run [OF t(1) _ _ assms(9) e(2), of s H c rest] t(2-4) assms(1,3,8,10) by auto
  note C = quiet_step_ctx [OF N(2)]
  let ?s' = "s1\<lparr>ctx := (ctx s1)\<lparr>in_eps := (in_eps (ctx s))[ep := ?E\<lparr>in_transfer := t'\<rparr>]\<rparr>\<rparr>"
  have ep: "in_ep ep s = Some (Inr ?E, s)" using in_ep_run [of ep s] assms(2,4) by simp
  have up: "in_ep_update ep (in_transfer_update (\<lambda>_. t')) s1 = Some (Inr (), ?s')"
    using in_ep_update_run [of ep s1] assms(2,4) C by simp
  have chk: "CHECK (ep < USBDEV_NUM_ENDPOINTS) = pure ()" using assms(2) by (simp add: USBDEV_NUM_ENDPOINTS_def)
  have "usb_testutils_transfer_send (usb_bus_of h) (of_nat ep) (Some data) (of_nat (length data)) flags s = Some (Inr True, ?s')"
    using assms(5) N(1) unfolding usb_testutils_transfer_send_def e(1) chk andThen_pure Let_def
    by (simp add: andThen_value ep up pure_run)
  moreover have w: "world ?s' H' F' = world s1 H' F'" for H' F' by (simp add: world_def)
  have "sending h ep cb x mp data H F c rest ?s'"
    using N(3-8) C assms(2-4,6,7,12) quiet_step_quiet [OF N(2) _ _ _ e(2)] assms(11)
    unfolding sending_def Let_def w by (simp add: quiet_def)
  ultimately show ?thesis using C(2) by (intro exI [of _ ?s']) simp
qed

text \<open>C36: A transfer sends its data once and in order. The device is quiet: no received packet, no other
  bus event and no start of frame is pending or arrives. The maximum packet length is between 1 and 64,
  and the endpoint is idle, with a free buffer in the pool. Then starting the transfer succeeds, and, each
  time the host takes the packet of the endpoint and the software polls, the packets are exactly the ones
  that the data divides into (the maximum length each, then a shorter one, empty when a zero-length packet
  is asked for and the data fills the packets before it), with or without double buffering. The callback of
  the endpoint, which works on the memory of its client, does not run before the last packet is gone, and
  runs once when it is; then the endpoint is idle, no packet is left at it, and every buffer that the
  transfer used is back in the pool or with the device. The part of a poll that serves the sent packets
  serves each endpoint of the set that the device reports, in order.
\<close>

theorem usb_transfer_in_order:
  assumes device: "base (base_addr h) mod 4 = 0" "ctx_dev (ctx s) = h" "quiet (usb_device s)" "\<not> got_frame (ctx s)"
    and endpoint: "ep < 12" "length (in_eps (ctx s)) = 12" "xfer_buffer (in_transfer (in_eps (ctx s) ! ep)) = null"
      "of_nat ep \<notin> set F"
    and buffers: "usb_inv (world s H F)" "pool_ids (ctx_pool (ctx s)) \<noteq> []"
    and callback: "tx_done_callback (in_eps (ctx s) ! ep) = Some cb"
      "\<And>s'. run_tx_done cl cb (in_ep_ctx (in_eps (ctx s) ! ep)) kUsbTestutilsXfrResultOk s'
        = Some (Inr (), s'\<lparr>client_mem := g (client_mem s')\<rparr>)"
    and transfer: "length data < 2 ^ 32" "max_packet_of flags = of_nat mp" "0 < mp" "mp \<le> 64"
  defines "ps \<equiv> packets mp (employ_zlp flags) data"
  shows "\<exists>s1 s2. usb_testutils_transfer_send (usb_bus_of h) (of_nat ep) (Some data) (of_nat (length data)) flags s
        = Some (Inr True, s1)
    \<and> (\<forall>k<length ps. \<exists>s'. serve h cl ep k s1 = Some (take k ps, s') \<and> client_mem s' = client_mem s)
    \<and> serve h cl ep (length ps) s1 = Some (ps, s2)
    \<and> concat ps = data \<and> (\<forall>p\<in>set (butlast ps). length p = mp)
    \<and> length (last ps) \<le> mp \<and> (length (last ps) = mp \<longrightarrow> \<not> employ_zlp flags)
    \<and> client_mem s2 = g (client_mem s) \<and> xfer_buffer (in_transfer (in_eps (ctx s2) ! ep)) = null
    \<and> \<not> in_ready (usb_device s2) (of_nat ep) \<and> usb_inv (world s2 H F)
    \<and> poll_sent (usb_bus_of h) cl sent 0 = for_each (filter (bit sent) [0..<12]) (poll_sent_endpoint (usb_bus_of h) cl)"
proof -
  have "ps \<noteq> []" unfolding ps_def by (subst packets.simps) simp
  then obtain c rest where ps: "ps = c # rest" by (cases ps) auto
  have "ps = butlast ps @ [last ps]" using ps by simp
  then have split: "packets mp (employ_zlp flags) data = butlast ps @ [last ps]" unfolding ps_def .
  obtain s1 where s1: "usb_testutils_transfer_send (usb_bus_of h) (of_nat ep) (Some data) (of_nat (length data)) flags s
      = Some (Inr True, s1)" "client_mem s1 = client_mem s"
    "sending h ep cb (in_ep_ctx (in_eps (ctx s) ! ep)) mp data H F c rest s1"
    using transfer_send_run [OF device(1) endpoint(1) device(2) endpoint(2,3) callback(1) refl buffers(1) endpoint(4)
        buffers(2) device(3,4) transfer ps [unfolded ps_def, symmetric]] by blast
  note S = serve_sending [OF s1(3) endpoint(1) device(1) endpoint(4) callback(2)]
  from S(2) obtain s2 where "serve h cl ep (length ps) s1 = Some (ps, s2)" "finished ep g H F s1 s2"
    unfolding ps by auto
  moreover have "concat ps = data" unfolding ps_def by (rule packets_concat)
  moreover have "\<forall>k<length ps. \<exists>s'. serve h cl ep k s1 = Some (take k ps, s') \<and> client_mem s' = client_mem s"
    using S(1) s1(2) unfolding ps by simp
  ultimately show ?thesis using s1(1,2) packets_sizes [OF transfer(3) split] poll_sent_from unfolding finished_def by auto
qed

definition usb_example_transfer :: usb_testutils_transfer where
  "usb_example_transfer = \<lparr>xfer_buffer = null, xfer_length = 0, xfer_offset = 0, xfer_flags = 0, xfer_last = False,
     next_valid = False, next_part = written_buffer 0 0\<rparr>"

definition usb_example_sys :: "(unit, unit, nat, usb_dev) usb_sys" where
  "usb_example_sys = \<lparr>ctx = \<lparr>ctx_dev = usb_example, ctx_pool = snd (buffer_pool_init usb_example_pool), flushed = 0,
     got_frame = False, ctx_frame = 0,
     in_eps = replicate 12 \<lparr>in_ep_type = kUsbTransferTypeBulk, in_ep_ctx = null, tx_done_callback = Some (), in_flush = null,
       in_reset = null, in_transfer = usb_example_transfer\<rparr>, out_eps = []\<rparr>, client_mem = 0, usb_device = usb_reset_dev\<rparr>"

definition usb_example_clients :: "(unit, unit, nat, usb_dev) usb_clients" where
  "usb_example_clients = \<lparr>run_tx_done = (\<lambda>_ _ _ s. Some (Inr (), s\<lparr>client_mem := Suc (client_mem s)\<rparr>)),
     run_rx = (\<lambda>_ _ _ _. pure ()), run_flush = (\<lambda>_ _. pure ()), run_reset = (\<lambda>_ _. pure ())\<rparr>"

lemma usb_transfer_in_order_witness:
  "\<exists>s1 s2. usb_testutils_transfer_send (usb_bus_of usb_example) 2 (Some (replicate 70 9)) 70 0x600 usb_example_sys
      = Some (Inr True, s1)
    \<and> serve usb_example usb_example_clients 2 2 s1 = Some ([replicate 64 9, replicate 6 9], s2)
    \<and> client_mem s2 = 1 \<and> usb_inv (world s2 [] [])"
proof -
  have p: "pool_wf (ctx_pool (ctx usb_example_sys))" "mset (pool_ids (ctx_pool (ctx usb_example_sys))) = all_buffers"
    "pool_ids (ctx_pool (ctx usb_example_sys)) \<noteq> []"
    using pool_init [of usb_example_pool]
    by (auto simp: usb_example_sys_def usb_example_pool_def USBDEV_NUM_BUFFERS_def all_buffers_def)
  have "packets 64 True (replicate 70 (9 :: u8)) = [replicate 64 9, replicate 6 9]"
    by (simp add: packets.simps)
  then have ps: "packets 64 (employ_zlp 0x600) (replicate 70 (9 :: u8)) = [replicate 64 9, replicate 6 9]"
    by (simp add: employ_zlp_def kUsbTestutilsXfrEmployZLP_def)
  have inv: "usb_inv (world usb_example_sys [] [])"
    using p by (simp add: usb_inv_def owned_def usb_example_sys_def usb_reset_dev_def)
  have flags: "max_packet_of 0x600 = of_nat 64"
    by (simp add: max_packet_of_def kUsbTestutilsXfrMaxPacketSupplied_def USBDEV_MAX_PACKET_SIZE_def)
  have quiet: "quiet (usb_device usb_example_sys)"
    by (simp add: quiet_def usb_example_sys_def usb_reset_dev_def)
  have start: "base (base_addr usb_example) mod 4 = 0" "ctx_dev (ctx usb_example_sys) = usb_example"
    "\<not> got_frame (ctx usb_example_sys)" "length (in_eps (ctx usb_example_sys)) = 12"
    "xfer_buffer (in_transfer (in_eps (ctx usb_example_sys) ! 2)) = null"
    "tx_done_callback (in_eps (ctx usb_example_sys) ! 2) = Some ()" "client_mem usb_example_sys = 0"
    by (simp_all add: usb_example_def usb_example_sys_def usb_example_transfer_def)
  have callback: "run_tx_done usb_example_clients cb x r s = Some (Inr (), s\<lparr>client_mem := Suc (client_mem s)\<rparr>)" for cb x r s
    by (simp add: usb_example_clients_def)
  show ?thesis
    using usb_transfer_in_order [where ep = 2 and data = "replicate 70 9" and sent = 4, OF start(1,2) quiet start(3) _ start(4,5) _ inv p(3)
        start(6) callback _ flags, unfolded ps]
    by (auto simp: start(7) simp flip: numeral_2_eq_2 simp del: serve.simps)
qed

end
