(* ===== verification/UsbSafety.thy ===== *)
theory UsbSafety
  imports UsbControlep
begin

section \<open>Well-formed states of the USB test stack\<close>

text \<open>
  The context of the test stack has tables of twelve endpoints, indexed by endpoint numbers that come
  from callers, from loops and from the device. A context with these tables stays one, and no
  operation reads or writes outside of a table, provided that callers give numbers in range, that the
  callbacks of the clients do not either, each called with the context it was registered with, and
  that the device only reports packets for endpoints that it has. The locale states the contract for
  the clients; the control endpoint meets it.
\<close>

subsection \<open>Programs that keep an invariant\<close>

primrec settles :: "('s \<Rightarrow> bool) \<Rightarrow> ('a \<Rightarrow> bool) \<Rightarrow> failure + 'a \<Rightarrow> 's \<Rightarrow> bool" where
  "settles I Q (Inl e) s \<longleftrightarrow> e \<noteq> Undefined \<and> I s"
| "settles I Q (Inr a) s \<longleftrightarrow> I s \<and> Q a"

definition keeps :: "('s \<Rightarrow> bool) \<Rightarrow> ('s, 'a) prog \<Rightarrow> ('a \<Rightarrow> bool) \<Rightarrow> bool" where
  "keeps I m Q \<longleftrightarrow> (\<forall>s r s'. I s \<longrightarrow> m s = Some (r, s') \<longrightarrow> settles I Q r s')"

abbreviation keeps_inv :: "('s \<Rightarrow> bool) \<Rightarrow> ('s, 'a) prog \<Rightarrow> bool" where
  "keeps_inv I m \<equiv> keeps I m (\<lambda>_. True)"

named_theorems keeping

lemma keeps_pure: "Q a \<Longrightarrow> keeps I (pure a) Q"
  by (simp add: keeps_def pure_run)

lemma keeps_pure_unit [keeping]: "keeps_inv I (pure a)"
  by (simp add: keeps_pure)

lemma keeps_leave [keeping]: "e \<noteq> Undefined \<Longrightarrow> keeps I (leave e) Q"
  by (simp add: keeps_def leave_run)

lemma keeps_andThen:
  assumes "keeps I m Q" "\<And>a. Q a \<Longrightarrow> keeps I (f a) R"
  shows "keeps I (andThen m f) R"
  unfolding keeps_def
proof (intro allI impI)
  fix s r s'
  assume "I s" "andThen m f s = Some (r, s')"
  then show "settles I R r s'"
    using assms by (fastforce simp: andThen_def keeps_def split: option.splits sum.splits)
qed

lemma keeps_bind [keeping]: "keeps_inv I m \<Longrightarrow> (\<And>a. keeps I (f a) R) \<Longrightarrow> keeps I (andThen m f) R"
  by (rule keeps_andThen)

lemma keeps_if [keeping]: "(c \<Longrightarrow> keeps I m Q) \<Longrightarrow> (\<not> c \<Longrightarrow> keeps I m' Q) \<Longrightarrow> keeps I (if c then m else m') Q"
  by simp

lemma keeps_Let [keeping]: "(\<And>x. x = a \<Longrightarrow> keeps I (f x) Q) \<Longrightarrow> keeps I (Let a f) Q"
  by (simp add: Let_def)

lemma keeps_case_prod [keeping]: "(\<And>a b. keeps I (f a b) Q) \<Longrightarrow> keeps I (case p of (a, b) \<Rightarrow> f a b) Q"
  by (cases p) simp

lemma keeps_case_option [keeping]:
  "keeps I m Q \<Longrightarrow> (\<And>a. keeps I (f a) Q) \<Longrightarrow> keeps I (case x of None \<Rightarrow> m | Some a \<Rightarrow> f a) Q"
  by (cases x) simp_all

lemma keeps_look: "keeps_inv I (look f)"
  by (simp add: keeps_def look_run)

lemma keeps_look_fact: "(\<And>s. I s \<Longrightarrow> Q (f s)) \<Longrightarrow> keeps I (look f) Q"
  by (simp add: keeps_def look_run)

lemma keeps_change: "(\<And>s. I s \<Longrightarrow> I (f s)) \<Longrightarrow> keeps_inv I (change f)"
  by (simp add: keeps_def change_run)

lemma keeps_checks [keeping]:
  "keeps_inv I (CHECK c)" "keeps_inv I (CHECK_DIF_OK r)" "keeps_inv I (TRY_DIF l r)" "keeps_inv I (TRY_CHECK l c)"
  by (simp_all add: keeps_def CHECK_def CHECK_DIF_OK_def TRY_DIF_def TRY_CHECK_def TRY_STATUS_def pure_run leave_run)

lemma keeps_unless [keeping]: "keeps_inv I m \<Longrightarrow> keeps_inv I (unless c m)"
  by (cases c) (simp_all add: keeps_pure)

lemma keeps_for_each: "(\<And>x. x \<in> set xs \<Longrightarrow> keeps_inv I (f x)) \<Longrightarrow> keeps_inv I (for_each xs f)"
  by (induction xs) (auto intro: keeps_pure keeps_bind)

lemma keeps_UNWRAP [keeping]: "keeps_inv I m \<Longrightarrow> keeps_inv I (UNWRAP m)"
  by (fastforce simp: keeps_def UNWRAP_def split: option.splits sum.splits failure.splits)

subsection \<open>The tables of endpoints\<close>

text \<open>The roles in which the test stack calls the function that a pointer denotes. A pointer is
  registered for a role, together with a context, and only called in that role and with that context;
  \<open>reg\<close> says which contexts and functions a role allows.\<close>

datatype role = Tx_done | Rx | Flush | Reset

definition in_ep_wf :: "(role \<Rightarrow> 'c ptr \<Rightarrow> 'h \<Rightarrow> bool) \<Rightarrow> ('c, 'h) usb_in_endpoint \<Rightarrow> bool" where
  "in_ep_wf reg e \<longleftrightarrow> pred_option (reg Tx_done (in_ep_ctx e)) (tx_done_callback e)
     \<and> pred_option (reg Flush (in_ep_ctx e)) (in_flush e) \<and> pred_option (reg Reset (in_ep_ctx e)) (in_reset e)"

definition out_ep_wf :: "(role \<Rightarrow> 'c ptr \<Rightarrow> 'h \<Rightarrow> bool) \<Rightarrow> ('c, 'h) usb_out_endpoint \<Rightarrow> bool" where
  "out_ep_wf reg e \<longleftrightarrow> pred_option (reg Rx (out_ep_ctx e)) (rx_callback e) \<and> pred_option (reg Reset (out_ep_ctx e)) (out_reset e)"

definition ctx_wf :: "(role \<Rightarrow> 'c ptr \<Rightarrow> 'h \<Rightarrow> bool) \<Rightarrow> ('c, 'h, 'u, 'd) usb_sys \<Rightarrow> bool" where
  "ctx_wf reg s \<longleftrightarrow> length (in_eps (ctx s)) = USBDEV_NUM_ENDPOINTS \<and> length (out_eps (ctx s)) = USBDEV_NUM_ENDPOINTS
     \<and> (\<forall>e\<in>set (in_eps (ctx s)). in_ep_wf reg e) \<and> (\<forall>e\<in>set (out_eps (ctx s)). out_ep_wf reg e)"

lemma keeps_ctx_look [keeping]: "keeps_inv (ctx_wf reg) (look f)"
  by (rule keeps_look)

lemma ctx_wf_call [keeping]: "keeps_inv (ctx_wf reg) (call f)" "keeps_inv (ctx_wf reg) (pool_call g)"
  "keeps_inv (ctx_wf reg) (buffer_request b)" "keeps_inv (ctx_wf reg) (buffer_return b)"
  by (auto simp: keeps_def call_def pool_call_def ctx_wf_def buffer_request_def buffer_return_def split: prod.splits)

lemma ctx_wf_in_ep: "n < USBDEV_NUM_ENDPOINTS \<Longrightarrow> keeps (ctx_wf reg) (in_ep n) (in_ep_wf reg)"
  by (simp add: keeps_def ctx_wf_def in_ep_def prog_simps)

lemma ctx_wf_out_ep: "n < USBDEV_NUM_ENDPOINTS \<Longrightarrow> keeps (ctx_wf reg) (out_ep n) (out_ep_wf reg)"
  by (simp add: keeps_def ctx_wf_def out_ep_def prog_simps)

lemma in_set_update: "x \<in> set (xs[n := y]) \<Longrightarrow> x = y \<or> x \<in> set xs"
  using set_update_subset_insert [of xs n y] by auto

lemma ctx_wf_in_ep_update:
  assumes "n < USBDEV_NUM_ENDPOINTS" "\<And>e. in_ep_wf reg e \<Longrightarrow> in_ep_wf reg (f e)"
  shows "keeps_inv (ctx_wf reg) (in_ep_update n f)"
  using assms by (auto simp: keeps_def ctx_wf_def in_ep_update_def Let_def dest!: in_set_update)

lemma ctx_wf_out_ep_update:
  assumes "n < USBDEV_NUM_ENDPOINTS" "\<And>e. out_ep_wf reg e \<Longrightarrow> out_ep_wf reg (f e)"
  shows "keeps_inv (ctx_wf reg) (out_ep_update n f)"
  using assms by (auto simp: keeps_def ctx_wf_def out_ep_update_def Let_def dest!: in_set_update)

lemma ctx_wf_transfer:
  "n < USBDEV_NUM_ENDPOINTS \<Longrightarrow> keeps_inv (ctx_wf reg) (in_ep_update n (in_transfer_update f))"
  by (rule ctx_wf_in_ep_update) (simp_all add: in_ep_wf_def)

lemma ctx_wf_change [keeping]:
  "keeps_inv (ctx_wf reg) (change (client_mem_update f))" "keeps_inv (ctx_wf reg) (change (ctx_update (ctx_dev_update f1)))"
  "keeps_inv (ctx_wf reg) (change (ctx_update (flushed_update f2)))"
  "keeps_inv (ctx_wf reg) (change (ctx_update (ctx_frame_update f3)))"
  "keeps_inv (ctx_wf reg) (change (ctx_update (got_frame_update f4)))"
  "keeps_inv (ctx_wf reg) (change (ctx_update (\<lambda>c. c\<lparr>got_frame := x, ctx_frame := y\<rparr>)))"
  by (auto intro!: keeps_change simp: ctx_wf_def)

lemma transfer_next_part_keeps [keeping]: "keeps_inv (ctx_wf reg) (usb_testutils_transfer_next_part B ep t)"
  unfolding usb_testutils_transfer_next_part_def usb_testutils_part_prepare_def
  by (intro keeping)

lemma transfer_send_keeps [keeping]: "keeps_inv (ctx_wf reg) (usb_testutils_transfer_send B ep data len flags)"
proof (cases "unat ep < USBDEV_NUM_ENDPOINTS")
  case True
  then show ?thesis unfolding usb_testutils_transfer_send_def
    by (intro keeping keeps_andThen [OF ctx_wf_in_ep] ctx_wf_transfer)
next
  case False
  then show ?thesis by (simp add: usb_testutils_transfer_send_def keeps_leave)
qed

lemma in_endpoint_setup_keeps:
  assumes "unat ep < USBDEV_NUM_ENDPOINTS" "pred_option (reg Tx_done x) tx_done" "pred_option (reg Flush x) flush"
    "pred_option (reg Reset x) reset"
  shows "keeps_inv (ctx_wf reg) (usb_testutils_in_endpoint_setup B ep ty x tx_done flush reset)"
  unfolding usb_testutils_in_endpoint_setup_def
  by (intro keeping ctx_wf_in_ep_update assms(1)) (simp add: assms in_ep_wf_def)

lemma out_endpoint_setup_keeps:
  assumes "unat ep < USBDEV_NUM_ENDPOINTS" "pred_option (reg Rx x) rx" "pred_option (reg Reset x) reset"
  shows "keeps_inv (ctx_wf reg) (usb_testutils_out_endpoint_setup B ep ty mode x rx reset)"
  unfolding usb_testutils_out_endpoint_setup_def
  by (intro keeping ctx_wf_out_ep_update assms(1)) (simp add: assms out_ep_wf_def)

lemma endpoint_setup_keeps:
  assumes "unat ep < USBDEV_NUM_ENDPOINTS" "pred_option (reg Tx_done x) tx_done" "pred_option (reg Rx x) rx"
    "pred_option (reg Flush x) flush" "pred_option (reg Reset x) reset"
  shows "keeps_inv (ctx_wf reg) (usb_testutils_endpoint_setup B ep ty ty' mode x tx_done rx flush reset)"
  unfolding usb_testutils_endpoint_setup_def
  by (intro keeping in_endpoint_setup_keeps out_endpoint_setup_keeps assms) simp

lemma endpoint_remove_keeps:
  assumes "unat ep < USBDEV_NUM_ENDPOINTS"
  shows "keeps_inv (ctx_wf reg) (usb_testutils_endpoint_remove B ep)"
  unfolding usb_testutils_endpoint_remove_def usb_testutils_in_endpoint_remove_def usb_testutils_out_endpoint_remove_def
  by (intro keeping ctx_wf_in_ep_update ctx_wf_out_ep_update assms) (simp_all add: in_ep_wf_def out_ep_wf_def)

lemma unat_endpoint: "n < USBDEV_NUM_ENDPOINTS \<Longrightarrow> unat (of_nat n :: u8) < USBDEV_NUM_ENDPOINTS"
  by (simp add: USBDEV_NUM_ENDPOINTS_def unat_of_nat)

lemma init_keeps: "keeps_inv (ctx_wf reg) (usb_testutils_init B pinflip en_diff_rcvr tx_use_d_se0)"
  unfolding usb_testutils_init_def
  by (intro keeping keeps_for_each endpoint_setup_keeps unat_endpoint) simp_all

lemma fin_keeps: "keeps_inv (ctx_wf reg) (usb_testutils_fin B)"
  unfolding usb_testutils_fin_def
  by (intro keeping keeps_for_each endpoint_remove_keeps unat_endpoint) simp_all

subsection \<open>The contract of a client\<close>

locale usb_client =
  fixes cl :: "('c, 'h, 'u, 'd) usb_clients" and reg :: "role \<Rightarrow> 'c ptr \<Rightarrow> 'h \<Rightarrow> bool"
  assumes tx_done: "reg Tx_done x f \<Longrightarrow> keeps_inv (ctx_wf reg) (run_tx_done cl f x result)"
    and rx: "reg Rx x f \<Longrightarrow> keeps_inv (ctx_wf reg) (run_rx cl f x info buffer)"
    and flush: "reg Flush x f \<Longrightarrow> keeps_inv (ctx_wf reg) (run_flush cl f x)"
    and reset: "reg Reset x f \<Longrightarrow> keeps_inv (ctx_wf reg) (run_reset cl f x)"
begin

lemma callback: "(\<And>f. reg r x f \<Longrightarrow> keeps_inv I (m f)) \<Longrightarrow> pred_option (reg r x) p \<Longrightarrow> keeps_inv I m'
    \<Longrightarrow> keeps_inv I (case p of None \<Rightarrow> m' | Some f \<Rightarrow> m f)"
  by (cases p) simp_all

lemma sent_endpoint:
  assumes "ep < USBDEV_NUM_ENDPOINTS"
  shows "keeps_inv (ctx_wf reg) (poll_sent_endpoint B cl ep)"
  unfolding poll_sent_endpoint_def
  by (rule keeping keeps_andThen [OF ctx_wf_in_ep [OF assms]] ctx_wf_transfer [OF assms] tx_done callback [where r = Tx_done]
      | assumption | simp add: in_ep_wf_def)+

lemma sent: "keeps_inv (ctx_wf reg) (poll_sent B cl sentep ep)"
proof (induction "USBDEV_NUM_ENDPOINTS - ep" arbitrary: sentep ep rule: less_induct)
  case less
  then show ?case
    by (subst poll_sent.simps) (intro keeping sent_endpoint, simp_all add: diff_less_mono2)
qed

lemma link_reset: "keeps_inv (ctx_wf reg) (poll_link_reset cl)"
  unfolding poll_link_reset_def
  by (rule keeping keeps_for_each keeps_andThen [OF ctx_wf_in_ep] keeps_andThen [OF ctx_wf_out_ep] reset callback [where r = Reset]
      | assumption | simp add: in_ep_wf_def out_ep_wf_def)+

lemma flushing: "keeps_inv (ctx_wf reg) (poll_flush cl)"
  unfolding poll_flush_def
  by (rule keeping keeps_for_each keeps_andThen [OF ctx_wf_in_ep] flush callback [where r = Flush]
      | assumption | simp add: in_ep_wf_def)+

text \<open>A packet is for an endpoint of the device.\<close>

lemma receive_one:
  assumes "\<And>h d. unat (bitfield_field32_read (fst (run_state (rd32 B h USBDEV_RXFIFO_REG_OFFSET) d)) USBDEV_RXFIFO_EP_FIELD)
    < USBDEV_NUM_ENDPOINTS"
  shows "keeps_inv (ctx_wf reg) (poll_receive_one B cl)"
proof -
  let ?recv = "\<lambda>dev. dif_usbdev_recv B dev (Some \<lparr>rx_endpoint = 0, rx_length = 0, rx_is_setup = False\<rparr>)
    (Some \<lparr>buf_id = 0, buf_offset = 0, remaining_bytes = 0, buf_type = kDifUsbdevBufferTypeRead\<rparr>)"
  have ep: "unat (ucast (bitfield_field32_read v USBDEV_RXFIFO_EP_FIELD) :: u8) < USBDEV_NUM_ENDPOINTS"
    if "run_state (rd32 B h USBDEV_RXFIFO_REG_OFFSET) d = (v, d')" for h d v d'
    using le_less_trans [OF take_bit_nat_less_eq_self assms [of h d]] that by (simp add: unsigned_ucast_eq)
  have recv: "keeps (ctx_wf reg) (call ?recv) (\<lambda>(r, info, _). r = kDifOk \<longrightarrow> unat (rx_endpoint (the info)) < USBDEV_NUM_ENDPOINTS)"
    unfolding keeps_def
  proof (intro allI impI)
    fix s r s'
    assume "ctx_wf reg s" and run: "call ?recv s = Some (r, s')"
    moreover have "ctx_wf reg s' = ctx_wf reg s" using run by (auto simp: call_def ctx_wf_def split: prod.splits)
    ultimately show "settles (ctx_wf reg) (\<lambda>(r, info, _). r = kDifOk \<longrightarrow> unat (rx_endpoint (the info)) < USBDEV_NUM_ENDPOINTS) r s'"
      by (auto simp: call_def dif_usbdev_recv_def Let_def split: prod.splits if_splits dest: ep)
  qed
  have deliver: "keeps_inv (ctx_wf reg)
    (andThen (out_ep (unat (rx_endpoint (the info)))) (\<lambda>e.
       andThen
         (case rx_callback e of
            Some cb \<Rightarrow> run_rx cl cb (out_ep_ctx e) (the info) (the buffer)
          | None \<Rightarrow> andThen (buffer_return (the buffer)) (\<lambda>(r, _). TRY_DIF (usb_testutils_loc 167) r)) (\<lambda>_.
       pure True)))" if "unat (rx_endpoint (the info)) < USBDEV_NUM_ENDPOINTS" for info buffer
    by (rule keeps_andThen [OF ctx_wf_out_ep [OF that]] keeps_bind keeping rx callback [where r = Rx] | assumption | simp add: out_ep_wf_def)+
  have rest: "keeps_inv (ctx_wf reg) (case x of (r, info, buffer) \<Rightarrow> andThen (TRY_DIF l r) (\<lambda>_. m info buffer))"
    if "case x of (r, info, _) \<Rightarrow> r = kDifOk \<longrightarrow> unat (rx_endpoint (the info)) < USBDEV_NUM_ENDPOINTS"
      "\<And>info buffer. unat (rx_endpoint (the info)) < USBDEV_NUM_ENDPOINTS \<Longrightarrow> keeps_inv (ctx_wf reg) (m info buffer)" for x l m
    using that by (cases x; cases "fst x = kDifOk") (auto simp: TRY_DIF_error keeps_leave)
  show ?thesis
    unfolding poll_receive_one_def
    by (rule keeps_bind, rule ctx_wf_call, rule keeps_case_prod, rule keeps_bind, rule keeps_checks, rule keeps_if,
        rule keeps_pure_unit, rule keeps_andThen [OF recv], erule rest, rule deliver)
qed

lemma received:
  assumes "\<And>h d. unat (bitfield_field32_read (fst (run_state (rd32 B h USBDEV_RXFIFO_REG_OFFSET) d)) USBDEV_RXFIFO_EP_FIELD)
    < USBDEV_NUM_ENDPOINTS"
  shows "keeps_inv (ctx_wf reg) (poll_received B cl)"
proof -
  let ?P = "\<lambda>B' cl' s y. B' = B \<longrightarrow> cl' = cl \<longrightarrow> ctx_wf reg s \<longrightarrow> settles (ctx_wf reg) (\<lambda>_. True) (fst y) (snd y)"
  note one = receive_one [OF assms, unfolded keeps_def, rule_format]
  have step: "?P B' cl' s y" if IH: "\<And>B cl s y. F B cl s = Some y \<Longrightarrow> ?P B cl s y"
    and run: "andThen (poll_receive_one B' cl') (\<lambda>more s. if more then F B' cl' s else pure () s) s = Some y" for F B' cl' s y
  proof (intro impI)
    assume eq: "B' = B" "cl' = cl" and wf: "ctx_wf reg s"
    from run obtain r s1 where r: "poll_receive_one B cl s = Some (r, s1)"
      unfolding eq by (auto simp: andThen_def split: option.splits)
    with one [OF wf r] run show "settles (ctx_wf reg) (\<lambda>_. True) (fst y) (snd y)"
      unfolding eq using IH by (cases r) (auto simp: andThen_def pure_run split: if_splits)
  qed
  have "?P B cl s y" if "poll_received B cl s = Some y" for s y
    by (rule poll_received.raw_induct [where P = ?P, rotated, OF that]) (rule step)
  then show ?thesis unfolding keeps_def by fastforce
qed

lemma poll:
  assumes "\<And>h d. unat (bitfield_field32_read (fst (run_state (rd32 B h USBDEV_RXFIFO_REG_OFFSET) d)) USBDEV_RXFIFO_EP_FIELD)
    < USBDEV_NUM_ENDPOINTS"
  shows "keeps_inv (ctx_wf reg) (usb_testutils_poll B cl)"
  unfolding usb_testutils_poll_def by (intro keeping sent link_reset flushing received assms)

end

subsection \<open>The control endpoint\<close>

lemma ctrl_send_keeps [keeping]: "keeps_inv (ctx_wf reg) (ctrl_send B buffer st)"
  unfolding ctrl_send_def by (intro keeping)

lemma ctrl_reply_keeps [keeping]: "keeps_inv (ctx_wf reg) (ctrl_reply B buffer src len)"
  unfolding ctrl_reply_def by (intro keeping)

lemma setup_req_keeps [keeping]: "keeps_inv (ctx_wf reg) (setup_req B bmRequestType bRequest wValue wIndex wLength)"
  unfolding setup_req_def get_device_descriptor_def get_configuration_descriptor_def set_endpoint_halt_def get_status_def
  by (intro keeping)

lemma set_state_keeps [keeping]: "keeps_inv (ctx_wf reg) (set_ctrlstate st)" "keeps_inv (ctx_wf reg) (set_device_state st')"
  unfolding set_ctrlstate_def set_device_state_def by (intro keeping)+

lemma keeps_case_ctstate [keeping]:
  "keeps I a Q \<Longrightarrow> keeps I b Q \<Longrightarrow> keeps I c Q \<Longrightarrow> keeps I d Q \<Longrightarrow> keeps I e Q \<Longrightarrow> keeps I f Q \<Longrightarrow> keeps I g Q \<Longrightarrow>
   keeps I (case st of kUsbTestutilsCtIdle \<Rightarrow> a | kUsbTestutilsCtWaitIn \<Rightarrow> b | kUsbTestutilsCtStatOut \<Rightarrow> c
     | kUsbTestutilsCtAddrStatIn \<Rightarrow> d | kUsbTestutilsCtCfgStatIn \<Rightarrow> e | kUsbTestutilsCtStatIn \<Rightarrow> f
     | kUsbTestutilsCtError \<Rightarrow> g) Q"
  by (cases st) simp_all

lemma ctrl_rx_stall_keeps [keeping]: "keeps_inv (ctx_wf reg) (ctrl_rx_stall B buffer)"
  unfolding ctrl_rx_stall_def by (intro keeping)

lemma ctrl_callbacks_keep:
  "keeps_inv (ctx_wf reg) (ctrl_tx_done B result)" "keeps_inv (ctx_wf reg) (ctrl_rx B packet_info buffer)"
  "keeps_inv (ctx_wf reg) ctrl_reset"
  unfolding ctrl_tx_done_def ctrl_rx_def ctrl_reset_def by (intro keeping)+

primrec ctrl_role :: "role \<Rightarrow> unit ptr \<Rightarrow> ctrl_handler \<Rightarrow> bool" where
  "ctrl_role Tx_done x f \<longleftrightarrow> x \<noteq> null \<and> f = Ctrl_tx_done"
| "ctrl_role Rx x f \<longleftrightarrow> x \<noteq> null \<and> f = Ctrl_rx"
| "ctrl_role Flush x f \<longleftrightarrow> False"
| "ctrl_role Reset x f \<longleftrightarrow> x \<noteq> null \<and> f = Ctrl_reset"

interpretation ctrl: usb_client "ctrl_clients B" ctrl_role for B
  by unfold_locales (simp_all add: ctrl_clients_def ctrl_callbacks_keep)

lemma controlep_init_keeps:
  assumes "unat ep < USBDEV_NUM_ENDPOINTS"
  shows "keeps_inv (ctx_wf ctrl_role) (usb_testutils_controlep_init B ep dscr dscr_len tdscr tdscr_len)"
  unfolding usb_testutils_controlep_init_def by (intro keeping endpoint_setup_keeps assms) simp_all

subsection \<open>Sequences of calls\<close>

text \<open>The calls that a test with a control endpoint makes to the test stack.\<close>

datatype usb_call =
    Call_init bool bool bool
  | Call_controlep_init u8 "u8 list ptr" u32 "u8 list ptr" u32
  | Call_endpoint_setup u8 usb_testutils_transfer_type usb_testutils_transfer_type usb_testutils_out_transfer_mode
      "unit ptr" "ctrl_handler ptr" "ctrl_handler ptr" "ctrl_handler ptr"
  | Call_endpoint_remove u8
  | Call_transfer_send u8 "u8 list ptr" u32 u32
  | Call_poll
  | Call_fin

primrec usb_call_run :: "'d bus \<Rightarrow> usb_call \<Rightarrow> ('d, unit) ctrl_prog" where
  "usb_call_run B (Call_init pinflip en_diff_rcvr tx_use_d_se0) = usb_testutils_init B pinflip en_diff_rcvr tx_use_d_se0"
| "usb_call_run B (Call_controlep_init ep dscr dscr_len tdscr tdscr_len) =
     usb_testutils_controlep_init B ep dscr dscr_len tdscr tdscr_len"
| "usb_call_run B (Call_endpoint_setup ep in_ty out_ty mode x tx_done rx reset) =
     usb_testutils_endpoint_setup B ep in_ty out_ty mode x tx_done rx null reset"
| "usb_call_run B (Call_endpoint_remove ep) = usb_testutils_endpoint_remove B ep"
| "usb_call_run B (Call_transfer_send ep data len flags) =
     andThen (usb_testutils_transfer_send B ep data len flags) (\<lambda>_. pure ())"
| "usb_call_run B Call_poll = usb_testutils_poll B (ctrl_clients B)"
| "usb_call_run B Call_fin = usb_testutils_fin B"

text \<open>What the callers have to see to: endpoint numbers in range and callbacks of the right kind, with
  a context.
  \<^verbatim>\<open>usb_testutils_transfer_send\<close> checks its endpoint itself.\<close>

primrec usb_call_ok :: "usb_call \<Rightarrow> bool" where
  "usb_call_ok (Call_init a b c) \<longleftrightarrow> True"
| "usb_call_ok (Call_controlep_init ep dscr dscr_len tdscr tdscr_len) \<longleftrightarrow> unat ep < USBDEV_NUM_ENDPOINTS"
| "usb_call_ok (Call_endpoint_setup ep in_ty out_ty mode x tx_done rx reset) \<longleftrightarrow> unat ep < USBDEV_NUM_ENDPOINTS
     \<and> pred_option (ctrl_role Tx_done x) tx_done \<and> pred_option (ctrl_role Rx x) rx \<and> pred_option (ctrl_role Reset x) reset"
| "usb_call_ok (Call_endpoint_remove ep) \<longleftrightarrow> unat ep < USBDEV_NUM_ENDPOINTS"
| "usb_call_ok (Call_transfer_send ep data len flags) \<longleftrightarrow> True"
| "usb_call_ok Call_poll \<longleftrightarrow> True"
| "usb_call_ok Call_fin \<longleftrightarrow> True"

text \<open>C37: The USB test stack stays well-formed and never accesses a table out of range. Callers give
  endpoint numbers below twelve and register the functions of the control endpoint for their roles with
  its context, and the device reports received packets only for endpoints that it has; the code checks
  neither. Then, from a context whose tables have twelve endpoints with such callbacks, any sequence
  of calls (initialisation, the control endpoint, setting up and removing endpoints, transfers, polling with
  all the callbacks of the control endpoint, finalisation) ends in such a context again, whatever else the
  device answers, also when a call fails or a check ends the test. No access to the tables is out of range,
  no callback is called in another role than it was registered for, and none with a null context.\<close>

theorem usb_stack_well_formed:
  assumes device: "\<And>h d. unat (bitfield_field32_read (fst (run_state (rd32 B h USBDEV_RXFIFO_REG_OFFSET) d))
      USBDEV_RXFIFO_EP_FIELD) < USBDEV_NUM_ENDPOINTS"
    and calls: "\<forall>c\<in>set calls. usb_call_ok c" and start: "ctx_wf ctrl_role s"
  shows "case for_each calls (usb_call_run B) s of
      None \<Rightarrow> True
    | Some (r, s') \<Rightarrow> r \<noteq> Inl Undefined \<and> ctx_wf ctrl_role s'"
proof -
  have "keeps_inv (ctx_wf ctrl_role) (usb_call_run B c)" if "usb_call_ok c" for c
    using that
    by (cases c) (simp_all add: init_keeps controlep_init_keeps endpoint_setup_keeps endpoint_remove_keeps fin_keeps
        ctrl.poll [OF device] keeps_bind [OF transfer_send_keeps keeps_pure_unit])
  then have k: "keeps_inv (ctx_wf ctrl_role) (for_each calls (usb_call_run B))"
    using calls by (blast intro: keeps_for_each)
  show ?thesis
  proof (cases "for_each calls (usb_call_run B) s")
    case (Some p)
    then obtain r s' where p: "for_each calls (usb_call_run B) s = Some (r, s')" by (cases p) simp
    then have "settles (ctx_wf ctrl_role) (\<lambda>_. True) r s'" using k start unfolding keeps_def by blast
    with p show ?thesis by (cases r) auto
  qed simp
qed

definition silent_bus :: "unit bus" where
  "silent_bus = \<lparr>bus_read8 = (\<lambda>_ d. (0, d)), bus_read32 = (\<lambda>_ d. (0, d)), bus_write8 = (\<lambda>_ _ d. d), bus_write32 = (\<lambda>_ _ d. d)\<rparr>"

definition idle_sys :: "unit ctrl_sys" where
  "idle_sys = \<lparr>ctx = \<lparr>ctx_dev = \<lparr>base_addr = \<lparr>base = USBDEV_BASE_ADDR\<rparr>\<rparr>, ctx_pool = \<lparr>buffers = replicate 32 0, pool_top = -1\<rparr>,
       flushed = 0, got_frame = False, ctx_frame = 0,
       in_eps = replicate USBDEV_NUM_ENDPOINTS \<lparr>in_ep_type = kUsbTransferTypeControl, in_ep_ctx = null, tx_done_callback = null,
         in_flush = null, in_reset = null, in_transfer = \<lparr>xfer_buffer = null, xfer_length = 0, xfer_offset = 0, xfer_flags = 0,
           xfer_last = False, next_valid = False,
           next_part = \<lparr>buf_id = 0, buf_offset = 0, remaining_bytes = 0, buf_type = kDifUsbdevBufferTypeStale\<rparr>\<rparr>\<rparr>,
       out_eps = replicate USBDEV_NUM_ENDPOINTS \<lparr>out_ep_type = kUsbTransferTypeControl, out_ep_ctx = null, rx_callback = null,
         out_reset = null\<rparr>\<rparr>,
     client_mem = \<lparr>ctrl_ep = 0, ctrlstate = kUsbTestutilsCtIdle, device_state = kUsbTestutilsDeviceAttached, new_dev = 0,
       new_config = 0, usb_config = 0, cfg_dscr = null, cfg_dscr_len = 0, test_dscr = null, test_dscr_len = 0\<rparr>,
     usb_device = ()\<rparr>"

lemma usb_stack_well_formed_witness:
  "case for_each [Call_init False True False, Call_controlep_init 0 (Some [9, 2]) 2 null 0, Call_poll,
      Call_transfer_send 1 (Some [1, 2, 3]) 3 0, Call_fin] (usb_call_run silent_bus) idle_sys of
      None \<Rightarrow> True
    | Some (r, s') \<Rightarrow> r \<noteq> Inl Undefined \<and> ctx_wf ctrl_role s'"
proof (rule usb_stack_well_formed)
  show "unat (bitfield_field32_read (fst (run_state (rd32 silent_bus h USBDEV_RXFIFO_REG_OFFSET) d)) USBDEV_RXFIFO_EP_FIELD)
      < USBDEV_NUM_ENDPOINTS" for h d
    by (simp add: silent_bus_def mmio_region_read32_def USBDEV_NUM_ENDPOINTS_def bitfield_field32_read_def)
  show "ctx_wf ctrl_role idle_sys"
    by (simp add: ctx_wf_def idle_sys_def in_ep_wf_def out_ep_wf_def)
qed (simp add: USBDEV_NUM_ENDPOINTS_def)

end
