(* ===== verification/UsbStreams.thy ===== *)
theory UsbStreams
  imports UsbTestutils
begin

section \<open>The USB stream checker\<close>

text \<open>
  \<^verbatim>\<open>sw/device/lib/testing/usb_testutils_streams.c\<close>: concurrent streams of pseudo-random bytes to and from
  the host, which both sides generate and check independently. Its two callbacks are called with a
  pointer to an element of \<^verbatim>\<open>ctx->cb\<close>; the opaque pointer of a stream is its number, and both pointers of
  the element are implied by it. The context of the test stack that the C code reaches as
  \<^verbatim>\<open>ctx->usbdev\<close> is the one on which the programs run.

  \<^verbatim>\<open>read_method\<close> and \<^verbatim>\<open>write_method\<close> are the standard ones and \<^verbatim>\<open>log_traffic\<close> is off, as the constants of the
  file say; log messages are left out, with the count of sent buffers that one of them prints.
  Arrays on the stack that the code does not initialise hold the bytes \<open>junk\<close>.
\<close>

definition USBUTILS_STREAMS_MAX :: nat where "USBUTILS_STREAMS_MAX = USBDEV_NUM_ENDPOINTS - 1"
definition USBUTILS_STREAMS_TXBUF_MAX :: nat where "USBUTILS_STREAMS_TXBUF_MAX = 24"
definition USBDEV_STREAM_SIGNATURE_HEAD :: u32 where "USBDEV_STREAM_SIGNATURE_HEAD = 0x579EA01A"
definition USBDEV_STREAM_SIGNATURE_TAIL :: u32 where "USBDEV_STREAM_SIGNATURE_TAIL = 0x160AE975"
definition USBTST_LFSR_SEED :: "u8 \<Rightarrow> u8" where "USBTST_LFSR_SEED s = 0x10 + s * 7"
definition USBDPI_LFSR_SEED :: "u8 \<Rightarrow> u8" where "USBDPI_LFSR_SEED s = 0x9B - s * 7"
definition BUFSZ_LFSR_SEED :: "u8 \<Rightarrow> u8" where "BUFSZ_LFSR_SEED s = 0x17 + s * 7"

definition LFSR_ADVANCE :: "u8 \<Rightarrow> u8" where
  "LFSR_ADVANCE lfsr = push_bit 1 lfsr
     XOR ((drop_bit 1 lfsr XOR drop_bit 2 lfsr XOR drop_bit 3 lfsr XOR drop_bit 7 lfsr) AND 1)"

definition kUsbdevStreamFlagRetrieve :: u32 where "kUsbdevStreamFlagRetrieve = 0x10"
definition kUsbdevStreamFlagCheck :: u32 where "kUsbdevStreamFlagCheck = 0x20"
definition kUsbdevStreamFlagMaxPackets :: u32 where "kUsbdevStreamFlagMaxPackets = 0x100"

record usbdev_stream_sig =
  head_sig :: u32
  init_lfsr :: u8
  sig_stream :: u8
  seq_lo :: u8
  seq_hi :: u8
  sig_num_bytes :: u32
  tail_sig :: u32

record usbdev_stream_tx =
  sig_required :: bool
  tx_seq :: u16
  tx_lfsr :: u8
  tx_bytes :: u32
  buf_size :: u8

record usbdev_stream =
  stream_id :: u8
  xfr_type :: usb_testutils_transfer_type
  tx_ep :: u8
  stream_tx :: usbdev_stream_tx
  tx_cmt :: usbdev_stream_tx
  rx_ep :: u8
  rx_seq :: u16
  rx_lfsr :: u8
  rxtx_lfsr :: u8
  rx_bytes :: u32
  rx_buf_size :: u8
  transfer_bytes :: u32
  stream_flags :: u32
  stream_sending :: bool
  stream_generating :: bool
  stream_verbose :: bool

record stream_tx_buf =
  queued_buf :: dif_usbdev_buffer
  queued_tx :: usbdev_stream_tx

record usb_testutils_streams_ctx =
  nstreams :: u8
  stream_table :: "usbdev_stream list"
  tx_bufs_limit :: "u8 list"
  tx_bufs_queued :: "u8 list"
  tx_queued_total :: u8
  tx_bufs :: "stream_tx_buf list list"

datatype stream_handler = Strm_tx_done | Strm_rx

type_synonym 'd stream_sys = "(nat, stream_handler, usb_testutils_streams_ctx, 'd) usb_sys"
type_synonym ('d, 'a) stream_prog = "('d stream_sys, 'a) prog"

definition streams_loc :: "u32 \<Rightarrow> code_location" where
  "streams_loc line = \<lparr>loc_module = make_module_id (chr CHR ''u'') (chr CHR ''t'') (chr CHR ''s''),
     loc_file = str ''sw/device/lib/testing/usb_testutils_streams.c'', loc_line = line\<rparr>"

text \<open>The stream \<^verbatim>\<open>ctx->streams[id]\<close>, and the arrays that are indexed by endpoint.\<close>

definition get_stream :: "nat \<Rightarrow> ('d, usbdev_stream) stream_prog" where
  "get_stream sid = andThen (look client_mem) (\<lambda>c. at_index (stream_table c) sid)"

definition set_stream :: "nat \<Rightarrow> usbdev_stream \<Rightarrow> ('d, unit) stream_prog" where
  "set_stream sid s = andThen (get_stream sid) (\<lambda>_.
     change (client_mem_update (stream_table_update (\<lambda>xs. xs[sid := s]))))"

definition set_queued :: "u8 \<Rightarrow> u8 \<Rightarrow> ('d, unit) stream_prog" where
  "set_queued ep n = andThen (look client_mem) (\<lambda>c. andThen (at_index (tx_bufs_queued c) (unat ep)) (\<lambda>_.
     change (client_mem_update (tx_bufs_queued_update (\<lambda>xs. xs[unat ep := n])))))"

definition set_limit :: "u8 \<Rightarrow> u8 \<Rightarrow> ('d, unit) stream_prog" where
  "set_limit ep n = andThen (look client_mem) (\<lambda>c. andThen (at_index (tx_bufs_limit c) (unat ep)) (\<lambda>_.
     change (client_mem_update (tx_bufs_limit_update (\<lambda>xs. xs[unat ep := n])))))"

definition get_tx_buf :: "u8 \<Rightarrow> nat \<Rightarrow> ('d, stream_tx_buf) stream_prog" where
  "get_tx_buf ep i = andThen (look client_mem) (\<lambda>c. andThen (at_index (tx_bufs c) (unat ep)) (\<lambda>row. at_index row i))"

definition set_tx_buf :: "u8 \<Rightarrow> nat \<Rightarrow> stream_tx_buf \<Rightarrow> ('d, unit) stream_prog" where
  "set_tx_buf ep i b = andThen (get_tx_buf ep i) (\<lambda>_.
     change (client_mem_update (tx_bufs_update (\<lambda>rows. rows[unat ep := (rows ! unat ep)[i := b]]))))"

subsection \<open>Packets\<close>

text \<open>The length of the next packet and the new state of the generator of lengths.\<close>

definition packet_length :: "usbdev_stream \<Rightarrow> u32 \<Rightarrow> u8 \<Rightarrow> u8 \<times> u8" where
  "packet_length s bytes_done bufsz_lfsr =
     (let bytes_left = (of_nat USBDEV_MAX_PACKET_SIZE :: u8);
          bytes_left = (if xfr_type s \<noteq> kUsbTransferTypeIsochronous \<and> bytes_done < transfer_bytes s
              \<and> transfer_bytes s - bytes_done < ucast bytes_left
            then ucast (transfer_bytes s - bytes_done) else bytes_left)
      in
      if stream_flags s AND kUsbdevStreamFlagMaxPackets \<noteq> 0 then (bytes_left, bufsz_lfsr)
      else
        let num_bytes = (if sig_required (stream_tx s) then
              let sig_bytes = (16 :: u32) in
              (if xfr_type s = kUsbTransferTypeIsochronous then
                let max_bytes = of_nat USBDEV_MAX_PACKET_SIZE - sig_bytes
                in sig_bytes + (ucast bufsz_lfsr mod (max_bytes + 1))
              else sig_bytes)
            else ucast bufsz_lfsr mod (ucast bytes_left + 1))
        in (ucast num_bytes, LFSR_ADVANCE bufsz_lfsr))"

text \<open>The signature as it is in memory.\<close>

definition sig_image :: "usbdev_stream_sig \<Rightarrow> u8 list" where
  "sig_image sig = word_bytes (head_sig sig) @ [init_lfsr sig, sig_stream sig, seq_lo sig, seq_hi sig]
     @ word_bytes (sig_num_bytes sig) @ word_bytes (tail_sig sig)"

definition sig_of_image :: "u8 list \<Rightarrow> usbdev_stream_sig" where
  "sig_of_image bs = \<lparr>head_sig = bytes_word bs, init_lfsr = bs ! 4, sig_stream = bs ! 5, seq_lo = bs ! 6,
     seq_hi = bs ! 7, sig_num_bytes = bytes_word (drop 8 bs), tail_sig = bytes_word (drop 12 bs)\<rparr>"

definition buffer_sig_create :: "'d bus \<Rightarrow> usbdev_stream \<Rightarrow> dif_usbdev_buffer
    \<Rightarrow> ('d, u8 \<times> usbdev_stream \<times> dif_usbdev_buffer) stream_prog" where
  "buffer_sig_create B s buf =
     (if transfer_bytes s = 0 then leave Undefined
      else
        let tx = stream_tx s;
            tx_left = transfer_bytes s - (tx_bytes tx mod transfer_bytes s);
            sig = \<lparr>head_sig = USBDEV_STREAM_SIGNATURE_HEAD, init_lfsr = tx_lfsr tx,
              sig_stream = stream_id s OR ucast (stream_flags s), seq_lo = ucast (tx_seq tx),
              seq_hi = ucast (drop_bit 8 (tx_seq tx)), sig_num_bytes = tx_left,
              tail_sig = USBDEV_STREAM_SIGNATURE_TAIL\<rparr>;
            s = s\<lparr>stream_tx := tx\<lparr>tx_seq := tx_seq tx + 1\<rparr>\<rparr>
        in
        andThen (call (\<lambda>dev. dif_usbdev_buffer_write B dev (Some buf) (Some (sig_image sig)) 16 (Some 0)))
          (\<lambda>(r, buf, bytes_written).
        andThen (CHECK_DIF_OK r) (\<lambda>_.
        andThen (CHECK (the bytes_written = 16)) (\<lambda>_.
        pure (ucast (the bytes_written), s, the buf)))))"

lemma next_seq_closer:
  assumes "cur < (seq :: u16)"
  shows "unat seq - unat (cur + 1) < unat seq - unat cur"
proof -
  have lt: "unat cur < unat seq" using assms by (simp add: word_less_nat_alt)
  moreover have "unat seq < 2 ^ 16" using unat_less_2p [of seq] by simp
  ultimately have "unat (cur + 1) = unat cur + 1" by (subst unat_add_lem [THEN iffD1]) simp_all
  with lt show ?thesis by simp
qed

text \<open>The packets that are missing before the one with the sequence number \<open>seq\<close>. A length below that
  of the signature wraps around.\<close>

function skip_missing :: "u16 \<Rightarrow> usbdev_stream \<Rightarrow> u16 \<Rightarrow> u8 \<Rightarrow> usbdev_stream \<times> u16 \<times> u8" where
  "skip_missing seq s cur lfsr =
     (if cur < seq then
        let (len, size_lfsr) = packet_length s (rx_bytes s) (rx_buf_size s)
        in skip_missing seq (s\<lparr>rx_buf_size := size_lfsr\<rparr>) (cur + 1) ((LFSR_ADVANCE ^^ unat (len - 16)) lfsr)
      else (s, cur, lfsr))"
  by pat_completeness auto
termination
  by (relation "measure (\<lambda>(seq, _, cur, _). unat seq - unat cur)") (simp_all add: next_seq_closer)

declare skip_missing.simps [simp del]

definition buffer_sig_check :: "usbdev_stream \<Rightarrow> usbdev_stream_sig \<Rightarrow> u8 \<Rightarrow> bool \<times> usbdev_stream" where
  "buffer_sig_check s sig len =
     (if head_sig sig \<noteq> USBDEV_STREAM_SIGNATURE_HEAD \<or> tail_sig sig \<noteq> USBDEV_STREAM_SIGNATURE_TAIL
        \<or> sig_stream sig AND 0xF \<noteq> stream_id s then (False, s)
      else
        let seq = push_bit 8 (ucast (seq_hi sig)) OR ucast (seq_lo sig) in
        if seq < rx_seq s then (False, s)
        else
          let skipped = rx_seq s < seq;
              (s', rx_seq', rxtx_lfsr') = skip_missing seq s (rx_seq s) (rxtx_lfsr s);
              rx_lfsr' = (if skipped then init_lfsr sig else rx_lfsr s)
          in
          if rx_lfsr' \<noteq> init_lfsr sig then (False, s')
          else
            let (exp_len, lfsr) = packet_length s' (rx_bytes s') (rx_buf_size s');
                s' = s'\<lparr>rx_buf_size := lfsr\<rparr>
            in
            if len \<noteq> exp_len then (False, s')
            else (True, s'\<lparr>rx_seq := rx_seq' + 1, rxtx_lfsr := rxtx_lfsr', rx_lfsr := rx_lfsr'\<rparr>))"

primrec lfsr_stream :: "nat \<Rightarrow> u8 \<Rightarrow> u8 list" where
  "lfsr_stream 0 lfsr = []"
| "lfsr_stream (Suc n) lfsr = lfsr # lfsr_stream n (LFSR_ADVANCE lfsr)"

definition buffer_fill :: "'d bus \<Rightarrow> u8 list \<Rightarrow> usbdev_stream \<Rightarrow> dif_usbdev_buffer \<Rightarrow> u8
    \<Rightarrow> ('d, usbdev_stream \<times> dif_usbdev_buffer) stream_prog" where
  "buffer_fill B junk s buf num_bytes =
     andThen (CHECK (num_bytes \<le> remaining_bytes buf)) (\<lambda>_.
     andThen (CHECK (unat num_bytes \<le> USBDEV_MAX_PACKET_SIZE)) (\<lambda>_.
     let n = unat num_bytes;
         tx = stream_tx s;
         data = (if stream_generating s then put_bytes junk 0 (lfsr_stream n (tx_lfsr tx)) else junk);
         tx = (if stream_generating s then tx\<lparr>tx_lfsr := (LFSR_ADVANCE ^^ n) (tx_lfsr tx)\<rparr> else tx)
     in
     andThen (call (\<lambda>dev. dif_usbdev_buffer_write B dev (Some buf) (Some data) (ucast num_bytes) (Some 0)))
       (\<lambda>(r, buf, bytes_written).
     andThen (CHECK_DIF_OK r) (\<lambda>_.
     andThen (CHECK (the bytes_written = ucast num_bytes)) (\<lambda>_.
     pure (s\<lparr>stream_tx := tx\<lparr>tx_bytes := tx_bytes tx + the bytes_written\<rparr>\<rparr>, the buf))))))"

primrec check_bytes :: "u8 list \<Rightarrow> u8 \<Rightarrow> u8 \<Rightarrow> ('d, u8 \<times> u8) stream_prog" where
  "check_bytes [] l m = pure (l, m)"
| "check_bytes (b # bs) l m =
     andThen (CHECK (l XOR m = b)) (\<lambda>_.
     check_bytes bs (LFSR_ADVANCE l) (LFSR_ADVANCE m))"

text \<open>The bytes from \<open>offset\<close> on, in the three kinds of streams that carry data.\<close>

definition check_stream :: "usbdev_stream \<Rightarrow> u8 list \<Rightarrow> nat \<Rightarrow> ('d, usbdev_stream) stream_prog" where
  "check_stream s bytes offset =
     andThen (check_bytes (drop offset bytes) (rxtx_lfsr s) (rx_lfsr s)) (\<lambda>(rxtx_lfsr', rx_lfsr').
     pure (s\<lparr>rxtx_lfsr := rxtx_lfsr', rx_lfsr := rx_lfsr', rx_bytes := rx_bytes s + (of_nat (length bytes) - of_nat offset)\<rparr>))"

definition buffer_check :: "'d bus \<Rightarrow> u8 list \<Rightarrow> nat \<Rightarrow> dif_usbdev_rx_packet_info \<Rightarrow> dif_usbdev_buffer
    \<Rightarrow> ('d, unit) stream_prog" where
  "buffer_check B junk sid packet_info buf =
     andThen (get_stream sid) (\<lambda>s.
     let len = rx_length packet_info in
     if len > 0 then
       andThen (CHECK (unat len \<le> USBDEV_MAX_PACKET_SIZE)) (\<lambda>_.
       andThen (pool_call (\<lambda>dev pool. do {
           (r, pool, buf, data, n) \<leftarrow> dif_usbdev_buffer_read B dev pool (Some buf) (Some junk) (ucast len) (Some 0);
           ret ((r, the data, the n), pool)
         })) (\<lambda>(r, data, bytes_read).
       andThen (CHECK_DIF_OK r) (\<lambda>_.
       andThen (CHECK (bytes_read = ucast len)) (\<lambda>_.
       let bytes = take (unat bytes_read) data in
       andThen
         (case xfr_type s of
            kUsbTransferTypeIsochronous \<Rightarrow>
              let (ok, s) = buffer_sig_check s (sig_of_image data) len in
              andThen (CHECK ok) (\<lambda>_. check_stream s bytes 16)
          | kUsbTransferTypeControl \<Rightarrow> pure s
          | _ \<Rightarrow> check_stream s bytes 0) (\<lambda>s.
       set_stream sid s)))))
     else
       andThen (buffer_return buf) (\<lambda>(r, _). CHECK_DIF_OK r))"

subsection \<open>The callbacks\<close>

text \<open>The queue of an endpoint moves up by one.\<close>

definition shuffle :: "nat \<Rightarrow> 'a list \<Rightarrow> 'a list" where
  "shuffle n row = fold (\<lambda>idx row. row[idx - 1 := row ! idx]) [1..<n] row"

definition strm_tx_done :: "'d bus \<Rightarrow> nat \<Rightarrow> ('d, unit) stream_prog" where
  "strm_tx_done B sid =
     andThen (get_stream sid) (\<lambda>s.
     andThen (look client_mem) (\<lambda>c.
     let ep = tx_ep s in
     andThen (at_index (tx_bufs_queued c) (unat ep)) (\<lambda>nqueued.
     andThen (TRY_CHECK (streams_loc 393) (nqueued > 0)) (\<lambda>_.
     andThen (get_tx_buf ep 0) (\<lambda>b.
     andThen (set_stream sid (s\<lparr>tx_cmt := queued_tx b\<rparr>)) (\<lambda>_.
     andThen (unless (nqueued < 2) (andThen (get_tx_buf ep (unat nqueued - 1)) (\<lambda>_. pure ()))) (\<lambda>_.
     andThen (change (client_mem_update (tx_bufs_update (\<lambda>rows. rows[unat ep := shuffle (unat nqueued) (rows ! unat ep)])))) (\<lambda>_.
     andThen (change (client_mem_update (tx_queued_total_update (\<lambda>n. n - 1)))) (\<lambda>_.
     andThen (set_queued ep (nqueued - 1)) (\<lambda>_.
     if nqueued - 1 \<noteq> 0 then
       andThen (get_tx_buf ep 0) (\<lambda>b.
       andThen (call (\<lambda>dev. dif_usbdev_send B dev ep (Some (queued_buf b)))) (\<lambda>(r, buf).
       andThen (set_tx_buf ep 0 (b\<lparr>queued_buf := the buf\<rparr>)) (\<lambda>_.
       TRY_DIF (streams_loc 414) r)))
     else pure ()))))))))))"

definition strm_rx :: "'d bus \<Rightarrow> u8 list \<Rightarrow> nat \<Rightarrow> dif_usbdev_rx_packet_info \<Rightarrow> dif_usbdev_buffer \<Rightarrow> ('d, unit) stream_prog" where
  "strm_rx B junk sid packet_info buf =
     andThen (get_stream sid) (\<lambda>s.
     andThen (TRY_CHECK (streams_loc 429) (rx_endpoint packet_info = rx_ep s)) (\<lambda>_.
     andThen (TRY_CHECK (streams_loc 432) (\<not> rx_is_setup packet_info)) (\<lambda>_.
     if stream_sending s \<and> stream_generating s then buffer_check B junk sid packet_info buf
     else
       andThen
         (if rx_length packet_info > 0 then
            andThen (pool_call (\<lambda>dev pool. do {
                (r, pool, buf, data, n) \<leftarrow>
                  dif_usbdev_buffer_read B dev pool (Some buf) (Some junk) (ucast (rx_length packet_info)) (Some 0);
                ret (r, pool)
              })) (\<lambda>r. TRY_DIF (streams_loc 459) r)
          else andThen (buffer_return buf) (\<lambda>(r, _). TRY_DIF (streams_loc 465) r)) (\<lambda>_.
       set_stream sid (s\<lparr>rx_bytes := rx_bytes s + ucast (rx_length packet_info)\<rparr>)))))"

definition strm_clients :: "'d bus \<Rightarrow> u8 list \<Rightarrow> (nat, stream_handler, usb_testutils_streams_ctx, 'd) usb_clients" where
  "strm_clients B junk = \<lparr>
     run_tx_done = (\<lambda>f x result. case (f, x) of (Strm_tx_done, Some sid) \<Rightarrow> strm_tx_done B sid | _ \<Rightarrow> leave Undefined),
     run_rx = (\<lambda>f x packet_info buffer. case (f, x) of
       (Strm_rx, Some sid) \<Rightarrow> strm_rx B junk sid packet_info buffer | _ \<Rightarrow> leave Undefined),
     run_flush = (\<lambda>f _. leave Undefined),
     run_reset = (\<lambda>f _. leave Undefined)\<rparr>"

subsection \<open>Setting up and serving the streams\<close>

definition usb_testutils_streams_count_set :: "u32 \<Rightarrow> ('d, bool) stream_prog" where
  "usb_testutils_streams_count_set n =
     (if n > of_nat USBUTILS_STREAMS_MAX then pure False
      else
        andThen (for_each [0..<unat n] (\<lambda>i.
          andThen (get_stream i) (\<lambda>s.
          andThen (set_queued (tx_ep s) 0) (\<lambda>_.
          set_limit (tx_ep s) (ucast ((of_nat USBUTILS_STREAMS_TXBUF_MAX + n - 1) div n)))))) (\<lambda>_.
        andThen (change (client_mem_update (\<lambda>c. c\<lparr>tx_queued_total := 0, nstreams := ucast n\<rparr>))) (\<lambda>_.
        pure True)))"

definition usb_testutils_stream_completed :: "nat \<Rightarrow> ('d, bool) stream_prog" where
  "usb_testutils_stream_completed sid =
     andThen (get_stream sid) (\<lambda>s.
     pure (tx_bytes (stream_tx s) \<ge> transfer_bytes s \<and> rx_bytes s \<ge> transfer_bytes s))"

definition stream_start :: "u8 \<Rightarrow> usb_testutils_transfer_type \<Rightarrow> u8 \<Rightarrow> u8 \<Rightarrow> u32 \<Rightarrow> u32 \<Rightarrow> bool \<Rightarrow> usbdev_stream" where
  "stream_start sid ty ep_in ep_out nbytes flags verbose =
     (let tx = \<lparr>sig_required = True, tx_seq = 0, tx_lfsr = USBTST_LFSR_SEED sid, tx_bytes = 0,
        buf_size = BUFSZ_LFSR_SEED sid\<rparr>
      in \<lparr>stream_id = sid, xfr_type = ty, tx_ep = ep_in, stream_tx = tx, tx_cmt = tx, rx_ep = ep_out, rx_seq = tx_seq tx,
        rx_lfsr = USBDPI_LFSR_SEED sid, rxtx_lfsr = tx_lfsr tx, rx_bytes = 0, rx_buf_size = buf_size tx,
        transfer_bytes = nbytes, stream_flags = flags,
        stream_sending = (flags AND kUsbdevStreamFlagRetrieve \<noteq> 0),
        stream_generating = (flags AND kUsbdevStreamFlagCheck \<noteq> 0), stream_verbose = verbose\<rparr>)"

definition usb_testutils_stream_init :: "'d bus \<Rightarrow> u8 \<Rightarrow> usb_testutils_transfer_type \<Rightarrow> u8 \<Rightarrow> u8 \<Rightarrow> u32 \<Rightarrow> u32 \<Rightarrow> bool
    \<Rightarrow> ('d, unit) stream_prog" where
  "usb_testutils_stream_init B sid ty ep_in ep_out nbytes flags verbose =
     andThen (TRY_CHECK (streams_loc 520) (unat sid < USBUTILS_STREAMS_MAX)) (\<lambda>_.
     andThen (set_stream (unat sid) (stream_start sid ty ep_in ep_out nbytes flags verbose)) (\<lambda>_.
     andThen (UNWRAP (usb_testutils_in_endpoint_setup B ep_in ty (Some (unat sid)) (Some Strm_tx_done) null null)) (\<lambda>_.
     UNWRAP (usb_testutils_out_endpoint_setup B ep_out ty kUsbdevOutStream (Some (unat sid)) (Some Strm_rx) null))))"

text \<open>The packet that the next call puts into the buffer.\<close>

definition stream_packet :: "'d bus \<Rightarrow> u8 list \<Rightarrow> usbdev_stream \<Rightarrow> dif_usbdev_buffer
    \<Rightarrow> ('d, usbdev_stream \<times> dif_usbdev_buffer) stream_prog" where
  "stream_packet B junk s buf =
     (let (num_bytes, lfsr) = packet_length s (tx_bytes (stream_tx s)) (buf_size (stream_tx s));
          s = s\<lparr>stream_tx := (stream_tx s)\<lparr>buf_size := lfsr\<rparr>\<rparr>
      in
      andThen
        (if sig_required (stream_tx s) then
           andThen (buffer_sig_create B s buf) (\<lambda>(bytes_added, s, buf).
           let s = (if \<not> stream_sending s then s\<lparr>stream_tx := (stream_tx s)\<lparr>tx_bytes := transfer_bytes s\<rparr>\<rparr> else s);
               s = (if \<not> stream_sending s \<or> xfr_type s \<noteq> kUsbTransferTypeIsochronous
                 then s\<lparr>stream_tx := (stream_tx s)\<lparr>sig_required := False\<rparr>\<rparr> else s)
           in pure (bytes_added, s, buf))
         else pure (0, s, buf)) (\<lambda>(bytes_added, s, buf).
      if bytes_added < num_bytes then buffer_fill B junk s buf (num_bytes - bytes_added)
      else pure (s, buf)))"

definition usb_testutils_stream_service :: "'d bus \<Rightarrow> u8 list \<Rightarrow> u8 \<Rightarrow> ('d, unit) stream_prog" where
  "usb_testutils_stream_service B junk sid =
     andThen (TRY_CHECK (streams_loc 591) (unat sid < USBUTILS_STREAMS_MAX)) (\<lambda>_.
     andThen (get_stream (unat sid)) (\<lambda>s.
     andThen (look client_mem) (\<lambda>c.
     let ep = tx_ep s;
         tx_more = (xfr_type s = kUsbTransferTypeIsochronous \<or> tx_bytes (stream_tx s) < transfer_bytes s)
     in
     andThen (at_index (tx_bufs_queued c) (unat ep)) (\<lambda>nqueued.
     andThen (at_index (tx_bufs_limit c) (unat ep)) (\<lambda>limit.
     if tx_more \<and> nqueued < limit \<and> unat (tx_queued_total c) < USBUTILS_STREAMS_TXBUF_MAX then
       andThen (buffer_request \<lparr>buf_id = 0, buf_offset = 0, remaining_bytes = 0, buf_type = kDifUsbdevBufferTypeRead\<rparr>)
         (\<lambda>(r, buf).
       if r = kDifOk then
         andThen (stream_packet B junk s buf) (\<lambda>(s, buf).
         andThen (set_stream (unat sid) s) (\<lambda>_.
         andThen (set_tx_buf ep (unat nqueued) \<lparr>queued_buf = buf, queued_tx = stream_tx s\<rparr>) (\<lambda>_.
         andThen (set_queued ep (nqueued + 1)) (\<lambda>_.
         andThen (change (client_mem_update (tx_queued_total_update (\<lambda>n. n + 1)))) (\<lambda>_.
         if nqueued + 1 \<le> 1 then
           andThen (call (\<lambda>dev. dif_usbdev_send B dev ep (Some buf))) (\<lambda>(r, _).
           TRY_DIF (streams_loc 659) r)
         else pure ())))))
       else CHECK (r = kDifUnavailable))
     else pure ())))))"

definition usb_testutils_streams_init :: "'d bus \<Rightarrow> u32 \<Rightarrow> usb_testutils_transfer_type list \<Rightarrow> u32 \<Rightarrow> u32 \<Rightarrow> bool
    \<Rightarrow> ('d, unit) stream_prog" where
  "usb_testutils_streams_init B n xfr_types num_bytes flags verbose =
     andThen (TRY_CHECK (streams_loc 681) (n \<le> of_nat USBUTILS_STREAMS_MAX)) (\<lambda>_.
     andThen (TRY_CHECK (streams_loc 682) (n \<le> 255)) (\<lambda>_.
     andThen (for_each [0..<unat n] (\<lambda>sid.
       andThen (at_index xfr_types sid) (\<lambda>ty.
       usb_testutils_stream_init B (of_nat sid) ty (of_nat sid + 1) (of_nat sid + 1) num_bytes flags verbose))) (\<lambda>_.
     andThen (usb_testutils_streams_count_set n) (\<lambda>ok.
     TRY_CHECK (streams_loc 695) ok))))"

definition usb_testutils_streams_service :: "'d bus \<Rightarrow> u8 list \<Rightarrow> ('d, unit) stream_prog" where
  "usb_testutils_streams_service B junk =
     andThen (look (\<lambda>s. nstreams (client_mem s))) (\<lambda>n.
     for_each [0..<unat n] (\<lambda>sid.
       andThen (usb_testutils_stream_service B junk (of_nat sid)) (\<lambda>_.
       UNWRAP (usb_testutils_poll B (strm_clients B junk)))))"

definition usb_testutils_stream_status :: "u8 \<Rightarrow> u32 ptr \<Rightarrow> u32 ptr \<Rightarrow> u32 ptr
    \<Rightarrow> ('d, u32 ptr \<times> u32 ptr \<times> u32 ptr) stream_prog" where
  "usb_testutils_stream_status sid num_bytes tx_bytes_p rx_bytes_p =
     andThen (look client_mem) (\<lambda>c.
     if sid \<ge> nstreams c then return_error (streams_loc 795) kInvalidArgument
     else
       andThen (get_stream (unat sid)) (\<lambda>s.
       pure (map_option (\<lambda>_. transfer_bytes s) num_bytes, map_option (\<lambda>_. tx_bytes (stream_tx s)) tx_bytes_p,
         map_option (\<lambda>_. rx_bytes s) rx_bytes_p)))"

primrec all_completed :: "nat list \<Rightarrow> ('d, bool) stream_prog" where
  "all_completed [] = pure True"
| "all_completed (sid # ids) = andThen (usb_testutils_stream_completed sid) (\<lambda>c. if \<not> c then pure False else all_completed ids)"

definition usb_testutils_streams_completed :: "('d, bool) stream_prog" where
  "usb_testutils_streams_completed =
     andThen (look (\<lambda>s. nstreams (client_mem s))) (\<lambda>n. all_completed [0..<unat n])"

subsection \<open>Suspending and resuming\<close>

text \<open>A stream as it is in memory, with the layout of the 32-bit ABI; padding is zero here. Only
  images of streams are ever read back.\<close>

definition bool_byte :: "bool \<Rightarrow> u8" where
  "bool_byte b = (if b then 1 else 0)"

definition half_bytes :: "u16 \<Rightarrow> u8 list" where
  "half_bytes w = [ucast w, ucast (drop_bit 8 w)]"

definition bytes_half :: "u8 list \<Rightarrow> u16" where
  "bytes_half bs = push_bit 8 (ucast (bs ! 1)) OR ucast (bs ! 0)"

primrec transfer_type_value :: "usb_testutils_transfer_type \<Rightarrow> u32" where
  "transfer_type_value kUsbTransferTypeControl = 0"
| "transfer_type_value kUsbTransferTypeIsochronous = 1"
| "transfer_type_value kUsbTransferTypeBulk = 2"
| "transfer_type_value kUsbTransferTypeInterrupt = 3"

definition transfer_type_of_value :: "u32 \<Rightarrow> usb_testutils_transfer_type" where
  "transfer_type_of_value v = (if v = 0 then kUsbTransferTypeControl else if v = 1 then kUsbTransferTypeIsochronous
     else if v = 2 then kUsbTransferTypeBulk else kUsbTransferTypeInterrupt)"

definition tx_image :: "usbdev_stream_tx \<Rightarrow> u8 list" where
  "tx_image tx = [bool_byte (sig_required tx), 0] @ half_bytes (tx_seq tx) @ [tx_lfsr tx, 0, 0, 0]
     @ word_bytes (tx_bytes tx) @ [buf_size tx, 0, 0, 0]"

definition tx_of_image :: "u8 list \<Rightarrow> usbdev_stream_tx" where
  "tx_of_image bs = \<lparr>sig_required = (bs ! 0 \<noteq> 0), tx_seq = bytes_half (drop 2 bs), tx_lfsr = bs ! 4,
     tx_bytes = bytes_word (drop 8 bs), buf_size = bs ! 12\<rparr>"

definition stream_image :: "usbdev_stream \<Rightarrow> u8 list" where
  "stream_image s = [stream_id s, 0, 0, 0] @ word_bytes (transfer_type_value (xfr_type s)) @ [tx_ep s, 0, 0, 0]
     @ tx_image (stream_tx s) @ tx_image (tx_cmt s) @ [rx_ep s, 0] @ half_bytes (rx_seq s)
     @ [rx_lfsr s, rxtx_lfsr s, 0, 0] @ word_bytes (rx_bytes s) @ [rx_buf_size s, 0, 0, 0]
     @ word_bytes (transfer_bytes s) @ word_bytes (stream_flags s)
     @ [bool_byte (stream_sending s), bool_byte (stream_generating s), bool_byte (stream_verbose s), 0]"

definition stream_of_image :: "u8 list \<Rightarrow> usbdev_stream" where
  "stream_of_image bs = \<lparr>stream_id = bs ! 0, xfr_type = transfer_type_of_value (bytes_word (drop 4 bs)), tx_ep = bs ! 8,
     stream_tx = tx_of_image (drop 12 bs), tx_cmt = tx_of_image (drop 28 bs), rx_ep = bs ! 44,
     rx_seq = bytes_half (drop 46 bs), rx_lfsr = bs ! 48, rxtx_lfsr = bs ! 49, rx_bytes = bytes_word (drop 52 bs),
     rx_buf_size = bs ! 56, transfer_bytes = bytes_word (drop 60 bs), stream_flags = bytes_word (drop 64 bs),
     stream_sending = (bs ! 68 \<noteq> 0), stream_generating = (bs ! 69 \<noteq> 0), stream_verbose = (bs ! 70 \<noteq> 0)\<rparr>"

definition stream_sizeof :: nat where "stream_sizeof = 72"

primrec save_streams :: "nat list \<Rightarrow> u8 list \<Rightarrow> nat \<Rightarrow> ('d, u8 list \<times> nat) stream_prog" where
  "save_streams [] buf dp = pure (buf, dp)"
| "save_streams (sid # ids) buf dp =
     andThen (get_stream sid) (\<lambda>s.
     save_streams ids (put_bytes buf dp (stream_image s)) (dp + stream_sizeof))"

definition usb_testutils_streams_suspend :: "u8 list ptr \<Rightarrow> u32 \<Rightarrow> u32 ptr \<Rightarrow> ('d, u8 list ptr \<times> u32 ptr) stream_prog" where
  "usb_testutils_streams_suspend buf len used =
     andThen (look (\<lambda>s. nstreams (client_mem s))) (\<lambda>n.
     case (buf, used) of
       (Some bytes, Some _) \<Rightarrow>
         if len < 1 + ucast n * of_nat stream_sizeof then return_error (streams_loc 719) kInvalidArgument
         else
           andThen (save_streams [0..<unat n] (put_bytes bytes 0 [n]) 1) (\<lambda>(bytes, dp).
           pure (Some bytes, Some (of_nat dp)))
     | _ \<Rightarrow> return_error (streams_loc 719) kInvalidArgument)"

primrec load_streams :: "nat list \<Rightarrow> u8 list \<Rightarrow> ('d, unit) stream_prog" where
  "load_streams [] bytes = pure ()"
| "load_streams (sid # ids) bytes =
     (let s = stream_of_image (take stream_sizeof bytes) in
      andThen (set_stream sid (s\<lparr>stream_tx := tx_cmt s\<rparr>)) (\<lambda>_.
      load_streams ids (drop stream_sizeof bytes)))"

definition usb_testutils_streams_resume :: "u8 list ptr \<Rightarrow> u32 \<Rightarrow> ('d, unit) stream_prog" where
  "usb_testutils_streams_resume data len =
     (case data of
        Some bytes \<Rightarrow>
          if len < 1 then return_error (streams_loc 753) kInvalidArgument
          else
            andThen (look client_mem) (\<lambda>c.
            if tx_queued_total c \<noteq> 0 then return_error (streams_loc 759) kFailedPrecondition
            else
              let n = (ucast (bytes ! 0) :: u32) in
              if len < 1 + n * of_nat stream_sizeof then return_error (streams_loc 766) kInvalidArgument
              else
                andThen (load_streams [0..<unat n] (drop 1 bytes)) (\<lambda>_.
                andThen (usb_testutils_streams_count_set n) (\<lambda>ok.
                TRY_CHECK (streams_loc 785) ok)))
      | None \<Rightarrow> return_error (streams_loc 753) kInvalidArgument)"

end
