(* ===== verification/UsbStreamCheck.thy ===== *)
theory UsbStreamCheck
  imports UsbStreams UsbTransfer
begin

section \<open>Checking the streams that the host sends\<close>

text \<open>
  The stream checker (theory UsbStreams) on the device of the theory UsbSystem, polled by the USB test
  stack (theory UsbTestutils): how a received packet is read from the packet memory, checked against the
  two generators and its buffer given back, and a poll that takes all the packets of the receive FIFO.
\<close>

subsection \<open>Generators\<close>

lemma length_lfsr_stream [simp]: "length (lfsr_stream n l) = n"
  by (induction n arbitrary: l) simp_all

lemma lfsr_stream_nth: "j < n \<Longrightarrow> lfsr_stream n l ! j = (LFSR_ADVANCE ^^ j) l"
proof (induction n arbitrary: l j)
  case (Suc n)
  then show ?case by (cases j) (simp_all add: funpow_swap1)
qed simp

lemma lfsr_stream_add: "lfsr_stream (m + n) l = lfsr_stream m l @ lfsr_stream n ((LFSR_ADVANCE ^^ m) l)"
  by (induction m arbitrary: l) (simp_all add: funpow_swap1)

text \<open>What the host is to send: the stream of the device and the one of the host, combined.\<close>

definition echo :: "nat \<Rightarrow> u8 \<Rightarrow> u8 \<Rightarrow> u8 list" where
  "echo n l m = map2 (XOR) (lfsr_stream n l) (lfsr_stream n m)"

lemma length_echo [simp]: "length (echo n l m) = n"
  by (simp add: echo_def)

lemma echo_simps [simp]:
  "echo 0 l m = []" "echo (Suc n) l m = (l XOR m) # echo n (LFSR_ADVANCE l) (LFSR_ADVANCE m)"
  by (simp_all add: echo_def)

lemma echo_add: "echo (m + n) a b = echo m a b @ echo n ((LFSR_ADVANCE ^^ m) a) ((LFSR_ADVANCE ^^ m) b)"
  by (simp add: echo_def lfsr_stream_add zip_append)

lemma check_bytes_run:
  "check_bytes bs l m s = (if bs = echo (length bs) l m
     then Some (Inr ((LFSR_ADVANCE ^^ length bs) l, (LFSR_ADVANCE ^^ length bs) m), s)
     else Some (Inl Aborted, s))"
  by (induction bs arbitrary: l m) (auto simp: prog_simps CHECK_def andThen_def funpow_swap1)

lemma check_stream_run:
  assumes "offset \<le> length bs"
  defines "ys \<equiv> drop offset bs"
  shows "check_stream st bs offset s = (if ys = echo (length ys) (rxtx_lfsr st) (rx_lfsr st)
     then Some (Inr (st\<lparr>rxtx_lfsr := (LFSR_ADVANCE ^^ length ys) (rxtx_lfsr st), rx_lfsr := (LFSR_ADVANCE ^^ length ys) (rx_lfsr st),
       rx_bytes := rx_bytes st + of_nat (length ys)\<rparr>), s)
     else Some (Inl Aborted, s))"
  using assms(1) unfolding check_stream_def ys_def
  by (simp add: check_bytes_run andThen_def pure_run of_nat_diff)

subsection \<open>Reading a received packet\<close>

text \<open>The buffer of a packet of \<open>n\<close> bytes as the driver hands it over.\<close>

definition rx_buffer :: "u8 \<Rightarrow> nat \<Rightarrow> dif_usbdev_buffer" where
  "rx_buffer i n = \<lparr>buf_id = i, buf_offset = 0, remaining_bytes = of_nat n, buf_type = kDifUsbdevBufferTypeRead\<rparr>"

lemma read_packet_run:
  assumes "usb_inv (world s (rx_buffer i n # H) F)" "base (base_addr (ctx_dev (ctx s))) mod 4 = 0" "n \<le> 64"
    "0 < n" "length dst = 64"
  defines "h \<equiv> ctx_dev (ctx s)"
  shows "\<exists>p. run_state (dif_usbdev_buffer_read (usb_bus_of h) (Some h) (Some (ctx_pool (ctx s))) (Some (rx_buffer i n))
        (Some dst) (ucast (of_nat n :: u8)) (Some 0)) (usb_device s)
      = ((kDifOk, Some p, Some (\<lparr>buf_id = i, buf_offset = of_nat n, remaining_bytes = 0, buf_type = kDifUsbdevBufferTypeStale\<rparr>),
          Some (put_bytes dst 0 (buffer_data h (usb_device s) i n)), Some (of_nat n)), usb_device s)
    \<and> usb_inv (world (s\<lparr>ctx := (ctx s)\<lparr>ctx_pool := p\<rparr>\<rparr>) H F)"
proof -
  let ?b = "rx_buffer i n"
  have i: "unat i < 32" using held_id(1) [OF assms(1), of ?b] by (simp add: rx_buffer_def)
  have n: "unat (of_nat n :: u8) = n" "unat (ucast (of_nat n :: u8) :: u32) = n"
    using unat_of_nat_8 [OF assms(3)] by (simp_all add: unat_ucast_up)
  have un: "ucast (of_nat n :: u8) = (of_nat n :: u32)" using n(2) by (metis of_nat_unat ucast_id)
  obtain ok p where a: "buffer_pool_add (ctx_pool (ctx s)) i = (ok, p)" by fastforce
  have give: "ok" "usb_inv (world (s\<lparr>ctx := (ctx s)\<lparr>ctx_pool := p\<rparr>\<rparr>) H F)"
    using usb_give_back [OF assms(1), of ?b ok p] a by (simp_all add: rx_buffer_def world_def)
  have wf: "buffer_wf ?b"
    using n(1) assms(3) by (simp add: rx_buffer_def buffer_wf_def USBDEV_BUFFER_ENTRY_SIZE_BYTES_def USBDEV_MAX_PACKET_SIZE_def)
  have "run_state (dif_usbdev_buffer_read (usb_bus_of h) (Some h) (Some (ctx_pool (ctx s))) (Some ?b)
        (Some dst) (ucast (of_nat n :: u8)) (Some 0)) (usb_device s)
      = ((kDifOk, Some p, Some (\<lparr>buf_id = i, buf_offset = of_nat n, remaining_bytes = 0, buf_type = kDifUsbdevBufferTypeStale\<rparr>),
          Some (put_bytes dst 0 (buffer_data h (usb_device s) i n)), Some (of_nat n)), usb_device s)"
    using dif_usbdev_buffer_read_device [OF _ _ wf, of h "ucast (of_nat n :: u8)" dst "ctx_pool (ctx s)" "Some 0" "usb_device s"]
      assms(2,3,5) i n a give(1)
    by (simp add: rx_buffer_def h_def buffer_data_def Let_def)
  with give(2) show ?thesis by blast
qed

lemma buffer_return_run:
  assumes "usb_inv (world s (rx_buffer i n # H) F)"
  shows "\<exists>p b. buffer_return (rx_buffer i n) s = Some (Inr (kDifOk, b), s\<lparr>ctx := (ctx s)\<lparr>ctx_pool := p\<rparr>\<rparr>)
    \<and> usb_inv (world (s\<lparr>ctx := (ctx s)\<lparr>ctx_pool := p\<rparr>\<rparr>) H F)"
proof -
  let ?b = "rx_buffer i n"
  obtain ok p where a: "buffer_pool_add (ctx_pool (ctx s)) i = (ok, p)" by fastforce
  have "ok" "usb_inv (world (s\<lparr>ctx := (ctx s)\<lparr>ctx_pool := p\<rparr>\<rparr>) H F)"
    using usb_give_back [OF assms(1), of ?b ok p] a by (simp_all add: rx_buffer_def world_def)
  with a show ?thesis
    by (intro exI [of _ p]) (simp add: buffer_return_def pool_call_def dif_usbdev_buffer_return_def rx_buffer_def)
qed

subsection \<open>Checking a packet\<close>

definition received_stream :: "usbdev_stream \<Rightarrow> nat \<Rightarrow> usbdev_stream" where
  "received_stream st n = st\<lparr>rxtx_lfsr := (LFSR_ADVANCE ^^ n) (rxtx_lfsr st), rx_lfsr := (LFSR_ADVANCE ^^ n) (rx_lfsr st),
     rx_bytes := rx_bytes st + of_nat n\<rparr>"

lemma received_stream_0 [simp]: "received_stream st 0 = st"
  by (simp add: received_stream_def)

lemma received_stream_add: "received_stream (received_stream st m) n = received_stream st (m + n)"
  by (simp add: received_stream_def funpow_add [symmetric] add.commute flip: comp_apply [of "LFSR_ADVANCE ^^ n"])

text \<open>A stream whose received data are checked.\<close>

definition checks_stream :: "usbdev_stream \<Rightarrow> nat \<Rightarrow> bool" where
  "checks_stream st ep \<longleftrightarrow> stream_sending st \<and> stream_generating st \<and> rx_ep st = of_nat ep
     \<and> (xfr_type st = kUsbTransferTypeBulk \<or> xfr_type st = kUsbTransferTypeInterrupt)"

lemma checks_received [simp]: "checks_stream (received_stream st n) ep = checks_stream st ep"
  by (simp add: checks_stream_def received_stream_def)

text \<open>The state after a packet: its buffer is back in the pool and the stream has moved on.\<close>

definition after_packet :: "dif_usbdev_buffer_pool \<Rightarrow> nat \<Rightarrow> usbdev_stream \<Rightarrow> 'd stream_sys \<Rightarrow> 'd stream_sys" where
  "after_packet p sid st s = s\<lparr>ctx := (ctx s)\<lparr>ctx_pool := p\<rparr>,
     client_mem := (client_mem s)\<lparr>stream_table := (stream_table (client_mem s))[sid := st]\<rparr>\<rparr>"

lemma strm_rx_run:
  fixes s :: "usb_dev stream_sys" and ep :: nat
  assumes "usb_inv (world s (rx_buffer i n # H) F)" "base (base_addr (ctx_dev (ctx s))) mod 4 = 0" "n \<le> 64" "length junk = 64"
    "sid < length (stream_table (client_mem s))"
  defines "h \<equiv> ctx_dev (ctx s)" and "st \<equiv> stream_table (client_mem s) ! sid"
    and "info \<equiv> \<lparr>rx_endpoint = of_nat ep, rx_length = of_nat n, rx_is_setup = False\<rparr>"
  assumes "checks_stream st ep"
  defines "good \<equiv> buffer_data h (usb_device s) i n = echo n (rxtx_lfsr st) (rx_lfsr st)"
  shows "good \<Longrightarrow> \<exists>p. strm_rx (usb_bus_of h) junk sid info (rx_buffer i n) s
      = Some (Inr (), after_packet p sid (received_stream st n) s)
    \<and> usb_inv (world (after_packet p sid (received_stream st n) s) H F)"
    and "\<not> good \<Longrightarrow> \<exists>s'. strm_rx (usb_bus_of h) junk sid info (rx_buffer i n) s = Some (Inl Aborted, s')"
proof -
  have st: "stream_table (client_mem s) ! sid = st" by (simp add: st_def)
  have get: "get_stream sid s' = Some (Inr st, s')" if "client_mem s' = client_mem s" for s' :: "usb_dev stream_sys"
    using assms(5) that by (simp add: get_stream_def prog_simps st_def)
  have check: "strm_rx (usb_bus_of h) junk sid info (rx_buffer i n) s = buffer_check (usb_bus_of h) junk sid info (rx_buffer i n) s"
    using assms(9) by (simp add: strm_rx_def andThen_value [OF get] checks_stream_def info_def)
  have w: "world (after_packet p sid st' s) H' F' = world (s\<lparr>ctx := (ctx s)\<lparr>ctx_pool := p\<rparr>\<rparr>) H' F'" for p st' H' F'
    by (simp add: world_def after_packet_def)
  have "(good \<longrightarrow> (\<exists>p. buffer_check (usb_bus_of h) junk sid info (rx_buffer i n) s
      = Some (Inr (), after_packet p sid (received_stream st n) s)
      \<and> usb_inv (world (after_packet p sid (received_stream st n) s) H F)))
    \<and> (\<not> good \<longrightarrow> (\<exists>s'. buffer_check (usb_bus_of h) junk sid info (rx_buffer i n) s = Some (Inl Aborted, s')))"
  proof (cases "n = 0")
    case True
    from buffer_return_run [OF assms(1)] obtain p b where
      R: "buffer_return (rx_buffer i n) s = Some (Inr (kDifOk, b), s\<lparr>ctx := (ctx s)\<lparr>ctx_pool := p\<rparr>\<rparr>)"
      "usb_inv (world (s\<lparr>ctx := (ctx s)\<lparr>ctx_pool := p\<rparr>\<rparr>) H F)" by blast
    moreover have "s\<lparr>ctx := (ctx s)\<lparr>ctx_pool := p\<rparr>\<rparr> = after_packet p sid st s"
      by (simp add: after_packet_def st_def)
    moreover have "good" using True length_buffer_data [of h "usb_device s" i 0] by (simp add: good_def del: length_buffer_data)
    ultimately show ?thesis using True
      by (intro conjI impI exI [of _ p]) (simp_all add: buffer_check_def andThen_value [OF get] info_def andThen_value pure_run)
  next
    case False
    then have n: "0 < n" by simp
    from read_packet_run [OF assms(1-3) n assms(4)] obtain p b where
      R: "run_state (dif_usbdev_buffer_read (usb_bus_of h) (Some h) (Some (ctx_pool (ctx s))) (Some (rx_buffer i n))
        (Some junk) (ucast (of_nat n :: u8)) (Some 0)) (usb_device s)
        = ((kDifOk, Some p, Some b, Some (put_bytes junk 0 (buffer_data h (usb_device s) i n)), Some (of_nat n)), usb_device s)"
      "usb_inv (world (s\<lparr>ctx := (ctx s)\<lparr>ctx_pool := p\<rparr>\<rparr>) H F)"
      unfolding h_def by blast
    let ?s1 = "s\<lparr>ctx := (ctx s)\<lparr>ctx_pool := p\<rparr>\<rparr>"
    let ?bytes = "buffer_data h (usb_device s) i n"
    have u: "unat (of_nat n :: u8) = n" "unat (of_nat n :: u32) = n" "ucast (of_nat n :: u8) = (of_nat n :: u32)"
      using unat_of_nat_8 [OF assms(3)] assms(3) by (simp_all add: unat_of_nat word_unat_eq_iff unat_ucast_up)
    have pos: "(0 :: u8) < of_nat n" using n u(1) by (simp add: word_less_nat_alt)
    have bytes: "take n (put_bytes junk 0 ?bytes) = ?bytes" using assms(3,4) by (simp add: put_bytes_def)
    let ?read = "pool_call (\<lambda>dev pool. do {
           (r, pool, buf, data, m) \<leftarrow> dif_usbdev_buffer_read (usb_bus_of h) dev pool (Some (rx_buffer i n)) (Some junk) (of_nat n) (Some 0);
           ret ((r, the data, the m), pool)
         })"
    have read: "?read s = Some (Inr (kDifOk, put_bytes junk 0 ?bytes, of_nat n), ?s1)"
      using R(1) unfolding u(3) by (simp add: pool_call_def h_def [symmetric])
    have kind: "(case xfr_type st of kUsbTransferTypeIsochronous \<Rightarrow> a | kUsbTransferTypeControl \<Rightarrow> b | _ \<Rightarrow> c) = c" for a b c
      using assms(9) by (auto simp: checks_stream_def)
    have set: "set_stream sid st' ?s1 = Some (Inr (), after_packet p sid st' s)" for st'
      by (simp add: set_stream_def andThen_value [OF get] prog_simps after_packet_def)
    have "buffer_check (usb_bus_of h) junk sid info (rx_buffer i n) s
      = andThen (check_stream st ?bytes 0) (set_stream sid) ?s1"
      unfolding buffer_check_def andThen_value [where m = "get_stream sid", OF get [OF refl]] info_def
      using pos assms(3) u
      by (simp add: andThen_value [where m = ?read, OF read] USBDEV_MAX_PACKET_SIZE_def bytes kind)
    with R(2) show ?thesis
      unfolding w by (auto simp: andThen_def check_stream_run good_def set received_stream_def)
  qed
  then show "good \<Longrightarrow> \<exists>p. strm_rx (usb_bus_of h) junk sid info (rx_buffer i n) s
      = Some (Inr (), after_packet p sid (received_stream st n) s)
    \<and> usb_inv (world (after_packet p sid (received_stream st n) s) H F)"
    and "\<not> good \<Longrightarrow> \<exists>s'. strm_rx (usb_bus_of h) junk sid info (rx_buffer i n) s = Some (Inl Aborted, s')"
    unfolding check by blast+
qed

subsection \<open>Receiving\<close>

text \<open>An entry of the receive FIFO for the packet \<open>p\<close>, and an endpoint on which a stream listens.\<close>

definition packet_received :: "dif_usbdev \<Rightarrow> usb_dev \<Rightarrow> nat \<Rightarrow> u32 \<Rightarrow> u8 list \<Rightarrow> bool" where
  "packet_received h d ep e p \<longleftrightarrow> bitfield_field32_read e USBDEV_RXFIFO_EP_FIELD = of_nat ep
     \<and> bitfield_field32_read e USBDEV_RXFIFO_SIZE_FIELD = of_nat (length p)
     \<and> \<not> bitfield_bit32_read e USBDEV_RXFIFO_SETUP_BIT \<and> length p \<le> 64 \<and> buffer_data h d (rx_id e) (length p) = p"

definition listens :: "nat \<Rightarrow> nat \<Rightarrow> 'd stream_sys \<Rightarrow> bool" where
  "listens ep sid s \<longleftrightarrow> ep < 12 \<and> length (out_eps (ctx s)) = 12 \<and> sid < length (stream_table (client_mem s))
     \<and> rx_callback (out_eps (ctx s) ! ep) = Some Strm_rx \<and> out_ep_ctx (out_eps (ctx s) ! ep) = Some sid
     \<and> checks_stream (stream_table (client_mem s) ! sid) ep"

lemma after_packet_sel [simp]:
  "ctx_dev (ctx (after_packet p sid st s)) = ctx_dev (ctx s)" "usb_device (after_packet p sid st s) = usb_device s"
  "in_eps (ctx (after_packet p sid st s)) = in_eps (ctx s)" "got_frame (ctx (after_packet p sid st s)) = got_frame (ctx s)"
  "sid < length (stream_table (client_mem s)) \<Longrightarrow> stream_table (client_mem (after_packet p sid st s)) ! sid = st"
  "length (stream_table (client_mem (after_packet p sid st s))) = length (stream_table (client_mem s))"
  by (simp_all add: after_packet_def)

lemma listens_after:
  "listens ep sid s \<Longrightarrow> checks_stream st ep \<Longrightarrow> listens ep sid (after_packet p sid st s)"
  "listens ep sid (s\<lparr>usb_device := d\<rparr>) = listens ep sid s"
  by (auto simp: listens_def after_packet_def)

lemma packet_received_queue [simp]: "packet_received h (d\<lparr>rx_queue := q\<rparr>) = packet_received h d"
  by (intro ext) (simp add: packet_received_def buffer_data_def usb_mem.bytes_at_def usb_mem.byte_at_def)

lemma poll_receive_one_run:
  fixes s :: "usb_dev stream_sys"
  assumes "usb_inv (world s H F)" "base (base_addr (ctx_dev (ctx s))) mod 4 = 0" "length junk = 64" "listens ep sid s"
    "rx_queue (usb_device s) = e # es"
  defines "h \<equiv> ctx_dev (ctx s)" and "st \<equiv> stream_table (client_mem s) ! sid"
    and "s1 \<equiv> s\<lparr>usb_device := (usb_device s)\<lparr>rx_queue := es\<rparr>\<rparr>"
  assumes "packet_received h (usb_device s) ep e p"
  defines "good \<equiv> p = echo (length p) (rxtx_lfsr st) (rx_lfsr st)" and "st' \<equiv> received_stream st (length p)"
  shows "good \<Longrightarrow> \<exists>q. poll_receive_one (usb_bus_of h) (strm_clients (usb_bus_of h) junk) s = Some (Inr True, after_packet q sid st' s1)
    \<and> usb_inv (world (after_packet q sid st' s1) H F)"
    and "\<not> good \<Longrightarrow> \<exists>s'. poll_receive_one (usb_bus_of h) (strm_clients (usb_bus_of h) junk) s = Some (Inl Aborted, s')"
proof -
  let ?info = "\<lparr>rx_endpoint = of_nat ep, rx_length = of_nat (length p), rx_is_setup = False\<rparr>"
  let ?b = "rx_buffer (rx_id e) (length p)"
  note L = assms(4) [unfolded listens_def]
  note P = assms(9) [unfolded packet_received_def]
  have ep: "unat (of_nat ep :: u8) = ep" using L by (simp add: unat_of_nat)
  have cast: "ucast (of_nat k :: u32) = (of_nat k :: u8)" for k
    by (rule bit_word_eqI) (simp add: bit_simps)
  have e: "call (\<lambda>dev. dif_usbdev_status_get_rx_fifo_empty (usb_bus_of h) dev (Some False)) s = Some (Inr (kDifOk, Some False), s)"
    using assms(5) by (simp add: call_def dif_usbdev_status_get_rx_fifo_empty_def run_usb_read usb_read_def usb_status_fields h_def)
  let ?recv = "\<lambda>info b dev. dif_usbdev_recv (usb_bus_of h) dev (Some info) (Some b)"
  have recv: "call (?recv i0 b0) s = Some (Inr (kDifOk, Some ?info, Some ?b), s1)" for i0 b0
    using assms(5) P
    by (simp add: call_def dif_usbdev_recv_def run_usb_read usb_read_def usb_status_fields h_def Let_def rx_id_def
        rx_buffer_def s1_def cast)
  have "run_state (dif_usbdev_recv (usb_bus_of h) (Some h) (Some ?info) (Some ?b)) (dev (world s H F))
      = ((kDifOk, Some ?info, Some ?b), (usb_device s)\<lparr>rx_queue := es\<rparr>)"
    using recv [of ?info ?b] by (auto simp: call_def h_def s1_def split: prod.splits dest: arg_cong [of _ _ usb_device])
  from usb_recv_inv [OF assms(1) this] have inv: "usb_inv (world s1 (?b # H) F)"
    by (simp add: world_def s1_def)
  have ep1: "out_ep ep s1 = Some (Inr (out_eps (ctx s) ! ep), s1)"
    using L by (simp add: out_ep_def prog_simps s1_def)
  have s1: "ctx_dev (ctx s1) = h" "stream_table (client_mem s1) = stream_table (client_mem s)"
    "buffer_data h (usb_device s1) (rx_id e) (length p) = p"
    using P by (simp_all add: s1_def h_def buffer_data_def usb_mem.bytes_at_def usb_mem.byte_at_def)
  note R = strm_rx_run [of s1 "rx_id e" "length p" H F junk sid ep, unfolded s1, OF inv _ _ assms(3) _ ]
  have run: "poll_receive_one (usb_bus_of h) (strm_clients (usb_bus_of h) junk) s
      = andThen (strm_rx (usb_bus_of h) junk sid ?info ?b) (\<lambda>_. pure True) s1"
    using L by (simp add: poll_receive_one_def andThen_value e recv ep ep1 strm_clients_def)
  show "good \<Longrightarrow> \<exists>q. poll_receive_one (usb_bus_of h) (strm_clients (usb_bus_of h) junk) s = Some (Inr True, after_packet q sid st' s1)
    \<and> usb_inv (world (after_packet q sid st' s1) H F)"
    unfolding run using R(1) assms(2) L P by (auto simp: good_def st_def st'_def h_def andThen_def pure_run)
  show "\<not> good \<Longrightarrow> \<exists>s'. poll_receive_one (usb_bus_of h) (strm_clients (usb_bus_of h) junk) s = Some (Inl Aborted, s')"
    unfolding run using R(2) assms(2) L P by (auto simp: good_def st_def st'_def h_def andThen_def pure_run)
qed

lemma echo_cong_append:
  "xs @ ys = echo (length (xs @ ys)) a b \<longleftrightarrow> xs = echo (length xs) a b
     \<and> ys = echo (length ys) ((LFSR_ADVANCE ^^ length xs) a) ((LFSR_ADVANCE ^^ length xs) b)"
  by (simp add: echo_add append_eq_append_conv)

lemma poll_received_run:
  fixes s :: "usb_dev stream_sys"
  assumes "usb_inv (world s H F)" "base (base_addr h) mod 4 = 0" "length junk = 64" "listens ep sid s" "ctx_dev (ctx s) = h"
    "list_all2 (packet_received h (usb_device s) ep) (rx_queue (usb_device s)) ps"
  shows "let st = stream_table (client_mem s) ! sid; n = length (concat ps);
           s' = \<lambda>q. after_packet q sid (received_stream st n) (s\<lparr>usb_device := (usb_device s)\<lparr>rx_queue := []\<rparr>\<rparr>) in
         if concat ps = echo n (rxtx_lfsr st) (rx_lfsr st)
         then \<exists>q. poll_received (usb_bus_of h) (strm_clients (usb_bus_of h) junk) s = Some (Inr (), s' q)
           \<and> usb_inv (world (s' q) H F)
         else \<exists>s'. poll_received (usb_bus_of h) (strm_clients (usb_bus_of h) junk) s = Some (Inl Aborted, s')"
  using assms(1,4-6)
proof (induction ps arbitrary: s)
  case Nil
  then have q: "rx_queue (usb_device s) = []" by simp
  have e: "call (\<lambda>dev. dif_usbdev_status_get_rx_fifo_empty (usb_bus_of h) dev (Some False)) s = Some (Inr (kDifOk, Some True), s)"
    using q Nil(3) by (simp add: call_def dif_usbdev_status_get_rx_fifo_empty_def run_usb_read usb_read_def usb_status_fields)
  have "poll_received (usb_bus_of h) (strm_clients (usb_bus_of h) junk) s = Some (Inr (), s)"
    by (subst poll_received.simps) (simp add: poll_receive_one_def andThen_value e pure_run andThen_def)
  moreover have "after_packet (ctx_pool (ctx s)) sid (stream_table (client_mem s) ! sid)
      (s\<lparr>usb_device := (usb_device s)\<lparr>rx_queue := []\<rparr>\<rparr>) = s"
    using q by (simp add: after_packet_def)
  ultimately show ?case using Nil(1) by (auto simp: Let_def intro!: exI [of _ "ctx_pool (ctx s)"])
next
  case (Cons p ps)
  obtain e es where Q: "rx_queue (usb_device s) = e # es" "packet_received h (usb_device s) ep e p"
      "list_all2 (packet_received h (usb_device s) ep) es ps"
    using Cons.prems(4) by (auto simp: list_all2_Cons2)
  let ?st = "stream_table (client_mem s) ! sid" and ?s1 = "s\<lparr>usb_device := (usb_device s)\<lparr>rx_queue := es\<rparr>\<rparr>"
  let ?st' = "received_stream ?st (length p)"
  note one = poll_receive_one_run [OF Cons.prems(1) _ assms(3) Cons.prems(2) Q(1), unfolded Cons.prems(3), OF assms(2) Q(2)]
  show ?case
  proof (cases "p = echo (length p) (rxtx_lfsr ?st) (rx_lfsr ?st)")
    case False
    then obtain s' where "poll_receive_one (usb_bus_of h) (strm_clients (usb_bus_of h) junk) s = Some (Inl Aborted, s')"
      using one(2) by blast
    then have "poll_received (usb_bus_of h) (strm_clients (usb_bus_of h) junk) s = Some (Inl Aborted, s')"
      by (subst poll_received.simps) (simp add: andThen_def)
    with False show ?thesis using echo_cong_append [of p "concat ps"] by (auto simp: Let_def)
  next
    case True
    then obtain q where R: "poll_receive_one (usb_bus_of h) (strm_clients (usb_bus_of h) junk) s = Some (Inr True, after_packet q sid ?st' ?s1)"
      "usb_inv (world (after_packet q sid ?st' ?s1) H F)" using one(1) by blast
    let ?s2 = "after_packet q sid ?st' ?s1"
    have eq: "poll_received (usb_bus_of h) (strm_clients (usb_bus_of h) junk) s = poll_received (usb_bus_of h) (strm_clients (usb_bus_of h) junk) ?s2"
      by (subst poll_received.simps) (simp add: andThen_value [where m = "poll_receive_one B c" for B c, OF R(1)])
    have sid: "sid < length (stream_table (client_mem s))" using Cons.prems(2) by (simp add: listens_def)
    have l: "listens ep sid ?s2" using Cons.prems(2) by (intro listens_after) (auto simp: listens_def)
    have p: "list_all2 (packet_received h (usb_device ?s2) ep) (rx_queue (usb_device ?s2)) ps" using Q(3) by simp
    have st: "stream_table (client_mem ?s2) ! sid = ?st'" using sid by simp
    have fold: "after_packet q' sid st (?s2\<lparr>usb_device := (usb_device ?s2)\<lparr>rx_queue := []\<rparr>\<rparr>)
        = after_packet q' sid st (s\<lparr>usb_device := (usb_device s)\<lparr>rx_queue := []\<rparr>\<rparr>)" for q' st
      by (simp add: after_packet_def)
    have lf: "rxtx_lfsr ?st' = (LFSR_ADVANCE ^^ length p) (rxtx_lfsr ?st)" "rx_lfsr ?st' = (LFSR_ADVANCE ^^ length p) (rx_lfsr ?st)"
      by (simp_all add: received_stream_def)
    have good: "concat (p # ps) = echo (length (concat (p # ps))) (rxtx_lfsr ?st) (rx_lfsr ?st)
        \<longleftrightarrow> concat ps = echo (length (concat ps)) (rxtx_lfsr ?st') (rx_lfsr ?st')"
      using True echo_cong_append [of p "concat ps"] unfolding lf by simp
    note IH = Cons.IH [OF R(2) l _ p, unfolded st fold received_stream_add Let_def]
    show ?thesis unfolding Let_def eq good using IH Cons.prems(3) by simp
  qed
qed

subsection \<open>A poll\<close>

lemma packet_received_mem: "packet_mem d' = packet_mem d \<Longrightarrow> packet_received h d' = packet_received h d"
  by (intro ext) (simp add: packet_received_def buffer_data_mem [of d' d])

lemma irq_bits_received:
  "\<not> irq_bit 1 kDifUsbdevIrqPktSent" "irq_bit 1 kDifUsbdevIrqPktReceived" "\<not> irq_bit 1 kDifUsbdevIrqLinkReset"
  "\<not> irq_bit 1 kDifUsbdevIrqFrame"
  by (simp_all add: irq_bit_def)

lemma received_intr_state:
  assumes "rx_queue d \<noteq> []" "usb_regs d USBDEV_INTR_STATE_REG_OFFSET = 0" "usb_regs d USBDEV_IN_SENT_REG_OFFSET = 0"
  shows "usb_intr_state d = 1"
  using assms by (simp add: usb_intr_state_def) code_simp

text \<open>C38: The stream checker accepts exactly the right bytes. A checked bulk or interrupt stream, which
  sends and generates data, listens on an endpoint; packets have arrived for this endpoint, and nothing else
  happens on the bus: no packet was sent, no other event is pending and no start of frame was seen. Then one
  poll takes all packets, whatever their sizes and whatever boundaries they have: it succeeds when their bytes
  together are the two generators combined, byte after byte, and then the stream has counted every byte and
  both its generators have moved on by as many steps, the receive FIFO is empty and every buffer of the
  packets is back in the pool or with the device; on any other bytes, be it one wrong byte, one missing or
  one too many in between, a check ends the test.\<close>

theorem usb_stream_check_exact:
  fixes s :: "usb_dev stream_sys"
  assumes device: "usb_inv (world s H F)" "ctx_dev (ctx s) = h" "base (base_addr h) mod 4 = 0" "\<not> got_frame (ctx s)"
      "usb_regs (usb_device s) USBDEV_INTR_STATE_REG_OFFSET = 0" "usb_regs (usb_device s) USBDEV_IN_SENT_REG_OFFSET = 0"
    and stream: "listens ep sid s" "stream_table (client_mem s) ! sid = st" "length junk = 64"
    and packets: "list_all2 (packet_received h (usb_device s) ep) (rx_queue (usb_device s)) ps" "ps \<noteq> []"
  defines "n \<equiv> length (concat ps)" and "poll \<equiv> usb_testutils_poll (usb_bus_of h) (strm_clients (usb_bus_of h) junk)"
  shows "if \<forall>j<n. concat ps ! j = (LFSR_ADVANCE ^^ j) (rxtx_lfsr st) XOR (LFSR_ADVANCE ^^ j) (rx_lfsr st)
    then \<exists>s'. poll s = Some (Inr (), s') \<and> client_mem s' = (client_mem s)\<lparr>stream_table :=
        (stream_table (client_mem s))[sid := st\<lparr>rxtx_lfsr := (LFSR_ADVANCE ^^ n) (rxtx_lfsr st),
          rx_lfsr := (LFSR_ADVANCE ^^ n) (rx_lfsr st), rx_bytes := rx_bytes st + of_nat n\<rparr>]\<rparr>
      \<and> rx_queue (usb_device s') = [] \<and> usb_inv (world s' H F)
    else \<exists>s'. poll s = Some (Inl Aborted, s')"
proof -
  let ?cl = "strm_clients (usb_bus_of h) junk"
  have all: "(\<forall>j<n. concat ps ! j = (LFSR_ADVANCE ^^ j) (rxtx_lfsr st) XOR (LFSR_ADVANCE ^^ j) (rx_lfsr st))
      \<longleftrightarrow> concat ps = echo n (rxtx_lfsr st) (rx_lfsr st)"
    by (auto simp: list_eq_iff_nth_eq n_def echo_def lfsr_stream_nth)
  have q: "rx_queue (usb_device s) \<noteq> []" using packets by auto
  have i: "call (\<lambda>dev. dif_usbdev_irq_get_state (usb_bus_of h) dev (Some 0)) s = Some (Inr (kDifOk, Some 1), s)"
    using received_intr_state [OF q device(5,6)] device(2)
    by (simp add: call_def dif_usbdev_irq_get_state_def irq_get_state_def usbdev_irqs_def run_usb_read usb_read_def)
  obtain s2 where f: "pool_call (\<lambda>dev pool. dif_usbdev_fill_available_fifos (usb_bus_of h) dev pool) s = Some (Inr kDifOk, s2)"
    "s2 = s\<lparr>ctx := (ctx s)\<lparr>ctx_pool := ctx_pool (ctx s2)\<rparr>,
       usb_device := (usb_device s)\<lparr>av_setup := av_setup (usb_device s2), av_out := av_out (usb_device s2)\<rparr>\<rparr>"
    "\<forall>H F. usb_inv (world s H F) \<longrightarrow> usb_inv (world s2 H F)"
    using fill_run [OF device(1)] unfolding device(2) by blast
  obtain p a b where s2: "s2 = s\<lparr>ctx := (ctx s)\<lparr>ctx_pool := p\<rparr>,
       usb_device := (usb_device s)\<lparr>av_setup := a, av_out := b\<rparr>\<rparr>" using f(2) by blast
  have sel: "ctx_dev (ctx s2) = h" "client_mem s2 = client_mem s" "\<not> got_frame (ctx s2)" "listens ep sid s2"
    "list_all2 (packet_received h (usb_device s2) ep) (rx_queue (usb_device s2)) ps"
    "usb_regs (usb_device s2) USBDEV_INTR_STATE_REG_OFFSET = 0"
    using device(2,4,5) stream(1) packets(1) packet_received_mem [of "usb_device s2" "usb_device s"]
    by (simp_all add: s2 listens_def)
  have poll: "poll s = andThen (poll_received (usb_bus_of h) ?cl) (\<lambda>_.
       andThen (call (\<lambda>dev. dif_usbdev_irq_acknowledge_state (usb_bus_of h) dev 1)) (\<lambda>r.
       andThen (TRY_DIF (usb_testutils_loc 188) r) (\<lambda>_. poll_flush ?cl))) s2"
    unfolding poll_def usb_testutils_poll_def
    by (simp add: andThen_value i f(1) irq_bits_received andThen_assoc del: push_bit_of_1)
  note R = poll_received_run [OF f(3) [rule_format, OF device(1)] device(3) stream(3) sel(4,1,5), unfolded Let_def sel(2) stream(2),
      folded n_def]
  show ?thesis
  proof (cases "concat ps = echo n (rxtx_lfsr st) (rx_lfsr st)")
    case False
    then obtain s' where "poll_received (usb_bus_of h) ?cl s2 = Some (Inl Aborted, s')" using R by auto
    then have "poll s = Some (Inl Aborted, s')" unfolding poll by (simp add: andThen_def)
    with False show ?thesis unfolding all by auto
  next
    case True
    let ?s3 = "\<lambda>q. after_packet q sid (received_stream st n) (s2\<lparr>usb_device := (usb_device s2)\<lparr>rx_queue := []\<rparr>\<rparr>)"
    obtain q where r: "poll_received (usb_bus_of h) ?cl s2 = Some (Inr (), ?s3 q)" "usb_inv (world (?s3 q) H F)"
      using R True by auto
    have "usb_write USBDEV_INTR_STATE_REG_OFFSET 1 (usb_device (?s3 q)) = usb_device (?s3 q)"
      using sel(6) by (simp add: usb_write_def usb_reg_write_def fun_upd_idem)
    then have ack: "call (\<lambda>dev. dif_usbdev_irq_acknowledge_state (usb_bus_of h) dev 1) (?s3 q) = Some (Inr kDifOk, ?s3 q)"
      using sel(1) by (simp add: call_def dif_usbdev_irq_acknowledge_state_def irq_acknowledge_state_def usbdev_irqs_def
          run_usb_write)
    let ?s4 = "(?s3 q)\<lparr>ctx := (ctx (?s3 q))\<lparr>flushed := 0\<rparr>\<rparr>"
    have "poll_flush ?cl (?s3 q) = Some (Inr (), ?s4)"
      using sel(3) by (simp add: poll_flush_def prog_simps)
    then have "poll s = Some (Inr (), ?s4)"
      unfolding poll by (simp add: andThen_value [where m = "poll_received B c" for B c, OF r(1)] andThen_value ack)
    moreover have "usb_inv (world ?s4 H F)" using r(2) by (simp add: world_def)
    moreover have "client_mem ?s4 = (client_mem s)\<lparr>stream_table := (stream_table (client_mem s))[sid := received_stream st n]\<rparr>"
      using sel(2) by (simp add: after_packet_def)
    ultimately show ?thesis unfolding all received_stream_def using True by (auto simp: after_packet_def)
  qed
qed

text \<open>Two packets, of one and of two bytes, for a stream whose generator of the device starts at \<open>l\<close>.\<close>

definition stream_example :: "u8 \<Rightarrow> usbdev_stream" where
  "stream_example l = (let tx = \<lparr>sig_required = False, tx_seq = 0, tx_lfsr = 1, tx_bytes = 0, buf_size = 64\<rparr> in
     \<lparr>stream_id = 0, xfr_type = kUsbTransferTypeBulk, tx_ep = 1, stream_tx = tx, tx_cmt = tx, rx_ep = 1, rx_seq = 0, rx_lfsr = 0,
      rxtx_lfsr = l, rx_bytes = 0, rx_buf_size = 64, transfer_bytes = 64, stream_flags = 0, stream_sending = True,
      stream_generating = True, stream_verbose = False\<rparr>)"

definition stream_example_sys :: "u8 \<Rightarrow> usb_dev stream_sys" where
  "stream_example_sys l = \<lparr>ctx = \<lparr>ctx_dev = usb_example, ctx_pool = \<lparr>buffers = map of_nat [0..<32], pool_top = 29\<rparr>, flushed = 0,
     got_frame = False, ctx_frame = 0, in_eps = [],
     out_eps = replicate 12 \<lparr>out_ep_type = kUsbTransferTypeBulk, out_ep_ctx = Some 0, rx_callback = Some Strm_rx, out_reset = null\<rparr>\<rparr>,
     client_mem = \<lparr>nstreams = 1, stream_table = [stream_example l], tx_bufs_limit = [], tx_bufs_queued = [], tx_queued_total = 0,
       tx_bufs = []\<rparr>,
     usb_device = usb_reset_dev\<lparr>rx_queue := [0x10011E, 0x10021F], packet_mem := (\<lambda>_. 0)(0xF80 := 1, 0xFC0 := 0x0502)\<rparr>\<rparr>"

lemma stream_example_packets:
  "list_all2 (packet_received usb_example (usb_device (stream_example_sys l)) 1) (rx_queue (usb_device (stream_example_sys l)))
     [[1], [2, 5]]"
  unfolding packet_received_def buffer_data_def usb_mem.bytes_at_def usb_mem.byte_at_def
  by (simp add: stream_example_sys_def USBDEV_MAX_PACKET_SIZE_def usb_example_def rx_id_def get_buffer_addr_def bitfield_field32_read_def bitfield_bit32_read_def
      bitfield_bit32_to_field32_def USBDEV_BUFFER_ENTRY_SIZE_BYTES_def word_of_def byte32_def upt_rec usb_reset_dev_def)

lemma stream_example_inv: "usb_inv (world (stream_example_sys l) [] [])"
  by (simp add: usb_inv_def stream_example_sys_def world_def pool_wf_def owned_def all_buffers_def pool_ids_def upt_rec
      usb_reset_dev_def rx_id_def bitfield_field32_read_def USBDEV_NUM_BUFFERS_def) 

lemma usb_stream_check_exact_witness:
  "(\<exists>s'. usb_testutils_poll (usb_bus_of usb_example) (strm_clients (usb_bus_of usb_example) (replicate 64 0)) (stream_example_sys 1)
      = Some (Inr (), s') \<and> rx_bytes (stream_table (client_mem s') ! 0) = 3 \<and> rxtx_lfsr (stream_table (client_mem s') ! 0) = 11)
    \<and> (\<exists>s'. usb_testutils_poll (usb_bus_of usb_example) (strm_clients (usb_bus_of usb_example) (replicate 64 0)) (stream_example_sys 9)
      = Some (Inl Aborted, s'))"
proof -
  have start: "ctx_dev (ctx (stream_example_sys l)) = usb_example" "base (base_addr usb_example) mod 4 = 0"
    "\<not> got_frame (ctx (stream_example_sys l))" "usb_regs (usb_device (stream_example_sys l)) x = 0"
    "listens 1 0 (stream_example_sys l)" "stream_table (client_mem (stream_example_sys l)) = [stream_example l]" for l x
    by (simp_all add: stream_example_sys_def usb_example_def usb_reset_dev_def listens_def checks_stream_def stream_example_def
        Let_def)
  have l: "rx_lfsr (stream_example l) = 0" "rxtx_lfsr (stream_example l) = l" "rx_bytes (stream_example l) = 0" for l
    by (simp_all add: stream_example_def Let_def)
  have st: "stream_table (client_mem (stream_example_sys l)) ! 0 = stream_example l" for l
    by (simp add: start)
  note T = usb_stream_check_exact [OF stream_example_inv start(1-4,4) start(5) st _ stream_example_packets, of "replicate 64 0"]
  have good: "\<forall>j<length (concat [[1], [2, 5]]). concat [[1 :: u8], [2, 5]] ! j = (LFSR_ADVANCE ^^ j) (rxtx_lfsr (stream_example 1))
      XOR (LFSR_ADVANCE ^^ j) (rx_lfsr (stream_example 1))"
    by (auto simp: l LFSR_ADVANCE_def numeral_3_eq_3 less_Suc_eq)
  have bad: "\<not> (\<forall>j<length (concat [[1], [2, 5]]). concat [[1 :: u8], [2, 5]] ! j = (LFSR_ADVANCE ^^ j) (rxtx_lfsr (stream_example 9))
      XOR (LFSR_ADVANCE ^^ j) (rx_lfsr (stream_example 9)))"
    by (auto simp: l intro!: exI [of _ 0])
  show ?thesis
    using T [of 1, unfolded if_P [OF good]] T [of 9, unfolded if_not_P [OF bad]]
    by (auto simp: l start(6) LFSR_ADVANCE_def)
qed

end
