(* ===== verification/UsbStreamResume.thy ===== *)
theory UsbStreamResume
  imports UsbStreamCheck
begin

section \<open>Suspending and resuming streams\<close>

text \<open>
  The image of a stream in memory is read back as the stream, the loops that save and load the streams,
  the sharing of the buffers among the streams, and the two calls together.
\<close>

subsection \<open>Images\<close>

lemma bytes_half_half [simp]: "bytes_half (ucast w # ucast (drop_bit 8 w) # xs) = w"
  unfolding bytes_half_def by (simp, intro bit_word_eqI) (auto simp: bit_simps)

lemma bytes_word_word [simp]: "bytes_word (byte32 w 0 # byte32 w (Suc 0) # byte32 w 2 # byte32 w 3 # xs) = w"
  using le32_byte32 [of w] by (simp add: bytes_word_def)

lemma transfer_type_value_of [simp]: "transfer_type_of_value (transfer_type_value t) = t"
  by (cases t) (simp_all add: transfer_type_of_value_def)

lemma bool_byte_nonzero [simp]: "bool_byte b \<noteq> 0 \<longleftrightarrow> b" "bool_byte b = 0 \<longleftrightarrow> \<not> b"
  by (simp_all add: bool_byte_def)

lemma length_stream_image [simp]: "length (stream_image st) = stream_sizeof"
  by (simp add: stream_image_def tx_image_def half_bytes_def word_bytes_def stream_sizeof_def)

lemma stream_of_image_image [simp]: "stream_of_image (stream_image st) = st"
  by (cases st)
    (simp add: stream_of_image_def stream_image_def tx_of_image_def tx_image_def half_bytes_def word_bytes_def)

subsection \<open>Saving\<close>

lemma put_bytes_next:
  "i + length xs + length ys \<le> length buf \<Longrightarrow> put_bytes (put_bytes buf i xs) (i + length xs) ys = put_bytes buf i (xs @ ys)"
  by (simp add: put_bytes_def add_ac)

lemma get_stream_run: "i < length (stream_table (client_mem s)) \<Longrightarrow> get_stream i s = Some (Inr (stream_table (client_mem s) ! i), s)"
  by (simp add: get_stream_def prog_simps)

lemma set_stream_run: "i < length (stream_table (client_mem s)) \<Longrightarrow> set_stream i st s
    = Some (Inr (), s\<lparr>client_mem := (client_mem s)\<lparr>stream_table := (stream_table (client_mem s))[i := st]\<rparr>\<rparr>)"
  by (simp add: set_stream_def andThen_value [where m = "get_stream i", OF get_stream_run] prog_simps)

lemma save_streams_run:
  assumes "\<forall>i\<in>set ids. i < length (stream_table (client_mem s))" "dp + length ids * stream_sizeof \<le> length buf"
  defines "xs \<equiv> concat (map (\<lambda>i. stream_image (stream_table (client_mem s) ! i)) ids)"
  shows "save_streams ids buf dp s = Some (Inr (put_bytes buf dp xs, dp + length ids * stream_sizeof), s)"
  using assms(1,2) unfolding xs_def
proof (induction ids arbitrary: buf dp)
  case Nil
  then show ?case by (simp add: prog_simps put_bytes_def)
next
  case (Cons i ids)
  have i: "i < length (stream_table (client_mem s))" using Cons.prems(1) by simp
  let ?im = "stream_image (stream_table (client_mem s) ! i)"
  have l: "length (concat (map (\<lambda>i. stream_image (stream_table (client_mem s) ! i)) ids)) = length ids * stream_sizeof"
    by (induction ids) simp_all
  show ?case
    using Cons.prems Cons.IH [of "dp + stream_sizeof" "put_bytes buf dp ?im"] l
      put_bytes_next [of dp ?im "concat (map (\<lambda>i. stream_image (stream_table (client_mem s) ! i)) ids)" buf]
    by (simp add: andThen_value [where m = "get_stream i", OF get_stream_run, OF i] length_put_bytes add_ac)
qed

subsection \<open>Loading\<close>

lemma load_streams_run:
  assumes "j + length sts \<le> length (stream_table (client_mem s))"
  shows "load_streams [j..<j + length sts] (concat (map stream_image sts) @ rest) s
    = Some (Inr (), s\<lparr>client_mem := (client_mem s)\<lparr>stream_table := take j (stream_table (client_mem s))
        @ map (\<lambda>st. st\<lparr>stream_tx := tx_cmt st\<rparr>) sts @ drop (j + length sts) (stream_table (client_mem s))\<rparr>\<rparr>)"
  using assms
proof (induction sts arbitrary: j s)
  case Nil
  then show ?case by (simp add: prog_simps)
next
  case (Cons st sts)
  let ?t = "stream_table (client_mem s)"
  let ?s = "s\<lparr>client_mem := (client_mem s)\<lparr>stream_table := ?t[j := st\<lparr>stream_tx := tx_cmt st\<rparr>]\<rparr>\<rparr>"
  have j: "j < length ?t" using Cons.prems by simp
  have g: "set_stream j (st\<lparr>stream_tx := tx_cmt st\<rparr>) s = Some (Inr (), ?s)"
    using set_stream_run [OF j] by simp
  have "take (Suc j) (?t[j := st\<lparr>stream_tx := tx_cmt st\<rparr>]) = take j ?t @ [st\<lparr>stream_tx := tx_cmt st\<rparr>]"
    using j by (simp add: take_Suc_conv_app_nth)
  then show ?case
    using Cons.prems Cons.IH [of "Suc j" ?s]
    by (simp add: upt_conv_Cons Let_def del: upt_Suc add: andThen_value [where m = "set_stream j x" for x, OF g])
qed

subsection \<open>The buffers that a stream may queue\<close>

lemma count_set_run:
  assumes "n \<le> of_nat USBUTILS_STREAMS_MAX" "unat n \<le> length (stream_table (client_mem s))"
    "\<forall>st\<in>set (take (unat n) (stream_table (client_mem s))). unat (tx_ep st) < length (tx_bufs_queued (client_mem s))
       \<and> unat (tx_ep st) < length (tx_bufs_limit (client_mem s))"
  shows "\<exists>q l. usb_testutils_streams_count_set n s = Some (Inr True, s\<lparr>client_mem := (client_mem s)\<lparr>nstreams := ucast n,
      tx_queued_total := 0, tx_bufs_queued := q, tx_bufs_limit := l\<rparr>\<rparr>)
    \<and> (\<forall>st\<in>set (take (unat n) (stream_table (client_mem s))). q ! unat (tx_ep st) = 0
       \<and> l ! unat (tx_ep st) = ucast ((of_nat USBUTILS_STREAMS_TXBUF_MAX + n - 1) div n))"
proof -
  let ?t = "stream_table (client_mem s)" and ?L = "ucast ((of_nat USBUTILS_STREAMS_TXBUF_MAX + n - 1) div n) :: u8"
  let ?f = "\<lambda>i. andThen (get_stream i) (\<lambda>s. andThen (set_queued (tx_ep s) 0) (\<lambda>_. set_limit (tx_ep s) ?L))"
  have append: "for_each (xs @ ys) f = andThen (for_each xs f) (\<lambda>_. for_each ys f)" for xs ys :: "nat list" and f :: "nat \<Rightarrow> ('a, unit) stream_prog"
    by (induction xs) (simp_all add: andThen_assoc)
  have "\<exists>q l. for_each [0..<k] ?f s = Some (Inr (), s\<lparr>client_mem := (client_mem s)\<lparr>tx_bufs_queued := q, tx_bufs_limit := l\<rparr>\<rparr>)
      \<and> length q = length (tx_bufs_queued (client_mem s)) \<and> length l = length (tx_bufs_limit (client_mem s))
      \<and> (\<forall>st\<in>set (take k ?t). q ! unat (tx_ep st) = 0 \<and> l ! unat (tx_ep st) = ?L)" if "k \<le> unat n" for k
    using that
  proof (induction k)
    case 0
    then show ?case
      by (intro exI [of _ "tx_bufs_queued (client_mem s)"] exI [of _ "tx_bufs_limit (client_mem s)"]) (simp add: prog_simps)
  next
    case (Suc k)
    then obtain q l where I: "for_each [0..<k] ?f s
        = Some (Inr (), s\<lparr>client_mem := (client_mem s)\<lparr>tx_bufs_queued := q, tx_bufs_limit := l\<rparr>\<rparr>)"
      "length q = length (tx_bufs_queued (client_mem s))" "length l = length (tx_bufs_limit (client_mem s))"
      "\<forall>st\<in>set (take k ?t). q ! unat (tx_ep st) = 0 \<and> l ! unat (tx_ep st) = ?L"
      by auto
    let ?s = "s\<lparr>client_mem := (client_mem s)\<lparr>tx_bufs_queued := q, tx_bufs_limit := l\<rparr>\<rparr>" and ?e = "unat (tx_ep (?t ! k))"
    have k: "k < length ?t" using Suc.prems assms(2) by simp
    have mem: "?t ! k \<in> set (take (unat n) ?t)" using Suc.prems k by (auto simp: in_set_conv_nth intro!: exI [of _ k])
    have e: "?e < length q" "?e < length l"
      using assms(3) mem I(2,3) by auto
    have "?f k ?s = Some (Inr (), s\<lparr>client_mem := (client_mem s)\<lparr>tx_bufs_queued := q[?e := 0], tx_bufs_limit := l[?e := ?L]\<rparr>\<rparr>)"
      using k e by (simp add: andThen_value [where m = "get_stream i" for i, OF get_stream_run] set_queued_def set_limit_def
          prog_simps andThen_value [where m = "at_index x i" for x i, OF at_index_run] andThen_assoc)
    then have "for_each [0..<Suc k] ?f s
        = Some (Inr (), s\<lparr>client_mem := (client_mem s)\<lparr>tx_bufs_queued := q[?e := 0], tx_bufs_limit := l[?e := ?L]\<rparr>\<rparr>)"
      using I(1) by (simp add: append andThen_def pure_run)
    with I(2-4) e k show ?case
      by (intro exI [of _ "q[?e := 0]"] exI [of _ "l[?e := ?L]"])
        (auto simp: take_Suc_conv_app_nth nth_list_update)
  qed
  from this [of "unat n"] obtain q l where R: "for_each [0..<unat n] ?f s
      = Some (Inr (), s\<lparr>client_mem := (client_mem s)\<lparr>tx_bufs_queued := q, tx_bufs_limit := l\<rparr>\<rparr>)"
    "\<forall>st\<in>set (take (unat n) ?t). q ! unat (tx_ep st) = 0 \<and> l ! unat (tx_ep st) = ?L" by auto
  then show ?thesis using assms(1)
    by (intro exI [of _ q] exI [of _ l])
      (simp add: usb_testutils_streams_count_set_def andThen_value [where m = "for_each xs f" for xs f, OF R(1)] prog_simps
        linorder_not_less)
qed

subsection \<open>The way through memory\<close>

text \<open>C39: Streams survive a sleep. For at most eleven streams on endpoints of the device: what their suspension
  stores in a large enough buffer, a resumption in any context without queued buffers reads back: the same
  number of streams, each with its identity, endpoints, counters, generators and flags as they were, and with
  its transmission rewound to the last committed state, no buffer queued and the buffers shared out
  anew; the other elements of the table, the device and the test stack are not touched by the resumption.
  A buffer or an image that is too short is refused without any effect.\<close>

theorem usb_streams_suspend_resume:
  fixes s s2 :: "'d stream_sys"
  defines "n \<equiv> nstreams (client_mem s)"
  defines "sts \<equiv> take (unat n) (stream_table (client_mem s))"
    and "used \<equiv> (of_nat (1 + unat n * stream_sizeof) :: u32)"
  assumes saved: "n \<le> of_nat USBUTILS_STREAMS_MAX" "length (stream_table (client_mem s)) = USBUTILS_STREAMS_MAX"
      "\<forall>st\<in>set sts. unat (tx_ep st) < USBDEV_NUM_ENDPOINTS"
    and room: "used \<le> len" "unat len \<le> length buf"
    and fresh: "tx_queued_total (client_mem s2) = 0" "length (stream_table (client_mem s2)) = USBUTILS_STREAMS_MAX"
      "length (tx_bufs_queued (client_mem s2)) = USBDEV_NUM_ENDPOINTS" "length (tx_bufs_limit (client_mem s2)) = USBDEV_NUM_ENDPOINTS"
  shows "\<exists>bytes c s1. usb_testutils_streams_suspend (Some buf) len (Some u) s = Some (Inr (Some bytes, Some used), s1)
    \<and> usb_testutils_streams_resume (Some bytes) used s2 = Some (Inr (), s2\<lparr>client_mem := c\<rparr>)
    \<and> nstreams c = n \<and> stream_table c = map (\<lambda>st. st\<lparr>stream_tx := tx_cmt st\<rparr>) sts @ drop (unat n) (stream_table (client_mem s2))
    \<and> tx_queued_total c = 0 \<and> tx_bufs c = tx_bufs (client_mem s2)
    \<and> (\<forall>st\<in>set sts. tx_bufs_queued c ! unat (tx_ep st) = 0
        \<and> tx_bufs_limit c ! unat (tx_ep st) = of_nat ((USBUTILS_STREAMS_TXBUF_MAX + unat n - 1) div unat n))
    \<and> (\<forall>short<used. (\<exists>e. usb_testutils_streams_suspend (Some buf) short (Some u) s = Some (Inl (Returned e), s))
        \<and> (\<exists>e. usb_testutils_streams_resume (Some bytes) short s2 = Some (Inl (Returned e), s2)))"
proof -
  have n: "unat n \<le> 11" using saved(1) by (simp add: word_le_nat_alt USBUTILS_STREAMS_MAX_def USBDEV_NUM_ENDPOINTS_def)
  have max: "USBUTILS_STREAMS_MAX = 11" by (simp add: USBUTILS_STREAMS_MAX_def USBDEV_NUM_ENDPOINTS_def)
  have used: "used = 1 + ucast n * of_nat stream_sizeof" "unat used = 1 + unat n * 72"
    using n by (simp add: used_def of_nat_unat)
      (use n in \<open>simp add: used_def stream_sizeof_def unat_of_nat del: of_nat_add of_nat_mult of_nat_Suc\<close>)
  have sts: "length sts = unat n" using n saved(2) by (simp add: sts_def max)
  have "map (\<lambda>i. stream_image (stream_table (client_mem s) ! i)) [0..<unat n] = map stream_image sts"
    using sts by (simp add: list_eq_iff_nth_eq sts_def)
  then have images: "concat (map (\<lambda>i. stream_image (stream_table (client_mem s) ! i)) [0..<unat n]) = concat (map stream_image sts)"
    by simp
  let ?bytes = "put_bytes (put_bytes buf 0 [n]) 1 (concat (map stream_image sts))"
  have fits: "1 + unat n * 72 \<le> length buf" using room used(2) by (simp add: word_le_nat_alt)
  have save: "save_streams [0..<unat n] (put_bytes buf 0 [n]) 1 s = Some (Inr (?bytes, 1 + unat n * stream_sizeof), s)"
    using save_streams_run [of "[0..<unat n]" s 1 "put_bytes buf 0 [n]"] fits n saved(2)
    by (simp add: images length_put_bytes max stream_sizeof_def)
  have enough: "\<not> len < 1 + ucast n * of_nat stream_sizeof" using room(1) unfolding used(1) by simp
  have suspend: "usb_testutils_streams_suspend (Some buf) len (Some u) s = Some (Inr (Some ?bytes, Some used), s)"
    by (simp add: usb_testutils_streams_suspend_def prog_simps n_def [symmetric] enough
        andThen_value [where m = "save_streams x y z" for x y z, OF save [simplified]]) (simp add: used_def)
  have "length (concat (map stream_image sts)) = unat n * 72"
    unfolding sts [symmetric] by (induction sts) (simp_all add: stream_sizeof_def)
  then obtain rest where bytes: "?bytes = n # concat (map stream_image sts) @ rest"
    using fits by (cases buf) (auto simp: put_bytes_def)
  have down: "ucast (ucast n :: u32) = n" by (rule bit_word_eqI) (auto simp: bit_simps)
  have un: "unat (ucast n :: u32) = unat n" by (simp add: unat_ucast_up)
  let ?t = "map (\<lambda>st. st\<lparr>stream_tx := tx_cmt st\<rparr>) sts @ drop (unat n) (stream_table (client_mem s2))"
  let ?s = "s2\<lparr>client_mem := (client_mem s2)\<lparr>stream_table := ?t\<rparr>\<rparr>"
  have load: "load_streams [0..<unat n] (concat (map stream_image sts) @ rest) s2 = Some (Inr (), ?s)"
    using load_streams_run [of 0 sts s2 rest] n fresh(2) by (simp add: sts max)
  have first: "take (unat n) ?t = map (\<lambda>st. st\<lparr>stream_tx := tx_cmt st\<rparr>) sts" by (simp add: sts)
  have few: "(ucast n :: u32) \<le> of_nat USBUTILS_STREAMS_MAX" using n by (simp add: word_le_nat_alt un max)
  obtain q l where count: "usb_testutils_streams_count_set (ucast n) ?s = Some (Inr True, ?s\<lparr>client_mem := (client_mem ?s)\<lparr>nstreams := n,
      tx_queued_total := 0, tx_bufs_queued := q, tx_bufs_limit := l\<rparr>\<rparr>)"
    "\<forall>st\<in>set sts. q ! unat (tx_ep st) = 0 \<and> l ! unat (tx_ep st)
       = ucast ((of_nat USBUTILS_STREAMS_TXBUF_MAX + (ucast n :: u32) - 1) div ucast n)"
    using count_set_run [OF few, of ?s] saved(3) fresh n by (auto simp: un down sts max first simp del: append_take_drop_id)
  have "used \<noteq> 0" using used(2) by auto
  then have pos: "1 + ucast n * of_nat stream_sizeof \<noteq> (0 :: u32)" unfolding used(1) .
  have resume: "usb_testutils_streams_resume (Some ?bytes) used s2 = Some (Inr (), ?s\<lparr>client_mem := (client_mem ?s)\<lparr>nstreams := n,
      tx_queued_total := 0, tx_bufs_queued := q, tx_bufs_limit := l\<rparr>\<rparr>)"
    unfolding bytes
    by (simp add: usb_testutils_streams_resume_def prog_simps fresh(1) Let_def used(1) pos un andThen_value [where m = "load_streams x y" for x y, OF load]
        andThen_value [where m = "usb_testutils_streams_count_set x" for x, OF count(1)])
  have "k \<in> {1..11} \<Longrightarrow> ucast ((of_nat USBUTILS_STREAMS_TXBUF_MAX + (of_nat k :: u32) - 1) div of_nat k)
      = (of_nat ((USBUTILS_STREAMS_TXBUF_MAX + k - 1) div k) :: u8)" for k
    by (auto simp: USBUTILS_STREAMS_TXBUF_MAX_def atLeastAtMost_upt upt_rec simp flip: numeral_2_eq_2)
  from this [of "unat n"] have limit: "ucast ((of_nat USBUTILS_STREAMS_TXBUF_MAX + (ucast n :: u32) - 1) div ucast n)
      = (of_nat ((USBUTILS_STREAMS_TXBUF_MAX + unat n - 1) div unat n) :: u8)" if "0 < unat n"
    using that n by (simp add: of_nat_unat)
  have short: "\<exists>e. usb_testutils_streams_suspend (Some buf) k (Some u) s = Some (Inl (Returned e), s)"
    "\<exists>e. usb_testutils_streams_resume (Some ?bytes) k s2 = Some (Inl (Returned e), s2)" if "k < used" for k
    using that fresh(1) unfolding bytes
    by (simp_all add: usb_testutils_streams_suspend_def usb_testutils_streams_resume_def prog_simps return_error_def
        n_def [symmetric] used(1) [symmetric] Let_def)
  have share: "\<forall>st\<in>set sts. q ! unat (tx_ep st) = 0
      \<and> l ! unat (tx_ep st) = of_nat ((USBUTILS_STREAMS_TXBUF_MAX + unat n - 1) div unat n)"
  proof
    fix st assume "st \<in> set sts"
    moreover from this have "0 < unat n" using sts by (cases sts) auto
    ultimately show "q ! unat (tx_ep st) = 0 \<and> l ! unat (tx_ep st) = of_nat ((USBUTILS_STREAMS_TXBUF_MAX + unat n - 1) div unat n)"
      using count(2) limit by simp
  qed
  show ?thesis
    using suspend resume share short
    by (intro exI [of _ ?bytes] exI [of _ "(client_mem ?s)\<lparr>nstreams := n, tx_queued_total := 0, tx_bufs_queued := q, tx_bufs_limit := l\<rparr>"]
        exI [of _ s]) auto
qed

definition streams_example_ctx :: "usbdev_stream list \<Rightarrow> u8 \<Rightarrow> usb_testutils_streams_ctx" where
  "streams_example_ctx sts n = \<lparr>nstreams = n, stream_table = sts @ replicate (USBUTILS_STREAMS_MAX - length sts) (stream_example 1),
     tx_bufs_limit = replicate USBDEV_NUM_ENDPOINTS 0, tx_bufs_queued = replicate USBDEV_NUM_ENDPOINTS 0, tx_queued_total = 0,
     tx_bufs = []\<rparr>"

text \<open>Two streams, the second of which has run ahead of the host.\<close>

definition streams_example :: "usbdev_stream list" where
  "streams_example = [stream_example 3, (stream_example 5)\<lparr>stream_id := 1, tx_ep := 2,
     stream_tx := \<lparr>sig_required = False, tx_seq = 7, tx_lfsr = 0x42, tx_bytes = 48, buf_size = 9\<rparr>\<rparr>]"

lemma usb_streams_suspend_resume_witness:
  "\<exists>bytes c s1. usb_testutils_streams_suspend (Some (replicate 256 0)) 256 (Some 0) (stream_example_sys 1\<lparr>client_mem := streams_example_ctx streams_example 2\<rparr>)
      = Some (Inr (Some bytes, Some 145), s1)
    \<and> usb_testutils_streams_resume (Some bytes) 145 (stream_example_sys 1\<lparr>client_mem := streams_example_ctx [] 0\<rparr>)
      = Some (Inr (), stream_example_sys 1\<lparr>client_mem := c\<rparr>)
    \<and> nstreams c = 2 \<and> tx_lfsr (stream_tx (stream_table c ! 1)) = 1 \<and> tx_bufs_limit c ! 2 = 12"
proof -
  have ep: "unat (tx_ep st) < USBDEV_NUM_ENDPOINTS" if "st \<in> set streams_example" for st
    using that by (auto simp: streams_example_def stream_example_def Let_def USBDEV_NUM_ENDPOINTS_def)
  have l: "length streams_example = 2" by (simp add: streams_example_def)
  have c: "nstreams (streams_example_ctx sts n) = n" "length (tx_bufs_queued (streams_example_ctx sts n)) = USBDEV_NUM_ENDPOINTS"
    "length (tx_bufs_limit (streams_example_ctx sts n)) = USBDEV_NUM_ENDPOINTS" "tx_queued_total (streams_example_ctx sts n) = 0"
    "length sts \<le> 11 \<Longrightarrow> length (stream_table (streams_example_ctx sts n)) = USBUTILS_STREAMS_MAX"
    "take (length sts) (stream_table (streams_example_ctx sts n)) = sts" for sts n
    by (simp_all add: streams_example_ctx_def USBUTILS_STREAMS_MAX_def USBDEV_NUM_ENDPOINTS_def)
  let ?s = "stream_example_sys 1\<lparr>client_mem := streams_example_ctx streams_example 2\<rparr>"
    and ?s2 = "stream_example_sys 1\<lparr>client_mem := streams_example_ctx [] 0\<rparr>"
  have m: "client_mem ?s = streams_example_ctx streams_example 2" "client_mem ?s2 = streams_example_ctx [] 0" by simp_all
  have n: "nstreams (streams_example_ctx streams_example 2) = 2" "unat (2 :: u8) = 2" by (simp_all add: c(1))
  have sts: "take 2 (stream_table (streams_example_ctx streams_example 2)) = streams_example" using c(6) [of streams_example 2] l by simp
  have used: "of_nat (1 + 2 * stream_sizeof) = (145 :: u32)" by (simp add: stream_sizeof_def)
  have len: "length (stream_table (streams_example_ctx [] 0)) = USBUTILS_STREAMS_MAX"
    "length (stream_table (streams_example_ctx streams_example 2)) = USBUTILS_STREAMS_MAX"
    using c(5) [of "[]"] c(5) [of streams_example] l by simp_all
  have few: "2 \<le> (of_nat USBUTILS_STREAMS_MAX :: u8)" by (simp add: USBUTILS_STREAMS_MAX_def USBDEV_NUM_ENDPOINTS_def)
  have room: "(145 :: u32) \<le> 256" "unat (256 :: u32) \<le> length (replicate 256 (0 :: u8))" by simp_all
  have T: "\<exists>bytes c s1. usb_testutils_streams_suspend (Some (replicate 256 0)) 256 (Some 0) ?s = Some (Inr (Some bytes, Some 145), s1)
    \<and> usb_testutils_streams_resume (Some bytes) 145 ?s2 = Some (Inr (), ?s2\<lparr>client_mem := c\<rparr>)
    \<and> nstreams c = 2 \<and> stream_table c = map (\<lambda>st. st\<lparr>stream_tx := tx_cmt st\<rparr>) streams_example @ drop 2 (stream_table (client_mem ?s2))
    \<and> (\<forall>st\<in>set streams_example. tx_bufs_limit c ! unat (tx_ep st) = of_nat ((USBUTILS_STREAMS_TXBUF_MAX + 2 - 1) div 2))"
    using usb_streams_suspend_resume [of ?s 256 "replicate 256 0" ?s2 0, unfolded m n sts used,
        OF few len(2) _ room c(4) len(1) c(2,3)] ep unfolding m by blast
  then show ?thesis
    by (fastforce simp: streams_example_def stream_example_def Let_def USBUTILS_STREAMS_TXBUF_MAX_def)
qed
end
