(* ===== verification/UsbStreamSend.thy ===== *)
theory UsbStreamSend
  imports UsbStreamResume
begin

section \<open>The streams that the host receives\<close>

text \<open>
  The sending side of the stream checker on the device of the theory UsbSystem. A packet is built in a
  fresh buffer and queued at its endpoint; the first packet of the queue is at the device. The invariant
  \<open>streaming\<close> ties the queue, the packet memory and the committed state of the stream together; serving
  the stream and a packet that the host takes both keep it.
\<close>

subsection \<open>Writing on into a buffer\<close>

lemma overlay_self:
  assumes "\<And>j. j < length ys \<Longrightarrow> ys ! j = f (A + of_nat j)"
  shows "overlay f A ys = f"
proof
  fix x
  show "overlay f A ys x = f x" using assms [of "unat (x - A)"] by (simp add: overlay_def Let_def)
qed

lemma append_write:
  assumes "base (base_addr h) mod 4 = 0" "unat i < 32" "k + n \<le> 64" "n \<le> length src"
  shows "\<exists>d'. run_state (dif_usbdev_buffer_write (usb_bus_of h) (Some h) (Some (written_buffer i k)) (Some src) (of_nat n) (Some 0)) d
      = ((kDifOk, Some (written_buffer i (k + n)), Some (of_nat n)), d')
    \<and> d' = d\<lparr>packet_mem := packet_mem d'\<rparr> \<and> buffer_data h d' i (k + n) = buffer_data h d i k @ take n src
    \<and> (\<forall>j l. unat j < 32 \<longrightarrow> j \<noteq> i \<longrightarrow> l \<le> 64 \<longrightarrow> buffer_data h d' j l = buffer_data h d j l)"
proof -
  have k: "unat (of_nat k :: u8) = k" using unat_of_nat_8 assms(3) by simp
  have r: "unat (64 - of_nat k :: u8) = 64 - k" using assms(3) k by (subst unat_sub) (simp_all add: word_le_nat_alt)
  have n: "unat (of_nat n :: u32) = n" using assms(3) by (simp add: unat_of_nat)
  have wf: "buffer_wf (written_buffer i k)"
    using assms(3) k r by (simp add: written_buffer_def buffer_wf_def USBDEV_BUFFER_ENTRY_SIZE_BYTES_def USBDEV_MAX_PACKET_SIZE_def)
  have ku: "ucast (of_nat k :: u8) = (of_nat k :: u32)" using k by (metis of_nat_unat ucast_id)
  have mn: "min (64 - k) n = n" using assms(3) by simp
  let ?A = "base (base_addr h) + get_buffer_addr i 0"
  have A: "base (base_addr h) + get_buffer_addr i (of_nat k) = ?A + of_nat k" by (simp add: get_buffer_addr_def)
  obtain d' where d': "run_state (dif_usbdev_buffer_write (usb_bus_of h) (Some h) (Some (written_buffer i k)) (Some src) (of_nat n) (Some 0)) d
      = ((kDifOk, Some (written_buffer i (k + n)), Some (of_nat n)), d')"
    "usb_mem.byte_at h d' = overlay (usb_mem.byte_at h d) (?A + of_nat k) (take n src)"
    "d' = d\<lparr>packet_mem := packet_mem d'\<rparr>"
    using dif_usbdev_buffer_write_device [OF assms(1) _ wf, of "of_nat n" src "Some 0" d] assms(2-4) n r
    mn by (auto simp: written_buffer_def mn ku A diff_diff_add)
  let ?ys = "buffer_data h d i k"
  have self: "overlay (usb_mem.byte_at h d) ?A ?ys = usb_mem.byte_at h d"
    by (rule overlay_self) (simp add: buffer_data_def usb_mem.bytes_at_def)
  have over: "usb_mem.byte_at h d' = overlay (usb_mem.byte_at h d) ?A (?ys @ take n src)"
    using overlay_append [of ?ys "take n src" "usb_mem.byte_at h d" ?A] assms(3) unfolding self d'(2) by simp
  have l: "length (?ys @ take n src) = k + n" using assms(4) by simp
  have "buffer_data h d' i (k + n) = ?ys @ take n src"
    using buffer_data_same [OF over] assms(3) l by metis
  moreover have "buffer_data h d' j m = buffer_data h d j m" if "unat j < 32" "j \<noteq> i" "m \<le> 64" for j m
    using buffer_data_other [OF over _ that(1) assms(2) that(2,3)] assms(3) l by simp
  ultimately show ?thesis using d' by blast
qed

lemma usb_inv_perm: "mset H = mset H' \<Longrightarrow> usb_inv (world s H F) = usb_inv (world s H' F)"
  using mset_eq_setD [of H H'] by (simp add: usb_inv_def owned_def)

text \<open>Writing more of a packet into its buffer.\<close>

lemma write_run:
  assumes "usb_inv (world s (written_buffer i k # H) F)" "base (base_addr (ctx_dev (ctx s))) mod 4 = 0" "k + n \<le> 64" "n \<le> length src"
  defines "h \<equiv> ctx_dev (ctx s)"
  shows "\<exists>m. let s' = s\<lparr>usb_device := (usb_device s)\<lparr>packet_mem := m\<rparr>\<rparr> in
      call (\<lambda>dev. dif_usbdev_buffer_write (usb_bus_of h) dev (Some (written_buffer i k)) (Some src) (of_nat n) (Some 0)) s
        = Some (Inr (kDifOk, Some (written_buffer i (k + n)), Some (of_nat n)), s')
    \<and> usb_inv (world s' (written_buffer i (k + n) # H) F) \<and> buffer_data h (usb_device s') i (k + n) = buffer_data h (usb_device s) i k @ take n src
    \<and> (\<forall>j l. unat j < 32 \<longrightarrow> j \<noteq> i \<longrightarrow> l \<le> 64 \<longrightarrow> buffer_data h (usb_device s') j l = buffer_data h (usb_device s) j l)"
proof -
  have i: "unat i < 32" using held_id(1) [OF assms(1), of "written_buffer i k"] by (simp add: written_buffer_def)
  have n: "unat (of_nat n :: u32) = n" using assms(3) by (simp add: unat_of_nat)
  obtain d' where w: "run_state (dif_usbdev_buffer_write (usb_bus_of h) (Some h) (Some (written_buffer i k)) (Some src) (of_nat n) (Some 0)) (usb_device s)
      = ((kDifOk, Some (written_buffer i (k + n)), Some (of_nat n)), d')"
    "d' = (usb_device s)\<lparr>packet_mem := packet_mem d'\<rparr>" "buffer_data h d' i (k + n) = buffer_data h (usb_device s) i k @ take n src"
    "\<forall>j l. unat j < 32 \<longrightarrow> j \<noteq> i \<longrightarrow> l \<le> 64 \<longrightarrow> buffer_data h d' j l = buffer_data h (usb_device s) j l"
    using append_write [of h i k n src "usb_device s"] assms(2-4) i unfolding h_def by blast
  have "run_state (dif_usbdev_buffer_write (usb_bus_of h) (Some h) (Some (written_buffer i k)) (Some src) (of_nat n) (Some 0)) (dev (world s (written_buffer i k # H) F))
      = ((kDifOk, Some (written_buffer i (k + n)), Some (of_nat n)), d')" using w(1) by simp
  from usb_packet_write_inv [OF assms(1) _ _ _ this] assms(2,4) n
  have "usb_inv (world (s\<lparr>usb_device := d'\<rparr>) (written_buffer i (k + n) # H) F)"
    by (simp add: world_def keep_def written_buffer_def h_def)
  with w show ?thesis unfolding Let_def
    by (intro exI [of _ "packet_mem d'"]) (simp add: call_def h_def flip: w(2))
qed

subsection \<open>What a stream emits\<close>

text \<open>A stream of data for the host.\<close>

definition data_stream :: "usbdev_stream \<Rightarrow> bool" where
  "data_stream st \<longleftrightarrow> xfr_type st \<noteq> kUsbTransferTypeIsochronous \<and> stream_sending st \<and> stream_generating st"

definition signature_of :: "usbdev_stream \<Rightarrow> usbdev_stream_tx \<Rightarrow> u8 list" where
  "signature_of st tx = sig_image \<lparr>head_sig = USBDEV_STREAM_SIGNATURE_HEAD, init_lfsr = tx_lfsr tx,
     sig_stream = stream_id st OR ucast (stream_flags st), seq_lo = ucast (tx_seq tx), seq_hi = ucast (drop_bit 8 (tx_seq tx)),
     sig_num_bytes = transfer_bytes st - (tx_bytes tx mod transfer_bytes st), tail_sig = USBDEV_STREAM_SIGNATURE_TAIL\<rparr>"

lemma length_signature [simp]: "length (signature_of st tx) = 16"
  by (simp add: signature_of_def sig_image_def word_bytes_def)

text \<open>The stream moves from the transmission state \<open>tx\<close> to \<open>tx'\<close> and emits \<open>p\<close>: the signature, when it is
  still required, and the next bytes of the generator.\<close>

definition emits :: "usbdev_stream \<Rightarrow> usbdev_stream_tx \<Rightarrow> u8 list \<Rightarrow> usbdev_stream_tx \<Rightarrow> bool" where
  "emits st tx p tx' \<longleftrightarrow> (\<exists>m. p = (if sig_required tx then signature_of st tx else []) @ lfsr_stream m (tx_lfsr tx)
     \<and> \<not> sig_required tx' \<and> tx_lfsr tx' = (LFSR_ADVANCE ^^ m) (tx_lfsr tx)
     \<and> tx_bytes tx' = tx_bytes tx + of_nat m \<and> unat (tx_bytes tx) + m \<le> unat (transfer_bytes st))"

lemma emits_trans:
  assumes "emits st tx p tx'" "emits st tx' p' tx''"
  shows "emits st tx (p @ p') tx''"
proof -
  obtain m where m: "p = (if sig_required tx then signature_of st tx else []) @ lfsr_stream m (tx_lfsr tx)" "\<not> sig_required tx'"
    "tx_lfsr tx' = (LFSR_ADVANCE ^^ m) (tx_lfsr tx)" "tx_bytes tx' = tx_bytes tx + of_nat m"
    "unat (tx_bytes tx) + m \<le> unat (transfer_bytes st)" using assms(1) unfolding emits_def by blast
  obtain n where n: "p' = lfsr_stream n (tx_lfsr tx')" "\<not> sig_required tx''" "tx_lfsr tx'' = (LFSR_ADVANCE ^^ n) (tx_lfsr tx')"
    "tx_bytes tx'' = tx_bytes tx' + of_nat n" "unat (tx_bytes tx') + n \<le> unat (transfer_bytes st)"
    using assms(2) m(2) unfolding emits_def by auto
  have b: "unat (tx_bytes tx) + m < 2 ^ 32" using m(5) unat_less_2p [of "transfer_bytes st"] by simp
  then have "unat (of_nat m :: u32) = m" by (simp add: unat_of_nat)
  with b have "unat (tx_bytes tx') = unat (tx_bytes tx) + m" unfolding m(4) by (subst unat_add_lem [THEN iffD1]) simp_all
  moreover have "(LFSR_ADVANCE ^^ n) ((LFSR_ADVANCE ^^ m) x) = (LFSR_ADVANCE ^^ (m + n)) x" for x
    by (metis add.commute comp_apply funpow_add)
  ultimately show ?thesis using m n unfolding emits_def
    by (intro exI [of _ "m + n"]) (auto simp: lfsr_stream_add)
qed

lemma packet_length_bound:
  assumes "xfr_type st \<noteq> kUsbTransferTypeIsochronous" "bytes < transfer_bytes st"
  shows "unat (fst (packet_length st bytes l)) \<le> 64"
    and "sig_required (stream_tx st) \<and> unat (fst (packet_length st bytes l)) = 16
      \<or> unat (fst (packet_length st bytes l)) \<le> unat (transfer_bytes st - bytes)"
proof -
  let ?d = "transfer_bytes st - bytes"
  let ?left = "if ?d < 64 then ucast ?d else (64 :: u8)"
  have left: "unat ?left \<le> 64 \<and> unat ?left \<le> unat ?d"
  proof (cases "?d < 64")
    case True
    then have "unat ?d < 64" by (simp add: word_less_nat_alt)
    moreover from this have "unat (ucast ?d :: u8) = unat ?d" by (simp add: unsigned_ucast_eq take_bit_nat_eq_self)
    ultimately show ?thesis using True by simp
  qed (auto simp: word_less_nat_alt)
  have up: "unat (ucast ?left + 1 :: u32) = unat ?left + 1" using left by (subst unat_add_lem [THEN iffD1]) (simp_all add: unat_ucast_up)
  have "unat (ucast l mod (ucast ?left + 1) :: u32) \<le> unat ?left"
    unfolding unat_mod up by (metis mod_less_divisor Suc_eq_plus1 less_Suc_eq_le zero_less_Suc)
  moreover from this left have "unat (ucast (ucast l mod (ucast ?left + 1) :: u32) :: u8) = unat (ucast l mod (ucast ?left + 1) :: u32)"
    by (simp add: unsigned_ucast_eq take_bit_nat_eq_self)
  ultimately have m: "unat (ucast (ucast l mod (ucast ?left + 1) :: u32) :: u8) \<le> unat ?left" by simp
  have e: "packet_length st bytes l = (if stream_flags st AND kUsbdevStreamFlagMaxPackets \<noteq> 0 then (?left, l)
      else (if sig_required (stream_tx st) then 16 else ucast (ucast l mod (ucast ?left + 1) :: u32), LFSR_ADVANCE l))"
    using assms by (simp add: packet_length_def Let_def USBDEV_MAX_PACKET_SIZE_def)
  show "unat (fst (packet_length st bytes l)) \<le> 64" "sig_required (stream_tx st) \<and> unat (fst (packet_length st bytes l)) = 16
      \<or> unat (fst (packet_length st bytes l)) \<le> unat ?d"
    unfolding e using left m by (auto split: if_splits)
qed


subsection \<open>A packet of a stream\<close>

lemma emits_tx [simp]: "emits (st\<lparr>stream_tx := x\<rparr>) = emits st" "emits (st\<lparr>tx_cmt := x\<rparr>) = emits st"
  "signature_of (st\<lparr>stream_tx := x\<rparr>) = signature_of st" "data_stream (st\<lparr>stream_tx := x\<rparr>) = data_stream st"
  "data_stream (st\<lparr>tx_cmt := x\<rparr>) = data_stream st"
  by (simp_all add: emits_def signature_of_def data_stream_def fun_eq_iff)

lemma fill_stream_run:
  assumes "usb_inv (world s (written_buffer i k # H) F)" "base (base_addr (ctx_dev (ctx s))) mod 4 = 0" "k + n \<le> 64" "length junk = 64"
    "stream_generating st"
  defines "h \<equiv> ctx_dev (ctx s)" and "tx \<equiv> stream_tx st"
  shows "\<exists>m. let s' = s\<lparr>usb_device := (usb_device s)\<lparr>packet_mem := m\<rparr>\<rparr> in
      buffer_fill (usb_bus_of h) junk st (written_buffer i k) (of_nat n) s
        = Some (Inr (st\<lparr>stream_tx := tx\<lparr>tx_lfsr := (LFSR_ADVANCE ^^ n) (tx_lfsr tx), tx_bytes := tx_bytes tx + of_nat n\<rparr>\<rparr>,
            written_buffer i (k + n)), s')
    \<and> usb_inv (world s' (written_buffer i (k + n) # H) F)
    \<and> buffer_data h (usb_device s') i (k + n) = buffer_data h (usb_device s) i k @ lfsr_stream n (tx_lfsr tx)
    \<and> (\<forall>j l. unat j < 32 \<longrightarrow> j \<noteq> i \<longrightarrow> l \<le> 64 \<longrightarrow> buffer_data h (usb_device s') j l = buffer_data h (usb_device s) j l)"
proof -
  let ?data = "put_bytes junk 0 (lfsr_stream n (tx_lfsr tx))"
  have n: "unat (of_nat n :: u8) = n" "ucast (of_nat n :: u8) = (of_nat n :: u32)"
    using unat_of_nat_8 [of n] assms(3) by (simp, metis add_leE of_nat_unat ucast_id unat_of_nat_8)
  have r: "unat (remaining_bytes (written_buffer i k)) = 64 - k"
    using assms(3) unat_of_nat_8 [of k] by (simp add: written_buffer_def) (subst unat_sub, simp_all add: word_le_nat_alt)
  have data: "take n ?data = lfsr_stream n (tx_lfsr tx)" "n \<le> length ?data"
    using assms(3,4) by (simp_all add: put_bytes_def)
  obtain m where W: "call (\<lambda>dev. dif_usbdev_buffer_write (usb_bus_of h) dev (Some (written_buffer i k)) (Some ?data) (of_nat n) (Some 0)) s
        = Some (Inr (kDifOk, Some (written_buffer i (k + n)), Some (of_nat n)), s\<lparr>usb_device := (usb_device s)\<lparr>packet_mem := m\<rparr>\<rparr>)"
    "usb_inv (world (s\<lparr>usb_device := (usb_device s)\<lparr>packet_mem := m\<rparr>\<rparr>) (written_buffer i (k + n) # H) F)"
    "buffer_data h ((usb_device s)\<lparr>packet_mem := m\<rparr>) i (k + n) = buffer_data h (usb_device s) i k @ lfsr_stream n (tx_lfsr tx)"
    "\<forall>j l. unat j < 32 \<longrightarrow> j \<noteq> i \<longrightarrow> l \<le> 64 \<longrightarrow> buffer_data h ((usb_device s)\<lparr>packet_mem := m\<rparr>) j l = buffer_data h (usb_device s) j l"
    using write_run [OF assms(1,2,3) data(2)] unfolding data(1) h_def Let_def by auto
  have le: "n \<le> 64 - k" using assms(3) by simp
  have c: "CHECK (of_nat n \<le> remaining_bytes (written_buffer i k)) = pure ()" "CHECK (n \<le> USBDEV_MAX_PACKET_SIZE) = pure ()"
    using assms(3) n r le by (simp_all add: word_le_nat_alt USBDEV_MAX_PACKET_SIZE_def)
  have "buffer_fill (usb_bus_of h) junk st (written_buffer i k) (of_nat n) s
        = Some (Inr (st\<lparr>stream_tx := tx\<lparr>tx_lfsr := (LFSR_ADVANCE ^^ n) (tx_lfsr tx), tx_bytes := tx_bytes tx + of_nat n\<rparr>\<rparr>,
            written_buffer i (k + n)), s\<lparr>usb_device := (usb_device s)\<lparr>packet_mem := m\<rparr>\<rparr>)"
    using assms(5) unfolding buffer_fill_def c andThen_pure Let_def n if_P [OF assms(5)] tx_def [symmetric]
    by (simp add: andThen_value [where m = "call f" for f, OF W(1)] pure_run)
  with W(2-4) show ?thesis unfolding Let_def by (intro exI [of _ m]) simp
qed


lemma signature_run:
  assumes "usb_inv (world s (written_buffer i 0 # H) F)" "base (base_addr (ctx_dev (ctx s))) mod 4 = 0" "transfer_bytes st \<noteq> 0"
  defines "h \<equiv> ctx_dev (ctx s)" and "tx \<equiv> stream_tx st"
  shows "\<exists>m. let s' = s\<lparr>usb_device := (usb_device s)\<lparr>packet_mem := m\<rparr>\<rparr> in
      buffer_sig_create (usb_bus_of h) st (written_buffer i 0) s
        = Some (Inr (16, st\<lparr>stream_tx := tx\<lparr>tx_seq := tx_seq tx + 1\<rparr>\<rparr>, written_buffer i 16), s')
    \<and> usb_inv (world s' (written_buffer i 16 # H) F) \<and> buffer_data h (usb_device s') i 16 = signature_of st tx
    \<and> (\<forall>j l. unat j < 32 \<longrightarrow> j \<noteq> i \<longrightarrow> l \<le> 64 \<longrightarrow> buffer_data h (usb_device s') j l = buffer_data h (usb_device s) j l)"
proof -
  have l: "take 16 (signature_of st tx) = signature_of st tx" by simp
  have b: "buffer_data h (usb_device s) i 0 = []" by (simp flip: length_0_conv)
  obtain m where W: "call (\<lambda>dev. dif_usbdev_buffer_write (usb_bus_of h) dev (Some (written_buffer i 0)) (Some (signature_of st tx)) 16 (Some 0)) s
        = Some (Inr (kDifOk, Some (written_buffer i 16), Some 16), s\<lparr>usb_device := (usb_device s)\<lparr>packet_mem := m\<rparr>\<rparr>)"
    "usb_inv (world (s\<lparr>usb_device := (usb_device s)\<lparr>packet_mem := m\<rparr>\<rparr>) (written_buffer i 16 # H) F)"
    "buffer_data h ((usb_device s)\<lparr>packet_mem := m\<rparr>) i 16 = signature_of st tx"
    "\<forall>j l. unat j < 32 \<longrightarrow> j \<noteq> i \<longrightarrow> l \<le> 64 \<longrightarrow> buffer_data h ((usb_device s)\<lparr>packet_mem := m\<rparr>) j l = buffer_data h (usb_device s) j l"
    using write_run [OF assms(1,2), of 16 "signature_of st tx"] b unfolding l h_def Let_def by auto
  have "buffer_sig_create (usb_bus_of h) st (written_buffer i 0) s
        = Some (Inr (16, st\<lparr>stream_tx := tx\<lparr>tx_seq := tx_seq tx + 1\<rparr>\<rparr>, written_buffer i 16), s\<lparr>usb_device := (usb_device s)\<lparr>packet_mem := m\<rparr>\<rparr>)"
    using assms(3) unfolding buffer_sig_create_def Let_def if_not_P [OF assms(3)] tx_def [symmetric] signature_of_def [symmetric]
    by (simp add: andThen_value [where m = "call f" for f, OF W(1)] pure_run)
  with W(2-4) show ?thesis unfolding Let_def by (intro exI [of _ m]) simp
qed

lemma stream_packet_run:
  assumes "usb_inv (world s (written_buffer i 0 # H) F)" "base (base_addr (ctx_dev (ctx s))) mod 4 = 0" "length junk = 64"
    "data_stream st"
  defines "h \<equiv> ctx_dev (ctx s)" and "tx \<equiv> stream_tx st"
  assumes "tx_bytes tx < transfer_bytes st"
  shows "\<exists>p tx' m. let s' = s\<lparr>usb_device := (usb_device s)\<lparr>packet_mem := m\<rparr>\<rparr> in
      stream_packet (usb_bus_of h) junk st (written_buffer i 0) s = Some (Inr (st\<lparr>stream_tx := tx'\<rparr>, written_buffer i (length p)), s')
    \<and> emits st tx p tx' \<and> length p \<le> 64
    \<and> usb_inv (world s' (written_buffer i (length p) # H) F) \<and> buffer_data h (usb_device s') i (length p) = p
    \<and> (\<forall>j l. unat j < 32 \<longrightarrow> j \<noteq> i \<longrightarrow> l \<le> 64 \<longrightarrow> buffer_data h (usb_device s') j l = buffer_data h (usb_device s) j l)"
proof -
  obtain len l where L: "packet_length st (tx_bytes tx) (buf_size tx) = (len, l)" by fastforce
  have bound: "unat len \<le> 64" "sig_required tx \<and> unat len = 16 \<or> unat len \<le> unat (transfer_bytes st - tx_bytes tx)"
    using packet_length_bound [of st "tx_bytes tx" "buf_size tx"] assms(4,7) L unfolding tx_def data_stream_def by simp_all
  have room: "unat (transfer_bytes st - tx_bytes tx) = unat (transfer_bytes st) - unat (tx_bytes tx)" "unat (tx_bytes tx) < unat (transfer_bytes st)"
    using assms(7) by (simp_all add: word_less_nat_alt unat_sub word_le_nat_alt)
  let ?k = "if sig_required tx then 16 else 0 :: nat" and ?pre = "if sig_required tx then signature_of st tx else []"
  let ?st = "st\<lparr>stream_tx := tx\<lparr>buf_size := l\<rparr>\<rparr>"
  let ?tx1 = "tx\<lparr>buf_size := l, sig_required := False, tx_seq := if sig_required tx then tx_seq tx + 1 else tx_seq tx\<rparr>"
  let ?sig = "if sig_required (stream_tx ?st) then
           andThen (buffer_sig_create (usb_bus_of h) ?st (written_buffer i 0)) (\<lambda>(bytes_added, s, buf).
           let s = (if \<not> stream_sending s then s\<lparr>stream_tx := (stream_tx s)\<lparr>tx_bytes := transfer_bytes s\<rparr>\<rparr> else s);
               s = (if \<not> stream_sending s \<or> xfr_type s \<noteq> kUsbTransferTypeIsochronous
                 then s\<lparr>stream_tx := (stream_tx s)\<lparr>sig_required := False\<rparr>\<rparr> else s)
           in pure (bytes_added, s, buf))
         else pure (0, ?st, written_buffer i 0)"
  have pre: "length ?pre = ?k" by simp
  obtain m1 where S: "?sig s = Some (Inr (of_nat ?k, st\<lparr>stream_tx := ?tx1\<rparr>, written_buffer i ?k), s\<lparr>usb_device := (usb_device s)\<lparr>packet_mem := m1\<rparr>\<rparr>)"
    "usb_inv (world (s\<lparr>usb_device := (usb_device s)\<lparr>packet_mem := m1\<rparr>\<rparr>) (written_buffer i ?k # H) F)"
    "buffer_data h ((usb_device s)\<lparr>packet_mem := m1\<rparr>) i ?k = ?pre"
    "\<forall>j l. unat j < 32 \<longrightarrow> j \<noteq> i \<longrightarrow> l \<le> 64 \<longrightarrow> buffer_data h ((usb_device s)\<lparr>packet_mem := m1\<rparr>) j l = buffer_data h (usb_device s) j l"
  proof (cases "sig_required tx")
    case False
    then show ?thesis
      using that [of "packet_mem (usb_device s)"] assms(1) by (simp add: pure_run) (simp flip: length_0_conv)
  next
    case True
    have nz: "transfer_bytes ?st \<noteq> 0" using assms(7) by (auto simp: word_less_nat_alt)
    obtain m where "buffer_sig_create (usb_bus_of h) ?st (written_buffer i 0) s
        = Some (Inr (16, ?st\<lparr>stream_tx := (stream_tx ?st)\<lparr>tx_seq := tx_seq (stream_tx ?st) + 1\<rparr>\<rparr>, written_buffer i 16),
          s\<lparr>usb_device := (usb_device s)\<lparr>packet_mem := m\<rparr>\<rparr>)"
      "usb_inv (world (s\<lparr>usb_device := (usb_device s)\<lparr>packet_mem := m\<rparr>\<rparr>) (written_buffer i 16 # H) F)"
      "buffer_data h ((usb_device s)\<lparr>packet_mem := m\<rparr>) i 16 = signature_of ?st (stream_tx ?st)"
      "\<forall>j l. unat j < 32 \<longrightarrow> j \<noteq> i \<longrightarrow> l \<le> 64 \<longrightarrow> buffer_data h ((usb_device s)\<lparr>packet_mem := m\<rparr>) j l = buffer_data h (usb_device s) j l"
      using signature_run [OF assms(1,2) nz] unfolding h_def Let_def by auto
    with True assms(4) show ?thesis
      by (intro that [of m]) (simp_all add: andThen_def pure_run Let_def data_stream_def signature_of_def)
  qed
  have sp: "stream_packet (usb_bus_of h) junk st (written_buffer i 0) = andThen ?sig (\<lambda>(bytes_added, s, buf).
      if bytes_added < len then buffer_fill (usb_bus_of h) junk s buf (len - bytes_added) else pure (s, buf))"
    using L by (simp add: stream_packet_def Let_def tx_def)
  have p: "stream_packet (usb_bus_of h) junk st (written_buffer i 0) s
      = (if of_nat ?k < len then buffer_fill (usb_bus_of h) junk (st\<lparr>stream_tx := ?tx1\<rparr>) (written_buffer i ?k) (len - of_nat ?k)
         else pure (st\<lparr>stream_tx := ?tx1\<rparr>, written_buffer i ?k)) (s\<lparr>usb_device := (usb_device s)\<lparr>packet_mem := m1\<rparr>\<rparr>)"
    unfolding sp andThen_value [where m = ?sig, OF S(1)] prod.case by (rule refl)
  have k: "unat (of_nat ?k :: u8) = ?k" by simp
  have tx1: "(stream_tx (st\<lparr>stream_tx := ?tx1\<rparr>)) = ?tx1" by simp
  show ?thesis
  proof (cases "of_nat ?k < len")
    case False
    have "emits st tx ?pre ?tx1" unfolding emits_def using room by (intro exI [of _ 0]) simp
    with False p S(2-4) show ?thesis
      by (intro exI [of _ ?pre] exI [of _ ?tx1] exI [of _ m1]) (cases "sig_required tx"; simp add: pure_run Let_def)
  next
    case True
    define n where "n = unat len - ?k"
    have lt: "?k < unat len" using True by (simp only: word_less_nat_alt k)
    then have kn: "?k + n = unat len" "len - of_nat ?k = of_nat n"
      unfolding n_def by (simp, subst of_nat_diff, simp_all only: of_nat_unat ucast_id less_imp_le)
    have n: "?k + n \<le> 64" "unat (tx_bytes tx) + n \<le> unat (transfer_bytes st)"
      using bound room lt kn(1) by auto
    let ?s1 = "s\<lparr>usb_device := (usb_device s)\<lparr>packet_mem := m1\<rparr>\<rparr>" and ?st1 = "st\<lparr>stream_tx := ?tx1\<rparr>"
    have g: "stream_generating ?st1" "ctx_dev (ctx ?s1) = h" "base (base_addr (ctx_dev (ctx ?s1))) mod 4 = 0"
      using assms(2,4) by (simp_all add: data_stream_def h_def)
    let ?p = "?pre @ lfsr_stream n (tx_lfsr tx)"
    let ?tx2 = "?tx1\<lparr>tx_lfsr := (LFSR_ADVANCE ^^ n) (tx_lfsr tx), tx_bytes := tx_bytes tx + of_nat n\<rparr>"
    obtain m where F: "buffer_fill (usb_bus_of h) junk ?st1 (written_buffer i ?k) (of_nat n) ?s1
        = Some (Inr (?st1\<lparr>stream_tx := ?tx2\<rparr>, written_buffer i (?k + n)), ?s1\<lparr>usb_device := (usb_device ?s1)\<lparr>packet_mem := m\<rparr>\<rparr>)"
      "usb_inv (world (?s1\<lparr>usb_device := (usb_device ?s1)\<lparr>packet_mem := m\<rparr>\<rparr>) (written_buffer i (?k + n) # H) F)"
      "buffer_data h ((usb_device ?s1)\<lparr>packet_mem := m\<rparr>) i (?k + n) = ?p"
      "\<forall>j l. unat j < 32 \<longrightarrow> j \<noteq> i \<longrightarrow> l \<le> 64 \<longrightarrow> buffer_data h ((usb_device ?s1)\<lparr>packet_mem := m\<rparr>) j l = buffer_data h (usb_device ?s1) j l"
      using fill_stream_run [OF S(2) g(3) n(1) assms(3) g(1), unfolded g(2) tx1] S(3) unfolding Let_def by auto
    have "emits st tx ?p ?tx2" unfolding emits_def using n(2) by (intro exI [of _ n]) simp
    moreover have "length ?p = ?k + n" using pre by simp
    ultimately show ?thesis using p True F S(4) n(1) unfolding kn(2)
      by (intro exI [of _ ?p] exI [of _ ?tx2] exI [of _ m]) (cases "sig_required tx"; simp add: Let_def)
  qed
qed

subsection \<open>The queue of an endpoint\<close>

definition queue_of :: "nat \<Rightarrow> usb_testutils_streams_ctx \<Rightarrow> stream_tx_buf list" where
  "queue_of ep c = take (unat (tx_bufs_queued c ! ep)) (tx_bufs c ! ep)"

text \<open>The stream \<open>sid\<close> uses the endpoint \<open>ep\<close>, and the arrays have their sizes.\<close>

definition stream_tables :: "nat \<Rightarrow> nat \<Rightarrow> usb_testutils_streams_ctx \<Rightarrow> bool" where
  "stream_tables ep sid c \<longleftrightarrow> ep < 12 \<and> sid < length (stream_table c) \<and> tx_ep (stream_table c ! sid) = of_nat ep
     \<and> data_stream (stream_table c ! sid)
     \<and> length (tx_bufs_queued c) = 12 \<and> length (tx_bufs_limit c) = 12 \<and> length (tx_bufs c) = 12 \<and> length (tx_bufs c ! ep) = 24
     \<and> unat (tx_bufs_limit c ! ep) \<le> 24 \<and> unat (tx_bufs_queued c ! ep) \<le> unat (tx_queued_total c) \<and> unat (tx_queued_total c) \<le> 24"

definition enqueue :: "nat \<Rightarrow> nat \<Rightarrow> usbdev_stream \<Rightarrow> dif_usbdev_buffer \<Rightarrow> usb_testutils_streams_ctx \<Rightarrow> usb_testutils_streams_ctx" where
  "enqueue ep sid st b c = c\<lparr>stream_table := (stream_table c)[sid := st],
     tx_bufs := (tx_bufs c)[ep := (tx_bufs c ! ep)[unat (tx_bufs_queued c ! ep) := \<lparr>queued_buf = b, queued_tx = stream_tx st\<rparr>]],
     tx_bufs_queued := (tx_bufs_queued c)[ep := tx_bufs_queued c ! ep + 1], tx_queued_total := tx_queued_total c + 1\<rparr>"

lemma unat_inc_8: "unat (n :: u8) < 24 \<Longrightarrow> unat (n + 1) = unat n + 1"
  by (subst unat_add_lem [THEN iffD1]) simp_all

lemma length_queue: "stream_tables ep sid c \<Longrightarrow> length (queue_of ep c) = unat (tx_bufs_queued c ! ep)"
  by (simp add: queue_of_def stream_tables_def)

lemma enqueue_tables:
  assumes "stream_tables ep sid c" "unat (tx_queued_total c) < 24" "tx_ep st = of_nat ep" "data_stream st"
  shows "stream_tables ep sid (enqueue ep sid st b c)"
    "queue_of ep (enqueue ep sid st b c) = queue_of ep c @ [\<lparr>queued_buf = b, queued_tx = stream_tx st\<rparr>]"
    "stream_table (enqueue ep sid st b c) ! sid = st"
proof -
  have q: "unat (tx_bufs_queued c ! ep) < 24" "unat (tx_bufs_queued c ! ep + 1) = unat (tx_bufs_queued c ! ep) + 1"
    "unat (tx_queued_total c + 1) = unat (tx_queued_total c) + 1"
    using assms(1,2) unat_inc_8 unfolding stream_tables_def by auto
  show "stream_tables ep sid (enqueue ep sid st b c)"
    using assms q unfolding stream_tables_def by (simp add: enqueue_def)
  show "queue_of ep (enqueue ep sid st b c) = queue_of ep c @ [\<lparr>queued_buf = b, queued_tx = stream_tx st\<rparr>]"
    using assms q unfolding stream_tables_def by (simp add: enqueue_def queue_of_def take_Suc_conv_app_nth)
  show "stream_table (enqueue ep sid st b c) ! sid = st" using assms(1) by (simp add: enqueue_def stream_tables_def)
qed

lemma enqueue_run:
  assumes "stream_tables ep sid (client_mem s)" "unat (tx_bufs_queued (client_mem s) ! ep) < 24"
  defines "n \<equiv> tx_bufs_queued (client_mem s) ! ep"
  shows "andThen (set_stream sid st) (\<lambda>_. andThen (set_tx_buf (of_nat ep) (unat n) \<lparr>queued_buf = b, queued_tx = stream_tx st\<rparr>) (\<lambda>_.
         andThen (set_queued (of_nat ep) (n + 1)) (\<lambda>_.
         andThen (change (client_mem_update (tx_queued_total_update (\<lambda>n. n + 1)))) f))) s
    = f () (s\<lparr>client_mem := enqueue ep sid st b (client_mem s)\<rparr>)"
proof -
  have e: "unat (of_nat ep :: u8) = ep" using assms(1) by (simp add: stream_tables_def unat_of_nat)
  show ?thesis
    using assms(1,2) e unfolding stream_tables_def n_def
    by (simp add: andThen_value [where m = "set_stream x y" for x y, OF set_stream_run] set_tx_buf_def get_tx_buf_def set_queued_def
        andThen_assoc prog_simps andThen_value [where m = "at_index x i" for x i, OF at_index_run] enqueue_def)
      (cases s; cases "client_mem s"; simp)
qed


text \<open>The packets in the queue, from the committed state on.\<close>

fun emits_all :: "usbdev_stream \<Rightarrow> usbdev_stream_tx \<Rightarrow> stream_tx_buf list \<Rightarrow> u8 list list \<Rightarrow> usbdev_stream_tx \<Rightarrow> bool" where
  "emits_all st tx [] [] tx' \<longleftrightarrow> tx' = tx"
| "emits_all st tx (b # bs) (p # ps) tx' \<longleftrightarrow> emits st tx p (queued_tx b) \<and> emits_all st (queued_tx b) bs ps tx'"
| "emits_all st tx _ _ tx' \<longleftrightarrow> False"

lemma emits_all_snoc:
  "emits_all st tx bs ps tx1 \<Longrightarrow> emits st tx1 p (queued_tx b) \<Longrightarrow> emits_all st tx (bs @ [b]) (ps @ [p]) (queued_tx b)"
  by (induction st tx bs ps tx1 rule: emits_all.induct) simp_all

lemma emits_all_length: "emits_all st tx bs ps tx' \<Longrightarrow> length bs = length ps"
  by (induction st tx bs ps tx' rule: emits_all.induct) simp_all

lemma emits_all_tx [simp]:
  "emits_all (st\<lparr>stream_tx := x\<rparr>) tx bs ps tx' = emits_all st tx bs ps tx'"
  "emits_all (st\<lparr>tx_cmt := x\<rparr>) tx bs ps tx' = emits_all st tx bs ps tx'"
  by (induction st tx bs ps tx' rule: emits_all.induct) simp_all

definition waiting :: "dif_usbdev \<Rightarrow> usb_dev \<Rightarrow> stream_tx_buf \<Rightarrow> u8 list \<Rightarrow> bool" where
  "waiting h d b p \<longleftrightarrow> length p \<le> 64 \<and> (\<exists>i. queued_buf b = written_buffer i (length p) \<and> unat i < 32 \<and> buffer_data h d i (length p) = p)"

lemma waiting_regs [simp]: "waiting h (d\<lparr>usb_regs := r\<rparr>) = waiting h d"
  by (simp add: waiting_def fun_eq_iff)

definition streaming :: "dif_usbdev \<Rightarrow> nat \<Rightarrow> nat \<Rightarrow> dif_usbdev_buffer list \<Rightarrow> u8 list \<Rightarrow> u8 list list \<Rightarrow> usb_dev stream_sys \<Rightarrow> bool" where
  "streaming h sid ep H F ps s \<longleftrightarrow>
     (let c = client_mem s; st = stream_table c ! sid; E = in_eps (ctx s) ! ep; d = usb_device s; q = queue_of ep c; e = of_nat ep in
      ctx_dev (ctx s) = h \<and> length (in_eps (ctx s)) = 12 \<and> \<not> got_frame (ctx s) \<and> quiet d
      \<and> tx_done_callback E = Some Strm_tx_done \<and> in_ep_ctx E = Some sid \<and> xfer_buffer (in_transfer E) = null
      \<and> stream_tables ep sid c \<and> emits_all st (tx_cmt st) q ps (stream_tx st) \<and> list_all2 (waiting h d) (tl q) (tl ps)
      \<and> (case ps of [] \<Rightarrow> \<not> in_ready d e \<and> usb_inv (world s H F)
         | p # _ \<Rightarrow> in_ready d e \<and> in_size d e \<le> 64 \<and> in_packet h d e = p
             \<and> usb_inv (world s (map queued_buf (tl q) @ H) (e # F))))"

lemma held_distinct:
  assumes "usb_inv (world s (b # X) G)" "b' \<in> set X"
  shows "buf_id b \<noteq> buf_id b'"
proof
  assume eq: "buf_id b = buf_id b'"
  have "buf_id b \<in># mset (map buf_id X)" using assms(2) by (simp add: eq)
  then have "1 \<le> count (mset (map buf_id X)) (buf_id b)" by (rule count_member)
  then have "2 \<le> count (mset (map buf_id (b # X))) (buf_id b)" by simp
  then have "2 \<le> count (owned (world s (b # X) G)) (buf_id b)" unfolding owned_def count_union world_sel by linarith
  moreover have "owned (world s (b # X) G) = all_buffers" using assms(1) by (simp add: usb_inv_def)
  moreover have "count all_buffers (buf_id b) \<le> 1"
    using distinct_all_buffers unfolding all_buffers_def USBDEV_NUM_BUFFERS_def distinct_count_atmost_1 by (metis le_refl zero_le_one)
  ultimately show False by simp
qed

text \<open>A packet that is written into a fresh buffer leaves the waiting packets alone.\<close>

lemma waiting_kept:
  assumes "list_all2 (waiting h d) bs ps" "\<forall>b\<in>set bs. buf_id (queued_buf b) \<noteq> i"
    "\<forall>j l. unat j < 32 \<longrightarrow> j \<noteq> i \<longrightarrow> l \<le> 64 \<longrightarrow> buffer_data h d' j l = buffer_data h d j l"
  shows "list_all2 (waiting h d') bs ps"
  using assms(1,2)
proof (induction bs ps rule: list_all2_induct)
  case (Cons b bs p ps)
  then obtain j where "queued_buf b = written_buffer j (length p)" "unat j < 32" "buffer_data h d j (length p) = p" "length p \<le> 64"
    by (auto simp: waiting_def)
  moreover from this Cons.prems have "j \<noteq> i" by (simp add: written_buffer_def)
  ultimately have "waiting h d' b p" using assms(3) by (auto simp: waiting_def)
  with Cons show ?case by simp
qed simp


subsection \<open>Serving a stream\<close>

lemma service_run:
  assumes "streaming h sid ep H F ps s" "base (base_addr h) mod 4 = 0" "length junk = 64" "sid < 11" "of_nat ep \<notin> set F"
  defines "st \<equiv> stream_table (client_mem s) ! sid"
  defines "todo \<equiv> tx_bytes (stream_tx st) < transfer_bytes st \<and> tx_bufs_queued (client_mem s) ! ep < tx_bufs_limit (client_mem s) ! ep
     \<and> unat (tx_queued_total (client_mem s)) < 24 \<and> pool_ids (ctx_pool (ctx s)) \<noteq> []"
  shows "\<exists>qs s' tx. (todo \<longrightarrow> qs \<noteq> []) \<and> usb_testutils_stream_service (usb_bus_of h) junk (of_nat sid) s = Some (Inr (), s')
    \<and> streaming h sid ep H F (ps @ qs) s' \<and> stream_table (client_mem s') ! sid = st\<lparr>stream_tx := tx\<rparr>"
proof -
  let ?c = "client_mem s" and ?q = "queue_of ep (client_mem s)" and ?e = "of_nat ep :: u8"
  have S: "ctx_dev (ctx s) = h" "length (in_eps (ctx s)) = 12" "\<not> got_frame (ctx s)" "quiet (usb_device s)"
    "tx_done_callback (in_eps (ctx s) ! ep) = Some Strm_tx_done" "in_ep_ctx (in_eps (ctx s) ! ep) = Some sid"
    "xfer_buffer (in_transfer (in_eps (ctx s) ! ep)) = null" "stream_tables ep sid ?c"
    "emits_all st (tx_cmt st) ?q ps (stream_tx st)" "list_all2 (waiting h (usb_device s)) (tl ?q) (tl ps)"
    using assms(1) by (simp_all add: streaming_def Let_def st_def)
  note T = S(8) [unfolded stream_tables_def, folded st_def]
  let ?n = "tx_bufs_queued ?c ! ep"
  have n: "unat ?n = length ps" using length_queue [OF S(8)] emits_all_length [OF S(9)] by simp
  define X G where "X = (if ps = [] then H else map queued_buf (tl ?q) @ H)" and "G = (if ps = [] then F else ?e # F)"
  have inv: "usb_inv (world s X G)" using assms(1) by (cases ps) (auto simp: streaming_def Let_def X_def G_def)
  have sid: "unat (of_nat sid :: u8) = sid" and e: "unat ?e = ep" "unat ?e < 12" using assms(4) T by (simp_all add: unat_of_nat)
  have te: "tx_ep st = ?e" using T by simp
  have chk: "TRY_CHECK (streams_loc 591) (sid < USBUTILS_STREAMS_MAX) = pure ()"
    using assms(4) by (simp add: USBUTILS_STREAMS_MAX_def USBDEV_NUM_ENDPOINTS_def)
  have g: "get_stream sid s = Some (Inr st, s)" using get_stream_run [of sid s] T by (simp add: st_def)
  let ?b0 = "\<lparr>buf_id = 0, buf_offset = 0, remaining_bytes = 0, buf_type = kDifUsbdevBufferTypeRead\<rparr>"
  let ?room = "(xfr_type st = kUsbTransferTypeIsochronous \<or> tx_bytes (stream_tx st) < transfer_bytes st)
     \<and> ?n < tx_bufs_limit ?c ! ep \<and> unat (tx_queued_total ?c) < USBUTILS_STREAMS_TXBUF_MAX"
  let ?rest = "\<lambda>(s, buf).
         andThen (set_stream sid s) (\<lambda>_.
         andThen (set_tx_buf ?e (unat ?n) \<lparr>queued_buf = buf, queued_tx = stream_tx s\<rparr>) (\<lambda>_.
         andThen (set_queued ?e (?n + 1)) (\<lambda>_.
         andThen (change (client_mem_update (tx_queued_total_update (\<lambda>n. n + 1)))) (\<lambda>_.
         if ?n + 1 \<le> 1 then
           andThen (call (\<lambda>dev. dif_usbdev_send (usb_bus_of h) dev ?e (Some buf))) (\<lambda>(r, _).
           TRY_DIF (streams_loc 659) r)
         else pure ()))))"
  have run: "usb_testutils_stream_service (usb_bus_of h) junk (of_nat sid) s =
     (if ?room then andThen (buffer_request ?b0) (\<lambda>(r, buf).
         if r = kDifOk then andThen (stream_packet (usb_bus_of h) junk st buf) ?rest
         else CHECK (r = kDifUnavailable)) s
      else Some (Inr (), s))"
    unfolding usb_testutils_stream_service_def chk andThen_pure sid andThen_value [where m = "get_stream sid", OF g] Let_def te
    using T e by (auto simp: prog_simps andThen_value [where m = "at_index x i" for x i, OF at_index_run])
  have same: "\<exists>qs s' tx. (False \<longrightarrow> qs \<noteq> []) \<and> Some (Inr (), s) = Some (Inr (), s') \<and> streaming h sid ep H F (ps @ qs) s' \<and> stream_table (client_mem s') ! sid = st\<lparr>stream_tx := tx\<rparr>"
    using assms(1) by (intro exI [of _ "[]"] exI [of _ s] exI [of _ "stream_tx st"]) (simp add: st_def)
  show ?thesis
  proof (cases "?room \<and> pool_ids (ctx_pool (ctx s)) \<noteq> []")
    case False
    have wf: "pool_wf (ctx_pool (ctx s))" using inv by (simp add: usb_inv_def)
    have "\<not> todo" using False T by (auto simp: todo_def USBUTILS_STREAMS_TXBUF_MAX_def)
    moreover have "usb_testutils_stream_service (usb_bus_of h) junk (of_nat sid) s = Some (Inr (), s)"
      using False buffer_request_run(1) [OF wf] unfolding run by (auto simp: andThen_def pure_run)
    ultimately show ?thesis using same by simp
  next
    case True
    then have room: ?room by blast
    then have less: "unat (tx_queued_total ?c) < 24" "unat ?n < 24" "tx_bytes (stream_tx st) < transfer_bytes st"
      using T by (auto simp: USBUTILS_STREAMS_TXBUF_MAX_def word_less_nat_alt data_stream_def)
    obtain i "is" where ids: "pool_ids (ctx_pool (ctx s)) = i # is" using True by (cases "pool_ids (ctx_pool (ctx s))") auto
    have wf: "pool_wf (ctx_pool (ctx s))" using inv by (simp add: usb_inv_def)
    obtain p' where req: "buffer_request ?b0 s = Some (Inr (kDifOk, written_buffer i 0), s\<lparr>ctx := (ctx s)\<lparr>ctx_pool := p'\<rparr>\<rparr>)"
      "dif_usbdev_buffer_request (Some h) (Some (ctx_pool (ctx s))) (Some ?b0) = (kDifOk, Some p', Some (written_buffer i 0))"
      using buffer_request_run(2) [OF wf ids, of ?b0] S(1) by auto
    let ?s1 = "s\<lparr>ctx := (ctx s)\<lparr>ctx_pool := p'\<rparr>\<rparr>"
    have inv1: "usb_inv (world ?s1 (written_buffer i 0 # X) G)"
      using usb_request_inv(1) [OF inv, of h ?b0 kDifOk p' "written_buffer i 0"] req(2) by (simp add: world_def)
    have s1: "ctx_dev (ctx ?s1) = h" "base (base_addr (ctx_dev (ctx ?s1))) mod 4 = 0" "data_stream st"
      using assms(2) S(1) T by simp_all
    obtain p tx' m where P: "stream_packet (usb_bus_of h) junk st (written_buffer i 0) ?s1
        = Some (Inr (st\<lparr>stream_tx := tx'\<rparr>, written_buffer i (length p)), ?s1\<lparr>usb_device := (usb_device s)\<lparr>packet_mem := m\<rparr>\<rparr>)"
      "emits st (stream_tx st) p tx'" "length p \<le> 64"
      "usb_inv (world (?s1\<lparr>usb_device := (usb_device s)\<lparr>packet_mem := m\<rparr>\<rparr>) (written_buffer i (length p) # X) G)"
      "buffer_data h ((usb_device s)\<lparr>packet_mem := m\<rparr>) i (length p) = p"
      "\<forall>j l. unat j < 32 \<longrightarrow> j \<noteq> i \<longrightarrow> l \<le> 64 \<longrightarrow> buffer_data h ((usb_device s)\<lparr>packet_mem := m\<rparr>) j l = buffer_data h (usb_device s) j l"
      using stream_packet_run [OF inv1 s1(2) assms(3) s1(3) less(3)] unfolding s1(1) Let_def by auto
    let ?st = "st\<lparr>stream_tx := tx'\<rparr>" and ?d = "(usb_device s)\<lparr>packet_mem := m\<rparr>"
    let ?c' = "enqueue ep sid ?st (written_buffer i (length p)) ?c"
    let ?s3 = "?s1\<lparr>usb_device := ?d, client_mem := ?c'\<rparr>"
    have i: "unat i < 32" using held_id(1) [OF inv1, of "written_buffer i 0"] by (simp add: written_buffer_def)
    have C: "stream_tables ep sid ?c'" "queue_of ep ?c' = ?q @ [\<lparr>queued_buf = written_buffer i (length p), queued_tx = tx'\<rparr>]"
      "stream_table ?c' ! sid = ?st"
      using enqueue_tables [OF S(8) less(1), of ?st] T by simp_all
    have chain: "emits_all ?st (tx_cmt ?st) (queue_of ep ?c') (ps @ [p]) (stream_tx ?st)"
      using emits_all_snoc [OF S(9), of p "\<lparr>queued_buf = written_buffer i (length p), queued_tx = tx'\<rparr>"] P(2) unfolding C(2) by simp
    have new: "waiting h ?d \<lparr>queued_buf = written_buffer i (length p), queued_tx = tx'\<rparr> p"
      using P(3,5) i by (auto simp: waiting_def)
    have E: "andThen (set_stream sid ?st) (\<lambda>_. andThen (set_tx_buf ?e (unat ?n) \<lparr>queued_buf = written_buffer i (length p), queued_tx = stream_tx ?st\<rparr>) (\<lambda>_.
         andThen (set_queued ?e (?n + 1)) (\<lambda>_.
         andThen (change (client_mem_update (tx_queued_total_update (\<lambda>n. n + 1)))) f))) (?s1\<lparr>usb_device := ?d\<rparr>) = f () ?s3" for f :: "unit \<Rightarrow> (usb_dev, unit) stream_prog"
      using enqueue_run [of ep sid "?s1\<lparr>usb_device := ?d\<rparr>" ?st "written_buffer i (length p)" f] S(8) less(2) by simp
    have run': "usb_testutils_stream_service (usb_bus_of h) junk (of_nat sid) s
        = (if ?n + 1 \<le> 1 then andThen (call (\<lambda>dev. dif_usbdev_send (usb_bus_of h) dev ?e (Some (written_buffer i (length p)))))
            (\<lambda>(r, _). TRY_DIF (streams_loc 659) r) else pure ()) ?s3"
      unfolding run if_P [OF room] andThen_value [where m = "buffer_request ?b0", OF req(1)] prod.case simp_thms if_True
        andThen_value [where m = "stream_packet (usb_bus_of h) junk st (written_buffer i 0)", OF P(1)]
      by (simp only: E)
    have fixed: "ctx_dev (ctx ?s3) = h" "in_eps (ctx ?s3) = in_eps (ctx s)" "\<not> got_frame (ctx ?s3)" "quiet (usb_device ?s3)"
      "client_mem ?s3 = ?c'" "usb_device ?s3 = ?d"
      using S(1,3,4) by (simp_all add: quiet_def)
    have inv3: "usb_inv (world ?s3 (written_buffer i (length p) # X) G)" using P(4) by (simp add: world_def)
    show ?thesis
    proof (cases "ps = []")
      case True
      then have q: "?q = []" using emits_all_length [OF S(9)] by simp
      have n0: "?n + 1 \<le> 1" using n True by (simp add: word_le_nat_alt unat_inc_8 [OF less(2)])
      obtain b s4 where A: "call (\<lambda>dev. dif_usbdev_send (usb_bus_of h) dev ?e (Some (written_buffer i (length p)))) ?s3
          = Some (Inr (kDifOk, b), s4)"
        "s4 = ?s3\<lparr>usb_device := (usb_device ?s3)\<lparr>usb_regs := (usb_regs (usb_device ?s3))(ep_reg ?e := usb_regs (usb_device s4) (ep_reg ?e))\<rparr>\<rparr>"
        "usb_inv (world s4 H (?e # F))" "in_ready (usb_device s4) ?e" "in_size (usb_device s4) ?e = length p"
        "configin_id (usb_device s4) ?e = i"
        using send_run [OF inv3 _ e(2) P(3)] assms(5) True unfolding fixed(1) X_def G_def by auto
      obtain v where s4: "s4 = ?s3\<lparr>usb_device := ?d\<lparr>usb_regs := (usb_regs ?d)(ep_reg ?e := v)\<rparr>\<rparr>" using A(2) unfolding fixed(6) by blast
      have "usb_testutils_stream_service (usb_bus_of h) junk (of_nat sid) s = Some (Inr (), s4)"
        unfolding run' if_P [OF n0] by (simp add: andThen_value [where m = "call f" for f, OF A(1)] pure_run)
      moreover have "in_packet h (usb_device s4) ?e = p" unfolding in_packet_def A(5,6) using P(5) by (simp add: s4)
      moreover have "quiet (usb_device s4)" using fixed(4) ep_reg_facts [OF e(2)] by (simp add: s4 quiet_def)
      ultimately show ?thesis
        using A(3-5) C chain S(2,5-7) fixed(1-3) P(3) q True
        by (intro exI [of _ "[p]"] exI [of _ s4] exI [of _ tx']) (simp add: streaming_def Let_def s4)
    next
      case False
      then obtain p0 ps' b0 q' where cons: "ps = p0 # ps'" "?q = b0 # q'"
        using emits_all_length [OF S(9)] by (cases ps; cases ?q) auto
      have X: "X = map queued_buf q' @ H" "G = ?e # F" by (simp_all add: X_def G_def cons)
      have n1: "\<not> ?n + 1 \<le> 1" using n cons by (simp add: word_le_nat_alt unat_inc_8 [OF less(2)])
      have run3: "usb_testutils_stream_service (usb_bus_of h) junk (of_nat sid) s = Some (Inr (), ?s3)"
        unfolding run' if_not_P [OF n1] by (simp add: pure_run)
      have W: "list_all2 (waiting h ?d) q' ps'"
        using waiting_kept [OF _ _ P(6), of q' ps'] held_distinct [OF inv3] S(10) unfolding cons X
        by (auto simp: written_buffer_def)
      have ready: "in_ready (usb_device s) ?e" "in_size (usb_device s) ?e \<le> 64" "in_packet h (usb_device s) ?e = p0"
        using assms(1) by (simp_all add: streaming_def Let_def cons)
      have regs: "configin_id ?d ?e = configin_id (usb_device s) ?e" "in_size ?d ?e = in_size (usb_device s) ?e"
        "in_ready ?d ?e = in_ready (usb_device s) ?e"
        by (simp_all add: configin_id_def in_size_def in_ready_def)
      have "configin_id ?d ?e \<noteq> i"
        using held_not_in_flight [OF inv3, of "written_buffer i (length p)" ?e] by (auto simp: X written_buffer_def)
      moreover have "unat (configin_id ?d ?e) < 32" using flight_id(1) [OF inv3, of ?e] by (simp add: X)
      ultimately have pkt: "in_packet h ?d ?e = p0"
        using P(6) ready(2,3) unfolding in_packet_def regs by simp
      have inv4: "usb_inv (world ?s3 (map queued_buf (tl (queue_of ep ?c')) @ H) (?e # F))"
        using inv3 usb_inv_perm [of "written_buffer i (length p) # X" "map queued_buf (tl (queue_of ep ?c')) @ H" ?s3 G]
        unfolding C(2) cons X by simp
      have W4: "list_all2 (waiting h ?d) (tl (queue_of ep ?c')) (tl (ps @ [p]))"
        unfolding C(2) cons using W new by (simp add: list_all2_appendI)
      show ?thesis
        using run3 C(1,3) chain S(2,5-7) fixed regs ready pkt inv4 W4
        by (intro exI [of _ "[p]"] exI [of _ ?s3] exI [of _ tx']) (simp add: streaming_def Let_def cons)
    qed
  qed
qed

subsection \<open>A packet has been sent\<close>

lemma length_shuffle [simp]: "length (shuffle n row) = length row"
proof -
  have "length (fold (\<lambda>idx row. row[idx - 1 := row ! idx]) xs row) = length row" for xs
    by (induction xs arbitrary: row) simp_all
  then show ?thesis by (simp add: shuffle_def)
qed

lemma take_shuffle:
  assumes "n \<le> length row" "0 < n"
  shows "take (n - 1) (shuffle n row) = tl (take n row)" "drop (n - 1) (shuffle n row) = drop (n - 1) row"
proof -
  have "fold (\<lambda>idx row. row[idx - 1 := row ! idx]) [1..<Suc k] row = take k (tl row) @ drop k row" if "Suc k \<le> length row" for k
    using that
  proof (induction k)
    case (Suc k)
    let ?r = "take k (tl row) @ drop k row"
    have l: "length (take k (tl row)) = k" using Suc.prems by simp
    have "?r ! Suc k = row ! Suc k" "drop k row = row ! k # drop (Suc k) row" using Suc.prems l
      by (simp_all add: nth_append Cons_nth_drop_Suc)
    then have "?r[k := ?r ! Suc k] = take k (tl row) @ row ! Suc k # drop (Suc k) row" using l by (simp add: list_update_append)
    moreover have "take (Suc k) (tl row) = take k (tl row) @ [row ! Suc k]"
      using Suc.prems by (subst take_Suc_conv_app_nth) (simp_all add: nth_tl)
    ultimately show ?case using Suc by simp
  qed simp
  from this [of "n - 1"] assms have s: "shuffle n row = take (n - 1) (tl row) @ drop (n - 1) row" by (simp add: shuffle_def)
  have "length (take (n - 1) (tl row)) = n - 1" using assms by simp
  then show "take (n - 1) (shuffle n row) = tl (take n row)" "drop (n - 1) (shuffle n row) = drop (n - 1) row"
    unfolding s by (simp_all add: tl_take)
qed

definition dequeue :: "nat \<Rightarrow> nat \<Rightarrow> usb_testutils_streams_ctx \<Rightarrow> usb_testutils_streams_ctx" where
  "dequeue ep sid c = c\<lparr>stream_table := (stream_table c)[sid := (stream_table c ! sid)\<lparr>tx_cmt := queued_tx (tx_bufs c ! ep ! 0)\<rparr>],
     tx_bufs := (tx_bufs c)[ep := shuffle (unat (tx_bufs_queued c ! ep)) (tx_bufs c ! ep)],
     tx_queued_total := tx_queued_total c - 1, tx_bufs_queued := (tx_bufs_queued c)[ep := tx_bufs_queued c ! ep - 1]\<rparr>"

lemma unat_dec_8: "0 < unat (n :: u8) \<Longrightarrow> unat (n - 1) = unat n - 1"
  by (subst unat_sub) (simp_all add: word_le_nat_alt)

lemma dequeue_tables:
  assumes "stream_tables ep sid c" "queue_of ep c = b # q"
  shows "stream_tables ep sid (dequeue ep sid c)" "queue_of ep (dequeue ep sid c) = q"
    "stream_table (dequeue ep sid c) ! sid = (stream_table c ! sid)\<lparr>tx_cmt := queued_tx b\<rparr>"
    "0 < unat (tx_bufs_queued c ! ep)" "tx_bufs c ! ep ! 0 = b"
proof -
  note T = assms(1) [unfolded stream_tables_def]
  have n: "unat (tx_bufs_queued c ! ep) = Suc (length q)" using length_queue [OF assms(1)] assms(2) by simp
  then show pos: "0 < unat (tx_bufs_queued c ! ep)" by simp
  show b: "tx_bufs c ! ep ! 0 = b" using assms(2) n by (cases "tx_bufs c ! ep") (auto simp: queue_of_def)
  have d: "unat (tx_bufs_queued c ! ep - 1) = length q" "unat (tx_queued_total c - 1) = unat (tx_queued_total c) - 1"
    using unat_dec_8 n T by simp_all
  show "stream_tables ep sid (dequeue ep sid c)"
    using T d n unfolding stream_tables_def by (auto simp: dequeue_def)
  have "take (length q) (shuffle (Suc (length q)) (tx_bufs c ! ep)) = q"
    using take_shuffle(1) [of "Suc (length q)" "tx_bufs c ! ep"] T n assms(2) by (simp add: queue_of_def)
  then show "queue_of ep (dequeue ep sid c) = q"
    using T d n by (simp add: queue_of_def dequeue_def)
  show "stream_table (dequeue ep sid c) ! sid = (stream_table c ! sid)\<lparr>tx_cmt := queued_tx b\<rparr>"
    using T b by (simp add: dequeue_def)
qed

lemma dequeue_run:
  assumes "stream_tables ep sid (client_mem s)" "queue_of ep (client_mem s) = b # q"
  defines "c \<equiv> client_mem s"
  defines "n \<equiv> tx_bufs_queued c ! ep"
  shows "andThen (set_stream sid ((stream_table c ! sid)\<lparr>tx_cmt := queued_tx b\<rparr>)) (\<lambda>_.
     andThen (unless (n < 2) (andThen (get_tx_buf (of_nat ep) (unat n - 1)) (\<lambda>_. pure ()))) (\<lambda>_.
     andThen (change (client_mem_update (tx_bufs_update (\<lambda>rows. rows[ep := shuffle (unat n) (rows ! ep)])))) (\<lambda>_.
     andThen (change (client_mem_update (tx_queued_total_update (\<lambda>n. n - 1)))) (\<lambda>_.
     andThen (set_queued (of_nat ep) (n - 1)) f)))) s = f () (s\<lparr>client_mem := dequeue ep sid c\<rparr>)"
proof -
  note T = assms(1) [unfolded stream_tables_def]
  have n: "unat n = Suc (length q)" using length_queue [OF assms(1)] assms(2) by (simp add: n_def c_def)
  have m: "unat n \<le> 24" "unat n - 1 < 24" using T by (auto simp: n_def c_def)
  have e: "unat (of_nat ep :: u8) = ep" using T by (simp add: unat_of_nat)
  let ?s1 = "s\<lparr>client_mem := c\<lparr>stream_table := (stream_table c)[sid := (stream_table c ! sid)\<lparr>tx_cmt := queued_tx b\<rparr>]\<rparr>\<rparr>"
  have set: "set_stream sid ((stream_table c ! sid)\<lparr>tx_cmt := queued_tx b\<rparr>) s = Some (Inr (), ?s1)"
    using set_stream_run [of sid s] T by (simp add: c_def)
  have "unless (n < 2) (andThen (get_tx_buf (of_nat ep) (unat n - 1)) (\<lambda>_. pure ())) ?s1 = Some (Inr (), ?s1)"
    using T m e by (cases "n < 2") (simp_all add: pure_run get_tx_buf_def prog_simps c_def andThen_assoc
        andThen_value [where m = "at_index x i" for x i, OF at_index_run])
  note get = andThen_value [where m = "unless b m" for b m, OF this]
  show ?thesis
    unfolding andThen_value [where m = "set_stream x y" for x y, OF set] get
    using T e dequeue_tables(5) [OF assms(1,2)]
    by (simp add: set_queued_def andThen_assoc prog_simps andThen_value [where m = "at_index x i" for x i, OF at_index_run]
        dequeue_def c_def n_def)
      (cases s; cases "client_mem s"; simp)
qed

lemma tx_done_run:
  assumes "stream_tables ep sid (client_mem s)" "queue_of ep (client_mem s) = b # q"
  shows "strm_tx_done B sid s = (if q \<noteq> [] then
       andThen (get_tx_buf (of_nat ep) 0) (\<lambda>b.
       andThen (call (\<lambda>dev. dif_usbdev_send B dev (of_nat ep) (Some (queued_buf b)))) (\<lambda>(r, buf).
       andThen (set_tx_buf (of_nat ep) 0 (b\<lparr>queued_buf := the buf\<rparr>)) (\<lambda>_.
       TRY_DIF (streams_loc 414) r)))
     else pure ()) (s\<lparr>client_mem := dequeue ep sid (client_mem s)\<rparr>)"
proof -
  note T = assms(1) [unfolded stream_tables_def]
  let ?n = "tx_bufs_queued (client_mem s) ! ep"
  have n: "unat ?n = Suc (length q)" using length_queue [OF assms(1)] assms(2) by simp
  have e: "unat (of_nat ep :: u8) = ep" using T by (simp add: unat_of_nat)
  have te: "tx_ep (stream_table (client_mem s) ! sid) = of_nat ep" using T by simp
  have "unat (?n - 1) = length q" using unat_dec_8 [of ?n] n by simp
  then have z: "?n - 1 \<noteq> 0 \<longleftrightarrow> q \<noteq> []" by (metis length_0_conv unat_eq_zero)
  have pos: "(0 < ?n) = True" using n by (simp add: word_less_nat_alt)
  have gs: "get_stream sid s = Some (Inr (stream_table (client_mem s) ! sid), s)" using get_stream_run T by blast
  have gt: "get_tx_buf (of_nat ep) 0 s = Some (Inr b, s)"
    using T e dequeue_tables(5) [OF assms] by (simp add: get_tx_buf_def prog_simps andThen_value [where m = "at_index x i" for x i, OF at_index_run])
  have ix: "at_index (tx_bufs_queued (client_mem s)) ep s = Some (Inr ?n, s)"
    using T by (simp add: at_index_run)
  show ?thesis
    unfolding strm_tx_done_def andThen_value [where m = "get_stream sid", OF gs] andThen_look te Let_def e
      andThen_value [where m = "at_index x ep" for x, OF ix] pos TRY_CHECK_simps andThen_pure
      andThen_value [where m = "get_tx_buf x y" for x y, OF gt] dequeue_run [OF assms] z
    by (rule refl)
qed

subsection \<open>A round of the bus\<close>

lemma streaming_refill:
  assumes "refill_step s s'" "streaming h sid ep H F ps s"
  shows "streaming h sid ep H F ps s'"
proof -
  note R = refill_stepD [OF assms(1)]
  have inv: "\<forall>H F. usb_inv (world s H F) \<longrightarrow> usb_inv (world s' H F)" using assms(1) by (simp add: refill_step_def)
  have m: "buffer_data h (usb_device s') = buffer_data h (usb_device s)" using buffer_data_mem R(6) by blast
  have w: "waiting h (usb_device s') = waiting h (usb_device s)" by (simp add: waiting_def m fun_eq_iff)
  have d: "in_ready (usb_device s') = in_ready (usb_device s)" "in_size (usb_device s') = in_size (usb_device s)"
    "in_packet h (usb_device s') = in_packet h (usb_device s)" "quiet (usb_device s') = quiet (usb_device s)"
    by (simp_all add: in_ready_def in_size_def in_packet_def quiet_def configin_id_def R(5,7) m fun_eq_iff)
  show ?thesis
    using assms(2) inv unfolding streaming_def Let_def R(1-4) w d by (auto split: list.splits)
qed

lemma tx_done_streaming:
  assumes "stream_tables ep sid (client_mem s)" "queue_of ep (client_mem s) = b # q" "base (base_addr h) mod 4 = 0" "of_nat ep \<notin> set F"
  defines "st \<equiv> stream_table (client_mem s) ! sid"
  assumes ctx: "ctx_dev (ctx s) = h" "length (in_eps (ctx s)) = 12" "\<not> got_frame (ctx s)" "quiet (usb_device s)"
      "tx_done_callback (in_eps (ctx s) ! ep) = Some Strm_tx_done" "in_ep_ctx (in_eps (ctx s) ! ep) = Some sid"
      "xfer_buffer (in_transfer (in_eps (ctx s) ! ep)) = null"
    and queue: "emits_all st (queued_tx b) q ps (stream_tx st)" "list_all2 (waiting h (usb_device s)) q ps"
      "usb_inv (world s (map queued_buf q @ H) F)" "\<not> in_ready (usb_device s) (of_nat ep)"
  shows "\<exists>s'. strm_tx_done (usb_bus_of h) sid s = Some (Inr (), s') \<and> streaming h sid ep H F ps s'
    \<and> stream_table (client_mem s') ! sid = st\<lparr>tx_cmt := queued_tx b\<rparr>"
proof -
  let ?c = "dequeue ep sid (client_mem s)" and ?e = "of_nat ep :: u8"
  let ?s1 = "s\<lparr>client_mem := ?c\<rparr>"
  note D = dequeue_tables [OF assms(1,2), folded st_def]
  have e: "unat ?e = ep" "unat ?e < 12" using assms(1) by (simp_all add: stream_tables_def unat_of_nat)
  note run = tx_done_run [OF assms(1,2), of "usb_bus_of h"]
  show ?thesis
  proof (cases q)
    case Nil
    then have "ps = []" using emits_all_length [OF queue(1)] by simp
    with Nil queue ctx D show ?thesis unfolding run
      by (intro exI [of _ ?s1]) (simp add: pure_run streaming_def Let_def world_def)
  next
    case (Cons b1 q')
    then obtain p1 ps' where ps: "ps = p1 # ps'" using emits_all_length [OF queue(1)] by (cases ps) auto
    obtain i where b1: "queued_buf b1 = written_buffer i (length p1)" "length p1 \<le> 64" "unat i < 32"
      "buffer_data h (usb_device s) i (length p1) = p1"
      using queue(2) by (auto simp: Cons ps waiting_def)
    have inv: "usb_inv (world ?s1 (written_buffer i (length p1) # map queued_buf q' @ H) F)"
      using queue(3) b1(1) by (simp add: Cons world_def)
    have gt: "get_tx_buf ?e 0 ?s1 = Some (Inr b1, ?s1)"
      using D(1,2) e dequeue_tables(5) [OF D(1), of b1 q'] Cons
      by (simp add: get_tx_buf_def prog_simps stream_tables_def andThen_value [where m = "at_index x i" for x i, OF at_index_run])
    obtain b' s2 where A: "call (\<lambda>dev. dif_usbdev_send (usb_bus_of h) dev ?e (Some (queued_buf b1))) ?s1 = Some (Inr (kDifOk, Some b'), s2)"
      "s2 = ?s1\<lparr>usb_device := (usb_device ?s1)\<lparr>usb_regs := (usb_regs (usb_device ?s1))(ep_reg ?e := usb_regs (usb_device s2) (ep_reg ?e))\<rparr>\<rparr>"
      "usb_inv (world s2 (map queued_buf q' @ H) (?e # F))" "in_ready (usb_device s2) ?e" "in_size (usb_device s2) ?e = length p1"
      "configin_id (usb_device s2) ?e = i"
      using send_run [OF inv assms(4) e(2) b1(2)] ctx(1) unfolding b1(1) by auto
    obtain v where s2: "s2 = ?s1\<lparr>usb_device := (usb_device s)\<lparr>usb_regs := (usb_regs (usb_device s))(ep_reg ?e := v)\<rparr>\<rparr>"
      using A(2) by auto
    let ?b = "b1\<lparr>queued_buf := b'\<rparr>"
    let ?c2 = "?c\<lparr>tx_bufs := (tx_bufs ?c)[ep := (tx_bufs ?c ! ep)[0 := ?b]]\<rparr>"
    let ?s3 = "s2\<lparr>client_mem := ?c2\<rparr>"
    have set: "set_tx_buf ?e 0 ?b s2 = Some (Inr (), ?s3)"
      using D(1) e by (simp add: s2 set_tx_buf_def get_tx_buf_def andThen_assoc prog_simps stream_tables_def
          andThen_value [where m = "at_index x i" for x i, OF at_index_run])
    have sent: "strm_tx_done (usb_bus_of h) sid s = Some (Inr (), ?s3)"
      unfolding run using Cons
      by (simp add: andThen_value [where m = "get_tx_buf x y" for x y, OF gt] andThen_value [where m = "call f" for f, OF A(1)]
          andThen_value [where m = "set_tx_buf x y z" for x y z, OF set] pure_run)
    have q2: "queue_of ep ?c2 = ?b # q'" "stream_tables ep sid ?c2"
      using D(1,2) Cons dequeue_tables(4) [OF D(1), of b1 q']
      by (cases "tx_bufs ?c ! ep"; auto simp: queue_of_def stream_tables_def take_Cons' split: if_splits)+
    have pkt: "in_packet h (usb_device s2) ?e = p1" unfolding in_packet_def A(5,6) using b1(4) by (simp add: s2)
    have q: "quiet (usb_device s2)" using ctx(4) ep_reg_facts [OF e(2)] by (simp add: s2 quiet_def)
    have W: "list_all2 (waiting h (usb_device s2)) q' ps'"
      using queue(2) unfolding Cons ps by (simp add: s2)
    have inv3: "usb_inv (world ?s3 (map queued_buf q' @ H) (?e # F))" using A(3) by (simp add: world_def)
    have c3: "ctx ?s3 = ctx s" "usb_device ?s3 = usb_device s2" "client_mem ?s3 = ?c2" by (simp_all add: s2)
    have st3: "stream_table ?c2 ! sid = st\<lparr>tx_cmt := queued_tx b\<rparr>" using D(3) by simp
    have em: "emits_all st (queued_tx b) (?b # q') ps (stream_tx st)" using queue(1) by (simp add: Cons ps)
    have "streaming h sid ep H F ps ?s3"
      using ctx q2 em inv3 A(4,5) b1(2) pkt q W unfolding streaming_def Let_def c3 st3 by (simp add: ps)
    with sent st3 c3 show ?thesis by (intro exI [of _ ?s3]) simp
  qed
qed

lemma host_round:
  assumes "streaming h sid ep H F (p # ps) s" "base (base_addr h) mod 4 = 0" "of_nat ep \<notin> set F"
  defines "st \<equiv> stream_table (client_mem s) ! sid" and "B \<equiv> usb_bus_of h"
  shows "fst (host_in h (of_nat ep) (usb_device s)) = p"
    and "\<exists>s' tx. usb_testutils_poll B (strm_clients B junk) (s\<lparr>usb_device := snd (host_in h (of_nat ep) (usb_device s))\<rparr>) = Some (Inr (), s')
      \<and> streaming h sid ep H F ps s' \<and> emits st (tx_cmt st) p tx \<and> stream_table (client_mem s') ! sid = st\<lparr>tx_cmt := tx\<rparr>"
proof -
  let ?e = "of_nat ep :: u8" and ?E = "in_eps (ctx s) ! ep" and ?cl = "strm_clients B junk"
  obtain b q where q: "queue_of ep (client_mem s) = b # q"
    using assms(1) emits_all_length [of st "tx_cmt st" "queue_of ep (client_mem s)" "p # ps" "stream_tx st"]
    by (cases "queue_of ep (client_mem s)") (auto simp: streaming_def Let_def st_def)
  have S: "ctx_dev (ctx s) = h" "length (in_eps (ctx s)) = 12" "\<not> got_frame (ctx s)" "quiet (usb_device s)"
    "tx_done_callback ?E = Some Strm_tx_done" "in_ep_ctx ?E = Some sid" "xfer_buffer (in_transfer ?E) = null"
    "stream_tables ep sid (client_mem s)" "emits st (tx_cmt st) p (queued_tx b)" "emits_all st (queued_tx b) q ps (stream_tx st)"
    "list_all2 (waiting h (usb_device s)) q ps" "in_packet h (usb_device s) ?e = p"
    "usb_inv (world s (map queued_buf q @ H) (?e # F))"
    using assms(1) q by (simp_all add: streaming_def Let_def st_def)
  show "fst (host_in h ?e (usb_device s)) = p" using S(12) by (simp add: host_in_def)
  let ?s = "s\<lparr>usb_device := snd (host_in h ?e (usb_device s))\<rparr>"
  have ep: "ep < 12" and e: "unat ?e = ep" "unat ?e < 12" using S(8) by (simp_all add: stream_tables_def unat_of_nat)
  have d: "rx_queue (usb_device ?s) = []" "usb_regs (usb_device ?s) USBDEV_INTR_STATE_REG_OFFSET = 0"
    "usb_regs (usb_device ?s) USBDEV_IN_SENT_REG_OFFSET = push_bit ep 1" "packet_mem (usb_device ?s) = packet_mem (usb_device s)"
    using S(4) e ep_reg_facts [OF e(2)] by (simp_all add: host_in_def quiet_def)
  have inv: "usb_inv (world ?s (map queued_buf q @ H) (?e # F))" using host_in_inv [OF S(13) e(2)] .
  let ?clear = "pool_call (\<lambda>dev pool. dif_usbdev_clear_tx_status B dev pool ?e)"
  obtain s1 where C: "?clear ?s = Some (Inr kDifOk, s1)"
    "s1 = ?s\<lparr>ctx := (ctx ?s)\<lparr>ctx_pool := ctx_pool (ctx s1)\<rparr>, usb_device := (usb_device ?s)\<lparr>usb_regs := usb_regs (usb_device s1)\<rparr>\<rparr>"
    "usb_inv (world s1 (map queued_buf q @ H) F)" "\<not> in_ready (usb_device s1) ?e"
    "usb_regs (usb_device s1) USBDEV_IN_SENT_REG_OFFSET = 0" "same_device ?e (usb_device ?s) (usb_device s1)"
    using clear_run [OF inv] d(3) e S(1) unfolding B_def by auto
  obtain pl r where s1: "s1 = ?s\<lparr>ctx := (ctx ?s)\<lparr>ctx_pool := pl\<rparr>, usb_device := (usb_device ?s)\<lparr>usb_regs := r\<rparr>\<rparr>"
    using C(2) by blast
  have c1: "ctx_dev (ctx s1) = h" "in_eps (ctx s1) = in_eps (ctx s)" "got_frame (ctx s1) = got_frame (ctx s)" "client_mem s1 = client_mem s"
    using S(1) by (simp_all add: s1)
  have w1: "waiting h (usb_device s1) = waiting h (usb_device s)"
    using buffer_data_mem [of "usb_device ?s" "usb_device s" h] d(4) by (simp add: s1 waiting_def fun_eq_iff)
  have q1: "quiet (usb_device s1)"
    using C(5,6) d(1,2) ep_reg_facts [OF e(2)] unfolding quiet_def same_device_def by simp
  have ep_run: "in_ep ep s1 = Some (Inr ?E, s1)" using in_ep_run [of ep s1] ep S(2) by (simp add: c1)
  have poll: "poll_sent_endpoint B ?cl ep ?s = strm_tx_done B sid s1"
    unfolding poll_sent_endpoint_def andThen_value [where m = ?clear, OF C(1)] TRY_DIF_ok andThen_pure
      andThen_value [where m = "in_ep ep", OF ep_run] Let_def
    using S(5-7) by (simp add: strm_clients_def)
  obtain s2 where R: "strm_tx_done B sid s1 = Some (Inr (), s2)" "streaming h sid ep H F ps s2"
    "stream_table (client_mem s2) ! sid = st\<lparr>tx_cmt := queued_tx b\<rparr>"
    using tx_done_streaming [of ep sid s1 b q h F ps H] S(2,3,5-8,10,11) q q1 assms(2,3) C(3,4)
    unfolding c1 w1 st_def B_def by auto
  have s2: "ctx_dev (ctx s2) = h" "quiet (usb_device s2)" "\<not> got_frame (ctx s2)"
    "\<exists>H' F'. usb_inv (world s2 H' F')"
    using R(2) by (auto simp: streaming_def Let_def split: list.splits)
  then obtain H' F' where inv2: "usb_inv (world s2 H' F')" by blast
  obtain s3 where "usb_testutils_poll B ?cl ?s = Some (Inr (), s3)" "refill_step s2 s3"
    using poll_run [of ?s ep ?cl s2 H' F'] d ep poll R(1) s2 inv2 S(1) unfolding B_def by auto
  moreover have "stream_table (client_mem s3) ! sid = st\<lparr>tx_cmt := queued_tx b\<rparr>"
    using refill_stepD(2) [OF \<open>refill_step s2 s3\<close>] R(3) by simp
  ultimately show "\<exists>s' tx. usb_testutils_poll B ?cl ?s = Some (Inr (), s')
      \<and> streaming h sid ep H F ps s' \<and> emits st (tx_cmt st) p tx \<and> stream_table (client_mem s') ! sid = st\<lparr>tx_cmt := tx\<rparr>"
    using streaming_refill R(2) S(9) by blast
qed

subsection \<open>The whole stream\<close>

text \<open>What may happen on the endpoint of a stream: the software serves the stream, or the host asks for a
  packet (and is turned away when none is ready) and the software polls.\<close>

datatype stream_event = Serve | Fetch

fun stream_run :: "dif_usbdev \<Rightarrow> u8 list \<Rightarrow> nat \<Rightarrow> nat \<Rightarrow> stream_event list \<Rightarrow> usb_dev stream_sys
    \<Rightarrow> (u8 list list \<times> usb_dev stream_sys) option" where
  "stream_run h junk sid ep [] s = Some ([], s)"
| "stream_run h junk sid ep (Serve # es) s =
     (case usb_testutils_stream_service (usb_bus_of h) junk (of_nat sid) s of
        Some (Inr _, s') \<Rightarrow> stream_run h junk sid ep es s'
      | _ \<Rightarrow> None)"
| "stream_run h junk sid ep (Fetch # es) s =
     (if in_ready (usb_device s) (of_nat ep) then
        case host_in h (of_nat ep) (usb_device s) of (p, d) \<Rightarrow>
        case usb_testutils_poll (usb_bus_of h) (strm_clients (usb_bus_of h) junk) (s\<lparr>usb_device := d\<rparr>) of
          Some (Inr _, s') \<Rightarrow> map_option (\<lambda>(ps, s'). (p # ps, s')) (stream_run h junk sid ep es s')
        | _ \<Rightarrow> None
      else stream_run h junk sid ep es s)"

text \<open>The host has received the packets \<open>ps\<close> of the stream, and their reception is committed.\<close>

definition sent :: "usbdev_stream \<Rightarrow> u8 list list \<Rightarrow> usbdev_stream \<Rightarrow> bool" where
  "sent st ps st' \<longleftrightarrow> st' = st\<lparr>stream_tx := stream_tx st', tx_cmt := tx_cmt st'\<rparr>
     \<and> (if ps = [] then tx_cmt st' = tx_cmt st else emits st (tx_cmt st) (concat ps) (tx_cmt st'))"

lemma sent_Nil: "sent st [] (st\<lparr>stream_tx := tx\<rparr>)"
  by (simp add: sent_def)

lemma sent_one: "emits st (tx_cmt st) p tx \<Longrightarrow> sent st [p] (st\<lparr>tx_cmt := tx\<rparr>)"
  by (simp add: sent_def)

lemma sent_append:
  assumes "sent st ps st'" "sent st' qs st''"
  shows "sent st (ps @ qs) st''"
proof -
  have e: "emits st' = emits st" using assms(1) unfolding sent_def by (metis emits_tx(1,2))
  have "st'' = st\<lparr>stream_tx := stream_tx st'', tx_cmt := tx_cmt st''\<rparr>"
  proof -
    obtain a b c d where "st' = st\<lparr>stream_tx := a, tx_cmt := b\<rparr>" "st'' = st'\<lparr>stream_tx := c, tx_cmt := d\<rparr>"
      using assms unfolding sent_def by blast
    then show ?thesis by simp
  qed
  then show ?thesis using assms emits_trans [of st "tx_cmt st" "concat ps" "tx_cmt st'" "concat qs" "tx_cmt st''"]
    unfolding sent_def e by (auto split: if_splits)
qed

lemma stream_run_sent:
  assumes "streaming h sid ep H F qs s" "base (base_addr h) mod 4 = 0" "length junk = 64" "sid < 11" "of_nat ep \<notin> set F"
  shows "\<exists>ps s' qs'. stream_run h junk sid ep es s = Some (ps, s') \<and> streaming h sid ep H F qs' s'
    \<and> sent (stream_table (client_mem s) ! sid) ps (stream_table (client_mem s') ! sid)"
  using assms(1)
proof (induction es arbitrary: s qs)
  case Nil
  have "sent st [] st" for st by (simp add: sent_def)
  with Nil show ?case by auto
next
  case (Cons ev es)
  show ?case
  proof (cases ev)
    case Serve
    obtain new s1 tx where R: "usb_testutils_stream_service (usb_bus_of h) junk (of_nat sid) s = Some (Inr (), s1)"
      "streaming h sid ep H F (qs @ new) s1" "stream_table (client_mem s1) ! sid = (stream_table (client_mem s) ! sid)\<lparr>stream_tx := tx\<rparr>"
      using service_run [OF Cons.prems assms(2-5)] by blast
    obtain ps s' qs' where I: "stream_run h junk sid ep es s1 = Some (ps, s')" "streaming h sid ep H F qs' s'"
      "sent ((stream_table (client_mem s) ! sid)\<lparr>stream_tx := tx\<rparr>) ps (stream_table (client_mem s') ! sid)"
      using Cons.IH [OF R(2)] R(3) by auto
    have "stream_run h junk sid ep (ev # es) s = Some (ps, s')" using R(1) I(1) by (simp add: Serve)
    with I(2) sent_append [OF sent_Nil I(3)] show ?thesis by auto
  next
    case Fetch
    show ?thesis
    proof (cases qs)
      case Nil
      then have "\<not> in_ready (usb_device s) (of_nat ep)" using Cons.prems by (simp add: streaming_def Let_def)
      with Cons.IH [OF Cons.prems] show ?thesis unfolding Fetch by simp
    next
      case (Cons p rest)
      then have ready: "in_ready (usb_device s) (of_nat ep)" using Cons.prems by (simp add: streaming_def Let_def)
      let ?st = "stream_table (client_mem s) ! sid"
      note R = host_round(1) [OF Cons.prems [unfolded Cons] assms(2,5)]
        host_round(2) [OF Cons.prems [unfolded Cons] assms(2,5), of junk]
      obtain s1 tx where P: "usb_testutils_poll (usb_bus_of h) (strm_clients (usb_bus_of h) junk)
            (s\<lparr>usb_device := snd (host_in h (of_nat ep) (usb_device s))\<rparr>) = Some (Inr (), s1)"
        "streaming h sid ep H F rest s1" "emits ?st (tx_cmt ?st) p tx" "stream_table (client_mem s1) ! sid = ?st\<lparr>tx_cmt := tx\<rparr>"
        using R(2) by blast
      obtain ps s' qs' where I: "stream_run h junk sid ep es s1 = Some (ps, s')" "streaming h sid ep H F qs' s'"
        "sent (?st\<lparr>tx_cmt := tx\<rparr>) ps (stream_table (client_mem s') ! sid)"
        using Cons.IH [OF P(2)] P(4) by auto
      have "stream_run h junk sid ep (ev # es) s = Some (p # ps, s')"
        using ready P(1) I(1) R(1) unfolding Fetch by (simp add: case_prod_beta)
      with I(2) sent_append [OF sent_one [OF P(3)] I(3)] show ?thesis by auto
    qed
  qed
qed

text \<open>C40: What the host receives is one unbroken stream. A bulk, interrupt or control stream that sends and
  generates data is alone on its idle endpoint, and nothing but its packets happens on the bus: nothing is received,
  no other event is pending and no start of frame is seen. Then, whatever the order in which the software serves
  the stream and the host asks for packets, no call fails, no buffer is lost, and the packets that the host has
  taken, one after the other, are the signature, when the stream still has to send it, and the next bytes of
  its generator, never more than the transfer has; the committed state is the one after exactly these bytes,
  however far ahead packets have been prepared. So a stream that is rewound to its committed state and
  continued elsewhere, as by a resumption, goes on where the host stopped, without a gap or a repetition. And
  as long as there is something to send and a buffer to send it in, one service is enough for the host to get a
  packet.\<close>

theorem usb_stream_sent_unbroken:
  fixes s :: "usb_dev stream_sys" and sid :: nat
  defines "st \<equiv> \<lambda>s :: usb_dev stream_sys. stream_table (client_mem s) ! sid"
  assumes setting: "base (base_addr h) mod 4 = 0" "length junk = 64" "sid < USBUTILS_STREAMS_MAX" "of_nat ep \<notin> set F"
    and start: "streaming h sid ep H F [] s"
  shows "(\<exists>ps s1. stream_run h junk sid ep es s = Some (ps, s1)
    \<and> (if ps = [] then tx_cmt (st s1) = tx_cmt (st s) else emits (st s) (tx_cmt (st s)) (concat ps) (tx_cmt (st s1)))
    \<and> (\<exists>qs. streaming h sid ep H F qs s1)
    \<and> (\<forall>s2 H2 F2. streaming h sid ep H2 F2 [] s2 \<and> of_nat ep \<notin> set F2 \<and> st s2 = (st s1)\<lparr>stream_tx := tx_cmt (st s1)\<rparr> \<longrightarrow>
        (\<exists>ps2 s3. stream_run h junk sid ep es2 s2 = Some (ps2, s3)
          \<and> (ps @ ps2 \<noteq> [] \<longrightarrow> emits (st s) (tx_cmt (st s)) (concat (ps @ ps2)) (tx_cmt (st s3))))))
    \<and> (tx_bytes (tx_cmt (st s)) < transfer_bytes (st s) \<and> 0 < tx_bufs_limit (client_mem s) ! ep
      \<and> unat (tx_queued_total (client_mem s)) < USBUTILS_STREAMS_TXBUF_MAX \<and> pool_ids (ctx_pool (ctx s)) \<noteq> []
      \<longrightarrow> (\<exists>p s'. stream_run h junk sid ep [Serve, Fetch] s = Some ([p], s')))"
proof -
  have sid: "sid < 11" using setting(3) by (simp add: USBUTILS_STREAMS_MAX_def USBDEV_NUM_ENDPOINTS_def)
  obtain ps s1 qs where R: "stream_run h junk sid ep es s = Some (ps, s1)" "streaming h sid ep H F qs s1" "sent (st s) ps (st s1)"
    using stream_run_sent [OF start setting(1,2) sid setting(4), of es] unfolding st_def by blast
  have "\<exists>ps2 s3. stream_run h junk sid ep es2 s2 = Some (ps2, s3)
          \<and> (ps @ ps2 \<noteq> [] \<longrightarrow> emits (st s) (tx_cmt (st s)) (concat (ps @ ps2)) (tx_cmt (st s3)))"
    if s2: "streaming h sid ep H2 F2 [] s2" "of_nat ep \<notin> set F2" "st s2 = (st s1)\<lparr>stream_tx := tx_cmt (st s1)\<rparr>" for s2 H2 F2
  proof -
    obtain ps2 s3 where R2: "stream_run h junk sid ep es2 s2 = Some (ps2, s3)" "sent (st s2) ps2 (st s3)"
      using stream_run_sent [OF s2(1) setting(1,2) sid s2(2), of es2] unfolding st_def by blast
    have "sent (st s1) [] (st s2)" unfolding s2(3) by (rule sent_Nil)
    from sent_append [OF R(3) sent_append [OF this R2(2)]] have "sent (st s) (ps @ ps2) (st s3)" by simp
    with R2(1) show ?thesis unfolding sent_def by auto
  qed
  with R have first: "\<exists>ps s1. stream_run h junk sid ep es s = Some (ps, s1)
    \<and> (if ps = [] then tx_cmt (st s1) = tx_cmt (st s) else emits (st s) (tx_cmt (st s)) (concat ps) (tx_cmt (st s1)))
    \<and> (\<exists>qs. streaming h sid ep H F qs s1)
    \<and> (\<forall>s2 H2 F2. streaming h sid ep H2 F2 [] s2 \<and> of_nat ep \<notin> set F2 \<and> st s2 = (st s1)\<lparr>stream_tx := tx_cmt (st s1)\<rparr> \<longrightarrow>
        (\<exists>ps2 s3. stream_run h junk sid ep es2 s2 = Some (ps2, s3)
          \<and> (ps @ ps2 \<noteq> [] \<longrightarrow> emits (st s) (tx_cmt (st s)) (concat (ps @ ps2)) (tx_cmt (st s3)))))"
    unfolding sent_def by blast
  have "\<exists>p s'. stream_run h junk sid ep [Serve, Fetch] s = Some ([p], s')"
    if todo: "tx_bytes (tx_cmt (st s)) < transfer_bytes (st s)" "0 < tx_bufs_limit (client_mem s) ! ep"
      "unat (tx_queued_total (client_mem s)) < USBUTILS_STREAMS_TXBUF_MAX" "pool_ids (ctx_pool (ctx s)) \<noteq> []"
  proof -
    have q: "queue_of ep (client_mem s) = []" "stream_tx (st s) = tx_cmt (st s)" "stream_tables ep sid (client_mem s)"
      using start by (cases "queue_of ep (client_mem s)"; simp add: streaming_def Let_def st_def)+
    then have "unat (tx_bufs_queued (client_mem s) ! ep) = 0" using length_queue [OF q(3)] by simp
    then have n: "tx_bufs_queued (client_mem s) ! ep = 0" by (simp add: unat_eq_zero)
    obtain new s1 where S: "new \<noteq> []" "usb_testutils_stream_service (usb_bus_of h) junk (of_nat sid) s = Some (Inr (), s1)"
      "streaming h sid ep H F new s1"
      using service_run [OF start setting(1,2) sid setting(4)] todo q(2) n by (auto simp: st_def USBUTILS_STREAMS_TXBUF_MAX_def)
    then obtain p rest where new: "new = p # rest" by (cases new) auto
    have ready: "in_ready (usb_device s1) (of_nat ep)" using S(3) by (simp add: new streaming_def Let_def)
    from host_round(2) [OF S(3) [unfolded new] setting(1,4), of junk]
    obtain s2 where "usb_testutils_poll (usb_bus_of h) (strm_clients (usb_bus_of h) junk)
        (s1\<lparr>usb_device := snd (host_in h (of_nat ep) (usb_device s1))\<rparr>) = Some (Inr (), s2)" by blast
    with S(2) ready show ?thesis by (simp add: case_prod_beta)
  qed
  with first show ?thesis by blast
qed
text \<open>The first stream of a freshly started test: 100 bytes to send on endpoint 1.\<close>

definition send_example :: "usb_dev stream_sys" where
  "send_example = \<lparr>ctx = \<lparr>ctx_dev = usb_example, ctx_pool = snd (buffer_pool_init usb_example_pool), flushed = 0,
     got_frame = False, ctx_frame = 0,
     in_eps = replicate 12 \<lparr>in_ep_type = kUsbTransferTypeBulk, in_ep_ctx = Some 0, tx_done_callback = Some Strm_tx_done,
       in_flush = null, in_reset = null, in_transfer = usb_example_transfer\<rparr>, out_eps = []\<rparr>,
     client_mem = \<lparr>nstreams = 1, stream_table = [stream_start 0 kUsbTransferTypeBulk 1 1 100 0xB0 False],
       tx_bufs_limit = replicate 12 24, tx_bufs_queued = replicate 12 0, tx_queued_total = 0,
       tx_bufs = replicate 12 (replicate 24 \<lparr>queued_buf = written_buffer 0 0,
         queued_tx = \<lparr>sig_required = True, tx_seq = 0, tx_lfsr = 0, tx_bytes = 0, buf_size = 0\<rparr>\<rparr>)\<rparr>,
     usb_device = usb_reset_dev\<rparr>"

lemma send_example_start: "streaming usb_example 0 1 [] [] [] send_example" "pool_ids (ctx_pool (ctx send_example)) \<noteq> []"
proof -
  have p: "pool_wf (ctx_pool (ctx send_example))" "mset (pool_ids (ctx_pool (ctx send_example))) = all_buffers"
    "pool_ids (ctx_pool (ctx send_example)) \<noteq> []"
    using pool_init [of usb_example_pool]
    by (auto simp: send_example_def usb_example_pool_def USBDEV_NUM_BUFFERS_def all_buffers_def)
  show "pool_ids (ctx_pool (ctx send_example)) \<noteq> []" by (rule p(3))
  have inv: "usb_inv (world send_example [] [])"
    using p by (simp add: usb_inv_def owned_def send_example_def usb_reset_dev_def)
  have st: "data_stream (stream_start 0 kUsbTransferTypeBulk 1 1 100 0xB0 False)"
    "tx_ep (stream_start 0 kUsbTransferTypeBulk 1 1 100 0xB0 False) = 1"
    "stream_tx (stream_start 0 kUsbTransferTypeBulk 1 1 100 0xB0 False) = tx_cmt (stream_start 0 kUsbTransferTypeBulk 1 1 100 0xB0 False)"
    by (simp_all add: data_stream_def stream_start_def Let_def kUsbdevStreamFlagRetrieve_def kUsbdevStreamFlagCheck_def)
  have "\<not> in_ready (usb_device send_example) 1"
    by (simp add: in_ready_def send_example_def usb_reset_dev_def bitfield_bit32_read_iff)
  with inv st show "streaming usb_example 0 1 [] [] [] send_example"
    by (simp add: streaming_def Let_def stream_tables_def queue_of_def)
      (simp add: send_example_def quiet_def usb_reset_dev_def usb_example_transfer_def)
qed

lemma usb_stream_sent_unbroken_witness:
  "(\<exists>ps s1. stream_run usb_example (replicate 64 0) 0 1 [Serve, Serve, Fetch, Serve, Fetch, Fetch] send_example = Some (ps, s1)
      \<and> (\<exists>qs. streaming usb_example 0 1 [] [] qs s1))
    \<and> (\<exists>p s'. stream_run usb_example (replicate 64 0) 0 1 [Serve, Fetch] send_example = Some ([p], s'))"
proof -
  have start: "base (base_addr usb_example) mod 4 = 0" "length (replicate 64 (0 :: u8)) = 64" "0 < USBUTILS_STREAMS_MAX"
    "of_nat 1 \<notin> set ([] :: u8 list)"
    by (simp_all add: usb_example_def USBUTILS_STREAMS_MAX_def USBDEV_NUM_ENDPOINTS_def)
  have todo: "tx_bytes (tx_cmt (stream_table (client_mem send_example) ! 0)) < transfer_bytes (stream_table (client_mem send_example) ! 0)"
    "0 < tx_bufs_limit (client_mem send_example) ! 1" "unat (tx_queued_total (client_mem send_example)) < USBUTILS_STREAMS_TXBUF_MAX"
    by (simp_all add: send_example_def stream_start_def Let_def USBUTILS_STREAMS_TXBUF_MAX_def)
  show ?thesis
    using usb_stream_sent_unbroken [OF start send_example_start(1), of "[Serve, Serve, Fetch, Serve, Fetch, Fetch]" "[]"]
      todo send_example_start(2) by blast
qed

end
