(* ===== verification/Gpio.thy ===== *)
theory Gpio
  imports DifBase
begin

section \<open>GPIO driver\<close>

text \<open>
  \<^verbatim>\<open>sw/device/lib/dif/dif_gpio.c\<close>. The masked writes go to the two half-word registers with
  which the hardware updates some bits of its output and enable registers in one access.
\<close>

type_synonym dif_gpio = dif_handle
type_synonym dif_gpio_pin = u32
type_synonym dif_gpio_state = u32
type_synonym dif_gpio_mask = u32

datatype dif_gpio_irq_trigger =
    kDifGpioIrqTriggerEdgeRising | kDifGpioIrqTriggerEdgeFalling
  | kDifGpioIrqTriggerLevelLow | kDifGpioIrqTriggerLevelHigh
  | kDifGpioIrqTriggerEdgeRisingFalling | kDifGpioIrqTriggerEdgeRisingLevelLow
  | kDifGpioIrqTriggerEdgeFallingLevelHigh | kDifGpioIrqTriggerOther u32

definition kDifGpioNumPins :: u32 where
  "kDifGpioNumPins = 32"

definition index_to_mask :: "u32 \<Rightarrow> u32" where
  "index_to_mask index = push_bit (unat index) 1"

definition gpio_masked_write ::
    "'d bus \<Rightarrow> dif_gpio ptr \<Rightarrow> u32 \<Rightarrow> u32 \<Rightarrow> u32 \<Rightarrow> u32 \<Rightarrow> ('d, dif_result) state" where
  "gpio_masked_write B gpio reg_lower_offset reg_upper_offset msk val =
     (case gpio of None \<Rightarrow> ret kDifBadArg | Some gpio \<Rightarrow> do {
       let mask_lower_half = msk AND 0x0000FFFF;
       let mask_upper_half = msk AND 0xFFFF0000;
       (if mask_lower_half \<noteq> 0
        then wr32 B gpio reg_lower_offset (push_bit 16 mask_lower_half OR (val AND 0x0000FFFF))
        else ret ());
       (if mask_upper_half \<noteq> 0
        then wr32 B gpio reg_upper_offset (mask_upper_half OR drop_bit 16 (val AND 0xFFFF0000))
        else ret ());
       ret kDifOk
     })"

definition gpio_masked_bit_write ::
    "'d bus \<Rightarrow> dif_gpio ptr \<Rightarrow> u32 \<Rightarrow> u32 \<Rightarrow> u32 \<Rightarrow> bool \<Rightarrow> ('d, dif_result) state" where
  "gpio_masked_bit_write B gpio reg_lower_offset reg_upper_offset index val =
     (case gpio of None \<Rightarrow> ret kDifBadArg | Some gpio \<Rightarrow>
       if index \<ge> kDifGpioNumPins then ret kDifBadArg
       else do {
         let offset = (if index < 16 then reg_lower_offset else reg_upper_offset);
         let msk = index_to_mask (index mod 16);
         wr32 B gpio offset (push_bit 16 msk OR (if val then msk else 0));
         ret kDifOk
       })"

definition dif_gpio_reset :: "'d bus \<Rightarrow> dif_gpio ptr \<Rightarrow> ('d, dif_result) state" where
  "dif_gpio_reset B gpio = (case gpio of None \<Rightarrow> ret kDifBadArg | Some gpio \<Rightarrow> do {
     wr32 B gpio GPIO_INTR_ENABLE_REG_OFFSET 0;
     wr32 B gpio GPIO_DIRECT_OE_REG_OFFSET 0;
     wr32 B gpio GPIO_DIRECT_OUT_REG_OFFSET 0;
     wr32 B gpio GPIO_INTR_CTRL_EN_RISING_REG_OFFSET 0;
     wr32 B gpio GPIO_INTR_CTRL_EN_FALLING_REG_OFFSET 0;
     wr32 B gpio GPIO_INTR_CTRL_EN_LVLHIGH_REG_OFFSET 0;
     wr32 B gpio GPIO_INTR_CTRL_EN_LVLLOW_REG_OFFSET 0;
     wr32 B gpio GPIO_CTRL_EN_INPUT_FILTER_REG_OFFSET 0;
     wr32 B gpio GPIO_INTR_STATE_REG_OFFSET 0xFFFFFFFF;
     ret kDifOk
   })"

abbreviation gpio_clear :: "'d bus \<Rightarrow> dif_gpio \<Rightarrow> u32 \<Rightarrow> u32 \<Rightarrow> ('d, unit) state" where
  "gpio_clear B gpio offset msk \<equiv> mmio_region_nonatomic_clear_mask32 B (base_addr gpio) offset msk 0"

abbreviation gpio_set :: "'d bus \<Rightarrow> dif_gpio \<Rightarrow> u32 \<Rightarrow> u32 \<Rightarrow> ('d, unit) state" where
  "gpio_set B gpio offset msk \<equiv> mmio_region_nonatomic_set_mask32 B (base_addr gpio) offset msk 0"

definition dif_gpio_irq_set_trigger ::
    "'d bus \<Rightarrow> dif_gpio ptr \<Rightarrow> dif_gpio_mask \<Rightarrow> dif_gpio_irq_trigger \<Rightarrow> ('d, dif_result) state" where
  "dif_gpio_irq_set_trigger B gpio msk trigger = (case gpio of None \<Rightarrow> ret kDifBadArg | Some gpio \<Rightarrow> do {
     gpio_clear B gpio GPIO_INTR_CTRL_EN_RISING_REG_OFFSET msk;
     gpio_clear B gpio GPIO_INTR_CTRL_EN_FALLING_REG_OFFSET msk;
     gpio_clear B gpio GPIO_INTR_CTRL_EN_LVLHIGH_REG_OFFSET msk;
     gpio_clear B gpio GPIO_INTR_CTRL_EN_LVLLOW_REG_OFFSET msk;
     case trigger of
       kDifGpioIrqTriggerEdgeRising \<Rightarrow> do {
         gpio_set B gpio GPIO_INTR_CTRL_EN_RISING_REG_OFFSET msk;
         ret kDifOk
       }
     | kDifGpioIrqTriggerEdgeFalling \<Rightarrow> do {
         gpio_set B gpio GPIO_INTR_CTRL_EN_FALLING_REG_OFFSET msk;
         ret kDifOk
       }
     | kDifGpioIrqTriggerLevelLow \<Rightarrow> do {
         gpio_set B gpio GPIO_INTR_CTRL_EN_LVLLOW_REG_OFFSET msk;
         ret kDifOk
       }
     | kDifGpioIrqTriggerLevelHigh \<Rightarrow> do {
         gpio_set B gpio GPIO_INTR_CTRL_EN_LVLHIGH_REG_OFFSET msk;
         ret kDifOk
       }
     | kDifGpioIrqTriggerEdgeRisingFalling \<Rightarrow> do {
         gpio_set B gpio GPIO_INTR_CTRL_EN_RISING_REG_OFFSET msk;
         gpio_set B gpio GPIO_INTR_CTRL_EN_FALLING_REG_OFFSET msk;
         ret kDifOk
       }
     | kDifGpioIrqTriggerEdgeRisingLevelLow \<Rightarrow> do {
         gpio_set B gpio GPIO_INTR_CTRL_EN_RISING_REG_OFFSET msk;
         gpio_set B gpio GPIO_INTR_CTRL_EN_LVLLOW_REG_OFFSET msk;
         ret kDifOk
       }
     | kDifGpioIrqTriggerEdgeFallingLevelHigh \<Rightarrow> do {
         gpio_set B gpio GPIO_INTR_CTRL_EN_FALLING_REG_OFFSET msk;
         gpio_set B gpio GPIO_INTR_CTRL_EN_LVLHIGH_REG_OFFSET msk;
         ret kDifOk
       }
     | kDifGpioIrqTriggerOther _ \<Rightarrow> ret kDifError
   })"

definition dif_gpio_read_all ::
    "'d bus \<Rightarrow> dif_gpio ptr \<Rightarrow> dif_gpio_state ptr \<Rightarrow> ('d, dif_result \<times> dif_gpio_state ptr) state" where
  "dif_gpio_read_all B gpio pins = (case (gpio, pins) of
     (Some gpio, Some _) \<Rightarrow> do {
       v \<leftarrow> rd32 B gpio GPIO_DATA_IN_REG_OFFSET;
       ret (kDifOk, Some v)
     }
   | _ \<Rightarrow> ret (kDifBadArg, pins))"

definition dif_gpio_read ::
    "'d bus \<Rightarrow> dif_gpio ptr \<Rightarrow> dif_gpio_pin \<Rightarrow> bool ptr \<Rightarrow> ('d, dif_result \<times> bool ptr) state" where
  "dif_gpio_read B gpio pin level = (case (gpio, level) of
     (Some gpio, Some _) \<Rightarrow>
       if pin \<ge> kDifGpioNumPins then ret (kDifBadArg, level)
       else do {
         v \<leftarrow> mmio_region_get_bit32 B (base_addr gpio) GPIO_DATA_IN_REG_OFFSET pin;
         ret (kDifOk, Some v)
       }
   | _ \<Rightarrow> ret (kDifBadArg, level))"

definition dif_gpio_write_all :: "'d bus \<Rightarrow> dif_gpio ptr \<Rightarrow> dif_gpio_state \<Rightarrow> ('d, dif_result) state" where
  "dif_gpio_write_all B gpio pins = (case gpio of None \<Rightarrow> ret kDifBadArg | Some gpio \<Rightarrow> do {
     wr32 B gpio GPIO_DIRECT_OUT_REG_OFFSET pins;
     ret kDifOk
   })"

definition dif_gpio_write :: "'d bus \<Rightarrow> dif_gpio ptr \<Rightarrow> dif_gpio_pin \<Rightarrow> bool \<Rightarrow> ('d, dif_result) state" where
  "dif_gpio_write B gpio pin level =
     gpio_masked_bit_write B gpio GPIO_MASKED_OUT_LOWER_REG_OFFSET GPIO_MASKED_OUT_UPPER_REG_OFFSET
       pin level"

definition dif_gpio_write_masked ::
    "'d bus \<Rightarrow> dif_gpio ptr \<Rightarrow> dif_gpio_mask \<Rightarrow> dif_gpio_state \<Rightarrow> ('d, dif_result) state" where
  "dif_gpio_write_masked B gpio msk pins =
     gpio_masked_write B gpio GPIO_MASKED_OUT_LOWER_REG_OFFSET GPIO_MASKED_OUT_UPPER_REG_OFFSET
       msk pins"

definition dif_gpio_output_set_enabled_all ::
    "'d bus \<Rightarrow> dif_gpio ptr \<Rightarrow> dif_gpio_state \<Rightarrow> ('d, dif_result) state" where
  "dif_gpio_output_set_enabled_all B gpio pins = (case gpio of None \<Rightarrow> ret kDifBadArg | Some gpio \<Rightarrow> do {
     wr32 B gpio GPIO_DIRECT_OE_REG_OFFSET pins;
     ret kDifOk
   })"

text \<open>The toggle is passed where a \<open>bool\<close> is expected: every value but zero converts to true.\<close>

definition dif_gpio_output_set_enabled ::
    "'d bus \<Rightarrow> dif_gpio ptr \<Rightarrow> dif_gpio_pin \<Rightarrow> dif_toggle \<Rightarrow> ('d, dif_result) state" where
  "dif_gpio_output_set_enabled B gpio pin enabled =
     gpio_masked_bit_write B gpio GPIO_MASKED_OE_LOWER_REG_OFFSET GPIO_MASKED_OE_UPPER_REG_OFFSET
       pin (enabled \<noteq> kDifToggleDisabled)"

definition dif_gpio_output_set_enabled_masked ::
    "'d bus \<Rightarrow> dif_gpio ptr \<Rightarrow> dif_gpio_mask \<Rightarrow> dif_gpio_state \<Rightarrow> ('d, dif_result) state" where
  "dif_gpio_output_set_enabled_masked B gpio msk pins =
     gpio_masked_write B gpio GPIO_MASKED_OE_LOWER_REG_OFFSET GPIO_MASKED_OE_UPPER_REG_OFFSET
       msk pins"

definition dif_gpio_input_noise_filter_set_enabled ::
    "'d bus \<Rightarrow> dif_gpio ptr \<Rightarrow> dif_gpio_mask \<Rightarrow> dif_toggle \<Rightarrow> ('d, dif_result) state" where
  "dif_gpio_input_noise_filter_set_enabled B gpio msk enabled =
     (case gpio of None \<Rightarrow> ret kDifBadArg | Some gpio \<Rightarrow>
       (case enabled of
          kDifToggleEnabled \<Rightarrow> do {
            gpio_set B gpio GPIO_CTRL_EN_INPUT_FILTER_REG_OFFSET msk;
            ret kDifOk
          }
        | kDifToggleDisabled \<Rightarrow> do {
            gpio_clear B gpio GPIO_CTRL_EN_INPUT_FILTER_REG_OFFSET msk;
            ret kDifOk
          }
        | _ \<Rightarrow> ret kDifBadArg))"

subsection \<open>The pins\<close>

text \<open>The output and enable registers of the hardware: a write to one of the two half-word
  registers carries a mask in its upper half and changes those bits of one half of the direct
  register. The other registers are plain.\<close>

definition gpio_half_write :: "nat \<Rightarrow> u32 \<Rightarrow> u32 \<Rightarrow> u32" where
  "gpio_half_write n v old =
     (let m = push_bit n (drop_bit 16 v) in (old AND NOT m) OR (push_bit n (v AND 0xffff) AND m))"

definition gpio_reg_write :: "u32 \<Rightarrow> u32 \<Rightarrow> (u32 \<Rightarrow> u32) \<Rightarrow> u32 \<Rightarrow> u32" where
  "gpio_reg_write x v d =
     (if x = GPIO_MASKED_OUT_LOWER_REG_OFFSET
      then d(GPIO_DIRECT_OUT_REG_OFFSET := gpio_half_write 0 v (d GPIO_DIRECT_OUT_REG_OFFSET))
      else if x = GPIO_MASKED_OUT_UPPER_REG_OFFSET
      then d(GPIO_DIRECT_OUT_REG_OFFSET := gpio_half_write 16 v (d GPIO_DIRECT_OUT_REG_OFFSET))
      else if x = GPIO_MASKED_OE_LOWER_REG_OFFSET
      then d(GPIO_DIRECT_OE_REG_OFFSET := gpio_half_write 0 v (d GPIO_DIRECT_OE_REG_OFFSET))
      else if x = GPIO_MASKED_OE_UPPER_REG_OFFSET
      then d(GPIO_DIRECT_OE_REG_OFFSET := gpio_half_write 16 v (d GPIO_DIRECT_OE_REG_OFFSET))
      else d(x := v))"

abbreviation gpio_bus :: "dif_gpio \<Rightarrow> (u32 \<Rightarrow> u32) bus" where
  "gpio_bus h \<equiv> reg_bus (\<lambda>x d. (d x, d)) gpio_reg_write (base (base_addr h))"

lemma bit_upper_half [simp]: "bit (0xffff0000 :: int) n \<longleftrightarrow> 16 \<le> n \<and> n < 32"
proof -
  have "(0xffff0000 :: int) = push_bit 16 (mask 16)" by (simp add: push_bit_eq_mult mask_eq_exp_minus_1)
  then show ?thesis by (simp only: bit_push_bit_iff bit_mask_iff) auto
qed

lemma bit_gpio_half_write:
  assumes "n = 0 \<or> n = 16"
  shows "bit (gpio_half_write n v old) i \<longleftrightarrow>
    (if n \<le> i \<and> i < n + 16 \<and> bit v (16 + (i - n)) then bit v (i - n) else bit old i)"
  using assms unfolding gpio_half_write_def Let_def
  by (auto simp: bit_simps dest: bit_imp_le_length)

text \<open>The two half-word writes for a mask together replace the masked bits; a half whose part of
  the mask is empty is not written, which changes nothing.\<close>

lemma gpio_lower_write:
  "gpio_half_write 0 (push_bit 16 (m AND 0xffff) OR (v AND 0xffff)) old
    = (old AND NOT (m AND 0xffff)) OR (v AND (m AND 0xffff))"
  by (rule bit_word_eqI) (auto simp: bit_gpio_half_write bit_simps)

lemma gpio_upper_write:
  "gpio_half_write 16 ((m AND 0xffff0000) OR drop_bit 16 (v AND 0xffff0000)) old
    = (old AND NOT (m AND 0xffff0000)) OR (v AND (m AND 0xffff0000))"
  by (rule bit_word_eqI) (auto simp: bit_gpio_half_write bit_simps)

lemma halves_of_mask:
  "((old AND NOT (m AND 0xffff)) OR (v AND (m AND 0xffff))) AND NOT (m AND 0xffff0000) OR (v AND (m AND 0xffff0000))
    = (old AND NOT m) OR (v AND (m :: u32))"
  by (rule bit_word_eqI) (auto simp: bit_simps)

text \<open>The two pairs of half-word registers, each with the direct register it writes.\<close>

definition gpio_pairs :: "(u32 \<times> u32 \<times> u32) set" where
  "gpio_pairs = {(GPIO_MASKED_OUT_LOWER_REG_OFFSET, GPIO_MASKED_OUT_UPPER_REG_OFFSET, GPIO_DIRECT_OUT_REG_OFFSET),
     (GPIO_MASKED_OE_LOWER_REG_OFFSET, GPIO_MASKED_OE_UPPER_REG_OFFSET, GPIO_DIRECT_OE_REG_OFFSET)}"

lemma gpio_pair_writes:
  assumes "(lower, upper, direct) \<in> gpio_pairs"
  shows "gpio_reg_write lower v d = d(direct := gpio_half_write 0 v (d direct))"
    "gpio_reg_write upper v d = d(direct := gpio_half_write 16 v (d direct))"
    "lower mod 4 = 0" "upper mod 4 = 0"
  using assms by (auto simp: gpio_pairs_def gpio_reg_write_def)

lemma gpio_masked_write_device:
  assumes "(lower, upper, direct) \<in> gpio_pairs"
  shows "run_state (gpio_masked_write (gpio_bus h) (Some h) lower upper m v) d =
    (kDifOk, d(direct := (d direct AND NOT m) OR (v AND m)))"
proof -
  note pair = gpio_pair_writes [OF assms]
  let ?d1 = "d(direct := (d direct AND NOT (m AND 0xffff)) OR (v AND (m AND 0xffff)))"
  let ?d2 = "d(direct := (d direct AND NOT m) OR (v AND m))"
  have z: "(x AND NOT m') OR (y AND m') = x" if "m' = 0" for x y m' :: u32 using that by simp
  have 1: "(if m AND 0xffff \<noteq> 0 then gpio_reg_write lower (push_bit 16 (m AND 0xffff) OR (v AND 0xffff)) d else d) = ?d1"
  proof (cases "m AND 0xffff = 0")
    case True
    show ?thesis unfolding z [OF True] using True by simp
  next
    case False
    then show ?thesis unfolding pair(1) gpio_lower_write by simp
  qed
  have 2: "(if m AND 0xffff0000 \<noteq> 0
      then gpio_reg_write upper ((m AND 0xffff0000) OR drop_bit 16 (v AND 0xffff0000)) ?d1 else ?d1) = ?d2"
  proof (cases "m AND 0xffff0000 = 0")
    case True
    show ?thesis unfolding halves_of_mask [of "d direct" m v, symmetric] z [OF True] using True by simp
  next
    case False
    then show ?thesis
      unfolding pair(2) gpio_upper_write halves_of_mask [of "d direct" m v, symmetric] by simp
  qed
  show ?thesis
    using 1 2 pair(3,4) by (simp add: gpio_masked_write_def run_reg_write Let_def split: if_splits)
qed

lemma gpio_masked_bit_write_device:
  assumes "(lower, upper, direct) \<in> gpio_pairs" "i < 32"
  shows "run_state (gpio_masked_bit_write (gpio_bus h) (Some h) lower upper i v) d =
    (kDifOk, d(direct := bitfield_bit32_write (d direct) i v))"
proof -
  note pair = gpio_pair_writes [OF assms(1)]
  let ?m = "index_to_mask (i mod 16)"
  let ?n = "if i < 16 then 0 else 16 :: nat"
  have i: "unat i < 32" using assms(2) by (simp add: word_less_nat_alt)
  have b: "bit ?m j \<longleftrightarrow> j = unat i mod 16" if "j < 32" for j
    using that by (auto simp: index_to_mask_def bit_simps unat_mod_distrib)
  have n: "unat i = unat i mod 16 + ?n" using i by (auto simp: word_less_nat_alt mod_if)
  have e: "gpio_half_write ?n (push_bit 16 ?m OR (if v then ?m else 0)) x = bitfield_bit32_write x i v" for x
  proof (rule bit_word_eqI)
    fix j assume "j < LENGTH(32)"
    then show "bit (gpio_half_write ?n (push_bit 16 ?m OR (if v then ?m else 0)) x) j = bit (bitfield_bit32_write x i v) j"
      using b [of "j - ?n"] b [of "16 + (j - ?n)"] n i mod_less_divisor [of 16 "unat i"]
      by (auto simp: bit_gpio_half_write bit_bit32_write bit_simps)
  qed
  have "\<not> 32 \<le> i" using assms(2) by (simp add: not_le)
  then show ?thesis
    using pair e by (auto simp: gpio_masked_bit_write_def kDifGpioNumPins_def run_reg_write Let_def split: if_splits)
qed

text \<open>Driving the pins: a masked write changes exactly the masked pins of the output register
  and no other register, and a write to one pin below 32 exactly that pin; the same holds for
  the output enables. So two callers that use disjoint pins never disturb each other. A pin
  number of 32 or more is refused.\<close>

theorem gpio_writes_only_the_pins:
  "run_state (dif_gpio_write_masked (gpio_bus h) (Some h) m v) d
      = (kDifOk, d(GPIO_DIRECT_OUT_REG_OFFSET := (d GPIO_DIRECT_OUT_REG_OFFSET AND NOT m) OR (v AND m)))
    \<and> run_state (dif_gpio_output_set_enabled_masked (gpio_bus h) (Some h) m v) d
      = (kDifOk, d(GPIO_DIRECT_OE_REG_OFFSET := (d GPIO_DIRECT_OE_REG_OFFSET AND NOT m) OR (v AND m)))
    \<and> run_state (dif_gpio_write (gpio_bus h) (Some h) pin level) d
      = (if pin < 32 then (kDifOk, d(GPIO_DIRECT_OUT_REG_OFFSET :=
           bitfield_bit32_write (d GPIO_DIRECT_OUT_REG_OFFSET) pin level)) else (kDifBadArg, d))
    \<and> run_state (dif_gpio_output_set_enabled (gpio_bus h) (Some h) pin enabled) d
      = (if pin < 32 then (kDifOk, d(GPIO_DIRECT_OE_REG_OFFSET :=
           bitfield_bit32_write (d GPIO_DIRECT_OE_REG_OFFSET) pin (enabled \<noteq> kDifToggleDisabled))) else (kDifBadArg, d))"
proof -
  have o: "(GPIO_MASKED_OUT_LOWER_REG_OFFSET, GPIO_MASKED_OUT_UPPER_REG_OFFSET, GPIO_DIRECT_OUT_REG_OFFSET) \<in> gpio_pairs"
    and e: "(GPIO_MASKED_OE_LOWER_REG_OFFSET, GPIO_MASKED_OE_UPPER_REG_OFFSET, GPIO_DIRECT_OE_REG_OFFSET) \<in> gpio_pairs"
    by (simp_all add: gpio_pairs_def)
  have bad: "run_state (gpio_masked_bit_write (gpio_bus h) (Some h) lower upper i x) d = (kDifBadArg, d)"
    if "\<not> i < 32" for lower upper i x
    using that by (simp add: gpio_masked_bit_write_def kDifGpioNumPins_def not_less)
  show ?thesis
    using gpio_masked_write_device [OF o, of h m v d] gpio_masked_write_device [OF e, of h m v d]
      gpio_masked_bit_write_device [OF o, of pin h level d]
      gpio_masked_bit_write_device [OF e, of pin h "enabled \<noteq> kDifToggleDisabled" d] bad
    by (auto simp: dif_gpio_write_masked_def dif_gpio_output_set_enabled_masked_def dif_gpio_write_def
        dif_gpio_output_set_enabled_def)
qed

text \<open>The value a trigger asks for in the four enable registers, in the order rising, falling,
  level high, level low.\<close>

definition trigger_enables :: "dif_gpio_irq_trigger \<Rightarrow> (u32 \<times> bool) list" where
  "trigger_enables t = [
     (GPIO_INTR_CTRL_EN_RISING_REG_OFFSET, t \<in> {kDifGpioIrqTriggerEdgeRising,
        kDifGpioIrqTriggerEdgeRisingFalling, kDifGpioIrqTriggerEdgeRisingLevelLow}),
     (GPIO_INTR_CTRL_EN_FALLING_REG_OFFSET, t \<in> {kDifGpioIrqTriggerEdgeFalling,
        kDifGpioIrqTriggerEdgeRisingFalling, kDifGpioIrqTriggerEdgeFallingLevelHigh}),
     (GPIO_INTR_CTRL_EN_LVLHIGH_REG_OFFSET, t \<in> {kDifGpioIrqTriggerLevelHigh, kDifGpioIrqTriggerEdgeFallingLevelHigh}),
     (GPIO_INTR_CTRL_EN_LVLLOW_REG_OFFSET, t \<in> {kDifGpioIrqTriggerLevelLow, kDifGpioIrqTriggerEdgeRisingLevelLow})]"

lemma run_gpio_clear:
  "x mod 4 = 0 \<Longrightarrow> run_state (gpio_clear (gpio_bus h) h x m) d = ((), gpio_reg_write x (d x AND NOT m) d)"
  by (simp add: mmio_region_nonatomic_clear_mask32_def run_reg_read run_reg_write bitfield_field32_write_def Let_def)

lemma run_gpio_set:
  "x mod 4 = 0 \<Longrightarrow> run_state (gpio_set (gpio_bus h) h x m) d = ((), gpio_reg_write x (d x OR m) d)"
proof -
  have "(w AND NOT m) OR m = w OR m" for w :: u32 by (rule bit_word_eqI) (auto simp: bit_simps)
  then show "x mod 4 = 0 \<Longrightarrow> run_state (gpio_set (gpio_bus h) h x m) d = ((), gpio_reg_write x (d x OR m) d)"
    by (simp add: mmio_region_nonatomic_set_mask32_def run_reg_read run_reg_write bitfield_field32_write_def Let_def)
qed

text \<open>C21: Configuring the trigger of some pins: whatever was configured before, afterwards those
  pins have exactly the detectors of the trigger, the other pins keep theirs, and no other
  register changes. A value that is no trigger disables every detector of the pins and reports
  \<open>kDifError\<close>.\<close>

theorem gpio_trigger_exact:
  assumes "run_state (dif_gpio_irq_set_trigger (gpio_bus h) (Some h) m t) d = (r, d')"
  shows "(r = kDifOk \<longleftrightarrow> (\<forall>x. t \<noteq> kDifGpioIrqTriggerOther x)) \<and> (r = kDifOk \<or> r = kDifError)
    \<and> (\<forall>(off, on) \<in> set (trigger_enables t). d' off = (if on then d off OR m else d off AND NOT m))
    \<and> (\<forall>off. off \<notin> fst ` set (trigger_enables t) \<longrightarrow> d' off = d off)"
proof -
  have r: "(w AND NOT m) OR m = w OR m" for w :: u32 by (rule bit_word_eqI) (auto simp: bit_simps)
  show ?thesis
    using assms
    by (cases t) (auto simp: dif_gpio_irq_set_trigger_def run_gpio_clear run_gpio_set gpio_reg_write_def trigger_enables_def r)
qed

lemma gpio_trigger_exact_witness:
  "snd (run_state (dif_gpio_irq_set_trigger (gpio_bus example_handle) (Some example_handle) 3 kDifGpioIrqTriggerEdgeRising) (\<lambda>_. 6))
    GPIO_INTR_CTRL_EN_RISING_REG_OFFSET = 7"
  using gpio_trigger_exact [of example_handle 3 kDifGpioIrqTriggerEdgeRising "\<lambda>_. 6" "fst (run_state (dif_gpio_irq_set_trigger (gpio_bus example_handle) (Some example_handle) 3 kDifGpioIrqTriggerEdgeRising) (\<lambda>_. 6))"
    "snd (run_state (dif_gpio_irq_set_trigger (gpio_bus example_handle) (Some example_handle) 3 kDifGpioIrqTriggerEdgeRising) (\<lambda>_. 6))"]
  by (simp add: trigger_enables_def)

end
