(* ===== verification/RunningTimer.thy ===== *)
theory RunningTimer
  imports DifBase
begin

section \<open>64-bit counters that run while they are accessed\<close>

text \<open>
  The device model of the two timers: a 64-bit counter behind two 32-bit registers that advances
  while the driver reads or writes it, and a comparator that raises an interrupt. A
  \<open>counter_map\<close> says which registers these are and how the device compares; the contract
  \<open>running_timer\<close> on it gives the facts both drivers use.
\<close>

record counter_map =
  lo_reg :: u32
  hi_reg :: u32
  enable_reg :: u32
  cmp_lo_reg :: u32
  cmp_hi_reg :: u32
  irq_reg :: u32
  irq_keep :: "u32 \<Rightarrow> u32 \<Rightarrow> bool"
  fires :: "nat \<Rightarrow> nat \<Rightarrow> u64 \<Rightarrow> bool"

text \<open>The counter is unbounded here and the registers show it modulo \<open>2 ^ 64\<close>. Bit 0 of the
  enable register starts and stops it. Time passes after every register access, \<open>pace i\<close> ticks
  after the \<open>i\<close>-th; the interrupt is raised when the counter, moving from \<open>t\<close> to \<open>t'\<close>,
  satisfies \<open>fires t t'\<close> for the comparator; it stays pending until a write \<open>v\<close> to a register
  \<open>x\<close> with \<open>\<not> irq_keep x v\<close> clears it. \<open>alarms\<close> counts the accesses after which it is pending.\<close>

record running_dev =
  timer_regs :: "u32 \<Rightarrow> u32"
  mtime :: nat
  accesses :: nat
  irq :: bool
  alarms :: nat

definition rt_compare :: "counter_map \<Rightarrow> running_dev \<Rightarrow> u64" where
  "rt_compare M d = word64 (timer_regs d (cmp_hi_reg M)) (timer_regs d (cmp_lo_reg M))"

definition rt_active :: "counter_map \<Rightarrow> running_dev \<Rightarrow> bool" where
  "rt_active M d = bit (timer_regs d (enable_reg M)) 0"

definition rt_pass :: "counter_map \<Rightarrow> (nat \<Rightarrow> nat) \<Rightarrow> running_dev \<Rightarrow> running_dev" where
  "rt_pass M pace d =
     (let t = (if rt_active M d then mtime d + pace (accesses d) else mtime d);
          i = (irq d \<or> rt_active M d \<and> fires M (mtime d) t (rt_compare M d))
      in d\<lparr>mtime := t, accesses := Suc (accesses d), irq := i, alarms := alarms d + of_bool i\<rparr>)"

definition rt_read :: "counter_map \<Rightarrow> (nat \<Rightarrow> nat) \<Rightarrow> u32 \<Rightarrow> running_dev \<Rightarrow> u32 \<times> running_dev" where
  "rt_read M pace x d =
     (if x = lo_reg M then of_nat (mtime d)
      else if x = hi_reg M then of_nat (mtime d div 2 ^ 32)
      else if x = irq_reg M then of_bool (irq d)
      else timer_regs d x, rt_pass M pace d)"

text \<open>The state right after a write, before time passes.\<close>

definition rt_set :: "counter_map \<Rightarrow> u32 \<Rightarrow> u32 \<Rightarrow> running_dev \<Rightarrow> running_dev" where
  "rt_set M x v d =
     (let d = d\<lparr>irq := irq d \<and> irq_keep M x v\<rparr>
      in if x = lo_reg M then d\<lparr>mtime := mtime d div 2 ^ 32 * 2 ^ 32 + unat v\<rparr>
         else if x = hi_reg M then d\<lparr>mtime := unat v * 2 ^ 32 + mtime d mod 2 ^ 32\<rparr>
         else if x = irq_reg M then d
         else d\<lparr>timer_regs := (timer_regs d)(x := v)\<rparr>)"

definition rt_write :: "counter_map \<Rightarrow> (nat \<Rightarrow> nat) \<Rightarrow> u32 \<Rightarrow> u32 \<Rightarrow> running_dev \<Rightarrow> running_dev" where
  "rt_write M pace x v d = rt_pass M pace (rt_set M x v d)"

abbreviation rt_bus :: "counter_map \<Rightarrow> (nat \<Rightarrow> nat) \<Rightarrow> dif_handle \<Rightarrow> running_dev bus" where
  "rt_bus M pace h \<equiv> reg_bus (rt_read M pace) (rt_write M pace) (base (base_addr h))"

lemma rt_pass_simps [simp]:
  "mtime (rt_pass M pace d) = (if rt_active M d then mtime d + pace (accesses d) else mtime d)"
  "timer_regs (rt_pass M pace d) = timer_regs d" "rt_active M (rt_pass M pace d) = rt_active M d"
  "accesses (rt_pass M pace d) = Suc (accesses d)" "rt_compare M (rt_pass M pace d) = rt_compare M d"
  by (simp_all add: rt_pass_def Let_def rt_active_def rt_compare_def)

lemma rt_pass_irq:
  "irq (rt_pass M pace d) \<longleftrightarrow> irq d \<or> rt_active M d \<and> fires M (mtime d) (mtime (rt_pass M pace d)) (rt_compare M d)"
  "alarms (rt_pass M pace d) = alarms d + of_bool (irq (rt_pass M pace d))"
  by (simp_all add: rt_pass_def Let_def)

subsection \<open>The halves of a running counter\<close>

lemma word64_of_nat:
  "word64 (of_nat (t div 2 ^ 32)) (of_nat t) = (of_nat t :: u64)"
proof -
  have "(of_nat t :: u64) = word64 (ucast (drop_bit 32 (of_nat t :: u64))) (ucast (of_nat t :: u64))"
    by (rule word64_halves [symmetric])
  moreover have "ucast (drop_bit 32 (of_nat t :: u64)) = (of_nat (t div 2 ^ 32) :: u32)"
    unfolding drop_bit_eq_div [of 32 t, symmetric] by (rule bit_word_eqI) (auto simp: bit_simps)
  moreover have "ucast (of_nat t :: u64) = (of_nat t :: u32)"
    by (rule bit_word_eqI) (auto simp: bit_simps)
  ultimately show ?thesis by simp
qed

lemma squeeze_mod:
  fixes a b c :: nat
  assumes "a \<le> b" "b \<le> c" "c \<le> a + 1" "a mod m = c mod m" "1 < m"
  shows "b = a"
proof -
  have "c \<noteq> Suc a" using assms(4,5) by (auto simp: mod_Suc split: if_splits)
  with assms(1-3) show ?thesis by simp
qed

text \<open>One round of the loop: three reads at times \<open>t0\<close>, \<open>t1\<close>, \<open>t2\<close>. When the two upper halves
  agree and less than \<open>2 ^ 32\<close> ticks have passed, the result is the counter at \<open>t1\<close>.\<close>

lemma upper_halves_agree:
  fixes t0 t1 t2 :: nat
  assumes "t0 \<le> t1" "t1 \<le> t2" "t2 - t0 < 2 ^ 32"
    "(of_nat (t0 div 2 ^ 32) :: u32) = of_nat (t2 div 2 ^ 32)"
  shows "t1 div 2 ^ 32 = t0 div 2 ^ 32"
proof -
  have m: "t0 div 2 ^ 32 mod 2 ^ 32 = t2 div 2 ^ 32 mod 2 ^ 32"
    using arg_cong [OF assms(4), of unat] by (simp add: unat_of_nat)
  have le: "t2 div 2 ^ 32 \<le> t0 div 2 ^ 32 + 1" using assms(3) by auto
  have "t0 div 2 ^ 32 \<le> t1 div 2 ^ 32" "t1 div 2 ^ 32 \<le> t2 div 2 ^ 32"
    by (rule div_le_mono, rule assms)+
  from squeeze_mod [OF this le m] show ?thesis by simp
qed

text \<open>A round fails only across a carry, and two carries are \<open>2 ^ 32\<close> ticks apart.\<close>

lemma carry_of_disagreement:
  fixes t0 t2 :: nat
  assumes "t0 \<le> t2" "t2 - t0 < 2 ^ 32" "(of_nat (t0 div 2 ^ 32) :: u32) \<noteq> of_nat (t2 div 2 ^ 32)"
  shows "t0 div 2 ^ 32 < t2 div 2 ^ 32"
  using assms by (metis div_le_mono le_neq_implies_less)


lemma two_paces: "t1 < t0 + 2 ^ 29 \<Longrightarrow> t2 < t1 + 2 ^ 29 \<Longrightarrow> t2 - t0 < (2 ^ 32 :: nat)"
  by simp

lemma three_paces:
  "t1 < t0 + 2 ^ 29 \<Longrightarrow> t2 < t1 + 2 ^ 29 \<Longrightarrow> t3 < t2 + 2 ^ 29 \<Longrightarrow> t3 < (t0 + 5 * 2 ^ 29 :: nat)"
  by simp

lemma five_paces:
  "t1 < t0 + 2 ^ 29 \<Longrightarrow> t2 < t1 + 2 ^ 29 \<Longrightarrow> t3 < t2 + 2 ^ 29 \<Longrightarrow> t4 < t3 + 2 ^ 29 \<Longrightarrow> t5 < t4 + 2 ^ 29
    \<Longrightarrow> t5 < (t0 + 5 * 2 ^ 29 :: nat)"
  by simp

text \<open>What the registers of a counter have to satisfy.\<close>

locale running_timer =
  fixes M :: counter_map
  assumes aligned: "lo_reg M mod 4 = 0" "hi_reg M mod 4 = 0" "enable_reg M mod 4 = 0"
      "cmp_lo_reg M mod 4 = 0" "cmp_hi_reg M mod 4 = 0" "irq_reg M mod 4 = 0"
    and separate: "distinct [lo_reg M, hi_reg M, enable_reg M, cmp_lo_reg M, cmp_hi_reg M, irq_reg M]"
begin

lemma run_lo: "run_state (rd32 (rt_bus M pace h) h (lo_reg M)) d = (of_nat (mtime d), rt_pass M pace d)"
  by (simp only: run_reg_read [OF aligned(1)] rt_read_def) simp

lemma run_hi: "run_state (rd32 (rt_bus M pace h) h (hi_reg M)) d = (of_nat (mtime d div 2 ^ 32), rt_pass M pace d)"
  using separate by (auto simp: run_reg_read [OF aligned(2)] rt_read_def)

lemma run_enable: "run_state (rd32 (rt_bus M pace h) h (enable_reg M)) d = (timer_regs d (enable_reg M), rt_pass M pace d)"
  using separate by (auto simp: run_reg_read [OF aligned(3)] rt_read_def)

text \<open>Three accesses at \<open>pace\<close> less than \<open>2 ^ 29\<close>; the counter at the second one is what its upper
  half at the first and its lower half make, when the third shows the same upper half.\<close>

lemma pass_order:
  assumes "\<forall>i. pace i < 2 ^ 29"
  shows "mtime d \<le> mtime (rt_pass M pace d)" "mtime (rt_pass M pace d) < mtime d + 2 ^ 29"
  using assms by simp_all

lemma halves_agree:
  fixes d :: running_dev
  assumes "\<forall>i. pace i < 2 ^ 29"
  defines "d1 \<equiv> rt_pass M pace d" and "d2 \<equiv> rt_pass M pace (rt_pass M pace d)"
  assumes "(of_nat (mtime d div 2 ^ 32) :: u32) = of_nat (mtime d2 div 2 ^ 32)"
  shows "word64 (of_nat (mtime d div 2 ^ 32)) (of_nat (mtime d1)) = of_nat (mtime d1)"
proof -
  note o = pass_order [OF assms(1)]
  have le: "mtime d \<le> mtime d1" "mtime d1 \<le> mtime d2" unfolding d1_def d2_def by (rule o)+
  moreover have "mtime d2 - mtime d < 2 ^ 32"
    unfolding d1_def d2_def by (rule two_paces) (rule o)+
  ultimately have "mtime d1 div 2 ^ 32 = mtime d div 2 ^ 32" using assms(4) by (intro upper_halves_agree)
  with word64_of_nat [of "mtime d1"] show ?thesis by simp
qed

text \<open>When the upper halves differ, a carry has just happened, and in the next few accesses there
  is no second one.\<close>

lemma no_second_carry:
  fixes d :: running_dev
  assumes "\<forall>i. pace i < 2 ^ 29"
  defines "d2 \<equiv> rt_pass M pace (rt_pass M pace d)"
  assumes "(of_nat (mtime d div 2 ^ 32) :: u32) \<noteq> of_nat (mtime d2 div 2 ^ 32)"
    "mtime d2 \<le> t" "t < mtime d + 5 * 2 ^ 29"
  shows "t div 2 ^ 32 = mtime d2 div 2 ^ 32"
proof -
  note o = pass_order [OF assms(1)]
  have "mtime d \<le> mtime d2" "mtime d2 - mtime d < 2 ^ 32"
    unfolding d2_def by (rule order.trans, rule o, rule o, rule two_paces, rule o, rule o)
  from carry_of_disagreement [OF this assms(3)] have "mtime d < mtime d2 div 2 ^ 32 * 2 ^ 32"
    by (simp only: div_less_iff_less_mult zero_less_numeral zero_less_power)
  then have "t < (mtime d2 div 2 ^ 32 + 1) * 2 ^ 32" using assms(5) by simp
  then have "t div 2 ^ 32 < mtime d2 div 2 ^ 32 + 1"
    by (simp only: div_less_iff_less_mult zero_less_numeral zero_less_power)
  moreover have "mtime d2 div 2 ^ 32 \<le> t div 2 ^ 32" using assms(4) by (rule div_le_mono)
  ultimately show ?thesis by simp
qed

end

end
