(* ===== verification/RvTimer.thy ===== *)
theory RvTimer
  imports RunningTimer BaseMath
begin

section \<open>RISC-V timer driver\<close>

text \<open>
  \<^verbatim>\<open>sw/device/lib/dif/dif_rv_timer.c\<close>. The counter and the comparators are 64 bits wide and
  reached through two 32-bit registers each, while the counter runs. Reading the counter is a
  loop that ends when no carry happened in between, a function to \<open>option\<close>.
\<close>

type_synonym dif_rv_timer = dif_handle

record dif_rv_timer_tick_params =
  prescale :: u16
  tick_step :: u8

definition kHartRegisterSpacing :: u32 where
  "kHartRegisterSpacing = 0x100"

definition reg_for_hart :: "u32 \<Rightarrow> u32 \<Rightarrow> u32" where
  "reg_for_hart hart reg_offset = kHartRegisterSpacing * hart + reg_offset"

text \<open>The remainder is written through the pointer to \<open>b\<close>.\<close>

function euclidean_gcd :: "u64 \<Rightarrow> u64 \<Rightarrow> u64" where
  "euclidean_gcd a b =
     (if b \<noteq> 0 then
        let old_b = b; b = the (snd (udiv64_slow a b (Some b))) in euclidean_gcd old_b b
      else a)"
  by pat_completeness auto
termination
proof (relation "measure (\<lambda>(_, b). unat b)", goal_cases)
  case (2 a b old_b b')
  then have "b' = a mod b" by (simp add: udiv64_slow_some)
  moreover have "unat (a mod b) < unat b" using 2 by (simp add: unat_mod_distrib unat_gt_0)
  ultimately show ?case by simp
qed simp

declare euclidean_gcd.simps [simp del]

definition dif_rv_timer_approximate_tick_params ::
    "u64 \<Rightarrow> u64 \<Rightarrow> dif_rv_timer_tick_params ptr \<Rightarrow> dif_result \<times> dif_rv_timer_tick_params ptr" where
  "dif_rv_timer_approximate_tick_params clock_freq counter_freq out =
     (case out of None \<Rightarrow> (kDifBadArg, out) | Some p \<Rightarrow>
       let gcd = euclidean_gcd clock_freq counter_freq;
           pre = fst (udiv64_slow clock_freq gcd None) - 1;
           step = fst (udiv64_slow counter_freq gcd None)
       in if pre > ucast RV_TIMER_CFG0_PRESCALE_MASK \<or> step > ucast RV_TIMER_CFG0_STEP_MASK
          then (kDifBadArg, out)
          else (kDifOk, Some (p\<lparr>prescale := ucast pre, tick_step := ucast step\<rparr>)))"

definition dif_rv_timer_set_tick_params ::
    "'d bus \<Rightarrow> dif_rv_timer ptr \<Rightarrow> u32 \<Rightarrow> dif_rv_timer_tick_params \<Rightarrow> ('d, dif_result) state" where
  "dif_rv_timer_set_tick_params B timer hart_id params = (case timer of None \<Rightarrow> ret kDifBadArg | Some timer \<Rightarrow>
     if hart_id \<ge> RV_TIMER_PARAM_N_HARTS then ret kDifBadArg
     else do {
       let config_value = 0;
       let config_value = bitfield_field32_write config_value RV_TIMER_CFG0_PRESCALE_FIELD
         (ucast (prescale params));
       let config_value = bitfield_field32_write config_value RV_TIMER_CFG0_STEP_FIELD
         (ucast (tick_step params));
       wr32 B timer (reg_for_hart hart_id RV_TIMER_CFG0_REG_OFFSET) config_value;
       ret kDifOk
     })"

definition dif_rv_timer_counter_set_enabled ::
    "'d bus \<Rightarrow> dif_rv_timer ptr \<Rightarrow> u32 \<Rightarrow> dif_toggle \<Rightarrow> ('d, dif_result) state" where
  "dif_rv_timer_counter_set_enabled B timer hart_id enabled =
     (case timer of None \<Rightarrow> ret kDifBadArg | Some timer \<Rightarrow>
       if hart_id \<ge> RV_TIMER_PARAM_N_HARTS then ret kDifBadArg
       else (case enabled of
         kDifToggleEnabled \<Rightarrow> do {
           mmio_region_nonatomic_set_bit32 B (base_addr timer) RV_TIMER_CTRL_REG_OFFSET hart_id;
           ret kDifOk
         }
       | kDifToggleDisabled \<Rightarrow> do {
           mmio_region_nonatomic_clear_bit32 B (base_addr timer) RV_TIMER_CTRL_REG_OFFSET hart_id;
           ret kDifOk
         }
       | _ \<Rightarrow> ret kDifBadArg))"

text \<open>One turn of the loop of \<open>dif_rv_timer_counter_read\<close>, and the loop.\<close>

definition rv_timer_read_once :: "'d bus \<Rightarrow> dif_rv_timer \<Rightarrow> u32 \<Rightarrow> ('d, u64 option) state" where
  "rv_timer_read_once B timer hart_id = do {
     upper \<leftarrow> rd32 B timer (reg_for_hart hart_id RV_TIMER_TIMER_V_UPPER0_REG_OFFSET);
     lower \<leftarrow> rd32 B timer (reg_for_hart hart_id RV_TIMER_TIMER_V_LOWER0_REG_OFFSET);
     overflow_check \<leftarrow> rd32 B timer (reg_for_hart hart_id RV_TIMER_TIMER_V_UPPER0_REG_OFFSET);
     ret (if upper = overflow_check then Some (push_bit 32 (ucast upper) OR ucast lower) else None)
   }"

partial_function (option) rv_timer_read_loop ::
    "'d bus \<Rightarrow> dif_rv_timer \<Rightarrow> u32 \<Rightarrow> 'd \<Rightarrow> (u64 \<times> 'd) option" where
  "rv_timer_read_loop B timer hart_id d =
     (case run_state (rv_timer_read_once B timer hart_id) d of (r, d') \<Rightarrow>
        (case r of Some v \<Rightarrow> Some (v, d') | None \<Rightarrow> rv_timer_read_loop B timer hart_id d'))"

definition dif_rv_timer_counter_read ::
    "'d bus \<Rightarrow> dif_rv_timer ptr \<Rightarrow> u32 \<Rightarrow> u64 ptr \<Rightarrow> 'd \<Rightarrow> (dif_result \<times> u64 ptr \<times> 'd) option" where
  "dif_rv_timer_counter_read B timer hart_id out d = (case (timer, out) of
     (Some timer, Some _) \<Rightarrow>
       if hart_id \<ge> RV_TIMER_PARAM_N_HARTS then Some (kDifBadArg, out, d)
       else do {
         (v, d) \<leftarrow> rv_timer_read_loop B timer hart_id d;
         Some (kDifOk, Some v, d)
       }
   | _ \<Rightarrow> Some (kDifBadArg, out, d))"

definition dif_rv_timer_counter_write ::
    "'d bus \<Rightarrow> dif_rv_timer ptr \<Rightarrow> u32 \<Rightarrow> u64 \<Rightarrow> ('d, dif_result) state" where
  "dif_rv_timer_counter_write B timer hart_id count = (case timer of None \<Rightarrow> ret kDifBadArg | Some timer \<Rightarrow>
     if hart_id \<ge> RV_TIMER_PARAM_N_HARTS then ret kDifBadArg
     else do {
       ctrl_reg \<leftarrow> rd32 B timer RV_TIMER_CTRL_REG_OFFSET;
       let ctrl_reg_cleared = bitfield_bit32_write ctrl_reg hart_id False;
       wr32 B timer RV_TIMER_CTRL_REG_OFFSET ctrl_reg_cleared;
       let lower_count = ucast count;
       let upper_count = ucast (drop_bit 32 count);
       wr32 B timer (reg_for_hart hart_id RV_TIMER_TIMER_V_LOWER0_REG_OFFSET) lower_count;
       wr32 B timer (reg_for_hart hart_id RV_TIMER_TIMER_V_UPPER0_REG_OFFSET) upper_count;
       wr32 B timer RV_TIMER_CTRL_REG_OFFSET ctrl_reg;
       ret kDifOk
     })"

definition dif_rv_timer_arm ::
    "'d bus \<Rightarrow> dif_rv_timer ptr \<Rightarrow> u32 \<Rightarrow> u32 \<Rightarrow> u64 \<Rightarrow> ('d, dif_result) state" where
  "dif_rv_timer_arm B timer hart_id comp_id threshold = (case timer of None \<Rightarrow> ret kDifBadArg | Some timer \<Rightarrow>
     if hart_id \<ge> RV_TIMER_PARAM_N_HARTS \<or> comp_id \<ge> RV_TIMER_PARAM_N_TIMERS then ret kDifBadArg
     else do {
       let lower = ucast threshold;
       let upper = ucast (drop_bit 32 threshold);
       let lower_reg = reg_for_hart hart_id RV_TIMER_COMPARE_LOWER0_0_REG_OFFSET + 8 * comp_id;
       let upper_reg = reg_for_hart hart_id RV_TIMER_COMPARE_UPPER0_0_REG_OFFSET + 8 * comp_id;
       wr32 B timer upper_reg 0xffffffff;
       wr32 B timer lower_reg lower;
       wr32 B timer upper_reg upper;
       ret kDifOk
     })"

text \<open>The loops of the reset over the comparators of a hart and over the harts.\<close>

fun rv_timer_reset_comparators :: "'d bus \<Rightarrow> dif_rv_timer \<Rightarrow> u32 \<Rightarrow> nat \<Rightarrow> u32 \<Rightarrow> ('d, dif_result) state" where
  "rv_timer_reset_comparators B timer hart_id 0 comp_id = ret kDifOk"
| "rv_timer_reset_comparators B timer hart_id (Suc n) comp_id = do {
     error \<leftarrow> dif_rv_timer_arm B (Some timer) hart_id comp_id (- 1);
     if error \<noteq> kDifOk then ret error
     else rv_timer_reset_comparators B timer hart_id n (comp_id + 1)
   }"

fun rv_timer_reset_harts :: "'d bus \<Rightarrow> dif_rv_timer \<Rightarrow> nat \<Rightarrow> u32 \<Rightarrow> ('d, dif_result) state" where
  "rv_timer_reset_harts B timer 0 hart_id = ret kDifOk"
| "rv_timer_reset_harts B timer (Suc n) hart_id = do {
     let irq_status = reg_for_hart hart_id RV_TIMER_INTR_STATE0_REG_OFFSET;
     let irq_enable = reg_for_hart hart_id RV_TIMER_INTR_ENABLE0_REG_OFFSET;
     wr32 B timer irq_enable 0;
     wr32 B timer irq_status 0xffffffff;
     error \<leftarrow> rv_timer_reset_comparators B timer hart_id (unat RV_TIMER_PARAM_N_TIMERS) 0;
     if error \<noteq> kDifOk then ret error
     else do {
       wr32 B timer (reg_for_hart hart_id RV_TIMER_TIMER_V_LOWER0_REG_OFFSET) 0;
       wr32 B timer (reg_for_hart hart_id RV_TIMER_TIMER_V_UPPER0_REG_OFFSET) 0;
       rv_timer_reset_harts B timer n (hart_id + 1)
     }
   }"

definition dif_rv_timer_reset :: "'d bus \<Rightarrow> dif_rv_timer ptr \<Rightarrow> ('d, dif_result) state" where
  "dif_rv_timer_reset B timer = (case timer of None \<Rightarrow> ret kDifBadArg | Some timer \<Rightarrow> do {
     wr32 B timer RV_TIMER_CTRL_REG_OFFSET 0;
     rv_timer_reset_harts B timer (unat RV_TIMER_PARAM_N_HARTS) 0
   })"

subsection \<open>The tick parameters\<close>

lemma euclidean_gcd_correct: "unat (euclidean_gcd a b) = gcd (unat a) (unat b)"
proof (induction a b rule: euclidean_gcd.induct)
  case (1 a b)
  show ?case
  proof (cases "b = 0")
    case True
    then show ?thesis by (simp add: euclidean_gcd.simps)
  next
    case False
    then have s: "the (snd (udiv64_slow a b (Some b))) = a mod b" by (simp add: udiv64_slow_some)
    have "unat (euclidean_gcd b (a mod b)) = gcd (unat b) (unat (a mod b))" using 1 [OF False refl] s by simp
    also have "\<dots> = gcd (unat a) (unat b)" by (metis gcd.commute gcd_red_nat unat_mod_distrib)
    finally show ?thesis using False s by (subst euclidean_gcd.simps) simp
  qed
qed

text \<open>C18: The tick parameters are exact: unless both frequencies are zero, the call succeeds
  precisely when the reduced fraction of the two frequencies fits the register fields (a
  prescaler of at most 2^12 clock cycles, a step of at most 255), and then the counter advances
  by \<open>tick_step\<close> every \<open>prescale + 1\<close> cycles, which is the requested frequency without any
  rounding, in lowest terms; otherwise it returns \<open>kDifBadArg\<close> and leaves the output alone.\<close>

theorem rv_timer_tick_params_exact:
  fixes clock counter :: u64
  assumes "clock \<noteq> 0 \<or> counter \<noteq> 0"
    "dif_rv_timer_approximate_tick_params clock counter (Some p) = (r, out)"
  defines "g \<equiv> gcd (unat clock) (unat counter)"
  shows "if 0 < unat clock \<and> unat clock div g \<le> 4096 \<and> unat counter div g \<le> 255
    then r = kDifOk \<and> (\<exists>q. out = Some q
      \<and> (unat (prescale q) + 1) * unat counter = unat clock * unat (tick_step q)
      \<and> coprime (unat (prescale q) + 1) (unat (tick_step q)))
    else r = kDifBadArg \<and> out = Some p"
proof -
  have g: "0 < g" using assms(1) by (auto simp: g_def unat_gt_0)
  have gu: "unat (euclidean_gcd clock counter) = g" by (simp add: euclidean_gcd_correct g_def)
  then have gn: "euclidean_gcd clock counter \<noteq> 0" using g by auto
  let ?q = "clock div euclidean_gcd clock counter" and ?step = "counter div euclidean_gcd clock counter"
  have uq: "unat ?q = unat clock div g" and us: "unat ?step = unat counter div g"
    by (simp_all add: unat_div_distrib gu)
  have dvd: "g dvd unat clock" "g dvd unat counter" by (simp_all add: g_def)
  have pos: "0 < unat clock \<longleftrightarrow> ?q \<noteq> 0"
    using uq dvd g by (metis dvd_div_eq_0_iff gr0I less_numeral_extra(3) unat_eq_zero)
  have pre: "unat (?q - 1) = unat clock div g - 1" if "?q \<noteq> 0" using that uq by (simp add: unat_minus_one)
  have le: "(?q - 1 > 0xfff \<or> ?step > 0xff) \<longleftrightarrow>
      \<not> (0 < unat clock \<and> unat clock div g \<le> 4096 \<and> unat counter div g \<le> 255)"
  proof (cases "?q = 0")
    case True
    moreover have "(0 - 1 :: u64) > 0xfff" by code_simp
    ultimately have "?q - 1 > 0xfff" by (simp only:)
    with True pos show ?thesis by simp
  next
    case False
    with pos pre us uq show ?thesis by (simp add: word_less_nat_alt) linarith
  qed
  note run = assms(2) [unfolded dif_rv_timer_approximate_tick_params_def option.case Let_def
      udiv64_slow_null [OF gn] fst_conv]
  show ?thesis
  proof (cases "0 < unat clock \<and> unat clock div g \<le> 4096 \<and> unat counter div g \<le> 255")
    case True
    with le have "\<not> (?q - 1 > 0xfff \<or> ?step > 0xff)" by blast
    with run have r: "r = kDifOk" "out = Some (p\<lparr>prescale := ucast (?q - 1), tick_step := ucast ?step\<rparr>)"
      by simp_all
    have p1: "unat (ucast (?q - 1) :: u16) + 1 = unat clock div g"
    proof -
      have "unat clock div g - 1 < 2 ^ 16" using True by (simp, linarith)
      moreover have "0 < unat clock div g" using True pos uq by (metis gr0I unat_eq_zero)
      ultimately show ?thesis using pre True pos by (simp add: unsigned_ucast_eq take_bit_nat_eq_self)
    qed
    have p2: "unat (ucast ?step :: u8) = unat counter div g"
      using True us by (simp add: unsigned_ucast_eq take_bit_nat_eq_self)
    have "(unat clock div g) * unat counter = unat clock * (unat counter div g)"
      using dvd by (metis dvd_div_mult mult.commute)
    moreover have "coprime (unat clock div g) (unat counter div g)"
      using assms(1) unfolding g_def by (intro div_gcd_coprime) (auto simp: unat_gt_0)
    ultimately show ?thesis using True r p1 p2 by (simp del: mult_Suc mult_Suc_right)
  next
    case False
    with le run show ?thesis by auto
  qed
qed

lemma rv_timer_tick_params_exact_witness:
  "\<exists>q. snd (dif_rv_timer_approximate_tick_params 40000000 1000000
      (Some \<lparr>prescale = 7, tick_step = 7\<rparr>)) = Some q \<and> (unat (prescale q) + 1) * 1000000 = 40000000 * unat (tick_step q)"
proof -
  have g: "gcd (40000000 :: nat) 1000000 = 1000000" by simp
  show ?thesis
    using rv_timer_tick_params_exact [of 40000000 1000000 "\<lparr>prescale = 7, tick_step = 7\<rparr>"
        "fst (dif_rv_timer_approximate_tick_params 40000000 1000000 (Some \<lparr>prescale = 7, tick_step = 7\<rparr>))"
        "snd (dif_rv_timer_approximate_tick_params 40000000 1000000 (Some \<lparr>prescale = 7, tick_step = 7\<rparr>))"]
    by (auto simp: g)
qed


subsection \<open>The running timer\<close>

text \<open>As \<^verbatim>\<open>rv_timer.sv\<close> has it: the interrupt state is set when the enabled counter has reached
  the comparator, and writes to the comparator and ones written to the state clear it.\<close>

definition rvt :: counter_map where
  "rvt = \<lparr>lo_reg = RV_TIMER_TIMER_V_LOWER0_REG_OFFSET, hi_reg = RV_TIMER_TIMER_V_UPPER0_REG_OFFSET,
     enable_reg = RV_TIMER_CTRL_REG_OFFSET,
     cmp_lo_reg = RV_TIMER_COMPARE_LOWER0_0_REG_OFFSET, cmp_hi_reg = RV_TIMER_COMPARE_UPPER0_0_REG_OFFSET,
     irq_reg = RV_TIMER_INTR_STATE0_REG_OFFSET,
     irq_keep = (\<lambda>x v. \<not> (x = RV_TIMER_COMPARE_LOWER0_0_REG_OFFSET \<or> x = RV_TIMER_COMPARE_UPPER0_0_REG_OFFSET
       \<or> x = RV_TIMER_INTR_STATE0_REG_OFFSET \<and> bit v 0)),
     fires = (\<lambda>t t' c. c \<le> of_nat t')\<rparr>"

lemma rvt_regs [simp]:
  "lo_reg rvt = RV_TIMER_TIMER_V_LOWER0_REG_OFFSET" "hi_reg rvt = RV_TIMER_TIMER_V_UPPER0_REG_OFFSET"
  "enable_reg rvt = RV_TIMER_CTRL_REG_OFFSET" "cmp_lo_reg rvt = RV_TIMER_COMPARE_LOWER0_0_REG_OFFSET"
  "cmp_hi_reg rvt = RV_TIMER_COMPARE_UPPER0_0_REG_OFFSET" "irq_reg rvt = RV_TIMER_INTR_STATE0_REG_OFFSET"
  "fires rvt t t' c \<longleftrightarrow> c \<le> of_nat t'"
  by (simp_all add: rvt_def)

interpretation rvt: running_timer rvt
  by unfold_locales simp_all

lemma reg_for_hart_0 [simp]: "reg_for_hart 0 x = x"
  by (simp add: reg_for_hart_def)

lemma rv_timer_read_once_device:
  fixes d :: running_dev
  assumes "\<forall>i. pace i < 2 ^ 29"
  defines "d2 \<equiv> rt_pass rvt pace (rt_pass rvt pace d)"
  shows "run_state (rv_timer_read_once (rt_bus rvt pace h) h 0) d
      = (if (of_nat (mtime d div 2 ^ 32) :: u32) = of_nat (mtime d2 div 2 ^ 32)
         then Some (of_nat (mtime (rt_pass rvt pace d))) else None, rt_pass rvt pace d2)"
proof -
  have "run_state (rv_timer_read_once (rt_bus rvt pace h) h 0) d =
    (if (of_nat (mtime d div 2 ^ 32) :: u32) = of_nat (mtime d2 div 2 ^ 32)
     then Some (word64 (of_nat (mtime d div 2 ^ 32)) (of_nat (mtime (rt_pass rvt pace d)))) else None, rt_pass rvt pace d2)"
    using rvt.run_hi [of pace h] rvt.run_lo [of pace h]
    unfolding d2_def rv_timer_read_once_def by (simp add: word64_def del: rt_pass_simps)
  then show ?thesis using rvt.halves_agree [OF assms(1), of d] by (simp add: d2_def del: rt_pass_simps)
qed

text \<open>C15: Reading the running counter: as long as fewer than 2^29 ticks pass between two register
  accesses, the loop ends, after at most two rounds, and the value is one that the 64-bit counter
  really had during the call, even when the lower half carries into the upper half between the
  reads; nothing else of the device changes.\<close>

theorem rv_timer_counter_read_exact:
  assumes "\<forall>i. pace i < 2 ^ 29"
  shows "\<exists>d' t. dif_rv_timer_counter_read (rt_bus rvt pace h) (Some h) 0 (Some x) d = Some (kDifOk, Some (of_nat t), d')
    \<and> mtime d \<le> t \<and> t \<le> mtime d' \<and> timer_regs d' = timer_regs d"
proof -
  define P where "P = rt_pass rvt pace"
  note o = rvt.pass_order [OF assms, folded P_def]
  note once = rv_timer_read_once_device [OF assms, folded P_def]
  have regs: "timer_regs (P d) = timer_regs d" for d by (simp add: P_def)
  have "\<exists>d' t. rv_timer_read_loop (rt_bus rvt pace h) h 0 d = Some (of_nat t, d')
    \<and> mtime d \<le> t \<and> t \<le> mtime d' \<and> timer_regs d' = timer_regs d"
  proof (cases "(of_nat (mtime d div 2 ^ 32) :: u32) = of_nat (mtime (P (P d)) div 2 ^ 32)")
    case True
    then have "rv_timer_read_loop (rt_bus rvt pace h) h 0 d = Some (of_nat (mtime (P d)), P (P (P d)))"
      by (subst rv_timer_read_loop.simps) (simp add: once)
    then show ?thesis
      using o(1) [of d] order.trans [OF o(1) [of "P d"] o(1) [of "P (P d)"]] regs
      by (intro exI [of _ "P (P (P d))"] exI [of _ "mtime (P d)"]) simp
  next
    case False
    let ?e = "P (P (P d))"
    note c = rvt.no_second_carry [OF assms, folded P_def, OF False]
    have m: "mtime (P (P d)) \<le> mtime ?e" "mtime (P (P d)) \<le> mtime (P (P ?e))" "mtime ?e \<le> mtime (P (P ?e))"
      by (iprover intro: order.trans [OF o(1)] o(1) order.refl)+
    have lt: "mtime (P (P ?e)) < mtime d + 5 * 2 ^ 29"
      by (rule five_paces [of "mtime (P d)" _ "mtime (P (P d))" "mtime ?e" "mtime (P ?e)"]) (rule o)+
    then have "mtime ?e < mtime d + 5 * 2 ^ 29" using m(3) by (rule le_less_trans [rotated])
    then have "mtime (P (P ?e)) div 2 ^ 32 = mtime ?e div 2 ^ 32" using c [OF m(1)] c [OF m(2) lt] by (simp only:)
    then have "rv_timer_read_loop (rt_bus rvt pace h) h 0 d = Some (of_nat (mtime (P ?e)), P (P (P ?e)))"
      using False once by (simp only: rv_timer_read_loop.simps [of _ _ _ d] rv_timer_read_loop.simps [of _ _ _ ?e]
          prod.case option.case if_True if_False simp_thms)
    moreover have "mtime d \<le> mtime (P ?e)" "mtime (P ?e) \<le> mtime (P (P (P ?e)))"
      by (iprover intro: order.trans [OF o(1)] o(1) order.refl)+
    ultimately show ?thesis
      using regs by (intro exI [of _ "P (P (P ?e))"] exI [of _ "mtime (P ?e)"]) simp
  qed
  then show ?thesis by (auto simp: dif_rv_timer_counter_read_def)
qed

lemma rv_timer_counter_read_exact_witness:
  "\<exists>d' t. dif_rv_timer_counter_read (rt_bus rvt (\<lambda>_. 3) example_handle) (Some example_handle) 0 (Some 0)
      \<lparr>timer_regs = (\<lambda>_. 1), mtime = 2 ^ 32 - 1, accesses = 0, irq = False, alarms = 0\<rparr> = Some (kDifOk, Some (of_nat t), d')
    \<and> 2 ^ 32 - 1 \<le> t"
  using rv_timer_counter_read_exact [of "\<lambda>_. 3" example_handle 0
    "\<lparr>timer_regs = (\<lambda>_. 1), mtime = 2 ^ 32 - 1, accesses = 0, irq = False, alarms = 0\<rparr>"] by auto

subsection \<open>Writing the counter and setting the alarm\<close>

lemma word64_low: "(q * 2 ^ 32 + unat (l :: u32)) mod 2 ^ 32 = unat l"
  using unat_less_2p [of l] by simp

text \<open>C16: Writing the counter of a running timer: the counter is stopped while its halves are
  written, so no carry can fall between them: afterwards it holds exactly the value written plus
  the ticks since it was re-enabled, and every other register, the enable bit included, is as
  before.\<close>

theorem rv_timer_counter_write_exact:
  "\<exists>d'. run_state (dif_rv_timer_counter_write (rt_bus rvt pace h) (Some h) 0 count) d = (kDifOk, d')
    \<and> mtime d' = unat count + (if rt_active rvt d then pace (accesses d + 4) else 0)
    \<and> timer_regs d' = timer_regs d"
proof -
  have off: "\<not> bit (bitfield_bit32_write w 0 False) 0" for w by (simp add: bit_bit32_write)
  have halves: "unat (ucast (drop_bit 32 count) :: u32) * 2 ^ 32 + unat (ucast count :: u32) = unat count"
    by (metis unat_word64 word64_halves)
  let ?c = "timer_regs d RV_TIMER_CTRL_REG_OFFSET"
  define d2 where "d2 = rt_write rvt pace RV_TIMER_CTRL_REG_OFFSET (bitfield_bit32_write ?c 0 False) (rt_pass rvt pace d)"
  define d3 where "d3 = rt_write rvt pace RV_TIMER_TIMER_V_LOWER0_REG_OFFSET (ucast count) d2"
  define d4 where "d4 = rt_write rvt pace RV_TIMER_TIMER_V_UPPER0_REG_OFFSET (ucast (drop_bit 32 count)) d3"
  define d5 where "d5 = rt_write rvt pace RV_TIMER_CTRL_REG_OFFSET ?c d4"
  note W = rt_write_def rt_set_def rt_active_def Let_def
  have 2: "\<not> rt_active rvt d2" "accesses d2 = accesses d + 2"
    "timer_regs d2 = (timer_regs d)(RV_TIMER_CTRL_REG_OFFSET := bitfield_bit32_write ?c 0 False)"
    by (simp_all add: d2_def W off)
  then have 3: "\<not> rt_active rvt d3" "accesses d3 = accesses d + 3" "timer_regs d3 = timer_regs d2"
    "mtime d3 = mtime d2 div 2 ^ 32 * 2 ^ 32 + unat (ucast count :: u32)"
    by (simp_all add: d3_def W)
  then have 4: "\<not> rt_active rvt d4" "accesses d4 = accesses d + 4" "timer_regs d4 = timer_regs d2"
    "mtime d4 = unat (ucast (drop_bit 32 count) :: u32) * 2 ^ 32 + mtime d3 mod 2 ^ 32"
    by (simp_all add: d4_def W)
  have "mtime d4 = unat count" unfolding 4(4) 3(4) word64_low by (rule halves)
  then have "mtime d5 = unat count + (if rt_active rvt d then pace (accesses d + 4) else 0)"
    "timer_regs d5 = timer_regs d"
    using 2(3) 4(2,3) by (simp_all add: d5_def W fun_upd_idem add.commute [of _ 4])
  moreover have "run_state (dif_rv_timer_counter_write (rt_bus rvt pace h) (Some h) 0 count) d = (kDifOk, d5)"
    using rvt.run_enable [of pace h d]
    by (simp add: dif_rv_timer_counter_write_def Let_def run_reg_write d5_def d4_def d3_def d2_def)
  ultimately show ?thesis by blast
qed

text \<open>C17: Setting the alarm: while the three register writes of \<open>dif_rv_timer_arm\<close> are under way
  the timer never raises an interrupt for a comparator value that mixes the old and the new
  threshold: whatever the old comparator was, the interrupt is pending after the last write if
  the counter has then reached the new threshold, and not before, as long as the counter stays
  below 2^64 - 2^32.\<close>

theorem rv_timer_arm_no_spurious:
  assumes "run_state (dif_rv_timer_arm (rt_bus rvt pace h) (Some h) 0 0 threshold) d = (r, d')"
    "mtime d' < 2 ^ 64 - 2 ^ 32"
  shows "r = kDifOk \<and> rt_compare rvt d' = threshold \<and> (irq d' \<longleftrightarrow> rt_active rvt d \<and> unat threshold \<le> mtime d')
    \<and> alarms d' = alarms d + of_bool (irq d')"
proof -
  let ?u = "ucast (drop_bit 32 threshold) :: u32" and ?l = "ucast threshold :: u32"
  define s1 where "s1 = rt_set rvt RV_TIMER_COMPARE_UPPER0_0_REG_OFFSET 0xffffffff d"
  define d1 where "d1 = rt_pass rvt pace s1"
  define s2 where "s2 = rt_set rvt RV_TIMER_COMPARE_LOWER0_0_REG_OFFSET ?l d1"
  define d2 where "d2 = rt_pass rvt pace s2"
  define s3 where "s3 = rt_set rvt RV_TIMER_COMPARE_UPPER0_0_REG_OFFSET ?u d2"
  have d': "d' = rt_pass rvt pace s3" and r: "r = kDifOk"
    using assms(1) by (simp_all add: dif_rv_timer_arm_def run_reg_write rt_write_def Let_def
        s3_def d2_def s2_def d1_def s1_def)
  have S: "\<not> irq (rt_set rvt x v e)" "alarms (rt_set rvt x v e) = alarms e" "mtime (rt_set rvt x v e) = mtime e"
    "rt_active rvt (rt_set rvt x v e) = rt_active rvt e" "timer_regs (rt_set rvt x v e) = (timer_regs e)(x := v)"
    if "x = RV_TIMER_COMPARE_LOWER0_0_REG_OFFSET \<or> x = RV_TIMER_COMPARE_UPPER0_0_REG_OFFSET" for x v e
    using that by (auto simp: rt_set_def Let_def rt_active_def rvt_def)
  have act: "rt_active rvt s1 = rt_active rvt d" "rt_active rvt s2 = rt_active rvt d" "rt_active rvt s3 = rt_active rvt d"
    by (simp_all add: s1_def s2_def s3_def d1_def d2_def S)
  have le: "mtime d1 \<le> mtime d2" "mtime d2 \<le> mtime d'" by (simp_all add: d' s3_def d2_def s2_def S)
  have high: "\<not> word64 0xffffffff x \<le> of_nat t" if "t < 2 ^ 64 - 2 ^ 32" for x t
    using that by (simp add: word_le_nat_alt unat_word64 unat_of_nat)
  have u: "timer_regs d1 RV_TIMER_COMPARE_UPPER0_0_REG_OFFSET = 0xffffffff" by (simp add: d1_def s1_def S)
  have 1: "\<not> irq d1" "alarms d1 = alarms d"
    using high [of "mtime d1"] le assms(2) by (simp_all add: d1_def rt_pass_irq s1_def S rt_compare_def)
  have 2: "\<not> irq d2" "alarms d2 = alarms d1"
    using high [of "mtime d2"] le assms(2) u by (simp_all add: d2_def rt_pass_irq s2_def S rt_compare_def)
  have cmp: "rt_compare rvt s3 = threshold"
    by (simp add: s3_def d2_def s2_def S rt_compare_def word64_halves)
  have "threshold \<le> of_nat (mtime d') \<longleftrightarrow> unat threshold \<le> mtime d'"
    using assms(2) by (simp add: word_le_nat_alt unat_of_nat)
  then have i: "irq d' \<longleftrightarrow> rt_active rvt d \<and> unat threshold \<le> mtime d'"
    unfolding d' rt_pass_irq by (simp add: cmp act del: rt_pass_simps) (simp add: s3_def S)
  have "alarms d' = alarms d2 + of_bool (irq d')" unfolding d' rt_pass_irq(2) by (simp add: s3_def S)
  with r i 1 2 cmp show ?thesis by (simp add: d')
qed

lemma rv_timer_arm_no_spurious_witness:
  "let d = \<lparr>timer_regs = (\<lambda>_. 1), mtime = 1000, accesses = 0, irq = False, alarms = 0\<rparr>;
       d' = snd (run_state (dif_rv_timer_arm (rt_bus rvt (\<lambda>_. 7) example_handle) (Some example_handle) 0 0 2000) d)
   in alarms d' = 0 \<and> mtime d' = 1021"
proof -
  obtain h :: dif_handle where h: "h = example_handle" by simp
  define d where "d = \<lparr>timer_regs = (\<lambda>_ :: u32. 1 :: u32), mtime = 1000, accesses = 0, irq = False, alarms = 0\<rparr>"
  obtain r d' where run: "run_state (dif_rv_timer_arm (rt_bus rvt (\<lambda>_. 7) h) (Some h) 0 0 2000) d = (r, d')" by fastforce
  then have "mtime d' = 1021"
    by (auto simp: dif_rv_timer_arm_def run_reg_write rt_write_def rt_set_def Let_def d_def rt_active_def)
  with rv_timer_arm_no_spurious [OF run] run show ?thesis unfolding h by (simp add: d_def Let_def)
qed

end
