(* ===== verification/RvPlic.thy ===== *)
theory RvPlic
  imports DifBase
begin

section \<open>Platform-level interrupt controller driver\<close>

text \<open>
  \<^verbatim>\<open>sw/device/lib/dif/dif_rv_plic.c\<close>: the address of every register from the interrupt and
  target numbers, and the operations on them.
\<close>

type_synonym dif_rv_plic = dif_handle
type_synonym dif_rv_plic_irq_id = u32
type_synonym dif_rv_plic_target = u32

definition kDifRvPlicMinPriority :: u32 where
  "kDifRvPlicMinPriority = 0"

definition kDifRvPlicMaxPriority :: u32 where
  "kDifRvPlicMaxPriority = RV_PLIC_PRIO0_PRIO0_MASK"

record plic_reg_info =
  reg_offset :: u32
  reg_bit_index :: bitfield_bit32_index

definition plic_offset_from_reg0 :: "dif_rv_plic_irq_id \<Rightarrow> u32" where
  "plic_offset_from_reg0 irq =
     (let register_index = (ucast (irq div RV_PLIC_PARAM_REG_WIDTH) :: u8) in ucast register_index * 4)"

definition plic_irq_bit_index :: "dif_rv_plic_irq_id \<Rightarrow> u8" where
  "plic_irq_bit_index irq = ucast (irq mod RV_PLIC_PARAM_REG_WIDTH)"

definition plic_irq_enable_base_for_target :: "dif_rv_plic_target \<Rightarrow> u32" where
  "plic_irq_enable_base_for_target target =
     (let range = RV_PLIC_IE0_MULTIREG_COUNT * 4 in RV_PLIC_IE0_REG_OFFSET + range * target)"

definition plic_software_irq_base_for_target :: "dif_rv_plic_target \<Rightarrow> u32" where
  "plic_software_irq_base_for_target target = RV_PLIC_MSIP0_REG_OFFSET + target * 4"

definition plic_threshold_base_for_target :: "dif_rv_plic_target \<Rightarrow> u32" where
  "plic_threshold_base_for_target target = RV_PLIC_THRESHOLD0_REG_OFFSET + target * 4"

definition plic_claim_complete_base_for_target :: "dif_rv_plic_target \<Rightarrow> u32" where
  "plic_claim_complete_base_for_target target = RV_PLIC_CC0_REG_OFFSET + target * 4"

definition plic_irq_enable_reg_info :: "dif_rv_plic_irq_id \<Rightarrow> dif_rv_plic_target \<Rightarrow> plic_reg_info" where
  "plic_irq_enable_reg_info irq target =
     \<lparr>reg_offset = plic_irq_enable_base_for_target target + plic_offset_from_reg0 irq,
      reg_bit_index = ucast (plic_irq_bit_index irq)\<rparr>"

definition plic_irq_pending_reg_info :: "dif_rv_plic_irq_id \<Rightarrow> plic_reg_info" where
  "plic_irq_pending_reg_info irq =
     \<lparr>reg_offset = RV_PLIC_IP_REG_OFFSET + plic_offset_from_reg0 irq,
      reg_bit_index = ucast (plic_irq_bit_index irq)\<rparr>"

definition plic_priority_reg_offset :: "dif_rv_plic_irq_id \<Rightarrow> u32" where
  "plic_priority_reg_offset irq = RV_PLIC_PRIO0_REG_OFFSET + irq * 4"

text \<open>The three loops of the reset; the number counts the turns that are left.\<close>

fun plic_reset_priorities :: "'d bus \<Rightarrow> dif_rv_plic \<Rightarrow> nat \<Rightarrow> u32 \<Rightarrow> ('d, unit) state" where
  "plic_reset_priorities B plic 0 i = ret ()"
| "plic_reset_priorities B plic (Suc n) i = do {
     wr32 B plic (plic_priority_reg_offset i) 0;
     plic_reset_priorities B plic n (i + 1)
   }"

fun plic_reset_enables :: "'d bus \<Rightarrow> dif_rv_plic \<Rightarrow> nat \<Rightarrow> u32 \<Rightarrow> u32 \<Rightarrow> ('d, unit) state" where
  "plic_reset_enables B plic 0 offset i = ret ()"
| "plic_reset_enables B plic (Suc n) offset i = do {
     wr32 B plic (offset + i * 4) 0;
     plic_reset_enables B plic n offset (i + 1)
   }"

fun plic_reset_targets :: "'d bus \<Rightarrow> dif_rv_plic \<Rightarrow> nat \<Rightarrow> u32 \<Rightarrow> ('d, unit) state" where
  "plic_reset_targets B plic 0 target = ret ()"
| "plic_reset_targets B plic (Suc n) target = do {
     plic_reset_enables B plic (unat RV_PLIC_IE0_MULTIREG_COUNT) (plic_irq_enable_base_for_target target) 0;
     wr32 B plic (plic_threshold_base_for_target target) 0;
     wr32 B plic (plic_software_irq_base_for_target target) 0;
     plic_reset_targets B plic n (target + 1)
   }"

definition dif_rv_plic_reset :: "'d bus \<Rightarrow> dif_rv_plic ptr \<Rightarrow> ('d, dif_result) state" where
  "dif_rv_plic_reset B plic = (case plic of None \<Rightarrow> ret kDifBadArg | Some plic \<Rightarrow> do {
     plic_reset_priorities B plic (unat RV_PLIC_PARAM_NUM_SRC) 0;
     plic_reset_targets B plic (unat RV_PLIC_PARAM_NUM_TARGET) 0;
     ret kDifOk
   })"

text \<open>The code does not check that \<open>state\<close> is not null before it writes through it; the model
  leaves a null pointer null.\<close>

definition dif_rv_plic_irq_get_enabled :: "'d bus \<Rightarrow> dif_rv_plic ptr \<Rightarrow> dif_rv_plic_irq_id
    \<Rightarrow> dif_rv_plic_target \<Rightarrow> dif_toggle ptr \<Rightarrow> ('d, dif_result \<times> dif_toggle ptr) state" where
  "dif_rv_plic_irq_get_enabled B plic irq target enabled =
     (case plic of None \<Rightarrow> ret (kDifBadArg, enabled) | Some plic \<Rightarrow>
       if irq \<ge> RV_PLIC_PARAM_NUM_SRC \<or> target \<ge> RV_PLIC_PARAM_NUM_TARGET then ret (kDifBadArg, enabled)
       else do {
         let reg_info = plic_irq_enable_reg_info irq target;
         reg \<leftarrow> rd32 B plic (reg_offset reg_info);
         let is_enabled = bitfield_bit32_read reg (reg_bit_index reg_info);
         ret (kDifOk, map_option
           (\<lambda>_. if is_enabled then kDifToggleEnabled else kDifToggleDisabled) enabled)
       })"

definition dif_rv_plic_irq_set_enabled :: "'d bus \<Rightarrow> dif_rv_plic ptr \<Rightarrow> dif_rv_plic_irq_id
    \<Rightarrow> dif_rv_plic_target \<Rightarrow> dif_toggle \<Rightarrow> ('d, dif_result) state" where
  "dif_rv_plic_irq_set_enabled B plic irq target enabled =
     (case plic of None \<Rightarrow> ret kDifBadArg | Some plic \<Rightarrow>
       if irq \<ge> RV_PLIC_PARAM_NUM_SRC \<or> target \<ge> RV_PLIC_PARAM_NUM_TARGET then ret kDifBadArg
       else (case (case enabled of
           kDifToggleEnabled \<Rightarrow> Some True | kDifToggleDisabled \<Rightarrow> Some False | _ \<Rightarrow> None) of
         None \<Rightarrow> ret kDifBadArg
       | Some flag \<Rightarrow> do {
           let reg_info = plic_irq_enable_reg_info irq target;
           reg \<leftarrow> rd32 B plic (reg_offset reg_info);
           let reg = bitfield_bit32_write reg (reg_bit_index reg_info) flag;
           wr32 B plic (reg_offset reg_info) reg;
           ret kDifOk
         }))"

definition dif_rv_plic_irq_set_priority ::
    "'d bus \<Rightarrow> dif_rv_plic ptr \<Rightarrow> dif_rv_plic_irq_id \<Rightarrow> u32 \<Rightarrow> ('d, dif_result) state" where
  "dif_rv_plic_irq_set_priority B plic irq priority =
     (case plic of None \<Rightarrow> ret kDifBadArg | Some plic \<Rightarrow>
       if irq \<ge> RV_PLIC_PARAM_NUM_SRC \<or> priority > kDifRvPlicMaxPriority then ret kDifBadArg
       else do {
         wr32 B plic (plic_priority_reg_offset irq) priority;
         ret kDifOk
       })"

definition dif_rv_plic_target_set_threshold ::
    "'d bus \<Rightarrow> dif_rv_plic ptr \<Rightarrow> dif_rv_plic_target \<Rightarrow> u32 \<Rightarrow> ('d, dif_result) state" where
  "dif_rv_plic_target_set_threshold B plic target threshold =
     (case plic of None \<Rightarrow> ret kDifBadArg | Some plic \<Rightarrow>
       if target \<ge> RV_PLIC_PARAM_NUM_TARGET \<or> threshold > kDifRvPlicMaxPriority then ret kDifBadArg
       else do {
         wr32 B plic (plic_threshold_base_for_target target) threshold;
         ret kDifOk
       })"

definition dif_rv_plic_irq_is_pending ::
    "'d bus \<Rightarrow> dif_rv_plic ptr \<Rightarrow> dif_rv_plic_irq_id \<Rightarrow> bool ptr \<Rightarrow> ('d, dif_result \<times> bool ptr) state" where
  "dif_rv_plic_irq_is_pending B plic irq is_pending = (case (plic, is_pending) of
     (Some plic, Some _) \<Rightarrow>
       if irq \<ge> RV_PLIC_PARAM_NUM_SRC then ret (kDifBadArg, is_pending)
       else do {
         let reg_info = plic_irq_pending_reg_info irq;
         reg \<leftarrow> rd32 B plic (reg_offset reg_info);
         ret (kDifOk, Some (bitfield_bit32_read reg (reg_bit_index reg_info)))
       }
   | _ \<Rightarrow> ret (kDifBadArg, is_pending))"

definition dif_rv_plic_irq_claim :: "'d bus \<Rightarrow> dif_rv_plic ptr \<Rightarrow> dif_rv_plic_target
    \<Rightarrow> dif_rv_plic_irq_id ptr \<Rightarrow> ('d, dif_result \<times> dif_rv_plic_irq_id ptr) state" where
  "dif_rv_plic_irq_claim B plic target claim_data = (case (plic, claim_data) of
     (Some plic, Some _) \<Rightarrow>
       if target \<ge> RV_PLIC_PARAM_NUM_TARGET then ret (kDifBadArg, claim_data)
       else do {
         v \<leftarrow> rd32 B plic (plic_claim_complete_base_for_target target);
         ret (kDifOk, Some v)
       }
   | _ \<Rightarrow> ret (kDifBadArg, claim_data))"

definition dif_rv_plic_irq_complete ::
    "'d bus \<Rightarrow> dif_rv_plic ptr \<Rightarrow> dif_rv_plic_target \<Rightarrow> dif_rv_plic_irq_id \<Rightarrow> ('d, dif_result) state" where
  "dif_rv_plic_irq_complete B plic target complete_data =
     (case plic of None \<Rightarrow> ret kDifBadArg | Some plic \<Rightarrow>
       if target \<ge> RV_PLIC_PARAM_NUM_TARGET then ret kDifBadArg
       else do {
         wr32 B plic (plic_claim_complete_base_for_target target) complete_data;
         ret kDifOk
       })"

definition dif_rv_plic_software_irq_force ::
    "'d bus \<Rightarrow> dif_rv_plic ptr \<Rightarrow> dif_rv_plic_target \<Rightarrow> ('d, dif_result) state" where
  "dif_rv_plic_software_irq_force B plic target =
     (case plic of None \<Rightarrow> ret kDifBadArg | Some plic \<Rightarrow>
       if target \<ge> RV_PLIC_PARAM_NUM_TARGET then ret kDifBadArg
       else do {
         wr32 B plic (plic_software_irq_base_for_target target) 1;
         ret kDifOk
       })"

definition dif_rv_plic_software_irq_acknowledge ::
    "'d bus \<Rightarrow> dif_rv_plic ptr \<Rightarrow> dif_rv_plic_target \<Rightarrow> ('d, dif_result) state" where
  "dif_rv_plic_software_irq_acknowledge B plic target =
     (case plic of None \<Rightarrow> ret kDifBadArg | Some plic \<Rightarrow>
       if target \<ge> RV_PLIC_PARAM_NUM_TARGET then ret kDifBadArg
       else do {
         wr32 B plic (plic_software_irq_base_for_target target) 0;
         ret kDifOk
       })"

definition dif_rv_plic_software_irq_is_pending ::
    "'d bus \<Rightarrow> dif_rv_plic ptr \<Rightarrow> dif_rv_plic_target \<Rightarrow> bool ptr \<Rightarrow> ('d, dif_result \<times> bool ptr) state" where
  "dif_rv_plic_software_irq_is_pending B plic target is_pending = (case (plic, is_pending) of
     (Some plic, Some _) \<Rightarrow>
       if target \<ge> RV_PLIC_PARAM_NUM_TARGET then ret (kDifBadArg, is_pending)
       else do {
         register_value \<leftarrow> rd32 B plic (plic_software_irq_base_for_target target);
         ret (kDifOk, Some (register_value = 1))
       }
   | _ \<Rightarrow> ret (kDifBadArg, is_pending))"

subsection \<open>The settings are independent\<close>

text \<open>What can be configured, with where the register description keeps it: an enable is one bit
  of a register, the others are whole registers.\<close>

datatype plic_setting =
    Plic_Priority dif_rv_plic_irq_id
  | Plic_Enable dif_rv_plic_irq_id dif_rv_plic_target
  | Plic_Threshold dif_rv_plic_target
  | Plic_Software dif_rv_plic_target

fun plic_valid :: "plic_setting \<Rightarrow> bool" where
  "plic_valid (Plic_Priority irq) \<longleftrightarrow> irq < RV_PLIC_PARAM_NUM_SRC"
| "plic_valid (Plic_Enable irq target) \<longleftrightarrow> irq < RV_PLIC_PARAM_NUM_SRC \<and> target < RV_PLIC_PARAM_NUM_TARGET"
| "plic_valid (Plic_Threshold target) \<longleftrightarrow> target < RV_PLIC_PARAM_NUM_TARGET"
| "plic_valid (Plic_Software target) \<longleftrightarrow> target < RV_PLIC_PARAM_NUM_TARGET"

fun plic_value :: "(u32 \<Rightarrow> u32) \<Rightarrow> plic_setting \<Rightarrow> u32" where
  "plic_value d (Plic_Priority irq) = d (RV_PLIC_PRIO0_REG_OFFSET + 4 * irq)"
| "plic_value d (Plic_Enable irq target) =
     of_bool (bit (d (RV_PLIC_IE0_REG_OFFSET + 4 * (RV_PLIC_IE0_MULTIREG_COUNT * target + irq div 32))) (unat irq mod 32))"
| "plic_value d (Plic_Threshold target) = d (RV_PLIC_THRESHOLD0_REG_OFFSET + 4 * target)"
| "plic_value d (Plic_Software target) = d (RV_PLIC_MSIP0_REG_OFFSET + 4 * target)"

text \<open>The operation that configures a setting.\<close>

fun plic_set :: "'d bus \<Rightarrow> dif_rv_plic \<Rightarrow> plic_setting \<Rightarrow> u32 \<Rightarrow> ('d, dif_result) state" where
  "plic_set B h (Plic_Priority irq) v = dif_rv_plic_irq_set_priority B (Some h) irq v"
| "plic_set B h (Plic_Enable irq target) v =
     dif_rv_plic_irq_set_enabled B (Some h) irq target (dif_bool_to_toggle (v \<noteq> 0))"
| "plic_set B h (Plic_Threshold target) v = dif_rv_plic_target_set_threshold B (Some h) target v"
| "plic_set B h (Plic_Software target) v = (if v \<noteq> 0 then dif_rv_plic_software_irq_force B (Some h) target
     else dif_rv_plic_software_irq_acknowledge B (Some h) target)"

fun plic_allowed :: "plic_setting \<Rightarrow> u32 \<Rightarrow> bool" where
  "plic_allowed (Plic_Priority irq) v \<longleftrightarrow> v \<le> kDifRvPlicMaxPriority"
| "plic_allowed (Plic_Threshold target) v \<longleftrightarrow> v \<le> kDifRvPlicMaxPriority"
| "plic_allowed _ v \<longleftrightarrow> v \<le> 1"

abbreviation plic_bus :: "dif_rv_plic \<Rightarrow> (u32 \<Rightarrow> u32) bus" where
  "plic_bus h \<equiv> plain_bus (base (base_addr h))"

lemma word_less_1 [simp]: "(x :: u32) < 1 \<longleftrightarrow> x = 0"
  by (simp add: word_less_nat_alt unat_eq_zero)

lemma irq_facts:
  assumes "irq < (32 :: u32)"
  shows "irq div 32 = 0" "irq mod 32 = irq" "unat irq < 32" "unat (irq * 4) = unat irq * 4"
    "ucast (ucast irq :: u8) = irq" "irq * 4 mod 4 = 0"
proof -
  show u: "unat irq < 32" using assms by (simp add: word_less_nat_alt)
  then show "irq div 32 = 0" "irq mod 32 = irq"
    by (simp_all add: word_unat_eq_iff unat_div_distrib unat_mod_distrib)
  show "unat (irq * 4) = unat irq * 4" using u by (simp add: unat_word_ariths)
  then show "irq * 4 mod 4 = 0" by (simp add: word_unat_eq_iff unat_mod_distrib)
  show "ucast (ucast irq :: u8) = irq"
    using u by (simp add: word_unat_eq_iff unsigned_ucast_eq unsigned_take_bit_eq take_bit_nat_eq_self)
qed

lemma irq_offsets:
  assumes "irq < (32 :: u32)"
  shows "irq * 4 \<noteq> 0x2000" "irq * 4 \<noteq> 0x200000" "irq * 4 \<noteq> 0x4000000"
    "irq' < 32 \<Longrightarrow> irq * 4 = irq' * 4 \<longleftrightarrow> irq = irq'"
  using irq_facts(3,4) [OF assms] irq_facts(3,4) [of irq'] by (auto simp: word_unat_eq_iff)

text \<open>A setting is written where the register description keeps it.\<close>

lemma plic_set_device:
  assumes "plic_valid s" "plic_allowed s v"
  shows "\<exists>d'. run_state (plic_set (plic_bus h) h s v) d = (kDifOk, d')
    \<and> d' = (case s of
        Plic_Priority irq \<Rightarrow> d(irq * 4 := v)
      | Plic_Enable irq target \<Rightarrow> d(RV_PLIC_IE0_REG_OFFSET := bitfield_bit32_write (d RV_PLIC_IE0_REG_OFFSET) irq (v \<noteq> 0))
      | Plic_Threshold target \<Rightarrow> d(RV_PLIC_THRESHOLD0_REG_OFFSET := v)
      | Plic_Software target \<Rightarrow> d(RV_PLIC_MSIP0_REG_OFFSET := v))"
proof (cases s)
  case (Plic_Priority irq)
  then show ?thesis using assms irq_facts [of irq]
    by (simp add: dif_rv_plic_irq_set_priority_def plic_priority_reg_offset_def run_plain_write not_le)
next
  case (Plic_Enable irq target)
  then show ?thesis using assms irq_facts [of irq]
    by (simp add: dif_rv_plic_irq_set_enabled_def plic_irq_enable_reg_info_def plic_irq_enable_base_for_target_def
        plic_offset_from_reg0_def plic_irq_bit_index_def run_plain_write run_plain_read dif_bool_to_toggle_def
        not_le Let_def)
next
  case (Plic_Threshold target)
  then show ?thesis using assms
    by (simp add: dif_rv_plic_target_set_threshold_def plic_threshold_base_for_target_def run_plain_write not_le)
next
  case (Plic_Software target)
  have "v = 0 \<or> v = 1" using Plic_Software assms(2) by (auto simp: word_le_nat_alt word_unat_eq_iff)
  then show ?thesis using Plic_Software assms
    by (auto simp: dif_rv_plic_software_irq_force_def dif_rv_plic_software_irq_acknowledge_def
        plic_software_irq_base_for_target_def run_plain_write not_le)
qed

text \<open>What the queries return is the setting and the pending bit.\<close>

lemma plic_queries:
  assumes "irq < 32"
  shows "run_state (dif_rv_plic_irq_get_enabled (plic_bus h) (Some h) irq 0 (Some x)) d
      = ((kDifOk, Some (dif_bool_to_toggle (plic_value d (Plic_Enable irq 0) = 1))), d)"
    and "run_state (dif_rv_plic_irq_is_pending (plic_bus h) (Some h) irq (Some y)) d
      = ((kDifOk, Some (bit (d RV_PLIC_IP_REG_OFFSET) (unat irq))), d)"
    and "run_state (dif_rv_plic_software_irq_is_pending (plic_bus h) (Some h) 0 (Some z)) d
      = ((kDifOk, Some (plic_value d (Plic_Software 0) = 1)), d)"
  using assms irq_facts [OF assms]
  by (simp_all add: dif_rv_plic_irq_get_enabled_def plic_irq_enable_reg_info_def plic_irq_enable_base_for_target_def
      plic_offset_from_reg0_def plic_irq_bit_index_def run_plain_read dif_bool_to_toggle_def not_le Let_def
      bitfield_bit32_read_iff dif_rv_plic_irq_is_pending_def plic_irq_pending_reg_info_def
      dif_rv_plic_software_irq_is_pending_def plic_software_irq_base_for_target_def)

text \<open>C22: Every setting of the interrupt controller has its own bits: configuring the priority or
  the enable of one interrupt, the threshold of a target or its software interrupt succeeds for
  every valid argument, its register or bit holds the value it was given afterwards, and every other
  setting of every other interrupt and target is as it was. The two queries of the driver see this:
  afterwards \<open>dif_rv_plic_irq_get_enabled\<close> returns for every interrupt, and
  \<open>dif_rv_plic_software_irq_is_pending\<close> for every target, the value just set if it is the one that
  was configured and what it returned before if it is not. (The driver has no queries for priorities
  and thresholds.)\<close>

theorem plic_settings_independent:
  assumes "plic_valid s" "plic_allowed s v" "run_state (plic_set (plic_bus h) h s v) d = (r, d')"
  shows "r = kDifOk \<and> plic_value d' s = v
    \<and> (\<forall>s'. plic_valid s' \<and> s' \<noteq> s \<longrightarrow> plic_value d' s' = plic_value d s')
    \<and> (\<forall>irq target. plic_valid (Plic_Enable irq target) \<longrightarrow>
        run_state (dif_rv_plic_irq_get_enabled (plic_bus h) (Some h) irq target (Some x)) d'
          = (if s = Plic_Enable irq target
             then ((kDifOk, Some (if v = 1 then kDifToggleEnabled else kDifToggleDisabled)), d')
             else (fst (run_state (dif_rv_plic_irq_get_enabled (plic_bus h) (Some h) irq target (Some x)) d), d')))
    \<and> (\<forall>target. plic_valid (Plic_Software target) \<longrightarrow>
        run_state (dif_rv_plic_software_irq_is_pending (plic_bus h) (Some h) target (Some y)) d'
          = (if s = Plic_Software target then ((kDifOk, Some (v = 1)), d')
             else (fst (run_state (dif_rv_plic_software_irq_is_pending (plic_bus h) (Some h) target (Some y)) d), d')))"
proof -
  have b: "v \<le> 1 \<Longrightarrow> of_bool (v \<noteq> 0) = v"
    by (auto simp: word_le_nat_alt word_unat_eq_iff)
  have held: "plic_value d' s' = (if s' = s then v else plic_value d s')" if "plic_valid s'" for s'
    using plic_set_device [OF assms(1,2), of h d] assms that b
    by (cases s; cases s') (auto simp: bit_bit32_write irq_facts irq_offsets irq_offsets(1-3) [symmetric] mult.commute [of 4] word_unat_eq_iff [symmetric])
  moreover have "run_state (dif_rv_plic_irq_get_enabled (plic_bus h) (Some h) irq target (Some x)) d'
      = (if s = Plic_Enable irq target
         then ((kDifOk, Some (if v = 1 then kDifToggleEnabled else kDifToggleDisabled)), d')
         else (fst (run_state (dif_rv_plic_irq_get_enabled (plic_bus h) (Some h) irq target (Some x)) d), d'))"
    if valid: "plic_valid (Plic_Enable irq target)" for irq target
  proof -
    have "irq < 32" "target = 0" using valid by simp_all
    from plic_queries(1) [OF this(1), of h x] held [OF valid] this(2) show ?thesis
      by (auto simp: dif_bool_to_toggle_def simp del: plic_value.simps)
  qed
  moreover have "run_state (dif_rv_plic_software_irq_is_pending (plic_bus h) (Some h) target (Some y)) d'
      = (if s = Plic_Software target then ((kDifOk, Some (v = 1)), d')
         else (fst (run_state (dif_rv_plic_software_irq_is_pending (plic_bus h) (Some h) target (Some y)) d), d'))"
    if valid: "plic_valid (Plic_Software target)" for target
  proof -
    have "target = 0" using valid by simp
    with plic_queries(3) [of 0 h y] held [OF valid] show ?thesis by (auto simp del: plic_value.simps)
  qed
  ultimately show ?thesis using assms plic_set_device [OF assms(1,2), of h d] by auto
qed

lemma plic_settings_independent_witness:
  "fst (run_state (dif_rv_plic_irq_get_enabled (plic_bus example_handle) (Some example_handle) 7 0 (Some kDifToggleDisabled))
      (snd (run_state (plic_set (plic_bus example_handle) example_handle (Plic_Enable 7 0) 1) (\<lambda>_. 0))))
    = (kDifOk, Some kDifToggleEnabled)"
  using plic_settings_independent [of "Plic_Enable 7 0" 1 example_handle "\<lambda>_. 0"
      "fst (run_state (plic_set (plic_bus example_handle) example_handle (Plic_Enable 7 0) 1) (\<lambda>_. 0))"
      "snd (run_state (plic_set (plic_bus example_handle) example_handle (Plic_Enable 7 0) 1) (\<lambda>_. 0))" kDifToggleDisabled False]
  by (auto simp del: plic_value.simps)

end
