(* ===== verification/AonTimer.thy ===== *)
theory AonTimer
  imports RunningTimer
begin

section \<open>Always-on timer driver\<close>

text \<open>
  \<^verbatim>\<open>sw/device/lib/dif/dif_aon_timer.c\<close>: the wake-up timer, whose 64-bit counter is read in
  halves while it runs, and the watchdog, whose configuration can be locked.
\<close>

type_synonym dif_aon_timer = dif_handle

definition aon_timer_wakeup_clear_counter :: "'d bus \<Rightarrow> dif_aon_timer \<Rightarrow> ('d, unit) state" where
  "aon_timer_wakeup_clear_counter B aon = do {
     wr32 B aon AON_TIMER_WKUP_COUNT_LO_REG_OFFSET 0;
     wr32 B aon AON_TIMER_WKUP_COUNT_HI_REG_OFFSET 0
   }"

definition aon_timer_wakeup_toggle :: "'d bus \<Rightarrow> dif_aon_timer \<Rightarrow> bool \<Rightarrow> ('d, unit) state" where
  "aon_timer_wakeup_toggle B aon enable = do {
     reg \<leftarrow> rd32 B aon AON_TIMER_WKUP_CTRL_REG_OFFSET;
     let reg = bitfield_bit32_write reg AON_TIMER_WKUP_CTRL_ENABLE_BIT enable;
     wr32 B aon AON_TIMER_WKUP_CTRL_REG_OFFSET reg
   }"

definition aon_timer_watchdog_clear_counter :: "'d bus \<Rightarrow> dif_aon_timer \<Rightarrow> ('d, unit) state" where
  "aon_timer_watchdog_clear_counter B aon = wr32 B aon AON_TIMER_WDOG_COUNT_REG_OFFSET 0"

definition aon_timer_watchdog_toggle :: "'d bus \<Rightarrow> dif_aon_timer \<Rightarrow> bool \<Rightarrow> ('d, unit) state" where
  "aon_timer_watchdog_toggle B aon enable = do {
     reg \<leftarrow> rd32 B aon AON_TIMER_WDOG_CTRL_REG_OFFSET;
     let reg = bitfield_bit32_write reg AON_TIMER_WDOG_CTRL_ENABLE_BIT enable;
     wr32 B aon AON_TIMER_WDOG_CTRL_REG_OFFSET reg
   }"

definition aon_timer_watchdog_lock :: "'d bus \<Rightarrow> dif_aon_timer \<Rightarrow> ('d, unit) state" where
  "aon_timer_watchdog_lock B aon = wr32 B aon AON_TIMER_WDOG_REGWEN_REG_OFFSET 0x00000001"

definition aon_timer_watchdog_is_locked :: "'d bus \<Rightarrow> dif_aon_timer \<Rightarrow> ('d, bool) state" where
  "aon_timer_watchdog_is_locked B aon = do {
     reg \<leftarrow> rd32 B aon AON_TIMER_WDOG_REGWEN_REG_OFFSET;
     ret (\<not> bitfield_bit32_read reg AON_TIMER_WDOG_REGWEN_REGWEN_BIT)
   }"

subsection \<open>The wake-up timer\<close>

definition dif_aon_timer_wakeup_start ::
    "'d bus \<Rightarrow> dif_aon_timer ptr \<Rightarrow> u64 \<Rightarrow> u32 \<Rightarrow> ('d, dif_result) state" where
  "dif_aon_timer_wakeup_start B aon threshold prescaler = (case aon of None \<Rightarrow> ret kDifBadArg | Some aon \<Rightarrow>
     if prescaler > AON_TIMER_WKUP_CTRL_PRESCALER_MASK then ret kDifBadArg
     else do {
       aon_timer_wakeup_toggle B aon False;
       aon_timer_wakeup_clear_counter B aon;
       let threshold_dec = threshold - 1;
       wr32 B aon AON_TIMER_WKUP_THOLD_LO_REG_OFFSET (ucast (threshold_dec AND 0xffffffff));
       wr32 B aon AON_TIMER_WKUP_THOLD_HI_REG_OFFSET (ucast (drop_bit 32 threshold_dec));
       let reg = bitfield_field32_write 0 AON_TIMER_WKUP_CTRL_PRESCALER_FIELD prescaler;
       let reg = bitfield_bit32_write reg AON_TIMER_WKUP_CTRL_ENABLE_BIT True;
       wr32 B aon AON_TIMER_WKUP_CTRL_REG_OFFSET reg;
       ret kDifOk
     })"

definition dif_aon_timer_wakeup_stop :: "'d bus \<Rightarrow> dif_aon_timer ptr \<Rightarrow> ('d, dif_result) state" where
  "dif_aon_timer_wakeup_stop B aon = (case aon of None \<Rightarrow> ret kDifBadArg | Some aon \<Rightarrow> do {
     aon_timer_wakeup_toggle B aon False;
     ret kDifOk
   })"

definition dif_aon_timer_wakeup_restart :: "'d bus \<Rightarrow> dif_aon_timer ptr \<Rightarrow> ('d, dif_result) state" where
  "dif_aon_timer_wakeup_restart B aon = (case aon of None \<Rightarrow> ret kDifBadArg | Some aon \<Rightarrow> do {
     aon_timer_wakeup_toggle B aon False;
     aon_timer_wakeup_clear_counter B aon;
     aon_timer_wakeup_toggle B aon True;
     ret kDifOk
   })"

definition dif_aon_timer_wakeup_is_enabled ::
    "'d bus \<Rightarrow> dif_aon_timer ptr \<Rightarrow> bool ptr \<Rightarrow> ('d, dif_result \<times> bool ptr) state" where
  "dif_aon_timer_wakeup_is_enabled B aon is_enabled = (case (aon, is_enabled) of
     (Some aon, Some _) \<Rightarrow> do {
       reg \<leftarrow> rd32 B aon AON_TIMER_WKUP_CTRL_REG_OFFSET;
       ret (kDifOk, Some (bitfield_bit32_read reg AON_TIMER_WKUP_CTRL_ENABLE_BIT))
     }
   | _ \<Rightarrow> ret (kDifBadArg, is_enabled))"

definition dif_aon_timer_get_wakeup_cause ::
    "'d bus \<Rightarrow> dif_aon_timer ptr \<Rightarrow> bool ptr \<Rightarrow> ('d, dif_result \<times> bool ptr) state" where
  "dif_aon_timer_get_wakeup_cause B aon cause = (case (aon, cause) of
     (Some aon, Some _) \<Rightarrow> do {
       reg \<leftarrow> rd32 B aon AON_TIMER_WKUP_CAUSE_REG_OFFSET;
       ret (kDifOk, Some (bitfield_bit32_read reg AON_TIMER_WKUP_CAUSE_CAUSE_BIT))
     }
   | _ \<Rightarrow> ret (kDifBadArg, cause))"

definition dif_aon_timer_clear_wakeup_cause :: "'d bus \<Rightarrow> dif_aon_timer ptr \<Rightarrow> ('d, dif_result) state" where
  "dif_aon_timer_clear_wakeup_cause B aon = (case aon of None \<Rightarrow> ret kDifBadArg | Some aon \<Rightarrow> do {
     wr32 B aon AON_TIMER_WKUP_CAUSE_REG_OFFSET 0;
     ret kDifOk
   })"

definition dif_aon_timer_wakeup_get_count ::
    "'d bus \<Rightarrow> dif_aon_timer ptr \<Rightarrow> u64 ptr \<Rightarrow> ('d, dif_result \<times> u64 ptr) state" where
  "dif_aon_timer_wakeup_get_count B aon count = (case (aon, count) of
     (Some aon, Some _) \<Rightarrow> do {
       count_hi \<leftarrow> rd32 B aon AON_TIMER_WKUP_COUNT_HI_REG_OFFSET;
       count_lo \<leftarrow> rd32 B aon AON_TIMER_WKUP_COUNT_LO_REG_OFFSET;
       count_hi_2 \<leftarrow> rd32 B aon AON_TIMER_WKUP_COUNT_HI_REG_OFFSET;
       (count_lo, count_hi) \<leftarrow> (if count_hi_2 \<noteq> count_hi then do {
           count_lo \<leftarrow> rd32 B aon AON_TIMER_WKUP_COUNT_LO_REG_OFFSET;
           ret (count_lo, count_hi_2)
         } else ret (count_lo, count_hi));
       ret (kDifOk, Some (ucast count_lo OR push_bit 32 (ucast count_hi)))
     }
   | _ \<Rightarrow> ret (kDifBadArg, count))"

subsection \<open>The watchdog\<close>

definition dif_aon_timer_watchdog_start ::
    "'d bus \<Rightarrow> dif_aon_timer ptr \<Rightarrow> u32 \<Rightarrow> u32 \<Rightarrow> bool \<Rightarrow> bool \<Rightarrow> ('d, dif_result) state" where
  "dif_aon_timer_watchdog_start B aon bark_threshold bite_threshold pause_in_sleep lock =
     (case aon of None \<Rightarrow> ret kDifBadArg | Some aon \<Rightarrow> do {
       locked \<leftarrow> aon_timer_watchdog_is_locked B aon;
       if locked then ret kDifLocked
       else do {
         aon_timer_watchdog_toggle B aon False;
         aon_timer_watchdog_clear_counter B aon;
         wr32 B aon AON_TIMER_WDOG_BARK_THOLD_REG_OFFSET (bark_threshold - 1);
         wr32 B aon AON_TIMER_WDOG_BITE_THOLD_REG_OFFSET (bite_threshold - 1);
         let reg = bitfield_bit32_write 0 AON_TIMER_WDOG_CTRL_ENABLE_BIT True;
         let reg = (if pause_in_sleep
           then bitfield_bit32_write reg AON_TIMER_WDOG_CTRL_PAUSE_IN_SLEEP_BIT True else reg);
         wr32 B aon AON_TIMER_WDOG_CTRL_REG_OFFSET reg;
         (if lock then aon_timer_watchdog_lock B aon else ret ());
         ret kDifOk
       }
     })"

definition dif_aon_timer_watchdog_stop :: "'d bus \<Rightarrow> dif_aon_timer ptr \<Rightarrow> ('d, dif_result) state" where
  "dif_aon_timer_watchdog_stop B aon = (case aon of None \<Rightarrow> ret kDifBadArg | Some aon \<Rightarrow> do {
     locked \<leftarrow> aon_timer_watchdog_is_locked B aon;
     if locked then ret kDifLocked
     else do {
       aon_timer_watchdog_toggle B aon False;
       ret kDifOk
     }
   })"

definition dif_aon_timer_watchdog_restart :: "'d bus \<Rightarrow> dif_aon_timer ptr \<Rightarrow> ('d, dif_result) state" where
  "dif_aon_timer_watchdog_restart B aon = (case aon of None \<Rightarrow> ret kDifBadArg | Some aon \<Rightarrow> do {
     locked \<leftarrow> aon_timer_watchdog_is_locked B aon;
     if locked then ret kDifLocked
     else do {
       aon_timer_watchdog_clear_counter B aon;
       aon_timer_watchdog_toggle B aon True;
       ret kDifOk
     }
   })"

definition dif_aon_timer_watchdog_is_enabled ::
    "'d bus \<Rightarrow> dif_aon_timer ptr \<Rightarrow> bool ptr \<Rightarrow> ('d, dif_result \<times> bool ptr) state" where
  "dif_aon_timer_watchdog_is_enabled B aon is_enabled = (case (aon, is_enabled) of
     (Some aon, Some _) \<Rightarrow> do {
       reg \<leftarrow> rd32 B aon AON_TIMER_WDOG_CTRL_REG_OFFSET;
       ret (kDifOk, Some (bitfield_bit32_read reg AON_TIMER_WDOG_CTRL_ENABLE_BIT))
     }
   | _ \<Rightarrow> ret (kDifBadArg, is_enabled))"

definition dif_aon_timer_watchdog_get_count ::
    "'d bus \<Rightarrow> dif_aon_timer ptr \<Rightarrow> u32 ptr \<Rightarrow> ('d, dif_result \<times> u32 ptr) state" where
  "dif_aon_timer_watchdog_get_count B aon count = (case (aon, count) of
     (Some aon, Some _) \<Rightarrow> do {
       v \<leftarrow> rd32 B aon AON_TIMER_WDOG_COUNT_REG_OFFSET;
       ret (kDifOk, Some v)
     }
   | _ \<Rightarrow> ret (kDifBadArg, count))"

definition dif_aon_timer_watchdog_pet :: "'d bus \<Rightarrow> dif_aon_timer ptr \<Rightarrow> ('d, dif_result) state" where
  "dif_aon_timer_watchdog_pet B aon = (case aon of None \<Rightarrow> ret kDifBadArg | Some aon \<Rightarrow> do {
     aon_timer_watchdog_clear_counter B aon;
     ret kDifOk
   })"

definition dif_aon_timer_watchdog_lock :: "'d bus \<Rightarrow> dif_aon_timer ptr \<Rightarrow> ('d, dif_result) state" where
  "dif_aon_timer_watchdog_lock B aon = (case aon of None \<Rightarrow> ret kDifBadArg | Some aon \<Rightarrow> do {
     aon_timer_watchdog_lock B aon;
     ret kDifOk
   })"

definition dif_aon_timer_watchdog_is_locked ::
    "'d bus \<Rightarrow> dif_aon_timer ptr \<Rightarrow> bool ptr \<Rightarrow> ('d, dif_result \<times> bool ptr) state" where
  "dif_aon_timer_watchdog_is_locked B aon is_locked = (case (aon, is_locked) of
     (Some aon, Some _) \<Rightarrow> do {
       v \<leftarrow> aon_timer_watchdog_is_locked B aon;
       ret (kDifOk, Some v)
     }
   | _ \<Rightarrow> ret (kDifBadArg, is_locked))"

subsection \<open>The running wake-up timer\<close>

text \<open>As \<^verbatim>\<open>aon_timer_core.sv\<close> has it: a tick that finds the count at or above the threshold
  raises the interrupt and the wake-up cause, which a write of zero to the cause clears.\<close>

definition aont :: counter_map where
  "aont = \<lparr>lo_reg = AON_TIMER_WKUP_COUNT_LO_REG_OFFSET, hi_reg = AON_TIMER_WKUP_COUNT_HI_REG_OFFSET,
     enable_reg = AON_TIMER_WKUP_CTRL_REG_OFFSET,
     cmp_lo_reg = AON_TIMER_WKUP_THOLD_LO_REG_OFFSET, cmp_hi_reg = AON_TIMER_WKUP_THOLD_HI_REG_OFFSET,
     irq_reg = AON_TIMER_WKUP_CAUSE_REG_OFFSET,
     irq_keep = (\<lambda>x v. x = AON_TIMER_WKUP_CAUSE_REG_OFFSET \<longrightarrow> bit v 0),
     fires = (\<lambda>t t' c. t < t' \<and> unat c \<le> t' - 1)\<rparr>"

lemma aont_regs [simp]:
  "lo_reg aont = AON_TIMER_WKUP_COUNT_LO_REG_OFFSET" "hi_reg aont = AON_TIMER_WKUP_COUNT_HI_REG_OFFSET"
  "enable_reg aont = AON_TIMER_WKUP_CTRL_REG_OFFSET" "cmp_lo_reg aont = AON_TIMER_WKUP_THOLD_LO_REG_OFFSET"
  "cmp_hi_reg aont = AON_TIMER_WKUP_THOLD_HI_REG_OFFSET" "irq_reg aont = AON_TIMER_WKUP_CAUSE_REG_OFFSET"
  "irq_keep aont x v \<longleftrightarrow> (x = AON_TIMER_WKUP_CAUSE_REG_OFFSET \<longrightarrow> bit v 0)"
  "fires aont t t' c \<longleftrightarrow> t < t' \<and> unat c \<le> t' - 1"
  by (simp_all add: aont_def)

interpretation aont: running_timer aont
  by unfold_locales simp_all

text \<open>C19: Reading the running wake-up counter: as long as fewer than 2^29 ticks pass between two
  register accesses, the value returned is one that the 64-bit counter really had during the
  call, even when a carry between its halves falls between the reads.\<close>

theorem aon_timer_wakeup_count_exact:
  assumes "\<forall>i. pace i < 2 ^ 29"
  shows "\<exists>d' t. run_state (dif_aon_timer_wakeup_get_count (rt_bus aont pace h) (Some h) (Some x)) d
      = ((kDifOk, Some (of_nat t)), d')
    \<and> mtime d \<le> t \<and> t \<le> mtime d' \<and> timer_regs d' = timer_regs d"
proof -
  define P where "P = rt_pass aont pace"
  note o = aont.pass_order [OF assms, folded P_def]
  have regs: "timer_regs (P d) = timer_regs d" for d by (simp add: P_def)
  let ?same = "(of_nat (mtime d div 2 ^ 32) :: u32) = of_nat (mtime (P (P d)) div 2 ^ 32)"
  have run: "run_state (dif_aon_timer_wakeup_get_count (rt_bus aont pace h) (Some h) (Some x)) d =
    (if ?same then ((kDifOk, Some (word64 (of_nat (mtime d div 2 ^ 32)) (of_nat (mtime (P d))))), P (P (P d)))
     else ((kDifOk, Some (word64 (of_nat (mtime (P (P d)) div 2 ^ 32)) (of_nat (mtime (P (P (P d))))))), P (P (P (P d)))))"
    using aont.run_hi [of pace h] aont.run_lo [of pace h]
    by (auto simp: dif_aon_timer_wakeup_get_count_def word64_def or.commute simp flip: P_def)
  show ?thesis
  proof (cases ?same)
    case True
    then have "word64 (of_nat (mtime d div 2 ^ 32)) (of_nat (mtime (P d))) = of_nat (mtime (P d))"
      using aont.halves_agree [OF assms, of d] by (simp only: P_def)
    with True run show ?thesis
      using o(1) [of d] order.trans [OF o(1) [of "P d"] o(1) [of "P (P d)"]] regs
      by (intro exI [of _ "P (P (P d))"] exI [of _ "mtime (P d)"]) simp
  next
    case False
    have lt: "mtime (P (P (P d))) < mtime d + 5 * 2 ^ 29"
      by (rule three_paces [of "mtime (P d)" _ "mtime (P (P d))"]) (rule o)+
    have "mtime (P (P (P d))) div 2 ^ 32 = mtime (P (P d)) div 2 ^ 32"
      by (rule aont.no_second_carry [OF assms, folded P_def, OF False o(1) lt])
    then have "word64 (of_nat (mtime (P (P d)) div 2 ^ 32)) (of_nat (mtime (P (P (P d))))) = of_nat (mtime (P (P (P d))))"
      using word64_of_nat [of "mtime (P (P (P d)))"] by simp
    moreover have "mtime d \<le> mtime (P (P (P d)))" by (iprover intro: order.trans [OF o(1)] o(1) order.refl)
    ultimately show ?thesis
      using False run o(1) [of "P (P (P d))"] regs
      by (intro exI [of _ "P (P (P (P d)))"] exI [of _ "mtime (P (P (P d)))"]) simp
  qed
qed

lemma aon_timer_wakeup_count_exact_witness:
  "\<exists>d' t. run_state (dif_aon_timer_wakeup_get_count (rt_bus aont (\<lambda>_. 1) example_handle) (Some example_handle) (Some 0))
      \<lparr>timer_regs = (\<lambda>_. 1), mtime = 2 ^ 32 - 1, accesses = 0, irq = False, alarms = 0\<rparr> = ((kDifOk, Some (of_nat t)), d')
    \<and> 2 ^ 32 - 1 \<le> t"
  using aon_timer_wakeup_count_exact [of "\<lambda>_. 1" example_handle 0
    "\<lparr>timer_regs = (\<lambda>_. 1), mtime = 2 ^ 32 - 1, accesses = 0, irq = False, alarms = 0\<rparr>"] by auto

text \<open>C20: Starting the wake-up timer with a threshold of at least one tick, whether it is stopped or
  still running from an earlier start: the timer is stopped before its registers are replaced, the
  count starts from zero, the requested prescaler and the enable bit are set, and a wake-up is raised
  exactly when the number of ticks since the start has reached the threshold, neither one tick early
  nor late. The old count and threshold raise none while the registers are being replaced: pending is
  otherwise only what was pending before the call or what the running timer raised before the driver's
  first access to it was over, which no start can prevent and the driver does not clear.\<close>

theorem aon_timer_wakeup_start_exact:
  fixes d :: running_dev and pace :: "nat \<Rightarrow> nat"
  assumes "0 < threshold" "prescaler \<le> 0xfff"
  defines "old \<equiv> irq (rt_pass aont pace d)"
  shows "\<exists>d'. run_state (dif_aon_timer_wakeup_start (rt_bus aont pace h) (Some h) threshold prescaler) d = (kDifOk, d')
    \<and> mtime d' = pace (accesses d + 6)
    \<and> (irq d' \<longleftrightarrow> old \<or> unat threshold \<le> mtime d')
    \<and> (\<not> old \<longrightarrow> alarms d' = alarms d + of_bool (irq d'))
    \<and> rt_active aont d'
    \<and> bitfield_field32_read (timer_regs d' AON_TIMER_WKUP_CTRL_REG_OFFSET) AON_TIMER_WKUP_CTRL_PRESCALER_FIELD = prescaler
    \<and> (\<not> rt_active aont d \<longrightarrow> old = irq d)"
proof -
  let ?dec = "threshold - 1"
  define ctrl where "ctrl = bitfield_bit32_write (bitfield_field32_write 0 AON_TIMER_WKUP_CTRL_PRESCALER_FIELD prescaler)
    AON_TIMER_WKUP_CTRL_ENABLE_BIT True"
  define d1 where "d1 = rt_pass aont pace d"
  define off where "off = bitfield_bit32_write (timer_regs d AON_TIMER_WKUP_CTRL_REG_OFFSET) AON_TIMER_WKUP_CTRL_ENABLE_BIT False"
  define d2 where "d2 = rt_write aont pace AON_TIMER_WKUP_CTRL_REG_OFFSET off d1"
  define d3 where "d3 = rt_write aont pace AON_TIMER_WKUP_COUNT_LO_REG_OFFSET 0 d2"
  define d4 where "d4 = rt_write aont pace AON_TIMER_WKUP_COUNT_HI_REG_OFFSET 0 d3"
  define d5 where "d5 = rt_write aont pace AON_TIMER_WKUP_THOLD_LO_REG_OFFSET (ucast (?dec AND 0xffffffff)) d4"
  define d6 where "d6 = rt_write aont pace AON_TIMER_WKUP_THOLD_HI_REG_OFFSET (ucast (drop_bit 32 ?dec)) d5"
  define d7 where "d7 = rt_write aont pace AON_TIMER_WKUP_CTRL_REG_OFFSET ctrl d6"
  have run: "run_state (dif_aon_timer_wakeup_start (rt_bus aont pace h) (Some h) threshold prescaler) d = (kDifOk, d7)"
    using aont.run_enable [of pace h d] assms(2)
    by (simp add: dif_aon_timer_wakeup_start_def aon_timer_wakeup_toggle_def aon_timer_wakeup_clear_counter_def
        Let_def run_reg_write d7_def d6_def d5_def d4_def d3_def d2_def d1_def ctrl_def off_def)
  note W = rt_write_def rt_set_def rt_active_def Let_def rt_pass_irq
  have 1: "accesses d1 = accesses d + 1" "irq d1 = old" "alarms d1 = alarms d + of_bool old"
    "timer_regs d1 AON_TIMER_WKUP_CTRL_REG_OFFSET = timer_regs d AON_TIMER_WKUP_CTRL_REG_OFFSET"
    by (simp_all add: d1_def old_def rt_pass_irq(2))
  have 2: "\<not> rt_active aont d2" "accesses d2 = accesses d + 2" "irq d2 = old" "alarms d2 = alarms d1 + of_bool old"
    using 1 by (simp_all add: d2_def W off_def bit_bit32_write)
  have 3: "\<not> rt_active aont d3" "accesses d3 = accesses d + 3" "irq d3 = old" "alarms d3 = alarms d2 + of_bool old"
    "mtime d3 = mtime d2 div 2 ^ 32 * 2 ^ 32"
    using 2 by (simp_all add: d3_def W)
  have 4: "\<not> rt_active aont d4" "accesses d4 = accesses d + 4" "irq d4 = old" "alarms d4 = alarms d3 + of_bool old" "mtime d4 = 0"
    using 3 by (simp_all add: d4_def W)
  have 5: "\<not> rt_active aont d5" "accesses d5 = accesses d + 5" "irq d5 = old" "alarms d5 = alarms d4 + of_bool old" "mtime d5 = 0"
    using 4 by (simp_all add: d5_def W)
  have 6: "\<not> rt_active aont d6" "accesses d6 = accesses d + 6" "irq d6 = old" "alarms d6 = alarms d5 + of_bool old" "mtime d6 = 0"
    using 5 by (simp_all add: d6_def W)
  have "ucast (?dec AND 0xffffffff) = (ucast ?dec :: u32)" by (rule bit_word_eqI) (auto simp: bit_simps)
  then have cmp: "rt_compare aont d6 = ?dec"
    by (simp add: d6_def d5_def rt_write_def rt_set_def Let_def rt_compare_def word64_halves)
  have ctrl: "bit ctrl 0" "bitfield_field32_read ctrl AON_TIMER_WKUP_CTRL_PRESCALER_FIELD = prescaler"
  proof -
    show "bit ctrl 0" by (simp add: ctrl_def bit_bit32_write)
    have "prescaler AND 0xfff = prescaler"
      using and_mask_id_iff [of prescaler 12] assms(2) by (simp add: mask_eq_exp_minus_1 word_le_nat_alt)
    then show "bitfield_field32_read ctrl AON_TIMER_WKUP_CTRL_PRESCALER_FIELD = prescaler"
      by (simp add: ctrl_def read_write_simps)
  qed
  let ?s = "rt_set aont AON_TIMER_WKUP_CTRL_REG_OFFSET ctrl d6"
  have s: "rt_active aont ?s" "mtime ?s = 0" "accesses ?s = accesses d + 6" "irq ?s = old" "alarms ?s = alarms d6"
    "rt_compare aont ?s = ?dec" "timer_regs ?s AON_TIMER_WKUP_CTRL_REG_OFFSET = ctrl"
    using 6 ctrl cmp by (simp_all add: rt_set_def Let_def rt_active_def rt_compare_def)
  have dec: "unat ?dec = unat threshold - 1" "0 < unat threshold"
    using assms(1) by (simp_all add: unat_minus_one word_gt_0 unat_gt_0)
  have d7: "d7 = rt_pass aont pace ?s" by (simp add: d7_def rt_write_def)
  have m: "mtime d7 = pace (accesses d + 6)" using s by (simp add: d7)
  have "irq d7 \<longleftrightarrow> old \<or> unat threshold \<le> mtime d7"
    unfolding d7 rt_pass_irq(1) using s dec by auto
  moreover have "\<not> old \<longrightarrow> alarms d7 = alarms d + of_bool (irq d7)"
    unfolding d7 rt_pass_irq(2) using s 1 2 3 4 5 6 by simp
  moreover have "rt_active aont d7" "timer_regs d7 AON_TIMER_WKUP_CTRL_REG_OFFSET = ctrl" using s by (simp_all add: d7)
  moreover have "\<not> rt_active aont d \<longrightarrow> old = irq d" by (simp add: old_def rt_pass_irq(1))
  ultimately show ?thesis using run m ctrl(2) by blast
qed

text \<open>A timer that is running towards an old threshold.\<close>

lemma aon_timer_wakeup_start_exact_witness:
  "\<exists>d'. run_state (dif_aon_timer_wakeup_start (rt_bus aont (\<lambda>_. 5) example_handle) (Some example_handle) 6 7)
      \<lparr>timer_regs = (\<lambda>_. 1), mtime = 99, accesses = 0, irq = False, alarms = 0\<rparr> = (kDifOk, d') \<and> \<not> irq d' \<and> mtime d' = 5"
  using aon_timer_wakeup_start_exact [where threshold = 6 and prescaler = 7 and pace = "\<lambda>_. 5" and h = example_handle
    and d = "\<lparr>timer_regs = (\<lambda>_. 1), mtime = 99, accesses = 0, irq = False, alarms = 0\<rparr>"]
  by (auto simp: rt_pass_irq rt_active_def rt_compare_def word64_def)

subsection \<open>The watchdog lock\<close>

text \<open>\<^verbatim>\<open>WDOG_REGWEN\<close> is cleared by writing zero (\<^verbatim>\<open>rw0c\<close> in \<^verbatim>\<open>aon_timer.hjson\<close>); the driver writes a
  one, which leaves the register, and with it every write permission, as it is.\<close>

lemma aon_timer_watchdog_lock_no_effect:
  assumes "base (base_addr h) mod 4 = 0"
    "kind (base (base_addr h) + AON_TIMER_WDOG_REGWEN_REG_OFFSET) = W0C"
    "s (base (base_addr h) + AON_TIMER_WDOG_REGWEN_REG_OFFSET) \<in> {0, 1}"
  shows "run_state (dif_aon_timer_watchdog_lock (csr_bus kind) (Some h)) s = (kDifOk, s)"
  using assms
  by (auto simp: dif_aon_timer_watchdog_lock_def aon_timer_watchdog_lock_def mmio_region_write32_def region_word
      word_of_idem csr_bus_def)

end
