(* ===== verification/Pwm.thy ===== *)
theory Pwm
  imports DifBase
begin

section \<open>PWM and pattern generator drivers\<close>

text \<open>
  \<^verbatim>\<open>sw/device/lib/dif/dif_pwm.c\<close> and \<^verbatim>\<open>dif_pattgen.c\<close>. A PWM pulse cycle has 2^16 phase counter
  ticks; the caller counts in beats, whose number per cycle is a power of two, and the driver
  converts.
\<close>

subsection \<open>PWM\<close>

type_synonym dif_pwm = dif_handle

text \<open>The channels are one-hot; an argument that is none of them is another number.\<close>

type_synonym dif_pwm_channel = u32

record dif_pwm_config =
  clock_divisor :: u32
  beats_per_pulse_cycle :: u32

datatype dif_pwm_mode =
    kDifPwmModeFirmware | kDifPwmModeHeartbeat | kDifPwmModeBlink | kDifPwmModeOther u32

datatype dif_pwm_polarity =
    kDifPwmPolarityActiveHigh | kDifPwmPolarityActiveLow | kDifPwmPolarityOther u32

record dif_pwm_channel_config =
  duty_cycle_a :: u16
  duty_cycle_b :: u16
  phase_delay :: u16
  pwm_mode :: dif_pwm_mode
  pwm_polarity :: dif_pwm_polarity
  blink_parameter_x :: u16
  blink_parameter_y :: u16

definition dif_pwm_configure :: "'d bus \<Rightarrow> dif_pwm ptr \<Rightarrow> dif_pwm_config \<Rightarrow> ('d, dif_result) state" where
  "dif_pwm_configure B pwm config = (case pwm of None \<Rightarrow> ret kDifBadArg | Some pwm \<Rightarrow>
     if clock_divisor config > PWM_CFG_CLK_DIV_MASK \<or> beats_per_pulse_cycle config < 2
       \<or> beats_per_pulse_cycle config > push_bit 16 1
     then ret kDifBadArg
     else do {
       regwen \<leftarrow> rd32 B pwm PWM_REGWEN_REG_OFFSET;
       if regwen = 0 then ret kDifLocked
       else do {
         config_reg \<leftarrow> rd32 B pwm PWM_CFG_REG_OFFSET;
         let config_reg = bitfield_field32_write config_reg PWM_CFG_CLK_DIV_FIELD (clock_divisor config);
         let dc_resn_val = 30 - of_int (bitfield_count_leading_zeroes32 (beats_per_pulse_cycle config));
         let config_reg = bitfield_field32_write config_reg PWM_CFG_DC_RESN_FIELD dc_resn_val;
         wr32 B pwm PWM_CFG_REG_OFFSET 0;
         wr32 B pwm PWM_CFG_REG_OFFSET config_reg;
         ret kDifOk
       }
     })"

text \<open>The case of each channel: the bit of the invert register and the three register offsets.\<close>

definition pwm_channel_regs :: "dif_pwm_channel \<Rightarrow> (u32 \<times> u32 \<times> u32 \<times> u32) option" where
  "pwm_channel_regs channel =
     (if channel = 1 then Some (PWM_INVERT_INVERT_0_BIT, PWM_DUTY_CYCLE_0_REG_OFFSET,
        PWM_PWM_PARAM_0_REG_OFFSET, PWM_BLINK_PARAM_0_REG_OFFSET)
      else if channel = 2 then Some (PWM_INVERT_INVERT_1_BIT, PWM_DUTY_CYCLE_1_REG_OFFSET,
        PWM_PWM_PARAM_1_REG_OFFSET, PWM_BLINK_PARAM_1_REG_OFFSET)
      else if channel = 4 then Some (PWM_INVERT_INVERT_2_BIT, PWM_DUTY_CYCLE_2_REG_OFFSET,
        PWM_PWM_PARAM_2_REG_OFFSET, PWM_BLINK_PARAM_2_REG_OFFSET)
      else if channel = 8 then Some (PWM_INVERT_INVERT_3_BIT, PWM_DUTY_CYCLE_3_REG_OFFSET,
        PWM_PWM_PARAM_3_REG_OFFSET, PWM_BLINK_PARAM_3_REG_OFFSET)
      else if channel = 16 then Some (PWM_INVERT_INVERT_4_BIT, PWM_DUTY_CYCLE_4_REG_OFFSET,
        PWM_PWM_PARAM_4_REG_OFFSET, PWM_BLINK_PARAM_4_REG_OFFSET)
      else if channel = 32 then Some (PWM_INVERT_INVERT_5_BIT, PWM_DUTY_CYCLE_5_REG_OFFSET,
        PWM_PWM_PARAM_5_REG_OFFSET, PWM_BLINK_PARAM_5_REG_OFFSET)
      else None)"

text \<open>The part of \<open>dif_pwm_configure_channel\<close> that computes the blink parameter; \<open>None\<close> is its
  early return.\<close>

definition pwm_blink_param_reg :: "dif_pwm_channel_config \<Rightarrow> u32 \<Rightarrow> u16 \<Rightarrow> u32 option" where
  "pwm_blink_param_reg config beats phase_cntr_ticks_per_beat =
     (if pwm_mode config = kDifPwmModeHeartbeat \<or> pwm_mode config = kDifPwmModeBlink then
        let r = bitfield_field32_write 0 PWM_BLINK_PARAM_0_X_0_FIELD (ucast (blink_parameter_x config))
        in if pwm_mode config = kDifPwmModeHeartbeat then
             if ucast (blink_parameter_y config) \<ge> beats then None
             else Some (bitfield_field32_write r PWM_BLINK_PARAM_0_Y_0_FIELD
               (ucast phase_cntr_ticks_per_beat * ucast (blink_parameter_y config)))
           else Some (bitfield_field32_write r PWM_BLINK_PARAM_0_Y_0_FIELD
             (ucast (blink_parameter_y config)))
      else if pwm_mode config \<noteq> kDifPwmModeFirmware then None
      else Some 0)"

text \<open>The beats per pulse cycle and the ticks per beat that the configuration register stands for,
  and the values of the duty cycle and parameter registers.\<close>

definition pwm_beats :: "u32 \<Rightarrow> u32" where
  "pwm_beats cfg = push_bit (unat (ucast (bitfield_field32_read cfg PWM_CFG_DC_RESN_FIELD) :: u8) + 1) 1"

definition pwm_ticks_per_beat :: "u32 \<Rightarrow> u16" where
  "pwm_ticks_per_beat cfg =
     push_bit (16 - unat (ucast (bitfield_field32_read cfg PWM_CFG_DC_RESN_FIELD) :: u8) - 1) 1"

definition pwm_duty_cycle_reg :: "dif_pwm_channel_config \<Rightarrow> u16 \<Rightarrow> u32" where
  "pwm_duty_cycle_reg config ticks =
     bitfield_field32_write
       (bitfield_field32_write 0 PWM_DUTY_CYCLE_0_A_0_FIELD (ucast ticks * ucast (duty_cycle_a config)))
       PWM_DUTY_CYCLE_0_B_0_FIELD (ucast ticks * ucast (duty_cycle_b config))"

definition pwm_param_reg :: "dif_pwm_channel_config \<Rightarrow> u16 \<Rightarrow> u32" where
  "pwm_param_reg config ticks =
     (let param_reg = bitfield_field32_write 0 PWM_PWM_PARAM_0_PHASE_DELAY_0_FIELD
            (ucast ticks * ucast (phase_delay config));
          param_reg = (if pwm_mode config = kDifPwmModeHeartbeat
            then bitfield_bit32_write param_reg PWM_PWM_PARAM_0_HTBT_EN_0_BIT True else param_reg)
      in if pwm_mode config = kDifPwmModeBlink \<or> pwm_mode config = kDifPwmModeHeartbeat
         then bitfield_bit32_write param_reg PWM_PWM_PARAM_0_BLINK_EN_0_BIT True else param_reg)"

definition dif_pwm_configure_channel ::
    "'d bus \<Rightarrow> dif_pwm ptr \<Rightarrow> dif_pwm_channel \<Rightarrow> dif_pwm_channel_config \<Rightarrow> ('d, dif_result) state" where
  "dif_pwm_configure_channel B pwm channel config = (case pwm of None \<Rightarrow> ret kDifBadArg | Some pwm \<Rightarrow>
     if pwm_polarity config \<noteq> kDifPwmPolarityActiveHigh \<and> pwm_polarity config \<noteq> kDifPwmPolarityActiveLow
     then ret kDifBadArg
     else do {
       regwen \<leftarrow> rd32 B pwm PWM_REGWEN_REG_OFFSET;
       if regwen = 0 then ret kDifLocked
       else do {
         cfg \<leftarrow> rd32 B pwm PWM_CFG_REG_OFFSET;
         if ucast (duty_cycle_a config) \<ge> pwm_beats cfg \<or> ucast (duty_cycle_b config) \<ge> pwm_beats cfg
           \<or> ucast (phase_delay config) \<ge> pwm_beats cfg
         then ret kDifBadArg
         else do {
           let ticks = pwm_ticks_per_beat cfg;
           invert_reg \<leftarrow> rd32 B pwm PWM_INVERT_REG_OFFSET;
           case (pwm_blink_param_reg config (pwm_beats cfg) ticks, pwm_channel_regs channel) of
             (Some blink_param_reg, Some (invert_bit, duty_cycle_off, param_off, blink_off)) \<Rightarrow> do {
               let invert_reg = bitfield_bit32_write invert_reg invert_bit
                 (pwm_polarity config = kDifPwmPolarityActiveLow);
               wr32 B pwm duty_cycle_off (pwm_duty_cycle_reg config ticks);
               wr32 B pwm param_off (pwm_param_reg config ticks);
               (if pwm_mode config = kDifPwmModeHeartbeat \<or> pwm_mode config = kDifPwmModeBlink
                then wr32 B pwm blink_off blink_param_reg else ret ());
               wr32 B pwm PWM_INVERT_REG_OFFSET invert_reg;
               ret kDifOk
             }
           | _ \<Rightarrow> ret kDifBadArg
         }
       }
     })"

definition dif_pwm_phase_cntr_set_enabled ::
    "'d bus \<Rightarrow> dif_pwm ptr \<Rightarrow> dif_toggle \<Rightarrow> ('d, dif_result) state" where
  "dif_pwm_phase_cntr_set_enabled B pwm enabled = (case pwm of None \<Rightarrow> ret kDifBadArg | Some pwm \<Rightarrow>
     if \<not> dif_is_valid_toggle enabled then ret kDifBadArg
     else do {
       regwen \<leftarrow> rd32 B pwm PWM_REGWEN_REG_OFFSET;
       if regwen = 0 then ret kDifLocked
       else do {
         config_reg \<leftarrow> rd32 B pwm PWM_CFG_REG_OFFSET;
         let config_reg = bitfield_bit32_write config_reg PWM_CFG_CNTR_EN_BIT (dif_toggle_to_bool enabled);
         wr32 B pwm PWM_CFG_REG_OFFSET config_reg;
         ret kDifOk
       }
     })"

definition dif_pwm_phase_cntr_get_enabled ::
    "'d bus \<Rightarrow> dif_pwm ptr \<Rightarrow> dif_toggle ptr \<Rightarrow> ('d, dif_result \<times> dif_toggle ptr) state" where
  "dif_pwm_phase_cntr_get_enabled B pwm is_enabled = (case (pwm, is_enabled) of
     (Some pwm, Some _) \<Rightarrow> do {
       config_reg \<leftarrow> rd32 B pwm PWM_CFG_REG_OFFSET;
       ret (kDifOk, Some (dif_bool_to_toggle (bitfield_bit32_read config_reg PWM_CFG_CNTR_EN_BIT)))
     }
   | _ \<Rightarrow> ret (kDifBadArg, is_enabled))"

definition dif_pwm_channel_set_enabled ::
    "'d bus \<Rightarrow> dif_pwm ptr \<Rightarrow> u32 \<Rightarrow> dif_toggle \<Rightarrow> ('d, dif_result) state" where
  "dif_pwm_channel_set_enabled B pwm channels enabled = (case pwm of None \<Rightarrow> ret kDifBadArg | Some pwm \<Rightarrow>
     if channels \<ge> push_bit (unat PWM_PARAM_N_OUTPUTS) 1 \<or> \<not> dif_is_valid_toggle enabled
     then ret kDifBadArg
     else do {
       regwen \<leftarrow> rd32 B pwm PWM_REGWEN_REG_OFFSET;
       if regwen = 0 then ret kDifLocked
       else do {
         enable_reg \<leftarrow> rd32 B pwm PWM_PWM_EN_REG_OFFSET;
         let enable_reg = (if dif_toggle_to_bool enabled then enable_reg OR channels
           else enable_reg AND NOT channels);
         wr32 B pwm PWM_PWM_EN_REG_OFFSET enable_reg;
         ret kDifOk
       }
     })"

definition dif_pwm_channel_get_enabled ::
    "'d bus \<Rightarrow> dif_pwm ptr \<Rightarrow> dif_pwm_channel \<Rightarrow> dif_toggle ptr \<Rightarrow> ('d, dif_result \<times> dif_toggle ptr) state" where
  "dif_pwm_channel_get_enabled B pwm channel is_enabled = (case (pwm, is_enabled) of
     (Some pwm, Some _) \<Rightarrow>
       let channel_bit = (of_int (bitfield_count_trailing_zeroes32 channel) :: u32) in
       if channel_bit \<ge> PWM_PARAM_N_OUTPUTS then ret (kDifBadArg, is_enabled)
       else do {
         enable_reg \<leftarrow> rd32 B pwm PWM_PWM_EN_REG_OFFSET;
         ret (kDifOk, Some (dif_bool_to_toggle (bitfield_bit32_read enable_reg channel_bit)))
       }
   | _ \<Rightarrow> ret (kDifBadArg, is_enabled))"

definition dif_pwm_lock :: "'d bus \<Rightarrow> dif_pwm ptr \<Rightarrow> ('d, dif_result) state" where
  "dif_pwm_lock B pwm = (case pwm of None \<Rightarrow> ret kDifBadArg | Some pwm \<Rightarrow> do {
     wr32 B pwm PWM_REGWEN_REG_OFFSET 0;
     ret kDifOk
   })"

definition dif_pwm_is_locked ::
    "'d bus \<Rightarrow> dif_pwm ptr \<Rightarrow> bool ptr \<Rightarrow> ('d, dif_result \<times> bool ptr) state" where
  "dif_pwm_is_locked B pwm is_locked = (case (pwm, is_locked) of
     (Some pwm, Some _) \<Rightarrow> do {
       v \<leftarrow> rd32 B pwm PWM_REGWEN_REG_OFFSET;
       ret (kDifOk, Some (if v \<noteq> 0 then False else True))
     }
   | _ \<Rightarrow> ret (kDifBadArg, is_locked))"

subsection \<open>Pattern generator\<close>

type_synonym dif_pattgen = dif_handle

datatype dif_pattgen_channel =
    kDifPattgenChannel0 | kDifPattgenChannel1 | kDifPattgenChannelOther u32

datatype dif_pattgen_polarity =
    kDifPattgenPolarityLow | kDifPattgenPolarityHigh | kDifPattgenPolarityOther u32

record dif_pattgen_channel_config =
  pg_polarity :: dif_pattgen_polarity
  pg_clock_divisor :: u32
  seed_pattern_lower_word :: u32
  seed_pattern_upper_word :: u32
  seed_pattern_length :: u8
  num_pattern_repetitions :: u16
  inactive_level_pda :: bool
  inactive_level_pcl :: bool

record pattgen_channel_regs =
  enable_bit_idx :: u32
  polarity_bit_idx :: u32
  inactive_level_pda_bit_idx :: u32
  inactive_level_pcl_bit_idx :: u32
  clock_divisor_reg_offset :: u32
  seed_lower_reg_offset :: u32
  seed_upper_reg_offset :: u32
  seed_pattern_length_field :: bitfield_field32
  num_pattern_repetitions_field :: bitfield_field32

definition pattgen_regs_of :: "dif_pattgen_channel \<Rightarrow> pattgen_channel_regs option" where
  "pattgen_regs_of channel = (case channel of
     kDifPattgenChannel0 \<Rightarrow> Some \<lparr>
       enable_bit_idx = PATTGEN_CTRL_ENABLE_CH0_BIT,
       polarity_bit_idx = PATTGEN_CTRL_POLARITY_CH0_BIT,
       inactive_level_pda_bit_idx = PATTGEN_CTRL_INACTIVE_LEVEL_PDA_CH0_BIT,
       inactive_level_pcl_bit_idx = PATTGEN_CTRL_INACTIVE_LEVEL_PCL_CH0_BIT,
       clock_divisor_reg_offset = PATTGEN_PREDIV_CH0_REG_OFFSET,
       seed_lower_reg_offset = PATTGEN_DATA_CH0_0_REG_OFFSET,
       seed_upper_reg_offset = PATTGEN_DATA_CH0_1_REG_OFFSET,
       seed_pattern_length_field = PATTGEN_SIZE_LEN_CH0_FIELD,
       num_pattern_repetitions_field = PATTGEN_SIZE_REPS_CH0_FIELD\<rparr>
   | kDifPattgenChannel1 \<Rightarrow> Some \<lparr>
       enable_bit_idx = PATTGEN_CTRL_ENABLE_CH1_BIT,
       polarity_bit_idx = PATTGEN_CTRL_POLARITY_CH1_BIT,
       inactive_level_pda_bit_idx = PATTGEN_CTRL_INACTIVE_LEVEL_PDA_CH1_BIT,
       inactive_level_pcl_bit_idx = PATTGEN_CTRL_INACTIVE_LEVEL_PCL_CH1_BIT,
       clock_divisor_reg_offset = PATTGEN_PREDIV_CH1_REG_OFFSET,
       seed_lower_reg_offset = PATTGEN_DATA_CH1_0_REG_OFFSET,
       seed_upper_reg_offset = PATTGEN_DATA_CH1_1_REG_OFFSET,
       seed_pattern_length_field = PATTGEN_SIZE_LEN_CH1_FIELD,
       num_pattern_repetitions_field = PATTGEN_SIZE_REPS_CH1_FIELD\<rparr>
   | kDifPattgenChannelOther _ \<Rightarrow> None)"

definition dif_pattgen_configure_channel :: "'d bus \<Rightarrow> dif_pattgen ptr \<Rightarrow> dif_pattgen_channel
    \<Rightarrow> dif_pattgen_channel_config \<Rightarrow> ('d, dif_result) state" where
  "dif_pattgen_configure_channel B pattgen channel config =
     (case pattgen of None \<Rightarrow> ret kDifBadArg | Some pattgen \<Rightarrow>
       if (pg_polarity config \<noteq> kDifPattgenPolarityLow \<and> pg_polarity config \<noteq> kDifPattgenPolarityHigh)
         \<or> seed_pattern_length config = 0 \<or> seed_pattern_length config > 64
         \<or> num_pattern_repetitions config = 0 \<or> num_pattern_repetitions config > 1024
       then ret kDifBadArg
       else case pattgen_regs_of channel of
         None \<Rightarrow> ret kDifBadArg
       | Some regs \<Rightarrow> do {
           ctrl_reg \<leftarrow> rd32 B pattgen PATTGEN_CTRL_REG_OFFSET;
           if bitfield_bit32_read ctrl_reg (enable_bit_idx regs) then ret kDifError
           else do {
             let ctrl_reg = bitfield_bit32_write ctrl_reg (polarity_bit_idx regs)
               (pg_polarity config = kDifPattgenPolarityHigh);
             let ctrl_reg = bitfield_bit32_write ctrl_reg (inactive_level_pda_bit_idx regs)
               (inactive_level_pda config);
             let ctrl_reg = bitfield_bit32_write ctrl_reg (inactive_level_pcl_bit_idx regs)
               (inactive_level_pcl config);
             wr32 B pattgen PATTGEN_CTRL_REG_OFFSET ctrl_reg;
             wr32 B pattgen (clock_divisor_reg_offset regs) (pg_clock_divisor config);
             wr32 B pattgen (seed_lower_reg_offset regs) (seed_pattern_lower_word config);
             (if seed_pattern_length config > 31
              then wr32 B pattgen (seed_upper_reg_offset regs) (seed_pattern_upper_word config)
              else ret ());
             size_reg \<leftarrow> rd32 B pattgen PATTGEN_SIZE_REG_OFFSET;
             let size_reg = bitfield_field32_write size_reg (seed_pattern_length_field regs)
               (ucast (seed_pattern_length config) - 1);
             let size_reg = bitfield_field32_write size_reg (num_pattern_repetitions_field regs)
               (ucast (num_pattern_repetitions config) - 1);
             wr32 B pattgen PATTGEN_SIZE_REG_OFFSET size_reg;
             ret kDifOk
           }
         })"

text \<open>The switch over the channels that the two enable operations repeat.\<close>

definition pattgen_enable_bit :: "dif_pattgen_channel \<Rightarrow> u32 option" where
  "pattgen_enable_bit channel = (case channel of
     kDifPattgenChannel0 \<Rightarrow> Some PATTGEN_CTRL_ENABLE_CH0_BIT
   | kDifPattgenChannel1 \<Rightarrow> Some PATTGEN_CTRL_ENABLE_CH1_BIT
   | kDifPattgenChannelOther _ \<Rightarrow> None)"

definition dif_pattgen_channel_set_enabled ::
    "'d bus \<Rightarrow> dif_pattgen ptr \<Rightarrow> dif_pattgen_channel \<Rightarrow> dif_toggle \<Rightarrow> ('d, dif_result) state" where
  "dif_pattgen_channel_set_enabled B pattgen channel enabled =
     (case pattgen of None \<Rightarrow> ret kDifBadArg | Some pattgen \<Rightarrow>
       if \<not> dif_is_valid_toggle enabled then ret kDifBadArg
       else case pattgen_enable_bit channel of
         None \<Rightarrow> ret kDifBadArg
       | Some enable_bit \<Rightarrow> do {
           ctrl_reg \<leftarrow> rd32 B pattgen PATTGEN_CTRL_REG_OFFSET;
           let ctrl_reg = bitfield_bit32_write ctrl_reg enable_bit (dif_toggle_to_bool enabled);
           wr32 B pattgen PATTGEN_CTRL_REG_OFFSET ctrl_reg;
           ret kDifOk
         })"

definition dif_pattgen_channel_get_enabled :: "'d bus \<Rightarrow> dif_pattgen ptr \<Rightarrow> dif_pattgen_channel
    \<Rightarrow> dif_toggle ptr \<Rightarrow> ('d, dif_result \<times> dif_toggle ptr) state" where
  "dif_pattgen_channel_get_enabled B pattgen channel is_enabled = (case (pattgen, is_enabled) of
     (Some pattgen, Some _) \<Rightarrow>
       (case pattgen_enable_bit channel of
          None \<Rightarrow> ret (kDifBadArg, is_enabled)
        | Some enable_bit \<Rightarrow> do {
            ctrl_reg \<leftarrow> rd32 B pattgen PATTGEN_CTRL_REG_OFFSET;
            ret (kDifOk, Some (dif_bool_to_toggle (bitfield_bit32_read ctrl_reg enable_bit)))
          })
   | _ \<Rightarrow> ret (kDifBadArg, is_enabled))"

subsection \<open>From beats to ticks\<close>

lemma count_leading_zeroes_log2:
  assumes "2 ^ k \<le> unat (w :: u32)" "unat w < 2 ^ (k + 1)"
  shows "bitfield_count_leading_zeroes32 w = 31 - int k" "k < 32"
proof -
  have k: "(2 :: nat) ^ k < 2 ^ 32" using assms(1) unat_less_2p [of w] by simp
  then show k32: "k < 32" by (simp only: power_strict_increasing_iff)
  have bu: "bit w n \<longleftrightarrow> odd (unat w div 2 ^ n)" for n
  proof -
    have "bit (unat w) n = bit w n" by (simp add: bit_unsigned_iff)
    then show ?thesis by (simp add: bit_iff_odd [of "unat w"])
  qed
  have "unat w div 2 ^ k = 1" using assms by (intro div_nat_eqI) simp_all
  then have bk: "bit w k" by (simp add: bu)
  have "unat w div 2 ^ n = 0" if "k < n" for n
    using that assms(2) power_increasing [of "k + 1" n "2 :: nat"] by simp
  then have hi: "\<not> bit w n" if "k < n" for n using that by (simp add: bu)
  have "[0..<32] = [0..<k] @ k # [Suc k..<32]"
    using k32 upt_add_eq_append [of 0 k "32 - k"] upt_conv_Cons [of k 32] by simp
  then have "filter (bit w) [0..<32] = filter (bit w) [0..<k] @ [k]"
    using bk hi by (simp add: filter_empty_conv)
  moreover have "w \<noteq> 0" using assms(1) by auto
  ultimately show "bitfield_count_leading_zeroes32 w = 31 - int k"
    by (simp add: bitfield_count_leading_zeroes32_def)
qed

abbreviation pwm_bus :: "dif_pwm \<Rightarrow> (u32 \<Rightarrow> u32) bus" where
  "pwm_bus h \<equiv> plain_bus (base (base_addr h))"

text \<open>The DC resolution that \<open>dif_pwm_configure\<close> stores, and that the rest of the
  configuration register is what was asked for or as before.\<close>

lemma pwm_configure_device:
  assumes "d PWM_REGWEN_REG_OFFSET \<noteq> 0" "2 ^ k \<le> unat (beats_per_pulse_cycle config)"
    "unat (beats_per_pulse_cycle config) < 2 ^ (k + 1)" "1 \<le> k" "beats_per_pulse_cycle config \<le> 0x10000"
    "clock_divisor config \<le> PWM_CFG_CLK_DIV_MASK"
  shows "\<exists>cfg. run_state (dif_pwm_configure (pwm_bus h) (Some h) config) d = (kDifOk, d(PWM_CFG_REG_OFFSET := cfg))
    \<and> bitfield_field32_read cfg PWM_CFG_CLK_DIV_FIELD = clock_divisor config
    \<and> bitfield_field32_read cfg PWM_CFG_DC_RESN_FIELD = of_nat (k - 1)
    \<and> (bitfield_bit32_read cfg PWM_CFG_CNTR_EN_BIT \<longleftrightarrow> bitfield_bit32_read (d PWM_CFG_REG_OFFSET) PWM_CFG_CNTR_EN_BIT)
    \<and> k \<le> 16"
proof -
  note clz = count_leading_zeroes_log2 [OF assms(2,3)]
  have "(2 :: nat) ^ k \<le> 2 ^ 16" using assms(2,5) by (simp add: word_le_nat_alt)
  then have k: "k \<le> 16" by (simp only: power_increasing_iff)
  have two: "\<not> beats_per_pulse_cycle config < 2"
  proof -
    have "(2 :: nat) ^ 1 \<le> 2 ^ k" using assms(4) by (intro power_increasing) simp_all
    with assms(2) show ?thesis by (simp add: word_less_nat_alt)
  qed
  define cfg where "cfg = bitfield_field32_write (bitfield_field32_write (d PWM_CFG_REG_OFFSET) PWM_CFG_CLK_DIV_FIELD
    (clock_divisor config)) PWM_CFG_DC_RESN_FIELD (of_nat (k - 1))"
  have "30 - (of_int (31 - int k) :: u32) = of_int (int k - 1)" by simp
  also have "\<dots> = of_nat (k - 1)" using assms(4) by (simp add: of_nat_diff)
  finally have resn: "30 - (of_int (31 - int k) :: u32) = of_nat (k - 1)" .
  have "run_state (dif_pwm_configure (pwm_bus h) (Some h) config) d = (kDifOk, d(PWM_CFG_REG_OFFSET := cfg))"
    using assms(1,5,6) two
    by (simp add: dif_pwm_configure_def run_plain_read run_plain_write Let_def clz resn cfg_def not_less not_le
        del: of_int_diff of_nat_diff)
  moreover have "of_nat (k - 1) AND (0xf :: u32) = of_nat (k - 1)"
    using and_mask_id_iff [of "of_nat (k - 1) :: u32" 4] k by (simp add: mask_eq_exp_minus_1 unat_of_nat)
  moreover have "clock_divisor config AND 0x7ffffff = clock_divisor config"
    using and_mask_id_iff [of "clock_divisor config" 27] assms(6) by (simp add: mask_eq_exp_minus_1 word_le_nat_alt)
  ultimately show ?thesis
    using k by (intro exI [of _ cfg]) (simp add: cfg_def read_write_simps)
qed

text \<open>A number of beats in ticks: the product does not overflow the 16-bit field.\<close>

lemma beats_to_ticks:
  assumes "1 \<le> k" "k \<le> 16" "unat (x :: u16) < 2 ^ k"
  shows "unat ((ucast (push_bit (16 - k) 1 :: u16) :: u32) * ucast x) = 2 ^ (16 - k) * unat x"
    "(ucast (push_bit (16 - k) 1 :: u16) :: u32) * ucast x AND 0xffff = ucast (push_bit (16 - k) 1 :: u16) * ucast x"
proof -
  have t: "unat (push_bit (16 - k) 1 :: u16) = 2 ^ (16 - k)"
    using power_strict_increasing [of "16 - k" 16 "2 :: nat"] assms(1) by (subst unat_push_bit) simp_all
  have "2 ^ (16 - k) * unat x < 2 ^ (16 - k) * 2 ^ k" using assms(3) by simp
  also have "(2 :: nat) ^ (16 - k) * 2 ^ k = 2 ^ 16" using assms(2) by (simp flip: power_add)
  finally have lt: "2 ^ (16 - k) * unat x < 2 ^ 16" .
  show e: "unat ((ucast (push_bit (16 - k) 1 :: u16) :: u32) * ucast x) = 2 ^ (16 - k) * unat x"
    using lt t by (simp add: unat_word_ariths unat_ucast_up)
  show "(ucast (push_bit (16 - k) 1 :: u16) :: u32) * ucast x AND 0xffff = ucast (push_bit (16 - k) 1 :: u16) * ucast x"
    using and_mask_id_iff [of "(ucast (push_bit (16 - k) 1 :: u16) :: u32) * ucast x" 16] lt e
    by (simp add: mask_eq_exp_minus_1)
qed

text \<open>The registers of a channel.\<close>

lemma pwm_channel_regs_nth:
  assumes "c < 6"
  shows "pwm_channel_regs (2 ^ c) = Some (of_nat c, PWM_DUTY_CYCLE_0_REG_OFFSET + 4 * of_nat c,
     PWM_PWM_PARAM_0_REG_OFFSET + 4 * of_nat c, PWM_BLINK_PARAM_0_REG_OFFSET + 4 * of_nat c)"
proof -
  have "c \<in> {0, 1, 2, 3, 4, 5}" using assms by auto
  then show ?thesis by (auto simp: pwm_channel_regs_def)
qed

lemma pwm_channel_offsets:
  assumes "c < 6"
  shows "(PWM_DUTY_CYCLE_0_REG_OFFSET + 4 * of_nat c) mod 4 = 0" "(PWM_PWM_PARAM_0_REG_OFFSET + 4 * of_nat c) mod 4 = 0"
    "(PWM_BLINK_PARAM_0_REG_OFFSET + 4 * of_nat c) mod 4 = 0"
    "distinct [PWM_INVERT_REG_OFFSET, PWM_CFG_REG_OFFSET, PWM_DUTY_CYCLE_0_REG_OFFSET + 4 * of_nat c,
       PWM_PWM_PARAM_0_REG_OFFSET + 4 * of_nat c, PWM_BLINK_PARAM_0_REG_OFFSET + 4 * of_nat c]"
proof -
  have "c \<in> {0, 1, 2, 3, 4, 5}" using assms by auto
  then show "(PWM_DUTY_CYCLE_0_REG_OFFSET + 4 * of_nat c) mod 4 = 0" "(PWM_PWM_PARAM_0_REG_OFFSET + 4 * of_nat c) mod 4 = 0"
    "(PWM_BLINK_PARAM_0_REG_OFFSET + 4 * of_nat c) mod 4 = 0"
    "distinct [PWM_INVERT_REG_OFFSET, PWM_CFG_REG_OFFSET, PWM_DUTY_CYCLE_0_REG_OFFSET + 4 * of_nat c,
       PWM_PWM_PARAM_0_REG_OFFSET + 4 * of_nat c, PWM_BLINK_PARAM_0_REG_OFFSET + 4 * of_nat c]"
    by auto
qed

definition pwm_fits :: "nat \<Rightarrow> dif_pwm_channel_config \<Rightarrow> bool" where
  "pwm_fits k cc \<longleftrightarrow> unat (duty_cycle_a cc) < 2 ^ k \<and> unat (duty_cycle_b cc) < 2 ^ k \<and> unat (phase_delay cc) < 2 ^ k
     \<and> (pwm_mode cc = kDifPwmModeHeartbeat \<longrightarrow> unat (blink_parameter_y cc) < 2 ^ k)"

lemma pwm_configure_channel_device:
  fixes c :: nat
  assumes "d PWM_REGWEN_REG_OFFSET \<noteq> 0" "bitfield_field32_read (d PWM_CFG_REG_OFFSET) PWM_CFG_DC_RESN_FIELD = of_nat (k - 1)"
    "1 \<le> k" "k \<le> 16" "c < 6" "pwm_polarity cc \<in> {kDifPwmPolarityActiveHigh, kDifPwmPolarityActiveLow}"
    "pwm_mode cc \<in> {kDifPwmModeFirmware, kDifPwmModeHeartbeat, kDifPwmModeBlink}"
    "run_state (dif_pwm_configure_channel (pwm_bus h) (Some h) (2 ^ c) cc) d = (r, d')"
  defines "duty \<equiv> d' (PWM_DUTY_CYCLE_0_REG_OFFSET + 4 * of_nat c)"
    and "param \<equiv> d' (PWM_PWM_PARAM_0_REG_OFFSET + 4 * of_nat c)"
  shows "if pwm_fits k cc
    then r = kDifOk \<and> unat (bitfield_field32_read duty PWM_DUTY_CYCLE_0_A_0_FIELD) = 2 ^ (16 - k) * unat (duty_cycle_a cc)
      \<and> unat (bitfield_field32_read duty PWM_DUTY_CYCLE_0_B_0_FIELD) = 2 ^ (16 - k) * unat (duty_cycle_b cc)
      \<and> unat (bitfield_field32_read param PWM_PWM_PARAM_0_PHASE_DELAY_0_FIELD) = 2 ^ (16 - k) * unat (phase_delay cc)
      \<and> (bitfield_bit32_read param PWM_PWM_PARAM_0_HTBT_EN_0_BIT \<longleftrightarrow> pwm_mode cc = kDifPwmModeHeartbeat)
      \<and> (bitfield_bit32_read param PWM_PWM_PARAM_0_BLINK_EN_0_BIT \<longleftrightarrow> pwm_mode cc \<noteq> kDifPwmModeFirmware)
      \<and> (bitfield_bit32_read (d' PWM_INVERT_REG_OFFSET) (of_nat c) \<longleftrightarrow> pwm_polarity cc = kDifPwmPolarityActiveLow)
    else r = kDifBadArg \<and> d' = d"
proof -
  define cfg where "cfg = d PWM_CFG_REG_OFFSET"
  let ?resn = "ucast (bitfield_field32_read cfg PWM_CFG_DC_RESN_FIELD) :: u8"
  have resn: "unat ?resn = k - 1"
  proof -
    have "unat (of_nat (k - 1) :: u32) = k - 1" using assms(4) by (subst unat_of_nat) simp
    moreover have "take_bit 8 (k - 1) = k - 1" using assms(4) by (simp only: take_bit_nat_eq_self_iff) simp
    ultimately show ?thesis by (simp only: assms(2) unsigned_ucast_eq cfg_def) simp
  qed
  have "unat (pwm_beats cfg) = 2 ^ k"
    unfolding pwm_beats_def
    using power_increasing [of k 16 "2 :: nat"] assms(3,4) resn by (subst unat_push_bit) simp_all
  then have ge: "pwm_beats cfg \<le> ucast (x :: u16) \<longleftrightarrow> \<not> unat x < 2 ^ k" for x
    by (simp add: word_le_nat_alt unat_ucast_up not_less)
  have ticks: "pwm_ticks_per_beat cfg = push_bit (16 - k) 1"
    using assms(3) resn by (simp add: pwm_ticks_per_beat_def)
  note off = pwm_channel_offsets [OF assms(5)]
  note T = beats_to_ticks [OF assms(3,4)]
  have c: "unat (of_nat c :: u32) = c" "unat (of_nat c :: u32) < 32" using assms(5) by (simp_all add: unat_of_nat)
  have blink: "pwm_blink_param_reg cc (pwm_beats cfg) t = None \<longleftrightarrow>
      pwm_mode cc = kDifPwmModeHeartbeat \<and> \<not> unat (blink_parameter_y cc) < 2 ^ k" for t
    using assms(7) by (auto simp: pwm_blink_param_reg_def ge Let_def)
  show ?thesis
  proof (cases "pwm_fits k cc")
    case False
    with assms(1,6,8) blink have "r = kDifBadArg \<and> d' = d"
      by (auto simp: dif_pwm_configure_channel_def run_plain_read run_plain_write pwm_channel_regs_nth [OF assms(5)]
          ge pwm_fits_def Let_def simp flip: cfg_def split: option.splits if_splits)
    with False show ?thesis by simp
  next
    case True
    then obtain b where b: "pwm_blink_param_reg cc (pwm_beats cfg) (pwm_ticks_per_beat cfg) = Some b"
      using blink by (auto simp: pwm_fits_def)
    have run: "r = kDifOk" "duty = pwm_duty_cycle_reg cc (pwm_ticks_per_beat cfg)"
      "param = pwm_param_reg cc (pwm_ticks_per_beat cfg)"
      "d' PWM_INVERT_REG_OFFSET = bitfield_bit32_write (d PWM_INVERT_REG_OFFSET) (of_nat c) (pwm_polarity cc = kDifPwmPolarityActiveLow)"
      using assms(1,6,8) True off b
      by (auto simp: dif_pwm_configure_channel_def run_plain_read run_plain_write pwm_channel_regs_nth [OF assms(5)]
          ge pwm_fits_def Let_def duty_def param_def simp flip: cfg_def split: if_splits)
    show ?thesis
      using True run T assms(7) c
      by (auto simp: pwm_duty_cycle_reg_def pwm_param_reg_def ticks pwm_fits_def read_write_simps Let_def)
  qed
qed

text \<open>C23: PWM duty cycles are exact: configuring a pulse cycle of \<open>b\<close> beats rounds \<open>b\<close> down to a power of two
  \<open>2 ^ k\<close>, and configuring a channel then either refuses a duty cycle, phase or heartbeat step that is
  not less than \<open>2 ^ k\<close>, leaving the device untouched, or stores the phase counter ticks for
  exactly the requested fraction of the cycle: ticks / 2^16 = beats / 2^k, without overflow into
  the neighbouring field; the mode, polarity, clock divider and counter enable are as requested or
  as before.\<close>

theorem pwm_duty_exact:
  fixes c k :: nat
  assumes "d PWM_REGWEN_REG_OFFSET \<noteq> 0" "2 ^ k \<le> unat (beats_per_pulse_cycle config)"
    "unat (beats_per_pulse_cycle config) < 2 ^ (k + 1)" "1 \<le> k" "beats_per_pulse_cycle config \<le> 0x10000"
    "clock_divisor config \<le> PWM_CFG_CLK_DIV_MASK"
    "c < 6" "pwm_polarity cc \<in> {kDifPwmPolarityActiveHigh, kDifPwmPolarityActiveLow}"
    "pwm_mode cc \<in> {kDifPwmModeFirmware, kDifPwmModeHeartbeat, kDifPwmModeBlink}"
    "run_state (dif_pwm_configure (pwm_bus h) (Some h) config) d = (r, d1)"
    "run_state (dif_pwm_configure_channel (pwm_bus h) (Some h) (2 ^ c) cc) d1 = (r', d2)"
  defines "duty \<equiv> d2 (PWM_DUTY_CYCLE_0_REG_OFFSET + 4 * of_nat c)"
    and "param \<equiv> d2 (PWM_PWM_PARAM_0_REG_OFFSET + 4 * of_nat c)"
  shows "r = kDifOk \<and> bitfield_field32_read (d1 PWM_CFG_REG_OFFSET) PWM_CFG_CLK_DIV_FIELD = clock_divisor config
    \<and> (bitfield_bit32_read (d1 PWM_CFG_REG_OFFSET) PWM_CFG_CNTR_EN_BIT
        \<longleftrightarrow> bitfield_bit32_read (d PWM_CFG_REG_OFFSET) PWM_CFG_CNTR_EN_BIT)
    \<and> (if pwm_fits k cc
       then r' = kDifOk
        \<and> unat (bitfield_field32_read duty PWM_DUTY_CYCLE_0_A_0_FIELD) * 2 ^ k = unat (duty_cycle_a cc) * 2 ^ 16
        \<and> unat (bitfield_field32_read duty PWM_DUTY_CYCLE_0_B_0_FIELD) * 2 ^ k = unat (duty_cycle_b cc) * 2 ^ 16
        \<and> unat (bitfield_field32_read param PWM_PWM_PARAM_0_PHASE_DELAY_0_FIELD) * 2 ^ k = unat (phase_delay cc) * 2 ^ 16
        \<and> (bitfield_bit32_read param PWM_PWM_PARAM_0_HTBT_EN_0_BIT \<longleftrightarrow> pwm_mode cc = kDifPwmModeHeartbeat)
        \<and> (bitfield_bit32_read param PWM_PWM_PARAM_0_BLINK_EN_0_BIT \<longleftrightarrow> pwm_mode cc \<noteq> kDifPwmModeFirmware)
        \<and> (bitfield_bit32_read (d2 PWM_INVERT_REG_OFFSET) (of_nat c) \<longleftrightarrow> pwm_polarity cc = kDifPwmPolarityActiveLow)
       else r' = kDifBadArg \<and> d2 = d1)"
proof -
  obtain cfg where 1: "r = kDifOk" "d1 = d(PWM_CFG_REG_OFFSET := cfg)"
    "bitfield_field32_read cfg PWM_CFG_CLK_DIV_FIELD = clock_divisor config"
    "bitfield_field32_read cfg PWM_CFG_DC_RESN_FIELD = of_nat (k - 1)"
    "bitfield_bit32_read cfg PWM_CFG_CNTR_EN_BIT \<longleftrightarrow> bitfield_bit32_read (d PWM_CFG_REG_OFFSET) PWM_CFG_CNTR_EN_BIT"
    "k \<le> 16"
    using pwm_configure_device [where d = d and k = k and config = config and h = h] assms(1-6,10) by auto
  have e: "2 ^ (16 - k) * n * 2 ^ k = n * (2 :: nat) ^ 16" for n
    using 1(6) by (simp add: mult.commute mult.left_commute flip: power_add)
  have "d1 PWM_REGWEN_REG_OFFSET \<noteq> 0" "bitfield_field32_read (d1 PWM_CFG_REG_OFFSET) PWM_CFG_DC_RESN_FIELD = of_nat (k - 1)"
    using 1 assms(1) by simp_all
  from pwm_configure_channel_device [OF this assms(4) 1(6) assms(7,8,9,11), folded duty_def param_def] 1 e
  show ?thesis by (auto split: if_splits)
qed

lemma pwm_duty_exact_witness:
  "let d = (\<lambda>_. 1);
       d1 = snd (run_state (dif_pwm_configure (pwm_bus example_handle) (Some example_handle) \<lparr>clock_divisor = 9, beats_per_pulse_cycle = 100\<rparr>) d);
       cc = \<lparr>duty_cycle_a = 16, duty_cycle_b = 0, phase_delay = 0, pwm_mode = kDifPwmModeFirmware,
         pwm_polarity = kDifPwmPolarityActiveHigh, blink_parameter_x = 0, blink_parameter_y = 0\<rparr>;
       d2 = snd (run_state (dif_pwm_configure_channel (pwm_bus example_handle) (Some example_handle) (2 ^ 3) cc) d1)
   in unat (bitfield_field32_read (d2 (PWM_DUTY_CYCLE_0_REG_OFFSET + 4 * of_nat 3)) PWM_DUTY_CYCLE_0_A_0_FIELD) = 2 ^ 14"
proof -
  define d :: "u32 \<Rightarrow> u32" where "d = (\<lambda>_. 1)"
  define config where "config = \<lparr>clock_divisor = 9, beats_per_pulse_cycle = 100 :: u32\<rparr>"
  define cc where "cc = \<lparr>duty_cycle_a = 16, duty_cycle_b = 0, phase_delay = 0, pwm_mode = kDifPwmModeFirmware,
    pwm_polarity = kDifPwmPolarityActiveHigh, blink_parameter_x = 0, blink_parameter_y = 0\<rparr>"
  obtain r d1 where 1: "run_state (dif_pwm_configure (pwm_bus example_handle) (Some example_handle) config) d = (r, d1)" by fastforce
  obtain r' d2 where 2: "run_state (dif_pwm_configure_channel (pwm_bus example_handle) (Some example_handle) (2 ^ 3) cc) d1 = (r', d2)" by fastforce
  have "pwm_fits 6 cc" by (simp add: pwm_fits_def cc_def)
  then have "unat (bitfield_field32_read (d2 (PWM_DUTY_CYCLE_0_REG_OFFSET + 4 * of_nat 3)) PWM_DUTY_CYCLE_0_A_0_FIELD) * 2 ^ 6
      = unat (duty_cycle_a cc) * 2 ^ 16"
    using pwm_duty_exact [where k = 6 and c = 3, OF _ _ _ _ _ _ _ _ _ 1 2] by (simp add: d_def config_def cc_def)
  then show ?thesis using 1 2 by (simp add: d_def config_def cc_def Let_def)
qed

end
