(* ===== verification/SpiHost.thy ===== *)
theory SpiHost
  imports DifBase "HOL-Library.Sublist"
begin

section \<open>SPI host driver\<close>

text \<open>
  \<^verbatim>\<open>sw/device/lib/dif/dif_spi_host.c\<close>. The transmit and receive operations copy between a
  buffer of any alignment in main memory (\<open>memory\<close>, see the theory of the memory functions) and
  the two FIFOs of the hardware, which take bytes or words; they wait for room or data, so they
  are functions to \<open>option\<close>, \<open>None\<close> being waiting forever. The weak aliases of the FIFO functions
  are the functions themselves.
\<close>

type_synonym dif_spi_host = dif_handle

record dif_spi_host_config =
  spi_clock :: u32
  peripheral_clock_freq_hz :: u32
  cs_idle :: u8
  cs_trail :: u8
  cs_lead :: u8
  full_cycle :: bool
  cpha :: bool
  cpol :: bool
  tx_watermark :: u32
  rx_watermark :: u32

datatype dif_spi_host_width =
  kDifSpiHostWidthStandard | kDifSpiHostWidthDual | kDifSpiHostWidthQuad

primrec spi_width_value :: "dif_spi_host_width \<Rightarrow> u32" where
  "spi_width_value kDifSpiHostWidthStandard = 0"
| "spi_width_value kDifSpiHostWidthDual = 1"
| "spi_width_value kDifSpiHostWidthQuad = 2"

datatype dif_spi_host_direction =
    kDifSpiHostDirectionDummy | kDifSpiHostDirectionRx | kDifSpiHostDirectionTx
  | kDifSpiHostDirectionBidirectional

primrec spi_direction_value :: "dif_spi_host_direction \<Rightarrow> u32" where
  "spi_direction_value kDifSpiHostDirectionDummy = 0"
| "spi_direction_value kDifSpiHostDirectionRx = 1"
| "spi_direction_value kDifSpiHostDirectionTx = 2"
| "spi_direction_value kDifSpiHostDirectionBidirectional = 3"

datatype dif_spi_host_addr_mode = kDifSpiHostAddrMode3b | kDifSpiHostAddrMode4b

text \<open>A segment is a tagged union; its buffers are addresses, its lengths \<open>size_t\<close>.\<close>

datatype dif_spi_host_segment =
    kDifSpiHostSegmentTypeOpcode dif_spi_host_width u8
  | kDifSpiHostSegmentTypeAddress dif_spi_host_width dif_spi_host_addr_mode u32
  | kDifSpiHostSegmentTypeDummy dif_spi_host_width u32
  | kDifSpiHostSegmentTypeTx dif_spi_host_width addr u32
  | kDifSpiHostSegmentTypeRx dif_spi_host_width addr u32
  | kDifSpiHostSegmentTypeBidirectional dif_spi_host_width addr addr u32
  | kDifSpiHostSegmentTypeOther u32

definition kDifSpiHostEvtAll :: u32 where "kDifSpiHostEvtAll = 0x3f"

definition kDifSpiHostIrqErrorAll :: u32 where "kDifSpiHostIrqErrorAll = 0x1f"

subsection \<open>Configuration\<close>

definition spi_host_active :: "'d bus \<Rightarrow> dif_spi_host \<Rightarrow> ('d, bool) state" where
  "spi_host_active B spi_host = do {
     reg \<leftarrow> rd32 B spi_host SPI_HOST_STATUS_REG_OFFSET;
     ret (bitfield_bit32_read reg SPI_HOST_STATUS_ACTIVE_BIT)
   }"

definition spi_host_fifos_busy :: "'d bus \<Rightarrow> dif_spi_host \<Rightarrow> ('d, bool) state" where
  "spi_host_fifos_busy B spi_host = do {
     reg \<leftarrow> rd32 B spi_host SPI_HOST_STATUS_REG_OFFSET;
     let txqd = bitfield_field32_read reg SPI_HOST_STATUS_TXQD_FIELD;
     let rxqd = bitfield_field32_read reg SPI_HOST_STATUS_RXQD_FIELD;
     ret (txqd \<noteq> 0 \<or> rxqd \<noteq> 0)
   }"

definition spi_host_reset :: "'d bus \<Rightarrow> dif_spi_host \<Rightarrow> 'd \<Rightarrow> 'd option" where
  "spi_host_reset B spi_host d = do {
     let (_, d) = run_state (do {
       reg \<leftarrow> rd32 B spi_host SPI_HOST_CONTROL_REG_OFFSET;
       wr32 B spi_host SPI_HOST_CONTROL_REG_OFFSET
         (bitfield_bit32_write reg SPI_HOST_CONTROL_SW_RST_BIT True)
     }) d;
     d \<leftarrow> wait_while (spi_host_active B spi_host) d;
     d \<leftarrow> wait_while (spi_host_fifos_busy B spi_host) d;
     let (_, d) = run_state (wr32 B spi_host SPI_HOST_CONTROL_REG_OFFSET
       (bitfield_bit32_write 0 SPI_HOST_CONTROL_SW_RST_BIT False)) d;
     Some d
   }"

definition spi_host_enable :: "'d bus \<Rightarrow> dif_spi_host \<Rightarrow> bool \<Rightarrow> ('d, unit) state" where
  "spi_host_enable B spi_host enable = do {
     reg \<leftarrow> rd32 B spi_host SPI_HOST_CONTROL_REG_OFFSET;
     wr32 B spi_host SPI_HOST_CONTROL_REG_OFFSET
       (bitfield_bit32_write reg SPI_HOST_CONTROL_SPIEN_BIT enable)
   }"

definition spi_host_divider :: "dif_spi_host_config \<Rightarrow> u32" where
  "spi_host_divider config = ((peripheral_clock_freq_hz config div spi_clock config) div 2) - 1"

definition dif_spi_host_configure ::
    "'d bus \<Rightarrow> dif_spi_host ptr \<Rightarrow> dif_spi_host_config \<Rightarrow> 'd \<Rightarrow> (dif_result \<times> 'd) option" where
  "dif_spi_host_configure B spi_host config d = (case spi_host of None \<Rightarrow> Some (kDifBadArg, d) | Some spi_host \<Rightarrow>
     if peripheral_clock_freq_hz config = 0 \<or> spi_clock config = 0 then Some (kDifBadArg, d)
     else let divider = spi_host_divider config in
       if divider AND NOT SPI_HOST_CONFIGOPTS_CLKDIV_MASK \<noteq> 0 then Some (kDifBadArg, d)
       else do {
         d \<leftarrow> spi_host_reset B spi_host d;
         Some (run_state (do {
           let reg = 0;
           let reg = bitfield_field32_write reg SPI_HOST_CONFIGOPTS_CLKDIV_FIELD divider;
           let reg = bitfield_field32_write reg SPI_HOST_CONFIGOPTS_CSNIDLE_FIELD (ucast (cs_idle config));
           let reg = bitfield_field32_write reg SPI_HOST_CONFIGOPTS_CSNTRAIL_FIELD (ucast (cs_trail config));
           let reg = bitfield_field32_write reg SPI_HOST_CONFIGOPTS_CSNLEAD_FIELD (ucast (cs_lead config));
           let reg = bitfield_bit32_write reg SPI_HOST_CONFIGOPTS_FULLCYC_BIT (full_cycle config);
           let reg = bitfield_bit32_write reg SPI_HOST_CONFIGOPTS_CPHA_BIT (cpha config);
           let reg = bitfield_bit32_write reg SPI_HOST_CONFIGOPTS_CPOL_BIT (cpol config);
           wr32 B spi_host SPI_HOST_CONFIGOPTS_REG_OFFSET reg;
           reg \<leftarrow> rd32 B spi_host SPI_HOST_CONTROL_REG_OFFSET;
           let reg = bitfield_field32_write reg SPI_HOST_CONTROL_TX_WATERMARK_FIELD (tx_watermark config);
           let reg = bitfield_field32_write reg SPI_HOST_CONTROL_RX_WATERMARK_FIELD (rx_watermark config);
           wr32 B spi_host SPI_HOST_CONTROL_REG_OFFSET reg;
           spi_host_enable B spi_host True;
           ret kDifOk
         }) d)
       })"

definition dif_spi_host_output_set_enabled ::
    "'d bus \<Rightarrow> dif_spi_host ptr \<Rightarrow> bool \<Rightarrow> ('d, dif_result) state" where
  "dif_spi_host_output_set_enabled B spi_host enabled = (case spi_host of None \<Rightarrow> ret kDifBadArg | Some spi_host \<Rightarrow> do {
     reg \<leftarrow> rd32 B spi_host SPI_HOST_CONTROL_REG_OFFSET;
     wr32 B spi_host SPI_HOST_CONTROL_REG_OFFSET
       (bitfield_bit32_write reg SPI_HOST_CONTROL_OUTPUT_EN_BIT enabled);
     ret kDifOk
   })"

subsection \<open>Waiting\<close>

definition wait_ready :: "'d bus \<Rightarrow> dif_spi_host \<Rightarrow> 'd \<Rightarrow> 'd option" where
  "wait_ready B spi_host = wait_while (do {
     reg \<leftarrow> rd32 B spi_host SPI_HOST_STATUS_REG_OFFSET;
     ret (\<not> bitfield_bit32_read reg SPI_HOST_STATUS_READY_BIT)
   })"

definition wait_tx_fifo :: "'d bus \<Rightarrow> dif_spi_host \<Rightarrow> 'd \<Rightarrow> 'd option" where
  "wait_tx_fifo B spi_host = wait_while (do {
     reg \<leftarrow> rd32 B spi_host SPI_HOST_STATUS_REG_OFFSET;
     let txqd = bitfield_field32_read reg SPI_HOST_STATUS_TXQD_FIELD;
     ret (txqd = SPI_HOST_PARAM_TX_DEPTH)
   })"

definition wait_rx_fifo :: "'d bus \<Rightarrow> dif_spi_host \<Rightarrow> 'd \<Rightarrow> 'd option" where
  "wait_rx_fifo B spi_host = wait_while (do {
     reg \<leftarrow> rd32 B spi_host SPI_HOST_STATUS_REG_OFFSET;
     let rxqd = bitfield_field32_read reg SPI_HOST_STATUS_RXQD_FIELD;
     ret (rxqd = 0)
   })"

subsection \<open>The transmit FIFO\<close>

definition tx_fifo_write8 :: "'d bus \<Rightarrow> dif_spi_host \<Rightarrow> memory \<Rightarrow> addr \<Rightarrow> 'd \<Rightarrow> 'd option" where
  "tx_fifo_write8 B spi_host m src d = do {
     d \<leftarrow> wait_tx_fifo B spi_host d;
     Some (snd (run_state (mmio_region_write8 B (base_addr spi_host) SPI_HOST_TXDATA_REG_OFFSET (m src)) d))
   }"

definition tx_fifo_write32 :: "'d bus \<Rightarrow> dif_spi_host \<Rightarrow> memory \<Rightarrow> addr \<Rightarrow> 'd \<Rightarrow> 'd option" where
  "tx_fifo_write32 B spi_host m src d = do {
     d \<leftarrow> wait_tx_fifo B spi_host d;
     let val = read_32 m src;
     Some (snd (run_state (wr32 B spi_host SPI_HOST_TXDATA_REG_OFFSET val) d))
   }"

text \<open>The three loops of the write, with the length that is left; each returns the pointer, the
  length and the device it stops with.\<close>

fun spi_write_head :: "'d bus \<Rightarrow> dif_spi_host \<Rightarrow> memory \<Rightarrow> addr \<Rightarrow> nat \<Rightarrow> 'd \<Rightarrow> (addr \<times> nat \<times> 'd) option" where
  "spi_write_head B spi_host m p 0 d = Some (p, 0, d)"
| "spi_write_head B spi_host m p (Suc n) d =
     (if misalignment32_of p \<noteq> 0 then do {
        d \<leftarrow> tx_fifo_write8 B spi_host m p d;
        spi_write_head B spi_host m (p + 1) n d
      } else Some (p, Suc n, d))"

fun spi_write_words :: "'d bus \<Rightarrow> dif_spi_host \<Rightarrow> memory \<Rightarrow> addr \<Rightarrow> nat \<Rightarrow> 'd \<Rightarrow> (addr \<times> nat \<times> 'd) option" where
  "spi_write_words B spi_host m p (Suc (Suc (Suc (Suc n)))) d = do {
     d \<leftarrow> tx_fifo_write32 B spi_host m p d;
     spi_write_words B spi_host m (p + 4) n d
   }"
| "spi_write_words B spi_host m p n d = Some (p, n, d)"

fun spi_write_tail :: "'d bus \<Rightarrow> dif_spi_host \<Rightarrow> memory \<Rightarrow> addr \<Rightarrow> nat \<Rightarrow> 'd \<Rightarrow> 'd option" where
  "spi_write_tail B spi_host m p 0 d = Some d"
| "spi_write_tail B spi_host m p (Suc n) d = do {
     d \<leftarrow> tx_fifo_write8 B spi_host m p d;
     spi_write_tail B spi_host m (p + 1) n d
   }"

definition dif_spi_host_fifo_write ::
    "'d bus \<Rightarrow> dif_spi_host ptr \<Rightarrow> memory \<Rightarrow> addr \<Rightarrow> u16 \<Rightarrow> 'd \<Rightarrow> (dif_result \<times> 'd) option" where
  "dif_spi_host_fifo_write B spi_host m src len d = (case spi_host of None \<Rightarrow> Some (kDifBadArg, d) | Some spi_host \<Rightarrow>
     if src = NULL \<and> len > 0 then Some (kDifBadArg, d)
     else do {
       (p, n, d) \<leftarrow> spi_write_head B spi_host m src (unat len) d;
       (p, n, d) \<leftarrow> spi_write_words B spi_host m p n d;
       d \<leftarrow> spi_write_tail B spi_host m p n d;
       Some (kDifOk, d)
     })"

subsection \<open>The receive FIFO\<close>

text \<open>The queue holds up to eight bytes that were read from the FIFO and not yet stored. The two
  dequeue operations shift its bytes down, by one (a 64-bit shift right of its little-endian
  contents) and by four.\<close>

record queue =
  q_length :: int
  q_data :: "u8 list"

definition enqueue_byte :: "queue \<Rightarrow> u8 \<Rightarrow> queue" where
  "enqueue_byte q b = q\<lparr>q_data := (q_data q)[nat (q_length q) := b], q_length := q_length q + 1\<rparr>"

definition enqueue_word :: "queue \<Rightarrow> u32 \<Rightarrow> queue" where
  "enqueue_word q w =
     (if q_length q mod 4 = 0
      then q\<lparr>q_data := put_bytes (q_data q) (nat (q_length q)) (word_bytes w), q_length := q_length q + 4\<rparr>
      else enqueue_byte (enqueue_byte (enqueue_byte (enqueue_byte q
        (ucast w)) (ucast (drop_bit 8 w))) (ucast (drop_bit 16 w))) (ucast (drop_bit 24 w)))"

definition dequeue_byte :: "queue \<Rightarrow> u8 \<times> queue" where
  "dequeue_byte q =
     (q_data q ! 0, q\<lparr>q_data := drop 1 (q_data q) @ [0], q_length := q_length q - 1\<rparr>)"

definition dequeue_word :: "queue \<Rightarrow> u32 \<times> queue" where
  "dequeue_word q =
     (bytes_word (q_data q),
      q\<lparr>q_data := put_bytes (q_data q) 0 (drop 4 (q_data q)), q_length := q_length q - 4\<rparr>)"

text \<open>The refill that the three loops of the read share: wait for a word and append it, when
  fewer than \<open>k\<close> bytes are queued.\<close>

definition spi_read_refill :: "'d bus \<Rightarrow> dif_spi_host \<Rightarrow> int \<Rightarrow> queue \<Rightarrow> 'd \<Rightarrow> (queue \<times> 'd) option" where
  "spi_read_refill B spi_host k q d =
     (if q_length q < k then do {
        d \<leftarrow> wait_rx_fifo B spi_host d;
        let (w, d) = run_state (rd32 B spi_host SPI_HOST_RXDATA_REG_OFFSET) d;
        Some (enqueue_word q w, d)
      } else Some (q, d))"

fun spi_read_head :: "'d bus \<Rightarrow> dif_spi_host \<Rightarrow> addr \<Rightarrow> nat \<Rightarrow> queue \<Rightarrow> memory \<Rightarrow> 'd
    \<Rightarrow> (addr \<times> nat \<times> queue \<times> memory \<times> 'd) option" where
  "spi_read_head B spi_host p 0 q m d = Some (p, 0, q, m, d)"
| "spi_read_head B spi_host p (Suc n) q m d =
     (if misalignment32_of p \<noteq> 0 then do {
        (q, d) \<leftarrow> spi_read_refill B spi_host 1 q d;
        let (b, q) = dequeue_byte q;
        spi_read_head B spi_host (p + 1) n q (m(p := b)) d
      } else Some (p, Suc n, q, m, d))"

fun spi_read_words :: "'d bus \<Rightarrow> dif_spi_host \<Rightarrow> addr \<Rightarrow> nat \<Rightarrow> queue \<Rightarrow> memory \<Rightarrow> 'd
    \<Rightarrow> (addr \<times> nat \<times> queue \<times> memory \<times> 'd) option" where
  "spi_read_words B spi_host p (Suc (Suc (Suc (Suc n)))) q m d = do {
     (q, d) \<leftarrow> spi_read_refill B spi_host 4 q d;
     let (w, q) = dequeue_word q;
     spi_read_words B spi_host (p + 4) n q (write_32 w p m) d
   }"
| "spi_read_words B spi_host p n q m d = Some (p, n, q, m, d)"

fun spi_read_tail :: "'d bus \<Rightarrow> dif_spi_host \<Rightarrow> addr \<Rightarrow> nat \<Rightarrow> queue \<Rightarrow> memory \<Rightarrow> 'd
    \<Rightarrow> (memory \<times> 'd) option" where
  "spi_read_tail B spi_host p 0 q m d = Some (m, d)"
| "spi_read_tail B spi_host p (Suc n) q m d = do {
     (q, d) \<leftarrow> spi_read_refill B spi_host 1 q d;
     let (b, q) = dequeue_byte q;
     spi_read_tail B spi_host (p + 1) n q (m(p := b)) d
   }"

definition dif_spi_host_fifo_read ::
    "'d bus \<Rightarrow> dif_spi_host ptr \<Rightarrow> addr \<Rightarrow> u16 \<Rightarrow> memory \<Rightarrow> 'd \<Rightarrow> (dif_result \<times> memory \<times> 'd) option" where
  "dif_spi_host_fifo_read B spi_host dst len m d = (case spi_host of None \<Rightarrow> Some (kDifBadArg, m, d) | Some spi_host \<Rightarrow>
     if dst = NULL \<and> len > 0 then Some (kDifBadArg, m, d)
     else do {
       let q = \<lparr>q_length = 0, q_data = replicate 8 0\<rparr>;
       (p, n, q, m, d) \<leftarrow> spi_read_head B spi_host dst (unat len) q m d;
       (p, n, q, m, d) \<leftarrow> spi_read_words B spi_host p n q m d;
       (m, d) \<leftarrow> spi_read_tail B spi_host p n q m d;
       Some (kDifOk, m, d)
     })"

subsection \<open>Transactions\<close>

text \<open>\<open>length - 1\<close> is computed as an \<open>int\<close>: a length of zero gives all ones.\<close>

definition write_command_reg :: "'d bus \<Rightarrow> dif_spi_host \<Rightarrow> u16 \<Rightarrow> dif_spi_host_width
    \<Rightarrow> dif_spi_host_direction \<Rightarrow> bool \<Rightarrow> ('d, unit) state" where
  "write_command_reg B spi_host len speed direction last_segment = do {
     let reg = 0;
     let reg = bitfield_field32_write reg SPI_HOST_COMMAND_LEN_FIELD (ucast len - 1);
     let reg = bitfield_field32_write reg SPI_HOST_COMMAND_SPEED_FIELD (spi_width_value speed);
     let reg = bitfield_field32_write reg SPI_HOST_COMMAND_DIRECTION_FIELD (spi_direction_value direction);
     let reg = bitfield_bit32_write reg SPI_HOST_COMMAND_CSAAT_BIT (\<not> last_segment);
     wr32 B spi_host SPI_HOST_COMMAND_REG_OFFSET reg
   }"

definition issue_opcode ::
    "'d bus \<Rightarrow> dif_spi_host \<Rightarrow> dif_spi_host_width \<Rightarrow> u8 \<Rightarrow> bool \<Rightarrow> 'd \<Rightarrow> 'd option" where
  "issue_opcode B spi_host width opcode last_segment d = do {
     d \<leftarrow> wait_tx_fifo B spi_host d;
     Some (snd (run_state (do {
       mmio_region_write8 B (base_addr spi_host) SPI_HOST_TXDATA_REG_OFFSET opcode;
       write_command_reg B spi_host 1 width kDifSpiHostDirectionTx last_segment
     }) d))
   }"

definition issue_address :: "'d bus \<Rightarrow> dif_spi_host \<Rightarrow> dif_spi_host_width \<Rightarrow> dif_spi_host_addr_mode
    \<Rightarrow> u32 \<Rightarrow> bool \<Rightarrow> 'd \<Rightarrow> 'd option" where
  "issue_address B spi_host width mode address last_segment d = do {
     d \<leftarrow> wait_tx_fifo B spi_host d;
     let address = bitfield_byteswap32 address;
     let (len, address) = (if mode = kDifSpiHostAddrMode4b then (4, address) else (3, drop_bit 8 address));
     Some (snd (run_state (do {
       wr32 B spi_host SPI_HOST_TXDATA_REG_OFFSET address;
       write_command_reg B spi_host len width kDifSpiHostDirectionTx last_segment
     }) d))
   }"

definition issue_dummy ::
    "'d bus \<Rightarrow> dif_spi_host \<Rightarrow> dif_spi_host_width \<Rightarrow> u32 \<Rightarrow> bool \<Rightarrow> 'd \<Rightarrow> 'd option" where
  "issue_dummy B spi_host width len last_segment d =
     Some (snd (run_state
       (if len > 0 then write_command_reg B spi_host (ucast len) width kDifSpiHostDirectionDummy last_segment
        else ret ()) d))"

definition issue_data_phase :: "'d bus \<Rightarrow> dif_spi_host \<Rightarrow> memory \<Rightarrow> dif_spi_host_segment \<Rightarrow> bool \<Rightarrow> 'd
    \<Rightarrow> (dif_result \<times> 'd) option" where
  "issue_data_phase B spi_host m segment last_segment d = (case segment of
     kDifSpiHostSegmentTypeTx width buf len \<Rightarrow> do {
       let (_, d) = run_state (write_command_reg B spi_host (ucast len) width kDifSpiHostDirectionTx last_segment) d;
       (_, d) \<leftarrow> dif_spi_host_fifo_write B (Some spi_host) m buf (ucast len) d;
       Some (kDifOk, d)
     }
   | kDifSpiHostSegmentTypeBidirectional width txbuf rxbuf len \<Rightarrow> do {
       let (_, d) = run_state
         (write_command_reg B spi_host (ucast len) width kDifSpiHostDirectionBidirectional last_segment) d;
       (_, d) \<leftarrow> dif_spi_host_fifo_write B (Some spi_host) m txbuf (ucast len) d;
       Some (kDifOk, d)
     }
   | kDifSpiHostSegmentTypeRx width buf len \<Rightarrow>
       Some (kDifOk, snd (run_state
         (write_command_reg B spi_host (ucast len) width kDifSpiHostDirectionRx last_segment) d))
   | _ \<Rightarrow> Some (kDifBadArg, d))"

text \<open>The two loops over the segments: the first issues them, the second reads what was
  received. The last segment is the one with no other behind it.\<close>

fun spi_issue_segments :: "'d bus \<Rightarrow> dif_spi_host \<Rightarrow> memory \<Rightarrow> dif_spi_host_segment list \<Rightarrow> 'd
    \<Rightarrow> (dif_result \<times> 'd) option" where
  "spi_issue_segments B spi_host m [] d = Some (kDifOk, d)"
| "spi_issue_segments B spi_host m (segment # segments) d = do {
     let last_segment = (segments = []);
     d \<leftarrow> wait_ready B spi_host d;
     (case segment of
        kDifSpiHostSegmentTypeOpcode width opcode \<Rightarrow> do {
          d \<leftarrow> issue_opcode B spi_host width opcode last_segment d;
          spi_issue_segments B spi_host m segments d
        }
      | kDifSpiHostSegmentTypeAddress width mode address \<Rightarrow> do {
          d \<leftarrow> issue_address B spi_host width mode address last_segment d;
          spi_issue_segments B spi_host m segments d
        }
      | kDifSpiHostSegmentTypeDummy width len \<Rightarrow> do {
          d \<leftarrow> issue_dummy B spi_host width len last_segment d;
          spi_issue_segments B spi_host m segments d
        }
      | kDifSpiHostSegmentTypeOther _ \<Rightarrow> Some (kDifBadArg, d)
      | _ \<Rightarrow> do {
          (error, d) \<leftarrow> issue_data_phase B spi_host m segment last_segment d;
          if error \<noteq> kDifOk then Some (error, d)
          else spi_issue_segments B spi_host m segments d
        })
   }"

fun spi_read_segments :: "'d bus \<Rightarrow> dif_spi_host \<Rightarrow> dif_spi_host_segment list \<Rightarrow> memory \<Rightarrow> 'd
    \<Rightarrow> (memory \<times> 'd) option" where
  "spi_read_segments B spi_host [] m d = Some (m, d)"
| "spi_read_segments B spi_host (segment # segments) m d = (case segment of
     kDifSpiHostSegmentTypeRx width buf len \<Rightarrow> do {
       (_, m, d) \<leftarrow> dif_spi_host_fifo_read B (Some spi_host) buf (ucast len) m d;
       spi_read_segments B spi_host segments m d
     }
   | kDifSpiHostSegmentTypeBidirectional width txbuf rxbuf len \<Rightarrow> do {
       (_, m, d) \<leftarrow> dif_spi_host_fifo_read B (Some spi_host) rxbuf (ucast len) m d;
       spi_read_segments B spi_host segments m d
     }
   | _ \<Rightarrow> spi_read_segments B spi_host segments m d)"

text \<open>The code does not check its handle for null here, so it is not a pointer.\<close>

definition dif_spi_host_transaction :: "'d bus \<Rightarrow> dif_spi_host \<Rightarrow> u32 \<Rightarrow> dif_spi_host_segment list \<Rightarrow> memory
    \<Rightarrow> 'd \<Rightarrow> (dif_result \<times> memory \<times> 'd) option" where
  "dif_spi_host_transaction B spi_host csid segments m d = do {
     let (_, d) = run_state (wr32 B spi_host SPI_HOST_CSID_REG_OFFSET csid) d;
     (error, d) \<leftarrow> spi_issue_segments B spi_host m segments d;
     if error \<noteq> kDifOk then Some (error, m, d)
     else do {
       (m, d) \<leftarrow> spi_read_segments B spi_host segments m d;
       Some (kDifOk, m, d)
     }
   }"

subsection \<open>Events, errors and status\<close>

definition dif_spi_host_event_set_enabled ::
    "'d bus \<Rightarrow> dif_spi_host ptr \<Rightarrow> u32 \<Rightarrow> bool \<Rightarrow> ('d, dif_result) state" where
  "dif_spi_host_event_set_enabled B spi_host event enable =
     (case spi_host of None \<Rightarrow> ret kDifBadArg | Some spi_host \<Rightarrow>
       if event AND NOT kDifSpiHostEvtAll \<noteq> 0 then ret kDifBadArg
       else do {
         reg \<leftarrow> rd32 B spi_host SPI_HOST_EVENT_ENABLE_REG_OFFSET;
         let reg = (if enable then reg OR event else reg AND NOT event);
         wr32 B spi_host SPI_HOST_EVENT_ENABLE_REG_OFFSET reg;
         ret kDifOk
       })"

definition dif_spi_host_event_get_enabled ::
    "'d bus \<Rightarrow> dif_spi_host ptr \<Rightarrow> u32 ptr \<Rightarrow> ('d, dif_result \<times> u32 ptr) state" where
  "dif_spi_host_event_get_enabled B spi_host events = (case (spi_host, events) of
     (Some spi_host, Some _) \<Rightarrow> do {
       v \<leftarrow> rd32 B spi_host SPI_HOST_EVENT_ENABLE_REG_OFFSET;
       ret (kDifOk, Some v)
     }
   | _ \<Rightarrow> ret (kDifBadArg, events))"

record dif_spi_host_status =
  spi_ready :: bool
  spi_active :: bool
  tx_full :: bool
  tx_empty :: bool
  tx_stall :: bool
  tx_water_mark :: bool
  rx_full :: bool
  rx_empty :: bool
  rx_stall :: bool
  least_significant_first :: bool
  rx_water_mark :: bool
  cmd_queue_depth :: u32
  rx_queue_depth :: u32
  tx_queue_depth :: u32

definition dif_spi_host_get_status :: "'d bus \<Rightarrow> dif_spi_host ptr \<Rightarrow> dif_spi_host_status ptr
    \<Rightarrow> ('d, dif_result \<times> dif_spi_host_status ptr) state" where
  "dif_spi_host_get_status B spi_host status = (case (spi_host, status) of
     (Some spi_host, Some _) \<Rightarrow> do {
       reg \<leftarrow> rd32 B spi_host SPI_HOST_STATUS_REG_OFFSET;
       ret (kDifOk, Some \<lparr>
         spi_ready = bitfield_bit32_read reg SPI_HOST_STATUS_READY_BIT,
         spi_active = bitfield_bit32_read reg SPI_HOST_STATUS_ACTIVE_BIT,
         tx_full = bitfield_bit32_read reg SPI_HOST_STATUS_TXFULL_BIT,
         tx_empty = bitfield_bit32_read reg SPI_HOST_STATUS_TXEMPTY_BIT,
         tx_stall = bitfield_bit32_read reg SPI_HOST_STATUS_TXSTALL_BIT,
         tx_water_mark = bitfield_bit32_read reg SPI_HOST_STATUS_TXWM_BIT,
         rx_full = bitfield_bit32_read reg SPI_HOST_STATUS_RXFULL_BIT,
         rx_empty = bitfield_bit32_read reg SPI_HOST_STATUS_RXEMPTY_BIT,
         rx_stall = bitfield_bit32_read reg SPI_HOST_STATUS_RXSTALL_BIT,
         least_significant_first = bitfield_bit32_read reg SPI_HOST_STATUS_BYTEORDER_BIT,
         rx_water_mark = bitfield_bit32_read reg SPI_HOST_STATUS_RXWM_BIT,
         cmd_queue_depth = bitfield_field32_read reg SPI_HOST_STATUS_CMDQD_FIELD,
         rx_queue_depth = bitfield_field32_read reg SPI_HOST_STATUS_RXQD_FIELD,
         tx_queue_depth = bitfield_field32_read reg SPI_HOST_STATUS_TXQD_FIELD\<rparr>)
     }
   | _ \<Rightarrow> ret (kDifBadArg, status))"

definition dif_spi_host_write_command :: "'d bus \<Rightarrow> dif_spi_host ptr \<Rightarrow> u16 \<Rightarrow> dif_spi_host_width
    \<Rightarrow> dif_spi_host_direction \<Rightarrow> bool \<Rightarrow> ('d, dif_result) state" where
  "dif_spi_host_write_command B spi_host len speed direction last_segment =
     (case spi_host of None \<Rightarrow> ret kDifBadArg | Some spi_host \<Rightarrow> do {
       write_command_reg B spi_host len speed direction last_segment;
       ret kDifOk
     })"

definition dif_spi_host_error_set_enabled ::
    "'d bus \<Rightarrow> dif_spi_host ptr \<Rightarrow> u32 \<Rightarrow> bool \<Rightarrow> ('d, dif_result) state" where
  "dif_spi_host_error_set_enabled B spi_host error enable =
     (case spi_host of None \<Rightarrow> ret kDifBadArg | Some spi_host \<Rightarrow>
       if error AND NOT kDifSpiHostIrqErrorAll \<noteq> 0 then ret kDifBadArg
       else do {
         reg \<leftarrow> rd32 B spi_host SPI_HOST_ERROR_ENABLE_REG_OFFSET;
         let reg = (if enable then reg OR error else reg AND NOT error);
         wr32 B spi_host SPI_HOST_ERROR_ENABLE_REG_OFFSET reg;
         ret kDifOk
       })"

definition dif_spi_host_error_get_enabled ::
    "'d bus \<Rightarrow> dif_spi_host ptr \<Rightarrow> u32 ptr \<Rightarrow> ('d, dif_result \<times> u32 ptr) state" where
  "dif_spi_host_error_get_enabled B spi_host errors = (case (spi_host, errors) of
     (Some spi_host, Some _) \<Rightarrow> do {
       v \<leftarrow> rd32 B spi_host SPI_HOST_ERROR_ENABLE_REG_OFFSET;
       ret (kDifOk, Some v)
     }
   | _ \<Rightarrow> ret (kDifBadArg, errors))"

definition dif_spi_host_get_error ::
    "'d bus \<Rightarrow> dif_spi_host ptr \<Rightarrow> u32 ptr \<Rightarrow> ('d, dif_result \<times> u32 ptr) state" where
  "dif_spi_host_get_error B spi_host error = (case (spi_host, error) of
     (Some spi_host, Some _) \<Rightarrow> do {
       v \<leftarrow> rd32 B spi_host SPI_HOST_ERROR_STATUS_REG_OFFSET;
       ret (kDifOk, Some v)
     }
   | _ \<Rightarrow> ret (kDifBadArg, error))"

definition dif_spi_host_wait_until_idle ::
    "'d bus \<Rightarrow> dif_spi_host ptr \<Rightarrow> 'd \<Rightarrow> (dif_result \<times> 'd) option" where
  "dif_spi_host_wait_until_idle B spi_host d = (case spi_host of None \<Rightarrow> Some (kDifBadArg, d) | Some spi_host \<Rightarrow> do {
     d \<leftarrow> wait_while (spi_host_active B spi_host) d;
     Some (kDifOk, d)
   })"

subsection \<open>What the FIFO operations move\<close>

text \<open>The bytes of a buffer in main memory.\<close>

definition buffer_bytes :: "memory \<Rightarrow> addr \<Rightarrow> nat \<Rightarrow> u8 list" where
  "buffer_bytes m p n = map (\<lambda>k. m (p + of_nat k)) [0..<n]"

lemma length_buffer_bytes [simp]: "length (buffer_bytes m p n) = n"
  by (simp add: buffer_bytes_def)

lemma buffer_bytes_0 [simp]: "buffer_bytes m p 0 = []"
  by (simp add: buffer_bytes_def)

lemma buffer_bytes_add: "buffer_bytes m p (a + b) = buffer_bytes m p a @ buffer_bytes m (p + of_nat a) b"
  by (rule nth_equalityI) (auto simp: buffer_bytes_def nth_append add.assoc simp flip: of_nat_add)

lemma buffer_bytes_Suc: "buffer_bytes m p (Suc n) = m p # buffer_bytes m (p + 1) n"
  using buffer_bytes_add [of m p 1 n] by (simp add: buffer_bytes_def)

lemma buffer_bytes_4: "buffer_bytes m p (Suc (Suc (Suc (Suc n)))) = word_bytes (read_32 m p) @ buffer_bytes m (p + 4) n"
  by (simp add: buffer_bytes_Suc word_bytes_def read_32_def add.assoc)

text \<open>What the driver relies on: \<open>sent\<close> are the bytes that have been put into the transmit FIFO,
  oldest first, \<open>received\<close> the words that wait in the receive FIFO. The transmit FIFO makes room
  in finite time.\<close>

locale spi_fifos =
  fixes B :: "'d bus" and h :: dif_spi_host and inv :: "'d \<Rightarrow> bool" and room :: "'d \<Rightarrow> bool"
    and sent :: "'d \<Rightarrow> u8 list" and received :: "'d \<Rightarrow> u32 list"
  assumes wait_room: "inv d \<Longrightarrow> \<exists>d'. wait_tx_fifo B h d = Some d' \<and> inv d' \<and> room d'
      \<and> sent d' = sent d \<and> received d' = received d"
    and put_byte: "inv d \<Longrightarrow> room d \<Longrightarrow>
      run_state (mmio_region_write8 B (base_addr h) SPI_HOST_TXDATA_REG_OFFSET b) d = ((), d') \<Longrightarrow>
      inv d' \<and> sent d' = sent d @ [b] \<and> received d' = received d"
    and put_word: "inv d \<Longrightarrow> room d \<Longrightarrow>
      run_state (wr32 B h SPI_HOST_TXDATA_REG_OFFSET w) d = ((), d') \<Longrightarrow>
      inv d' \<and> sent d' = sent d @ word_bytes w \<and> received d' = received d"
    and wait_data: "inv d \<Longrightarrow> received d \<noteq> [] \<Longrightarrow> \<exists>d'. wait_rx_fifo B h d = Some d' \<and> inv d'
      \<and> sent d' = sent d \<and> received d' = received d"
    and get_word: "inv d \<Longrightarrow> received d = w # ws \<Longrightarrow>
      run_state (rd32 B h SPI_HOST_RXDATA_REG_OFFSET) d = (v, d') \<Longrightarrow>
      v = w \<and> inv d' \<and> received d' = ws \<and> sent d' = sent d"
begin

lemma write8:
  assumes "inv d"
  shows "\<exists>d'. tx_fifo_write8 B h m p d = Some d' \<and> inv d' \<and> sent d' = sent d @ [m p] \<and> received d' = received d"
proof -
  obtain d1 where 1: "wait_tx_fifo B h d = Some d1" "inv d1" "room d1" "sent d1 = sent d" "received d1 = received d"
    using wait_room [OF assms] by blast
  obtain d2 where 2: "run_state (mmio_region_write8 B (base_addr h) SPI_HOST_TXDATA_REG_OFFSET (m p)) d1 = ((), d2)"
    by (metis surj_pair unit.exhaust)
  from put_byte [OF 1(2,3) 2] 1 2 show ?thesis by (simp add: tx_fifo_write8_def)
qed

lemma write32:
  assumes "inv d"
  shows "\<exists>d'. tx_fifo_write32 B h m p d = Some d' \<and> inv d' \<and> sent d' = sent d @ word_bytes (read_32 m p)
    \<and> received d' = received d"
proof -
  obtain d1 where 1: "wait_tx_fifo B h d = Some d1" "inv d1" "room d1" "sent d1 = sent d" "received d1 = received d"
    using wait_room [OF assms] by blast
  obtain d2 where 2: "run_state (wr32 B h SPI_HOST_TXDATA_REG_OFFSET (read_32 m p)) d1 = ((), d2)"
    by (metis surj_pair unit.exhaust)
  from put_word [OF 1(2,3) 2] 1 2 show ?thesis by (simp add: tx_fifo_write32_def)
qed

lemma write_head:
  assumes "inv d"
  shows "\<exists>k d'. spi_write_head B h m p n d = Some (p + of_nat k, n - k, d') \<and> k \<le> n \<and> inv d'
    \<and> sent d' = sent d @ buffer_bytes m p k \<and> received d' = received d"
  using assms
proof (induction n arbitrary: p d)
  case 0
  then show ?case by (intro exI [of _ 0]) simp
next
  case (Suc n)
  show ?case
  proof (cases "misalignment32_of p = 0")
    case True
    with Suc.prems show ?thesis by (intro exI [of _ 0]) simp
  next
    case False
    obtain d1 where 1: "tx_fifo_write8 B h m p d = Some d1" "inv d1" "sent d1 = sent d @ [m p]" "received d1 = received d"
      using write8 [OF Suc.prems] by blast
    obtain k d2 where 2: "spi_write_head B h m (p + 1) n d1 = Some (p + 1 + of_nat k, n - k, d2)" "k \<le> n" "inv d2"
      "sent d2 = sent d1 @ buffer_bytes m (p + 1) k" "received d2 = received d1"
      using Suc.IH [OF 1(2), of "p + 1"] by blast
    show ?thesis
      using False 1 2 by (intro exI [of _ "Suc k"] exI [of _ d2]) (simp add: buffer_bytes_Suc add.assoc)
  qed
qed

lemma four_steps: "n < 4 \<or> (\<exists>k. n = Suc (Suc (Suc (Suc k))))"
  by presburger

lemma write_words:
  assumes "inv d"
  shows "\<exists>k d'. spi_write_words B h m p n d = Some (p + of_nat k, n - k, d') \<and> k \<le> n \<and> inv d'
    \<and> sent d' = sent d @ buffer_bytes m p k \<and> received d' = received d"
  using assms
proof (induction n arbitrary: p d rule: less_induct)
  case (less n)
  consider "n < 4" | k where "n = Suc (Suc (Suc (Suc k)))" using four_steps by blast
  then show ?case
  proof cases
    case 1
    then have "n \<in> {0, 1, 2, 3}" by auto
    then have "spi_write_words B h m p n d = Some (p, n, d)" by (auto simp: numeral_2_eq_2 numeral_3_eq_3)
    with less.prems show ?thesis by (intro exI [of _ 0]) simp
  next
    case (2 k)
    obtain d1 where 1: "tx_fifo_write32 B h m p d = Some d1" "inv d1" "sent d1 = sent d @ word_bytes (read_32 m p)"
      "received d1 = received d"
      using write32 [OF less.prems] by blast
    obtain j d2 where 3: "spi_write_words B h m (p + 4) k d1 = Some (p + 4 + of_nat j, k - j, d2)" "j \<le> k" "inv d2"
      "sent d2 = sent d1 @ buffer_bytes m (p + 4) j" "received d2 = received d1"
      using less.IH [of k d1 "p + 4"] 1(2) 2 by auto
    show ?thesis
      using 1 2 3 by (intro exI [of _ "Suc (Suc (Suc (Suc j)))"] exI [of _ d2]) (simp add: buffer_bytes_4 add_ac)
  qed
qed

lemma write_tail:
  assumes "inv d"
  shows "\<exists>d'. spi_write_tail B h m p n d = Some d' \<and> inv d' \<and> sent d' = sent d @ buffer_bytes m p n
    \<and> received d' = received d"
  using assms
proof (induction n arbitrary: p d)
  case (Suc n)
  obtain d1 where 1: "tx_fifo_write8 B h m p d = Some d1" "inv d1" "sent d1 = sent d @ [m p]" "received d1 = received d"
    using write8 [OF Suc.prems] by blast
  from Suc.IH [OF 1(2), of "p + 1"] 1 show ?case by (auto simp: buffer_bytes_Suc)
qed simp

text \<open>The bytes of the buffer follow what was sent before, in the order of their addresses, for
  every alignment and length.\<close>

lemma fifo_write:
  assumes "inv d" "src \<noteq> NULL \<or> len = 0"
  shows "\<exists>d'. dif_spi_host_fifo_write B (Some h) m src len d = Some (kDifOk, d') \<and> inv d'
    \<and> sent d' = sent d @ buffer_bytes m src (unat len) \<and> received d' = received d"
proof -
  let ?n = "unat len"
  obtain k d1 where 1: "spi_write_head B h m src ?n d = Some (src + of_nat k, ?n - k, d1)" "k \<le> ?n" "inv d1"
    "sent d1 = sent d @ buffer_bytes m src k" "received d1 = received d"
    using write_head [OF assms(1)] by blast
  obtain j d2 where 2: "spi_write_words B h m (src + of_nat k) (?n - k) d1 = Some (src + of_nat k + of_nat j, ?n - k - j, d2)"
    "j \<le> ?n - k" "inv d2" "sent d2 = sent d1 @ buffer_bytes m (src + of_nat k) j" "received d2 = received d1"
    using write_words [OF 1(3)] by blast
  obtain d3 where 3: "spi_write_tail B h m (src + of_nat k + of_nat j) (?n - k - j) d2 = Some d3" "inv d3"
    "sent d3 = sent d2 @ buffer_bytes m (src + of_nat k + of_nat j) (?n - k - j)" "received d3 = received d2"
    using write_tail [OF 2(3)] by blast
  have "buffer_bytes m src (k + (j + (?n - k - j))) =
      buffer_bytes m src k @ buffer_bytes m (src + of_nat k) j @ buffer_bytes m (src + of_nat k + of_nat j) (?n - k - j)"
    by (simp only: buffer_bytes_add)
  moreover have "k + (j + (?n - k - j)) = ?n" using 1(2) 2(2) by simp
  ultimately have "sent d3 = sent d @ buffer_bytes m src ?n" using 1 2 3 by simp
  with 1 2 3 assms(2) show ?thesis by (auto simp: dif_spi_host_fifo_write_def)
qed

end

text \<open>The queue operations on its valid bytes.\<close>

lemma enqueue_word_bytes:
  assumes "length (q_data q) = 8" "0 \<le> q_length q" "q_length q \<le> 3"
  shows "take (nat (q_length (enqueue_word q w))) (q_data (enqueue_word q w)) = take (nat (q_length q)) (q_data q) @ word_bytes w"
    "q_length (enqueue_word q w) = q_length q + 4" "length (q_data (enqueue_word q w)) = 8"
proof -
  obtain a b c d e f g i where l: "q_data q = [a, b, c, d, e, f, g, i]"
    using assms(1) by (auto simp: length_Suc_conv numeral_eq_Suc)
  have "q_length q \<in> {0, 1, 2, 3}" using assms(2,3) by auto
  then show "take (nat (q_length (enqueue_word q w))) (q_data (enqueue_word q w)) = take (nat (q_length q)) (q_data q) @ word_bytes w"
    "q_length (enqueue_word q w) = q_length q + 4" "length (q_data (enqueue_word q w)) = 8"
    using l by (auto simp: enqueue_word_def enqueue_byte_def word_bytes_def put_bytes_def byte32_def)
qed

lemma dequeue_byte_bytes:
  assumes "length (q_data q) = 8" "0 < q_length q" "q_length q \<le> 8"
  shows "take (nat (q_length q)) (q_data q) = fst (dequeue_byte q) # take (nat (q_length (snd (dequeue_byte q)))) (q_data (snd (dequeue_byte q)))"
    "q_length (snd (dequeue_byte q)) = q_length q - 1" "length (q_data (snd (dequeue_byte q))) = 8"
proof -
  obtain a b c d e f g i where l: "q_data q = [a, b, c, d, e, f, g, i]"
    using assms(1) by (auto simp: length_Suc_conv numeral_eq_Suc)
  have "q_length q \<in> {1, 2, 3, 4, 5, 6, 7, 8}" using assms(2,3) by auto
  then show "take (nat (q_length q)) (q_data q) = fst (dequeue_byte q) # take (nat (q_length (snd (dequeue_byte q)))) (q_data (snd (dequeue_byte q)))"
    "q_length (snd (dequeue_byte q)) = q_length q - 1" "length (q_data (snd (dequeue_byte q))) = 8"
    using l by (auto simp: dequeue_byte_def)
qed

lemma dequeue_word_bytes:
  assumes "length (q_data q) = 8" "4 \<le> q_length q" "q_length q \<le> 8"
  shows "take (nat (q_length q)) (q_data q) = word_bytes (fst (dequeue_word q)) @ take (nat (q_length (snd (dequeue_word q)))) (q_data (snd (dequeue_word q)))"
    "q_length (snd (dequeue_word q)) = q_length q - 4" "length (q_data (snd (dequeue_word q))) = 8"
proof -
  obtain a b c d e f g i where l: "q_data q = [a, b, c, d, e, f, g, i]"
    using assms(1) by (auto simp: length_Suc_conv numeral_eq_Suc)
  have "q_length q \<in> {4, 5, 6, 7, 8}" using assms(2,3) by auto
  then show "take (nat (q_length q)) (q_data q) = word_bytes (fst (dequeue_word q)) @ take (nat (q_length (snd (dequeue_word q)))) (q_data (snd (dequeue_word q)))"
    "q_length (snd (dequeue_word q)) = q_length q - 4" "length (q_data (snd (dequeue_word q))) = 8"
    using l by (auto simp: dequeue_word_def put_bytes_def bytes_word_def word_bytes_def)
qed

text \<open>The bytes still to be stored: those in the queue, then those of the waiting words.\<close>

definition queue_ok :: "queue \<Rightarrow> bool" where
  "queue_ok q \<longleftrightarrow> length (q_data q) = 8 \<and> 0 \<le> q_length q \<and> q_length q \<le> 3"

definition pending_bytes :: "queue \<Rightarrow> u32 list \<Rightarrow> u8 list" where
  "pending_bytes q ws = take (nat (q_length q)) (q_data q) @ concat (map word_bytes ws)"

lemma length_pending_bytes:
  "queue_ok q \<Longrightarrow> length (pending_bytes q ws) = nat (q_length q) + 4 * length ws"
proof -
  have "length (concat (map word_bytes ws)) = 4 * length ws" by (induction ws) simp_all
  then show "queue_ok q \<Longrightarrow> length (pending_bytes q ws) = nat (q_length q) + 4 * length ws"
    by (auto simp: pending_bytes_def queue_ok_def min_def)
qed

lemma overlay_single: "m(p := b) = overlay m p [b]"
  by (rule ext) (auto simp: overlay_def Let_def unat_eq_zero)

lemma overlay_word: "write_32 w p m = overlay m p (word_bytes w)"
proof -
  have "overlay m p (word_bytes w) = overlay (overlay (overlay (overlay m p [byte32 w 0]) (p + 1) [byte32 w 1])
      (p + 2) [byte32 w 2]) (p + 3) [byte32 w 3]"
    using overlay_append [of "[byte32 w 0]" "[byte32 w 1]" m p]
      overlay_append [of "[byte32 w 0, byte32 w 1]" "[byte32 w 2]" m p]
      overlay_append [of "[byte32 w 0, byte32 w 1, byte32 w 2]" "[byte32 w 3]" m p]
    by (simp add: word_bytes_def)
  then show ?thesis by (simp only: overlay_single [symmetric] write_32_def)
qed

context spi_fifos
begin

lemma refill:
  assumes "inv d" "queue_ok q" "k = 1 \<or> k = 4" "k \<le> length (pending_bytes q (received d))"
  shows "\<exists>q' d'. spi_read_refill B h (int k) q d = Some (q', d') \<and> inv d' \<and> sent d' = sent d
    \<and> pending_bytes q' (received d') = pending_bytes q (received d) \<and> length (q_data q') = 8
    \<and> int k \<le> q_length q' \<and> q_length q' \<le> int k + 3 \<and> (suffix (received d') (received d))"
proof (cases "q_length q < int k")
  case False
  with assms show ?thesis
    by (intro exI [of _ q] exI [of _ d]) (auto simp: spi_read_refill_def queue_ok_def)
next
  case True
  have "received d \<noteq> []" using True assms(2,4) by (auto simp: length_pending_bytes queue_ok_def)
  then obtain w ws where w: "received d = w # ws" by (cases "received d") auto
  obtain d1 where 1: "wait_rx_fifo B h d = Some d1" "inv d1" "sent d1 = sent d" "received d1 = received d"
    using wait_data [OF assms(1) \<open>received d \<noteq> []\<close>] by blast
  obtain v d2 where 2: "run_state (rd32 B h SPI_HOST_RXDATA_REG_OFFSET) d1 = (v, d2)" by fastforce
  have g: "v = w" "inv d2" "received d2 = ws" "sent d2 = sent d1"
    using get_word [OF 1(2) _ 2] 1(4) w by auto
  have q: "length (q_data q) = 8" "0 \<le> q_length q" "q_length q \<le> 3" using assms(2) by (simp_all add: queue_ok_def)
  note e = enqueue_word_bytes [OF q, of w]
  have "spi_read_refill B h (int k) q d = Some (enqueue_word q w, d2)"
    using True 1 2 g(1) by (simp add: spi_read_refill_def)
  moreover have "pending_bytes (enqueue_word q w) (received d2) = pending_bytes q (received d)"
    by (simp add: pending_bytes_def e(1) g(3) w)
  moreover have "int k \<le> q_length (enqueue_word q w)" "q_length (enqueue_word q w) \<le> int k + 3"
    using True assms(3) q e(2) by auto
  moreover have "suffix (received d2) (received d)" by (simp add: g(3) w suffix_ConsI)
  ultimately show ?thesis using g e(3) 1(3) by auto
qed

lemma read_byte:
  assumes "inv d" "queue_ok q" "pending_bytes q (received d) \<noteq> []"
  shows "\<exists>q1 d1 b q2. spi_read_refill B h 1 q d = Some (q1, d1) \<and> dequeue_byte q1 = (b, q2) \<and> queue_ok q2 \<and> inv d1
    \<and> sent d1 = sent d \<and> pending_bytes q (received d) = b # pending_bytes q2 (received d1)
    \<and> (suffix (received d1) (received d))"
proof -
  have "(1 :: nat) \<le> length (pending_bytes q (received d))" using assms(3) by (cases "pending_bytes q (received d)") auto
  then obtain q1 d1 where r: "spi_read_refill B h (int 1) q d = Some (q1, d1)" "inv d1" "sent d1 = sent d"
    "pending_bytes q1 (received d1) = pending_bytes q (received d)" "length (q_data q1) = 8"
    "int 1 \<le> q_length q1" "q_length q1 \<le> int 1 + 3" "suffix (received d1) (received d)"
    using refill [OF assms(1,2), of 1] by blast
  then have "0 < q_length q1" "q_length q1 \<le> 8" by simp_all
  note q = dequeue_byte_bytes [OF r(5) this]
  obtain b q2 where b: "dequeue_byte q1 = (b, q2)" by fastforce
  from r q b show ?thesis
    by (intro exI [of _ q1] exI [of _ d1] exI [of _ b] exI [of _ q2]) (auto simp: queue_ok_def pending_bytes_def)
qed

lemma read_head:
  assumes "inv d" "queue_ok q" "n \<le> length (pending_bytes q (received d))" "n \<le> 2 ^ 32"
  shows "\<exists>k q' d'. spi_read_head B h p n q m d =
      Some (p + of_nat k, n - k, q', overlay m p (take k (pending_bytes q (received d))), d')
    \<and> k \<le> n \<and> queue_ok q' \<and> inv d' \<and> sent d' = sent d
    \<and> pending_bytes q' (received d') = drop k (pending_bytes q (received d)) \<and> (suffix (received d') (received d))"
  using assms
proof (induction n arbitrary: p q m d)
  case 0
  then show ?case by (auto intro!: exI [of _ 0] simp: overlay_def)
next
  case (Suc n)
  show ?case
  proof (cases "misalignment32_of p = 0")
    case True
    with Suc.prems show ?thesis by (auto intro!: exI [of _ 0] simp: overlay_def)
  next
    case False
    have "pending_bytes q (received d) \<noteq> []" using Suc.prems(3) by auto
    then obtain q1 d1 b q2 where 1: "spi_read_refill B h 1 q d = Some (q1, d1)" "dequeue_byte q1 = (b, q2)" "queue_ok q2"
      "inv d1" "sent d1 = sent d" "pending_bytes q (received d) = b # pending_bytes q2 (received d1)"
      "suffix (received d1) (received d)"
      using read_byte [OF Suc.prems(1,2)] by blast
    let ?s = "pending_bytes q2 (received d1)"
    have n: "n \<le> length ?s" "n \<le> 2 ^ 32" using Suc.prems(3,4) 1(6) by simp_all
    obtain k q3 d2 where 2: "spi_read_head B h (p + 1) n q2 (m(p := b)) d1 =
        Some (p + 1 + of_nat k, n - k, q3, overlay (m(p := b)) (p + 1) (take k ?s), d2)"
      "k \<le> n" "queue_ok q3" "inv d2" "sent d2 = sent d1" "pending_bytes q3 (received d2) = drop k ?s"
      "suffix (received d2) (received d1)"
      using Suc.IH [OF 1(4,3) n, of "p + 1" "m(p := b)"] by blast
    have "overlay (m(p := b)) (p + 1) (take k ?s) = overlay m p (take (Suc k) (b # ?s))"
      using overlay_append [of "[b]" "take k ?s" m p] 2(2) Suc.prems(4) by (simp add: overlay_single)
    moreover have "suffix (received d2) (received d)" using 1(7) 2(7) by (rule suffix_order.trans [rotated])
    ultimately show ?thesis
      using False 1(1,2,5,6) 2 by (intro exI [of _ "Suc k"] exI [of _ q3] exI [of _ d2]) (simp add: add.assoc)
  qed
qed

lemma read_word:
  assumes "inv d" "queue_ok q" "4 \<le> length (pending_bytes q (received d))"
  shows "\<exists>q1 d1 w q2. spi_read_refill B h 4 q d = Some (q1, d1) \<and> dequeue_word q1 = (w, q2) \<and> queue_ok q2 \<and> inv d1
    \<and> sent d1 = sent d \<and> pending_bytes q (received d) = word_bytes w @ pending_bytes q2 (received d1)
    \<and> suffix (received d1) (received d)"
proof -
  obtain q1 d1 where r: "spi_read_refill B h (int 4) q d = Some (q1, d1)" "inv d1" "sent d1 = sent d"
    "pending_bytes q1 (received d1) = pending_bytes q (received d)" "length (q_data q1) = 8"
    "int 4 \<le> q_length q1" "q_length q1 \<le> int 4 + 3" "suffix (received d1) (received d)"
    using refill [OF assms(1,2), of 4] assms(3) by blast
  then have "4 \<le> q_length q1" "q_length q1 \<le> 8" by simp_all
  note q = dequeue_word_bytes [OF r(5) this]
  obtain w q2 where w: "dequeue_word q1 = (w, q2)" by fastforce
  from r q w show ?thesis
    by (intro exI [of _ q1] exI [of _ d1] exI [of _ w] exI [of _ q2]) (auto simp: queue_ok_def pending_bytes_def)
qed

lemma read_words:
  assumes "inv d" "queue_ok q" "n \<le> length (pending_bytes q (received d))" "n \<le> 2 ^ 32"
  shows "\<exists>k q' d'. spi_read_words B h p n q m d =
      Some (p + of_nat k, n - k, q', overlay m p (take k (pending_bytes q (received d))), d')
    \<and> k \<le> n \<and> queue_ok q' \<and> inv d' \<and> sent d' = sent d
    \<and> pending_bytes q' (received d') = drop k (pending_bytes q (received d)) \<and> suffix (received d') (received d)"
  using assms
proof (induction n arbitrary: p q m d rule: less_induct)
  case (less n)
  consider "n < 4" | k where "n = Suc (Suc (Suc (Suc k)))" using four_steps by blast
  then show ?case
  proof cases
    case 1
    then have "n \<in> {0, 1, 2, 3}" by auto
    then have "spi_read_words B h p n q m d = Some (p, n, q, m, d)" by (auto simp: numeral_2_eq_2 numeral_3_eq_3)
    with less.prems show ?thesis by (auto intro!: exI [of _ 0] simp: overlay_def)
  next
    case (2 k)
    have "4 \<le> length (pending_bytes q (received d))" using less.prems(3) 2 by simp
    then obtain q1 d1 w q2 where 1: "spi_read_refill B h 4 q d = Some (q1, d1)" "dequeue_word q1 = (w, q2)" "queue_ok q2"
      "inv d1" "sent d1 = sent d" "pending_bytes q (received d) = word_bytes w @ pending_bytes q2 (received d1)"
      "suffix (received d1) (received d)"
      using read_word [OF less.prems(1,2)] by blast
    let ?s = "pending_bytes q2 (received d1)"
    have n: "k < n" "k \<le> length ?s" "k \<le> 2 ^ 32" using less.prems(3,4) 1(6) 2 by simp_all
    obtain j q3 d2 where 3: "spi_read_words B h (p + 4) k q2 (write_32 w p m) d1 =
        Some (p + 4 + of_nat j, k - j, q3, overlay (write_32 w p m) (p + 4) (take j ?s), d2)"
      "j \<le> k" "queue_ok q3" "inv d2" "sent d2 = sent d1" "pending_bytes q3 (received d2) = drop j ?s"
      "suffix (received d2) (received d1)"
      using less.IH [OF n(1) 1(4,3) n(2,3), of "p + 4" "write_32 w p m"] by blast
    have t: "take (Suc (Suc (Suc (Suc j)))) (word_bytes w @ ?s) = word_bytes w @ take j ?s"
      "drop (Suc (Suc (Suc (Suc j)))) (word_bytes w @ ?s) = drop j ?s"
      by (simp_all add: word_bytes_def)
    have "overlay (write_32 w p m) (p + 4) (take j ?s) = overlay m p (word_bytes w @ take j ?s)"
      using overlay_append [of "word_bytes w" "take j ?s" m p] 3(2) less.prems(4) 2 by (simp add: overlay_word)
    moreover have "suffix (received d2) (received d)" using 1(7) 3(7) by (rule suffix_order.trans [rotated])
    ultimately show ?thesis
      using 1(1,2,5,6) 2 3 t
      by (intro exI [of _ "Suc (Suc (Suc (Suc j)))"] exI [of _ q3] exI [of _ d2]) (simp add: add_ac)
  qed
qed

lemma read_tail:
  assumes "inv d" "queue_ok q" "n \<le> length (pending_bytes q (received d))" "n \<le> 2 ^ 32"
  shows "\<exists>q' d'. spi_read_tail B h p n q m d = Some (overlay m p (take n (pending_bytes q (received d))), d')
    \<and> queue_ok q' \<and> inv d' \<and> sent d' = sent d
    \<and> pending_bytes q' (received d') = drop n (pending_bytes q (received d)) \<and> suffix (received d') (received d)"
  using assms
proof (induction n arbitrary: p q m d)
  case 0
  then show ?case by (auto intro!: exI [of _ q] simp: overlay_def)
next
  case (Suc n)
  have "pending_bytes q (received d) \<noteq> []" using Suc.prems(3) by auto
  then obtain q1 d1 b q2 where 1: "spi_read_refill B h 1 q d = Some (q1, d1)" "dequeue_byte q1 = (b, q2)" "queue_ok q2"
    "inv d1" "sent d1 = sent d" "pending_bytes q (received d) = b # pending_bytes q2 (received d1)"
    "suffix (received d1) (received d)"
    using read_byte [OF Suc.prems(1,2)] by blast
  let ?s = "pending_bytes q2 (received d1)"
  have n: "n \<le> length ?s" "n \<le> 2 ^ 32" using Suc.prems(3,4) 1(6) by simp_all
  obtain q3 d2 where 2: "spi_read_tail B h (p + 1) n q2 (m(p := b)) d1 =
      Some (overlay (m(p := b)) (p + 1) (take n ?s), d2)"
    "queue_ok q3" "inv d2" "sent d2 = sent d1" "pending_bytes q3 (received d2) = drop n ?s"
    "suffix (received d2) (received d1)"
    using Suc.IH [OF 1(4,3) n, of "p + 1" "m(p := b)"] by blast
  have "overlay (m(p := b)) (p + 1) (take n ?s) = overlay m p (take (Suc n) (b # ?s))"
    using overlay_append [of "[b]" "take n ?s" m p] n Suc.prems(4) by (simp add: overlay_single)
  moreover have "suffix (received d2) (received d)" using 1(7) 2(6) by (rule suffix_order.trans [rotated])
  ultimately show ?case
    using 1(1,2,5,6) 2 by (intro exI [of _ q3] exI [of _ d2]) simp
qed

text \<open>The oldest bytes received end up at the destination, in order, for every alignment and
  length, and exactly the words that hold them are taken from the FIFO.\<close>

lemma fifo_read:
  assumes "inv d" "dst \<noteq> NULL \<or> len = 0" "unat len \<le> 4 * length (received d)"
  shows "\<exists>d'. dif_spi_host_fifo_read B (Some h) dst len m d =
      Some (kDifOk, overlay m dst (take (unat len) (concat (map word_bytes (received d)))), d')
    \<and> inv d' \<and> sent d' = sent d \<and> received d' = drop ((unat len + 3) div 4) (received d)"
proof -
  let ?n = "unat len"
  let ?q = "\<lparr>q_length = 0, q_data = replicate 8 0\<rparr>"
  let ?s = "concat (map word_bytes (received d))"
  have q: "queue_ok ?q" "pending_bytes ?q (received d) = ?s" by (simp_all add: queue_ok_def pending_bytes_def)
  have s: "length ?s = 4 * length (received d)" using length_pending_bytes [OF q(1), of "received d"] q(2) by simp
  have n: "?n \<le> 2 ^ 32" using unat_less_2p [of len] by simp
  obtain k q1 d1 where 1: "spi_read_head B h dst ?n ?q m d = Some (dst + of_nat k, ?n - k, q1, overlay m dst (take k ?s), d1)"
    "k \<le> ?n" "queue_ok q1" "inv d1" "sent d1 = sent d" "pending_bytes q1 (received d1) = drop k ?s" "suffix (received d1) (received d)"
    using read_head [OF assms(1) q(1), of ?n dst m] q(2) s assms(3) n by auto
  have n1: "?n - k \<le> length (pending_bytes q1 (received d1))" using 1(6) s assms(3) by simp
  have n2: "?n - k \<le> 2 ^ 32" using n by simp
  obtain j q2 d2 where 2: "spi_read_words B h (dst + of_nat k) (?n - k) q1 (overlay m dst (take k ?s)) d1 =
      Some (dst + of_nat k + of_nat j, ?n - k - j, q2, overlay (overlay m dst (take k ?s)) (dst + of_nat k) (take j (drop k ?s)), d2)"
    "j \<le> ?n - k" "queue_ok q2" "inv d2" "sent d2 = sent d1" "pending_bytes q2 (received d2) = drop j (drop k ?s)"
    "suffix (received d2) (received d1)"
    using read_words [OF 1(4,3) n1 n2, of "dst + of_nat k" "overlay m dst (take k ?s)"] 1(6) by auto
  have n3: "?n - k - j \<le> length (pending_bytes q2 (received d2))" using 2(6) s assms(3) by simp
  have n4: "?n - k - j \<le> 2 ^ 32" using n by simp
  let ?m2 = "overlay (overlay m dst (take k ?s)) (dst + of_nat k) (take j (drop k ?s))"
  obtain q3 d3 where 3: "spi_read_tail B h (dst + of_nat k + of_nat j) (?n - k - j) q2 ?m2 d2 =
      Some (overlay ?m2 (dst + of_nat k + of_nat j) (take (?n - k - j) (drop j (drop k ?s))), d3)"
    "queue_ok q3" "inv d3" "sent d3 = sent d2" "pending_bytes q3 (received d3) = drop (?n - k - j) (drop j (drop k ?s))"
    "suffix (received d3) (received d2)"
    using read_tail [OF 2(4,3) n3 n4, of "dst + of_nat k + of_nat j" ?m2] 2(6) by auto
  have l: "length (take k ?s) = k" "length (take j (drop k ?s)) = j" using 1(2) 2(2) s assms(3) by simp_all
  have "?m2 = overlay m dst (take k ?s @ take j (drop k ?s))"
    using overlay_append [of "take k ?s" "take j (drop k ?s)" m dst] l 1(2) 2(2) n by simp
  also have "take k ?s @ take j (drop k ?s) = take (k + j) ?s" by (simp add: take_add)
  finally have m2: "?m2 = overlay m dst (take (k + j) ?s)" .
  have "overlay ?m2 (dst + of_nat k + of_nat j) (take (?n - k - j) (drop j (drop k ?s)))
      = overlay m dst (take (k + j) ?s @ take (?n - k - j) (drop (k + j) ?s))"
    using overlay_append [of "take (k + j) ?s" "take (?n - k - j) (drop (k + j) ?s)" m dst] 1(2) 2(2) n s assms(3)
    unfolding m2 by (simp add: add_ac)
  also have "take (k + j) ?s @ take (?n - k - j) (drop (k + j) ?s) = take ?n ?s"
    using 1(2) 2(2) by (simp flip: take_add)
  finally have mem: "overlay ?m2 (dst + of_nat k + of_nat j) (take (?n - k - j) (drop j (drop k ?s))) = overlay m dst (take ?n ?s)" .
  have "suffix (received d3) (received d)" using 1(7) 2(7) 3(6) suffix_order.trans by blast
  then have rest: "received d3 = drop (length (received d) - length (received d3)) (received d)"
    by (auto simp: suffix_def)
  have "length (pending_bytes q3 (received d3)) = 4 * length (received d) - ?n"
    using 3(5) 1(2) 2(2) s by simp
  then have "nat (q_length q3) + 4 * length (received d3) = 4 * length (received d) - ?n"
    using length_pending_bytes [OF 3(2)] by simp
  moreover have "nat (q_length q3) \<le> 3" using 3(2) by (auto simp: queue_ok_def)
  ultimately have "length (received d) - length (received d3) = (?n + 3) div 4" using assms(3) by linarith
  with rest have "received d3 = drop ((?n + 3) div 4) (received d)" by simp
  with 1 2 3 mem assms(2) show ?thesis by (auto simp: dif_spi_host_fifo_read_def)
qed

end

subsection \<open>The hardware\<close>

text \<open>The part of the SPI host that the data passes through: every write to the transmit register
  takes one of the 72 entries of its FIFO (it is lost when there is none), the shift register
  empties \<open>rate\<close> entries between two reads of the status, and the receive register gives the
  oldest word.\<close>

record spi_dev =
  spi_sent :: "u8 list"
  tx_entries :: nat
  spi_received :: "u32 list"

definition spi_status :: "spi_dev \<Rightarrow> u32" where
  "spi_status d = bitfield_field32_write
     (bitfield_field32_write 0 SPI_HOST_STATUS_TXQD_FIELD (of_nat (tx_entries d)))
     SPI_HOST_STATUS_RXQD_FIELD (of_nat (min 64 (length (spi_received d))))"

definition spi_put :: "u8 list \<Rightarrow> spi_dev \<Rightarrow> spi_dev" where
  "spi_put bs d = (if tx_entries d < 72 then d\<lparr>spi_sent := spi_sent d @ bs, tx_entries := Suc (tx_entries d)\<rparr> else d)"

definition spi_read :: "nat \<Rightarrow> u32 \<Rightarrow> spi_dev \<Rightarrow> u32 \<times> spi_dev" where
  "spi_read rate x d =
     (if x = SPI_HOST_STATUS_REG_OFFSET then (spi_status d, d\<lparr>tx_entries := tx_entries d - rate\<rparr>)
      else if x = SPI_HOST_RXDATA_REG_OFFSET then
        (case spi_received d of [] \<Rightarrow> (0, d) | w # ws \<Rightarrow> (w, d\<lparr>spi_received := ws\<rparr>))
      else (0, d))"

definition spi_bus :: "nat \<Rightarrow> dif_spi_host \<Rightarrow> spi_dev bus" where
  "spi_bus rate h =
     (reg_bus (spi_read rate) (\<lambda>x v d. if x = SPI_HOST_TXDATA_REG_OFFSET then spi_put (word_bytes v) d else d)
        (base (base_addr h)))
     \<lparr>bus_write8 := (\<lambda>a v d. if a - base (base_addr h) = SPI_HOST_TXDATA_REG_OFFSET then spi_put [v] d else d)\<rparr>"

lemma run_spi:
  "x mod 4 = 0 \<Longrightarrow> run_state (rd32 (spi_bus rate h) h x) d = spi_read rate x d"
  "run_state (wr32 (spi_bus rate h) h SPI_HOST_TXDATA_REG_OFFSET v) d = ((), spi_put (word_bytes v) d)"
  "run_state (mmio_region_write8 (spi_bus rate h) (base_addr h) SPI_HOST_TXDATA_REG_OFFSET b) d = ((), spi_put [b] d)"
  by (simp_all add: mmio_region_read32_def mmio_region_write32_def mmio_region_write8_def region_word word_of_idem
      spi_bus_def reg_bus_def)

lemma spi_status_fields:
  assumes "tx_entries d \<le> 72"
  shows "bitfield_field32_read (spi_status d) SPI_HOST_STATUS_TXQD_FIELD = 72 \<longleftrightarrow> tx_entries d = 72"
    "bitfield_field32_read (spi_status d) SPI_HOST_STATUS_RXQD_FIELD = 0 \<longleftrightarrow> spi_received d = []"
proof -
  have m: "of_nat n AND (0xff :: u32) = of_nat n" if "n < 256" for n
    using and_mask_id_iff [of "of_nat n :: u32" 8] that by (simp add: mask_eq_exp_minus_1 unat_of_nat)
  have u: "unat (of_nat n :: u32) = n" if "n < 256" for n using that by (simp add: unat_of_nat)
  have r: "bitfield_field32_read (spi_status d) SPI_HOST_STATUS_TXQD_FIELD = of_nat (tx_entries d)"
    "bitfield_field32_read (spi_status d) SPI_HOST_STATUS_RXQD_FIELD = of_nat (min 64 (length (spi_received d)))"
    using m [of "tx_entries d"] m [of "min 64 (length (spi_received d))"] assms
    by (simp_all add: spi_status_def read_write_simps)
  show "bitfield_field32_read (spi_status d) SPI_HOST_STATUS_TXQD_FIELD = 72 \<longleftrightarrow> tx_entries d = 72"
    using u [of "tx_entries d"] assms by (simp add: r word_unat_eq_iff)
  show "bitfield_field32_read (spi_status d) SPI_HOST_STATUS_RXQD_FIELD = 0 \<longleftrightarrow> spi_received d = []"
    using u [of "min 64 (length (spi_received d))"]
    by (cases "spi_received d") (simp_all add: r(2) word_unat_eq_iff)
qed

interpretation spi: spi_fifos "spi_bus (Suc rate) h" h "\<lambda>d. tx_entries d \<le> 72" "\<lambda>d. tx_entries d < 72"
    spi_sent spi_received for rate h
proof unfold_locales
  fix d :: spi_dev assume inv: "tx_entries d \<le> 72"
  let ?next = "\<lambda>d. d\<lparr>tx_entries := tx_entries d - Suc rate\<rparr>"
  have st: "run_state (do {
       reg \<leftarrow> rd32 (spi_bus (Suc rate) h) h SPI_HOST_STATUS_REG_OFFSET;
       let txqd = bitfield_field32_read reg SPI_HOST_STATUS_TXQD_FIELD;
       ret (txqd = SPI_HOST_PARAM_TX_DEPTH)
     }) e = (tx_entries e = 72, ?next e)" if "tx_entries e \<le> 72" for e
    using that by (simp add: run_spi spi_read_def spi_status_fields)
  show "\<exists>d'. wait_tx_fifo (spi_bus (Suc rate) h) h d = Some d' \<and> tx_entries d' \<le> 72 \<and> tx_entries d' < 72
      \<and> spi_sent d' = spi_sent d \<and> spi_received d' = spi_received d"
  proof (cases "tx_entries d = 72")
    case False
    have 1: "run_state (do {
       reg \<leftarrow> rd32 (spi_bus (Suc rate) h) h SPI_HOST_STATUS_REG_OFFSET;
       let txqd = bitfield_field32_read reg SPI_HOST_STATUS_TXQD_FIELD;
       ret (txqd = SPI_HOST_PARAM_TX_DEPTH)
     }) d = (False, ?next d)" using st [OF inv] False by simp
    show ?thesis unfolding wait_tx_fifo_def wait_while_done [OF 1]
      using inv False by (intro exI [of _ "?next d"]) auto
  next
    case True
    have n: "tx_entries (?next d) \<le> 72" "tx_entries (?next d) \<noteq> 72" using inv by auto
    have 1: "run_state (do {
       reg \<leftarrow> rd32 (spi_bus (Suc rate) h) h SPI_HOST_STATUS_REG_OFFSET;
       let txqd = bitfield_field32_read reg SPI_HOST_STATUS_TXQD_FIELD;
       ret (txqd = SPI_HOST_PARAM_TX_DEPTH)
     }) d = (True, ?next d)" using st [OF inv] True by simp
    have 2: "run_state (do {
       reg \<leftarrow> rd32 (spi_bus (Suc rate) h) h SPI_HOST_STATUS_REG_OFFSET;
       let txqd = bitfield_field32_read reg SPI_HOST_STATUS_TXQD_FIELD;
       ret (txqd = SPI_HOST_PARAM_TX_DEPTH)
     }) (?next d) = (False, ?next (?next d))" using st [OF n(1)] n(2) by simp
    show ?thesis unfolding wait_tx_fifo_def wait_while_again [OF 1] wait_while_done [OF 2]
      using inv by (intro exI [of _ "?next (?next d)"]) auto
  qed
next
  fix d :: spi_dev assume inv: "tx_entries d \<le> 72" and ne: "spi_received d \<noteq> []"
  have "run_state (do {
     reg \<leftarrow> rd32 (spi_bus (Suc rate) h) h SPI_HOST_STATUS_REG_OFFSET;
     let rxqd = bitfield_field32_read reg SPI_HOST_STATUS_RXQD_FIELD;
     ret (rxqd = 0)
   }) d = (False, d\<lparr>tx_entries := tx_entries d - Suc rate\<rparr>)"
    using inv ne by (simp add: run_spi spi_read_def spi_status_fields)
  from wait_while_done [OF this] show "\<exists>d'. wait_rx_fifo (spi_bus (Suc rate) h) h d = Some d' \<and> tx_entries d' \<le> 72
      \<and> spi_sent d' = spi_sent d \<and> spi_received d' = spi_received d"
    unfolding wait_rx_fifo_def using inv by (intro exI [of _ "d\<lparr>tx_entries := tx_entries d - Suc rate\<rparr>"]) auto
qed (auto simp: run_spi spi_put_def spi_read_def)

text \<open>C25: Transmitting: on hardware that empties its FIFO, writing a buffer of any alignment and
  length returns, and exactly its bytes, in the order of their addresses, follow what was
  transmitted before, whatever mix of byte and word accesses its alignment requires; nothing is
  lost when the FIFO is full, and the receive side is not disturbed.\<close>

theorem spi_fifo_write_in_order:
  assumes "tx_entries d \<le> 72" "src \<noteq> NULL \<or> len = 0"
  shows "\<exists>d'. dif_spi_host_fifo_write (spi_bus (Suc rate) h) (Some h) m src len d = Some (kDifOk, d')
    \<and> spi_sent d' = spi_sent d @ map (\<lambda>k. m (src + of_nat k)) [0..<unat len]
    \<and> spi_received d' = spi_received d"
  using spi.fifo_write [OF assms, of rate h m] by (auto simp: buffer_bytes_def)

lemma spi_fifo_write_in_order_witness:
  "\<exists>d'. dif_spi_host_fifo_write (spi_bus (Suc 0) example_handle) (Some example_handle)
      (\<lambda>a. ucast a) 0x203 6 \<lparr>spi_sent = [9], tx_entries = 72, spi_received = []\<rparr> = Some (kDifOk, d')
    \<and> spi_sent d' = [9, 3, 4, 5, 6, 7, 8]"
  using spi_fifo_write_in_order [where d = "\<lparr>spi_sent = [9], tx_entries = 72, spi_received = []\<rparr>"
      and src = "0x203" and len = 6 and rate = 0 and h = example_handle and m = "\<lambda>a. ucast a"]
  by (auto simp: upt_conv_Cons)

text \<open>C26: Receiving: when the words that hold \<open>len\<close> bytes have arrived, the read returns with the
  oldest \<open>len\<close> received bytes at the destination, in order, for every alignment and length, with
  no other byte of memory changed, and exactly the words that hold them taken from the FIFO.\<close>

theorem spi_fifo_read_in_order:
  assumes "tx_entries d \<le> 72" "dst \<noteq> NULL \<or> len = 0" "unat len \<le> 4 * length (spi_received d)"
  shows "\<exists>d'. dif_spi_host_fifo_read (spi_bus (Suc rate) h) (Some h) dst len m d =
      Some (kDifOk, overlay m dst (take (unat len) (concat (map word_bytes (spi_received d)))), d')
    \<and> spi_received d' = drop ((unat len + 3) div 4) (spi_received d) \<and> spi_sent d' = spi_sent d"
  using spi.fifo_read [OF assms, of rate h m] by auto

lemma spi_fifo_read_in_order_witness:
  "\<exists>m' d'. dif_spi_host_fifo_read (spi_bus (Suc 0) example_handle)
      (Some example_handle) 0x203 6 (\<lambda>_. 0)
      \<lparr>spi_sent = [], tx_entries = 0, spi_received = [0x04030201, 0x08070605, 0xcc]\<rparr> = Some (kDifOk, m', d')
    \<and> map m' [0x202, 0x203, 0x204, 0x208, 0x209] = [0, 1, 2, 6, 0] \<and> spi_received d' = [0xcc]"
proof -
  have unat_neg1: "unat (- 1 :: u32) = 4294967295" by (simp add: unsigned_minus_1_eq_mask mask_eq_exp_minus_1)
  have b: "word_bytes 0x04030201 = [1, 2, 3, 4]" "word_bytes 0x08070605 = [5, 6, 7, 8]" by code_simp+
  show ?thesis
    using spi_fifo_read_in_order [where d = "\<lparr>spi_sent = [], tx_entries = 0, spi_received = [0x04030201, 0x08070605, 0xcc]\<rparr>"
        and dst = "0x203" and len = 6 and rate = 0 and h = example_handle and m = "\<lambda>_. 0"]
    by (auto simp: b overlay_def Let_def unat_neg1)
qed

end
