(* ===== verification/I2c.thy ===== *)
theory I2c
  imports DifBase
begin

section \<open>I2C driver\<close>

text \<open>
  \<^verbatim>\<open>sw/device/lib/dif/dif_i2c.c\<close>: the computation of the bus timings from the speed class and
  the clock, with the C integer types at their widths, and the operations of both the host and
  the target side. A division by a zero clock period is undefined in C; the words give zero.
\<close>

type_synonym dif_i2c = dif_handle
type_synonym dif_i2c_level = u16

datatype dif_i2c_speed =
    kDifI2cSpeedStandard | kDifI2cSpeedFast | kDifI2cSpeedFastPlus | kDifI2cSpeedOther u32

record dif_i2c_timing_config =
  lowest_target_device_speed :: dif_i2c_speed
  clock_period_nanos :: u32
  sda_rise_nanos :: u32
  sda_fall_nanos :: u32
  scl_period_nanos :: u32

record dif_i2c_config =
  scl_time_high_cycles :: u16
  scl_time_low_cycles :: u16
  rise_cycles :: u16
  fall_cycles :: u16
  start_signal_setup_cycles :: u16
  start_signal_hold_cycles :: u16
  data_signal_setup_cycles :: u16
  data_signal_hold_cycles :: u16
  stop_signal_setup_cycles :: u16
  stop_signal_hold_cycles :: u16

subsection \<open>Timing\<close>

definition round_up_divide :: "u32 \<Rightarrow> u32 \<Rightarrow> u16" where
  "round_up_divide a b = (let result = ((a - 1) div b) + 1 in ucast result)"

definition spin_while_status_bit :: "'d bus \<Rightarrow> dif_i2c \<Rightarrow> u32 \<Rightarrow> bool \<Rightarrow> 'd \<Rightarrow> 'd option" where
  "spin_while_status_bit B i2c b wanted = wait_while (do {
     reg \<leftarrow> rd32 B i2c I2C_STATUS_REG_OFFSET;
     ret (bitfield_bit32_read reg b = wanted)
   })"

definition default_timing_for_speed :: "dif_i2c_speed \<Rightarrow> u32 \<Rightarrow> dif_i2c_config" where
  "default_timing_for_speed speed clock_period = (case speed of
     kDifI2cSpeedStandard \<Rightarrow> \<lparr>
       scl_time_high_cycles = round_up_divide 4000 clock_period,
       scl_time_low_cycles = round_up_divide 4700 clock_period,
       rise_cycles = 0,
       fall_cycles = 0,
       start_signal_setup_cycles = round_up_divide 4700 clock_period,
       start_signal_hold_cycles = round_up_divide 4000 clock_period,
       data_signal_setup_cycles = round_up_divide 250 clock_period,
       data_signal_hold_cycles = 1,
       stop_signal_setup_cycles = round_up_divide 4000 clock_period,
       stop_signal_hold_cycles = round_up_divide 4700 clock_period\<rparr>
   | kDifI2cSpeedFast \<Rightarrow> \<lparr>
       scl_time_high_cycles = round_up_divide 600 clock_period,
       scl_time_low_cycles = round_up_divide 1300 clock_period,
       rise_cycles = 0,
       fall_cycles = 0,
       start_signal_setup_cycles = round_up_divide 600 clock_period,
       start_signal_hold_cycles = round_up_divide 600 clock_period,
       data_signal_setup_cycles = round_up_divide 100 clock_period,
       data_signal_hold_cycles = 1,
       stop_signal_setup_cycles = round_up_divide 600 clock_period,
       stop_signal_hold_cycles = round_up_divide 1300 clock_period\<rparr>
   | kDifI2cSpeedFastPlus \<Rightarrow> \<lparr>
       scl_time_high_cycles = round_up_divide 260 clock_period,
       scl_time_low_cycles = round_up_divide 500 clock_period,
       rise_cycles = 0,
       fall_cycles = 0,
       start_signal_setup_cycles = round_up_divide 260 clock_period,
       start_signal_hold_cycles = round_up_divide 260 clock_period,
       data_signal_setup_cycles = round_up_divide 50 clock_period,
       data_signal_hold_cycles = 1,
       stop_signal_setup_cycles = round_up_divide 260 clock_period,
       stop_signal_hold_cycles = round_up_divide 500 clock_period\<rparr>
   | kDifI2cSpeedOther _ \<Rightarrow> \<lparr>
       scl_time_high_cycles = 0, scl_time_low_cycles = 0, rise_cycles = 0, fall_cycles = 0,
       start_signal_setup_cycles = 0, start_signal_hold_cycles = 0,
       data_signal_setup_cycles = 0, data_signal_hold_cycles = 0,
       stop_signal_setup_cycles = 0, stop_signal_hold_cycles = 0\<rparr>)"

definition kNanosPerKBaud :: u32 where
  "kNanosPerKBaud = 1000000"

definition i2c_speed_khz :: "dif_i2c_speed \<Rightarrow> u32 option" where
  "i2c_speed_khz speed = (case speed of
     kDifI2cSpeedStandard \<Rightarrow> Some 100
   | kDifI2cSpeedFast \<Rightarrow> Some 400
   | kDifI2cSpeedFastPlus \<Rightarrow> Some 1000
   | kDifI2cSpeedOther _ \<Rightarrow> None)"

text \<open>The lengthened high time is an \<open>int32_t\<close> difference of four \<open>uint16_t\<close>, which cannot
  overflow. The out-of-range return leaves the fields that were already assigned.\<close>

definition dif_i2c_compute_timing ::
    "dif_i2c_timing_config \<Rightarrow> dif_i2c_config ptr \<Rightarrow> dif_result \<times> dif_i2c_config ptr" where
  "dif_i2c_compute_timing timing_config config = (case (config, i2c_speed_khz (lowest_target_device_speed timing_config)) of
     (Some _, Some khz) \<Rightarrow>
       let period = clock_period_nanos timing_config;
           c = default_timing_for_speed (lowest_target_device_speed timing_config) period;
           c = c\<lparr>rise_cycles := round_up_divide (sda_rise_nanos timing_config) period\<rparr>;
           c = c\<lparr>fall_cycles := round_up_divide (sda_fall_nanos timing_config) period\<rparr>;
           scl_period = scl_period_nanos timing_config;
           slowest_scl_period = kNanosPerKBaud div khz;
           scl_period = (if scl_period < slowest_scl_period then slowest_scl_period else scl_period);
           scl_period_cycles = round_up_divide scl_period period;
           lengthened_high_cycles = uint scl_period_cycles - uint (scl_time_low_cycles c)
             - uint (rise_cycles c) - uint (fall_cycles c)
       in if lengthened_high_cycles > uint (scl_time_high_cycles c)
            \<and> (lengthened_high_cycles < 0 \<or> lengthened_high_cycles > 65535)
          then (kDifOutOfRange, Some c)
          else
            let c = (if lengthened_high_cycles > uint (scl_time_high_cycles c)
                  then c\<lparr>scl_time_high_cycles := of_int lengthened_high_cycles\<rparr> else c);
                c = (if scl_time_high_cycles c < 4 then c\<lparr>scl_time_high_cycles := 4\<rparr> else c);
                c = (if scl_time_low_cycles c < 4 then c\<lparr>scl_time_low_cycles := 4\<rparr> else c)
            in (kDifOk, Some c)
   | _ \<Rightarrow> (kDifBadArg, config))"

definition dif_i2c_configure :: "'d bus \<Rightarrow> dif_i2c ptr \<Rightarrow> dif_i2c_config \<Rightarrow> ('d, dif_result) state" where
  "dif_i2c_configure B i2c config = (case i2c of None \<Rightarrow> ret kDifBadArg | Some i2c \<Rightarrow> do {
     let timing0 = bitfield_field32_write 0 I2C_TIMING0_THIGH_FIELD (ucast (scl_time_high_cycles config));
     let timing0 = bitfield_field32_write timing0 I2C_TIMING0_TLOW_FIELD (ucast (scl_time_low_cycles config));
     wr32 B i2c I2C_TIMING0_REG_OFFSET timing0;
     let timing1 = bitfield_field32_write 0 I2C_TIMING1_T_R_FIELD (ucast (rise_cycles config));
     let timing1 = bitfield_field32_write timing1 I2C_TIMING1_T_F_FIELD (ucast (fall_cycles config));
     wr32 B i2c I2C_TIMING1_REG_OFFSET timing1;
     let timing2 = bitfield_field32_write 0 I2C_TIMING2_TSU_STA_FIELD (ucast (start_signal_setup_cycles config));
     let timing2 = bitfield_field32_write timing2 I2C_TIMING2_THD_STA_FIELD (ucast (start_signal_hold_cycles config));
     wr32 B i2c I2C_TIMING2_REG_OFFSET timing2;
     let timing3 = bitfield_field32_write 0 I2C_TIMING3_TSU_DAT_FIELD (ucast (data_signal_setup_cycles config));
     let timing3 = bitfield_field32_write timing3 I2C_TIMING3_THD_DAT_FIELD (ucast (data_signal_hold_cycles config));
     wr32 B i2c I2C_TIMING3_REG_OFFSET timing3;
     let timing4 = bitfield_field32_write 0 I2C_TIMING4_TSU_STO_FIELD (ucast (stop_signal_setup_cycles config));
     let timing4 = bitfield_field32_write timing4 I2C_TIMING4_T_BUF_FIELD (ucast (stop_signal_hold_cycles config));
     wr32 B i2c I2C_TIMING4_REG_OFFSET timing4;
     ret kDifOk
   })"

subsection \<open>Status and events\<close>

record dif_i2c_status =
  enable_host :: bool
  enable_target :: bool
  line_loopback :: bool
  ack_control_en :: bool
  fmt_fifo_full :: bool
  rx_fifo_full :: bool
  fmt_fifo_empty :: bool
  rx_fifo_empty :: bool
  host_idle :: bool
  target_idle :: bool
  tx_fifo_full :: bool
  acq_fifo_full :: bool
  tx_fifo_empty :: bool
  acq_fifo_empty :: bool
  ack_ctrl_stretch :: bool

definition dif_i2c_get_status ::
    "'d bus \<Rightarrow> dif_i2c ptr \<Rightarrow> dif_i2c_status ptr \<Rightarrow> ('d, dif_result \<times> dif_i2c_status ptr) state" where
  "dif_i2c_get_status B i2c status = (case (i2c, status) of
     (Some i2c, Some _) \<Rightarrow> do {
       ctrl \<leftarrow> rd32 B i2c I2C_CTRL_REG_OFFSET;
       reg \<leftarrow> rd32 B i2c I2C_STATUS_REG_OFFSET;
       ret (kDifOk, Some \<lparr>
         enable_host = bitfield_bit32_read ctrl I2C_CTRL_ENABLEHOST_BIT,
         enable_target = bitfield_bit32_read ctrl I2C_CTRL_ENABLETARGET_BIT,
         line_loopback = bitfield_bit32_read ctrl I2C_CTRL_LLPBK_BIT,
         ack_control_en = bitfield_bit32_read ctrl I2C_CTRL_ACK_CTRL_EN_BIT,
         fmt_fifo_full = bitfield_bit32_read reg I2C_STATUS_FMTFULL_BIT,
         rx_fifo_full = bitfield_bit32_read reg I2C_STATUS_RXFULL_BIT,
         fmt_fifo_empty = bitfield_bit32_read reg I2C_STATUS_FMTEMPTY_BIT,
         rx_fifo_empty = bitfield_bit32_read reg I2C_STATUS_RXEMPTY_BIT,
         host_idle = bitfield_bit32_read reg I2C_STATUS_HOSTIDLE_BIT,
         target_idle = bitfield_bit32_read reg I2C_STATUS_TARGETIDLE_BIT,
         tx_fifo_full = bitfield_bit32_read reg I2C_STATUS_TXFULL_BIT,
         acq_fifo_full = bitfield_bit32_read reg I2C_STATUS_ACQFULL_BIT,
         tx_fifo_empty = bitfield_bit32_read reg I2C_STATUS_TXEMPTY_BIT,
         acq_fifo_empty = bitfield_bit32_read reg I2C_STATUS_ACQEMPTY_BIT,
         ack_ctrl_stretch = bitfield_bit32_read reg I2C_STATUS_ACK_CTRL_STRETCH_BIT\<rparr>)
     }
   | _ \<Rightarrow> ret (kDifBadArg, status))"

record dif_i2c_controller_halt_events =
  nack_received :: bool
  unhandled_nack_timeout :: bool
  ctrl_bus_timeout :: bool
  ctrl_arbitration_lost :: bool

definition dif_i2c_get_controller_halt_events :: "'d bus \<Rightarrow> dif_i2c ptr \<Rightarrow> dif_i2c_controller_halt_events ptr
    \<Rightarrow> ('d, dif_result \<times> dif_i2c_controller_halt_events ptr) state" where
  "dif_i2c_get_controller_halt_events B i2c events = (case (i2c, events) of
     (Some i2c, Some _) \<Rightarrow> do {
       reg \<leftarrow> rd32 B i2c I2C_CONTROLLER_EVENTS_REG_OFFSET;
       ret (kDifOk, Some \<lparr>
         nack_received = bitfield_bit32_read reg I2C_CONTROLLER_EVENTS_NACK_BIT,
         unhandled_nack_timeout = bitfield_bit32_read reg I2C_CONTROLLER_EVENTS_UNHANDLED_NACK_TIMEOUT_BIT,
         ctrl_bus_timeout = bitfield_bit32_read reg I2C_CONTROLLER_EVENTS_BUS_TIMEOUT_BIT,
         ctrl_arbitration_lost = bitfield_bit32_read reg I2C_CONTROLLER_EVENTS_ARBITRATION_LOST_BIT\<rparr>)
     }
   | _ \<Rightarrow> ret (kDifBadArg, events))"

definition dif_i2c_clear_controller_halt_events ::
    "'d bus \<Rightarrow> dif_i2c ptr \<Rightarrow> dif_i2c_controller_halt_events \<Rightarrow> ('d, dif_result) state" where
  "dif_i2c_clear_controller_halt_events B i2c events = (case i2c of None \<Rightarrow> ret kDifBadArg | Some i2c \<Rightarrow> do {
     let reg = 0;
     let reg = bitfield_bit32_write reg I2C_CONTROLLER_EVENTS_NACK_BIT (nack_received events);
     let reg = bitfield_bit32_write reg I2C_CONTROLLER_EVENTS_UNHANDLED_NACK_TIMEOUT_BIT
       (unhandled_nack_timeout events);
     let reg = bitfield_bit32_write reg I2C_CONTROLLER_EVENTS_BUS_TIMEOUT_BIT (ctrl_bus_timeout events);
     let reg = bitfield_bit32_write reg I2C_CONTROLLER_EVENTS_ARBITRATION_LOST_BIT
       (ctrl_arbitration_lost events);
     wr32 B i2c I2C_CONTROLLER_EVENTS_REG_OFFSET reg;
     ret kDifOk
   })"

record dif_i2c_target_tx_halt_events =
  tx_pending :: bool
  target_bus_timeout :: bool
  target_arbitration_lost :: bool

definition dif_i2c_get_target_tx_halt_events :: "'d bus \<Rightarrow> dif_i2c ptr \<Rightarrow> dif_i2c_target_tx_halt_events ptr
    \<Rightarrow> ('d, dif_result \<times> dif_i2c_target_tx_halt_events ptr) state" where
  "dif_i2c_get_target_tx_halt_events B i2c events = (case (i2c, events) of
     (Some i2c, Some _) \<Rightarrow> do {
       reg \<leftarrow> rd32 B i2c I2C_TARGET_EVENTS_REG_OFFSET;
       ret (kDifOk, Some \<lparr>
         tx_pending = bitfield_bit32_read reg I2C_TARGET_EVENTS_TX_PENDING_BIT,
         target_bus_timeout = bitfield_bit32_read reg I2C_TARGET_EVENTS_BUS_TIMEOUT_BIT,
         target_arbitration_lost = bitfield_bit32_read reg I2C_TARGET_EVENTS_ARBITRATION_LOST_BIT\<rparr>)
     }
   | _ \<Rightarrow> ret (kDifBadArg, events))"

definition dif_i2c_clear_target_tx_halt_events ::
    "'d bus \<Rightarrow> dif_i2c ptr \<Rightarrow> dif_i2c_target_tx_halt_events \<Rightarrow> ('d, dif_result) state" where
  "dif_i2c_clear_target_tx_halt_events B i2c events = (case i2c of None \<Rightarrow> ret kDifBadArg | Some i2c \<Rightarrow> do {
     let reg = 0;
     let reg = bitfield_bit32_write reg I2C_TARGET_EVENTS_TX_PENDING_BIT (tx_pending events);
     let reg = bitfield_bit32_write reg I2C_TARGET_EVENTS_BUS_TIMEOUT_BIT (target_bus_timeout events);
     let reg = bitfield_bit32_write reg I2C_TARGET_EVENTS_ARBITRATION_LOST_BIT (target_arbitration_lost events);
     wr32 B i2c I2C_TARGET_EVENTS_REG_OFFSET reg;
     ret kDifOk
   })"

subsection \<open>FIFO control\<close>

definition dif_i2c_reset_rx_fifo :: "'d bus \<Rightarrow> dif_i2c ptr \<Rightarrow> ('d, dif_result) state" where
  "dif_i2c_reset_rx_fifo B i2c = (case i2c of None \<Rightarrow> ret kDifBadArg | Some i2c \<Rightarrow> do {
     reg \<leftarrow> rd32 B i2c I2C_FIFO_CTRL_REG_OFFSET;
     let reg = bitfield_bit32_write reg I2C_FIFO_CTRL_RXRST_BIT True;
     wr32 B i2c I2C_FIFO_CTRL_REG_OFFSET reg;
     ret kDifOk
   })"

definition dif_i2c_reset_fmt_fifo :: "'d bus \<Rightarrow> dif_i2c ptr \<Rightarrow> ('d, dif_result) state" where
  "dif_i2c_reset_fmt_fifo B i2c = (case i2c of None \<Rightarrow> ret kDifBadArg | Some i2c \<Rightarrow> do {
     reg \<leftarrow> rd32 B i2c I2C_FIFO_CTRL_REG_OFFSET;
     let reg = bitfield_bit32_write reg I2C_FIFO_CTRL_FMTRST_BIT True;
     wr32 B i2c I2C_FIFO_CTRL_REG_OFFSET reg;
     ret kDifOk
   })"

definition dif_i2c_reset_tx_fifo :: "'d bus \<Rightarrow> dif_i2c ptr \<Rightarrow> ('d, dif_result) state" where
  "dif_i2c_reset_tx_fifo B i2c = (case i2c of None \<Rightarrow> ret kDifBadArg | Some i2c \<Rightarrow> do {
     reg \<leftarrow> rd32 B i2c I2C_FIFO_CTRL_REG_OFFSET;
     let reg = bitfield_bit32_write reg I2C_FIFO_CTRL_TXRST_BIT True;
     wr32 B i2c I2C_FIFO_CTRL_REG_OFFSET reg;
     ret kDifOk
   })"

definition dif_i2c_reset_acq_fifo :: "'d bus \<Rightarrow> dif_i2c ptr \<Rightarrow> ('d, dif_result) state" where
  "dif_i2c_reset_acq_fifo B i2c = (case i2c of None \<Rightarrow> ret kDifBadArg | Some i2c \<Rightarrow> do {
     reg \<leftarrow> rd32 B i2c I2C_FIFO_CTRL_REG_OFFSET;
     let reg = bitfield_bit32_write reg I2C_FIFO_CTRL_ACQRST_BIT True;
     wr32 B i2c I2C_FIFO_CTRL_REG_OFFSET reg;
     ret kDifOk
   })"

definition dif_i2c_set_host_watermarks ::
    "'d bus \<Rightarrow> dif_i2c ptr \<Rightarrow> dif_i2c_level \<Rightarrow> dif_i2c_level \<Rightarrow> ('d, dif_result) state" where
  "dif_i2c_set_host_watermarks B i2c rx_level fmt_level = (case i2c of None \<Rightarrow> ret kDifBadArg | Some i2c \<Rightarrow>
     if ucast rx_level > I2C_PARAM_FIFO_DEPTH \<or> ucast fmt_level \<ge> I2C_PARAM_FIFO_DEPTH then ret kDifBadArg
     else do {
       ctrl_value \<leftarrow> rd32 B i2c I2C_HOST_FIFO_CONFIG_REG_OFFSET;
       let ctrl_value = bitfield_field32_write ctrl_value I2C_HOST_FIFO_CONFIG_RX_THRESH_FIELD (ucast rx_level);
       let ctrl_value = bitfield_field32_write ctrl_value I2C_HOST_FIFO_CONFIG_FMT_THRESH_FIELD (ucast fmt_level);
       wr32 B i2c I2C_HOST_FIFO_CONFIG_REG_OFFSET ctrl_value;
       ret kDifOk
     })"

definition dif_i2c_set_target_watermarks ::
    "'d bus \<Rightarrow> dif_i2c ptr \<Rightarrow> dif_i2c_level \<Rightarrow> dif_i2c_level \<Rightarrow> ('d, dif_result) state" where
  "dif_i2c_set_target_watermarks B i2c tx_level acq_level = (case i2c of None \<Rightarrow> ret kDifBadArg | Some i2c \<Rightarrow>
     if ucast acq_level > I2C_PARAM_ACQ_FIFO_DEPTH \<or> ucast tx_level \<ge> I2C_PARAM_FIFO_DEPTH then ret kDifBadArg
     else do {
       ctrl_value \<leftarrow> rd32 B i2c I2C_TARGET_FIFO_CONFIG_REG_OFFSET;
       let ctrl_value = bitfield_field32_write ctrl_value I2C_TARGET_FIFO_CONFIG_TX_THRESH_FIELD (ucast tx_level);
       let ctrl_value = bitfield_field32_write ctrl_value I2C_TARGET_FIFO_CONFIG_ACQ_THRESH_FIELD (ucast acq_level);
       wr32 B i2c I2C_TARGET_FIFO_CONFIG_REG_OFFSET ctrl_value;
       ret kDifOk
     })"

subsection \<open>Enables\<close>

definition dif_i2c_host_set_enabled ::
    "'d bus \<Rightarrow> dif_i2c ptr \<Rightarrow> dif_toggle \<Rightarrow> ('d, dif_result) state" where
  "dif_i2c_host_set_enabled B i2c enabled = (case i2c of None \<Rightarrow> ret kDifBadArg | Some i2c \<Rightarrow>
     if \<not> dif_is_valid_toggle enabled then ret kDifBadArg
     else do {
       let flag = dif_toggle_to_bool enabled;
       reg \<leftarrow> rd32 B i2c I2C_CTRL_REG_OFFSET;
       let reg = bitfield_bit32_write reg I2C_CTRL_ENABLEHOST_BIT flag;
       wr32 B i2c I2C_CTRL_REG_OFFSET reg;
       ret kDifOk
     })"

definition dif_i2c_device_set_enabled ::
    "'d bus \<Rightarrow> dif_i2c ptr \<Rightarrow> dif_toggle \<Rightarrow> ('d, dif_result) state" where
  "dif_i2c_device_set_enabled B i2c enabled = (case i2c of None \<Rightarrow> ret kDifBadArg | Some i2c \<Rightarrow>
     if \<not> dif_is_valid_toggle enabled then ret kDifBadArg
     else do {
       let flag = dif_toggle_to_bool enabled;
       reg \<leftarrow> rd32 B i2c I2C_CTRL_REG_OFFSET;
       let reg = bitfield_bit32_write reg I2C_CTRL_ENABLETARGET_BIT flag;
       wr32 B i2c I2C_CTRL_REG_OFFSET reg;
       ret kDifOk
     })"

definition dif_i2c_line_loopback_set_enabled ::
    "'d bus \<Rightarrow> dif_i2c ptr \<Rightarrow> dif_toggle \<Rightarrow> ('d, dif_result) state" where
  "dif_i2c_line_loopback_set_enabled B i2c enabled = (case i2c of None \<Rightarrow> ret kDifBadArg | Some i2c \<Rightarrow>
     if \<not> dif_is_valid_toggle enabled then ret kDifBadArg
     else do {
       let flag = dif_toggle_to_bool enabled;
       reg \<leftarrow> rd32 B i2c I2C_CTRL_REG_OFFSET;
       let reg = bitfield_bit32_write reg I2C_CTRL_LLPBK_BIT flag;
       wr32 B i2c I2C_CTRL_REG_OFFSET reg;
       ret kDifOk
     })"

definition dif_i2c_addr_nack_set_enabled ::
    "'d bus \<Rightarrow> dif_i2c ptr \<Rightarrow> dif_toggle \<Rightarrow> ('d, dif_result) state" where
  "dif_i2c_addr_nack_set_enabled B i2c enabled = (case i2c of None \<Rightarrow> ret kDifBadArg | Some i2c \<Rightarrow>
     if \<not> dif_is_valid_toggle enabled then ret kDifBadArg
     else do {
       let flag = dif_toggle_to_bool enabled;
       reg \<leftarrow> rd32 B i2c I2C_CTRL_REG_OFFSET;
       let reg = bitfield_bit32_write reg I2C_CTRL_NACK_ADDR_AFTER_TIMEOUT_BIT flag;
       wr32 B i2c I2C_CTRL_REG_OFFSET reg;
       ret kDifOk
     })"

definition dif_i2c_ack_ctrl_set_enabled ::
    "'d bus \<Rightarrow> dif_i2c ptr \<Rightarrow> dif_toggle \<Rightarrow> ('d, dif_result) state" where
  "dif_i2c_ack_ctrl_set_enabled B i2c enabled = (case i2c of None \<Rightarrow> ret kDifBadArg | Some i2c \<Rightarrow>
     if \<not> dif_is_valid_toggle enabled then ret kDifBadArg
     else do {
       let flag = dif_toggle_to_bool enabled;
       reg \<leftarrow> rd32 B i2c I2C_CTRL_REG_OFFSET;
       let reg = bitfield_bit32_write reg I2C_CTRL_ACK_CTRL_EN_BIT flag;
       wr32 B i2c I2C_CTRL_REG_OFFSET reg;
       ret kDifOk
     })"

definition dif_i2c_multi_controller_monitor_set_enabled ::
    "'d bus \<Rightarrow> dif_i2c ptr \<Rightarrow> dif_toggle \<Rightarrow> ('d, dif_result) state" where
  "dif_i2c_multi_controller_monitor_set_enabled B i2c enabled = (case i2c of None \<Rightarrow> ret kDifBadArg | Some i2c \<Rightarrow>
     if \<not> dif_is_valid_toggle enabled then ret kDifBadArg
     else do {
       let flag = dif_toggle_to_bool enabled;
       reg \<leftarrow> rd32 B i2c I2C_CTRL_REG_OFFSET;
       let reg = bitfield_bit32_write reg I2C_CTRL_MULTI_CONTROLLER_MONITOR_EN_BIT flag;
       wr32 B i2c I2C_CTRL_REG_OFFSET reg;
       ret kDifOk
     })"

definition dif_i2c_target_tx_stretch_ctrl_set_enabled ::
    "'d bus \<Rightarrow> dif_i2c ptr \<Rightarrow> dif_toggle \<Rightarrow> ('d, dif_result) state" where
  "dif_i2c_target_tx_stretch_ctrl_set_enabled B i2c enabled = (case i2c of None \<Rightarrow> ret kDifBadArg | Some i2c \<Rightarrow>
     if \<not> dif_is_valid_toggle enabled then ret kDifBadArg
     else do {
       let flag = dif_toggle_to_bool enabled;
       reg \<leftarrow> rd32 B i2c I2C_CTRL_REG_OFFSET;
       let reg = bitfield_bit32_write reg I2C_CTRL_TX_STRETCH_CTRL_EN_BIT flag;
       wr32 B i2c I2C_CTRL_REG_OFFSET reg;
       ret kDifOk
     })"

definition dif_i2c_override_set_enabled ::
    "'d bus \<Rightarrow> dif_i2c ptr \<Rightarrow> dif_toggle \<Rightarrow> ('d, dif_result) state" where
  "dif_i2c_override_set_enabled B i2c enabled = (case i2c of None \<Rightarrow> ret kDifBadArg | Some i2c \<Rightarrow>
     if \<not> dif_is_valid_toggle enabled then ret kDifBadArg
     else do {
       let flag = dif_toggle_to_bool enabled;
       reg \<leftarrow> rd32 B i2c I2C_OVRD_REG_OFFSET;
       let reg = bitfield_bit32_write reg I2C_OVRD_TXOVRDEN_BIT flag;
       wr32 B i2c I2C_OVRD_REG_OFFSET reg;
       ret kDifOk
     })"

definition dif_i2c_override_drive_pins ::
    "'d bus \<Rightarrow> dif_i2c ptr \<Rightarrow> bool \<Rightarrow> bool \<Rightarrow> ('d, dif_result) state" where
  "dif_i2c_override_drive_pins B i2c scl sda = (case i2c of None \<Rightarrow> ret kDifBadArg | Some i2c \<Rightarrow> do {
     override_val \<leftarrow> rd32 B i2c I2C_OVRD_REG_OFFSET;
     let override_val = bitfield_bit32_write override_val I2C_OVRD_SCLVAL_BIT scl;
     let override_val = bitfield_bit32_write override_val I2C_OVRD_SDAVAL_BIT sda;
     wr32 B i2c I2C_OVRD_REG_OFFSET override_val;
     ret kDifOk
   })"

text \<open>Optional out-parameters: a null pointer is left alone.\<close>

definition dif_i2c_override_sample_pins :: "'d bus \<Rightarrow> dif_i2c ptr \<Rightarrow> u16 ptr \<Rightarrow> u16 ptr
    \<Rightarrow> ('d, dif_result \<times> u16 ptr \<times> u16 ptr) state" where
  "dif_i2c_override_sample_pins B i2c scl_samples sda_samples =
     (case i2c of None \<Rightarrow> ret (kDifBadArg, scl_samples, sda_samples) | Some i2c \<Rightarrow> do {
       samples \<leftarrow> rd32 B i2c I2C_VAL_REG_OFFSET;
       ret (kDifOk,
         map_option (\<lambda>_. ucast (bitfield_field32_read samples I2C_VAL_SCL_RX_FIELD)) scl_samples,
         map_option (\<lambda>_. ucast (bitfield_field32_read samples I2C_VAL_SDA_RX_FIELD)) sda_samples)
     })"

definition dif_i2c_get_fifo_levels :: "'d bus \<Rightarrow> dif_i2c ptr \<Rightarrow> dif_i2c_level ptr \<Rightarrow> dif_i2c_level ptr
    \<Rightarrow> dif_i2c_level ptr \<Rightarrow> dif_i2c_level ptr
    \<Rightarrow> ('d, dif_result \<times> dif_i2c_level ptr \<times> dif_i2c_level ptr \<times> dif_i2c_level ptr \<times> dif_i2c_level ptr) state" where
  "dif_i2c_get_fifo_levels B i2c fmt_level rx_level tx_level acq_level =
     (case i2c of None \<Rightarrow> ret (kDifBadArg, fmt_level, rx_level, tx_level, acq_level) | Some i2c \<Rightarrow> do {
       host \<leftarrow> rd32 B i2c I2C_HOST_FIFO_STATUS_REG_OFFSET;
       target \<leftarrow> rd32 B i2c I2C_TARGET_FIFO_STATUS_REG_OFFSET;
       ret (kDifOk,
         map_option (\<lambda>_. ucast (bitfield_field32_read host I2C_HOST_FIFO_STATUS_FMTLVL_FIELD)) fmt_level,
         map_option (\<lambda>_. ucast (bitfield_field32_read host I2C_HOST_FIFO_STATUS_RXLVL_FIELD)) rx_level,
         map_option (\<lambda>_. ucast (bitfield_field32_read target I2C_TARGET_FIFO_STATUS_TXLVL_FIELD)) tx_level,
         map_option (\<lambda>_. ucast (bitfield_field32_read target I2C_TARGET_FIFO_STATUS_ACQLVL_FIELD)) acq_level)
     })"

subsection \<open>Acknowledgement control\<close>

definition dif_i2c_get_auto_ack_count ::
    "'d bus \<Rightarrow> dif_i2c ptr \<Rightarrow> u16 ptr \<Rightarrow> ('d, dif_result \<times> u16 ptr) state" where
  "dif_i2c_get_auto_ack_count B i2c count = (case (i2c, count) of
     (Some i2c, Some _) \<Rightarrow> do {
       reg \<leftarrow> rd32 B i2c I2C_TARGET_ACK_CTRL_REG_OFFSET;
       ret (kDifOk, Some (ucast (bitfield_field32_read reg I2C_TARGET_ACK_CTRL_NBYTES_FIELD)))
     }
   | _ \<Rightarrow> ret (kDifBadArg, count))"

definition dif_i2c_set_auto_ack_count :: "'d bus \<Rightarrow> dif_i2c ptr \<Rightarrow> u16 \<Rightarrow> ('d, dif_result) state" where
  "dif_i2c_set_auto_ack_count B i2c count = (case i2c of None \<Rightarrow> ret kDifBadArg | Some i2c \<Rightarrow>
     if ucast count > I2C_TARGET_ACK_CTRL_NBYTES_MASK then ret kDifBadArg
     else do {
       let reg = bitfield_field32_write 0 I2C_TARGET_ACK_CTRL_NBYTES_FIELD (ucast count);
       wr32 B i2c I2C_TARGET_ACK_CTRL_REG_OFFSET reg;
       ret kDifOk
     })"

definition dif_i2c_nack_transaction :: "'d bus \<Rightarrow> dif_i2c ptr \<Rightarrow> ('d, dif_result) state" where
  "dif_i2c_nack_transaction B i2c = (case i2c of None \<Rightarrow> ret kDifBadArg | Some i2c \<Rightarrow> do {
     let reg = bitfield_bit32_write 0 I2C_TARGET_ACK_CTRL_NACK_BIT True;
     wr32 B i2c I2C_TARGET_ACK_CTRL_REG_OFFSET reg;
     ret kDifOk
   })"

definition dif_i2c_get_pending_acq_byte ::
    "'d bus \<Rightarrow> dif_i2c ptr \<Rightarrow> u8 ptr \<Rightarrow> ('d, dif_result \<times> u8 ptr) state" where
  "dif_i2c_get_pending_acq_byte B i2c data = (case (i2c, data) of
     (Some i2c, Some _) \<Rightarrow> do {
       v \<leftarrow> rd32 B i2c I2C_ACQ_FIFO_NEXT_DATA_REG_OFFSET;
       ret (kDifOk, Some (ucast (0xff AND v)))
     }
   | _ \<Rightarrow> ret (kDifBadArg, data))"

subsection \<open>Data\<close>

definition dif_i2c_read_byte ::
    "'d bus \<Rightarrow> dif_i2c ptr \<Rightarrow> u8 ptr \<Rightarrow> ('d, dif_result \<times> u8 ptr) state" where
  "dif_i2c_read_byte B i2c byte = (case i2c of None \<Rightarrow> ret (kDifBadArg, byte) | Some i2c \<Rightarrow> do {
     values \<leftarrow> rd32 B i2c I2C_RDATA_REG_OFFSET;
     ret (kDifOk, map_option (\<lambda>_. ucast (bitfield_field32_read values I2C_RDATA_RDATA_FIELD)) byte)
   })"

text \<open>\<open>size\<close> counts down, the position in the buffer up.\<close>

fun i2c_read_loop :: "'d bus \<Rightarrow> dif_i2c \<Rightarrow> nat \<Rightarrow> nat \<Rightarrow> u8 list \<Rightarrow> 'd \<Rightarrow> (u8 list \<times> 'd) option" where
  "i2c_read_loop B i2c 0 i buffer d = Some (buffer, d)"
| "i2c_read_loop B i2c (Suc n) i buffer d = do {
     d \<leftarrow> spin_while_status_bit B i2c I2C_STATUS_RXEMPTY_BIT True d;
     let (values, d) = run_state (rd32 B i2c I2C_RDATA_REG_OFFSET) d;
     i2c_read_loop B i2c n (i + 1)
       (buffer[i := ucast (bitfield_field32_read values I2C_RDATA_RDATA_FIELD)]) d
   }"

definition dif_i2c_read_bytes ::
    "'d bus \<Rightarrow> dif_i2c ptr \<Rightarrow> u32 \<Rightarrow> u8 list ptr \<Rightarrow> 'd \<Rightarrow> (dif_result \<times> u8 list ptr \<times> 'd) option" where
  "dif_i2c_read_bytes B i2c len buffer d = (case (i2c, buffer) of
     (Some i2c, Some bytes) \<Rightarrow> do {
       (bytes, d) \<leftarrow> i2c_read_loop B i2c (unat len) 0 bytes d;
       Some (kDifOk, Some bytes, d)
     }
   | _ \<Rightarrow> Some (kDifBadArg, buffer, d))"

record dif_i2c_fmt_flags =
  fmt_start :: bool
  fmt_stop :: bool
  fmt_read :: bool
  fmt_read_cont :: bool
  suppress_nak_irq :: bool

definition parse_flags :: "dif_i2c_fmt_flags \<Rightarrow> u32 \<Rightarrow> dif_result \<times> u32" where
  "parse_flags flags fmt_byte =
     (let has_write_flags = fmt_start flags \<or> suppress_nak_irq flags;
          has_read_flags = fmt_read flags \<or> fmt_read_cont flags
      in if has_write_flags \<and> has_read_flags then (kDifBadArg, fmt_byte)
         else if fmt_read_cont flags \<and> \<not> fmt_read flags then (kDifBadArg, fmt_byte)
         else
           let fmt_byte = bitfield_bit32_write fmt_byte 8 (fmt_start flags);
               fmt_byte = bitfield_bit32_write fmt_byte I2C_FDATA_STOP_BIT (fmt_stop flags);
               fmt_byte = bitfield_bit32_write fmt_byte I2C_FDATA_READB_BIT (fmt_read flags);
               fmt_byte = bitfield_bit32_write fmt_byte I2C_FDATA_RCONT_BIT (fmt_read_cont flags);
               fmt_byte = bitfield_bit32_write fmt_byte I2C_FDATA_NAKOK_BIT (suppress_nak_irq flags)
           in (kDifOk, fmt_byte))"

fun i2c_write_loop :: "'d bus \<Rightarrow> dif_i2c \<Rightarrow> u32 \<Rightarrow> u8 list \<Rightarrow> nat \<Rightarrow> nat \<Rightarrow> 'd \<Rightarrow> 'd option" where
  "i2c_write_loop B i2c fmt_byte bytes 0 i d = Some d"
| "i2c_write_loop B i2c fmt_byte bytes (Suc n) i d = do {
     let reg = bitfield_field32_write fmt_byte I2C_FDATA_FBYTE_FIELD (ucast (bytes ! i));
     let (_, d) = run_state (wr32 B i2c I2C_FDATA_REG_OFFSET reg) d;
     d \<leftarrow> spin_while_status_bit B i2c I2C_STATUS_FMTFULL_BIT True d;
     i2c_write_loop B i2c fmt_byte bytes n (i + 1) d
   }"

definition dif_i2c_write_bytes_raw :: "'d bus \<Rightarrow> dif_i2c ptr \<Rightarrow> u32 \<Rightarrow> u8 list ptr \<Rightarrow> dif_i2c_fmt_flags
    \<Rightarrow> 'd \<Rightarrow> (dif_result \<times> 'd) option" where
  "dif_i2c_write_bytes_raw B i2c len bytes flags d = (case (i2c, bytes) of
     (Some i2c, Some bytes) \<Rightarrow>
       if len = 0 then Some (kDifBadArg, d)
       else (case parse_flags flags 0 of (err, fmt_byte) \<Rightarrow>
         if err \<noteq> kDifOk then Some (err, d)
         else do {
           d \<leftarrow> i2c_write_loop B i2c fmt_byte bytes (unat len) 0 d;
           Some (kDifOk, d)
         })
   | _ \<Rightarrow> Some (kDifBadArg, d))"

definition dif_i2c_write_byte_raw ::
    "'d bus \<Rightarrow> dif_i2c ptr \<Rightarrow> u8 \<Rightarrow> dif_i2c_fmt_flags \<Rightarrow> ('d, dif_result) state" where
  "dif_i2c_write_byte_raw B i2c byte flags = (case i2c of None \<Rightarrow> ret kDifBadArg | Some i2c \<Rightarrow>
     (case parse_flags flags 0 of (err, fmt_byte) \<Rightarrow>
       if err \<noteq> kDifOk then ret err
       else do {
         let fmt_byte = bitfield_field32_write fmt_byte I2C_FDATA_FBYTE_FIELD (ucast byte);
         wr32 B i2c I2C_FDATA_REG_OFFSET fmt_byte;
         ret kDifOk
       }))"

datatype dif_i2c_fmt =
    kDifI2cFmtStart | kDifI2cFmtTx | kDifI2cFmtTxStop | kDifI2cFmtRx | kDifI2cFmtRxContinue
  | kDifI2cFmtRxStop | kDifI2cFmtOther u32

definition i2c_flags_of_code :: "dif_i2c_fmt \<Rightarrow> dif_i2c_fmt_flags \<Rightarrow> dif_i2c_fmt_flags option" where
  "i2c_flags_of_code code flags = (case code of
     kDifI2cFmtStart \<Rightarrow> Some (flags\<lparr>fmt_start := True\<rparr>)
   | kDifI2cFmtTx \<Rightarrow> Some flags
   | kDifI2cFmtTxStop \<Rightarrow> Some (flags\<lparr>fmt_stop := True\<rparr>)
   | kDifI2cFmtRx \<Rightarrow> Some (flags\<lparr>fmt_read := True\<rparr>)
   | kDifI2cFmtRxContinue \<Rightarrow> Some (flags\<lparr>fmt_read := True, fmt_read_cont := True\<rparr>)
   | kDifI2cFmtRxStop \<Rightarrow> Some (flags\<lparr>fmt_read := True, fmt_stop := True\<rparr>)
   | kDifI2cFmtOther _ \<Rightarrow> None)"

definition dif_i2c_write_byte ::
    "'d bus \<Rightarrow> dif_i2c ptr \<Rightarrow> u8 \<Rightarrow> dif_i2c_fmt \<Rightarrow> bool \<Rightarrow> ('d, dif_result) state" where
  "dif_i2c_write_byte B i2c byte code suppress_nak = (case i2c of None \<Rightarrow> ret kDifBadArg | Some _ \<Rightarrow>
     if suppress_nak \<and> (code = kDifI2cFmtRx \<or> code = kDifI2cFmtRxContinue \<or> code = kDifI2cFmtRxStop)
     then ret kDifBadArg
     else case i2c_flags_of_code code \<lparr>fmt_start = False, fmt_stop = False, fmt_read = False,
         fmt_read_cont = False, suppress_nak_irq = suppress_nak\<rparr> of
       None \<Rightarrow> ret kDifBadArg
     | Some flags \<Rightarrow> dif_i2c_write_byte_raw B i2c byte flags)"

definition dif_i2c_transmit_byte :: "'d bus \<Rightarrow> dif_i2c ptr \<Rightarrow> u8 \<Rightarrow> ('d, dif_result) state" where
  "dif_i2c_transmit_byte B i2c byte = (case i2c of None \<Rightarrow> ret kDifBadArg | Some i2c \<Rightarrow> do {
     let tx_byte = bitfield_field32_write 0 I2C_TXDATA_TXDATA_FIELD (ucast byte);
     wr32 B i2c I2C_TXDATA_REG_OFFSET tx_byte;
     ret kDifOk
   })"

text \<open>A signal is the number in the register.\<close>

type_synonym dif_i2c_signal = u32

definition dif_i2c_acquire_byte :: "'d bus \<Rightarrow> dif_i2c ptr \<Rightarrow> u8 ptr \<Rightarrow> dif_i2c_signal ptr
    \<Rightarrow> ('d, dif_result \<times> u8 ptr \<times> dif_i2c_signal ptr) state" where
  "dif_i2c_acquire_byte B i2c byte signal = (case i2c of None \<Rightarrow> ret (kDifBadArg, byte, signal) | Some i2c \<Rightarrow> do {
     acq_byte \<leftarrow> rd32 B i2c I2C_ACQDATA_REG_OFFSET;
     ret (kDifOk,
       map_option (\<lambda>_. ucast (bitfield_field32_read acq_byte I2C_ACQDATA_ABYTE_FIELD)) byte,
       map_option (\<lambda>_. bitfield_field32_read acq_byte I2C_ACQDATA_SIGNAL_FIELD) signal)
   })"

subsection \<open>Timeouts and addresses\<close>

datatype dif_i2c_scl_timeout =
    kDifI2cSclTimeoutDisabled | kDifI2cSclTimeoutStretch | kDifI2cSclTimeoutBus
  | kDifI2cSclTimeoutOther u32

definition i2c_timeout_of :: "dif_i2c_scl_timeout \<Rightarrow> (bool \<times> bool) option" where
  "i2c_timeout_of timeout_type = (case timeout_type of
     kDifI2cSclTimeoutDisabled \<Rightarrow> Some (False, False)
   | kDifI2cSclTimeoutStretch \<Rightarrow> Some (True, I2C_TIMEOUT_CTRL_MODE_VALUE_STRETCH_TIMEOUT \<noteq> 0)
   | kDifI2cSclTimeoutBus \<Rightarrow> Some (True, I2C_TIMEOUT_CTRL_MODE_VALUE_BUS_TIMEOUT \<noteq> 0)
   | kDifI2cSclTimeoutOther _ \<Rightarrow> None)"

definition dif_i2c_enable_clock_timeout ::
    "'d bus \<Rightarrow> dif_i2c ptr \<Rightarrow> dif_i2c_scl_timeout \<Rightarrow> u32 \<Rightarrow> ('d, dif_result) state" where
  "dif_i2c_enable_clock_timeout B i2c timeout_type cycles = (case i2c of None \<Rightarrow> ret kDifBadArg | Some i2c \<Rightarrow>
     (case i2c_timeout_of timeout_type of
        None \<Rightarrow> ret kDifBadArg
      | Some (timeout_en, timeout_mode) \<Rightarrow> do {
          let config = 0;
          let config = bitfield_bit32_write config I2C_TIMEOUT_CTRL_EN_BIT timeout_en;
          let config = bitfield_bit32_write config I2C_TIMEOUT_CTRL_MODE_BIT timeout_mode;
          let config = bitfield_field32_write config I2C_TIMEOUT_CTRL_VAL_FIELD cycles;
          wr32 B i2c I2C_TIMEOUT_CTRL_REG_OFFSET config;
          ret kDifOk
        }))"

record dif_i2c_id =
  id_mask :: u8
  id_address :: u8

definition dif_i2c_set_device_id ::
    "'d bus \<Rightarrow> dif_i2c ptr \<Rightarrow> dif_i2c_id ptr \<Rightarrow> dif_i2c_id ptr \<Rightarrow> ('d, dif_result) state" where
  "dif_i2c_set_device_id B i2c id0 id1 = (case i2c of None \<Rightarrow> ret kDifBadArg | Some i2c \<Rightarrow> do {
     let config = 0;
     let config = (case id0 of
         Some i \<Rightarrow> bitfield_field32_write
           (bitfield_field32_write config I2C_TARGET_ID_ADDRESS0_FIELD (ucast (id_address i)))
           I2C_TARGET_ID_MASK0_FIELD (ucast (id_mask i))
       | None \<Rightarrow> bitfield_field32_write config I2C_TARGET_ID_ADDRESS0_FIELD 0x7f);
     let config = (case id1 of
         Some i \<Rightarrow> bitfield_field32_write
           (bitfield_field32_write config I2C_TARGET_ID_ADDRESS1_FIELD (ucast (id_address i)))
           I2C_TARGET_ID_MASK1_FIELD (ucast (id_mask i))
       | None \<Rightarrow> bitfield_field32_write config I2C_TARGET_ID_ADDRESS1_FIELD 0x7f);
     wr32 B i2c I2C_TARGET_ID_REG_OFFSET config;
     ret kDifOk
   })"

definition dif_i2c_set_host_timeout :: "'d bus \<Rightarrow> dif_i2c ptr \<Rightarrow> u32 \<Rightarrow> ('d, dif_result) state" where
  "dif_i2c_set_host_timeout B i2c cycles = (case i2c of None \<Rightarrow> ret kDifBadArg | Some i2c \<Rightarrow> do {
     wr32 B i2c I2C_HOST_TIMEOUT_CTRL_REG_OFFSET cycles;
     ret kDifOk
   })"

subsection \<open>The timings meet the specification\<close>

text \<open>The minimum times in nanoseconds that the I2C specification gives for a speed class: clock high
  and low, set-up and hold of a start, set-up of data and of a stop, bus free; and the shortest
  clock period.\<close>

definition i2c_minimums :: "dif_i2c_speed \<Rightarrow> nat list" where
  "i2c_minimums speed = (case speed of
     kDifI2cSpeedStandard \<Rightarrow> [4000, 4700, 4700, 4000, 250, 4000, 4700, 10000]
   | kDifI2cSpeedFast \<Rightarrow> [600, 1300, 600, 600, 100, 600, 1300, 2500]
   | kDifI2cSpeedFastPlus \<Rightarrow> [260, 500, 260, 260, 50, 260, 500, 1000]
   | kDifI2cSpeedOther _ \<Rightarrow> [])"

definition i2c_cycles :: "dif_i2c_config \<Rightarrow> nat list" where
  "i2c_cycles c = [unat (scl_time_high_cycles c), unat (scl_time_low_cycles c), unat (start_signal_setup_cycles c),
     unat (start_signal_hold_cycles c), unat (data_signal_setup_cycles c), unat (stop_signal_setup_cycles c),
     unat (stop_signal_hold_cycles c),
     unat (scl_time_high_cycles c) + unat (scl_time_low_cycles c) + unat (rise_cycles c) + unat (fall_cycles c)]"

text \<open>For a positive time that fits 16 bits of clock cycles, the division rounds up: the cycles
  cover the time, and one cycle fewer would not.\<close>

lemma round_up_divide_ceil:
  assumes "0 < a" "0 < b" "unat a \<le> 65535 * unat b"
  shows "unat a \<le> unat (round_up_divide a b) * unat b" "(unat (round_up_divide a b) - 1) * unat b < unat a"
proof -
  have a: "unat (a - 1) = unat a - 1" "0 < unat a" "0 < unat b"
    using assms(1,2) by (simp_all add: unat_minus_one word_gt_0 unat_gt_0)
  let ?q = "(unat a - 1) div unat b"
  have q: "?q < 65535" using assms(3) a by (simp add: div_less_iff_less_mult)
  have "unat ((a - 1) div b + 1) = ?q + 1"
    using q a by (simp add: unat_word_ariths unat_div_distrib)
  moreover have "take_bit 16 (?q + 1) = ?q + 1" using q by (simp only: take_bit_nat_eq_self_iff) simp
  ultimately have r: "unat (round_up_divide a b) = ?q + 1"
    by (simp only: round_up_divide_def Let_def unsigned_ucast_eq) simp
  have "unat a - 1 < (?q + 1) * unat b" using a(3) by (simp only: div_less_iff_less_mult [symmetric])
  then show "unat a \<le> unat (round_up_divide a b) * unat b" by (simp only: r)
  have "?q * unat b \<le> unat a - 1" by simp
  then have "?q * unat b < unat a" using a(2) by linarith
  then show "(unat (round_up_divide a b) - 1) * unat b < unat a" by (simp only: r add_diff_cancel_right')
qed

text \<open>The cycles of a fixed time of at most 10000 ns.\<close>

lemma round_up_divide_nanos:
  assumes "0 < period" "0 < n" "n \<le> 10000"
  shows "n \<le> unat (round_up_divide (of_nat n) period) * unat period"
proof -
  have u: "unat (of_nat n :: u32) = n" using assms(3) by (simp add: unat_of_nat)
  have p: "0 < unat period" using assms(1) by (simp add: unat_gt_0 word_gt_0)
  have "n \<le> 65535 * unat period" using assms(3) p by simp
  then show ?thesis
    using round_up_divide_ceil(1) [of "of_nat n" period] assms(1,2) u by (simp add: word_less_nat_alt)
qed

lemma i2c_defaults:
  assumes "0 < period" "\<forall>x. speed \<noteq> kDifI2cSpeedOther x"
  defines "c \<equiv> default_timing_for_speed speed period"
  shows "list_all2 (\<lambda>n m. m \<le> n * unat period) (take 7 (i2c_cycles c)) (take 7 (i2c_minimums speed))"
  using assms(2) round_up_divide_nanos [OF assms(1), of 4000] round_up_divide_nanos [OF assms(1), of 4700]
    round_up_divide_nanos [OF assms(1), of 250] round_up_divide_nanos [OF assms(1), of 600]
    round_up_divide_nanos [OF assms(1), of 1300] round_up_divide_nanos [OF assms(1), of 100]
    round_up_divide_nanos [OF assms(1), of 260] round_up_divide_nanos [OF assms(1), of 500]
    round_up_divide_nanos [OF assms(1), of 50]
  by (cases speed) (simp_all add: c_def default_timing_for_speed_def i2c_cycles_def i2c_minimums_def)

text \<open>Lengthening the high time: it only ever grows, and the whole clock cycle reaches the period.\<close>

definition i2c_lengthened :: "dif_i2c_config \<Rightarrow> u16 \<Rightarrow> dif_i2c_config" where
  "i2c_lengthened c period_cycles =
     (let n = uint period_cycles - uint (scl_time_low_cycles c) - uint (rise_cycles c) - uint (fall_cycles c);
          c = (if n > uint (scl_time_high_cycles c) then c\<lparr>scl_time_high_cycles := of_int n\<rparr> else c);
          c = (if scl_time_high_cycles c < 4 then c\<lparr>scl_time_high_cycles := 4\<rparr> else c)
      in if scl_time_low_cycles c < 4 then c\<lparr>scl_time_low_cycles := 4\<rparr> else c)"

lemma i2c_lengthened_grows:
  fixes c :: dif_i2c_config
  defines "c' p \<equiv> i2c_lengthened c p"
  shows "unat (scl_time_high_cycles c) \<le> unat (scl_time_high_cycles (c' p))"
    "unat (scl_time_low_cycles c) \<le> unat (scl_time_low_cycles (c' p))"
    "unat p \<le> unat (scl_time_high_cycles (c' p)) + unat (scl_time_low_cycles (c' p)) + unat (rise_cycles (c' p)) + unat (fall_cycles (c' p))"
    "start_signal_setup_cycles (c' p) = start_signal_setup_cycles c" "start_signal_hold_cycles (c' p) = start_signal_hold_cycles c"
    "data_signal_setup_cycles (c' p) = data_signal_setup_cycles c" "stop_signal_setup_cycles (c' p) = stop_signal_setup_cycles c"
    "stop_signal_hold_cycles (c' p) = stop_signal_hold_cycles c" "rise_cycles (c' p) = rise_cycles c" "fall_cycles (c' p) = fall_cycles c"
proof -
  let ?n = "uint p - uint (scl_time_low_cycles c) - uint (rise_cycles c) - uint (fall_cycles c)"
  have nn: "0 \<le> uint (rise_cycles c)" "0 \<le> uint (fall_cycles c)" "0 \<le> uint (scl_time_low_cycles c)" by simp_all
  have le: "?n \<le> uint p" "uint p < 65536" "0 \<le> uint (scl_time_high_cycles c)"
    using uint_lt2p [of p] nn by (linarith, simp_all)
  have n: "uint (of_int ?n :: u16) = ?n" if "uint (scl_time_high_cycles c) < ?n"
  proof -
    have "0 \<le> ?n" "?n < 65536" using that le by linarith+
    then have "take_bit 16 ?n = ?n" by (intro take_bit_int_eq_self) simp_all
    with \<open>0 \<le> ?n\<close> show ?thesis unfolding unsigned_of_int by simp
  qed
  have max4: "uint w \<le> uint (if w < 4 then 4 else w)" for w :: u16
    by (simp add: word_less_def)
  let ?h = "if uint (scl_time_high_cycles c) < ?n then of_int ?n else scl_time_high_cycles c"
  have c': "scl_time_high_cycles (c' p) = (if ?h < 4 then 4 else ?h)"
    "scl_time_low_cycles (c' p) = (if scl_time_low_cycles c < 4 then 4 else scl_time_low_cycles c)"
    "rise_cycles (c' p) = rise_cycles c" "fall_cycles (c' p) = fall_cycles c"
    by (simp_all add: c'_def i2c_lengthened_def Let_def)
  have h: "uint (scl_time_high_cycles c) \<le> uint ?h" "?n \<le> uint ?h" using n by auto
  have ge: "uint ?h \<le> uint (scl_time_high_cycles (c' p))" "uint (scl_time_low_cycles c) \<le> uint (scl_time_low_cycles (c' p))"
    unfolding c' by (rule max4)+
  show "unat (scl_time_high_cycles c) \<le> unat (scl_time_high_cycles (c' p))"
    using h(1) ge(1) by (simp only: unat_eq_nat_uint nat_mono)
  show "unat (scl_time_low_cycles c) \<le> unat (scl_time_low_cycles (c' p))"
    using ge(2) by (simp only: unat_eq_nat_uint nat_mono)
  have "uint p \<le> uint (scl_time_high_cycles (c' p)) + uint (scl_time_low_cycles (c' p)) + uint (rise_cycles (c' p)) + uint (fall_cycles (c' p))"
    using h(2) ge by (simp only: c'(3,4))
  then have "int (unat p) \<le> int (unat (scl_time_high_cycles (c' p)) + unat (scl_time_low_cycles (c' p)) + unat (rise_cycles (c' p)) + unat (fall_cycles (c' p)))"
    by simp
  then show "unat p \<le> unat (scl_time_high_cycles (c' p)) + unat (scl_time_low_cycles (c' p)) + unat (rise_cycles (c' p)) + unat (fall_cycles (c' p))"
    by (simp only: of_nat_le_iff)
qed (simp_all add: c'_def i2c_lengthened_def Let_def)

text \<open>The computation in two steps: the class's defaults with the bus's rise and fall times, then
  the lengthening.\<close>

definition i2c_base_timing :: "dif_i2c_timing_config \<Rightarrow> dif_i2c_config" where
  "i2c_base_timing t = (default_timing_for_speed (lowest_target_device_speed t) (clock_period_nanos t))
     \<lparr>rise_cycles := round_up_divide (sda_rise_nanos t) (clock_period_nanos t),
      fall_cycles := round_up_divide (sda_fall_nanos t) (clock_period_nanos t)\<rparr>"

lemma compute_timing_lengthened:
  assumes "i2c_speed_khz (lowest_target_device_speed t) = Some khz"
  defines "scl \<equiv> if scl_period_nanos t < kNanosPerKBaud div khz then kNanosPerKBaud div khz else scl_period_nanos t"
  shows "dif_i2c_compute_timing t (Some c0) =
    (kDifOk, Some (i2c_lengthened (i2c_base_timing t) (round_up_divide scl (clock_period_nanos t))))"
proof -
  define c P where "c = i2c_base_timing t" and "P = round_up_divide scl (clock_period_nanos t)"
  let ?n = "uint P - uint (scl_time_low_cycles c) - uint (rise_cycles c) - uint (fall_cycles c)"
  have "uint P < 65536" "0 \<le> uint (scl_time_low_cycles c)" "0 \<le> uint (rise_cycles c)" "0 \<le> uint (fall_cycles c)"
    "0 \<le> uint (scl_time_high_cycles c)"
    using uint_lt2p [of P] by simp_all
  then have ok: "\<not> (?n > uint (scl_time_high_cycles c) \<and> (?n < 0 \<or> ?n > 65535))" by linarith
  have "dif_i2c_compute_timing t (Some c0) =
    (if ?n > uint (scl_time_high_cycles c) \<and> (?n < 0 \<or> ?n > 65535) then (kDifOutOfRange, Some c)
     else (kDifOk, Some (i2c_lengthened c P)))"
    unfolding dif_i2c_compute_timing_def assms(1) option.case prod.case Let_def c_def P_def i2c_base_timing_def
      scl_def i2c_lengthened_def by simp
  with ok show ?thesis by (simp only: if_False c_def P_def)
qed

text \<open>C24: The computed I2C timings meet the specification: for every speed class, every positive
  clock period and every bus whose rise and fall times are positive and, with the requested clock
  period, fit 16 bits of clock cycles, the computation succeeds, every set-up, hold, high, low and
  bus-free time is at least the minimum of the class, the rise and fall times are covered, and a
  whole clock cycle is at least the requested period and at least the shortest of the class.\<close>

theorem i2c_timing_meets_minimums:
  fixes t :: dif_i2c_timing_config
  defines "period \<equiv> clock_period_nanos t" and "speed \<equiv> lowest_target_device_speed t"
  assumes "0 < period" "0 < sda_rise_nanos t" "unat (sda_rise_nanos t) \<le> 65535 * unat period"
    "0 < sda_fall_nanos t" "unat (sda_fall_nanos t) \<le> 65535 * unat period"
    "unat (scl_period_nanos t) \<le> 65535 * unat period" "\<forall>x. speed \<noteq> kDifI2cSpeedOther x"
  shows "\<exists>c. dif_i2c_compute_timing t (Some c0) = (kDifOk, Some c)
    \<and> list_all2 (\<lambda>n m. m \<le> n * unat period) (i2c_cycles c) (i2c_minimums speed)
    \<and> unat (sda_rise_nanos t) \<le> unat (rise_cycles c) * unat period
    \<and> unat (sda_fall_nanos t) \<le> unat (fall_cycles c) * unat period
    \<and> unat (scl_period_nanos t) \<le> last (i2c_cycles c) * unat period"
proof -
  obtain khz where khz: "i2c_speed_khz speed = Some khz" "khz \<in> {100, 400, 1000}"
    using assms(9) by (cases speed) (auto simp: i2c_speed_khz_def)
  define slowest where "slowest = kNanosPerKBaud div khz"
  have slow: "unat slowest = last (i2c_minimums speed)" "0 < unat slowest" "unat slowest \<le> 10000"
    using khz assms(9) by (cases speed; auto simp: slowest_def kNanosPerKBaud_def i2c_speed_khz_def i2c_minimums_def)+
  define scl where "scl = (if scl_period_nanos t < slowest then slowest else scl_period_nanos t)"
  have p: "0 < unat period" using assms(3) by (simp add: unat_gt_0 word_gt_0)
  have scl: "unat slowest \<le> unat scl" "unat (scl_period_nanos t) \<le> unat scl" "0 < scl" "unat scl \<le> 65535 * unat period"
    using slow assms(8) p by (auto simp: scl_def word_less_nat_alt)
  define P where "P = round_up_divide scl period"
  define c1 where "c1 = (default_timing_for_speed speed period)\<lparr>rise_cycles := round_up_divide (sda_rise_nanos t) period,
    fall_cycles := round_up_divide (sda_fall_nanos t) period\<rparr>"
  define c where "c = i2c_lengthened c1 P"
  have run: "dif_i2c_compute_timing t (Some c0) = (kDifOk, Some c)"
    using compute_timing_lengthened [of t khz c0] khz(1)
    by (simp add: c_def c1_def P_def scl_def slowest_def i2c_base_timing_def speed_def period_def)
  note g = i2c_lengthened_grows [where c = c1 and p = P, folded c_def]
  have P: "unat scl \<le> unat P * unat period" unfolding P_def by (rule round_up_divide_ceil) (use scl assms(3) in simp_all)
  have total: "unat scl \<le> last (i2c_cycles c) * unat period"
    using g(3) P by (simp add: i2c_cycles_def) (meson mult_le_mono1 order.trans)
  have rf: "unat (sda_rise_nanos t) \<le> unat (rise_cycles c) * unat period" "unat (sda_fall_nanos t) \<le> unat (fall_cycles c) * unat period"
    using round_up_divide_ceil(1) [of "sda_rise_nanos t" period] round_up_divide_ceil(1) [of "sda_fall_nanos t" period] assms(3-7)
    by (simp_all add: g c1_def)
  have up: "m \<le> unat (scl_time_high_cycles c1) * unat period \<Longrightarrow> m \<le> unat (scl_time_high_cycles c) * unat period"
    "m \<le> unat (scl_time_low_cycles c1) * unat period \<Longrightarrow> m \<le> unat (scl_time_low_cycles c) * unat period" for m
    using g(1,2) by (meson mult_le_mono1 order.trans)+
  have "list_all2 (\<lambda>n m. m \<le> n * unat period) (i2c_cycles c) (i2c_minimums speed)"
    using i2c_defaults [OF assms(3,9)] g(4-) up total slow(1) scl(1) assms(9)
    by (cases speed) (simp_all add: i2c_cycles_def i2c_minimums_def c1_def)
  with run rf total scl(2) show ?thesis by (intro exI [of _ c]) simp
qed

lemma i2c_timing_meets_minimums_witness:
  "\<exists>c. dif_i2c_compute_timing \<lparr>lowest_target_device_speed = kDifI2cSpeedFast, clock_period_nanos = 25,
      sda_rise_nanos = 110, sda_fall_nanos = 10, scl_period_nanos = 0\<rparr> (Some \<lparr>scl_time_high_cycles = 0, scl_time_low_cycles = 0, rise_cycles = 0, fall_cycles = 0,
      start_signal_setup_cycles = 0, start_signal_hold_cycles = 0, data_signal_setup_cycles = 0,
      data_signal_hold_cycles = 0, stop_signal_setup_cycles = 0, stop_signal_hold_cycles = 0\<rparr>) = (kDifOk, Some c)
    \<and> 110 \<le> unat (rise_cycles c) * 25"
  using i2c_timing_meets_minimums [of "\<lparr>lowest_target_device_speed = kDifI2cSpeedFast, clock_period_nanos = 25,
      sda_rise_nanos = 110, sda_fall_nanos = 10, scl_period_nanos = 0\<rparr>" "\<lparr>scl_time_high_cycles = 0, scl_time_low_cycles = 0, rise_cycles = 0, fall_cycles = 0,
      start_signal_setup_cycles = 0, start_signal_hold_cycles = 0, data_signal_setup_cycles = 0,
      data_signal_hold_cycles = 0, stop_signal_setup_cycles = 0, stop_signal_hold_cycles = 0\<rparr>"]
  by auto

text \<open>A zero time wraps around: \<open>(0 - 1) div b + 1\<close> is about \<open>2 ^ 32 div b\<close>, of which the low sixteen
  bits are kept, where no cycles at all were asked for.\<close>

lemma round_up_divide_zero: "round_up_divide 0 25 = 28836"
  by (simp add: round_up_divide_def)

end
