(* ===== verification/Spec2Isabelle.thy ===== *)
theory Spec2Isabelle
  imports Hexdump UjsonRoundtrip RvCoreIbex IrqDifs UsbControlep UsbTransfer UsbSafety UsbStreams UsbStreamCheck UsbStreamResume UsbStreamSend UsbSystem Status Crc32 BaseMath Memory Uart Usbdev Gpio RvTimer RvPlic AonTimer Pwm SpiHost I2c
begin

text \<open>The device library of the repository (\<^verbatim>\<open>src/sw/device/lib\<close>) is the C code that test programs
  and applications of the chip link against: freestanding replacements for a few C library
  functions, accessors for memory-mapped registers, and one ``device interface function'' (DIF)
  driver per peripheral. This development models that library. The names of functions, types,
  registers and enumerators are the ones of the C code, and the comments below say where a
  definition departs from the shape of the C text.

  \<^bold>\<open>How the C code is rendered.\<close> Machine integers are words of their width (\<^verbatim>\<open>u8\<close> to \<^verbatim>\<open>u64\<close>), so
  every conversion and wrap-around of the code is one of the model. A pointer that the code only
  tests for \<^verbatim>\<open>NULL\<close> and reads or writes through is an \<^verbatim>\<open>option\<close> (\<^verbatim>\<open>ptr\<close>), an out parameter is also
  part of the result, and a buffer is a list of bytes or, where addresses and their alignment
  matter (\<^verbatim>\<open>memory.c\<close>, \<^verbatim>\<open>crc32.c\<close>, the SPI FIFO functions), a 32-bit address space. Every result code is a
  constructor of \<^verbatim>\<open>dif_result\<close>; enumerations that a caller can give out of range have one more
  constructor for the other values, so the \<^verbatim>\<open>default\<close> branches are modelled. A function that accesses
  registers is a state transformer over an abstract \<^verbatim>\<open>bus\<close> with 8 and 32 bit reads and writes; the
  device behind the bus is a parameter, and reads may change it. A loop that waits for the
  hardware is a \<^verbatim>\<open>partial_function\<close> whose value is \<^verbatim>\<open>None\<close> when it never ends, and so is a loop
  whose end depends on its input (the JSON parsers, the hex dump, the digits of a number); that it
  ends is then proved. All other loops are structural recursions over their trip count. No fuel is
  used anywhere. A callback of the C code (\<^verbatim>\<open>buffer_sink_t\<close>, the \<^verbatim>\<open>putbuf\<close> and \<^verbatim>\<open>getc\<close> of ujson) is a
  function argument with a state of its own that it threads.

  \<^bold>\<open>The theories.\<close>
  \<^item> Prelude: types, notation for pointers and state, facts on words that all others share.
  \<^item> Bitfield, BaseMath, Memory, Crc32, Status: \<^verbatim>\<open>base/bitfield.h\<close>, \<^verbatim>\<open>math.c\<close>, \<^verbatim>\<open>memory.c\<close>, \<^verbatim>\<open>crc32.c\<close>,
    \<^verbatim>\<open>status.c\<close>. memcpy, memset, memcmp and memchr are shown to do what their names say for every
    alignment of their buffers, the CRC to be independent of the alignment and to detect every burst of
    up to 32 bits.
  \<^item> Mmio: \<^verbatim>\<open>base/mmio.h\<close> and \<^verbatim>\<open>mmio.c\<close>: the accessors, the read-modify-write helpers and the copies between
    memory and registers, with buses of plain, write-one-to-clear and other registers to run on.
  \<^item> Regs: the constants of the generated register headers that the drivers use.
  \<^item> DifBase: \<^verbatim>\<open>dif_base.h\<close>, handles and the register file buses on which drivers are run.
  \<^item> RunningTimer: a 64-bit counter that advances between any two register accesses, with a
    comparator; the locale states what a timer's register layout must satisfy, and RvTimer and
    AonTimer interpret it.
  \<^item> Uart, Usbdev, Gpio, RvTimer, RvPlic, AonTimer, Pwm (with the pattern generator), SpiHost, I2c: one
    driver each, every operation of \<^verbatim>\<open>dif_<name>.c\<close>, followed by a model of the part of the device that
    the properties need and the properties.
  \<^item> RvCoreIbex: \<^verbatim>\<open>dif_rv_core_ibex.c\<close>: address translation with NAPOT regions, software alerts, error
    and NMI state, the FPGA information and the random data register.
  \<^item> IrqDifs: the generated interrupt functions (\<^verbatim>\<open>dif/autogen\<close>) of seven devices, all instances of one
    template, with a model of the interrupt primitive of the hardware (event and status interrupts). The
    interrupts of a device, their bits and the offsets of their registers are taken from the hardware
    descriptions under \<^verbatim>\<open>hw/vendor\<close>, and the driver is shown to agree with them.
  \<^item> Print, Hexdump: \<^verbatim>\<open>runtime/print.c\<close>: the format interpreter of \<^verbatim>\<open>base_printf\<close> with all its
    directives, the sinks, \<^verbatim>\<open>base_snprintf\<close>, and the hex dump with the text it prints.
  \<^item> Ujson, UjsonRoundtrip: \<^verbatim>\<open>ujson/ujson.c\<close> and the serialisers of \<^verbatim>\<open>status_t\<close>, and the in-memory pipe of its
    tests, over which values are written and parsed back.
  \<^item> UsbSystem: the USB driver together with the packet buffers, the buffer FIFOs and the endpoints of
    the device: reachable states under driver calls, packet receptions and transmissions.
  \<^item> TestFramework: the checks and early returns of the test libraries (\<^verbatim>\<open>TRY\<close>, \<^verbatim>\<open>CHECK\<close>, \<^verbatim>\<open>UNWRAP\<close>) as
    programs over the state of a test.
  \<^item> UsbTestutils, UsbControlep: \<^verbatim>\<open>testing/usb_testutils.c\<close> and \<^verbatim>\<open>usb_testutils_controlep.c\<close>, the USB stack
    of the tests on top of the driver: endpoints with their callbacks, transfers, polling, and the
    default control pipe with its state machine.
  \<^item> UsbTransfer: a whole transfer of that stack on the device of UsbSystem, with a host that fetches
    the packets.
  \<^item> UsbSafety: every call of that stack with arguments in range, with the callbacks of the control pipe,
    keeps its tables well formed, on every device that reports packets only for endpoints it has.
  \<^item> UsbStreams: \<^verbatim>\<open>testing/usb_testutils_streams.c\<close>: the streams of pseudo-random bytes that the chip and the
    host generate and check. UsbStreamCheck: the packets that a poll accepts. UsbStreamResume: saving
    the streams before a sleep and loading them after it. UsbStreamSend: what the host receives, for every
    order of services and host requests.

  \<^bold>\<open>What is shown.\<close> The properties, which the text blocks number, are about what a driver does with
  the device and not about its code: the USB packet buffers have one owner at any time; the timer
  drivers read, write and arm a counter that runs while they do; the UART and SPI host transfer
  exactly the bytes they are given, in order; the settings of the interrupt controller do not
  disturb one another; the interrupt functions of every device act on its pending and enabled
  interrupts as on sets; an address translation slot maps exactly its region; pin triggers
  are exact; I2C timings satisfy the bus specification and PWM duty cycles are exact. Numbers are
  printed so that they read back, a bounded print never leaves its buffer, a hex dump has the layout of
  \<^verbatim>\<open>xxd\<close>, strings, integers,
  booleans and statuses survive the way through JSON, and the JSON parsers return on every input. A
  USB transfer goes over the bus in packets, once and in order, whatever is prepared ahead, its
  stack never leaves its tables, a stream check accepts exactly the bytes of the stream, what
  the host gets of a stream is unbroken, and streams survive a sleep. The
  device models are read off the hardware documentation, not off the driver, and are stated before
  the properties that use them.

  \<^bold>\<open>Interfaces.\<close> Where a proof needs only some laws of a device they are the assumptions of a locale
  (the timers, the UART and SPI FIFOs, the interrupt block of a device and the agreement of its driver with
  the hardware description), and each locale is interpreted on the device model. What a client of the USB stack must keep is a locale of UsbSafety,
  interpreted on the control pipe. The source and the sink of the JSON functions and the sink of
  the printing functions are locales too, interpreted on the pipe, on the buffer of \<^verbatim>\<open>base_snprintf\<close> and
  on the UART.

  \<^bold>\<open>Not modelled.\<close> Inline assembly (interrupt enables, control and status registers, cache and
  capability operations), the pin multiplexer driver, whose code is switched
  off by \<^verbatim>\<open>#if 0\<close> since the chip has no such block (the stubs that remain return a constant), the
  test programs, their framework and the test utilities
  other than the USB stack and its stream checker, the hardware
  description and the build scripts.\<close>

end
